(* ===== verification/Prelude.thy ===== *)
theory Prelude
  imports Main "HOL-Library.Sublist" "HOL-Library.Multiset"
begin

text \<open>
  Shared vocabulary of the development: bytes and byte strings as the Go code handles
  them, the slices of the packages \<open>bytes\<close> and \<open>strings\<close> that the program uses, decimal
  printing, and the generic notion of a state reachable by a step relation.

  A Go \<open>string\<close> or \<open>[]byte\<close> is a \<open>char list\<close>: a \<open>char\<close> of HOL is one byte.
\<close>

section \<open>Collections of facts\<close>

named_theorems go_simps \<open>defining equations of small operations\<close>
named_theorems inv_intros \<open>preservation of component invariants by single operations\<close>

section \<open>Bytes\<close>

abbreviation byte :: "char \<Rightarrow> nat" where
  "byte c \<equiv> of_char c"

abbreviation newline :: char where "newline \<equiv> CHR 0x0A"
abbreviation dquote :: char where "dquote \<equiv> CHR 0x22"
abbreviation backslash :: char where "backslash \<equiv> CHR 0x5C"

definition is_digit :: "char \<Rightarrow> bool" where
  "is_digit c \<longleftrightarrow> 48 \<le> byte c \<and> byte c \<le> 57"

definition is_lower :: "char \<Rightarrow> bool" where
  "is_lower c \<longleftrightarrow> 97 \<le> byte c \<and> byte c \<le> 122"

definition is_upper :: "char \<Rightarrow> bool" where
  "is_upper c \<longleftrightarrow> 65 \<le> byte c \<and> byte c \<le> 90"

definition digit_val :: "char \<Rightarrow> nat" where
  "digit_val c = byte c - 48"

definition digit_char :: "nat \<Rightarrow> char" where
  "digit_char n = char_of (48 + n)"

definition upper_char :: "char \<Rightarrow> char" where
  "upper_char c = (if is_lower c then char_of (byte c - 32) else c)"

definition lower_char :: "char \<Rightarrow> char" where
  "lower_char c = (if is_upper c then char_of (byte c + 32) else c)"

lemma byte_less [simp]: "byte c < 256"
  using of_char_mod_256 [of c, where ?'a = nat] by (metis mod_less_divisor zero_less_numeral)

lemma byte_inject [simp]: "byte c = byte d \<longleftrightarrow> c = d"
  by simp

lemma byte_char_of: "n < 256 \<Longrightarrow> byte (char_of n) = n"
  by simp

lemma digit_char_is_digit [simp]: "n < 10 \<Longrightarrow> is_digit (digit_char n)"
  by (simp add: is_digit_def digit_char_def)

lemma digit_val_digit_char [simp]: "n < 10 \<Longrightarrow> digit_val (digit_char n) = n"
  by (simp add: digit_val_def digit_char_def)

lemma digit_char_digit_val [simp]: "is_digit c \<Longrightarrow> digit_char (digit_val c) = c"
  by (simp add: is_digit_def digit_val_def digit_char_def)

lemma digit_val_less [simp]: "is_digit c \<Longrightarrow> digit_val c < 10"
  unfolding is_digit_def digit_val_def by linarith

lemma digit_val_inj: "is_digit c \<Longrightarrow> is_digit d \<Longrightarrow> digit_val c = digit_val d \<longleftrightarrow> c = d"
  by (metis digit_char_digit_val)

lemma is_digit_zero_iff: "is_digit c \<Longrightarrow> digit_val c = 0 \<longleftrightarrow> c = CHR ''0''"
  using digit_val_inj [of c "CHR ''0''"] by (simp add: is_digit_def digit_val_def)

section \<open>Slices of the packages bytes and strings\<close>

text \<open>\<open>strings.HasPrefix\<close>, \<open>strings.TrimPrefix\<close> and their suffix counterparts.\<close>

definition has_prefix :: "string \<Rightarrow> string \<Rightarrow> bool" where
  "has_prefix s p \<longleftrightarrow> take (length p) s = p"

definition trim_prefix :: "string \<Rightarrow> string \<Rightarrow> string" where
  "trim_prefix s p = (if has_prefix s p then drop (length p) s else s)"

definition has_suffix :: "string \<Rightarrow> string \<Rightarrow> bool" where
  "has_suffix s p \<longleftrightarrow> has_prefix (rev s) (rev p)"

definition trim_suffix :: "string \<Rightarrow> string \<Rightarrow> string" where
  "trim_suffix s p = (if has_suffix s p then take (length s - length p) s else s)"

lemma has_prefix_append [simp]: "has_prefix (p @ s) p"
  by (simp add: has_prefix_def)

lemma has_prefix_iff: "has_prefix s p \<longleftrightarrow> (\<exists>r. s = p @ r)"
  by (metis append_eq_conv_conj append_take_drop_id has_prefix_def)

lemma trim_prefix_append [simp]: "trim_prefix (p @ s) p = s"
  by (simp add: trim_prefix_def has_prefix_def)

lemma has_suffix_iff: "has_suffix s p \<longleftrightarrow> (\<exists>r. s = r @ p)"
  by (simp add: has_suffix_def has_prefix_iff) (metis rev_append rev_rev_ident)

lemma trim_suffix_append [simp]: "trim_suffix (s @ p) p = s"
  by (simp add: trim_suffix_def has_suffix_iff)

text \<open>\<open>strings.Split\<close> at a one-byte separator (the only separators the program uses).\<close>

fun split_on :: "char \<Rightarrow> string \<Rightarrow> string list" where
  "split_on c [] = [[]]"
| "split_on c (x # xs) =
     (if x = c then [] # split_on c xs
      else (case split_on c xs of [] \<Rightarrow> [[x]] | p # ps \<Rightarrow> (x # p) # ps))"

text \<open>\<open>strings.Join\<close>.\<close>

fun join_with :: "string \<Rightarrow> string list \<Rightarrow> string" where
  "join_with sep [] = []"
| "join_with sep [x] = x"
| "join_with sep (x # xs) = x @ sep @ join_with sep xs"

lemma split_on_nonempty [simp]: "split_on c s \<noteq> []"
  by (induction s) (auto split: list.splits)

lemma join_with_Cons: "xs \<noteq> [] \<Longrightarrow> join_with sep (x # xs) = x @ sep @ join_with sep xs"
  by (cases xs) auto

lemma join_split_on: "join_with [c] (split_on c s) = s"
proof (induction s)
  case Nil
  then show ?case by simp
next
  case (Cons x xs)
  obtain p ps where ps: "split_on c xs = p # ps"
    by (cases "split_on c xs") auto
  show ?case
  proof (cases ps)
    case Nil
    with Cons ps show ?thesis by (auto simp: join_with_Cons)
  next
    case (Cons q qs)
    with \<open>join_with [c] (split_on c xs) = xs\<close> ps show ?thesis by (auto simp: join_with_Cons)
  qed
qed

lemma split_on_parts: "p \<in> set (split_on c s) \<Longrightarrow> c \<notin> set p"
  by (induction s arbitrary: p) (auto split: list.splits if_splits)

text \<open>\<open>strings.Cut\<close> at a one-byte separator: before, after and whether it was found.\<close>

fun cut_at :: "char \<Rightarrow> string \<Rightarrow> string \<times> string \<times> bool" where
  "cut_at c [] = ([], [], False)"
| "cut_at c (x # xs) =
     (if x = c then ([], xs, True)
      else (case cut_at c xs of (a, b, ok) \<Rightarrow> (x # a, b, ok)))"

text \<open>\<open>strings.Contains\<close>.\<close>

fun contains_str :: "string \<Rightarrow> string \<Rightarrow> bool" where
  "contains_str [] p = (p = [])"
| "contains_str (x # xs) p = (has_prefix (x # xs) p \<or> contains_str xs p)"

lemma contains_str_iff: "contains_str s p \<longleftrightarrow> (\<exists>a b. s = a @ p @ b)"
proof (induction s)
  case Nil
  then show ?case by auto
next
  case (Cons x xs)
  show ?case
  proof
    assume "contains_str (x # xs) p"
    then show "\<exists>a b. x # xs = a @ p @ b"
    proof (cases "has_prefix (x # xs) p")
      case True
      then obtain r where "x # xs = [] @ p @ r" by (auto simp: has_prefix_iff)
      then show ?thesis by blast
    next
      case False
      with \<open>contains_str (x # xs) p\<close> Cons.IH obtain a b where "xs = a @ p @ b" by auto
      then have "x # xs = (x # a) @ p @ b" by simp
      then show ?thesis by blast
    qed
  next
    assume "\<exists>a b. x # xs = a @ p @ b"
    then obtain a b where ab: "x # xs = a @ p @ b" by blast
    show "contains_str (x # xs) p"
    proof (cases a)
      case Nil
      with ab have "has_prefix (x # xs) p" by (auto simp: has_prefix_iff)
      then show ?thesis by simp
    next
      case (Cons y ys)
      with ab have "xs = ys @ p @ b" by simp
      with Cons.IH show ?thesis by auto
    qed
  qed
qed

text \<open>
  \<open>bytes.TrimSpace\<close> and \<open>strings.TrimSpace\<close> strip white space as Unicode defines it, which
  is more than the four bytes JSON allows. These are the byte sequences of those code
  points in UTF-8.
\<close>

definition space_seqs :: "string list" where
  "space_seqs =
     [[CHR 0x09], [CHR 0x0A], [CHR 0x0B], [CHR 0x0C], [CHR 0x0D], [CHR 0x20],
      [CHR 0xC2, CHR 0x85], [CHR 0xC2, CHR 0xA0], [CHR 0xE1, CHR 0x9A, CHR 0x80],
      [CHR 0xE2, CHR 0x80, CHR 0x80], [CHR 0xE2, CHR 0x80, CHR 0x81],
      [CHR 0xE2, CHR 0x80, CHR 0x82], [CHR 0xE2, CHR 0x80, CHR 0x83],
      [CHR 0xE2, CHR 0x80, CHR 0x84], [CHR 0xE2, CHR 0x80, CHR 0x85],
      [CHR 0xE2, CHR 0x80, CHR 0x86], [CHR 0xE2, CHR 0x80, CHR 0x87],
      [CHR 0xE2, CHR 0x80, CHR 0x88], [CHR 0xE2, CHR 0x80, CHR 0x89],
      [CHR 0xE2, CHR 0x80, CHR 0x8A], [CHR 0xE2, CHR 0x80, CHR 0xA8],
      [CHR 0xE2, CHR 0x80, CHR 0xA9], [CHR 0xE2, CHR 0x80, CHR 0xAF],
      [CHR 0xE2, CHR 0x81, CHR 0x9F], [CHR 0xE3, CHR 0x80, CHR 0x80]]"

text \<open>The width of the space at the front of a string, 0 when there is none.\<close>

definition space_width :: "string list \<Rightarrow> string \<Rightarrow> nat" where
  "space_width seqs s = (case find (has_prefix s) seqs of None \<Rightarrow> 0 | Some p \<Rightarrow> length p)"

function strip_spaces :: "string list \<Rightarrow> string \<Rightarrow> string" where
  "strip_spaces seqs s =
     (if s = [] \<or> space_width seqs s = 0 then s
      else strip_spaces seqs (drop (space_width seqs s) s))"
  by pat_completeness auto
termination
  by (relation "measure (\<lambda>(seqs, s). length s)") auto

declare strip_spaces.simps [simp del]

definition trim_space :: "string \<Rightarrow> string" where
  "trim_space s = rev (strip_spaces (map rev space_seqs) (rev (strip_spaces space_seqs s)))"

lemma strip_spaces_suffix: "suffix (strip_spaces seqs s) s"
proof (induction seqs s rule: strip_spaces.induct)
  case (1 seqs s)
  then show ?case
    by (subst strip_spaces.simps) (auto intro: suffix_order.trans suffix_drop)
qed

lemma strip_spaces_id: "space_width seqs s = 0 \<Longrightarrow> strip_spaces seqs s = s"
  by (subst strip_spaces.simps) simp

lemma strip_spaces_width: "strip_spaces seqs s \<noteq> [] \<Longrightarrow> space_width seqs (strip_spaces seqs s) = 0"
proof (induction seqs s rule: strip_spaces.induct)
  case (1 seqs s)
  show ?case
  proof (cases "s = [] \<or> space_width seqs s = 0")
    case True
    with "1.prems" show ?thesis by (auto simp: strip_spaces.simps [of seqs s])
  next
    case False
    then have eq: "strip_spaces seqs s = strip_spaces seqs (drop (space_width seqs s) s)"
      by (simp add: strip_spaces.simps [of seqs s])
    from "1.IH" [OF False] "1.prems" show ?thesis unfolding eq by blast
  qed
qed

lemma space_width_prefix:
  assumes "space_width seqs (a @ b) = 0" "\<forall>p \<in> set seqs. p \<noteq> []"
  shows "space_width seqs a = 0"
proof -
  have "find (has_prefix (a @ b)) seqs = None"
  proof (rule ccontr)
    assume "find (has_prefix (a @ b)) seqs \<noteq> None"
    then obtain p where p: "find (has_prefix (a @ b)) seqs = Some p" by blast
    then have "p \<in> set seqs" by (auto simp: find_Some_iff)
    with p assms show False by (auto simp: space_width_def)
  qed
  then have "\<forall>p \<in> set seqs. \<not> has_prefix (a @ b) p" by (simp add: find_None_iff)
  then have "\<forall>p \<in> set seqs. \<not> has_prefix a p" by (auto simp: has_prefix_iff)
  then have "find (has_prefix a) seqs = None" by (simp add: find_None_iff)
  then show ?thesis by (simp add: space_width_def)
qed

lemma space_seqs_parts: "\<forall>p \<in> set space_seqs. p \<noteq> []" "\<forall>p \<in> set (map rev space_seqs). p \<noteq> []"
  by (simp_all add: space_seqs_def)

lemma trim_space_idem [simp]: "trim_space (trim_space s) = trim_space s"
proof -
  let ?L = space_seqs and ?R = "map rev space_seqs"
  define x where "x = strip_spaces ?L s"
  define y where "y = strip_spaces ?R (rev x)"
  have t: "trim_space s = rev y" by (simp add: trim_space_def x_def y_def)
  obtain a where "rev x = a @ y" using strip_spaces_suffix [of ?R "rev x"] by (auto simp: y_def suffix_def)
  then have x: "x = rev y @ rev a" by (metis rev_append rev_rev_ident)
  have "strip_spaces ?L (rev y) = rev y"
  proof (cases "y = []")
    case False
    then have "x \<noteq> []" using x by auto
    then have "space_width ?L (rev y @ rev a) = 0"
      using strip_spaces_width [of ?L s] x by (simp add: x_def)
    then show ?thesis using space_width_prefix space_seqs_parts(1) by (intro strip_spaces_id) blast
  qed (simp add: strip_spaces.simps)
  moreover have "strip_spaces ?R y = y"
  proof (cases "y = []")
    case False
    then show ?thesis using strip_spaces_width [of ?R "rev x"] by (intro strip_spaces_id) (simp add: y_def)
  qed (simp add: strip_spaces.simps)
  ultimately show ?thesis by (simp add: t) (simp add: trim_space_def)
qed

text \<open>Text that starts and ends with a visible ASCII character is not trimmed.\<close>

lemma space_width_visible:
  assumes "32 < byte c" "byte c < 127"
  shows "space_width space_seqs (c # r) = 0" "space_width (map rev space_seqs) (c # r) = 0"
proof -
  have "c \<notin> {CHR 0x09, CHR 0x0A, CHR 0x0B, CHR 0x0C, CHR 0x0D, CHR 0x20, CHR 0xC2, CHR 0xE1, CHR 0xE2, CHR 0xE3}"
    "c \<notin> {CHR 0x80, CHR 0x81, CHR 0x82, CHR 0x83, CHR 0x84, CHR 0x85, CHR 0x86, CHR 0x87, CHR 0x88, CHR 0x89,
      CHR 0x8A, CHR 0xA0, CHR 0xA8, CHR 0xA9, CHR 0xAF, CHR 0x9F}"
    using assms by auto
  then show "space_width space_seqs (c # r) = 0" "space_width (map rev space_seqs) (c # r) = 0"
    by (auto simp: space_width_def space_seqs_def has_prefix_def)
qed

lemma trim_space_visible:
  assumes "s \<noteq> []" "32 < byte (hd s)" "byte (hd s) < 127" "32 < byte (last s)" "byte (last s) < 127"
  shows "trim_space s = s"
proof -
  obtain c r where s: "s = c # r" using assms(1) by (cases s) auto
  obtain d q where t: "rev s = d # q" using assms(1) by (cases "rev s") auto
  have "last s = d" using t assms(1) by (metis hd_rev list.sel(1))
  with assms s t show ?thesis
    by (simp add: trim_space_def strip_spaces_id space_width_visible)
       (metis rev_swap rev.simps(2))
qed

text \<open>\<open>strings.Trim\<close> and \<open>strings.TrimRight\<close> with a one-byte cut set.\<close>

definition trim_left_char :: "char \<Rightarrow> string \<Rightarrow> string" where
  "trim_left_char c s = dropWhile (\<lambda>x. x = c) s"

definition trim_right_char :: "char \<Rightarrow> string \<Rightarrow> string" where
  "trim_right_char c s = rev (dropWhile (\<lambda>x. x = c) (rev s))"

lemma dropWhile_replicate_split:
  "\<exists>n. s = replicate n c @ dropWhile (\<lambda>x. x = c) s"
proof (induction s)
  case (Cons a s)
  then obtain n where "s = replicate n c @ dropWhile (\<lambda>x. x = c) s" by blast
  then show ?case
    by (cases "a = c") (auto intro: exI [of _ "Suc n"] exI [of _ 0])
qed simp

lemma trim_left_char_split: "\<exists>n. s = replicate n c @ trim_left_char c s"
  using dropWhile_replicate_split by (auto simp: trim_left_char_def)

lemma trim_right_char_split: "\<exists>n. s = trim_right_char c s @ replicate n c"
proof -
  from dropWhile_replicate_split [of "rev s" c]
  obtain n where n: "rev s = replicate n c @ dropWhile (\<lambda>x. x = c) (rev s)" ..
  have "rev (rev s) = rev (replicate n c @ dropWhile (\<lambda>x. x = c) (rev s))"
    using n by (rule arg_cong)
  then have "s = trim_right_char c s @ replicate n c"
    by (simp add: trim_right_char_def)
  then show ?thesis by blast
qed

section \<open>Decimal printing\<close>

text \<open>\<open>strconv.Itoa\<close> on non-negative numbers, and on integers.\<close>

fun show_nat :: "nat \<Rightarrow> string" where
  "show_nat n = (if n < 10 then [digit_char n] else show_nat (n div 10) @ [digit_char (n mod 10)])"

declare show_nat.simps [simp del]

definition show_int :: "int \<Rightarrow> string" where
  "show_int i = (if i < 0 then CHR ''-'' # show_nat (nat (- i)) else show_nat (nat i))"

fun nat_of_digits :: "string \<Rightarrow> nat" where
  "nat_of_digits s = fold (\<lambda>c n. 10 * n + digit_val c) s 0"

declare nat_of_digits.simps [simp del]

lemma nat_of_digits_Nil [simp]: "nat_of_digits [] = 0"
  by (simp add: nat_of_digits.simps)

lemma nat_of_digits_snoc [simp]: "nat_of_digits (s @ [c]) = 10 * nat_of_digits s + digit_val c"
  by (simp add: nat_of_digits.simps)

lemma nat_of_digits_append:
  "nat_of_digits (s @ t) = nat_of_digits s * 10 ^ length t + nat_of_digits t"
proof (induction t rule: rev_induct)
  case (snoc c t)
  have "nat_of_digits (s @ t @ [c]) = 10 * nat_of_digits (s @ t) + digit_val c"
    using nat_of_digits_snoc [of "s @ t" c] by simp
  with snoc show ?case by (simp add: algebra_simps)
qed simp

lemma nat_of_digits_less: "(\<forall>c \<in> set s. is_digit c) \<Longrightarrow> nat_of_digits s < 10 ^ length s"
proof (induction s rule: rev_induct)
  case (snoc c s)
  then have "nat_of_digits s < 10 ^ length s" and "digit_val c < 10" by auto
  then show ?case by simp
qed simp

lemma show_nat_digits: "c \<in> set (show_nat n) \<Longrightarrow> is_digit c"
proof (induction n rule: show_nat.induct)
  case (1 n)
  then show ?case
    by (auto simp: show_nat.simps [of n] split: if_splits)
qed

lemma show_nat_nonempty [simp]: "show_nat n \<noteq> []"
  by (subst show_nat.simps) simp

lemma nat_of_digits_show_nat [simp]: "nat_of_digits (show_nat n) = n"
proof (induction n rule: show_nat.induct)
  case (1 n)
  show ?case
  proof (cases "n < 10")
    case True
    then show ?thesis
      using nat_of_digits_snoc [of "[]"] by (simp add: show_nat.simps [of n])
  next
    case False
    with 1 show ?thesis by (simp add: show_nat.simps [of n])
  qed
qed

lemma show_nat_inject [simp]: "show_nat m = show_nat n \<longleftrightarrow> m = n"
  by (metis nat_of_digits_show_nat)

section \<open>Reachable states\<close>

text \<open>
  The interleavings of goroutines are step relations over a shared state. A state is
  reachable when some finite sequence of steps leads to it from an initial state.
\<close>

inductive reach :: "('s \<Rightarrow> bool) \<Rightarrow> ('s \<Rightarrow> 's \<Rightarrow> bool) \<Rightarrow> 's \<Rightarrow> bool"
  for init :: "'s \<Rightarrow> bool" and step :: "'s \<Rightarrow> 's \<Rightarrow> bool" where
  reach_init: "init s \<Longrightarrow> reach init step s"
| reach_step: "reach init step s \<Longrightarrow> step s t \<Longrightarrow> reach init step t"

text \<open>
  The interface every component with an invariant offers: it holds initially and each
  atomic step keeps it. The client's conclusion is that it holds in every reachable state.
\<close>

locale invariant_system =
  fixes init :: "'s \<Rightarrow> bool"
    and step :: "'s \<Rightarrow> 's \<Rightarrow> bool"
    and inv :: "'s \<Rightarrow> bool"
  assumes inv_init: "init s \<Longrightarrow> inv s"
    and inv_step: "inv s \<Longrightarrow> step s t \<Longrightarrow> inv t"
begin

lemma reach_inv: "reach init step s \<Longrightarrow> inv s"
  by (induction rule: reach.induct) (auto intro: inv_init inv_step)

lemma steps_inv: "inv s \<Longrightarrow> step\<^sup>*\<^sup>* s t \<Longrightarrow> inv t"
  by (rotate_tac 1) (induction rule: rtranclp_induct, auto intro: inv_step)

end

text \<open>
  One component inside another: the part \<open>part s\<close> of the whole state makes the steps of the
  component, so that what the component guarantees holds in every state of the whole.
\<close>

locale part_of =
  fixes init :: "'s \<Rightarrow> bool"
    and step :: "'s \<Rightarrow> 's \<Rightarrow> bool"
    and p_init :: "'a \<Rightarrow> bool"
    and p_step :: "'a \<Rightarrow> 'a \<Rightarrow> bool"
    and part :: "'s \<Rightarrow> 'a"
  assumes part_init: "init s \<Longrightarrow> p_init (part s)"
    and part_step: "reach init step s \<Longrightarrow> step s t \<Longrightarrow> p_step\<^sup>*\<^sup>* (part s) (part t)"
begin

lemma part_reach: "reach init step s \<Longrightarrow> reach p_init p_step (part s)"
proof (induction rule: reach.induct)
  case (reach_init s)
  then show ?case by (intro reach.reach_init part_init)
next
  case (reach_step s t)
  from part_step [OF reach_step.hyps] reach_step.IH show ?case
    by (induction rule: rtranclp_induct) (auto intro: reach.reach_step)
qed

end

section \<open>Lists\<close>

text \<open>The values of an optional field, over a list.\<close>

definition opt_list :: "'a option \<Rightarrow> 'a list" where
  "opt_list x = (case x of None \<Rightarrow> [] | Some y \<Rightarrow> [y])"

definition collect :: "('b \<Rightarrow> 'a option) \<Rightarrow> 'b list \<Rightarrow> 'a list" where
  "collect f xs = concat (map (\<lambda>x. opt_list (f x)) xs)"

lemma opt_list_simps [simp]: "opt_list None = []" "opt_list (Some x) = [x]"
  by (simp_all add: opt_list_def)

lemma collect_simps [simp]:
  "collect f [] = []" "collect f (x # xs) = opt_list (f x) @ collect f xs"
  "collect f (xs @ ys) = collect f xs @ collect f ys"
  by (simp_all add: collect_def)

lemma mset_concat_update:
  assumes "i < length xs"
  shows "mset (concat (map f (xs[i := y]))) + mset (f (xs ! i)) = mset (concat (map f xs)) + mset (f y)"
proof -
  have "xs = take i xs @ xs ! i # drop (Suc i) xs" using assms by (rule id_take_nth_drop)
  then have "mset (concat (map f xs)) = mset (concat (map f (take i xs @ xs ! i # drop (Suc i) xs)))" by simp
  moreover have "xs[i := y] = take i xs @ y # drop (Suc i) xs" using assms by (rule upd_conv_take_nth_drop)
  ultimately show ?thesis by simp
qed

lemma collect_update:
  "i < length xs \<Longrightarrow> f (xs ! i) = None \<Longrightarrow> mset (collect f (xs[i := y])) = mset (collect f xs) + mset (opt_list (f y))"
  using mset_concat_update [of i xs "\<lambda>x. opt_list (f x)" y] by (simp add: collect_def)

lemma sum_list_update_nat:
  fixes f :: "'a \<Rightarrow> nat"
  assumes "i < length xs"
  shows "sum_list (map f (xs[i := y])) + f (xs ! i) = sum_list (map f xs) + f y"
proof -
  have "xs = take i xs @ xs ! i # drop (Suc i) xs" using assms by (rule id_take_nth_drop)
  then have "sum_list (map f xs) = sum_list (map f (take i xs @ xs ! i # drop (Suc i) xs))" by simp
  moreover have "xs[i := y] = take i xs @ y # drop (Suc i) xs" using assms by (rule upd_conv_take_nth_drop)
  ultimately show ?thesis by simp
qed

lemma mset_remove_nth:
  "i < length xs \<Longrightarrow> mset xs = add_mset (xs ! i) (mset (take i xs @ drop (Suc i) xs))"
  by (metis add_mset_add_single id_take_nth_drop mset.simps(2) mset_append union_mset_add_mset_right)

lemma list_update_same_length [simp]: "length (xs[i := x]) = length xs"
  by (rule length_list_update)

lemma filter_length_update:
  assumes "i < length xs" and "\<not> P (xs ! i)" and "P y"
  shows "length (filter P (xs[i := y])) = Suc (length (filter P xs))"
proof -
  have "xs = take i xs @ xs ! i # drop (Suc i) xs"
    using assms(1) by (rule id_take_nth_drop)
  moreover have "xs[i := y] = take i xs @ y # drop (Suc i) xs"
    using assms(1) by (rule upd_conv_take_nth_drop)
  ultimately have
    "length (filter P xs) = length (filter P (take i xs)) + length (filter P (drop (Suc i) xs))"
    "length (filter P (xs[i := y])) =
       Suc (length (filter P (take i xs)) + length (filter P (drop (Suc i) xs)))"
    using assms(2,3) by (metis filter.simps(2) filter_append length_append, simp)
  then show ?thesis by simp
qed

end
