(* ===== verification/Json.thy ===== *)
theory Json
  imports Prelude
begin

text \<open>
  The part of the standard library's \<open>encoding/json\<close> the program relies on, at the level
  of bytes: the scanner (\<open>json.Valid\<close> and the syntax check of \<open>json.Unmarshal\<close>), the
  unquoting and quoting of strings, the compaction that \<open>json.Marshal\<close> applies to a
  \<open>json.RawMessage\<close>, and decoding into a \<open>map[string]json.RawMessage\<close>, a
  \<open>[]json.RawMessage\<close>, a string or an int.

  A value keeps the text of its parts: an array is the list of the texts and the values
  of its elements, an object the list of its members in the order of the text, so that a
  \<open>json.RawMessage\<close> is what the decoder would have copied.
\<close>

section \<open>Tokens\<close>

datatype token =
    TWs string
  | TPunct char
  | TLit string
  | TNum string
  | TStr string

fun tok_text :: "token \<Rightarrow> string" where
  "tok_text (TWs s) = s"
| "tok_text (TPunct c) = [c]"
| "tok_text (TLit s) = s"
| "tok_text (TNum s) = s"
| "tok_text (TStr s) = s"

text \<open>
  The lexer is a machine over single bytes. Its states carry the text read so far,
  reversed. The states of a number and of a string are those of the library's scanner.
\<close>

datatype num_state = NNeg | NZero | NInt | NDot | NFrac | NE | NESign | NExp

datatype str_state = SIn | SEsc | SHex nat

datatype lex_state =
    LStart
  | LWs string
  | LLit string
  | LNum num_state string
  | LStr str_state string

definition is_ws :: "char \<Rightarrow> bool" where
  "is_ws c \<longleftrightarrow> c = CHR 0x20 \<or> c = CHR 0x09 \<or> c = CHR 0x0A \<or> c = CHR 0x0D"

definition is_punct :: "char \<Rightarrow> bool" where
  "is_punct c \<longleftrightarrow> c \<in> set ''[]{},:''"

definition is_hex :: "char \<Rightarrow> bool" where
  "is_hex c \<longleftrightarrow> is_digit c \<or> (97 \<le> byte c \<and> byte c \<le> 102) \<or> (65 \<le> byte c \<and> byte c \<le> 70)"

fun num_next :: "num_state \<Rightarrow> char \<Rightarrow> num_state option" where
  "num_next NNeg c = (if c = CHR ''0'' then Some NZero else if is_digit c then Some NInt else None)"
| "num_next NZero c =
     (if c = CHR ''.'' then Some NDot else if c = CHR ''e'' \<or> c = CHR ''E'' then Some NE else None)"
| "num_next NInt c =
     (if is_digit c then Some NInt
      else if c = CHR ''.'' then Some NDot else if c = CHR ''e'' \<or> c = CHR ''E'' then Some NE else None)"
| "num_next NDot c = (if is_digit c then Some NFrac else None)"
| "num_next NFrac c =
     (if is_digit c then Some NFrac else if c = CHR ''e'' \<or> c = CHR ''E'' then Some NE else None)"
| "num_next NE c =
     (if c = CHR ''+'' \<or> c = CHR ''-'' then Some NESign else if is_digit c then Some NExp else None)"
| "num_next NESign c = (if is_digit c then Some NExp else None)"
| "num_next NExp c = (if is_digit c then Some NExp else None)"

fun num_final :: "num_state \<Rightarrow> bool" where
  "num_final NZero = True"
| "num_final NInt = True"
| "num_final NFrac = True"
| "num_final NExp = True"
| "num_final _ = False"

definition is_literal :: "string \<Rightarrow> bool" where
  "is_literal s \<longleftrightarrow> s = ''true'' \<or> s = ''false'' \<or> s = ''null''"

text \<open>The first byte of a token.\<close>

definition lex_begin :: "char \<Rightarrow> (token list \<times> lex_state) option" where
  "lex_begin c =
     (if is_ws c then Some ([], LWs [c])
      else if is_punct c then Some ([TPunct c], LStart)
      else if c = dquote then Some ([], LStr SIn [c])
      else if c = CHR ''-'' then Some ([], LNum NNeg [c])
      else if c = CHR ''0'' then Some ([], LNum NZero [c])
      else if is_digit c then Some ([], LNum NInt [c])
      else if is_lower c then Some ([], LLit [c])
      else None)"

definition after_token :: "token \<Rightarrow> char \<Rightarrow> (token list \<times> lex_state) option" where
  "after_token t c = map_option (\<lambda>(ts, st). (t # ts, st)) (lex_begin c)"

fun str_next :: "str_state \<Rightarrow> char \<Rightarrow> str_state option" where
  "str_next SIn c =
     (if c = backslash then Some SEsc else if byte c < 32 then None else Some SIn)"
| "str_next SEsc c =
     (if c = CHR ''u'' then Some (SHex 4)
      else if c = dquote \<or> c = backslash \<or> c \<in> set ''/bfnrt'' then Some SIn else None)"
| "str_next (SHex n) c =
     (if is_hex c then Some (if n \<le> 1 then SIn else SHex (n - 1)) else None)"

fun lex_step :: "lex_state \<Rightarrow> char \<Rightarrow> (token list \<times> lex_state) option" where
  "lex_step LStart c = lex_begin c"
| "lex_step (LWs a) c = (if is_ws c then Some ([], LWs (c # a)) else after_token (TWs (rev a)) c)"
| "lex_step (LLit a) c =
     (if is_lower c then Some ([], LLit (c # a))
      else if is_literal (rev a) then after_token (TLit (rev a)) c else None)"
| "lex_step (LNum n a) c =
     (case num_next n c of
        Some n' \<Rightarrow> Some ([], LNum n' (c # a))
      | None \<Rightarrow> if num_final n then after_token (TNum (rev a)) c else None)"
| "lex_step (LStr s a) c =
     (if s = SIn \<and> c = dquote then Some ([TStr (rev (c # a))], LStart)
      else (case str_next s c of None \<Rightarrow> None | Some s' \<Rightarrow> Some ([], LStr s' (c # a))))"

fun lex_end :: "lex_state \<Rightarrow> token list option" where
  "lex_end LStart = Some []"
| "lex_end (LWs a) = Some [TWs (rev a)]"
| "lex_end (LLit a) = (if is_literal (rev a) then Some [TLit (rev a)] else None)"
| "lex_end (LNum n a) = (if num_final n then Some [TNum (rev a)] else None)"
| "lex_end (LStr s a) = None"

fun lex :: "lex_state \<Rightarrow> string \<Rightarrow> token list option" where
  "lex st [] = lex_end st"
| "lex st (c # cs) =
     (case lex_step st c of
        None \<Rightarrow> None
      | Some (ts, st') \<Rightarrow> (case lex st' cs of None \<Rightarrow> None | Some us \<Rightarrow> Some (ts @ us)))"

definition tokens :: "string \<Rightarrow> token list option" where
  "tokens s = lex LStart s"

section \<open>Strings: UTF-8, unquoting and quoting\<close>

definition in_range :: "nat \<Rightarrow> nat \<Rightarrow> char \<Rightarrow> bool" where
  "in_range lo hi c \<longleftrightarrow> lo \<le> byte c \<and> byte c \<le> hi"

text \<open>The width of the well-formed UTF-8 sequence at the front of a string, 0 if there is none.\<close>

fun utf8_width :: "string \<Rightarrow> nat" where
  "utf8_width [] = 0"
| "utf8_width (a # r) =
     (if byte a < 128 then 1
      else (case r of
        [] \<Rightarrow> 0
      | b # r2 \<Rightarrow>
        if in_range 0xC2 0xDF a then (if in_range 0x80 0xBF b then 2 else 0)
        else (case r2 of
          [] \<Rightarrow> 0
        | c # r3 \<Rightarrow>
          if in_range 0xE0 0xEF a then
            (if in_range (if byte a = 0xE0 then 0xA0 else 0x80) (if byte a = 0xED then 0x9F else 0xBF) b
                \<and> in_range 0x80 0xBF c
             then 3 else 0)
          else (case r3 of
            [] \<Rightarrow> 0
          | d # _ \<Rightarrow>
            if in_range 0xF0 0xF4 a
               \<and> in_range (if byte a = 0xF0 then 0x90 else 0x80) (if byte a = 0xF4 then 0x8F else 0xBF) b
               \<and> in_range 0x80 0xBF c \<and> in_range 0x80 0xBF d
            then 4 else 0))))"

definition replacement :: string where
  "replacement = [CHR 0xEF, CHR 0xBF, CHR 0xBD]"

definition utf8_encode :: "nat \<Rightarrow> string" where
  "utf8_encode r =
     (if r < 0x80 then [char_of r]
      else if r < 0x800 then [char_of (0xC0 + r div 64), char_of (0x80 + r mod 64)]
      else if (0xD800 \<le> r \<and> r < 0xE000) \<or> 0x10FFFF < r then replacement
      else if r < 0x10000 then
        [char_of (0xE0 + r div 4096), char_of (0x80 + r div 64 mod 64), char_of (0x80 + r mod 64)]
      else
        [char_of (0xF0 + r div 262144), char_of (0x80 + r div 4096 mod 64),
         char_of (0x80 + r div 64 mod 64), char_of (0x80 + r mod 64)])"

definition hex_val :: "char \<Rightarrow> nat" where
  "hex_val c =
     (if is_digit c then digit_val c else if is_lower c then byte c - 87 else byte c - 55)"

definition hex4 :: "char \<Rightarrow> char \<Rightarrow> char \<Rightarrow> char \<Rightarrow> nat" where
  "hex4 a b c d = 4096 * hex_val a + 256 * hex_val b + 16 * hex_val c + hex_val d"

text \<open>
  \<open>getu4\<close> of the library: the code unit of a \<open>\\uXXXX\<close> escape at the front of a string.
\<close>

fun get_u4 :: "string \<Rightarrow> nat option" where
  "get_u4 (e # u # a # b # c # d # _) =
     (if e = backslash \<and> u = CHR ''u'' \<and> is_hex a \<and> is_hex b \<and> is_hex c \<and> is_hex d
      then Some (hex4 a b c d) else None)"
| "get_u4 _ = None"

definition simple_escape :: "char \<Rightarrow> char" where
  "simple_escape c =
     (if c = CHR ''b'' then CHR 0x08 else if c = CHR ''f'' then CHR 0x0C
      else if c = CHR ''n'' then CHR 0x0A else if c = CHR ''r'' then CHR 0x0D
      else if c = CHR ''t'' then CHR 0x09 else c)"

text \<open>
  One unit of the inside of a string literal: the number of bytes it takes and the bytes
  it stands for. A surrogate escape takes its low half along when there is one; anything
  that is not a code point becomes U+FFFD.
\<close>

definition unquote_unit :: "string \<Rightarrow> nat \<times> string" where
  "unquote_unit s =
     (case get_u4 s of
        Some r \<Rightarrow>
          (if 0xD800 \<le> r \<and> r < 0xE000 then
             (case get_u4 (drop 6 s) of
                Some r2 \<Rightarrow>
                  if r < 0xDC00 \<and> 0xDC00 \<le> r2 \<and> r2 < 0xE000
                  then (12, utf8_encode ((r - 0xD800) * 1024 + (r2 - 0xDC00) + 0x10000))
                  else (6, replacement)
              | None \<Rightarrow> (6, replacement))
           else (6, utf8_encode r))
      | None \<Rightarrow>
          (case s of
             [] \<Rightarrow> (0, [])
           | [c] \<Rightarrow> if byte c < 128 then (1, [c]) else (1, replacement)
           | c # d # _ \<Rightarrow>
               if c = backslash then (2, if byte d < 128 then [simple_escape d] else replacement)
               else if utf8_width s = 0 then (1, replacement)
               else (utf8_width s, take (utf8_width s) s)))"

function unquote_body :: "string \<Rightarrow> string" where
  "unquote_body s =
     (if s = [] \<or> fst (unquote_unit s) = 0 then []
      else snd (unquote_unit s) @ unquote_body (drop (fst (unquote_unit s)) s))"
  by pat_completeness auto
termination
  by (relation "measure length") auto

declare unquote_body.simps [simp del]

text \<open>The decoded string of a literal: the quotes go, the inside is decoded.\<close>

definition unquote :: "string \<Rightarrow> string" where
  "unquote s = unquote_body (butlast (tl s))"

definition hex_char :: "nat \<Rightarrow> char" where
  "hex_char n = (if n < 10 then digit_char n else char_of (87 + n))"

text \<open>\<open>appendString\<close> with HTML escaping, the default of \<open>json.Marshal\<close>.\<close>

definition quote_ascii :: "char \<Rightarrow> string" where
  "quote_ascii c =
     (if c = dquote \<or> c = backslash then [backslash, c]
      else if c = CHR 0x08 then [backslash, CHR ''b'']
      else if c = CHR 0x0C then [backslash, CHR ''f'']
      else if c = CHR 0x0A then [backslash, CHR ''n'']
      else if c = CHR 0x0D then [backslash, CHR ''r'']
      else if c = CHR 0x09 then [backslash, CHR ''t'']
      else if byte c < 32 \<or> c \<in> set ''<>&''
      then [backslash, CHR ''u'', CHR ''0'', CHR ''0'', hex_char (byte c div 16), hex_char (byte c mod 16)]
      else [c])"

definition quote_unit :: "string \<Rightarrow> nat \<times> string" where
  "quote_unit s =
     (case s of
        [] \<Rightarrow> (0, [])
      | c # _ \<Rightarrow>
          if byte c < 128 then (1, quote_ascii c)
          else if utf8_width s = 0 then (1, backslash # ''ufffd'')
          else if take 3 s = [CHR 0xE2, CHR 0x80, CHR 0xA8] then (3, backslash # ''u2028'')
          else if take 3 s = [CHR 0xE2, CHR 0x80, CHR 0xA9] then (3, backslash # ''u2029'')
          else (utf8_width s, take (utf8_width s) s))"

function quote_body :: "string \<Rightarrow> string" where
  "quote_body s =
     (if s = [] \<or> fst (quote_unit s) = 0 then []
      else snd (quote_unit s) @ quote_body (drop (fst (quote_unit s)) s))"
  by pat_completeness auto
termination
  by (relation "measure length") auto

declare quote_body.simps [simp del]

definition quote :: "string \<Rightarrow> string" where
  "quote s = [dquote] @ quote_body s @ [dquote]"

text \<open>A string is UTF-8 when it is a sequence of well-formed code points.\<close>

function utf8_valid :: "string \<Rightarrow> bool" where
  "utf8_valid s =
     (if s = [] then True else if utf8_width s = 0 then False
      else utf8_valid (drop (utf8_width s) s))"
  by pat_completeness auto
termination
  by (relation "measure length") auto

declare utf8_valid.simps [simp del]

section \<open>Values\<close>

datatype json =
    JNull
  | JBool bool
  | JNum string
  | JStr string
  | JArr "(string \<times> json) list"
  | JObj "(string \<times> string \<times> json) list"

text \<open>
  The parser reduces tokens onto a stack of open containers. Each container collects its
  text along with its parts. \<open>max_depth\<close> is the library's nesting limit.
\<close>

definition max_depth :: nat where "max_depth = 10000"

datatype container =
    CArr "(string \<times> json) list" string
  | CObj "(string \<times> string \<times> json) list" string string

datatype parse_mode = PValue | PValueOrEnd | PKey | PKeyOrEnd | PColon | PAfter | PDone

record parser =
  p_stack :: "container list"
  p_mode :: parse_mode
  p_top :: "(string \<times> json) option"

definition parser_init :: parser where
  "parser_init = \<lparr>p_stack = [], p_mode = PValue, p_top = None\<rparr>"

fun add_text :: "string \<Rightarrow> container \<Rightarrow> container" where
  "add_text t (CArr xs r) = CArr xs (r @ t)"
| "add_text t (CObj ms k r) = CObj ms k (r @ t)"

text \<open>A complete value: the top of the text, an element, or the value of a member.\<close>

definition reduce_value :: "string \<Rightarrow> json \<Rightarrow> parser \<Rightarrow> parser" where
  "reduce_value raw v p =
     (case p_stack p of
        [] \<Rightarrow> p\<lparr>p_top := Some (raw, v), p_mode := PDone\<rparr>
      | CArr xs r # st \<Rightarrow> p\<lparr>p_stack := CArr (xs @ [(raw, v)]) (r @ raw) # st, p_mode := PAfter\<rparr>
      | CObj ms k r # st \<Rightarrow> p\<lparr>p_stack := CObj (ms @ [(k, raw, v)]) k (r @ raw) # st, p_mode := PAfter\<rparr>)"

definition push_container :: "container \<Rightarrow> parse_mode \<Rightarrow> parser \<Rightarrow> parser option" where
  "push_container k m p =
     (if length (p_stack p) < max_depth
      then Some (p\<lparr>p_stack := k # p_stack p, p_mode := m\<rparr>) else None)"

definition close_container :: "char \<Rightarrow> parser \<Rightarrow> parser option" where
  "close_container c p =
     (case p_stack p of
        CArr xs r # st \<Rightarrow>
          if c = CHR '']'' then Some (reduce_value (r @ [c]) (JArr xs) (p\<lparr>p_stack := st\<rparr>)) else None
      | CObj ms k r # st \<Rightarrow>
          if c = CHR ''}'' then Some (reduce_value (r @ [c]) (JObj ms) (p\<lparr>p_stack := st\<rparr>)) else None
      | [] \<Rightarrow> None)"

definition next_member :: "parser \<Rightarrow> parser option" where
  "next_member p =
     (case p_stack p of
        CArr xs r # st \<Rightarrow> Some (p\<lparr>p_stack := add_text '','' (CArr xs r) # st, p_mode := PValue\<rparr>)
      | CObj ms k r # st \<Rightarrow> Some (p\<lparr>p_stack := add_text '','' (CObj ms k r) # st, p_mode := PKey\<rparr>)
      | [] \<Rightarrow> None)"

definition set_key :: "string \<Rightarrow> parser \<Rightarrow> parser option" where
  "set_key s p =
     (case p_stack p of
        CObj ms k r # st \<Rightarrow> Some (p\<lparr>p_stack := CObj ms (unquote s) (r @ s) # st, p_mode := PColon\<rparr>)
      | _ \<Rightarrow> None)"

definition literal_value :: "string \<Rightarrow> json" where
  "literal_value s = (if s = ''true'' then JBool True else if s = ''false'' then JBool False else JNull)"

definition expects_value :: "parse_mode \<Rightarrow> bool" where
  "expects_value m \<longleftrightarrow> m = PValue \<or> m = PValueOrEnd"

fun parse_step :: "parser \<Rightarrow> token \<Rightarrow> parser option" where
  "parse_step p (TWs s) =
     (case p_stack p of
        [] \<Rightarrow> Some p
      | k # st \<Rightarrow> Some (p\<lparr>p_stack := add_text s k # st\<rparr>))"
| "parse_step p (TLit s) =
     (if expects_value (p_mode p) then Some (reduce_value s (literal_value s) p) else None)"
| "parse_step p (TNum s) =
     (if expects_value (p_mode p) then Some (reduce_value s (JNum s) p) else None)"
| "parse_step p (TStr s) =
     (if expects_value (p_mode p) then Some (reduce_value s (JStr (unquote s)) p)
      else if p_mode p = PKey \<or> p_mode p = PKeyOrEnd then set_key s p else None)"
| "parse_step p (TPunct c) =
     (if c = CHR ''['' then
        (if expects_value (p_mode p) then push_container (CArr [] [c]) PValueOrEnd p else None)
      else if c = CHR ''{'' then
        (if expects_value (p_mode p) then push_container (CObj [] [] [c]) PKeyOrEnd p else None)
      else if c = CHR '']'' then
        (if p_mode p = PValueOrEnd \<or> p_mode p = PAfter then close_container c p else None)
      else if c = CHR ''}'' then
        (if p_mode p = PKeyOrEnd \<or> p_mode p = PAfter then close_container c p else None)
      else if c = CHR '','' then (if p_mode p = PAfter then next_member p else None)
      else if c = CHR '':'' then
        (if p_mode p = PColon
         then (case p_stack p of [] \<Rightarrow> None | k # st \<Rightarrow> Some (p\<lparr>p_stack := add_text [c] k # st, p_mode := PValue\<rparr>))
         else None)
      else None)"

fun parse_tokens :: "parser \<Rightarrow> token list \<Rightarrow> parser option" where
  "parse_tokens p [] = Some p"
| "parse_tokens p (t # ts) =
     (case parse_step p t of None \<Rightarrow> None | Some p' \<Rightarrow> parse_tokens p' ts)"

text \<open>
  One JSON value with surrounding white space: its text without that space, and the value.
\<close>

definition parse_json :: "string \<Rightarrow> (string \<times> json) option" where
  "parse_json s =
     (case tokens s of
        None \<Rightarrow> None
      | Some ts \<Rightarrow> (case parse_tokens parser_init ts of None \<Rightarrow> None | Some p \<Rightarrow> p_top p))"

text \<open>\<open>json.Valid\<close>.\<close>

definition json_valid :: "string \<Rightarrow> bool" where
  "json_valid s \<longleftrightarrow> parse_json s \<noteq> None"

section \<open>Decoding\<close>

text \<open>
  \<open>json.Unmarshal\<close> into a \<open>map[string]json.RawMessage\<close>: the members of an object, of which
  the last of a repeated key wins. \<open>null\<close> leaves the map nil, which here is the empty
  list; the flag tells a nil map from an empty one.
\<close>

definition unmarshal_map :: "string \<Rightarrow> (bool \<times> (string \<times> string) list) option" where
  "unmarshal_map s =
     (case parse_json s of
        Some (_, JObj ms) \<Rightarrow> Some (True, map (\<lambda>(k, r, v). (k, r)) ms)
      | Some (_, JNull) \<Rightarrow> Some (False, [])
      | _ \<Rightarrow> None)"

definition field :: "(string \<times> 'v) list \<Rightarrow> string \<Rightarrow> 'v option" where
  "field ms k = map_of (rev ms) k"

text \<open>\<open>json.Unmarshal\<close> into a \<open>[]json.RawMessage\<close>.\<close>

definition unmarshal_raws :: "string \<Rightarrow> string list option" where
  "unmarshal_raws s =
     (case parse_json s of
        Some (_, JArr xs) \<Rightarrow> Some (map fst xs)
      | Some (_, JNull) \<Rightarrow> Some []
      | _ \<Rightarrow> None)"

text \<open>\<open>json.Unmarshal\<close> into a string that holds \<open>d\<close>: \<open>null\<close> leaves it alone.\<close>

definition unmarshal_string :: "string \<Rightarrow> string \<Rightarrow> string option" where
  "unmarshal_string d s =
     (case parse_json s of
        Some (_, JStr t) \<Rightarrow> Some t
      | Some (_, JNull) \<Rightarrow> Some d
      | _ \<Rightarrow> None)"

text \<open>
  A JSON number decoded into a Go \<open>int\<close>: an integer literal in the range of 64 bits.
\<close>

definition parse_int64 :: "string \<Rightarrow> int option" where
  "parse_int64 s =
     (let (neg, ds) = (case s of CHR ''-'' # r \<Rightarrow> (True, r) | _ \<Rightarrow> (False, s));
          n = (if neg then - int (nat_of_digits ds) else int (nat_of_digits ds))
      in if ds \<noteq> [] \<and> list_all is_digit ds \<and> - (2 ^ 63) \<le> n \<and> n < 2 ^ 63 then Some n else None)"

text \<open>
  Struct fields match member names exactly or, failing that, up to case. Folding maps the
  two non-ASCII letters whose simple case folding is an ASCII letter (the long s and the
  Kelvin sign) as well, which is all that matters for the ASCII names of the program.
\<close>

fun fold_name :: "string \<Rightarrow> string" where
  "fold_name [] = []"
| "fold_name (a # r) =
     (case r of
        b # r2 \<Rightarrow>
          if a = CHR 0xC5 \<and> b = CHR 0xBF then CHR ''S'' # fold_name r2
          else (case r2 of
                  c # r3 \<Rightarrow>
                    if a = CHR 0xE2 \<and> b = CHR 0x84 \<and> c = CHR 0xAA then CHR ''K'' # fold_name r3
                    else upper_char a # fold_name r
                | [] \<Rightarrow> upper_char a # fold_name r)
      | [] \<Rightarrow> [upper_char a])"

definition match_field :: "string list \<Rightarrow> string \<Rightarrow> string option" where
  "match_field names k =
     (if k \<in> set names then Some k else find (\<lambda>n. fold_name n = fold_name k) names)"

section \<open>Encoding\<close>

text \<open>
  \<open>json.Marshal\<close> of a \<open>json.RawMessage\<close>: the text is checked, white space between tokens is
  dropped, and in strings the bytes \<open><\<close>, \<open>>\<close>, \<open>&\<close> and the two line separators are escaped.
\<close>

fun escape_html :: "string \<Rightarrow> string" where
  "escape_html [] = []"
| "escape_html (a # r) =
     (if a \<in> set ''<>&'' then
        [backslash, CHR ''u'', CHR ''0'', CHR ''0'', hex_char (byte a div 16), hex_char (byte a mod 16)]
        @ escape_html r
      else (case r of
              b # c # r3 \<Rightarrow>
                if a = CHR 0xE2 \<and> b = CHR 0x80 \<and> c = CHR 0xA8 then backslash # ''u2028'' @ escape_html r3
                else if a = CHR 0xE2 \<and> b = CHR 0x80 \<and> c = CHR 0xA9 then backslash # ''u2029'' @ escape_html r3
                else a # escape_html r
            | _ \<Rightarrow> a # escape_html r))"

fun compact_token :: "token \<Rightarrow> string" where
  "compact_token (TWs s) = []"
| "compact_token (TStr s) = escape_html s"
| "compact_token t = tok_text t"

definition compact :: "string \<Rightarrow> string option" where
  "compact s =
     (if json_valid s then map_option (\<lambda>ts. concat (map compact_token ts)) (tokens s) else None)"

text \<open>A \<open>json.RawMessage\<close> field: the nil message is written as \<open>null\<close>.\<close>

definition marshal_raw :: "string \<Rightarrow> string option" where
  "marshal_raw s = (if s = [] then Some ''null'' else compact s)"

text \<open>
  The encoding of a decoded value (an \<open>any\<close>): maps are written with sorted keys, of which a
  repeated one counts once. Numbers are written as they were read; the library would pass
  them through a float64.
\<close>

fun list_insert_key :: "string \<Rightarrow> string \<Rightarrow> (string \<times> string) list \<Rightarrow> (string \<times> string) list" where
  "list_insert_key k v [] = [(k, v)]"
| "list_insert_key k v ((k', v') # r) =
     (if k = k' then (k, v) # r
      else if List.lexordp (\<lambda>a b. byte a < byte b) k k' then (k, v) # (k', v') # r
      else (k', v') # list_insert_key k v r)"

fun encode_any :: "json \<Rightarrow> string" where
  "encode_any JNull = ''null''"
| "encode_any (JBool b) = (if b then ''true'' else ''false'')"
| "encode_any (JNum s) = s"
| "encode_any (JStr s) = quote s"
| "encode_any (JArr xs) = ''['' @ join_with '','' (map (\<lambda>(r, v). encode_any v) xs) @ '']''"
| "encode_any (JObj ms) =
     ''{'' @ join_with '','' (map (\<lambda>(k, v). quote k @ '':'' @ v)
        (fold (\<lambda>(k, v). list_insert_key k v) (map (\<lambda>(k, r, v). (k, encode_any v)) ms) [])) @ ''}''"

end
