(* ===== verification/JsonFacts.thy ===== *)
theory JsonFacts
  imports Json
begin

text \<open>
  What the components need to know of the JSON layer: a compacted value has no control
  bytes, so it is a single line of the transport; quoting is undone by unquoting; and an
  unquoted string is always well-formed UTF-8, so that quoting it is injective.
\<close>

section \<open>Printable tokens\<close>

definition printable :: "string \<Rightarrow> bool" where
  "printable s \<longleftrightarrow> (\<forall>c \<in> set s. 32 \<le> byte c)"

lemma printable_simps [simp]:
  "printable []" "printable (c # s) \<longleftrightarrow> 32 \<le> byte c \<and> printable s"
  "printable (s @ t) \<longleftrightarrow> printable s \<and> printable t" "printable (rev s) \<longleftrightarrow> printable s"
  by (auto simp: printable_def)

lemma printable_no_newline: "printable s \<Longrightarrow> newline \<notin> set s"
  by (auto simp: printable_def)

fun token_ok :: "token \<Rightarrow> bool" where
  "token_ok (TWs s) = True"
| "token_ok t = printable (tok_text t)"

fun lex_ok :: "lex_state \<Rightarrow> bool" where
  "lex_ok (LLit a) = printable a"
| "lex_ok (LNum n a) = printable a"
| "lex_ok (LStr s a) = printable a"
| "lex_ok _ = True"

lemma printable_bytes:
  "is_digit c \<Longrightarrow> 32 \<le> byte c" "is_lower c \<Longrightarrow> 32 \<le> byte c" "is_hex c \<Longrightarrow> 32 \<le> byte c"
  "is_punct c \<Longrightarrow> 32 \<le> byte c"
  by (auto simp: is_digit_def is_lower_def is_hex_def is_punct_def)

lemma lex_begin_ok:
  "lex_begin c = Some (ts, st) \<Longrightarrow> (\<forall>t \<in> set ts. token_ok t) \<and> lex_ok st"
  by (auto simp: lex_begin_def printable_bytes split: if_splits)

lemma after_token_ok:
  "after_token t c = Some (ts, st) \<Longrightarrow> token_ok t \<Longrightarrow> (\<forall>t \<in> set ts. token_ok t) \<and> lex_ok st"
  using lex_begin_ok by (fastforce simp: after_token_def)

lemma num_next_printable: "num_next n c = Some m \<Longrightarrow> 32 \<le> byte c"
  by (cases n) (auto simp: printable_bytes split: if_splits)

lemma str_next_printable: "str_next n c = Some m \<Longrightarrow> 32 \<le> byte c"
  by (cases n) (auto simp: printable_bytes split: if_splits)

lemma lex_step_ok:
  assumes "lex_step st c = Some (ts, st')" "lex_ok st"
  shows "(\<forall>t \<in> set ts. token_ok t) \<and> lex_ok st'"
proof (cases st)
  case LStart
  with assms show ?thesis by (simp add: lex_begin_ok)
next
  case (LWs a)
  with assms show ?thesis by (auto split: if_splits dest: after_token_ok)
next
  case (LLit a)
  with assms show ?thesis
    by (auto simp: printable_bytes split: if_splits dest: after_token_ok)
next
  case (LNum n a)
  with assms show ?thesis
    by (auto split: if_splits option.splits dest: after_token_ok num_next_printable)
next
  case (LStr s a)
  with assms show ?thesis
    by (auto split: if_splits option.splits dest: str_next_printable)
qed

lemma lex_end_ok: "lex_end st = Some ts \<Longrightarrow> lex_ok st \<Longrightarrow> \<forall>t \<in> set ts. token_ok t"
  by (cases st) (auto split: if_splits)

lemma lex_tokens_ok: "lex st s = Some ts \<Longrightarrow> lex_ok st \<Longrightarrow> \<forall>t \<in> set ts. token_ok t"
proof (induction s arbitrary: st ts)
  case Nil
  then show ?case by (simp add: lex_end_ok)
next
  case (Cons c cs)
  then obtain us st' vs where "lex_step st c = Some (us, st')" "lex st' cs = Some vs" "ts = us @ vs"
    by (auto split: option.splits)
  with Cons show ?case by (metis Un_iff lex_step_ok set_append)
qed

lemma hex_char_printable: "n < 16 \<Longrightarrow> 32 \<le> byte (hex_char n)"
  by (auto simp: hex_char_def digit_char_def)

declare escape_html.simps(2) [simp del]

lemma escape_html_printable: "printable s \<Longrightarrow> printable (escape_html s)"
proof (induction s rule: length_induct)
  case (1 s)
  then have IH: "length t < length s \<Longrightarrow> printable t \<Longrightarrow> printable (escape_html t)" for t by blast
  show ?case
  proof (cases s)
    case (Cons a r)
    have "byte a div 16 < 16" "byte a mod 16 < 16" using byte_less [of a] by linarith+
    then have "32 \<le> byte (hex_char (byte a div 16))" "32 \<le> byte (hex_char (byte a mod 16))"
      by (simp_all add: hex_char_printable)
    with Cons "1.prems" IH [of r] IH [of "drop 2 r"] show ?thesis
      by (simp add: escape_html.simps(2)) (auto split: list.splits)
  qed simp
qed

lemma compact_printable:
  assumes "compact s = Some t"
  shows "printable t"
proof -
  from assms obtain ts where "tokens s = Some ts" and t: "t = concat (map compact_token ts)"
    by (auto simp: compact_def split: if_splits)
  then have "\<forall>u \<in> set ts. token_ok u"
    by (auto simp: tokens_def dest: lex_tokens_ok)
  moreover have "token_ok u \<Longrightarrow> printable (compact_token u)" for u
    by (cases u) (auto simp: escape_html_printable)
  ultimately have "\<forall>u \<in> set ts. printable (compact_token u)" by blast
  then show ?thesis
    unfolding t by (induction ts) auto
qed

lemma marshal_raw_printable: "marshal_raw s = Some t \<Longrightarrow> printable t"
  by (auto simp: marshal_raw_def compact_printable split: if_splits)

section \<open>The tokens are the text\<close>

fun lex_text :: "lex_state \<Rightarrow> string" where
  "lex_text LStart = []"
| "lex_text (LWs a) = rev a"
| "lex_text (LLit a) = rev a"
| "lex_text (LNum n a) = rev a"
| "lex_text (LStr s a) = rev a"

definition toks_text :: "token list \<Rightarrow> string" where
  "toks_text ts = concat (map tok_text ts)"

lemma toks_text_simps [simp]:
  "toks_text [] = []" "toks_text (t # ts) = tok_text t @ toks_text ts"
  "toks_text (ts @ us) = toks_text ts @ toks_text us"
  by (auto simp: toks_text_def)

lemma lex_begin_text: "lex_begin c = Some (ts, st) \<Longrightarrow> toks_text ts @ lex_text st = [c]"
  by (auto simp: lex_begin_def split: if_splits)

lemma lex_step_text:
  "lex_step st c = Some (ts, st') \<Longrightarrow> toks_text ts @ lex_text st' = lex_text st @ [c]"
  by (cases st)
    (auto simp: after_token_def split: if_splits option.splits dest: lex_begin_text)

lemma lex_text_eq: "lex st s = Some ts \<Longrightarrow> toks_text ts = lex_text st @ s"
proof (induction s arbitrary: st ts)
  case Nil
  then show ?case by (cases st) (auto split: if_splits)
next
  case (Cons c cs)
  then obtain us st' vs where 1: "lex_step st c = Some (us, st')" "lex st' cs = Some vs" "ts = us @ vs"
    by (auto split: option.splits)
  then have "toks_text vs = lex_text st' @ cs" using Cons.IH by blast
  with 1 have "toks_text ts = (toks_text us @ lex_text st') @ cs" by simp
  also have "toks_text us @ lex_text st' = lex_text st @ [c]" using 1 by (simp add: lex_step_text)
  finally show ?case by simp
qed

lemma tokens_text: "tokens s = Some ts \<Longrightarrow> toks_text ts = s"
  by (simp add: tokens_def lex_text_eq)

section \<open>Unquoting undoes quoting\<close>

lemma utf8_width_le: "utf8_width s \<le> length s"
  by (cases s rule: utf8_width.cases) (auto split: list.splits if_splits)

lemma utf8_width_ascii: "byte a < 128 \<Longrightarrow> utf8_width (a # r) = 1"
  by simp

lemma utf8_cases [case_names 0 1 2 3 4]:
  obtains "s = []" | a where "s = [a]" | a b where "s = [a, b]" | a b c where "s = [a, b, c]"
  | a b c d r where "s = a # b # c # d # r"
  by (metis list.exhaust)

lemma utf8_width_prefix:
  "utf8_width s \<noteq> 0 \<Longrightarrow> utf8_width (take (utf8_width s) s @ r) = utf8_width s"
  by (cases s rule: utf8_cases) (auto split: if_splits)

lemma utf8_width_ge2: "utf8_width (a # r) \<noteq> 0 \<Longrightarrow> \<not> byte a < 128 \<Longrightarrow> 2 \<le> utf8_width (a # r)"
  by (cases "a # r" rule: utf8_cases) (auto split: if_splits)

lemma hex_char_hex [simp]: "n < 16 \<Longrightarrow> is_hex (hex_char n)"
  by (auto simp: hex_char_def is_hex_def digit_char_def is_digit_def)

lemma hex_val_hex_char [simp]: "n < 16 \<Longrightarrow> hex_val (hex_char n) = n"
  by (auto simp: hex_char_def hex_val_def is_lower_def is_digit_def digit_char_def digit_val_def)

lemma get_u4_not_backslash: "c \<noteq> backslash \<Longrightarrow> get_u4 (c # r) = None"
  by (cases "c # r" rule: get_u4.cases) auto

lemma get_u4_not_u: "u \<noteq> CHR ''u'' \<Longrightarrow> get_u4 (c # u # r) = None"
  by (cases "c # u # r" rule: get_u4.cases) auto

lemma unquote_body_step:
  assumes "fst (unquote_unit (p @ r)) = length p" and "p \<noteq> []"
  shows "unquote_body (p @ r) = snd (unquote_unit (p @ r)) @ unquote_body r"
  using assms by (subst unquote_body.simps) auto

lemma unquote_plain:
  assumes "byte c < 128" "c \<noteq> backslash"
  shows "unquote_body (c # r) = c # unquote_body r"
proof -
  have "unquote_unit (c # r) = (1, [c])"
    using assms by (cases r) (auto simp: unquote_unit_def get_u4_not_backslash)
  then show ?thesis
    using unquote_body_step [of "[c]" r] by simp
qed

lemma unquote_escape:
  assumes "d \<noteq> CHR ''u''" "byte d < 128"
  shows "unquote_body (backslash # d # r) = simple_escape d # unquote_body r"
proof -
  have "unquote_unit (backslash # d # r) = (2, [simple_escape d])"
    using assms by (simp add: unquote_unit_def get_u4_not_u)
  then show ?thesis
    using unquote_body_step [of "[backslash, d]" r] by simp
qed

lemma unquote_hex:
  assumes "is_hex a" "is_hex b" "is_hex c" "is_hex d"
    and "\<not> (0xD800 \<le> hex4 a b c d \<and> hex4 a b c d < 0xE000)"
  shows "unquote_body (backslash # CHR ''u'' # a # b # c # d # r) =
    utf8_encode (hex4 a b c d) @ unquote_body r"
proof -
  have "unquote_unit (backslash # CHR ''u'' # a # b # c # d # r) = (6, utf8_encode (hex4 a b c d))"
    using assms by (auto simp: unquote_unit_def)
  then show ?thesis
    using unquote_body_step [of "[backslash, CHR ''u'', a, b, c, d]" r] by simp
qed

lemma is_hex_digits: "is_hex CHR ''0''" "is_hex CHR ''2''" "is_hex CHR ''8''" "is_hex CHR ''9''"
  "is_hex CHR ''f''" "is_hex CHR ''d''"
  by (auto simp: is_hex_def is_digit_def)

lemma hex_val_digits: "hex_val CHR ''0'' = 0" "hex_val CHR ''2'' = 2" "hex_val CHR ''8'' = 8"
  "hex_val CHR ''9'' = 9" "hex_val CHR ''f'' = 15" "hex_val CHR ''d'' = 13"
  by (auto simp: hex_val_def is_digit_def digit_val_def is_lower_def)

lemma unquote_quote_ascii:
  assumes "byte c < 128"
  shows "unquote_body (quote_ascii c @ r) = c # unquote_body r"
proof -
  have esc: "simple_escape CHR ''b'' = CHR 0x08" "simple_escape CHR ''f'' = CHR 0x0C"
    "simple_escape CHR ''n'' = CHR 0x0A" "simple_escape CHR ''r'' = CHR 0x0D"
    "simple_escape CHR ''t'' = CHR 0x09" "simple_escape dquote = dquote"
    "simple_escape backslash = backslash"
    by (simp_all add: simple_escape_def)
  consider (short) "c \<in> {dquote, backslash, CHR 0x08, CHR 0x0C, CHR 0x0A, CHR 0x0D, CHR 0x09}"
    | (hex) "c \<notin> {dquote, backslash, CHR 0x08, CHR 0x0C, CHR 0x0A, CHR 0x0D, CHR 0x09}"
        "byte c < 32 \<or> c \<in> set ''<>&''"
    | (plain) "c \<notin> {dquote, backslash, CHR 0x08, CHR 0x0C, CHR 0x0A, CHR 0x0D, CHR 0x09}"
        "\<not> (byte c < 32 \<or> c \<in> set ''<>&'')"
    by blast
  then show ?thesis
  proof cases
    case short
    then show ?thesis by (auto simp: quote_ascii_def unquote_escape esc)
  next
    case hex
    have b: "byte c div 16 < 16" "byte c mod 16 < 16" using assms by auto
    have h: "hex4 CHR ''0'' CHR ''0'' (hex_char (byte c div 16)) (hex_char (byte c mod 16)) = byte c"
      using b by (simp add: hex4_def hex_val_digits)
    have q: "quote_ascii c = [backslash, CHR ''u'', CHR ''0'', CHR ''0'',
        hex_char (byte c div 16), hex_char (byte c mod 16)]"
      using hex by (auto simp: quote_ascii_def)
    show ?thesis
      using unquote_hex [of "CHR ''0''" "CHR ''0''" "hex_char (byte c div 16)" "hex_char (byte c mod 16)" r]
        assms b
      by (simp add: q h is_hex_digits utf8_encode_def)
  next
    case plain
    then have "quote_ascii c = [c]" by (auto simp: quote_ascii_def)
    with plain assms show ?thesis by (simp add: unquote_plain)
  qed
qed

lemma unquote_utf8:
  assumes "utf8_width s \<noteq> 0" and "\<not> byte (hd s) < 128"
  shows "unquote_body (take (utf8_width s) s @ r) = take (utf8_width s) s @ unquote_body r"
proof -
  obtain a t where s: "s = a # t" using assms(1) by (cases s) auto
  with assms have w2: "2 \<le> utf8_width s" by (metis list.sel(1) utf8_width_ge2)
  then obtain b u where t: "t = b # u"
    using utf8_width_le [of s] s by (cases t) auto
  have nb: "a \<noteq> backslash" using assms(2) s by auto
  let ?p = "take (utf8_width s) s"
  obtain v where p: "?p @ r = a # b # v"
    using w2 s t by (cases "utf8_width s"; cases "utf8_width s - 1") auto
  have len: "length ?p = utf8_width s" using utf8_width_le [of s] by simp
  have "unquote_unit (?p @ r) = (utf8_width s, ?p)"
  proof -
    have "utf8_width (?p @ r) = utf8_width s" using assms(1) by (rule utf8_width_prefix)
    moreover have "take (utf8_width s) (?p @ r) = ?p" using len by simp
    ultimately show ?thesis
      using nb assms(1) unfolding p by (simp add: unquote_unit_def get_u4_not_backslash)
  qed
  with len show ?thesis
    using unquote_body_step [of ?p r] assms(1) s by simp
qed

lemma utf8_line_separators:
  "utf8_width (CHR 0xE2 # CHR 0x80 # CHR 0xA8 # r) = 3"
  "utf8_width (CHR 0xE2 # CHR 0x80 # CHR 0xA9 # r) = 3"
  by (auto simp: in_range_def)

declare utf8_width.simps [simp del]

lemma unquote_quote_unit:
  assumes "s \<noteq> []" and "utf8_width s \<noteq> 0"
  shows "fst (quote_unit s) = utf8_width s"
    and "unquote_body (snd (quote_unit s) @ r) = take (utf8_width s) s @ unquote_body r"
proof -
  obtain a t where s: "s = a # t" using assms(1) by (cases s) auto
  have sep: "unquote_body (backslash # ''u2028'' @ r) = [CHR 0xE2, CHR 0x80, CHR 0xA8] @ unquote_body r"
    "unquote_body (backslash # ''u2029'' @ r) = [CHR 0xE2, CHR 0x80, CHR 0xA9] @ unquote_body r"
    by (simp_all add: unquote_hex is_hex_digits hex4_def hex_val_digits utf8_encode_def char_of_eq_iff)
  have take3: "take 3 s = [x, y, z] \<Longrightarrow> \<exists>q. s = x # y # z # q" for x y z
    by (metis append_Cons append_Nil append_take_drop_id)
  have "fst (quote_unit s) = utf8_width s \<and>
    unquote_body (snd (quote_unit s) @ r) = take (utf8_width s) s @ unquote_body r"
  proof (cases "byte a < 128")
    case True
    then show ?thesis by (simp add: s quote_unit_def unquote_quote_ascii utf8_width_ascii)
  next
    case False
    consider (a) "take 3 s = [CHR 0xE2, CHR 0x80, CHR 0xA8]"
      | (b) "take 3 s = [CHR 0xE2, CHR 0x80, CHR 0xA9]"
      | (c) "take 3 s \<noteq> [CHR 0xE2, CHR 0x80, CHR 0xA8]" "take 3 s \<noteq> [CHR 0xE2, CHR 0x80, CHR 0xA9]"
      by blast
    then show ?thesis
    proof cases
      case a
      then obtain q where q: "s = CHR 0xE2 # CHR 0x80 # CHR 0xA8 # q" using take3 by blast
      have "quote_unit s = (3, backslash # ''u2028'')"
        using assms(2) by (simp add: quote_unit_def q utf8_line_separators)
      with q show ?thesis using sep by (simp add: utf8_line_separators)
    next
      case b
      then obtain q where q: "s = CHR 0xE2 # CHR 0x80 # CHR 0xA9 # q" using take3 by blast
      have "quote_unit s = (3, backslash # ''u2029'')"
        using assms(2) by (simp add: quote_unit_def q utf8_line_separators)
      with q show ?thesis using sep by (simp add: utf8_line_separators)
    next
      case c
      then have "quote_unit s = (utf8_width s, take (utf8_width s) s)"
        using False assms(2) s by (auto simp: quote_unit_def)
      with False assms(2) show ?thesis by (simp add: unquote_utf8 s)
    qed
  qed
  then show "fst (quote_unit s) = utf8_width s"
    and "unquote_body (snd (quote_unit s) @ r) = take (utf8_width s) s @ unquote_body r"
    by auto
qed

lemma unquote_body_dquote_end: "unquote_body [] = []"
  by (simp add: unquote_body.simps)

lemma unquote_quote_body: "utf8_valid s \<Longrightarrow> unquote_body (quote_body s) = s"
proof (induction s rule: utf8_valid.induct)
  case (1 s)
  show ?case
  proof (cases "s = []")
    case True
    then show ?thesis by (simp add: quote_body.simps unquote_body_dquote_end)
  next
    case False
    with "1.prems" have w: "utf8_width s \<noteq> 0" and v: "utf8_valid (drop (utf8_width s) s)"
      by (auto simp: utf8_valid.simps [of s] split: if_splits)
    have "quote_body s = snd (quote_unit s) @ quote_body (drop (utf8_width s) s)"
      using False w unquote_quote_unit(1) [OF False w] by (subst quote_body.simps) simp
    then show ?thesis
      using unquote_quote_unit(2) [OF False w] "1.IH" [OF False w v] by simp
  qed
qed

lemma unquote_quote: "utf8_valid s \<Longrightarrow> unquote (quote s) = s"
  by (simp add: unquote_def quote_def butlast_append unquote_quote_body)

lemma quote_inject: "utf8_valid s \<Longrightarrow> utf8_valid t \<Longrightarrow> quote s = quote t \<longleftrightarrow> s = t"
  by (metis unquote_quote)

lemma quote_hd [simp]: "hd (quote s) = dquote" "quote s \<noteq> []"
  by (auto simp: quote_def)

section \<open>Unquoted strings are well-formed UTF-8\<close>

lemma utf8_valid_Nil [simp]: "utf8_valid []"
  by (simp add: utf8_valid.simps)

lemma utf8_valid_prefix:
  assumes "utf8_width s \<noteq> 0" "utf8_valid r"
  shows "utf8_valid (take (utf8_width s) s @ r)"
proof -
  have "length (take (utf8_width s) s) = utf8_width s" using utf8_width_le [of s] by simp
  moreover have "utf8_width (take (utf8_width s) s @ r) = utf8_width s"
    using assms(1) by (rule utf8_width_prefix)
  ultimately show ?thesis
    using assms by (subst utf8_valid.simps) simp
qed

lemma utf8_valid_unit:
  assumes "utf8_width u = length u" "utf8_valid r"
  shows "utf8_valid (u @ r)"
  using assms utf8_valid_prefix [of u r] by (cases "u = []") auto

lemma utf8_valid_Cons: "byte c < 128 \<Longrightarrow> utf8_valid r \<Longrightarrow> utf8_valid (c # r)"
  using utf8_valid_unit [of "[c]" r] by (simp add: utf8_width_ascii)

lemma replacement_width: "utf8_width replacement = length replacement"
  by (simp add: replacement_def utf8_width.simps in_range_def)

lemma div_bounds:
  fixes r :: nat
  shows "r < 0x800 \<Longrightarrow> r div 64 < 32" "r < 0x10000 \<Longrightarrow> r div 4096 < 16"
    "r \<le> 0x10FFFF \<Longrightarrow> r div 262144 \<le> 4"
  by (simp_all add: div_less_iff_less_mult div_le_mono [of r "0x10FFFF" 262144, simplified])

lemma mod64_le [simp]: "(n::nat) mod 64 \<le> 63"
  by presburger

lemma utf8_encode_width: "utf8_width (utf8_encode r) = length (utf8_encode r)"
proof -
  consider (a) "r < 0x80" | (b) "0x80 \<le> r" "r < 0x800"
    | (c) "(0xD800 \<le> r \<and> r < 0xE000) \<or> 0x10FFFF < r"
    | (d) "0x800 \<le> r" "r < 0x10000" "\<not> (0xD800 \<le> r \<and> r < 0xE000)"
    | (e) "0x10000 \<le> r" "r \<le> 0x10FFFF" by linarith
  then show ?thesis
  proof cases
    case a
    then show ?thesis by (simp add: utf8_encode_def utf8_width_ascii)
  next
    case b
    then have "2 \<le> r div 64" "r div 64 < 32" by (simp_all add: div_bounds less_eq_div_iff_mult_less_eq)
    with b show ?thesis by (simp add: utf8_encode_def utf8_width.simps in_range_def)
  next
    case c
    then show ?thesis using replacement_width by (auto simp: utf8_encode_def)
  next
    case d
    have t: "r div 4096 < 16" using d by (simp add: div_bounds)
    have m: "r div 64 mod 64 < 64" "r mod 64 < 64" by simp_all
    have e: "r = r div 4096 * 4096 + r div 64 mod 64 * 64 + r mod 64"
    proof -
      have "r div 64 div 64 = r div 4096" by (simp flip: div_mult2_eq)
      moreover have "r = r div 64 * 64 + r mod 64" "r div 64 = r div 64 div 64 * 64 + r div 64 mod 64"
        by (metis div_mult_mod_eq)+
      ultimately show ?thesis by linarith
    qed
    have "r div 4096 = 0 \<Longrightarrow> 32 \<le> r div 64 mod 64" using d(1) e m by linarith
    moreover have "r div 4096 = 13 \<Longrightarrow> r div 64 mod 64 < 32" using d(3) e m by linarith
    moreover have "r div 4096 = 0 \<Longrightarrow> r div 64 mod 64 = r div 64"
    proof -
      assume "r div 4096 = 0"
      then have "r div 64 < 64" by (simp add: div_less_iff_less_mult)
      then show ?thesis by simp
    qed
    moreover have "r div 64 mod 64 < 32 \<Longrightarrow> r div 64 mod 64 \<le> 31" by linarith
    ultimately show ?thesis using d t
      by (auto simp: utf8_encode_def utf8_width.simps in_range_def)
  next
    case e
    have t: "r div 262144 \<le> 4" using e by (simp add: div_bounds)
    have m: "r div 4096 mod 64 < 64" "r div 64 mod 64 < 64" "r mod 64 < 64" by simp_all
    have q: "r div 4096 = r div 262144 * 64 + r div 4096 mod 64"
    proof -
      have "r div 4096 div 64 = r div 262144" by (simp flip: div_mult2_eq)
      then show ?thesis by (metis div_mult_mod_eq)
    qed
    have "16 \<le> r div 4096" "r div 4096 < 272"
      using e by (simp_all add: less_eq_div_iff_mult_less_eq div_less_iff_less_mult)
    then have "r div 262144 = 0 \<Longrightarrow> 16 \<le> r div 4096 mod 64"
      and "r div 262144 = 4 \<Longrightarrow> r div 4096 mod 64 \<le> 15" using q by linarith+
    with e t m show ?thesis
      by (simp add: utf8_encode_def utf8_width.simps in_range_def)
  qed
qed

lemma simple_escape_ascii: "byte c < 128 \<Longrightarrow> byte (simple_escape c) < 128"
  by (simp add: simple_escape_def)

lemma unquote_unit_valid:
  assumes "utf8_valid r"
  shows "utf8_valid (snd (unquote_unit s) @ r)"
proof -
  have rep: "utf8_valid (replacement @ r)" "utf8_valid (utf8_encode n @ r)" for n
    using assms replacement_width utf8_encode_width by (auto intro: utf8_valid_unit)
  have one: "byte c < 128 \<Longrightarrow> utf8_valid (c # r)" for c
    using assms by (rule utf8_valid_Cons [rotated])
  have pre: "utf8_width s \<noteq> 0 \<Longrightarrow> utf8_valid (take (utf8_width s) s @ r)"
    using assms utf8_valid_prefix by blast
  show ?thesis
  proof (cases "get_u4 s")
    case None
    then show ?thesis
      using assms rep one pre by (auto simp: unquote_unit_def simple_escape_ascii split: list.splits)
  next
    case (Some n)
    then show ?thesis
      using rep by (auto simp: unquote_unit_def split: option.splits)
  qed
qed

lemma unquote_body_valid: "utf8_valid (unquote_body s)"
proof (induction s rule: unquote_body.induct)
  case (1 s)
  then show ?case
    by (subst unquote_body.simps) (auto intro: unquote_unit_valid)
qed

lemma unquote_valid [simp]: "utf8_valid (unquote s)"
  by (simp add: unquote_def unquote_body_valid)

text \<open>Every string the parser hands out is well-formed UTF-8.\<close>

fun json_utf8 :: "json \<Rightarrow> bool" where
  "json_utf8 (JStr s) = utf8_valid s"
| "json_utf8 _ = True"

lemma reduce_value_top:
  "p_top (reduce_value r v p) = (if p_stack p = [] then Some (r, v) else p_top p)"
  by (auto simp: reduce_value_def split: list.splits container.splits)

definition top_ok :: "parser \<Rightarrow> bool" where
  "top_ok p \<longleftrightarrow> (case p_top p of None \<Rightarrow> True | Some (r, v) \<Rightarrow> json_utf8 v)"

lemma reduce_value_top_ok: "top_ok p \<Longrightarrow> json_utf8 v \<Longrightarrow> top_ok (reduce_value r v p)"
  by (simp add: top_ok_def reduce_value_top)

lemma top_ok_update [simp]: "top_ok (p\<lparr>p_stack := st, p_mode := m\<rparr>) = top_ok p"
  "top_ok (p\<lparr>p_stack := st\<rparr>) = top_ok p"
  by (simp_all add: top_ok_def)

lemma literal_value_utf8 [simp]: "json_utf8 (literal_value s)"
  by (simp add: literal_value_def)

lemma parse_step_top_ok: "parse_step p t = Some q \<Longrightarrow> top_ok p \<Longrightarrow> top_ok q"
  by (cases t)
    (auto simp: set_key_def push_container_def next_member_def close_container_def reduce_value_top_ok
      split: list.splits if_splits container.splits)

lemma parse_tokens_top_ok: "parse_tokens p ts = Some q \<Longrightarrow> top_ok p \<Longrightarrow> top_ok q"
  by (induction ts arbitrary: p) (auto split: option.splits dest: parse_step_top_ok)

lemma parse_json_utf8: "parse_json s = Some (r, JStr t) \<Longrightarrow> utf8_valid t"
proof -
  assume "parse_json s = Some (r, JStr t)"
  then obtain ts q where "parse_tokens parser_init ts = Some q" "p_top q = Some (r, JStr t)"
    by (auto simp: parse_json_def split: option.splits)
  moreover have "top_ok parser_init" by (simp add: top_ok_def parser_init_def)
  ultimately show ?thesis using parse_tokens_top_ok by (fastforce simp: top_ok_def)
qed

end
