(* ===== verification/Errors.thy ===== *)
theory Errors
  imports JsonFacts
begin

text \<open>
  The error values of the program (\<open>errors.go\<close>, \<open>transport_error.go\<close> and the error types
  of \<open>prepared_request.go\<close>) with the slices of the packages \<open>errors\<close>, \<open>context\<close> and \<open>fmt\<close>
  that build and inspect them. A Go error is a value of \<open>go_error\<close>, the nil error is \<open>None\<close>.

  A package-level \<open>errors.New\<close> value is compared by identity in Go: here it is a \<open>Sentinel\<close>,
  named by its text. An error made on the spot is an \<open>ErrText\<close>.
\<close>

section \<open>Request errors\<close>

record request_error =
  code :: int
  message :: string
  data :: "json option"

text \<open>The JSON object \<open>map[string]any\<close> with the given entries.\<close>

definition any_map :: "(string \<times> json) list \<Rightarrow> json" where
  "any_map kvs = JObj (map (\<lambda>(k, v). (k, encode_any v, v)) kvs)"

definition error_data :: "string \<Rightarrow> json option" where
  "error_data t = Some (any_map [(''error'', JStr t)])"

definition NewParseError :: "json option \<Rightarrow> request_error" where
  "NewParseError d = \<lparr>code = -32700, message = ''Parse error'', data = d\<rparr>"

definition NewInvalidRequest :: "json option \<Rightarrow> request_error" where
  "NewInvalidRequest d = \<lparr>code = -32600, message = ''Invalid request'', data = d\<rparr>"

definition NewMethodNotFound :: "string \<Rightarrow> request_error" where
  "NewMethodNotFound m =
     \<lparr>code = -32601, message = ''Method not found'', data = Some (any_map [(''method'', JStr m)])\<rparr>"

definition NewInvalidParams :: "json option \<Rightarrow> request_error" where
  "NewInvalidParams d = \<lparr>code = -32602, message = ''Invalid params'', data = d\<rparr>"

definition NewInternalError :: "json option \<Rightarrow> request_error" where
  "NewInternalError d = \<lparr>code = -32603, message = ''Internal error'', data = d\<rparr>"

definition NewRequestCancelled :: "json option \<Rightarrow> request_error" where
  "NewRequestCancelled d = \<lparr>code = -32800, message = ''Request cancelled'', data = d\<rparr>"

definition NewAuthRequired :: "json option \<Rightarrow> request_error" where
  "NewAuthRequired d = \<lparr>code = -32000, message = ''Authentication required'', data = d\<rparr>"

definition NewServerOverloaded :: "json option \<Rightarrow> request_error" where
  "NewServerOverloaded d = \<lparr>code = -32001, message = ''Server overloaded'', data = d\<rparr>"

lemmas request_error_defs [go_simps] =
  NewParseError_def NewInvalidRequest_def NewMethodNotFound_def NewInvalidParams_def
  NewInternalError_def NewRequestCancelled_def NewAuthRequired_def NewServerOverloaded_def

text \<open>
  The JSON of a request error: the tags of \<open>RequestError\<close>, and of the view that
  \<open>RequestError.Error\<close> prints, with \<open>omitempty\<close> on the data.
\<close>

definition json_key :: "string \<Rightarrow> string" where
  "json_key k = dquote # k @ [dquote, CHR '':'']"

definition marshal_request_error :: "request_error \<Rightarrow> string" where
  "marshal_request_error e =
     ''{'' @ json_key ''code'' @ show_int (code e) @ '','' @ json_key ''message'' @ quote (message e)
     @ (case data e of None \<Rightarrow> [] | Some d \<Rightarrow> '','' @ json_key ''data'' @ encode_any d) @ ''}''"

section \<open>Error values\<close>

datatype submission = NotStarted | Possible | Pending

datatype transport_op = OpRead | OpWrite

datatype go_error =
    Sentinel string
  | ErrText string
  | ReqErr request_error
  | TransportErr transport_op "go_error option"
  | LifecycleErr string submission "go_error option" bool
  | DecodeErr "go_error option"
  | WrapErr string "go_error list"
  | JoinErr "go_error list"

definition ErrConnectionClosed :: go_error where
  "ErrConnectionClosed = Sentinel ''acp: connection closed''"
definition ErrPeerClosed :: go_error where
  "ErrPeerClosed = Sentinel ''acp: peer closed connection''"
definition ErrFrameTooLarge :: go_error where
  "ErrFrameTooLarge = Sentinel ''acp: frame exceeds configured limit''"
definition ErrPendingRequestsExceeded :: go_error where
  "ErrPendingRequestsExceeded = Sentinel ''acp: pending request limit exceeded''"
definition ErrRequestQueueFull :: go_error where
  "ErrRequestQueueFull = Sentinel ''acp: inbound request queue full''"
definition ErrNotificationQueueFull :: go_error where
  "ErrNotificationQueueFull = Sentinel ''acp: inbound notification queue full''"
definition ErrAfterResponseUnavailable :: go_error where
  "ErrAfterResponseUnavailable = Sentinel ''acp: after-response callback requires an inbound request context''"
definition ErrAfterResponseQueueFull :: go_error where
  "ErrAfterResponseQueueFull = Sentinel ''acp: batch after-response callback limit exceeded''"
definition ErrAfterResponseRegistered :: go_error where
  "ErrAfterResponseRegistered = Sentinel ''acp: after-response callback already registered''"
definition ErrTransportFailure :: go_error where
  "ErrTransportFailure = Sentinel ''acp: transport failure''"
definition ErrPreparedRequestUnavailable :: go_error where
  "ErrPreparedRequestUnavailable = Sentinel ''acp: prepared request is unavailable''"
definition ErrRequestAlreadyDispatched :: go_error where
  "ErrRequestAlreadyDispatched = Sentinel ''acp: prepared request was already dispatched''"
definition ErrRequestNotDispatched :: go_error where
  "ErrRequestNotDispatched = Sentinel ''acp: prepared request was not dispatched''"
definition ErrRequestAbandoned :: go_error where
  "ErrRequestAbandoned = Sentinel ''acp: prepared request was abandoned''"
definition ErrResponseObserverRequired :: go_error where
  "ErrResponseObserverRequired = Sentinel ''acp: response observer is required''"
definition ErrResponseObserverRegistered :: go_error where
  "ErrResponseObserverRegistered = Sentinel ''acp: response observer is already registered''"
definition ErrResponseObserverUnavailable :: go_error where
  "ErrResponseObserverUnavailable = Sentinel ''acp: response observer must be registered before dispatch''"
definition errPreparedWriteNotStarted :: go_error where
  "errPreparedWriteNotStarted = Sentinel ''acp: prepared request write was not started''"

text \<open>The sentinels of the packages \<open>context\<close>, \<open>io\<close>, \<open>os\<close> and \<open>bufio\<close>.\<close>

definition Canceled :: go_error where "Canceled = Sentinel ''context canceled''"
definition DeadlineExceeded :: go_error where "DeadlineExceeded = Sentinel ''context deadline exceeded''"
definition EOF :: go_error where "EOF = Sentinel ''EOF''"
definition ErrShortWrite :: go_error where "ErrShortWrite = Sentinel ''short write''"
definition ErrClosed :: go_error where "ErrClosed = Sentinel ''file already closed''"
definition ErrProcessDone :: go_error where "ErrProcessDone = Sentinel ''os: process already finished''"

lemmas sentinel_defs [go_simps] =
  ErrConnectionClosed_def ErrPeerClosed_def ErrFrameTooLarge_def ErrPendingRequestsExceeded_def
  ErrRequestQueueFull_def ErrNotificationQueueFull_def ErrAfterResponseUnavailable_def
  ErrAfterResponseQueueFull_def ErrAfterResponseRegistered_def ErrTransportFailure_def
  ErrPreparedRequestUnavailable_def ErrRequestAlreadyDispatched_def ErrRequestNotDispatched_def
  ErrRequestAbandoned_def ErrResponseObserverRequired_def ErrResponseObserverRegistered_def
  ErrResponseObserverUnavailable_def errPreparedWriteNotStarted_def Canceled_def DeadlineExceeded_def
  EOF_def ErrShortWrite_def ErrClosed_def ErrProcessDone_def

section \<open>Texts\<close>

definition op_text :: "transport_op \<Rightarrow> string" where
  "op_text op = (case op of OpRead \<Rightarrow> ''read'' | OpWrite \<Rightarrow> ''write'')"

text \<open>
  The method \<open>Error\<close> of each type. A wrapping error made by \<open>fmt.Errorf\<close> carries its text;
  \<open>errors.Join\<close> separates the texts by newlines.
\<close>

fun error_text :: "go_error \<Rightarrow> string" where
  "error_text (Sentinel t) = t"
| "error_text (ErrText t) = t"
| "error_text (ReqErr e) = marshal_request_error e"
| "error_text (TransportErr op None) = ''acp: transport '' @ op_text op @ '' failed''"
| "error_text (TransportErr op (Some e)) = ''acp: transport '' @ op_text op @ '' failed: '' @ error_text e"
| "error_text (LifecycleErr oper st None b) = ''acp: prepared request '' @ oper @ '' failed''"
| "error_text (LifecycleErr oper st (Some e) b) =
     ''acp: prepared request '' @ oper @ '' failed: '' @ error_text e"
| "error_text (DecodeErr None) = ''acp: decode successful response result''"
| "error_text (DecodeErr (Some e)) = ''acp: decode successful response result: '' @ error_text e"
| "error_text (WrapErr t es) = t"
| "error_text (JoinErr es) = join_with [newline] (map error_text es)"

text \<open>\<open>fmt.Errorf\<close> with one prefix and one wrapped error: \<open>prefix: %w\<close>.\<close>

definition wrap_err :: "string \<Rightarrow> go_error \<Rightarrow> go_error" where
  "wrap_err p e = WrapErr (p @ '': '' @ error_text e) [e]"

text \<open>\<open>fmt.Errorf("%w: %w", a, b)\<close>.\<close>

definition wrap_two :: "go_error \<Rightarrow> go_error \<Rightarrow> go_error" where
  "wrap_two a b = WrapErr (error_text a @ '': '' @ error_text b) [a, b]"

text \<open>\<open>errors.Join\<close> drops nil errors and is nil when all are.\<close>

definition errors_join :: "go_error option list \<Rightarrow> go_error option" where
  "errors_join es =
     (case List.map_filter id es of [] \<Rightarrow> None | xs \<Rightarrow> Some (JoinErr xs))"

section \<open>Inspection: errors.Is and errors.As\<close>

text \<open>The errors met by unwrapping, in the depth-first order of \<open>errors.Is\<close> and \<open>errors.As\<close>.\<close>

fun chain :: "go_error \<Rightarrow> go_error list" where
  "chain (Sentinel t) = [Sentinel t]"
| "chain (ErrText t) = [ErrText t]"
| "chain (ReqErr e) = [ReqErr e]"
| "chain (TransportErr op None) = [TransportErr op None]"
| "chain (TransportErr op (Some e)) = TransportErr op (Some e) # chain e"
| "chain (LifecycleErr oper st None b) = [LifecycleErr oper st None b]"
| "chain (LifecycleErr oper st (Some e) b) = LifecycleErr oper st (Some e) b # chain e"
| "chain (DecodeErr None) = [DecodeErr None]"
| "chain (DecodeErr (Some e)) = DecodeErr (Some e) # chain e"
| "chain (WrapErr t es) = WrapErr t es # concat (map chain es)"
| "chain (JoinErr es) = JoinErr es # concat (map chain es)"

text \<open>The method \<open>Is\<close> of \<open>TransportError\<close>; no other type has one.\<close>

definition is_method :: "go_error \<Rightarrow> go_error \<Rightarrow> bool" where
  "is_method e target =
     (case e of TransportErr _ _ \<Rightarrow> target = ErrTransportFailure | _ \<Rightarrow> False)"

definition errors_is :: "go_error option \<Rightarrow> go_error \<Rightarrow> bool" where
  "errors_is err target =
     (case err of
        None \<Rightarrow> False
      | Some e \<Rightarrow> list_ex (\<lambda>x. x = target \<or> is_method x target) (chain e))"

fun first_some :: "('a \<Rightarrow> 'b option) \<Rightarrow> 'a list \<Rightarrow> 'b option" where
  "first_some f [] = None"
| "first_some f (x # xs) = (case f x of None \<Rightarrow> first_some f xs | Some y \<Rightarrow> Some y)"

definition as_request_error :: "go_error option \<Rightarrow> request_error option" where
  "as_request_error err =
     (case err of
        None \<Rightarrow> None
      | Some e \<Rightarrow> first_some (\<lambda>x. case x of ReqErr r \<Rightarrow> Some r | _ \<Rightarrow> None) (chain e))"

definition as_decode_error :: "go_error option \<Rightarrow> go_error option option" where
  "as_decode_error err =
     (case err of
        None \<Rightarrow> None
      | Some e \<Rightarrow> first_some (\<lambda>x. case x of DecodeErr c \<Rightarrow> Some c | _ \<Rightarrow> None) (chain e))"

definition as_lifecycle_error :: "go_error option \<Rightarrow> (string \<times> submission \<times> go_error option \<times> bool) option" where
  "as_lifecycle_error err =
     (case err of
        None \<Rightarrow> None
      | Some e \<Rightarrow>
          first_some (\<lambda>x. case x of LifecycleErr oper st c b \<Rightarrow> Some (oper, st, c, b) | _ \<Rightarrow> None) (chain e))"

section \<open>Coercion to request errors\<close>

definition toReqErr :: "go_error option \<Rightarrow> request_error option" where
  "toReqErr err =
     (case err of
        None \<Rightarrow> None
      | Some e \<Rightarrow>
          (case as_request_error (Some e) of
             Some re \<Rightarrow> Some re
           | None \<Rightarrow>
               if errors_is (Some e) Canceled \<or> errors_is (Some e) DeadlineExceeded
               then Some (NewRequestCancelled (error_data (error_text e)))
               else Some (NewInternalError (error_data (error_text e)))))"

definition transportError :: "transport_op \<Rightarrow> go_error option \<Rightarrow> go_error option" where
  "transportError op cause = (case cause of None \<Rightarrow> None | Some c \<Rightarrow> Some (TransportErr op (Some c)))"

section \<open>Classification of submissions\<close>

definition RequestSubmissionStateOf :: "go_error option \<Rightarrow> submission \<times> bool" where
  "RequestSubmissionStateOf err =
     (case as_lifecycle_error err of
        Some (oper, st, c, True) \<Rightarrow> (st, True)
      | _ \<Rightarrow> (NotStarted, False))"

definition RequestMayHaveBeenSubmitted :: "go_error option \<Rightarrow> bool" where
  "RequestMayHaveBeenSubmitted err =
     (case err of
        None \<Rightarrow> False
      | Some e \<Rightarrow> (let (state, ok) = RequestSubmissionStateOf (Some e) in \<not> ok \<or> state \<noteq> NotStarted))"

definition lifecycleError :: "string \<Rightarrow> submission \<Rightarrow> go_error option \<Rightarrow> go_error option" where
  "lifecycleError oper st err =
     (case err of None \<Rightarrow> None | Some e \<Rightarrow> Some (LifecycleErr oper st (Some e) True))"

text \<open>The accessors \<open>Operation\<close> and \<open>SubmissionState\<close> of a lifecycle error that is not nil.\<close>

fun Operation :: "string \<times> submission \<times> go_error option \<times> bool \<Rightarrow> string" where
  "Operation (oper, st, c, b) = oper"

fun SubmissionState :: "string \<times> submission \<times> go_error option \<times> bool \<Rightarrow> submission" where
  "SubmissionState (oper, st, c, b) = (if b then st else Pending)"

section \<open>Facts\<close>

lemma chain_self: "e \<in> set (chain e)"
  by (cases e rule: chain.cases) auto

lemma chain_nonempty [simp]: "chain e \<noteq> []"
  by (cases e rule: chain.cases) auto

lemma errors_is_refl: "errors_is (Some e) e"
  using chain_self by (auto simp: errors_is_def list_ex_iff)

lemma errors_is_transport [simp]:
  "errors_is (Some (TransportErr op (Some c))) t \<longleftrightarrow>
     t = TransportErr op (Some c) \<or> t = ErrTransportFailure \<or> errors_is (Some c) t"
  by (auto simp: errors_is_def is_method_def list_ex_iff)

lemma errors_is_wrap [simp]:
  "errors_is (Some (WrapErr s es)) t \<longleftrightarrow> t = WrapErr s es \<or> (\<exists>e \<in> set es. errors_is (Some e) t)"
  by (auto simp: errors_is_def is_method_def list_ex_iff)

lemma errors_is_join [simp]:
  "errors_is (Some (JoinErr es)) t \<longleftrightarrow> t = JoinErr es \<or> (\<exists>e \<in> set es. errors_is (Some e) t)"
  by (auto simp: errors_is_def is_method_def list_ex_iff)

lemma errors_is_sentinel [simp]: "errors_is (Some (Sentinel s)) t \<longleftrightarrow> t = Sentinel s"
  by (auto simp: errors_is_def is_method_def)

lemma first_some_eq_Some:
  "first_some f xs = Some y \<Longrightarrow> \<exists>x \<in> set xs. f x = Some y"
  by (induction xs) (auto split: option.splits)

lemma first_some_eq_None: "first_some f xs = None \<longleftrightarrow> (\<forall>x \<in> set xs. f x = None)"
  by (induction xs) (auto split: option.splits)

lemma lifecycleError_state:
  "RequestSubmissionStateOf (lifecycleError oper st (Some e)) = (st, True)"
  by (simp add: RequestSubmissionStateOf_def lifecycleError_def as_lifecycle_error_def)

lemma lifecycleError_may_have_been_submitted:
  "RequestMayHaveBeenSubmitted (lifecycleError oper st (Some e)) \<longleftrightarrow> st \<noteq> NotStarted"
  by (simp add: RequestMayHaveBeenSubmitted_def lifecycleError_def)
     (simp add: RequestSubmissionStateOf_def as_lifecycle_error_def)

text \<open>
  Claims: which code a handler's error is reported with, and what the transport
  classification preserves.
\<close>

lemma toReqErr_code:
  "toReqErr (Some e) = Some r \<Longrightarrow> as_request_error (Some e) = None \<Longrightarrow>
     code r = (if errors_is (Some e) Canceled \<or> errors_is (Some e) DeadlineExceeded then -32800 else -32603)"
  by (auto simp: toReqErr_def request_error_defs split: if_splits)

lemma toReqErr_total: "toReqErr err = None \<longleftrightarrow> err = None"
  by (auto simp: toReqErr_def split: option.splits if_splits)

end
