(* ===== verification/JsonPrint.thy ===== *)
theory JsonPrint
  imports Errors JsonFacts
begin

text \<open>
  Texts that \<open>json.Marshal\<close> produces, and what the parser makes of them inside a larger text: a
  value is \<open>clean\<close> when its tokens hold no white space and nothing that compaction would change,
  and when they reduce, wherever a value may stand, to that one value. Arrays and objects of
  clean values are clean, and so are quoted strings, numbers, and compacted raw values.
\<close>

section \<open>Lexing inside a larger text\<close>

lemma punct_cases:
  assumes "is_punct c"
  obtains "c = CHR ''[''" | "c = CHR '']''" | "c = CHR ''{''" | "c = CHR ''}''" | "c = CHR '',''" | "c = CHR '':''"
  using assms by (auto simp: is_punct_def)

lemma num_next_punct: "is_punct c \<Longrightarrow> num_next n c = None"
  by (cases n; elim punct_cases; simp add: is_digit_def)

lemma punct_begin: "is_punct c \<Longrightarrow> lex_begin c = Some ([TPunct c], LStart)"
  by (auto simp: lex_begin_def is_punct_def is_ws_def)

lemma lex_punct [simp]: "is_punct c \<Longrightarrow> lex LStart (c # r) = map_option ((#) (TPunct c)) (lex LStart r)"
  by (simp add: punct_begin split: option.split)

lemma lex_ends_at_punct:
  assumes "is_punct c"
  shows "lex st t = Some ts \<Longrightarrow> lex st (t @ c # r) = map_option ((@) ts) (lex LStart (c # r))"
proof (induction t arbitrary: st ts)
  case Nil
  have "\<not> is_ws c" "\<not> is_lower c" using assms by (auto simp: is_punct_def is_ws_def is_lower_def)
  with Nil assms show ?case
    by (cases st)
      (auto simp: after_token_def punct_begin num_next_punct split: option.split if_splits)
next
  case (Cons a t)
  then obtain us st' vs where "lex_step st a = Some (us, st')" "lex st' t = Some vs" "ts = us @ vs"
    by (auto split: option.splits)
  with Cons.IH [of st' vs] show ?case by (auto split: option.split)
qed

section \<open>Quoted strings\<close>

fun str_scan :: "str_state \<Rightarrow> string \<Rightarrow> str_state option" where
  "str_scan st [] = Some st"
| "str_scan st (c # r) =
     (if st = SIn \<and> c = dquote then None
      else (case str_next st c of None \<Rightarrow> None | Some st' \<Rightarrow> str_scan st' r))"

lemma str_scan_append: "str_scan st u = Some st' \<Longrightarrow> str_scan st (u @ r) = str_scan st' r"
  by (induction u arbitrary: st) (auto split: if_splits option.splits)

lemma lex_str_scan: "str_scan st u = Some st' \<Longrightarrow> lex (LStr st a) (u @ r) = lex (LStr st' (rev u @ a)) r"
proof (induction u arbitrary: st a)
  case (Cons c u)
  then obtain st1 where "\<not> (st = SIn \<and> c = dquote)" "str_next st c = Some st1" "str_scan st1 u = Some st'"
    by (auto split: if_splits option.splits)
  with Cons.IH [of st1 "c # a"] show ?case by (auto split: option.split)
qed simp

lemma utf8_chunk_bytes: "utf8_width s \<noteq> 0 \<Longrightarrow> \<not> byte (hd s) < 128 \<Longrightarrow> c \<in> set (take (utf8_width s) s) \<Longrightarrow> 128 \<le> byte c"
  by (cases s rule: utf8_cases) (auto simp: utf8_width.simps in_range_def split: if_splits)

lemma scan_high: "(\<forall>c \<in> set u. 128 \<le> byte c) \<Longrightarrow> str_scan SIn u = Some SIn"
proof (induction u)
  case (Cons c u)
  then have "128 \<le> byte c" by simp
  then have "c \<noteq> dquote" "c \<noteq> backslash" by auto
  with Cons \<open>128 \<le> byte c\<close> show ?case by simp
qed simp

lemma scan_quote_ascii: "byte c < 128 \<Longrightarrow> str_scan SIn (quote_ascii c) = Some SIn"
proof -
  assume "byte c < 128"
  then have "byte c div 16 < 16" "byte c mod 16 < 16" by simp_all
  then show ?thesis by (auto simp: quote_ascii_def is_hex_digits)
qed

lemma scan_quote_unit: "str_scan SIn (snd (quote_unit s)) = Some SIn"
proof (cases s)
  case (Cons a t)
  have "str_scan SIn (take (utf8_width s) s) = Some SIn" if "utf8_width s \<noteq> 0" "\<not> byte a < 128"
    using scan_high utf8_chunk_bytes [of s] that Cons by auto
  then show ?thesis
    using Cons by (auto simp: quote_unit_def scan_quote_ascii is_hex_digits)
qed (simp add: quote_unit_def)

lemma scan_quote_body: "str_scan SIn (quote_body s) = Some SIn"
proof (induction s rule: quote_body.induct)
  case (1 s)
  show ?case
  proof (cases "s = [] \<or> fst (quote_unit s) = 0")
    case False
    then have "quote_body s = snd (quote_unit s) @ quote_body (drop (fst (quote_unit s)) s)"
      by (subst quote_body.simps) simp
    then show ?thesis using 1 False by (simp add: str_scan_append [OF scan_quote_unit])
  qed (subst quote_body.simps, simp)
qed

lemma dquote_begin: "lex_begin dquote = Some ([], LStr SIn [dquote])"
  by (simp add: lex_begin_def is_ws_def is_punct_def)

lemma lex_quote: "lex LStart (quote s @ r) = map_option ((#) (TStr (quote s))) (lex LStart r)"
proof -
  have "lex (LStr SIn [dquote]) (quote_body s @ dquote # r) = lex (LStr SIn (rev (quote_body s) @ [dquote])) (dquote # r)"
    by (rule lex_str_scan [OF scan_quote_body])
  then show ?thesis by (simp add: quote_def dquote_begin split: option.split)
qed

declare lex.simps(2) [simp del]

section \<open>What compaction leaves alone\<close>

lemma escape_plain: "a \<notin> set ''<>&'' \<Longrightarrow> a \<noteq> CHR 0xE2 \<Longrightarrow> escape_html (a # r) = a # escape_html r"
  by (auto simp: escape_html.simps(2) split: list.split)

lemma escape_plains: "(\<forall>a \<in> set u. a \<notin> set ''<>&'' \<and> a \<noteq> CHR 0xE2) \<Longrightarrow> escape_html (u @ r) = u @ escape_html r"
proof (induction u)
  case (Cons a u)
  then show ?case by (simp add: escape_plain)
qed simp


lemma escape_three:
  "\<not> (a = CHR 0xE2 \<and> b = CHR 0x80 \<and> (c = CHR 0xA8 \<or> c = CHR 0xA9)) \<Longrightarrow> a \<notin> set ''<>&'' \<Longrightarrow>
    escape_html (a # b # c # r) = a # escape_html (b # c # r)"
  by (auto simp: escape_html.simps(2))

lemma high_plain: "128 \<le> byte a \<Longrightarrow> a \<notin> set ''<>&''"
  by auto

lemma utf8_tail_bytes:
  "utf8_width s \<noteq> 0 \<Longrightarrow> \<not> byte (hd s) < 128 \<Longrightarrow> c \<in> set (tl (take (utf8_width s) s)) \<Longrightarrow> byte c \<le> 0xBF"
  by (cases s rule: utf8_cases) (auto simp: utf8_width.simps in_range_def split: if_splits)

lemma width_E2:
  assumes "hd s = CHR 0xE2" "utf8_width s \<noteq> 0"
  obtains b c q where "s = CHR 0xE2 # b # c # q" "utf8_width s = 3" "in_range 0x80 0xBF b" "in_range 0x80 0xBF c"
proof (cases s rule: utf8_cases)
  case (4 a b c d r)
  then have "in_range 0x80 0xBF b \<and> in_range 0x80 0xBF c" "utf8_width s = 3"
    using assms by (simp_all add: utf8_width.simps in_range_def split: if_splits)
  with 4 assms(1) that show ?thesis by simp
next
  case (3 a b c)
  then have "in_range 0x80 0xBF b \<and> in_range 0x80 0xBF c" "utf8_width s = 3"
    using assms by (simp_all add: utf8_width.simps in_range_def split: if_splits)
  with 3 assms(1) that show ?thesis by simp
qed (use assms in \<open>simp_all add: utf8_width.simps in_range_def\<close>)

lemma escape_chunk:
  assumes w: "utf8_width s \<noteq> 0" and high: "\<not> byte (hd s) < 128"
    and sep: "take 3 s \<noteq> [CHR 0xE2, CHR 0x80, CHR 0xA8]" "take 3 s \<noteq> [CHR 0xE2, CHR 0x80, CHR 0xA9]"
  shows "escape_html (take (utf8_width s) s @ r) = take (utf8_width s) s @ escape_html r"
proof (cases "CHR 0xE2 \<in> set (take (utf8_width s) s)")
  case False
  have "\<forall>a \<in> set (take (utf8_width s) s). a \<notin> set ''<>&'' \<and> a \<noteq> CHR 0xE2"
    using utf8_chunk_bytes [OF w high] high_plain False by metis
  then show ?thesis by (rule escape_plains)
next
  case True
  moreover have "CHR 0xE2 \<notin> set (tl (take (utf8_width s) s))" using utf8_tail_bytes [OF w high, of "CHR 0xE2"] by auto
  ultimately have "hd (take (utf8_width s) s) = CHR 0xE2" by (cases "take (utf8_width s) s") auto
  then have "hd s = CHR 0xE2" using w by (simp add: hd_take)
  then obtain b c q where s: "s = CHR 0xE2 # b # c # q" "utf8_width s = 3" "in_range 0x80 0xBF b" "in_range 0x80 0xBF c"
    using w by (rule width_E2)
  have "b \<notin> set ''<>&'' \<and> b \<noteq> CHR 0xE2" "c \<notin> set ''<>&'' \<and> c \<noteq> CHR 0xE2"
    using s(3,4) by (auto simp: in_range_def)
  then have "escape_html ([b, c] @ r) = [b, c] @ escape_html r" by (intro escape_plains) auto
  then show ?thesis using s(1,2) sep by (simp add: escape_three)
qed

lemma quote_ascii_plain: "byte c < 128 \<Longrightarrow> \<forall>a \<in> set (quote_ascii c). a \<notin> set ''<>&'' \<and> a \<noteq> CHR 0xE2"
proof -
  assume c: "byte c < 128"
  have hex: "h \<notin> set ''<>&'' \<and> h \<noteq> CHR 0xE2" if "is_hex h" for h
    using that by (auto simp: is_hex_def is_digit_def)
  have "byte c div 16 < 16" "byte c mod 16 < 16" using c by simp_all
  then have "is_hex (hex_char (byte c div 16))" "is_hex (hex_char (byte c mod 16))" by simp_all
  note h = this [THEN hex]
  let ?short = "{dquote, backslash, CHR 0x08, CHR 0x0C, CHR 0x0A, CHR 0x0D, CHR 0x09}"
  consider "c \<in> ?short" | "c \<notin> ?short" "byte c < 32 \<or> c \<in> set ''<>&''" | "c \<notin> ?short" "\<not> (byte c < 32 \<or> c \<in> set ''<>&'')"
    by blast
  then show ?thesis
  proof cases
    case 1
    then show ?thesis by (elim insertE emptyE) (simp_all add: quote_ascii_def)
  next
    case 2
    then have "quote_ascii c = [backslash, CHR ''u'', CHR ''0'', CHR ''0'', hex_char (byte c div 16), hex_char (byte c mod 16)]"
      unfolding quote_ascii_def by (simp only: insert_iff empty_iff de_Morgan_disj simp_thms if_True if_False)
    with h show ?thesis by simp
  next
    case 3
    then have "quote_ascii c = [c]"
      unfolding quote_ascii_def by (simp only: insert_iff empty_iff de_Morgan_disj simp_thms if_True if_False)
    moreover have "c \<noteq> CHR 0xE2" using c by (cases "c = CHR 0xE2") simp_all
    ultimately show ?thesis using 3(2) by simp
  qed
qed

lemma quote_unit_eq:
  "s \<noteq> [] \<Longrightarrow> quote_unit s =
     (if byte (hd s) < 128 then (1, quote_ascii (hd s))
      else if utf8_width s = 0 then (1, backslash # ''ufffd'')
      else if take 3 s = [CHR 0xE2, CHR 0x80, CHR 0xA8] then (3, backslash # ''u2028'')
      else if take 3 s = [CHR 0xE2, CHR 0x80, CHR 0xA9] then (3, backslash # ''u2029'')
      else (utf8_width s, take (utf8_width s) s))"
  by (cases s) (simp_all only: quote_unit_def list.case list.sel simp_thms list.distinct)

lemma escape_quote_unit: "escape_html (snd (quote_unit s) @ r) = snd (quote_unit s) @ escape_html r"
proof (cases s)
  case (Cons a t)
  consider "snd (quote_unit s) = quote_ascii a \<and> byte a < 128"
    | "snd (quote_unit s) \<in> {backslash # ''ufffd'', backslash # ''u2028'', backslash # ''u2029''}"
    | "snd (quote_unit s) = take (utf8_width s) s \<and> utf8_width s \<noteq> 0 \<and> \<not> byte (hd s) < 128 \<and>
        take 3 s \<noteq> [CHR 0xE2, CHR 0x80, CHR 0xA8] \<and> take 3 s \<noteq> [CHR 0xE2, CHR 0x80, CHR 0xA9]"
    using Cons quote_unit_eq [of s] by (metis insertI1 insertI2 list.sel(1) list.discI snd_conv)
  then show ?thesis
  proof cases
    case 1
    then show ?thesis using escape_plains [OF quote_ascii_plain] by metis
  next
    case 2
    then have "\<forall>a \<in> set (snd (quote_unit s)). a \<notin> set ''<>&'' \<and> a \<noteq> CHR 0xE2" by auto
    then show ?thesis by (rule escape_plains)
  next
    case 3
    then show ?thesis using escape_chunk [of s r] by metis
  qed
qed (simp add: quote_unit_def)

lemma escape_quote_body: "escape_html (quote_body s @ [dquote]) = quote_body s @ [dquote]"
proof (induction s rule: quote_body.induct)
  case (1 s)
  show ?case
  proof (cases "s = [] \<or> fst (quote_unit s) = 0")
    case False
    then have "quote_body s = snd (quote_unit s) @ quote_body (drop (fst (quote_unit s)) s)"
      by (subst quote_body.simps) simp
    then show ?thesis using 1 False by (simp add: escape_quote_unit)
  next
    case True
    then have "quote_body s = []" by (subst quote_body.simps) simp
    then show ?thesis by (simp add: escape_plain)
  qed
qed

lemma escape_quote: "escape_html (quote s) = quote s"
  using escape_quote_body [of s] by (simp add: quote_def escape_plain)


section \<open>Clean values\<close>

definition steady :: "token \<Rightarrow> bool" where
  "steady x \<longleftrightarrow> compact_token x = tok_text x \<and> (case x of TWs s \<Rightarrow> False | _ \<Rightarrow> True)"

definition parses :: "nat \<Rightarrow> token list \<Rightarrow> string \<Rightarrow> json \<Rightarrow> bool" where
  "parses d ts t v \<longleftrightarrow>
     (\<forall>p. expects_value (p_mode p) \<longrightarrow> length (p_stack p) + d \<le> max_depth \<longrightarrow>
        parse_tokens p ts = Some (reduce_value t v p))"

text \<open>\<open>d\<close> bounds the nesting of the value.\<close>

definition clean :: "nat \<Rightarrow> string \<Rightarrow> json \<Rightarrow> bool" where
  "clean d t v \<longleftrightarrow> (\<exists>ts. lex LStart t = Some ts \<and> (\<forall>x \<in> set ts. steady x) \<and> parses d ts t v)"

lemma reduce_value_mode [simp]: "reduce_value t v (p\<lparr>p_mode := m\<rparr>) = reduce_value t v p"
  by (cases p) (simp add: reduce_value_def split: list.split container.split)

lemma parse_tokens_append:
  "parse_tokens p (ts @ us) = (case parse_tokens p ts of None \<Rightarrow> None | Some q \<Rightarrow> parse_tokens q us)"
  by (induction ts arbitrary: p) (auto split: option.split)

lemma steady_simps [simp]:
  "steady (TPunct c)" "steady (TLit s)" "steady (TNum s)" "steady (TStr (quote s))" "\<not> steady (TWs s)"
  by (simp_all add: steady_def escape_quote)

lemma clean_mono: "clean d t v \<Longrightarrow> d \<le> e \<Longrightarrow> clean e t v"
  unfolding clean_def parses_def by (meson add_left_mono le_trans)

lemma steady_text: "\<forall>x \<in> set ts. steady x \<Longrightarrow> concat (map compact_token ts) = toks_text ts"
  by (induction ts) (simp_all add: steady_def)

lemma clean_parse: "clean d t v \<Longrightarrow> d \<le> max_depth \<Longrightarrow> parse_json t = Some (t, v)"
  by (auto simp: clean_def parses_def parse_json_def tokens_def expects_value_def reduce_value_def parser_init_def)

lemma clean_compact: "clean d t v \<Longrightarrow> d \<le> max_depth \<Longrightarrow> compact t = Some t"
proof -
  assume "clean d t v" "d \<le> max_depth"
  then obtain ts where ts: "lex LStart t = Some ts" "\<forall>x \<in> set ts. steady x" "parse_json t = Some (t, v)"
    using clean_parse [of d t v] by (auto simp: clean_def)
  then have "toks_text ts = t" using lex_text_eq [OF ts(1)] by simp
  with ts show ?thesis by (simp add: compact_def json_valid_def tokens_def steady_text)
qed

lemma clean_nonempty: "clean d t v \<Longrightarrow> d \<le> max_depth \<Longrightarrow> t \<noteq> []"
  using clean_parse [of d t v] by (auto simp: parse_json_def tokens_def parser_init_def)

lemma clean_marshal_raw: "clean d t v \<Longrightarrow> d \<le> max_depth \<Longrightarrow> marshal_raw t = Some t"
  by (auto simp: marshal_raw_def clean_compact dest: clean_nonempty)

lemma clean_null: "clean 0 ''null'' JNull"
proof -
  have "lex LStart ''null'' = Some [TLit ''null'']" by code_simp
  then show ?thesis by (auto simp: clean_def parses_def literal_value_def)
qed

lemma clean_true: "clean 0 ''true'' (JBool True)"
proof -
  have "lex LStart ''true'' = Some [TLit ''true'']" by code_simp
  then show ?thesis by (auto simp: clean_def parses_def literal_value_def)
qed

lemma clean_false: "clean 0 ''false'' (JBool False)"
proof -
  have "lex LStart ''false'' = Some [TLit ''false'']" by code_simp
  then show ?thesis by (auto simp: clean_def parses_def literal_value_def)
qed

lemma clean_quote: "utf8_valid s \<Longrightarrow> clean 0 (quote s) (JStr s)"
  using lex_quote [of s "[]"] by (auto simp: clean_def parses_def unquote_quote)

lemma clean_num: "lex LStart s = Some [TNum s] \<Longrightarrow> clean 0 s (JNum s)"
  by (auto simp: clean_def parses_def)


section \<open>Arrays and objects of clean values\<close>

definition array_text :: "string list \<Rightarrow> string" where
  "array_text ts = ''['' @ join_with '','' ts @ '']''"

definition member_text :: "string \<times> string \<Rightarrow> string" where
  "member_text m = (case m of (k, t) \<Rightarrow> quote k @ '':'' @ t)"

definition object_text :: "(string \<times> string) list \<Rightarrow> string" where
  "object_text ms = ''{'' @ join_with '','' (map member_text ms) @ ''}''"

lemma clean_cases:
  assumes "clean d t v"
  obtains ts where "\<And>c r. is_punct c \<Longrightarrow> lex LStart (t @ c # r) = map_option ((@) ts) (lex LStart (c # r))"
    "\<forall>x \<in> set ts. steady x" "parses d ts t v"
  using assms lex_ends_at_punct by (auto simp: clean_def)

lemma puncts [simp]:
  "is_punct CHR ''[''" "is_punct CHR '']''" "is_punct CHR ''{''" "is_punct CHR ''}''" "is_punct CHR '',''" "is_punct CHR '':''"
  by (simp_all add: is_punct_def)

text \<open>The inside of an object: its tokens, and what the parser does with them.\<close>

definition key_mode :: "parse_mode \<Rightarrow> bool" where
  "key_mode m \<longleftrightarrow> m = PKey \<or> m = PKeyOrEnd"

lemma parse_member:
  assumes "parses d ts t v" "utf8_valid k" "key_mode m" "Suc (length st) + d \<le> max_depth"
  shows "parse_tokens \<lparr>p_stack = CObj acc k0 raw # st, p_mode = m, p_top = q\<rparr> (TStr (quote k) # TPunct CHR '':'' # ts) =
    Some \<lparr>p_stack = CObj (acc @ [(k, t, v)]) k (raw @ member_text (k, t)) # st, p_mode = PAfter, p_top = q\<rparr>"
proof -
  have "parse_tokens \<lparr>p_stack = CObj acc k (raw @ quote k @ '':'') # st, p_mode = PValue, p_top = q\<rparr> ts =
      Some (reduce_value t v \<lparr>p_stack = CObj acc k (raw @ quote k @ '':'') # st, p_mode = PValue, p_top = q\<rparr>)"
    using assms(1,4) by (simp add: parses_def expects_value_def)
  then show ?thesis
    using assms(2,3) by (auto simp: key_mode_def expects_value_def set_key_def unquote_quote reduce_value_def member_text_def)
qed

lemma object_inside:
  assumes "ms \<noteq> []" "\<forall>(k, t, v) \<in> set ms. utf8_valid k \<and> clean d t v"
  shows "\<exists>ts. (\<forall>c r. is_punct c \<longrightarrow> lex LStart (join_with '','' (map (\<lambda>(k, t, v). member_text (k, t)) ms) @ c # r) =
          map_option ((@) ts) (lex LStart (c # r))) \<and> (\<forall>x \<in> set ts. steady x) \<and>
      (\<forall>acc k0 raw st m q. key_mode m \<longrightarrow> Suc (length st) + d \<le> max_depth \<longrightarrow>
          (\<exists>k. parse_tokens \<lparr>p_stack = CObj acc k0 raw # st, p_mode = m, p_top = q\<rparr> ts =
            Some \<lparr>p_stack = CObj (acc @ ms) k (raw @ join_with '','' (map (\<lambda>(k, t, v). member_text (k, t)) ms)) # st,
                  p_mode = PAfter, p_top = q\<rparr>))"
  using assms
proof (induction ms rule: list_nonempty_induct)
  case (single x)
  obtain k t v where x: "x = (k, t, v)" by (cases x)
  with single have u: "utf8_valid k" and c: "clean d t v" by auto
  from c obtain ts where ts: "\<And>c r. is_punct c \<Longrightarrow> lex LStart (t @ c # r) = map_option ((@) ts) (lex LStart (c # r))"
    "\<forall>x \<in> set ts. steady x" "parses d ts t v" by (rule clean_cases) blast
  have lexed: "lex LStart (member_text (k, t) @ c # r) = map_option ((@) (TStr (quote k) # TPunct CHR '':'' # ts)) (lex LStart (c # r))"
    if "is_punct c" for c r
    using that ts(1) by (simp add: member_text_def lex_quote option.map_comp comp_def)
  have parsed: "parse_tokens \<lparr>p_stack = CObj acc k0 raw # st, p_mode = m, p_top = q\<rparr> (TStr (quote k) # TPunct CHR '':'' # ts) =
      Some \<lparr>p_stack = CObj (acc @ [x]) k (raw @ member_text (k, t)) # st, p_mode = PAfter, p_top = q\<rparr>"
    if "key_mode m" "Suc (length st) + d \<le> max_depth" for acc k0 raw st m q
    using parse_member [OF ts(3) u that] by (simp add: x)
  show ?case
  proof (intro exI conjI allI impI)
    show "lex LStart (join_with '','' (map (\<lambda>(k, t, v). member_text (k, t)) [x]) @ c # r) =
        map_option ((@) (TStr (quote k) # TPunct CHR '':'' # ts)) (lex LStart (c # r))" if "is_punct c" for c r
      using lexed [OF that] by (simp only: x list.map prod.case join_with.simps)
    show "\<forall>x \<in> set (TStr (quote k) # TPunct CHR '':'' # ts). steady x" using ts(2) by simp
    show "parse_tokens \<lparr>p_stack = CObj acc k0 raw # st, p_mode = m, p_top = q\<rparr> (TStr (quote k) # TPunct CHR '':'' # ts) =
        Some \<lparr>p_stack = CObj (acc @ [x]) k (raw @ join_with '','' (map (\<lambda>(k, t, v). member_text (k, t)) [x])) # st, p_mode = PAfter, p_top = q\<rparr>"
      if "key_mode m" "Suc (length st) + d \<le> max_depth" for acc k0 raw st m q
      using parsed [OF that] by (simp only: x list.map prod.case join_with.simps)
  qed
next
  case (cons x ms)
  obtain k t v where x: "x = (k, t, v)" by (cases x)
  with cons have u: "utf8_valid k" and c: "clean d t v" by auto
  from c obtain ts where ts: "\<And>c r. is_punct c \<Longrightarrow> lex LStart (t @ c # r) = map_option ((@) ts) (lex LStart (c # r))"
    "\<forall>x \<in> set ts. steady x" "parses d ts t v" by (rule clean_cases) blast
  let ?body = "join_with '','' (map (\<lambda>(k, t, v). member_text (k, t)) ms)"
  obtain us where us: "\<And>c r. is_punct c \<Longrightarrow> lex LStart (?body @ c # r) = map_option ((@) us) (lex LStart (c # r))"
    "\<forall>x \<in> set us. steady x"
    "\<And>acc k0 raw st m q. key_mode m \<Longrightarrow> Suc (length st) + d \<le> max_depth \<Longrightarrow>
          \<exists>k. parse_tokens \<lparr>p_stack = CObj acc k0 raw # st, p_mode = m, p_top = q\<rparr> us =
            Some \<lparr>p_stack = CObj (acc @ ms) k (raw @ ?body) # st, p_mode = PAfter, p_top = q\<rparr>"
    using cons by auto
  let ?ts = "(TStr (quote k) # TPunct CHR '':'' # ts) @ TPunct CHR '','' # us"
  have body: "join_with '','' (map (\<lambda>(k, t, v). member_text (k, t)) (x # ms)) = quote k @ '':'' @ t @ '','' @ ?body"
    using cons.hyps by (simp add: x join_with_Cons member_text_def)
  have "lex LStart (join_with '','' (map (\<lambda>(k, t, v). member_text (k, t)) (x # ms)) @ c # r) = map_option ((@) ?ts) (lex LStart (c # r))"
    if "is_punct c" for c r
    unfolding body using that ts(1) us(1) by (simp add: lex_quote option.map_comp comp_def)
  moreover have "\<forall>x \<in> set ?ts. steady x" using ts(2) us(2) by auto
  moreover have "\<exists>k. parse_tokens \<lparr>p_stack = CObj acc k0 raw # st, p_mode = m, p_top = q\<rparr> ?ts =
            Some \<lparr>p_stack = CObj (acc @ (x # ms)) k (raw @ join_with '','' (map (\<lambda>(k, t, v). member_text (k, t)) (x # ms))) # st,
                  p_mode = PAfter, p_top = q\<rparr>"
    if "key_mode m" "Suc (length st) + d \<le> max_depth" for acc k0 raw st m q
    using us(3) [of PKey st "acc @ [x]" k "raw @ member_text (k, t) @ '',''" q] that(2)
    unfolding parse_tokens_append parse_member [OF ts(3) u that] body
    by (simp add: next_member_def key_mode_def x member_text_def)
  ultimately show ?case by blast
qed


lemma array_inside:
  assumes "vs \<noteq> []" "\<forall>(t, v) \<in> set vs. clean d t v"
  shows "\<exists>ts. (\<forall>c r. is_punct c \<longrightarrow> lex LStart (join_with '','' (map fst vs) @ c # r) = map_option ((@) ts) (lex LStart (c # r))) \<and>
      (\<forall>x \<in> set ts. steady x) \<and>
      (\<forall>acc raw st m q. expects_value m \<longrightarrow> Suc (length st) + d \<le> max_depth \<longrightarrow>
          parse_tokens \<lparr>p_stack = CArr acc raw # st, p_mode = m, p_top = q\<rparr> ts =
            Some \<lparr>p_stack = CArr (acc @ vs) (raw @ join_with '','' (map fst vs)) # st, p_mode = PAfter, p_top = q\<rparr>)"
  using assms
proof (induction vs rule: list_nonempty_induct)
  case (single x)
  obtain t v where x: "x = (t, v)" by (cases x)
  with single have "clean d t v" by auto
  then obtain ts where ts: "\<And>c r. is_punct c \<Longrightarrow> lex LStart (t @ c # r) = map_option ((@) ts) (lex LStart (c # r))"
    "\<forall>x \<in> set ts. steady x" "parses d ts t v" by (rule clean_cases) blast
  have "parse_tokens \<lparr>p_stack = CArr acc raw # st, p_mode = m, p_top = q\<rparr> ts =
      Some \<lparr>p_stack = CArr (acc @ [(t, v)]) (raw @ t) # st, p_mode = PAfter, p_top = q\<rparr>"
    if "expects_value m" "Suc (length st) + d \<le> max_depth" for acc raw st m q
    using ts(3) that by (simp add: parses_def reduce_value_def)
  with ts(1,2) show ?case by (auto simp: x)
next
  case (cons x vs)
  obtain t v where x: "x = (t, v)" by (cases x)
  with cons have "clean d t v" by auto
  then obtain ts where ts: "\<And>c r. is_punct c \<Longrightarrow> lex LStart (t @ c # r) = map_option ((@) ts) (lex LStart (c # r))"
    "\<forall>x \<in> set ts. steady x" "parses d ts t v" by (rule clean_cases) blast
  have parsed: "parse_tokens \<lparr>p_stack = CArr acc raw # st, p_mode = m, p_top = q\<rparr> ts =
      Some \<lparr>p_stack = CArr (acc @ [(t, v)]) (raw @ t) # st, p_mode = PAfter, p_top = q\<rparr>"
    if "expects_value m" "Suc (length st) + d \<le> max_depth" for acc raw st m q
    using ts(3) that by (simp add: parses_def reduce_value_def)
  let ?body = "join_with '','' (map fst vs)"
  obtain us where us: "\<And>c r. is_punct c \<Longrightarrow> lex LStart (?body @ c # r) = map_option ((@) us) (lex LStart (c # r))"
    "\<forall>x \<in> set us. steady x"
    "\<And>acc raw st m q. expects_value m \<Longrightarrow> Suc (length st) + d \<le> max_depth \<Longrightarrow>
          parse_tokens \<lparr>p_stack = CArr acc raw # st, p_mode = m, p_top = q\<rparr> us =
            Some \<lparr>p_stack = CArr (acc @ vs) (raw @ ?body) # st, p_mode = PAfter, p_top = q\<rparr>"
    using cons by auto
  let ?ts = "ts @ TPunct CHR '','' # us"
  have body: "join_with '','' (map fst (x # vs)) = t @ '','' @ ?body"
    using cons.hyps by (simp add: x join_with_Cons)
  have "lex LStart (join_with '','' (map fst (x # vs)) @ c # r) = map_option ((@) ?ts) (lex LStart (c # r))"
    if "is_punct c" for c r
    unfolding body using that ts(1) us(1) by (simp add: option.map_comp comp_def)
  moreover have "\<forall>x \<in> set ?ts. steady x" using ts(2) us(2) by auto
  moreover have "parse_tokens \<lparr>p_stack = CArr acc raw # st, p_mode = m, p_top = q\<rparr> ?ts =
      Some \<lparr>p_stack = CArr (acc @ (x # vs)) (raw @ join_with '','' (map fst (x # vs))) # st, p_mode = PAfter, p_top = q\<rparr>"
    if "expects_value m" "Suc (length st) + d \<le> max_depth" for acc raw st m q
    using us(3) [of PValue st "acc @ [x]" "raw @ t @ '',''" q] that(2)
    unfolding parse_tokens_append parsed [OF that] body
    by (simp add: next_member_def expects_value_def x)
  ultimately show ?case by blast
qed

lemma clean_array: "\<forall>(t, v) \<in> set vs. clean d t v \<Longrightarrow> clean (Suc d) (array_text (map fst vs)) (JArr vs)"
proof (cases "vs = []")
  case True
  then show ?thesis
    by (auto simp: clean_def array_text_def parses_def expects_value_def push_container_def close_container_def)
next
  case False
  assume "\<forall>(t, v) \<in> set vs. clean d t v"
  with False obtain ts where ts: "\<And>c r. is_punct c \<Longrightarrow> lex LStart (join_with '','' (map fst vs) @ c # r) = map_option ((@) ts) (lex LStart (c # r))"
    "\<forall>x \<in> set ts. steady x"
    "\<And>acc raw st m q. expects_value m \<Longrightarrow> Suc (length st) + d \<le> max_depth \<Longrightarrow>
          parse_tokens \<lparr>p_stack = CArr acc raw # st, p_mode = m, p_top = q\<rparr> ts =
            Some \<lparr>p_stack = CArr (acc @ vs) (raw @ join_with '','' (map fst vs)) # st, p_mode = PAfter, p_top = q\<rparr>"
    using array_inside [of vs d] by blast
  let ?ts = "TPunct CHR ''['' # ts @ [TPunct CHR '']'']"
  have "lex LStart (array_text (map fst vs)) = Some ?ts" by (simp add: array_text_def ts(1))
  moreover have "\<forall>x \<in> set ?ts. steady x" using ts(2) by auto
  moreover have "parses (Suc d) ?ts (array_text (map fst vs)) (JArr vs)"
    unfolding parses_def
  proof (intro allI impI)
    fix p :: parser assume p: "expects_value (p_mode p)" "length (p_stack p) + Suc d \<le> max_depth"
    obtain st m q where pe: "p = \<lparr>p_stack = st, p_mode = m, p_top = q\<rparr>" by (cases p)
    show "parse_tokens p ?ts = Some (reduce_value (array_text (map fst vs)) (JArr vs) p)"
      using p ts(3) [of PValueOrEnd st "[]" "''[''" q]
      by (simp add: pe push_container_def parse_tokens_append expects_value_def close_container_def array_text_def
          reduce_value_def split: list.split container.split)
  qed
  ultimately show ?thesis by (auto simp: clean_def)
qed

lemma clean_object:
  assumes "\<forall>(k, t, v) \<in> set ms. utf8_valid k \<and> clean d t v"
  shows "clean (Suc d) (object_text (map (\<lambda>(k, t, v). (k, t)) ms)) (JObj ms)"
proof (cases "ms = []")
  case True
  then show ?thesis
    by (auto simp: clean_def object_text_def parses_def expects_value_def push_container_def close_container_def)
next
  case False
  let ?body = "join_with '','' (map (\<lambda>(k, t, v). member_text (k, t)) ms)"
  from False assms obtain ts where ts: "\<And>c r. is_punct c \<Longrightarrow> lex LStart (?body @ c # r) = map_option ((@) ts) (lex LStart (c # r))"
    "\<forall>x \<in> set ts. steady x"
    "\<And>acc k0 raw st m q. key_mode m \<Longrightarrow> Suc (length st) + d \<le> max_depth \<Longrightarrow>
          \<exists>k. parse_tokens \<lparr>p_stack = CObj acc k0 raw # st, p_mode = m, p_top = q\<rparr> ts =
            Some \<lparr>p_stack = CObj (acc @ ms) k (raw @ ?body) # st, p_mode = PAfter, p_top = q\<rparr>"
    using object_inside [of ms d] by blast
  let ?ts = "TPunct CHR ''{'' # ts @ [TPunct CHR ''}'']"
  have body: "object_text (map (\<lambda>(k, t, v). (k, t)) ms) = ''{'' @ ?body @ ''}''"
    by (simp add: object_text_def comp_def case_prod_unfold)
  have "lex LStart (object_text (map (\<lambda>(k, t, v). (k, t)) ms)) = Some ?ts" by (simp add: body ts(1))
  moreover have "\<forall>x \<in> set ?ts. steady x" using ts(2) by auto
  moreover have "parses (Suc d) ?ts (object_text (map (\<lambda>(k, t, v). (k, t)) ms)) (JObj ms)"
    unfolding parses_def
  proof (intro allI impI)
    fix p :: parser assume p: "expects_value (p_mode p)" "length (p_stack p) + Suc d \<le> max_depth"
    obtain st m q where pe: "p = \<lparr>p_stack = st, p_mode = m, p_top = q\<rparr>" by (cases p)
    obtain k where "parse_tokens \<lparr>p_stack = CObj [] [] ''{'' # st, p_mode = PKeyOrEnd, p_top = q\<rparr> ts =
            Some \<lparr>p_stack = CObj ms k (''{'' @ ?body) # st, p_mode = PAfter, p_top = q\<rparr>"
      using p ts(3) [of PKeyOrEnd st "[]" "[]" "''{''" q] by (auto simp: pe key_mode_def)
    then show "parse_tokens p ?ts = Some (reduce_value (object_text (map (\<lambda>(k, t, v). (k, t)) ms)) (JObj ms) p)"
      using p by (simp add: pe push_container_def parse_tokens_append close_container_def body
          reduce_value_def split: list.split container.split)
  qed
  ultimately show ?thesis by (auto simp: clean_def)
qed


section \<open>Raw values\<close>

text \<open>The deepest nesting that a sequence of tokens reaches from level \<open>n\<close>.\<close>

fun level :: "nat \<Rightarrow> token \<Rightarrow> nat" where
  "level n (TPunct c) =
     (if c = CHR ''['' \<or> c = CHR ''{'' then Suc n else if c = CHR '']'' \<or> c = CHR ''}'' then n - 1 else n)"
| "level n t = n"

fun deepest :: "nat \<Rightarrow> token list \<Rightarrow> nat" where
  "deepest n [] = n"
| "deepest n (t # ts) = max n (deepest (level n t) ts)"

text \<open>A raw value as the encoder writes it, with at most \<open>d\<close> levels.\<close>

definition raw_fits :: "nat \<Rightarrow> string \<Rightarrow> bool" where
  "raw_fits d r =
     (case tokens r of
        None \<Rightarrow> False
      | Some ts \<Rightarrow> list_all steady ts \<and> deepest 0 ts \<le> d \<and> json_valid r)"

definition parsed_value :: "string \<Rightarrow> json" where
  "parsed_value r = (case parse_json r of Some (t, v) \<Rightarrow> v | None \<Rightarrow> JNull)"

definition on_top :: "container list \<Rightarrow> (string \<times> json) option \<Rightarrow> parser \<Rightarrow> parser" where
  "on_top base tp q = \<lparr>p_stack = p_stack q @ base, p_mode = p_mode q, p_top = tp\<rparr>"

definition inside :: "parser \<Rightarrow> bool" where
  "inside q \<longleftrightarrow> p_mode q \<noteq> PDone \<and> p_top q = None \<and> (p_stack q = [] \<longrightarrow> expects_value (p_mode q))"

lemma done_stops: "p_mode q = PDone \<Longrightarrow> \<forall>x \<in> set ts. steady x \<Longrightarrow> parse_tokens q ts = Some q' \<Longrightarrow> ts = []"
proof (cases ts)
  case (Cons t us)
  assume "p_mode q = PDone" "\<forall>x \<in> set ts. steady x" "parse_tokens q ts = Some q'"
  with Cons show ?thesis by (cases t) (auto simp: expects_value_def split: if_splits)
qed simp

lemma punct_step_cases:
  assumes "parse_step q (TPunct c) = Some q1"
  obtains "c = CHR ''['' \<or> c = CHR ''{''" "expects_value (p_mode q)"
    | "c = CHR '']'' \<or> c = CHR ''}''" "close_container c q = Some q1"
    | "c = CHR '',''" "next_member q = Some q1" | "c = CHR '':''" "p_mode q = PColon"
  using assms by (simp split: if_splits)

definition base_parser :: "container list \<Rightarrow> (string \<times> json) option \<Rightarrow> parser" where
  "base_parser base tp = \<lparr>p_stack = base, p_mode = PDone, p_top = tp\<rparr>"

lemma reduce_on_top:
  assumes "p_top q = None" "q1 = reduce_value t v q"
  shows "length (p_stack q1) = length (p_stack q) \<and>
    (inside q1 \<and> reduce_value t v (on_top base tp q) = on_top base tp q1 \<or>
     p_mode q1 = PDone \<and> p_stack q1 = [] \<and> p_top q1 = Some (t, v) \<and> reduce_value t v (on_top base tp q) = reduce_value t v (base_parser base tp))"
  using assms by (cases q; cases "p_stack q")
    (auto simp: reduce_value_def on_top_def base_parser_def inside_def split: container.split list.split)

lemma close_on_top:
  assumes "close_container c q = Some q1" "inside q"
  shows "length (p_stack q1) = length (p_stack q) - 1 \<and>
    (inside q1 \<and> close_container c (on_top base tp q) = Some (on_top base tp q1) \<or>
     p_mode q1 = PDone \<and> p_stack q1 = [] \<and> (\<exists>t v. p_top q1 = Some (t, v) \<and> close_container c (on_top base tp q) = Some (reduce_value t v (base_parser base tp))))"
proof -
  obtain k st m where q: "q = \<lparr>p_stack = k # st, p_mode = m, p_top = None\<rparr>"
    using assms by (cases q; cases "p_stack q") (auto simp: inside_def close_container_def)
  have red: "length (p_stack q1) = length st \<and>
    (inside q1 \<and> reduce_value t v \<lparr>p_stack = st @ base, p_mode = m, p_top = tp\<rparr> = on_top base tp q1 \<or>
     p_mode q1 = PDone \<and> p_stack q1 = [] \<and> p_top q1 = Some (t, v) \<and>
       reduce_value t v \<lparr>p_stack = st @ base, p_mode = m, p_top = tp\<rparr> = reduce_value t v (base_parser base tp))"
    if "q1 = reduce_value t v \<lparr>p_stack = st, p_mode = m, p_top = None\<rparr>" for t v
    using reduce_on_top [OF _ that, of base tp] by (simp add: on_top_def)
  show ?thesis
    using assms(1) red by (cases k) (auto simp: q close_container_def on_top_def split: if_splits)
qed

lemma step_on_top:
  assumes "parse_step q t = Some q1" "inside q" "steady t" "length (p_stack q1) + length base \<le> max_depth"
  shows "length (p_stack q1) = level (length (p_stack q)) t \<and>
    (inside q1 \<and> parse_step (on_top base tp q) t = Some (on_top base tp q1) \<or>
     (p_mode q1 = PDone \<and> p_stack q1 = [] \<and> (\<exists>raw v. p_top q1 = Some (raw, v) \<and>
        parse_step (on_top base tp q) t = Some (reduce_value raw v (base_parser base tp)))))"
proof -
  have top: "p_top q = None" using assms(2) by (simp add: inside_def)
  have mode: "p_mode (on_top base tp q) = p_mode q" by (simp add: on_top_def)
  have key: "length (p_stack q1) = length (p_stack q) \<and> inside q1 \<and> set_key s (on_top base tp q) = Some (on_top base tp q1)"
    if "set_key s q = Some q1" for s
    using that top by (cases q) (auto simp: set_key_def on_top_def inside_def split: list.splits container.splits)
  show ?thesis
  proof (cases t)
    case (TPunct c)
    from assms(1) [unfolded TPunct] show ?thesis
    proof (cases rule: punct_step_cases)
      case 1
      then show ?thesis using assms(1,4) top
        by (auto simp: TPunct mode push_container_def on_top_def inside_def split: if_splits)
    next
      case 2
      with close_on_top [OF 2(2) assms(2), of base tp] assms(1) show ?thesis
        by (auto simp: TPunct mode split: if_splits)
    next
      case 3
      with assms(1) top show ?thesis
        by (auto simp: TPunct mode next_member_def on_top_def inside_def expects_value_def split: list.splits container.splits if_splits)
    next
      case 4
      with assms(1) top show ?thesis
        by (auto simp: TPunct on_top_def inside_def expects_value_def split: list.splits if_splits)
    qed
  next
    case (TStr s)
    with assms(1) reduce_on_top [OF top, of q1 s "JStr (unquote s)" base tp] key show ?thesis
      by (auto simp: mode split: if_splits)
  next
    case (TLit s)
    with assms(1) reduce_on_top [OF top, of q1 s "literal_value s" base tp] show ?thesis
      by (auto simp: mode split: if_splits)
  next
    case (TNum s)
    with assms(1) reduce_on_top [OF top, of q1 s "JNum s" base tp] show ?thesis
      by (auto simp: mode split: if_splits)
  qed (use assms(3) in \<open>simp add: steady_def\<close>)
qed

lemma step_level:
  "parse_step q t = Some q1 \<Longrightarrow> inside q \<Longrightarrow> length (p_stack q1) \<le> level (length (p_stack q)) t"
  by (cases t; cases "p_stack q")
    (auto simp: inside_def expects_value_def push_container_def close_container_def next_member_def
      reduce_value_def set_key_def split: if_splits container.splits list.splits)

lemma step_depth:
  "parse_step q t = Some q1 \<Longrightarrow> length (p_stack q) \<le> max_depth \<Longrightarrow> length (p_stack q1) \<le> max_depth"
  by (cases t; cases "p_stack q")
    (auto simp: push_container_def close_container_def next_member_def
      reduce_value_def set_key_def split: if_splits container.splits list.splits)

lemma run_on_top:
  "parse_tokens q ts = Some q' \<Longrightarrow> inside q \<Longrightarrow> \<forall>x \<in> set ts. steady x \<Longrightarrow> p_top q' = Some (raw, v) \<Longrightarrow>
    deepest (length (p_stack q)) ts + length base \<le> max_depth \<Longrightarrow>
    parse_tokens (on_top base tp q) ts = Some (reduce_value raw v (base_parser base tp))"
proof (induction ts arbitrary: q)
  case Nil
  then show ?case by (auto simp: inside_def)
next
  case (Cons t ts)
  from Cons.prems(1) obtain q1 where q1: "parse_step q t = Some q1" "parse_tokens q1 ts = Some q'"
    by (auto split: option.splits)
  have deep: "deepest (level (length (p_stack q)) t) ts + length base \<le> max_depth" using Cons.prems(5) by simp
  have fits: "n \<le> deepest n us" for n us by (cases us) simp_all
  have bound: "length (p_stack q1) + length base \<le> max_depth"
    using step_level [OF q1(1) Cons.prems(2)] deep fits [of "level (length (p_stack q)) t" ts] by linarith
  have "steady t" using Cons.prems(3) by simp
  from step_on_top [OF q1(1) Cons.prems(2) this bound, of tp]
  have lev: "length (p_stack q1) = level (length (p_stack q)) t"
    and "inside q1 \<and> parse_step (on_top base tp q) t = Some (on_top base tp q1) \<or>
     (p_mode q1 = PDone \<and> p_stack q1 = [] \<and> (\<exists>raw v. p_top q1 = Some (raw, v) \<and>
        parse_step (on_top base tp q) t = Some (reduce_value raw v (base_parser base tp))))"
    by auto
  then consider "inside q1" "parse_step (on_top base tp q) t = Some (on_top base tp q1)"
    | raw' v' where "p_mode q1 = PDone" "p_top q1 = Some (raw', v')"
        "parse_step (on_top base tp q) t = Some (reduce_value raw' v' (base_parser base tp))"
    by blast
  then show ?case
  proof cases
    case 1
    have "parse_tokens (on_top base tp q1) ts = Some (reduce_value raw v (base_parser base tp))"
      using Cons.IH [OF q1(2) 1(1)] Cons.prems(3,4) deep lev by simp
    with 1(2) show ?thesis by simp
  next
    case 2
    have "ts = []" using done_stops [OF 2(1) _ q1(2)] Cons.prems(3) by simp
    with 2 q1 Cons.prems(4) show ?thesis by simp
  qed
qed

text \<open>The parser collects the text of the tokens.\<close>

fun container_text :: "container \<Rightarrow> string" where
  "container_text (CArr xs r) = r"
| "container_text (CObj ms k r) = r"

definition collected :: "parser \<Rightarrow> string" where
  "collected q = concat (map container_text (rev (p_stack q))) @ (case p_top q of None \<Rightarrow> [] | Some (t, v) \<Rightarrow> t)"

lemma container_text_add [simp]: "container_text (add_text s k) = container_text k @ s"
  by (cases k) simp_all

lemma reduce_collected: "p_top q = None \<Longrightarrow> collected (reduce_value t v q) = collected q @ t"
  by (auto simp: collected_def reduce_value_def split: list.split container.split)

lemma close_collected:
  assumes "close_container c q = Some q1" "p_top q = None"
  shows "collected q1 = collected q @ [c]"
proof -
  obtain k st where st: "p_stack q = k # st" using assms(1) by (cases "p_stack q") (auto simp: close_container_def)
  have "collected (reduce_value t v (q\<lparr>p_stack := st\<rparr>)) = collected (q\<lparr>p_stack := st\<rparr>) @ t" for t v
    using assms(2) by (intro reduce_collected) simp
  with assms st show ?thesis by (cases k) (auto simp: close_container_def collected_def split: if_splits)
qed

lemma step_collected: "parse_step q t = Some q1 \<Longrightarrow> steady t \<Longrightarrow> p_top q = None \<Longrightarrow> collected q1 = collected q @ tok_text t"
proof (cases t)
  case (TPunct c)
  assume step: "parse_step q t = Some q1" and top: "p_top q = None"
  from step [unfolded TPunct] show ?thesis
  proof (cases rule: punct_step_cases)
    case 2
    then show ?thesis using close_collected [OF _ top] by (simp add: TPunct)
  qed (use step top in \<open>auto simp: TPunct push_container_def next_member_def collected_def expects_value_def
        split: if_splits list.splits container.splits\<close>)
next
  case (TStr s)
  assume "parse_step q t = Some q1" "p_top q = None"
  with TStr show ?thesis
    by (auto simp: reduce_collected set_key_def split: if_splits list.splits container.splits) (simp_all add: collected_def)
qed (auto simp: reduce_collected split: if_splits)

lemma tokens_collected:
  "parse_tokens q ts = Some q' \<Longrightarrow> inside q \<Longrightarrow> \<forall>x \<in> set ts. steady x \<Longrightarrow> length (p_stack q) \<le> max_depth \<Longrightarrow>
    collected q' = collected q @ toks_text ts \<and> (p_top q' \<noteq> None \<longrightarrow> p_stack q' = [])"
proof (induction ts arbitrary: q)
  case Nil
  then show ?case by (simp add: inside_def)
next
  case (Cons t ts)
  then obtain q1 where q1: "parse_step q t = Some q1" "parse_tokens q1 ts = Some q'" by (auto split: option.splits)
  have top: "p_top q = None" using Cons.prems(2) by (simp add: inside_def)
  have "steady t" and depth: "length (p_stack q1) \<le> max_depth"
    using Cons.prems(3,4) step_depth [OF q1(1)] by simp_all
  from q1(1) this(1) top have one: "collected q1 = collected q @ tok_text t" by (rule step_collected)
  show ?case
  proof (cases "p_mode q1 = PDone")
    case True
    then have "ts = []" using done_stops q1(2) Cons.prems(3) by auto
    with one q1 True step_on_top [OF q1(1) Cons.prems(2) \<open>steady t\<close>, of "[]" None] depth show ?thesis
      by (auto simp: inside_def)
  next
    case False
    then have "inside q1" using step_on_top [OF q1(1) Cons.prems(2) \<open>steady t\<close>, of "[]" None] depth by auto
    then show ?thesis using Cons.IH [OF q1(2)] Cons.prems(3) one depth by simp
  qed
qed

lemma start_mode:
  assumes "parse_tokens \<lparr>p_stack = st, p_mode = PValue, p_top = tp\<rparr> (t # ts) = Some q" "steady t" "expects_value m"
  shows "parse_tokens \<lparr>p_stack = st, p_mode = m, p_top = tp\<rparr> (t # ts) = Some q"
proof -
  have red: "reduce_value s v \<lparr>p_stack = st, p_mode = m, p_top = tp\<rparr> = reduce_value s v \<lparr>p_stack = st, p_mode = PValue, p_top = tp\<rparr>" for s v m
    by (simp add: reduce_value_def split: list.split container.split)
  have "parse_step \<lparr>p_stack = st, p_mode = PValue, p_top = tp\<rparr> t \<noteq> None" using assms(1) by (auto split: option.splits)
  then have "parse_step \<lparr>p_stack = st, p_mode = m, p_top = tp\<rparr> t = parse_step \<lparr>p_stack = st, p_mode = PValue, p_top = tp\<rparr> t"
    using assms(2,3) red by (cases t) (auto simp: expects_value_def push_container_def)
  with assms(1) show ?thesis by simp
qed

lemma clean_raw: "raw_fits d r \<Longrightarrow> clean d r (parsed_value r)"
proof -
  assume fits: "raw_fits d r"
  then obtain ts where ts: "tokens r = Some ts" "\<forall>x \<in> set ts. steady x" "deepest 0 ts \<le> d" "json_valid r"
    by (auto simp: raw_fits_def list_all_iff split: option.splits)
  then obtain q' t v where q': "parse_tokens parser_init ts = Some q'" "p_top q' = Some (t, v)"
    by (auto simp: json_valid_def parse_json_def split: option.splits)
  have start: "inside parser_init" by (simp add: inside_def parser_init_def expects_value_def)
  have run: "parse_tokens (on_top base tp parser_init) ts = Some (reduce_value t v (base_parser base tp))"
    if "d + length base \<le> max_depth" for base tp
    using run_on_top [OF q'(1) start ts(2) q'(2)] that ts(3) by (simp add: parser_init_def)
  have "collected parser_init = []" by (simp add: collected_def parser_init_def)
  then have "collected q' = toks_text ts \<and> p_stack q' = []"
    using tokens_collected [OF q'(1) start ts(2)] q'(2) by (simp add: parser_init_def)
  moreover have "toks_text ts = r" using ts(1) by (rule tokens_text)
  ultimately have t: "t = r" using q'(2) by (auto simp: collected_def)
  have some: "ts \<noteq> []" using q' by (auto simp: parser_init_def)
  have "parses d ts r v"
    unfolding parses_def
  proof (intro allI impI)
    fix p :: parser assume p: "expects_value (p_mode p)" "length (p_stack p) + d \<le> max_depth"
    obtain st m tp where pe: "p = \<lparr>p_stack = st, p_mode = m, p_top = tp\<rparr>" by (cases p)
    have "on_top st tp parser_init = \<lparr>p_stack = st, p_mode = PValue, p_top = tp\<rparr>"
      by (simp add: on_top_def parser_init_def)
    then have "parse_tokens \<lparr>p_stack = st, p_mode = PValue, p_top = tp\<rparr> ts = Some (reduce_value r v (base_parser st tp))"
      using run [of st tp] p(2) by (simp add: pe t)
    then have "parse_tokens p ts = Some (reduce_value r v (base_parser st tp))"
      using start_mode [of st tp "hd ts" "tl ts" _ m] some ts(2) p(1) by (simp add: pe)
    moreover have "reduce_value r v (base_parser st tp) = reduce_value r v p"
      by (simp add: pe base_parser_def reduce_value_def split: list.split container.split)
    ultimately show "parse_tokens p ts = Some (reduce_value r v p)" by simp
  qed
  moreover have "v = parsed_value r" using ts(1) q' by (simp add: parsed_value_def parse_json_def)
  ultimately show ?thesis using ts by (auto simp: clean_def tokens_def)
qed

end
