(* ===== verification/Codec.thy ===== *)
theory Codec
  imports JsonPrint
begin

text \<open>
  How \<open>encoding/json\<close> encodes and decodes the generated types, as combinators. A codec is what
  the reflection of the library does with one Go type: its zero value, decoding a value of the
  text into a variable that holds a current value, encoding, and the test of \<open>omitempty\<close>. A
  field of a struct is a codec with the name of its tag and the two halves of its selector.

  A decoder keeps the first type mismatch and goes on (\<open>Soft\<close>); the error of an
  \<open>UnmarshalJSON\<close> method ends it at once (\<open>Hard\<close>). Either way the caller gets an error and no value.
  A slice that is decoded a second time reuses its elements, as far as its length goes.
\<close>

section \<open>Codecs\<close>

datatype dec_error = BadSyntax | BadType | Refused string

datatype 'a decoded = Good 'a | Soft dec_error | Hard dec_error

type_synonym raw_json = "string \<times> json"

fun map_decoded :: "('a \<Rightarrow> 'b) \<Rightarrow> 'a decoded \<Rightarrow> 'b decoded" where
  "map_decoded f (Good x) = Good (f x)"
| "map_decoded f (Soft e) = Soft e"
| "map_decoded f (Hard e) = Hard e"

text \<open>The last component says which values come back unchanged; no other definition reads it.\<close>

record 'a codec =
  c_zero :: 'a
  c_dec :: "'a \<Rightarrow> raw_json \<Rightarrow> 'a decoded"
  c_enc :: "'a \<Rightarrow> string option"
  c_empty :: "'a \<Rightarrow> bool"
  c_fine :: "'a \<Rightarrow> bool"

definition unmarshal :: "'a codec \<Rightarrow> 'a \<Rightarrow> string \<Rightarrow> dec_error + 'a" where
  "unmarshal c cur s =
     (case parse_json s of
        None \<Rightarrow> Inl BadSyntax
      | Some j \<Rightarrow> (case c_dec c cur j of Good v \<Rightarrow> Inr v | Soft e \<Rightarrow> Inl e | Hard e \<Rightarrow> Inl e))"

definition go_string :: "string codec" where
  "go_string =
     \<lparr>c_zero = [],
      c_dec = (\<lambda>cur (r, v). case v of JStr s \<Rightarrow> Good s | JNull \<Rightarrow> Good cur | _ \<Rightarrow> Soft BadType),
      c_enc = (\<lambda>s. Some (quote s)), c_empty = (\<lambda>s. s = []), c_fine = utf8_valid\<rparr>"

definition go_bool :: "bool codec" where
  "go_bool =
     \<lparr>c_zero = False,
      c_dec = (\<lambda>cur (r, v). case v of JBool b \<Rightarrow> Good b | JNull \<Rightarrow> Good cur | _ \<Rightarrow> Soft BadType),
      c_enc = (\<lambda>b. Some (if b then ''true'' else ''false'')), c_empty = (\<lambda>b. \<not> b), c_fine = (\<lambda>b. True)\<rparr>"

text \<open>The integer types, by their bounds; an unsigned one takes no sign.\<close>

definition parse_integer :: "int \<Rightarrow> int \<Rightarrow> string \<Rightarrow> int option" where
  "parse_integer lo hi s =
     (let (neg, ds) = (case s of CHR ''-'' # r \<Rightarrow> (True, r) | _ \<Rightarrow> (False, s));
          n = (if neg then - int (nat_of_digits ds) else int (nat_of_digits ds))
      in if ds \<noteq> [] \<and> list_all is_digit ds \<and> lo \<le> n \<and> n \<le> hi \<and> \<not> (neg \<and> 0 \<le> lo) then Some n else None)"

definition go_integer :: "int \<Rightarrow> int \<Rightarrow> int codec" where
  "go_integer lo hi =
     \<lparr>c_zero = 0,
      c_dec = (\<lambda>cur (r, v). case v of
          JNum n \<Rightarrow> (case parse_integer lo hi n of Some i \<Rightarrow> Good i | None \<Rightarrow> Soft BadType)
        | JNull \<Rightarrow> Good cur
        | _ \<Rightarrow> Soft BadType),
      c_enc = (\<lambda>i. Some (show_int i)), c_empty = (\<lambda>i. i = 0), c_fine = (\<lambda>i. lo \<le> i \<and> i \<le> hi)\<rparr>"

definition go_uint16 :: "int codec" where "go_uint16 = go_integer 0 65535"
definition go_int32 :: "int codec" where "go_int32 = go_integer (- 2147483648) 2147483647"
definition go_uint32 :: "int codec" where "go_uint32 = go_integer 0 4294967295"
definition go_int64 :: "int codec" where "go_int64 = go_integer (- 9223372036854775808) 9223372036854775807"
definition go_uint64 :: "int codec" where "go_uint64 = go_integer 0 18446744073709551615"

text \<open>A \<open>json.RawMessage\<close>; \<open>raw_depth\<close> is the nesting up to which it is followed.\<close>

definition raw_depth :: nat where "raw_depth = 9000"

definition go_raw :: "string codec" where
  "go_raw =
     \<lparr>c_zero = [], c_dec = (\<lambda>cur (r, v). Good r), c_enc = marshal_raw, c_empty = (\<lambda>r. r = []),
      c_fine = raw_fits raw_depth\<rparr>"

text \<open>A pointer is an option: nobody else holds it.\<close>

definition go_ptr :: "'a codec \<Rightarrow> 'a option codec" where
  "go_ptr c =
     \<lparr>c_zero = None,
      c_dec = (\<lambda>cur (r, v). if v = JNull then Good None
                 else map_decoded Some (c_dec c (case cur of None \<Rightarrow> c_zero c | Some x \<Rightarrow> x) (r, v))),
      c_enc = (\<lambda>p. case p of None \<Rightarrow> Some ''null'' | Some x \<Rightarrow> c_enc c x),
      c_empty = (\<lambda>p. p = None),
      c_fine = (\<lambda>p. case p of None \<Rightarrow> True | Some x \<Rightarrow> c_fine c x)\<rparr>"

text \<open>A slice: \<open>None\<close> is nil.\<close>

fun dec_elements :: "'a codec \<Rightarrow> 'a list \<Rightarrow> raw_json list \<Rightarrow> 'a list decoded" where
  "dec_elements c old [] = Good []"
| "dec_elements c old (x # xs) =
     (case c_dec c (case old of [] \<Rightarrow> c_zero c | y # ys \<Rightarrow> y) x of
        Hard e \<Rightarrow> Hard e
      | Soft e \<Rightarrow> (case dec_elements c (tl old) xs of Hard e' \<Rightarrow> Hard e' | _ \<Rightarrow> Soft e)
      | Good v \<Rightarrow> map_decoded ((#) v) (dec_elements c (tl old) xs))"

fun enc_elements :: "'a codec \<Rightarrow> 'a list \<Rightarrow> string list option" where
  "enc_elements c [] = Some []"
| "enc_elements c (v # vs) =
     (case c_enc c v of None \<Rightarrow> None | Some t \<Rightarrow> map_option ((#) t) (enc_elements c vs))"

definition go_slice :: "'a codec \<Rightarrow> 'a list option codec" where
  "go_slice c =
     \<lparr>c_zero = None,
      c_dec = (\<lambda>cur (r, v). case v of
          JNull \<Rightarrow> Good None
        | JArr xs \<Rightarrow> map_decoded Some (dec_elements c (case cur of None \<Rightarrow> [] | Some vs \<Rightarrow> vs) xs)
        | _ \<Rightarrow> Soft BadType),
      c_enc = (\<lambda>s. case s of None \<Rightarrow> Some ''null'' | Some vs \<Rightarrow> map_option array_text (enc_elements c vs)),
      c_empty = (\<lambda>s. s = None \<or> s = Some []),
      c_fine = (\<lambda>s. case s of None \<Rightarrow> True | Some vs \<Rightarrow> list_all (c_fine c) vs)\<rparr>"

text \<open>A slice whose member is required: the values that come back are not nil.\<close>

definition go_list :: "'a codec \<Rightarrow> 'a list option codec" where
  "go_list c = (go_slice c)\<lparr>c_fine := (\<lambda>s. s \<noteq> None \<and> c_fine (go_slice c) s)\<rparr>"

text \<open>A map with string keys: its entries sorted by key, \<open>None\<close> for nil.\<close>

fun place_entry :: "string \<times> 'a \<Rightarrow> (string \<times> 'a) list \<Rightarrow> (string \<times> 'a) list" where
  "place_entry e [] = [e]"
| "place_entry e (e' # r) =
     (if List.lexordp (\<lambda>a b. byte a < byte b) (fst e) (fst e') then e # e' # r else e' # place_entry e r)"

definition insert_entry :: "string \<Rightarrow> 'a \<Rightarrow> (string \<times> 'a) list \<Rightarrow> (string \<times> 'a) list" where
  "insert_entry k v es = place_entry (k, v) (filter (\<lambda>e. fst e \<noteq> k) es)"

definition sorted_entries :: "(string \<times> 'a) list \<Rightarrow> (string \<times> 'a) list" where
  "sorted_entries ms = fold (\<lambda>(k, v). insert_entry k v) ms []"

fun dec_entries :: "'a codec \<Rightarrow> dec_error option \<Rightarrow> (string \<times> 'a) list \<Rightarrow> (string \<times> raw_json) list \<Rightarrow> (string \<times> 'a) list decoded" where
  "dec_entries c saved acc [] = (case saved of None \<Rightarrow> Good acc | Some e \<Rightarrow> Soft e)"
| "dec_entries c saved acc ((k, j) # ms) =
     (case c_dec c (c_zero c) j of
        Hard e \<Rightarrow> Hard e
      | Soft e \<Rightarrow> dec_entries c (if saved = None then Some e else saved) acc ms
      | Good v \<Rightarrow> dec_entries c saved (insert_entry k v acc) ms)"

fun enc_entries :: "'a codec \<Rightarrow> (string \<times> 'a) list \<Rightarrow> (string \<times> string) list option" where
  "enc_entries c [] = Some []"
| "enc_entries c ((k, v) # ms) =
     (case c_enc c v of None \<Rightarrow> None | Some t \<Rightarrow> map_option ((#) (k, t)) (enc_entries c ms))"

definition go_map :: "'a codec \<Rightarrow> (string \<times> 'a) list option codec" where
  "go_map c =
     \<lparr>c_zero = None,
      c_dec = (\<lambda>cur (r, v). case v of
          JNull \<Rightarrow> Good None
        | JObj ms \<Rightarrow> map_decoded Some (dec_entries c None (case cur of None \<Rightarrow> [] | Some es \<Rightarrow> es) ms)
        | _ \<Rightarrow> Soft BadType),
      c_enc = (\<lambda>m. case m of None \<Rightarrow> Some ''null'' | Some es \<Rightarrow> map_option object_text (enc_entries c es)),
      c_empty = (\<lambda>m. m = None \<or> m = Some []),
      c_fine = (\<lambda>m. case m of None \<Rightarrow> True
                 | Some es \<Rightarrow> sorted_entries es = es \<and> list_all (\<lambda>(k, v). utf8_valid k \<and> c_fine c v) es)\<rparr>"

section \<open>Structs\<close>

record 's fld =
  f_name :: string
  f_omit :: "'s \<Rightarrow> bool"
  f_enc :: "'s \<Rightarrow> string option"
  f_dec :: "'s \<Rightarrow> raw_json \<Rightarrow> 's decoded"
  f_fine :: "'s \<Rightarrow> bool"
  f_same :: "'s \<Rightarrow> 's \<Rightarrow> bool"

text \<open>A field with its tag, whether \<open>omitempty\<close> is set, the codec of its type, and its selector.\<close>

definition go_field :: "string \<Rightarrow> bool \<Rightarrow> 'a codec \<Rightarrow> ('s \<Rightarrow> 'a) \<Rightarrow> (('a \<Rightarrow> 'a) \<Rightarrow> 's \<Rightarrow> 's) \<Rightarrow> 's fld" where
  "go_field name omitempty c get upd =
     \<lparr>f_name = name,
      f_omit = (\<lambda>s. omitempty \<and> c_empty c (get s)),
      f_enc = (\<lambda>s. c_enc c (get s)),
      f_dec = (\<lambda>s j. map_decoded (\<lambda>x. upd (\<lambda>_. x) s) (c_dec c (get s) j)),
      f_fine = (\<lambda>s. c_fine c (get s) \<and> (omitempty \<longrightarrow> c_empty c (get s) \<longrightarrow> get s = c_zero c)),
      f_same = (\<lambda>s t. get s = get t)\<rparr>"

fun enc_fields :: "'s fld list \<Rightarrow> 's \<Rightarrow> (string \<times> string) list option" where
  "enc_fields [] s = Some []"
| "enc_fields (f # fs) s =
     (if f_omit f s then enc_fields fs s
      else (case f_enc f s of None \<Rightarrow> None | Some t \<Rightarrow> map_option ((#) (f_name f, t)) (enc_fields fs s)))"

definition find_field :: "'s fld list \<Rightarrow> string \<Rightarrow> 's fld option" where
  "find_field fs k =
     (case match_field (map f_name fs) k of None \<Rightarrow> None | Some n \<Rightarrow> find (\<lambda>f. f_name f = n) fs)"

fun dec_members :: "'s fld list \<Rightarrow> dec_error option \<Rightarrow> 's \<Rightarrow> (string \<times> raw_json) list \<Rightarrow> 's decoded" where
  "dec_members fs saved s [] = (case saved of None \<Rightarrow> Good s | Some e \<Rightarrow> Soft e)"
| "dec_members fs saved s ((k, j) # ms) =
     (case find_field fs k of
        None \<Rightarrow> dec_members fs saved s ms
      | Some f \<Rightarrow>
          (case f_dec f s j of
             Hard e \<Rightarrow> Hard e
           | Soft e \<Rightarrow> dec_members fs (if saved = None then Some e else saved) s ms
           | Good s' \<Rightarrow> dec_members fs saved s' ms))"

definition go_struct :: "'s \<Rightarrow> 's fld list \<Rightarrow> 's codec" where
  "go_struct zero fs =
     \<lparr>c_zero = zero,
      c_dec = (\<lambda>cur (r, v). case v of
          JObj ms \<Rightarrow> dec_members fs None cur ms
        | JNull \<Rightarrow> Good cur
        | _ \<Rightarrow> Soft BadType),
      c_enc = (\<lambda>s. map_option object_text (enc_fields fs s)),
      c_empty = (\<lambda>s. False),
      c_fine = (\<lambda>s. \<forall>f \<in> set fs. f_fine f s)\<rparr>"

section \<open>Methods of the generated types\<close>

text \<open>The members as \<open>map[string]json.RawMessage\<close> holds them; a raw value is \<open>null\<close> when it parses so.\<close>

type_synonym raw_members = "(string \<times> raw_json) list"

definition members_of :: "raw_json \<Rightarrow> raw_members option" where
  "members_of j = (case j of (r, JObj ms) \<Rightarrow> Some ms | (r, JNull) \<Rightarrow> Some [] | _ \<Rightarrow> None)"

type_synonym check = "raw_members \<Rightarrow> dec_error option"

definition required :: "string \<Rightarrow> check" where
  "required k ms =
     (case field ms k of
        None \<Rightarrow> Some (Refused (k @ '' is required''))
      | Some (r, v) \<Rightarrow> if v = JNull then Some (Refused (k @ '' must not be null'')) else None)"

definition present :: "string \<Rightarrow> check" where
  "present k ms = (if field ms k = None then Some (Refused (k @ '' is required'')) else None)"

text \<open>The elements of a list are checked one by one.\<close>

fun first_bad :: "'a codec \<Rightarrow> raw_json list \<Rightarrow> dec_error option" where
  "first_bad c [] = None"
| "first_bad c ((r, v) # xs) =
     (if v = JNull then Some (Refused ''invalid null action value'')
      else (case c_dec c (c_zero c) (r, v) of Good x \<Rightarrow> first_bad c xs | Soft e \<Rightarrow> Some e | Hard e \<Rightarrow> Some e))"

definition items :: "string \<Rightarrow> 'a codec \<Rightarrow> check" where
  "items k c ms =
     (case field ms k of
        None \<Rightarrow> None
      | Some (r, v) \<Rightarrow> (case v of JNull \<Rightarrow> None | JArr xs \<Rightarrow> first_bad c xs | _ \<Rightarrow> Some BadType))"

text \<open>The same for the values of a map; the order in which Go visits them is open, the model takes that of the keys.\<close>

definition map_values :: "string \<Rightarrow> 'a codec \<Rightarrow> check" where
  "map_values k c ms =
     (case field ms k of
        None \<Rightarrow> None
      | Some (r, v) \<Rightarrow>
          (case v of JNull \<Rightarrow> None | JObj es \<Rightarrow> first_bad c (map snd (sorted_entries es)) | _ \<Rightarrow> Some BadType))"

definition optional :: "string \<Rightarrow> 'a codec \<Rightarrow> check" where
  "optional k c ms =
     (case field ms k of
        None \<Rightarrow> None
      | Some (r, v) \<Rightarrow>
          if v = JNull then None
          else (case c_dec c (c_zero c) (r, v) of Good x \<Rightarrow> None | Soft e \<Rightarrow> Some e | Hard e \<Rightarrow> Some e))"

text \<open>A title has at least one character.\<close>

definition nonblank :: "string \<Rightarrow> check" where
  "nonblank k ms =
     (case field ms k of
        None \<Rightarrow> None
      | Some j \<Rightarrow>
          (case c_dec go_string [] j of
             Good t \<Rightarrow> if t = [] then Some (Refused (k @ '' is too short'')) else None
           | _ \<Rightarrow> Some (Refused (k @ '' is too short''))))"

fun run_checks :: "check list \<Rightarrow> check" where
  "run_checks [] ms = None"
| "run_checks (k # ks) ms = (case k ms of Some e \<Rightarrow> Some e | None \<Rightarrow> run_checks ks ms)"

text \<open>
  The \<open>UnmarshalJSON\<close> of a struct: the checks on the members, the decoding into a fresh value of
  the same fields, and what is done to it then.
\<close>

definition decode_struct :: "check list \<Rightarrow> 's codec \<Rightarrow> (raw_members \<Rightarrow> 's \<Rightarrow> 's) \<Rightarrow> raw_json \<Rightarrow> 's decoded" where
  "decode_struct checks alias post j =
     (case members_of j of
        None \<Rightarrow> Hard BadType
      | Some ms \<Rightarrow>
          (case run_checks checks ms of
             Some e \<Rightarrow> Hard e
           | None \<Rightarrow>
               (case c_dec alias (c_zero alias) j of
                  Good v \<Rightarrow> Good (post ms v)
                | Soft e \<Rightarrow> Hard e
                | Hard e \<Rightarrow> Hard e)))"

text \<open>
  What is done after the decoding, in turn: an absent list is made, an absent or null member gets
  the default of the schema, and the presence of a member is noted.
\<close>

type_synonym 's post = "raw_members \<Rightarrow> 's \<Rightarrow> 's"

definition in_turn :: "'s post list \<Rightarrow> 's post" where
  "in_turn ps ms v = fold (\<lambda>p. p ms) ps v"

definition made :: "('s \<Rightarrow> 'a list option) \<Rightarrow> (('a list option \<Rightarrow> 'a list option) \<Rightarrow> 's \<Rightarrow> 's) \<Rightarrow> 's post" where
  "made get upd ms v = (if get v = None then upd (\<lambda>_. Some []) v else v)"

definition defaulted :: "string \<Rightarrow> string \<Rightarrow> 'a codec \<Rightarrow> ('s \<Rightarrow> 'a) \<Rightarrow> (('a \<Rightarrow> 'a) \<Rightarrow> 's \<Rightarrow> 's) \<Rightarrow> 's post" where
  "defaulted k t c get upd ms v =
     (if (case field ms k of None \<Rightarrow> True | Some (r, j) \<Rightarrow> j = JNull)
      then (case unmarshal c (get v) t of Inr x \<Rightarrow> upd (\<lambda>_. x) v | Inl e \<Rightarrow> v)
      else v)"

definition noted :: "string \<Rightarrow> ((bool \<Rightarrow> bool) \<Rightarrow> 's \<Rightarrow> 's) \<Rightarrow> 's post" where
  "noted k set_flag ms v = set_flag (\<lambda>_. field ms k \<noteq> None) v"

definition noted_patch :: "string \<Rightarrow> ('s \<Rightarrow> 'a option) \<Rightarrow> ((bool \<Rightarrow> bool) \<Rightarrow> 's \<Rightarrow> 's) \<Rightarrow> 's post" where
  "noted_patch k get set_flag ms v =
     set_flag (\<lambda>_. case field ms k of None \<Rightarrow> False | Some (r, j) \<Rightarrow> get v \<noteq> None \<or> j = JNull) v"

definition with_unmarshal :: "(raw_json \<Rightarrow> 's decoded) \<Rightarrow> 's codec \<Rightarrow> 's codec" where
  "with_unmarshal u c = c\<lparr>c_dec := (\<lambda>cur j. u j)\<rparr>"

text \<open>The \<open>MarshalJSON\<close> of a struct; what it returns is checked and compacted by its caller.\<close>

definition with_marshal :: "('s \<Rightarrow> string option) \<Rightarrow> 's codec \<Rightarrow> 's codec" where
  "with_marshal m c = c\<lparr>c_enc := (\<lambda>v. Option.bind (m v) compact)\<rparr>"

text \<open>A field that is read leniently: what does not decode counts as absent.\<close>

definition lenient :: "'a codec \<Rightarrow> 'a codec" where
  "lenient c = c\<lparr>c_dec := (\<lambda>cur j. case c_dec c (c_zero c) j of Good v \<Rightarrow> Good v | _ \<Rightarrow> Good (c_zero c))\<rparr>"

fun sound_elements :: "'a codec \<Rightarrow> raw_json list \<Rightarrow> 'a list" where
  "sound_elements c [] = []"
| "sound_elements c (x # xs) =
     (case c_dec c (c_zero c) x of Good v \<Rightarrow> v # sound_elements c xs | _ \<Rightarrow> sound_elements c xs)"

definition lenient_slice :: "'a codec \<Rightarrow> 'a list option codec" where
  "lenient_slice c = (go_slice c)\<lparr>c_dec := (\<lambda>cur (r, v). case v of JArr xs \<Rightarrow> Good (Some (sound_elements c xs)) | _ \<Rightarrow> Good None)\<rparr>"

definition lenient_list :: "'a codec \<Rightarrow> 'a list option codec" where
  "lenient_list c = (lenient_slice c)\<lparr>c_fine := c_fine (go_list c)\<rparr>"

text \<open>
  A field that tells a null from an absent member by a flag beside it. Decoding sets the flag; the
  method of the struct overwrites it with what it finds in the members.
\<close>

definition go_patch :: "string \<Rightarrow> 'a option codec \<Rightarrow> ('s \<Rightarrow> 'a option) \<Rightarrow> (('a option \<Rightarrow> 'a option) \<Rightarrow> 's \<Rightarrow> 's) \<Rightarrow>
    ('s \<Rightarrow> bool) \<Rightarrow> ((bool \<Rightarrow> bool) \<Rightarrow> 's \<Rightarrow> 's) \<Rightarrow> 's fld" where
  "go_patch name c get upd flag set_flag =
     \<lparr>f_name = name,
      f_omit = (\<lambda>s. get s = None \<and> \<not> flag s),
      f_enc = (\<lambda>s. c_enc c (get s)),
      f_dec = (\<lambda>s j. map_decoded (\<lambda>x. set_flag (\<lambda>_. True) (upd (\<lambda>_. x) s)) (c_dec c (get s) j)),
      f_fine = (\<lambda>s. c_fine c (get s) \<and> (get s \<noteq> None \<longrightarrow> flag s)),
      f_same = (\<lambda>s t. get s = get t \<and> flag s = flag t)\<rparr>"

section \<open>Unions\<close>

text \<open>
  A union is a struct with one pointer for every variant. A variant is chosen by the text of its
  discriminator, or, when it has none, by its checks; the checks of a chosen variant come before
  the decoding of its payload.
\<close>

record 'u variant =
  v_disc :: "string option"
  v_checks :: "check list"
  v_dec :: "raw_json \<Rightarrow> 'u decoded"
  v_enc :: "'u \<Rightarrow> string option option"
  v_fine :: "'u \<Rightarrow> bool"

definition typed :: "string \<Rightarrow> 'a codec \<Rightarrow> check" where
  "typed k c ms =
     (case field ms k of
        None \<Rightarrow> Some (Refused ''invalid variant payload'')
      | Some (r, v) \<Rightarrow>
          if v = JNull then Some (Refused ''invalid variant payload'')
          else (case c_dec c (c_zero c) (r, v) of Good x \<Rightarrow> None | _ \<Rightarrow> Some (Refused ''invalid variant payload'')))"

definition listed :: "string \<Rightarrow> 'a codec \<Rightarrow> check" where
  "listed k c ms =
     (case field ms k of
        None \<Rightarrow> Some (Refused ''invalid variant payload'')
      | Some j \<Rightarrow> (case c_dec c (c_zero c) j of Good x \<Rightarrow> None | _ \<Rightarrow> Some (Refused ''invalid variant payload'')))"

definition go_variant :: "string option \<Rightarrow> check list \<Rightarrow> 'a codec \<Rightarrow> ('u \<Rightarrow> 'a option) \<Rightarrow> ('a \<Rightarrow> 'u) \<Rightarrow> 'u variant" where
  "go_variant disc checks c get inject =
     \<lparr>v_disc = disc, v_checks = checks,
      v_dec = (\<lambda>j. map_decoded inject (c_dec c (c_zero c) j)),
      v_enc = (\<lambda>u. map_option (c_enc c) (get u)),
      v_fine = (\<lambda>u. case get u of None \<Rightarrow> False | Some x \<Rightarrow> c_fine c x \<and> u = inject x)\<rparr>"

definition discriminator :: "string \<Rightarrow> raw_members \<Rightarrow> string" where
  "discriminator key ms = (case field ms key of Some (r, JStr s) \<Rightarrow> s | _ \<Rightarrow> [])"

definition decode_variant :: "'u variant \<Rightarrow> raw_json \<Rightarrow> 'u decoded" where
  "decode_variant v j = (case v_dec v j of Good u \<Rightarrow> Good u | _ \<Rightarrow> Hard (Refused ''invalid variant payload''))"

definition unmarshal_union :: "string \<Rightarrow> 'u variant list \<Rightarrow> raw_json \<Rightarrow> 'u decoded" where
  "unmarshal_union key vs j =
     (case members_of j of
        None \<Rightarrow> Hard (Refused ''no matching variant for union'')
      | Some ms \<Rightarrow>
          (case find (\<lambda>v. v_disc v = Some (discriminator key ms)) vs of
             Some v \<Rightarrow> (case run_checks (v_checks v) ms of Some e \<Rightarrow> Hard e | None \<Rightarrow> decode_variant v j)
           | None \<Rightarrow>
               (case find (\<lambda>v. v_disc v = None \<and> run_checks (v_checks v) ms = None) vs of
                  Some v \<Rightarrow> decode_variant v j
                | None \<Rightarrow> Hard (Refused ''no matching variant for union''))))"

text \<open>The payload is encoded, read back as a map, and written again with its discriminator.\<close>

definition tag_object :: "string \<Rightarrow> string option \<Rightarrow> string \<Rightarrow> string option" where
  "tag_object key disc t =
     (case unmarshal_map t of
        Some (True, ms) \<Rightarrow>
          map_option object_text (enc_entries go_raw (sorted_entries
             (ms @ (case disc of None \<Rightarrow> [] | Some d \<Rightarrow> [(key, quote d)]))))
      | _ \<Rightarrow> None)"

fun marshal_union :: "string \<Rightarrow> 'u variant list \<Rightarrow> 'u \<Rightarrow> string option" where
  "marshal_union key [] u = Some []"
| "marshal_union key (v # vs) u =
     (case v_enc v u of
        None \<Rightarrow> marshal_union key vs u
      | Some None \<Rightarrow> None
      | Some (Some t) \<Rightarrow> tag_object key (v_disc v) t)"

definition variants_set :: "'u variant list \<Rightarrow> 'u \<Rightarrow> nat" where
  "variants_set vs u = length (filter (\<lambda>v. v_enc v u \<noteq> None) vs)"

text \<open>What \<open>MarshalJSON\<close> returns is checked and compacted by the encoder that called it.\<close>

definition go_union :: "'u \<Rightarrow> (raw_json \<Rightarrow> 'u decoded) \<Rightarrow> ('u \<Rightarrow> string option) \<Rightarrow> 'u variant list \<Rightarrow> 'u codec" where
  "go_union zero um mj vs =
     \<lparr>c_zero = zero, c_dec = (\<lambda>cur j. um j), c_enc = (\<lambda>u. Option.bind (mj u) compact),
      c_empty = (\<lambda>u. False), c_fine = (\<lambda>u. \<exists>v \<in> set vs. v_fine v u)\<rparr>"

text \<open>A union of plain values: the first one that decodes is taken.\<close>

fun first_choice :: "(raw_json \<Rightarrow> 'u option) list \<Rightarrow> raw_json \<Rightarrow> 'u decoded" where
  "first_choice [] j = Hard (Refused ''no matching variant for union'')"
| "first_choice (f # fs) j = (case f j of Some u \<Rightarrow> Good u | None \<Rightarrow> first_choice fs j)"

definition tries :: "'a codec \<Rightarrow> ('a \<Rightarrow> 'u) \<Rightarrow> raw_json \<Rightarrow> 'u option" where
  "tries c f j = (case c_dec c (c_zero c) j of Good v \<Rightarrow> Some (f v) | _ \<Rightarrow> None)"

definition tries_const :: "'a codec \<Rightarrow> 'a \<Rightarrow> ('a \<Rightarrow> 'u) \<Rightarrow> raw_json \<Rightarrow> 'u option" where
  "tries_const c k f j = (case c_dec c (c_zero c) j of Good v \<Rightarrow> if v = k then Some (f v) else None | _ \<Rightarrow> None)"

definition set_count :: "bool list \<Rightarrow> nat" where
  "set_count bs = length (filter id bs)"

text \<open>
  What a \<open>Validate\<close> reports: its own message, that the value has no encoding, that the encoding
  does not decode (under the name of the type), or a part that is invalid (under its name).
\<close>

datatype invalid = Message string | NotEncoded | NotDecoded string dec_error | Within string invalid

text \<open>\<open>Validate\<close> of a union: \<open>one\<close> variant or at least one, and its own encoding decodes.\<close>

definition validate_set :: "bool \<Rightarrow> string \<Rightarrow> nat \<Rightarrow> 'u codec \<Rightarrow> 'u \<Rightarrow> invalid option" where
  "validate_set one name n c u =
     (if one \<and> n \<noteq> 1 then Some (Message (name @ '' must have exactly one variant set''))
      else if \<not> one \<and> n < 1 then Some (Message (name @ '' must have at least one variant set''))
      else case c_enc c u of
        None \<Rightarrow> Some NotEncoded
      | Some t \<Rightarrow> (case unmarshal c (c_zero c) t of Inr w \<Rightarrow> None | Inl e \<Rightarrow> Some (NotDecoded name e)))"

definition validate_union :: "bool \<Rightarrow> string \<Rightarrow> 'u codec \<Rightarrow> 'u variant list \<Rightarrow> 'u \<Rightarrow> invalid option" where
  "validate_union one name c vs u = validate_set one name (variants_set vs u) c u"

text \<open>The elements of a slice in turn, under their indices.\<close>

fun validate_items :: "string \<Rightarrow> ('a \<Rightarrow> invalid option) \<Rightarrow> nat \<Rightarrow> 'a list \<Rightarrow> invalid option" where
  "validate_items name check i [] = None"
| "validate_items name check i (x # xs) =
     (case check x of
        Some e \<Rightarrow> Some (Within (name @ ''['' @ show_nat i @ '']'') e)
      | None \<Rightarrow> validate_items name check (Suc i) xs)"

text \<open>The strings of a discriminator and of a title, with the texts that come back unchanged.\<close>

definition go_tag :: "string \<Rightarrow> string codec" where
  "go_tag disc = go_string\<lparr>c_fine := (\<lambda>s. s = disc)\<rparr>"

definition go_nonblank :: "string codec" where
  "go_nonblank = go_string\<lparr>c_fine := (\<lambda>s. s \<noteq> [] \<and> utf8_valid s)\<rparr>"

end
