(* ===== verification/CodecFacts.thy ===== *)
theory CodecFacts
  imports Codec
begin

text \<open>
  What the combinators of theory \<open>Codec\<close> guarantee: a value that the codec calls fine is encoded
  as a clean text, and decoding that text into a fresh variable gives the value back. Structs give
  it back whatever the order of the members is, which unions need.
\<close>

section \<open>The law of a codec\<close>

text \<open>The text nests at most \<open>d\<close> levels; the text of a solid codec is never \<open>null\<close>.\<close>

definition wire :: "nat \<Rightarrow> bool \<Rightarrow> 'a codec \<Rightarrow> bool" where
  "wire d solid c \<longleftrightarrow>
     (\<forall>v. c_fine c v \<longrightarrow>
        (\<exists>t j. c_enc c v = Some t \<and> clean d t j \<and> (solid \<longrightarrow> j \<noteq> JNull) \<and> c_dec c (c_zero c) (t, j) = Good v))"

lemma wireE:
  assumes "wire d solid c" "c_fine c v"
  obtains t j where "c_enc c v = Some t" "clean d t j" "solid \<Longrightarrow> j \<noteq> JNull" "c_dec c (c_zero c) (t, j) = Good v"
  using assms by (auto simp: wire_def)

lemma wire_mono: "wire d s c \<Longrightarrow> d \<le> e \<Longrightarrow> (s' \<Longrightarrow> s) \<Longrightarrow> wire e s' c"
  unfolding wire_def by (meson clean_mono)

lemma wire_string: "wire 0 True go_string"
  by (auto simp: wire_def go_string_def intro!: clean_quote exI [of _ "JStr _"])

lemma wire_bool: "wire 0 True go_bool"
  by (auto simp: wire_def go_bool_def clean_true clean_false intro!: exI [of _ "JBool _"])

lemma null_clean: "clean d ''null'' JNull"
  by (rule clean_mono [OF clean_null]) simp

lemma wire_raw: "wire raw_depth False go_raw"
  using clean_raw clean_marshal_raw [of raw_depth]
  by (fastforce simp: wire_def go_raw_def raw_depth_def max_depth_def)

lemma wire_ptr: "wire d True c \<Longrightarrow> wire d False (go_ptr c)"
  unfolding wire_def
proof (intro allI impI)
  fix p
  assume w: "\<forall>v. c_fine c v \<longrightarrow> (\<exists>t j. c_enc c v = Some t \<and> clean d t j \<and> (True \<longrightarrow> j \<noteq> JNull) \<and> c_dec c (c_zero c) (t, j) = Good v)"
    and fine: "c_fine (go_ptr c) p"
  show "\<exists>t j. c_enc (go_ptr c) p = Some t \<and> clean d t j \<and> (False \<longrightarrow> j \<noteq> JNull) \<and>
      c_dec (go_ptr c) (c_zero (go_ptr c)) (t, j) = Good p"
  proof (cases p)
    case None
    then show ?thesis
      by (intro exI [of _ "''null''"] exI [of _ JNull]) (simp add: go_ptr_def null_clean)
  next
    case (Some x)
    then obtain t j where "c_enc c x = Some t" "clean d t j" "j \<noteq> JNull" "c_dec c (c_zero c) (t, j) = Good x"
      using w fine by (auto simp: go_ptr_def)
    then show ?thesis by (intro exI [of _ t] exI [of _ j]) (simp add: go_ptr_def Some)
  qed
qed

lemma wire_elements:
  assumes "wire d s c" "list_all (c_fine c) vs"
  shows "\<exists>xs. enc_elements c vs = Some (map fst xs) \<and> (\<forall>(t, j) \<in> set xs. clean d t j \<and> (s \<longrightarrow> j \<noteq> JNull)) \<and>
    dec_elements c [] xs = Good vs \<and> (s \<longrightarrow> first_bad c xs = None)"
  using assms(2)
proof (induction vs)
  case Nil
  then show ?case by (intro exI [of _ "[]"]) simp
next
  case (Cons v vs)
  then obtain xs where xs: "enc_elements c vs = Some (map fst xs)" "\<forall>(t, j) \<in> set xs. clean d t j \<and> (s \<longrightarrow> j \<noteq> JNull)"
    "dec_elements c [] xs = Good vs" "s \<longrightarrow> first_bad c xs = None"
    by auto
  have "c_fine c v" using Cons.prems by simp
  with assms(1) obtain t j where "c_enc c v = Some t" "clean d t j" "s \<Longrightarrow> j \<noteq> JNull" "c_dec c (c_zero c) (t, j) = Good v"
    by (rule wireE) blast
  with xs show ?case by (intro exI [of _ "(t, j) # xs"]) auto
qed

lemma wire_slice: "wire d s c \<Longrightarrow> wire (Suc d) False (go_slice c)"
proof (unfold wire_def [of "Suc d"], intro allI impI)
  fix p assume w: "wire d s c" and fine: "c_fine (go_slice c) p"
  show "\<exists>t j. c_enc (go_slice c) p = Some t \<and> clean (Suc d) t j \<and> (False \<longrightarrow> j \<noteq> JNull) \<and>
      c_dec (go_slice c) (c_zero (go_slice c)) (t, j) = Good p"
  proof (cases p)
    case None
    then show ?thesis
      by (intro exI [of _ "''null''"] exI [of _ JNull]) (simp add: go_slice_def null_clean)
  next
    case (Some vs)
    then obtain xs where "enc_elements c vs = Some (map fst xs)" "\<forall>(t, j) \<in> set xs. clean d t j \<and> (s \<longrightarrow> j \<noteq> JNull)"
      "dec_elements c [] xs = Good vs"
      using wire_elements [OF w, of vs] fine by (auto simp: go_slice_def)
    then show ?thesis
      by (intro exI [of _ "array_text (map fst xs)"] exI [of _ "JArr xs"]) (auto simp: go_slice_def Some intro!: clean_array)
  qed
qed

lemma wire_list: "wire d s c \<Longrightarrow> wire (Suc d) True (go_list c)"
proof (unfold wire_def [of "Suc d"], intro allI impI)
  fix p assume w: "wire d s c" and fine: "c_fine (go_list c) p"
  then obtain vs where p: "p = Some vs" "list_all (c_fine c) vs" by (auto simp: go_list_def go_slice_def)
  obtain xs where "enc_elements c vs = Some (map fst xs)" "\<forall>(t, j) \<in> set xs. clean d t j \<and> (s \<longrightarrow> j \<noteq> JNull)"
      "dec_elements c [] xs = Good vs"
    using wire_elements [OF w p(2)] by auto
  then show "\<exists>t j. c_enc (go_list c) p = Some t \<and> clean (Suc d) t j \<and> (True \<longrightarrow> j \<noteq> JNull) \<and>
      c_dec (go_list c) (c_zero (go_list c)) (t, j) = Good p"
    by (intro exI [of _ "array_text (map fst xs)"] exI [of _ "JArr xs"])
      (auto simp: go_list_def go_slice_def p(1) intro!: clean_array)
qed

lemma wire_entries:
  assumes "wire d s c" "list_all (\<lambda>(k, v). utf8_valid k \<and> c_fine c v) es"
  shows "\<exists>ms. enc_entries c es = Some (map (\<lambda>(k, t, j). (k, t)) ms) \<and> (\<forall>(k, t, j) \<in> set ms. utf8_valid k \<and> clean d t j) \<and>
    (\<forall>acc. dec_entries c None acc ms = Good (fold (\<lambda>(k, v). insert_entry k v) es acc))"
  using assms(2)
proof (induction es)
  case Nil
  then show ?case by (intro exI [of _ "[]"]) simp
next
  case (Cons e es)
  obtain k v where e: "e = (k, v)" by (cases e)
  from Cons obtain ms where ms: "enc_entries c es = Some (map (\<lambda>(k, t, j). (k, t)) ms)"
    "\<forall>(k, t, j) \<in> set ms. utf8_valid k \<and> clean d t j"
    "\<forall>acc. dec_entries c None acc ms = Good (fold (\<lambda>(k, v). insert_entry k v) es acc)"
    by auto
  have "c_fine c v" "utf8_valid k" using Cons.prems e by simp_all
  from assms(1) this(1) obtain t j where "c_enc c v = Some t" "clean d t j" "c_dec c (c_zero c) (t, j) = Good v"
    by (rule wireE) blast
  with ms \<open>utf8_valid k\<close> show ?case by (intro exI [of _ "(k, t, j) # ms"]) (auto simp: e)
qed

lemma wire_map: "wire d s c \<Longrightarrow> wire (Suc d) False (go_map c)"
proof (unfold wire_def [of "Suc d"], intro allI impI)
  fix p assume w: "wire d s c" and fine: "c_fine (go_map c) p"
  show "\<exists>t j. c_enc (go_map c) p = Some t \<and> clean (Suc d) t j \<and> (False \<longrightarrow> j \<noteq> JNull) \<and>
      c_dec (go_map c) (c_zero (go_map c)) (t, j) = Good p"
  proof (cases p)
    case None
    then show ?thesis
      by (intro exI [of _ "''null''"] exI [of _ JNull]) (simp add: go_map_def null_clean)
  next
    case (Some es)
    with fine have sorted: "fold (\<lambda>(k, v). insert_entry k v) es [] = es"
      and all: "list_all (\<lambda>(k, v). utf8_valid k \<and> c_fine c v) es"
      by (auto simp: go_map_def sorted_entries_def)
    from wire_entries [OF w all] obtain ms where "enc_entries c es = Some (map (\<lambda>(k, t, j). (k, t)) ms)"
      "\<forall>(k, t, j) \<in> set ms. utf8_valid k \<and> clean d t j"
      "dec_entries c None [] ms = Good (fold (\<lambda>(k, v). insert_entry k v) es [])"
      by blast
    with sorted show ?thesis
      by (intro exI [of _ "object_text (map (\<lambda>(k, t, j). (k, t)) ms)"] exI [of _ "JObj ms"])
        (auto simp: go_map_def Some intro!: clean_object)
  qed
qed

section \<open>Integers\<close>

lemma leading_digit: "0 < n \<Longrightarrow> hd (show_nat n) \<noteq> CHR ''0''"
proof (induction n rule: show_nat.induct)
  case (1 n)
  show ?case
  proof (cases "n < 10")
    case True
    have "digit_char n \<noteq> CHR ''0''"
    proof
      assume "digit_char n = CHR ''0''"
      then have "digit_val (digit_char n) = 0" by (simp add: digit_val_def)
      with True 1(2) show False by simp
    qed
    with True show ?thesis by (simp add: show_nat.simps [of n])
  next
    case False
    then have "hd (show_nat (n div 10)) \<noteq> CHR ''0''" using 1(1) by simp
    with False show ?thesis by (simp add: show_nat.simps [of n] hd_append)
  qed
qed

lemma lex_digit_run: "list_all is_digit ds \<Longrightarrow> lex (LNum NInt a) ds = Some [TNum (rev a @ ds)]"
  by (induction ds arbitrary: a) (simp_all add: lex.simps(2))

lemma show_nat_list: "list_all is_digit (show_nat n)"
  by (simp add: list_all_iff show_nat_digits)

lemma lex_after_digits:
  assumes "ds \<noteq> []" "list_all is_digit ds" "hd ds \<noteq> CHR ''0'' \<or> ds = ''0''" "st = LStart \<and> a = [] \<or> st = LNum NNeg a"
  shows "lex st ds = Some [TNum (rev a @ ds)]"
proof (cases ds)
  case (Cons c r)
  have "c = CHR ''0'' \<longrightarrow> r = []" "is_digit c" "list_all is_digit r" using assms Cons by auto
  moreover have "\<not> is_ws c" "\<not> is_punct c" "c \<noteq> dquote" "c \<noteq> CHR ''-''"
    using \<open>is_digit c\<close> by (auto simp: is_digit_def is_ws_def is_punct_def)
  ultimately show ?thesis using assms(4)
    by (auto simp: Cons lex.simps(2) lex_begin_def lex_digit_run)
qed (use assms in simp)

lemma show_nat_canonical: "hd (show_nat n) \<noteq> CHR ''0'' \<or> show_nat n = ''0''"
proof (cases n)
  case 0
  have "digit_char 0 = CHR ''0''" by (simp add: digit_char_def char_of_eq_iff)
  with 0 show ?thesis by (simp add: show_nat.simps [of 0])
qed (use leading_digit in blast)

lemma lex_show_int: "lex LStart (show_int i) = Some [TNum (show_int i)]"
proof (cases "i < 0")
  case True
  have "lex_step LStart CHR ''-'' = Some ([], LNum NNeg ''-'')"
    by (simp add: lex_begin_def is_ws_def is_punct_def)
  with True show ?thesis
    using lex_after_digits [OF show_nat_nonempty show_nat_list show_nat_canonical, of "LNum NNeg ''-''" "''-''"]
    by (simp add: show_int_def lex.simps(2) del: lex_step.simps)
next
  case False
  then show ?thesis
    using lex_after_digits [OF show_nat_nonempty show_nat_list show_nat_canonical, of LStart "[]"]
    by (simp add: show_int_def)
qed

lemma parse_show_int: "lo \<le> i \<Longrightarrow> i \<le> hi \<Longrightarrow> parse_integer lo hi (show_int i) = Some i"
proof (cases "i < 0")
  case False
  assume bounds: "lo \<le> i" "i \<le> hi"
  obtain c r where c: "show_nat (nat i) = c # r" by (cases "show_nat (nat i)") auto
  then have "is_digit c" using show_nat_digits [of c "nat i"] by simp
  then have "c \<noteq> CHR ''-''" by (auto simp: is_digit_def)
  then have "(case show_nat (nat i) of CHR ''-'' # r \<Rightarrow> (True, r) | _ \<Rightarrow> (False, show_nat (nat i))) = (False, show_nat (nat i))"
    unfolding c by (simp split: char.splits bool.splits) 
  with False bounds show ?thesis by (simp add: parse_integer_def show_int_def show_nat_list)
qed (auto simp: parse_integer_def show_int_def show_nat_list)

lemma wire_integer: "wire 0 True (go_integer lo hi)"
  by (auto simp: wire_def go_integer_def parse_show_int lex_show_int intro!: exI [of _ "JNum _"] clean_num)

lemma integer_number:
  assumes "c_fine (go_integer lo hi) n"
  shows "c_enc (go_integer lo hi) n = Some (show_int n)" "clean 0 (show_int n) (JNum (show_int n))"
    "c_dec (go_integer lo hi) cur (r, JNum (show_int n)) = Good n"
  using assms by (auto simp: go_integer_def parse_show_int lex_show_int intro!: clean_num)

section \<open>Structs\<close>

text \<open>
  Values whose encoding is an object: \<open>names\<close> are its keys and \<open>cks\<close> are checks that it passes;
  neither the checks nor decoding depend on the order of the members.
\<close>

definition as_members :: "nat \<Rightarrow> string list \<Rightarrow> check list \<Rightarrow> 'a codec \<Rightarrow> 'a \<Rightarrow> (string \<times> raw_json) list \<Rightarrow> bool" where
  "as_members d names cks c v ms \<longleftrightarrow>
     c_enc c v = Some (object_text (map (\<lambda>(k, t, j). (k, t)) ms)) \<and> distinct (map fst ms) \<and>
     fst ` set ms \<subseteq> set names \<and>
     (\<forall>(k, t, j) \<in> set ms. utf8_valid k \<and> clean d t j) \<and>
     (\<forall>ms' r. distinct (map fst ms') \<longrightarrow> set ms' = set ms \<longrightarrow>
        (\<forall>k \<in> set cks. k ms' = None) \<and> c_dec c (c_zero c) (r, JObj ms') = Good v)"

definition obj :: "nat \<Rightarrow> string list \<Rightarrow> check list \<Rightarrow> 'a codec \<Rightarrow> bool" where
  "obj d names cks c \<longleftrightarrow> (\<forall>v. c_fine c v \<longrightarrow> (\<exists>ms. as_members d names cks c v ms))"

lemma wire_obj: "obj d names cks c \<Longrightarrow> wire (Suc d) True c"
  unfolding wire_def
proof (intro allI impI)
  fix v assume "obj d names cks c" "c_fine c v"
  then obtain ms where ms: "as_members d names cks c v ms" by (auto simp: obj_def)
  then have "clean (Suc d) (object_text (map (\<lambda>(k, t, j). (k, t)) ms)) (JObj ms)"
    by (intro clean_object) (simp add: as_members_def)
  with ms show "\<exists>t j. c_enc c v = Some t \<and> clean (Suc d) t j \<and> (True \<longrightarrow> j \<noteq> JNull) \<and> c_dec c (c_zero c) (t, j) = Good v"
    by (intro exI [of _ "object_text (map (\<lambda>(k, t, j). (k, t)) ms)"] exI [of _ "JObj ms"]) (simp add: as_members_def)
qed

text \<open>What a struct needs of a field: decoding a part of the text gives back that part of the value.\<close>

definition restores :: "'s fld \<Rightarrow> 's \<Rightarrow> 's \<Rightarrow> raw_json \<Rightarrow> bool" where
  "restores f zero s j \<longleftrightarrow> (\<forall>u. f_same f u zero \<longrightarrow> (\<exists>u'. f_dec f u j = Good u' \<and> f_same f u' s))"

definition field_law :: "nat \<Rightarrow> 's \<Rightarrow> 's fld \<Rightarrow> bool" where
  "field_law d zero f \<longleftrightarrow>
     equivp (f_same f) \<and>
     (\<forall>s. f_fine f s \<longrightarrow> f_omit f s \<longrightarrow> f_same f zero s) \<and>
     (\<forall>s. f_fine f s \<longrightarrow> \<not> f_omit f s \<longrightarrow>
        (\<exists>t j. f_enc f s = Some t \<and> clean d t j \<and>
           restores f zero s (t, j)))"

definition leaves :: "'s fld \<Rightarrow> 's fld \<Rightarrow> bool" where
  "leaves f g \<longleftrightarrow> (\<forall>u j u'. f_dec f u j = Good u' \<longrightarrow> (\<forall>s. f_same g u' s = f_same g u s))"

lemma go_field_law:
  assumes "wire d b c" "\<And>s x. get (upd (\<lambda>_. x) s) = x" "get zero = c_zero c"
  shows "field_law d zero (go_field name oe c get upd)"
proof -
  have "\<exists>t j. c_enc c (get s) = Some t \<and> clean d t j \<and>
      (\<forall>u. get u = get zero \<longrightarrow> (\<exists>u'. map_decoded (\<lambda>x. upd (\<lambda>_. x) u) (c_dec c (get u) (t, j)) = Good u' \<and> get u' = get s))"
    if fine: "c_fine c (get s)" for s
  proof -
    from assms(1) fine obtain t j where "c_enc c (get s) = Some t" "clean d t j" "c_dec c (c_zero c) (t, j) = Good (get s)"
      by (rule wireE) blast
    with assms(2,3) show ?thesis by (intro exI [of _ t] exI [of _ j]) simp
  qed
  moreover have "equivp (\<lambda>s t. get s = get t)" by (rule equivpI) (auto simp: reflp_def symp_def transp_def)
  ultimately show ?thesis using assms(3) by (simp add: field_law_def restores_def go_field_def)
qed

lemma go_field_leaves:
  assumes "\<And>x u. get' (upd (\<lambda>_. x) u) = get' u"
  shows "leaves (go_field name oe c get upd) (go_field name' oe' c' get' upd')"
proof -
  have "get' u' = get' u" if "map_decoded (\<lambda>x. upd (\<lambda>_. x) u) y = Good u'" for u u' y
    using that assms by (cases y) auto
  then show ?thesis by (auto simp: leaves_def go_field_def)
qed

lemma find_field_name:
  assumes "distinct (map f_name fs)" "f \<in> set fs"
  shows "find_field fs (f_name f) = Some f"
proof -
  have "find (\<lambda>g. f_name g = f_name f) fs = Some f"
    using assms by (induction fs) auto
  then show ?thesis using assms(2) by (simp add: find_field_def match_field_def)
qed

text \<open>The value after the members with keys in \<open>K\<close> have been decoded.\<close>

definition half_way :: "'s fld list \<Rightarrow> 's \<Rightarrow> 's \<Rightarrow> string set \<Rightarrow> 's \<Rightarrow> bool" where
  "half_way fs zero s K u \<longleftrightarrow> (\<forall>f \<in> set fs. f_same f u (if f_name f \<in> K then s else zero))"

lemma half_way_step:
  assumes "half_way fs zero s K u" "f \<in> set fs" "f_dec f u j = Good u'" "f_same f u' s"
    "distinct (map f_name fs)" "\<And>g. g \<in> set fs \<Longrightarrow> f_name f \<noteq> f_name g \<Longrightarrow> leaves f g"
  shows "half_way fs zero s (insert (f_name f) K) u'"
  unfolding half_way_def
proof
  fix g assume g: "g \<in> set fs"
  show "f_same g u' (if f_name g \<in> insert (f_name f) K then s else zero)"
  proof (cases "f_name g = f_name f")
    case True
    then have "g = f" using assms(2,5) g by (meson distinct_map inj_onD)
    with assms(4) show ?thesis by simp
  next
    case False
    then have "\<forall>x. f_same g u' x = f_same g u x" using assms(3) assms(6) [OF g not_sym [OF False]] unfolding leaves_def by blast
    with assms(1) g False show ?thesis by (auto simp: half_way_def)
  qed
qed

lemma dec_members_half_way:
  assumes names: "distinct (map f_name fs)"
    and frame: "\<forall>f \<in> set fs. \<forall>g \<in> set fs. f_name f \<noteq> f_name g \<longrightarrow> leaves f g"
  shows "half_way fs zero s K u \<Longrightarrow> distinct (map fst ms) \<Longrightarrow> fst ` set ms \<inter> K = {} \<Longrightarrow>
    \<forall>(k, j) \<in> set ms. \<exists>f \<in> set fs. f_name f = k \<and> restores f zero s j \<Longrightarrow>
    \<exists>u'. dec_members fs None u ms = Good u' \<and> half_way fs zero s (K \<union> fst ` set ms) u'"
proof (induction ms arbitrary: K u)
  case (Cons m ms)
  obtain k j where m: "m = (k, j)" by (cases m)
  from Cons.prems(4) m obtain f where f: "f \<in> set fs" "f_name f = k" "restores f zero s j" by auto
  have "k \<notin> K" using Cons.prems(3) m by auto
  moreover have "f_same f u (if f_name f \<in> K then s else zero)" using Cons.prems(1) f(1) by (simp add: half_way_def)
  ultimately have "f_same f u zero" using f(2) by simp
  then obtain u1 where u1: "f_dec f u j = Good u1" "f_same f u1 s" using f(3) unfolding restores_def by blast
  have "\<And>g. g \<in> set fs \<Longrightarrow> f_name f \<noteq> f_name g \<Longrightarrow> leaves f g" using frame f(1) by blast
  from half_way_step [OF Cons.prems(1) f(1) u1 names this] have step: "half_way fs zero s (insert k K) u1"
    using f(2) by simp
  have "distinct (map fst ms)" "fst ` set ms \<inter> insert k K = {}" "\<forall>(k, j) \<in> set ms. \<exists>f \<in> set fs. f_name f = k \<and> restores f zero s j"
    using Cons.prems m by auto
  from Cons.IH [OF step this] obtain u' where "dec_members fs None u1 ms = Good u'" "half_way fs zero s (insert k K \<union> fst ` set ms) u'"
    by blast
  moreover have "find_field fs k = Some f" using find_field_name [OF names f(1)] f(2) by simp
  moreover have "insert k K \<union> fst ` set ms = K \<union> fst ` set (m # ms)" using m by auto
  ultimately show ?case by (simp add: m u1)
qed simp

definition member_of :: "'s fld list \<Rightarrow> 's \<Rightarrow> 's \<Rightarrow> nat \<Rightarrow> string \<times> raw_json \<Rightarrow> bool" where
  "member_of fs zero s d m =
     (case m of (k, t, j) \<Rightarrow>
        utf8_valid k \<and> clean d t j \<and> (\<exists>f \<in> set fs. f_name f = k \<and> f_enc f s = Some t \<and> restores f zero s (t, j)))"

lemma member_of_Cons: "member_of fs zero s d m \<Longrightarrow> member_of (f # fs) zero s d m"
  by (auto simp: member_of_def)

lemma enc_fields_members:
  assumes "\<forall>f \<in> set fs. field_law d zero f \<and> f_fine f s \<and> utf8_valid (f_name f)" "distinct (map f_name fs)"
  shows "\<exists>ms. enc_fields fs s = Some (map (\<lambda>(k, t, j). (k, t)) ms) \<and> distinct (map fst ms) \<and>
    fst ` set ms = f_name ` {f \<in> set fs. \<not> f_omit f s} \<and> (\<forall>m \<in> set ms. member_of fs zero s d m)"
  using assms
proof (induction fs)
  case Nil
  then show ?case by (intro exI [of _ "[]"]) simp
next
  case (Cons f fs)
  then obtain ms where ms: "enc_fields fs s = Some (map (\<lambda>(k, t, j). (k, t)) ms)" "distinct (map fst ms)"
    "fst ` set ms = f_name ` {f \<in> set fs. \<not> f_omit f s}" "\<forall>m \<in> set ms. member_of fs zero s d m"
    by auto
  have up: "\<forall>m \<in> set ms. member_of (f # fs) zero s d m" using ms(4) by (simp add: member_of_Cons)
  show ?case
  proof (cases "f_omit f s")
    case True
    have "{g \<in> set (f # fs). \<not> f_omit g s} = {g \<in> set fs. \<not> f_omit g s}" using True by auto
    then have "fst ` set ms = f_name ` {g \<in> set (f # fs). \<not> f_omit g s}" using ms(3) by (simp only:)
    moreover have "enc_fields (f # fs) s = Some (map (\<lambda>(k, t, j). (k, t)) ms)" using True ms(1) by simp
    ultimately show ?thesis using ms(2) up by blast
  next
    case False
    have law: "field_law d zero f" "f_fine f s" "utf8_valid (f_name f)" using Cons.prems(1) by simp_all
    then obtain t j where f: "f_enc f s = Some t" "clean d t j" "restores f zero s (t, j)"
      using False unfolding field_law_def by blast
    have new: "f_name f \<notin> fst ` set ms" using ms(3) Cons.prems(2) by auto
    have "{g \<in> set (f # fs). \<not> f_omit g s} = insert f {g \<in> set fs. \<not> f_omit g s}" using False by auto
    then have "fst ` set ((f_name f, t, j) # ms) = f_name ` {g \<in> set (f # fs). \<not> f_omit g s}" using ms(3) by simp
    moreover have "enc_fields (f # fs) s = Some (map (\<lambda>(k, t, j). (k, t)) ((f_name f, t, j) # ms))"
      using False f(1) ms(1) by simp
    moreover have "distinct (map fst ((f_name f, t, j) # ms))" using new ms(2) by simp
    moreover have "member_of (f # fs) zero s d (f_name f, t, j)" using f law(3) by (simp add: member_of_def)
    then have "\<forall>m \<in> set ((f_name f, t, j) # ms). member_of (f # fs) zero s d m" using up by simp
    ultimately show ?thesis by blast
  qed
qed

text \<open>The laws of a struct.\<close>

definition struct_law :: "nat \<Rightarrow> 's \<Rightarrow> 's fld list \<Rightarrow> bool" where
  "struct_law d zero fs \<longleftrightarrow>
     distinct (map f_name fs) \<and> (\<forall>f \<in> set fs. field_law d zero f \<and> utf8_valid (f_name f)) \<and>
     (\<forall>f \<in> set fs. \<forall>g \<in> set fs. f_name f \<noteq> f_name g \<longrightarrow> leaves f g) \<and>
     (\<forall>s t. (\<forall>f \<in> set fs. f_same f s t) \<longrightarrow> s = t)"

text \<open>A check that the encodings of a struct pass.\<close>

definition check_law :: "nat \<Rightarrow> 's \<Rightarrow> 's fld list \<Rightarrow> check \<Rightarrow> bool" where
  "check_law d zero fs k \<longleftrightarrow>
     (\<forall>s ms. (\<forall>f \<in> set fs. f_fine f s) \<longrightarrow> distinct (map fst ms) \<longrightarrow> (\<forall>m \<in> set ms. member_of fs zero s d m) \<longrightarrow>
        (\<forall>f \<in> set fs. \<not> f_omit f s \<longrightarrow> f_name f \<in> fst ` set ms) \<longrightarrow> k ms = None)"

definition post_law :: "nat \<Rightarrow> 's \<Rightarrow> 's fld list \<Rightarrow> 's post \<Rightarrow> bool" where
  "post_law d zero fs p \<longleftrightarrow>
     (\<forall>s ms. (\<forall>f \<in> set fs. f_fine f s) \<longrightarrow> distinct (map fst ms) \<longrightarrow> (\<forall>m \<in> set ms. member_of fs zero s d m) \<longrightarrow>
        fst ` set ms = f_name ` {f \<in> set fs. \<not> f_omit f s} \<longrightarrow> p ms s = s)"

lemma struct_members:
  assumes law: "struct_law d zero fs" and "d \<le> max_depth"
    and checks: "\<forall>k \<in> set cks. check_law d zero fs k" and posts: "\<forall>p \<in> set ps. post_law d zero fs p"
    and "c_fine (go_struct zero fs) s"
  shows "\<exists>ms. as_members d (map f_name fs) cks (go_struct zero fs) s ms \<and>
    (\<forall>ms'. distinct (map fst ms') \<longrightarrow> set ms' = set ms \<longrightarrow> in_turn ps ms' s = s)"
proof -
  from assms(5) have fine: "\<forall>f \<in> set fs. f_fine f s" by (simp add: go_struct_def)
  have names: "distinct (map f_name fs)" and laws: "\<forall>f \<in> set fs. field_law d zero f \<and> utf8_valid (f_name f)"
    and frame: "\<forall>f \<in> set fs. \<forall>g \<in> set fs. f_name f \<noteq> f_name g \<longrightarrow> leaves f g"
    and ext: "\<And>s t. (\<And>f. f \<in> set fs \<Longrightarrow> f_same f s t) \<Longrightarrow> s = t"
    using law unfolding struct_law_def by blast+
  from enc_fields_members [OF _ names, of d zero s] laws fine obtain ms where
    enc: "enc_fields fs s = Some (map (\<lambda>(k, t, j). (k, t)) ms)" and dist: "distinct (map fst ms)"
    and keys: "fst ` set ms = f_name ` {f \<in> set fs. \<not> f_omit f s}"
    and each: "\<forall>m \<in> set ms. member_of fs zero s d m"
    by blast
  have each2: "\<forall>(k, j) \<in> set ms. \<exists>f \<in> set fs. f_name f = k \<and> restores f zero s j"
    using each by (auto simp: member_of_def)
  have members: "\<forall>(k, t, j) \<in> set ms. utf8_valid k \<and> clean d t j" using each by (auto simp: member_of_def)
  have eqv: "equivp (f_same f)" if "f \<in> set fs" for f using laws that by (simp add: field_law_def)
  have decoded: "c_dec (go_struct zero fs) (c_zero (go_struct zero fs)) (r, JObj ms') = Good s"
    if dist': "distinct (map fst ms')" and same: "set ms' = set ms" for ms' r
  proof -
    have start: "half_way fs zero s {} zero" using eqv equivp_reflp by (fastforce simp: half_way_def)
    have all: "\<forall>(k, j) \<in> set ms'. \<exists>f \<in> set fs. f_name f = k \<and> restores f zero s j" using each2 same by simp
    then obtain u where u: "dec_members fs None zero ms' = Good u" "half_way fs zero s (fst ` set ms) u"
      using dec_members_half_way [OF names frame start dist' _ all] same by auto
    have "u = s"
    proof (rule ext)
      fix f assume f: "f \<in> set fs"
      show "f_same f u s"
      proof (cases "f_omit f s")
        case True
        then have "f_name f \<notin> fst ` set ms" using keys names f by (auto dest: distinct_map [THEN iffD1, THEN conjunct2, THEN inj_onD])
        then have "f_same f u zero" using u(2) f by (auto simp: half_way_def)
        moreover have "f_same f zero s" using laws fine f True by (simp add: field_law_def)
        ultimately show ?thesis using eqv [OF f] by (meson equivp_transp)
      next
        case False
        then have "f_name f \<in> fst ` set ms" using keys f by blast
        moreover have "f_same f u (if f_name f \<in> fst ` set ms then s else zero)" using u(2) f by (simp add: half_way_def)
        ultimately show ?thesis by simp
      qed
    qed
    with u(1) show ?thesis by (simp add: go_struct_def)
  qed
  have passed: "k ms' = None" if dist': "distinct (map fst ms')" and same: "set ms' = set ms" and k: "k \<in> set cks" for ms' k
  proof -
    have "\<forall>f \<in> set fs. \<not> f_omit f s \<longrightarrow> f_name f \<in> fst ` set ms'" using keys same by auto
    moreover have "\<forall>m \<in> set ms'. member_of fs zero s d m" using each same by simp
    ultimately show ?thesis using checks k fine dist' unfolding check_law_def by blast
  qed
  have "as_members d (map f_name fs) cks (go_struct zero fs) s ms"
    unfolding as_members_def using enc dist keys members decoded passed
    by (auto simp: go_struct_def)
  moreover have "in_turn ps ms' s = s" if dist': "distinct (map fst ms')" and same: "set ms' = set ms" for ms'
  proof -
    have "\<forall>p \<in> set ps. p ms' s = s"
      using posts fine dist' each keys same unfolding post_law_def by blast
    then show ?thesis by (induction ps) (auto simp: in_turn_def)
  qed
  ultimately show ?thesis by blast
qed

lemma obj_struct:
  assumes "struct_law d zero fs" "d \<le> max_depth" "\<forall>k \<in> set cks. check_law d zero fs k"
  shows "obj d (map f_name fs) cks (go_struct zero fs)"
  unfolding obj_def using struct_members [OF assms, of "[]"] by fastforce

section \<open>Checks\<close>

lemma field_distinct: "distinct (map fst ms) \<Longrightarrow> field ms k = Some x \<longleftrightarrow> (k, x) \<in> set ms"
  using map_of_eq_Some_iff [of "rev ms" k x] by (simp add: field_def flip: rev_map)

lemma field_present: "k \<in> fst ` set ms \<Longrightarrow> \<exists>x. field ms k = Some x"
  by (metis field_def map_of_eq_None_iff not_None_eq set_rev)

lemma clean_unique: "clean d t j \<Longrightarrow> clean e t j' \<Longrightarrow> d \<le> max_depth \<Longrightarrow> e \<le> max_depth \<Longrightarrow> j = j'"
  by (metis clean_parse option.inject prod.inject)

text \<open>What the member of a field is: the encoding of the field.\<close>

lemma member_field:
  assumes "distinct (map f_name fs)" "f \<in> set fs" "distinct (map fst ms)" "\<forall>m \<in> set ms. member_of fs zero s d m"
    "field ms (f_name f) = Some (t, j)"
  shows "f_enc f s = Some t \<and> clean d t j"
proof -
  have "(f_name f, t, j) \<in> set ms" using assms(3,5) by (simp add: field_distinct)
  then have "member_of fs zero s d (f_name f, t, j)" using assms(4) by blast
  then obtain g where "g \<in> set fs" "f_name g = f_name f" "f_enc g s = Some t" "clean d t j"
    by (auto simp: member_of_def)
  moreover from this assms(1,2) have "g = f" by (metis distinct_map inj_onD)
  ultimately show ?thesis by simp
qed

text \<open>What a field writes of its fine values, and that it always writes them.\<close>

definition yields :: "nat \<Rightarrow> 's fld \<Rightarrow> (raw_json \<Rightarrow> bool) \<Rightarrow> bool" where
  "yields d f P \<longleftrightarrow> (\<forall>s. f_fine f s \<longrightarrow> (\<exists>t j. f_enc f s = Some t \<and> clean d t j \<and> P (t, j)))"

definition kept :: "'s fld \<Rightarrow> bool" where
  "kept f \<longleftrightarrow> (\<forall>s. \<not> f_omit f s)"

lemma check_yields:
  assumes "distinct (map f_name fs)" "list_ex (\<lambda>f. f_name f = k \<and> (kept f \<or> opt) \<and> yields d f P) fs" "d \<le> max_depth"
    and "\<And>ms x. field ms k = Some x \<Longrightarrow> P x \<Longrightarrow> ck ms = None" "\<And>ms. opt \<Longrightarrow> field ms k = None \<Longrightarrow> ck ms = None"
  shows "check_law d zero fs ck"
  unfolding check_law_def
proof (intro allI impI)
  fix s ms
  assume fine: "\<forall>f \<in> set fs. f_fine f s" and ms: "distinct (map fst ms)" "\<forall>m \<in> set ms. member_of fs zero s d m"
    and there: "\<forall>f \<in> set fs. \<not> f_omit f s \<longrightarrow> f_name f \<in> fst ` set ms"
  obtain f where f: "f \<in> set fs" "f_name f = k" "kept f \<or> opt" "yields d f P" using assms(2) by (auto simp: list_ex_iff)
  show "ck ms = None"
  proof (cases "field ms k")
    case None
    then have "f_name f \<notin> fst ` set ms" using field_present f(2) by fastforce
    with there f(1) have "f_omit f s" by blast
    then have "\<not> kept f" unfolding kept_def by blast
    then have opt using f(3) by blast
    then show ?thesis using None by (rule assms(5))
  next
    case (Some x)
    obtain t j where x: "x = (t, j)" by (cases x)
    have "f_enc f s = Some t" "clean d t j" using member_field [OF assms(1) f(1) ms] f(2) Some x by simp_all
    moreover obtain t' j' where "f_enc f s = Some t'" "clean d t' j'" "P (t', j')"
      using f(1,4) fine unfolding yields_def by blast
    moreover from calculation have "j' = j" using assms(3) clean_unique [of d t j' d j] by simp
    ultimately have "P x" using x by simp
    with Some assms(4) show ?thesis by blast
  qed
qed

definition solid_json :: "raw_json \<Rightarrow> bool" where
  "solid_json x \<longleftrightarrow> snd x \<noteq> JNull"

definition reads :: "'a codec \<Rightarrow> raw_json \<Rightarrow> bool" where
  "reads c x \<longleftrightarrow> snd x \<noteq> JNull \<and> (\<exists>v. c_dec c (c_zero c) x = Good v)"

lemma kept_field [simp]: "kept (go_field k oe c get upd) \<longleftrightarrow> \<not> oe \<or> (\<forall>s. \<not> c_empty c (get s))"
  by (auto simp: kept_def go_field_def)

lemma yields_wire:
  assumes "wire d b c" "\<And>t j v. b \<longrightarrow> j \<noteq> JNull \<Longrightarrow> c_dec c (c_zero c) (t, j) = Good v \<Longrightarrow> P (t, j)"
  shows "yields d (go_field k oe c get upd) P"
  unfolding yields_def
proof (intro allI impI)
  fix s assume "f_fine (go_field k oe c get upd) s"
  then have "c_fine c (get s)" by (simp add: go_field_def)
  with assms(1) obtain t j where "c_enc c (get s) = Some t" "clean d t j" "b \<longrightarrow> j \<noteq> JNull" "c_dec c (c_zero c) (t, j) = Good (get s)"
    by (rule wireE) blast
  with assms(2) show "\<exists>t j. f_enc (go_field k oe c get upd) s = Some t \<and> clean d t j \<and> P (t, j)"
    by (auto simp: go_field_def)
qed

lemma yields_field [simp]:
  "wire d False c \<Longrightarrow> yields d (go_field k oe c get upd) (\<lambda>x. True)"
  "wire d True c \<Longrightarrow> yields d (go_field k oe c get upd) solid_json"
  "wire d True c \<Longrightarrow> c_dec c' = c_dec c \<Longrightarrow> c_zero c' = c_zero c \<Longrightarrow> yields d (go_field k oe c get upd) (reads c')"
  by (auto intro: yields_wire simp: solid_json_def reads_def)

lemma check_required [simp]:
  assumes "distinct (map f_name fs)" "list_ex (\<lambda>f. f_name f = k \<and> kept f \<and> yields d f solid_json) fs" "d \<le> max_depth"
  shows "check_law d zero fs (required k)"
  by (rule check_yields [where k = k and opt = False and P = solid_json, OF assms(1) _ assms(3)]) (use assms in \<open>auto simp: required_def solid_json_def split: prod.split\<close>)

lemma check_present [simp]:
  assumes "distinct (map f_name fs)" "list_ex (\<lambda>f. f_name f = k \<and> kept f \<and> yields d f (\<lambda>x. True)) fs" "d \<le> max_depth"
  shows "check_law d zero fs (present k)"
  by (rule check_yields [where k = k and opt = False and P = "\<lambda>x. True", OF assms(1) _ assms(3)]) (use assms in \<open>auto simp: present_def\<close>)

lemma check_typed [simp]:
  assumes "distinct (map f_name fs)" "list_ex (\<lambda>f. f_name f = k \<and> kept f \<and> yields d f (reads c)) fs" "d \<le> max_depth"
  shows "check_law d zero fs (typed k c)"
  by (rule check_yields [where k = k and opt = False and P = "reads c", OF assms(1) _ assms(3)]) (use assms in \<open>auto simp: typed_def reads_def split: prod.split decoded.split\<close>)

text \<open>The discriminator of an encoded variant.\<close>

definition tagged :: "string \<Rightarrow> string \<Rightarrow> check" where
  "tagged k disc ms = (if field ms k = Some (quote disc, JStr disc) then None else Some BadType)"

lemma wire_tag: "utf8_valid disc \<Longrightarrow> wire 0 True (go_tag disc)"
  using wire_string by (auto simp: wire_def go_tag_def go_string_def)

lemma yields_tag [simp]:
  "utf8_valid disc \<Longrightarrow> yields d (go_field k oe (go_tag disc) get upd) (\<lambda>x. x = (quote disc, JStr disc))"
  using clean_mono [OF clean_quote, of disc d] by (auto simp: yields_def go_field_def go_tag_def go_string_def)

lemma check_tagged [simp]:
  assumes "distinct (map f_name fs)" "list_ex (\<lambda>f. f_name f = k \<and> kept f \<and> yields d f (\<lambda>x. x = (quote disc, JStr disc))) fs"
    "d \<le> max_depth"
  shows "check_law d zero fs (tagged k disc)"
  by (rule check_yields [where k = k and opt = False and P = "\<lambda>x. x = (quote disc, JStr disc)", OF assms(1) _ assms(3)]) (use assms in \<open>auto simp: tagged_def\<close>)

lemma first_bad_none:
  assumes "wire d True c" "list_all (c_fine c) vs" "enc_elements c vs = Some (map fst xs)" "\<forall>(t, j) \<in> set xs. clean d t j" "d \<le> max_depth"
  shows "first_bad c xs = None"
proof -
  from wire_elements [OF assms(1,2)] obtain ys where *: "enc_elements c vs = Some (map fst ys)"
    "\<forall>(t, j) \<in> set ys. clean d t j \<and> (True \<longrightarrow> j \<noteq> JNull)" "True \<longrightarrow> first_bad c ys = None" by blast
  then have ys: "map fst ys = map fst xs" "\<forall>(t, j) \<in> set ys. clean d t j" "first_bad c ys = None" using assms(3) by auto
  have "ys = xs"
  proof (rule nth_equalityI)
    show "length ys = length xs" using ys(1) by (metis length_map)
    fix i assume i: "i < length ys"
    then have "fst (ys ! i) = fst (xs ! i)" "ys ! i \<in> set ys" "xs ! i \<in> set xs"
      using ys(1) \<open>length ys = length xs\<close> by (metis nth_map, simp_all)
    then show "ys ! i = xs ! i"
      using ys(2) assms(4,5) clean_unique by (metis (no_types, lifting) case_prod_beta prod.collapse)
  qed
  with ys(3) show ?thesis by simp
qed

definition sound_items :: "'a codec \<Rightarrow> raw_json \<Rightarrow> bool" where
  "sound_items c x \<longleftrightarrow> (case snd x of JNull \<Rightarrow> None | JArr xs \<Rightarrow> first_bad c xs | _ \<Rightarrow> Some BadType) = None"

lemma yields_items [simp]:
  assumes "0 < d" "wire (d - 1) True c"
  shows "yields d (go_field k oe (go_slice c) get upd) (sound_items c)"
    and "yields d (go_field k oe (go_list c) get upd) (sound_items c)"
proof -
  have *: "\<exists>t j. c_enc (go_slice c) v = Some t \<and> clean d t j \<and> sound_items c (t, j)" if fine: "c_fine (go_slice c) v" for v
  proof (cases v)
    case None
    then show ?thesis using null_clean by (intro exI [of _ "''null''"] exI [of _ JNull]) (simp add: go_slice_def sound_items_def)
  next
    case (Some vs)
    then obtain xs where xs: "enc_elements c vs = Some (map fst xs)" "\<forall>(t, j) \<in> set xs. clean (d - 1) t j" "first_bad c xs = None"
      using wire_elements [OF assms(2), of vs] fine Some by (fastforce simp: go_slice_def)
    moreover have "clean d (array_text (map fst xs)) (JArr xs)" using clean_array [OF xs(2)] assms(1) by simp
    ultimately show ?thesis using Some by (intro exI [of _ "array_text (map fst xs)"] exI [of _ "JArr xs"])
      (simp add: go_slice_def sound_items_def)
  qed
  then show "yields d (go_field k oe (go_slice c) get upd) (sound_items c)"
    and "yields d (go_field k oe (go_list c) get upd) (sound_items c)"
    by (simp_all add: yields_def go_field_def go_list_def)
qed

lemma check_items [simp]:
  assumes "distinct (map f_name fs)" "list_ex (\<lambda>f. f_name f = k \<and> yields d f (sound_items c)) fs" "d \<le> max_depth"
  shows "check_law d zero fs (items k c)"
  by (rule check_yields [where k = k and opt = True and P = "sound_items c", OF assms(1) _ assms(3)]) (use assms in \<open>auto simp: items_def sound_items_def split: prod.splits\<close>)

definition fits :: "'a codec \<Rightarrow> raw_json \<Rightarrow> bool" where
  "fits c x \<longleftrightarrow> (\<exists>v. c_dec c (c_zero c) x = Good v)"

lemma check_listed [simp]:
  assumes "distinct (map f_name fs)" "list_ex (\<lambda>f. f_name f = k \<and> kept f \<and> yields d f (fits c)) fs" "d \<le> max_depth"
  shows "check_law d zero fs (listed k c)"
  by (rule check_yields [where k = k and opt = False and P = "fits c", OF assms(1) _ assms(3)])
    (use assms in \<open>auto simp: listed_def fits_def\<close>)

lemma yields_listed [simp]:
  "wire d False c \<Longrightarrow> c_dec c' = c_dec c \<Longrightarrow> c_zero c' = c_zero c \<Longrightarrow> yields d (go_field k oe c get upd) (fits c')"
  by (auto intro: yields_wire simp: fits_def)

definition null_or :: "'a codec \<Rightarrow> raw_json \<Rightarrow> bool" where
  "null_or c x \<longleftrightarrow> snd x = JNull \<or> (\<exists>v. c_dec c (c_zero c) x = Good v)"

lemma check_optional [simp]:
  assumes "distinct (map f_name fs)" "list_ex (\<lambda>f. f_name f = k \<and> yields d f (null_or c)) fs" "d \<le> max_depth"
  shows "check_law d zero fs (optional k c)"
  by (rule check_yields [where k = k and opt = True and P = "null_or c", OF assms(1) _ assms(3)])
    (use assms in \<open>auto simp: optional_def null_or_def split: prod.splits\<close>)

lemma yields_optional [simp]:
  "wire d True c \<Longrightarrow> yields d (go_field k oe (go_ptr c) get upd) (null_or c)"
  by (rule yields_wire [OF wire_ptr])
    (auto simp: null_or_def go_ptr_def split: if_splits elim: map_decoded.elims)

definition solid_text :: "raw_json \<Rightarrow> bool" where
  "solid_text x \<longleftrightarrow> (\<exists>t. snd x = JStr t \<and> t \<noteq> [])"

lemma wire_nonblank: "wire 0 True go_nonblank"
  using wire_string by (auto simp: wire_def go_nonblank_def go_string_def)

lemma yields_nonblank [simp]: "yields d (go_field k oe go_nonblank get upd) solid_text"
  unfolding yields_def
proof (intro allI impI)
  fix s assume "f_fine (go_field k oe go_nonblank get upd) s"
  then have "get s \<noteq> []" "utf8_valid (get s)" by (simp_all add: go_field_def go_nonblank_def)
  then show "\<exists>t j. f_enc (go_field k oe go_nonblank get upd) s = Some t \<and> clean d t j \<and> solid_text (t, j)"
    using clean_mono [OF clean_quote, of "get s" d]
    by (intro exI [of _ "quote (get s)"] exI [of _ "JStr (get s)"]) (simp add: go_field_def go_nonblank_def go_string_def solid_text_def)
qed

lemma check_nonblank [simp]:
  assumes "distinct (map f_name fs)" "list_ex (\<lambda>f. f_name f = k \<and> yields d f solid_text) fs" "d \<le> max_depth"
  shows "check_law d zero fs (nonblank k)"
  by (rule check_yields [where k = k and opt = True and P = solid_text, OF assms(1) _ assms(3)])
    (use assms in \<open>auto simp: nonblank_def solid_text_def go_string_def split: prod.splits\<close>)

section \<open>Lenient fields\<close>

lemma wire_lenient: "wire d s c \<Longrightarrow> wire d s (lenient c)"
  by (fastforce simp: wire_def lenient_def)

lemma sound_elements_all: "dec_elements c [] xs = Good vs \<Longrightarrow> sound_elements c xs = vs"
proof (induction xs arbitrary: vs)
  case (Cons x xs)
  then show ?case by (cases "c_dec c (c_zero c) x"; cases "dec_elements c [] xs") auto
qed simp

lemma wire_lenient_slice:
  assumes "wire d s c"
  shows "wire (Suc d) False (lenient_slice c)"
proof -
  have "\<exists>t j. c_enc (go_slice c) v = Some t \<and> clean (Suc d) t j \<and> c_dec (lenient_slice c) None (t, j) = Good v"
    if fine: "c_fine (go_slice c) v" for v
  proof (cases v)
    case None
    then show ?thesis using null_clean
      by (intro exI [of _ "''null''"] exI [of _ JNull]) (simp add: go_slice_def lenient_slice_def)
  next
    case (Some vs)
    then obtain xs where xs: "enc_elements c vs = Some (map fst xs)" "\<forall>(t, j) \<in> set xs. clean d t j" "dec_elements c [] xs = Good vs"
      using wire_elements [OF assms, of vs] fine Some by (fastforce simp: go_slice_def)
    with clean_array [OF xs(2)] sound_elements_all [OF xs(3)] Some show ?thesis
      by (intro exI [of _ "array_text (map fst xs)"] exI [of _ "JArr xs"]) (simp add: go_slice_def lenient_slice_def)
  qed
  then show ?thesis by (auto simp: wire_def lenient_slice_def go_slice_def)
qed

lemma wire_lenient_list: "wire d s c \<Longrightarrow> wire (Suc d) s' (lenient_list c)"
proof -
  assume w: "wire d s c"
  have "\<exists>t j. c_enc (lenient_list c) v = Some t \<and> clean (Suc d) t j \<and> j \<noteq> JNull \<and>
      c_dec (lenient_list c) (c_zero (lenient_list c)) (t, j) = Good v" if fine: "c_fine (lenient_list c) v" for v
  proof -
    from fine obtain vs where v: "v = Some vs" by (auto simp: lenient_list_def go_list_def)
    then obtain xs where xs: "enc_elements c vs = Some (map fst xs)" "\<forall>(t, j) \<in> set xs. clean d t j" "dec_elements c [] xs = Good vs"
      using wire_elements [OF w, of vs] fine by (fastforce simp: lenient_list_def go_list_def go_slice_def)
    with clean_array [OF xs(2)] sound_elements_all [OF xs(3)] v show ?thesis
      by (intro exI [of _ "array_text (map fst xs)"] exI [of _ "JArr xs"])
        (simp add: lenient_list_def lenient_slice_def go_slice_def)
  qed
  then show ?thesis unfolding wire_def by blast
qed

section \<open>What is done after the decoding\<close>

lemma post_lawI:
  assumes "distinct (map f_name fs)" "f \<in> set fs" "f_name f = k"
    and "\<And>s ms. f_fine f s \<Longrightarrow> f_omit f s \<Longrightarrow> field ms k = None \<Longrightarrow> p ms s = s"
    and "\<And>s ms t j. f_fine f s \<Longrightarrow> \<not> f_omit f s \<Longrightarrow> field ms k = Some (t, j) \<Longrightarrow> f_enc f s = Some t \<Longrightarrow> clean d t j \<Longrightarrow> p ms s = s"
  shows "post_law d zero fs p"
  unfolding post_law_def
proof (intro allI impI)
  fix s ms
  assume fine: "\<forall>f \<in> set fs. f_fine f s" and ms: "distinct (map fst ms)" "\<forall>m \<in> set ms. member_of fs zero s d m"
    and keys: "fst ` set ms = f_name ` {f \<in> set fs. \<not> f_omit f s}"
  show "p ms s = s"
  proof (cases "field ms k")
    case None
    then have "k \<notin> fst ` set ms" using field_present by fastforce
    then have "f_omit f s" using keys assms(2,3) by blast
    with None assms(2,4) fine show ?thesis by blast
  next
    case (Some x)
    obtain t j where x: "x = (t, j)" by (cases x)
    have "(k, x) \<in> set ms" using Some ms(1) by (simp add: field_distinct)
    then have "k \<in> fst ` set ms" by force
    then obtain g where g: "g \<in> set fs" "\<not> f_omit g s" "f_name g = k" using keys by auto
    then have "g = f" using assms(1-3) by (metis distinct_map inj_onD)
    moreover have "f_enc f s = Some t" "clean d t j"
      using member_field [OF assms(1,2) ms] assms(3) Some x by simp_all
    ultimately show ?thesis using assms(2,5) fine Some x g(2) by blast
  qed
qed

definition never_nil :: "('s \<Rightarrow> 'a list option) \<Rightarrow> 's fld \<Rightarrow> bool" where
  "never_nil get f \<longleftrightarrow> (\<forall>s. f_fine f s \<longrightarrow> get s \<noteq> None)"

lemma never_nil_list [simp]:
  "never_nil get (go_field k oe (go_list c) get upd)" "never_nil get (go_field k oe (lenient_list c) get upd)"
  by (simp_all add: never_nil_def go_field_def go_list_def lenient_list_def)

lemma enc_unmarshal [simp]: "c_enc (with_unmarshal u c) = c_enc c"
  by (simp add: with_unmarshal_def)

lemma fill_same:
  "c_fine (with_unmarshal u (go_struct zero fs)) v \<Longrightarrow> list_ex (never_nil get) fs \<Longrightarrow> made get upd ms v = v"
  by (auto simp: with_unmarshal_def go_struct_def never_nil_def made_def list_ex_iff)

lemma post_made [simp]: "list_ex (never_nil get) fs \<Longrightarrow> post_law d zero fs (made get upd)"
  by (auto simp: post_law_def made_def never_nil_def list_ex_iff)

text \<open>A default changes nothing: the member is there, or the default is the value it has when it is left out.\<close>

definition default_of :: "string \<Rightarrow> 'a codec \<Rightarrow> ('s \<Rightarrow> 'a) \<Rightarrow> 's fld \<Rightarrow> bool" where
  "default_of t c get f \<longleftrightarrow> (\<forall>s. f_fine f s \<longrightarrow> f_omit f s \<longrightarrow> unmarshal c (get s) t = Inr (get s))"

lemma post_defaulted [simp]:
  assumes "distinct (map f_name fs)" "list_ex (\<lambda>f. f_name f = k \<and> default_of t c get f \<and> yields d f solid_json) fs"
    "d \<le> max_depth" "\<And>s. upd (\<lambda>_. get s) s = s"
  shows "post_law d zero fs (defaulted k t c get upd)"
proof -
  obtain f where f: "f \<in> set fs" "f_name f = k" "default_of t c get f" "yields d f solid_json"
    using assms(2) by (auto simp: list_ex_iff)
  show ?thesis
  proof (rule post_lawI [OF assms(1) f(1,2)])
    fix s and ms :: raw_members assume "f_fine f s" "f_omit f s" "field ms k = None"
    with f(3) assms(4) show "defaulted k t c get upd ms s = s" by (simp add: defaulted_def default_of_def)
  next
    fix s r j and ms :: raw_members assume *: "f_fine f s" "field ms k = Some (r, j)" "f_enc f s = Some r" "clean d r j"
    with f(4) obtain t' j' where "f_enc f s = Some t'" "clean d t' j'" "j' \<noteq> JNull"
      by (auto simp: yields_def solid_json_def)
    with * assms(3) have "j \<noteq> JNull" using clean_unique [of d r j d j'] by simp
    with * show "defaulted k t c get upd ms s = s" by (simp add: defaulted_def)
  qed
qed

lemma default_kept [simp]: "(\<And>v. \<not> c_empty c v) \<Longrightarrow> default_of t c' get' (go_field k oe c get upd)"
  by (simp add: default_of_def go_field_def)

lemma default_always [simp]: "default_of t c' get' (go_field k False c get upd)"
  by (simp add: default_of_def go_field_def)

lemma default_false [simp]: "default_of ''false'' go_bool get (go_field k oe go_bool get upd)"
proof -
  have "unmarshal go_bool False ''false'' = Inr False" by code_simp
  then show ?thesis by (simp add: default_of_def go_field_def go_bool_def)
qed

section \<open>Fields with a flag\<close>

lemma go_patch_name [simp]: "f_name (go_patch name c get upd flag set_flag) = name"
  and go_patch_same [simp]: "f_same (go_patch name c get upd flag set_flag) s t \<longleftrightarrow> get s = get t \<and> flag s = flag t"
  and go_patch_enc: "f_enc (go_patch name c get upd flag set_flag) s = c_enc c (get s)"
  by (simp_all add: go_patch_def)

lemma go_patch_law [simp]:
  assumes "wire d False c" "\<And>s x b. get (set_flag (\<lambda>_. b) (upd (\<lambda>_. x) s)) = x" "\<And>s b. flag (set_flag (\<lambda>_. b) s) = b"
    "get zero = c_zero c" "c_zero c = None" "\<not> flag zero"
  shows "field_law d zero (go_patch name c get upd flag set_flag)"
proof -
  have "\<exists>t j. c_enc c (get s) = Some t \<and> clean d t j \<and>
      (\<forall>u. get u = get zero \<longrightarrow> (\<exists>u'. map_decoded (\<lambda>x. set_flag (\<lambda>_. True) (upd (\<lambda>_. x) u)) (c_dec c (get u) (t, j)) = Good u' \<and>
         get u' = get s \<and> flag u'))"
    if fine: "c_fine c (get s)" for s
  proof -
    from assms(1) fine obtain t j where "c_enc c (get s) = Some t" "clean d t j" "c_dec c (c_zero c) (t, j) = Good (get s)"
      by (rule wireE) blast
    with assms(2-4) show ?thesis by (intro exI [of _ t] exI [of _ j]) simp
  qed
  moreover have "equivp (\<lambda>s t. get s = get t \<and> flag s = flag t)" by (rule equivpI) (auto simp: reflp_def symp_def transp_def)
  ultimately show ?thesis using assms(4-6) by (fastforce simp: field_law_def restores_def go_patch_def)
qed

lemma leaves_patch [simp]:
  "(\<And>x u. get' (set_flag (\<lambda>_. True) (upd (\<lambda>_. x) u)) = get' u) \<Longrightarrow>
    leaves (go_patch name c get upd flag set_flag) (go_field name' oe' c' get' upd')"
  "(\<And>x u. get'' (upd' (\<lambda>_. x) u) = get'' u) \<Longrightarrow> (\<And>x u. flag' (upd' (\<lambda>_. x) u) = flag' u) \<Longrightarrow>
    leaves (go_field name' oe' c' get' upd') (go_patch name c'' get'' upd'' flag' set_flag')"
  "(\<And>x u. get'' (set_flag (\<lambda>_. True) (upd (\<lambda>_. x) u)) = get'' u) \<Longrightarrow>
   (\<And>x u. flag' (set_flag (\<lambda>_. True) (upd (\<lambda>_. x) u)) = flag' u) \<Longrightarrow>
    leaves (go_patch name c get upd flag set_flag) (go_patch name' c'' get'' upd'' flag' set_flag')"
  by (auto simp: leaves_def go_patch_def go_field_def elim: map_decoded.elims)

definition flagged :: "('s \<Rightarrow> bool) \<Rightarrow> 's fld \<Rightarrow> bool" where
  "flagged flag f \<longleftrightarrow> (\<forall>s. f_fine f s \<longrightarrow> f_omit f s = (\<not> flag s))"

lemma flagged_patch [simp]: "flagged flag (go_patch name c get upd flag set_flag)"
  by (auto simp: flagged_def go_patch_def)

lemma post_noted [simp]:
  assumes "distinct (map f_name fs)" "list_ex (\<lambda>f. f_name f = k \<and> flagged flag f) fs" "\<And>s. set_flag (\<lambda>_. flag s) s = s"
  shows "post_law d zero fs (noted k set_flag)"
proof -
  obtain f where f: "f \<in> set fs" "f_name f = k" "flagged flag f" using assms(2) by (auto simp: list_ex_iff)
  show ?thesis by (rule post_lawI [OF assms(1) f(1,2)])
    (use f(3) assms(3) in \<open>auto simp: flagged_def noted_def split: if_splits; metis (full_types)\<close>)+
qed

definition nulls :: "('s \<Rightarrow> 'a option) \<Rightarrow> 's fld \<Rightarrow> bool" where
  "nulls get f \<longleftrightarrow> (\<forall>s. get s = None \<longrightarrow> f_enc f s = Some ''null'')"

lemma post_noted_patch:
  assumes "distinct (map f_name fs)" "list_ex (\<lambda>f. f_name f = k \<and> flagged flag f \<and> nulls get f) fs" "\<And>s. set_flag (\<lambda>_. flag s) s = s"
    "d \<le> max_depth"
  shows "post_law d zero fs (noted_patch k get set_flag)"
proof -
  obtain f where f: "f \<in> set fs" "f_name f = k" and flag: "flagged flag f" and enc: "nulls get f"
    using assms(2) by (auto simp: list_ex_iff)
  show ?thesis
  proof (rule post_lawI [OF assms(1) f(1,2)])
    fix s and ms :: raw_members assume "f_fine f s" "f_omit f s" "field ms k = None"
    with flag have "flag s = False" by (simp add: flagged_def)
    then show "noted_patch k get set_flag ms s = s" using assms(3) [of s] \<open>field ms k = None\<close> by (simp add: noted_patch_def)
  next
    fix s r j and ms :: raw_members
    assume *: "f_fine f s" "\<not> f_omit f s" "field ms k = Some (r, j)" "f_enc f s = Some r" "clean d r j"
    with flag have "flag s = True" by (simp add: flagged_def)
    moreover have "get s \<noteq> None \<or> j = JNull"
    proof (cases "get s")
      case None
      then have "r = ''null''" using * enc by (simp add: nulls_def)
      then show ?thesis using clean_unique [OF *(5), of 0 JNull] null_clean assms(4) by simp
    qed simp
    ultimately show "noted_patch k get set_flag ms s = s" using assms(3) [of s] * by (simp add: noted_patch_def)
  qed
qed

lemma nulls_patch [simp]: "c_enc c None = Some ''null'' \<Longrightarrow> nulls get (go_patch k c get upd flag set_flag)"
  by (simp add: nulls_def go_patch_enc)

definition sound_entries :: "'a codec \<Rightarrow> raw_json \<Rightarrow> bool" where
  "sound_entries c x \<longleftrightarrow>
     (case snd x of JNull \<Rightarrow> None | JObj es \<Rightarrow> first_bad c (map snd (sorted_entries es)) | _ \<Rightarrow> Some BadType) = None"

lemma check_entries [simp]:
  assumes "distinct (map f_name fs)" "list_ex (\<lambda>f. f_name f = k \<and> yields d f (sound_entries c)) fs" "d \<le> max_depth"
  shows "check_law d zero fs (map_values k c)"
  by (rule check_yields [where k = k and opt = True and P = "sound_entries c", OF assms(1) _ assms(3)])
    (use assms in \<open>auto simp: map_values_def sound_entries_def split: prod.splits\<close>)

section \<open>Methods\<close>

lemma run_checks_none: "run_checks ks ms = None \<longleftrightarrow> (\<forall>k \<in> set ks. k ms = None)"
  by (induction ks) (auto split: option.split)

lemma obj_unmarshal:
  assumes "struct_law d zero fs" "d \<le> max_depth" "\<forall>k \<in> set cks. check_law d zero fs k" "\<forall>p \<in> set ps. post_law d zero fs p"
    and "set checks \<subseteq> set cks"
  shows "obj d (map f_name fs) cks (with_unmarshal (decode_struct checks (go_struct zero fs) (in_turn ps)) (go_struct zero fs))"
  unfolding obj_def
proof (intro allI impI)
  let ?c = "go_struct zero fs"
  let ?u = "decode_struct checks ?c (in_turn ps)"
  fix v assume "c_fine (with_unmarshal ?u ?c) v"
  then have "c_fine ?c v" by (simp add: with_unmarshal_def)
  from struct_members [OF assms(1-4) this] obtain ms where ms: "as_members d (map f_name fs) cks ?c v ms"
    and posts: "\<And>ms'. distinct (map fst ms') \<Longrightarrow> set ms' = set ms \<Longrightarrow> in_turn ps ms' v = v" by blast
  have "?u (r, JObj ms') = Good v" if "distinct (map fst ms')" "set ms' = set ms" for r ms'
  proof -
    have "run_checks checks ms' = None" using ms that assms(5) by (auto simp: as_members_def run_checks_none)
    moreover have "c_dec ?c (c_zero ?c) (r, JObj ms') = Good v" using ms that by (simp add: as_members_def)
    ultimately show ?thesis using posts [OF that] by (simp add: decode_struct_def members_of_def)
  qed
  with ms have "as_members d (map f_name fs) cks (with_unmarshal ?u ?c) v ms"
    by (simp add: as_members_def with_unmarshal_def)
  then show "\<exists>ms. as_members d (map f_name fs) cks (with_unmarshal ?u ?c) v ms" by blast
qed

lemma obj_marshal:
  assumes "obj d names cks c" "Suc d \<le> max_depth" "\<And>v. c_fine c v \<Longrightarrow> m v = c_enc c v"
  shows "obj d names cks (with_marshal m c)"
  unfolding obj_def
proof (intro allI impI)
  fix v assume "c_fine (with_marshal m c) v"
  then have fine: "c_fine c v" by (simp add: with_marshal_def)
  then obtain ms where ms: "as_members d names cks c v ms" using assms(1) by (auto simp: obj_def)
  then have "clean (Suc d) (object_text (map (\<lambda>(k, t, j). (k, t)) ms)) (JObj ms)"
    by (intro clean_object) (simp add: as_members_def)
  then have "compact (object_text (map (\<lambda>(k, t, j). (k, t)) ms)) = Some (object_text (map (\<lambda>(k, t, j). (k, t)) ms))"
    using assms(2) by (intro clean_compact)
  with ms fine assms(3) have "as_members d names cks (with_marshal m c) v ms" by (simp add: as_members_def with_marshal_def)
  then show "\<exists>ms. as_members d names cks (with_marshal m c) v ms" by blast
qed

section \<open>Unions\<close>

lemma place_entry_set: "set (place_entry e es) = insert e (set es)"
  by (induction es) auto

lemma place_entry_distinct: "fst e \<notin> fst ` set es \<Longrightarrow> distinct (map fst es) \<Longrightarrow> distinct (map fst (place_entry e es))"
  by (induction es) (auto simp: place_entry_set)

lemma insert_entry_set: "set (insert_entry k v es) = insert (k, v) {e \<in> set es. fst e \<noteq> k}"
  by (auto simp: insert_entry_def place_entry_set)

lemma insert_entry_distinct: "distinct (map fst es) \<Longrightarrow> distinct (map fst (insert_entry k v es))"
  unfolding insert_entry_def by (rule place_entry_distinct) (auto simp: distinct_map_filter)

lemma sorted_entries_facts:
  "distinct (map fst acc) \<Longrightarrow> distinct (map fst (fold (\<lambda>(k, v). insert_entry k v) ms acc)) \<and>
    (distinct (map fst ms) \<longrightarrow> fst ` set ms \<inter> fst ` set acc = {} \<longrightarrow>
       set (fold (\<lambda>(k, v). insert_entry k v) ms acc) = set ms \<union> set acc)"
proof (induction ms arbitrary: acc)
  case (Cons m ms)
  obtain k v where m: "m = (k, v)" by (cases m)
  have d: "distinct (map fst (insert_entry k v acc))" using Cons.prems by (rule insert_entry_distinct)
  show ?case
  proof (intro conjI impI)
    show "distinct (map fst (fold (\<lambda>(k, v). insert_entry k v) (m # ms) acc))" using Cons.IH [OF d] by (simp add: m)
    assume dm: "distinct (map fst (m # ms))" and disj: "fst ` set (m # ms) \<inter> fst ` set acc = {}"
    have set': "set (insert_entry k v acc) = insert (k, v) (set acc)"
      using disj m by (auto simp: insert_entry_set)
    then have "fst ` set ms \<inter> fst ` set (insert_entry k v acc) = {}" using dm disj m by auto
    then show "set (fold (\<lambda>(k, v). insert_entry k v) (m # ms) acc) = set (m # ms) \<union> set acc"
      using Cons.IH [OF d] dm set' by (auto simp: m)
  qed
qed simp

lemma sorted_entries_set: "distinct (map fst ms) \<Longrightarrow> set (sorted_entries ms) = set ms"
  using sorted_entries_facts [of "[]" ms] by (simp add: sorted_entries_def)

lemma sorted_entries_distinct: "distinct (map fst (sorted_entries ms))"
  using sorted_entries_facts [of "[]" ms] by (simp add: sorted_entries_def)

lemma sorted_entries_again:
  assumes "distinct (map fst ms)" "(k, v) \<in> set ms"
  shows "set (sorted_entries (ms @ [(k, v)])) = set ms"
proof -
  have "sorted_entries (ms @ [(k, v)]) = insert_entry k v (sorted_entries ms)" by (simp add: sorted_entries_def)
  then have "set (sorted_entries (ms @ [(k, v)])) = insert (k, v) {e \<in> set ms. fst e \<noteq> k}"
    by (simp add: insert_entry_set sorted_entries_set [OF assms(1)])
  also have "\<dots> = set ms"
    using assms by (auto dest: eq_key_imp_eq_value)
  finally show ?thesis .
qed

definition variant_members :: "nat \<Rightarrow> string \<Rightarrow> string list \<Rightarrow> 'u variant \<Rightarrow> 'u \<Rightarrow> (string \<times> raw_json) list \<Rightarrow> bool" where
  "variant_members d key names v u ms \<longleftrightarrow>
     v_enc v u = Some (Some (object_text (map (\<lambda>(k, t, j). (k, t)) ms))) \<and> distinct (map fst ms) \<and>
     fst ` set ms \<subseteq> set names \<and> (\<forall>(k, t, j) \<in> set ms. utf8_valid k \<and> clean d t j) \<and>
     (\<forall>ms' r. distinct (map fst ms') \<longrightarrow> set ms' = set ms \<longrightarrow>
        run_checks (v_checks v) ms' = None \<and> v_dec v (r, JObj ms') = Good u \<and>
        (case v_disc v of Some disc \<Rightarrow> tagged key disc ms' = None | None \<Rightarrow> key \<notin> set names))"

definition variant_law :: "nat \<Rightarrow> string \<Rightarrow> string list \<Rightarrow> 'u variant \<Rightarrow> bool" where
  "variant_law d key names v \<longleftrightarrow> (\<forall>u. v_fine v u \<longrightarrow> (\<exists>ms. variant_members d key names v u ms))"

lemma go_variant_law:
  assumes "obj d names cks c" "set checks \<subseteq> set cks"
    "case disc of Some x \<Rightarrow> tagged key x \<in> set cks | None \<Rightarrow> key \<notin> set names"
  shows "variant_law d key names (go_variant disc checks c get inject)"
  unfolding variant_law_def
proof (intro allI impI)
  fix u assume "v_fine (go_variant disc checks c get inject) u"
  then obtain x where x: "get u = Some x" "c_fine c x" "u = inject x" by (auto simp: go_variant_def split: option.splits)
  with assms(1) obtain ms where "as_members d names cks c x ms" by (auto simp: obj_def)
  then have "variant_members d key names (go_variant disc checks c get inject) u ms"
    using x assms(2,3) unfolding variant_members_def as_members_def
    by (auto simp: go_variant_def run_checks_none split: option.splits)
  then show "\<exists>ms. variant_members d key names (go_variant disc checks c get inject) u ms" by blast
qed

lemma marshal_skip:
  "\<forall>w \<in> set ws. v_enc w u = None \<Longrightarrow> v_enc v u = Some (Some t) \<Longrightarrow>
    marshal_union key (ws @ v # xs) u = tag_object key (v_disc v) t"
  by (induction ws) auto

lemma raw_entries:
  "\<forall>(k, t) \<in> set es. marshal_raw t = Some t \<Longrightarrow> enc_entries go_raw es = Some es"
  by (induction es) (auto simp: go_raw_def)

lemma tag_object_members:
  assumes "distinct (map fst ms)" "\<forall>(k, t, j) \<in> set ms. utf8_valid k \<and> clean d t j" "Suc d \<le> max_depth"
    "case disc of Some x \<Rightarrow> (key, quote x, JStr x) \<in> set ms | None \<Rightarrow> True"
  shows "\<exists>ms'. tag_object key disc (object_text (map (\<lambda>(k, t, j). (k, t)) ms)) = Some (object_text (map (\<lambda>(k, t, j). (k, t)) ms')) \<and>
    distinct (map fst ms') \<and> set ms' = set ms"
proof -
  let ?es = "map (\<lambda>(k, t, j). (k, t)) ms"
  let ?tag = "case disc of None \<Rightarrow> [] | Some d \<Rightarrow> [(key, quote d)]"
  have "map fst ?es = map fst ms" by (simp add: case_prod_beta comp_def)
  then have des: "distinct (map fst ?es)" using assms(1) by (simp only:)
  have "parse_json (object_text ?es) = Some (object_text ?es, JObj ms)"
    using clean_object [OF assms(2)] assms(3) by (rule clean_parse)
  then have read: "unmarshal_map (object_text ?es) = Some (True, ?es)"
    by (simp add: unmarshal_map_def case_prod_beta)
  have same: "set (sorted_entries (?es @ ?tag)) = set ?es"
  proof (cases disc)
    case None
    then show ?thesis using sorted_entries_set [OF des] by simp
  next
    case (Some x)
    then have "(key, quote x) \<in> set ?es" using assms(4) by force
    with Some show ?thesis using sorted_entries_again [OF des] by simp
  qed
  let ?S = "sorted_entries (?es @ ?tag)"
  have dist: "distinct (map fst ?S)" by (rule sorted_entries_distinct)
  define value_of where "value_of k = the (map_of ms k)" for k
  have val: "value_of k = (t, j)" if "(k, t, j) \<in> set ms" for k t j
    using that assms(1) by (simp add: value_of_def)
  define ms' where "ms' = map (\<lambda>(k, t). (k, value_of k)) ?S"
  have S: "(k, t) \<in> set ?S \<longleftrightarrow> (\<exists>j. (k, t, j) \<in> set ms)" for k t using same by force
  have "map fst ms' = map fst ?S" by (simp add: ms'_def comp_def case_prod_beta)
  with dist have "distinct (map fst ms')" by simp
  moreover have "set ms' = set ms"
  proof (rule set_eqI)
    fix x :: "string \<times> raw_json"
    obtain k t j where x: "x = (k, t, j)" by (cases x)
    have "x \<in> set ms' \<longleftrightarrow> (\<exists>t'. (k, t') \<in> set ?S \<and> (t, j) = value_of k)" by (force simp: ms'_def x)
    also have "\<dots> \<longleftrightarrow> x \<in> set ms" using S val unfolding x by (metis)
    finally show "x \<in> set ms' \<longleftrightarrow> x \<in> set ms" .
  qed
  moreover have "map (\<lambda>(k, t, j). (k, t)) ms' = ?S"
  proof -
    have same_text: "(\<lambda>(k, t, j). (k, t)) ((\<lambda>(k, t). (k, value_of k)) e) = e" if "e \<in> set ?S" for e
    proof -
      obtain k t where e: "e = (k, t)" by (cases e)
      with that have "(k, t) \<in> set ?S" by (simp only:)
      then have "\<exists>j. (k, t, j) \<in> set ms" by (rule S [THEN iffD1])
      then obtain j where "(k, t, j) \<in> set ms" ..
      then have "value_of k = (t, j)" by (rule val)
      then show ?thesis by (simp add: e)
    qed
    show ?thesis unfolding ms'_def map_map comp_def by (intro map_idI same_text)
  qed
  moreover have "enc_entries go_raw ?S = Some ?S"
    using assms(2,3) S clean_marshal_raw by (intro raw_entries) fastforce
  ultimately show ?thesis by (intro exI [of _ ms']) (simp add: tag_object_def read)
qed

text \<open>A check that fails when a key is missing.\<close>

definition needs :: "string \<Rightarrow> check \<Rightarrow> bool" where
  "needs k ck \<longleftrightarrow> (\<forall>ms. field ms k = None \<longrightarrow> ck ms \<noteq> None)"

lemma typed_needs: "needs k (typed k c)"
  by (simp add: needs_def typed_def)

text \<open>
  The laws of a union, in the order of its variants: a value of one has no payload for those before
  it, and a variant without discriminator lacks a key that each such variant before it needs.
\<close>

definition rivals :: "string list \<times> 'u variant \<Rightarrow> string list \<times> 'u variant \<Rightarrow> bool" where
  "rivals m n \<longleftrightarrow>
     (\<forall>u. v_fine (snd n) u \<longrightarrow> v_enc (snd m) u = None) \<and>
     (v_disc (snd m) \<noteq> None \<longrightarrow> v_disc (snd m) \<noteq> v_disc (snd n)) \<and>
     (v_disc (snd m) = None \<longrightarrow> v_disc (snd n) = None \<longrightarrow>
        (\<exists>k. k \<notin> set (fst n) \<and> (\<exists>ck \<in> set (v_checks (snd m)). needs k ck)))"

definition union_law :: "nat \<Rightarrow> string \<Rightarrow> (string list \<times> 'u variant) list \<Rightarrow> bool" where
  "union_law d key nvs \<longleftrightarrow>
     (\<forall>(n, v) \<in> set nvs. variant_law d key n v \<and> v_disc v \<noteq> Some []) \<and> sorted_wrt rivals nvs"

lemma decode_disc:
  assumes "\<forall>w \<in> set ws. v_disc w \<noteq> Some disc" "v_disc v = Some disc"
    "tagged key disc ms = None" "run_checks (v_checks v) ms = None" "v_dec v (r, JObj ms) = Good u"
  shows "unmarshal_union key (ws @ v # xs) (r, JObj ms) = Good u"
proof -
  have "discriminator key ms = disc" using assms(3) by (simp add: tagged_def discriminator_def split: if_splits)
  moreover have "find (\<lambda>v. v_disc v = Some disc) (ws @ v # xs) = Some v"
    using assms(1,2) by (induction ws) auto
  ultimately show ?thesis using assms(4,5) by (simp add: unmarshal_union_def members_of_def decode_variant_def)
qed

lemma decode_plain:
  assumes "\<forall>w \<in> set ws. v_disc w = None \<longrightarrow> run_checks (v_checks w) ms \<noteq> None" "v_disc v = None"
    "\<forall>w \<in> set (ws @ v # xs). v_disc w \<noteq> Some []" "field ms key = None"
    "run_checks (v_checks v) ms = None" "v_dec v (r, JObj ms) = Good u"
  shows "unmarshal_union key (ws @ v # xs) (r, JObj ms) = Good u"
proof -
  have "discriminator key ms = []" using assms(4) by (simp add: discriminator_def)
  moreover have "find (\<lambda>v. v_disc v = Some []) (ws @ v # xs) = None" using assms(3) by (auto simp: find_None_iff)
  moreover have "find (\<lambda>v. v_disc v = None \<and> run_checks (v_checks v) ms = None) (ws @ v # xs) = Some v"
    using assms(1,2,5) by (induction ws) auto
  ultimately show ?thesis using assms(6) by (simp add: unmarshal_union_def members_of_def decode_variant_def)
qed

lemma decode_chosen:
  assumes law: "union_law d key (ws @ (n, v) # xs)"
    and vm: "variant_members d key n v u ms" and perm: "distinct (map fst ms')" "set ms' = set ms"
  shows "unmarshal_union key (map snd (ws @ (n, v) # xs)) (r, JObj ms') = Good u"
proof -
  have checked: "run_checks (v_checks v) ms' = None" "v_dec v (r, JObj ms') = Good u"
    and disc: "case v_disc v of Some disc \<Rightarrow> tagged key disc ms' = None | None \<Rightarrow> key \<notin> set n"
    using vm perm by (auto simp: variant_members_def)
  have before: "rivals w (n, v)" if "w \<in> set ws" for w
    using law that by (auto simp: union_law_def sorted_wrt_append)
  show ?thesis
  proof (cases "v_disc v")
    case (Some d')
    then have "\<forall>w \<in> set (map snd ws). v_disc w \<noteq> Some d'" using before by (auto simp: rivals_def)
    then show ?thesis using decode_disc [of "map snd ws" d' v key ms' r u "map snd xs"] Some disc checked by simp
  next
    case None
    have keys: "fst ` set ms' \<subseteq> set n" using vm perm(2) by (simp add: variant_members_def)
    have missing: "field ms' k = None" if "k \<notin> set n" for k
      using keys that by (auto simp: field_def map_of_eq_None_iff)
    have "run_checks (v_checks w) ms' \<noteq> None" if w: "w \<in> set (map snd ws)" "v_disc w = None" for w
    proof -
      obtain m where "(m, w) \<in> set ws" using w(1) by auto
      from before [OF this] w(2) None obtain k ck where "k \<notin> set n" "ck \<in> set (v_checks w)" "needs k ck"
        by (auto simp: rivals_def)
      then have "ck ms' \<noteq> None" using missing by (simp add: needs_def)
      with \<open>ck \<in> set (v_checks w)\<close> show ?thesis by (auto simp: run_checks_none)
    qed
    moreover have "\<forall>w \<in> set (map snd ws @ v # map snd xs). v_disc w \<noteq> Some []"
      using law by (auto simp: union_law_def)
    moreover have "field ms' key = None" using disc None missing by simp
    ultimately show ?thesis
      using decode_plain [of "map snd ws" ms' v "map snd xs" key r u] None checked by simp
  qed
qed

lemma wire_union:
  assumes law: "union_law d key nvs" and "Suc d \<le> max_depth"
  shows "wire (Suc d) True (go_union zero (unmarshal_union key (map snd nvs)) (marshal_union key (map snd nvs)) (map snd nvs))"
  unfolding wire_def
proof (intro allI impI)
  fix u assume "c_fine (go_union zero (unmarshal_union key (map snd nvs)) (marshal_union key (map snd nvs)) (map snd nvs)) u"
  then obtain n v where nv: "(n, v) \<in> set nvs" "v_fine v u" by (auto simp: go_union_def)
  then obtain ws xs where split: "nvs = ws @ (n, v) # xs" by (meson split_list)
  have "variant_law d key n v" using law nv(1) by (auto simp: union_law_def)
  with nv(2) obtain ms where vm: "variant_members d key n v u ms" by (auto simp: variant_law_def)
  have "rivals w (n, v)" if "w \<in> set ws" for w
    using law that by (auto simp: union_law_def split sorted_wrt_append)
  then have skip: "\<forall>w \<in> set (map snd ws). v_enc w u = None" using nv(2) by (auto simp: rivals_def)
  let ?t = "object_text (map (\<lambda>(k, t, j). (k, t)) ms)"
  have "case v_disc v of Some x \<Rightarrow> (key, quote x, JStr x) \<in> set ms | None \<Rightarrow> True"
  proof (cases "v_disc v")
    case (Some x)
    then have "tagged key x ms = None" using vm by (auto simp: variant_members_def)
    then have "field ms key = Some (quote x, JStr x)" by (simp add: tagged_def split: if_splits)
    then show ?thesis using vm Some by (simp add: field_distinct variant_members_def)
  qed simp
  with vm assms(2) obtain ms' where ms': "tag_object key (v_disc v) ?t = Some (object_text (map (\<lambda>(k, t, j). (k, t)) ms'))"
    "distinct (map fst ms')" "set ms' = set ms"
    using tag_object_members [where ms = ms and d = d and disc = "v_disc v" and key = key] by (auto simp: variant_members_def)
  let ?t' = "object_text (map (\<lambda>(k, t, j). (k, t)) ms')"
  have "marshal_union key (map snd nvs) u = Some ?t'"
    using marshal_skip [OF skip, of v ?t key "map snd xs"] vm ms'(1) by (simp add: split variant_members_def)
  moreover have c: "clean (Suc d) ?t' (JObj ms')"
    using vm ms'(3) by (intro clean_object) (simp add: variant_members_def)
  moreover have "compact ?t' = Some ?t'" using c assms(2) by (rule clean_compact)
  moreover have "unmarshal_union key (map snd nvs) (?t', JObj ms') = Good u"
    using decode_chosen [of d key ws n v xs u ms ms' ?t'] law vm ms'(2,3) by (simp add: split)
  ultimately show "\<exists>t j. c_enc (go_union zero (unmarshal_union key (map snd nvs)) (marshal_union key (map snd nvs)) (map snd nvs)) u = Some t \<and> clean (Suc d) t j \<and> (True \<longrightarrow> j \<noteq> JNull) \<and>
      c_dec (go_union zero (unmarshal_union key (map snd nvs)) (marshal_union key (map snd nvs)) (map snd nvs)) (c_zero (go_union zero (unmarshal_union key (map snd nvs)) (marshal_union key (map snd nvs)) (map snd nvs))) (t, j) = Good u"
    by (intro exI [of _ ?t'] exI [of _ "JObj ms'"]) (simp add: go_union_def)
qed

end
