(* ===== verification/GoAny.thy ===== *)
theory GoAny
  imports CodecFacts
begin

text \<open>
  Numbers of type \<open>float64\<close> and values of type \<open>any\<close>. A \<open>float64\<close> is represented by the literal that
  \<open>encoding/json\<close> prints for it: the shortest decimal that rounds to it, with an exponent outside
  of \<open>1e-6\<close> to \<open>1e21\<close>. Reading a literal rounds to the nearest double, ties to even.
\<close>

section \<open>Doubles\<close>

fun bit_length :: "nat \<Rightarrow> nat" where
  "bit_length n = (if n = 0 then 0 else Suc (bit_length (n div 2)))"

declare bit_length.simps [simp del]

definition round_even :: "nat \<Rightarrow> nat \<Rightarrow> nat" where
  "round_even n d =
     (let q = n div d; r = n mod d
      in if 2 * r < d then q else if d < 2 * r then q + 1 else if even q then q else q + 1)"

text \<open>\<open>n / d\<close> divided by a power, as a fraction.\<close>

definition scaled :: "nat \<Rightarrow> int \<Rightarrow> nat \<times> nat \<Rightarrow> nat \<times> nat" where
  "scaled b e x = (case x of (n, d) \<Rightarrow> if 0 \<le> e then (n, d * b ^ nat e) else (n * b ^ nat (- e), d))"

text \<open>The double nearest to \<open>m * 10 ^ e\<close>, as a mantissa and a power of two.\<close>

definition to_double :: "nat \<Rightarrow> int \<Rightarrow> (nat \<times> int) option" where
  "to_double m e10 =
     (if m = 0 then Some (0, - 1074)
      else
        (let x = scaled 10 (- e10) (m, 1);
             e0 = max (int (bit_length (fst x)) - int (bit_length (snd x)) - 53) (- 1074);
             y = scaled 2 (e0 + 53) x;
             e = (if snd y \<le> fst y then e0 + 1 else e0);
             z = scaled 2 e x;
             q = round_even (fst z) (snd z);
             (q', e') = (if q = 2 ^ 53 then (2 ^ 52, e + 1) else (q, e))
         in if 971 < e' then None else Some (q', e')))"

text \<open>The decimal exponent of the leading digit of a positive fraction.\<close>

definition leading :: "nat \<times> nat \<Rightarrow> int" where
  "leading x =
     (case x of (n, d) \<Rightarrow>
        if d \<le> n then int (length (show_nat (n div d))) - 1
        else - int (length (show_nat ((d + n - 1) div n - 1))))"

fun strip_zeros :: "nat \<Rightarrow> nat \<Rightarrow> int \<Rightarrow> nat \<times> int" where
  "strip_zeros 0 m e = (m, e)"
| "strip_zeros (Suc k) m e = (if m \<noteq> 0 \<and> m mod 10 = 0 then strip_zeros k (m div 10) (e + 1) else (m, e))"

text \<open>The decimals with \<open>p\<close> digits next to a double, the nearest first, that round to it.\<close>

definition float_candidates :: "nat \<times> int \<Rightarrow> nat \<Rightarrow> (nat \<times> int) list" where
  "float_candidates f p =
     (let x = scaled 2 (- snd f) (fst f, 1);
          k = leading x - int p + 1;
          y = scaled 10 k x;
          lo = fst y div snd y;
          near = round_even (fst y) (snd y)
      in filter (\<lambda>c. to_double (fst c) (snd c) = Some f)
           (if near = lo then [(lo, k), (lo + 1, k)] else [(lo + 1, k), (lo, k)]))"

fun first_short :: "nat \<times> int \<Rightarrow> nat list \<Rightarrow> (nat \<times> int) option" where
  "first_short f [] = None"
| "first_short f (p # ps) =
     (case float_candidates f p of [] \<Rightarrow> first_short f ps | (m, e) # _ \<Rightarrow> Some (strip_zeros 20 m e))"

definition shortest :: "nat \<times> int \<Rightarrow> (nat \<times> int) option" where
  "shortest f = (if fst f = 0 then Some (0, 0) else first_short f [1..<18])"

definition print_decimal :: "nat \<Rightarrow> int \<Rightarrow> string" where
  "print_decimal m e =
     (let ds = show_nat m; n = int (length ds); k = n - 1 + e
      in if m = 0 then ''0''
         else if - 6 \<le> k \<and> k < 21 then
           (if 0 \<le> e then ds @ replicate (nat e) CHR ''0''
            else if 0 \<le> k then take (nat (k + 1)) ds @ ''.'' @ drop (nat (k + 1)) ds
            else ''0.'' @ replicate (nat (- k - 1)) CHR ''0'' @ ds)
         else take 1 ds @ (if drop 1 ds = [] then [] else ''.'' @ drop 1 ds)
              @ (if k < 0 then ''e-'' @ show_nat (nat (- k)) else ''e+'' @ show_nat (nat k)))"

text \<open>A literal of JSON: sign, digits and exponent.\<close>

definition split_literal :: "string \<Rightarrow> bool \<times> nat \<times> int" where
  "split_literal s =
     (let (neg, r) = (case s of CHR ''-'' # r \<Rightarrow> (True, r) | _ \<Rightarrow> (False, s));
          mant = takeWhile (\<lambda>c. c \<noteq> CHR ''e'' \<and> c \<noteq> CHR ''E'') r;
          ex = drop (length mant + 1) r;
          ip = takeWhile (\<lambda>c. c \<noteq> CHR ''.'') mant;
          fp = drop (length ip + 1) mant;
          e = (case ex of CHR ''-'' # ds \<Rightarrow> - int (nat_of_digits ds)
                 | CHR ''+'' # ds \<Rightarrow> int (nat_of_digits ds)
                 | ds \<Rightarrow> int (nat_of_digits ds))
      in (neg, nat_of_digits (ip @ fp), e - int (length fp)))"

text \<open>What reading a literal and printing the double gives; \<open>None\<close> when it is out of range.\<close>

definition canon_float :: "string \<Rightarrow> string option" where
  "canon_float s =
     (case split_literal s of (neg, m, e) \<Rightarrow>
        (case to_double m e of
           None \<Rightarrow> None
         | Some f \<Rightarrow>
             (case shortest f of
                None \<Rightarrow> None
              | Some (m', e') \<Rightarrow> Some ((if neg then ''-'' else []) @ print_decimal m' e'))))"

definition float_text :: "string \<Rightarrow> bool" where
  "float_text l \<longleftrightarrow> canon_float l = Some l \<and> tokens l = Some [TNum l]"

definition go_float64 :: "string codec" where
  "go_float64 =
     \<lparr>c_zero = ''0'',
      c_dec = (\<lambda>cur (r, v). case v of
          JNum n \<Rightarrow> (case canon_float n of Some l \<Rightarrow> Good l | None \<Rightarrow> Soft BadType)
        | JNull \<Rightarrow> Good cur
        | _ \<Rightarrow> Soft BadType),
      c_enc = Some, c_empty = (\<lambda>l. l = ''0'' \<or> l = ''-0''), c_fine = float_text\<rparr>"

lemma wire_float64: "wire 0 True go_float64"
  by (auto simp: wire_def go_float64_def float_text_def tokens_def intro!: exI [of _ "JNum _"] clean_num)

section \<open>Values of type any\<close>

datatype any_value =
    ANil
  | ABool bool
  | ANum string
  | AStr string
  | AList "any_value list"
  | AMap "(string \<times> any_value) list"

fun all_some :: "'a option list \<Rightarrow> 'a list option" where
  "all_some [] = Some []"
| "all_some (x # xs) = (case x of None \<Rightarrow> None | Some v \<Rightarrow> map_option ((#) v) (all_some xs))"

fun any_of :: "json \<Rightarrow> any_value option" where
  "any_of JNull = Some ANil"
| "any_of (JBool b) = Some (ABool b)"
| "any_of (JNum n) = map_option ANum (canon_float n)"
| "any_of (JStr s) = Some (AStr s)"
| "any_of (JArr xs) = map_option AList (all_some (map (\<lambda>(r, v). any_of v) xs))"
| "any_of (JObj ms) = map_option (\<lambda>es. AMap (sorted_entries es))
     (all_some (map (\<lambda>(k, r, v). map_option (Pair k) (any_of v)) ms))"

fun enc_any :: "any_value \<Rightarrow> string" where
  "enc_any ANil = ''null''"
| "enc_any (ABool b) = (if b then ''true'' else ''false'')"
| "enc_any (ANum l) = l"
| "enc_any (AStr s) = quote s"
| "enc_any (AList xs) = array_text (map enc_any xs)"
| "enc_any (AMap es) = object_text (map (\<lambda>(k, v). (k, enc_any v)) es)"

fun any_depth :: "any_value \<Rightarrow> nat" where
  "any_depth (AList xs) = Suc (fold max (map any_depth xs) 0)"
| "any_depth (AMap es) = Suc (fold max (map (\<lambda>(k, v). any_depth v) es) 0)"
| "any_depth v = 0"

fun any_fine :: "any_value \<Rightarrow> bool" where
  "any_fine (ANum l) = float_text l"
| "any_fine (AStr s) = utf8_valid s"
| "any_fine (AList xs) = list_all any_fine xs"
| "any_fine (AMap es) = (sorted_entries es = es \<and> list_all (\<lambda>(k, v). utf8_valid k \<and> any_fine v) es)"
| "any_fine v = True"

definition go_any :: "any_value codec" where
  "go_any =
     \<lparr>c_zero = ANil,
      c_dec = (\<lambda>cur (r, v). case any_of v of Some x \<Rightarrow> Good x | None \<Rightarrow> Soft BadType),
      c_enc = (\<lambda>v. Some (enc_any v)), c_empty = (\<lambda>v. v = ANil),
      c_fine = (\<lambda>v. any_fine v \<and> any_depth v \<le> raw_depth)\<rparr>"

fun any_json :: "any_value \<Rightarrow> json" where
  "any_json ANil = JNull"
| "any_json (ABool b) = JBool b"
| "any_json (ANum l) = JNum l"
| "any_json (AStr s) = JStr s"
| "any_json (AList xs) = JArr (map (\<lambda>v. (enc_any v, any_json v)) xs)"
| "any_json (AMap es) = JObj (map (\<lambda>(k, v). (k, enc_any v, any_json v)) es)"

lemma fold_max: "x \<in> set xs \<Longrightarrow> x \<le> fold max xs (b :: nat)" "b \<le> fold max xs b"
proof (induction xs arbitrary: b)
  case (Cons y ys)
  { case 1
    have "max y b \<le> fold max ys (max y b)" by (rule Cons)
    with Cons(1) [of "max y b"] 1 show ?case by auto }
  { case 2
    have "max y b \<le> fold max ys (max y b)" by (rule Cons)
    then show ?case by simp }
qed simp_all

lemma all_some_map: "\<forall>x \<in> set xs. f x = Some (g x) \<Longrightarrow> all_some (map f xs) = Some (map g xs)"
  by (induction xs) auto

lemma any_clean: "any_fine v \<Longrightarrow> clean (any_depth v) (enc_any v) (any_json v) \<and> any_of (any_json v) = Some v"
proof (induction v)
  case (AList xs)
  have each: "clean (any_depth v) (enc_any v) (any_json v)" "any_of (any_json v) = Some v" if "v \<in> set xs" for v
    using AList that by (auto simp: list_all_iff)
  have "\<forall>(t, j) \<in> set (map (\<lambda>v. (enc_any v, any_json v)) xs). clean (fold max (map any_depth xs) 0) t j"
    using clean_mono [OF each(1) fold_max(1)] by auto
  from clean_array [OF this] have "clean (any_depth (AList xs)) (enc_any (AList xs)) (any_json (AList xs))"
    by (simp add: comp_def)
  moreover have "all_some (map (\<lambda>v. any_of (any_json v)) xs) = Some (map id xs)"
    using each(2) by (intro all_some_map) simp
  ultimately show ?case by (simp add: comp_def)
next
  case (AMap es)
  have each: "clean (any_depth v) (enc_any v) (any_json v)" "any_of (any_json v) = Some v" "utf8_valid k" if "(k, v) \<in> set es" for k v
    using AMap that by (force simp: list_all_iff)+
  have "\<forall>(k, t, j) \<in> set (map (\<lambda>(k, v). (k, enc_any v, any_json v)) es).
      utf8_valid k \<and> clean (fold max (map (\<lambda>(k, v). any_depth v) es) 0) t j"
    using each(1,3) by (fastforce intro: clean_mono fold_max(1))
  from clean_object [OF this] have "clean (any_depth (AMap es)) (enc_any (AMap es)) (any_json (AMap es))"
    by (simp add: comp_def case_prod_unfold)
  moreover have "all_some (map (\<lambda>e. map_option (Pair (fst e)) (any_of (any_json (snd e)))) es) = Some (map id es)"
    using each(2) by (intro all_some_map) auto
  moreover have "sorted_entries es = es" using AMap.prems by simp
  ultimately show ?case by (simp add: comp_def case_prod_unfold)
qed (auto simp: clean_null clean_true clean_false clean_quote float_text_def tokens_def intro: clean_num)

lemma wire_any: "wire raw_depth False go_any"
  unfolding wire_def
proof (intro allI impI)
  fix v assume "c_fine go_any v"
  then have "any_fine v" "any_depth v \<le> raw_depth" by (simp_all add: go_any_def)
  then show "\<exists>t j. c_enc go_any v = Some t \<and> clean raw_depth t j \<and> (False \<longrightarrow> j \<noteq> JNull) \<and> c_dec go_any (c_zero go_any) (t, j) = Good v"
    using any_clean [of v]
    by (intro exI [of _ "enc_any v"] exI [of _ "any_json v"]) (auto simp: go_any_def intro: clean_mono)
qed

section \<open>The laws as rules\<close>

text \<open>One value of the depth serves for all types: each level of nesting takes one off.\<close>

lemma wire_rules [simp]:
  "wire D s go_string" "wire D s go_bool" "wire D s (go_integer lo hi)" "wire D s go_float64"
  "utf8_valid disc \<Longrightarrow> wire D s (go_tag disc)"
  by (rule wire_mono [OF wire_string] wire_mono [OF wire_bool] wire_mono [OF wire_integer] wire_mono [OF wire_float64]
      wire_mono [OF wire_tag]; simp)+

lemma wire_sized [simp]:
  "wire D s go_uint16" "wire D s go_int32" "wire D s go_uint32" "wire D s go_int64" "wire D s go_uint64"
  by (simp_all add: go_uint16_def go_int32_def go_uint32_def go_int64_def go_uint64_def)

lemma wire_nested [simp]:
  "9000 \<le> D \<Longrightarrow> wire D False go_raw" "9000 \<le> D \<Longrightarrow> wire D False go_any"
  "wire D True c \<Longrightarrow> wire D False (go_ptr c)"
  "0 < D \<Longrightarrow> wire (D - 1) False c \<Longrightarrow> wire D False (go_slice c)"
  "0 < D \<Longrightarrow> wire (D - 1) False c \<Longrightarrow> wire D s (go_list c)"
  "0 < D \<Longrightarrow> wire (D - 1) False c \<Longrightarrow> wire D False (go_map c)"
proof -
  show "wire D False go_raw" if "9000 \<le> D" using wire_mono [OF wire_raw, of D False] that by (simp add: raw_depth_def)
  show "wire D False go_any" if "9000 \<le> D" using wire_mono [OF wire_any, of D False] that by (simp add: raw_depth_def)
  show "wire D True c \<Longrightarrow> wire D False (go_ptr c)" by (rule wire_ptr)
  show "0 < D \<Longrightarrow> wire (D - 1) False c \<Longrightarrow> wire D False (go_slice c)" using wire_slice [of "D - 1" False c] by simp
  show "0 < D \<Longrightarrow> wire (D - 1) False c \<Longrightarrow> wire D s (go_list c)"
    using wire_mono [OF wire_list [of "D - 1" False c], of D s] by simp
  show "0 < D \<Longrightarrow> wire (D - 1) False c \<Longrightarrow> wire D False (go_map c)" using wire_map [of "D - 1" False c] by simp
qed

lemma wire_lenient_rules [simp]:
  "wire D s c \<Longrightarrow> wire D s (lenient c)" "wire D s go_nonblank"
  "0 < D \<Longrightarrow> wire (D - 1) False c \<Longrightarrow> wire D False (lenient_slice c)"
  "0 < D \<Longrightarrow> wire (D - 1) False c \<Longrightarrow> wire D s (lenient_list c)"
  using wire_lenient_slice [of "D - 1" False c] wire_lenient_list [of "D - 1" False c s] wire_mono [OF wire_nonblank, of D s]
  by (simp_all add: wire_lenient)

lemma zeros [simp]:
  "c_zero go_string = []" "c_zero go_bool = False" "c_zero (go_integer lo hi) = 0" "c_zero go_float64 = ''0''"
  "c_zero go_uint16 = 0" "c_zero go_int32 = 0" "c_zero go_uint32 = 0" "c_zero go_int64 = 0" "c_zero go_uint64 = 0"
  "c_zero go_raw = []" "c_zero go_any = ANil" "c_zero (go_ptr c) = None" "c_zero (go_slice c) = None"
  "c_zero (go_list c) = None" "c_zero (go_map c') = None" "c_zero (go_tag disc) = []" "c_zero (go_struct zero fs) = zero"
  "c_zero (with_unmarshal u c) = c_zero c" "c_zero (with_marshal m c) = c_zero c" "c_zero (go_union z um mj vs) = z"
  "c_zero (lenient c) = c_zero c" "c_zero (lenient_slice c) = None" "c_zero (lenient_list c) = None" "c_zero go_nonblank = []"
  by (simp_all add: go_string_def go_bool_def go_integer_def go_float64_def go_uint16_def go_int32_def go_uint32_def
      go_int64_def go_uint64_def go_raw_def go_any_def go_ptr_def go_slice_def go_list_def go_map_def go_tag_def
      go_struct_def with_unmarshal_def with_marshal_def go_union_def lenient_def lenient_slice_def lenient_list_def
      go_nonblank_def)

lemma go_field_name [simp]: "f_name (go_field name oe c get upd) = name"
  by (simp add: go_field_def)

lemma go_field_same [simp]: "f_same (go_field name oe c get upd) s t = (get s = get t)"
  by (simp add: go_field_def)

lemma field_lawI [simp]:
  "wire d False c \<Longrightarrow> (\<And>s x. get (upd (\<lambda>_. x) s) = x) \<Longrightarrow> get zero = c_zero c \<Longrightarrow> field_law d zero (go_field name oe c get upd)"
  by (rule go_field_law)

lemma struct_obj:
  assumes "distinct (map f_name fs)" "list_all (\<lambda>f. utf8_valid (f_name f)) fs" "list_all (field_law d zero) fs"
    "list_all (\<lambda>f. list_all (\<lambda>g. f_name f = f_name g \<or> leaves f g) fs) fs"
    "\<And>s t. list_all (\<lambda>f. f_same f s t) fs \<Longrightarrow> s = t"
    "list_all (check_law d zero fs) cks" "d \<le> max_depth"
  shows "obj d (map f_name fs) cks (go_struct zero fs)"
  using assms unfolding list_all_iff by (intro obj_struct) (auto simp: struct_law_def)

lemma unmarshal_obj:
  assumes "distinct (map f_name fs)" "list_all (\<lambda>f. utf8_valid (f_name f)) fs" "list_all (field_law d zero) fs"
    "list_all (\<lambda>f. list_all (\<lambda>g. f_name f = f_name g \<or> leaves f g) fs) fs"
    "\<And>s t. list_all (\<lambda>f. f_same f s t) fs \<Longrightarrow> s = t"
    "list_all (check_law d zero fs) cks" "d \<le> max_depth"
    "list_all (post_law d zero fs) ps" "set checks \<subseteq> set cks"
  shows "obj d (map f_name fs) cks (with_unmarshal (decode_struct checks (go_struct zero fs) (in_turn ps)) (go_struct zero fs))"
  using assms unfolding list_all_iff by (intro obj_unmarshal) (auto simp: struct_law_def)

lemma leavesI [simp]:
  "(\<And>x u. get' (upd (\<lambda>_. x) u) = get' u) \<Longrightarrow> leaves (go_field name oe c get upd) (go_field name' oe' c' get' upd')"
  by (rule go_field_leaves)

lemma utf8_ascii [simp]: "byte c < 128 \<Longrightarrow> utf8_valid (c # r) = utf8_valid r" 
  by (subst utf8_valid.simps) (simp add: utf8_width_ascii)

lemma decoders_of_lists [simp]: "c_dec (go_list c) = c_dec (go_slice c)" "c_dec (go_tag disc) = c_dec go_string"
  "c_dec go_nonblank = c_dec go_string"
  by (simp_all add: go_list_def go_tag_def go_nonblank_def)

lemma null_texts [simp]:
  "c_enc (go_ptr c) None = Some ''null''" "c_enc (go_slice c) None = Some ''null''" "c_enc (go_map c') None = Some ''null''"
  "c_enc (lenient c'') x = c_enc c'' x" "c_enc (lenient_slice c) None = Some ''null''"
  by (simp_all add: go_ptr_def go_slice_def go_map_def lenient_def lenient_slice_def)

lemma struct_kept [simp]: "\<not> c_empty (with_unmarshal u (go_struct zero fs)) v" "\<not> c_empty (go_struct zero fs) v"
  "c_empty (with_marshal m c) = c_empty c" "\<not> c_empty (go_union z um mj vs) u"
  by (simp_all add: with_unmarshal_def with_marshal_def go_struct_def go_union_def)

lemma obj_mono: "obj d names cks c \<Longrightarrow> d \<le> e \<Longrightarrow> obj e names cks c"
proof -
  assume "obj d names cks c" "d \<le> e"
  moreover have "as_members e names cks c v ms" if "as_members d names cks c v ms" for v ms
  proof -
    have "\<forall>(k, t, j) \<in> set ms. utf8_valid k \<and> clean e t j"
      using that clean_mono [OF _ \<open>d \<le> e\<close>] by (auto simp: as_members_def)
    with that show ?thesis unfolding as_members_def by blast
  qed
  ultimately show ?thesis unfolding obj_def by blast
qed

lemma union_lawI:
  assumes "list_all (\<lambda>(n, v). variant_law d key n v) nvs" "list_all (\<lambda>(n, v). v_disc v \<noteq> Some []) nvs" "sorted_wrt rivals nvs"
  shows "union_law d key nvs"
  using assms by (auto simp: union_law_def list_all_iff)

lemma go_variant_disc [simp]: "v_disc (go_variant disc checks c get inject) = disc"
  by (simp add: go_variant_def)

lemma rivalsI:
  assumes "\<And>x. get (inject' x) = None" "disc \<noteq> None \<Longrightarrow> disc \<noteq> disc'"
    "disc = None \<Longrightarrow> disc' = None \<Longrightarrow> \<exists>c. k \<notin> set names' \<and> typed k c \<in> set checks"
  shows "rivals (names, go_variant disc checks c get inject) (names', go_variant disc' checks' c' get' inject')"
proof -
  have "v_enc (go_variant disc checks c get inject) u = None" if "v_fine (go_variant disc' checks' c' get' inject') u" for u
    using that assms(1) by (auto simp: go_variant_def split: option.splits)
  then show ?thesis using assms(2,3) typed_needs by (fastforce simp: rivals_def go_variant_def)
qed

lemma rivals_tagged [simp]:
  assumes "\<And>x. get (inject' x) = None" "disc \<noteq> disc'"
  shows "rivals (names, go_variant disc checks c get inject) (names', go_variant disc' checks' c' get' inject')"
  using assms by (intro rivalsI) auto

lemma rivals_plain [simp]:
  assumes "\<And>x. get (inject' x) = None"
  shows "k \<notin> set names' \<Longrightarrow>
      rivals (names, go_variant None (typed k c1 # cs) c get inject) (names', go_variant None checks' c' get' inject')"
    "k \<notin> set names' \<Longrightarrow>
      rivals (names, go_variant None (k1 # typed k c1 # cs) c get inject) (names', go_variant None checks' c' get' inject')"
    "k \<notin> set names' \<Longrightarrow>
      rivals (names, go_variant None (k1 # k2 # typed k c1 # cs) c get inject) (names', go_variant None checks' c' get' inject')"
  using assms by (auto intro!: rivalsI)

section \<open>A map of texts\<close>

text \<open>The environment of an authentication method: any values by its type, texts by its check.\<close>

definition go_texts :: "(string \<times> any_value) list option codec" where
  "go_texts = (go_map go_any)\<lparr>c_fine := (\<lambda>m. c_fine (go_map go_any) m \<and>
     (case m of None \<Rightarrow> True | Some es \<Rightarrow> list_all (\<lambda>(k, v). case v of AStr s \<Rightarrow> True | _ \<Rightarrow> False) es))\<rparr>"

lemma wire_texts [simp]: "9001 \<le> D \<Longrightarrow> wire D False go_texts"
proof -
  have "wire (Suc raw_depth) False (go_map go_any)" by (rule wire_map [OF wire_any])
  moreover assume "9001 \<le> D"
  ultimately have "wire D False (go_map go_any)" using wire_mono [of "Suc raw_depth" False "go_map go_any" D False]
    by (simp add: raw_depth_def)
  then show ?thesis by (simp add: wire_def go_texts_def)
qed

lemma zero_texts [simp]: "c_zero go_texts = None"
  by (simp add: go_texts_def)

lemma first_bad_texts: "\<forall>(r, v) \<in> set xs. \<exists>s. v = JStr s \<Longrightarrow> first_bad go_string xs = None"
  by (induction xs) (auto simp: go_string_def)

lemma enc_entries_any: "enc_entries go_any es = Some (map (\<lambda>(k, v). (k, enc_any v)) es)"
  by (induction es) (auto simp: go_any_def)

lemma yields_texts [simp]:
  assumes "9001 \<le> d"
  shows "yields d (go_field k oe go_texts get upd) (sound_entries go_string)"
  unfolding yields_def
proof (intro allI impI)
  fix s assume "f_fine (go_field k oe go_texts get upd) s"
  then have fine: "c_fine go_texts (get s)" by (simp add: go_field_def)
  show "\<exists>t j. f_enc (go_field k oe go_texts get upd) s = Some t \<and> clean d t j \<and> sound_entries go_string (t, j)"
  proof (cases "get s")
    case None
    then show ?thesis using null_clean
      by (intro exI [of _ "''null''"] exI [of _ JNull]) (simp add: go_field_def go_texts_def go_map_def sound_entries_def)
  next
    case (Some es)
    let ?ms = "map (\<lambda>(k, v). (k, enc_any v, any_json v)) es"
    have sorted: "sorted_entries es = es" and each: "\<forall>(k, v) \<in> set es. utf8_valid k \<and> any_fine v \<and> any_depth v \<le> 9000 \<and> (\<exists>s. v = AStr s)"
      using fine Some by (auto simp: go_texts_def go_map_def go_any_def raw_depth_def list_all_iff split: any_value.splits)
    have "\<forall>(k, t, j) \<in> set ?ms. utf8_valid k \<and> clean 9000 t j"
      using each any_clean clean_mono by fastforce
    from clean_mono [OF clean_object [OF this], of d] assms
    have "clean d (object_text (map (\<lambda>(k, v). (k, enc_any v)) es)) (JObj ?ms)"
      by (simp add: comp_def case_prod_unfold)
    moreover have "distinct (map fst ?ms)"
      using sorted_entries_distinct [of es] sorted by (simp add: comp_def case_prod_unfold)
    then have "\<forall>(r, v) \<in> set (map snd (sorted_entries ?ms)). \<exists>s. v = JStr s"
      using each by (fastforce simp: sorted_entries_set)
    then have "sound_entries go_string (t, JObj ?ms)" for t
      using first_bad_texts by (simp add: sound_entries_def)
    ultimately show ?thesis using Some
      by (intro exI [of _ "object_text (map (\<lambda>(k, v). (k, enc_any v)) es)"] exI [of _ "JObj ?ms"])
        (simp add: go_field_def go_texts_def go_map_def enc_entries_any)
  qed
qed

section \<open>Elements that are objects\<close>

lemma obj_elements:
  assumes "obj d names cks c" "list_all (c_fine c) vs"
  shows "\<exists>mss. enc_elements c vs = Some (map (\<lambda>ms. object_text (map (\<lambda>(k, t, j). (k, t)) ms)) mss) \<and>
    dec_elements c [] (map (\<lambda>ms. (object_text (map (\<lambda>(k, t, j). (k, t)) ms), JObj ms)) mss) = Good vs \<and>
    length mss = length vs \<and>
    (\<forall>ms \<in> set mss. fst ` set ms \<subseteq> set names \<and> (\<forall>k \<in> set cks. k ms = None) \<and>
       clean (Suc d) (object_text (map (\<lambda>(k, t, j). (k, t)) ms)) (JObj ms))"
  using assms(2)
proof (induction vs)
  case Nil
  then show ?case by (intro exI [of _ "[]"]) simp
next
  case (Cons v vs)
  then obtain mss where mss: "enc_elements c vs = Some (map (\<lambda>ms. object_text (map (\<lambda>(k, t, j). (k, t)) ms)) mss)"
    "dec_elements c [] (map (\<lambda>ms. (object_text (map (\<lambda>(k, t, j). (k, t)) ms), JObj ms)) mss) = Good vs"
    "length mss = length vs"
    "\<forall>ms \<in> set mss. fst ` set ms \<subseteq> set names \<and> (\<forall>k \<in> set cks. k ms = None) \<and>
       clean (Suc d) (object_text (map (\<lambda>(k, t, j). (k, t)) ms)) (JObj ms)" by auto
  from Cons.prems assms(1) obtain ms where ms: "as_members d names cks c v ms" by (auto simp: obj_def)
  then have "clean (Suc d) (object_text (map (\<lambda>(k, t, j). (k, t)) ms)) (JObj ms)"
    by (intro clean_object) (simp add: as_members_def)
  with ms mss show ?case by (intro exI [of _ "ms # mss"]) (simp add: as_members_def)
qed

section \<open>Values that are not nil\<close>

definition go_some_any :: "any_value codec" where
  "go_some_any = go_any\<lparr>c_fine := (\<lambda>v. c_fine go_any v \<and> v \<noteq> ANil)\<rparr>"

definition go_table :: "'a codec \<Rightarrow> (string \<times> 'a) list option codec" where
  "go_table c = (go_map c)\<lparr>c_fine := (\<lambda>m. m \<noteq> None \<and> c_fine (go_map c) m)\<rparr>"

lemma wire_some_any [simp]: "9000 \<le> D \<Longrightarrow> wire D s go_some_any"
proof -
  have "\<exists>t j. c_enc go_any v = Some t \<and> clean raw_depth t j \<and> j \<noteq> JNull \<and> c_dec go_any ANil (t, j) = Good v"
    if "any_fine v" "any_depth v \<le> raw_depth" "v \<noteq> ANil" for v
    using any_clean [OF that(1)] that
    by (intro exI [of _ "enc_any v"] exI [of _ "any_json v"]) (auto simp: go_any_def intro: clean_mono)
  then have "wire raw_depth True go_some_any" by (auto simp: wire_def go_some_any_def go_any_def)
  then show "9000 \<le> D \<Longrightarrow> wire D s go_some_any" using wire_mono [of raw_depth True go_some_any D s] by (simp add: raw_depth_def)
qed

lemma wire_table [simp]:
  assumes "0 < D" "wire (D - 1) False c"
  shows "wire D s (go_table c)"
proof -
  have w: "wire D False (go_map c)" using assms by simp
  have "\<exists>t j. c_enc (go_map c) v = Some t \<and> clean D t j \<and> j \<noteq> JNull \<and> c_dec (go_map c) None (t, j) = Good v"
    if v: "v \<noteq> None" "c_fine (go_map c) v" for v
  proof -
    from wireE [OF w v(2)] obtain t j where "c_enc (go_map c) v = Some t" "clean D t j" "c_dec (go_map c) None (t, j) = Good v"
      by (auto simp: go_map_def)
    moreover from this v(1) have "j \<noteq> JNull" by (auto simp: go_map_def)
    ultimately show ?thesis by blast
  qed
  moreover have "c_enc (go_table c) = c_enc (go_map c)" "c_dec (go_table c) = c_dec (go_map c)" "c_zero (go_table c) = None"
    "c_fine (go_table c) v = (v \<noteq> None \<and> c_fine (go_map c) v)" for v
    by (simp_all add: go_table_def go_map_def)
  ultimately show ?thesis unfolding wire_def by metis
qed

lemma solid_values [simp]:
  "c_zero go_some_any = ANil" "c_dec go_some_any = c_dec go_any" "c_zero (go_table c) = None" "c_dec (go_table c) = c_dec (go_map c)"
  by (simp_all add: go_some_any_def go_table_def go_map_def go_any_def)

lemma never_nil_table [simp]: "never_nil get (go_field k oe (go_table c) get upd)"
  by (simp add: never_nil_def go_field_def go_table_def)

lemma default_nonblank [simp]: "default_of t c get (go_field k oe go_nonblank get upd)"
  by (auto simp: default_of_def go_field_def go_nonblank_def go_string_def)

end
