(* ===== verification/Wire.thy ===== *)
theory Wire
  imports GoAny
begin

text \<open>
  What a generated type promises on the wire, as a locale: its values have an encoding, which is
  compact, and which the decoder turns back into the value. The theories of the types interpret
  it; the unions also use that their \<open>Validate\<close> accepts such values.
\<close>

locale wire_type =
  fixes c :: "'a codec" and d :: nat
  assumes law: "wire d False c" and depth: "d \<le> max_depth"
begin

lemma round_trip:
  assumes "c_fine c v"
  shows "\<exists>t. c_enc c v = Some t \<and> compact t = Some t \<and> unmarshal c (c_zero c) t = Inr v"
proof -
  from law assms obtain t j where *: "c_enc c v = Some t" "clean d t j" "c_dec c (c_zero c) (t, j) = Good v"
    by (rule wireE) blast
  with depth have "compact t = Some t" "parse_json t = Some (t, j)" using clean_compact clean_parse by blast+
  with * show ?thesis by (simp add: unmarshal_def)
qed

lemma encoding_injective:
  assumes "c_fine c v" "c_fine c w" "c_enc c v = c_enc c w"
  shows "v = w"
  using round_trip [OF assms(1)] round_trip [OF assms(2)] assms(3) by auto

lemma validated: "c_fine c u \<Longrightarrow> n = 1 \<Longrightarrow> validate_set one name n c u = None"
  using round_trip [of u] by (auto simp: validate_set_def)

end

text \<open>A union takes the first variant that fits: what it decodes has that variant and no other.\<close>

lemma unmarshal_union_chosen:
  "unmarshal_union key vs j = Good u \<Longrightarrow> \<exists>v \<in> set vs. v_dec v j = Good u"
  by (auto simp: unmarshal_union_def decode_variant_def find_Some_iff split: option.splits decoded.splits)

definition built :: "'u variant \<Rightarrow> 'u \<Rightarrow> bool" where
  "built v u \<longleftrightarrow> v_fine v u \<or> (\<exists>j. v_dec v j = Good u)"

definition builds :: "'u variant \<Rightarrow> ('u \<Rightarrow> bool) \<Rightarrow> bool" where
  "builds v P \<longleftrightarrow> (\<forall>u. built v u \<longrightarrow> P u)"

lemma builds_variant [simp]:
  assumes "\<And>x. P (inject x)"
  shows "builds (go_variant disc checks c get inject) P"
  unfolding builds_def
proof (intro allI impI)
  fix u assume "built (go_variant disc checks c get inject) u"
  moreover have "\<exists>x. u = inject x" if "map_decoded inject y = Good u" for y using that by (cases y) auto
  ultimately have "\<exists>x. u = inject x" by (auto simp: built_def go_variant_def split: option.splits)
  then show "P u" using assms by blast
qed

lemma variants_set_simps [simp]:
  "variants_set [] u = 0"
  "variants_set (go_variant disc checks c get inject # vs) u = (if get u = None then 0 else 1) + variants_set vs u"
  by (simp_all add: variants_set_def go_variant_def)

lemma union_fine_one:
  assumes "list_all (\<lambda>v. builds v (\<lambda>u. variants_set vs u = 1)) vs" "c_fine (go_union z um mj vs) u"
  shows "variants_set vs u = 1"
  using assms by (auto simp: go_union_def list_all_iff builds_def built_def)

lemma union_decodes_one:
  assumes "list_all (\<lambda>v. builds v (\<lambda>u. variants_set vs u = 1)) vs" "unmarshal_union key vs j = Good u"
  shows "variants_set vs u = 1"
proof -
  obtain v where "v \<in> set vs" "v_dec v j = Good u" using unmarshal_union_chosen [OF assms(2)] by blast
  moreover from this have "built v u" unfolding built_def by blast
  ultimately show ?thesis using assms(1) by (simp add: list_all_iff builds_def)
qed

lemma go_variant_decoded:
  "v_dec (go_variant disc checks c get inject) j = Good u \<longleftrightarrow> (\<exists>x. c_dec c (c_zero c) j = Good x \<and> u = inject x)"
  by (cases "c_dec c (c_zero c) j") (auto simp: go_variant_def)

end
