(* ===== verification/Nullable.thy ===== *)
theory Nullable
  imports Wire "HOL-Library.Word"
begin

text \<open>
  \<open>nullable_field.go\<close> and the accessors of the generated fields that tell an absent member from a null
  one. The locale is the contract of one such field: whatever was done to it before, the last
  call decides.
\<close>

type_synonym NullableFieldState = "8 word"

definition NullableFieldAbsent :: NullableFieldState where "NullableFieldAbsent = 0"
definition NullableFieldNull :: NullableFieldState where "NullableFieldNull = 1"
definition NullableFieldValue :: NullableFieldState where "NullableFieldValue = 2"

definition NullableFieldState_String :: "NullableFieldState \<Rightarrow> string" where
  "NullableFieldState_String s =
     (if s = NullableFieldAbsent then ''absent''
      else if s = NullableFieldNull then ''null''
      else if s = NullableFieldValue then ''value''
      else ''NullableFieldState('' @ show_nat (unat s) @ '')'')"

text \<open>What the accessors of a field do to its pointer and its flag.\<close>

definition field_state :: "('s \<Rightarrow> 'a option) \<Rightarrow> ('s \<Rightarrow> bool) \<Rightarrow> 's \<Rightarrow> NullableFieldState" where
  "field_state get flag v =
     (if get v \<noteq> None then NullableFieldValue else if flag v then NullableFieldNull else NullableFieldAbsent)"

datatype 'a field_call = Set 'a | Clear | Unset

locale nullable_field =
  fixes state :: "'s \<Rightarrow> NullableFieldState"
    and set_to :: "'a \<Rightarrow> 's \<Rightarrow> 's" and clear :: "'s \<Rightarrow> 's" and unset :: "'s \<Rightarrow> 's"
    and is_nil :: "'a \<Rightarrow> bool"
  assumes state_set: "state (set_to x s) = (if is_nil x then NullableFieldNull else NullableFieldValue)"
    and state_clear: "state (clear s) = NullableFieldNull"
    and state_unset: "state (unset s) = NullableFieldAbsent"
    and overwritten: "set_to x (set_to y s) = set_to x s" "set_to x (clear s) = set_to x s" "set_to x (unset s) = set_to x s"
      "clear (set_to y s) = clear s" "clear (clear s) = clear s" "clear (unset s) = clear s"
      "unset (set_to y s) = unset s" "unset (clear s) = unset s" "unset (unset s) = unset s"
begin

definition run_call :: "'a field_call \<Rightarrow> 's \<Rightarrow> 's" where
  "run_call k s = (case k of Set x \<Rightarrow> set_to x s | Clear \<Rightarrow> clear s | Unset \<Rightarrow> unset s)"

lemma run_call_overwrites: "run_call k (run_call k' s) = run_call k s"
  by (cases k; cases k') (simp_all add: run_call_def overwritten)

lemma last_call_decides: "ks \<noteq> [] \<Longrightarrow> fold run_call ks s = run_call (last ks) s"
proof (induction ks arbitrary: s rule: rev_induct)
  case (snoc k ks)
  then show ?case by (cases "ks = []") (auto simp: run_call_overwrites)
qed simp

lemma state_last:
  "ks \<noteq> [] \<Longrightarrow> state (fold run_call ks s) =
     (case last ks of Set x \<Rightarrow> if is_nil x then NullableFieldNull else NullableFieldValue
      | Clear \<Rightarrow> NullableFieldNull | Unset \<Rightarrow> NullableFieldAbsent)"
  by (simp add: last_call_decides run_call_def state_set state_clear state_unset split: field_call.split)

end

end
