(* ===== verification/WireContent.thy ===== *)
theory WireContent
  imports Nullable
begin

text \<open>
  The content of prompts, messages and tool results: \<open>ContentBlock\<close> and its five variants, the
  resources that are embedded in it, and the same kinds of content on their own.
\<close>

section \<open>Content blocks\<close>

subsection \<open>\<open>Annotations\<close>\<close>

record Annotations =
  Meta :: "(string \<times> string) list option"
  Audience :: "string list option"
  LastModified :: "string option"
  Priority :: "string option"

definition Annotations_zero :: Annotations where
  "Annotations_zero = \<lparr>Meta = None, Audience = None, LastModified = None, Priority = None\<rparr>"

definition Annotations_fields :: "Annotations fld list" where
  "Annotations_fields =
     [go_field ''_meta'' True (go_map go_raw) Annotations.Meta Annotations.Meta_update,
      go_field ''audience'' True (go_slice go_string) Annotations.Audience Annotations.Audience_update,
      go_field ''lastModified'' True (go_ptr go_string) Annotations.LastModified
          Annotations.LastModified_update,
      go_field ''priority'' True (go_ptr go_float64) Annotations.Priority Annotations.Priority_update]"

definition Annotations_codec :: "Annotations codec" where
  "Annotations_codec = go_struct Annotations_zero Annotations_fields"

lemma Annotations_zero_codec [simp]: "c_zero Annotations_codec = Annotations_zero"
  by (simp add: Annotations_codec_def)

lemma Annotations_obj:
  "obj 9001 (map f_name Annotations_fields) [] Annotations_codec"
  unfolding Annotations_codec_def
  by (rule struct_obj) (simp_all add: Annotations_fields_def Annotations_zero_def max_depth_def)

lemma Annotations_wire [simp]: "9002 \<le> E \<Longrightarrow> wire E s Annotations_codec"
  using wire_mono [OF wire_obj [OF Annotations_obj], of E s] by simp

subsection \<open>\<open>ContentBlockText\<close>\<close>

record ContentBlockText =
  Meta :: "(string \<times> string) list option"
  Annotations :: "Annotations option"
  Text :: "string"
  Type :: "string"

definition ContentBlockText_zero :: ContentBlockText where
  "ContentBlockText_zero = \<lparr>Meta = None, Annotations = None, Text = [], Type = []\<rparr>"

definition ContentBlockText_fields :: "ContentBlockText fld list" where
  "ContentBlockText_fields =
     [go_field ''_meta'' True (go_map go_raw) ContentBlockText.Meta ContentBlockText.Meta_update,
      go_field ''annotations'' True (go_ptr Annotations_codec) ContentBlockText.Annotations
          ContentBlockText.Annotations_update,
      go_field ''text'' False go_string ContentBlockText.Text ContentBlockText.Text_update,
      go_field ''type'' False (go_tag ''text'') ContentBlockText.Type ContentBlockText.Type_update]"

definition ContentBlockText_codec :: "ContentBlockText codec" where
  "ContentBlockText_codec = go_struct ContentBlockText_zero ContentBlockText_fields"

lemma ContentBlockText_zero_codec [simp]: "c_zero ContentBlockText_codec = ContentBlockText_zero"
  by (simp add: ContentBlockText_codec_def)

lemma ContentBlockText_obj:
  "obj 9002 (map f_name ContentBlockText_fields)
     [typed ''text'' go_string,
      typed ''type'' go_string,
      tagged ''type'' ''text'']
     ContentBlockText_codec"
  unfolding ContentBlockText_codec_def
  by (rule struct_obj) (simp_all add: ContentBlockText_fields_def ContentBlockText_zero_def max_depth_def)

lemma ContentBlockText_wire [simp]: "9003 \<le> E \<Longrightarrow> wire E s ContentBlockText_codec"
  using wire_mono [OF wire_obj [OF ContentBlockText_obj], of E s] by simp

subsection \<open>\<open>ContentBlockImage\<close>\<close>

record ContentBlockImage =
  Meta :: "(string \<times> string) list option"
  Annotations :: "Annotations option"
  Data :: "string"
  MimeType :: "string"
  Type :: "string"
  Uri :: "string option"

definition ContentBlockImage_zero :: ContentBlockImage where
  "ContentBlockImage_zero = \<lparr>Meta = None, Annotations = None, Data = [], MimeType = [], Type = [], Uri =
      None\<rparr>"

definition ContentBlockImage_fields :: "ContentBlockImage fld list" where
  "ContentBlockImage_fields =
     [go_field ''_meta'' True (go_map go_raw) ContentBlockImage.Meta ContentBlockImage.Meta_update,
      go_field ''annotations'' True (go_ptr Annotations_codec) ContentBlockImage.Annotations
          ContentBlockImage.Annotations_update,
      go_field ''data'' False go_string ContentBlockImage.Data ContentBlockImage.Data_update,
      go_field ''mimeType'' False go_string ContentBlockImage.MimeType ContentBlockImage.MimeType_update,
      go_field ''type'' False (go_tag ''image'') ContentBlockImage.Type ContentBlockImage.Type_update,
      go_field ''uri'' True (go_ptr go_string) ContentBlockImage.Uri ContentBlockImage.Uri_update]"

definition ContentBlockImage_codec :: "ContentBlockImage codec" where
  "ContentBlockImage_codec = go_struct ContentBlockImage_zero ContentBlockImage_fields"

lemma ContentBlockImage_zero_codec [simp]: "c_zero ContentBlockImage_codec = ContentBlockImage_zero"
  by (simp add: ContentBlockImage_codec_def)

lemma ContentBlockImage_obj:
  "obj 9002 (map f_name ContentBlockImage_fields)
     [typed ''data'' go_string,
      typed ''mimeType'' go_string,
      typed ''type'' go_string,
      tagged ''type'' ''image'']
     ContentBlockImage_codec"
  unfolding ContentBlockImage_codec_def
  by (rule struct_obj) (simp_all add: ContentBlockImage_fields_def ContentBlockImage_zero_def max_depth_def)

lemma ContentBlockImage_wire [simp]: "9003 \<le> E \<Longrightarrow> wire E s ContentBlockImage_codec"
  using wire_mono [OF wire_obj [OF ContentBlockImage_obj], of E s] by simp

subsection \<open>\<open>ContentBlockAudio\<close>\<close>

record ContentBlockAudio =
  Meta :: "(string \<times> string) list option"
  Annotations :: "Annotations option"
  Data :: "string"
  MimeType :: "string"
  Type :: "string"

definition ContentBlockAudio_zero :: ContentBlockAudio where
  "ContentBlockAudio_zero = \<lparr>Meta = None, Annotations = None, Data = [], MimeType = [], Type =
      []\<rparr>"

definition ContentBlockAudio_fields :: "ContentBlockAudio fld list" where
  "ContentBlockAudio_fields =
     [go_field ''_meta'' True (go_map go_raw) ContentBlockAudio.Meta ContentBlockAudio.Meta_update,
      go_field ''annotations'' True (go_ptr Annotations_codec) ContentBlockAudio.Annotations
          ContentBlockAudio.Annotations_update,
      go_field ''data'' False go_string ContentBlockAudio.Data ContentBlockAudio.Data_update,
      go_field ''mimeType'' False go_string ContentBlockAudio.MimeType ContentBlockAudio.MimeType_update,
      go_field ''type'' False (go_tag ''audio'') ContentBlockAudio.Type ContentBlockAudio.Type_update]"

definition ContentBlockAudio_codec :: "ContentBlockAudio codec" where
  "ContentBlockAudio_codec = go_struct ContentBlockAudio_zero ContentBlockAudio_fields"

lemma ContentBlockAudio_zero_codec [simp]: "c_zero ContentBlockAudio_codec = ContentBlockAudio_zero"
  by (simp add: ContentBlockAudio_codec_def)

lemma ContentBlockAudio_obj:
  "obj 9002 (map f_name ContentBlockAudio_fields)
     [typed ''data'' go_string,
      typed ''mimeType'' go_string,
      typed ''type'' go_string,
      tagged ''type'' ''audio'']
     ContentBlockAudio_codec"
  unfolding ContentBlockAudio_codec_def
  by (rule struct_obj) (simp_all add: ContentBlockAudio_fields_def ContentBlockAudio_zero_def max_depth_def)

lemma ContentBlockAudio_wire [simp]: "9003 \<le> E \<Longrightarrow> wire E s ContentBlockAudio_codec"
  using wire_mono [OF wire_obj [OF ContentBlockAudio_obj], of E s] by simp

subsection \<open>\<open>ContentBlockResourceLink\<close>\<close>

record ContentBlockResourceLink =
  Meta :: "(string \<times> string) list option"
  Annotations :: "Annotations option"
  Description :: "string option"
  MimeType :: "string option"
  Name :: "string"
  Size :: "int option"
  Title :: "string option"
  Type :: "string"
  Uri :: "string"

definition ContentBlockResourceLink_zero :: ContentBlockResourceLink where
  "ContentBlockResourceLink_zero = \<lparr>Meta = None, Annotations = None, Description = None, MimeType = None,
      Name = [], Size = None, Title = None, Type = [], Uri = []\<rparr>"

definition ContentBlockResourceLink_fields :: "ContentBlockResourceLink fld list" where
  "ContentBlockResourceLink_fields =
     [go_field ''_meta'' True (go_map go_raw) ContentBlockResourceLink.Meta
         ContentBlockResourceLink.Meta_update,
      go_field ''annotations'' True (go_ptr Annotations_codec) ContentBlockResourceLink.Annotations
          ContentBlockResourceLink.Annotations_update,
      go_field ''description'' True (go_ptr go_string) ContentBlockResourceLink.Description
          ContentBlockResourceLink.Description_update,
      go_field ''mimeType'' True (go_ptr go_string) ContentBlockResourceLink.MimeType
          ContentBlockResourceLink.MimeType_update,
      go_field ''name'' False go_string ContentBlockResourceLink.Name ContentBlockResourceLink.Name_update,
      go_field ''size'' True (go_ptr go_int64) ContentBlockResourceLink.Size
          ContentBlockResourceLink.Size_update,
      go_field ''title'' True (go_ptr go_string) ContentBlockResourceLink.Title
          ContentBlockResourceLink.Title_update,
      go_field ''type'' False (go_tag ''resource_link'') ContentBlockResourceLink.Type
          ContentBlockResourceLink.Type_update,
      go_field ''uri'' False go_string ContentBlockResourceLink.Uri ContentBlockResourceLink.Uri_update]"

definition ContentBlockResourceLink_codec :: "ContentBlockResourceLink codec" where
  "ContentBlockResourceLink_codec = go_struct ContentBlockResourceLink_zero ContentBlockResourceLink_fields"

lemma ContentBlockResourceLink_zero_codec [simp]: "c_zero ContentBlockResourceLink_codec = ContentBlockResourceLink_zero"
  by (simp add: ContentBlockResourceLink_codec_def)

lemma ContentBlockResourceLink_obj:
  "obj 9002 (map f_name ContentBlockResourceLink_fields)
     [typed ''name'' go_string,
      typed ''type'' go_string,
      typed ''uri'' go_string,
      tagged ''type'' ''resource_link'']
     ContentBlockResourceLink_codec"
  unfolding ContentBlockResourceLink_codec_def
  by (rule struct_obj) (simp_all add: ContentBlockResourceLink_fields_def ContentBlockResourceLink_zero_def
        max_depth_def)

lemma ContentBlockResourceLink_wire [simp]: "9003 \<le> E \<Longrightarrow> wire E s ContentBlockResourceLink_codec"
  using wire_mono [OF wire_obj [OF ContentBlockResourceLink_obj], of E s] by simp

subsection \<open>\<open>TextResourceContents\<close>\<close>

record TextResourceContents =
  Meta :: "(string \<times> string) list option"
  MimeType :: "string option"
  Text :: "string"
  Uri :: "string"

definition TextResourceContents_zero :: TextResourceContents where
  "TextResourceContents_zero = \<lparr>Meta = None, MimeType = None, Text = [], Uri = []\<rparr>"

definition TextResourceContents_fields :: "TextResourceContents fld list" where
  "TextResourceContents_fields =
     [go_field ''_meta'' True (go_map go_raw) TextResourceContents.Meta TextResourceContents.Meta_update,
      go_field ''mimeType'' True (go_ptr go_string) TextResourceContents.MimeType
          TextResourceContents.MimeType_update,
      go_field ''text'' False go_string TextResourceContents.Text TextResourceContents.Text_update,
      go_field ''uri'' False go_string TextResourceContents.Uri TextResourceContents.Uri_update]"

definition TextResourceContents_UnmarshalJSON :: "raw_json \<Rightarrow> TextResourceContents decoded" where
  "TextResourceContents_UnmarshalJSON =
     decode_struct
       [required ''text'',
        required ''uri'']
       (go_struct TextResourceContents_zero TextResourceContents_fields)
       (in_turn [])"

definition TextResourceContents_codec :: "TextResourceContents codec" where
  "TextResourceContents_codec = with_unmarshal TextResourceContents_UnmarshalJSON (go_struct
      TextResourceContents_zero TextResourceContents_fields)"

lemma TextResourceContents_zero_codec [simp]: "c_zero TextResourceContents_codec = TextResourceContents_zero"
  by (simp add: TextResourceContents_codec_def)

lemma TextResourceContents_obj:
  "obj 9001 (map f_name TextResourceContents_fields)
     [required ''text'',
      required ''uri'',
      typed ''text'' go_string,
      typed ''uri'' go_string]
     TextResourceContents_codec"
  unfolding TextResourceContents_codec_def TextResourceContents_UnmarshalJSON_def
  by (rule unmarshal_obj) (simp_all add: TextResourceContents_fields_def TextResourceContents_zero_def
        max_depth_def)

lemma TextResourceContents_wire [simp]: "9002 \<le> E \<Longrightarrow> wire E s TextResourceContents_codec"
  using wire_mono [OF wire_obj [OF TextResourceContents_obj], of E s] by simp

lemma TextResourceContents_names: "f_name ` set TextResourceContents_fields = {''_meta'', ''mimeType'', ''text'', ''uri''}"
  by (auto simp: TextResourceContents_fields_def)

subsection \<open>\<open>BlobResourceContents\<close>\<close>

record BlobResourceContents =
  Meta :: "(string \<times> string) list option"
  Blob :: "string"
  MimeType :: "string option"
  Uri :: "string"

definition BlobResourceContents_zero :: BlobResourceContents where
  "BlobResourceContents_zero = \<lparr>Meta = None, Blob = [], MimeType = None, Uri = []\<rparr>"

definition BlobResourceContents_fields :: "BlobResourceContents fld list" where
  "BlobResourceContents_fields =
     [go_field ''_meta'' True (go_map go_raw) BlobResourceContents.Meta BlobResourceContents.Meta_update,
      go_field ''blob'' False go_string BlobResourceContents.Blob BlobResourceContents.Blob_update,
      go_field ''mimeType'' True (go_ptr go_string) BlobResourceContents.MimeType
          BlobResourceContents.MimeType_update,
      go_field ''uri'' False go_string BlobResourceContents.Uri BlobResourceContents.Uri_update]"

definition BlobResourceContents_UnmarshalJSON :: "raw_json \<Rightarrow> BlobResourceContents decoded" where
  "BlobResourceContents_UnmarshalJSON =
     decode_struct
       [required ''blob'',
        required ''uri'']
       (go_struct BlobResourceContents_zero BlobResourceContents_fields)
       (in_turn [])"

definition BlobResourceContents_codec :: "BlobResourceContents codec" where
  "BlobResourceContents_codec = with_unmarshal BlobResourceContents_UnmarshalJSON (go_struct
      BlobResourceContents_zero BlobResourceContents_fields)"

lemma BlobResourceContents_zero_codec [simp]: "c_zero BlobResourceContents_codec = BlobResourceContents_zero"
  by (simp add: BlobResourceContents_codec_def)

lemma BlobResourceContents_obj:
  "obj 9001 (map f_name BlobResourceContents_fields)
     [required ''blob'',
      required ''uri'',
      typed ''blob'' go_string,
      typed ''uri'' go_string]
     BlobResourceContents_codec"
  unfolding BlobResourceContents_codec_def BlobResourceContents_UnmarshalJSON_def
  by (rule unmarshal_obj) (simp_all add: BlobResourceContents_fields_def BlobResourceContents_zero_def
        max_depth_def)

lemma BlobResourceContents_wire [simp]: "9002 \<le> E \<Longrightarrow> wire E s BlobResourceContents_codec"
  using wire_mono [OF wire_obj [OF BlobResourceContents_obj], of E s] by simp

lemma BlobResourceContents_names: "f_name ` set BlobResourceContents_fields = {''_meta'', ''blob'', ''mimeType'', ''uri''}"
  by (auto simp: BlobResourceContents_fields_def)

subsection \<open>\<open>EmbeddedResourceResource\<close>\<close>

record EmbeddedResourceResource =
  TextResourceContents :: "TextResourceContents option"
  BlobResourceContents :: "BlobResourceContents option"

definition EmbeddedResourceResource_zero :: EmbeddedResourceResource where
  "EmbeddedResourceResource_zero = \<lparr>TextResourceContents = None, BlobResourceContents = None\<rparr>"

definition EmbeddedResourceResource_as_TextResourceContents :: "EmbeddedResourceResource variant" where
  "EmbeddedResourceResource_as_TextResourceContents =
     go_variant None
       [typed ''text'' go_string,
        typed ''uri'' go_string]
       TextResourceContents_codec EmbeddedResourceResource.TextResourceContents (\<lambda>x.
         EmbeddedResourceResource_zero\<lparr>EmbeddedResourceResource.TextResourceContents := Some x\<rparr>)"

definition EmbeddedResourceResource_as_BlobResourceContents :: "EmbeddedResourceResource variant" where
  "EmbeddedResourceResource_as_BlobResourceContents =
     go_variant None
       [typed ''blob'' go_string,
        typed ''uri'' go_string]
       BlobResourceContents_codec EmbeddedResourceResource.BlobResourceContents (\<lambda>x.
         EmbeddedResourceResource_zero\<lparr>EmbeddedResourceResource.BlobResourceContents := Some x\<rparr>)"

definition EmbeddedResourceResource_variants :: "EmbeddedResourceResource variant list" where
  "EmbeddedResourceResource_variants =
     [EmbeddedResourceResource_as_TextResourceContents,
      EmbeddedResourceResource_as_BlobResourceContents]"

definition EmbeddedResourceResource_UnmarshalJSON :: "raw_json \<Rightarrow> EmbeddedResourceResource decoded" where
  "EmbeddedResourceResource_UnmarshalJSON = unmarshal_union [] EmbeddedResourceResource_variants"

definition EmbeddedResourceResource_MarshalJSON :: "EmbeddedResourceResource \<Rightarrow> string option" where
  "EmbeddedResourceResource_MarshalJSON = marshal_union [] EmbeddedResourceResource_variants"

definition EmbeddedResourceResource_codec :: "EmbeddedResourceResource codec" where
  "EmbeddedResourceResource_codec = go_union EmbeddedResourceResource_zero
      EmbeddedResourceResource_UnmarshalJSON EmbeddedResourceResource_MarshalJSON
      EmbeddedResourceResource_variants"

definition EmbeddedResourceResource_Validate :: "EmbeddedResourceResource \<Rightarrow> invalid option" where
  "EmbeddedResourceResource_Validate = validate_union False ''EmbeddedResourceResource'' EmbeddedResourceResource_codec EmbeddedResourceResource_variants"

definition EmbeddedResourceResource_named :: "(string list \<times> EmbeddedResourceResource variant) list" where
  "EmbeddedResourceResource_named =
     [(map f_name TextResourceContents_fields, EmbeddedResourceResource_as_TextResourceContents),
      (map f_name BlobResourceContents_fields, EmbeddedResourceResource_as_BlobResourceContents)]"

lemma EmbeddedResourceResource_TextResourceContents_law:
  "variant_law 9001 [] (map f_name TextResourceContents_fields) EmbeddedResourceResource_as_TextResourceContents"
  unfolding EmbeddedResourceResource_as_TextResourceContents_def
  by (rule go_variant_law [OF obj_mono [OF TextResourceContents_obj]]) (simp_all add: TextResourceContents_names)

lemma EmbeddedResourceResource_BlobResourceContents_law:
  "variant_law 9001 [] (map f_name BlobResourceContents_fields) EmbeddedResourceResource_as_BlobResourceContents"
  unfolding EmbeddedResourceResource_as_BlobResourceContents_def
  by (rule go_variant_law [OF obj_mono [OF BlobResourceContents_obj]]) (simp_all add: BlobResourceContents_names)

lemma EmbeddedResourceResource_law: "union_law 9001 [] EmbeddedResourceResource_named"
proof (rule union_lawI)
  show "list_all (\<lambda>(n, v). variant_law 9001 [] n v) EmbeddedResourceResource_named"
    by (simp add: EmbeddedResourceResource_named_def EmbeddedResourceResource_TextResourceContents_law
      EmbeddedResourceResource_BlobResourceContents_law)
  show "list_all (\<lambda>(n, v). v_disc v \<noteq> Some []) EmbeddedResourceResource_named"
    by (simp add: EmbeddedResourceResource_named_def EmbeddedResourceResource_as_TextResourceContents_def
      EmbeddedResourceResource_as_BlobResourceContents_def)
  show "sorted_wrt rivals EmbeddedResourceResource_named"
    by (simp add: EmbeddedResourceResource_named_def EmbeddedResourceResource_zero_def
      EmbeddedResourceResource_as_TextResourceContents_def EmbeddedResourceResource_as_BlobResourceContents_def
      TextResourceContents_names BlobResourceContents_names)
qed

lemma EmbeddedResourceResource_wire [simp]: "9002 \<le> E \<Longrightarrow> wire E s EmbeddedResourceResource_codec"
  using wire_mono [OF wire_union [OF EmbeddedResourceResource_law, where zero = EmbeddedResourceResource_zero], where e = E and s' = s]
  by (simp add: EmbeddedResourceResource_codec_def EmbeddedResourceResource_UnmarshalJSON_def
    EmbeddedResourceResource_MarshalJSON_def EmbeddedResourceResource_variants_def
    EmbeddedResourceResource_named_def max_depth_def)

lemma EmbeddedResourceResource_zero_codec [simp]: "c_zero EmbeddedResourceResource_codec = EmbeddedResourceResource_zero"
  by (simp add: EmbeddedResourceResource_codec_def)

lemma EmbeddedResourceResource_one: "list_all (\<lambda>v. builds v (\<lambda>u. variants_set EmbeddedResourceResource_variants u = 1)) EmbeddedResourceResource_variants"
  by (simp add: EmbeddedResourceResource_variants_def EmbeddedResourceResource_zero_def
      EmbeddedResourceResource_as_TextResourceContents_def EmbeddedResourceResource_as_BlobResourceContents_def)

interpretation embeddedresourceresource_wire: wire_type EmbeddedResourceResource_codec 9002
  by unfold_locales (simp_all add: max_depth_def)

lemma EmbeddedResourceResource_valid: "c_fine EmbeddedResourceResource_codec u \<Longrightarrow> EmbeddedResourceResource_Validate u = None"
  unfolding EmbeddedResourceResource_Validate_def validate_union_def
  by (rule embeddedresourceresource_wire.validated) (simp_all add: EmbeddedResourceResource_codec_def union_fine_one [OF EmbeddedResourceResource_one])

subsection \<open>\<open>ContentBlockResource\<close>\<close>

record ContentBlockResource =
  Meta :: "(string \<times> string) list option"
  Annotations :: "Annotations option"
  Resource :: "EmbeddedResourceResource"
  Type :: "string"

definition ContentBlockResource_zero :: ContentBlockResource where
  "ContentBlockResource_zero = \<lparr>Meta = None, Annotations = None, Resource =
      EmbeddedResourceResource_zero, Type = []\<rparr>"

definition ContentBlockResource_fields :: "ContentBlockResource fld list" where
  "ContentBlockResource_fields =
     [go_field ''_meta'' True (go_map go_raw) ContentBlockResource.Meta ContentBlockResource.Meta_update,
      go_field ''annotations'' True (go_ptr Annotations_codec) ContentBlockResource.Annotations
          ContentBlockResource.Annotations_update,
      go_field ''resource'' False EmbeddedResourceResource_codec ContentBlockResource.Resource
          ContentBlockResource.Resource_update,
      go_field ''type'' False (go_tag ''resource'') ContentBlockResource.Type ContentBlockResource.Type_update]"

definition ContentBlockResource_codec :: "ContentBlockResource codec" where
  "ContentBlockResource_codec = go_struct ContentBlockResource_zero ContentBlockResource_fields"

lemma ContentBlockResource_zero_codec [simp]: "c_zero ContentBlockResource_codec = ContentBlockResource_zero"
  by (simp add: ContentBlockResource_codec_def)

lemma ContentBlockResource_obj:
  "obj 9002 (map f_name ContentBlockResource_fields)
     [typed ''resource'' EmbeddedResourceResource_codec,
      typed ''type'' go_string,
      tagged ''type'' ''resource'']
     ContentBlockResource_codec"
  unfolding ContentBlockResource_codec_def
  by (rule struct_obj) (simp_all add: ContentBlockResource_fields_def ContentBlockResource_zero_def
        max_depth_def)

lemma ContentBlockResource_wire [simp]: "9003 \<le> E \<Longrightarrow> wire E s ContentBlockResource_codec"
  using wire_mono [OF wire_obj [OF ContentBlockResource_obj], of E s] by simp

subsection \<open>\<open>ContentBlock\<close>\<close>

record ContentBlock =
  Text :: "ContentBlockText option"
  Image :: "ContentBlockImage option"
  Audio :: "ContentBlockAudio option"
  ResourceLink :: "ContentBlockResourceLink option"
  Resource :: "ContentBlockResource option"

definition ContentBlock_zero :: ContentBlock where
  "ContentBlock_zero = \<lparr>Text = None, Image = None, Audio = None, ResourceLink = None, Resource =
      None\<rparr>"

definition ContentBlock_as_Text :: "ContentBlock variant" where
  "ContentBlock_as_Text =
     go_variant (Some ''text'')
       [typed ''text'' go_string,
        typed ''type'' go_string]
       ContentBlockText_codec ContentBlock.Text (\<lambda>x. ContentBlock_zero\<lparr>ContentBlock.Text := Some
         x\<rparr>)"

definition ContentBlock_as_Image :: "ContentBlock variant" where
  "ContentBlock_as_Image =
     go_variant (Some ''image'')
       [typed ''data'' go_string,
        typed ''mimeType'' go_string,
        typed ''type'' go_string]
       ContentBlockImage_codec ContentBlock.Image (\<lambda>x. ContentBlock_zero\<lparr>ContentBlock.Image :=
         Some x\<rparr>)"

definition ContentBlock_as_Audio :: "ContentBlock variant" where
  "ContentBlock_as_Audio =
     go_variant (Some ''audio'')
       [typed ''data'' go_string,
        typed ''mimeType'' go_string,
        typed ''type'' go_string]
       ContentBlockAudio_codec ContentBlock.Audio (\<lambda>x. ContentBlock_zero\<lparr>ContentBlock.Audio :=
         Some x\<rparr>)"

definition ContentBlock_as_ResourceLink :: "ContentBlock variant" where
  "ContentBlock_as_ResourceLink =
     go_variant (Some ''resource_link'')
       [typed ''name'' go_string,
        typed ''type'' go_string,
        typed ''uri'' go_string]
       ContentBlockResourceLink_codec ContentBlock.ResourceLink (\<lambda>x.
         ContentBlock_zero\<lparr>ContentBlock.ResourceLink := Some x\<rparr>)"

definition ContentBlock_as_Resource :: "ContentBlock variant" where
  "ContentBlock_as_Resource =
     go_variant (Some ''resource'')
       [typed ''resource'' EmbeddedResourceResource_codec,
        typed ''type'' go_string]
       ContentBlockResource_codec ContentBlock.Resource (\<lambda>x.
         ContentBlock_zero\<lparr>ContentBlock.Resource := Some x\<rparr>)"

definition ContentBlock_variants :: "ContentBlock variant list" where
  "ContentBlock_variants =
     [ContentBlock_as_Text,
      ContentBlock_as_Image,
      ContentBlock_as_Audio,
      ContentBlock_as_ResourceLink,
      ContentBlock_as_Resource]"

definition ContentBlock_UnmarshalJSON :: "raw_json \<Rightarrow> ContentBlock decoded" where
  "ContentBlock_UnmarshalJSON = unmarshal_union ''type'' ContentBlock_variants"

definition ContentBlock_MarshalJSON :: "ContentBlock \<Rightarrow> string option" where
  "ContentBlock_MarshalJSON = marshal_union ''type'' ContentBlock_variants"

definition ContentBlock_codec :: "ContentBlock codec" where
  "ContentBlock_codec = go_union ContentBlock_zero ContentBlock_UnmarshalJSON ContentBlock_MarshalJSON
      ContentBlock_variants"

definition ContentBlock_Validate :: "ContentBlock \<Rightarrow> invalid option" where
  "ContentBlock_Validate = validate_union True ''ContentBlock'' ContentBlock_codec ContentBlock_variants"

definition ContentBlock_named :: "(string list \<times> ContentBlock variant) list" where
  "ContentBlock_named =
     [(map f_name ContentBlockText_fields, ContentBlock_as_Text),
      (map f_name ContentBlockImage_fields, ContentBlock_as_Image),
      (map f_name ContentBlockAudio_fields, ContentBlock_as_Audio),
      (map f_name ContentBlockResourceLink_fields, ContentBlock_as_ResourceLink),
      (map f_name ContentBlockResource_fields, ContentBlock_as_Resource)]"

lemma ContentBlock_Text_law:
  "variant_law 9002 ''type'' (map f_name ContentBlockText_fields) ContentBlock_as_Text"
  unfolding ContentBlock_as_Text_def
  by (rule go_variant_law [OF obj_mono [OF ContentBlockText_obj]]) (simp_all)

lemma ContentBlock_Image_law:
  "variant_law 9002 ''type'' (map f_name ContentBlockImage_fields) ContentBlock_as_Image"
  unfolding ContentBlock_as_Image_def
  by (rule go_variant_law [OF obj_mono [OF ContentBlockImage_obj]]) (simp_all)

lemma ContentBlock_Audio_law:
  "variant_law 9002 ''type'' (map f_name ContentBlockAudio_fields) ContentBlock_as_Audio"
  unfolding ContentBlock_as_Audio_def
  by (rule go_variant_law [OF obj_mono [OF ContentBlockAudio_obj]]) (simp_all)

lemma ContentBlock_ResourceLink_law:
  "variant_law 9002 ''type'' (map f_name ContentBlockResourceLink_fields) ContentBlock_as_ResourceLink"
  unfolding ContentBlock_as_ResourceLink_def
  by (rule go_variant_law [OF obj_mono [OF ContentBlockResourceLink_obj]]) (simp_all)

lemma ContentBlock_Resource_law:
  "variant_law 9002 ''type'' (map f_name ContentBlockResource_fields) ContentBlock_as_Resource"
  unfolding ContentBlock_as_Resource_def
  by (rule go_variant_law [OF obj_mono [OF ContentBlockResource_obj]]) (simp_all)

lemma ContentBlock_law: "union_law 9002 ''type'' ContentBlock_named"
proof (rule union_lawI)
  show "list_all (\<lambda>(n, v). variant_law 9002 ''type'' n v) ContentBlock_named"
    by (simp add: ContentBlock_named_def ContentBlock_Text_law ContentBlock_Image_law ContentBlock_Audio_law
      ContentBlock_ResourceLink_law ContentBlock_Resource_law)
  show "list_all (\<lambda>(n, v). v_disc v \<noteq> Some []) ContentBlock_named"
    by (simp add: ContentBlock_named_def ContentBlock_as_Text_def ContentBlock_as_Image_def
      ContentBlock_as_Audio_def ContentBlock_as_ResourceLink_def ContentBlock_as_Resource_def)
  show "sorted_wrt rivals ContentBlock_named"
    by (simp add: ContentBlock_named_def ContentBlock_zero_def ContentBlock_as_Text_def
      ContentBlock_as_Image_def ContentBlock_as_Audio_def ContentBlock_as_ResourceLink_def
      ContentBlock_as_Resource_def)
qed

lemma ContentBlock_wire [simp]: "9003 \<le> E \<Longrightarrow> wire E s ContentBlock_codec"
  using wire_mono [OF wire_union [OF ContentBlock_law, where zero = ContentBlock_zero], where e = E and s' = s]
  by (simp add: ContentBlock_codec_def ContentBlock_UnmarshalJSON_def ContentBlock_MarshalJSON_def
    ContentBlock_variants_def ContentBlock_named_def max_depth_def)

lemma ContentBlock_zero_codec [simp]: "c_zero ContentBlock_codec = ContentBlock_zero"
  by (simp add: ContentBlock_codec_def)

lemma ContentBlock_one: "list_all (\<lambda>v. builds v (\<lambda>u. variants_set ContentBlock_variants u = 1)) ContentBlock_variants"
  by (simp add: ContentBlock_variants_def ContentBlock_zero_def ContentBlock_as_Text_def
      ContentBlock_as_Image_def ContentBlock_as_Audio_def ContentBlock_as_ResourceLink_def
      ContentBlock_as_Resource_def)

interpretation contentblock_wire: wire_type ContentBlock_codec 9003
  by unfold_locales (simp_all add: max_depth_def)

lemma ContentBlock_valid: "c_fine ContentBlock_codec u \<Longrightarrow> ContentBlock_Validate u = None"
  unfolding ContentBlock_Validate_def validate_union_def
  by (rule contentblock_wire.validated) (simp_all add: ContentBlock_codec_def union_fine_one [OF ContentBlock_one])

section \<open>Content on its own\<close>

subsection \<open>\<open>Content\<close>\<close>

record Content =
  Meta :: "(string \<times> string) list option"
  Content :: "ContentBlock"

definition Content_zero :: Content where
  "Content_zero = \<lparr>Meta = None, Content = ContentBlock_zero\<rparr>"

definition Content_fields :: "Content fld list" where
  "Content_fields =
     [go_field ''_meta'' True (go_map go_raw) Content.Meta Content.Meta_update,
      go_field ''content'' False ContentBlock_codec Content.Content Content.Content_update]"

definition Content_UnmarshalJSON :: "raw_json \<Rightarrow> Content decoded" where
  "Content_UnmarshalJSON =
     decode_struct
       [required ''content'']
       (go_struct Content_zero Content_fields)
       (in_turn [])"

definition Content_codec :: "Content codec" where
  "Content_codec = with_unmarshal Content_UnmarshalJSON (go_struct Content_zero Content_fields)"

lemma Content_zero_codec [simp]: "c_zero Content_codec = Content_zero"
  by (simp add: Content_codec_def)

lemma Content_obj:
  "obj 9003 (map f_name Content_fields)
     [required ''content'']
     Content_codec"
  unfolding Content_codec_def Content_UnmarshalJSON_def
  by (rule unmarshal_obj) (simp_all add: Content_fields_def Content_zero_def max_depth_def)

lemma Content_wire [simp]: "9004 \<le> E \<Longrightarrow> wire E s Content_codec"
  using wire_mono [OF wire_obj [OF Content_obj], of E s] by simp

subsection \<open>\<open>ContentChunk\<close>\<close>

record ContentChunk =
  Meta :: "(string \<times> string) list option"
  Content :: "ContentBlock"
  MessageId :: "string option"

definition ContentChunk_zero :: ContentChunk where
  "ContentChunk_zero = \<lparr>Meta = None, Content = ContentBlock_zero, MessageId = None\<rparr>"

definition ContentChunk_fields :: "ContentChunk fld list" where
  "ContentChunk_fields =
     [go_field ''_meta'' True (go_map go_raw) ContentChunk.Meta ContentChunk.Meta_update,
      go_field ''content'' False ContentBlock_codec ContentChunk.Content ContentChunk.Content_update,
      go_field ''messageId'' True (go_ptr go_string) ContentChunk.MessageId ContentChunk.MessageId_update]"

definition ContentChunk_UnmarshalJSON :: "raw_json \<Rightarrow> ContentChunk decoded" where
  "ContentChunk_UnmarshalJSON =
     decode_struct
       [required ''content'']
       (go_struct ContentChunk_zero ContentChunk_fields)
       (in_turn [])"

definition ContentChunk_codec :: "ContentChunk codec" where
  "ContentChunk_codec = with_unmarshal ContentChunk_UnmarshalJSON (go_struct ContentChunk_zero
      ContentChunk_fields)"

lemma ContentChunk_zero_codec [simp]: "c_zero ContentChunk_codec = ContentChunk_zero"
  by (simp add: ContentChunk_codec_def)

lemma ContentChunk_obj:
  "obj 9003 (map f_name ContentChunk_fields)
     [required ''content'']
     ContentChunk_codec"
  unfolding ContentChunk_codec_def ContentChunk_UnmarshalJSON_def
  by (rule unmarshal_obj) (simp_all add: ContentChunk_fields_def ContentChunk_zero_def max_depth_def)

lemma ContentChunk_wire [simp]: "9004 \<le> E \<Longrightarrow> wire E s ContentChunk_codec"
  using wire_mono [OF wire_obj [OF ContentChunk_obj], of E s] by simp

subsection \<open>\<open>TextContent\<close>\<close>

record TextContent =
  Meta :: "(string \<times> string) list option"
  Annotations :: "Annotations option"
  Text :: "string"

definition TextContent_zero :: TextContent where
  "TextContent_zero = \<lparr>Meta = None, Annotations = None, Text = []\<rparr>"

definition TextContent_fields :: "TextContent fld list" where
  "TextContent_fields =
     [go_field ''_meta'' True (go_map go_raw) TextContent.Meta TextContent.Meta_update,
      go_field ''annotations'' True (go_ptr Annotations_codec) TextContent.Annotations
          TextContent.Annotations_update,
      go_field ''text'' False go_string TextContent.Text TextContent.Text_update]"

definition TextContent_UnmarshalJSON :: "raw_json \<Rightarrow> TextContent decoded" where
  "TextContent_UnmarshalJSON =
     decode_struct
       [required ''text'']
       (go_struct TextContent_zero TextContent_fields)
       (in_turn [])"

definition TextContent_codec :: "TextContent codec" where
  "TextContent_codec = with_unmarshal TextContent_UnmarshalJSON (go_struct TextContent_zero TextContent_fields)"

lemma TextContent_zero_codec [simp]: "c_zero TextContent_codec = TextContent_zero"
  by (simp add: TextContent_codec_def)

lemma TextContent_obj:
  "obj 9002 (map f_name TextContent_fields)
     [required ''text'']
     TextContent_codec"
  unfolding TextContent_codec_def TextContent_UnmarshalJSON_def
  by (rule unmarshal_obj) (simp_all add: TextContent_fields_def TextContent_zero_def max_depth_def)

lemma TextContent_wire [simp]: "9003 \<le> E \<Longrightarrow> wire E s TextContent_codec"
  using wire_mono [OF wire_obj [OF TextContent_obj], of E s] by simp

subsection \<open>\<open>ImageContent\<close>\<close>

record ImageContent =
  Meta :: "(string \<times> string) list option"
  Annotations :: "Annotations option"
  Data :: "string"
  MimeType :: "string"
  Uri :: "string option"

definition ImageContent_zero :: ImageContent where
  "ImageContent_zero = \<lparr>Meta = None, Annotations = None, Data = [], MimeType = [], Uri = None\<rparr>"

definition ImageContent_fields :: "ImageContent fld list" where
  "ImageContent_fields =
     [go_field ''_meta'' True (go_map go_raw) ImageContent.Meta ImageContent.Meta_update,
      go_field ''annotations'' True (go_ptr Annotations_codec) ImageContent.Annotations
          ImageContent.Annotations_update,
      go_field ''data'' False go_string ImageContent.Data ImageContent.Data_update,
      go_field ''mimeType'' False go_string ImageContent.MimeType ImageContent.MimeType_update,
      go_field ''uri'' True (go_ptr go_string) ImageContent.Uri ImageContent.Uri_update]"

definition ImageContent_UnmarshalJSON :: "raw_json \<Rightarrow> ImageContent decoded" where
  "ImageContent_UnmarshalJSON =
     decode_struct
       [required ''data'',
        required ''mimeType'']
       (go_struct ImageContent_zero ImageContent_fields)
       (in_turn [])"

definition ImageContent_codec :: "ImageContent codec" where
  "ImageContent_codec = with_unmarshal ImageContent_UnmarshalJSON (go_struct ImageContent_zero
      ImageContent_fields)"

lemma ImageContent_zero_codec [simp]: "c_zero ImageContent_codec = ImageContent_zero"
  by (simp add: ImageContent_codec_def)

lemma ImageContent_obj:
  "obj 9002 (map f_name ImageContent_fields)
     [required ''data'',
      required ''mimeType'']
     ImageContent_codec"
  unfolding ImageContent_codec_def ImageContent_UnmarshalJSON_def
  by (rule unmarshal_obj) (simp_all add: ImageContent_fields_def ImageContent_zero_def max_depth_def)

lemma ImageContent_wire [simp]: "9003 \<le> E \<Longrightarrow> wire E s ImageContent_codec"
  using wire_mono [OF wire_obj [OF ImageContent_obj], of E s] by simp

subsection \<open>\<open>AudioContent\<close>\<close>

record AudioContent =
  Meta :: "(string \<times> string) list option"
  Annotations :: "Annotations option"
  Data :: "string"
  MimeType :: "string"

definition AudioContent_zero :: AudioContent where
  "AudioContent_zero = \<lparr>Meta = None, Annotations = None, Data = [], MimeType = []\<rparr>"

definition AudioContent_fields :: "AudioContent fld list" where
  "AudioContent_fields =
     [go_field ''_meta'' True (go_map go_raw) AudioContent.Meta AudioContent.Meta_update,
      go_field ''annotations'' True (go_ptr Annotations_codec) AudioContent.Annotations
          AudioContent.Annotations_update,
      go_field ''data'' False go_string AudioContent.Data AudioContent.Data_update,
      go_field ''mimeType'' False go_string AudioContent.MimeType AudioContent.MimeType_update]"

definition AudioContent_UnmarshalJSON :: "raw_json \<Rightarrow> AudioContent decoded" where
  "AudioContent_UnmarshalJSON =
     decode_struct
       [required ''data'',
        required ''mimeType'']
       (go_struct AudioContent_zero AudioContent_fields)
       (in_turn [])"

definition AudioContent_codec :: "AudioContent codec" where
  "AudioContent_codec = with_unmarshal AudioContent_UnmarshalJSON (go_struct AudioContent_zero
      AudioContent_fields)"

lemma AudioContent_zero_codec [simp]: "c_zero AudioContent_codec = AudioContent_zero"
  by (simp add: AudioContent_codec_def)

lemma AudioContent_obj:
  "obj 9002 (map f_name AudioContent_fields)
     [required ''data'',
      required ''mimeType'']
     AudioContent_codec"
  unfolding AudioContent_codec_def AudioContent_UnmarshalJSON_def
  by (rule unmarshal_obj) (simp_all add: AudioContent_fields_def AudioContent_zero_def max_depth_def)

lemma AudioContent_wire [simp]: "9003 \<le> E \<Longrightarrow> wire E s AudioContent_codec"
  using wire_mono [OF wire_obj [OF AudioContent_obj], of E s] by simp

subsection \<open>\<open>ResourceLink\<close>\<close>

record ResourceLink =
  Meta :: "(string \<times> string) list option"
  Annotations :: "Annotations option"
  Description :: "string option"
  MimeType :: "string option"
  Name :: "string"
  Size :: "int option"
  Title :: "string option"
  Uri :: "string"

definition ResourceLink_zero :: ResourceLink where
  "ResourceLink_zero = \<lparr>Meta = None, Annotations = None, Description = None, MimeType = None, Name = [],
      Size = None, Title = None, Uri = []\<rparr>"

definition ResourceLink_fields :: "ResourceLink fld list" where
  "ResourceLink_fields =
     [go_field ''_meta'' True (go_map go_raw) ResourceLink.Meta ResourceLink.Meta_update,
      go_field ''annotations'' True (go_ptr Annotations_codec) ResourceLink.Annotations
          ResourceLink.Annotations_update,
      go_field ''description'' True (go_ptr go_string) ResourceLink.Description ResourceLink.Description_update,
      go_field ''mimeType'' True (go_ptr go_string) ResourceLink.MimeType ResourceLink.MimeType_update,
      go_field ''name'' False go_string ResourceLink.Name ResourceLink.Name_update,
      go_field ''size'' True (go_ptr go_int64) ResourceLink.Size ResourceLink.Size_update,
      go_field ''title'' True (go_ptr go_string) ResourceLink.Title ResourceLink.Title_update,
      go_field ''uri'' False go_string ResourceLink.Uri ResourceLink.Uri_update]"

definition ResourceLink_UnmarshalJSON :: "raw_json \<Rightarrow> ResourceLink decoded" where
  "ResourceLink_UnmarshalJSON =
     decode_struct
       [required ''name'',
        required ''uri'']
       (go_struct ResourceLink_zero ResourceLink_fields)
       (in_turn [])"

definition ResourceLink_codec :: "ResourceLink codec" where
  "ResourceLink_codec = with_unmarshal ResourceLink_UnmarshalJSON (go_struct ResourceLink_zero
      ResourceLink_fields)"

lemma ResourceLink_zero_codec [simp]: "c_zero ResourceLink_codec = ResourceLink_zero"
  by (simp add: ResourceLink_codec_def)

lemma ResourceLink_obj:
  "obj 9002 (map f_name ResourceLink_fields)
     [required ''name'',
      required ''uri'']
     ResourceLink_codec"
  unfolding ResourceLink_codec_def ResourceLink_UnmarshalJSON_def
  by (rule unmarshal_obj) (simp_all add: ResourceLink_fields_def ResourceLink_zero_def max_depth_def)

lemma ResourceLink_wire [simp]: "9003 \<le> E \<Longrightarrow> wire E s ResourceLink_codec"
  using wire_mono [OF wire_obj [OF ResourceLink_obj], of E s] by simp

subsection \<open>\<open>EmbeddedResource\<close>\<close>

record EmbeddedResource =
  Meta :: "(string \<times> string) list option"
  Annotations :: "Annotations option"
  Resource :: "EmbeddedResourceResource"

definition EmbeddedResource_zero :: EmbeddedResource where
  "EmbeddedResource_zero = \<lparr>Meta = None, Annotations = None, Resource =
      EmbeddedResourceResource_zero\<rparr>"

definition EmbeddedResource_fields :: "EmbeddedResource fld list" where
  "EmbeddedResource_fields =
     [go_field ''_meta'' True (go_map go_raw) EmbeddedResource.Meta EmbeddedResource.Meta_update,
      go_field ''annotations'' True (go_ptr Annotations_codec) EmbeddedResource.Annotations
          EmbeddedResource.Annotations_update,
      go_field ''resource'' False EmbeddedResourceResource_codec EmbeddedResource.Resource
          EmbeddedResource.Resource_update]"

definition EmbeddedResource_UnmarshalJSON :: "raw_json \<Rightarrow> EmbeddedResource decoded" where
  "EmbeddedResource_UnmarshalJSON =
     decode_struct
       [required ''resource'']
       (go_struct EmbeddedResource_zero EmbeddedResource_fields)
       (in_turn [])"

definition EmbeddedResource_codec :: "EmbeddedResource codec" where
  "EmbeddedResource_codec = with_unmarshal EmbeddedResource_UnmarshalJSON (go_struct EmbeddedResource_zero
      EmbeddedResource_fields)"

lemma EmbeddedResource_zero_codec [simp]: "c_zero EmbeddedResource_codec = EmbeddedResource_zero"
  by (simp add: EmbeddedResource_codec_def)

lemma EmbeddedResource_obj:
  "obj 9002 (map f_name EmbeddedResource_fields)
     [required ''resource'']
     EmbeddedResource_codec"
  unfolding EmbeddedResource_codec_def EmbeddedResource_UnmarshalJSON_def
  by (rule unmarshal_obj) (simp_all add: EmbeddedResource_fields_def EmbeddedResource_zero_def max_depth_def)

lemma EmbeddedResource_wire [simp]: "9003 \<le> E \<Longrightarrow> wire E s EmbeddedResource_codec"
  using wire_mono [OF wire_obj [OF EmbeddedResource_obj], of E s] by simp

section \<open>Properties\<close>

lemma ContentBlock_disc:
  "map v_disc ContentBlock_variants = map Some [''text'', ''image'', ''audio'', ''resource_link'', ''resource'']"
  by (simp add: ContentBlock_variants_def ContentBlock_as_Text_def ContentBlock_as_Image_def ContentBlock_as_Audio_def
      ContentBlock_as_ResourceLink_def ContentBlock_as_Resource_def)

lemma ContentBlock_decoded:
  assumes "ContentBlock_UnmarshalJSON (r, JObj ms) = Good b"
  shows "\<exists>v \<in> set ContentBlock_variants. v_disc v = Some (discriminator ''type'' ms) \<and> run_checks (v_checks v) ms = None \<and>
    v_dec v (r, JObj ms) = Good b"
proof -
  have plain: "find (\<lambda>v. v_disc v = None \<and> P v) ContentBlock_variants = None" for P
    using ContentBlock_disc by (auto simp: find_None_iff ContentBlock_variants_def)
  from assms show ?thesis
    by (auto simp: ContentBlock_UnmarshalJSON_def unmarshal_union_def members_of_def plain decode_variant_def find_Some_iff
        split: option.splits decoded.splits)
qed

text \<open>C12: A content block that is decoded has exactly one variant, and it is the one that the
  \<open>type\<close> of the object names; any other type, or an object without one, is refused.
\<close>

theorem content_block_typed:
  assumes "ContentBlock_UnmarshalJSON (r, JObj ms) = Good b"
  shows "variants_set ContentBlock_variants b = 1 \<and>
    (if discriminator ''type'' ms = ''text'' then ContentBlock.Text b \<noteq> None
     else if discriminator ''type'' ms = ''image'' then ContentBlock.Image b \<noteq> None
     else if discriminator ''type'' ms = ''audio'' then ContentBlock.Audio b \<noteq> None
     else if discriminator ''type'' ms = ''resource_link'' then ContentBlock.ResourceLink b \<noteq> None
     else discriminator ''type'' ms = ''resource'' \<and> ContentBlock.Resource b \<noteq> None)"
proof -
  have "variants_set ContentBlock_variants b = 1"
    using assms union_decodes_one [OF ContentBlock_one] by (simp add: ContentBlock_UnmarshalJSON_def)
  moreover from ContentBlock_decoded [OF assms] obtain v where "v \<in> set ContentBlock_variants"
    "v_disc v = Some (discriminator ''type'' ms)" "v_dec v (r, JObj ms) = Good b" by blast
  ultimately show ?thesis
    by (auto simp: ContentBlock_variants_def ContentBlock_as_Text_def ContentBlock_as_Image_def ContentBlock_as_Audio_def
        ContentBlock_as_ResourceLink_def ContentBlock_as_Resource_def go_variant_decoded)
qed

theorem content_block_typed_witness:
  "ContentBlock.Text (case ContentBlock_UnmarshalJSON ([], JObj [(''type'', [], JStr ''text''), (''text'', [], JStr ''hi'')]) of
     Good b \<Rightarrow> b) \<noteq> None"
proof -
  have "case ContentBlock_UnmarshalJSON ([], JObj [(''type'', [], JStr ''text''), (''text'', [], JStr ''hi'')]) of
      Good b \<Rightarrow> True | _ \<Rightarrow> False"
    by (simp add: ContentBlock_UnmarshalJSON_def unmarshal_union_def members_of_def ContentBlock_variants_def
        ContentBlock_as_Text_def go_variant_def discriminator_def field_def typed_def go_string_def decode_variant_def
        ContentBlockText_codec_def go_struct_def ContentBlockText_fields_def ContentBlockText_zero_def find_field_def
        match_field_def go_field_def go_tag_def)
  then obtain b where b: "ContentBlock_UnmarshalJSON ([], JObj [(''type'', [], JStr ''text''), (''text'', [], JStr ''hi'')]) = Good b"
    by (auto split: decoded.splits)
  then show ?thesis using content_block_typed [OF b] by (simp add: discriminator_def field_def)
qed

end
