(* ===== verification/WireTool.thy ===== *)
theory WireTool
  imports WireContent
begin

text \<open>
  Tool calls, what they produce and touch, the permission that a client is asked for, and plans.
\<close>

section \<open>Tool calls\<close>

subsection \<open>\<open>ToolCallContentContent\<close>\<close>

record ToolCallContentContent =
  Meta :: "(string \<times> string) list option"
  Content :: "ContentBlock"
  Type :: "string"

definition ToolCallContentContent_zero :: ToolCallContentContent where
  "ToolCallContentContent_zero = \<lparr>Meta = None, Content = ContentBlock_zero, Type = []\<rparr>"

definition ToolCallContentContent_fields :: "ToolCallContentContent fld list" where
  "ToolCallContentContent_fields =
     [go_field ''_meta'' True (go_map go_raw) ToolCallContentContent.Meta ToolCallContentContent.Meta_update,
      go_field ''content'' False ContentBlock_codec ToolCallContentContent.Content
          ToolCallContentContent.Content_update,
      go_field ''type'' False (go_tag ''content'') ToolCallContentContent.Type
          ToolCallContentContent.Type_update]"

definition ToolCallContentContent_codec :: "ToolCallContentContent codec" where
  "ToolCallContentContent_codec = go_struct ToolCallContentContent_zero ToolCallContentContent_fields"

lemma ToolCallContentContent_zero_codec [simp]: "c_zero ToolCallContentContent_codec = ToolCallContentContent_zero"
  by (simp add: ToolCallContentContent_codec_def)

lemma ToolCallContentContent_obj:
  "obj 9003 (map f_name ToolCallContentContent_fields)
     [typed ''content'' ContentBlock_codec,
      typed ''type'' go_string,
      tagged ''type'' ''content'']
     ToolCallContentContent_codec"
  unfolding ToolCallContentContent_codec_def
  by (rule struct_obj) (simp_all add: ToolCallContentContent_fields_def ToolCallContentContent_zero_def
        max_depth_def)

lemma ToolCallContentContent_wire [simp]: "9004 \<le> E \<Longrightarrow> wire E s ToolCallContentContent_codec"
  using wire_mono [OF wire_obj [OF ToolCallContentContent_obj], of E s] by simp

subsection \<open>\<open>ToolCallContentDiff\<close>\<close>

record ToolCallContentDiff =
  Meta :: "(string \<times> string) list option"
  NewText :: "string"
  OldText :: "string option"
  Path :: "string"
  Type :: "string"

definition ToolCallContentDiff_zero :: ToolCallContentDiff where
  "ToolCallContentDiff_zero = \<lparr>Meta = None, NewText = [], OldText = None, Path = [], Type = []\<rparr>"

definition ToolCallContentDiff_fields :: "ToolCallContentDiff fld list" where
  "ToolCallContentDiff_fields =
     [go_field ''_meta'' True (go_map go_raw) ToolCallContentDiff.Meta ToolCallContentDiff.Meta_update,
      go_field ''newText'' False go_string ToolCallContentDiff.NewText ToolCallContentDiff.NewText_update,
      go_field ''oldText'' True (go_ptr go_string) ToolCallContentDiff.OldText
          ToolCallContentDiff.OldText_update,
      go_field ''path'' False go_string ToolCallContentDiff.Path ToolCallContentDiff.Path_update,
      go_field ''type'' False (go_tag ''diff'') ToolCallContentDiff.Type ToolCallContentDiff.Type_update]"

definition ToolCallContentDiff_codec :: "ToolCallContentDiff codec" where
  "ToolCallContentDiff_codec = go_struct ToolCallContentDiff_zero ToolCallContentDiff_fields"

lemma ToolCallContentDiff_zero_codec [simp]: "c_zero ToolCallContentDiff_codec = ToolCallContentDiff_zero"
  by (simp add: ToolCallContentDiff_codec_def)

lemma ToolCallContentDiff_obj:
  "obj 9001 (map f_name ToolCallContentDiff_fields)
     [typed ''newText'' go_string,
      typed ''path'' go_string,
      typed ''type'' go_string,
      tagged ''type'' ''diff'']
     ToolCallContentDiff_codec"
  unfolding ToolCallContentDiff_codec_def
  by (rule struct_obj) (simp_all add: ToolCallContentDiff_fields_def ToolCallContentDiff_zero_def max_depth_def)

lemma ToolCallContentDiff_wire [simp]: "9002 \<le> E \<Longrightarrow> wire E s ToolCallContentDiff_codec"
  using wire_mono [OF wire_obj [OF ToolCallContentDiff_obj], of E s] by simp

subsection \<open>\<open>ToolCallContentTerminal\<close>\<close>

record ToolCallContentTerminal =
  Meta :: "(string \<times> string) list option"
  TerminalId :: "string"
  Type :: "string"

definition ToolCallContentTerminal_zero :: ToolCallContentTerminal where
  "ToolCallContentTerminal_zero = \<lparr>Meta = None, TerminalId = [], Type = []\<rparr>"

definition ToolCallContentTerminal_fields :: "ToolCallContentTerminal fld list" where
  "ToolCallContentTerminal_fields =
     [go_field ''_meta'' True (go_map go_raw) ToolCallContentTerminal.Meta ToolCallContentTerminal.Meta_update,
      go_field ''terminalId'' False go_string ToolCallContentTerminal.TerminalId
          ToolCallContentTerminal.TerminalId_update,
      go_field ''type'' False (go_tag ''terminal'') ToolCallContentTerminal.Type
          ToolCallContentTerminal.Type_update]"

definition ToolCallContentTerminal_codec :: "ToolCallContentTerminal codec" where
  "ToolCallContentTerminal_codec = go_struct ToolCallContentTerminal_zero ToolCallContentTerminal_fields"

lemma ToolCallContentTerminal_zero_codec [simp]: "c_zero ToolCallContentTerminal_codec = ToolCallContentTerminal_zero"
  by (simp add: ToolCallContentTerminal_codec_def)

lemma ToolCallContentTerminal_obj:
  "obj 9001 (map f_name ToolCallContentTerminal_fields)
     [typed ''terminalId'' go_string,
      typed ''type'' go_string,
      tagged ''type'' ''terminal'']
     ToolCallContentTerminal_codec"
  unfolding ToolCallContentTerminal_codec_def
  by (rule struct_obj) (simp_all add: ToolCallContentTerminal_fields_def ToolCallContentTerminal_zero_def
        max_depth_def)

lemma ToolCallContentTerminal_wire [simp]: "9002 \<le> E \<Longrightarrow> wire E s ToolCallContentTerminal_codec"
  using wire_mono [OF wire_obj [OF ToolCallContentTerminal_obj], of E s] by simp

subsection \<open>\<open>ToolCallContent\<close>\<close>

record ToolCallContent =
  Content :: "ToolCallContentContent option"
  Diff :: "ToolCallContentDiff option"
  Terminal :: "ToolCallContentTerminal option"

definition ToolCallContent_zero :: ToolCallContent where
  "ToolCallContent_zero = \<lparr>Content = None, Diff = None, Terminal = None\<rparr>"

definition ToolCallContent_as_Content :: "ToolCallContent variant" where
  "ToolCallContent_as_Content =
     go_variant (Some ''content'')
       [typed ''content'' ContentBlock_codec,
        typed ''type'' go_string]
       ToolCallContentContent_codec ToolCallContent.Content (\<lambda>x.
         ToolCallContent_zero\<lparr>ToolCallContent.Content := Some x\<rparr>)"

definition ToolCallContent_as_Diff :: "ToolCallContent variant" where
  "ToolCallContent_as_Diff =
     go_variant (Some ''diff'')
       [typed ''newText'' go_string,
        typed ''path'' go_string,
        typed ''type'' go_string]
       ToolCallContentDiff_codec ToolCallContent.Diff (\<lambda>x.
         ToolCallContent_zero\<lparr>ToolCallContent.Diff := Some x\<rparr>)"

definition ToolCallContent_as_Terminal :: "ToolCallContent variant" where
  "ToolCallContent_as_Terminal =
     go_variant (Some ''terminal'')
       [typed ''terminalId'' go_string,
        typed ''type'' go_string]
       ToolCallContentTerminal_codec ToolCallContent.Terminal (\<lambda>x.
         ToolCallContent_zero\<lparr>ToolCallContent.Terminal := Some x\<rparr>)"

definition ToolCallContent_variants :: "ToolCallContent variant list" where
  "ToolCallContent_variants =
     [ToolCallContent_as_Content,
      ToolCallContent_as_Diff,
      ToolCallContent_as_Terminal]"

definition ToolCallContent_UnmarshalJSON :: "raw_json \<Rightarrow> ToolCallContent decoded" where
  "ToolCallContent_UnmarshalJSON = unmarshal_union ''type'' ToolCallContent_variants"

definition ToolCallContent_MarshalJSON :: "ToolCallContent \<Rightarrow> string option" where
  "ToolCallContent_MarshalJSON = marshal_union ''type'' ToolCallContent_variants"

definition ToolCallContent_codec :: "ToolCallContent codec" where
  "ToolCallContent_codec = go_union ToolCallContent_zero ToolCallContent_UnmarshalJSON
      ToolCallContent_MarshalJSON ToolCallContent_variants"

definition ToolCallContent_Validate :: "ToolCallContent \<Rightarrow> invalid option" where
  "ToolCallContent_Validate = validate_union True ''ToolCallContent'' ToolCallContent_codec ToolCallContent_variants"

definition ToolCallContent_named :: "(string list \<times> ToolCallContent variant) list" where
  "ToolCallContent_named =
     [(map f_name ToolCallContentContent_fields, ToolCallContent_as_Content),
      (map f_name ToolCallContentDiff_fields, ToolCallContent_as_Diff),
      (map f_name ToolCallContentTerminal_fields, ToolCallContent_as_Terminal)]"

lemma ToolCallContent_Content_law:
  "variant_law 9003 ''type'' (map f_name ToolCallContentContent_fields) ToolCallContent_as_Content"
  unfolding ToolCallContent_as_Content_def
  by (rule go_variant_law [OF obj_mono [OF ToolCallContentContent_obj]]) (simp_all)

lemma ToolCallContent_Diff_law:
  "variant_law 9003 ''type'' (map f_name ToolCallContentDiff_fields) ToolCallContent_as_Diff"
  unfolding ToolCallContent_as_Diff_def
  by (rule go_variant_law [OF obj_mono [OF ToolCallContentDiff_obj]]) (simp_all)

lemma ToolCallContent_Terminal_law:
  "variant_law 9003 ''type'' (map f_name ToolCallContentTerminal_fields) ToolCallContent_as_Terminal"
  unfolding ToolCallContent_as_Terminal_def
  by (rule go_variant_law [OF obj_mono [OF ToolCallContentTerminal_obj]]) (simp_all)

lemma ToolCallContent_law: "union_law 9003 ''type'' ToolCallContent_named"
proof (rule union_lawI)
  show "list_all (\<lambda>(n, v). variant_law 9003 ''type'' n v) ToolCallContent_named"
    by (simp add: ToolCallContent_named_def ToolCallContent_Content_law ToolCallContent_Diff_law
      ToolCallContent_Terminal_law)
  show "list_all (\<lambda>(n, v). v_disc v \<noteq> Some []) ToolCallContent_named"
    by (simp add: ToolCallContent_named_def ToolCallContent_as_Content_def ToolCallContent_as_Diff_def
      ToolCallContent_as_Terminal_def)
  show "sorted_wrt rivals ToolCallContent_named"
    by (simp add: ToolCallContent_named_def ToolCallContent_zero_def ToolCallContent_as_Content_def
      ToolCallContent_as_Diff_def ToolCallContent_as_Terminal_def)
qed

lemma ToolCallContent_wire [simp]: "9004 \<le> E \<Longrightarrow> wire E s ToolCallContent_codec"
  using wire_mono [OF wire_union [OF ToolCallContent_law, where zero = ToolCallContent_zero], where e = E and s' = s]
  by (simp add: ToolCallContent_codec_def ToolCallContent_UnmarshalJSON_def ToolCallContent_MarshalJSON_def
    ToolCallContent_variants_def ToolCallContent_named_def max_depth_def)

lemma ToolCallContent_zero_codec [simp]: "c_zero ToolCallContent_codec = ToolCallContent_zero"
  by (simp add: ToolCallContent_codec_def)

lemma ToolCallContent_one: "list_all (\<lambda>v. builds v (\<lambda>u. variants_set ToolCallContent_variants u = 1)) ToolCallContent_variants"
  by (simp add: ToolCallContent_variants_def ToolCallContent_zero_def ToolCallContent_as_Content_def
      ToolCallContent_as_Diff_def ToolCallContent_as_Terminal_def)

interpretation toolcallcontent_wire: wire_type ToolCallContent_codec 9004
  by unfold_locales (simp_all add: max_depth_def)

lemma ToolCallContent_valid: "c_fine ToolCallContent_codec u \<Longrightarrow> ToolCallContent_Validate u = None"
  unfolding ToolCallContent_Validate_def validate_union_def
  by (rule toolcallcontent_wire.validated) (simp_all add: ToolCallContent_codec_def union_fine_one [OF ToolCallContent_one])

subsection \<open>\<open>ToolCallLocation\<close>\<close>

record ToolCallLocation =
  Meta :: "(string \<times> string) list option"
  Line :: "int option"
  Path :: "string"

definition ToolCallLocation_zero :: ToolCallLocation where
  "ToolCallLocation_zero = \<lparr>Meta = None, Line = None, Path = []\<rparr>"

definition ToolCallLocation_fields :: "ToolCallLocation fld list" where
  "ToolCallLocation_fields =
     [go_field ''_meta'' True (go_map go_raw) ToolCallLocation.Meta ToolCallLocation.Meta_update,
      go_field ''line'' True (go_ptr go_uint32) ToolCallLocation.Line ToolCallLocation.Line_update,
      go_field ''path'' False go_string ToolCallLocation.Path ToolCallLocation.Path_update]"

definition ToolCallLocation_UnmarshalJSON :: "raw_json \<Rightarrow> ToolCallLocation decoded" where
  "ToolCallLocation_UnmarshalJSON =
     decode_struct
       [required ''path'']
       (go_struct ToolCallLocation_zero ToolCallLocation_fields)
       (in_turn [])"

definition ToolCallLocation_codec :: "ToolCallLocation codec" where
  "ToolCallLocation_codec = with_unmarshal ToolCallLocation_UnmarshalJSON (go_struct ToolCallLocation_zero
      ToolCallLocation_fields)"

lemma ToolCallLocation_zero_codec [simp]: "c_zero ToolCallLocation_codec = ToolCallLocation_zero"
  by (simp add: ToolCallLocation_codec_def)

lemma ToolCallLocation_obj:
  "obj 9001 (map f_name ToolCallLocation_fields)
     [required ''path'']
     ToolCallLocation_codec"
  unfolding ToolCallLocation_codec_def ToolCallLocation_UnmarshalJSON_def
  by (rule unmarshal_obj) (simp_all add: ToolCallLocation_fields_def ToolCallLocation_zero_def max_depth_def)

lemma ToolCallLocation_wire [simp]: "9002 \<le> E \<Longrightarrow> wire E s ToolCallLocation_codec"
  using wire_mono [OF wire_obj [OF ToolCallLocation_obj], of E s] by simp

subsection \<open>\<open>ToolCall\<close>\<close>

record ToolCall =
  Meta :: "(string \<times> string) list option"
  Content :: "ToolCallContent list option"
  Kind :: "string"
  Locations :: "ToolCallLocation list option"
  Name :: "string option"
  RawInput :: "any_value"
  RawOutput :: "any_value"
  Status :: "string"
  Title :: "string"
  ToolCallId :: "string"

definition ToolCall_zero :: ToolCall where
  "ToolCall_zero = \<lparr>Meta = None, Content = None, Kind = [], Locations = None, Name = None, RawInput =
      ANil, RawOutput = ANil, Status = [], Title = [], ToolCallId = []\<rparr>"

definition ToolCall_fields :: "ToolCall fld list" where
  "ToolCall_fields =
     [go_field ''_meta'' True (go_map go_raw) ToolCall.Meta ToolCall.Meta_update,
      go_field ''content'' True (go_slice ToolCallContent_codec) ToolCall.Content ToolCall.Content_update,
      go_field ''kind'' True go_string ToolCall.Kind ToolCall.Kind_update,
      go_field ''locations'' True (go_slice ToolCallLocation_codec) ToolCall.Locations
          ToolCall.Locations_update,
      go_field ''name'' True (go_ptr go_string) ToolCall.Name ToolCall.Name_update,
      go_field ''rawInput'' True go_any ToolCall.RawInput ToolCall.RawInput_update,
      go_field ''rawOutput'' True go_any ToolCall.RawOutput ToolCall.RawOutput_update,
      go_field ''status'' True go_string ToolCall.Status ToolCall.Status_update,
      go_field ''title'' False go_string ToolCall.Title ToolCall.Title_update,
      go_field ''toolCallId'' False go_string ToolCall.ToolCallId ToolCall.ToolCallId_update]"

definition ToolCall_UnmarshalJSON :: "raw_json \<Rightarrow> ToolCall decoded" where
  "ToolCall_UnmarshalJSON =
     decode_struct
       [required ''title'',
        required ''toolCallId'']
       (go_struct ToolCall_zero ToolCall_fields)
       (in_turn [])"

definition ToolCall_codec :: "ToolCall codec" where
  "ToolCall_codec = with_unmarshal ToolCall_UnmarshalJSON (go_struct ToolCall_zero ToolCall_fields)"

lemma ToolCall_zero_codec [simp]: "c_zero ToolCall_codec = ToolCall_zero"
  by (simp add: ToolCall_codec_def)

lemma ToolCall_obj:
  "obj 9005 (map f_name ToolCall_fields)
     [required ''title'',
      required ''toolCallId'']
     ToolCall_codec"
  unfolding ToolCall_codec_def ToolCall_UnmarshalJSON_def
  by (rule unmarshal_obj) (simp_all add: ToolCall_fields_def ToolCall_zero_def max_depth_def)

lemma ToolCall_wire [simp]: "9006 \<le> E \<Longrightarrow> wire E s ToolCall_codec"
  using wire_mono [OF wire_obj [OF ToolCall_obj], of E s] by simp

interpretation toolcall_wire: wire_type ToolCall_codec 9006
  by unfold_locales (simp_all add: max_depth_def)

subsection \<open>\<open>ToolCallUpdate\<close>\<close>

record ToolCallUpdate =
  Meta :: "(string \<times> string) list option"
  Content :: "ToolCallContent list option"
  Kind :: "string option"
  Locations :: "ToolCallLocation list option"
  Name :: "string option"
  RawInput :: "any_value"
  RawOutput :: "any_value"
  Status :: "string option"
  Title :: "string option"
  ToolCallId :: "string"

definition ToolCallUpdate_zero :: ToolCallUpdate where
  "ToolCallUpdate_zero = \<lparr>Meta = None, Content = None, Kind = None, Locations = None, Name = None,
      RawInput = ANil, RawOutput = ANil, Status = None, Title = None, ToolCallId = []\<rparr>"

definition ToolCallUpdate_fields :: "ToolCallUpdate fld list" where
  "ToolCallUpdate_fields =
     [go_field ''_meta'' True (go_map go_raw) ToolCallUpdate.Meta ToolCallUpdate.Meta_update,
      go_field ''content'' True (go_slice ToolCallContent_codec) ToolCallUpdate.Content
          ToolCallUpdate.Content_update,
      go_field ''kind'' True (go_ptr go_string) ToolCallUpdate.Kind ToolCallUpdate.Kind_update,
      go_field ''locations'' True (go_slice ToolCallLocation_codec) ToolCallUpdate.Locations
          ToolCallUpdate.Locations_update,
      go_field ''name'' True (go_ptr go_string) ToolCallUpdate.Name ToolCallUpdate.Name_update,
      go_field ''rawInput'' True go_any ToolCallUpdate.RawInput ToolCallUpdate.RawInput_update,
      go_field ''rawOutput'' True go_any ToolCallUpdate.RawOutput ToolCallUpdate.RawOutput_update,
      go_field ''status'' True (go_ptr go_string) ToolCallUpdate.Status ToolCallUpdate.Status_update,
      go_field ''title'' True (go_ptr go_string) ToolCallUpdate.Title ToolCallUpdate.Title_update,
      go_field ''toolCallId'' False go_string ToolCallUpdate.ToolCallId ToolCallUpdate.ToolCallId_update]"

definition ToolCallUpdate_UnmarshalJSON :: "raw_json \<Rightarrow> ToolCallUpdate decoded" where
  "ToolCallUpdate_UnmarshalJSON =
     decode_struct
       [required ''toolCallId'']
       (go_struct ToolCallUpdate_zero ToolCallUpdate_fields)
       (in_turn [])"

definition ToolCallUpdate_codec :: "ToolCallUpdate codec" where
  "ToolCallUpdate_codec = with_unmarshal ToolCallUpdate_UnmarshalJSON (go_struct ToolCallUpdate_zero
      ToolCallUpdate_fields)"

definition ToolCallUpdate_Validate :: "ToolCallUpdate \<Rightarrow> invalid option" where
  "ToolCallUpdate_Validate v =
     None"

lemma ToolCallUpdate_zero_codec [simp]: "c_zero ToolCallUpdate_codec = ToolCallUpdate_zero"
  by (simp add: ToolCallUpdate_codec_def)

lemma ToolCallUpdate_obj:
  "obj 9005 (map f_name ToolCallUpdate_fields)
     [required ''toolCallId'']
     ToolCallUpdate_codec"
  unfolding ToolCallUpdate_codec_def ToolCallUpdate_UnmarshalJSON_def
  by (rule unmarshal_obj) (simp_all add: ToolCallUpdate_fields_def ToolCallUpdate_zero_def max_depth_def)

lemma ToolCallUpdate_wire [simp]: "9006 \<le> E \<Longrightarrow> wire E s ToolCallUpdate_codec"
  using wire_mono [OF wire_obj [OF ToolCallUpdate_obj], of E s] by simp

interpretation toolcallupdate_wire: wire_type ToolCallUpdate_codec 9006
  by unfold_locales (simp_all add: max_depth_def)

subsection \<open>\<open>Diff\<close>\<close>

record Diff =
  Meta :: "(string \<times> string) list option"
  NewText :: "string"
  OldText :: "string option"
  Path :: "string"

definition Diff_zero :: Diff where
  "Diff_zero = \<lparr>Meta = None, NewText = [], OldText = None, Path = []\<rparr>"

definition Diff_fields :: "Diff fld list" where
  "Diff_fields =
     [go_field ''_meta'' True (go_map go_raw) Diff.Meta Diff.Meta_update,
      go_field ''newText'' False go_string Diff.NewText Diff.NewText_update,
      go_field ''oldText'' True (go_ptr go_string) Diff.OldText Diff.OldText_update,
      go_field ''path'' False go_string Diff.Path Diff.Path_update]"

definition Diff_UnmarshalJSON :: "raw_json \<Rightarrow> Diff decoded" where
  "Diff_UnmarshalJSON =
     decode_struct
       [required ''newText'',
        required ''path'']
       (go_struct Diff_zero Diff_fields)
       (in_turn [])"

definition Diff_codec :: "Diff codec" where
  "Diff_codec = with_unmarshal Diff_UnmarshalJSON (go_struct Diff_zero Diff_fields)"

lemma Diff_zero_codec [simp]: "c_zero Diff_codec = Diff_zero"
  by (simp add: Diff_codec_def)

lemma Diff_obj:
  "obj 9001 (map f_name Diff_fields)
     [required ''newText'',
      required ''path'']
     Diff_codec"
  unfolding Diff_codec_def Diff_UnmarshalJSON_def
  by (rule unmarshal_obj) (simp_all add: Diff_fields_def Diff_zero_def max_depth_def)

lemma Diff_wire [simp]: "9002 \<le> E \<Longrightarrow> wire E s Diff_codec"
  using wire_mono [OF wire_obj [OF Diff_obj], of E s] by simp

subsection \<open>\<open>Terminal\<close>\<close>

record Terminal =
  Meta :: "(string \<times> string) list option"
  TerminalId :: "string"

definition Terminal_zero :: Terminal where
  "Terminal_zero = \<lparr>Meta = None, TerminalId = []\<rparr>"

definition Terminal_fields :: "Terminal fld list" where
  "Terminal_fields =
     [go_field ''_meta'' True (go_map go_raw) Terminal.Meta Terminal.Meta_update,
      go_field ''terminalId'' False go_string Terminal.TerminalId Terminal.TerminalId_update]"

definition Terminal_UnmarshalJSON :: "raw_json \<Rightarrow> Terminal decoded" where
  "Terminal_UnmarshalJSON =
     decode_struct
       [required ''terminalId'']
       (go_struct Terminal_zero Terminal_fields)
       (in_turn [])"

definition Terminal_codec :: "Terminal codec" where
  "Terminal_codec = with_unmarshal Terminal_UnmarshalJSON (go_struct Terminal_zero Terminal_fields)"

lemma Terminal_zero_codec [simp]: "c_zero Terminal_codec = Terminal_zero"
  by (simp add: Terminal_codec_def)

lemma Terminal_obj:
  "obj 9001 (map f_name Terminal_fields)
     [required ''terminalId'']
     Terminal_codec"
  unfolding Terminal_codec_def Terminal_UnmarshalJSON_def
  by (rule unmarshal_obj) (simp_all add: Terminal_fields_def Terminal_zero_def max_depth_def)

lemma Terminal_wire [simp]: "9002 \<le> E \<Longrightarrow> wire E s Terminal_codec"
  using wire_mono [OF wire_obj [OF Terminal_obj], of E s] by simp

section \<open>Permissions\<close>

subsection \<open>\<open>PermissionOption\<close>\<close>

record PermissionOption =
  Meta :: "(string \<times> string) list option"
  Kind :: "string"
  Name :: "string"
  OptionId :: "string"

definition PermissionOption_zero :: PermissionOption where
  "PermissionOption_zero = \<lparr>Meta = None, Kind = [], Name = [], OptionId = []\<rparr>"

definition PermissionOption_fields :: "PermissionOption fld list" where
  "PermissionOption_fields =
     [go_field ''_meta'' True (go_map go_raw) PermissionOption.Meta PermissionOption.Meta_update,
      go_field ''kind'' False go_string PermissionOption.Kind PermissionOption.Kind_update,
      go_field ''name'' False go_string PermissionOption.Name PermissionOption.Name_update,
      go_field ''optionId'' False go_string PermissionOption.OptionId PermissionOption.OptionId_update]"

definition PermissionOption_UnmarshalJSON :: "raw_json \<Rightarrow> PermissionOption decoded" where
  "PermissionOption_UnmarshalJSON =
     decode_struct
       [required ''kind'',
        required ''name'',
        required ''optionId'']
       (go_struct PermissionOption_zero PermissionOption_fields)
       (in_turn [])"

definition PermissionOption_codec :: "PermissionOption codec" where
  "PermissionOption_codec = with_unmarshal PermissionOption_UnmarshalJSON (go_struct PermissionOption_zero
      PermissionOption_fields)"

lemma PermissionOption_zero_codec [simp]: "c_zero PermissionOption_codec = PermissionOption_zero"
  by (simp add: PermissionOption_codec_def)

lemma PermissionOption_obj:
  "obj 9001 (map f_name PermissionOption_fields)
     [required ''kind'',
      required ''name'',
      required ''optionId'']
     PermissionOption_codec"
  unfolding PermissionOption_codec_def PermissionOption_UnmarshalJSON_def
  by (rule unmarshal_obj) (simp_all add: PermissionOption_fields_def PermissionOption_zero_def max_depth_def)

lemma PermissionOption_wire [simp]: "9002 \<le> E \<Longrightarrow> wire E s PermissionOption_codec"
  using wire_mono [OF wire_obj [OF PermissionOption_obj], of E s] by simp

subsection \<open>\<open>RequestPermissionRequest\<close>\<close>

record RequestPermissionRequest =
  Meta :: "(string \<times> string) list option"
  Options :: "PermissionOption list option"
  SessionId :: "string"
  ToolCall :: "ToolCallUpdate"

definition RequestPermissionRequest_zero :: RequestPermissionRequest where
  "RequestPermissionRequest_zero = \<lparr>Meta = None, Options = None, SessionId = [], ToolCall =
      ToolCallUpdate_zero\<rparr>"

definition RequestPermissionRequest_fields :: "RequestPermissionRequest fld list" where
  "RequestPermissionRequest_fields =
     [go_field ''_meta'' True (go_map go_raw) RequestPermissionRequest.Meta
         RequestPermissionRequest.Meta_update,
      go_field ''options'' False (go_list PermissionOption_codec) RequestPermissionRequest.Options
          RequestPermissionRequest.Options_update,
      go_field ''sessionId'' False go_string RequestPermissionRequest.SessionId
          RequestPermissionRequest.SessionId_update,
      go_field ''toolCall'' False ToolCallUpdate_codec RequestPermissionRequest.ToolCall
          RequestPermissionRequest.ToolCall_update]"

definition RequestPermissionRequest_UnmarshalJSON :: "raw_json \<Rightarrow> RequestPermissionRequest decoded" where
  "RequestPermissionRequest_UnmarshalJSON =
     decode_struct
       [required ''options'',
        required ''sessionId'',
        required ''toolCall'']
       (go_struct RequestPermissionRequest_zero RequestPermissionRequest_fields)
       (in_turn [])"

definition RequestPermissionRequest_codec :: "RequestPermissionRequest codec" where
  "RequestPermissionRequest_codec = with_unmarshal RequestPermissionRequest_UnmarshalJSON (go_struct
      RequestPermissionRequest_zero RequestPermissionRequest_fields)"

definition RequestPermissionRequest_Validate :: "RequestPermissionRequest \<Rightarrow> invalid option" where
  "RequestPermissionRequest_Validate v =
     (if RequestPermissionRequest.Options v = None then Some (Message ''options is required'')
      else (case ToolCallUpdate_Validate (RequestPermissionRequest.ToolCall v) of Some e \<Rightarrow> Some (Within ''toolCall'' e)
     | None \<Rightarrow> None))"

lemma RequestPermissionRequest_zero_codec [simp]: "c_zero RequestPermissionRequest_codec = RequestPermissionRequest_zero"
  by (simp add: RequestPermissionRequest_codec_def)

lemma RequestPermissionRequest_obj:
  "obj 9006 (map f_name RequestPermissionRequest_fields)
     [required ''options'',
      required ''sessionId'',
      required ''toolCall'']
     RequestPermissionRequest_codec"
  unfolding RequestPermissionRequest_codec_def RequestPermissionRequest_UnmarshalJSON_def
  by (rule unmarshal_obj) (simp_all add: RequestPermissionRequest_fields_def RequestPermissionRequest_zero_def
        max_depth_def)

lemma RequestPermissionRequest_wire [simp]: "9007 \<le> E \<Longrightarrow> wire E s RequestPermissionRequest_codec"
  using wire_mono [OF wire_obj [OF RequestPermissionRequest_obj], of E s] by simp

interpretation requestpermissionrequest_wire: wire_type RequestPermissionRequest_codec 9007
  by unfold_locales (simp_all add: max_depth_def)

subsection \<open>\<open>RequestPermissionOutcomeCancelled\<close>\<close>

record RequestPermissionOutcomeCancelled =
  Outcome :: "string"

definition RequestPermissionOutcomeCancelled_zero :: RequestPermissionOutcomeCancelled where
  "RequestPermissionOutcomeCancelled_zero = \<lparr>Outcome = []\<rparr>"

definition RequestPermissionOutcomeCancelled_fields :: "RequestPermissionOutcomeCancelled fld list" where
  "RequestPermissionOutcomeCancelled_fields =
     [go_field ''outcome'' False (go_tag ''cancelled'') RequestPermissionOutcomeCancelled.Outcome
         RequestPermissionOutcomeCancelled.Outcome_update]"

definition RequestPermissionOutcomeCancelled_codec :: "RequestPermissionOutcomeCancelled codec" where
  "RequestPermissionOutcomeCancelled_codec = go_struct RequestPermissionOutcomeCancelled_zero
      RequestPermissionOutcomeCancelled_fields"

lemma RequestPermissionOutcomeCancelled_zero_codec [simp]: "c_zero RequestPermissionOutcomeCancelled_codec = RequestPermissionOutcomeCancelled_zero"
  by (simp add: RequestPermissionOutcomeCancelled_codec_def)

lemma RequestPermissionOutcomeCancelled_obj:
  "obj 9000 (map f_name RequestPermissionOutcomeCancelled_fields)
     [typed ''outcome'' go_string,
      tagged ''outcome'' ''cancelled'']
     RequestPermissionOutcomeCancelled_codec"
  unfolding RequestPermissionOutcomeCancelled_codec_def
  by (rule struct_obj) (simp_all add: RequestPermissionOutcomeCancelled_fields_def
        RequestPermissionOutcomeCancelled_zero_def max_depth_def)

lemma RequestPermissionOutcomeCancelled_wire [simp]: "9001 \<le> E \<Longrightarrow> wire E s RequestPermissionOutcomeCancelled_codec"
  using wire_mono [OF wire_obj [OF RequestPermissionOutcomeCancelled_obj], of E s] by simp

subsection \<open>\<open>RequestPermissionOutcomeSelected\<close>\<close>

record RequestPermissionOutcomeSelected =
  Meta :: "(string \<times> string) list option"
  OptionId :: "string"
  Outcome :: "string"

definition RequestPermissionOutcomeSelected_zero :: RequestPermissionOutcomeSelected where
  "RequestPermissionOutcomeSelected_zero = \<lparr>Meta = None, OptionId = [], Outcome = []\<rparr>"

definition RequestPermissionOutcomeSelected_fields :: "RequestPermissionOutcomeSelected fld list" where
  "RequestPermissionOutcomeSelected_fields =
     [go_field ''_meta'' True (go_map go_raw) RequestPermissionOutcomeSelected.Meta
         RequestPermissionOutcomeSelected.Meta_update,
      go_field ''optionId'' False go_string RequestPermissionOutcomeSelected.OptionId
          RequestPermissionOutcomeSelected.OptionId_update,
      go_field ''outcome'' False (go_tag ''selected'') RequestPermissionOutcomeSelected.Outcome
          RequestPermissionOutcomeSelected.Outcome_update]"

definition RequestPermissionOutcomeSelected_codec :: "RequestPermissionOutcomeSelected codec" where
  "RequestPermissionOutcomeSelected_codec = go_struct RequestPermissionOutcomeSelected_zero
      RequestPermissionOutcomeSelected_fields"

lemma RequestPermissionOutcomeSelected_zero_codec [simp]: "c_zero RequestPermissionOutcomeSelected_codec = RequestPermissionOutcomeSelected_zero"
  by (simp add: RequestPermissionOutcomeSelected_codec_def)

lemma RequestPermissionOutcomeSelected_obj:
  "obj 9001 (map f_name RequestPermissionOutcomeSelected_fields)
     [typed ''optionId'' go_string,
      typed ''outcome'' go_string,
      tagged ''outcome'' ''selected'']
     RequestPermissionOutcomeSelected_codec"
  unfolding RequestPermissionOutcomeSelected_codec_def
  by (rule struct_obj) (simp_all add: RequestPermissionOutcomeSelected_fields_def
        RequestPermissionOutcomeSelected_zero_def max_depth_def)

lemma RequestPermissionOutcomeSelected_wire [simp]: "9002 \<le> E \<Longrightarrow> wire E s RequestPermissionOutcomeSelected_codec"
  using wire_mono [OF wire_obj [OF RequestPermissionOutcomeSelected_obj], of E s] by simp

subsection \<open>\<open>RequestPermissionOutcome\<close>\<close>

record RequestPermissionOutcome =
  Cancelled :: "RequestPermissionOutcomeCancelled option"
  Selected :: "RequestPermissionOutcomeSelected option"

definition RequestPermissionOutcome_zero :: RequestPermissionOutcome where
  "RequestPermissionOutcome_zero = \<lparr>Cancelled = None, Selected = None\<rparr>"

definition RequestPermissionOutcome_as_Cancelled :: "RequestPermissionOutcome variant" where
  "RequestPermissionOutcome_as_Cancelled =
     go_variant (Some ''cancelled'')
       [typed ''outcome'' go_string]
       RequestPermissionOutcomeCancelled_codec RequestPermissionOutcome.Cancelled (\<lambda>x.
         RequestPermissionOutcome_zero\<lparr>RequestPermissionOutcome.Cancelled := Some x\<rparr>)"

definition RequestPermissionOutcome_as_Selected :: "RequestPermissionOutcome variant" where
  "RequestPermissionOutcome_as_Selected =
     go_variant (Some ''selected'')
       [typed ''optionId'' go_string,
        typed ''outcome'' go_string]
       RequestPermissionOutcomeSelected_codec RequestPermissionOutcome.Selected (\<lambda>x.
         RequestPermissionOutcome_zero\<lparr>RequestPermissionOutcome.Selected := Some x\<rparr>)"

definition RequestPermissionOutcome_variants :: "RequestPermissionOutcome variant list" where
  "RequestPermissionOutcome_variants =
     [RequestPermissionOutcome_as_Cancelled,
      RequestPermissionOutcome_as_Selected]"

definition RequestPermissionOutcome_UnmarshalJSON :: "raw_json \<Rightarrow> RequestPermissionOutcome decoded" where
  "RequestPermissionOutcome_UnmarshalJSON = unmarshal_union ''outcome'' RequestPermissionOutcome_variants"

definition RequestPermissionOutcome_MarshalJSON :: "RequestPermissionOutcome \<Rightarrow> string option" where
  "RequestPermissionOutcome_MarshalJSON = marshal_union ''outcome'' RequestPermissionOutcome_variants"

definition RequestPermissionOutcome_codec :: "RequestPermissionOutcome codec" where
  "RequestPermissionOutcome_codec = go_union RequestPermissionOutcome_zero
      RequestPermissionOutcome_UnmarshalJSON RequestPermissionOutcome_MarshalJSON
      RequestPermissionOutcome_variants"

definition RequestPermissionOutcome_Validate :: "RequestPermissionOutcome \<Rightarrow> invalid option" where
  "RequestPermissionOutcome_Validate = validate_union True ''RequestPermissionOutcome'' RequestPermissionOutcome_codec RequestPermissionOutcome_variants"

definition RequestPermissionOutcome_named :: "(string list \<times> RequestPermissionOutcome variant) list" where
  "RequestPermissionOutcome_named =
     [(map f_name RequestPermissionOutcomeCancelled_fields, RequestPermissionOutcome_as_Cancelled),
      (map f_name RequestPermissionOutcomeSelected_fields, RequestPermissionOutcome_as_Selected)]"

lemma RequestPermissionOutcome_Cancelled_law:
  "variant_law 9001 ''outcome'' (map f_name RequestPermissionOutcomeCancelled_fields) RequestPermissionOutcome_as_Cancelled"
  unfolding RequestPermissionOutcome_as_Cancelled_def
  by (rule go_variant_law [OF obj_mono [OF RequestPermissionOutcomeCancelled_obj]]) (simp_all)

lemma RequestPermissionOutcome_Selected_law:
  "variant_law 9001 ''outcome'' (map f_name RequestPermissionOutcomeSelected_fields) RequestPermissionOutcome_as_Selected"
  unfolding RequestPermissionOutcome_as_Selected_def
  by (rule go_variant_law [OF obj_mono [OF RequestPermissionOutcomeSelected_obj]]) (simp_all)

lemma RequestPermissionOutcome_law: "union_law 9001 ''outcome'' RequestPermissionOutcome_named"
proof (rule union_lawI)
  show "list_all (\<lambda>(n, v). variant_law 9001 ''outcome'' n v) RequestPermissionOutcome_named"
    by (simp add: RequestPermissionOutcome_named_def RequestPermissionOutcome_Cancelled_law
      RequestPermissionOutcome_Selected_law)
  show "list_all (\<lambda>(n, v). v_disc v \<noteq> Some []) RequestPermissionOutcome_named"
    by (simp add: RequestPermissionOutcome_named_def RequestPermissionOutcome_as_Cancelled_def
      RequestPermissionOutcome_as_Selected_def)
  show "sorted_wrt rivals RequestPermissionOutcome_named"
    by (simp add: RequestPermissionOutcome_named_def RequestPermissionOutcome_zero_def
      RequestPermissionOutcome_as_Cancelled_def RequestPermissionOutcome_as_Selected_def)
qed

lemma RequestPermissionOutcome_wire [simp]: "9002 \<le> E \<Longrightarrow> wire E s RequestPermissionOutcome_codec"
  using wire_mono [OF wire_union [OF RequestPermissionOutcome_law, where zero = RequestPermissionOutcome_zero], where e = E and s' = s]
  by (simp add: RequestPermissionOutcome_codec_def RequestPermissionOutcome_UnmarshalJSON_def
    RequestPermissionOutcome_MarshalJSON_def RequestPermissionOutcome_variants_def
    RequestPermissionOutcome_named_def max_depth_def)

lemma RequestPermissionOutcome_zero_codec [simp]: "c_zero RequestPermissionOutcome_codec = RequestPermissionOutcome_zero"
  by (simp add: RequestPermissionOutcome_codec_def)

lemma RequestPermissionOutcome_one: "list_all (\<lambda>v. builds v (\<lambda>u. variants_set RequestPermissionOutcome_variants u = 1)) RequestPermissionOutcome_variants"
  by (simp add: RequestPermissionOutcome_variants_def RequestPermissionOutcome_zero_def
      RequestPermissionOutcome_as_Cancelled_def RequestPermissionOutcome_as_Selected_def)

interpretation requestpermissionoutcome_wire: wire_type RequestPermissionOutcome_codec 9002
  by unfold_locales (simp_all add: max_depth_def)

lemma RequestPermissionOutcome_valid: "c_fine RequestPermissionOutcome_codec u \<Longrightarrow> RequestPermissionOutcome_Validate u = None"
  unfolding RequestPermissionOutcome_Validate_def validate_union_def
  by (rule requestpermissionoutcome_wire.validated) (simp_all add: RequestPermissionOutcome_codec_def union_fine_one [OF RequestPermissionOutcome_one])

subsection \<open>\<open>RequestPermissionResponse\<close>\<close>

record RequestPermissionResponse =
  Meta :: "(string \<times> string) list option"
  Outcome :: "RequestPermissionOutcome"

definition RequestPermissionResponse_zero :: RequestPermissionResponse where
  "RequestPermissionResponse_zero = \<lparr>Meta = None, Outcome = RequestPermissionOutcome_zero\<rparr>"

definition RequestPermissionResponse_fields :: "RequestPermissionResponse fld list" where
  "RequestPermissionResponse_fields =
     [go_field ''_meta'' True (go_map go_raw) RequestPermissionResponse.Meta
         RequestPermissionResponse.Meta_update,
      go_field ''outcome'' False RequestPermissionOutcome_codec RequestPermissionResponse.Outcome
          RequestPermissionResponse.Outcome_update]"

definition RequestPermissionResponse_UnmarshalJSON :: "raw_json \<Rightarrow> RequestPermissionResponse decoded" where
  "RequestPermissionResponse_UnmarshalJSON =
     decode_struct
       [required ''outcome'']
       (go_struct RequestPermissionResponse_zero RequestPermissionResponse_fields)
       (in_turn [])"

definition RequestPermissionResponse_codec :: "RequestPermissionResponse codec" where
  "RequestPermissionResponse_codec = with_unmarshal RequestPermissionResponse_UnmarshalJSON (go_struct
      RequestPermissionResponse_zero RequestPermissionResponse_fields)"

definition RequestPermissionResponse_Validate :: "RequestPermissionResponse \<Rightarrow> invalid option" where
  "RequestPermissionResponse_Validate v =
     (case RequestPermissionOutcome_Validate (RequestPermissionResponse.Outcome v) of Some e \<Rightarrow> Some (Within ''outcome'' e)
     | None \<Rightarrow> None)"

lemma RequestPermissionResponse_zero_codec [simp]: "c_zero RequestPermissionResponse_codec = RequestPermissionResponse_zero"
  by (simp add: RequestPermissionResponse_codec_def)

lemma RequestPermissionResponse_obj:
  "obj 9002 (map f_name RequestPermissionResponse_fields)
     [required ''outcome'']
     RequestPermissionResponse_codec"
  unfolding RequestPermissionResponse_codec_def RequestPermissionResponse_UnmarshalJSON_def
  by (rule unmarshal_obj) (simp_all add: RequestPermissionResponse_fields_def RequestPermissionResponse_zero_def
        max_depth_def)

lemma RequestPermissionResponse_wire [simp]: "9003 \<le> E \<Longrightarrow> wire E s RequestPermissionResponse_codec"
  using wire_mono [OF wire_obj [OF RequestPermissionResponse_obj], of E s] by simp

interpretation requestpermissionresponse_wire: wire_type RequestPermissionResponse_codec 9003
  by unfold_locales (simp_all add: max_depth_def)

subsection \<open>\<open>SelectedPermissionOutcome\<close>\<close>

record SelectedPermissionOutcome =
  Meta :: "(string \<times> string) list option"
  OptionId :: "string"

definition SelectedPermissionOutcome_zero :: SelectedPermissionOutcome where
  "SelectedPermissionOutcome_zero = \<lparr>Meta = None, OptionId = []\<rparr>"

definition SelectedPermissionOutcome_fields :: "SelectedPermissionOutcome fld list" where
  "SelectedPermissionOutcome_fields =
     [go_field ''_meta'' True (go_map go_raw) SelectedPermissionOutcome.Meta
         SelectedPermissionOutcome.Meta_update,
      go_field ''optionId'' False go_string SelectedPermissionOutcome.OptionId
          SelectedPermissionOutcome.OptionId_update]"

definition SelectedPermissionOutcome_UnmarshalJSON :: "raw_json \<Rightarrow> SelectedPermissionOutcome decoded" where
  "SelectedPermissionOutcome_UnmarshalJSON =
     decode_struct
       [required ''optionId'']
       (go_struct SelectedPermissionOutcome_zero SelectedPermissionOutcome_fields)
       (in_turn [])"

definition SelectedPermissionOutcome_codec :: "SelectedPermissionOutcome codec" where
  "SelectedPermissionOutcome_codec = with_unmarshal SelectedPermissionOutcome_UnmarshalJSON (go_struct
      SelectedPermissionOutcome_zero SelectedPermissionOutcome_fields)"

lemma SelectedPermissionOutcome_zero_codec [simp]: "c_zero SelectedPermissionOutcome_codec = SelectedPermissionOutcome_zero"
  by (simp add: SelectedPermissionOutcome_codec_def)

lemma SelectedPermissionOutcome_obj:
  "obj 9001 (map f_name SelectedPermissionOutcome_fields)
     [required ''optionId'']
     SelectedPermissionOutcome_codec"
  unfolding SelectedPermissionOutcome_codec_def SelectedPermissionOutcome_UnmarshalJSON_def
  by (rule unmarshal_obj) (simp_all add: SelectedPermissionOutcome_fields_def SelectedPermissionOutcome_zero_def
        max_depth_def)

lemma SelectedPermissionOutcome_wire [simp]: "9002 \<le> E \<Longrightarrow> wire E s SelectedPermissionOutcome_codec"
  using wire_mono [OF wire_obj [OF SelectedPermissionOutcome_obj], of E s] by simp

section \<open>Plans\<close>

subsection \<open>\<open>PlanEntry\<close>\<close>

record PlanEntry =
  Meta :: "(string \<times> string) list option"
  Content :: "string"
  Priority :: "string"
  Status :: "string"

definition PlanEntry_zero :: PlanEntry where
  "PlanEntry_zero = \<lparr>Meta = None, Content = [], Priority = [], Status = []\<rparr>"

definition PlanEntry_fields :: "PlanEntry fld list" where
  "PlanEntry_fields =
     [go_field ''_meta'' True (go_map go_raw) PlanEntry.Meta PlanEntry.Meta_update,
      go_field ''content'' False go_string PlanEntry.Content PlanEntry.Content_update,
      go_field ''priority'' False go_string PlanEntry.Priority PlanEntry.Priority_update,
      go_field ''status'' False go_string PlanEntry.Status PlanEntry.Status_update]"

definition PlanEntry_UnmarshalJSON :: "raw_json \<Rightarrow> PlanEntry decoded" where
  "PlanEntry_UnmarshalJSON =
     decode_struct
       [required ''content'',
        required ''priority'',
        required ''status'']
       (go_struct PlanEntry_zero PlanEntry_fields)
       (in_turn [])"

definition PlanEntry_codec :: "PlanEntry codec" where
  "PlanEntry_codec = with_unmarshal PlanEntry_UnmarshalJSON (go_struct PlanEntry_zero PlanEntry_fields)"

lemma PlanEntry_zero_codec [simp]: "c_zero PlanEntry_codec = PlanEntry_zero"
  by (simp add: PlanEntry_codec_def)

lemma PlanEntry_obj:
  "obj 9001 (map f_name PlanEntry_fields)
     [required ''content'',
      required ''priority'',
      required ''status'']
     PlanEntry_codec"
  unfolding PlanEntry_codec_def PlanEntry_UnmarshalJSON_def
  by (rule unmarshal_obj) (simp_all add: PlanEntry_fields_def PlanEntry_zero_def max_depth_def)

lemma PlanEntry_wire [simp]: "9002 \<le> E \<Longrightarrow> wire E s PlanEntry_codec"
  using wire_mono [OF wire_obj [OF PlanEntry_obj], of E s] by simp

subsection \<open>\<open>Plan\<close>\<close>

record Plan =
  Meta :: "(string \<times> string) list option"
  Entries :: "PlanEntry list option"

definition Plan_zero :: Plan where
  "Plan_zero = \<lparr>Meta = None, Entries = None\<rparr>"

definition Plan_fields :: "Plan fld list" where
  "Plan_fields =
     [go_field ''_meta'' True (go_map go_raw) Plan.Meta Plan.Meta_update,
      go_field ''entries'' False (go_list PlanEntry_codec) Plan.Entries Plan.Entries_update]"

definition Plan_UnmarshalJSON :: "raw_json \<Rightarrow> Plan decoded" where
  "Plan_UnmarshalJSON =
     decode_struct
       [required ''entries'']
       (go_struct Plan_zero Plan_fields)
       (in_turn [])"

definition Plan_codec :: "Plan codec" where
  "Plan_codec = with_unmarshal Plan_UnmarshalJSON (go_struct Plan_zero Plan_fields)"

lemma Plan_zero_codec [simp]: "c_zero Plan_codec = Plan_zero"
  by (simp add: Plan_codec_def)

lemma Plan_obj:
  "obj 9003 (map f_name Plan_fields)
     [required ''entries'']
     Plan_codec"
  unfolding Plan_codec_def Plan_UnmarshalJSON_def
  by (rule unmarshal_obj) (simp_all add: Plan_fields_def Plan_zero_def max_depth_def)

lemma Plan_wire [simp]: "9004 \<le> E \<Longrightarrow> wire E s Plan_codec"
  using wire_mono [OF wire_obj [OF Plan_obj], of E s] by simp

interpretation plan_wire: wire_type Plan_codec 9004
  by unfold_locales (simp_all add: max_depth_def)

end
