(* ===== verification/WireConfig.thy ===== *)
theory WireConfig
  imports WireTool
begin

text \<open>
  The options and modes of a session and the requests that set them. The options of a selector are
  a union of arrays, which has its own decoder.
\<close>

section \<open>Configuration options\<close>

subsection \<open>\<open>SessionConfigSelectOption\<close>\<close>

record SessionConfigSelectOption =
  Meta :: "(string \<times> string) list option"
  Description :: "string option"
  Name :: "string"
  Value :: "string"

definition SessionConfigSelectOption_zero :: SessionConfigSelectOption where
  "SessionConfigSelectOption_zero = \<lparr>Meta = None, Description = None, Name = [], Value = []\<rparr>"

definition SessionConfigSelectOption_fields :: "SessionConfigSelectOption fld list" where
  "SessionConfigSelectOption_fields =
     [go_field ''_meta'' True (go_map go_raw) SessionConfigSelectOption.Meta
         SessionConfigSelectOption.Meta_update,
      go_field ''description'' True (go_ptr go_string) SessionConfigSelectOption.Description
          SessionConfigSelectOption.Description_update,
      go_field ''name'' False go_string SessionConfigSelectOption.Name SessionConfigSelectOption.Name_update,
      go_field ''value'' False go_string SessionConfigSelectOption.Value SessionConfigSelectOption.Value_update]"

definition SessionConfigSelectOption_UnmarshalJSON :: "raw_json \<Rightarrow> SessionConfigSelectOption decoded" where
  "SessionConfigSelectOption_UnmarshalJSON =
     decode_struct
       [required ''name'',
        required ''value'']
       (go_struct SessionConfigSelectOption_zero SessionConfigSelectOption_fields)
       (in_turn [])"

definition SessionConfigSelectOption_codec :: "SessionConfigSelectOption codec" where
  "SessionConfigSelectOption_codec = with_unmarshal SessionConfigSelectOption_UnmarshalJSON (go_struct
      SessionConfigSelectOption_zero SessionConfigSelectOption_fields)"

lemma SessionConfigSelectOption_zero_codec [simp]: "c_zero SessionConfigSelectOption_codec = SessionConfigSelectOption_zero"
  by (simp add: SessionConfigSelectOption_codec_def)

lemma SessionConfigSelectOption_obj:
  "obj 9001 (map f_name SessionConfigSelectOption_fields)
     [required ''name'',
      required ''value'']
     SessionConfigSelectOption_codec"
  unfolding SessionConfigSelectOption_codec_def SessionConfigSelectOption_UnmarshalJSON_def
  by (rule unmarshal_obj) (simp_all add: SessionConfigSelectOption_fields_def SessionConfigSelectOption_zero_def
        max_depth_def)

lemma SessionConfigSelectOption_wire [simp]: "9002 \<le> E \<Longrightarrow> wire E s SessionConfigSelectOption_codec"
  using wire_mono [OF wire_obj [OF SessionConfigSelectOption_obj], of E s] by simp

subsection \<open>\<open>SessionConfigSelectGroup\<close>\<close>

record SessionConfigSelectGroup =
  Meta :: "(string \<times> string) list option"
  Group :: "string"
  Name :: "string"
  Options :: "SessionConfigSelectOption list option"

definition SessionConfigSelectGroup_zero :: SessionConfigSelectGroup where
  "SessionConfigSelectGroup_zero = \<lparr>Meta = None, Group = [], Name = [], Options = None\<rparr>"

definition SessionConfigSelectGroup_fields :: "SessionConfigSelectGroup fld list" where
  "SessionConfigSelectGroup_fields =
     [go_field ''_meta'' True (go_map go_raw) SessionConfigSelectGroup.Meta
         SessionConfigSelectGroup.Meta_update,
      go_field ''group'' False go_string SessionConfigSelectGroup.Group SessionConfigSelectGroup.Group_update,
      go_field ''name'' False go_string SessionConfigSelectGroup.Name SessionConfigSelectGroup.Name_update,
      go_field ''options'' False (go_list SessionConfigSelectOption_codec) SessionConfigSelectGroup.Options
          SessionConfigSelectGroup.Options_update]"

definition SessionConfigSelectGroup_UnmarshalJSON :: "raw_json \<Rightarrow> SessionConfigSelectGroup decoded" where
  "SessionConfigSelectGroup_UnmarshalJSON =
     decode_struct
       [required ''group'',
        required ''name'',
        required ''options'']
       (go_struct SessionConfigSelectGroup_zero SessionConfigSelectGroup_fields)
       (in_turn [])"

definition SessionConfigSelectGroup_codec :: "SessionConfigSelectGroup codec" where
  "SessionConfigSelectGroup_codec = with_unmarshal SessionConfigSelectGroup_UnmarshalJSON (go_struct
      SessionConfigSelectGroup_zero SessionConfigSelectGroup_fields)"

lemma SessionConfigSelectGroup_zero_codec [simp]: "c_zero SessionConfigSelectGroup_codec = SessionConfigSelectGroup_zero"
  by (simp add: SessionConfigSelectGroup_codec_def)

lemma SessionConfigSelectGroup_obj:
  "obj 9003 (map f_name SessionConfigSelectGroup_fields)
     [required ''group'',
      required ''name'',
      required ''options'']
     SessionConfigSelectGroup_codec"
  unfolding SessionConfigSelectGroup_codec_def SessionConfigSelectGroup_UnmarshalJSON_def
  by (rule unmarshal_obj) (simp_all add: SessionConfigSelectGroup_fields_def SessionConfigSelectGroup_zero_def
        max_depth_def)

lemma SessionConfigSelectGroup_wire [simp]: "9004 \<le> E \<Longrightarrow> wire E s SessionConfigSelectGroup_codec"
  using wire_mono [OF wire_obj [OF SessionConfigSelectGroup_obj], of E s] by simp

subsection \<open>\<open>SessionConfigSelectOptions\<close>\<close>

text \<open>
  The options of a selector: a plain list, or a list of groups. The two are told apart by the keys
  that all elements have; a list that has neither set of keys is tried as both.
\<close>

record SessionConfigSelectOptions =
  Ungrouped :: "SessionConfigSelectOption list option option"
  Grouped :: "SessionConfigSelectGroup list option option"

definition SessionConfigSelectOptions_zero :: SessionConfigSelectOptions where
  "SessionConfigSelectOptions_zero = \<lparr>Ungrouped = None, Grouped = None\<rparr>"

definition elements :: "raw_json \<Rightarrow> raw_members list option" where
  "elements j = (case snd j of JNull \<Rightarrow> Some [] | JArr xs \<Rightarrow> all_some (map members_of xs) | _ \<Rightarrow> None)"

definition all_have :: "string list \<Rightarrow> raw_members list \<Rightarrow> bool" where
  "all_have ks mss \<longleftrightarrow> list_all (\<lambda>ms. list_all (\<lambda>k. field ms k \<noteq> None) ks) mss"

definition SessionConfigSelectOptions_UnmarshalJSON :: "raw_json \<Rightarrow> SessionConfigSelectOptions decoded" where
  "SessionConfigSelectOptions_UnmarshalJSON j =
     (let plain = tries (go_slice SessionConfigSelectOption_codec) (\<lambda>v. SessionConfigSelectOptions_zero\<lparr>Ungrouped := Some v\<rparr>);
          groups = tries (go_slice SessionConfigSelectGroup_codec) (\<lambda>v. SessionConfigSelectOptions_zero\<lparr>Grouped := Some v\<rparr>);
          chosen = (\<lambda>f. case f j of Some u \<Rightarrow> Good u | None \<Rightarrow> Hard (Refused ''invalid variant payload''))
      in case elements j of
           None \<Rightarrow> first_choice [plain, groups] j
         | Some mss \<Rightarrow>
             if all_have [''name'', ''value''] mss then chosen plain
             else if all_have [''group'', ''name'', ''options''] mss then chosen groups
             else first_choice [plain, groups] j)"

definition SessionConfigSelectOptions_MarshalJSON :: "SessionConfigSelectOptions \<Rightarrow> string option" where
  "SessionConfigSelectOptions_MarshalJSON u =
     (case Ungrouped u of
        Some v \<Rightarrow> c_enc (go_slice SessionConfigSelectOption_codec) v
      | None \<Rightarrow> (case Grouped u of Some v \<Rightarrow> c_enc (go_slice SessionConfigSelectGroup_codec) v | None \<Rightarrow> Some []))"

text \<open>An empty list of groups comes back as an empty plain list.\<close>

definition SessionConfigSelectOptions_fine :: "SessionConfigSelectOptions \<Rightarrow> bool" where
  "SessionConfigSelectOptions_fine u \<longleftrightarrow>
     (case (Ungrouped u, Grouped u) of
        (Some (Some vs), None) \<Rightarrow> list_all (c_fine SessionConfigSelectOption_codec) vs
      | (None, Some (Some vs)) \<Rightarrow> vs \<noteq> [] \<and> list_all (c_fine SessionConfigSelectGroup_codec) vs
      | _ \<Rightarrow> False)"

definition SessionConfigSelectOptions_codec :: "SessionConfigSelectOptions codec" where
  "SessionConfigSelectOptions_codec =
     \<lparr>c_zero = SessionConfigSelectOptions_zero, c_dec = (\<lambda>cur j. SessionConfigSelectOptions_UnmarshalJSON j),
      c_enc = (\<lambda>u. Option.bind (SessionConfigSelectOptions_MarshalJSON u) compact), c_empty = (\<lambda>u. False),
      c_fine = SessionConfigSelectOptions_fine\<rparr>"

definition SessionConfigSelectOptions_Validate :: "SessionConfigSelectOptions \<Rightarrow> invalid option" where
  "SessionConfigSelectOptions_Validate u =
     validate_set False ''SessionConfigSelectOptions'' (set_count [Ungrouped u \<noteq> None, Grouped u \<noteq> None])
       SessionConfigSelectOptions_codec u"

lemma SessionConfigSelectOptions_zero_codec [simp]: "c_zero SessionConfigSelectOptions_codec = SessionConfigSelectOptions_zero"
  by (simp add: SessionConfigSelectOptions_codec_def)

lemma required_there: "required k ms = None \<Longrightarrow> field ms k \<noteq> None"
  by (cases "field ms k") (auto simp: required_def)

lemma elements_objects: "elements (r, JArr (map (\<lambda>ms. (t ms, JObj ms)) mss)) = Some mss"
  using all_some_map [of mss "\<lambda>ms. members_of (t ms, JObj ms)" id] by (simp add: elements_def comp_def members_of_def)

lemma array_of_objects:
  assumes "\<forall>ms \<in> set mss. clean d (t ms) (JObj ms)"
  shows "clean (Suc d) (array_text (map t mss)) (JArr (map (\<lambda>ms. (t ms, JObj ms)) mss))"
  using clean_array [of "map (\<lambda>ms. (t ms, JObj ms)) mss" d] assms by (auto simp: comp_def)

lemma SessionConfigSelectOptions_wire [simp]: "9005 \<le> E \<Longrightarrow> wire E s SessionConfigSelectOptions_codec"
proof -
  let ?t = "\<lambda>ms. object_text (map (\<lambda>(k, t, j). (k, t)) (ms :: raw_members))"
  have *: "\<exists>t j. c_enc SessionConfigSelectOptions_codec u = Some t \<and> clean 9005 t j \<and> j \<noteq> JNull \<and>
      SessionConfigSelectOptions_UnmarshalJSON (t, j) = Good u" if fine: "SessionConfigSelectOptions_fine u" for u
  proof -
    obtain p g where u: "u = \<lparr>Ungrouped = p, Grouped = g\<rparr>" by (cases u)
    consider vs where "p = Some (Some vs)" "g = None" "list_all (c_fine SessionConfigSelectOption_codec) vs"
      | vs where "p = None" "g = Some (Some vs)" "vs \<noteq> []" "list_all (c_fine SessionConfigSelectGroup_codec) vs"
      using fine u by (auto simp: SessionConfigSelectOptions_fine_def split: option.splits)
    then show ?thesis
    proof cases
      case 1
      obtain mss where mss: "enc_elements SessionConfigSelectOption_codec vs = Some (map ?t mss)"
        "dec_elements SessionConfigSelectOption_codec [] (map (\<lambda>ms. (?t ms, JObj ms)) mss) = Good vs"
        and each: "\<forall>ms \<in> set mss. required ''name'' ms = None \<and> required ''value'' ms = None \<and> clean 9004 (?t ms) (JObj ms)"
        using obj_elements [OF obj_mono [OF SessionConfigSelectOption_obj, of 9003] 1(3)] by auto
      have whole: "clean 9005 (array_text (map ?t mss)) (JArr (map (\<lambda>ms. (?t ms, JObj ms)) mss))"
        using array_of_objects [of mss 9004 ?t] each by simp
      have "all_have [''name'', ''value''] mss"
        using each required_there by (fastforce simp: all_have_def list_all_iff simp del: not_None_eq)
      then show ?thesis using 1 u mss whole clean_compact [OF whole]
        by (intro exI [of _ "array_text (map ?t mss)"] exI [of _ "JArr (map (\<lambda>ms. (?t ms, JObj ms)) mss)"])
          (simp add: SessionConfigSelectOptions_codec_def SessionConfigSelectOptions_MarshalJSON_def
            SessionConfigSelectOptions_UnmarshalJSON_def SessionConfigSelectOptions_zero_def go_slice_def
            elements_objects tries_def max_depth_def)
    next
      case 2
      obtain mss where mss: "enc_elements SessionConfigSelectGroup_codec vs = Some (map ?t mss)"
        "dec_elements SessionConfigSelectGroup_codec [] (map (\<lambda>ms. (?t ms, JObj ms)) mss) = Good vs" "length mss = length vs"
        and each: "\<forall>ms \<in> set mss. required ''group'' ms = None \<and> required ''name'' ms = None \<and>
          required ''options'' ms = None \<and> fst ` set ms \<subseteq> f_name ` set SessionConfigSelectGroup_fields \<and> clean 9004 (?t ms) (JObj ms)"
        using obj_elements [OF obj_mono [OF SessionConfigSelectGroup_obj, of 9003] 2(4)] by auto
      have whole: "clean 9005 (array_text (map ?t mss)) (JArr (map (\<lambda>ms. (?t ms, JObj ms)) mss))"
        using array_of_objects [of mss 9004 ?t] each by simp
      obtain ms where "ms \<in> set mss" using mss(3) 2(3) by (cases mss) auto
      moreover from this each have "''value'' \<notin> fst ` set ms" by (auto simp: SessionConfigSelectGroup_fields_def)
      then have "field ms ''value'' = None" by (simp add: field_def map_of_eq_None_iff)
      ultimately have "\<not> all_have [''name'', ''value''] mss" by (force simp: all_have_def list_all_iff)
      moreover have "all_have [''group'', ''name'', ''options''] mss"
        using each required_there by (fastforce simp: all_have_def list_all_iff simp del: not_None_eq)
      ultimately show ?thesis using 2 u mss whole clean_compact [OF whole]
        by (intro exI [of _ "array_text (map ?t mss)"] exI [of _ "JArr (map (\<lambda>ms. (?t ms, JObj ms)) mss)"])
          (simp add: SessionConfigSelectOptions_codec_def SessionConfigSelectOptions_MarshalJSON_def
            SessionConfigSelectOptions_UnmarshalJSON_def SessionConfigSelectOptions_zero_def go_slice_def
            elements_objects tries_def max_depth_def)
    qed
  qed
  have "wire 9005 True SessionConfigSelectOptions_codec"
    unfolding wire_def using * by (simp add: SessionConfigSelectOptions_codec_def)
  moreover assume "9005 \<le> E"
  ultimately show ?thesis using wire_mono by blast
qed

interpretation sessionconfigselectoptions_wire: wire_type SessionConfigSelectOptions_codec 9005
  by unfold_locales (simp_all add: max_depth_def)

subsection \<open>\<open>SessionConfigOptionSelect\<close>\<close>

record SessionConfigOptionSelect =
  Meta :: "(string \<times> string) list option"
  Category :: "string option"
  CurrentValue :: "string"
  Description :: "string option"
  Id :: "string"
  Name :: "string"
  Options :: "SessionConfigSelectOptions"
  Type :: "string"

definition SessionConfigOptionSelect_zero :: SessionConfigOptionSelect where
  "SessionConfigOptionSelect_zero = \<lparr>Meta = None, Category = None, CurrentValue = [], Description = None,
      Id = [], Name = [], Options = SessionConfigSelectOptions_zero, Type = []\<rparr>"

definition SessionConfigOptionSelect_fields :: "SessionConfigOptionSelect fld list" where
  "SessionConfigOptionSelect_fields =
     [go_field ''_meta'' True (go_map go_raw) SessionConfigOptionSelect.Meta
         SessionConfigOptionSelect.Meta_update,
      go_field ''category'' True (go_ptr go_string) SessionConfigOptionSelect.Category
          SessionConfigOptionSelect.Category_update,
      go_field ''currentValue'' False go_string SessionConfigOptionSelect.CurrentValue
          SessionConfigOptionSelect.CurrentValue_update,
      go_field ''description'' True (go_ptr go_string) SessionConfigOptionSelect.Description
          SessionConfigOptionSelect.Description_update,
      go_field ''id'' False go_string SessionConfigOptionSelect.Id SessionConfigOptionSelect.Id_update,
      go_field ''name'' False go_string SessionConfigOptionSelect.Name SessionConfigOptionSelect.Name_update,
      go_field ''options'' False SessionConfigSelectOptions_codec SessionConfigOptionSelect.Options
          SessionConfigOptionSelect.Options_update,
      go_field ''type'' False (go_tag ''select'') SessionConfigOptionSelect.Type
          SessionConfigOptionSelect.Type_update]"

definition SessionConfigOptionSelect_codec :: "SessionConfigOptionSelect codec" where
  "SessionConfigOptionSelect_codec = go_struct SessionConfigOptionSelect_zero SessionConfigOptionSelect_fields"

lemma SessionConfigOptionSelect_zero_codec [simp]: "c_zero SessionConfigOptionSelect_codec = SessionConfigOptionSelect_zero"
  by (simp add: SessionConfigOptionSelect_codec_def)

lemma SessionConfigOptionSelect_obj:
  "obj 9005 (map f_name SessionConfigOptionSelect_fields)
     [typed ''currentValue'' go_string,
      typed ''id'' go_string,
      typed ''name'' go_string,
      typed ''options'' SessionConfigSelectOptions_codec,
      typed ''type'' go_string,
      tagged ''type'' ''select'']
     SessionConfigOptionSelect_codec"
  unfolding SessionConfigOptionSelect_codec_def
  by (rule struct_obj) (simp_all add: SessionConfigOptionSelect_fields_def SessionConfigOptionSelect_zero_def
        max_depth_def)

lemma SessionConfigOptionSelect_wire [simp]: "9006 \<le> E \<Longrightarrow> wire E s SessionConfigOptionSelect_codec"
  using wire_mono [OF wire_obj [OF SessionConfigOptionSelect_obj], of E s] by simp

subsection \<open>\<open>SessionConfigOptionBoolean\<close>\<close>

record SessionConfigOptionBoolean =
  Meta :: "(string \<times> string) list option"
  Category :: "string option"
  CurrentValue :: "bool"
  Description :: "string option"
  Id :: "string"
  Name :: "string"
  Type :: "string"

definition SessionConfigOptionBoolean_zero :: SessionConfigOptionBoolean where
  "SessionConfigOptionBoolean_zero = \<lparr>Meta = None, Category = None, CurrentValue = False, Description =
      None, Id = [], Name = [], Type = []\<rparr>"

definition SessionConfigOptionBoolean_fields :: "SessionConfigOptionBoolean fld list" where
  "SessionConfigOptionBoolean_fields =
     [go_field ''_meta'' True (go_map go_raw) SessionConfigOptionBoolean.Meta
         SessionConfigOptionBoolean.Meta_update,
      go_field ''category'' True (go_ptr go_string) SessionConfigOptionBoolean.Category
          SessionConfigOptionBoolean.Category_update,
      go_field ''currentValue'' False go_bool SessionConfigOptionBoolean.CurrentValue
          SessionConfigOptionBoolean.CurrentValue_update,
      go_field ''description'' True (go_ptr go_string) SessionConfigOptionBoolean.Description
          SessionConfigOptionBoolean.Description_update,
      go_field ''id'' False go_string SessionConfigOptionBoolean.Id SessionConfigOptionBoolean.Id_update,
      go_field ''name'' False go_string SessionConfigOptionBoolean.Name SessionConfigOptionBoolean.Name_update,
      go_field ''type'' False (go_tag ''boolean'') SessionConfigOptionBoolean.Type
          SessionConfigOptionBoolean.Type_update]"

definition SessionConfigOptionBoolean_codec :: "SessionConfigOptionBoolean codec" where
  "SessionConfigOptionBoolean_codec = go_struct SessionConfigOptionBoolean_zero
      SessionConfigOptionBoolean_fields"

lemma SessionConfigOptionBoolean_zero_codec [simp]: "c_zero SessionConfigOptionBoolean_codec = SessionConfigOptionBoolean_zero"
  by (simp add: SessionConfigOptionBoolean_codec_def)

lemma SessionConfigOptionBoolean_obj:
  "obj 9001 (map f_name SessionConfigOptionBoolean_fields)
     [typed ''currentValue'' go_bool,
      typed ''id'' go_string,
      typed ''name'' go_string,
      typed ''type'' go_string,
      tagged ''type'' ''boolean'']
     SessionConfigOptionBoolean_codec"
  unfolding SessionConfigOptionBoolean_codec_def
  by (rule struct_obj) (simp_all add: SessionConfigOptionBoolean_fields_def SessionConfigOptionBoolean_zero_def
        max_depth_def)

lemma SessionConfigOptionBoolean_wire [simp]: "9002 \<le> E \<Longrightarrow> wire E s SessionConfigOptionBoolean_codec"
  using wire_mono [OF wire_obj [OF SessionConfigOptionBoolean_obj], of E s] by simp

subsection \<open>\<open>SessionConfigOption\<close>\<close>

record SessionConfigOption =
  Select :: "SessionConfigOptionSelect option"
  Boolean :: "SessionConfigOptionBoolean option"

definition SessionConfigOption_zero :: SessionConfigOption where
  "SessionConfigOption_zero = \<lparr>Select = None, Boolean = None\<rparr>"

definition SessionConfigOption_as_Select :: "SessionConfigOption variant" where
  "SessionConfigOption_as_Select =
     go_variant (Some ''select'')
       [typed ''currentValue'' go_string,
        typed ''id'' go_string,
        typed ''name'' go_string,
        typed ''options'' SessionConfigSelectOptions_codec,
        typed ''type'' go_string]
       SessionConfigOptionSelect_codec SessionConfigOption.Select (\<lambda>x.
         SessionConfigOption_zero\<lparr>SessionConfigOption.Select := Some x\<rparr>)"

definition SessionConfigOption_as_Boolean :: "SessionConfigOption variant" where
  "SessionConfigOption_as_Boolean =
     go_variant (Some ''boolean'')
       [typed ''currentValue'' go_bool,
        typed ''id'' go_string,
        typed ''name'' go_string,
        typed ''type'' go_string]
       SessionConfigOptionBoolean_codec SessionConfigOption.Boolean (\<lambda>x.
         SessionConfigOption_zero\<lparr>SessionConfigOption.Boolean := Some x\<rparr>)"

definition SessionConfigOption_variants :: "SessionConfigOption variant list" where
  "SessionConfigOption_variants =
     [SessionConfigOption_as_Select,
      SessionConfigOption_as_Boolean]"

definition SessionConfigOption_UnmarshalJSON :: "raw_json \<Rightarrow> SessionConfigOption decoded" where
  "SessionConfigOption_UnmarshalJSON = unmarshal_union ''type'' SessionConfigOption_variants"

definition SessionConfigOption_MarshalJSON :: "SessionConfigOption \<Rightarrow> string option" where
  "SessionConfigOption_MarshalJSON = marshal_union ''type'' SessionConfigOption_variants"

definition SessionConfigOption_codec :: "SessionConfigOption codec" where
  "SessionConfigOption_codec = go_union SessionConfigOption_zero SessionConfigOption_UnmarshalJSON
      SessionConfigOption_MarshalJSON SessionConfigOption_variants"

definition SessionConfigOption_Validate :: "SessionConfigOption \<Rightarrow> invalid option" where
  "SessionConfigOption_Validate = validate_union True ''SessionConfigOption'' SessionConfigOption_codec SessionConfigOption_variants"

definition SessionConfigOption_named :: "(string list \<times> SessionConfigOption variant) list" where
  "SessionConfigOption_named =
     [(map f_name SessionConfigOptionSelect_fields, SessionConfigOption_as_Select),
      (map f_name SessionConfigOptionBoolean_fields, SessionConfigOption_as_Boolean)]"

lemma SessionConfigOption_Select_law:
  "variant_law 9005 ''type'' (map f_name SessionConfigOptionSelect_fields) SessionConfigOption_as_Select"
  unfolding SessionConfigOption_as_Select_def
  by (rule go_variant_law [OF obj_mono [OF SessionConfigOptionSelect_obj]]) (simp_all)

lemma SessionConfigOption_Boolean_law:
  "variant_law 9005 ''type'' (map f_name SessionConfigOptionBoolean_fields) SessionConfigOption_as_Boolean"
  unfolding SessionConfigOption_as_Boolean_def
  by (rule go_variant_law [OF obj_mono [OF SessionConfigOptionBoolean_obj]]) (simp_all)

lemma SessionConfigOption_law: "union_law 9005 ''type'' SessionConfigOption_named"
proof (rule union_lawI)
  show "list_all (\<lambda>(n, v). variant_law 9005 ''type'' n v) SessionConfigOption_named"
    by (simp add: SessionConfigOption_named_def SessionConfigOption_Select_law SessionConfigOption_Boolean_law)
  show "list_all (\<lambda>(n, v). v_disc v \<noteq> Some []) SessionConfigOption_named"
    by (simp add: SessionConfigOption_named_def SessionConfigOption_as_Select_def
      SessionConfigOption_as_Boolean_def)
  show "sorted_wrt rivals SessionConfigOption_named"
    by (simp add: SessionConfigOption_named_def SessionConfigOption_zero_def SessionConfigOption_as_Select_def
      SessionConfigOption_as_Boolean_def)
qed

lemma SessionConfigOption_wire [simp]: "9006 \<le> E \<Longrightarrow> wire E s SessionConfigOption_codec"
  using wire_mono [OF wire_union [OF SessionConfigOption_law, where zero = SessionConfigOption_zero], where e = E and s' = s]
  by (simp add: SessionConfigOption_codec_def SessionConfigOption_UnmarshalJSON_def
    SessionConfigOption_MarshalJSON_def SessionConfigOption_variants_def SessionConfigOption_named_def
    max_depth_def)

lemma SessionConfigOption_zero_codec [simp]: "c_zero SessionConfigOption_codec = SessionConfigOption_zero"
  by (simp add: SessionConfigOption_codec_def)

lemma SessionConfigOption_one: "list_all (\<lambda>v. builds v (\<lambda>u. variants_set SessionConfigOption_variants u = 1)) SessionConfigOption_variants"
  by (simp add: SessionConfigOption_variants_def SessionConfigOption_zero_def SessionConfigOption_as_Select_def
      SessionConfigOption_as_Boolean_def)

interpretation sessionconfigoption_wire: wire_type SessionConfigOption_codec 9006
  by unfold_locales (simp_all add: max_depth_def)

lemma SessionConfigOption_valid: "c_fine SessionConfigOption_codec u \<Longrightarrow> SessionConfigOption_Validate u = None"
  unfolding SessionConfigOption_Validate_def validate_union_def
  by (rule sessionconfigoption_wire.validated) (simp_all add: SessionConfigOption_codec_def union_fine_one [OF SessionConfigOption_one])

subsection \<open>\<open>SessionConfigBoolean\<close>\<close>

record SessionConfigBoolean =
  CurrentValue :: "bool"

definition SessionConfigBoolean_zero :: SessionConfigBoolean where
  "SessionConfigBoolean_zero = \<lparr>CurrentValue = False\<rparr>"

definition SessionConfigBoolean_fields :: "SessionConfigBoolean fld list" where
  "SessionConfigBoolean_fields =
     [go_field ''currentValue'' False go_bool SessionConfigBoolean.CurrentValue
         SessionConfigBoolean.CurrentValue_update]"

definition SessionConfigBoolean_UnmarshalJSON :: "raw_json \<Rightarrow> SessionConfigBoolean decoded" where
  "SessionConfigBoolean_UnmarshalJSON =
     decode_struct
       [required ''currentValue'']
       (go_struct SessionConfigBoolean_zero SessionConfigBoolean_fields)
       (in_turn [])"

definition SessionConfigBoolean_codec :: "SessionConfigBoolean codec" where
  "SessionConfigBoolean_codec = with_unmarshal SessionConfigBoolean_UnmarshalJSON (go_struct
      SessionConfigBoolean_zero SessionConfigBoolean_fields)"

lemma SessionConfigBoolean_zero_codec [simp]: "c_zero SessionConfigBoolean_codec = SessionConfigBoolean_zero"
  by (simp add: SessionConfigBoolean_codec_def)

lemma SessionConfigBoolean_obj:
  "obj 9000 (map f_name SessionConfigBoolean_fields)
     [required ''currentValue'']
     SessionConfigBoolean_codec"
  unfolding SessionConfigBoolean_codec_def SessionConfigBoolean_UnmarshalJSON_def
  by (rule unmarshal_obj) (simp_all add: SessionConfigBoolean_fields_def SessionConfigBoolean_zero_def
        max_depth_def)

lemma SessionConfigBoolean_wire [simp]: "9001 \<le> E \<Longrightarrow> wire E s SessionConfigBoolean_codec"
  using wire_mono [OF wire_obj [OF SessionConfigBoolean_obj], of E s] by simp

subsection \<open>\<open>SessionConfigSelect\<close>\<close>

record SessionConfigSelect =
  CurrentValue :: "string"
  Options :: "SessionConfigSelectOptions"

definition SessionConfigSelect_zero :: SessionConfigSelect where
  "SessionConfigSelect_zero = \<lparr>CurrentValue = [], Options = SessionConfigSelectOptions_zero\<rparr>"

definition SessionConfigSelect_fields :: "SessionConfigSelect fld list" where
  "SessionConfigSelect_fields =
     [go_field ''currentValue'' False go_string SessionConfigSelect.CurrentValue
         SessionConfigSelect.CurrentValue_update,
      go_field ''options'' False SessionConfigSelectOptions_codec SessionConfigSelect.Options
          SessionConfigSelect.Options_update]"

definition SessionConfigSelect_UnmarshalJSON :: "raw_json \<Rightarrow> SessionConfigSelect decoded" where
  "SessionConfigSelect_UnmarshalJSON =
     decode_struct
       [required ''currentValue'',
        required ''options'']
       (go_struct SessionConfigSelect_zero SessionConfigSelect_fields)
       (in_turn [])"

definition SessionConfigSelect_codec :: "SessionConfigSelect codec" where
  "SessionConfigSelect_codec = with_unmarshal SessionConfigSelect_UnmarshalJSON (go_struct
      SessionConfigSelect_zero SessionConfigSelect_fields)"

lemma SessionConfigSelect_zero_codec [simp]: "c_zero SessionConfigSelect_codec = SessionConfigSelect_zero"
  by (simp add: SessionConfigSelect_codec_def)

lemma SessionConfigSelect_obj:
  "obj 9005 (map f_name SessionConfigSelect_fields)
     [required ''currentValue'',
      required ''options'']
     SessionConfigSelect_codec"
  unfolding SessionConfigSelect_codec_def SessionConfigSelect_UnmarshalJSON_def
  by (rule unmarshal_obj) (simp_all add: SessionConfigSelect_fields_def SessionConfigSelect_zero_def
        max_depth_def)

lemma SessionConfigSelect_wire [simp]: "9006 \<le> E \<Longrightarrow> wire E s SessionConfigSelect_codec"
  using wire_mono [OF wire_obj [OF SessionConfigSelect_obj], of E s] by simp

subsection \<open>\<open>ConfigOptionUpdate\<close>\<close>

record ConfigOptionUpdate =
  Meta :: "(string \<times> string) list option"
  ConfigOptions :: "SessionConfigOption list option"

definition ConfigOptionUpdate_zero :: ConfigOptionUpdate where
  "ConfigOptionUpdate_zero = \<lparr>Meta = None, ConfigOptions = None\<rparr>"

definition ConfigOptionUpdate_fields :: "ConfigOptionUpdate fld list" where
  "ConfigOptionUpdate_fields =
     [go_field ''_meta'' True (go_map go_raw) ConfigOptionUpdate.Meta ConfigOptionUpdate.Meta_update,
      go_field ''configOptions'' False (go_list SessionConfigOption_codec) ConfigOptionUpdate.ConfigOptions
          ConfigOptionUpdate.ConfigOptions_update]"

definition ConfigOptionUpdate_UnmarshalJSON :: "raw_json \<Rightarrow> ConfigOptionUpdate decoded" where
  "ConfigOptionUpdate_UnmarshalJSON =
     decode_struct
       [required ''configOptions'']
       (go_struct ConfigOptionUpdate_zero ConfigOptionUpdate_fields)
       (in_turn [])"

definition ConfigOptionUpdate_codec :: "ConfigOptionUpdate codec" where
  "ConfigOptionUpdate_codec = with_unmarshal ConfigOptionUpdate_UnmarshalJSON (go_struct ConfigOptionUpdate_zero
      ConfigOptionUpdate_fields)"

lemma ConfigOptionUpdate_zero_codec [simp]: "c_zero ConfigOptionUpdate_codec = ConfigOptionUpdate_zero"
  by (simp add: ConfigOptionUpdate_codec_def)

lemma ConfigOptionUpdate_obj:
  "obj 9007 (map f_name ConfigOptionUpdate_fields)
     [required ''configOptions'']
     ConfigOptionUpdate_codec"
  unfolding ConfigOptionUpdate_codec_def ConfigOptionUpdate_UnmarshalJSON_def
  by (rule unmarshal_obj) (simp_all add: ConfigOptionUpdate_fields_def ConfigOptionUpdate_zero_def
        max_depth_def)

lemma ConfigOptionUpdate_wire [simp]: "9008 \<le> E \<Longrightarrow> wire E s ConfigOptionUpdate_codec"
  using wire_mono [OF wire_obj [OF ConfigOptionUpdate_obj], of E s] by simp

section \<open>Setting them\<close>

subsection \<open>\<open>SetSessionConfigOptionBoolean\<close>\<close>

record SetSessionConfigOptionBoolean =
  Meta :: "(string \<times> string) list option"
  ConfigId :: "string"
  SessionId :: "string"
  Type :: "string"
  Value :: "bool"

definition SetSessionConfigOptionBoolean_zero :: SetSessionConfigOptionBoolean where
  "SetSessionConfigOptionBoolean_zero = \<lparr>Meta = None, ConfigId = [], SessionId = [], Type = [], Value =
      False\<rparr>"

definition SetSessionConfigOptionBoolean_fields :: "SetSessionConfigOptionBoolean fld list" where
  "SetSessionConfigOptionBoolean_fields =
     [go_field ''_meta'' True (go_map go_raw) SetSessionConfigOptionBoolean.Meta
         SetSessionConfigOptionBoolean.Meta_update,
      go_field ''configId'' False go_string SetSessionConfigOptionBoolean.ConfigId
          SetSessionConfigOptionBoolean.ConfigId_update,
      go_field ''sessionId'' False go_string SetSessionConfigOptionBoolean.SessionId
          SetSessionConfigOptionBoolean.SessionId_update,
      go_field ''type'' False (go_tag ''boolean'') SetSessionConfigOptionBoolean.Type
          SetSessionConfigOptionBoolean.Type_update,
      go_field ''value'' False go_bool SetSessionConfigOptionBoolean.Value
          SetSessionConfigOptionBoolean.Value_update]"

definition SetSessionConfigOptionBoolean_codec :: "SetSessionConfigOptionBoolean codec" where
  "SetSessionConfigOptionBoolean_codec = go_struct SetSessionConfigOptionBoolean_zero
      SetSessionConfigOptionBoolean_fields"

lemma SetSessionConfigOptionBoolean_zero_codec [simp]: "c_zero SetSessionConfigOptionBoolean_codec = SetSessionConfigOptionBoolean_zero"
  by (simp add: SetSessionConfigOptionBoolean_codec_def)

lemma SetSessionConfigOptionBoolean_obj:
  "obj 9001 (map f_name SetSessionConfigOptionBoolean_fields)
     [typed ''configId'' go_string,
      typed ''sessionId'' go_string,
      typed ''type'' go_string,
      typed ''value'' go_bool,
      tagged ''type'' ''boolean'']
     SetSessionConfigOptionBoolean_codec"
  unfolding SetSessionConfigOptionBoolean_codec_def
  by (rule struct_obj) (simp_all add: SetSessionConfigOptionBoolean_fields_def
        SetSessionConfigOptionBoolean_zero_def max_depth_def)

lemma SetSessionConfigOptionBoolean_wire [simp]: "9002 \<le> E \<Longrightarrow> wire E s SetSessionConfigOptionBoolean_codec"
  using wire_mono [OF wire_obj [OF SetSessionConfigOptionBoolean_obj], of E s] by simp

lemma SetSessionConfigOptionBoolean_names: "f_name ` set SetSessionConfigOptionBoolean_fields = {''_meta'', ''configId'', ''sessionId'', ''type'', ''value''}"
  by (auto simp: SetSessionConfigOptionBoolean_fields_def)

subsection \<open>\<open>SetSessionConfigOptionValueId\<close>\<close>

record SetSessionConfigOptionValueId =
  Meta :: "(string \<times> string) list option"
  ConfigId :: "string"
  SessionId :: "string"
  Value :: "string"

definition SetSessionConfigOptionValueId_zero :: SetSessionConfigOptionValueId where
  "SetSessionConfigOptionValueId_zero = \<lparr>Meta = None, ConfigId = [], SessionId = [], Value = []\<rparr>"

definition SetSessionConfigOptionValueId_fields :: "SetSessionConfigOptionValueId fld list" where
  "SetSessionConfigOptionValueId_fields =
     [go_field ''_meta'' True (go_map go_raw) SetSessionConfigOptionValueId.Meta
         SetSessionConfigOptionValueId.Meta_update,
      go_field ''configId'' False go_string SetSessionConfigOptionValueId.ConfigId
          SetSessionConfigOptionValueId.ConfigId_update,
      go_field ''sessionId'' False go_string SetSessionConfigOptionValueId.SessionId
          SetSessionConfigOptionValueId.SessionId_update,
      go_field ''value'' False go_string SetSessionConfigOptionValueId.Value
          SetSessionConfigOptionValueId.Value_update]"

definition SetSessionConfigOptionValueId_codec :: "SetSessionConfigOptionValueId codec" where
  "SetSessionConfigOptionValueId_codec = go_struct SetSessionConfigOptionValueId_zero
      SetSessionConfigOptionValueId_fields"

lemma SetSessionConfigOptionValueId_zero_codec [simp]: "c_zero SetSessionConfigOptionValueId_codec = SetSessionConfigOptionValueId_zero"
  by (simp add: SetSessionConfigOptionValueId_codec_def)

lemma SetSessionConfigOptionValueId_obj:
  "obj 9001 (map f_name SetSessionConfigOptionValueId_fields)
     [typed ''configId'' go_string,
      typed ''sessionId'' go_string,
      typed ''value'' go_string]
     SetSessionConfigOptionValueId_codec"
  unfolding SetSessionConfigOptionValueId_codec_def
  by (rule struct_obj) (simp_all add: SetSessionConfigOptionValueId_fields_def
        SetSessionConfigOptionValueId_zero_def max_depth_def)

lemma SetSessionConfigOptionValueId_wire [simp]: "9002 \<le> E \<Longrightarrow> wire E s SetSessionConfigOptionValueId_codec"
  using wire_mono [OF wire_obj [OF SetSessionConfigOptionValueId_obj], of E s] by simp

lemma SetSessionConfigOptionValueId_names: "f_name ` set SetSessionConfigOptionValueId_fields = {''_meta'', ''configId'', ''sessionId'', ''value''}"
  by (auto simp: SetSessionConfigOptionValueId_fields_def)

subsection \<open>\<open>SetSessionConfigOptionRequest\<close>\<close>

record SetSessionConfigOptionRequest =
  Boolean :: "SetSessionConfigOptionBoolean option"
  ValueId :: "SetSessionConfigOptionValueId option"

definition SetSessionConfigOptionRequest_zero :: SetSessionConfigOptionRequest where
  "SetSessionConfigOptionRequest_zero = \<lparr>Boolean = None, ValueId = None\<rparr>"

definition SetSessionConfigOptionRequest_as_Boolean :: "SetSessionConfigOptionRequest variant" where
  "SetSessionConfigOptionRequest_as_Boolean =
     go_variant (Some ''boolean'')
       [typed ''configId'' go_string,
        typed ''sessionId'' go_string,
        typed ''type'' go_string,
        typed ''value'' go_bool]
       SetSessionConfigOptionBoolean_codec SetSessionConfigOptionRequest.Boolean (\<lambda>x.
         SetSessionConfigOptionRequest_zero\<lparr>SetSessionConfigOptionRequest.Boolean := Some x\<rparr>)"

definition SetSessionConfigOptionRequest_as_ValueId :: "SetSessionConfigOptionRequest variant" where
  "SetSessionConfigOptionRequest_as_ValueId =
     go_variant None
       [typed ''configId'' go_string,
        typed ''sessionId'' go_string,
        typed ''value'' go_string]
       SetSessionConfigOptionValueId_codec SetSessionConfigOptionRequest.ValueId (\<lambda>x.
         SetSessionConfigOptionRequest_zero\<lparr>SetSessionConfigOptionRequest.ValueId := Some x\<rparr>)"

definition SetSessionConfigOptionRequest_variants :: "SetSessionConfigOptionRequest variant list" where
  "SetSessionConfigOptionRequest_variants =
     [SetSessionConfigOptionRequest_as_Boolean,
      SetSessionConfigOptionRequest_as_ValueId]"

definition SetSessionConfigOptionRequest_UnmarshalJSON :: "raw_json \<Rightarrow> SetSessionConfigOptionRequest decoded" where
  "SetSessionConfigOptionRequest_UnmarshalJSON = unmarshal_union ''type'' SetSessionConfigOptionRequest_variants"

definition SetSessionConfigOptionRequest_MarshalJSON :: "SetSessionConfigOptionRequest \<Rightarrow> string option" where
  "SetSessionConfigOptionRequest_MarshalJSON = marshal_union ''type'' SetSessionConfigOptionRequest_variants"

definition SetSessionConfigOptionRequest_codec :: "SetSessionConfigOptionRequest codec" where
  "SetSessionConfigOptionRequest_codec = go_union SetSessionConfigOptionRequest_zero
      SetSessionConfigOptionRequest_UnmarshalJSON SetSessionConfigOptionRequest_MarshalJSON
      SetSessionConfigOptionRequest_variants"

definition SetSessionConfigOptionRequest_Validate :: "SetSessionConfigOptionRequest \<Rightarrow> invalid option" where
  "SetSessionConfigOptionRequest_Validate = validate_union False ''SetSessionConfigOptionRequest'' SetSessionConfigOptionRequest_codec SetSessionConfigOptionRequest_variants"

definition SetSessionConfigOptionRequest_named :: "(string list \<times> SetSessionConfigOptionRequest variant) list" where
  "SetSessionConfigOptionRequest_named =
     [(map f_name SetSessionConfigOptionBoolean_fields, SetSessionConfigOptionRequest_as_Boolean),
      (map f_name SetSessionConfigOptionValueId_fields, SetSessionConfigOptionRequest_as_ValueId)]"

lemma SetSessionConfigOptionRequest_Boolean_law:
  "variant_law 9001 ''type'' (map f_name SetSessionConfigOptionBoolean_fields) SetSessionConfigOptionRequest_as_Boolean"
  unfolding SetSessionConfigOptionRequest_as_Boolean_def
  by (rule go_variant_law [OF obj_mono [OF SetSessionConfigOptionBoolean_obj]]) (simp_all)

lemma SetSessionConfigOptionRequest_ValueId_law:
  "variant_law 9001 ''type'' (map f_name SetSessionConfigOptionValueId_fields) SetSessionConfigOptionRequest_as_ValueId"
  unfolding SetSessionConfigOptionRequest_as_ValueId_def
  by (rule go_variant_law [OF obj_mono [OF SetSessionConfigOptionValueId_obj]]) (simp_all add: SetSessionConfigOptionValueId_names)

lemma SetSessionConfigOptionRequest_law: "union_law 9001 ''type'' SetSessionConfigOptionRequest_named"
proof (rule union_lawI)
  show "list_all (\<lambda>(n, v). variant_law 9001 ''type'' n v) SetSessionConfigOptionRequest_named"
    by (simp add: SetSessionConfigOptionRequest_named_def SetSessionConfigOptionRequest_Boolean_law
      SetSessionConfigOptionRequest_ValueId_law)
  show "list_all (\<lambda>(n, v). v_disc v \<noteq> Some []) SetSessionConfigOptionRequest_named"
    by (simp add: SetSessionConfigOptionRequest_named_def SetSessionConfigOptionRequest_as_Boolean_def
      SetSessionConfigOptionRequest_as_ValueId_def)
  show "sorted_wrt rivals SetSessionConfigOptionRequest_named"
    by (simp add: SetSessionConfigOptionRequest_named_def SetSessionConfigOptionRequest_zero_def
      SetSessionConfigOptionRequest_as_Boolean_def SetSessionConfigOptionRequest_as_ValueId_def
      SetSessionConfigOptionBoolean_names SetSessionConfigOptionValueId_names)
qed

lemma SetSessionConfigOptionRequest_wire [simp]: "9002 \<le> E \<Longrightarrow> wire E s SetSessionConfigOptionRequest_codec"
  using wire_mono [OF wire_union [OF SetSessionConfigOptionRequest_law, where zero = SetSessionConfigOptionRequest_zero], where e = E and s' = s]
  by (simp add: SetSessionConfigOptionRequest_codec_def SetSessionConfigOptionRequest_UnmarshalJSON_def
    SetSessionConfigOptionRequest_MarshalJSON_def SetSessionConfigOptionRequest_variants_def
    SetSessionConfigOptionRequest_named_def max_depth_def)

lemma SetSessionConfigOptionRequest_zero_codec [simp]: "c_zero SetSessionConfigOptionRequest_codec = SetSessionConfigOptionRequest_zero"
  by (simp add: SetSessionConfigOptionRequest_codec_def)

lemma SetSessionConfigOptionRequest_one: "list_all (\<lambda>v. builds v (\<lambda>u. variants_set SetSessionConfigOptionRequest_variants u = 1)) SetSessionConfigOptionRequest_variants"
  by (simp add: SetSessionConfigOptionRequest_variants_def SetSessionConfigOptionRequest_zero_def
      SetSessionConfigOptionRequest_as_Boolean_def SetSessionConfigOptionRequest_as_ValueId_def)

interpretation setsessionconfigoptionrequest_wire: wire_type SetSessionConfigOptionRequest_codec 9002
  by unfold_locales (simp_all add: max_depth_def)

lemma SetSessionConfigOptionRequest_valid: "c_fine SetSessionConfigOptionRequest_codec u \<Longrightarrow> SetSessionConfigOptionRequest_Validate u = None"
  unfolding SetSessionConfigOptionRequest_Validate_def validate_union_def
  by (rule setsessionconfigoptionrequest_wire.validated) (simp_all add: SetSessionConfigOptionRequest_codec_def union_fine_one [OF SetSessionConfigOptionRequest_one])

subsection \<open>\<open>SetSessionConfigOptionResponse\<close>\<close>

record SetSessionConfigOptionResponse =
  Meta :: "(string \<times> string) list option"
  ConfigOptions :: "SessionConfigOption list option"

definition SetSessionConfigOptionResponse_zero :: SetSessionConfigOptionResponse where
  "SetSessionConfigOptionResponse_zero = \<lparr>Meta = None, ConfigOptions = None\<rparr>"

definition SetSessionConfigOptionResponse_fields :: "SetSessionConfigOptionResponse fld list" where
  "SetSessionConfigOptionResponse_fields =
     [go_field ''_meta'' True (go_map go_raw) SetSessionConfigOptionResponse.Meta
         SetSessionConfigOptionResponse.Meta_update,
      go_field ''configOptions'' False (go_list SessionConfigOption_codec)
          SetSessionConfigOptionResponse.ConfigOptions SetSessionConfigOptionResponse.ConfigOptions_update]"

definition SetSessionConfigOptionResponse_UnmarshalJSON :: "raw_json \<Rightarrow> SetSessionConfigOptionResponse decoded" where
  "SetSessionConfigOptionResponse_UnmarshalJSON =
     decode_struct
       [required ''configOptions'']
       (go_struct SetSessionConfigOptionResponse_zero SetSessionConfigOptionResponse_fields)
       (in_turn [])"

definition SetSessionConfigOptionResponse_codec :: "SetSessionConfigOptionResponse codec" where
  "SetSessionConfigOptionResponse_codec = with_unmarshal SetSessionConfigOptionResponse_UnmarshalJSON (go_struct
      SetSessionConfigOptionResponse_zero SetSessionConfigOptionResponse_fields)"

definition SetSessionConfigOptionResponse_Validate :: "SetSessionConfigOptionResponse \<Rightarrow> invalid option" where
  "SetSessionConfigOptionResponse_Validate v =
     (if SetSessionConfigOptionResponse.ConfigOptions v = None then Some (Message ''configOptions is required'')
      else (case validate_items ''configOptions'' SessionConfigOption_Validate 0 (case SetSessionConfigOptionResponse.ConfigOptions v of None \<Rightarrow> [] | Some xs \<Rightarrow> xs) of
       Some e \<Rightarrow> Some e
     | None \<Rightarrow> None))"

lemma SetSessionConfigOptionResponse_zero_codec [simp]: "c_zero SetSessionConfigOptionResponse_codec = SetSessionConfigOptionResponse_zero"
  by (simp add: SetSessionConfigOptionResponse_codec_def)

lemma SetSessionConfigOptionResponse_obj:
  "obj 9007 (map f_name SetSessionConfigOptionResponse_fields)
     [required ''configOptions'']
     SetSessionConfigOptionResponse_codec"
  unfolding SetSessionConfigOptionResponse_codec_def SetSessionConfigOptionResponse_UnmarshalJSON_def
  by (rule unmarshal_obj) (simp_all add: SetSessionConfigOptionResponse_fields_def
        SetSessionConfigOptionResponse_zero_def max_depth_def)

lemma SetSessionConfigOptionResponse_wire [simp]: "9008 \<le> E \<Longrightarrow> wire E s SetSessionConfigOptionResponse_codec"
  using wire_mono [OF wire_obj [OF SetSessionConfigOptionResponse_obj], of E s] by simp

section \<open>Modes\<close>

subsection \<open>\<open>SessionMode\<close>\<close>

record SessionMode =
  Meta :: "(string \<times> string) list option"
  Description :: "string option"
  Id :: "string"
  Name :: "string"

definition SessionMode_zero :: SessionMode where
  "SessionMode_zero = \<lparr>Meta = None, Description = None, Id = [], Name = []\<rparr>"

definition SessionMode_fields :: "SessionMode fld list" where
  "SessionMode_fields =
     [go_field ''_meta'' True (go_map go_raw) SessionMode.Meta SessionMode.Meta_update,
      go_field ''description'' True (go_ptr go_string) SessionMode.Description SessionMode.Description_update,
      go_field ''id'' False go_string SessionMode.Id SessionMode.Id_update,
      go_field ''name'' False go_string SessionMode.Name SessionMode.Name_update]"

definition SessionMode_UnmarshalJSON :: "raw_json \<Rightarrow> SessionMode decoded" where
  "SessionMode_UnmarshalJSON =
     decode_struct
       [required ''id'',
        required ''name'']
       (go_struct SessionMode_zero SessionMode_fields)
       (in_turn [])"

definition SessionMode_codec :: "SessionMode codec" where
  "SessionMode_codec = with_unmarshal SessionMode_UnmarshalJSON (go_struct SessionMode_zero SessionMode_fields)"

lemma SessionMode_zero_codec [simp]: "c_zero SessionMode_codec = SessionMode_zero"
  by (simp add: SessionMode_codec_def)

lemma SessionMode_obj:
  "obj 9001 (map f_name SessionMode_fields)
     [required ''id'',
      required ''name'']
     SessionMode_codec"
  unfolding SessionMode_codec_def SessionMode_UnmarshalJSON_def
  by (rule unmarshal_obj) (simp_all add: SessionMode_fields_def SessionMode_zero_def max_depth_def)

lemma SessionMode_wire [simp]: "9002 \<le> E \<Longrightarrow> wire E s SessionMode_codec"
  using wire_mono [OF wire_obj [OF SessionMode_obj], of E s] by simp

subsection \<open>\<open>SessionModeState\<close>\<close>

record SessionModeState =
  Meta :: "(string \<times> string) list option"
  AvailableModes :: "SessionMode list option"
  CurrentModeId :: "string"

definition SessionModeState_zero :: SessionModeState where
  "SessionModeState_zero = \<lparr>Meta = None, AvailableModes = None, CurrentModeId = []\<rparr>"

definition SessionModeState_fields :: "SessionModeState fld list" where
  "SessionModeState_fields =
     [go_field ''_meta'' True (go_map go_raw) SessionModeState.Meta SessionModeState.Meta_update,
      go_field ''availableModes'' False (go_list SessionMode_codec) SessionModeState.AvailableModes
          SessionModeState.AvailableModes_update,
      go_field ''currentModeId'' False go_string SessionModeState.CurrentModeId
          SessionModeState.CurrentModeId_update]"

definition SessionModeState_UnmarshalJSON :: "raw_json \<Rightarrow> SessionModeState decoded" where
  "SessionModeState_UnmarshalJSON =
     decode_struct
       [required ''availableModes'',
        required ''currentModeId'']
       (go_struct SessionModeState_zero SessionModeState_fields)
       (in_turn [])"

definition SessionModeState_codec :: "SessionModeState codec" where
  "SessionModeState_codec = with_unmarshal SessionModeState_UnmarshalJSON (go_struct SessionModeState_zero
      SessionModeState_fields)"

lemma SessionModeState_zero_codec [simp]: "c_zero SessionModeState_codec = SessionModeState_zero"
  by (simp add: SessionModeState_codec_def)

lemma SessionModeState_obj:
  "obj 9003 (map f_name SessionModeState_fields)
     [required ''availableModes'',
      required ''currentModeId'']
     SessionModeState_codec"
  unfolding SessionModeState_codec_def SessionModeState_UnmarshalJSON_def
  by (rule unmarshal_obj) (simp_all add: SessionModeState_fields_def SessionModeState_zero_def max_depth_def)

lemma SessionModeState_wire [simp]: "9004 \<le> E \<Longrightarrow> wire E s SessionModeState_codec"
  using wire_mono [OF wire_obj [OF SessionModeState_obj], of E s] by simp

subsection \<open>\<open>SetSessionModeRequest\<close>\<close>

record SetSessionModeRequest =
  Meta :: "(string \<times> string) list option"
  ModeId :: "string"
  SessionId :: "string"

definition SetSessionModeRequest_zero :: SetSessionModeRequest where
  "SetSessionModeRequest_zero = \<lparr>Meta = None, ModeId = [], SessionId = []\<rparr>"

definition SetSessionModeRequest_fields :: "SetSessionModeRequest fld list" where
  "SetSessionModeRequest_fields =
     [go_field ''_meta'' True (go_map go_raw) SetSessionModeRequest.Meta SetSessionModeRequest.Meta_update,
      go_field ''modeId'' False go_string SetSessionModeRequest.ModeId SetSessionModeRequest.ModeId_update,
      go_field ''sessionId'' False go_string SetSessionModeRequest.SessionId
          SetSessionModeRequest.SessionId_update]"

definition SetSessionModeRequest_UnmarshalJSON :: "raw_json \<Rightarrow> SetSessionModeRequest decoded" where
  "SetSessionModeRequest_UnmarshalJSON =
     decode_struct
       [required ''modeId'',
        required ''sessionId'']
       (go_struct SetSessionModeRequest_zero SetSessionModeRequest_fields)
       (in_turn [])"

definition SetSessionModeRequest_codec :: "SetSessionModeRequest codec" where
  "SetSessionModeRequest_codec = with_unmarshal SetSessionModeRequest_UnmarshalJSON (go_struct
      SetSessionModeRequest_zero SetSessionModeRequest_fields)"

definition SetSessionModeRequest_Validate :: "SetSessionModeRequest \<Rightarrow> invalid option" where
  "SetSessionModeRequest_Validate v =
     None"

lemma SetSessionModeRequest_zero_codec [simp]: "c_zero SetSessionModeRequest_codec = SetSessionModeRequest_zero"
  by (simp add: SetSessionModeRequest_codec_def)

lemma SetSessionModeRequest_obj:
  "obj 9001 (map f_name SetSessionModeRequest_fields)
     [required ''modeId'',
      required ''sessionId'']
     SetSessionModeRequest_codec"
  unfolding SetSessionModeRequest_codec_def SetSessionModeRequest_UnmarshalJSON_def
  by (rule unmarshal_obj) (simp_all add: SetSessionModeRequest_fields_def SetSessionModeRequest_zero_def
        max_depth_def)

lemma SetSessionModeRequest_wire [simp]: "9002 \<le> E \<Longrightarrow> wire E s SetSessionModeRequest_codec"
  using wire_mono [OF wire_obj [OF SetSessionModeRequest_obj], of E s] by simp

interpretation setsessionmoderequest_wire: wire_type SetSessionModeRequest_codec 9002
  by unfold_locales (simp_all add: max_depth_def)

subsection \<open>\<open>SetSessionModeResponse\<close>\<close>

record SetSessionModeResponse =
  Meta :: "(string \<times> string) list option"

definition SetSessionModeResponse_zero :: SetSessionModeResponse where
  "SetSessionModeResponse_zero = \<lparr>Meta = None\<rparr>"

definition SetSessionModeResponse_fields :: "SetSessionModeResponse fld list" where
  "SetSessionModeResponse_fields =
     [go_field ''_meta'' True (go_map go_raw) SetSessionModeResponse.Meta SetSessionModeResponse.Meta_update]"

definition SetSessionModeResponse_codec :: "SetSessionModeResponse codec" where
  "SetSessionModeResponse_codec = go_struct SetSessionModeResponse_zero SetSessionModeResponse_fields"

definition SetSessionModeResponse_Validate :: "SetSessionModeResponse \<Rightarrow> invalid option" where
  "SetSessionModeResponse_Validate v =
     None"

lemma SetSessionModeResponse_zero_codec [simp]: "c_zero SetSessionModeResponse_codec = SetSessionModeResponse_zero"
  by (simp add: SetSessionModeResponse_codec_def)

lemma SetSessionModeResponse_obj:
  "obj 9001 (map f_name SetSessionModeResponse_fields) [] SetSessionModeResponse_codec"
  unfolding SetSessionModeResponse_codec_def
  by (rule struct_obj) (simp_all add: SetSessionModeResponse_fields_def SetSessionModeResponse_zero_def
        max_depth_def)

lemma SetSessionModeResponse_wire [simp]: "9002 \<le> E \<Longrightarrow> wire E s SetSessionModeResponse_codec"
  using wire_mono [OF wire_obj [OF SetSessionModeResponse_obj], of E s] by simp

subsection \<open>\<open>CurrentModeUpdate\<close>\<close>

record CurrentModeUpdate =
  Meta :: "(string \<times> string) list option"
  CurrentModeId :: "string"

definition CurrentModeUpdate_zero :: CurrentModeUpdate where
  "CurrentModeUpdate_zero = \<lparr>Meta = None, CurrentModeId = []\<rparr>"

definition CurrentModeUpdate_fields :: "CurrentModeUpdate fld list" where
  "CurrentModeUpdate_fields =
     [go_field ''_meta'' True (go_map go_raw) CurrentModeUpdate.Meta CurrentModeUpdate.Meta_update,
      go_field ''currentModeId'' False go_string CurrentModeUpdate.CurrentModeId
          CurrentModeUpdate.CurrentModeId_update]"

definition CurrentModeUpdate_UnmarshalJSON :: "raw_json \<Rightarrow> CurrentModeUpdate decoded" where
  "CurrentModeUpdate_UnmarshalJSON =
     decode_struct
       [required ''currentModeId'']
       (go_struct CurrentModeUpdate_zero CurrentModeUpdate_fields)
       (in_turn [])"

definition CurrentModeUpdate_codec :: "CurrentModeUpdate codec" where
  "CurrentModeUpdate_codec = with_unmarshal CurrentModeUpdate_UnmarshalJSON (go_struct CurrentModeUpdate_zero
      CurrentModeUpdate_fields)"

lemma CurrentModeUpdate_zero_codec [simp]: "c_zero CurrentModeUpdate_codec = CurrentModeUpdate_zero"
  by (simp add: CurrentModeUpdate_codec_def)

lemma CurrentModeUpdate_obj:
  "obj 9001 (map f_name CurrentModeUpdate_fields)
     [required ''currentModeId'']
     CurrentModeUpdate_codec"
  unfolding CurrentModeUpdate_codec_def CurrentModeUpdate_UnmarshalJSON_def
  by (rule unmarshal_obj) (simp_all add: CurrentModeUpdate_fields_def CurrentModeUpdate_zero_def max_depth_def)

lemma CurrentModeUpdate_wire [simp]: "9002 \<le> E \<Longrightarrow> wire E s CurrentModeUpdate_codec"
  using wire_mono [OF wire_obj [OF CurrentModeUpdate_obj], of E s] by simp

end
