(* ===== verification/WireUpdate.thy ===== *)
theory WireUpdate
  imports WireConfig
begin

text \<open>
  The \<open>session/update\<close> notification: its fourteen kinds of update and the union over them. An update
  of the session's information or of a compaction tells a null from an absent member.
\<close>

section \<open>Parts of updates\<close>

subsection \<open>\<open>UnstructuredCommandInput\<close>\<close>

record UnstructuredCommandInput =
  Meta :: "(string \<times> string) list option"
  Hint :: "string"

definition UnstructuredCommandInput_zero :: UnstructuredCommandInput where
  "UnstructuredCommandInput_zero = \<lparr>Meta = None, Hint = []\<rparr>"

definition UnstructuredCommandInput_fields :: "UnstructuredCommandInput fld list" where
  "UnstructuredCommandInput_fields =
     [go_field ''_meta'' True (go_map go_raw) UnstructuredCommandInput.Meta
         UnstructuredCommandInput.Meta_update,
      go_field ''hint'' False go_string UnstructuredCommandInput.Hint UnstructuredCommandInput.Hint_update]"

definition UnstructuredCommandInput_UnmarshalJSON :: "raw_json \<Rightarrow> UnstructuredCommandInput decoded" where
  "UnstructuredCommandInput_UnmarshalJSON =
     decode_struct
       [required ''hint'']
       (go_struct UnstructuredCommandInput_zero UnstructuredCommandInput_fields)
       (in_turn [])"

definition UnstructuredCommandInput_codec :: "UnstructuredCommandInput codec" where
  "UnstructuredCommandInput_codec = with_unmarshal UnstructuredCommandInput_UnmarshalJSON (go_struct
      UnstructuredCommandInput_zero UnstructuredCommandInput_fields)"

lemma UnstructuredCommandInput_zero_codec [simp]: "c_zero UnstructuredCommandInput_codec = UnstructuredCommandInput_zero"
  by (simp add: UnstructuredCommandInput_codec_def)

lemma UnstructuredCommandInput_obj:
  "obj 9001 (map f_name UnstructuredCommandInput_fields)
     [required ''hint'',
      typed ''hint'' go_string]
     UnstructuredCommandInput_codec"
  unfolding UnstructuredCommandInput_codec_def UnstructuredCommandInput_UnmarshalJSON_def
  by (rule unmarshal_obj) (simp_all add: UnstructuredCommandInput_fields_def UnstructuredCommandInput_zero_def
        max_depth_def)

lemma UnstructuredCommandInput_wire [simp]: "9002 \<le> E \<Longrightarrow> wire E s UnstructuredCommandInput_codec"
  using wire_mono [OF wire_obj [OF UnstructuredCommandInput_obj], of E s] by simp

lemma UnstructuredCommandInput_names: "f_name ` set UnstructuredCommandInput_fields = {''_meta'', ''hint''}"
  by (auto simp: UnstructuredCommandInput_fields_def)

subsection \<open>\<open>AvailableCommandInput\<close>\<close>

record AvailableCommandInput =
  Unstructured :: "UnstructuredCommandInput option"

definition AvailableCommandInput_zero :: AvailableCommandInput where
  "AvailableCommandInput_zero = \<lparr>Unstructured = None\<rparr>"

definition AvailableCommandInput_as_Unstructured :: "AvailableCommandInput variant" where
  "AvailableCommandInput_as_Unstructured =
     go_variant None
       [typed ''hint'' go_string]
       UnstructuredCommandInput_codec AvailableCommandInput.Unstructured (\<lambda>x.
         AvailableCommandInput_zero\<lparr>AvailableCommandInput.Unstructured := Some x\<rparr>)"

definition AvailableCommandInput_variants :: "AvailableCommandInput variant list" where
  "AvailableCommandInput_variants =
     [AvailableCommandInput_as_Unstructured]"

definition AvailableCommandInput_UnmarshalJSON :: "raw_json \<Rightarrow> AvailableCommandInput decoded" where
  "AvailableCommandInput_UnmarshalJSON = unmarshal_union [] AvailableCommandInput_variants"

definition AvailableCommandInput_MarshalJSON :: "AvailableCommandInput \<Rightarrow> string option" where
  "AvailableCommandInput_MarshalJSON = marshal_union [] AvailableCommandInput_variants"

definition AvailableCommandInput_codec :: "AvailableCommandInput codec" where
  "AvailableCommandInput_codec = go_union AvailableCommandInput_zero AvailableCommandInput_UnmarshalJSON
      AvailableCommandInput_MarshalJSON AvailableCommandInput_variants"

definition AvailableCommandInput_Validate :: "AvailableCommandInput \<Rightarrow> invalid option" where
  "AvailableCommandInput_Validate = validate_union False ''AvailableCommandInput'' AvailableCommandInput_codec AvailableCommandInput_variants"

definition AvailableCommandInput_named :: "(string list \<times> AvailableCommandInput variant) list" where
  "AvailableCommandInput_named =
     [(map f_name UnstructuredCommandInput_fields, AvailableCommandInput_as_Unstructured)]"

lemma AvailableCommandInput_Unstructured_law:
  "variant_law 9001 [] (map f_name UnstructuredCommandInput_fields) AvailableCommandInput_as_Unstructured"
  unfolding AvailableCommandInput_as_Unstructured_def
  by (rule go_variant_law [OF obj_mono [OF UnstructuredCommandInput_obj]]) (simp_all add: UnstructuredCommandInput_names)

lemma AvailableCommandInput_law: "union_law 9001 [] AvailableCommandInput_named"
proof (rule union_lawI)
  show "list_all (\<lambda>(n, v). variant_law 9001 [] n v) AvailableCommandInput_named"
    by (simp add: AvailableCommandInput_named_def AvailableCommandInput_Unstructured_law)
  show "list_all (\<lambda>(n, v). v_disc v \<noteq> Some []) AvailableCommandInput_named"
    by (simp add: AvailableCommandInput_named_def AvailableCommandInput_as_Unstructured_def)
  show "sorted_wrt rivals AvailableCommandInput_named"
    by (simp add: AvailableCommandInput_named_def AvailableCommandInput_zero_def
      AvailableCommandInput_as_Unstructured_def UnstructuredCommandInput_names)
qed

lemma AvailableCommandInput_wire [simp]: "9002 \<le> E \<Longrightarrow> wire E s AvailableCommandInput_codec"
  using wire_mono [OF wire_union [OF AvailableCommandInput_law, where zero = AvailableCommandInput_zero], where e = E and s' = s]
  by (simp add: AvailableCommandInput_codec_def AvailableCommandInput_UnmarshalJSON_def
    AvailableCommandInput_MarshalJSON_def AvailableCommandInput_variants_def AvailableCommandInput_named_def
    max_depth_def)

lemma AvailableCommandInput_zero_codec [simp]: "c_zero AvailableCommandInput_codec = AvailableCommandInput_zero"
  by (simp add: AvailableCommandInput_codec_def)

lemma AvailableCommandInput_one: "list_all (\<lambda>v. builds v (\<lambda>u. variants_set AvailableCommandInput_variants u = 1)) AvailableCommandInput_variants"
  by (simp add: AvailableCommandInput_variants_def AvailableCommandInput_zero_def
      AvailableCommandInput_as_Unstructured_def)

interpretation availablecommandinput_wire: wire_type AvailableCommandInput_codec 9002
  by unfold_locales (simp_all add: max_depth_def)

lemma AvailableCommandInput_valid: "c_fine AvailableCommandInput_codec u \<Longrightarrow> AvailableCommandInput_Validate u = None"
  unfolding AvailableCommandInput_Validate_def validate_union_def
  by (rule availablecommandinput_wire.validated) (simp_all add: AvailableCommandInput_codec_def union_fine_one [OF AvailableCommandInput_one])

subsection \<open>\<open>AvailableCommand\<close>\<close>

record AvailableCommand =
  Meta :: "(string \<times> string) list option"
  Description :: "string"
  Input :: "AvailableCommandInput option"
  Name :: "string"

definition AvailableCommand_zero :: AvailableCommand where
  "AvailableCommand_zero = \<lparr>Meta = None, Description = [], Input = None, Name = []\<rparr>"

definition AvailableCommand_fields :: "AvailableCommand fld list" where
  "AvailableCommand_fields =
     [go_field ''_meta'' True (go_map go_raw) AvailableCommand.Meta AvailableCommand.Meta_update,
      go_field ''description'' False go_string AvailableCommand.Description AvailableCommand.Description_update,
      go_field ''input'' True (go_ptr AvailableCommandInput_codec) AvailableCommand.Input
          AvailableCommand.Input_update,
      go_field ''name'' False go_string AvailableCommand.Name AvailableCommand.Name_update]"

definition AvailableCommand_UnmarshalJSON :: "raw_json \<Rightarrow> AvailableCommand decoded" where
  "AvailableCommand_UnmarshalJSON =
     decode_struct
       [required ''description'',
        required ''name'']
       (go_struct AvailableCommand_zero AvailableCommand_fields)
       (in_turn [])"

definition AvailableCommand_codec :: "AvailableCommand codec" where
  "AvailableCommand_codec = with_unmarshal AvailableCommand_UnmarshalJSON (go_struct AvailableCommand_zero
      AvailableCommand_fields)"

lemma AvailableCommand_zero_codec [simp]: "c_zero AvailableCommand_codec = AvailableCommand_zero"
  by (simp add: AvailableCommand_codec_def)

lemma AvailableCommand_obj:
  "obj 9002 (map f_name AvailableCommand_fields)
     [required ''description'',
      required ''name'']
     AvailableCommand_codec"
  unfolding AvailableCommand_codec_def AvailableCommand_UnmarshalJSON_def
  by (rule unmarshal_obj) (simp_all add: AvailableCommand_fields_def AvailableCommand_zero_def max_depth_def)

lemma AvailableCommand_wire [simp]: "9003 \<le> E \<Longrightarrow> wire E s AvailableCommand_codec"
  using wire_mono [OF wire_obj [OF AvailableCommand_obj], of E s] by simp

subsection \<open>\<open>AvailableCommandsUpdate\<close>\<close>

record AvailableCommandsUpdate =
  Meta :: "(string \<times> string) list option"
  AvailableCommands :: "AvailableCommand list option"

definition AvailableCommandsUpdate_zero :: AvailableCommandsUpdate where
  "AvailableCommandsUpdate_zero = \<lparr>Meta = None, AvailableCommands = None\<rparr>"

definition AvailableCommandsUpdate_fields :: "AvailableCommandsUpdate fld list" where
  "AvailableCommandsUpdate_fields =
     [go_field ''_meta'' True (go_map go_raw) AvailableCommandsUpdate.Meta AvailableCommandsUpdate.Meta_update,
      go_field ''availableCommands'' False (go_list AvailableCommand_codec)
          AvailableCommandsUpdate.AvailableCommands AvailableCommandsUpdate.AvailableCommands_update]"

definition AvailableCommandsUpdate_UnmarshalJSON :: "raw_json \<Rightarrow> AvailableCommandsUpdate decoded" where
  "AvailableCommandsUpdate_UnmarshalJSON =
     decode_struct
       [required ''availableCommands'']
       (go_struct AvailableCommandsUpdate_zero AvailableCommandsUpdate_fields)
       (in_turn [])"

definition AvailableCommandsUpdate_codec :: "AvailableCommandsUpdate codec" where
  "AvailableCommandsUpdate_codec = with_unmarshal AvailableCommandsUpdate_UnmarshalJSON (go_struct
      AvailableCommandsUpdate_zero AvailableCommandsUpdate_fields)"

lemma AvailableCommandsUpdate_zero_codec [simp]: "c_zero AvailableCommandsUpdate_codec = AvailableCommandsUpdate_zero"
  by (simp add: AvailableCommandsUpdate_codec_def)

lemma AvailableCommandsUpdate_obj:
  "obj 9004 (map f_name AvailableCommandsUpdate_fields)
     [required ''availableCommands'']
     AvailableCommandsUpdate_codec"
  unfolding AvailableCommandsUpdate_codec_def AvailableCommandsUpdate_UnmarshalJSON_def
  by (rule unmarshal_obj) (simp_all add: AvailableCommandsUpdate_fields_def AvailableCommandsUpdate_zero_def
        max_depth_def)

lemma AvailableCommandsUpdate_wire [simp]: "9005 \<le> E \<Longrightarrow> wire E s AvailableCommandsUpdate_codec"
  using wire_mono [OF wire_obj [OF AvailableCommandsUpdate_obj], of E s] by simp

subsection \<open>\<open>Cost\<close>\<close>

record Cost =
  Meta :: "(string \<times> string) list option"
  Amount :: "string"
  Currency :: "string"

definition Cost_zero :: Cost where
  "Cost_zero = \<lparr>Meta = None, Amount = ''0'', Currency = []\<rparr>"

definition Cost_fields :: "Cost fld list" where
  "Cost_fields =
     [go_field ''_meta'' True (go_map go_raw) Cost.Meta Cost.Meta_update,
      go_field ''amount'' False go_float64 Cost.Amount Cost.Amount_update,
      go_field ''currency'' False go_string Cost.Currency Cost.Currency_update]"

definition Cost_UnmarshalJSON :: "raw_json \<Rightarrow> Cost decoded" where
  "Cost_UnmarshalJSON =
     decode_struct
       [required ''amount'',
        required ''currency'']
       (go_struct Cost_zero Cost_fields)
       (in_turn [])"

definition Cost_codec :: "Cost codec" where
  "Cost_codec = with_unmarshal Cost_UnmarshalJSON (go_struct Cost_zero Cost_fields)"

lemma Cost_zero_codec [simp]: "c_zero Cost_codec = Cost_zero"
  by (simp add: Cost_codec_def)

lemma Cost_obj:
  "obj 9001 (map f_name Cost_fields)
     [required ''amount'',
      required ''currency'']
     Cost_codec"
  unfolding Cost_codec_def Cost_UnmarshalJSON_def
  by (rule unmarshal_obj) (simp_all add: Cost_fields_def Cost_zero_def max_depth_def)

lemma Cost_wire [simp]: "9002 \<le> E \<Longrightarrow> wire E s Cost_codec"
  using wire_mono [OF wire_obj [OF Cost_obj], of E s] by simp

subsection \<open>\<open>UsageUpdate\<close>\<close>

record UsageUpdate =
  Meta :: "(string \<times> string) list option"
  Cost :: "Cost option"
  Size :: "int"
  Used :: "int"

definition UsageUpdate_zero :: UsageUpdate where
  "UsageUpdate_zero = \<lparr>Meta = None, Cost = None, Size = 0, Used = 0\<rparr>"

definition UsageUpdate_fields :: "UsageUpdate fld list" where
  "UsageUpdate_fields =
     [go_field ''_meta'' True (go_map go_raw) UsageUpdate.Meta UsageUpdate.Meta_update,
      go_field ''cost'' True (go_ptr Cost_codec) UsageUpdate.Cost UsageUpdate.Cost_update,
      go_field ''size'' False go_uint64 UsageUpdate.Size UsageUpdate.Size_update,
      go_field ''used'' False go_uint64 UsageUpdate.Used UsageUpdate.Used_update]"

definition UsageUpdate_UnmarshalJSON :: "raw_json \<Rightarrow> UsageUpdate decoded" where
  "UsageUpdate_UnmarshalJSON =
     decode_struct
       [required ''size'',
        required ''used'']
       (go_struct UsageUpdate_zero UsageUpdate_fields)
       (in_turn [])"

definition UsageUpdate_codec :: "UsageUpdate codec" where
  "UsageUpdate_codec = with_unmarshal UsageUpdate_UnmarshalJSON (go_struct UsageUpdate_zero UsageUpdate_fields)"

lemma UsageUpdate_zero_codec [simp]: "c_zero UsageUpdate_codec = UsageUpdate_zero"
  by (simp add: UsageUpdate_codec_def)

lemma UsageUpdate_obj:
  "obj 9002 (map f_name UsageUpdate_fields)
     [required ''size'',
      required ''used'']
     UsageUpdate_codec"
  unfolding UsageUpdate_codec_def UsageUpdate_UnmarshalJSON_def
  by (rule unmarshal_obj) (simp_all add: UsageUpdate_fields_def UsageUpdate_zero_def max_depth_def)

lemma UsageUpdate_wire [simp]: "9003 \<le> E \<Longrightarrow> wire E s UsageUpdate_codec"
  using wire_mono [OF wire_obj [OF UsageUpdate_obj], of E s] by simp

subsection \<open>\<open>SessionInfoUpdate\<close>\<close>

record SessionInfoUpdate =
  Meta :: "(string \<times> string) list option"
  Title :: "string option"
  UpdatedAt :: "string option"
  hasTitle :: "bool"
  hasUpdatedAt :: "bool"

definition SessionInfoUpdate_zero :: SessionInfoUpdate where
  "SessionInfoUpdate_zero = \<lparr>Meta = None, Title = None, UpdatedAt = None, hasTitle = False, hasUpdatedAt
      = False\<rparr>"

definition SessionInfoUpdate_fields :: "SessionInfoUpdate fld list" where
  "SessionInfoUpdate_fields =
     [go_field ''_meta'' True (go_map go_raw) SessionInfoUpdate.Meta SessionInfoUpdate.Meta_update,
      go_patch ''title'' (go_ptr go_string) SessionInfoUpdate.Title SessionInfoUpdate.Title_update
          SessionInfoUpdate.hasTitle SessionInfoUpdate.hasTitle_update,
      go_patch ''updatedAt'' (go_ptr go_string) SessionInfoUpdate.UpdatedAt SessionInfoUpdate.UpdatedAt_update
          SessionInfoUpdate.hasUpdatedAt SessionInfoUpdate.hasUpdatedAt_update]"

definition SessionInfoUpdate_UnmarshalJSON :: "raw_json \<Rightarrow> SessionInfoUpdate decoded" where
  "SessionInfoUpdate_UnmarshalJSON =
     decode_struct
       []
       (go_struct SessionInfoUpdate_zero SessionInfoUpdate_fields)
       (in_turn [noted ''title'' SessionInfoUpdate.hasTitle_update,
         noted ''updatedAt'' SessionInfoUpdate.hasUpdatedAt_update])"

definition SessionInfoUpdate_MarshalJSON :: "SessionInfoUpdate \<Rightarrow> string option" where
  "SessionInfoUpdate_MarshalJSON v = c_enc (go_struct SessionInfoUpdate_zero SessionInfoUpdate_fields) v"

definition SessionInfoUpdate_codec :: "SessionInfoUpdate codec" where
  "SessionInfoUpdate_codec = with_marshal SessionInfoUpdate_MarshalJSON (with_unmarshal
      SessionInfoUpdate_UnmarshalJSON (go_struct SessionInfoUpdate_zero SessionInfoUpdate_fields))"

definition SessionInfoUpdate_TitleState :: "SessionInfoUpdate \<Rightarrow> NullableFieldState" where
  "SessionInfoUpdate_TitleState = field_state SessionInfoUpdate.Title SessionInfoUpdate.hasTitle"

definition SessionInfoUpdate_SetTitle :: "string \<Rightarrow> SessionInfoUpdate \<Rightarrow> SessionInfoUpdate" where
  "SessionInfoUpdate_SetTitle x v = v\<lparr>SessionInfoUpdate.Title := Some x, SessionInfoUpdate.hasTitle :=
      True\<rparr>"

definition SessionInfoUpdate_ClearTitle :: "SessionInfoUpdate \<Rightarrow> SessionInfoUpdate" where
  "SessionInfoUpdate_ClearTitle v = v\<lparr>SessionInfoUpdate.Title := None, SessionInfoUpdate.hasTitle :=
      True\<rparr>"

definition SessionInfoUpdate_UnsetTitle :: "SessionInfoUpdate \<Rightarrow> SessionInfoUpdate" where
  "SessionInfoUpdate_UnsetTitle v = v\<lparr>SessionInfoUpdate.Title := None, SessionInfoUpdate.hasTitle :=
      False\<rparr>"

interpretation sessioninfoupdate_title: nullable_field SessionInfoUpdate_TitleState SessionInfoUpdate_SetTitle SessionInfoUpdate_ClearTitle SessionInfoUpdate_UnsetTitle
  "\<lambda>x. False"
  by unfold_locales (simp_all add: SessionInfoUpdate_TitleState_def SessionInfoUpdate_SetTitle_def
      SessionInfoUpdate_ClearTitle_def SessionInfoUpdate_UnsetTitle_def field_state_def)

definition SessionInfoUpdate_UpdatedAtState :: "SessionInfoUpdate \<Rightarrow> NullableFieldState" where
  "SessionInfoUpdate_UpdatedAtState = field_state SessionInfoUpdate.UpdatedAt SessionInfoUpdate.hasUpdatedAt"

definition SessionInfoUpdate_SetUpdatedAt :: "string \<Rightarrow> SessionInfoUpdate \<Rightarrow> SessionInfoUpdate" where
  "SessionInfoUpdate_SetUpdatedAt x v = v\<lparr>SessionInfoUpdate.UpdatedAt := Some x,
      SessionInfoUpdate.hasUpdatedAt := True\<rparr>"

definition SessionInfoUpdate_ClearUpdatedAt :: "SessionInfoUpdate \<Rightarrow> SessionInfoUpdate" where
  "SessionInfoUpdate_ClearUpdatedAt v = v\<lparr>SessionInfoUpdate.UpdatedAt := None,
      SessionInfoUpdate.hasUpdatedAt := True\<rparr>"

definition SessionInfoUpdate_UnsetUpdatedAt :: "SessionInfoUpdate \<Rightarrow> SessionInfoUpdate" where
  "SessionInfoUpdate_UnsetUpdatedAt v = v\<lparr>SessionInfoUpdate.UpdatedAt := None,
      SessionInfoUpdate.hasUpdatedAt := False\<rparr>"

interpretation sessioninfoupdate_updatedat: nullable_field SessionInfoUpdate_UpdatedAtState SessionInfoUpdate_SetUpdatedAt SessionInfoUpdate_ClearUpdatedAt SessionInfoUpdate_UnsetUpdatedAt
  "\<lambda>x. False"
  by unfold_locales (simp_all add: SessionInfoUpdate_UpdatedAtState_def SessionInfoUpdate_SetUpdatedAt_def
      SessionInfoUpdate_ClearUpdatedAt_def SessionInfoUpdate_UnsetUpdatedAt_def field_state_def)

lemma SessionInfoUpdate_zero_codec [simp]: "c_zero SessionInfoUpdate_codec = SessionInfoUpdate_zero"
  by (simp add: SessionInfoUpdate_codec_def)

lemma SessionInfoUpdate_obj:
  "obj 9001 (map f_name SessionInfoUpdate_fields) [] SessionInfoUpdate_codec"
  unfolding SessionInfoUpdate_codec_def SessionInfoUpdate_UnmarshalJSON_def
proof (rule obj_marshal)
  show "obj 9001 (map f_name SessionInfoUpdate_fields)
     []
    (with_unmarshal (decode_struct
       []
       (go_struct SessionInfoUpdate_zero SessionInfoUpdate_fields)
       (in_turn [noted ''title'' SessionInfoUpdate.hasTitle_update,
         noted ''updatedAt'' SessionInfoUpdate.hasUpdatedAt_update]))
     (go_struct SessionInfoUpdate_zero SessionInfoUpdate_fields))"
    by (rule unmarshal_obj) (simp_all add: SessionInfoUpdate_fields_def SessionInfoUpdate_zero_def max_depth_def
          post_noted [where flag = "SessionInfoUpdate.hasTitle" and set_flag =
          "SessionInfoUpdate.hasTitle_update"] post_noted [where flag = "SessionInfoUpdate.hasUpdatedAt" and
          set_flag = "SessionInfoUpdate.hasUpdatedAt_update"])
qed (simp_all add: max_depth_def SessionInfoUpdate_MarshalJSON_def)

lemma SessionInfoUpdate_wire [simp]: "9002 \<le> E \<Longrightarrow> wire E s SessionInfoUpdate_codec"
  using wire_mono [OF wire_obj [OF SessionInfoUpdate_obj], of E s] by simp

interpretation sessioninfoupdate_wire: wire_type SessionInfoUpdate_codec 9002
  by unfold_locales (simp_all add: max_depth_def)

subsection \<open>\<open>Notice\<close>\<close>

record Notice =
  Meta :: "(string \<times> string) list option"
  Description :: "string option"
  Severity :: "string"
  Title :: "string"

definition Notice_zero :: Notice where
  "Notice_zero = \<lparr>Meta = None, Description = None, Severity = [], Title = []\<rparr>"

definition Notice_fields :: "Notice fld list" where
  "Notice_fields =
     [go_field ''_meta'' True (lenient (go_map go_raw)) Notice.Meta Notice.Meta_update,
      go_field ''description'' True (lenient (go_ptr go_string)) Notice.Description Notice.Description_update,
      go_field ''severity'' False go_string Notice.Severity Notice.Severity_update,
      go_field ''title'' False go_nonblank Notice.Title Notice.Title_update]"

definition Notice_UnmarshalJSON :: "raw_json \<Rightarrow> Notice decoded" where
  "Notice_UnmarshalJSON =
     decode_struct
       [required ''severity'',
        required ''title'',
        nonblank ''title'']
       (go_struct Notice_zero Notice_fields)
       (in_turn [])"

definition Notice_codec :: "Notice codec" where
  "Notice_codec = with_unmarshal Notice_UnmarshalJSON (go_struct Notice_zero Notice_fields)"

lemma Notice_zero_codec [simp]: "c_zero Notice_codec = Notice_zero"
  by (simp add: Notice_codec_def)

lemma Notice_obj:
  "obj 9001 (map f_name Notice_fields)
     [required ''severity'',
      required ''title'',
      nonblank ''title'']
     Notice_codec"
  unfolding Notice_codec_def Notice_UnmarshalJSON_def
  by (rule unmarshal_obj) (simp_all add: Notice_fields_def Notice_zero_def max_depth_def)

lemma Notice_wire [simp]: "9002 \<le> E \<Longrightarrow> wire E s Notice_codec"
  using wire_mono [OF wire_obj [OF Notice_obj], of E s] by simp

subsection \<open>\<open>CompactionUpdate\<close>\<close>

record CompactionUpdate =
  Meta :: "(string \<times> string) list option"
  CompactionId :: "string"
  Error :: "string option"
  Status :: "string"
  Summary :: "ContentBlock list option"
  hasMeta :: "bool"
  hasError :: "bool"
  hasSummary :: "bool"

definition CompactionUpdate_zero :: CompactionUpdate where
  "CompactionUpdate_zero = \<lparr>Meta = None, CompactionId = [], Error = None, Status = [], Summary = None,
      hasMeta = False, hasError = False, hasSummary = False\<rparr>"

definition CompactionUpdate_fields :: "CompactionUpdate fld list" where
  "CompactionUpdate_fields =
     [go_field ''compactionId'' False go_string CompactionUpdate.CompactionId
         CompactionUpdate.CompactionId_update,
      go_field ''status'' False go_string CompactionUpdate.Status CompactionUpdate.Status_update,
      go_patch ''_meta'' (lenient (go_map go_raw)) CompactionUpdate.Meta CompactionUpdate.Meta_update
          CompactionUpdate.hasMeta CompactionUpdate.hasMeta_update,
      go_patch ''error'' (lenient (go_ptr go_string)) CompactionUpdate.Error CompactionUpdate.Error_update
          CompactionUpdate.hasError CompactionUpdate.hasError_update,
      go_patch ''summary'' (lenient_slice ContentBlock_codec) CompactionUpdate.Summary
          CompactionUpdate.Summary_update CompactionUpdate.hasSummary CompactionUpdate.hasSummary_update]"

definition CompactionUpdate_UnmarshalJSON :: "raw_json \<Rightarrow> CompactionUpdate decoded" where
  "CompactionUpdate_UnmarshalJSON =
     decode_struct
       [required ''compactionId'',
        required ''status'']
       (go_struct CompactionUpdate_zero CompactionUpdate_fields)
       (in_turn [noted_patch ''_meta'' CompactionUpdate.Meta CompactionUpdate.hasMeta_update,
         noted_patch ''error'' CompactionUpdate.Error CompactionUpdate.hasError_update,
         noted_patch ''summary'' CompactionUpdate.Summary CompactionUpdate.hasSummary_update])"

definition CompactionUpdate_MarshalJSON :: "CompactionUpdate \<Rightarrow> string option" where
  "CompactionUpdate_MarshalJSON v = c_enc (go_struct CompactionUpdate_zero CompactionUpdate_fields) v"

definition CompactionUpdate_codec :: "CompactionUpdate codec" where
  "CompactionUpdate_codec = with_marshal CompactionUpdate_MarshalJSON (with_unmarshal
      CompactionUpdate_UnmarshalJSON (go_struct CompactionUpdate_zero CompactionUpdate_fields))"

definition CompactionUpdate_MetaState :: "CompactionUpdate \<Rightarrow> NullableFieldState" where
  "CompactionUpdate_MetaState = field_state CompactionUpdate.Meta CompactionUpdate.hasMeta"

definition CompactionUpdate_SetMeta :: "(string \<times> string) list option \<Rightarrow> CompactionUpdate \<Rightarrow> CompactionUpdate" where
  "CompactionUpdate_SetMeta x v = v\<lparr>CompactionUpdate.Meta := x, CompactionUpdate.hasMeta := True\<rparr>"

definition CompactionUpdate_ClearMeta :: "CompactionUpdate \<Rightarrow> CompactionUpdate" where
  "CompactionUpdate_ClearMeta v = v\<lparr>CompactionUpdate.Meta := None, CompactionUpdate.hasMeta :=
      True\<rparr>"

definition CompactionUpdate_UnsetMeta :: "CompactionUpdate \<Rightarrow> CompactionUpdate" where
  "CompactionUpdate_UnsetMeta v = v\<lparr>CompactionUpdate.Meta := None, CompactionUpdate.hasMeta :=
      False\<rparr>"

interpretation compactionupdate_meta: nullable_field CompactionUpdate_MetaState CompactionUpdate_SetMeta CompactionUpdate_ClearMeta CompactionUpdate_UnsetMeta
  "\<lambda>x. x = None"
  by unfold_locales (simp_all add: CompactionUpdate_MetaState_def CompactionUpdate_SetMeta_def
      CompactionUpdate_ClearMeta_def CompactionUpdate_UnsetMeta_def field_state_def)

definition CompactionUpdate_ErrorState :: "CompactionUpdate \<Rightarrow> NullableFieldState" where
  "CompactionUpdate_ErrorState = field_state CompactionUpdate.Error CompactionUpdate.hasError"

definition CompactionUpdate_SetError :: "string \<Rightarrow> CompactionUpdate \<Rightarrow> CompactionUpdate" where
  "CompactionUpdate_SetError x v = v\<lparr>CompactionUpdate.Error := Some x, CompactionUpdate.hasError :=
      True\<rparr>"

definition CompactionUpdate_ClearError :: "CompactionUpdate \<Rightarrow> CompactionUpdate" where
  "CompactionUpdate_ClearError v = v\<lparr>CompactionUpdate.Error := None, CompactionUpdate.hasError :=
      True\<rparr>"

definition CompactionUpdate_UnsetError :: "CompactionUpdate \<Rightarrow> CompactionUpdate" where
  "CompactionUpdate_UnsetError v = v\<lparr>CompactionUpdate.Error := None, CompactionUpdate.hasError :=
      False\<rparr>"

interpretation compactionupdate_error: nullable_field CompactionUpdate_ErrorState CompactionUpdate_SetError CompactionUpdate_ClearError CompactionUpdate_UnsetError
  "\<lambda>x. False"
  by unfold_locales (simp_all add: CompactionUpdate_ErrorState_def CompactionUpdate_SetError_def
      CompactionUpdate_ClearError_def CompactionUpdate_UnsetError_def field_state_def)

definition CompactionUpdate_SummaryState :: "CompactionUpdate \<Rightarrow> NullableFieldState" where
  "CompactionUpdate_SummaryState = field_state CompactionUpdate.Summary CompactionUpdate.hasSummary"

definition CompactionUpdate_SetSummary :: "ContentBlock list option \<Rightarrow> CompactionUpdate \<Rightarrow> CompactionUpdate" where
  "CompactionUpdate_SetSummary x v = v\<lparr>CompactionUpdate.Summary := x, CompactionUpdate.hasSummary :=
      True\<rparr>"

definition CompactionUpdate_ClearSummary :: "CompactionUpdate \<Rightarrow> CompactionUpdate" where
  "CompactionUpdate_ClearSummary v = v\<lparr>CompactionUpdate.Summary := None, CompactionUpdate.hasSummary :=
      True\<rparr>"

definition CompactionUpdate_UnsetSummary :: "CompactionUpdate \<Rightarrow> CompactionUpdate" where
  "CompactionUpdate_UnsetSummary v = v\<lparr>CompactionUpdate.Summary := None, CompactionUpdate.hasSummary :=
      False\<rparr>"

interpretation compactionupdate_summary: nullable_field CompactionUpdate_SummaryState CompactionUpdate_SetSummary CompactionUpdate_ClearSummary CompactionUpdate_UnsetSummary
  "\<lambda>x. x = None"
  by unfold_locales (simp_all add: CompactionUpdate_SummaryState_def CompactionUpdate_SetSummary_def
      CompactionUpdate_ClearSummary_def CompactionUpdate_UnsetSummary_def field_state_def)

lemma CompactionUpdate_zero_codec [simp]: "c_zero CompactionUpdate_codec = CompactionUpdate_zero"
  by (simp add: CompactionUpdate_codec_def)

lemma CompactionUpdate_obj:
  "obj 9004 (map f_name CompactionUpdate_fields)
     [required ''compactionId'',
      required ''status'']
     CompactionUpdate_codec"
  unfolding CompactionUpdate_codec_def CompactionUpdate_UnmarshalJSON_def
proof (rule obj_marshal)
  show "obj 9004 (map f_name CompactionUpdate_fields)
     [required ''compactionId'',
      required ''status'']
    (with_unmarshal (decode_struct
       [required ''compactionId'',
        required ''status'']
       (go_struct CompactionUpdate_zero CompactionUpdate_fields)
       (in_turn [noted_patch ''_meta'' CompactionUpdate.Meta CompactionUpdate.hasMeta_update,
         noted_patch ''error'' CompactionUpdate.Error CompactionUpdate.hasError_update,
         noted_patch ''summary'' CompactionUpdate.Summary CompactionUpdate.hasSummary_update]))
     (go_struct CompactionUpdate_zero CompactionUpdate_fields))"
    by (rule unmarshal_obj) (simp_all add: CompactionUpdate_fields_def CompactionUpdate_zero_def max_depth_def
          post_noted_patch [where flag = "CompactionUpdate.hasMeta" and set_flag =
          "CompactionUpdate.hasMeta_update"] post_noted_patch [where flag = "CompactionUpdate.hasError" and
          set_flag = "CompactionUpdate.hasError_update"] post_noted_patch [where flag =
          "CompactionUpdate.hasSummary" and set_flag = "CompactionUpdate.hasSummary_update"])
qed (simp_all add: max_depth_def CompactionUpdate_MarshalJSON_def)

lemma CompactionUpdate_wire [simp]: "9005 \<le> E \<Longrightarrow> wire E s CompactionUpdate_codec"
  using wire_mono [OF wire_obj [OF CompactionUpdate_obj], of E s] by simp

subsection \<open>\<open>CompactionSummaryChunk\<close>\<close>

record CompactionSummaryChunk =
  Meta :: "(string \<times> string) list option"
  CompactionId :: "string"
  Content :: "ContentBlock"

definition CompactionSummaryChunk_zero :: CompactionSummaryChunk where
  "CompactionSummaryChunk_zero = \<lparr>Meta = None, CompactionId = [], Content = ContentBlock_zero\<rparr>"

definition CompactionSummaryChunk_fields :: "CompactionSummaryChunk fld list" where
  "CompactionSummaryChunk_fields =
     [go_field ''_meta'' True (lenient (go_map go_raw)) CompactionSummaryChunk.Meta
         CompactionSummaryChunk.Meta_update,
      go_field ''compactionId'' False go_string CompactionSummaryChunk.CompactionId
          CompactionSummaryChunk.CompactionId_update,
      go_field ''content'' False ContentBlock_codec CompactionSummaryChunk.Content
          CompactionSummaryChunk.Content_update]"

definition CompactionSummaryChunk_UnmarshalJSON :: "raw_json \<Rightarrow> CompactionSummaryChunk decoded" where
  "CompactionSummaryChunk_UnmarshalJSON =
     decode_struct
       [required ''compactionId'',
        required ''content'']
       (go_struct CompactionSummaryChunk_zero CompactionSummaryChunk_fields)
       (in_turn [])"

definition CompactionSummaryChunk_codec :: "CompactionSummaryChunk codec" where
  "CompactionSummaryChunk_codec = with_unmarshal CompactionSummaryChunk_UnmarshalJSON (go_struct
      CompactionSummaryChunk_zero CompactionSummaryChunk_fields)"

lemma CompactionSummaryChunk_zero_codec [simp]: "c_zero CompactionSummaryChunk_codec = CompactionSummaryChunk_zero"
  by (simp add: CompactionSummaryChunk_codec_def)

lemma CompactionSummaryChunk_obj:
  "obj 9003 (map f_name CompactionSummaryChunk_fields)
     [required ''compactionId'',
      required ''content'']
     CompactionSummaryChunk_codec"
  unfolding CompactionSummaryChunk_codec_def CompactionSummaryChunk_UnmarshalJSON_def
  by (rule unmarshal_obj) (simp_all add: CompactionSummaryChunk_fields_def CompactionSummaryChunk_zero_def
        max_depth_def)

lemma CompactionSummaryChunk_wire [simp]: "9004 \<le> E \<Longrightarrow> wire E s CompactionSummaryChunk_codec"
  using wire_mono [OF wire_obj [OF CompactionSummaryChunk_obj], of E s] by simp

section \<open>The notification\<close>

subsection \<open>\<open>SessionUpdateUserMessageChunk\<close>\<close>

record SessionUpdateUserMessageChunk =
  Meta :: "(string \<times> string) list option"
  Content :: "ContentBlock"
  MessageId :: "string option"
  SessionUpdate :: "string"

definition SessionUpdateUserMessageChunk_zero :: SessionUpdateUserMessageChunk where
  "SessionUpdateUserMessageChunk_zero = \<lparr>Meta = None, Content = ContentBlock_zero, MessageId = None,
      SessionUpdate = []\<rparr>"

definition SessionUpdateUserMessageChunk_fields :: "SessionUpdateUserMessageChunk fld list" where
  "SessionUpdateUserMessageChunk_fields =
     [go_field ''_meta'' True (go_map go_raw) SessionUpdateUserMessageChunk.Meta
         SessionUpdateUserMessageChunk.Meta_update,
      go_field ''content'' False ContentBlock_codec SessionUpdateUserMessageChunk.Content
          SessionUpdateUserMessageChunk.Content_update,
      go_field ''messageId'' True (go_ptr go_string) SessionUpdateUserMessageChunk.MessageId
          SessionUpdateUserMessageChunk.MessageId_update,
      go_field ''sessionUpdate'' False (go_tag ''user_message_chunk'')
          SessionUpdateUserMessageChunk.SessionUpdate SessionUpdateUserMessageChunk.SessionUpdate_update]"

definition SessionUpdateUserMessageChunk_codec :: "SessionUpdateUserMessageChunk codec" where
  "SessionUpdateUserMessageChunk_codec = go_struct SessionUpdateUserMessageChunk_zero
      SessionUpdateUserMessageChunk_fields"

lemma SessionUpdateUserMessageChunk_zero_codec [simp]: "c_zero SessionUpdateUserMessageChunk_codec = SessionUpdateUserMessageChunk_zero"
  by (simp add: SessionUpdateUserMessageChunk_codec_def)

lemma SessionUpdateUserMessageChunk_obj:
  "obj 9003 (map f_name SessionUpdateUserMessageChunk_fields)
     [typed ''content'' ContentBlock_codec,
      typed ''sessionUpdate'' go_string,
      tagged ''sessionUpdate'' ''user_message_chunk'']
     SessionUpdateUserMessageChunk_codec"
  unfolding SessionUpdateUserMessageChunk_codec_def
  by (rule struct_obj) (simp_all add: SessionUpdateUserMessageChunk_fields_def
        SessionUpdateUserMessageChunk_zero_def max_depth_def)

lemma SessionUpdateUserMessageChunk_wire [simp]: "9004 \<le> E \<Longrightarrow> wire E s SessionUpdateUserMessageChunk_codec"
  using wire_mono [OF wire_obj [OF SessionUpdateUserMessageChunk_obj], of E s] by simp

subsection \<open>\<open>SessionUpdateAgentMessageChunk\<close>\<close>

record SessionUpdateAgentMessageChunk =
  Meta :: "(string \<times> string) list option"
  Content :: "ContentBlock"
  MessageId :: "string option"
  SessionUpdate :: "string"

definition SessionUpdateAgentMessageChunk_zero :: SessionUpdateAgentMessageChunk where
  "SessionUpdateAgentMessageChunk_zero = \<lparr>Meta = None, Content = ContentBlock_zero, MessageId = None,
      SessionUpdate = []\<rparr>"

definition SessionUpdateAgentMessageChunk_fields :: "SessionUpdateAgentMessageChunk fld list" where
  "SessionUpdateAgentMessageChunk_fields =
     [go_field ''_meta'' True (go_map go_raw) SessionUpdateAgentMessageChunk.Meta
         SessionUpdateAgentMessageChunk.Meta_update,
      go_field ''content'' False ContentBlock_codec SessionUpdateAgentMessageChunk.Content
          SessionUpdateAgentMessageChunk.Content_update,
      go_field ''messageId'' True (go_ptr go_string) SessionUpdateAgentMessageChunk.MessageId
          SessionUpdateAgentMessageChunk.MessageId_update,
      go_field ''sessionUpdate'' False (go_tag ''agent_message_chunk'')
          SessionUpdateAgentMessageChunk.SessionUpdate SessionUpdateAgentMessageChunk.SessionUpdate_update]"

definition SessionUpdateAgentMessageChunk_codec :: "SessionUpdateAgentMessageChunk codec" where
  "SessionUpdateAgentMessageChunk_codec = go_struct SessionUpdateAgentMessageChunk_zero
      SessionUpdateAgentMessageChunk_fields"

lemma SessionUpdateAgentMessageChunk_zero_codec [simp]: "c_zero SessionUpdateAgentMessageChunk_codec = SessionUpdateAgentMessageChunk_zero"
  by (simp add: SessionUpdateAgentMessageChunk_codec_def)

lemma SessionUpdateAgentMessageChunk_obj:
  "obj 9003 (map f_name SessionUpdateAgentMessageChunk_fields)
     [typed ''content'' ContentBlock_codec,
      typed ''sessionUpdate'' go_string,
      tagged ''sessionUpdate'' ''agent_message_chunk'']
     SessionUpdateAgentMessageChunk_codec"
  unfolding SessionUpdateAgentMessageChunk_codec_def
  by (rule struct_obj) (simp_all add: SessionUpdateAgentMessageChunk_fields_def
        SessionUpdateAgentMessageChunk_zero_def max_depth_def)

lemma SessionUpdateAgentMessageChunk_wire [simp]: "9004 \<le> E \<Longrightarrow> wire E s SessionUpdateAgentMessageChunk_codec"
  using wire_mono [OF wire_obj [OF SessionUpdateAgentMessageChunk_obj], of E s] by simp

subsection \<open>\<open>SessionUpdateAgentThoughtChunk\<close>\<close>

record SessionUpdateAgentThoughtChunk =
  Meta :: "(string \<times> string) list option"
  Content :: "ContentBlock"
  MessageId :: "string option"
  SessionUpdate :: "string"

definition SessionUpdateAgentThoughtChunk_zero :: SessionUpdateAgentThoughtChunk where
  "SessionUpdateAgentThoughtChunk_zero = \<lparr>Meta = None, Content = ContentBlock_zero, MessageId = None,
      SessionUpdate = []\<rparr>"

definition SessionUpdateAgentThoughtChunk_fields :: "SessionUpdateAgentThoughtChunk fld list" where
  "SessionUpdateAgentThoughtChunk_fields =
     [go_field ''_meta'' True (go_map go_raw) SessionUpdateAgentThoughtChunk.Meta
         SessionUpdateAgentThoughtChunk.Meta_update,
      go_field ''content'' False ContentBlock_codec SessionUpdateAgentThoughtChunk.Content
          SessionUpdateAgentThoughtChunk.Content_update,
      go_field ''messageId'' True (go_ptr go_string) SessionUpdateAgentThoughtChunk.MessageId
          SessionUpdateAgentThoughtChunk.MessageId_update,
      go_field ''sessionUpdate'' False (go_tag ''agent_thought_chunk'')
          SessionUpdateAgentThoughtChunk.SessionUpdate SessionUpdateAgentThoughtChunk.SessionUpdate_update]"

definition SessionUpdateAgentThoughtChunk_codec :: "SessionUpdateAgentThoughtChunk codec" where
  "SessionUpdateAgentThoughtChunk_codec = go_struct SessionUpdateAgentThoughtChunk_zero
      SessionUpdateAgentThoughtChunk_fields"

lemma SessionUpdateAgentThoughtChunk_zero_codec [simp]: "c_zero SessionUpdateAgentThoughtChunk_codec = SessionUpdateAgentThoughtChunk_zero"
  by (simp add: SessionUpdateAgentThoughtChunk_codec_def)

lemma SessionUpdateAgentThoughtChunk_obj:
  "obj 9003 (map f_name SessionUpdateAgentThoughtChunk_fields)
     [typed ''content'' ContentBlock_codec,
      typed ''sessionUpdate'' go_string,
      tagged ''sessionUpdate'' ''agent_thought_chunk'']
     SessionUpdateAgentThoughtChunk_codec"
  unfolding SessionUpdateAgentThoughtChunk_codec_def
  by (rule struct_obj) (simp_all add: SessionUpdateAgentThoughtChunk_fields_def
        SessionUpdateAgentThoughtChunk_zero_def max_depth_def)

lemma SessionUpdateAgentThoughtChunk_wire [simp]: "9004 \<le> E \<Longrightarrow> wire E s SessionUpdateAgentThoughtChunk_codec"
  using wire_mono [OF wire_obj [OF SessionUpdateAgentThoughtChunk_obj], of E s] by simp

subsection \<open>\<open>SessionUpdateToolCall\<close>\<close>

record SessionUpdateToolCall =
  Meta :: "(string \<times> string) list option"
  Content :: "ToolCallContent list option"
  Kind :: "string"
  Locations :: "ToolCallLocation list option"
  Name :: "string option"
  RawInput :: "any_value"
  RawOutput :: "any_value"
  SessionUpdate :: "string"
  Status :: "string"
  Title :: "string"
  ToolCallId :: "string"

definition SessionUpdateToolCall_zero :: SessionUpdateToolCall where
  "SessionUpdateToolCall_zero = \<lparr>Meta = None, Content = None, Kind = [], Locations = None, Name = None,
      RawInput = ANil, RawOutput = ANil, SessionUpdate = [], Status = [], Title = [], ToolCallId = []\<rparr>"

definition SessionUpdateToolCall_fields :: "SessionUpdateToolCall fld list" where
  "SessionUpdateToolCall_fields =
     [go_field ''_meta'' True (go_map go_raw) SessionUpdateToolCall.Meta SessionUpdateToolCall.Meta_update,
      go_field ''content'' True (go_slice ToolCallContent_codec) SessionUpdateToolCall.Content
          SessionUpdateToolCall.Content_update,
      go_field ''kind'' True go_string SessionUpdateToolCall.Kind SessionUpdateToolCall.Kind_update,
      go_field ''locations'' True (go_slice ToolCallLocation_codec) SessionUpdateToolCall.Locations
          SessionUpdateToolCall.Locations_update,
      go_field ''name'' True (go_ptr go_string) SessionUpdateToolCall.Name SessionUpdateToolCall.Name_update,
      go_field ''rawInput'' True go_any SessionUpdateToolCall.RawInput SessionUpdateToolCall.RawInput_update,
      go_field ''rawOutput'' True go_any SessionUpdateToolCall.RawOutput SessionUpdateToolCall.RawOutput_update,
      go_field ''sessionUpdate'' False (go_tag ''tool_call'') SessionUpdateToolCall.SessionUpdate
          SessionUpdateToolCall.SessionUpdate_update,
      go_field ''status'' True go_string SessionUpdateToolCall.Status SessionUpdateToolCall.Status_update,
      go_field ''title'' False go_string SessionUpdateToolCall.Title SessionUpdateToolCall.Title_update,
      go_field ''toolCallId'' False go_string SessionUpdateToolCall.ToolCallId
          SessionUpdateToolCall.ToolCallId_update]"

definition SessionUpdateToolCall_codec :: "SessionUpdateToolCall codec" where
  "SessionUpdateToolCall_codec = go_struct SessionUpdateToolCall_zero SessionUpdateToolCall_fields"

lemma SessionUpdateToolCall_zero_codec [simp]: "c_zero SessionUpdateToolCall_codec = SessionUpdateToolCall_zero"
  by (simp add: SessionUpdateToolCall_codec_def)

lemma SessionUpdateToolCall_obj:
  "obj 9005 (map f_name SessionUpdateToolCall_fields)
     [typed ''sessionUpdate'' go_string,
      typed ''title'' go_string,
      typed ''toolCallId'' go_string,
      tagged ''sessionUpdate'' ''tool_call'']
     SessionUpdateToolCall_codec"
  unfolding SessionUpdateToolCall_codec_def
  by (rule struct_obj) (simp_all add: SessionUpdateToolCall_fields_def SessionUpdateToolCall_zero_def
        max_depth_def)

lemma SessionUpdateToolCall_wire [simp]: "9006 \<le> E \<Longrightarrow> wire E s SessionUpdateToolCall_codec"
  using wire_mono [OF wire_obj [OF SessionUpdateToolCall_obj], of E s] by simp

subsection \<open>\<open>SessionToolCallUpdate\<close>\<close>

record SessionToolCallUpdate =
  Meta :: "(string \<times> string) list option"
  Content :: "ToolCallContent list option"
  Kind :: "string option"
  Locations :: "ToolCallLocation list option"
  Name :: "string option"
  RawInput :: "any_value"
  RawOutput :: "any_value"
  SessionUpdate :: "string"
  Status :: "string option"
  Title :: "string option"
  ToolCallId :: "string"

definition SessionToolCallUpdate_zero :: SessionToolCallUpdate where
  "SessionToolCallUpdate_zero = \<lparr>Meta = None, Content = None, Kind = None, Locations = None, Name = None,
      RawInput = ANil, RawOutput = ANil, SessionUpdate = [], Status = None, Title = None, ToolCallId =
      []\<rparr>"

definition SessionToolCallUpdate_fields :: "SessionToolCallUpdate fld list" where
  "SessionToolCallUpdate_fields =
     [go_field ''_meta'' True (go_map go_raw) SessionToolCallUpdate.Meta SessionToolCallUpdate.Meta_update,
      go_field ''content'' True (go_slice ToolCallContent_codec) SessionToolCallUpdate.Content
          SessionToolCallUpdate.Content_update,
      go_field ''kind'' True (go_ptr go_string) SessionToolCallUpdate.Kind SessionToolCallUpdate.Kind_update,
      go_field ''locations'' True (go_slice ToolCallLocation_codec) SessionToolCallUpdate.Locations
          SessionToolCallUpdate.Locations_update,
      go_field ''name'' True (go_ptr go_string) SessionToolCallUpdate.Name SessionToolCallUpdate.Name_update,
      go_field ''rawInput'' True go_any SessionToolCallUpdate.RawInput SessionToolCallUpdate.RawInput_update,
      go_field ''rawOutput'' True go_any SessionToolCallUpdate.RawOutput SessionToolCallUpdate.RawOutput_update,
      go_field ''sessionUpdate'' False (go_tag ''tool_call_update'') SessionToolCallUpdate.SessionUpdate
          SessionToolCallUpdate.SessionUpdate_update,
      go_field ''status'' True (go_ptr go_string) SessionToolCallUpdate.Status
          SessionToolCallUpdate.Status_update,
      go_field ''title'' True (go_ptr go_string) SessionToolCallUpdate.Title SessionToolCallUpdate.Title_update,
      go_field ''toolCallId'' False go_string SessionToolCallUpdate.ToolCallId
          SessionToolCallUpdate.ToolCallId_update]"

definition SessionToolCallUpdate_codec :: "SessionToolCallUpdate codec" where
  "SessionToolCallUpdate_codec = go_struct SessionToolCallUpdate_zero SessionToolCallUpdate_fields"

lemma SessionToolCallUpdate_zero_codec [simp]: "c_zero SessionToolCallUpdate_codec = SessionToolCallUpdate_zero"
  by (simp add: SessionToolCallUpdate_codec_def)

lemma SessionToolCallUpdate_obj:
  "obj 9005 (map f_name SessionToolCallUpdate_fields)
     [typed ''sessionUpdate'' go_string,
      typed ''toolCallId'' go_string,
      tagged ''sessionUpdate'' ''tool_call_update'']
     SessionToolCallUpdate_codec"
  unfolding SessionToolCallUpdate_codec_def
  by (rule struct_obj) (simp_all add: SessionToolCallUpdate_fields_def SessionToolCallUpdate_zero_def
        max_depth_def)

lemma SessionToolCallUpdate_wire [simp]: "9006 \<le> E \<Longrightarrow> wire E s SessionToolCallUpdate_codec"
  using wire_mono [OF wire_obj [OF SessionToolCallUpdate_obj], of E s] by simp

subsection \<open>\<open>SessionUpdatePlan\<close>\<close>

record SessionUpdatePlan =
  Meta :: "(string \<times> string) list option"
  Entries :: "PlanEntry list option"
  SessionUpdate :: "string"

definition SessionUpdatePlan_zero :: SessionUpdatePlan where
  "SessionUpdatePlan_zero = \<lparr>Meta = None, Entries = None, SessionUpdate = []\<rparr>"

definition SessionUpdatePlan_fields :: "SessionUpdatePlan fld list" where
  "SessionUpdatePlan_fields =
     [go_field ''_meta'' True (go_map go_raw) SessionUpdatePlan.Meta SessionUpdatePlan.Meta_update,
      go_field ''entries'' False (go_list PlanEntry_codec) SessionUpdatePlan.Entries
          SessionUpdatePlan.Entries_update,
      go_field ''sessionUpdate'' False (go_tag ''plan'') SessionUpdatePlan.SessionUpdate
          SessionUpdatePlan.SessionUpdate_update]"

definition SessionUpdatePlan_codec :: "SessionUpdatePlan codec" where
  "SessionUpdatePlan_codec = go_struct SessionUpdatePlan_zero SessionUpdatePlan_fields"

lemma SessionUpdatePlan_zero_codec [simp]: "c_zero SessionUpdatePlan_codec = SessionUpdatePlan_zero"
  by (simp add: SessionUpdatePlan_codec_def)

lemma SessionUpdatePlan_obj:
  "obj 9003 (map f_name SessionUpdatePlan_fields)
     [typed ''entries'' (go_slice PlanEntry_codec),
      typed ''sessionUpdate'' go_string,
      tagged ''sessionUpdate'' ''plan'']
     SessionUpdatePlan_codec"
  unfolding SessionUpdatePlan_codec_def
  by (rule struct_obj) (simp_all add: SessionUpdatePlan_fields_def SessionUpdatePlan_zero_def max_depth_def)

lemma SessionUpdatePlan_wire [simp]: "9004 \<le> E \<Longrightarrow> wire E s SessionUpdatePlan_codec"
  using wire_mono [OF wire_obj [OF SessionUpdatePlan_obj], of E s] by simp

subsection \<open>\<open>SessionAvailableCommandsUpdate\<close>\<close>

record SessionAvailableCommandsUpdate =
  Meta :: "(string \<times> string) list option"
  AvailableCommands :: "AvailableCommand list option"
  SessionUpdate :: "string"

definition SessionAvailableCommandsUpdate_zero :: SessionAvailableCommandsUpdate where
  "SessionAvailableCommandsUpdate_zero = \<lparr>Meta = None, AvailableCommands = None, SessionUpdate =
      []\<rparr>"

definition SessionAvailableCommandsUpdate_fields :: "SessionAvailableCommandsUpdate fld list" where
  "SessionAvailableCommandsUpdate_fields =
     [go_field ''_meta'' True (go_map go_raw) SessionAvailableCommandsUpdate.Meta
         SessionAvailableCommandsUpdate.Meta_update,
      go_field ''availableCommands'' False (go_list AvailableCommand_codec)
          SessionAvailableCommandsUpdate.AvailableCommands
          SessionAvailableCommandsUpdate.AvailableCommands_update,
      go_field ''sessionUpdate'' False (go_tag ''available_commands_update'')
          SessionAvailableCommandsUpdate.SessionUpdate SessionAvailableCommandsUpdate.SessionUpdate_update]"

definition SessionAvailableCommandsUpdate_codec :: "SessionAvailableCommandsUpdate codec" where
  "SessionAvailableCommandsUpdate_codec = go_struct SessionAvailableCommandsUpdate_zero
      SessionAvailableCommandsUpdate_fields"

lemma SessionAvailableCommandsUpdate_zero_codec [simp]: "c_zero SessionAvailableCommandsUpdate_codec = SessionAvailableCommandsUpdate_zero"
  by (simp add: SessionAvailableCommandsUpdate_codec_def)

lemma SessionAvailableCommandsUpdate_obj:
  "obj 9004 (map f_name SessionAvailableCommandsUpdate_fields)
     [typed ''availableCommands'' (go_slice AvailableCommand_codec),
      typed ''sessionUpdate'' go_string,
      tagged ''sessionUpdate'' ''available_commands_update'']
     SessionAvailableCommandsUpdate_codec"
  unfolding SessionAvailableCommandsUpdate_codec_def
  by (rule struct_obj) (simp_all add: SessionAvailableCommandsUpdate_fields_def
        SessionAvailableCommandsUpdate_zero_def max_depth_def)

lemma SessionAvailableCommandsUpdate_wire [simp]: "9005 \<le> E \<Longrightarrow> wire E s SessionAvailableCommandsUpdate_codec"
  using wire_mono [OF wire_obj [OF SessionAvailableCommandsUpdate_obj], of E s] by simp

subsection \<open>\<open>SessionCurrentModeUpdate\<close>\<close>

record SessionCurrentModeUpdate =
  Meta :: "(string \<times> string) list option"
  CurrentModeId :: "string"
  SessionUpdate :: "string"

definition SessionCurrentModeUpdate_zero :: SessionCurrentModeUpdate where
  "SessionCurrentModeUpdate_zero = \<lparr>Meta = None, CurrentModeId = [], SessionUpdate = []\<rparr>"

definition SessionCurrentModeUpdate_fields :: "SessionCurrentModeUpdate fld list" where
  "SessionCurrentModeUpdate_fields =
     [go_field ''_meta'' True (go_map go_raw) SessionCurrentModeUpdate.Meta
         SessionCurrentModeUpdate.Meta_update,
      go_field ''currentModeId'' False go_string SessionCurrentModeUpdate.CurrentModeId
          SessionCurrentModeUpdate.CurrentModeId_update,
      go_field ''sessionUpdate'' False (go_tag ''current_mode_update'') SessionCurrentModeUpdate.SessionUpdate
          SessionCurrentModeUpdate.SessionUpdate_update]"

definition SessionCurrentModeUpdate_codec :: "SessionCurrentModeUpdate codec" where
  "SessionCurrentModeUpdate_codec = go_struct SessionCurrentModeUpdate_zero SessionCurrentModeUpdate_fields"

lemma SessionCurrentModeUpdate_zero_codec [simp]: "c_zero SessionCurrentModeUpdate_codec = SessionCurrentModeUpdate_zero"
  by (simp add: SessionCurrentModeUpdate_codec_def)

lemma SessionCurrentModeUpdate_obj:
  "obj 9001 (map f_name SessionCurrentModeUpdate_fields)
     [typed ''currentModeId'' go_string,
      typed ''sessionUpdate'' go_string,
      tagged ''sessionUpdate'' ''current_mode_update'']
     SessionCurrentModeUpdate_codec"
  unfolding SessionCurrentModeUpdate_codec_def
  by (rule struct_obj) (simp_all add: SessionCurrentModeUpdate_fields_def SessionCurrentModeUpdate_zero_def
        max_depth_def)

lemma SessionCurrentModeUpdate_wire [simp]: "9002 \<le> E \<Longrightarrow> wire E s SessionCurrentModeUpdate_codec"
  using wire_mono [OF wire_obj [OF SessionCurrentModeUpdate_obj], of E s] by simp

subsection \<open>\<open>SessionConfigOptionUpdate\<close>\<close>

record SessionConfigOptionUpdate =
  Meta :: "(string \<times> string) list option"
  ConfigOptions :: "SessionConfigOption list option"
  SessionUpdate :: "string"

definition SessionConfigOptionUpdate_zero :: SessionConfigOptionUpdate where
  "SessionConfigOptionUpdate_zero = \<lparr>Meta = None, ConfigOptions = None, SessionUpdate = []\<rparr>"

definition SessionConfigOptionUpdate_fields :: "SessionConfigOptionUpdate fld list" where
  "SessionConfigOptionUpdate_fields =
     [go_field ''_meta'' True (go_map go_raw) SessionConfigOptionUpdate.Meta
         SessionConfigOptionUpdate.Meta_update,
      go_field ''configOptions'' False (go_list SessionConfigOption_codec)
          SessionConfigOptionUpdate.ConfigOptions SessionConfigOptionUpdate.ConfigOptions_update,
      go_field ''sessionUpdate'' False (go_tag ''config_option_update'') SessionConfigOptionUpdate.SessionUpdate
          SessionConfigOptionUpdate.SessionUpdate_update]"

definition SessionConfigOptionUpdate_codec :: "SessionConfigOptionUpdate codec" where
  "SessionConfigOptionUpdate_codec = go_struct SessionConfigOptionUpdate_zero SessionConfigOptionUpdate_fields"

lemma SessionConfigOptionUpdate_zero_codec [simp]: "c_zero SessionConfigOptionUpdate_codec = SessionConfigOptionUpdate_zero"
  by (simp add: SessionConfigOptionUpdate_codec_def)

lemma SessionConfigOptionUpdate_obj:
  "obj 9007 (map f_name SessionConfigOptionUpdate_fields)
     [typed ''configOptions'' (go_slice SessionConfigOption_codec),
      typed ''sessionUpdate'' go_string,
      tagged ''sessionUpdate'' ''config_option_update'']
     SessionConfigOptionUpdate_codec"
  unfolding SessionConfigOptionUpdate_codec_def
  by (rule struct_obj) (simp_all add: SessionConfigOptionUpdate_fields_def SessionConfigOptionUpdate_zero_def
        max_depth_def)

lemma SessionConfigOptionUpdate_wire [simp]: "9008 \<le> E \<Longrightarrow> wire E s SessionConfigOptionUpdate_codec"
  using wire_mono [OF wire_obj [OF SessionConfigOptionUpdate_obj], of E s] by simp

subsection \<open>\<open>SessionSessionInfoUpdate\<close>\<close>

record SessionSessionInfoUpdate =
  Meta :: "(string \<times> string) list option"
  SessionUpdate :: "string"
  Title :: "string option"
  UpdatedAt :: "string option"
  hasTitle :: "bool"
  hasUpdatedAt :: "bool"

definition SessionSessionInfoUpdate_zero :: SessionSessionInfoUpdate where
  "SessionSessionInfoUpdate_zero = \<lparr>Meta = None, SessionUpdate = [], Title = None, UpdatedAt = None,
      hasTitle = False, hasUpdatedAt = False\<rparr>"

definition SessionSessionInfoUpdate_fields :: "SessionSessionInfoUpdate fld list" where
  "SessionSessionInfoUpdate_fields =
     [go_field ''_meta'' True (go_map go_raw) SessionSessionInfoUpdate.Meta
         SessionSessionInfoUpdate.Meta_update,
      go_field ''sessionUpdate'' False (go_tag ''session_info_update'') SessionSessionInfoUpdate.SessionUpdate
          SessionSessionInfoUpdate.SessionUpdate_update,
      go_patch ''title'' (go_ptr go_string) SessionSessionInfoUpdate.Title SessionSessionInfoUpdate.Title_update
          SessionSessionInfoUpdate.hasTitle SessionSessionInfoUpdate.hasTitle_update,
      go_patch ''updatedAt'' (go_ptr go_string) SessionSessionInfoUpdate.UpdatedAt
          SessionSessionInfoUpdate.UpdatedAt_update SessionSessionInfoUpdate.hasUpdatedAt
          SessionSessionInfoUpdate.hasUpdatedAt_update]"

definition SessionSessionInfoUpdate_UnmarshalJSON :: "raw_json \<Rightarrow> SessionSessionInfoUpdate decoded" where
  "SessionSessionInfoUpdate_UnmarshalJSON =
     decode_struct
       [required ''sessionUpdate'']
       (go_struct SessionSessionInfoUpdate_zero SessionSessionInfoUpdate_fields)
       (in_turn [noted ''title'' SessionSessionInfoUpdate.hasTitle_update,
         noted ''updatedAt'' SessionSessionInfoUpdate.hasUpdatedAt_update])"

definition SessionSessionInfoUpdate_MarshalJSON :: "SessionSessionInfoUpdate \<Rightarrow> string option" where
  "SessionSessionInfoUpdate_MarshalJSON v = c_enc (go_struct SessionSessionInfoUpdate_zero
      SessionSessionInfoUpdate_fields) v"

definition SessionSessionInfoUpdate_codec :: "SessionSessionInfoUpdate codec" where
  "SessionSessionInfoUpdate_codec = with_marshal SessionSessionInfoUpdate_MarshalJSON (with_unmarshal
      SessionSessionInfoUpdate_UnmarshalJSON (go_struct SessionSessionInfoUpdate_zero
      SessionSessionInfoUpdate_fields))"

definition SessionSessionInfoUpdate_TitleState :: "SessionSessionInfoUpdate \<Rightarrow> NullableFieldState" where
  "SessionSessionInfoUpdate_TitleState = field_state SessionSessionInfoUpdate.Title
      SessionSessionInfoUpdate.hasTitle"

definition SessionSessionInfoUpdate_SetTitle :: "string \<Rightarrow> SessionSessionInfoUpdate \<Rightarrow> SessionSessionInfoUpdate" where
  "SessionSessionInfoUpdate_SetTitle x v = v\<lparr>SessionSessionInfoUpdate.Title := Some x,
      SessionSessionInfoUpdate.hasTitle := True\<rparr>"

definition SessionSessionInfoUpdate_ClearTitle :: "SessionSessionInfoUpdate \<Rightarrow> SessionSessionInfoUpdate" where
  "SessionSessionInfoUpdate_ClearTitle v = v\<lparr>SessionSessionInfoUpdate.Title := None,
      SessionSessionInfoUpdate.hasTitle := True\<rparr>"

definition SessionSessionInfoUpdate_UnsetTitle :: "SessionSessionInfoUpdate \<Rightarrow> SessionSessionInfoUpdate" where
  "SessionSessionInfoUpdate_UnsetTitle v = v\<lparr>SessionSessionInfoUpdate.Title := None,
      SessionSessionInfoUpdate.hasTitle := False\<rparr>"

interpretation sessionsessioninfoupdate_title: nullable_field SessionSessionInfoUpdate_TitleState SessionSessionInfoUpdate_SetTitle SessionSessionInfoUpdate_ClearTitle SessionSessionInfoUpdate_UnsetTitle
  "\<lambda>x. False"
  by unfold_locales (simp_all add: SessionSessionInfoUpdate_TitleState_def SessionSessionInfoUpdate_SetTitle_def
      SessionSessionInfoUpdate_ClearTitle_def SessionSessionInfoUpdate_UnsetTitle_def field_state_def)

definition SessionSessionInfoUpdate_UpdatedAtState :: "SessionSessionInfoUpdate \<Rightarrow> NullableFieldState" where
  "SessionSessionInfoUpdate_UpdatedAtState = field_state SessionSessionInfoUpdate.UpdatedAt
      SessionSessionInfoUpdate.hasUpdatedAt"

definition SessionSessionInfoUpdate_SetUpdatedAt :: "string \<Rightarrow> SessionSessionInfoUpdate \<Rightarrow> SessionSessionInfoUpdate" where
  "SessionSessionInfoUpdate_SetUpdatedAt x v = v\<lparr>SessionSessionInfoUpdate.UpdatedAt := Some x,
      SessionSessionInfoUpdate.hasUpdatedAt := True\<rparr>"

definition SessionSessionInfoUpdate_ClearUpdatedAt :: "SessionSessionInfoUpdate \<Rightarrow> SessionSessionInfoUpdate" where
  "SessionSessionInfoUpdate_ClearUpdatedAt v = v\<lparr>SessionSessionInfoUpdate.UpdatedAt := None,
      SessionSessionInfoUpdate.hasUpdatedAt := True\<rparr>"

definition SessionSessionInfoUpdate_UnsetUpdatedAt :: "SessionSessionInfoUpdate \<Rightarrow> SessionSessionInfoUpdate" where
  "SessionSessionInfoUpdate_UnsetUpdatedAt v = v\<lparr>SessionSessionInfoUpdate.UpdatedAt := None,
      SessionSessionInfoUpdate.hasUpdatedAt := False\<rparr>"

interpretation sessionsessioninfoupdate_updatedat: nullable_field SessionSessionInfoUpdate_UpdatedAtState SessionSessionInfoUpdate_SetUpdatedAt SessionSessionInfoUpdate_ClearUpdatedAt SessionSessionInfoUpdate_UnsetUpdatedAt
  "\<lambda>x. False"
  by unfold_locales (simp_all add: SessionSessionInfoUpdate_UpdatedAtState_def
      SessionSessionInfoUpdate_SetUpdatedAt_def SessionSessionInfoUpdate_ClearUpdatedAt_def
      SessionSessionInfoUpdate_UnsetUpdatedAt_def field_state_def)

lemma SessionSessionInfoUpdate_zero_codec [simp]: "c_zero SessionSessionInfoUpdate_codec = SessionSessionInfoUpdate_zero"
  by (simp add: SessionSessionInfoUpdate_codec_def)

lemma SessionSessionInfoUpdate_obj:
  "obj 9001 (map f_name SessionSessionInfoUpdate_fields)
     [required ''sessionUpdate'',
      typed ''sessionUpdate'' go_string,
      tagged ''sessionUpdate'' ''session_info_update'']
     SessionSessionInfoUpdate_codec"
  unfolding SessionSessionInfoUpdate_codec_def SessionSessionInfoUpdate_UnmarshalJSON_def
proof (rule obj_marshal)
  show "obj 9001 (map f_name SessionSessionInfoUpdate_fields)
     [required ''sessionUpdate'',
      typed ''sessionUpdate'' go_string,
      tagged ''sessionUpdate'' ''session_info_update'']
    (with_unmarshal (decode_struct
       [required ''sessionUpdate'']
       (go_struct SessionSessionInfoUpdate_zero SessionSessionInfoUpdate_fields)
       (in_turn [noted ''title'' SessionSessionInfoUpdate.hasTitle_update,
         noted ''updatedAt'' SessionSessionInfoUpdate.hasUpdatedAt_update]))
     (go_struct SessionSessionInfoUpdate_zero SessionSessionInfoUpdate_fields))"
    by (rule unmarshal_obj) (simp_all add: SessionSessionInfoUpdate_fields_def SessionSessionInfoUpdate_zero_def
          max_depth_def post_noted [where flag = "SessionSessionInfoUpdate.hasTitle" and set_flag =
          "SessionSessionInfoUpdate.hasTitle_update"] post_noted [where flag =
          "SessionSessionInfoUpdate.hasUpdatedAt" and set_flag =
          "SessionSessionInfoUpdate.hasUpdatedAt_update"])
qed (simp_all add: max_depth_def SessionSessionInfoUpdate_MarshalJSON_def)

lemma SessionSessionInfoUpdate_wire [simp]: "9002 \<le> E \<Longrightarrow> wire E s SessionSessionInfoUpdate_codec"
  using wire_mono [OF wire_obj [OF SessionSessionInfoUpdate_obj], of E s] by simp

subsection \<open>\<open>SessionUsageUpdate\<close>\<close>

record SessionUsageUpdate =
  Meta :: "(string \<times> string) list option"
  Cost :: "Cost option"
  SessionUpdate :: "string"
  Size :: "int"
  Used :: "int"

definition SessionUsageUpdate_zero :: SessionUsageUpdate where
  "SessionUsageUpdate_zero = \<lparr>Meta = None, Cost = None, SessionUpdate = [], Size = 0, Used = 0\<rparr>"

definition SessionUsageUpdate_fields :: "SessionUsageUpdate fld list" where
  "SessionUsageUpdate_fields =
     [go_field ''_meta'' True (go_map go_raw) SessionUsageUpdate.Meta SessionUsageUpdate.Meta_update,
      go_field ''cost'' True (go_ptr Cost_codec) SessionUsageUpdate.Cost SessionUsageUpdate.Cost_update,
      go_field ''sessionUpdate'' False (go_tag ''usage_update'') SessionUsageUpdate.SessionUpdate
          SessionUsageUpdate.SessionUpdate_update,
      go_field ''size'' False go_uint64 SessionUsageUpdate.Size SessionUsageUpdate.Size_update,
      go_field ''used'' False go_uint64 SessionUsageUpdate.Used SessionUsageUpdate.Used_update]"

definition SessionUsageUpdate_codec :: "SessionUsageUpdate codec" where
  "SessionUsageUpdate_codec = go_struct SessionUsageUpdate_zero SessionUsageUpdate_fields"

lemma SessionUsageUpdate_zero_codec [simp]: "c_zero SessionUsageUpdate_codec = SessionUsageUpdate_zero"
  by (simp add: SessionUsageUpdate_codec_def)

lemma SessionUsageUpdate_obj:
  "obj 9002 (map f_name SessionUsageUpdate_fields)
     [typed ''sessionUpdate'' go_string,
      typed ''size'' go_uint64,
      typed ''used'' go_uint64,
      tagged ''sessionUpdate'' ''usage_update'']
     SessionUsageUpdate_codec"
  unfolding SessionUsageUpdate_codec_def
  by (rule struct_obj) (simp_all add: SessionUsageUpdate_fields_def SessionUsageUpdate_zero_def max_depth_def)

lemma SessionUsageUpdate_wire [simp]: "9003 \<le> E \<Longrightarrow> wire E s SessionUsageUpdate_codec"
  using wire_mono [OF wire_obj [OF SessionUsageUpdate_obj], of E s] by simp

subsection \<open>\<open>SessionUpdateNotice\<close>\<close>

record SessionUpdateNotice =
  Meta :: "(string \<times> string) list option"
  Description :: "string option"
  SessionUpdate :: "string"
  Severity :: "string"
  Title :: "string"

definition SessionUpdateNotice_zero :: SessionUpdateNotice where
  "SessionUpdateNotice_zero = \<lparr>Meta = None, Description = None, SessionUpdate = [], Severity = [], Title
      = []\<rparr>"

definition SessionUpdateNotice_fields :: "SessionUpdateNotice fld list" where
  "SessionUpdateNotice_fields =
     [go_field ''_meta'' True (lenient (go_map go_raw)) SessionUpdateNotice.Meta
         SessionUpdateNotice.Meta_update,
      go_field ''description'' True (lenient (go_ptr go_string)) SessionUpdateNotice.Description
          SessionUpdateNotice.Description_update,
      go_field ''sessionUpdate'' False (go_tag ''notice'') SessionUpdateNotice.SessionUpdate
          SessionUpdateNotice.SessionUpdate_update,
      go_field ''severity'' False go_string SessionUpdateNotice.Severity SessionUpdateNotice.Severity_update,
      go_field ''title'' False go_nonblank SessionUpdateNotice.Title SessionUpdateNotice.Title_update]"

definition SessionUpdateNotice_UnmarshalJSON :: "raw_json \<Rightarrow> SessionUpdateNotice decoded" where
  "SessionUpdateNotice_UnmarshalJSON =
     decode_struct
       [required ''sessionUpdate'',
        required ''severity'',
        required ''title'',
        nonblank ''title'']
       (go_struct SessionUpdateNotice_zero SessionUpdateNotice_fields)
       (in_turn [])"

definition SessionUpdateNotice_codec :: "SessionUpdateNotice codec" where
  "SessionUpdateNotice_codec = with_unmarshal SessionUpdateNotice_UnmarshalJSON (go_struct
      SessionUpdateNotice_zero SessionUpdateNotice_fields)"

lemma SessionUpdateNotice_zero_codec [simp]: "c_zero SessionUpdateNotice_codec = SessionUpdateNotice_zero"
  by (simp add: SessionUpdateNotice_codec_def)

lemma SessionUpdateNotice_obj:
  "obj 9001 (map f_name SessionUpdateNotice_fields)
     [required ''sessionUpdate'',
      required ''severity'',
      required ''title'',
      nonblank ''title'',
      typed ''sessionUpdate'' go_string,
      typed ''severity'' go_string,
      typed ''title'' go_string,
      tagged ''sessionUpdate'' ''notice'']
     SessionUpdateNotice_codec"
  unfolding SessionUpdateNotice_codec_def SessionUpdateNotice_UnmarshalJSON_def
  by (rule unmarshal_obj) (simp_all add: SessionUpdateNotice_fields_def SessionUpdateNotice_zero_def
        max_depth_def)

lemma SessionUpdateNotice_wire [simp]: "9002 \<le> E \<Longrightarrow> wire E s SessionUpdateNotice_codec"
  using wire_mono [OF wire_obj [OF SessionUpdateNotice_obj], of E s] by simp

subsection \<open>\<open>SessionCompactionUpdate\<close>\<close>

record SessionCompactionUpdate =
  Meta :: "(string \<times> string) list option"
  CompactionId :: "string"
  Error :: "string option"
  SessionUpdate :: "string"
  Status :: "string"
  Summary :: "ContentBlock list option"
  hasMeta :: "bool"
  hasError :: "bool"
  hasSummary :: "bool"

definition SessionCompactionUpdate_zero :: SessionCompactionUpdate where
  "SessionCompactionUpdate_zero = \<lparr>Meta = None, CompactionId = [], Error = None, SessionUpdate = [],
      Status = [], Summary = None, hasMeta = False, hasError = False, hasSummary = False\<rparr>"

definition SessionCompactionUpdate_fields :: "SessionCompactionUpdate fld list" where
  "SessionCompactionUpdate_fields =
     [go_field ''compactionId'' False go_string SessionCompactionUpdate.CompactionId
         SessionCompactionUpdate.CompactionId_update,
      go_field ''sessionUpdate'' False (go_tag ''compaction_update'') SessionCompactionUpdate.SessionUpdate
          SessionCompactionUpdate.SessionUpdate_update,
      go_field ''status'' False go_string SessionCompactionUpdate.Status SessionCompactionUpdate.Status_update,
      go_patch ''_meta'' (lenient (go_map go_raw)) SessionCompactionUpdate.Meta
          SessionCompactionUpdate.Meta_update SessionCompactionUpdate.hasMeta
          SessionCompactionUpdate.hasMeta_update,
      go_patch ''error'' (lenient (go_ptr go_string)) SessionCompactionUpdate.Error
          SessionCompactionUpdate.Error_update SessionCompactionUpdate.hasError
          SessionCompactionUpdate.hasError_update,
      go_patch ''summary'' (lenient_slice ContentBlock_codec) SessionCompactionUpdate.Summary
          SessionCompactionUpdate.Summary_update SessionCompactionUpdate.hasSummary
          SessionCompactionUpdate.hasSummary_update]"

definition SessionCompactionUpdate_UnmarshalJSON :: "raw_json \<Rightarrow> SessionCompactionUpdate decoded" where
  "SessionCompactionUpdate_UnmarshalJSON =
     decode_struct
       [required ''compactionId'',
        required ''sessionUpdate'',
        required ''status'']
       (go_struct SessionCompactionUpdate_zero SessionCompactionUpdate_fields)
       (in_turn [noted_patch ''_meta'' SessionCompactionUpdate.Meta SessionCompactionUpdate.hasMeta_update,
         noted_patch ''error'' SessionCompactionUpdate.Error SessionCompactionUpdate.hasError_update,
         noted_patch ''summary'' SessionCompactionUpdate.Summary SessionCompactionUpdate.hasSummary_update])"

definition SessionCompactionUpdate_MarshalJSON :: "SessionCompactionUpdate \<Rightarrow> string option" where
  "SessionCompactionUpdate_MarshalJSON v = c_enc (go_struct SessionCompactionUpdate_zero
      SessionCompactionUpdate_fields) v"

definition SessionCompactionUpdate_codec :: "SessionCompactionUpdate codec" where
  "SessionCompactionUpdate_codec = with_marshal SessionCompactionUpdate_MarshalJSON (with_unmarshal
      SessionCompactionUpdate_UnmarshalJSON (go_struct SessionCompactionUpdate_zero
      SessionCompactionUpdate_fields))"

definition SessionCompactionUpdate_MetaState :: "SessionCompactionUpdate \<Rightarrow> NullableFieldState" where
  "SessionCompactionUpdate_MetaState = field_state SessionCompactionUpdate.Meta SessionCompactionUpdate.hasMeta"

definition SessionCompactionUpdate_SetMeta :: "(string \<times> string) list option \<Rightarrow> SessionCompactionUpdate \<Rightarrow> SessionCompactionUpdate" where
  "SessionCompactionUpdate_SetMeta x v = v\<lparr>SessionCompactionUpdate.Meta := x,
      SessionCompactionUpdate.hasMeta := True\<rparr>"

definition SessionCompactionUpdate_ClearMeta :: "SessionCompactionUpdate \<Rightarrow> SessionCompactionUpdate" where
  "SessionCompactionUpdate_ClearMeta v = v\<lparr>SessionCompactionUpdate.Meta := None,
      SessionCompactionUpdate.hasMeta := True\<rparr>"

definition SessionCompactionUpdate_UnsetMeta :: "SessionCompactionUpdate \<Rightarrow> SessionCompactionUpdate" where
  "SessionCompactionUpdate_UnsetMeta v = v\<lparr>SessionCompactionUpdate.Meta := None,
      SessionCompactionUpdate.hasMeta := False\<rparr>"

interpretation sessioncompactionupdate_meta: nullable_field SessionCompactionUpdate_MetaState SessionCompactionUpdate_SetMeta SessionCompactionUpdate_ClearMeta SessionCompactionUpdate_UnsetMeta
  "\<lambda>x. x = None"
  by unfold_locales (simp_all add: SessionCompactionUpdate_MetaState_def SessionCompactionUpdate_SetMeta_def
      SessionCompactionUpdate_ClearMeta_def SessionCompactionUpdate_UnsetMeta_def field_state_def)

definition SessionCompactionUpdate_ErrorState :: "SessionCompactionUpdate \<Rightarrow> NullableFieldState" where
  "SessionCompactionUpdate_ErrorState = field_state SessionCompactionUpdate.Error
      SessionCompactionUpdate.hasError"

definition SessionCompactionUpdate_SetError :: "string \<Rightarrow> SessionCompactionUpdate \<Rightarrow> SessionCompactionUpdate" where
  "SessionCompactionUpdate_SetError x v = v\<lparr>SessionCompactionUpdate.Error := Some x,
      SessionCompactionUpdate.hasError := True\<rparr>"

definition SessionCompactionUpdate_ClearError :: "SessionCompactionUpdate \<Rightarrow> SessionCompactionUpdate" where
  "SessionCompactionUpdate_ClearError v = v\<lparr>SessionCompactionUpdate.Error := None,
      SessionCompactionUpdate.hasError := True\<rparr>"

definition SessionCompactionUpdate_UnsetError :: "SessionCompactionUpdate \<Rightarrow> SessionCompactionUpdate" where
  "SessionCompactionUpdate_UnsetError v = v\<lparr>SessionCompactionUpdate.Error := None,
      SessionCompactionUpdate.hasError := False\<rparr>"

interpretation sessioncompactionupdate_error: nullable_field SessionCompactionUpdate_ErrorState SessionCompactionUpdate_SetError SessionCompactionUpdate_ClearError SessionCompactionUpdate_UnsetError
  "\<lambda>x. False"
  by unfold_locales (simp_all add: SessionCompactionUpdate_ErrorState_def SessionCompactionUpdate_SetError_def
      SessionCompactionUpdate_ClearError_def SessionCompactionUpdate_UnsetError_def field_state_def)

definition SessionCompactionUpdate_SummaryState :: "SessionCompactionUpdate \<Rightarrow> NullableFieldState" where
  "SessionCompactionUpdate_SummaryState = field_state SessionCompactionUpdate.Summary
      SessionCompactionUpdate.hasSummary"

definition SessionCompactionUpdate_SetSummary :: "ContentBlock list option \<Rightarrow> SessionCompactionUpdate \<Rightarrow> SessionCompactionUpdate" where
  "SessionCompactionUpdate_SetSummary x v = v\<lparr>SessionCompactionUpdate.Summary := x,
      SessionCompactionUpdate.hasSummary := True\<rparr>"

definition SessionCompactionUpdate_ClearSummary :: "SessionCompactionUpdate \<Rightarrow> SessionCompactionUpdate" where
  "SessionCompactionUpdate_ClearSummary v = v\<lparr>SessionCompactionUpdate.Summary := None,
      SessionCompactionUpdate.hasSummary := True\<rparr>"

definition SessionCompactionUpdate_UnsetSummary :: "SessionCompactionUpdate \<Rightarrow> SessionCompactionUpdate" where
  "SessionCompactionUpdate_UnsetSummary v = v\<lparr>SessionCompactionUpdate.Summary := None,
      SessionCompactionUpdate.hasSummary := False\<rparr>"

interpretation sessioncompactionupdate_summary: nullable_field SessionCompactionUpdate_SummaryState SessionCompactionUpdate_SetSummary SessionCompactionUpdate_ClearSummary SessionCompactionUpdate_UnsetSummary
  "\<lambda>x. x = None"
  by unfold_locales (simp_all add: SessionCompactionUpdate_SummaryState_def
      SessionCompactionUpdate_SetSummary_def SessionCompactionUpdate_ClearSummary_def
      SessionCompactionUpdate_UnsetSummary_def field_state_def)

lemma SessionCompactionUpdate_zero_codec [simp]: "c_zero SessionCompactionUpdate_codec = SessionCompactionUpdate_zero"
  by (simp add: SessionCompactionUpdate_codec_def)

lemma SessionCompactionUpdate_obj:
  "obj 9004 (map f_name SessionCompactionUpdate_fields)
     [required ''compactionId'',
      required ''sessionUpdate'',
      required ''status'',
      typed ''compactionId'' go_string,
      typed ''sessionUpdate'' go_string,
      typed ''status'' go_string,
      tagged ''sessionUpdate'' ''compaction_update'']
     SessionCompactionUpdate_codec"
  unfolding SessionCompactionUpdate_codec_def SessionCompactionUpdate_UnmarshalJSON_def
proof (rule obj_marshal)
  show "obj 9004 (map f_name SessionCompactionUpdate_fields)
     [required ''compactionId'',
      required ''sessionUpdate'',
      required ''status'',
      typed ''compactionId'' go_string,
      typed ''sessionUpdate'' go_string,
      typed ''status'' go_string,
      tagged ''sessionUpdate'' ''compaction_update'']
    (with_unmarshal (decode_struct
       [required ''compactionId'',
        required ''sessionUpdate'',
        required ''status'']
       (go_struct SessionCompactionUpdate_zero SessionCompactionUpdate_fields)
       (in_turn [noted_patch ''_meta'' SessionCompactionUpdate.Meta SessionCompactionUpdate.hasMeta_update,
         noted_patch ''error'' SessionCompactionUpdate.Error SessionCompactionUpdate.hasError_update,
         noted_patch ''summary'' SessionCompactionUpdate.Summary SessionCompactionUpdate.hasSummary_update]))
     (go_struct SessionCompactionUpdate_zero SessionCompactionUpdate_fields))"
    by (rule unmarshal_obj) (simp_all add: SessionCompactionUpdate_fields_def SessionCompactionUpdate_zero_def
          max_depth_def post_noted_patch [where flag = "SessionCompactionUpdate.hasMeta" and set_flag =
          "SessionCompactionUpdate.hasMeta_update"] post_noted_patch [where flag =
          "SessionCompactionUpdate.hasError" and set_flag = "SessionCompactionUpdate.hasError_update"]
          post_noted_patch [where flag = "SessionCompactionUpdate.hasSummary" and set_flag =
          "SessionCompactionUpdate.hasSummary_update"])
qed (simp_all add: max_depth_def SessionCompactionUpdate_MarshalJSON_def)

lemma SessionCompactionUpdate_wire [simp]: "9005 \<le> E \<Longrightarrow> wire E s SessionCompactionUpdate_codec"
  using wire_mono [OF wire_obj [OF SessionCompactionUpdate_obj], of E s] by simp

subsection \<open>\<open>SessionUpdateCompactionSummaryChunk\<close>\<close>

record SessionUpdateCompactionSummaryChunk =
  Meta :: "(string \<times> string) list option"
  CompactionId :: "string"
  Content :: "ContentBlock"
  SessionUpdate :: "string"

definition SessionUpdateCompactionSummaryChunk_zero :: SessionUpdateCompactionSummaryChunk where
  "SessionUpdateCompactionSummaryChunk_zero = \<lparr>Meta = None, CompactionId = [], Content =
      ContentBlock_zero, SessionUpdate = []\<rparr>"

definition SessionUpdateCompactionSummaryChunk_fields :: "SessionUpdateCompactionSummaryChunk fld list" where
  "SessionUpdateCompactionSummaryChunk_fields =
     [go_field ''_meta'' True (lenient (go_map go_raw)) SessionUpdateCompactionSummaryChunk.Meta
         SessionUpdateCompactionSummaryChunk.Meta_update,
      go_field ''compactionId'' False go_string SessionUpdateCompactionSummaryChunk.CompactionId
          SessionUpdateCompactionSummaryChunk.CompactionId_update,
      go_field ''content'' False ContentBlock_codec SessionUpdateCompactionSummaryChunk.Content
          SessionUpdateCompactionSummaryChunk.Content_update,
      go_field ''sessionUpdate'' False (go_tag ''compaction_summary_chunk'')
          SessionUpdateCompactionSummaryChunk.SessionUpdate
          SessionUpdateCompactionSummaryChunk.SessionUpdate_update]"

definition SessionUpdateCompactionSummaryChunk_UnmarshalJSON :: "raw_json \<Rightarrow> SessionUpdateCompactionSummaryChunk decoded" where
  "SessionUpdateCompactionSummaryChunk_UnmarshalJSON =
     decode_struct
       [required ''compactionId'',
        required ''content'',
        required ''sessionUpdate'']
       (go_struct SessionUpdateCompactionSummaryChunk_zero SessionUpdateCompactionSummaryChunk_fields)
       (in_turn [])"

definition SessionUpdateCompactionSummaryChunk_codec :: "SessionUpdateCompactionSummaryChunk codec" where
  "SessionUpdateCompactionSummaryChunk_codec = with_unmarshal SessionUpdateCompactionSummaryChunk_UnmarshalJSON
      (go_struct SessionUpdateCompactionSummaryChunk_zero SessionUpdateCompactionSummaryChunk_fields)"

lemma SessionUpdateCompactionSummaryChunk_zero_codec [simp]: "c_zero SessionUpdateCompactionSummaryChunk_codec = SessionUpdateCompactionSummaryChunk_zero"
  by (simp add: SessionUpdateCompactionSummaryChunk_codec_def)

lemma SessionUpdateCompactionSummaryChunk_obj:
  "obj 9003 (map f_name SessionUpdateCompactionSummaryChunk_fields)
     [required ''compactionId'',
      required ''content'',
      required ''sessionUpdate'',
      typed ''compactionId'' go_string,
      typed ''content'' ContentBlock_codec,
      typed ''sessionUpdate'' go_string,
      tagged ''sessionUpdate'' ''compaction_summary_chunk'']
     SessionUpdateCompactionSummaryChunk_codec"
  unfolding SessionUpdateCompactionSummaryChunk_codec_def SessionUpdateCompactionSummaryChunk_UnmarshalJSON_def
  by (rule unmarshal_obj) (simp_all add: SessionUpdateCompactionSummaryChunk_fields_def
        SessionUpdateCompactionSummaryChunk_zero_def max_depth_def)

lemma SessionUpdateCompactionSummaryChunk_wire [simp]: "9004 \<le> E \<Longrightarrow> wire E s SessionUpdateCompactionSummaryChunk_codec"
  using wire_mono [OF wire_obj [OF SessionUpdateCompactionSummaryChunk_obj], of E s] by simp

subsection \<open>\<open>SessionUpdate\<close>\<close>

record SessionUpdate =
  UserMessageChunk :: "SessionUpdateUserMessageChunk option"
  AgentMessageChunk :: "SessionUpdateAgentMessageChunk option"
  AgentThoughtChunk :: "SessionUpdateAgentThoughtChunk option"
  ToolCall :: "SessionUpdateToolCall option"
  ToolCallUpdate :: "SessionToolCallUpdate option"
  Plan :: "SessionUpdatePlan option"
  AvailableCommandsUpdate :: "SessionAvailableCommandsUpdate option"
  CurrentModeUpdate :: "SessionCurrentModeUpdate option"
  ConfigOptionUpdate :: "SessionConfigOptionUpdate option"
  SessionInfoUpdate :: "SessionSessionInfoUpdate option"
  UsageUpdate :: "SessionUsageUpdate option"
  Notice :: "SessionUpdateNotice option"
  CompactionUpdate :: "SessionCompactionUpdate option"
  CompactionSummaryChunk :: "SessionUpdateCompactionSummaryChunk option"

definition SessionUpdate_zero :: SessionUpdate where
  "SessionUpdate_zero = \<lparr>UserMessageChunk = None, AgentMessageChunk = None, AgentThoughtChunk = None,
      ToolCall = None, ToolCallUpdate = None, Plan = None, AvailableCommandsUpdate = None, CurrentModeUpdate =
      None, ConfigOptionUpdate = None, SessionInfoUpdate = None, UsageUpdate = None, Notice = None,
      CompactionUpdate = None, CompactionSummaryChunk = None\<rparr>"

definition SessionUpdate_as_UserMessageChunk :: "SessionUpdate variant" where
  "SessionUpdate_as_UserMessageChunk =
     go_variant (Some ''user_message_chunk'')
       [typed ''content'' ContentBlock_codec,
        typed ''sessionUpdate'' go_string]
       SessionUpdateUserMessageChunk_codec SessionUpdate.UserMessageChunk (\<lambda>x.
         SessionUpdate_zero\<lparr>SessionUpdate.UserMessageChunk := Some x\<rparr>)"

definition SessionUpdate_as_AgentMessageChunk :: "SessionUpdate variant" where
  "SessionUpdate_as_AgentMessageChunk =
     go_variant (Some ''agent_message_chunk'')
       [typed ''content'' ContentBlock_codec,
        typed ''sessionUpdate'' go_string]
       SessionUpdateAgentMessageChunk_codec SessionUpdate.AgentMessageChunk (\<lambda>x.
         SessionUpdate_zero\<lparr>SessionUpdate.AgentMessageChunk := Some x\<rparr>)"

definition SessionUpdate_as_AgentThoughtChunk :: "SessionUpdate variant" where
  "SessionUpdate_as_AgentThoughtChunk =
     go_variant (Some ''agent_thought_chunk'')
       [typed ''content'' ContentBlock_codec,
        typed ''sessionUpdate'' go_string]
       SessionUpdateAgentThoughtChunk_codec SessionUpdate.AgentThoughtChunk (\<lambda>x.
         SessionUpdate_zero\<lparr>SessionUpdate.AgentThoughtChunk := Some x\<rparr>)"

definition SessionUpdate_as_ToolCall :: "SessionUpdate variant" where
  "SessionUpdate_as_ToolCall =
     go_variant (Some ''tool_call'')
       [typed ''sessionUpdate'' go_string,
        typed ''title'' go_string,
        typed ''toolCallId'' go_string]
       SessionUpdateToolCall_codec SessionUpdate.ToolCall (\<lambda>x.
         SessionUpdate_zero\<lparr>SessionUpdate.ToolCall := Some x\<rparr>)"

definition SessionUpdate_as_ToolCallUpdate :: "SessionUpdate variant" where
  "SessionUpdate_as_ToolCallUpdate =
     go_variant (Some ''tool_call_update'')
       [typed ''sessionUpdate'' go_string,
        typed ''toolCallId'' go_string]
       SessionToolCallUpdate_codec SessionUpdate.ToolCallUpdate (\<lambda>x.
         SessionUpdate_zero\<lparr>SessionUpdate.ToolCallUpdate := Some x\<rparr>)"

definition SessionUpdate_as_Plan :: "SessionUpdate variant" where
  "SessionUpdate_as_Plan =
     go_variant (Some ''plan'')
       [typed ''entries'' (go_slice PlanEntry_codec),
        typed ''sessionUpdate'' go_string]
       SessionUpdatePlan_codec SessionUpdate.Plan (\<lambda>x. SessionUpdate_zero\<lparr>SessionUpdate.Plan :=
         Some x\<rparr>)"

definition SessionUpdate_as_AvailableCommandsUpdate :: "SessionUpdate variant" where
  "SessionUpdate_as_AvailableCommandsUpdate =
     go_variant (Some ''available_commands_update'')
       [typed ''availableCommands'' (go_slice AvailableCommand_codec),
        typed ''sessionUpdate'' go_string]
       SessionAvailableCommandsUpdate_codec SessionUpdate.AvailableCommandsUpdate (\<lambda>x.
         SessionUpdate_zero\<lparr>SessionUpdate.AvailableCommandsUpdate := Some x\<rparr>)"

definition SessionUpdate_as_CurrentModeUpdate :: "SessionUpdate variant" where
  "SessionUpdate_as_CurrentModeUpdate =
     go_variant (Some ''current_mode_update'')
       [typed ''currentModeId'' go_string,
        typed ''sessionUpdate'' go_string]
       SessionCurrentModeUpdate_codec SessionUpdate.CurrentModeUpdate (\<lambda>x.
         SessionUpdate_zero\<lparr>SessionUpdate.CurrentModeUpdate := Some x\<rparr>)"

definition SessionUpdate_as_ConfigOptionUpdate :: "SessionUpdate variant" where
  "SessionUpdate_as_ConfigOptionUpdate =
     go_variant (Some ''config_option_update'')
       [typed ''configOptions'' (go_slice SessionConfigOption_codec),
        typed ''sessionUpdate'' go_string]
       SessionConfigOptionUpdate_codec SessionUpdate.ConfigOptionUpdate (\<lambda>x.
         SessionUpdate_zero\<lparr>SessionUpdate.ConfigOptionUpdate := Some x\<rparr>)"

definition SessionUpdate_as_SessionInfoUpdate :: "SessionUpdate variant" where
  "SessionUpdate_as_SessionInfoUpdate =
     go_variant (Some ''session_info_update'')
       [typed ''sessionUpdate'' go_string]
       SessionSessionInfoUpdate_codec SessionUpdate.SessionInfoUpdate (\<lambda>x.
         SessionUpdate_zero\<lparr>SessionUpdate.SessionInfoUpdate := Some x\<rparr>)"

definition SessionUpdate_as_UsageUpdate :: "SessionUpdate variant" where
  "SessionUpdate_as_UsageUpdate =
     go_variant (Some ''usage_update'')
       [typed ''sessionUpdate'' go_string,
        typed ''size'' go_uint64,
        typed ''used'' go_uint64]
       SessionUsageUpdate_codec SessionUpdate.UsageUpdate (\<lambda>x.
         SessionUpdate_zero\<lparr>SessionUpdate.UsageUpdate := Some x\<rparr>)"

definition SessionUpdate_as_Notice :: "SessionUpdate variant" where
  "SessionUpdate_as_Notice =
     go_variant (Some ''notice'')
       [typed ''sessionUpdate'' go_string,
        typed ''severity'' go_string,
        typed ''title'' go_string]
       SessionUpdateNotice_codec SessionUpdate.Notice (\<lambda>x.
         SessionUpdate_zero\<lparr>SessionUpdate.Notice := Some x\<rparr>)"

definition SessionUpdate_as_CompactionUpdate :: "SessionUpdate variant" where
  "SessionUpdate_as_CompactionUpdate =
     go_variant (Some ''compaction_update'')
       [typed ''compactionId'' go_string,
        typed ''sessionUpdate'' go_string,
        typed ''status'' go_string]
       SessionCompactionUpdate_codec SessionUpdate.CompactionUpdate (\<lambda>x.
         SessionUpdate_zero\<lparr>SessionUpdate.CompactionUpdate := Some x\<rparr>)"

definition SessionUpdate_as_CompactionSummaryChunk :: "SessionUpdate variant" where
  "SessionUpdate_as_CompactionSummaryChunk =
     go_variant (Some ''compaction_summary_chunk'')
       [typed ''compactionId'' go_string,
        typed ''content'' ContentBlock_codec,
        typed ''sessionUpdate'' go_string]
       SessionUpdateCompactionSummaryChunk_codec SessionUpdate.CompactionSummaryChunk (\<lambda>x.
         SessionUpdate_zero\<lparr>SessionUpdate.CompactionSummaryChunk := Some x\<rparr>)"

definition SessionUpdate_variants :: "SessionUpdate variant list" where
  "SessionUpdate_variants =
     [SessionUpdate_as_UserMessageChunk,
      SessionUpdate_as_AgentMessageChunk,
      SessionUpdate_as_AgentThoughtChunk,
      SessionUpdate_as_ToolCall,
      SessionUpdate_as_ToolCallUpdate,
      SessionUpdate_as_Plan,
      SessionUpdate_as_AvailableCommandsUpdate,
      SessionUpdate_as_CurrentModeUpdate,
      SessionUpdate_as_ConfigOptionUpdate,
      SessionUpdate_as_SessionInfoUpdate,
      SessionUpdate_as_UsageUpdate,
      SessionUpdate_as_Notice,
      SessionUpdate_as_CompactionUpdate,
      SessionUpdate_as_CompactionSummaryChunk]"

definition SessionUpdate_UnmarshalJSON :: "raw_json \<Rightarrow> SessionUpdate decoded" where
  "SessionUpdate_UnmarshalJSON = unmarshal_union ''sessionUpdate'' SessionUpdate_variants"

definition SessionUpdate_MarshalJSON :: "SessionUpdate \<Rightarrow> string option" where
  "SessionUpdate_MarshalJSON = marshal_union ''sessionUpdate'' SessionUpdate_variants"

definition SessionUpdate_codec :: "SessionUpdate codec" where
  "SessionUpdate_codec = go_union SessionUpdate_zero SessionUpdate_UnmarshalJSON SessionUpdate_MarshalJSON
      SessionUpdate_variants"

definition SessionUpdate_Validate :: "SessionUpdate \<Rightarrow> invalid option" where
  "SessionUpdate_Validate = validate_union True ''SessionUpdate'' SessionUpdate_codec SessionUpdate_variants"

definition SessionUpdate_named :: "(string list \<times> SessionUpdate variant) list" where
  "SessionUpdate_named =
     [(map f_name SessionUpdateUserMessageChunk_fields, SessionUpdate_as_UserMessageChunk),
      (map f_name SessionUpdateAgentMessageChunk_fields, SessionUpdate_as_AgentMessageChunk),
      (map f_name SessionUpdateAgentThoughtChunk_fields, SessionUpdate_as_AgentThoughtChunk),
      (map f_name SessionUpdateToolCall_fields, SessionUpdate_as_ToolCall),
      (map f_name SessionToolCallUpdate_fields, SessionUpdate_as_ToolCallUpdate),
      (map f_name SessionUpdatePlan_fields, SessionUpdate_as_Plan),
      (map f_name SessionAvailableCommandsUpdate_fields, SessionUpdate_as_AvailableCommandsUpdate),
      (map f_name SessionCurrentModeUpdate_fields, SessionUpdate_as_CurrentModeUpdate),
      (map f_name SessionConfigOptionUpdate_fields, SessionUpdate_as_ConfigOptionUpdate),
      (map f_name SessionSessionInfoUpdate_fields, SessionUpdate_as_SessionInfoUpdate),
      (map f_name SessionUsageUpdate_fields, SessionUpdate_as_UsageUpdate),
      (map f_name SessionUpdateNotice_fields, SessionUpdate_as_Notice),
      (map f_name SessionCompactionUpdate_fields, SessionUpdate_as_CompactionUpdate),
      (map f_name SessionUpdateCompactionSummaryChunk_fields, SessionUpdate_as_CompactionSummaryChunk)]"

lemma SessionUpdate_UserMessageChunk_law:
  "variant_law 9007 ''sessionUpdate'' (map f_name SessionUpdateUserMessageChunk_fields) SessionUpdate_as_UserMessageChunk"
  unfolding SessionUpdate_as_UserMessageChunk_def
  by (rule go_variant_law [OF obj_mono [OF SessionUpdateUserMessageChunk_obj]]) (simp_all)

lemma SessionUpdate_AgentMessageChunk_law:
  "variant_law 9007 ''sessionUpdate'' (map f_name SessionUpdateAgentMessageChunk_fields) SessionUpdate_as_AgentMessageChunk"
  unfolding SessionUpdate_as_AgentMessageChunk_def
  by (rule go_variant_law [OF obj_mono [OF SessionUpdateAgentMessageChunk_obj]]) (simp_all)

lemma SessionUpdate_AgentThoughtChunk_law:
  "variant_law 9007 ''sessionUpdate'' (map f_name SessionUpdateAgentThoughtChunk_fields) SessionUpdate_as_AgentThoughtChunk"
  unfolding SessionUpdate_as_AgentThoughtChunk_def
  by (rule go_variant_law [OF obj_mono [OF SessionUpdateAgentThoughtChunk_obj]]) (simp_all)

lemma SessionUpdate_ToolCall_law:
  "variant_law 9007 ''sessionUpdate'' (map f_name SessionUpdateToolCall_fields) SessionUpdate_as_ToolCall"
  unfolding SessionUpdate_as_ToolCall_def
  by (rule go_variant_law [OF obj_mono [OF SessionUpdateToolCall_obj]]) (simp_all)

lemma SessionUpdate_ToolCallUpdate_law:
  "variant_law 9007 ''sessionUpdate'' (map f_name SessionToolCallUpdate_fields) SessionUpdate_as_ToolCallUpdate"
  unfolding SessionUpdate_as_ToolCallUpdate_def
  by (rule go_variant_law [OF obj_mono [OF SessionToolCallUpdate_obj]]) (simp_all)

lemma SessionUpdate_Plan_law:
  "variant_law 9007 ''sessionUpdate'' (map f_name SessionUpdatePlan_fields) SessionUpdate_as_Plan"
  unfolding SessionUpdate_as_Plan_def
  by (rule go_variant_law [OF obj_mono [OF SessionUpdatePlan_obj]]) (simp_all)

lemma SessionUpdate_AvailableCommandsUpdate_law:
  "variant_law 9007 ''sessionUpdate'' (map f_name SessionAvailableCommandsUpdate_fields) SessionUpdate_as_AvailableCommandsUpdate"
  unfolding SessionUpdate_as_AvailableCommandsUpdate_def
  by (rule go_variant_law [OF obj_mono [OF SessionAvailableCommandsUpdate_obj]]) (simp_all)

lemma SessionUpdate_CurrentModeUpdate_law:
  "variant_law 9007 ''sessionUpdate'' (map f_name SessionCurrentModeUpdate_fields) SessionUpdate_as_CurrentModeUpdate"
  unfolding SessionUpdate_as_CurrentModeUpdate_def
  by (rule go_variant_law [OF obj_mono [OF SessionCurrentModeUpdate_obj]]) (simp_all)

lemma SessionUpdate_ConfigOptionUpdate_law:
  "variant_law 9007 ''sessionUpdate'' (map f_name SessionConfigOptionUpdate_fields) SessionUpdate_as_ConfigOptionUpdate"
  unfolding SessionUpdate_as_ConfigOptionUpdate_def
  by (rule go_variant_law [OF obj_mono [OF SessionConfigOptionUpdate_obj]]) (simp_all)

lemma SessionUpdate_SessionInfoUpdate_law:
  "variant_law 9007 ''sessionUpdate'' (map f_name SessionSessionInfoUpdate_fields) SessionUpdate_as_SessionInfoUpdate"
  unfolding SessionUpdate_as_SessionInfoUpdate_def
  by (rule go_variant_law [OF obj_mono [OF SessionSessionInfoUpdate_obj]]) (simp_all)

lemma SessionUpdate_UsageUpdate_law:
  "variant_law 9007 ''sessionUpdate'' (map f_name SessionUsageUpdate_fields) SessionUpdate_as_UsageUpdate"
  unfolding SessionUpdate_as_UsageUpdate_def
  by (rule go_variant_law [OF obj_mono [OF SessionUsageUpdate_obj]]) (simp_all)

lemma SessionUpdate_Notice_law:
  "variant_law 9007 ''sessionUpdate'' (map f_name SessionUpdateNotice_fields) SessionUpdate_as_Notice"
  unfolding SessionUpdate_as_Notice_def
  by (rule go_variant_law [OF obj_mono [OF SessionUpdateNotice_obj]]) (simp_all)

lemma SessionUpdate_CompactionUpdate_law:
  "variant_law 9007 ''sessionUpdate'' (map f_name SessionCompactionUpdate_fields) SessionUpdate_as_CompactionUpdate"
  unfolding SessionUpdate_as_CompactionUpdate_def
  by (rule go_variant_law [OF obj_mono [OF SessionCompactionUpdate_obj]]) (simp_all)

lemma SessionUpdate_CompactionSummaryChunk_law:
  "variant_law 9007 ''sessionUpdate'' (map f_name SessionUpdateCompactionSummaryChunk_fields) SessionUpdate_as_CompactionSummaryChunk"
  unfolding SessionUpdate_as_CompactionSummaryChunk_def
  by (rule go_variant_law [OF obj_mono [OF SessionUpdateCompactionSummaryChunk_obj]]) (simp_all)

lemma SessionUpdate_law: "union_law 9007 ''sessionUpdate'' SessionUpdate_named"
proof (rule union_lawI)
  show "list_all (\<lambda>(n, v). variant_law 9007 ''sessionUpdate'' n v) SessionUpdate_named"
    by (simp add: SessionUpdate_named_def SessionUpdate_UserMessageChunk_law SessionUpdate_AgentMessageChunk_law
      SessionUpdate_AgentThoughtChunk_law SessionUpdate_ToolCall_law SessionUpdate_ToolCallUpdate_law
      SessionUpdate_Plan_law SessionUpdate_AvailableCommandsUpdate_law SessionUpdate_CurrentModeUpdate_law
      SessionUpdate_ConfigOptionUpdate_law SessionUpdate_SessionInfoUpdate_law SessionUpdate_UsageUpdate_law
      SessionUpdate_Notice_law SessionUpdate_CompactionUpdate_law SessionUpdate_CompactionSummaryChunk_law)
  show "list_all (\<lambda>(n, v). v_disc v \<noteq> Some []) SessionUpdate_named"
    by (simp add: SessionUpdate_named_def SessionUpdate_as_UserMessageChunk_def
      SessionUpdate_as_AgentMessageChunk_def SessionUpdate_as_AgentThoughtChunk_def
      SessionUpdate_as_ToolCall_def SessionUpdate_as_ToolCallUpdate_def SessionUpdate_as_Plan_def
      SessionUpdate_as_AvailableCommandsUpdate_def SessionUpdate_as_CurrentModeUpdate_def
      SessionUpdate_as_ConfigOptionUpdate_def SessionUpdate_as_SessionInfoUpdate_def
      SessionUpdate_as_UsageUpdate_def SessionUpdate_as_Notice_def SessionUpdate_as_CompactionUpdate_def
      SessionUpdate_as_CompactionSummaryChunk_def)
  show "sorted_wrt rivals SessionUpdate_named"
    by (simp add: SessionUpdate_named_def SessionUpdate_zero_def SessionUpdate_as_UserMessageChunk_def
      SessionUpdate_as_AgentMessageChunk_def SessionUpdate_as_AgentThoughtChunk_def
      SessionUpdate_as_ToolCall_def SessionUpdate_as_ToolCallUpdate_def SessionUpdate_as_Plan_def
      SessionUpdate_as_AvailableCommandsUpdate_def SessionUpdate_as_CurrentModeUpdate_def
      SessionUpdate_as_ConfigOptionUpdate_def SessionUpdate_as_SessionInfoUpdate_def
      SessionUpdate_as_UsageUpdate_def SessionUpdate_as_Notice_def SessionUpdate_as_CompactionUpdate_def
      SessionUpdate_as_CompactionSummaryChunk_def)
qed

lemma SessionUpdate_wire [simp]: "9008 \<le> E \<Longrightarrow> wire E s SessionUpdate_codec"
  using wire_mono [OF wire_union [OF SessionUpdate_law, where zero = SessionUpdate_zero], where e = E and s' = s]
  by (simp add: SessionUpdate_codec_def SessionUpdate_UnmarshalJSON_def SessionUpdate_MarshalJSON_def
    SessionUpdate_variants_def SessionUpdate_named_def max_depth_def)

lemma SessionUpdate_zero_codec [simp]: "c_zero SessionUpdate_codec = SessionUpdate_zero"
  by (simp add: SessionUpdate_codec_def)

lemma SessionUpdate_one: "list_all (\<lambda>v. builds v (\<lambda>u. variants_set SessionUpdate_variants u = 1)) SessionUpdate_variants"
  by (simp add: SessionUpdate_variants_def SessionUpdate_zero_def SessionUpdate_as_UserMessageChunk_def
      SessionUpdate_as_AgentMessageChunk_def SessionUpdate_as_AgentThoughtChunk_def
      SessionUpdate_as_ToolCall_def SessionUpdate_as_ToolCallUpdate_def SessionUpdate_as_Plan_def
      SessionUpdate_as_AvailableCommandsUpdate_def SessionUpdate_as_CurrentModeUpdate_def
      SessionUpdate_as_ConfigOptionUpdate_def SessionUpdate_as_SessionInfoUpdate_def
      SessionUpdate_as_UsageUpdate_def SessionUpdate_as_Notice_def SessionUpdate_as_CompactionUpdate_def
      SessionUpdate_as_CompactionSummaryChunk_def)

interpretation sessionupdate_wire: wire_type SessionUpdate_codec 9008
  by unfold_locales (simp_all add: max_depth_def)

lemma SessionUpdate_valid: "c_fine SessionUpdate_codec u \<Longrightarrow> SessionUpdate_Validate u = None"
  unfolding SessionUpdate_Validate_def validate_union_def
  by (rule sessionupdate_wire.validated) (simp_all add: SessionUpdate_codec_def union_fine_one [OF SessionUpdate_one])

subsection \<open>\<open>SessionNotification\<close>\<close>

record SessionNotification =
  Meta :: "(string \<times> string) list option"
  SessionId :: "string"
  Update :: "SessionUpdate"

definition SessionNotification_zero :: SessionNotification where
  "SessionNotification_zero = \<lparr>Meta = None, SessionId = [], Update = SessionUpdate_zero\<rparr>"

definition SessionNotification_fields :: "SessionNotification fld list" where
  "SessionNotification_fields =
     [go_field ''_meta'' True (go_map go_raw) SessionNotification.Meta SessionNotification.Meta_update,
      go_field ''sessionId'' False go_string SessionNotification.SessionId SessionNotification.SessionId_update,
      go_field ''update'' False SessionUpdate_codec SessionNotification.Update
          SessionNotification.Update_update]"

definition SessionNotification_UnmarshalJSON :: "raw_json \<Rightarrow> SessionNotification decoded" where
  "SessionNotification_UnmarshalJSON =
     decode_struct
       [required ''sessionId'',
        required ''update'']
       (go_struct SessionNotification_zero SessionNotification_fields)
       (in_turn [])"

definition SessionNotification_codec :: "SessionNotification codec" where
  "SessionNotification_codec = with_unmarshal SessionNotification_UnmarshalJSON (go_struct
      SessionNotification_zero SessionNotification_fields)"

definition SessionNotification_Validate :: "SessionNotification \<Rightarrow> invalid option" where
  "SessionNotification_Validate v =
     (case SessionUpdate_Validate (SessionNotification.Update v) of Some e \<Rightarrow> Some (Within ''update'' e)
     | None \<Rightarrow> None)"

lemma SessionNotification_zero_codec [simp]: "c_zero SessionNotification_codec = SessionNotification_zero"
  by (simp add: SessionNotification_codec_def)

lemma SessionNotification_obj:
  "obj 9008 (map f_name SessionNotification_fields)
     [required ''sessionId'',
      required ''update'']
     SessionNotification_codec"
  unfolding SessionNotification_codec_def SessionNotification_UnmarshalJSON_def
  by (rule unmarshal_obj) (simp_all add: SessionNotification_fields_def SessionNotification_zero_def
        max_depth_def)

lemma SessionNotification_wire [simp]: "9009 \<le> E \<Longrightarrow> wire E s SessionNotification_codec"
  using wire_mono [OF wire_obj [OF SessionNotification_obj], of E s] by simp

interpretation sessionnotification_wire: wire_type SessionNotification_codec 9009
  by unfold_locales (simp_all add: max_depth_def)

section \<open>Properties\<close>

text \<open>C10: A session notification, whatever update it carries, comes back unchanged: what the agent
  encodes is compact JSON, and the client that decodes it has the same value. The values are those
  with valid UTF-8 texts, required lists that are not nil, exactly one variant in every union with
  its own discriminator, and raw JSON that is compact.
\<close>

theorem session_notification_round_trip:
  assumes "c_fine SessionNotification_codec n"
  shows "\<exists>t. c_enc SessionNotification_codec n = Some t \<and> compact t = Some t \<and>
    unmarshal SessionNotification_codec SessionNotification_zero t = Inr n"
  using sessionnotification_wire.round_trip [OF assms] by simp

theorem session_notification_round_trip_witness:
  "\<exists>t. c_enc SessionNotification_codec
      (SessionNotification_zero\<lparr>SessionNotification.SessionId := ''s1'', SessionNotification.Update :=
         SessionUpdate_zero\<lparr>SessionUpdate.CurrentModeUpdate := Some
           (SessionCurrentModeUpdate_zero\<lparr>SessionCurrentModeUpdate.CurrentModeId := ''ask'',
              SessionCurrentModeUpdate.SessionUpdate := ''current_mode_update''\<rparr>)\<rparr>\<rparr>) = Some t"
  (is "\<exists>t. c_enc _ ?n = Some t")
proof -
  have "c_fine SessionNotification_codec ?n"
    by (simp add: SessionNotification_codec_def with_unmarshal_def go_struct_def SessionNotification_fields_def
        SessionNotification_zero_def go_field_def go_map_def go_string_def SessionUpdate_codec_def go_union_def
        SessionUpdate_variants_def SessionUpdate_as_CurrentModeUpdate_def go_variant_def SessionUpdate_zero_def
        SessionCurrentModeUpdate_codec_def SessionCurrentModeUpdate_fields_def SessionCurrentModeUpdate_zero_def go_tag_def)
  from session_notification_round_trip [OF this] show ?thesis by blast
qed

text \<open>C38: In an update of the session's information the flags tell an absent member from a null one:
  decoding sets them exactly for the members that are there, and of a value without texts the
  encoding has a null exactly for the flags that are set.
\<close>

theorem session_info_patch:
  assumes "SessionInfoUpdate_UnmarshalJSON (r, JObj ms) = Good u"
  shows "(SessionInfoUpdate.hasTitle u \<longleftrightarrow> field ms ''title'' \<noteq> None) \<and>
    (SessionInfoUpdate.hasUpdatedAt u \<longleftrightarrow> field ms ''updatedAt'' \<noteq> None) \<and>
    c_enc SessionInfoUpdate_codec (u\<lparr>SessionInfoUpdate.Meta := None, SessionInfoUpdate.Title := None, SessionInfoUpdate.UpdatedAt := None\<rparr>) =
      Some (object_text ((if field ms ''title'' = None then [] else [(''title'', ''null'')]) @
        (if field ms ''updatedAt'' = None then [] else [(''updatedAt'', ''null'')])))"
proof -
  have flags: "SessionInfoUpdate.hasTitle u = (field ms ''title'' \<noteq> None)"
    "SessionInfoUpdate.hasUpdatedAt u = (field ms ''updatedAt'' \<noteq> None)"
    using assms by (auto simp: SessionInfoUpdate_UnmarshalJSON_def decode_struct_def members_of_def in_turn_def noted_def
        split: option.splits decoded.splits)
  obtain a b where ab: "a = SessionInfoUpdate.hasTitle u" "b = SessionInfoUpdate.hasUpdatedAt u" by simp
  have texts: "compact (object_text []) = Some (object_text [])"
    "compact (object_text [(''title'', ''null'')]) = Some (object_text [(''title'', ''null'')])"
    "compact (object_text [(''updatedAt'', ''null'')]) = Some (object_text [(''updatedAt'', ''null'')])"
    "compact (object_text [(''title'', ''null''), (''updatedAt'', ''null'')]) =
       Some (object_text [(''title'', ''null''), (''updatedAt'', ''null'')])"
    by code_simp+
  have "c_enc SessionInfoUpdate_codec (u\<lparr>SessionInfoUpdate.Meta := None, SessionInfoUpdate.Title := None, SessionInfoUpdate.UpdatedAt := None\<rparr>) =
      Some (object_text ((if a then [(''title'', ''null'')] else []) @ (if b then [(''updatedAt'', ''null'')] else [])))"
    using texts ab by (cases a; cases b) (simp_all add: SessionInfoUpdate_codec_def with_marshal_def SessionInfoUpdate_MarshalJSON_def
        go_struct_def SessionInfoUpdate_fields_def go_field_def go_patch_def go_map_def)
  with flags ab show ?thesis by auto
qed

theorem session_info_patch_witness:
  "case SessionInfoUpdate_UnmarshalJSON ([], JObj [(''title'', ''null'', JNull)]) of
     Good u \<Rightarrow> SessionInfoUpdate.hasTitle u \<and> \<not> SessionInfoUpdate.hasUpdatedAt u | _ \<Rightarrow> False"
proof -
  have "case SessionInfoUpdate_UnmarshalJSON ([], JObj [(''title'', ''null'', JNull)]) of Good u \<Rightarrow> True | _ \<Rightarrow> False"
    by (simp add: SessionInfoUpdate_UnmarshalJSON_def decode_struct_def members_of_def go_struct_def
        SessionInfoUpdate_fields_def SessionInfoUpdate_zero_def find_field_def match_field_def go_field_def go_patch_def go_ptr_def)
  then obtain u where u: "SessionInfoUpdate_UnmarshalJSON ([], JObj [(''title'', ''null'', JNull)]) = Good u"
    by (auto split: decoded.splits)
  from session_info_patch [OF u] u show ?thesis by (simp add: field_def)
qed

end
