(* ===== verification/WireSession.thy ===== *)
theory WireSession
  imports WireUpdate
begin

text \<open>
  The requests that open, list and close sessions, with the servers they name, and prompts.
\<close>

section \<open>Servers\<close>

subsection \<open>\<open>HttpHeader\<close>\<close>

record HttpHeader =
  Meta :: "(string \<times> string) list option"
  Name :: "string"
  Value :: "string"

definition HttpHeader_zero :: HttpHeader where
  "HttpHeader_zero = \<lparr>Meta = None, Name = [], Value = []\<rparr>"

definition HttpHeader_fields :: "HttpHeader fld list" where
  "HttpHeader_fields =
     [go_field ''_meta'' True (go_map go_raw) HttpHeader.Meta HttpHeader.Meta_update,
      go_field ''name'' False go_string HttpHeader.Name HttpHeader.Name_update,
      go_field ''value'' False go_string HttpHeader.Value HttpHeader.Value_update]"

definition HttpHeader_UnmarshalJSON :: "raw_json \<Rightarrow> HttpHeader decoded" where
  "HttpHeader_UnmarshalJSON =
     decode_struct
       [required ''name'',
        required ''value'']
       (go_struct HttpHeader_zero HttpHeader_fields)
       (in_turn [])"

definition HttpHeader_codec :: "HttpHeader codec" where
  "HttpHeader_codec = with_unmarshal HttpHeader_UnmarshalJSON (go_struct HttpHeader_zero HttpHeader_fields)"

lemma HttpHeader_zero_codec [simp]: "c_zero HttpHeader_codec = HttpHeader_zero"
  by (simp add: HttpHeader_codec_def)

lemma HttpHeader_obj:
  "obj 9001 (map f_name HttpHeader_fields)
     [required ''name'',
      required ''value'']
     HttpHeader_codec"
  unfolding HttpHeader_codec_def HttpHeader_UnmarshalJSON_def
  by (rule unmarshal_obj) (simp_all add: HttpHeader_fields_def HttpHeader_zero_def max_depth_def)

lemma HttpHeader_wire [simp]: "9002 \<le> E \<Longrightarrow> wire E s HttpHeader_codec"
  using wire_mono [OF wire_obj [OF HttpHeader_obj], of E s] by simp

subsection \<open>\<open>McpServerHttpInline\<close>\<close>

record McpServerHttpInline =
  Meta :: "(string \<times> string) list option"
  Headers :: "HttpHeader list option"
  Name :: "string"
  Type :: "string"
  Url :: "string"

definition McpServerHttpInline_zero :: McpServerHttpInline where
  "McpServerHttpInline_zero = \<lparr>Meta = None, Headers = None, Name = [], Type = [], Url = []\<rparr>"

definition McpServerHttpInline_fields :: "McpServerHttpInline fld list" where
  "McpServerHttpInline_fields =
     [go_field ''_meta'' True (go_map go_raw) McpServerHttpInline.Meta McpServerHttpInline.Meta_update,
      go_field ''headers'' False (go_list HttpHeader_codec) McpServerHttpInline.Headers
          McpServerHttpInline.Headers_update,
      go_field ''name'' False go_string McpServerHttpInline.Name McpServerHttpInline.Name_update,
      go_field ''type'' False (go_tag ''http'') McpServerHttpInline.Type McpServerHttpInline.Type_update,
      go_field ''url'' False go_string McpServerHttpInline.Url McpServerHttpInline.Url_update]"

definition McpServerHttpInline_UnmarshalJSON :: "raw_json \<Rightarrow> McpServerHttpInline decoded" where
  "McpServerHttpInline_UnmarshalJSON =
     decode_struct
       [present ''headers'',
        required ''name'',
        required ''type'',
        required ''url'',
        items ''headers'' HttpHeader_codec]
       (go_struct McpServerHttpInline_zero McpServerHttpInline_fields)
       (in_turn [made McpServerHttpInline.Headers McpServerHttpInline.Headers_update])"

definition McpServerHttpInline_codec :: "McpServerHttpInline codec" where
  "McpServerHttpInline_codec = with_unmarshal McpServerHttpInline_UnmarshalJSON (go_struct
      McpServerHttpInline_zero McpServerHttpInline_fields)"

lemma McpServerHttpInline_zero_codec [simp]: "c_zero McpServerHttpInline_codec = McpServerHttpInline_zero"
  by (simp add: McpServerHttpInline_codec_def)

lemma McpServerHttpInline_obj:
  "obj 9003 (map f_name McpServerHttpInline_fields)
     [present ''headers'',
      required ''name'',
      required ''type'',
      required ''url'',
      items ''headers'' HttpHeader_codec,
      listed ''headers'' (go_slice HttpHeader_codec),
      typed ''name'' go_string,
      typed ''type'' go_string,
      typed ''url'' go_string,
      tagged ''type'' ''http'']
     McpServerHttpInline_codec"
  unfolding McpServerHttpInline_codec_def McpServerHttpInline_UnmarshalJSON_def
  by (rule unmarshal_obj) (simp_all add: McpServerHttpInline_fields_def McpServerHttpInline_zero_def
        max_depth_def)

lemma McpServerHttpInline_wire [simp]: "9004 \<le> E \<Longrightarrow> wire E s McpServerHttpInline_codec"
  using wire_mono [OF wire_obj [OF McpServerHttpInline_obj], of E s] by simp

lemma McpServerHttpInline_names: "f_name ` set McpServerHttpInline_fields = {''_meta'', ''headers'', ''name'', ''type'', ''url''}"
  by (auto simp: McpServerHttpInline_fields_def)

subsection \<open>\<open>McpServerSseInline\<close>\<close>

record McpServerSseInline =
  Meta :: "(string \<times> string) list option"
  Headers :: "HttpHeader list option"
  Name :: "string"
  Type :: "string"
  Url :: "string"

definition McpServerSseInline_zero :: McpServerSseInline where
  "McpServerSseInline_zero = \<lparr>Meta = None, Headers = None, Name = [], Type = [], Url = []\<rparr>"

definition McpServerSseInline_fields :: "McpServerSseInline fld list" where
  "McpServerSseInline_fields =
     [go_field ''_meta'' True (go_map go_raw) McpServerSseInline.Meta McpServerSseInline.Meta_update,
      go_field ''headers'' False (go_list HttpHeader_codec) McpServerSseInline.Headers
          McpServerSseInline.Headers_update,
      go_field ''name'' False go_string McpServerSseInline.Name McpServerSseInline.Name_update,
      go_field ''type'' False (go_tag ''sse'') McpServerSseInline.Type McpServerSseInline.Type_update,
      go_field ''url'' False go_string McpServerSseInline.Url McpServerSseInline.Url_update]"

definition McpServerSseInline_UnmarshalJSON :: "raw_json \<Rightarrow> McpServerSseInline decoded" where
  "McpServerSseInline_UnmarshalJSON =
     decode_struct
       [present ''headers'',
        required ''name'',
        required ''type'',
        required ''url'',
        items ''headers'' HttpHeader_codec]
       (go_struct McpServerSseInline_zero McpServerSseInline_fields)
       (in_turn [made McpServerSseInline.Headers McpServerSseInline.Headers_update])"

definition McpServerSseInline_codec :: "McpServerSseInline codec" where
  "McpServerSseInline_codec = with_unmarshal McpServerSseInline_UnmarshalJSON (go_struct McpServerSseInline_zero
      McpServerSseInline_fields)"

lemma McpServerSseInline_zero_codec [simp]: "c_zero McpServerSseInline_codec = McpServerSseInline_zero"
  by (simp add: McpServerSseInline_codec_def)

lemma McpServerSseInline_obj:
  "obj 9003 (map f_name McpServerSseInline_fields)
     [present ''headers'',
      required ''name'',
      required ''type'',
      required ''url'',
      items ''headers'' HttpHeader_codec,
      listed ''headers'' (go_slice HttpHeader_codec),
      typed ''name'' go_string,
      typed ''type'' go_string,
      typed ''url'' go_string,
      tagged ''type'' ''sse'']
     McpServerSseInline_codec"
  unfolding McpServerSseInline_codec_def McpServerSseInline_UnmarshalJSON_def
  by (rule unmarshal_obj) (simp_all add: McpServerSseInline_fields_def McpServerSseInline_zero_def
        max_depth_def)

lemma McpServerSseInline_wire [simp]: "9004 \<le> E \<Longrightarrow> wire E s McpServerSseInline_codec"
  using wire_mono [OF wire_obj [OF McpServerSseInline_obj], of E s] by simp

lemma McpServerSseInline_names: "f_name ` set McpServerSseInline_fields = {''_meta'', ''headers'', ''name'', ''type'', ''url''}"
  by (auto simp: McpServerSseInline_fields_def)

subsection \<open>\<open>EnvVariable\<close>\<close>

record EnvVariable =
  Meta :: "(string \<times> string) list option"
  Name :: "string"
  Value :: "string"

definition EnvVariable_zero :: EnvVariable where
  "EnvVariable_zero = \<lparr>Meta = None, Name = [], Value = []\<rparr>"

definition EnvVariable_fields :: "EnvVariable fld list" where
  "EnvVariable_fields =
     [go_field ''_meta'' True (go_map go_raw) EnvVariable.Meta EnvVariable.Meta_update,
      go_field ''name'' False go_string EnvVariable.Name EnvVariable.Name_update,
      go_field ''value'' False go_string EnvVariable.Value EnvVariable.Value_update]"

definition EnvVariable_UnmarshalJSON :: "raw_json \<Rightarrow> EnvVariable decoded" where
  "EnvVariable_UnmarshalJSON =
     decode_struct
       [required ''name'',
        required ''value'']
       (go_struct EnvVariable_zero EnvVariable_fields)
       (in_turn [])"

definition EnvVariable_codec :: "EnvVariable codec" where
  "EnvVariable_codec = with_unmarshal EnvVariable_UnmarshalJSON (go_struct EnvVariable_zero EnvVariable_fields)"

lemma EnvVariable_zero_codec [simp]: "c_zero EnvVariable_codec = EnvVariable_zero"
  by (simp add: EnvVariable_codec_def)

lemma EnvVariable_obj:
  "obj 9001 (map f_name EnvVariable_fields)
     [required ''name'',
      required ''value'']
     EnvVariable_codec"
  unfolding EnvVariable_codec_def EnvVariable_UnmarshalJSON_def
  by (rule unmarshal_obj) (simp_all add: EnvVariable_fields_def EnvVariable_zero_def max_depth_def)

lemma EnvVariable_wire [simp]: "9002 \<le> E \<Longrightarrow> wire E s EnvVariable_codec"
  using wire_mono [OF wire_obj [OF EnvVariable_obj], of E s] by simp

subsection \<open>\<open>McpServerStdio\<close>\<close>

record McpServerStdio =
  Meta :: "(string \<times> string) list option"
  Args :: "string list option"
  Command :: "string"
  Env :: "EnvVariable list option"
  Name :: "string"

definition McpServerStdio_zero :: McpServerStdio where
  "McpServerStdio_zero = \<lparr>Meta = None, Args = None, Command = [], Env = None, Name = []\<rparr>"

definition McpServerStdio_fields :: "McpServerStdio fld list" where
  "McpServerStdio_fields =
     [go_field ''_meta'' True (go_map go_raw) McpServerStdio.Meta McpServerStdio.Meta_update,
      go_field ''args'' False (go_list go_string) McpServerStdio.Args McpServerStdio.Args_update,
      go_field ''command'' False go_string McpServerStdio.Command McpServerStdio.Command_update,
      go_field ''env'' False (go_list EnvVariable_codec) McpServerStdio.Env McpServerStdio.Env_update,
      go_field ''name'' False go_string McpServerStdio.Name McpServerStdio.Name_update]"

definition McpServerStdio_UnmarshalJSON :: "raw_json \<Rightarrow> McpServerStdio decoded" where
  "McpServerStdio_UnmarshalJSON =
     decode_struct
       [present ''args'',
        required ''command'',
        present ''env'',
        required ''name'',
        items ''args'' go_string,
        items ''env'' EnvVariable_codec]
       (go_struct McpServerStdio_zero McpServerStdio_fields)
       (in_turn [made McpServerStdio.Args McpServerStdio.Args_update,
         made McpServerStdio.Env McpServerStdio.Env_update])"

definition McpServerStdio_codec :: "McpServerStdio codec" where
  "McpServerStdio_codec = with_unmarshal McpServerStdio_UnmarshalJSON (go_struct McpServerStdio_zero
      McpServerStdio_fields)"

lemma McpServerStdio_zero_codec [simp]: "c_zero McpServerStdio_codec = McpServerStdio_zero"
  by (simp add: McpServerStdio_codec_def)

lemma McpServerStdio_obj:
  "obj 9003 (map f_name McpServerStdio_fields)
     [present ''args'',
      required ''command'',
      present ''env'',
      required ''name'',
      items ''args'' go_string,
      items ''env'' EnvVariable_codec,
      listed ''args'' (go_slice go_string),
      typed ''command'' go_string,
      listed ''env'' (go_slice EnvVariable_codec),
      typed ''name'' go_string]
     McpServerStdio_codec"
  unfolding McpServerStdio_codec_def McpServerStdio_UnmarshalJSON_def
  by (rule unmarshal_obj) (simp_all add: McpServerStdio_fields_def McpServerStdio_zero_def max_depth_def)

lemma McpServerStdio_wire [simp]: "9004 \<le> E \<Longrightarrow> wire E s McpServerStdio_codec"
  using wire_mono [OF wire_obj [OF McpServerStdio_obj], of E s] by simp

lemma McpServerStdio_names: "f_name ` set McpServerStdio_fields = {''_meta'', ''args'', ''command'', ''env'', ''name''}"
  by (auto simp: McpServerStdio_fields_def)

subsection \<open>\<open>McpServer\<close>\<close>

record McpServer =
  Http :: "McpServerHttpInline option"
  Sse :: "McpServerSseInline option"
  Stdio :: "McpServerStdio option"

definition McpServer_zero :: McpServer where
  "McpServer_zero = \<lparr>Http = None, Sse = None, Stdio = None\<rparr>"

definition McpServer_as_Http :: "McpServer variant" where
  "McpServer_as_Http =
     go_variant (Some ''http'')
       [listed ''headers'' (go_slice HttpHeader_codec),
        typed ''name'' go_string,
        typed ''type'' go_string,
        typed ''url'' go_string]
       McpServerHttpInline_codec McpServer.Http (\<lambda>x. McpServer_zero\<lparr>McpServer.Http := Some
         x\<rparr>)"

definition McpServer_as_Sse :: "McpServer variant" where
  "McpServer_as_Sse =
     go_variant (Some ''sse'')
       [listed ''headers'' (go_slice HttpHeader_codec),
        typed ''name'' go_string,
        typed ''type'' go_string,
        typed ''url'' go_string]
       McpServerSseInline_codec McpServer.Sse (\<lambda>x. McpServer_zero\<lparr>McpServer.Sse := Some
         x\<rparr>)"

definition McpServer_as_Stdio :: "McpServer variant" where
  "McpServer_as_Stdio =
     go_variant None
       [listed ''args'' (go_slice go_string),
        typed ''command'' go_string,
        listed ''env'' (go_slice EnvVariable_codec),
        typed ''name'' go_string]
       McpServerStdio_codec McpServer.Stdio (\<lambda>x. McpServer_zero\<lparr>McpServer.Stdio := Some
         x\<rparr>)"

definition McpServer_variants :: "McpServer variant list" where
  "McpServer_variants =
     [McpServer_as_Http,
      McpServer_as_Sse,
      McpServer_as_Stdio]"

definition McpServer_UnmarshalJSON :: "raw_json \<Rightarrow> McpServer decoded" where
  "McpServer_UnmarshalJSON = unmarshal_union ''type'' McpServer_variants"

definition McpServer_MarshalJSON :: "McpServer \<Rightarrow> string option" where
  "McpServer_MarshalJSON = marshal_union ''type'' McpServer_variants"

definition McpServer_codec :: "McpServer codec" where
  "McpServer_codec = go_union McpServer_zero McpServer_UnmarshalJSON McpServer_MarshalJSON McpServer_variants"

definition McpServer_Validate :: "McpServer \<Rightarrow> invalid option" where
  "McpServer_Validate = validate_union False ''McpServer'' McpServer_codec McpServer_variants"

definition McpServer_named :: "(string list \<times> McpServer variant) list" where
  "McpServer_named =
     [(map f_name McpServerHttpInline_fields, McpServer_as_Http),
      (map f_name McpServerSseInline_fields, McpServer_as_Sse),
      (map f_name McpServerStdio_fields, McpServer_as_Stdio)]"

lemma McpServer_Http_law:
  "variant_law 9003 ''type'' (map f_name McpServerHttpInline_fields) McpServer_as_Http"
  unfolding McpServer_as_Http_def
  by (rule go_variant_law [OF obj_mono [OF McpServerHttpInline_obj]]) (simp_all)

lemma McpServer_Sse_law:
  "variant_law 9003 ''type'' (map f_name McpServerSseInline_fields) McpServer_as_Sse"
  unfolding McpServer_as_Sse_def
  by (rule go_variant_law [OF obj_mono [OF McpServerSseInline_obj]]) (simp_all)

lemma McpServer_Stdio_law:
  "variant_law 9003 ''type'' (map f_name McpServerStdio_fields) McpServer_as_Stdio"
  unfolding McpServer_as_Stdio_def
  by (rule go_variant_law [OF obj_mono [OF McpServerStdio_obj]]) (simp_all add: McpServerStdio_names)

lemma McpServer_law: "union_law 9003 ''type'' McpServer_named"
proof (rule union_lawI)
  show "list_all (\<lambda>(n, v). variant_law 9003 ''type'' n v) McpServer_named"
    by (simp add: McpServer_named_def McpServer_Http_law McpServer_Sse_law McpServer_Stdio_law)
  show "list_all (\<lambda>(n, v). v_disc v \<noteq> Some []) McpServer_named"
    by (simp add: McpServer_named_def McpServer_as_Http_def McpServer_as_Sse_def McpServer_as_Stdio_def)
  show "sorted_wrt rivals McpServer_named"
    by (simp add: McpServer_named_def McpServer_zero_def McpServer_as_Http_def McpServer_as_Sse_def
      McpServer_as_Stdio_def McpServerHttpInline_names McpServerSseInline_names McpServerStdio_names)
qed

lemma McpServer_wire [simp]: "9004 \<le> E \<Longrightarrow> wire E s McpServer_codec"
  using wire_mono [OF wire_union [OF McpServer_law, where zero = McpServer_zero], where e = E and s' = s]
  by (simp add: McpServer_codec_def McpServer_UnmarshalJSON_def McpServer_MarshalJSON_def McpServer_variants_def
    McpServer_named_def max_depth_def)

lemma McpServer_zero_codec [simp]: "c_zero McpServer_codec = McpServer_zero"
  by (simp add: McpServer_codec_def)

lemma McpServer_one: "list_all (\<lambda>v. builds v (\<lambda>u. variants_set McpServer_variants u = 1)) McpServer_variants"
  by (simp add: McpServer_variants_def McpServer_zero_def McpServer_as_Http_def McpServer_as_Sse_def
      McpServer_as_Stdio_def)

interpretation mcpserver_wire: wire_type McpServer_codec 9004
  by unfold_locales (simp_all add: max_depth_def)

lemma McpServer_valid: "c_fine McpServer_codec u \<Longrightarrow> McpServer_Validate u = None"
  unfolding McpServer_Validate_def validate_union_def
  by (rule mcpserver_wire.validated) (simp_all add: McpServer_codec_def union_fine_one [OF McpServer_one])

subsection \<open>\<open>McpServerHttp\<close>\<close>

record McpServerHttp =
  Meta :: "(string \<times> string) list option"
  Headers :: "HttpHeader list option"
  Name :: "string"
  Url :: "string"

definition McpServerHttp_zero :: McpServerHttp where
  "McpServerHttp_zero = \<lparr>Meta = None, Headers = None, Name = [], Url = []\<rparr>"

definition McpServerHttp_fields :: "McpServerHttp fld list" where
  "McpServerHttp_fields =
     [go_field ''_meta'' True (go_map go_raw) McpServerHttp.Meta McpServerHttp.Meta_update,
      go_field ''headers'' False (go_list HttpHeader_codec) McpServerHttp.Headers McpServerHttp.Headers_update,
      go_field ''name'' False go_string McpServerHttp.Name McpServerHttp.Name_update,
      go_field ''url'' False go_string McpServerHttp.Url McpServerHttp.Url_update]"

definition McpServerHttp_UnmarshalJSON :: "raw_json \<Rightarrow> McpServerHttp decoded" where
  "McpServerHttp_UnmarshalJSON =
     decode_struct
       [present ''headers'',
        required ''name'',
        required ''url'',
        items ''headers'' HttpHeader_codec]
       (go_struct McpServerHttp_zero McpServerHttp_fields)
       (in_turn [made McpServerHttp.Headers McpServerHttp.Headers_update])"

definition McpServerHttp_codec :: "McpServerHttp codec" where
  "McpServerHttp_codec = with_unmarshal McpServerHttp_UnmarshalJSON (go_struct McpServerHttp_zero
      McpServerHttp_fields)"

lemma McpServerHttp_zero_codec [simp]: "c_zero McpServerHttp_codec = McpServerHttp_zero"
  by (simp add: McpServerHttp_codec_def)

lemma McpServerHttp_obj:
  "obj 9003 (map f_name McpServerHttp_fields)
     [present ''headers'',
      required ''name'',
      required ''url'',
      items ''headers'' HttpHeader_codec]
     McpServerHttp_codec"
  unfolding McpServerHttp_codec_def McpServerHttp_UnmarshalJSON_def
  by (rule unmarshal_obj) (simp_all add: McpServerHttp_fields_def McpServerHttp_zero_def max_depth_def)

lemma McpServerHttp_wire [simp]: "9004 \<le> E \<Longrightarrow> wire E s McpServerHttp_codec"
  using wire_mono [OF wire_obj [OF McpServerHttp_obj], of E s] by simp

subsection \<open>\<open>McpServerSse\<close>\<close>

record McpServerSse =
  Meta :: "(string \<times> string) list option"
  Headers :: "HttpHeader list option"
  Name :: "string"
  Url :: "string"

definition McpServerSse_zero :: McpServerSse where
  "McpServerSse_zero = \<lparr>Meta = None, Headers = None, Name = [], Url = []\<rparr>"

definition McpServerSse_fields :: "McpServerSse fld list" where
  "McpServerSse_fields =
     [go_field ''_meta'' True (go_map go_raw) McpServerSse.Meta McpServerSse.Meta_update,
      go_field ''headers'' False (go_list HttpHeader_codec) McpServerSse.Headers McpServerSse.Headers_update,
      go_field ''name'' False go_string McpServerSse.Name McpServerSse.Name_update,
      go_field ''url'' False go_string McpServerSse.Url McpServerSse.Url_update]"

definition McpServerSse_UnmarshalJSON :: "raw_json \<Rightarrow> McpServerSse decoded" where
  "McpServerSse_UnmarshalJSON =
     decode_struct
       [present ''headers'',
        required ''name'',
        required ''url'',
        items ''headers'' HttpHeader_codec]
       (go_struct McpServerSse_zero McpServerSse_fields)
       (in_turn [made McpServerSse.Headers McpServerSse.Headers_update])"

definition McpServerSse_codec :: "McpServerSse codec" where
  "McpServerSse_codec = with_unmarshal McpServerSse_UnmarshalJSON (go_struct McpServerSse_zero
      McpServerSse_fields)"

lemma McpServerSse_zero_codec [simp]: "c_zero McpServerSse_codec = McpServerSse_zero"
  by (simp add: McpServerSse_codec_def)

lemma McpServerSse_obj:
  "obj 9003 (map f_name McpServerSse_fields)
     [present ''headers'',
      required ''name'',
      required ''url'',
      items ''headers'' HttpHeader_codec]
     McpServerSse_codec"
  unfolding McpServerSse_codec_def McpServerSse_UnmarshalJSON_def
  by (rule unmarshal_obj) (simp_all add: McpServerSse_fields_def McpServerSse_zero_def max_depth_def)

lemma McpServerSse_wire [simp]: "9004 \<le> E \<Longrightarrow> wire E s McpServerSse_codec"
  using wire_mono [OF wire_obj [OF McpServerSse_obj], of E s] by simp

section \<open>Opening a session\<close>

subsection \<open>\<open>NewSessionRequest\<close>\<close>

record NewSessionRequest =
  Meta :: "(string \<times> string) list option"
  AdditionalDirectories :: "string list option"
  Cwd :: "string"
  McpServers :: "McpServer list option"

definition NewSessionRequest_zero :: NewSessionRequest where
  "NewSessionRequest_zero = \<lparr>Meta = None, AdditionalDirectories = None, Cwd = [], McpServers =
      None\<rparr>"

definition NewSessionRequest_fields :: "NewSessionRequest fld list" where
  "NewSessionRequest_fields =
     [go_field ''_meta'' True (go_map go_raw) NewSessionRequest.Meta NewSessionRequest.Meta_update,
      go_field ''additionalDirectories'' True (go_slice go_string) NewSessionRequest.AdditionalDirectories
          NewSessionRequest.AdditionalDirectories_update,
      go_field ''cwd'' False go_string NewSessionRequest.Cwd NewSessionRequest.Cwd_update,
      go_field ''mcpServers'' False (go_list McpServer_codec) NewSessionRequest.McpServers
          NewSessionRequest.McpServers_update]"

definition NewSessionRequest_UnmarshalJSON :: "raw_json \<Rightarrow> NewSessionRequest decoded" where
  "NewSessionRequest_UnmarshalJSON =
     decode_struct
       [required ''cwd'',
        present ''mcpServers'',
        items ''mcpServers'' McpServer_codec,
        items ''additionalDirectories'' go_string]
       (go_struct NewSessionRequest_zero NewSessionRequest_fields)
       (in_turn [made NewSessionRequest.McpServers NewSessionRequest.McpServers_update])"

definition NewSessionRequest_codec :: "NewSessionRequest codec" where
  "NewSessionRequest_codec = with_unmarshal NewSessionRequest_UnmarshalJSON (go_struct NewSessionRequest_zero
      NewSessionRequest_fields)"

definition NewSessionRequest_Validate :: "NewSessionRequest \<Rightarrow> invalid option" where
  "NewSessionRequest_Validate v =
     (case validate_items ''mcpServers'' McpServer_Validate 0 (case NewSessionRequest.McpServers v of None \<Rightarrow> [] | Some xs \<Rightarrow> xs) of
       Some e \<Rightarrow> Some e
     | None \<Rightarrow> None)"

lemma NewSessionRequest_zero_codec [simp]: "c_zero NewSessionRequest_codec = NewSessionRequest_zero"
  by (simp add: NewSessionRequest_codec_def)

lemma NewSessionRequest_obj:
  "obj 9005 (map f_name NewSessionRequest_fields)
     [required ''cwd'',
      present ''mcpServers'',
      items ''mcpServers'' McpServer_codec,
      items ''additionalDirectories'' go_string]
     NewSessionRequest_codec"
  unfolding NewSessionRequest_codec_def NewSessionRequest_UnmarshalJSON_def
  by (rule unmarshal_obj) (simp_all add: NewSessionRequest_fields_def NewSessionRequest_zero_def max_depth_def)

lemma NewSessionRequest_wire [simp]: "9006 \<le> E \<Longrightarrow> wire E s NewSessionRequest_codec"
  using wire_mono [OF wire_obj [OF NewSessionRequest_obj], of E s] by simp

interpretation newsessionrequest_wire: wire_type NewSessionRequest_codec 9006
  by unfold_locales (simp_all add: max_depth_def)

subsection \<open>\<open>NewSessionResponse\<close>\<close>

record NewSessionResponse =
  Meta :: "(string \<times> string) list option"
  ConfigOptions :: "SessionConfigOption list option"
  Modes :: "SessionModeState option"
  SessionId :: "string"

definition NewSessionResponse_zero :: NewSessionResponse where
  "NewSessionResponse_zero = \<lparr>Meta = None, ConfigOptions = None, Modes = None, SessionId = []\<rparr>"

definition NewSessionResponse_fields :: "NewSessionResponse fld list" where
  "NewSessionResponse_fields =
     [go_field ''_meta'' True (go_map go_raw) NewSessionResponse.Meta NewSessionResponse.Meta_update,
      go_field ''configOptions'' True (go_slice SessionConfigOption_codec) NewSessionResponse.ConfigOptions
          NewSessionResponse.ConfigOptions_update,
      go_field ''modes'' True (go_ptr SessionModeState_codec) NewSessionResponse.Modes
          NewSessionResponse.Modes_update,
      go_field ''sessionId'' False go_string NewSessionResponse.SessionId NewSessionResponse.SessionId_update]"

definition NewSessionResponse_UnmarshalJSON :: "raw_json \<Rightarrow> NewSessionResponse decoded" where
  "NewSessionResponse_UnmarshalJSON =
     decode_struct
       [required ''sessionId'']
       (go_struct NewSessionResponse_zero NewSessionResponse_fields)
       (in_turn [])"

definition NewSessionResponse_codec :: "NewSessionResponse codec" where
  "NewSessionResponse_codec = with_unmarshal NewSessionResponse_UnmarshalJSON (go_struct NewSessionResponse_zero
      NewSessionResponse_fields)"

definition NewSessionResponse_Validate :: "NewSessionResponse \<Rightarrow> invalid option" where
  "NewSessionResponse_Validate v =
     None"

lemma NewSessionResponse_zero_codec [simp]: "c_zero NewSessionResponse_codec = NewSessionResponse_zero"
  by (simp add: NewSessionResponse_codec_def)

lemma NewSessionResponse_obj:
  "obj 9007 (map f_name NewSessionResponse_fields)
     [required ''sessionId'']
     NewSessionResponse_codec"
  unfolding NewSessionResponse_codec_def NewSessionResponse_UnmarshalJSON_def
  by (rule unmarshal_obj) (simp_all add: NewSessionResponse_fields_def NewSessionResponse_zero_def
        max_depth_def)

lemma NewSessionResponse_wire [simp]: "9008 \<le> E \<Longrightarrow> wire E s NewSessionResponse_codec"
  using wire_mono [OF wire_obj [OF NewSessionResponse_obj], of E s] by simp

interpretation newsessionresponse_wire: wire_type NewSessionResponse_codec 9008
  by unfold_locales (simp_all add: max_depth_def)

subsection \<open>\<open>LoadSessionRequest\<close>\<close>

record LoadSessionRequest =
  Meta :: "(string \<times> string) list option"
  AdditionalDirectories :: "string list option"
  Cwd :: "string"
  McpServers :: "McpServer list option"
  SessionId :: "string"

definition LoadSessionRequest_zero :: LoadSessionRequest where
  "LoadSessionRequest_zero = \<lparr>Meta = None, AdditionalDirectories = None, Cwd = [], McpServers = None,
      SessionId = []\<rparr>"

definition LoadSessionRequest_fields :: "LoadSessionRequest fld list" where
  "LoadSessionRequest_fields =
     [go_field ''_meta'' True (go_map go_raw) LoadSessionRequest.Meta LoadSessionRequest.Meta_update,
      go_field ''additionalDirectories'' True (go_slice go_string) LoadSessionRequest.AdditionalDirectories
          LoadSessionRequest.AdditionalDirectories_update,
      go_field ''cwd'' False go_string LoadSessionRequest.Cwd LoadSessionRequest.Cwd_update,
      go_field ''mcpServers'' False (go_list McpServer_codec) LoadSessionRequest.McpServers
          LoadSessionRequest.McpServers_update,
      go_field ''sessionId'' False go_string LoadSessionRequest.SessionId LoadSessionRequest.SessionId_update]"

definition LoadSessionRequest_UnmarshalJSON :: "raw_json \<Rightarrow> LoadSessionRequest decoded" where
  "LoadSessionRequest_UnmarshalJSON =
     decode_struct
       [required ''cwd'',
        present ''mcpServers'',
        required ''sessionId'',
        items ''mcpServers'' McpServer_codec,
        items ''additionalDirectories'' go_string]
       (go_struct LoadSessionRequest_zero LoadSessionRequest_fields)
       (in_turn [made LoadSessionRequest.McpServers LoadSessionRequest.McpServers_update])"

definition LoadSessionRequest_codec :: "LoadSessionRequest codec" where
  "LoadSessionRequest_codec = with_unmarshal LoadSessionRequest_UnmarshalJSON (go_struct LoadSessionRequest_zero
      LoadSessionRequest_fields)"

definition LoadSessionRequest_Validate :: "LoadSessionRequest \<Rightarrow> invalid option" where
  "LoadSessionRequest_Validate v =
     (case validate_items ''mcpServers'' McpServer_Validate 0 (case LoadSessionRequest.McpServers v of None \<Rightarrow> [] | Some xs \<Rightarrow> xs) of
       Some e \<Rightarrow> Some e
     | None \<Rightarrow> None)"

lemma LoadSessionRequest_zero_codec [simp]: "c_zero LoadSessionRequest_codec = LoadSessionRequest_zero"
  by (simp add: LoadSessionRequest_codec_def)

lemma LoadSessionRequest_obj:
  "obj 9005 (map f_name LoadSessionRequest_fields)
     [required ''cwd'',
      present ''mcpServers'',
      required ''sessionId'',
      items ''mcpServers'' McpServer_codec,
      items ''additionalDirectories'' go_string]
     LoadSessionRequest_codec"
  unfolding LoadSessionRequest_codec_def LoadSessionRequest_UnmarshalJSON_def
  by (rule unmarshal_obj) (simp_all add: LoadSessionRequest_fields_def LoadSessionRequest_zero_def
        max_depth_def)

lemma LoadSessionRequest_wire [simp]: "9006 \<le> E \<Longrightarrow> wire E s LoadSessionRequest_codec"
  using wire_mono [OF wire_obj [OF LoadSessionRequest_obj], of E s] by simp

interpretation loadsessionrequest_wire: wire_type LoadSessionRequest_codec 9006
  by unfold_locales (simp_all add: max_depth_def)

subsection \<open>\<open>LoadSessionResponse\<close>\<close>

record LoadSessionResponse =
  Meta :: "(string \<times> string) list option"
  ConfigOptions :: "SessionConfigOption list option"
  Modes :: "SessionModeState option"

definition LoadSessionResponse_zero :: LoadSessionResponse where
  "LoadSessionResponse_zero = \<lparr>Meta = None, ConfigOptions = None, Modes = None\<rparr>"

definition LoadSessionResponse_fields :: "LoadSessionResponse fld list" where
  "LoadSessionResponse_fields =
     [go_field ''_meta'' True (go_map go_raw) LoadSessionResponse.Meta LoadSessionResponse.Meta_update,
      go_field ''configOptions'' True (go_slice SessionConfigOption_codec) LoadSessionResponse.ConfigOptions
          LoadSessionResponse.ConfigOptions_update,
      go_field ''modes'' True (go_ptr SessionModeState_codec) LoadSessionResponse.Modes
          LoadSessionResponse.Modes_update]"

definition LoadSessionResponse_codec :: "LoadSessionResponse codec" where
  "LoadSessionResponse_codec = go_struct LoadSessionResponse_zero LoadSessionResponse_fields"

definition LoadSessionResponse_Validate :: "LoadSessionResponse \<Rightarrow> invalid option" where
  "LoadSessionResponse_Validate v =
     None"

lemma LoadSessionResponse_zero_codec [simp]: "c_zero LoadSessionResponse_codec = LoadSessionResponse_zero"
  by (simp add: LoadSessionResponse_codec_def)

lemma LoadSessionResponse_obj:
  "obj 9007 (map f_name LoadSessionResponse_fields) [] LoadSessionResponse_codec"
  unfolding LoadSessionResponse_codec_def
  by (rule struct_obj) (simp_all add: LoadSessionResponse_fields_def LoadSessionResponse_zero_def max_depth_def)

lemma LoadSessionResponse_wire [simp]: "9008 \<le> E \<Longrightarrow> wire E s LoadSessionResponse_codec"
  using wire_mono [OF wire_obj [OF LoadSessionResponse_obj], of E s] by simp

subsection \<open>\<open>ResumeSessionRequest\<close>\<close>

record ResumeSessionRequest =
  Meta :: "(string \<times> string) list option"
  AdditionalDirectories :: "string list option"
  Cwd :: "string"
  McpServers :: "McpServer list option"
  SessionId :: "string"

definition ResumeSessionRequest_zero :: ResumeSessionRequest where
  "ResumeSessionRequest_zero = \<lparr>Meta = None, AdditionalDirectories = None, Cwd = [], McpServers = None,
      SessionId = []\<rparr>"

definition ResumeSessionRequest_fields :: "ResumeSessionRequest fld list" where
  "ResumeSessionRequest_fields =
     [go_field ''_meta'' True (go_map go_raw) ResumeSessionRequest.Meta ResumeSessionRequest.Meta_update,
      go_field ''additionalDirectories'' True (go_slice go_string) ResumeSessionRequest.AdditionalDirectories
          ResumeSessionRequest.AdditionalDirectories_update,
      go_field ''cwd'' False go_string ResumeSessionRequest.Cwd ResumeSessionRequest.Cwd_update,
      go_field ''mcpServers'' True (go_slice McpServer_codec) ResumeSessionRequest.McpServers
          ResumeSessionRequest.McpServers_update,
      go_field ''sessionId'' False go_string ResumeSessionRequest.SessionId
          ResumeSessionRequest.SessionId_update]"

definition ResumeSessionRequest_UnmarshalJSON :: "raw_json \<Rightarrow> ResumeSessionRequest decoded" where
  "ResumeSessionRequest_UnmarshalJSON =
     decode_struct
       [required ''cwd'',
        required ''sessionId'',
        items ''mcpServers'' McpServer_codec,
        items ''additionalDirectories'' go_string]
       (go_struct ResumeSessionRequest_zero ResumeSessionRequest_fields)
       (in_turn [])"

definition ResumeSessionRequest_codec :: "ResumeSessionRequest codec" where
  "ResumeSessionRequest_codec = with_unmarshal ResumeSessionRequest_UnmarshalJSON (go_struct
      ResumeSessionRequest_zero ResumeSessionRequest_fields)"

definition ResumeSessionRequest_Validate :: "ResumeSessionRequest \<Rightarrow> invalid option" where
  "ResumeSessionRequest_Validate v =
     None"

lemma ResumeSessionRequest_zero_codec [simp]: "c_zero ResumeSessionRequest_codec = ResumeSessionRequest_zero"
  by (simp add: ResumeSessionRequest_codec_def)

lemma ResumeSessionRequest_obj:
  "obj 9005 (map f_name ResumeSessionRequest_fields)
     [required ''cwd'',
      required ''sessionId'',
      items ''mcpServers'' McpServer_codec,
      items ''additionalDirectories'' go_string]
     ResumeSessionRequest_codec"
  unfolding ResumeSessionRequest_codec_def ResumeSessionRequest_UnmarshalJSON_def
  by (rule unmarshal_obj) (simp_all add: ResumeSessionRequest_fields_def ResumeSessionRequest_zero_def
        max_depth_def)

lemma ResumeSessionRequest_wire [simp]: "9006 \<le> E \<Longrightarrow> wire E s ResumeSessionRequest_codec"
  using wire_mono [OF wire_obj [OF ResumeSessionRequest_obj], of E s] by simp

subsection \<open>\<open>ResumeSessionResponse\<close>\<close>

record ResumeSessionResponse =
  Meta :: "(string \<times> string) list option"
  ConfigOptions :: "SessionConfigOption list option"
  Modes :: "SessionModeState option"

definition ResumeSessionResponse_zero :: ResumeSessionResponse where
  "ResumeSessionResponse_zero = \<lparr>Meta = None, ConfigOptions = None, Modes = None\<rparr>"

definition ResumeSessionResponse_fields :: "ResumeSessionResponse fld list" where
  "ResumeSessionResponse_fields =
     [go_field ''_meta'' True (go_map go_raw) ResumeSessionResponse.Meta ResumeSessionResponse.Meta_update,
      go_field ''configOptions'' True (go_slice SessionConfigOption_codec) ResumeSessionResponse.ConfigOptions
          ResumeSessionResponse.ConfigOptions_update,
      go_field ''modes'' True (go_ptr SessionModeState_codec) ResumeSessionResponse.Modes
          ResumeSessionResponse.Modes_update]"

definition ResumeSessionResponse_codec :: "ResumeSessionResponse codec" where
  "ResumeSessionResponse_codec = go_struct ResumeSessionResponse_zero ResumeSessionResponse_fields"

definition ResumeSessionResponse_Validate :: "ResumeSessionResponse \<Rightarrow> invalid option" where
  "ResumeSessionResponse_Validate v =
     None"

lemma ResumeSessionResponse_zero_codec [simp]: "c_zero ResumeSessionResponse_codec = ResumeSessionResponse_zero"
  by (simp add: ResumeSessionResponse_codec_def)

lemma ResumeSessionResponse_obj:
  "obj 9007 (map f_name ResumeSessionResponse_fields) [] ResumeSessionResponse_codec"
  unfolding ResumeSessionResponse_codec_def
  by (rule struct_obj) (simp_all add: ResumeSessionResponse_fields_def ResumeSessionResponse_zero_def
        max_depth_def)

lemma ResumeSessionResponse_wire [simp]: "9008 \<le> E \<Longrightarrow> wire E s ResumeSessionResponse_codec"
  using wire_mono [OF wire_obj [OF ResumeSessionResponse_obj], of E s] by simp

section \<open>Listing and closing\<close>

subsection \<open>\<open>ListSessionsRequest\<close>\<close>

record ListSessionsRequest =
  Meta :: "(string \<times> string) list option"
  Cursor :: "string option"
  Cwd :: "string option"

definition ListSessionsRequest_zero :: ListSessionsRequest where
  "ListSessionsRequest_zero = \<lparr>Meta = None, Cursor = None, Cwd = None\<rparr>"

definition ListSessionsRequest_fields :: "ListSessionsRequest fld list" where
  "ListSessionsRequest_fields =
     [go_field ''_meta'' True (go_map go_raw) ListSessionsRequest.Meta ListSessionsRequest.Meta_update,
      go_field ''cursor'' True (go_ptr go_string) ListSessionsRequest.Cursor ListSessionsRequest.Cursor_update,
      go_field ''cwd'' True (go_ptr go_string) ListSessionsRequest.Cwd ListSessionsRequest.Cwd_update]"

definition ListSessionsRequest_codec :: "ListSessionsRequest codec" where
  "ListSessionsRequest_codec = go_struct ListSessionsRequest_zero ListSessionsRequest_fields"

definition ListSessionsRequest_Validate :: "ListSessionsRequest \<Rightarrow> invalid option" where
  "ListSessionsRequest_Validate v =
     None"

lemma ListSessionsRequest_zero_codec [simp]: "c_zero ListSessionsRequest_codec = ListSessionsRequest_zero"
  by (simp add: ListSessionsRequest_codec_def)

lemma ListSessionsRequest_obj:
  "obj 9001 (map f_name ListSessionsRequest_fields) [] ListSessionsRequest_codec"
  unfolding ListSessionsRequest_codec_def
  by (rule struct_obj) (simp_all add: ListSessionsRequest_fields_def ListSessionsRequest_zero_def max_depth_def)

lemma ListSessionsRequest_wire [simp]: "9002 \<le> E \<Longrightarrow> wire E s ListSessionsRequest_codec"
  using wire_mono [OF wire_obj [OF ListSessionsRequest_obj], of E s] by simp

subsection \<open>\<open>SessionInfo\<close>\<close>

record SessionInfo =
  Meta :: "(string \<times> string) list option"
  AdditionalDirectories :: "string list option"
  Cwd :: "string"
  SessionId :: "string"
  Title :: "string option"
  UpdatedAt :: "string option"

definition SessionInfo_zero :: SessionInfo where
  "SessionInfo_zero = \<lparr>Meta = None, AdditionalDirectories = None, Cwd = [], SessionId = [], Title = None,
      UpdatedAt = None\<rparr>"

definition SessionInfo_fields :: "SessionInfo fld list" where
  "SessionInfo_fields =
     [go_field ''_meta'' True (go_map go_raw) SessionInfo.Meta SessionInfo.Meta_update,
      go_field ''additionalDirectories'' True (go_slice go_string) SessionInfo.AdditionalDirectories
          SessionInfo.AdditionalDirectories_update,
      go_field ''cwd'' False go_string SessionInfo.Cwd SessionInfo.Cwd_update,
      go_field ''sessionId'' False go_string SessionInfo.SessionId SessionInfo.SessionId_update,
      go_field ''title'' True (go_ptr go_string) SessionInfo.Title SessionInfo.Title_update,
      go_field ''updatedAt'' True (go_ptr go_string) SessionInfo.UpdatedAt SessionInfo.UpdatedAt_update]"

definition SessionInfo_UnmarshalJSON :: "raw_json \<Rightarrow> SessionInfo decoded" where
  "SessionInfo_UnmarshalJSON =
     decode_struct
       [required ''cwd'',
        required ''sessionId'']
       (go_struct SessionInfo_zero SessionInfo_fields)
       (in_turn [])"

definition SessionInfo_codec :: "SessionInfo codec" where
  "SessionInfo_codec = with_unmarshal SessionInfo_UnmarshalJSON (go_struct SessionInfo_zero SessionInfo_fields)"

lemma SessionInfo_zero_codec [simp]: "c_zero SessionInfo_codec = SessionInfo_zero"
  by (simp add: SessionInfo_codec_def)

lemma SessionInfo_obj:
  "obj 9001 (map f_name SessionInfo_fields)
     [required ''cwd'',
      required ''sessionId'']
     SessionInfo_codec"
  unfolding SessionInfo_codec_def SessionInfo_UnmarshalJSON_def
  by (rule unmarshal_obj) (simp_all add: SessionInfo_fields_def SessionInfo_zero_def max_depth_def)

lemma SessionInfo_wire [simp]: "9002 \<le> E \<Longrightarrow> wire E s SessionInfo_codec"
  using wire_mono [OF wire_obj [OF SessionInfo_obj], of E s] by simp

subsection \<open>\<open>ListSessionsResponse\<close>\<close>

record ListSessionsResponse =
  Meta :: "(string \<times> string) list option"
  NextCursor :: "string option"
  Sessions :: "SessionInfo list option"

definition ListSessionsResponse_zero :: ListSessionsResponse where
  "ListSessionsResponse_zero = \<lparr>Meta = None, NextCursor = None, Sessions = None\<rparr>"

definition ListSessionsResponse_fields :: "ListSessionsResponse fld list" where
  "ListSessionsResponse_fields =
     [go_field ''_meta'' True (go_map go_raw) ListSessionsResponse.Meta ListSessionsResponse.Meta_update,
      go_field ''nextCursor'' True (go_ptr go_string) ListSessionsResponse.NextCursor
          ListSessionsResponse.NextCursor_update,
      go_field ''sessions'' False (go_list SessionInfo_codec) ListSessionsResponse.Sessions
          ListSessionsResponse.Sessions_update]"

definition ListSessionsResponse_UnmarshalJSON :: "raw_json \<Rightarrow> ListSessionsResponse decoded" where
  "ListSessionsResponse_UnmarshalJSON =
     decode_struct
       [required ''sessions'']
       (go_struct ListSessionsResponse_zero ListSessionsResponse_fields)
       (in_turn [])"

definition ListSessionsResponse_codec :: "ListSessionsResponse codec" where
  "ListSessionsResponse_codec = with_unmarshal ListSessionsResponse_UnmarshalJSON (go_struct
      ListSessionsResponse_zero ListSessionsResponse_fields)"

definition ListSessionsResponse_Validate :: "ListSessionsResponse \<Rightarrow> invalid option" where
  "ListSessionsResponse_Validate v =
     (if ListSessionsResponse.Sessions v = None then Some (Message ''sessions is required'')
      else None)"

lemma ListSessionsResponse_zero_codec [simp]: "c_zero ListSessionsResponse_codec = ListSessionsResponse_zero"
  by (simp add: ListSessionsResponse_codec_def)

lemma ListSessionsResponse_obj:
  "obj 9003 (map f_name ListSessionsResponse_fields)
     [required ''sessions'']
     ListSessionsResponse_codec"
  unfolding ListSessionsResponse_codec_def ListSessionsResponse_UnmarshalJSON_def
  by (rule unmarshal_obj) (simp_all add: ListSessionsResponse_fields_def ListSessionsResponse_zero_def
        max_depth_def)

lemma ListSessionsResponse_wire [simp]: "9004 \<le> E \<Longrightarrow> wire E s ListSessionsResponse_codec"
  using wire_mono [OF wire_obj [OF ListSessionsResponse_obj], of E s] by simp

interpretation listsessionsresponse_wire: wire_type ListSessionsResponse_codec 9004
  by unfold_locales (simp_all add: max_depth_def)

subsection \<open>\<open>CloseSessionRequest\<close>\<close>

record CloseSessionRequest =
  Meta :: "(string \<times> string) list option"
  SessionId :: "string"

definition CloseSessionRequest_zero :: CloseSessionRequest where
  "CloseSessionRequest_zero = \<lparr>Meta = None, SessionId = []\<rparr>"

definition CloseSessionRequest_fields :: "CloseSessionRequest fld list" where
  "CloseSessionRequest_fields =
     [go_field ''_meta'' True (go_map go_raw) CloseSessionRequest.Meta CloseSessionRequest.Meta_update,
      go_field ''sessionId'' False go_string CloseSessionRequest.SessionId CloseSessionRequest.SessionId_update]"

definition CloseSessionRequest_UnmarshalJSON :: "raw_json \<Rightarrow> CloseSessionRequest decoded" where
  "CloseSessionRequest_UnmarshalJSON =
     decode_struct
       [required ''sessionId'']
       (go_struct CloseSessionRequest_zero CloseSessionRequest_fields)
       (in_turn [])"

definition CloseSessionRequest_codec :: "CloseSessionRequest codec" where
  "CloseSessionRequest_codec = with_unmarshal CloseSessionRequest_UnmarshalJSON (go_struct
      CloseSessionRequest_zero CloseSessionRequest_fields)"

definition CloseSessionRequest_Validate :: "CloseSessionRequest \<Rightarrow> invalid option" where
  "CloseSessionRequest_Validate v =
     None"

lemma CloseSessionRequest_zero_codec [simp]: "c_zero CloseSessionRequest_codec = CloseSessionRequest_zero"
  by (simp add: CloseSessionRequest_codec_def)

lemma CloseSessionRequest_obj:
  "obj 9001 (map f_name CloseSessionRequest_fields)
     [required ''sessionId'']
     CloseSessionRequest_codec"
  unfolding CloseSessionRequest_codec_def CloseSessionRequest_UnmarshalJSON_def
  by (rule unmarshal_obj) (simp_all add: CloseSessionRequest_fields_def CloseSessionRequest_zero_def
        max_depth_def)

lemma CloseSessionRequest_wire [simp]: "9002 \<le> E \<Longrightarrow> wire E s CloseSessionRequest_codec"
  using wire_mono [OF wire_obj [OF CloseSessionRequest_obj], of E s] by simp

subsection \<open>\<open>CloseSessionResponse\<close>\<close>

record CloseSessionResponse =
  Meta :: "(string \<times> string) list option"

definition CloseSessionResponse_zero :: CloseSessionResponse where
  "CloseSessionResponse_zero = \<lparr>Meta = None\<rparr>"

definition CloseSessionResponse_fields :: "CloseSessionResponse fld list" where
  "CloseSessionResponse_fields =
     [go_field ''_meta'' True (go_map go_raw) CloseSessionResponse.Meta CloseSessionResponse.Meta_update]"

definition CloseSessionResponse_codec :: "CloseSessionResponse codec" where
  "CloseSessionResponse_codec = go_struct CloseSessionResponse_zero CloseSessionResponse_fields"

definition CloseSessionResponse_Validate :: "CloseSessionResponse \<Rightarrow> invalid option" where
  "CloseSessionResponse_Validate v =
     None"

lemma CloseSessionResponse_zero_codec [simp]: "c_zero CloseSessionResponse_codec = CloseSessionResponse_zero"
  by (simp add: CloseSessionResponse_codec_def)

lemma CloseSessionResponse_obj:
  "obj 9001 (map f_name CloseSessionResponse_fields) [] CloseSessionResponse_codec"
  unfolding CloseSessionResponse_codec_def
  by (rule struct_obj) (simp_all add: CloseSessionResponse_fields_def CloseSessionResponse_zero_def
        max_depth_def)

lemma CloseSessionResponse_wire [simp]: "9002 \<le> E \<Longrightarrow> wire E s CloseSessionResponse_codec"
  using wire_mono [OF wire_obj [OF CloseSessionResponse_obj], of E s] by simp

subsection \<open>\<open>DeleteSessionRequest\<close>\<close>

record DeleteSessionRequest =
  Meta :: "(string \<times> string) list option"
  SessionId :: "string"

definition DeleteSessionRequest_zero :: DeleteSessionRequest where
  "DeleteSessionRequest_zero = \<lparr>Meta = None, SessionId = []\<rparr>"

definition DeleteSessionRequest_fields :: "DeleteSessionRequest fld list" where
  "DeleteSessionRequest_fields =
     [go_field ''_meta'' True (go_map go_raw) DeleteSessionRequest.Meta DeleteSessionRequest.Meta_update,
      go_field ''sessionId'' False go_string DeleteSessionRequest.SessionId
          DeleteSessionRequest.SessionId_update]"

definition DeleteSessionRequest_UnmarshalJSON :: "raw_json \<Rightarrow> DeleteSessionRequest decoded" where
  "DeleteSessionRequest_UnmarshalJSON =
     decode_struct
       [required ''sessionId'']
       (go_struct DeleteSessionRequest_zero DeleteSessionRequest_fields)
       (in_turn [])"

definition DeleteSessionRequest_codec :: "DeleteSessionRequest codec" where
  "DeleteSessionRequest_codec = with_unmarshal DeleteSessionRequest_UnmarshalJSON (go_struct
      DeleteSessionRequest_zero DeleteSessionRequest_fields)"

definition DeleteSessionRequest_Validate :: "DeleteSessionRequest \<Rightarrow> invalid option" where
  "DeleteSessionRequest_Validate v =
     None"

lemma DeleteSessionRequest_zero_codec [simp]: "c_zero DeleteSessionRequest_codec = DeleteSessionRequest_zero"
  by (simp add: DeleteSessionRequest_codec_def)

lemma DeleteSessionRequest_obj:
  "obj 9001 (map f_name DeleteSessionRequest_fields)
     [required ''sessionId'']
     DeleteSessionRequest_codec"
  unfolding DeleteSessionRequest_codec_def DeleteSessionRequest_UnmarshalJSON_def
  by (rule unmarshal_obj) (simp_all add: DeleteSessionRequest_fields_def DeleteSessionRequest_zero_def
        max_depth_def)

lemma DeleteSessionRequest_wire [simp]: "9002 \<le> E \<Longrightarrow> wire E s DeleteSessionRequest_codec"
  using wire_mono [OF wire_obj [OF DeleteSessionRequest_obj], of E s] by simp

subsection \<open>\<open>DeleteSessionResponse\<close>\<close>

record DeleteSessionResponse =
  Meta :: "(string \<times> string) list option"

definition DeleteSessionResponse_zero :: DeleteSessionResponse where
  "DeleteSessionResponse_zero = \<lparr>Meta = None\<rparr>"

definition DeleteSessionResponse_fields :: "DeleteSessionResponse fld list" where
  "DeleteSessionResponse_fields =
     [go_field ''_meta'' True (go_map go_raw) DeleteSessionResponse.Meta DeleteSessionResponse.Meta_update]"

definition DeleteSessionResponse_codec :: "DeleteSessionResponse codec" where
  "DeleteSessionResponse_codec = go_struct DeleteSessionResponse_zero DeleteSessionResponse_fields"

definition DeleteSessionResponse_Validate :: "DeleteSessionResponse \<Rightarrow> invalid option" where
  "DeleteSessionResponse_Validate v =
     None"

lemma DeleteSessionResponse_zero_codec [simp]: "c_zero DeleteSessionResponse_codec = DeleteSessionResponse_zero"
  by (simp add: DeleteSessionResponse_codec_def)

lemma DeleteSessionResponse_obj:
  "obj 9001 (map f_name DeleteSessionResponse_fields) [] DeleteSessionResponse_codec"
  unfolding DeleteSessionResponse_codec_def
  by (rule struct_obj) (simp_all add: DeleteSessionResponse_fields_def DeleteSessionResponse_zero_def
        max_depth_def)

lemma DeleteSessionResponse_wire [simp]: "9002 \<le> E \<Longrightarrow> wire E s DeleteSessionResponse_codec"
  using wire_mono [OF wire_obj [OF DeleteSessionResponse_obj], of E s] by simp

section \<open>Prompts\<close>

subsection \<open>\<open>PromptRequest\<close>\<close>

record PromptRequest =
  Meta :: "(string \<times> string) list option"
  Prompt :: "ContentBlock list option"
  SessionId :: "string"

definition PromptRequest_zero :: PromptRequest where
  "PromptRequest_zero = \<lparr>Meta = None, Prompt = None, SessionId = []\<rparr>"

definition PromptRequest_fields :: "PromptRequest fld list" where
  "PromptRequest_fields =
     [go_field ''_meta'' True (go_map go_raw) PromptRequest.Meta PromptRequest.Meta_update,
      go_field ''prompt'' False (go_list ContentBlock_codec) PromptRequest.Prompt PromptRequest.Prompt_update,
      go_field ''sessionId'' False go_string PromptRequest.SessionId PromptRequest.SessionId_update]"

definition PromptRequest_UnmarshalJSON :: "raw_json \<Rightarrow> PromptRequest decoded" where
  "PromptRequest_UnmarshalJSON =
     decode_struct
       [required ''prompt'',
        required ''sessionId'']
       (go_struct PromptRequest_zero PromptRequest_fields)
       (in_turn [])"

definition PromptRequest_codec :: "PromptRequest codec" where
  "PromptRequest_codec = with_unmarshal PromptRequest_UnmarshalJSON (go_struct PromptRequest_zero
      PromptRequest_fields)"

definition PromptRequest_Validate :: "PromptRequest \<Rightarrow> invalid option" where
  "PromptRequest_Validate v =
     (if PromptRequest.Prompt v = None then Some (Message ''prompt is required'')
      else (case validate_items ''prompt'' ContentBlock_Validate 0 (case PromptRequest.Prompt v of None \<Rightarrow> [] | Some xs \<Rightarrow> xs) of
       Some e \<Rightarrow> Some e
     | None \<Rightarrow> None))"

lemma PromptRequest_zero_codec [simp]: "c_zero PromptRequest_codec = PromptRequest_zero"
  by (simp add: PromptRequest_codec_def)

lemma PromptRequest_obj:
  "obj 9004 (map f_name PromptRequest_fields)
     [required ''prompt'',
      required ''sessionId'']
     PromptRequest_codec"
  unfolding PromptRequest_codec_def PromptRequest_UnmarshalJSON_def
  by (rule unmarshal_obj) (simp_all add: PromptRequest_fields_def PromptRequest_zero_def max_depth_def)

lemma PromptRequest_wire [simp]: "9005 \<le> E \<Longrightarrow> wire E s PromptRequest_codec"
  using wire_mono [OF wire_obj [OF PromptRequest_obj], of E s] by simp

interpretation promptrequest_wire: wire_type PromptRequest_codec 9005
  by unfold_locales (simp_all add: max_depth_def)

subsection \<open>\<open>PromptResponse\<close>\<close>

record PromptResponse =
  Meta :: "(string \<times> string) list option"
  StopReason :: "string"

definition PromptResponse_zero :: PromptResponse where
  "PromptResponse_zero = \<lparr>Meta = None, StopReason = []\<rparr>"

definition PromptResponse_fields :: "PromptResponse fld list" where
  "PromptResponse_fields =
     [go_field ''_meta'' True (go_map go_raw) PromptResponse.Meta PromptResponse.Meta_update,
      go_field ''stopReason'' False go_string PromptResponse.StopReason PromptResponse.StopReason_update]"

definition PromptResponse_UnmarshalJSON :: "raw_json \<Rightarrow> PromptResponse decoded" where
  "PromptResponse_UnmarshalJSON =
     decode_struct
       [required ''stopReason'']
       (go_struct PromptResponse_zero PromptResponse_fields)
       (in_turn [])"

definition PromptResponse_codec :: "PromptResponse codec" where
  "PromptResponse_codec = with_unmarshal PromptResponse_UnmarshalJSON (go_struct PromptResponse_zero
      PromptResponse_fields)"

definition PromptResponse_Validate :: "PromptResponse \<Rightarrow> invalid option" where
  "PromptResponse_Validate v =
     None"

lemma PromptResponse_zero_codec [simp]: "c_zero PromptResponse_codec = PromptResponse_zero"
  by (simp add: PromptResponse_codec_def)

lemma PromptResponse_obj:
  "obj 9001 (map f_name PromptResponse_fields)
     [required ''stopReason'']
     PromptResponse_codec"
  unfolding PromptResponse_codec_def PromptResponse_UnmarshalJSON_def
  by (rule unmarshal_obj) (simp_all add: PromptResponse_fields_def PromptResponse_zero_def max_depth_def)

lemma PromptResponse_wire [simp]: "9002 \<le> E \<Longrightarrow> wire E s PromptResponse_codec"
  using wire_mono [OF wire_obj [OF PromptResponse_obj], of E s] by simp

interpretation promptresponse_wire: wire_type PromptResponse_codec 9002
  by unfold_locales (simp_all add: max_depth_def)

subsection \<open>\<open>CancelNotification\<close>\<close>

record CancelNotification =
  Meta :: "(string \<times> string) list option"
  SessionId :: "string"

definition CancelNotification_zero :: CancelNotification where
  "CancelNotification_zero = \<lparr>Meta = None, SessionId = []\<rparr>"

definition CancelNotification_fields :: "CancelNotification fld list" where
  "CancelNotification_fields =
     [go_field ''_meta'' True (go_map go_raw) CancelNotification.Meta CancelNotification.Meta_update,
      go_field ''sessionId'' False go_string CancelNotification.SessionId CancelNotification.SessionId_update]"

definition CancelNotification_UnmarshalJSON :: "raw_json \<Rightarrow> CancelNotification decoded" where
  "CancelNotification_UnmarshalJSON =
     decode_struct
       [required ''sessionId'']
       (go_struct CancelNotification_zero CancelNotification_fields)
       (in_turn [])"

definition CancelNotification_codec :: "CancelNotification codec" where
  "CancelNotification_codec = with_unmarshal CancelNotification_UnmarshalJSON (go_struct CancelNotification_zero
      CancelNotification_fields)"

definition CancelNotification_Validate :: "CancelNotification \<Rightarrow> invalid option" where
  "CancelNotification_Validate v =
     None"

lemma CancelNotification_zero_codec [simp]: "c_zero CancelNotification_codec = CancelNotification_zero"
  by (simp add: CancelNotification_codec_def)

lemma CancelNotification_obj:
  "obj 9001 (map f_name CancelNotification_fields)
     [required ''sessionId'']
     CancelNotification_codec"
  unfolding CancelNotification_codec_def CancelNotification_UnmarshalJSON_def
  by (rule unmarshal_obj) (simp_all add: CancelNotification_fields_def CancelNotification_zero_def
        max_depth_def)

lemma CancelNotification_wire [simp]: "9002 \<le> E \<Longrightarrow> wire E s CancelNotification_codec"
  using wire_mono [OF wire_obj [OF CancelNotification_obj], of E s] by simp

section \<open>Properties\<close>

lemma validate_items_none: "list_all (\<lambda>x. f x = None) xs \<Longrightarrow> validate_items name f i xs = None"
  by (induction xs arbitrary: i) auto

text \<open>C11: A prompt request comes back unchanged from its text, and its validation and that of all its
  content blocks accept it.
\<close>

theorem prompt_request_round_trip:
  assumes "c_fine PromptRequest_codec p"
  shows "(\<exists>t. c_enc PromptRequest_codec p = Some t \<and> compact t = Some t \<and>
      unmarshal PromptRequest_codec PromptRequest_zero t = Inr p) \<and>
    PromptRequest_Validate p = None"
proof
  show "\<exists>t. c_enc PromptRequest_codec p = Some t \<and> compact t = Some t \<and>
      unmarshal PromptRequest_codec PromptRequest_zero t = Inr p"
    using promptrequest_wire.round_trip [OF assms] by simp
  obtain bs where bs: "PromptRequest.Prompt p = Some bs" "list_all (c_fine ContentBlock_codec) bs"
    using assms by (auto simp: PromptRequest_codec_def with_unmarshal_def go_struct_def PromptRequest_fields_def go_field_def
        go_list_def go_slice_def)
  then have "list_all (\<lambda>b. ContentBlock_Validate b = None) bs"
    using ContentBlock_valid by (auto simp: list_all_iff)
  then show "PromptRequest_Validate p = None"
    using bs(1) by (simp add: PromptRequest_Validate_def validate_items_none)
qed

theorem prompt_request_round_trip_witness:
  "\<exists>t. c_enc PromptRequest_codec (PromptRequest_zero\<lparr>PromptRequest.Prompt := Some
      [ContentBlock_zero\<lparr>ContentBlock.Text := Some
        (ContentBlockText_zero\<lparr>ContentBlockText.Text := ''hi'', ContentBlockText.Type := ''text''\<rparr>)\<rparr>],
      PromptRequest.SessionId := ''s1''\<rparr>) = Some t"
  (is "\<exists>t. c_enc _ ?p = Some t")
proof -
  have "c_fine PromptRequest_codec ?p"
    by (simp add: PromptRequest_codec_def with_unmarshal_def go_struct_def PromptRequest_fields_def PromptRequest_zero_def
        go_field_def go_map_def go_list_def go_slice_def go_string_def ContentBlock_codec_def go_union_def
        ContentBlock_variants_def ContentBlock_as_Text_def go_variant_def ContentBlock_zero_def
        ContentBlockText_codec_def ContentBlockText_fields_def ContentBlockText_zero_def go_tag_def go_ptr_def)
  from prompt_request_round_trip [OF this] show ?thesis by blast
qed

text \<open>
  An object whose names are distinct and spelled exactly is read by name, in whatever order its
  members stand; members the type does not have are skipped.
\<close>

definition read_member :: "'a codec \<Rightarrow> 'a \<Rightarrow> (string \<times> raw_json) list \<Rightarrow> string \<Rightarrow> 'a \<Rightarrow> bool" where
  "read_member c old ms k v \<longleftrightarrow> (case map_of ms k of None \<Rightarrow> v = old | Some j \<Rightarrow> c_dec c old j = Good v)"

definition spelled_exactly :: "string list \<Rightarrow> (string \<times> raw_json) list \<Rightarrow> bool" where
  "spelled_exactly names ms \<longleftrightarrow> distinct (map fst ms) \<and> (\<forall>k \<in> fst ` set ms. match_field names k \<in> {None, Some k})"

lemma map_decoded_Good: "map_decoded f x = Good y \<longleftrightarrow> (\<exists>v. x = Good v \<and> y = f v)"
  by (cases x) auto

lemma match_in: "match_field names k = Some n \<Longrightarrow> n \<in> set names"
  by (auto simp: match_field_def simp: find_Some_iff split: if_splits)

lemma match_self: "k \<in> set names \<Longrightarrow> match_field names k = Some k"
  by (simp add: match_field_def)

lemma dec_members_saved [simp]: "dec_members fs (Some e) s ms \<noteq> Good p"
  by (induction ms arbitrary: s) (auto split: option.splits decoded.splits)

lemma dec_prompt_members:
  assumes "spelled_exactly (map f_name PromptRequest_fields) ms"
  shows "dec_members PromptRequest_fields None s ms = Good p \<longleftrightarrow>
    read_member (go_map go_raw) (PromptRequest.Meta s) ms ''_meta'' (PromptRequest.Meta p) \<and>
    read_member (go_list ContentBlock_codec) (PromptRequest.Prompt s) ms ''prompt'' (PromptRequest.Prompt p) \<and>
    read_member go_string (PromptRequest.SessionId s) ms ''sessionId'' (PromptRequest.SessionId p)"
  using assms
proof (induction ms arbitrary: s)
  case Nil
  then show ?case by (cases s; cases p) (auto simp: read_member_def)
next
  case (Cons m ms)
  obtain k j where m: "m = (k, j)" by (rule prod.exhaust)
  have ex: "spelled_exactly (map f_name PromptRequest_fields) ms" "k \<notin> fst ` set ms"
    and own: "match_field (map f_name PromptRequest_fields) k = Some n \<Longrightarrow> n = k" for n
    using Cons.prems by (auto simp: spelled_exactly_def m)
  note IH = Cons.IH [OF ex(1)]
  have absent: "map_of ms k = None" using ex(2) by (simp add: map_of_eq_None_iff)
  have names: "map f_name PromptRequest_fields = [''_meta'', ''prompt'', ''sessionId'']"
    by (simp add: PromptRequest_fields_def go_field_def)
  consider "k = ''_meta''" | "k = ''prompt''" | "k = ''sessionId''" | "k \<notin> {''_meta'', ''prompt'', ''sessionId''}" by blast
  then show ?case
  proof cases
    case 1
    have f: "find_field PromptRequest_fields k =
        Some (go_field ''_meta'' True (go_map go_raw) PromptRequest.Meta PromptRequest.Meta_update)"
      unfolding 1 find_field_def names by (simp add: match_self) (simp add: PromptRequest_fields_def go_field_def)
    show ?thesis
      using absent by (cases "c_dec (go_map go_raw) (PromptRequest.Meta s) j")
        (auto simp: m f [unfolded 1] IH go_field_def read_member_def 1)
  next
    case 2
    have f: "find_field PromptRequest_fields k =
        Some (go_field ''prompt'' False (go_list ContentBlock_codec) PromptRequest.Prompt PromptRequest.Prompt_update)"
      unfolding 2 find_field_def names by (simp add: match_self) (simp add: PromptRequest_fields_def go_field_def)
    show ?thesis
      using absent by (cases "c_dec (go_list ContentBlock_codec) (PromptRequest.Prompt s) j")
        (auto simp: m f [unfolded 2] IH go_field_def read_member_def 2)
  next
    case 3
    have f: "find_field PromptRequest_fields k =
        Some (go_field ''sessionId'' False go_string PromptRequest.SessionId PromptRequest.SessionId_update)"
      unfolding 3 find_field_def names by (simp add: match_self) (simp add: PromptRequest_fields_def go_field_def)
    show ?thesis
      using absent by (cases "c_dec go_string (PromptRequest.SessionId s) j")
        (auto simp: m f [unfolded 3] IH go_field_def read_member_def 3)
  next
    case 4
    then have "match_field (map f_name PromptRequest_fields) k = None"
      using own match_in unfolding names by (metis list.set(1,2) not_None_eq)
    then have "find_field PromptRequest_fields k = None" by (simp add: find_field_def)
    then show ?thesis using 4 by (auto simp: m IH read_member_def)
  qed
qed

lemma dec_elements_new: "dec_elements c [] xs = Good vs \<longleftrightarrow> list_all2 (\<lambda>x v. c_dec c (c_zero c) x = Good v) xs vs"
proof (induction xs arbitrary: vs)
  case (Cons x xs)
  show ?case
    by (cases "c_dec c (c_zero c) x") (auto simp: Cons map_decoded_Good list_all2_Cons1 split: decoded.splits)
qed auto

lemma dec_entries_raw:
  "dec_entries go_raw None acc es = Good (fold (\<lambda>(k, v). insert_entry k v) (map (\<lambda>(k, r, v). (k, r)) es) acc)"
proof (induction es arbitrary: acc)
  case (Cons e es)
  then show ?case by (cases e) (auto simp: go_raw_def)
qed simp

text \<open>C13: A prompt request whose member names are distinct and spelled exactly is accepted exactly when
  \<open>prompt\<close> is an array each of whose elements is a content block, \<open>sessionId\<close> a string, and \<open>_meta\<close>
  absent, null or an object; in whatever order they stand and whatever other members there are,
  the request then has these blocks in their order, this session id, and the members of \<open>_meta\<close>
  with their values as raw text.
\<close>

theorem prompt_request_accepted:
  assumes "spelled_exactly [''_meta'', ''prompt'', ''sessionId''] ms"
  shows "PromptRequest_UnmarshalJSON (r, JObj ms) = Good p \<longleftrightarrow>
    (\<exists>t xs bs. map_of ms ''prompt'' = Some (t, JArr xs) \<and> PromptRequest.Prompt p = Some bs \<and>
       list_all2 (\<lambda>x b. c_dec ContentBlock_codec ContentBlock_zero x = Good b) xs bs) \<and>
    (\<exists>t. map_of ms ''sessionId'' = Some (t, JStr (PromptRequest.SessionId p))) \<and>
    (map_of ms ''_meta'' = None \<and> PromptRequest.Meta p = None \<or>
     (\<exists>t. map_of ms ''_meta'' = Some (t, JNull)) \<and> PromptRequest.Meta p = None \<or>
     (\<exists>t es. map_of ms ''_meta'' = Some (t, JObj es) \<and>
        PromptRequest.Meta p = Some (sorted_entries (map (\<lambda>(k, r, v). (k, r)) es))))"
proof -
  have names: "map f_name PromptRequest_fields = [''_meta'', ''prompt'', ''sessionId'']"
    by (simp add: PromptRequest_fields_def go_field_def)
  have dist: "distinct (map fst ms)" using assms by (simp add: spelled_exactly_def)
  have fld: "field ms k = map_of ms k" for k using dist unfolding field_def
    by (metis distinct_map distinct_rev map_of_eqI map_of_inject_set rev_map set_rev)
  note dec = dec_prompt_members [OF assms [folded names], of PromptRequest_zero p]
  have zero: "PromptRequest.Meta PromptRequest_zero = None" "PromptRequest.Prompt PromptRequest_zero = None"
    "PromptRequest.SessionId PromptRequest_zero = []" by (simp_all add: PromptRequest_zero_def)
  have all: "PromptRequest_UnmarshalJSON (r, JObj ms) = Good p \<longleftrightarrow>
      required ''prompt'' ms = None \<and> required ''sessionId'' ms = None \<and> dec_members PromptRequest_fields None PromptRequest_zero ms = Good p"
    by (auto simp: PromptRequest_UnmarshalJSON_def decode_struct_def members_of_def in_turn_def go_struct_def
        split: option.split decoded.split)
  have prompt: "required ''prompt'' ms = None \<and> read_member (go_list ContentBlock_codec) None ms ''prompt'' v \<longleftrightarrow>
      (\<exists>t xs bs. map_of ms ''prompt'' = Some (t, JArr xs) \<and> v = Some bs \<and>
        list_all2 (\<lambda>x b. c_dec ContentBlock_codec ContentBlock_zero x = Good b) xs bs)" for v
    by (auto simp: required_def read_member_def fld go_list_def go_slice_def map_decoded_Good dec_elements_new
        split: option.split json.splits)
  have sid: "required ''sessionId'' ms = None \<and> read_member go_string [] ms ''sessionId'' v \<longleftrightarrow>
      (\<exists>t. map_of ms ''sessionId'' = Some (t, JStr v))" for v
    by (auto simp: required_def read_member_def fld go_string_def split: option.split json.splits)
  have meta: "read_member (go_map go_raw) None ms ''_meta'' v \<longleftrightarrow>
      (map_of ms ''_meta'' = None \<and> v = None \<or>
       (\<exists>t. map_of ms ''_meta'' = Some (t, JNull)) \<and> v = None \<or>
       (\<exists>t es. map_of ms ''_meta'' = Some (t, JObj es) \<and> v = Some (sorted_entries (map (\<lambda>(k, r, v). (k, r)) es))))" for v
    by (auto simp: read_member_def go_map_def dec_entries_raw sorted_entries_def split: option.split json.splits)
  show ?thesis unfolding all dec zero using prompt sid meta by blast
qed

lemma prompt_request_accepted_witness:
  "PromptRequest_UnmarshalJSON ([], JObj [(''x'', ''1'', JNum ''1''), (''sessionId'', [], JStr ''s''), (''prompt'', ''[]'', JArr [])]) =
     Good (PromptRequest_zero\<lparr>PromptRequest.Prompt := Some [], PromptRequest.SessionId := ''s''\<rparr>)"
proof -
  let ?ms = "[(''x'', ''1'', JNum ''1''), (''sessionId'', [], JStr ''s''), (''prompt'', ''[]'', JArr [])]"
  have "spelled_exactly [''_meta'', ''prompt'', ''sessionId''] ?ms" by code_simp
  from prompt_request_accepted [OF this] show ?thesis by (simp add: PromptRequest_zero_def)
qed

end
