(* ===== verification/WireTerminal.thy ===== *)
theory WireTerminal
  imports WireSession
begin

text \<open>
  The requests for files and terminals of the client.
\<close>

section \<open>Files\<close>

subsection \<open>\<open>ReadTextFileRequest\<close>\<close>

record ReadTextFileRequest =
  Meta :: "(string \<times> string) list option"
  Limit :: "int option"
  Line :: "int option"
  Path :: "string"
  SessionId :: "string"

definition ReadTextFileRequest_zero :: ReadTextFileRequest where
  "ReadTextFileRequest_zero = \<lparr>Meta = None, Limit = None, Line = None, Path = [], SessionId = []\<rparr>"

definition ReadTextFileRequest_fields :: "ReadTextFileRequest fld list" where
  "ReadTextFileRequest_fields =
     [go_field ''_meta'' True (go_map go_raw) ReadTextFileRequest.Meta ReadTextFileRequest.Meta_update,
      go_field ''limit'' True (go_ptr go_uint32) ReadTextFileRequest.Limit ReadTextFileRequest.Limit_update,
      go_field ''line'' True (go_ptr go_uint32) ReadTextFileRequest.Line ReadTextFileRequest.Line_update,
      go_field ''path'' False go_string ReadTextFileRequest.Path ReadTextFileRequest.Path_update,
      go_field ''sessionId'' False go_string ReadTextFileRequest.SessionId ReadTextFileRequest.SessionId_update]"

definition ReadTextFileRequest_UnmarshalJSON :: "raw_json \<Rightarrow> ReadTextFileRequest decoded" where
  "ReadTextFileRequest_UnmarshalJSON =
     decode_struct
       [required ''path'',
        required ''sessionId'',
        optional ''line'' go_uint32,
        optional ''limit'' go_uint32]
       (go_struct ReadTextFileRequest_zero ReadTextFileRequest_fields)
       (in_turn [])"

definition ReadTextFileRequest_codec :: "ReadTextFileRequest codec" where
  "ReadTextFileRequest_codec = with_unmarshal ReadTextFileRequest_UnmarshalJSON (go_struct
      ReadTextFileRequest_zero ReadTextFileRequest_fields)"

definition ReadTextFileRequest_Validate :: "ReadTextFileRequest \<Rightarrow> invalid option" where
  "ReadTextFileRequest_Validate v =
     None"

lemma ReadTextFileRequest_zero_codec [simp]: "c_zero ReadTextFileRequest_codec = ReadTextFileRequest_zero"
  by (simp add: ReadTextFileRequest_codec_def)

lemma ReadTextFileRequest_obj:
  "obj 9001 (map f_name ReadTextFileRequest_fields)
     [required ''path'',
      required ''sessionId'',
      optional ''line'' go_uint32,
      optional ''limit'' go_uint32]
     ReadTextFileRequest_codec"
  unfolding ReadTextFileRequest_codec_def ReadTextFileRequest_UnmarshalJSON_def
  by (rule unmarshal_obj) (simp_all add: ReadTextFileRequest_fields_def ReadTextFileRequest_zero_def
        max_depth_def)

lemma ReadTextFileRequest_wire [simp]: "9002 \<le> E \<Longrightarrow> wire E s ReadTextFileRequest_codec"
  using wire_mono [OF wire_obj [OF ReadTextFileRequest_obj], of E s] by simp

interpretation readtextfilerequest_wire: wire_type ReadTextFileRequest_codec 9002
  by unfold_locales (simp_all add: max_depth_def)

subsection \<open>\<open>ReadTextFileResponse\<close>\<close>

record ReadTextFileResponse =
  Meta :: "(string \<times> string) list option"
  Content :: "string"

definition ReadTextFileResponse_zero :: ReadTextFileResponse where
  "ReadTextFileResponse_zero = \<lparr>Meta = None, Content = []\<rparr>"

definition ReadTextFileResponse_fields :: "ReadTextFileResponse fld list" where
  "ReadTextFileResponse_fields =
     [go_field ''_meta'' True (go_map go_raw) ReadTextFileResponse.Meta ReadTextFileResponse.Meta_update,
      go_field ''content'' False go_string ReadTextFileResponse.Content ReadTextFileResponse.Content_update]"

definition ReadTextFileResponse_UnmarshalJSON :: "raw_json \<Rightarrow> ReadTextFileResponse decoded" where
  "ReadTextFileResponse_UnmarshalJSON =
     decode_struct
       [required ''content'']
       (go_struct ReadTextFileResponse_zero ReadTextFileResponse_fields)
       (in_turn [])"

definition ReadTextFileResponse_codec :: "ReadTextFileResponse codec" where
  "ReadTextFileResponse_codec = with_unmarshal ReadTextFileResponse_UnmarshalJSON (go_struct
      ReadTextFileResponse_zero ReadTextFileResponse_fields)"

definition ReadTextFileResponse_Validate :: "ReadTextFileResponse \<Rightarrow> invalid option" where
  "ReadTextFileResponse_Validate v =
     None"

lemma ReadTextFileResponse_zero_codec [simp]: "c_zero ReadTextFileResponse_codec = ReadTextFileResponse_zero"
  by (simp add: ReadTextFileResponse_codec_def)

lemma ReadTextFileResponse_obj:
  "obj 9001 (map f_name ReadTextFileResponse_fields)
     [required ''content'']
     ReadTextFileResponse_codec"
  unfolding ReadTextFileResponse_codec_def ReadTextFileResponse_UnmarshalJSON_def
  by (rule unmarshal_obj) (simp_all add: ReadTextFileResponse_fields_def ReadTextFileResponse_zero_def
        max_depth_def)

lemma ReadTextFileResponse_wire [simp]: "9002 \<le> E \<Longrightarrow> wire E s ReadTextFileResponse_codec"
  using wire_mono [OF wire_obj [OF ReadTextFileResponse_obj], of E s] by simp

subsection \<open>\<open>WriteTextFileRequest\<close>\<close>

record WriteTextFileRequest =
  Meta :: "(string \<times> string) list option"
  Content :: "string"
  Path :: "string"
  SessionId :: "string"

definition WriteTextFileRequest_zero :: WriteTextFileRequest where
  "WriteTextFileRequest_zero = \<lparr>Meta = None, Content = [], Path = [], SessionId = []\<rparr>"

definition WriteTextFileRequest_fields :: "WriteTextFileRequest fld list" where
  "WriteTextFileRequest_fields =
     [go_field ''_meta'' True (go_map go_raw) WriteTextFileRequest.Meta WriteTextFileRequest.Meta_update,
      go_field ''content'' False go_string WriteTextFileRequest.Content WriteTextFileRequest.Content_update,
      go_field ''path'' False go_string WriteTextFileRequest.Path WriteTextFileRequest.Path_update,
      go_field ''sessionId'' False go_string WriteTextFileRequest.SessionId
          WriteTextFileRequest.SessionId_update]"

definition WriteTextFileRequest_UnmarshalJSON :: "raw_json \<Rightarrow> WriteTextFileRequest decoded" where
  "WriteTextFileRequest_UnmarshalJSON =
     decode_struct
       [required ''content'',
        required ''path'',
        required ''sessionId'']
       (go_struct WriteTextFileRequest_zero WriteTextFileRequest_fields)
       (in_turn [])"

definition WriteTextFileRequest_codec :: "WriteTextFileRequest codec" where
  "WriteTextFileRequest_codec = with_unmarshal WriteTextFileRequest_UnmarshalJSON (go_struct
      WriteTextFileRequest_zero WriteTextFileRequest_fields)"

definition WriteTextFileRequest_Validate :: "WriteTextFileRequest \<Rightarrow> invalid option" where
  "WriteTextFileRequest_Validate v =
     None"

lemma WriteTextFileRequest_zero_codec [simp]: "c_zero WriteTextFileRequest_codec = WriteTextFileRequest_zero"
  by (simp add: WriteTextFileRequest_codec_def)

lemma WriteTextFileRequest_obj:
  "obj 9001 (map f_name WriteTextFileRequest_fields)
     [required ''content'',
      required ''path'',
      required ''sessionId'']
     WriteTextFileRequest_codec"
  unfolding WriteTextFileRequest_codec_def WriteTextFileRequest_UnmarshalJSON_def
  by (rule unmarshal_obj) (simp_all add: WriteTextFileRequest_fields_def WriteTextFileRequest_zero_def
        max_depth_def)

lemma WriteTextFileRequest_wire [simp]: "9002 \<le> E \<Longrightarrow> wire E s WriteTextFileRequest_codec"
  using wire_mono [OF wire_obj [OF WriteTextFileRequest_obj], of E s] by simp

interpretation writetextfilerequest_wire: wire_type WriteTextFileRequest_codec 9002
  by unfold_locales (simp_all add: max_depth_def)

subsection \<open>\<open>WriteTextFileResponse\<close>\<close>

record WriteTextFileResponse =
  Meta :: "(string \<times> string) list option"

definition WriteTextFileResponse_zero :: WriteTextFileResponse where
  "WriteTextFileResponse_zero = \<lparr>Meta = None\<rparr>"

definition WriteTextFileResponse_fields :: "WriteTextFileResponse fld list" where
  "WriteTextFileResponse_fields =
     [go_field ''_meta'' True (go_map go_raw) WriteTextFileResponse.Meta WriteTextFileResponse.Meta_update]"

definition WriteTextFileResponse_codec :: "WriteTextFileResponse codec" where
  "WriteTextFileResponse_codec = go_struct WriteTextFileResponse_zero WriteTextFileResponse_fields"

definition WriteTextFileResponse_Validate :: "WriteTextFileResponse \<Rightarrow> invalid option" where
  "WriteTextFileResponse_Validate v =
     None"

lemma WriteTextFileResponse_zero_codec [simp]: "c_zero WriteTextFileResponse_codec = WriteTextFileResponse_zero"
  by (simp add: WriteTextFileResponse_codec_def)

lemma WriteTextFileResponse_obj:
  "obj 9001 (map f_name WriteTextFileResponse_fields) [] WriteTextFileResponse_codec"
  unfolding WriteTextFileResponse_codec_def
  by (rule struct_obj) (simp_all add: WriteTextFileResponse_fields_def WriteTextFileResponse_zero_def
        max_depth_def)

lemma WriteTextFileResponse_wire [simp]: "9002 \<le> E \<Longrightarrow> wire E s WriteTextFileResponse_codec"
  using wire_mono [OF wire_obj [OF WriteTextFileResponse_obj], of E s] by simp

section \<open>Terminals\<close>

subsection \<open>\<open>CreateTerminalRequest\<close>\<close>

record CreateTerminalRequest =
  Meta :: "(string \<times> string) list option"
  Args :: "string list option"
  Command :: "string"
  Cwd :: "string option"
  Env :: "EnvVariable list option"
  OutputByteLimit :: "int option"
  SessionId :: "string"

definition CreateTerminalRequest_zero :: CreateTerminalRequest where
  "CreateTerminalRequest_zero = \<lparr>Meta = None, Args = None, Command = [], Cwd = None, Env = None,
      OutputByteLimit = None, SessionId = []\<rparr>"

definition CreateTerminalRequest_fields :: "CreateTerminalRequest fld list" where
  "CreateTerminalRequest_fields =
     [go_field ''_meta'' True (go_map go_raw) CreateTerminalRequest.Meta CreateTerminalRequest.Meta_update,
      go_field ''args'' True (go_slice go_string) CreateTerminalRequest.Args CreateTerminalRequest.Args_update,
      go_field ''command'' False go_string CreateTerminalRequest.Command CreateTerminalRequest.Command_update,
      go_field ''cwd'' True (go_ptr go_string) CreateTerminalRequest.Cwd CreateTerminalRequest.Cwd_update,
      go_field ''env'' True (go_slice EnvVariable_codec) CreateTerminalRequest.Env
          CreateTerminalRequest.Env_update,
      go_field ''outputByteLimit'' True (go_ptr go_uint64) CreateTerminalRequest.OutputByteLimit
          CreateTerminalRequest.OutputByteLimit_update,
      go_field ''sessionId'' False go_string CreateTerminalRequest.SessionId
          CreateTerminalRequest.SessionId_update]"

definition CreateTerminalRequest_UnmarshalJSON :: "raw_json \<Rightarrow> CreateTerminalRequest decoded" where
  "CreateTerminalRequest_UnmarshalJSON =
     decode_struct
       [required ''command'',
        required ''sessionId'',
        items ''args'' go_string,
        items ''env'' EnvVariable_codec,
        optional ''cwd'' go_string,
        optional ''outputByteLimit'' go_uint64]
       (go_struct CreateTerminalRequest_zero CreateTerminalRequest_fields)
       (in_turn [])"

definition CreateTerminalRequest_codec :: "CreateTerminalRequest codec" where
  "CreateTerminalRequest_codec = with_unmarshal CreateTerminalRequest_UnmarshalJSON (go_struct
      CreateTerminalRequest_zero CreateTerminalRequest_fields)"

definition CreateTerminalRequest_Validate :: "CreateTerminalRequest \<Rightarrow> invalid option" where
  "CreateTerminalRequest_Validate v =
     None"

lemma CreateTerminalRequest_zero_codec [simp]: "c_zero CreateTerminalRequest_codec = CreateTerminalRequest_zero"
  by (simp add: CreateTerminalRequest_codec_def)

lemma CreateTerminalRequest_obj:
  "obj 9003 (map f_name CreateTerminalRequest_fields)
     [required ''command'',
      required ''sessionId'',
      items ''args'' go_string,
      items ''env'' EnvVariable_codec,
      optional ''cwd'' go_string,
      optional ''outputByteLimit'' go_uint64]
     CreateTerminalRequest_codec"
  unfolding CreateTerminalRequest_codec_def CreateTerminalRequest_UnmarshalJSON_def
  by (rule unmarshal_obj) (simp_all add: CreateTerminalRequest_fields_def CreateTerminalRequest_zero_def
        max_depth_def)

lemma CreateTerminalRequest_wire [simp]: "9004 \<le> E \<Longrightarrow> wire E s CreateTerminalRequest_codec"
  using wire_mono [OF wire_obj [OF CreateTerminalRequest_obj], of E s] by simp

interpretation createterminalrequest_wire: wire_type CreateTerminalRequest_codec 9004
  by unfold_locales (simp_all add: max_depth_def)

subsection \<open>\<open>CreateTerminalResponse\<close>\<close>

record CreateTerminalResponse =
  Meta :: "(string \<times> string) list option"
  TerminalId :: "string"

definition CreateTerminalResponse_zero :: CreateTerminalResponse where
  "CreateTerminalResponse_zero = \<lparr>Meta = None, TerminalId = []\<rparr>"

definition CreateTerminalResponse_fields :: "CreateTerminalResponse fld list" where
  "CreateTerminalResponse_fields =
     [go_field ''_meta'' True (go_map go_raw) CreateTerminalResponse.Meta CreateTerminalResponse.Meta_update,
      go_field ''terminalId'' False go_string CreateTerminalResponse.TerminalId
          CreateTerminalResponse.TerminalId_update]"

definition CreateTerminalResponse_UnmarshalJSON :: "raw_json \<Rightarrow> CreateTerminalResponse decoded" where
  "CreateTerminalResponse_UnmarshalJSON =
     decode_struct
       [required ''terminalId'']
       (go_struct CreateTerminalResponse_zero CreateTerminalResponse_fields)
       (in_turn [])"

definition CreateTerminalResponse_codec :: "CreateTerminalResponse codec" where
  "CreateTerminalResponse_codec = with_unmarshal CreateTerminalResponse_UnmarshalJSON (go_struct
      CreateTerminalResponse_zero CreateTerminalResponse_fields)"

definition CreateTerminalResponse_Validate :: "CreateTerminalResponse \<Rightarrow> invalid option" where
  "CreateTerminalResponse_Validate v =
     None"

lemma CreateTerminalResponse_zero_codec [simp]: "c_zero CreateTerminalResponse_codec = CreateTerminalResponse_zero"
  by (simp add: CreateTerminalResponse_codec_def)

lemma CreateTerminalResponse_obj:
  "obj 9001 (map f_name CreateTerminalResponse_fields)
     [required ''terminalId'']
     CreateTerminalResponse_codec"
  unfolding CreateTerminalResponse_codec_def CreateTerminalResponse_UnmarshalJSON_def
  by (rule unmarshal_obj) (simp_all add: CreateTerminalResponse_fields_def CreateTerminalResponse_zero_def
        max_depth_def)

lemma CreateTerminalResponse_wire [simp]: "9002 \<le> E \<Longrightarrow> wire E s CreateTerminalResponse_codec"
  using wire_mono [OF wire_obj [OF CreateTerminalResponse_obj], of E s] by simp

subsection \<open>\<open>TerminalOutputRequest\<close>\<close>

record TerminalOutputRequest =
  Meta :: "(string \<times> string) list option"
  SessionId :: "string"
  TerminalId :: "string"

definition TerminalOutputRequest_zero :: TerminalOutputRequest where
  "TerminalOutputRequest_zero = \<lparr>Meta = None, SessionId = [], TerminalId = []\<rparr>"

definition TerminalOutputRequest_fields :: "TerminalOutputRequest fld list" where
  "TerminalOutputRequest_fields =
     [go_field ''_meta'' True (go_map go_raw) TerminalOutputRequest.Meta TerminalOutputRequest.Meta_update,
      go_field ''sessionId'' False go_string TerminalOutputRequest.SessionId
          TerminalOutputRequest.SessionId_update,
      go_field ''terminalId'' False go_string TerminalOutputRequest.TerminalId
          TerminalOutputRequest.TerminalId_update]"

definition TerminalOutputRequest_UnmarshalJSON :: "raw_json \<Rightarrow> TerminalOutputRequest decoded" where
  "TerminalOutputRequest_UnmarshalJSON =
     decode_struct
       [required ''sessionId'',
        required ''terminalId'']
       (go_struct TerminalOutputRequest_zero TerminalOutputRequest_fields)
       (in_turn [])"

definition TerminalOutputRequest_codec :: "TerminalOutputRequest codec" where
  "TerminalOutputRequest_codec = with_unmarshal TerminalOutputRequest_UnmarshalJSON (go_struct
      TerminalOutputRequest_zero TerminalOutputRequest_fields)"

definition TerminalOutputRequest_Validate :: "TerminalOutputRequest \<Rightarrow> invalid option" where
  "TerminalOutputRequest_Validate v =
     None"

lemma TerminalOutputRequest_zero_codec [simp]: "c_zero TerminalOutputRequest_codec = TerminalOutputRequest_zero"
  by (simp add: TerminalOutputRequest_codec_def)

lemma TerminalOutputRequest_obj:
  "obj 9001 (map f_name TerminalOutputRequest_fields)
     [required ''sessionId'',
      required ''terminalId'']
     TerminalOutputRequest_codec"
  unfolding TerminalOutputRequest_codec_def TerminalOutputRequest_UnmarshalJSON_def
  by (rule unmarshal_obj) (simp_all add: TerminalOutputRequest_fields_def TerminalOutputRequest_zero_def
        max_depth_def)

lemma TerminalOutputRequest_wire [simp]: "9002 \<le> E \<Longrightarrow> wire E s TerminalOutputRequest_codec"
  using wire_mono [OF wire_obj [OF TerminalOutputRequest_obj], of E s] by simp

subsection \<open>\<open>TerminalExitStatus\<close>\<close>

record TerminalExitStatus =
  Meta :: "(string \<times> string) list option"
  ExitCode :: "int option"
  Signal :: "string option"

definition TerminalExitStatus_zero :: TerminalExitStatus where
  "TerminalExitStatus_zero = \<lparr>Meta = None, ExitCode = None, Signal = None\<rparr>"

definition TerminalExitStatus_fields :: "TerminalExitStatus fld list" where
  "TerminalExitStatus_fields =
     [go_field ''_meta'' True (go_map go_raw) TerminalExitStatus.Meta TerminalExitStatus.Meta_update,
      go_field ''exitCode'' True (go_ptr go_uint32) TerminalExitStatus.ExitCode
          TerminalExitStatus.ExitCode_update,
      go_field ''signal'' True (go_ptr go_string) TerminalExitStatus.Signal TerminalExitStatus.Signal_update]"

definition TerminalExitStatus_codec :: "TerminalExitStatus codec" where
  "TerminalExitStatus_codec = go_struct TerminalExitStatus_zero TerminalExitStatus_fields"

lemma TerminalExitStatus_zero_codec [simp]: "c_zero TerminalExitStatus_codec = TerminalExitStatus_zero"
  by (simp add: TerminalExitStatus_codec_def)

lemma TerminalExitStatus_obj:
  "obj 9001 (map f_name TerminalExitStatus_fields) [] TerminalExitStatus_codec"
  unfolding TerminalExitStatus_codec_def
  by (rule struct_obj) (simp_all add: TerminalExitStatus_fields_def TerminalExitStatus_zero_def max_depth_def)

lemma TerminalExitStatus_wire [simp]: "9002 \<le> E \<Longrightarrow> wire E s TerminalExitStatus_codec"
  using wire_mono [OF wire_obj [OF TerminalExitStatus_obj], of E s] by simp

subsection \<open>\<open>TerminalOutputResponse\<close>\<close>

record TerminalOutputResponse =
  Meta :: "(string \<times> string) list option"
  ExitStatus :: "TerminalExitStatus option"
  Output :: "string"
  Truncated :: "bool"

definition TerminalOutputResponse_zero :: TerminalOutputResponse where
  "TerminalOutputResponse_zero = \<lparr>Meta = None, ExitStatus = None, Output = [], Truncated = False\<rparr>"

definition TerminalOutputResponse_fields :: "TerminalOutputResponse fld list" where
  "TerminalOutputResponse_fields =
     [go_field ''_meta'' True (go_map go_raw) TerminalOutputResponse.Meta TerminalOutputResponse.Meta_update,
      go_field ''exitStatus'' True (go_ptr TerminalExitStatus_codec) TerminalOutputResponse.ExitStatus
          TerminalOutputResponse.ExitStatus_update,
      go_field ''output'' False go_string TerminalOutputResponse.Output TerminalOutputResponse.Output_update,
      go_field ''truncated'' False go_bool TerminalOutputResponse.Truncated
          TerminalOutputResponse.Truncated_update]"

definition TerminalOutputResponse_UnmarshalJSON :: "raw_json \<Rightarrow> TerminalOutputResponse decoded" where
  "TerminalOutputResponse_UnmarshalJSON =
     decode_struct
       [required ''output'',
        required ''truncated'']
       (go_struct TerminalOutputResponse_zero TerminalOutputResponse_fields)
       (in_turn [])"

definition TerminalOutputResponse_codec :: "TerminalOutputResponse codec" where
  "TerminalOutputResponse_codec = with_unmarshal TerminalOutputResponse_UnmarshalJSON (go_struct
      TerminalOutputResponse_zero TerminalOutputResponse_fields)"

definition TerminalOutputResponse_Validate :: "TerminalOutputResponse \<Rightarrow> invalid option" where
  "TerminalOutputResponse_Validate v =
     None"

lemma TerminalOutputResponse_zero_codec [simp]: "c_zero TerminalOutputResponse_codec = TerminalOutputResponse_zero"
  by (simp add: TerminalOutputResponse_codec_def)

lemma TerminalOutputResponse_obj:
  "obj 9002 (map f_name TerminalOutputResponse_fields)
     [required ''output'',
      required ''truncated'']
     TerminalOutputResponse_codec"
  unfolding TerminalOutputResponse_codec_def TerminalOutputResponse_UnmarshalJSON_def
  by (rule unmarshal_obj) (simp_all add: TerminalOutputResponse_fields_def TerminalOutputResponse_zero_def
        max_depth_def)

lemma TerminalOutputResponse_wire [simp]: "9003 \<le> E \<Longrightarrow> wire E s TerminalOutputResponse_codec"
  using wire_mono [OF wire_obj [OF TerminalOutputResponse_obj], of E s] by simp

interpretation terminaloutputresponse_wire: wire_type TerminalOutputResponse_codec 9003
  by unfold_locales (simp_all add: max_depth_def)

subsection \<open>\<open>WaitForTerminalExitRequest\<close>\<close>

record WaitForTerminalExitRequest =
  Meta :: "(string \<times> string) list option"
  SessionId :: "string"
  TerminalId :: "string"

definition WaitForTerminalExitRequest_zero :: WaitForTerminalExitRequest where
  "WaitForTerminalExitRequest_zero = \<lparr>Meta = None, SessionId = [], TerminalId = []\<rparr>"

definition WaitForTerminalExitRequest_fields :: "WaitForTerminalExitRequest fld list" where
  "WaitForTerminalExitRequest_fields =
     [go_field ''_meta'' True (go_map go_raw) WaitForTerminalExitRequest.Meta
         WaitForTerminalExitRequest.Meta_update,
      go_field ''sessionId'' False go_string WaitForTerminalExitRequest.SessionId
          WaitForTerminalExitRequest.SessionId_update,
      go_field ''terminalId'' False go_string WaitForTerminalExitRequest.TerminalId
          WaitForTerminalExitRequest.TerminalId_update]"

definition WaitForTerminalExitRequest_UnmarshalJSON :: "raw_json \<Rightarrow> WaitForTerminalExitRequest decoded" where
  "WaitForTerminalExitRequest_UnmarshalJSON =
     decode_struct
       [required ''sessionId'',
        required ''terminalId'']
       (go_struct WaitForTerminalExitRequest_zero WaitForTerminalExitRequest_fields)
       (in_turn [])"

definition WaitForTerminalExitRequest_codec :: "WaitForTerminalExitRequest codec" where
  "WaitForTerminalExitRequest_codec = with_unmarshal WaitForTerminalExitRequest_UnmarshalJSON (go_struct
      WaitForTerminalExitRequest_zero WaitForTerminalExitRequest_fields)"

definition WaitForTerminalExitRequest_Validate :: "WaitForTerminalExitRequest \<Rightarrow> invalid option" where
  "WaitForTerminalExitRequest_Validate v =
     None"

lemma WaitForTerminalExitRequest_zero_codec [simp]: "c_zero WaitForTerminalExitRequest_codec = WaitForTerminalExitRequest_zero"
  by (simp add: WaitForTerminalExitRequest_codec_def)

lemma WaitForTerminalExitRequest_obj:
  "obj 9001 (map f_name WaitForTerminalExitRequest_fields)
     [required ''sessionId'',
      required ''terminalId'']
     WaitForTerminalExitRequest_codec"
  unfolding WaitForTerminalExitRequest_codec_def WaitForTerminalExitRequest_UnmarshalJSON_def
  by (rule unmarshal_obj) (simp_all add: WaitForTerminalExitRequest_fields_def
        WaitForTerminalExitRequest_zero_def max_depth_def)

lemma WaitForTerminalExitRequest_wire [simp]: "9002 \<le> E \<Longrightarrow> wire E s WaitForTerminalExitRequest_codec"
  using wire_mono [OF wire_obj [OF WaitForTerminalExitRequest_obj], of E s] by simp

subsection \<open>\<open>WaitForTerminalExitResponse\<close>\<close>

record WaitForTerminalExitResponse =
  Meta :: "(string \<times> string) list option"
  ExitCode :: "int option"
  Signal :: "string option"

definition WaitForTerminalExitResponse_zero :: WaitForTerminalExitResponse where
  "WaitForTerminalExitResponse_zero = \<lparr>Meta = None, ExitCode = None, Signal = None\<rparr>"

definition WaitForTerminalExitResponse_fields :: "WaitForTerminalExitResponse fld list" where
  "WaitForTerminalExitResponse_fields =
     [go_field ''_meta'' True (go_map go_raw) WaitForTerminalExitResponse.Meta
         WaitForTerminalExitResponse.Meta_update,
      go_field ''exitCode'' True (go_ptr go_uint32) WaitForTerminalExitResponse.ExitCode
          WaitForTerminalExitResponse.ExitCode_update,
      go_field ''signal'' True (go_ptr go_string) WaitForTerminalExitResponse.Signal
          WaitForTerminalExitResponse.Signal_update]"

definition WaitForTerminalExitResponse_codec :: "WaitForTerminalExitResponse codec" where
  "WaitForTerminalExitResponse_codec = go_struct WaitForTerminalExitResponse_zero
      WaitForTerminalExitResponse_fields"

definition WaitForTerminalExitResponse_Validate :: "WaitForTerminalExitResponse \<Rightarrow> invalid option" where
  "WaitForTerminalExitResponse_Validate v =
     None"

lemma WaitForTerminalExitResponse_zero_codec [simp]: "c_zero WaitForTerminalExitResponse_codec = WaitForTerminalExitResponse_zero"
  by (simp add: WaitForTerminalExitResponse_codec_def)

lemma WaitForTerminalExitResponse_obj:
  "obj 9001 (map f_name WaitForTerminalExitResponse_fields) [] WaitForTerminalExitResponse_codec"
  unfolding WaitForTerminalExitResponse_codec_def
  by (rule struct_obj) (simp_all add: WaitForTerminalExitResponse_fields_def
        WaitForTerminalExitResponse_zero_def max_depth_def)

lemma WaitForTerminalExitResponse_wire [simp]: "9002 \<le> E \<Longrightarrow> wire E s WaitForTerminalExitResponse_codec"
  using wire_mono [OF wire_obj [OF WaitForTerminalExitResponse_obj], of E s] by simp

subsection \<open>\<open>KillTerminalRequest\<close>\<close>

record KillTerminalRequest =
  Meta :: "(string \<times> string) list option"
  SessionId :: "string"
  TerminalId :: "string"

definition KillTerminalRequest_zero :: KillTerminalRequest where
  "KillTerminalRequest_zero = \<lparr>Meta = None, SessionId = [], TerminalId = []\<rparr>"

definition KillTerminalRequest_fields :: "KillTerminalRequest fld list" where
  "KillTerminalRequest_fields =
     [go_field ''_meta'' True (go_map go_raw) KillTerminalRequest.Meta KillTerminalRequest.Meta_update,
      go_field ''sessionId'' False go_string KillTerminalRequest.SessionId KillTerminalRequest.SessionId_update,
      go_field ''terminalId'' False go_string KillTerminalRequest.TerminalId
          KillTerminalRequest.TerminalId_update]"

definition KillTerminalRequest_UnmarshalJSON :: "raw_json \<Rightarrow> KillTerminalRequest decoded" where
  "KillTerminalRequest_UnmarshalJSON =
     decode_struct
       [required ''sessionId'',
        required ''terminalId'']
       (go_struct KillTerminalRequest_zero KillTerminalRequest_fields)
       (in_turn [])"

definition KillTerminalRequest_codec :: "KillTerminalRequest codec" where
  "KillTerminalRequest_codec = with_unmarshal KillTerminalRequest_UnmarshalJSON (go_struct
      KillTerminalRequest_zero KillTerminalRequest_fields)"

definition KillTerminalRequest_Validate :: "KillTerminalRequest \<Rightarrow> invalid option" where
  "KillTerminalRequest_Validate v =
     None"

lemma KillTerminalRequest_zero_codec [simp]: "c_zero KillTerminalRequest_codec = KillTerminalRequest_zero"
  by (simp add: KillTerminalRequest_codec_def)

lemma KillTerminalRequest_obj:
  "obj 9001 (map f_name KillTerminalRequest_fields)
     [required ''sessionId'',
      required ''terminalId'']
     KillTerminalRequest_codec"
  unfolding KillTerminalRequest_codec_def KillTerminalRequest_UnmarshalJSON_def
  by (rule unmarshal_obj) (simp_all add: KillTerminalRequest_fields_def KillTerminalRequest_zero_def
        max_depth_def)

lemma KillTerminalRequest_wire [simp]: "9002 \<le> E \<Longrightarrow> wire E s KillTerminalRequest_codec"
  using wire_mono [OF wire_obj [OF KillTerminalRequest_obj], of E s] by simp

subsection \<open>\<open>KillTerminalResponse\<close>\<close>

record KillTerminalResponse =
  Meta :: "(string \<times> string) list option"

definition KillTerminalResponse_zero :: KillTerminalResponse where
  "KillTerminalResponse_zero = \<lparr>Meta = None\<rparr>"

definition KillTerminalResponse_fields :: "KillTerminalResponse fld list" where
  "KillTerminalResponse_fields =
     [go_field ''_meta'' True (go_map go_raw) KillTerminalResponse.Meta KillTerminalResponse.Meta_update]"

definition KillTerminalResponse_codec :: "KillTerminalResponse codec" where
  "KillTerminalResponse_codec = go_struct KillTerminalResponse_zero KillTerminalResponse_fields"

definition KillTerminalResponse_Validate :: "KillTerminalResponse \<Rightarrow> invalid option" where
  "KillTerminalResponse_Validate v =
     None"

lemma KillTerminalResponse_zero_codec [simp]: "c_zero KillTerminalResponse_codec = KillTerminalResponse_zero"
  by (simp add: KillTerminalResponse_codec_def)

lemma KillTerminalResponse_obj:
  "obj 9001 (map f_name KillTerminalResponse_fields) [] KillTerminalResponse_codec"
  unfolding KillTerminalResponse_codec_def
  by (rule struct_obj) (simp_all add: KillTerminalResponse_fields_def KillTerminalResponse_zero_def
        max_depth_def)

lemma KillTerminalResponse_wire [simp]: "9002 \<le> E \<Longrightarrow> wire E s KillTerminalResponse_codec"
  using wire_mono [OF wire_obj [OF KillTerminalResponse_obj], of E s] by simp

subsection \<open>\<open>ReleaseTerminalRequest\<close>\<close>

record ReleaseTerminalRequest =
  Meta :: "(string \<times> string) list option"
  SessionId :: "string"
  TerminalId :: "string"

definition ReleaseTerminalRequest_zero :: ReleaseTerminalRequest where
  "ReleaseTerminalRequest_zero = \<lparr>Meta = None, SessionId = [], TerminalId = []\<rparr>"

definition ReleaseTerminalRequest_fields :: "ReleaseTerminalRequest fld list" where
  "ReleaseTerminalRequest_fields =
     [go_field ''_meta'' True (go_map go_raw) ReleaseTerminalRequest.Meta ReleaseTerminalRequest.Meta_update,
      go_field ''sessionId'' False go_string ReleaseTerminalRequest.SessionId
          ReleaseTerminalRequest.SessionId_update,
      go_field ''terminalId'' False go_string ReleaseTerminalRequest.TerminalId
          ReleaseTerminalRequest.TerminalId_update]"

definition ReleaseTerminalRequest_UnmarshalJSON :: "raw_json \<Rightarrow> ReleaseTerminalRequest decoded" where
  "ReleaseTerminalRequest_UnmarshalJSON =
     decode_struct
       [required ''sessionId'',
        required ''terminalId'']
       (go_struct ReleaseTerminalRequest_zero ReleaseTerminalRequest_fields)
       (in_turn [])"

definition ReleaseTerminalRequest_codec :: "ReleaseTerminalRequest codec" where
  "ReleaseTerminalRequest_codec = with_unmarshal ReleaseTerminalRequest_UnmarshalJSON (go_struct
      ReleaseTerminalRequest_zero ReleaseTerminalRequest_fields)"

definition ReleaseTerminalRequest_Validate :: "ReleaseTerminalRequest \<Rightarrow> invalid option" where
  "ReleaseTerminalRequest_Validate v =
     None"

lemma ReleaseTerminalRequest_zero_codec [simp]: "c_zero ReleaseTerminalRequest_codec = ReleaseTerminalRequest_zero"
  by (simp add: ReleaseTerminalRequest_codec_def)

lemma ReleaseTerminalRequest_obj:
  "obj 9001 (map f_name ReleaseTerminalRequest_fields)
     [required ''sessionId'',
      required ''terminalId'']
     ReleaseTerminalRequest_codec"
  unfolding ReleaseTerminalRequest_codec_def ReleaseTerminalRequest_UnmarshalJSON_def
  by (rule unmarshal_obj) (simp_all add: ReleaseTerminalRequest_fields_def ReleaseTerminalRequest_zero_def
        max_depth_def)

lemma ReleaseTerminalRequest_wire [simp]: "9002 \<le> E \<Longrightarrow> wire E s ReleaseTerminalRequest_codec"
  using wire_mono [OF wire_obj [OF ReleaseTerminalRequest_obj], of E s] by simp

subsection \<open>\<open>ReleaseTerminalResponse\<close>\<close>

record ReleaseTerminalResponse =
  Meta :: "(string \<times> string) list option"

definition ReleaseTerminalResponse_zero :: ReleaseTerminalResponse where
  "ReleaseTerminalResponse_zero = \<lparr>Meta = None\<rparr>"

definition ReleaseTerminalResponse_fields :: "ReleaseTerminalResponse fld list" where
  "ReleaseTerminalResponse_fields =
     [go_field ''_meta'' True (go_map go_raw) ReleaseTerminalResponse.Meta ReleaseTerminalResponse.Meta_update]"

definition ReleaseTerminalResponse_codec :: "ReleaseTerminalResponse codec" where
  "ReleaseTerminalResponse_codec = go_struct ReleaseTerminalResponse_zero ReleaseTerminalResponse_fields"

definition ReleaseTerminalResponse_Validate :: "ReleaseTerminalResponse \<Rightarrow> invalid option" where
  "ReleaseTerminalResponse_Validate v =
     None"

lemma ReleaseTerminalResponse_zero_codec [simp]: "c_zero ReleaseTerminalResponse_codec = ReleaseTerminalResponse_zero"
  by (simp add: ReleaseTerminalResponse_codec_def)

lemma ReleaseTerminalResponse_obj:
  "obj 9001 (map f_name ReleaseTerminalResponse_fields) [] ReleaseTerminalResponse_codec"
  unfolding ReleaseTerminalResponse_codec_def
  by (rule struct_obj) (simp_all add: ReleaseTerminalResponse_fields_def ReleaseTerminalResponse_zero_def
        max_depth_def)

lemma ReleaseTerminalResponse_wire [simp]: "9002 \<le> E \<Longrightarrow> wire E s ReleaseTerminalResponse_codec"
  using wire_mono [OF wire_obj [OF ReleaseTerminalResponse_obj], of E s] by simp

end
