(* ===== verification/WireSetup.thy ===== *)
theory WireSetup
  imports WireTerminal
begin

text \<open>
  The handshake: what each side can do, with the defaults of the schema for what is left out, and
  the authentication methods, of which those that do not decode are skipped.
\<close>

section \<open>Capabilities of an agent\<close>

subsection \<open>\<open>LogoutCapabilities\<close>\<close>

record LogoutCapabilities =
  Meta :: "(string \<times> string) list option"

definition LogoutCapabilities_zero :: LogoutCapabilities where
  "LogoutCapabilities_zero = \<lparr>Meta = None\<rparr>"

definition LogoutCapabilities_fields :: "LogoutCapabilities fld list" where
  "LogoutCapabilities_fields =
     [go_field ''_meta'' True (go_map go_raw) LogoutCapabilities.Meta LogoutCapabilities.Meta_update]"

definition LogoutCapabilities_codec :: "LogoutCapabilities codec" where
  "LogoutCapabilities_codec = go_struct LogoutCapabilities_zero LogoutCapabilities_fields"

lemma LogoutCapabilities_zero_codec [simp]: "c_zero LogoutCapabilities_codec = LogoutCapabilities_zero"
  by (simp add: LogoutCapabilities_codec_def)

lemma LogoutCapabilities_obj:
  "obj 9001 (map f_name LogoutCapabilities_fields) [] LogoutCapabilities_codec"
  unfolding LogoutCapabilities_codec_def
  by (rule struct_obj) (simp_all add: LogoutCapabilities_fields_def LogoutCapabilities_zero_def max_depth_def)

lemma LogoutCapabilities_wire [simp]: "9002 \<le> E \<Longrightarrow> wire E s LogoutCapabilities_codec"
  using wire_mono [OF wire_obj [OF LogoutCapabilities_obj], of E s] by simp

subsection \<open>\<open>AgentAuthCapabilities\<close>\<close>

record AgentAuthCapabilities =
  Meta :: "(string \<times> string) list option"
  Logout :: "LogoutCapabilities option"

definition AgentAuthCapabilities_zero :: AgentAuthCapabilities where
  "AgentAuthCapabilities_zero = \<lparr>Meta = None, Logout = None\<rparr>"

definition AgentAuthCapabilities_fields :: "AgentAuthCapabilities fld list" where
  "AgentAuthCapabilities_fields =
     [go_field ''_meta'' True (go_map go_raw) AgentAuthCapabilities.Meta AgentAuthCapabilities.Meta_update,
      go_field ''logout'' True (go_ptr LogoutCapabilities_codec) AgentAuthCapabilities.Logout
          AgentAuthCapabilities.Logout_update]"

definition AgentAuthCapabilities_codec :: "AgentAuthCapabilities codec" where
  "AgentAuthCapabilities_codec = go_struct AgentAuthCapabilities_zero AgentAuthCapabilities_fields"

lemma AgentAuthCapabilities_zero_codec [simp]: "c_zero AgentAuthCapabilities_codec = AgentAuthCapabilities_zero"
  by (simp add: AgentAuthCapabilities_codec_def)

lemma AgentAuthCapabilities_kept [simp]: "\<not> c_empty AgentAuthCapabilities_codec v"
  by (simp add: AgentAuthCapabilities_codec_def)

lemma AgentAuthCapabilities_obj:
  "obj 9002 (map f_name AgentAuthCapabilities_fields) [] AgentAuthCapabilities_codec"
  unfolding AgentAuthCapabilities_codec_def
  by (rule struct_obj) (simp_all add: AgentAuthCapabilities_fields_def AgentAuthCapabilities_zero_def
        max_depth_def)

lemma AgentAuthCapabilities_wire [simp]: "9003 \<le> E \<Longrightarrow> wire E s AgentAuthCapabilities_codec"
  using wire_mono [OF wire_obj [OF AgentAuthCapabilities_obj], of E s] by simp

subsection \<open>\<open>McpCapabilities\<close>\<close>

record McpCapabilities =
  Meta :: "(string \<times> string) list option"
  Http :: "bool"
  Sse :: "bool"

definition McpCapabilities_zero :: McpCapabilities where
  "McpCapabilities_zero = \<lparr>Meta = None, Http = False, Sse = False\<rparr>"

definition McpCapabilities_fields :: "McpCapabilities fld list" where
  "McpCapabilities_fields =
     [go_field ''_meta'' True (go_map go_raw) McpCapabilities.Meta McpCapabilities.Meta_update,
      go_field ''http'' True go_bool McpCapabilities.Http McpCapabilities.Http_update,
      go_field ''sse'' True go_bool McpCapabilities.Sse McpCapabilities.Sse_update]"

definition McpCapabilities_UnmarshalJSON :: "raw_json \<Rightarrow> McpCapabilities decoded" where
  "McpCapabilities_UnmarshalJSON =
     decode_struct
       []
       (go_struct McpCapabilities_zero McpCapabilities_fields)
       (in_turn [defaulted ''http'' ''false'' go_bool McpCapabilities.Http McpCapabilities.Http_update,
         defaulted ''sse'' ''false'' go_bool McpCapabilities.Sse McpCapabilities.Sse_update])"

definition McpCapabilities_MarshalJSON :: "McpCapabilities \<Rightarrow> string option" where
  "McpCapabilities_MarshalJSON v = c_enc (go_struct McpCapabilities_zero McpCapabilities_fields) v"

definition McpCapabilities_codec :: "McpCapabilities codec" where
  "McpCapabilities_codec = with_marshal McpCapabilities_MarshalJSON (with_unmarshal
      McpCapabilities_UnmarshalJSON (go_struct McpCapabilities_zero McpCapabilities_fields))"

lemma McpCapabilities_zero_codec [simp]: "c_zero McpCapabilities_codec = McpCapabilities_zero"
  by (simp add: McpCapabilities_codec_def)

lemma McpCapabilities_kept [simp]: "\<not> c_empty McpCapabilities_codec v"
  by (simp add: McpCapabilities_codec_def)

lemma McpCapabilities_obj:
  "obj 9001 (map f_name McpCapabilities_fields) [] McpCapabilities_codec"
  unfolding McpCapabilities_codec_def McpCapabilities_UnmarshalJSON_def
proof (rule obj_marshal)
  show "obj 9001 (map f_name McpCapabilities_fields)
     []
    (with_unmarshal (decode_struct
       []
       (go_struct McpCapabilities_zero McpCapabilities_fields)
       (in_turn [defaulted ''http'' ''false'' go_bool McpCapabilities.Http McpCapabilities.Http_update,
         defaulted ''sse'' ''false'' go_bool McpCapabilities.Sse McpCapabilities.Sse_update]))
     (go_struct McpCapabilities_zero McpCapabilities_fields))"
    by (rule unmarshal_obj) (simp_all add: McpCapabilities_fields_def McpCapabilities_zero_def max_depth_def)
qed (simp_all add: max_depth_def McpCapabilities_MarshalJSON_def)

lemma McpCapabilities_wire [simp]: "9002 \<le> E \<Longrightarrow> wire E s McpCapabilities_codec"
  using wire_mono [OF wire_obj [OF McpCapabilities_obj], of E s] by simp

subsection \<open>\<open>PromptCapabilities\<close>\<close>

record PromptCapabilities =
  Meta :: "(string \<times> string) list option"
  Audio :: "bool"
  EmbeddedContext :: "bool"
  Image :: "bool"

definition PromptCapabilities_zero :: PromptCapabilities where
  "PromptCapabilities_zero = \<lparr>Meta = None, Audio = False, EmbeddedContext = False, Image = False\<rparr>"

definition PromptCapabilities_fields :: "PromptCapabilities fld list" where
  "PromptCapabilities_fields =
     [go_field ''_meta'' True (go_map go_raw) PromptCapabilities.Meta PromptCapabilities.Meta_update,
      go_field ''audio'' True go_bool PromptCapabilities.Audio PromptCapabilities.Audio_update,
      go_field ''embeddedContext'' True go_bool PromptCapabilities.EmbeddedContext
          PromptCapabilities.EmbeddedContext_update,
      go_field ''image'' True go_bool PromptCapabilities.Image PromptCapabilities.Image_update]"

definition PromptCapabilities_UnmarshalJSON :: "raw_json \<Rightarrow> PromptCapabilities decoded" where
  "PromptCapabilities_UnmarshalJSON =
     decode_struct
       []
       (go_struct PromptCapabilities_zero PromptCapabilities_fields)
       (in_turn [defaulted ''audio'' ''false'' go_bool PromptCapabilities.Audio PromptCapabilities.Audio_update,
         defaulted ''embeddedContext'' ''false'' go_bool PromptCapabilities.EmbeddedContext
             PromptCapabilities.EmbeddedContext_update,
         defaulted ''image'' ''false'' go_bool PromptCapabilities.Image PromptCapabilities.Image_update])"

definition PromptCapabilities_MarshalJSON :: "PromptCapabilities \<Rightarrow> string option" where
  "PromptCapabilities_MarshalJSON v = c_enc (go_struct PromptCapabilities_zero PromptCapabilities_fields) v"

definition PromptCapabilities_codec :: "PromptCapabilities codec" where
  "PromptCapabilities_codec = with_marshal PromptCapabilities_MarshalJSON (with_unmarshal
      PromptCapabilities_UnmarshalJSON (go_struct PromptCapabilities_zero PromptCapabilities_fields))"

lemma PromptCapabilities_zero_codec [simp]: "c_zero PromptCapabilities_codec = PromptCapabilities_zero"
  by (simp add: PromptCapabilities_codec_def)

lemma PromptCapabilities_kept [simp]: "\<not> c_empty PromptCapabilities_codec v"
  by (simp add: PromptCapabilities_codec_def)

lemma PromptCapabilities_obj:
  "obj 9001 (map f_name PromptCapabilities_fields) [] PromptCapabilities_codec"
  unfolding PromptCapabilities_codec_def PromptCapabilities_UnmarshalJSON_def
proof (rule obj_marshal)
  show "obj 9001 (map f_name PromptCapabilities_fields)
     []
    (with_unmarshal (decode_struct
       []
       (go_struct PromptCapabilities_zero PromptCapabilities_fields)
       (in_turn [defaulted ''audio'' ''false'' go_bool PromptCapabilities.Audio PromptCapabilities.Audio_update,
         defaulted ''embeddedContext'' ''false'' go_bool PromptCapabilities.EmbeddedContext
             PromptCapabilities.EmbeddedContext_update,
         defaulted ''image'' ''false'' go_bool PromptCapabilities.Image PromptCapabilities.Image_update]))
     (go_struct PromptCapabilities_zero PromptCapabilities_fields))"
    by (rule unmarshal_obj) (simp_all add: PromptCapabilities_fields_def PromptCapabilities_zero_def
          max_depth_def)
qed (simp_all add: max_depth_def PromptCapabilities_MarshalJSON_def)

lemma PromptCapabilities_wire [simp]: "9002 \<le> E \<Longrightarrow> wire E s PromptCapabilities_codec"
  using wire_mono [OF wire_obj [OF PromptCapabilities_obj], of E s] by simp

subsection \<open>\<open>SessionAdditionalDirectoriesCapabilities\<close>\<close>

record SessionAdditionalDirectoriesCapabilities =
  Meta :: "(string \<times> string) list option"

definition SessionAdditionalDirectoriesCapabilities_zero :: SessionAdditionalDirectoriesCapabilities where
  "SessionAdditionalDirectoriesCapabilities_zero = \<lparr>Meta = None\<rparr>"

definition SessionAdditionalDirectoriesCapabilities_fields :: "SessionAdditionalDirectoriesCapabilities fld list" where
  "SessionAdditionalDirectoriesCapabilities_fields =
     [go_field ''_meta'' True (go_map go_raw) SessionAdditionalDirectoriesCapabilities.Meta
         SessionAdditionalDirectoriesCapabilities.Meta_update]"

definition SessionAdditionalDirectoriesCapabilities_codec :: "SessionAdditionalDirectoriesCapabilities codec" where
  "SessionAdditionalDirectoriesCapabilities_codec = go_struct SessionAdditionalDirectoriesCapabilities_zero
      SessionAdditionalDirectoriesCapabilities_fields"

lemma SessionAdditionalDirectoriesCapabilities_zero_codec [simp]: "c_zero SessionAdditionalDirectoriesCapabilities_codec = SessionAdditionalDirectoriesCapabilities_zero"
  by (simp add: SessionAdditionalDirectoriesCapabilities_codec_def)

lemma SessionAdditionalDirectoriesCapabilities_obj:
  "obj 9001 (map f_name SessionAdditionalDirectoriesCapabilities_fields) [] SessionAdditionalDirectoriesCapabilities_codec"
  unfolding SessionAdditionalDirectoriesCapabilities_codec_def
  by (rule struct_obj) (simp_all add: SessionAdditionalDirectoriesCapabilities_fields_def
        SessionAdditionalDirectoriesCapabilities_zero_def max_depth_def)

lemma SessionAdditionalDirectoriesCapabilities_wire [simp]: "9002 \<le> E \<Longrightarrow> wire E s SessionAdditionalDirectoriesCapabilities_codec"
  using wire_mono [OF wire_obj [OF SessionAdditionalDirectoriesCapabilities_obj], of E s] by simp

subsection \<open>\<open>SessionCloseCapabilities\<close>\<close>

record SessionCloseCapabilities =
  Meta :: "(string \<times> string) list option"

definition SessionCloseCapabilities_zero :: SessionCloseCapabilities where
  "SessionCloseCapabilities_zero = \<lparr>Meta = None\<rparr>"

definition SessionCloseCapabilities_fields :: "SessionCloseCapabilities fld list" where
  "SessionCloseCapabilities_fields =
     [go_field ''_meta'' True (go_map go_raw) SessionCloseCapabilities.Meta
         SessionCloseCapabilities.Meta_update]"

definition SessionCloseCapabilities_codec :: "SessionCloseCapabilities codec" where
  "SessionCloseCapabilities_codec = go_struct SessionCloseCapabilities_zero SessionCloseCapabilities_fields"

lemma SessionCloseCapabilities_zero_codec [simp]: "c_zero SessionCloseCapabilities_codec = SessionCloseCapabilities_zero"
  by (simp add: SessionCloseCapabilities_codec_def)

lemma SessionCloseCapabilities_obj:
  "obj 9001 (map f_name SessionCloseCapabilities_fields) [] SessionCloseCapabilities_codec"
  unfolding SessionCloseCapabilities_codec_def
  by (rule struct_obj) (simp_all add: SessionCloseCapabilities_fields_def SessionCloseCapabilities_zero_def
        max_depth_def)

lemma SessionCloseCapabilities_wire [simp]: "9002 \<le> E \<Longrightarrow> wire E s SessionCloseCapabilities_codec"
  using wire_mono [OF wire_obj [OF SessionCloseCapabilities_obj], of E s] by simp

subsection \<open>\<open>SessionDeleteCapabilities\<close>\<close>

record SessionDeleteCapabilities =
  Meta :: "(string \<times> string) list option"

definition SessionDeleteCapabilities_zero :: SessionDeleteCapabilities where
  "SessionDeleteCapabilities_zero = \<lparr>Meta = None\<rparr>"

definition SessionDeleteCapabilities_fields :: "SessionDeleteCapabilities fld list" where
  "SessionDeleteCapabilities_fields =
     [go_field ''_meta'' True (go_map go_raw) SessionDeleteCapabilities.Meta
         SessionDeleteCapabilities.Meta_update]"

definition SessionDeleteCapabilities_codec :: "SessionDeleteCapabilities codec" where
  "SessionDeleteCapabilities_codec = go_struct SessionDeleteCapabilities_zero SessionDeleteCapabilities_fields"

lemma SessionDeleteCapabilities_zero_codec [simp]: "c_zero SessionDeleteCapabilities_codec = SessionDeleteCapabilities_zero"
  by (simp add: SessionDeleteCapabilities_codec_def)

lemma SessionDeleteCapabilities_obj:
  "obj 9001 (map f_name SessionDeleteCapabilities_fields) [] SessionDeleteCapabilities_codec"
  unfolding SessionDeleteCapabilities_codec_def
  by (rule struct_obj) (simp_all add: SessionDeleteCapabilities_fields_def SessionDeleteCapabilities_zero_def
        max_depth_def)

lemma SessionDeleteCapabilities_wire [simp]: "9002 \<le> E \<Longrightarrow> wire E s SessionDeleteCapabilities_codec"
  using wire_mono [OF wire_obj [OF SessionDeleteCapabilities_obj], of E s] by simp

subsection \<open>\<open>SessionListCapabilities\<close>\<close>

record SessionListCapabilities =
  Meta :: "(string \<times> string) list option"

definition SessionListCapabilities_zero :: SessionListCapabilities where
  "SessionListCapabilities_zero = \<lparr>Meta = None\<rparr>"

definition SessionListCapabilities_fields :: "SessionListCapabilities fld list" where
  "SessionListCapabilities_fields =
     [go_field ''_meta'' True (go_map go_raw) SessionListCapabilities.Meta SessionListCapabilities.Meta_update]"

definition SessionListCapabilities_codec :: "SessionListCapabilities codec" where
  "SessionListCapabilities_codec = go_struct SessionListCapabilities_zero SessionListCapabilities_fields"

lemma SessionListCapabilities_zero_codec [simp]: "c_zero SessionListCapabilities_codec = SessionListCapabilities_zero"
  by (simp add: SessionListCapabilities_codec_def)

lemma SessionListCapabilities_obj:
  "obj 9001 (map f_name SessionListCapabilities_fields) [] SessionListCapabilities_codec"
  unfolding SessionListCapabilities_codec_def
  by (rule struct_obj) (simp_all add: SessionListCapabilities_fields_def SessionListCapabilities_zero_def
        max_depth_def)

lemma SessionListCapabilities_wire [simp]: "9002 \<le> E \<Longrightarrow> wire E s SessionListCapabilities_codec"
  using wire_mono [OF wire_obj [OF SessionListCapabilities_obj], of E s] by simp

subsection \<open>\<open>SessionResumeCapabilities\<close>\<close>

record SessionResumeCapabilities =
  Meta :: "(string \<times> string) list option"

definition SessionResumeCapabilities_zero :: SessionResumeCapabilities where
  "SessionResumeCapabilities_zero = \<lparr>Meta = None\<rparr>"

definition SessionResumeCapabilities_fields :: "SessionResumeCapabilities fld list" where
  "SessionResumeCapabilities_fields =
     [go_field ''_meta'' True (go_map go_raw) SessionResumeCapabilities.Meta
         SessionResumeCapabilities.Meta_update]"

definition SessionResumeCapabilities_codec :: "SessionResumeCapabilities codec" where
  "SessionResumeCapabilities_codec = go_struct SessionResumeCapabilities_zero SessionResumeCapabilities_fields"

lemma SessionResumeCapabilities_zero_codec [simp]: "c_zero SessionResumeCapabilities_codec = SessionResumeCapabilities_zero"
  by (simp add: SessionResumeCapabilities_codec_def)

lemma SessionResumeCapabilities_obj:
  "obj 9001 (map f_name SessionResumeCapabilities_fields) [] SessionResumeCapabilities_codec"
  unfolding SessionResumeCapabilities_codec_def
  by (rule struct_obj) (simp_all add: SessionResumeCapabilities_fields_def SessionResumeCapabilities_zero_def
        max_depth_def)

lemma SessionResumeCapabilities_wire [simp]: "9002 \<le> E \<Longrightarrow> wire E s SessionResumeCapabilities_codec"
  using wire_mono [OF wire_obj [OF SessionResumeCapabilities_obj], of E s] by simp

subsection \<open>\<open>SessionCapabilities\<close>\<close>

record SessionCapabilities =
  Meta :: "(string \<times> string) list option"
  AdditionalDirectories :: "SessionAdditionalDirectoriesCapabilities option"
  Close :: "SessionCloseCapabilities option"
  Delete :: "SessionDeleteCapabilities option"
  List :: "SessionListCapabilities option"
  Resume :: "SessionResumeCapabilities option"

definition SessionCapabilities_zero :: SessionCapabilities where
  "SessionCapabilities_zero = \<lparr>Meta = None, AdditionalDirectories = None, Close = None, Delete = None,
      List = None, Resume = None\<rparr>"

definition SessionCapabilities_fields :: "SessionCapabilities fld list" where
  "SessionCapabilities_fields =
     [go_field ''_meta'' True (go_map go_raw) SessionCapabilities.Meta SessionCapabilities.Meta_update,
      go_field ''additionalDirectories'' True (go_ptr SessionAdditionalDirectoriesCapabilities_codec)
          SessionCapabilities.AdditionalDirectories SessionCapabilities.AdditionalDirectories_update,
      go_field ''close'' True (go_ptr SessionCloseCapabilities_codec) SessionCapabilities.Close
          SessionCapabilities.Close_update,
      go_field ''delete'' True (go_ptr SessionDeleteCapabilities_codec) SessionCapabilities.Delete
          SessionCapabilities.Delete_update,
      go_field ''list'' True (go_ptr SessionListCapabilities_codec) SessionCapabilities.List
          SessionCapabilities.List_update,
      go_field ''resume'' True (go_ptr SessionResumeCapabilities_codec) SessionCapabilities.Resume
          SessionCapabilities.Resume_update]"

definition SessionCapabilities_codec :: "SessionCapabilities codec" where
  "SessionCapabilities_codec = go_struct SessionCapabilities_zero SessionCapabilities_fields"

lemma SessionCapabilities_zero_codec [simp]: "c_zero SessionCapabilities_codec = SessionCapabilities_zero"
  by (simp add: SessionCapabilities_codec_def)

lemma SessionCapabilities_kept [simp]: "\<not> c_empty SessionCapabilities_codec v"
  by (simp add: SessionCapabilities_codec_def)

lemma SessionCapabilities_obj:
  "obj 9002 (map f_name SessionCapabilities_fields) [] SessionCapabilities_codec"
  unfolding SessionCapabilities_codec_def
  by (rule struct_obj) (simp_all add: SessionCapabilities_fields_def SessionCapabilities_zero_def max_depth_def)

lemma SessionCapabilities_wire [simp]: "9003 \<le> E \<Longrightarrow> wire E s SessionCapabilities_codec"
  using wire_mono [OF wire_obj [OF SessionCapabilities_obj], of E s] by simp

subsection \<open>\<open>AgentCapabilities\<close>\<close>

record AgentCapabilities =
  Meta :: "(string \<times> string) list option"
  Auth :: "AgentAuthCapabilities"
  LoadSession :: "bool"
  McpCapabilities :: "McpCapabilities"
  PromptCapabilities :: "PromptCapabilities"
  SessionCapabilities :: "SessionCapabilities"

definition AgentCapabilities_zero :: AgentCapabilities where
  "AgentCapabilities_zero = \<lparr>Meta = None, Auth = AgentAuthCapabilities_zero, LoadSession = False,
      McpCapabilities = McpCapabilities_zero, PromptCapabilities = PromptCapabilities_zero, SessionCapabilities
      = SessionCapabilities_zero\<rparr>"

definition AgentCapabilities_fields :: "AgentCapabilities fld list" where
  "AgentCapabilities_fields =
     [go_field ''_meta'' True (go_map go_raw) AgentCapabilities.Meta AgentCapabilities.Meta_update,
      go_field ''auth'' True AgentAuthCapabilities_codec AgentCapabilities.Auth AgentCapabilities.Auth_update,
      go_field ''loadSession'' True go_bool AgentCapabilities.LoadSession AgentCapabilities.LoadSession_update,
      go_field ''mcpCapabilities'' True McpCapabilities_codec AgentCapabilities.McpCapabilities
          AgentCapabilities.McpCapabilities_update,
      go_field ''promptCapabilities'' True PromptCapabilities_codec AgentCapabilities.PromptCapabilities
          AgentCapabilities.PromptCapabilities_update,
      go_field ''sessionCapabilities'' True SessionCapabilities_codec AgentCapabilities.SessionCapabilities
          AgentCapabilities.SessionCapabilities_update]"

definition AgentCapabilities_UnmarshalJSON :: "raw_json \<Rightarrow> AgentCapabilities decoded" where
  "AgentCapabilities_UnmarshalJSON =
     decode_struct
       []
       (go_struct AgentCapabilities_zero AgentCapabilities_fields)
       (in_turn [defaulted ''auth'' ''{}'' AgentAuthCapabilities_codec AgentCapabilities.Auth
            AgentCapabilities.Auth_update,
         defaulted ''loadSession'' ''false'' go_bool AgentCapabilities.LoadSession
             AgentCapabilities.LoadSession_update,
         defaulted ''mcpCapabilities'' ''{\"http\":false,\"sse\":false}'' McpCapabilities_codec
             AgentCapabilities.McpCapabilities AgentCapabilities.McpCapabilities_update,
         defaulted ''promptCapabilities'' ''{\"audio\":false,\"embeddedContext\":false,\"image\":false}''
             PromptCapabilities_codec AgentCapabilities.PromptCapabilities
             AgentCapabilities.PromptCapabilities_update,
         defaulted ''sessionCapabilities'' ''{}'' SessionCapabilities_codec
             AgentCapabilities.SessionCapabilities AgentCapabilities.SessionCapabilities_update])"

definition AgentCapabilities_MarshalJSON :: "AgentCapabilities \<Rightarrow> string option" where
  "AgentCapabilities_MarshalJSON v = c_enc (go_struct AgentCapabilities_zero AgentCapabilities_fields) v"

definition AgentCapabilities_codec :: "AgentCapabilities codec" where
  "AgentCapabilities_codec = with_marshal AgentCapabilities_MarshalJSON (with_unmarshal
      AgentCapabilities_UnmarshalJSON (go_struct AgentCapabilities_zero AgentCapabilities_fields))"

lemma AgentCapabilities_zero_codec [simp]: "c_zero AgentCapabilities_codec = AgentCapabilities_zero"
  by (simp add: AgentCapabilities_codec_def)

lemma AgentCapabilities_kept [simp]: "\<not> c_empty AgentCapabilities_codec v"
  by (simp add: AgentCapabilities_codec_def)

lemma AgentCapabilities_obj:
  "obj 9003 (map f_name AgentCapabilities_fields) [] AgentCapabilities_codec"
  unfolding AgentCapabilities_codec_def AgentCapabilities_UnmarshalJSON_def
proof (rule obj_marshal)
  show "obj 9003 (map f_name AgentCapabilities_fields)
     []
    (with_unmarshal (decode_struct
       []
       (go_struct AgentCapabilities_zero AgentCapabilities_fields)
       (in_turn [defaulted ''auth'' ''{}'' AgentAuthCapabilities_codec AgentCapabilities.Auth
            AgentCapabilities.Auth_update,
         defaulted ''loadSession'' ''false'' go_bool AgentCapabilities.LoadSession
             AgentCapabilities.LoadSession_update,
         defaulted ''mcpCapabilities'' ''{\"http\":false,\"sse\":false}'' McpCapabilities_codec
             AgentCapabilities.McpCapabilities AgentCapabilities.McpCapabilities_update,
         defaulted ''promptCapabilities'' ''{\"audio\":false,\"embeddedContext\":false,\"image\":false}''
             PromptCapabilities_codec AgentCapabilities.PromptCapabilities
             AgentCapabilities.PromptCapabilities_update,
         defaulted ''sessionCapabilities'' ''{}'' SessionCapabilities_codec
             AgentCapabilities.SessionCapabilities AgentCapabilities.SessionCapabilities_update]))
     (go_struct AgentCapabilities_zero AgentCapabilities_fields))"
    by (rule unmarshal_obj) (simp_all add: AgentCapabilities_fields_def AgentCapabilities_zero_def
          max_depth_def)
qed (simp_all add: max_depth_def AgentCapabilities_MarshalJSON_def)

lemma AgentCapabilities_wire [simp]: "9004 \<le> E \<Longrightarrow> wire E s AgentCapabilities_codec"
  using wire_mono [OF wire_obj [OF AgentCapabilities_obj], of E s] by simp

section \<open>Capabilities of a client\<close>

subsection \<open>\<open>AuthCapabilities\<close>\<close>

record AuthCapabilities =
  Meta :: "(string \<times> string) list option"
  Terminal :: "bool"

definition AuthCapabilities_zero :: AuthCapabilities where
  "AuthCapabilities_zero = \<lparr>Meta = None, Terminal = False\<rparr>"

definition AuthCapabilities_fields :: "AuthCapabilities fld list" where
  "AuthCapabilities_fields =
     [go_field ''_meta'' True (go_map go_raw) AuthCapabilities.Meta AuthCapabilities.Meta_update,
      go_field ''terminal'' True go_bool AuthCapabilities.Terminal AuthCapabilities.Terminal_update]"

definition AuthCapabilities_UnmarshalJSON :: "raw_json \<Rightarrow> AuthCapabilities decoded" where
  "AuthCapabilities_UnmarshalJSON =
     decode_struct
       []
       (go_struct AuthCapabilities_zero AuthCapabilities_fields)
       (in_turn [defaulted ''terminal'' ''false'' go_bool AuthCapabilities.Terminal AuthCapabilities.Terminal_update])"

definition AuthCapabilities_MarshalJSON :: "AuthCapabilities \<Rightarrow> string option" where
  "AuthCapabilities_MarshalJSON v = c_enc (go_struct AuthCapabilities_zero AuthCapabilities_fields) v"

definition AuthCapabilities_codec :: "AuthCapabilities codec" where
  "AuthCapabilities_codec = with_marshal AuthCapabilities_MarshalJSON (with_unmarshal
      AuthCapabilities_UnmarshalJSON (go_struct AuthCapabilities_zero AuthCapabilities_fields))"

lemma AuthCapabilities_zero_codec [simp]: "c_zero AuthCapabilities_codec = AuthCapabilities_zero"
  by (simp add: AuthCapabilities_codec_def)

lemma AuthCapabilities_kept [simp]: "\<not> c_empty AuthCapabilities_codec v"
  by (simp add: AuthCapabilities_codec_def)

lemma AuthCapabilities_obj:
  "obj 9001 (map f_name AuthCapabilities_fields) [] AuthCapabilities_codec"
  unfolding AuthCapabilities_codec_def AuthCapabilities_UnmarshalJSON_def
proof (rule obj_marshal)
  show "obj 9001 (map f_name AuthCapabilities_fields)
     []
    (with_unmarshal (decode_struct
       []
       (go_struct AuthCapabilities_zero AuthCapabilities_fields)
       (in_turn [defaulted ''terminal'' ''false'' go_bool AuthCapabilities.Terminal AuthCapabilities.Terminal_update]))
     (go_struct AuthCapabilities_zero AuthCapabilities_fields))"
    by (rule unmarshal_obj) (simp_all add: AuthCapabilities_fields_def AuthCapabilities_zero_def max_depth_def)
qed (simp_all add: max_depth_def AuthCapabilities_MarshalJSON_def)

lemma AuthCapabilities_wire [simp]: "9002 \<le> E \<Longrightarrow> wire E s AuthCapabilities_codec"
  using wire_mono [OF wire_obj [OF AuthCapabilities_obj], of E s] by simp

subsection \<open>\<open>ElicitationFormCapabilities\<close>\<close>

record ElicitationFormCapabilities =
  Meta :: "(string \<times> string) list option"

definition ElicitationFormCapabilities_zero :: ElicitationFormCapabilities where
  "ElicitationFormCapabilities_zero = \<lparr>Meta = None\<rparr>"

definition ElicitationFormCapabilities_fields :: "ElicitationFormCapabilities fld list" where
  "ElicitationFormCapabilities_fields =
     [go_field ''_meta'' True (go_map go_raw) ElicitationFormCapabilities.Meta
         ElicitationFormCapabilities.Meta_update]"

definition ElicitationFormCapabilities_codec :: "ElicitationFormCapabilities codec" where
  "ElicitationFormCapabilities_codec = go_struct ElicitationFormCapabilities_zero
      ElicitationFormCapabilities_fields"

lemma ElicitationFormCapabilities_zero_codec [simp]: "c_zero ElicitationFormCapabilities_codec = ElicitationFormCapabilities_zero"
  by (simp add: ElicitationFormCapabilities_codec_def)

lemma ElicitationFormCapabilities_obj:
  "obj 9001 (map f_name ElicitationFormCapabilities_fields) [] ElicitationFormCapabilities_codec"
  unfolding ElicitationFormCapabilities_codec_def
  by (rule struct_obj) (simp_all add: ElicitationFormCapabilities_fields_def
        ElicitationFormCapabilities_zero_def max_depth_def)

lemma ElicitationFormCapabilities_wire [simp]: "9002 \<le> E \<Longrightarrow> wire E s ElicitationFormCapabilities_codec"
  using wire_mono [OF wire_obj [OF ElicitationFormCapabilities_obj], of E s] by simp

subsection \<open>\<open>ElicitationUrlCapabilities\<close>\<close>

record ElicitationUrlCapabilities =
  Meta :: "(string \<times> string) list option"

definition ElicitationUrlCapabilities_zero :: ElicitationUrlCapabilities where
  "ElicitationUrlCapabilities_zero = \<lparr>Meta = None\<rparr>"

definition ElicitationUrlCapabilities_fields :: "ElicitationUrlCapabilities fld list" where
  "ElicitationUrlCapabilities_fields =
     [go_field ''_meta'' True (go_map go_raw) ElicitationUrlCapabilities.Meta
         ElicitationUrlCapabilities.Meta_update]"

definition ElicitationUrlCapabilities_codec :: "ElicitationUrlCapabilities codec" where
  "ElicitationUrlCapabilities_codec = go_struct ElicitationUrlCapabilities_zero
      ElicitationUrlCapabilities_fields"

lemma ElicitationUrlCapabilities_zero_codec [simp]: "c_zero ElicitationUrlCapabilities_codec = ElicitationUrlCapabilities_zero"
  by (simp add: ElicitationUrlCapabilities_codec_def)

lemma ElicitationUrlCapabilities_obj:
  "obj 9001 (map f_name ElicitationUrlCapabilities_fields) [] ElicitationUrlCapabilities_codec"
  unfolding ElicitationUrlCapabilities_codec_def
  by (rule struct_obj) (simp_all add: ElicitationUrlCapabilities_fields_def ElicitationUrlCapabilities_zero_def
        max_depth_def)

lemma ElicitationUrlCapabilities_wire [simp]: "9002 \<le> E \<Longrightarrow> wire E s ElicitationUrlCapabilities_codec"
  using wire_mono [OF wire_obj [OF ElicitationUrlCapabilities_obj], of E s] by simp

subsection \<open>\<open>ElicitationCapabilities\<close>\<close>

record ElicitationCapabilities =
  Meta :: "(string \<times> string) list option"
  Form :: "ElicitationFormCapabilities option"
  Url :: "ElicitationUrlCapabilities option"

definition ElicitationCapabilities_zero :: ElicitationCapabilities where
  "ElicitationCapabilities_zero = \<lparr>Meta = None, Form = None, Url = None\<rparr>"

definition ElicitationCapabilities_fields :: "ElicitationCapabilities fld list" where
  "ElicitationCapabilities_fields =
     [go_field ''_meta'' True (go_map go_raw) ElicitationCapabilities.Meta ElicitationCapabilities.Meta_update,
      go_field ''form'' True (go_ptr ElicitationFormCapabilities_codec) ElicitationCapabilities.Form
          ElicitationCapabilities.Form_update,
      go_field ''url'' True (go_ptr ElicitationUrlCapabilities_codec) ElicitationCapabilities.Url
          ElicitationCapabilities.Url_update]"

definition ElicitationCapabilities_codec :: "ElicitationCapabilities codec" where
  "ElicitationCapabilities_codec = go_struct ElicitationCapabilities_zero ElicitationCapabilities_fields"

lemma ElicitationCapabilities_zero_codec [simp]: "c_zero ElicitationCapabilities_codec = ElicitationCapabilities_zero"
  by (simp add: ElicitationCapabilities_codec_def)

lemma ElicitationCapabilities_obj:
  "obj 9002 (map f_name ElicitationCapabilities_fields) [] ElicitationCapabilities_codec"
  unfolding ElicitationCapabilities_codec_def
  by (rule struct_obj) (simp_all add: ElicitationCapabilities_fields_def ElicitationCapabilities_zero_def
        max_depth_def)

lemma ElicitationCapabilities_wire [simp]: "9003 \<le> E \<Longrightarrow> wire E s ElicitationCapabilities_codec"
  using wire_mono [OF wire_obj [OF ElicitationCapabilities_obj], of E s] by simp

subsection \<open>\<open>FileSystemCapabilities\<close>\<close>

record FileSystemCapabilities =
  Meta :: "(string \<times> string) list option"
  ReadTextFile :: "bool"
  WriteTextFile :: "bool"

definition FileSystemCapabilities_zero :: FileSystemCapabilities where
  "FileSystemCapabilities_zero = \<lparr>Meta = None, ReadTextFile = False, WriteTextFile = False\<rparr>"

definition FileSystemCapabilities_fields :: "FileSystemCapabilities fld list" where
  "FileSystemCapabilities_fields =
     [go_field ''_meta'' True (go_map go_raw) FileSystemCapabilities.Meta FileSystemCapabilities.Meta_update,
      go_field ''readTextFile'' True go_bool FileSystemCapabilities.ReadTextFile
          FileSystemCapabilities.ReadTextFile_update,
      go_field ''writeTextFile'' True go_bool FileSystemCapabilities.WriteTextFile
          FileSystemCapabilities.WriteTextFile_update]"

definition FileSystemCapabilities_UnmarshalJSON :: "raw_json \<Rightarrow> FileSystemCapabilities decoded" where
  "FileSystemCapabilities_UnmarshalJSON =
     decode_struct
       []
       (go_struct FileSystemCapabilities_zero FileSystemCapabilities_fields)
       (in_turn [defaulted ''readTextFile'' ''false'' go_bool FileSystemCapabilities.ReadTextFile
            FileSystemCapabilities.ReadTextFile_update,
         defaulted ''writeTextFile'' ''false'' go_bool FileSystemCapabilities.WriteTextFile
             FileSystemCapabilities.WriteTextFile_update])"

definition FileSystemCapabilities_MarshalJSON :: "FileSystemCapabilities \<Rightarrow> string option" where
  "FileSystemCapabilities_MarshalJSON v = c_enc (go_struct FileSystemCapabilities_zero
      FileSystemCapabilities_fields) v"

definition FileSystemCapabilities_codec :: "FileSystemCapabilities codec" where
  "FileSystemCapabilities_codec = with_marshal FileSystemCapabilities_MarshalJSON (with_unmarshal
      FileSystemCapabilities_UnmarshalJSON (go_struct FileSystemCapabilities_zero
      FileSystemCapabilities_fields))"

lemma FileSystemCapabilities_zero_codec [simp]: "c_zero FileSystemCapabilities_codec = FileSystemCapabilities_zero"
  by (simp add: FileSystemCapabilities_codec_def)

lemma FileSystemCapabilities_kept [simp]: "\<not> c_empty FileSystemCapabilities_codec v"
  by (simp add: FileSystemCapabilities_codec_def)

lemma FileSystemCapabilities_obj:
  "obj 9001 (map f_name FileSystemCapabilities_fields) [] FileSystemCapabilities_codec"
  unfolding FileSystemCapabilities_codec_def FileSystemCapabilities_UnmarshalJSON_def
proof (rule obj_marshal)
  show "obj 9001 (map f_name FileSystemCapabilities_fields)
     []
    (with_unmarshal (decode_struct
       []
       (go_struct FileSystemCapabilities_zero FileSystemCapabilities_fields)
       (in_turn [defaulted ''readTextFile'' ''false'' go_bool FileSystemCapabilities.ReadTextFile
            FileSystemCapabilities.ReadTextFile_update,
         defaulted ''writeTextFile'' ''false'' go_bool FileSystemCapabilities.WriteTextFile
             FileSystemCapabilities.WriteTextFile_update]))
     (go_struct FileSystemCapabilities_zero FileSystemCapabilities_fields))"
    by (rule unmarshal_obj) (simp_all add: FileSystemCapabilities_fields_def FileSystemCapabilities_zero_def
          max_depth_def)
qed (simp_all add: max_depth_def FileSystemCapabilities_MarshalJSON_def)

lemma FileSystemCapabilities_wire [simp]: "9002 \<le> E \<Longrightarrow> wire E s FileSystemCapabilities_codec"
  using wire_mono [OF wire_obj [OF FileSystemCapabilities_obj], of E s] by simp

subsection \<open>\<open>CompactionCapabilities\<close>\<close>

type_synonym CompactionCapabilities = unit

definition CompactionCapabilities_zero :: CompactionCapabilities where
  "CompactionCapabilities_zero = ()"

definition CompactionCapabilities_fields :: "CompactionCapabilities fld list" where
  "CompactionCapabilities_fields = []"

definition CompactionCapabilities_codec :: "CompactionCapabilities codec" where
  "CompactionCapabilities_codec = go_struct CompactionCapabilities_zero CompactionCapabilities_fields"

lemma CompactionCapabilities_zero_codec [simp]: "c_zero CompactionCapabilities_codec = CompactionCapabilities_zero"
  by (simp add: CompactionCapabilities_codec_def)

lemma CompactionCapabilities_obj: "obj 9000 (map f_name CompactionCapabilities_fields) [] CompactionCapabilities_codec"
  unfolding CompactionCapabilities_codec_def
  by (rule struct_obj) (simp_all add: CompactionCapabilities_fields_def CompactionCapabilities_zero_def max_depth_def)

lemma CompactionCapabilities_wire [simp]: "9001 \<le> E \<Longrightarrow> wire E s CompactionCapabilities_codec"
  using wire_mono [OF wire_obj [OF CompactionCapabilities_obj], of E s] by simp

subsection \<open>\<open>BooleanConfigOptionCapabilities\<close>\<close>

record BooleanConfigOptionCapabilities =
  Meta :: "(string \<times> string) list option"

definition BooleanConfigOptionCapabilities_zero :: BooleanConfigOptionCapabilities where
  "BooleanConfigOptionCapabilities_zero = \<lparr>Meta = None\<rparr>"

definition BooleanConfigOptionCapabilities_fields :: "BooleanConfigOptionCapabilities fld list" where
  "BooleanConfigOptionCapabilities_fields =
     [go_field ''_meta'' True (go_map go_raw) BooleanConfigOptionCapabilities.Meta
         BooleanConfigOptionCapabilities.Meta_update]"

definition BooleanConfigOptionCapabilities_codec :: "BooleanConfigOptionCapabilities codec" where
  "BooleanConfigOptionCapabilities_codec = go_struct BooleanConfigOptionCapabilities_zero
      BooleanConfigOptionCapabilities_fields"

lemma BooleanConfigOptionCapabilities_zero_codec [simp]: "c_zero BooleanConfigOptionCapabilities_codec = BooleanConfigOptionCapabilities_zero"
  by (simp add: BooleanConfigOptionCapabilities_codec_def)

lemma BooleanConfigOptionCapabilities_obj:
  "obj 9001 (map f_name BooleanConfigOptionCapabilities_fields) [] BooleanConfigOptionCapabilities_codec"
  unfolding BooleanConfigOptionCapabilities_codec_def
  by (rule struct_obj) (simp_all add: BooleanConfigOptionCapabilities_fields_def
        BooleanConfigOptionCapabilities_zero_def max_depth_def)

lemma BooleanConfigOptionCapabilities_wire [simp]: "9002 \<le> E \<Longrightarrow> wire E s BooleanConfigOptionCapabilities_codec"
  using wire_mono [OF wire_obj [OF BooleanConfigOptionCapabilities_obj], of E s] by simp

subsection \<open>\<open>SessionConfigOptionsCapabilities\<close>\<close>

record SessionConfigOptionsCapabilities =
  Meta :: "(string \<times> string) list option"
  Boolean :: "BooleanConfigOptionCapabilities option"

definition SessionConfigOptionsCapabilities_zero :: SessionConfigOptionsCapabilities where
  "SessionConfigOptionsCapabilities_zero = \<lparr>Meta = None, Boolean = None\<rparr>"

definition SessionConfigOptionsCapabilities_fields :: "SessionConfigOptionsCapabilities fld list" where
  "SessionConfigOptionsCapabilities_fields =
     [go_field ''_meta'' True (go_map go_raw) SessionConfigOptionsCapabilities.Meta
         SessionConfigOptionsCapabilities.Meta_update,
      go_field ''boolean'' True (go_ptr BooleanConfigOptionCapabilities_codec)
          SessionConfigOptionsCapabilities.Boolean SessionConfigOptionsCapabilities.Boolean_update]"

definition SessionConfigOptionsCapabilities_codec :: "SessionConfigOptionsCapabilities codec" where
  "SessionConfigOptionsCapabilities_codec = go_struct SessionConfigOptionsCapabilities_zero
      SessionConfigOptionsCapabilities_fields"

lemma SessionConfigOptionsCapabilities_zero_codec [simp]: "c_zero SessionConfigOptionsCapabilities_codec = SessionConfigOptionsCapabilities_zero"
  by (simp add: SessionConfigOptionsCapabilities_codec_def)

lemma SessionConfigOptionsCapabilities_obj:
  "obj 9002 (map f_name SessionConfigOptionsCapabilities_fields) [] SessionConfigOptionsCapabilities_codec"
  unfolding SessionConfigOptionsCapabilities_codec_def
  by (rule struct_obj) (simp_all add: SessionConfigOptionsCapabilities_fields_def
        SessionConfigOptionsCapabilities_zero_def max_depth_def)

lemma SessionConfigOptionsCapabilities_wire [simp]: "9003 \<le> E \<Longrightarrow> wire E s SessionConfigOptionsCapabilities_codec"
  using wire_mono [OF wire_obj [OF SessionConfigOptionsCapabilities_obj], of E s] by simp

subsection \<open>\<open>NoticeCapabilities\<close>\<close>

type_synonym NoticeCapabilities = unit

definition NoticeCapabilities_zero :: NoticeCapabilities where
  "NoticeCapabilities_zero = ()"

definition NoticeCapabilities_fields :: "NoticeCapabilities fld list" where
  "NoticeCapabilities_fields = []"

definition NoticeCapabilities_codec :: "NoticeCapabilities codec" where
  "NoticeCapabilities_codec = go_struct NoticeCapabilities_zero NoticeCapabilities_fields"

lemma NoticeCapabilities_zero_codec [simp]: "c_zero NoticeCapabilities_codec = NoticeCapabilities_zero"
  by (simp add: NoticeCapabilities_codec_def)

lemma NoticeCapabilities_obj: "obj 9000 (map f_name NoticeCapabilities_fields) [] NoticeCapabilities_codec"
  unfolding NoticeCapabilities_codec_def
  by (rule struct_obj) (simp_all add: NoticeCapabilities_fields_def NoticeCapabilities_zero_def max_depth_def)

lemma NoticeCapabilities_wire [simp]: "9001 \<le> E \<Longrightarrow> wire E s NoticeCapabilities_codec"
  using wire_mono [OF wire_obj [OF NoticeCapabilities_obj], of E s] by simp

subsection \<open>\<open>ClientSessionCapabilities\<close>\<close>

record ClientSessionCapabilities =
  Meta :: "(string \<times> string) list option"
  Compaction :: "CompactionCapabilities option"
  ConfigOptions :: "SessionConfigOptionsCapabilities option"
  Notices :: "NoticeCapabilities option"

definition ClientSessionCapabilities_zero :: ClientSessionCapabilities where
  "ClientSessionCapabilities_zero = \<lparr>Meta = None, Compaction = None, ConfigOptions = None, Notices =
      None\<rparr>"

definition ClientSessionCapabilities_fields :: "ClientSessionCapabilities fld list" where
  "ClientSessionCapabilities_fields =
     [go_field ''_meta'' True (go_map go_raw) ClientSessionCapabilities.Meta
         ClientSessionCapabilities.Meta_update,
      go_field ''compaction'' True (lenient (go_ptr CompactionCapabilities_codec))
          ClientSessionCapabilities.Compaction ClientSessionCapabilities.Compaction_update,
      go_field ''configOptions'' True (go_ptr SessionConfigOptionsCapabilities_codec)
          ClientSessionCapabilities.ConfigOptions ClientSessionCapabilities.ConfigOptions_update,
      go_field ''notices'' True (lenient (go_ptr NoticeCapabilities_codec)) ClientSessionCapabilities.Notices
          ClientSessionCapabilities.Notices_update]"

definition ClientSessionCapabilities_UnmarshalJSON :: "raw_json \<Rightarrow> ClientSessionCapabilities decoded" where
  "ClientSessionCapabilities_UnmarshalJSON =
     decode_struct
       []
       (go_struct ClientSessionCapabilities_zero ClientSessionCapabilities_fields)
       (in_turn [])"

definition ClientSessionCapabilities_codec :: "ClientSessionCapabilities codec" where
  "ClientSessionCapabilities_codec = with_unmarshal ClientSessionCapabilities_UnmarshalJSON (go_struct
      ClientSessionCapabilities_zero ClientSessionCapabilities_fields)"

lemma ClientSessionCapabilities_zero_codec [simp]: "c_zero ClientSessionCapabilities_codec = ClientSessionCapabilities_zero"
  by (simp add: ClientSessionCapabilities_codec_def)

lemma ClientSessionCapabilities_obj:
  "obj 9003 (map f_name ClientSessionCapabilities_fields) [] ClientSessionCapabilities_codec"
  unfolding ClientSessionCapabilities_codec_def ClientSessionCapabilities_UnmarshalJSON_def
  by (rule unmarshal_obj) (simp_all add: ClientSessionCapabilities_fields_def ClientSessionCapabilities_zero_def
        max_depth_def)

lemma ClientSessionCapabilities_wire [simp]: "9004 \<le> E \<Longrightarrow> wire E s ClientSessionCapabilities_codec"
  using wire_mono [OF wire_obj [OF ClientSessionCapabilities_obj], of E s] by simp

subsection \<open>\<open>ClientCapabilities\<close>\<close>

record ClientCapabilities =
  Meta :: "(string \<times> string) list option"
  Auth :: "AuthCapabilities"
  Elicitation :: "ElicitationCapabilities option"
  Fs :: "FileSystemCapabilities"
  Session :: "ClientSessionCapabilities option"
  Terminal :: "bool"

definition ClientCapabilities_zero :: ClientCapabilities where
  "ClientCapabilities_zero = \<lparr>Meta = None, Auth = AuthCapabilities_zero, Elicitation = None, Fs =
      FileSystemCapabilities_zero, Session = None, Terminal = False\<rparr>"

definition ClientCapabilities_fields :: "ClientCapabilities fld list" where
  "ClientCapabilities_fields =
     [go_field ''_meta'' True (go_map go_raw) ClientCapabilities.Meta ClientCapabilities.Meta_update,
      go_field ''auth'' True AuthCapabilities_codec ClientCapabilities.Auth ClientCapabilities.Auth_update,
      go_field ''elicitation'' True (go_ptr ElicitationCapabilities_codec) ClientCapabilities.Elicitation
          ClientCapabilities.Elicitation_update,
      go_field ''fs'' True FileSystemCapabilities_codec ClientCapabilities.Fs ClientCapabilities.Fs_update,
      go_field ''session'' True (go_ptr ClientSessionCapabilities_codec) ClientCapabilities.Session
          ClientCapabilities.Session_update,
      go_field ''terminal'' True go_bool ClientCapabilities.Terminal ClientCapabilities.Terminal_update]"

definition ClientCapabilities_UnmarshalJSON :: "raw_json \<Rightarrow> ClientCapabilities decoded" where
  "ClientCapabilities_UnmarshalJSON =
     decode_struct
       []
       (go_struct ClientCapabilities_zero ClientCapabilities_fields)
       (in_turn [defaulted ''auth'' ''{\"terminal\":false}'' AuthCapabilities_codec ClientCapabilities.Auth
            ClientCapabilities.Auth_update,
         defaulted ''fs'' ''{\"readTextFile\":false,\"writeTextFile\":false}'' FileSystemCapabilities_codec
             ClientCapabilities.Fs ClientCapabilities.Fs_update,
         defaulted ''terminal'' ''false'' go_bool ClientCapabilities.Terminal
             ClientCapabilities.Terminal_update])"

definition ClientCapabilities_MarshalJSON :: "ClientCapabilities \<Rightarrow> string option" where
  "ClientCapabilities_MarshalJSON v = c_enc (go_struct ClientCapabilities_zero ClientCapabilities_fields) v"

definition ClientCapabilities_codec :: "ClientCapabilities codec" where
  "ClientCapabilities_codec = with_marshal ClientCapabilities_MarshalJSON (with_unmarshal
      ClientCapabilities_UnmarshalJSON (go_struct ClientCapabilities_zero ClientCapabilities_fields))"

lemma ClientCapabilities_zero_codec [simp]: "c_zero ClientCapabilities_codec = ClientCapabilities_zero"
  by (simp add: ClientCapabilities_codec_def)

lemma ClientCapabilities_kept [simp]: "\<not> c_empty ClientCapabilities_codec v"
  by (simp add: ClientCapabilities_codec_def)

lemma ClientCapabilities_obj:
  "obj 9004 (map f_name ClientCapabilities_fields) [] ClientCapabilities_codec"
  unfolding ClientCapabilities_codec_def ClientCapabilities_UnmarshalJSON_def
proof (rule obj_marshal)
  show "obj 9004 (map f_name ClientCapabilities_fields)
     []
    (with_unmarshal (decode_struct
       []
       (go_struct ClientCapabilities_zero ClientCapabilities_fields)
       (in_turn [defaulted ''auth'' ''{\"terminal\":false}'' AuthCapabilities_codec ClientCapabilities.Auth
            ClientCapabilities.Auth_update,
         defaulted ''fs'' ''{\"readTextFile\":false,\"writeTextFile\":false}'' FileSystemCapabilities_codec
             ClientCapabilities.Fs ClientCapabilities.Fs_update,
         defaulted ''terminal'' ''false'' go_bool ClientCapabilities.Terminal
             ClientCapabilities.Terminal_update]))
     (go_struct ClientCapabilities_zero ClientCapabilities_fields))"
    by (rule unmarshal_obj) (simp_all add: ClientCapabilities_fields_def ClientCapabilities_zero_def
          max_depth_def)
qed (simp_all add: max_depth_def ClientCapabilities_MarshalJSON_def)

lemma ClientCapabilities_wire [simp]: "9005 \<le> E \<Longrightarrow> wire E s ClientCapabilities_codec"
  using wire_mono [OF wire_obj [OF ClientCapabilities_obj], of E s] by simp

section \<open>Authentication\<close>

subsection \<open>\<open>AuthMethodTerminalInline\<close>\<close>

record AuthMethodTerminalInline =
  Meta :: "(string \<times> string) list option"
  Args :: "string list option"
  Description :: "string option"
  Env :: "(string \<times> any_value) list option"
  Id :: "string"
  Name :: "string"
  Type :: "string"

definition AuthMethodTerminalInline_zero :: AuthMethodTerminalInline where
  "AuthMethodTerminalInline_zero = \<lparr>Meta = None, Args = None, Description = None, Env = None, Id = [],
      Name = [], Type = []\<rparr>"

definition AuthMethodTerminalInline_fields :: "AuthMethodTerminalInline fld list" where
  "AuthMethodTerminalInline_fields =
     [go_field ''_meta'' True (go_map go_raw) AuthMethodTerminalInline.Meta
         AuthMethodTerminalInline.Meta_update,
      go_field ''args'' True (go_slice go_string) AuthMethodTerminalInline.Args
          AuthMethodTerminalInline.Args_update,
      go_field ''description'' True (go_ptr go_string) AuthMethodTerminalInline.Description
          AuthMethodTerminalInline.Description_update,
      go_field ''env'' True go_texts AuthMethodTerminalInline.Env AuthMethodTerminalInline.Env_update,
      go_field ''id'' False go_string AuthMethodTerminalInline.Id AuthMethodTerminalInline.Id_update,
      go_field ''name'' False go_string AuthMethodTerminalInline.Name AuthMethodTerminalInline.Name_update,
      go_field ''type'' False (go_tag ''terminal'') AuthMethodTerminalInline.Type
          AuthMethodTerminalInline.Type_update]"

definition AuthMethodTerminalInline_UnmarshalJSON :: "raw_json \<Rightarrow> AuthMethodTerminalInline decoded" where
  "AuthMethodTerminalInline_UnmarshalJSON =
     decode_struct
       [required ''id'',
        required ''name'',
        required ''type'',
        items ''args'' go_string,
        map_values ''env'' go_string]
       (go_struct AuthMethodTerminalInline_zero AuthMethodTerminalInline_fields)
       (in_turn [])"

definition AuthMethodTerminalInline_codec :: "AuthMethodTerminalInline codec" where
  "AuthMethodTerminalInline_codec = with_unmarshal AuthMethodTerminalInline_UnmarshalJSON (go_struct
      AuthMethodTerminalInline_zero AuthMethodTerminalInline_fields)"

lemma AuthMethodTerminalInline_zero_codec [simp]: "c_zero AuthMethodTerminalInline_codec = AuthMethodTerminalInline_zero"
  by (simp add: AuthMethodTerminalInline_codec_def)

lemma AuthMethodTerminalInline_obj:
  "obj 9001 (map f_name AuthMethodTerminalInline_fields)
     [required ''id'',
      required ''name'',
      required ''type'',
      items ''args'' go_string,
      map_values ''env'' go_string,
      typed ''id'' go_string,
      typed ''name'' go_string,
      typed ''type'' go_string,
      tagged ''type'' ''terminal'']
     AuthMethodTerminalInline_codec"
  unfolding AuthMethodTerminalInline_codec_def AuthMethodTerminalInline_UnmarshalJSON_def
  by (rule unmarshal_obj) (simp_all add: AuthMethodTerminalInline_fields_def AuthMethodTerminalInline_zero_def
        max_depth_def)

lemma AuthMethodTerminalInline_wire [simp]: "9002 \<le> E \<Longrightarrow> wire E s AuthMethodTerminalInline_codec"
  using wire_mono [OF wire_obj [OF AuthMethodTerminalInline_obj], of E s] by simp

lemma AuthMethodTerminalInline_names: "f_name ` set AuthMethodTerminalInline_fields = {''_meta'', ''args'', ''description'', ''env'', ''id'', ''name'', ''type''}"
  by (auto simp: AuthMethodTerminalInline_fields_def)

subsection \<open>\<open>AuthMethodAgent\<close>\<close>

record AuthMethodAgent =
  Meta :: "(string \<times> string) list option"
  Description :: "string option"
  Id :: "string"
  Name :: "string"

definition AuthMethodAgent_zero :: AuthMethodAgent where
  "AuthMethodAgent_zero = \<lparr>Meta = None, Description = None, Id = [], Name = []\<rparr>"

definition AuthMethodAgent_fields :: "AuthMethodAgent fld list" where
  "AuthMethodAgent_fields =
     [go_field ''_meta'' True (go_map go_raw) AuthMethodAgent.Meta AuthMethodAgent.Meta_update,
      go_field ''description'' True (go_ptr go_string) AuthMethodAgent.Description
          AuthMethodAgent.Description_update,
      go_field ''id'' False go_string AuthMethodAgent.Id AuthMethodAgent.Id_update,
      go_field ''name'' False go_string AuthMethodAgent.Name AuthMethodAgent.Name_update]"

definition AuthMethodAgent_UnmarshalJSON :: "raw_json \<Rightarrow> AuthMethodAgent decoded" where
  "AuthMethodAgent_UnmarshalJSON =
     decode_struct
       [required ''id'',
        required ''name'']
       (go_struct AuthMethodAgent_zero AuthMethodAgent_fields)
       (in_turn [])"

definition AuthMethodAgent_codec :: "AuthMethodAgent codec" where
  "AuthMethodAgent_codec = with_unmarshal AuthMethodAgent_UnmarshalJSON (go_struct AuthMethodAgent_zero
      AuthMethodAgent_fields)"

lemma AuthMethodAgent_zero_codec [simp]: "c_zero AuthMethodAgent_codec = AuthMethodAgent_zero"
  by (simp add: AuthMethodAgent_codec_def)

lemma AuthMethodAgent_obj:
  "obj 9001 (map f_name AuthMethodAgent_fields)
     [required ''id'',
      required ''name'',
      typed ''id'' go_string,
      typed ''name'' go_string]
     AuthMethodAgent_codec"
  unfolding AuthMethodAgent_codec_def AuthMethodAgent_UnmarshalJSON_def
  by (rule unmarshal_obj) (simp_all add: AuthMethodAgent_fields_def AuthMethodAgent_zero_def max_depth_def)

lemma AuthMethodAgent_wire [simp]: "9002 \<le> E \<Longrightarrow> wire E s AuthMethodAgent_codec"
  using wire_mono [OF wire_obj [OF AuthMethodAgent_obj], of E s] by simp

lemma AuthMethodAgent_names: "f_name ` set AuthMethodAgent_fields = {''_meta'', ''description'', ''id'', ''name''}"
  by (auto simp: AuthMethodAgent_fields_def)

subsection \<open>\<open>AuthMethod\<close>\<close>

record AuthMethod =
  Terminal :: "AuthMethodTerminalInline option"
  Agent :: "AuthMethodAgent option"

definition AuthMethod_zero :: AuthMethod where
  "AuthMethod_zero = \<lparr>Terminal = None, Agent = None\<rparr>"

definition AuthMethod_as_Terminal :: "AuthMethod variant" where
  "AuthMethod_as_Terminal =
     go_variant (Some ''terminal'')
       [typed ''id'' go_string,
        typed ''name'' go_string,
        typed ''type'' go_string]
       AuthMethodTerminalInline_codec AuthMethod.Terminal (\<lambda>x.
         AuthMethod_zero\<lparr>AuthMethod.Terminal := Some x\<rparr>)"

definition AuthMethod_as_Agent :: "AuthMethod variant" where
  "AuthMethod_as_Agent =
     go_variant None
       [typed ''id'' go_string,
        typed ''name'' go_string]
       AuthMethodAgent_codec AuthMethod.Agent (\<lambda>x. AuthMethod_zero\<lparr>AuthMethod.Agent := Some
         x\<rparr>)"

definition AuthMethod_variants :: "AuthMethod variant list" where
  "AuthMethod_variants =
     [AuthMethod_as_Terminal,
      AuthMethod_as_Agent]"

definition AuthMethod_UnmarshalJSON :: "raw_json \<Rightarrow> AuthMethod decoded" where
  "AuthMethod_UnmarshalJSON = unmarshal_union ''type'' AuthMethod_variants"

definition AuthMethod_MarshalJSON :: "AuthMethod \<Rightarrow> string option" where
  "AuthMethod_MarshalJSON = marshal_union ''type'' AuthMethod_variants"

definition AuthMethod_codec :: "AuthMethod codec" where
  "AuthMethod_codec = go_union AuthMethod_zero AuthMethod_UnmarshalJSON AuthMethod_MarshalJSON
      AuthMethod_variants"

definition AuthMethod_Validate :: "AuthMethod \<Rightarrow> invalid option" where
  "AuthMethod_Validate = validate_union False ''AuthMethod'' AuthMethod_codec AuthMethod_variants"

definition AuthMethod_named :: "(string list \<times> AuthMethod variant) list" where
  "AuthMethod_named =
     [(map f_name AuthMethodTerminalInline_fields, AuthMethod_as_Terminal),
      (map f_name AuthMethodAgent_fields, AuthMethod_as_Agent)]"

lemma AuthMethod_Terminal_law:
  "variant_law 9001 ''type'' (map f_name AuthMethodTerminalInline_fields) AuthMethod_as_Terminal"
  unfolding AuthMethod_as_Terminal_def
  by (rule go_variant_law [OF obj_mono [OF AuthMethodTerminalInline_obj]]) (simp_all)

lemma AuthMethod_Agent_law:
  "variant_law 9001 ''type'' (map f_name AuthMethodAgent_fields) AuthMethod_as_Agent"
  unfolding AuthMethod_as_Agent_def
  by (rule go_variant_law [OF obj_mono [OF AuthMethodAgent_obj]]) (simp_all add: AuthMethodAgent_names)

lemma AuthMethod_law: "union_law 9001 ''type'' AuthMethod_named"
proof (rule union_lawI)
  show "list_all (\<lambda>(n, v). variant_law 9001 ''type'' n v) AuthMethod_named"
    by (simp add: AuthMethod_named_def AuthMethod_Terminal_law AuthMethod_Agent_law)
  show "list_all (\<lambda>(n, v). v_disc v \<noteq> Some []) AuthMethod_named"
    by (simp add: AuthMethod_named_def AuthMethod_as_Terminal_def AuthMethod_as_Agent_def)
  show "sorted_wrt rivals AuthMethod_named"
    by (simp add: AuthMethod_named_def AuthMethod_zero_def AuthMethod_as_Terminal_def AuthMethod_as_Agent_def
      AuthMethodTerminalInline_names AuthMethodAgent_names)
qed

lemma AuthMethod_wire [simp]: "9002 \<le> E \<Longrightarrow> wire E s AuthMethod_codec"
  using wire_mono [OF wire_union [OF AuthMethod_law, where zero = AuthMethod_zero], where e = E and s' = s]
  by (simp add: AuthMethod_codec_def AuthMethod_UnmarshalJSON_def AuthMethod_MarshalJSON_def
    AuthMethod_variants_def AuthMethod_named_def max_depth_def)

lemma AuthMethod_zero_codec [simp]: "c_zero AuthMethod_codec = AuthMethod_zero"
  by (simp add: AuthMethod_codec_def)

lemma AuthMethod_one: "list_all (\<lambda>v. builds v (\<lambda>u. variants_set AuthMethod_variants u = 1)) AuthMethod_variants"
  by (simp add: AuthMethod_variants_def AuthMethod_zero_def AuthMethod_as_Terminal_def AuthMethod_as_Agent_def)

interpretation authmethod_wire: wire_type AuthMethod_codec 9002
  by unfold_locales (simp_all add: max_depth_def)

lemma AuthMethod_valid: "c_fine AuthMethod_codec u \<Longrightarrow> AuthMethod_Validate u = None"
  unfolding AuthMethod_Validate_def validate_union_def
  by (rule authmethod_wire.validated) (simp_all add: AuthMethod_codec_def union_fine_one [OF AuthMethod_one])

subsection \<open>\<open>AuthMethodTerminal\<close>\<close>

record AuthMethodTerminal =
  Meta :: "(string \<times> string) list option"
  Args :: "string list option"
  Description :: "string option"
  Env :: "(string \<times> any_value) list option"
  Id :: "string"
  Name :: "string"

definition AuthMethodTerminal_zero :: AuthMethodTerminal where
  "AuthMethodTerminal_zero = \<lparr>Meta = None, Args = None, Description = None, Env = None, Id = [], Name =
      []\<rparr>"

definition AuthMethodTerminal_fields :: "AuthMethodTerminal fld list" where
  "AuthMethodTerminal_fields =
     [go_field ''_meta'' True (go_map go_raw) AuthMethodTerminal.Meta AuthMethodTerminal.Meta_update,
      go_field ''args'' True (go_slice go_string) AuthMethodTerminal.Args AuthMethodTerminal.Args_update,
      go_field ''description'' True (go_ptr go_string) AuthMethodTerminal.Description
          AuthMethodTerminal.Description_update,
      go_field ''env'' True go_texts AuthMethodTerminal.Env AuthMethodTerminal.Env_update,
      go_field ''id'' False go_string AuthMethodTerminal.Id AuthMethodTerminal.Id_update,
      go_field ''name'' False go_string AuthMethodTerminal.Name AuthMethodTerminal.Name_update]"

definition AuthMethodTerminal_UnmarshalJSON :: "raw_json \<Rightarrow> AuthMethodTerminal decoded" where
  "AuthMethodTerminal_UnmarshalJSON =
     decode_struct
       [required ''id'',
        required ''name'',
        items ''args'' go_string,
        map_values ''env'' go_string]
       (go_struct AuthMethodTerminal_zero AuthMethodTerminal_fields)
       (in_turn [])"

definition AuthMethodTerminal_codec :: "AuthMethodTerminal codec" where
  "AuthMethodTerminal_codec = with_unmarshal AuthMethodTerminal_UnmarshalJSON (go_struct AuthMethodTerminal_zero
      AuthMethodTerminal_fields)"

lemma AuthMethodTerminal_zero_codec [simp]: "c_zero AuthMethodTerminal_codec = AuthMethodTerminal_zero"
  by (simp add: AuthMethodTerminal_codec_def)

lemma AuthMethodTerminal_obj:
  "obj 9001 (map f_name AuthMethodTerminal_fields)
     [required ''id'',
      required ''name'',
      items ''args'' go_string,
      map_values ''env'' go_string]
     AuthMethodTerminal_codec"
  unfolding AuthMethodTerminal_codec_def AuthMethodTerminal_UnmarshalJSON_def
  by (rule unmarshal_obj) (simp_all add: AuthMethodTerminal_fields_def AuthMethodTerminal_zero_def
        max_depth_def)

lemma AuthMethodTerminal_wire [simp]: "9002 \<le> E \<Longrightarrow> wire E s AuthMethodTerminal_codec"
  using wire_mono [OF wire_obj [OF AuthMethodTerminal_obj], of E s] by simp

interpretation authmethodterminal_wire: wire_type AuthMethodTerminal_codec 9002
  by unfold_locales (simp_all add: max_depth_def)

subsection \<open>\<open>AuthenticateRequest\<close>\<close>

record AuthenticateRequest =
  Meta :: "(string \<times> string) list option"
  MethodId :: "string"

definition AuthenticateRequest_zero :: AuthenticateRequest where
  "AuthenticateRequest_zero = \<lparr>Meta = None, MethodId = []\<rparr>"

definition AuthenticateRequest_fields :: "AuthenticateRequest fld list" where
  "AuthenticateRequest_fields =
     [go_field ''_meta'' True (go_map go_raw) AuthenticateRequest.Meta AuthenticateRequest.Meta_update,
      go_field ''methodId'' False go_string AuthenticateRequest.MethodId AuthenticateRequest.MethodId_update]"

definition AuthenticateRequest_UnmarshalJSON :: "raw_json \<Rightarrow> AuthenticateRequest decoded" where
  "AuthenticateRequest_UnmarshalJSON =
     decode_struct
       [required ''methodId'']
       (go_struct AuthenticateRequest_zero AuthenticateRequest_fields)
       (in_turn [])"

definition AuthenticateRequest_codec :: "AuthenticateRequest codec" where
  "AuthenticateRequest_codec = with_unmarshal AuthenticateRequest_UnmarshalJSON (go_struct
      AuthenticateRequest_zero AuthenticateRequest_fields)"

definition AuthenticateRequest_Validate :: "AuthenticateRequest \<Rightarrow> invalid option" where
  "AuthenticateRequest_Validate v =
     None"

lemma AuthenticateRequest_zero_codec [simp]: "c_zero AuthenticateRequest_codec = AuthenticateRequest_zero"
  by (simp add: AuthenticateRequest_codec_def)

lemma AuthenticateRequest_obj:
  "obj 9001 (map f_name AuthenticateRequest_fields)
     [required ''methodId'']
     AuthenticateRequest_codec"
  unfolding AuthenticateRequest_codec_def AuthenticateRequest_UnmarshalJSON_def
  by (rule unmarshal_obj) (simp_all add: AuthenticateRequest_fields_def AuthenticateRequest_zero_def
        max_depth_def)

lemma AuthenticateRequest_wire [simp]: "9002 \<le> E \<Longrightarrow> wire E s AuthenticateRequest_codec"
  using wire_mono [OF wire_obj [OF AuthenticateRequest_obj], of E s] by simp

subsection \<open>\<open>AuthenticateResponse\<close>\<close>

record AuthenticateResponse =
  Meta :: "(string \<times> string) list option"

definition AuthenticateResponse_zero :: AuthenticateResponse where
  "AuthenticateResponse_zero = \<lparr>Meta = None\<rparr>"

definition AuthenticateResponse_fields :: "AuthenticateResponse fld list" where
  "AuthenticateResponse_fields =
     [go_field ''_meta'' True (go_map go_raw) AuthenticateResponse.Meta AuthenticateResponse.Meta_update]"

definition AuthenticateResponse_codec :: "AuthenticateResponse codec" where
  "AuthenticateResponse_codec = go_struct AuthenticateResponse_zero AuthenticateResponse_fields"

definition AuthenticateResponse_Validate :: "AuthenticateResponse \<Rightarrow> invalid option" where
  "AuthenticateResponse_Validate v =
     None"

lemma AuthenticateResponse_zero_codec [simp]: "c_zero AuthenticateResponse_codec = AuthenticateResponse_zero"
  by (simp add: AuthenticateResponse_codec_def)

lemma AuthenticateResponse_obj:
  "obj 9001 (map f_name AuthenticateResponse_fields) [] AuthenticateResponse_codec"
  unfolding AuthenticateResponse_codec_def
  by (rule struct_obj) (simp_all add: AuthenticateResponse_fields_def AuthenticateResponse_zero_def
        max_depth_def)

lemma AuthenticateResponse_wire [simp]: "9002 \<le> E \<Longrightarrow> wire E s AuthenticateResponse_codec"
  using wire_mono [OF wire_obj [OF AuthenticateResponse_obj], of E s] by simp

subsection \<open>\<open>LogoutRequest\<close>\<close>

record LogoutRequest =
  Meta :: "(string \<times> string) list option"

definition LogoutRequest_zero :: LogoutRequest where
  "LogoutRequest_zero = \<lparr>Meta = None\<rparr>"

definition LogoutRequest_fields :: "LogoutRequest fld list" where
  "LogoutRequest_fields =
     [go_field ''_meta'' True (go_map go_raw) LogoutRequest.Meta LogoutRequest.Meta_update]"

definition LogoutRequest_codec :: "LogoutRequest codec" where
  "LogoutRequest_codec = go_struct LogoutRequest_zero LogoutRequest_fields"

definition LogoutRequest_Validate :: "LogoutRequest \<Rightarrow> invalid option" where
  "LogoutRequest_Validate v =
     None"

lemma LogoutRequest_zero_codec [simp]: "c_zero LogoutRequest_codec = LogoutRequest_zero"
  by (simp add: LogoutRequest_codec_def)

lemma LogoutRequest_obj:
  "obj 9001 (map f_name LogoutRequest_fields) [] LogoutRequest_codec"
  unfolding LogoutRequest_codec_def
  by (rule struct_obj) (simp_all add: LogoutRequest_fields_def LogoutRequest_zero_def max_depth_def)

lemma LogoutRequest_wire [simp]: "9002 \<le> E \<Longrightarrow> wire E s LogoutRequest_codec"
  using wire_mono [OF wire_obj [OF LogoutRequest_obj], of E s] by simp

subsection \<open>\<open>LogoutResponse\<close>\<close>

record LogoutResponse =
  Meta :: "(string \<times> string) list option"

definition LogoutResponse_zero :: LogoutResponse where
  "LogoutResponse_zero = \<lparr>Meta = None\<rparr>"

definition LogoutResponse_fields :: "LogoutResponse fld list" where
  "LogoutResponse_fields =
     [go_field ''_meta'' True (go_map go_raw) LogoutResponse.Meta LogoutResponse.Meta_update]"

definition LogoutResponse_codec :: "LogoutResponse codec" where
  "LogoutResponse_codec = go_struct LogoutResponse_zero LogoutResponse_fields"

definition LogoutResponse_Validate :: "LogoutResponse \<Rightarrow> invalid option" where
  "LogoutResponse_Validate v =
     None"

lemma LogoutResponse_zero_codec [simp]: "c_zero LogoutResponse_codec = LogoutResponse_zero"
  by (simp add: LogoutResponse_codec_def)

lemma LogoutResponse_obj:
  "obj 9001 (map f_name LogoutResponse_fields) [] LogoutResponse_codec"
  unfolding LogoutResponse_codec_def
  by (rule struct_obj) (simp_all add: LogoutResponse_fields_def LogoutResponse_zero_def max_depth_def)

lemma LogoutResponse_wire [simp]: "9002 \<le> E \<Longrightarrow> wire E s LogoutResponse_codec"
  using wire_mono [OF wire_obj [OF LogoutResponse_obj], of E s] by simp

section \<open>Initialization\<close>

subsection \<open>\<open>Implementation\<close>\<close>

record Implementation =
  Meta :: "(string \<times> string) list option"
  Name :: "string"
  Title :: "string option"
  Version :: "string"

definition Implementation_zero :: Implementation where
  "Implementation_zero = \<lparr>Meta = None, Name = [], Title = None, Version = []\<rparr>"

definition Implementation_fields :: "Implementation fld list" where
  "Implementation_fields =
     [go_field ''_meta'' True (go_map go_raw) Implementation.Meta Implementation.Meta_update,
      go_field ''name'' False go_string Implementation.Name Implementation.Name_update,
      go_field ''title'' True (go_ptr go_string) Implementation.Title Implementation.Title_update,
      go_field ''version'' False go_string Implementation.Version Implementation.Version_update]"

definition Implementation_UnmarshalJSON :: "raw_json \<Rightarrow> Implementation decoded" where
  "Implementation_UnmarshalJSON =
     decode_struct
       [required ''name'',
        required ''version'']
       (go_struct Implementation_zero Implementation_fields)
       (in_turn [])"

definition Implementation_codec :: "Implementation codec" where
  "Implementation_codec = with_unmarshal Implementation_UnmarshalJSON (go_struct Implementation_zero
      Implementation_fields)"

lemma Implementation_zero_codec [simp]: "c_zero Implementation_codec = Implementation_zero"
  by (simp add: Implementation_codec_def)

lemma Implementation_obj:
  "obj 9001 (map f_name Implementation_fields)
     [required ''name'',
      required ''version'']
     Implementation_codec"
  unfolding Implementation_codec_def Implementation_UnmarshalJSON_def
  by (rule unmarshal_obj) (simp_all add: Implementation_fields_def Implementation_zero_def max_depth_def)

lemma Implementation_wire [simp]: "9002 \<le> E \<Longrightarrow> wire E s Implementation_codec"
  using wire_mono [OF wire_obj [OF Implementation_obj], of E s] by simp

subsection \<open>\<open>InitializeRequest\<close>\<close>

record InitializeRequest =
  Meta :: "(string \<times> string) list option"
  ClientCapabilities :: "ClientCapabilities"
  ClientInfo :: "Implementation option"
  ProtocolVersion :: "int"

definition InitializeRequest_zero :: InitializeRequest where
  "InitializeRequest_zero = \<lparr>Meta = None, ClientCapabilities = ClientCapabilities_zero, ClientInfo =
      None, ProtocolVersion = 0\<rparr>"

definition InitializeRequest_fields :: "InitializeRequest fld list" where
  "InitializeRequest_fields =
     [go_field ''_meta'' True (go_map go_raw) InitializeRequest.Meta InitializeRequest.Meta_update,
      go_field ''clientCapabilities'' True ClientCapabilities_codec InitializeRequest.ClientCapabilities
          InitializeRequest.ClientCapabilities_update,
      go_field ''clientInfo'' True (go_ptr Implementation_codec) InitializeRequest.ClientInfo
          InitializeRequest.ClientInfo_update,
      go_field ''protocolVersion'' False go_uint16 InitializeRequest.ProtocolVersion
          InitializeRequest.ProtocolVersion_update]"

definition InitializeRequest_UnmarshalJSON :: "raw_json \<Rightarrow> InitializeRequest decoded" where
  "InitializeRequest_UnmarshalJSON =
     decode_struct
       [required ''protocolVersion'']
       (go_struct InitializeRequest_zero InitializeRequest_fields)
       (in_turn [defaulted ''clientCapabilities''
            ''{\"auth\":{\"terminal\":false},\"fs\":{\"readTextFile\":false,\"writeTextFile\":false},\"terminal\":false}''
            ClientCapabilities_codec InitializeRequest.ClientCapabilities
            InitializeRequest.ClientCapabilities_update])"

definition InitializeRequest_MarshalJSON :: "InitializeRequest \<Rightarrow> string option" where
  "InitializeRequest_MarshalJSON v = c_enc (go_struct InitializeRequest_zero InitializeRequest_fields) v"

definition InitializeRequest_codec :: "InitializeRequest codec" where
  "InitializeRequest_codec = with_marshal InitializeRequest_MarshalJSON (with_unmarshal
      InitializeRequest_UnmarshalJSON (go_struct InitializeRequest_zero InitializeRequest_fields))"

definition InitializeRequest_Validate :: "InitializeRequest \<Rightarrow> invalid option" where
  "InitializeRequest_Validate v =
     None"

lemma InitializeRequest_zero_codec [simp]: "c_zero InitializeRequest_codec = InitializeRequest_zero"
  by (simp add: InitializeRequest_codec_def)

lemma InitializeRequest_obj:
  "obj 9005 (map f_name InitializeRequest_fields)
     [required ''protocolVersion'']
     InitializeRequest_codec"
  unfolding InitializeRequest_codec_def InitializeRequest_UnmarshalJSON_def
proof (rule obj_marshal)
  show "obj 9005 (map f_name InitializeRequest_fields)
     [required ''protocolVersion'']
    (with_unmarshal (decode_struct
       [required ''protocolVersion'']
       (go_struct InitializeRequest_zero InitializeRequest_fields)
       (in_turn [defaulted ''clientCapabilities''
            ''{\"auth\":{\"terminal\":false},\"fs\":{\"readTextFile\":false,\"writeTextFile\":false},\"terminal\":false}''
            ClientCapabilities_codec InitializeRequest.ClientCapabilities
            InitializeRequest.ClientCapabilities_update]))
     (go_struct InitializeRequest_zero InitializeRequest_fields))"
    by (rule unmarshal_obj) (simp_all add: InitializeRequest_fields_def InitializeRequest_zero_def
          max_depth_def)
qed (simp_all add: max_depth_def InitializeRequest_MarshalJSON_def)

lemma InitializeRequest_wire [simp]: "9006 \<le> E \<Longrightarrow> wire E s InitializeRequest_codec"
  using wire_mono [OF wire_obj [OF InitializeRequest_obj], of E s] by simp

interpretation initializerequest_wire: wire_type InitializeRequest_codec 9006
  by unfold_locales (simp_all add: max_depth_def)

subsection \<open>\<open>InitializeResponse\<close>\<close>

record InitializeResponse =
  Meta :: "(string \<times> string) list option"
  AgentCapabilities :: "AgentCapabilities"
  AgentInfo :: "Implementation option"
  AuthMethods :: "AuthMethod list option"
  ProtocolVersion :: "int"

definition InitializeResponse_zero :: InitializeResponse where
  "InitializeResponse_zero = \<lparr>Meta = None, AgentCapabilities = AgentCapabilities_zero, AgentInfo = None,
      AuthMethods = None, ProtocolVersion = 0\<rparr>"

definition InitializeResponse_fields :: "InitializeResponse fld list" where
  "InitializeResponse_fields =
     [go_field ''_meta'' True (go_map go_raw) InitializeResponse.Meta InitializeResponse.Meta_update,
      go_field ''agentCapabilities'' True AgentCapabilities_codec InitializeResponse.AgentCapabilities
          InitializeResponse.AgentCapabilities_update,
      go_field ''agentInfo'' True (go_ptr Implementation_codec) InitializeResponse.AgentInfo
          InitializeResponse.AgentInfo_update,
      go_field ''authMethods'' False (lenient_list AuthMethod_codec) InitializeResponse.AuthMethods
          InitializeResponse.AuthMethods_update,
      go_field ''protocolVersion'' False go_uint16 InitializeResponse.ProtocolVersion
          InitializeResponse.ProtocolVersion_update]"

definition InitializeResponse_UnmarshalJSON :: "raw_json \<Rightarrow> InitializeResponse decoded" where
  "InitializeResponse_UnmarshalJSON =
     decode_struct
       [required ''protocolVersion'']
       (go_struct InitializeResponse_zero InitializeResponse_fields)
       (in_turn [defaulted ''agentCapabilities''
            ''{\"auth\":{},\"loadSession\":false,\"mcpCapabilities\":{\"http\":false,\"sse\":false},\"promptCapabilities\":{\"audio\":false,\"embeddedContext\":false,\"image\":false},\"sessionCapabilities\":{}}''
            AgentCapabilities_codec InitializeResponse.AgentCapabilities
            InitializeResponse.AgentCapabilities_update,
         defaulted ''authMethods'' ''[]'' (go_slice AuthMethod_codec) InitializeResponse.AuthMethods
             InitializeResponse.AuthMethods_update])"

definition InitializeResponse_MarshalJSON :: "InitializeResponse \<Rightarrow> string option" where
  "InitializeResponse_MarshalJSON v = c_enc (go_struct InitializeResponse_zero InitializeResponse_fields) (made
      InitializeResponse.AuthMethods InitializeResponse.AuthMethods_update [] v)"

definition InitializeResponse_codec :: "InitializeResponse codec" where
  "InitializeResponse_codec = with_marshal InitializeResponse_MarshalJSON (with_unmarshal
      InitializeResponse_UnmarshalJSON (go_struct InitializeResponse_zero InitializeResponse_fields))"

definition InitializeResponse_Validate :: "InitializeResponse \<Rightarrow> invalid option" where
  "InitializeResponse_Validate v =
     None"

lemma InitializeResponse_zero_codec [simp]: "c_zero InitializeResponse_codec = InitializeResponse_zero"
  by (simp add: InitializeResponse_codec_def)

lemma InitializeResponse_obj:
  "obj 9004 (map f_name InitializeResponse_fields)
     [required ''protocolVersion'']
     InitializeResponse_codec"
  unfolding InitializeResponse_codec_def InitializeResponse_UnmarshalJSON_def
proof (rule obj_marshal)
  show "obj 9004 (map f_name InitializeResponse_fields)
     [required ''protocolVersion'']
    (with_unmarshal (decode_struct
       [required ''protocolVersion'']
       (go_struct InitializeResponse_zero InitializeResponse_fields)
       (in_turn [defaulted ''agentCapabilities''
            ''{\"auth\":{},\"loadSession\":false,\"mcpCapabilities\":{\"http\":false,\"sse\":false},\"promptCapabilities\":{\"audio\":false,\"embeddedContext\":false,\"image\":false},\"sessionCapabilities\":{}}''
            AgentCapabilities_codec InitializeResponse.AgentCapabilities
            InitializeResponse.AgentCapabilities_update,
         defaulted ''authMethods'' ''[]'' (go_slice AuthMethod_codec) InitializeResponse.AuthMethods
             InitializeResponse.AuthMethods_update]))
     (go_struct InitializeResponse_zero InitializeResponse_fields))"
    by (rule unmarshal_obj) (simp_all add: InitializeResponse_fields_def InitializeResponse_zero_def
          max_depth_def)
  show "InitializeResponse_MarshalJSON v = c_enc (with_unmarshal u (go_struct InitializeResponse_zero InitializeResponse_fields)) v"
    if "c_fine (with_unmarshal u (go_struct InitializeResponse_zero InitializeResponse_fields)) v" for u v
    using fill_same [OF that, of InitializeResponse.AuthMethods InitializeResponse.AuthMethods_update "[]"]
    by (simp add: InitializeResponse_MarshalJSON_def InitializeResponse_fields_def)
qed (simp_all add: max_depth_def)

lemma InitializeResponse_wire [simp]: "9005 \<le> E \<Longrightarrow> wire E s InitializeResponse_codec"
  using wire_mono [OF wire_obj [OF InitializeResponse_obj], of E s] by simp

interpretation initializeresponse_wire: wire_type InitializeResponse_codec 9005
  by unfold_locales (simp_all add: max_depth_def)

section \<open>Properties\<close>

text \<open>A member whose field always decodes, and whose value no other field looks at.\<close>

lemma dec_members_push:
  assumes "\<And>k f s j. k \<in> fst ` set ms \<Longrightarrow> find_field fs k = Some f \<Longrightarrow> f_dec f (g s) j = map_decoded g (f_dec f s j)"
  shows "dec_members fs saved (g s) ms = map_decoded g (dec_members fs saved s ms)"
  using assms
proof (induction ms arbitrary: saved s)
  case Nil
  then show ?case by (cases saved) simp_all
next
  case (Cons m ms)
  obtain k j where m: "m = (k, j)" by (rule prod.exhaust)
  have IH: "dec_members fs saved (g s) ms = map_decoded g (dec_members fs saved s ms)" for saved s
    by (rule Cons.IH) (rule Cons.prems, simp_all)
  show ?case
  proof (cases "find_field fs k")
    case (Some f)
    then have "f_dec f (g s) j = map_decoded g (f_dec f s j)" by (intro Cons.prems) (simp_all add: m)
    then show ?thesis using Some by (cases "f_dec f s j") (simp_all add: m IH)
  qed (simp add: m IH)
qed

lemma dec_members_extra:
  assumes "find_field fs k = Some f" "\<And>s. f_dec f s j = Good (g s)"
    and "\<And>k f s j. k \<in> fst ` set ms' \<Longrightarrow> find_field fs k = Some f \<Longrightarrow> f_dec f (g s) j = map_decoded g (f_dec f s j)"
  shows "dec_members fs saved s (ms @ (k, j) # ms') = map_decoded g (dec_members fs saved s (ms @ ms'))"
proof (induction ms arbitrary: saved s)
  case Nil
  then show ?case using assms dec_members_push [where g = g and ms = ms'] by simp
next
  case (Cons m ms)
  then show ?case by (cases m) (simp split: option.split decoded.split)
qed

lemma map_decoded_twice: "map_decoded f (map_decoded g x) = map_decoded (\<lambda>v. f (g v)) x"
  by (cases x) simp_all

lemma sound_elements_filter:
  "sound_elements c xs = List.map_filter (\<lambda>x. case c_dec c (c_zero c) x of Good v \<Rightarrow> Some v | _ \<Rightarrow> None) xs"
  by (induction xs) (auto split: decoded.split)

lemma field_extra: "k \<noteq> k' \<Longrightarrow> field (ms @ (k', j) # ms') k = field (ms @ ms') k"
  by (simp add: field_def map_add_def split: option.split)

lemma field_in: "k \<notin> fst ` set ms' \<Longrightarrow> field (ms @ (k, j) # ms') k = Some j"
proof -
  assume "k \<notin> fst ` set ms'"
  then have "map_of (rev ms') k = None" by (simp add: map_of_eq_None_iff)
  then show ?thesis by (simp add: field_def map_add_def)
qed

text \<open>C39: An authentication method that does not decode costs the response to \<open>initialize\<close> nothing but
  itself: whatever the elements of \<open>authMethods\<close> are, the response is accepted exactly when it is
  accepted without this member, and then it has the methods that decode, all of them and in order,
  and is otherwise the same.
\<close>

theorem auth_methods_skipped:
  assumes "spelled_exactly [''_meta'', ''agentCapabilities'', ''agentInfo'', ''authMethods'', ''protocolVersion'']
    (ms @ (''authMethods'', t, JArr xs) # ms')"
  shows "InitializeResponse_UnmarshalJSON (r, JObj (ms @ (''authMethods'', t, JArr xs) # ms')) = Good v \<longleftrightarrow>
    (\<exists>v'. InitializeResponse_UnmarshalJSON (r', JObj (ms @ ms')) = Good v' \<and>
       v = v'\<lparr>InitializeResponse.AuthMethods := Some (List.map_filter (\<lambda>x.
         case c_dec AuthMethod_codec AuthMethod_zero x of Good a \<Rightarrow> Some a | _ \<Rightarrow> None) xs)\<rparr>)"
proof -
  let ?names = "[''_meta'', ''agentCapabilities'', ''agentInfo'', ''authMethods'', ''protocolVersion'']"
  let ?ys = "List.map_filter (\<lambda>x. case c_dec AuthMethod_codec AuthMethod_zero x of Good a \<Rightarrow> Some a | _ \<Rightarrow> None) xs"
  let ?g = "InitializeResponse.AuthMethods_update (\<lambda>_. Some ?ys)"
  let ?f = "go_field ''authMethods'' False (lenient_list AuthMethod_codec) InitializeResponse.AuthMethods
      InitializeResponse.AuthMethods_update"
  have names: "map f_name InitializeResponse_fields = ?names" by (simp add: InitializeResponse_fields_def go_field_def)
  have own: "find_field InitializeResponse_fields ''authMethods'' = Some ?f"
    unfolding find_field_def names by (simp add: match_self) (simp add: InitializeResponse_fields_def go_field_def)
  have dec: "f_dec ?f s (t, JArr xs) = Good (?g s)" for s
    by (simp add: go_field_def lenient_list_def lenient_slice_def sound_elements_filter)
  have out: "''authMethods'' \<notin> fst ` set ms'" "''authMethods'' \<notin> fst ` set ms"
    using assms by (auto simp: spelled_exactly_def)
  have exact: "match_field ?names k \<in> {None, Some k}" if "k \<in> fst ` set ms'" for k
    using assms that by (auto simp: spelled_exactly_def)
  have swap: "InitializeResponse.Meta_update a (?g s) = ?g (InitializeResponse.Meta_update a s)"
    "InitializeResponse.AgentCapabilities_update b (?g s) = ?g (InitializeResponse.AgentCapabilities_update b s)"
    "InitializeResponse.AgentInfo_update c (?g s) = ?g (InitializeResponse.AgentInfo_update c s)"
    "InitializeResponse.ProtocolVersion_update d (?g s) = ?g (InitializeResponse.ProtocolVersion_update d s)" for a b c d s
    by (cases s; simp)+
  have push: "f_dec f (?g s) j = map_decoded ?g (f_dec f s j)"
    if "k \<in> fst ` set ms'" "find_field InitializeResponse_fields k = Some f" for k f s j
  proof -
    have "f \<in> set InitializeResponse_fields" "f_name f = k"
      using that exact [OF that(1)] by (auto simp: find_field_def names find_Some_iff split: option.splits)
    moreover have "k \<noteq> ''authMethods''" using that(1) out(1) by metis
    ultimately consider
        "f = go_field ''_meta'' True (go_map go_raw) InitializeResponse.Meta InitializeResponse.Meta_update"
      | "f = go_field ''agentCapabilities'' True AgentCapabilities_codec InitializeResponse.AgentCapabilities
          InitializeResponse.AgentCapabilities_update"
      | "f = go_field ''agentInfo'' True (go_ptr Implementation_codec) InitializeResponse.AgentInfo
          InitializeResponse.AgentInfo_update"
      | "f = go_field ''protocolVersion'' False go_uint16 InitializeResponse.ProtocolVersion
          InitializeResponse.ProtocolVersion_update"
      unfolding InitializeResponse_fields_def set_simps by (elim insertE emptyE) (blast | simp add: go_field_def)+
    then show ?thesis
      by cases (simp_all add: go_field_def map_decoded_twice swap)
  qed
  have whole: "dec_members InitializeResponse_fields None InitializeResponse_zero (ms @ (''authMethods'', t, JArr xs) # ms') =
      map_decoded ?g (dec_members InitializeResponse_fields None InitializeResponse_zero (ms @ ms'))"
    using own dec push by (rule dec_members_extra)
  have here: "field (ms @ (''authMethods'', t, JArr xs) # ms') ''authMethods'' = Some (t, JArr xs)"
    "field (ms @ ms') ''authMethods'' = None"
    using out by (simp_all add: field_in) (simp add: field_def map_of_eq_None_iff)
  have same: "field (ms @ (''authMethods'', t, JArr xs) # ms') k = field (ms @ ms') k" if "k \<noteq> ''authMethods''" for k
    using that by (rule field_extra)
  let ?all = "ms @ (''authMethods'', t, JArr xs) # ms'" and ?rest = "ms @ ms'"
  have caps: "defaulted ''agentCapabilities'' d AgentCapabilities_codec InitializeResponse.AgentCapabilities
        InitializeResponse.AgentCapabilities_update ?all (?g s) =
      ?g (defaulted ''agentCapabilities'' d AgentCapabilities_codec InitializeResponse.AgentCapabilities
        InitializeResponse.AgentCapabilities_update ?rest s)" for d s
    by (simp add: defaulted_def same split: sum.split option.split)
  have methods: "defaulted ''authMethods'' d (go_slice AuthMethod_codec) InitializeResponse.AuthMethods
        InitializeResponse.AuthMethods_update ?all (?g s) =
      ?g (defaulted ''authMethods'' d (go_slice AuthMethod_codec) InitializeResponse.AuthMethods
        InitializeResponse.AuthMethods_update ?rest s)" for d s
    unfolding defaulted_def here by (cases "unmarshal (go_slice AuthMethod_codec) (InitializeResponse.AuthMethods s) d") simp_all
  have checked: "run_checks [required ''protocolVersion''] ?all = run_checks [required ''protocolVersion''] ?rest"
    by (simp add: required_def same split: option.split)
  have "InitializeResponse_UnmarshalJSON (r, JObj ?all) = map_decoded ?g (InitializeResponse_UnmarshalJSON (r', JObj ?rest))"
  proof (cases "run_checks [required ''protocolVersion''] ?rest")
    case None
    then show ?thesis
      by (cases "dec_members InitializeResponse_fields None InitializeResponse_zero ?rest")
        (simp_all add: InitializeResponse_UnmarshalJSON_def decode_struct_def members_of_def go_struct_def checked whole
          in_turn_def caps methods del: run_checks.simps)
  qed (simp add: InitializeResponse_UnmarshalJSON_def decode_struct_def members_of_def checked del: run_checks.simps)
  then show ?thesis
    by (cases "InitializeResponse_UnmarshalJSON (r', JObj ?rest)") auto
qed

lemma demo_auth_method:
  "c_dec AuthMethod_codec AuthMethod_zero ([], JObj [(''id'', [], JStr ''x''), (''name'', [], JStr ''n'')]) =
     Good (AuthMethod_zero\<lparr>AuthMethod.Agent := Some
       (AuthMethodAgent_zero\<lparr>AuthMethodAgent.Id := ''x'', AuthMethodAgent.Name := ''n''\<rparr>)\<rparr>)"
proof -
  let ?ms = "[(''id'', [], JStr ''x''), (''name'', [], JStr ''n'')] :: (string \<times> raw_json) list"
  have names: "map f_name AuthMethodAgent_fields = [''_meta'', ''description'', ''id'', ''name'']"
    by (simp add: AuthMethodAgent_fields_def go_field_def)
  have fields: "find_field AuthMethodAgent_fields ''id'' = Some (go_field ''id'' False go_string AuthMethodAgent.Id AuthMethodAgent.Id_update)"
    "find_field AuthMethodAgent_fields ''name'' = Some (go_field ''name'' False go_string AuthMethodAgent.Name AuthMethodAgent.Name_update)"
    unfolding find_field_def names by (simp_all add: match_self) (simp_all add: AuthMethodAgent_fields_def go_field_def)
  have struct: "dec_members AuthMethodAgent_fields None AuthMethodAgent_zero ?ms =
      Good (AuthMethodAgent_zero\<lparr>AuthMethodAgent.Id := ''x'', AuthMethodAgent.Name := ''n''\<rparr>)"
    by (simp add: fields go_field_def go_string_def)
  have here: "field ?ms ''id'' = Some ([], JStr ''x'')" "field ?ms ''name'' = Some ([], JStr ''n'')" "field ?ms ''type'' = None"
    by (simp_all add: field_def)
  have agent: "c_dec AuthMethodAgent_codec AuthMethodAgent_zero ([], JObj ?ms) =
      Good (AuthMethodAgent_zero\<lparr>AuthMethodAgent.Id := ''x'', AuthMethodAgent.Name := ''n''\<rparr>)"
    unfolding AuthMethodAgent_codec_def AuthMethodAgent_UnmarshalJSON_def
    by (simp add: with_unmarshal_def decode_struct_def members_of_def required_def in_turn_def go_struct_def struct here del: dec_members.simps)
  have checks: "typed ''id'' go_string ?ms = None" "typed ''name'' go_string ?ms = None"
    by (simp_all add: typed_def here go_string_def)
  show ?thesis
    by (simp add: AuthMethod_codec_def go_union_def AuthMethod_UnmarshalJSON_def unmarshal_union_def members_of_def
        AuthMethod_variants_def AuthMethod_as_Terminal_def AuthMethod_as_Agent_def go_variant_def discriminator_def
        decode_variant_def here checks agent)
qed

lemma auth_methods_skipped_witness:
  "\<exists>v. InitializeResponse_UnmarshalJSON ([], JObj [(''authMethods'', [], JArr [([], JNum ''1''),
         ([], JObj [(''id'', [], JStr ''x''), (''name'', [], JStr ''n'')])]), (''protocolVersion'', ''1'', JNum ''1'')]) = Good v \<and>
     InitializeResponse.AuthMethods v = Some [AuthMethod_zero\<lparr>AuthMethod.Agent := Some
       (AuthMethodAgent_zero\<lparr>AuthMethodAgent.Id := ''x'', AuthMethodAgent.Name := ''n''\<rparr>)\<rparr>] \<and>
     InitializeResponse.ProtocolVersion v = 1"
proof -
  let ?ms = "[(''protocolVersion'', ''1'', JNum ''1'')]"
  let ?xs = "[([], JNum ''1''), ([], JObj [(''id'', [], JStr ''x''), (''name'', [], JStr ''n'')])]"
  have "spelled_exactly [''_meta'', ''agentCapabilities'', ''agentInfo'', ''authMethods'', ''protocolVersion'']
      ([] @ (''authMethods'', [], JArr ?xs) # ?ms)" by code_simp
  note skip = auth_methods_skipped [OF this, where r = "[]" and r' = "[]"]
  have "parse_integer 0 65535 ''1'' = Some 1" by code_simp
  then have "\<exists>v. InitializeResponse_UnmarshalJSON ([], JObj ?ms) = Good v \<and> InitializeResponse.ProtocolVersion v = 1"
    by (simp add: InitializeResponse_UnmarshalJSON_def decode_struct_def members_of_def required_def field_def
        go_struct_def InitializeResponse_fields_def InitializeResponse_zero_def find_field_def match_field_def
        go_field_def go_uint16_def go_integer_def in_turn_def defaulted_def split: sum.split)
  then obtain v where v: "InitializeResponse_UnmarshalJSON ([], JObj ?ms) = Good v" "InitializeResponse.ProtocolVersion v = 1"
    by blast
  have "\<not> (\<exists>a. c_dec AuthMethod_codec AuthMethod_zero ([], JNum ''1'') = Good a)"
    by (simp add: AuthMethod_codec_def go_union_def AuthMethod_UnmarshalJSON_def unmarshal_union_def members_of_def)
  then have kept: "List.map_filter (\<lambda>x. case c_dec AuthMethod_codec AuthMethod_zero x of Good a \<Rightarrow> Some a | _ \<Rightarrow> None) ?xs =
      [AuthMethod_zero\<lparr>AuthMethod.Agent := Some
       (AuthMethodAgent_zero\<lparr>AuthMethodAgent.Id := ''x'', AuthMethodAgent.Name := ''n''\<rparr>)\<rparr>]"
    by (simp add: List.map_filter_def demo_auth_method split: decoded.split)
  show ?thesis using skip v unfolding kept by auto
qed

end
