(* ===== verification/WireRpc.thy ===== *)
theory WireRpc
  imports WireSetup
begin

text \<open>
  The messages of JSON-RPC as the generated types have them: ids, error codes, requests,
  notifications and responses of either side.
\<close>

section \<open>Ids and errors\<close>

subsection \<open>\<open>RequestId\<close>\<close>

text \<open>
  A request id as the generated types have it: \<open>null\<close>, a number or a string. The variant \<open>Null\<close> is
  an empty struct, which is tried first, so that any object is read as the null id.
\<close>

record RequestId =
  Null :: "unit option"
  Number :: "int option"
  Str :: "string option"

definition RequestId_zero :: RequestId where
  "RequestId_zero = \<lparr>Null = None, Number = None, Str = None\<rparr>"

definition RequestId_UnmarshalJSON :: "raw_json \<Rightarrow> RequestId decoded" where
  "RequestId_UnmarshalJSON j =
     (if snd j = JNull then Good (RequestId_zero\<lparr>Null := Some ()\<rparr>)
      else first_choice
        [tries (go_struct () []) (\<lambda>v. RequestId_zero\<lparr>Null := Some v\<rparr>),
         tries go_int64 (\<lambda>v. RequestId_zero\<lparr>Number := Some v\<rparr>),
         tries go_string (\<lambda>v. RequestId_zero\<lparr>Str := Some v\<rparr>)] j)"

definition RequestId_MarshalJSON :: "RequestId \<Rightarrow> string option" where
  "RequestId_MarshalJSON u =
     (if Null u \<noteq> None then Some ''null''
      else case Number u of
        Some n \<Rightarrow> c_enc go_int64 n
      | None \<Rightarrow> (case Str u of Some s \<Rightarrow> c_enc go_string s | None \<Rightarrow> Some []))"

definition RequestId_fine :: "RequestId \<Rightarrow> bool" where
  "RequestId_fine u \<longleftrightarrow>
     (case (Null u, Number u, Str u) of
        (Some x, None, None) \<Rightarrow> True
      | (None, Some n, None) \<Rightarrow> c_fine go_int64 n
      | (None, None, Some s) \<Rightarrow> utf8_valid s
      | _ \<Rightarrow> False)"

definition RequestId_codec :: "RequestId codec" where
  "RequestId_codec =
     \<lparr>c_zero = RequestId_zero, c_dec = (\<lambda>cur j. RequestId_UnmarshalJSON j),
      c_enc = (\<lambda>u. Option.bind (RequestId_MarshalJSON u) compact), c_empty = (\<lambda>u. False), c_fine = RequestId_fine\<rparr>"

definition RequestId_Validate :: "RequestId \<Rightarrow> invalid option" where
  "RequestId_Validate u =
     validate_set False ''RequestId'' (set_count [Null u \<noteq> None, Number u \<noteq> None, Str u \<noteq> None]) RequestId_codec u"

lemma RequestId_zero_codec [simp]: "c_zero RequestId_codec = RequestId_zero"
  by (simp add: RequestId_codec_def)

lemma RequestId_text:
  assumes fine: "RequestId_fine u"
  shows "\<exists>t j. c_enc RequestId_codec u = Some t \<and> clean 0 t j \<and> (Null u = None \<longrightarrow> j \<noteq> JNull) \<and>
    RequestId_UnmarshalJSON (t, j) = Good u"
proof (cases u)
  case (fields z n s)
  consider "z \<noteq> None" "n = None" "s = None" | i where "z = None" "n = Some i" "s = None" "c_fine go_int64 i"
    | t where "z = None" "n = None" "s = Some t" "utf8_valid t"
    using fine fields by (auto simp: RequestId_fine_def split: option.splits)
  then show ?thesis
  proof cases
    case 1
    then show ?thesis using fields clean_compact [OF clean_null]
      by (intro exI [of _ "''null''"] exI [of _ JNull])
        (auto simp: RequestId_codec_def RequestId_MarshalJSON_def RequestId_UnmarshalJSON_def RequestId_zero_def clean_null)
  next
    case 2
    then obtain l where l: "c_enc go_int64 i = Some l" "clean 0 l (JNum l)" "\<And>r cur. c_dec go_int64 cur (r, JNum l) = Good i"
      using integer_number unfolding go_int64_def by blast
    then show ?thesis using fields 2 clean_compact [OF l(2)]
      by (intro exI [of _ l] exI [of _ "JNum l"])
        (simp add: RequestId_codec_def RequestId_MarshalJSON_def RequestId_UnmarshalJSON_def RequestId_zero_def tries_def go_struct_def)
  next
    case 3
    then show ?thesis using fields clean_compact [OF clean_quote [OF 3(4)]]
      by (intro exI [of _ "quote t"] exI [of _ "JStr t"])
        (simp add: RequestId_codec_def RequestId_MarshalJSON_def RequestId_UnmarshalJSON_def RequestId_zero_def tries_def go_struct_def
          clean_quote go_string_def go_int64_def go_integer_def)
  qed
qed

lemma RequestId_wire [simp]: "wire E False RequestId_codec"
proof -
  have "wire 0 False RequestId_codec" unfolding wire_def using RequestId_text by (fastforce simp: RequestId_codec_def)
  then show ?thesis by (rule wire_mono) simp_all
qed

text \<open>Behind a pointer the null id comes back as a nil pointer.\<close>

definition RequestId_some :: "RequestId codec" where
  "RequestId_some = RequestId_codec\<lparr>c_fine := (\<lambda>u. RequestId_fine u \<and> Null u = None)\<rparr>"

lemma RequestId_some_wire [simp]: "wire E s RequestId_some"
proof -
  have "wire 0 True RequestId_some"
    unfolding wire_def using RequestId_text by (fastforce simp: RequestId_codec_def RequestId_some_def)
  then show ?thesis by (rule wire_mono) simp_all
qed

interpretation requestid_wire: wire_type RequestId_codec 9001
  by unfold_locales (simp_all add: max_depth_def)

subsection \<open>\<open>RequestIdNull\<close>\<close>

type_synonym RequestIdNull = unit

definition RequestIdNull_zero :: RequestIdNull where
  "RequestIdNull_zero = ()"

definition RequestIdNull_fields :: "RequestIdNull fld list" where
  "RequestIdNull_fields = []"

definition RequestIdNull_codec :: "RequestIdNull codec" where
  "RequestIdNull_codec = go_struct RequestIdNull_zero RequestIdNull_fields"

lemma RequestIdNull_zero_codec [simp]: "c_zero RequestIdNull_codec = RequestIdNull_zero"
  by (simp add: RequestIdNull_codec_def)

lemma RequestIdNull_obj: "obj 9000 (map f_name RequestIdNull_fields) [] RequestIdNull_codec"
  unfolding RequestIdNull_codec_def
  by (rule struct_obj) (simp_all add: RequestIdNull_fields_def RequestIdNull_zero_def max_depth_def)

lemma RequestIdNull_wire [simp]: "9001 \<le> E \<Longrightarrow> wire E s RequestIdNull_codec"
  using wire_mono [OF wire_obj [OF RequestIdNull_obj], of E s] by simp

subsection \<open>\<open>ErrorCode\<close>\<close>

text \<open>
  An error code: one variant for every code of the protocol, and one for any other number. Decoding
  tries the variants in its order, \<open>ErrorCode_choices\<close> with the numbers it compares with; encoding
  tests the fields in its own, \<open>ErrorCode_constants\<close> with the numbers it writes.
\<close>

record ErrorCode =
  ParseError :: "int option"
  InvalidRequest :: "int option"
  MethodNotFound :: "int option"
  InvalidParams :: "int option"
  InternalError :: "int option"
  RequestCancelled :: "int option"
  AuthenticationRequired :: "int option"
  ResourceNotFound :: "int option"
  Other :: "int option"

definition ErrorCode_zero :: ErrorCode where
  "ErrorCode_zero =
     \<lparr>ParseError = None, InvalidRequest = None, MethodNotFound = None, InvalidParams = None,
      InternalError = None, RequestCancelled = None, AuthenticationRequired = None, ResourceNotFound = None,
      Other = None\<rparr>"

definition ErrorCode_choices :: "(int \<times> (int \<Rightarrow> ErrorCode)) list" where
  "ErrorCode_choices =
     [(- 32700, \<lambda>v. ErrorCode_zero\<lparr>ErrorCode.ParseError := Some v\<rparr>),
      (- 32600, \<lambda>v. ErrorCode_zero\<lparr>ErrorCode.InvalidRequest := Some v\<rparr>),
      (- 32601, \<lambda>v. ErrorCode_zero\<lparr>ErrorCode.MethodNotFound := Some v\<rparr>),
      (- 32602, \<lambda>v. ErrorCode_zero\<lparr>ErrorCode.InvalidParams := Some v\<rparr>),
      (- 32603, \<lambda>v. ErrorCode_zero\<lparr>ErrorCode.InternalError := Some v\<rparr>),
      (- 32800, \<lambda>v. ErrorCode_zero\<lparr>ErrorCode.RequestCancelled := Some v\<rparr>),
      (- 32000, \<lambda>v. ErrorCode_zero\<lparr>ErrorCode.AuthenticationRequired := Some v\<rparr>),
      (- 32002, \<lambda>v. ErrorCode_zero\<lparr>ErrorCode.ResourceNotFound := Some v\<rparr>)]"

definition ErrorCode_UnmarshalJSON :: "raw_json \<Rightarrow> ErrorCode decoded" where
  "ErrorCode_UnmarshalJSON j =
     first_choice (map (\<lambda>(k, mk). tries_const go_int32 k mk) ErrorCode_choices @
       [tries go_int32 (\<lambda>v. ErrorCode_zero\<lparr>ErrorCode.Other := Some v\<rparr>)]) j"

definition ErrorCode_constants :: "((ErrorCode \<Rightarrow> int option) \<times> int) list" where
  "ErrorCode_constants =
     [(ErrorCode.ParseError, - 32700),
      (ErrorCode.InvalidRequest, - 32600),
      (ErrorCode.MethodNotFound, - 32601),
      (ErrorCode.InvalidParams, - 32602),
      (ErrorCode.InternalError, - 32603),
      (ErrorCode.RequestCancelled, - 32800),
      (ErrorCode.AuthenticationRequired, - 32000),
      (ErrorCode.ResourceNotFound, - 32002)]"

definition ErrorCode_MarshalJSON :: "ErrorCode \<Rightarrow> string option" where
  "ErrorCode_MarshalJSON u =
     (case find (\<lambda>(get, k). get u \<noteq> None) ErrorCode_constants of
        Some (get, k) \<Rightarrow> c_enc go_int32 k
      | None \<Rightarrow> (case ErrorCode.Other u of Some v \<Rightarrow> c_enc go_int32 v | None \<Rightarrow> Some []))"

text \<open>The values that come back are those that decoding makes of a number.\<close>

definition ErrorCode_of :: "int \<Rightarrow> ErrorCode" where
  "ErrorCode_of n =
     (case find (\<lambda>(k, mk). n = k) ErrorCode_choices of
        Some (k, mk) \<Rightarrow> mk n
      | None \<Rightarrow> ErrorCode_zero\<lparr>ErrorCode.Other := Some n\<rparr>)"

definition ErrorCode_fields :: "(ErrorCode \<Rightarrow> int option) list" where
  "ErrorCode_fields =
     [ErrorCode.ParseError, ErrorCode.InvalidRequest, ErrorCode.MethodNotFound, ErrorCode.InvalidParams,
      ErrorCode.InternalError, ErrorCode.RequestCancelled, ErrorCode.AuthenticationRequired, ErrorCode.ResourceNotFound,
      ErrorCode.Other]"

definition ErrorCode_number :: "ErrorCode \<Rightarrow> int option" where
  "ErrorCode_number u = find (\<lambda>n. u = ErrorCode_of n) (List.map_filter (\<lambda>get. get u) ErrorCode_fields)"

definition ErrorCode_codec :: "ErrorCode codec" where
  "ErrorCode_codec =
     \<lparr>c_zero = ErrorCode_zero, c_dec = (\<lambda>cur j. ErrorCode_UnmarshalJSON j),
      c_enc = (\<lambda>u. Option.bind (ErrorCode_MarshalJSON u) compact), c_empty = (\<lambda>u. False),
      c_fine = (\<lambda>u. case ErrorCode_number u of None \<Rightarrow> False | Some n \<Rightarrow> c_fine go_int32 n)\<rparr>"

definition ErrorCode_Validate :: "ErrorCode \<Rightarrow> invalid option" where
  "ErrorCode_Validate u =
     validate_set False ''ErrorCode''
       (set_count (map (\<lambda>get. get u \<noteq> None) ErrorCode_fields)) ErrorCode_codec u"

lemma ErrorCode_zero_codec [simp]: "c_zero ErrorCode_codec = ErrorCode_zero"
  by (simp add: ErrorCode_codec_def)

lemma ErrorCode_number_of: "ErrorCode_number u = Some n \<Longrightarrow> u = ErrorCode_of n"
  by (auto simp: ErrorCode_number_def find_Some_iff)

lemma ErrorCode_text: "ErrorCode_MarshalJSON (ErrorCode_of n) = c_enc go_int32 n"
  by (simp add: ErrorCode_MarshalJSON_def ErrorCode_of_def ErrorCode_choices_def ErrorCode_constants_def ErrorCode_zero_def)

lemma ErrorCode_read:
  "(\<And>cur. c_dec go_int32 cur j = Good n) \<Longrightarrow> ErrorCode_UnmarshalJSON j = Good (ErrorCode_of n)"
  by (simp add: ErrorCode_UnmarshalJSON_def ErrorCode_of_def ErrorCode_choices_def tries_const_def tries_def)

lemma ErrorCode_wire [simp]: "wire E s ErrorCode_codec"
proof -
  have "\<exists>t j. c_enc ErrorCode_codec u = Some t \<and> clean 0 t j \<and> j \<noteq> JNull \<and> ErrorCode_UnmarshalJSON (t, j) = Good u"
    if fine: "c_fine ErrorCode_codec u" for u
  proof -
    obtain n where n: "u = ErrorCode_of n" "c_fine go_int32 n"
      using fine by (auto simp: ErrorCode_codec_def dest: ErrorCode_number_of split: option.splits)
    then obtain l where l: "c_enc go_int32 n = Some l" "clean 0 l (JNum l)" "\<And>cur. c_dec go_int32 cur (l, JNum l) = Good n"
      using integer_number unfolding go_int32_def by blast
    then show ?thesis using n clean_compact [OF l(2)] ErrorCode_text ErrorCode_read [OF l(3)]
      by (intro exI [of _ l] exI [of _ "JNum l"]) (simp add: ErrorCode_codec_def)
  qed
  then have "wire 0 True ErrorCode_codec" by (auto simp: wire_def ErrorCode_codec_def)
  then show ?thesis by (rule wire_mono) simp_all
qed

interpretation errorcode_wire: wire_type ErrorCode_codec 9001
  by unfold_locales (simp_all add: max_depth_def)

subsection \<open>\<open>Error\<close>\<close>

record Error =
  Code :: "ErrorCode"
  Data :: "any_value"
  Message :: "string"

definition Error_zero :: Error where
  "Error_zero = \<lparr>Code = ErrorCode_zero, Data = ANil, Message = []\<rparr>"

definition Error_fields :: "Error fld list" where
  "Error_fields =
     [go_field ''code'' False ErrorCode_codec Error.Code Error.Code_update,
      go_field ''data'' True go_any Error.Data Error.Data_update,
      go_field ''message'' False go_string Error.Message Error.Message_update]"

definition Error_UnmarshalJSON :: "raw_json \<Rightarrow> Error decoded" where
  "Error_UnmarshalJSON =
     decode_struct
       [required ''code'',
        required ''message'']
       (go_struct Error_zero Error_fields)
       (in_turn [])"

definition Error_codec :: "Error codec" where
  "Error_codec = with_unmarshal Error_UnmarshalJSON (go_struct Error_zero Error_fields)"

lemma Error_zero_codec [simp]: "c_zero Error_codec = Error_zero"
  by (simp add: Error_codec_def)

lemma Error_obj:
  "obj 9001 (map f_name Error_fields)
     [required ''code'',
      required ''message'']
     Error_codec"
  unfolding Error_codec_def Error_UnmarshalJSON_def
  by (rule unmarshal_obj) (simp_all add: Error_fields_def Error_zero_def max_depth_def)

lemma Error_wire [simp]: "9002 \<le> E \<Longrightarrow> wire E s Error_codec"
  using wire_mono [OF wire_obj [OF Error_obj], of E s] by simp

subsection \<open>\<open>CancelRequestNotification\<close>\<close>

record CancelRequestNotification =
  Meta :: "(string \<times> string) list option"
  RequestId :: "RequestId"

definition CancelRequestNotification_zero :: CancelRequestNotification where
  "CancelRequestNotification_zero = \<lparr>Meta = None, RequestId = RequestId_zero\<rparr>"

definition CancelRequestNotification_fields :: "CancelRequestNotification fld list" where
  "CancelRequestNotification_fields =
     [go_field ''_meta'' True (go_map go_raw) CancelRequestNotification.Meta
         CancelRequestNotification.Meta_update,
      go_field ''requestId'' False RequestId_codec CancelRequestNotification.RequestId
          CancelRequestNotification.RequestId_update]"

definition CancelRequestNotification_UnmarshalJSON :: "raw_json \<Rightarrow> CancelRequestNotification decoded" where
  "CancelRequestNotification_UnmarshalJSON =
     decode_struct
       [present ''requestId'']
       (go_struct CancelRequestNotification_zero CancelRequestNotification_fields)
       (in_turn [])"

definition CancelRequestNotification_codec :: "CancelRequestNotification codec" where
  "CancelRequestNotification_codec = with_unmarshal CancelRequestNotification_UnmarshalJSON (go_struct
      CancelRequestNotification_zero CancelRequestNotification_fields)"

definition CancelRequestNotification_Validate :: "CancelRequestNotification \<Rightarrow> invalid option" where
  "CancelRequestNotification_Validate v =
     (case RequestId_Validate (CancelRequestNotification.RequestId v) of Some e \<Rightarrow> Some (Within ''requestId'' e)
     | None \<Rightarrow> None)"

lemma CancelRequestNotification_zero_codec [simp]: "c_zero CancelRequestNotification_codec = CancelRequestNotification_zero"
  by (simp add: CancelRequestNotification_codec_def)

lemma CancelRequestNotification_obj:
  "obj 9001 (map f_name CancelRequestNotification_fields)
     [present ''requestId'']
     CancelRequestNotification_codec"
  unfolding CancelRequestNotification_codec_def CancelRequestNotification_UnmarshalJSON_def
  by (rule unmarshal_obj) (simp_all add: CancelRequestNotification_fields_def CancelRequestNotification_zero_def
        max_depth_def)

lemma CancelRequestNotification_wire [simp]: "9002 \<le> E \<Longrightarrow> wire E s CancelRequestNotification_codec"
  using wire_mono [OF wire_obj [OF CancelRequestNotification_obj], of E s] by simp

interpretation cancelrequestnotification_wire: wire_type CancelRequestNotification_codec 9002
  by unfold_locales (simp_all add: max_depth_def)

section \<open>Messages of an agent\<close>

subsection \<open>\<open>AgentRequest\<close>\<close>

record AgentRequest =
  Id :: "RequestId"
  Method :: "string"
  Params :: "any_value"

definition AgentRequest_zero :: AgentRequest where
  "AgentRequest_zero = \<lparr>Id = RequestId_zero, Method = [], Params = ANil\<rparr>"

definition AgentRequest_fields :: "AgentRequest fld list" where
  "AgentRequest_fields =
     [go_field ''id'' False RequestId_codec AgentRequest.Id AgentRequest.Id_update,
      go_field ''method'' False go_string AgentRequest.Method AgentRequest.Method_update,
      go_field ''params'' True go_any AgentRequest.Params AgentRequest.Params_update]"

definition AgentRequest_UnmarshalJSON :: "raw_json \<Rightarrow> AgentRequest decoded" where
  "AgentRequest_UnmarshalJSON =
     decode_struct
       [present ''id'',
        required ''method'']
       (go_struct AgentRequest_zero AgentRequest_fields)
       (in_turn [])"

definition AgentRequest_codec :: "AgentRequest codec" where
  "AgentRequest_codec = with_unmarshal AgentRequest_UnmarshalJSON (go_struct AgentRequest_zero
      AgentRequest_fields)"

definition AgentRequest_Validate :: "AgentRequest \<Rightarrow> invalid option" where
  "AgentRequest_Validate v =
     (case RequestId_Validate (AgentRequest.Id v) of Some e \<Rightarrow> Some (Within ''id'' e)
     | None \<Rightarrow> None)"

lemma AgentRequest_zero_codec [simp]: "c_zero AgentRequest_codec = AgentRequest_zero"
  by (simp add: AgentRequest_codec_def)

lemma AgentRequest_obj:
  "obj 9001 (map f_name AgentRequest_fields)
     [present ''id'',
      required ''method'']
     AgentRequest_codec"
  unfolding AgentRequest_codec_def AgentRequest_UnmarshalJSON_def
  by (rule unmarshal_obj) (simp_all add: AgentRequest_fields_def AgentRequest_zero_def max_depth_def)

lemma AgentRequest_wire [simp]: "9002 \<le> E \<Longrightarrow> wire E s AgentRequest_codec"
  using wire_mono [OF wire_obj [OF AgentRequest_obj], of E s] by simp

interpretation agentrequest_wire: wire_type AgentRequest_codec 9002
  by unfold_locales (simp_all add: max_depth_def)

subsection \<open>\<open>AgentNotification\<close>\<close>

record AgentNotification =
  Method :: "string"
  Params :: "any_value"

definition AgentNotification_zero :: AgentNotification where
  "AgentNotification_zero = \<lparr>Method = [], Params = ANil\<rparr>"

definition AgentNotification_fields :: "AgentNotification fld list" where
  "AgentNotification_fields =
     [go_field ''method'' False go_string AgentNotification.Method AgentNotification.Method_update,
      go_field ''params'' True go_any AgentNotification.Params AgentNotification.Params_update]"

definition AgentNotification_UnmarshalJSON :: "raw_json \<Rightarrow> AgentNotification decoded" where
  "AgentNotification_UnmarshalJSON =
     decode_struct
       [required ''method'']
       (go_struct AgentNotification_zero AgentNotification_fields)
       (in_turn [])"

definition AgentNotification_codec :: "AgentNotification codec" where
  "AgentNotification_codec = with_unmarshal AgentNotification_UnmarshalJSON (go_struct AgentNotification_zero
      AgentNotification_fields)"

definition AgentNotification_Validate :: "AgentNotification \<Rightarrow> invalid option" where
  "AgentNotification_Validate v =
     None"

lemma AgentNotification_zero_codec [simp]: "c_zero AgentNotification_codec = AgentNotification_zero"
  by (simp add: AgentNotification_codec_def)

lemma AgentNotification_obj:
  "obj 9000 (map f_name AgentNotification_fields)
     [required ''method'']
     AgentNotification_codec"
  unfolding AgentNotification_codec_def AgentNotification_UnmarshalJSON_def
  by (rule unmarshal_obj) (simp_all add: AgentNotification_fields_def AgentNotification_zero_def max_depth_def)

lemma AgentNotification_wire [simp]: "9001 \<le> E \<Longrightarrow> wire E s AgentNotification_codec"
  using wire_mono [OF wire_obj [OF AgentNotification_obj], of E s] by simp

subsection \<open>\<open>AgentResult\<close>\<close>

record AgentResult =
  Id :: "RequestId"
  Result :: "any_value"

definition AgentResult_zero :: AgentResult where
  "AgentResult_zero = \<lparr>Id = RequestId_zero, Result = ANil\<rparr>"

definition AgentResult_fields :: "AgentResult fld list" where
  "AgentResult_fields =
     [go_field ''id'' False RequestId_codec AgentResult.Id AgentResult.Id_update,
      go_field ''result'' False go_some_any AgentResult.Result AgentResult.Result_update]"

definition AgentResult_codec :: "AgentResult codec" where
  "AgentResult_codec = go_struct AgentResult_zero AgentResult_fields"

lemma AgentResult_zero_codec [simp]: "c_zero AgentResult_codec = AgentResult_zero"
  by (simp add: AgentResult_codec_def)

lemma AgentResult_obj:
  "obj 9001 (map f_name AgentResult_fields)
     [listed ''id'' RequestId_codec,
      typed ''result'' go_any]
     AgentResult_codec"
  unfolding AgentResult_codec_def
  by (rule struct_obj) (simp_all add: AgentResult_fields_def AgentResult_zero_def max_depth_def)

lemma AgentResult_wire [simp]: "9002 \<le> E \<Longrightarrow> wire E s AgentResult_codec"
  using wire_mono [OF wire_obj [OF AgentResult_obj], of E s] by simp

lemma AgentResult_names: "f_name ` set AgentResult_fields = {''id'', ''result''}"
  by (auto simp: AgentResult_fields_def)

subsection \<open>\<open>AgentError\<close>\<close>

record AgentError =
  Error :: "Error"
  Id :: "RequestId"

definition AgentError_zero :: AgentError where
  "AgentError_zero = \<lparr>Error = Error_zero, Id = RequestId_zero\<rparr>"

definition AgentError_fields :: "AgentError fld list" where
  "AgentError_fields =
     [go_field ''error'' False Error_codec AgentError.Error AgentError.Error_update,
      go_field ''id'' False RequestId_codec AgentError.Id AgentError.Id_update]"

definition AgentError_codec :: "AgentError codec" where
  "AgentError_codec = go_struct AgentError_zero AgentError_fields"

lemma AgentError_zero_codec [simp]: "c_zero AgentError_codec = AgentError_zero"
  by (simp add: AgentError_codec_def)

lemma AgentError_obj:
  "obj 9002 (map f_name AgentError_fields)
     [typed ''error'' Error_codec,
      listed ''id'' RequestId_codec]
     AgentError_codec"
  unfolding AgentError_codec_def
  by (rule struct_obj) (simp_all add: AgentError_fields_def AgentError_zero_def max_depth_def)

lemma AgentError_wire [simp]: "9003 \<le> E \<Longrightarrow> wire E s AgentError_codec"
  using wire_mono [OF wire_obj [OF AgentError_obj], of E s] by simp

lemma AgentError_names: "f_name ` set AgentError_fields = {''error'', ''id''}"
  by (auto simp: AgentError_fields_def)

subsection \<open>\<open>AgentResponse\<close>\<close>

record AgentResponse =
  Result :: "AgentResult option"
  Error :: "AgentError option"

definition AgentResponse_zero :: AgentResponse where
  "AgentResponse_zero = \<lparr>Result = None, Error = None\<rparr>"

definition AgentResponse_as_Result :: "AgentResponse variant" where
  "AgentResponse_as_Result =
     go_variant None
       [listed ''id'' RequestId_codec,
        typed ''result'' go_any]
       AgentResult_codec AgentResponse.Result (\<lambda>x. AgentResponse_zero\<lparr>AgentResponse.Result :=
         Some x\<rparr>)"

definition AgentResponse_as_Error :: "AgentResponse variant" where
  "AgentResponse_as_Error =
     go_variant None
       [typed ''error'' Error_codec,
        listed ''id'' RequestId_codec]
       AgentError_codec AgentResponse.Error (\<lambda>x. AgentResponse_zero\<lparr>AgentResponse.Error := Some
         x\<rparr>)"

definition AgentResponse_variants :: "AgentResponse variant list" where
  "AgentResponse_variants =
     [AgentResponse_as_Result,
      AgentResponse_as_Error]"

definition AgentResponse_UnmarshalJSON :: "raw_json \<Rightarrow> AgentResponse decoded" where
  "AgentResponse_UnmarshalJSON = unmarshal_union [] AgentResponse_variants"

definition AgentResponse_MarshalJSON :: "AgentResponse \<Rightarrow> string option" where
  "AgentResponse_MarshalJSON = marshal_union [] AgentResponse_variants"

definition AgentResponse_codec :: "AgentResponse codec" where
  "AgentResponse_codec = go_union AgentResponse_zero AgentResponse_UnmarshalJSON AgentResponse_MarshalJSON
      AgentResponse_variants"

definition AgentResponse_Validate :: "AgentResponse \<Rightarrow> invalid option" where
  "AgentResponse_Validate = validate_union False ''AgentResponse'' AgentResponse_codec AgentResponse_variants"

definition AgentResponse_named :: "(string list \<times> AgentResponse variant) list" where
  "AgentResponse_named =
     [(map f_name AgentResult_fields, AgentResponse_as_Result),
      (map f_name AgentError_fields, AgentResponse_as_Error)]"

lemma AgentResponse_Result_law:
  "variant_law 9002 [] (map f_name AgentResult_fields) AgentResponse_as_Result"
  unfolding AgentResponse_as_Result_def
  by (rule go_variant_law [OF obj_mono [OF AgentResult_obj]]) (simp_all add: AgentResult_names)

lemma AgentResponse_Error_law:
  "variant_law 9002 [] (map f_name AgentError_fields) AgentResponse_as_Error"
  unfolding AgentResponse_as_Error_def
  by (rule go_variant_law [OF obj_mono [OF AgentError_obj]]) (simp_all add: AgentError_names)

lemma AgentResponse_law: "union_law 9002 [] AgentResponse_named"
proof (rule union_lawI)
  show "list_all (\<lambda>(n, v). variant_law 9002 [] n v) AgentResponse_named"
    by (simp add: AgentResponse_named_def AgentResponse_Result_law AgentResponse_Error_law)
  show "list_all (\<lambda>(n, v). v_disc v \<noteq> Some []) AgentResponse_named"
    by (simp add: AgentResponse_named_def AgentResponse_as_Result_def AgentResponse_as_Error_def)
  show "sorted_wrt rivals AgentResponse_named"
    by (simp add: AgentResponse_named_def AgentResponse_zero_def AgentResponse_as_Result_def
      AgentResponse_as_Error_def AgentResult_names AgentError_names)
qed

lemma AgentResponse_wire [simp]: "9003 \<le> E \<Longrightarrow> wire E s AgentResponse_codec"
  using wire_mono [OF wire_union [OF AgentResponse_law, where zero = AgentResponse_zero], where e = E and s' = s]
  by (simp add: AgentResponse_codec_def AgentResponse_UnmarshalJSON_def AgentResponse_MarshalJSON_def
    AgentResponse_variants_def AgentResponse_named_def max_depth_def)

lemma AgentResponse_zero_codec [simp]: "c_zero AgentResponse_codec = AgentResponse_zero"
  by (simp add: AgentResponse_codec_def)

lemma AgentResponse_one: "list_all (\<lambda>v. builds v (\<lambda>u. variants_set AgentResponse_variants u = 1)) AgentResponse_variants"
  by (simp add: AgentResponse_variants_def AgentResponse_zero_def AgentResponse_as_Result_def
      AgentResponse_as_Error_def)

interpretation agentresponse_wire: wire_type AgentResponse_codec 9003
  by unfold_locales (simp_all add: max_depth_def)

lemma AgentResponse_valid: "c_fine AgentResponse_codec u \<Longrightarrow> AgentResponse_Validate u = None"
  unfolding AgentResponse_Validate_def validate_union_def
  by (rule agentresponse_wire.validated) (simp_all add: AgentResponse_codec_def union_fine_one [OF AgentResponse_one])

section \<open>Messages of a client\<close>

subsection \<open>\<open>ClientRequest\<close>\<close>

record ClientRequest =
  Id :: "RequestId"
  Method :: "string"
  Params :: "any_value"

definition ClientRequest_zero :: ClientRequest where
  "ClientRequest_zero = \<lparr>Id = RequestId_zero, Method = [], Params = ANil\<rparr>"

definition ClientRequest_fields :: "ClientRequest fld list" where
  "ClientRequest_fields =
     [go_field ''id'' False RequestId_codec ClientRequest.Id ClientRequest.Id_update,
      go_field ''method'' False go_string ClientRequest.Method ClientRequest.Method_update,
      go_field ''params'' True go_any ClientRequest.Params ClientRequest.Params_update]"

definition ClientRequest_UnmarshalJSON :: "raw_json \<Rightarrow> ClientRequest decoded" where
  "ClientRequest_UnmarshalJSON =
     decode_struct
       [present ''id'',
        required ''method'']
       (go_struct ClientRequest_zero ClientRequest_fields)
       (in_turn [])"

definition ClientRequest_codec :: "ClientRequest codec" where
  "ClientRequest_codec = with_unmarshal ClientRequest_UnmarshalJSON (go_struct ClientRequest_zero
      ClientRequest_fields)"

definition ClientRequest_Validate :: "ClientRequest \<Rightarrow> invalid option" where
  "ClientRequest_Validate v =
     (case RequestId_Validate (ClientRequest.Id v) of Some e \<Rightarrow> Some (Within ''id'' e)
     | None \<Rightarrow> None)"

lemma ClientRequest_zero_codec [simp]: "c_zero ClientRequest_codec = ClientRequest_zero"
  by (simp add: ClientRequest_codec_def)

lemma ClientRequest_obj:
  "obj 9001 (map f_name ClientRequest_fields)
     [present ''id'',
      required ''method'']
     ClientRequest_codec"
  unfolding ClientRequest_codec_def ClientRequest_UnmarshalJSON_def
  by (rule unmarshal_obj) (simp_all add: ClientRequest_fields_def ClientRequest_zero_def max_depth_def)

lemma ClientRequest_wire [simp]: "9002 \<le> E \<Longrightarrow> wire E s ClientRequest_codec"
  using wire_mono [OF wire_obj [OF ClientRequest_obj], of E s] by simp

subsection \<open>\<open>ClientNotification\<close>\<close>

record ClientNotification =
  Method :: "string"
  Params :: "any_value"

definition ClientNotification_zero :: ClientNotification where
  "ClientNotification_zero = \<lparr>Method = [], Params = ANil\<rparr>"

definition ClientNotification_fields :: "ClientNotification fld list" where
  "ClientNotification_fields =
     [go_field ''method'' False go_string ClientNotification.Method ClientNotification.Method_update,
      go_field ''params'' True go_any ClientNotification.Params ClientNotification.Params_update]"

definition ClientNotification_UnmarshalJSON :: "raw_json \<Rightarrow> ClientNotification decoded" where
  "ClientNotification_UnmarshalJSON =
     decode_struct
       [required ''method'']
       (go_struct ClientNotification_zero ClientNotification_fields)
       (in_turn [])"

definition ClientNotification_codec :: "ClientNotification codec" where
  "ClientNotification_codec = with_unmarshal ClientNotification_UnmarshalJSON (go_struct ClientNotification_zero
      ClientNotification_fields)"

definition ClientNotification_Validate :: "ClientNotification \<Rightarrow> invalid option" where
  "ClientNotification_Validate v =
     None"

lemma ClientNotification_zero_codec [simp]: "c_zero ClientNotification_codec = ClientNotification_zero"
  by (simp add: ClientNotification_codec_def)

lemma ClientNotification_obj:
  "obj 9000 (map f_name ClientNotification_fields)
     [required ''method'']
     ClientNotification_codec"
  unfolding ClientNotification_codec_def ClientNotification_UnmarshalJSON_def
  by (rule unmarshal_obj) (simp_all add: ClientNotification_fields_def ClientNotification_zero_def
        max_depth_def)

lemma ClientNotification_wire [simp]: "9001 \<le> E \<Longrightarrow> wire E s ClientNotification_codec"
  using wire_mono [OF wire_obj [OF ClientNotification_obj], of E s] by simp

subsection \<open>\<open>ClientResult\<close>\<close>

record ClientResult =
  Id :: "RequestId"
  Result :: "any_value"

definition ClientResult_zero :: ClientResult where
  "ClientResult_zero = \<lparr>Id = RequestId_zero, Result = ANil\<rparr>"

definition ClientResult_fields :: "ClientResult fld list" where
  "ClientResult_fields =
     [go_field ''id'' False RequestId_codec ClientResult.Id ClientResult.Id_update,
      go_field ''result'' False go_some_any ClientResult.Result ClientResult.Result_update]"

definition ClientResult_codec :: "ClientResult codec" where
  "ClientResult_codec = go_struct ClientResult_zero ClientResult_fields"

lemma ClientResult_zero_codec [simp]: "c_zero ClientResult_codec = ClientResult_zero"
  by (simp add: ClientResult_codec_def)

lemma ClientResult_obj:
  "obj 9001 (map f_name ClientResult_fields)
     [listed ''id'' RequestId_codec,
      typed ''result'' go_any]
     ClientResult_codec"
  unfolding ClientResult_codec_def
  by (rule struct_obj) (simp_all add: ClientResult_fields_def ClientResult_zero_def max_depth_def)

lemma ClientResult_wire [simp]: "9002 \<le> E \<Longrightarrow> wire E s ClientResult_codec"
  using wire_mono [OF wire_obj [OF ClientResult_obj], of E s] by simp

lemma ClientResult_names: "f_name ` set ClientResult_fields = {''id'', ''result''}"
  by (auto simp: ClientResult_fields_def)

subsection \<open>\<open>ClientError\<close>\<close>

record ClientError =
  Error :: "Error"
  Id :: "RequestId"

definition ClientError_zero :: ClientError where
  "ClientError_zero = \<lparr>Error = Error_zero, Id = RequestId_zero\<rparr>"

definition ClientError_fields :: "ClientError fld list" where
  "ClientError_fields =
     [go_field ''error'' False Error_codec ClientError.Error ClientError.Error_update,
      go_field ''id'' False RequestId_codec ClientError.Id ClientError.Id_update]"

definition ClientError_codec :: "ClientError codec" where
  "ClientError_codec = go_struct ClientError_zero ClientError_fields"

lemma ClientError_zero_codec [simp]: "c_zero ClientError_codec = ClientError_zero"
  by (simp add: ClientError_codec_def)

lemma ClientError_obj:
  "obj 9002 (map f_name ClientError_fields)
     [typed ''error'' Error_codec,
      listed ''id'' RequestId_codec]
     ClientError_codec"
  unfolding ClientError_codec_def
  by (rule struct_obj) (simp_all add: ClientError_fields_def ClientError_zero_def max_depth_def)

lemma ClientError_wire [simp]: "9003 \<le> E \<Longrightarrow> wire E s ClientError_codec"
  using wire_mono [OF wire_obj [OF ClientError_obj], of E s] by simp

lemma ClientError_names: "f_name ` set ClientError_fields = {''error'', ''id''}"
  by (auto simp: ClientError_fields_def)

subsection \<open>\<open>ClientResponse\<close>\<close>

record ClientResponse =
  Result :: "ClientResult option"
  Error :: "ClientError option"

definition ClientResponse_zero :: ClientResponse where
  "ClientResponse_zero = \<lparr>Result = None, Error = None\<rparr>"

definition ClientResponse_as_Result :: "ClientResponse variant" where
  "ClientResponse_as_Result =
     go_variant None
       [listed ''id'' RequestId_codec,
        typed ''result'' go_any]
       ClientResult_codec ClientResponse.Result (\<lambda>x. ClientResponse_zero\<lparr>ClientResponse.Result :=
         Some x\<rparr>)"

definition ClientResponse_as_Error :: "ClientResponse variant" where
  "ClientResponse_as_Error =
     go_variant None
       [typed ''error'' Error_codec,
        listed ''id'' RequestId_codec]
       ClientError_codec ClientResponse.Error (\<lambda>x. ClientResponse_zero\<lparr>ClientResponse.Error :=
         Some x\<rparr>)"

definition ClientResponse_variants :: "ClientResponse variant list" where
  "ClientResponse_variants =
     [ClientResponse_as_Result,
      ClientResponse_as_Error]"

definition ClientResponse_UnmarshalJSON :: "raw_json \<Rightarrow> ClientResponse decoded" where
  "ClientResponse_UnmarshalJSON = unmarshal_union [] ClientResponse_variants"

definition ClientResponse_MarshalJSON :: "ClientResponse \<Rightarrow> string option" where
  "ClientResponse_MarshalJSON = marshal_union [] ClientResponse_variants"

definition ClientResponse_codec :: "ClientResponse codec" where
  "ClientResponse_codec = go_union ClientResponse_zero ClientResponse_UnmarshalJSON ClientResponse_MarshalJSON
      ClientResponse_variants"

definition ClientResponse_Validate :: "ClientResponse \<Rightarrow> invalid option" where
  "ClientResponse_Validate = validate_union False ''ClientResponse'' ClientResponse_codec ClientResponse_variants"

definition ClientResponse_named :: "(string list \<times> ClientResponse variant) list" where
  "ClientResponse_named =
     [(map f_name ClientResult_fields, ClientResponse_as_Result),
      (map f_name ClientError_fields, ClientResponse_as_Error)]"

lemma ClientResponse_Result_law:
  "variant_law 9002 [] (map f_name ClientResult_fields) ClientResponse_as_Result"
  unfolding ClientResponse_as_Result_def
  by (rule go_variant_law [OF obj_mono [OF ClientResult_obj]]) (simp_all add: ClientResult_names)

lemma ClientResponse_Error_law:
  "variant_law 9002 [] (map f_name ClientError_fields) ClientResponse_as_Error"
  unfolding ClientResponse_as_Error_def
  by (rule go_variant_law [OF obj_mono [OF ClientError_obj]]) (simp_all add: ClientError_names)

lemma ClientResponse_law: "union_law 9002 [] ClientResponse_named"
proof (rule union_lawI)
  show "list_all (\<lambda>(n, v). variant_law 9002 [] n v) ClientResponse_named"
    by (simp add: ClientResponse_named_def ClientResponse_Result_law ClientResponse_Error_law)
  show "list_all (\<lambda>(n, v). v_disc v \<noteq> Some []) ClientResponse_named"
    by (simp add: ClientResponse_named_def ClientResponse_as_Result_def ClientResponse_as_Error_def)
  show "sorted_wrt rivals ClientResponse_named"
    by (simp add: ClientResponse_named_def ClientResponse_zero_def ClientResponse_as_Result_def
      ClientResponse_as_Error_def ClientResult_names ClientError_names)
qed

lemma ClientResponse_wire [simp]: "9003 \<le> E \<Longrightarrow> wire E s ClientResponse_codec"
  using wire_mono [OF wire_union [OF ClientResponse_law, where zero = ClientResponse_zero], where e = E and s' = s]
  by (simp add: ClientResponse_codec_def ClientResponse_UnmarshalJSON_def ClientResponse_MarshalJSON_def
    ClientResponse_variants_def ClientResponse_named_def max_depth_def)

lemma ClientResponse_zero_codec [simp]: "c_zero ClientResponse_codec = ClientResponse_zero"
  by (simp add: ClientResponse_codec_def)

lemma ClientResponse_one: "list_all (\<lambda>v. builds v (\<lambda>u. variants_set ClientResponse_variants u = 1)) ClientResponse_variants"
  by (simp add: ClientResponse_variants_def ClientResponse_zero_def ClientResponse_as_Result_def
      ClientResponse_as_Error_def)

interpretation clientresponse_wire: wire_type ClientResponse_codec 9003
  by unfold_locales (simp_all add: max_depth_def)

lemma ClientResponse_valid: "c_fine ClientResponse_codec u \<Longrightarrow> ClientResponse_Validate u = None"
  unfolding ClientResponse_Validate_def validate_union_def
  by (rule clientresponse_wire.validated) (simp_all add: ClientResponse_codec_def union_fine_one [OF ClientResponse_one])

section \<open>Properties\<close>

text \<open>
  Any object is read as the null id: the empty struct of the variant \<open>Null\<close> accepts it.
\<close>

lemma request_id_of_object: "RequestId_UnmarshalJSON (r, JObj ms) = Good (RequestId_zero\<lparr>RequestId.Null := Some ()\<rparr>)"
proof -
  have "dec_members [] None () ms = Good ()" by (induction ms) (auto simp: find_field_def match_field_def)
  then show ?thesis by (simp add: RequestId_UnmarshalJSON_def tries_def go_struct_def)
qed

lemma ErrorCode_numbers: "List.map_filter (\<lambda>get. get (ErrorCode_of n)) ErrorCode_fields = [n]"
  by (simp add: ErrorCode_of_def ErrorCode_choices_def ErrorCode_fields_def ErrorCode_zero_def List.map_filter_def)

lemma ErrorCode_number_fine: "ErrorCode_number (ErrorCode_of n) = Some n"
  by (simp only: ErrorCode_number_def ErrorCode_numbers find.simps if_True simp_thms)

text \<open>C40: Every 32-bit number is an error code of its own. It is decoded to the variant the protocol
  has for it, the eight codes by their numbers and every other number to \<open>Other\<close>, and to no other
  variant; what was decoded is valid, and is encoded as the number again.
\<close>

theorem error_code_canonical:
  assumes "- 2147483648 \<le> n" "n \<le> 2147483647"
  shows "\<exists>u. ErrorCode_UnmarshalJSON (r, JNum (show_int n)) = Good u \<and>
    ErrorCode.ParseError u = (if n = - 32700 then Some n else None) \<and>
    ErrorCode.InvalidRequest u = (if n = - 32600 then Some n else None) \<and>
    ErrorCode.MethodNotFound u = (if n = - 32601 then Some n else None) \<and>
    ErrorCode.InvalidParams u = (if n = - 32602 then Some n else None) \<and>
    ErrorCode.InternalError u = (if n = - 32603 then Some n else None) \<and>
    ErrorCode.RequestCancelled u = (if n = - 32800 then Some n else None) \<and>
    ErrorCode.AuthenticationRequired u = (if n = - 32000 then Some n else None) \<and>
    ErrorCode.ResourceNotFound u = (if n = - 32002 then Some n else None) \<and>
    ErrorCode.Other u =
      (if n \<in> {- 32700, - 32600, - 32601, - 32602, - 32603, - 32800, - 32000, - 32002} then None else Some n) \<and>
    ErrorCode_Validate u = None \<and> c_enc ErrorCode_codec u = Some (show_int n)"
proof -
  let ?u = "ErrorCode_of n"
  have n: "c_fine go_int32 n" using assms by (simp add: go_int32_def go_integer_def)
  note num = integer_number [OF n [unfolded go_int32_def], folded go_int32_def]
  have enc: "c_enc ErrorCode_codec ?u = Some (show_int n)"
    using num(1) clean_compact [OF num(2)] by (simp add: ErrorCode_codec_def ErrorCode_text)
  have "c_fine ErrorCode_codec ?u" using n ErrorCode_number_fine by (simp add: ErrorCode_codec_def)
  moreover have "set_count (map (\<lambda>get. get ?u \<noteq> None) ErrorCode_fields) = 1"
    by (simp add: set_count_def ErrorCode_choices_def ErrorCode_fields_def ErrorCode_of_def ErrorCode_zero_def)
  ultimately have "ErrorCode_Validate ?u = None"
    unfolding ErrorCode_Validate_def by (rule errorcode_wire.validated)
  then show ?thesis using enc ErrorCode_read [OF num(3)]
    by (intro exI [of _ ?u]) (simp add: ErrorCode_of_def ErrorCode_choices_def ErrorCode_zero_def)
qed

theorem error_code_canonical_witness:
  "\<exists>u. ErrorCode_UnmarshalJSON ([], JNum (show_int (- 32800))) = Good u \<and>
     ErrorCode.RequestCancelled u = Some (- 32800) \<and> c_enc ErrorCode_codec u = Some (show_int (- 32800))"
  using error_code_canonical [of "- 32800" "[]"] by auto

end
