(* ===== verification/WireElicit.thy ===== *)
theory WireElicit
  imports WireRpc
begin

text \<open>
  Elicitation: the schema of a form, its properties, the requests of either mode and their results.
\<close>

section \<open>Schemas\<close>

subsection \<open>\<open>ElicitationSchema\<close>\<close>

record ElicitationSchema =
  Meta :: "(string \<times> string) list option"
  Description :: "string option"
  Properties :: "(string \<times> any_value) list option"
  Required :: "string list option"
  Title :: "string option"
  Type :: "string"

definition ElicitationSchema_zero :: ElicitationSchema where
  "ElicitationSchema_zero = \<lparr>Meta = None, Description = None, Properties = None, Required = None, Title =
      None, Type = []\<rparr>"

definition ElicitationSchema_fields :: "ElicitationSchema fld list" where
  "ElicitationSchema_fields =
     [go_field ''_meta'' True (go_map go_raw) ElicitationSchema.Meta ElicitationSchema.Meta_update,
      go_field ''description'' True (go_ptr go_string) ElicitationSchema.Description
          ElicitationSchema.Description_update,
      go_field ''properties'' False (go_table go_any) ElicitationSchema.Properties
          ElicitationSchema.Properties_update,
      go_field ''required'' True (go_slice go_string) ElicitationSchema.Required
          ElicitationSchema.Required_update,
      go_field ''title'' True (go_ptr go_string) ElicitationSchema.Title ElicitationSchema.Title_update,
      go_field ''type'' True go_nonblank ElicitationSchema.Type ElicitationSchema.Type_update]"

definition ElicitationSchema_UnmarshalJSON :: "raw_json \<Rightarrow> ElicitationSchema decoded" where
  "ElicitationSchema_UnmarshalJSON =
     decode_struct
       []
       (go_struct ElicitationSchema_zero ElicitationSchema_fields)
       (in_turn [defaulted ''properties'' ''{}'' (go_map go_any) ElicitationSchema.Properties
            ElicitationSchema.Properties_update,
         defaulted ''type'' ''\"object\"'' go_string ElicitationSchema.Type ElicitationSchema.Type_update])"

definition ElicitationSchema_MarshalJSON :: "ElicitationSchema \<Rightarrow> string option" where
  "ElicitationSchema_MarshalJSON v = c_enc (go_struct ElicitationSchema_zero ElicitationSchema_fields) (made
      ElicitationSchema.Properties ElicitationSchema.Properties_update [] v)"

definition ElicitationSchema_codec :: "ElicitationSchema codec" where
  "ElicitationSchema_codec = with_marshal ElicitationSchema_MarshalJSON (with_unmarshal
      ElicitationSchema_UnmarshalJSON (go_struct ElicitationSchema_zero ElicitationSchema_fields))"

lemma ElicitationSchema_zero_codec [simp]: "c_zero ElicitationSchema_codec = ElicitationSchema_zero"
  by (simp add: ElicitationSchema_codec_def)

lemma ElicitationSchema_obj:
  "obj 9001 (map f_name ElicitationSchema_fields) [] ElicitationSchema_codec"
  unfolding ElicitationSchema_codec_def ElicitationSchema_UnmarshalJSON_def
proof (rule obj_marshal)
  show "obj 9001 (map f_name ElicitationSchema_fields)
     []
    (with_unmarshal (decode_struct
       []
       (go_struct ElicitationSchema_zero ElicitationSchema_fields)
       (in_turn [defaulted ''properties'' ''{}'' (go_map go_any) ElicitationSchema.Properties
            ElicitationSchema.Properties_update,
         defaulted ''type'' ''\"object\"'' go_string ElicitationSchema.Type ElicitationSchema.Type_update]))
     (go_struct ElicitationSchema_zero ElicitationSchema_fields))"
    by (rule unmarshal_obj) (simp_all add: ElicitationSchema_fields_def ElicitationSchema_zero_def
          max_depth_def)
  show "ElicitationSchema_MarshalJSON v = c_enc (with_unmarshal u (go_struct ElicitationSchema_zero ElicitationSchema_fields)) v"
    if "c_fine (with_unmarshal u (go_struct ElicitationSchema_zero ElicitationSchema_fields)) v" for u v
    using fill_same [OF that, of ElicitationSchema.Properties ElicitationSchema.Properties_update "[]"]
    by (simp add: ElicitationSchema_MarshalJSON_def ElicitationSchema_fields_def)
qed (simp_all add: max_depth_def)

lemma ElicitationSchema_wire [simp]: "9002 \<le> E \<Longrightarrow> wire E s ElicitationSchema_codec"
  using wire_mono [OF wire_obj [OF ElicitationSchema_obj], of E s] by simp

interpretation elicitationschema_wire: wire_type ElicitationSchema_codec 9002
  by unfold_locales (simp_all add: max_depth_def)

subsection \<open>\<open>EnumOption\<close>\<close>

record EnumOption =
  Meta :: "(string \<times> string) list option"
  Const :: "string"
  Description :: "string option"
  Title :: "string"

definition EnumOption_zero :: EnumOption where
  "EnumOption_zero = \<lparr>Meta = None, Const = [], Description = None, Title = []\<rparr>"

definition EnumOption_fields :: "EnumOption fld list" where
  "EnumOption_fields =
     [go_field ''_meta'' True (go_map go_raw) EnumOption.Meta EnumOption.Meta_update,
      go_field ''const'' False go_string EnumOption.Const EnumOption.Const_update,
      go_field ''description'' True (go_ptr go_string) EnumOption.Description EnumOption.Description_update,
      go_field ''title'' False go_string EnumOption.Title EnumOption.Title_update]"

definition EnumOption_UnmarshalJSON :: "raw_json \<Rightarrow> EnumOption decoded" where
  "EnumOption_UnmarshalJSON =
     decode_struct
       [required ''const'',
        required ''title'']
       (go_struct EnumOption_zero EnumOption_fields)
       (in_turn [])"

definition EnumOption_codec :: "EnumOption codec" where
  "EnumOption_codec = with_unmarshal EnumOption_UnmarshalJSON (go_struct EnumOption_zero EnumOption_fields)"

lemma EnumOption_zero_codec [simp]: "c_zero EnumOption_codec = EnumOption_zero"
  by (simp add: EnumOption_codec_def)

lemma EnumOption_obj:
  "obj 9001 (map f_name EnumOption_fields)
     [required ''const'',
      required ''title'']
     EnumOption_codec"
  unfolding EnumOption_codec_def EnumOption_UnmarshalJSON_def
  by (rule unmarshal_obj) (simp_all add: EnumOption_fields_def EnumOption_zero_def max_depth_def)

lemma EnumOption_wire [simp]: "9002 \<le> E \<Longrightarrow> wire E s EnumOption_codec"
  using wire_mono [OF wire_obj [OF EnumOption_obj], of E s] by simp

subsection \<open>\<open>StringPropertySchema\<close>\<close>

record StringPropertySchema =
  Meta :: "(string \<times> string) list option"
  Default :: "string option"
  Description :: "string option"
  Enum :: "string list option"
  Format :: "string option"
  MaxLength :: "int option"
  MinLength :: "int option"
  OneOf :: "EnumOption list option"
  Pattern :: "string option"
  Title :: "string option"

definition StringPropertySchema_zero :: StringPropertySchema where
  "StringPropertySchema_zero = \<lparr>Meta = None, Default = None, Description = None, Enum = None, Format =
      None, MaxLength = None, MinLength = None, OneOf = None, Pattern = None, Title = None\<rparr>"

definition StringPropertySchema_fields :: "StringPropertySchema fld list" where
  "StringPropertySchema_fields =
     [go_field ''_meta'' True (go_map go_raw) StringPropertySchema.Meta StringPropertySchema.Meta_update,
      go_field ''default'' True (go_ptr go_string) StringPropertySchema.Default
          StringPropertySchema.Default_update,
      go_field ''description'' True (go_ptr go_string) StringPropertySchema.Description
          StringPropertySchema.Description_update,
      go_field ''enum'' True (go_slice go_string) StringPropertySchema.Enum StringPropertySchema.Enum_update,
      go_field ''format'' True (go_ptr go_string) StringPropertySchema.Format
          StringPropertySchema.Format_update,
      go_field ''maxLength'' True (go_ptr go_uint32) StringPropertySchema.MaxLength
          StringPropertySchema.MaxLength_update,
      go_field ''minLength'' True (go_ptr go_uint32) StringPropertySchema.MinLength
          StringPropertySchema.MinLength_update,
      go_field ''oneOf'' True (go_slice EnumOption_codec) StringPropertySchema.OneOf
          StringPropertySchema.OneOf_update,
      go_field ''pattern'' True (go_ptr go_string) StringPropertySchema.Pattern
          StringPropertySchema.Pattern_update,
      go_field ''title'' True (go_ptr go_string) StringPropertySchema.Title StringPropertySchema.Title_update]"

definition StringPropertySchema_codec :: "StringPropertySchema codec" where
  "StringPropertySchema_codec = go_struct StringPropertySchema_zero StringPropertySchema_fields"

lemma StringPropertySchema_zero_codec [simp]: "c_zero StringPropertySchema_codec = StringPropertySchema_zero"
  by (simp add: StringPropertySchema_codec_def)

lemma StringPropertySchema_obj:
  "obj 9003 (map f_name StringPropertySchema_fields) [] StringPropertySchema_codec"
  unfolding StringPropertySchema_codec_def
  by (rule struct_obj) (simp_all add: StringPropertySchema_fields_def StringPropertySchema_zero_def
        max_depth_def)

lemma StringPropertySchema_wire [simp]: "9004 \<le> E \<Longrightarrow> wire E s StringPropertySchema_codec"
  using wire_mono [OF wire_obj [OF StringPropertySchema_obj], of E s] by simp

subsection \<open>\<open>NumberPropertySchema\<close>\<close>

record NumberPropertySchema =
  Meta :: "(string \<times> string) list option"
  Default :: "string option"
  Description :: "string option"
  Maximum :: "string option"
  Minimum :: "string option"
  Title :: "string option"

definition NumberPropertySchema_zero :: NumberPropertySchema where
  "NumberPropertySchema_zero = \<lparr>Meta = None, Default = None, Description = None, Maximum = None, Minimum
      = None, Title = None\<rparr>"

definition NumberPropertySchema_fields :: "NumberPropertySchema fld list" where
  "NumberPropertySchema_fields =
     [go_field ''_meta'' True (go_map go_raw) NumberPropertySchema.Meta NumberPropertySchema.Meta_update,
      go_field ''default'' True (go_ptr go_float64) NumberPropertySchema.Default
          NumberPropertySchema.Default_update,
      go_field ''description'' True (go_ptr go_string) NumberPropertySchema.Description
          NumberPropertySchema.Description_update,
      go_field ''maximum'' True (go_ptr go_float64) NumberPropertySchema.Maximum
          NumberPropertySchema.Maximum_update,
      go_field ''minimum'' True (go_ptr go_float64) NumberPropertySchema.Minimum
          NumberPropertySchema.Minimum_update,
      go_field ''title'' True (go_ptr go_string) NumberPropertySchema.Title NumberPropertySchema.Title_update]"

definition NumberPropertySchema_codec :: "NumberPropertySchema codec" where
  "NumberPropertySchema_codec = go_struct NumberPropertySchema_zero NumberPropertySchema_fields"

lemma NumberPropertySchema_zero_codec [simp]: "c_zero NumberPropertySchema_codec = NumberPropertySchema_zero"
  by (simp add: NumberPropertySchema_codec_def)

lemma NumberPropertySchema_obj:
  "obj 9001 (map f_name NumberPropertySchema_fields) [] NumberPropertySchema_codec"
  unfolding NumberPropertySchema_codec_def
  by (rule struct_obj) (simp_all add: NumberPropertySchema_fields_def NumberPropertySchema_zero_def
        max_depth_def)

lemma NumberPropertySchema_wire [simp]: "9002 \<le> E \<Longrightarrow> wire E s NumberPropertySchema_codec"
  using wire_mono [OF wire_obj [OF NumberPropertySchema_obj], of E s] by simp

subsection \<open>\<open>IntegerPropertySchema\<close>\<close>

record IntegerPropertySchema =
  Meta :: "(string \<times> string) list option"
  Default :: "int option"
  Description :: "string option"
  Maximum :: "int option"
  Minimum :: "int option"
  Title :: "string option"

definition IntegerPropertySchema_zero :: IntegerPropertySchema where
  "IntegerPropertySchema_zero = \<lparr>Meta = None, Default = None, Description = None, Maximum = None, Minimum
      = None, Title = None\<rparr>"

definition IntegerPropertySchema_fields :: "IntegerPropertySchema fld list" where
  "IntegerPropertySchema_fields =
     [go_field ''_meta'' True (go_map go_raw) IntegerPropertySchema.Meta IntegerPropertySchema.Meta_update,
      go_field ''default'' True (go_ptr go_int64) IntegerPropertySchema.Default
          IntegerPropertySchema.Default_update,
      go_field ''description'' True (go_ptr go_string) IntegerPropertySchema.Description
          IntegerPropertySchema.Description_update,
      go_field ''maximum'' True (go_ptr go_int64) IntegerPropertySchema.Maximum
          IntegerPropertySchema.Maximum_update,
      go_field ''minimum'' True (go_ptr go_int64) IntegerPropertySchema.Minimum
          IntegerPropertySchema.Minimum_update,
      go_field ''title'' True (go_ptr go_string) IntegerPropertySchema.Title IntegerPropertySchema.Title_update]"

definition IntegerPropertySchema_codec :: "IntegerPropertySchema codec" where
  "IntegerPropertySchema_codec = go_struct IntegerPropertySchema_zero IntegerPropertySchema_fields"

lemma IntegerPropertySchema_zero_codec [simp]: "c_zero IntegerPropertySchema_codec = IntegerPropertySchema_zero"
  by (simp add: IntegerPropertySchema_codec_def)

lemma IntegerPropertySchema_obj:
  "obj 9001 (map f_name IntegerPropertySchema_fields) [] IntegerPropertySchema_codec"
  unfolding IntegerPropertySchema_codec_def
  by (rule struct_obj) (simp_all add: IntegerPropertySchema_fields_def IntegerPropertySchema_zero_def
        max_depth_def)

lemma IntegerPropertySchema_wire [simp]: "9002 \<le> E \<Longrightarrow> wire E s IntegerPropertySchema_codec"
  using wire_mono [OF wire_obj [OF IntegerPropertySchema_obj], of E s] by simp

subsection \<open>\<open>BooleanPropertySchema\<close>\<close>

record BooleanPropertySchema =
  Meta :: "(string \<times> string) list option"
  Default :: "bool option"
  Description :: "string option"
  Title :: "string option"

definition BooleanPropertySchema_zero :: BooleanPropertySchema where
  "BooleanPropertySchema_zero = \<lparr>Meta = None, Default = None, Description = None, Title = None\<rparr>"

definition BooleanPropertySchema_fields :: "BooleanPropertySchema fld list" where
  "BooleanPropertySchema_fields =
     [go_field ''_meta'' True (go_map go_raw) BooleanPropertySchema.Meta BooleanPropertySchema.Meta_update,
      go_field ''default'' True (go_ptr go_bool) BooleanPropertySchema.Default
          BooleanPropertySchema.Default_update,
      go_field ''description'' True (go_ptr go_string) BooleanPropertySchema.Description
          BooleanPropertySchema.Description_update,
      go_field ''title'' True (go_ptr go_string) BooleanPropertySchema.Title BooleanPropertySchema.Title_update]"

definition BooleanPropertySchema_codec :: "BooleanPropertySchema codec" where
  "BooleanPropertySchema_codec = go_struct BooleanPropertySchema_zero BooleanPropertySchema_fields"

lemma BooleanPropertySchema_zero_codec [simp]: "c_zero BooleanPropertySchema_codec = BooleanPropertySchema_zero"
  by (simp add: BooleanPropertySchema_codec_def)

lemma BooleanPropertySchema_obj:
  "obj 9001 (map f_name BooleanPropertySchema_fields) [] BooleanPropertySchema_codec"
  unfolding BooleanPropertySchema_codec_def
  by (rule struct_obj) (simp_all add: BooleanPropertySchema_fields_def BooleanPropertySchema_zero_def
        max_depth_def)

lemma BooleanPropertySchema_wire [simp]: "9002 \<le> E \<Longrightarrow> wire E s BooleanPropertySchema_codec"
  using wire_mono [OF wire_obj [OF BooleanPropertySchema_obj], of E s] by simp

subsection \<open>\<open>ElicitationPropertySchemaString\<close>\<close>

record ElicitationPropertySchemaString =
  Meta :: "(string \<times> string) list option"
  Default :: "string option"
  Description :: "string option"
  Enum :: "string list option"
  Format :: "string option"
  MaxLength :: "int option"
  MinLength :: "int option"
  OneOf :: "EnumOption list option"
  Pattern :: "string option"
  Title :: "string option"
  Type :: "string"

definition ElicitationPropertySchemaString_zero :: ElicitationPropertySchemaString where
  "ElicitationPropertySchemaString_zero = \<lparr>Meta = None, Default = None, Description = None, Enum = None,
      Format = None, MaxLength = None, MinLength = None, OneOf = None, Pattern = None, Title = None, Type =
      []\<rparr>"

definition ElicitationPropertySchemaString_fields :: "ElicitationPropertySchemaString fld list" where
  "ElicitationPropertySchemaString_fields =
     [go_field ''_meta'' True (go_map go_raw) ElicitationPropertySchemaString.Meta
         ElicitationPropertySchemaString.Meta_update,
      go_field ''default'' True (go_ptr go_string) ElicitationPropertySchemaString.Default
          ElicitationPropertySchemaString.Default_update,
      go_field ''description'' True (go_ptr go_string) ElicitationPropertySchemaString.Description
          ElicitationPropertySchemaString.Description_update,
      go_field ''enum'' True (go_slice go_string) ElicitationPropertySchemaString.Enum
          ElicitationPropertySchemaString.Enum_update,
      go_field ''format'' True (go_ptr go_string) ElicitationPropertySchemaString.Format
          ElicitationPropertySchemaString.Format_update,
      go_field ''maxLength'' True (go_ptr go_uint32) ElicitationPropertySchemaString.MaxLength
          ElicitationPropertySchemaString.MaxLength_update,
      go_field ''minLength'' True (go_ptr go_uint32) ElicitationPropertySchemaString.MinLength
          ElicitationPropertySchemaString.MinLength_update,
      go_field ''oneOf'' True (go_slice EnumOption_codec) ElicitationPropertySchemaString.OneOf
          ElicitationPropertySchemaString.OneOf_update,
      go_field ''pattern'' True (go_ptr go_string) ElicitationPropertySchemaString.Pattern
          ElicitationPropertySchemaString.Pattern_update,
      go_field ''title'' True (go_ptr go_string) ElicitationPropertySchemaString.Title
          ElicitationPropertySchemaString.Title_update,
      go_field ''type'' False go_string ElicitationPropertySchemaString.Type
          ElicitationPropertySchemaString.Type_update]"

definition ElicitationPropertySchemaString_codec :: "ElicitationPropertySchemaString codec" where
  "ElicitationPropertySchemaString_codec = go_struct ElicitationPropertySchemaString_zero
      ElicitationPropertySchemaString_fields"

lemma ElicitationPropertySchemaString_zero_codec [simp]: "c_zero ElicitationPropertySchemaString_codec = ElicitationPropertySchemaString_zero"
  by (simp add: ElicitationPropertySchemaString_codec_def)

lemma ElicitationPropertySchemaString_obj:
  "obj 9003 (map f_name ElicitationPropertySchemaString_fields) [] ElicitationPropertySchemaString_codec"
  unfolding ElicitationPropertySchemaString_codec_def
  by (rule struct_obj) (simp_all add: ElicitationPropertySchemaString_fields_def
        ElicitationPropertySchemaString_zero_def max_depth_def)

lemma ElicitationPropertySchemaString_wire [simp]: "9004 \<le> E \<Longrightarrow> wire E s ElicitationPropertySchemaString_codec"
  using wire_mono [OF wire_obj [OF ElicitationPropertySchemaString_obj], of E s] by simp

subsection \<open>\<open>ElicitationPropertySchemaNumber\<close>\<close>

record ElicitationPropertySchemaNumber =
  Meta :: "(string \<times> string) list option"
  Default :: "string option"
  Description :: "string option"
  Maximum :: "string option"
  Minimum :: "string option"
  Title :: "string option"
  Type :: "string"

definition ElicitationPropertySchemaNumber_zero :: ElicitationPropertySchemaNumber where
  "ElicitationPropertySchemaNumber_zero = \<lparr>Meta = None, Default = None, Description = None, Maximum =
      None, Minimum = None, Title = None, Type = []\<rparr>"

definition ElicitationPropertySchemaNumber_fields :: "ElicitationPropertySchemaNumber fld list" where
  "ElicitationPropertySchemaNumber_fields =
     [go_field ''_meta'' True (go_map go_raw) ElicitationPropertySchemaNumber.Meta
         ElicitationPropertySchemaNumber.Meta_update,
      go_field ''default'' True (go_ptr go_float64) ElicitationPropertySchemaNumber.Default
          ElicitationPropertySchemaNumber.Default_update,
      go_field ''description'' True (go_ptr go_string) ElicitationPropertySchemaNumber.Description
          ElicitationPropertySchemaNumber.Description_update,
      go_field ''maximum'' True (go_ptr go_float64) ElicitationPropertySchemaNumber.Maximum
          ElicitationPropertySchemaNumber.Maximum_update,
      go_field ''minimum'' True (go_ptr go_float64) ElicitationPropertySchemaNumber.Minimum
          ElicitationPropertySchemaNumber.Minimum_update,
      go_field ''title'' True (go_ptr go_string) ElicitationPropertySchemaNumber.Title
          ElicitationPropertySchemaNumber.Title_update,
      go_field ''type'' False go_string ElicitationPropertySchemaNumber.Type
          ElicitationPropertySchemaNumber.Type_update]"

definition ElicitationPropertySchemaNumber_codec :: "ElicitationPropertySchemaNumber codec" where
  "ElicitationPropertySchemaNumber_codec = go_struct ElicitationPropertySchemaNumber_zero
      ElicitationPropertySchemaNumber_fields"

lemma ElicitationPropertySchemaNumber_zero_codec [simp]: "c_zero ElicitationPropertySchemaNumber_codec = ElicitationPropertySchemaNumber_zero"
  by (simp add: ElicitationPropertySchemaNumber_codec_def)

lemma ElicitationPropertySchemaNumber_obj:
  "obj 9001 (map f_name ElicitationPropertySchemaNumber_fields) [] ElicitationPropertySchemaNumber_codec"
  unfolding ElicitationPropertySchemaNumber_codec_def
  by (rule struct_obj) (simp_all add: ElicitationPropertySchemaNumber_fields_def
        ElicitationPropertySchemaNumber_zero_def max_depth_def)

lemma ElicitationPropertySchemaNumber_wire [simp]: "9002 \<le> E \<Longrightarrow> wire E s ElicitationPropertySchemaNumber_codec"
  using wire_mono [OF wire_obj [OF ElicitationPropertySchemaNumber_obj], of E s] by simp

subsection \<open>\<open>ElicitationPropertySchemaInteger\<close>\<close>

record ElicitationPropertySchemaInteger =
  Meta :: "(string \<times> string) list option"
  Default :: "int option"
  Description :: "string option"
  Maximum :: "int option"
  Minimum :: "int option"
  Title :: "string option"
  Type :: "string"

definition ElicitationPropertySchemaInteger_zero :: ElicitationPropertySchemaInteger where
  "ElicitationPropertySchemaInteger_zero = \<lparr>Meta = None, Default = None, Description = None, Maximum =
      None, Minimum = None, Title = None, Type = []\<rparr>"

definition ElicitationPropertySchemaInteger_fields :: "ElicitationPropertySchemaInteger fld list" where
  "ElicitationPropertySchemaInteger_fields =
     [go_field ''_meta'' True (go_map go_raw) ElicitationPropertySchemaInteger.Meta
         ElicitationPropertySchemaInteger.Meta_update,
      go_field ''default'' True (go_ptr go_int64) ElicitationPropertySchemaInteger.Default
          ElicitationPropertySchemaInteger.Default_update,
      go_field ''description'' True (go_ptr go_string) ElicitationPropertySchemaInteger.Description
          ElicitationPropertySchemaInteger.Description_update,
      go_field ''maximum'' True (go_ptr go_int64) ElicitationPropertySchemaInteger.Maximum
          ElicitationPropertySchemaInteger.Maximum_update,
      go_field ''minimum'' True (go_ptr go_int64) ElicitationPropertySchemaInteger.Minimum
          ElicitationPropertySchemaInteger.Minimum_update,
      go_field ''title'' True (go_ptr go_string) ElicitationPropertySchemaInteger.Title
          ElicitationPropertySchemaInteger.Title_update,
      go_field ''type'' False go_string ElicitationPropertySchemaInteger.Type
          ElicitationPropertySchemaInteger.Type_update]"

definition ElicitationPropertySchemaInteger_codec :: "ElicitationPropertySchemaInteger codec" where
  "ElicitationPropertySchemaInteger_codec = go_struct ElicitationPropertySchemaInteger_zero
      ElicitationPropertySchemaInteger_fields"

lemma ElicitationPropertySchemaInteger_zero_codec [simp]: "c_zero ElicitationPropertySchemaInteger_codec = ElicitationPropertySchemaInteger_zero"
  by (simp add: ElicitationPropertySchemaInteger_codec_def)

lemma ElicitationPropertySchemaInteger_obj:
  "obj 9001 (map f_name ElicitationPropertySchemaInteger_fields) [] ElicitationPropertySchemaInteger_codec"
  unfolding ElicitationPropertySchemaInteger_codec_def
  by (rule struct_obj) (simp_all add: ElicitationPropertySchemaInteger_fields_def
        ElicitationPropertySchemaInteger_zero_def max_depth_def)

lemma ElicitationPropertySchemaInteger_wire [simp]: "9002 \<le> E \<Longrightarrow> wire E s ElicitationPropertySchemaInteger_codec"
  using wire_mono [OF wire_obj [OF ElicitationPropertySchemaInteger_obj], of E s] by simp

subsection \<open>\<open>ElicitationPropertySchemaBoolean\<close>\<close>

record ElicitationPropertySchemaBoolean =
  Meta :: "(string \<times> string) list option"
  Default :: "bool option"
  Description :: "string option"
  Title :: "string option"
  Type :: "string"

definition ElicitationPropertySchemaBoolean_zero :: ElicitationPropertySchemaBoolean where
  "ElicitationPropertySchemaBoolean_zero = \<lparr>Meta = None, Default = None, Description = None, Title =
      None, Type = []\<rparr>"

definition ElicitationPropertySchemaBoolean_fields :: "ElicitationPropertySchemaBoolean fld list" where
  "ElicitationPropertySchemaBoolean_fields =
     [go_field ''_meta'' True (go_map go_raw) ElicitationPropertySchemaBoolean.Meta
         ElicitationPropertySchemaBoolean.Meta_update,
      go_field ''default'' True (go_ptr go_bool) ElicitationPropertySchemaBoolean.Default
          ElicitationPropertySchemaBoolean.Default_update,
      go_field ''description'' True (go_ptr go_string) ElicitationPropertySchemaBoolean.Description
          ElicitationPropertySchemaBoolean.Description_update,
      go_field ''title'' True (go_ptr go_string) ElicitationPropertySchemaBoolean.Title
          ElicitationPropertySchemaBoolean.Title_update,
      go_field ''type'' False go_string ElicitationPropertySchemaBoolean.Type
          ElicitationPropertySchemaBoolean.Type_update]"

definition ElicitationPropertySchemaBoolean_codec :: "ElicitationPropertySchemaBoolean codec" where
  "ElicitationPropertySchemaBoolean_codec = go_struct ElicitationPropertySchemaBoolean_zero
      ElicitationPropertySchemaBoolean_fields"

lemma ElicitationPropertySchemaBoolean_zero_codec [simp]: "c_zero ElicitationPropertySchemaBoolean_codec = ElicitationPropertySchemaBoolean_zero"
  by (simp add: ElicitationPropertySchemaBoolean_codec_def)

lemma ElicitationPropertySchemaBoolean_obj:
  "obj 9001 (map f_name ElicitationPropertySchemaBoolean_fields) [] ElicitationPropertySchemaBoolean_codec"
  unfolding ElicitationPropertySchemaBoolean_codec_def
  by (rule struct_obj) (simp_all add: ElicitationPropertySchemaBoolean_fields_def
        ElicitationPropertySchemaBoolean_zero_def max_depth_def)

lemma ElicitationPropertySchemaBoolean_wire [simp]: "9002 \<le> E \<Longrightarrow> wire E s ElicitationPropertySchemaBoolean_codec"
  using wire_mono [OF wire_obj [OF ElicitationPropertySchemaBoolean_obj], of E s] by simp

subsection \<open>\<open>TitledMultiSelectItems\<close>\<close>

record TitledMultiSelectItems =
  Meta :: "(string \<times> string) list option"
  AnyOf :: "EnumOption list option"

definition TitledMultiSelectItems_zero :: TitledMultiSelectItems where
  "TitledMultiSelectItems_zero = \<lparr>Meta = None, AnyOf = None\<rparr>"

definition TitledMultiSelectItems_fields :: "TitledMultiSelectItems fld list" where
  "TitledMultiSelectItems_fields =
     [go_field ''_meta'' True (go_map go_raw) TitledMultiSelectItems.Meta TitledMultiSelectItems.Meta_update,
      go_field ''anyOf'' False (go_list EnumOption_codec) TitledMultiSelectItems.AnyOf
          TitledMultiSelectItems.AnyOf_update]"

definition TitledMultiSelectItems_UnmarshalJSON :: "raw_json \<Rightarrow> TitledMultiSelectItems decoded" where
  "TitledMultiSelectItems_UnmarshalJSON =
     decode_struct
       [required ''anyOf'']
       (go_struct TitledMultiSelectItems_zero TitledMultiSelectItems_fields)
       (in_turn [])"

definition TitledMultiSelectItems_codec :: "TitledMultiSelectItems codec" where
  "TitledMultiSelectItems_codec = with_unmarshal TitledMultiSelectItems_UnmarshalJSON (go_struct
      TitledMultiSelectItems_zero TitledMultiSelectItems_fields)"

lemma TitledMultiSelectItems_zero_codec [simp]: "c_zero TitledMultiSelectItems_codec = TitledMultiSelectItems_zero"
  by (simp add: TitledMultiSelectItems_codec_def)

lemma TitledMultiSelectItems_obj:
  "obj 9003 (map f_name TitledMultiSelectItems_fields)
     [required ''anyOf'']
     TitledMultiSelectItems_codec"
  unfolding TitledMultiSelectItems_codec_def TitledMultiSelectItems_UnmarshalJSON_def
  by (rule unmarshal_obj) (simp_all add: TitledMultiSelectItems_fields_def TitledMultiSelectItems_zero_def
        max_depth_def)

lemma TitledMultiSelectItems_wire [simp]: "9004 \<le> E \<Longrightarrow> wire E s TitledMultiSelectItems_codec"
  using wire_mono [OF wire_obj [OF TitledMultiSelectItems_obj], of E s] by simp

subsection \<open>\<open>StringMultiSelectItems\<close>\<close>

record StringMultiSelectItems =
  Meta :: "(string \<times> string) list option"
  Enum :: "string list option"

definition StringMultiSelectItems_zero :: StringMultiSelectItems where
  "StringMultiSelectItems_zero = \<lparr>Meta = None, Enum = None\<rparr>"

definition StringMultiSelectItems_fields :: "StringMultiSelectItems fld list" where
  "StringMultiSelectItems_fields =
     [go_field ''_meta'' True (go_map go_raw) StringMultiSelectItems.Meta StringMultiSelectItems.Meta_update,
      go_field ''enum'' False (go_list go_string) StringMultiSelectItems.Enum
          StringMultiSelectItems.Enum_update]"

definition StringMultiSelectItems_UnmarshalJSON :: "raw_json \<Rightarrow> StringMultiSelectItems decoded" where
  "StringMultiSelectItems_UnmarshalJSON =
     decode_struct
       [required ''enum'']
       (go_struct StringMultiSelectItems_zero StringMultiSelectItems_fields)
       (in_turn [])"

definition StringMultiSelectItems_codec :: "StringMultiSelectItems codec" where
  "StringMultiSelectItems_codec = with_unmarshal StringMultiSelectItems_UnmarshalJSON (go_struct
      StringMultiSelectItems_zero StringMultiSelectItems_fields)"

lemma StringMultiSelectItems_zero_codec [simp]: "c_zero StringMultiSelectItems_codec = StringMultiSelectItems_zero"
  by (simp add: StringMultiSelectItems_codec_def)

lemma StringMultiSelectItems_obj:
  "obj 9001 (map f_name StringMultiSelectItems_fields)
     [required ''enum'']
     StringMultiSelectItems_codec"
  unfolding StringMultiSelectItems_codec_def StringMultiSelectItems_UnmarshalJSON_def
  by (rule unmarshal_obj) (simp_all add: StringMultiSelectItems_fields_def StringMultiSelectItems_zero_def
        max_depth_def)

lemma StringMultiSelectItems_wire [simp]: "9002 \<le> E \<Longrightarrow> wire E s StringMultiSelectItems_codec"
  using wire_mono [OF wire_obj [OF StringMultiSelectItems_obj], of E s] by simp

subsection \<open>\<open>MultiSelectItemsString\<close>\<close>

record MultiSelectItemsString =
  Meta :: "(string \<times> string) list option"
  Enum :: "string list option"
  Type :: "string"

definition MultiSelectItemsString_zero :: MultiSelectItemsString where
  "MultiSelectItemsString_zero = \<lparr>Meta = None, Enum = None, Type = []\<rparr>"

definition MultiSelectItemsString_fields :: "MultiSelectItemsString fld list" where
  "MultiSelectItemsString_fields =
     [go_field ''_meta'' True (go_map go_raw) MultiSelectItemsString.Meta MultiSelectItemsString.Meta_update,
      go_field ''enum'' False (go_slice go_string) MultiSelectItemsString.Enum
          MultiSelectItemsString.Enum_update,
      go_field ''type'' False go_string MultiSelectItemsString.Type MultiSelectItemsString.Type_update]"

definition MultiSelectItemsString_codec :: "MultiSelectItemsString codec" where
  "MultiSelectItemsString_codec = go_struct MultiSelectItemsString_zero MultiSelectItemsString_fields"

lemma MultiSelectItemsString_zero_codec [simp]: "c_zero MultiSelectItemsString_codec = MultiSelectItemsString_zero"
  by (simp add: MultiSelectItemsString_codec_def)

lemma MultiSelectItemsString_obj:
  "obj 9001 (map f_name MultiSelectItemsString_fields) [] MultiSelectItemsString_codec"
  unfolding MultiSelectItemsString_codec_def
  by (rule struct_obj) (simp_all add: MultiSelectItemsString_fields_def MultiSelectItemsString_zero_def
        max_depth_def)

lemma MultiSelectItemsString_wire [simp]: "9002 \<le> E \<Longrightarrow> wire E s MultiSelectItemsString_codec"
  using wire_mono [OF wire_obj [OF MultiSelectItemsString_obj], of E s] by simp

section \<open>Scopes and modes\<close>

subsection \<open>\<open>ElicitationSessionScope\<close>\<close>

record ElicitationSessionScope =
  SessionId :: "string"
  ToolCallId :: "string option"

definition ElicitationSessionScope_zero :: ElicitationSessionScope where
  "ElicitationSessionScope_zero = \<lparr>SessionId = [], ToolCallId = None\<rparr>"

definition ElicitationSessionScope_fields :: "ElicitationSessionScope fld list" where
  "ElicitationSessionScope_fields =
     [go_field ''sessionId'' False go_string ElicitationSessionScope.SessionId
         ElicitationSessionScope.SessionId_update,
      go_field ''toolCallId'' True (go_ptr go_string) ElicitationSessionScope.ToolCallId
          ElicitationSessionScope.ToolCallId_update]"

definition ElicitationSessionScope_UnmarshalJSON :: "raw_json \<Rightarrow> ElicitationSessionScope decoded" where
  "ElicitationSessionScope_UnmarshalJSON =
     decode_struct
       [required ''sessionId'']
       (go_struct ElicitationSessionScope_zero ElicitationSessionScope_fields)
       (in_turn [])"

definition ElicitationSessionScope_codec :: "ElicitationSessionScope codec" where
  "ElicitationSessionScope_codec = with_unmarshal ElicitationSessionScope_UnmarshalJSON (go_struct
      ElicitationSessionScope_zero ElicitationSessionScope_fields)"

lemma ElicitationSessionScope_zero_codec [simp]: "c_zero ElicitationSessionScope_codec = ElicitationSessionScope_zero"
  by (simp add: ElicitationSessionScope_codec_def)

lemma ElicitationSessionScope_obj:
  "obj 9000 (map f_name ElicitationSessionScope_fields)
     [required ''sessionId'']
     ElicitationSessionScope_codec"
  unfolding ElicitationSessionScope_codec_def ElicitationSessionScope_UnmarshalJSON_def
  by (rule unmarshal_obj) (simp_all add: ElicitationSessionScope_fields_def ElicitationSessionScope_zero_def
        max_depth_def)

lemma ElicitationSessionScope_wire [simp]: "9001 \<le> E \<Longrightarrow> wire E s ElicitationSessionScope_codec"
  using wire_mono [OF wire_obj [OF ElicitationSessionScope_obj], of E s] by simp

subsection \<open>\<open>ElicitationRequestScope\<close>\<close>

record ElicitationRequestScope =
  RequestId :: "RequestId"

definition ElicitationRequestScope_zero :: ElicitationRequestScope where
  "ElicitationRequestScope_zero = \<lparr>RequestId = RequestId_zero\<rparr>"

definition ElicitationRequestScope_fields :: "ElicitationRequestScope fld list" where
  "ElicitationRequestScope_fields =
     [go_field ''requestId'' False RequestId_codec ElicitationRequestScope.RequestId
         ElicitationRequestScope.RequestId_update]"

definition ElicitationRequestScope_UnmarshalJSON :: "raw_json \<Rightarrow> ElicitationRequestScope decoded" where
  "ElicitationRequestScope_UnmarshalJSON =
     decode_struct
       [present ''requestId'']
       (go_struct ElicitationRequestScope_zero ElicitationRequestScope_fields)
       (in_turn [])"

definition ElicitationRequestScope_codec :: "ElicitationRequestScope codec" where
  "ElicitationRequestScope_codec = with_unmarshal ElicitationRequestScope_UnmarshalJSON (go_struct
      ElicitationRequestScope_zero ElicitationRequestScope_fields)"

lemma ElicitationRequestScope_zero_codec [simp]: "c_zero ElicitationRequestScope_codec = ElicitationRequestScope_zero"
  by (simp add: ElicitationRequestScope_codec_def)

lemma ElicitationRequestScope_obj:
  "obj 9001 (map f_name ElicitationRequestScope_fields)
     [present ''requestId'']
     ElicitationRequestScope_codec"
  unfolding ElicitationRequestScope_codec_def ElicitationRequestScope_UnmarshalJSON_def
  by (rule unmarshal_obj) (simp_all add: ElicitationRequestScope_fields_def ElicitationRequestScope_zero_def
        max_depth_def)

lemma ElicitationRequestScope_wire [simp]: "9002 \<le> E \<Longrightarrow> wire E s ElicitationRequestScope_codec"
  using wire_mono [OF wire_obj [OF ElicitationRequestScope_obj], of E s] by simp

subsection \<open>\<open>ElicitationFormModeSession\<close>\<close>

record ElicitationFormModeSession =
  RequestedSchema :: "ElicitationSchema"
  SessionId :: "string"
  ToolCallId :: "string option"

definition ElicitationFormModeSession_zero :: ElicitationFormModeSession where
  "ElicitationFormModeSession_zero = \<lparr>RequestedSchema = ElicitationSchema_zero, SessionId = [],
      ToolCallId = None\<rparr>"

definition ElicitationFormModeSession_fields :: "ElicitationFormModeSession fld list" where
  "ElicitationFormModeSession_fields =
     [go_field ''requestedSchema'' False ElicitationSchema_codec ElicitationFormModeSession.RequestedSchema
         ElicitationFormModeSession.RequestedSchema_update,
      go_field ''sessionId'' False go_string ElicitationFormModeSession.SessionId
          ElicitationFormModeSession.SessionId_update,
      go_field ''toolCallId'' True (go_ptr go_string) ElicitationFormModeSession.ToolCallId
          ElicitationFormModeSession.ToolCallId_update]"

definition ElicitationFormModeSession_codec :: "ElicitationFormModeSession codec" where
  "ElicitationFormModeSession_codec = go_struct ElicitationFormModeSession_zero
      ElicitationFormModeSession_fields"

lemma ElicitationFormModeSession_zero_codec [simp]: "c_zero ElicitationFormModeSession_codec = ElicitationFormModeSession_zero"
  by (simp add: ElicitationFormModeSession_codec_def)

lemma ElicitationFormModeSession_obj:
  "obj 9002 (map f_name ElicitationFormModeSession_fields)
     [typed ''requestedSchema'' ElicitationSchema_codec,
      typed ''sessionId'' go_string]
     ElicitationFormModeSession_codec"
  unfolding ElicitationFormModeSession_codec_def
  by (rule struct_obj) (simp_all add: ElicitationFormModeSession_fields_def ElicitationFormModeSession_zero_def
        max_depth_def)

lemma ElicitationFormModeSession_wire [simp]: "9003 \<le> E \<Longrightarrow> wire E s ElicitationFormModeSession_codec"
  using wire_mono [OF wire_obj [OF ElicitationFormModeSession_obj], of E s] by simp

lemma ElicitationFormModeSession_names: "f_name ` set ElicitationFormModeSession_fields = {''requestedSchema'', ''sessionId'', ''toolCallId''}"
  by (auto simp: ElicitationFormModeSession_fields_def)

subsection \<open>\<open>ElicitationFormModeRequest\<close>\<close>

record ElicitationFormModeRequest =
  RequestId :: "RequestId"
  RequestedSchema :: "ElicitationSchema"

definition ElicitationFormModeRequest_zero :: ElicitationFormModeRequest where
  "ElicitationFormModeRequest_zero = \<lparr>RequestId = RequestId_zero, RequestedSchema =
      ElicitationSchema_zero\<rparr>"

definition ElicitationFormModeRequest_fields :: "ElicitationFormModeRequest fld list" where
  "ElicitationFormModeRequest_fields =
     [go_field ''requestId'' False RequestId_codec ElicitationFormModeRequest.RequestId
         ElicitationFormModeRequest.RequestId_update,
      go_field ''requestedSchema'' False ElicitationSchema_codec ElicitationFormModeRequest.RequestedSchema
          ElicitationFormModeRequest.RequestedSchema_update]"

definition ElicitationFormModeRequest_codec :: "ElicitationFormModeRequest codec" where
  "ElicitationFormModeRequest_codec = go_struct ElicitationFormModeRequest_zero
      ElicitationFormModeRequest_fields"

lemma ElicitationFormModeRequest_zero_codec [simp]: "c_zero ElicitationFormModeRequest_codec = ElicitationFormModeRequest_zero"
  by (simp add: ElicitationFormModeRequest_codec_def)

lemma ElicitationFormModeRequest_obj:
  "obj 9002 (map f_name ElicitationFormModeRequest_fields)
     [listed ''requestId'' RequestId_codec,
      typed ''requestedSchema'' ElicitationSchema_codec]
     ElicitationFormModeRequest_codec"
  unfolding ElicitationFormModeRequest_codec_def
  by (rule struct_obj) (simp_all add: ElicitationFormModeRequest_fields_def ElicitationFormModeRequest_zero_def
        max_depth_def)

lemma ElicitationFormModeRequest_wire [simp]: "9003 \<le> E \<Longrightarrow> wire E s ElicitationFormModeRequest_codec"
  using wire_mono [OF wire_obj [OF ElicitationFormModeRequest_obj], of E s] by simp

lemma ElicitationFormModeRequest_names: "f_name ` set ElicitationFormModeRequest_fields = {''requestId'', ''requestedSchema''}"
  by (auto simp: ElicitationFormModeRequest_fields_def)

subsection \<open>\<open>ElicitationFormMode\<close>\<close>

record ElicitationFormMode =
  Session :: "ElicitationFormModeSession option"
  Request :: "ElicitationFormModeRequest option"

definition ElicitationFormMode_zero :: ElicitationFormMode where
  "ElicitationFormMode_zero = \<lparr>Session = None, Request = None\<rparr>"

definition ElicitationFormMode_as_Session :: "ElicitationFormMode variant" where
  "ElicitationFormMode_as_Session =
     go_variant None
       [typed ''requestedSchema'' ElicitationSchema_codec,
        typed ''sessionId'' go_string]
       ElicitationFormModeSession_codec ElicitationFormMode.Session (\<lambda>x.
         ElicitationFormMode_zero\<lparr>ElicitationFormMode.Session := Some x\<rparr>)"

definition ElicitationFormMode_as_Request :: "ElicitationFormMode variant" where
  "ElicitationFormMode_as_Request =
     go_variant None
       [listed ''requestId'' RequestId_codec,
        typed ''requestedSchema'' ElicitationSchema_codec]
       ElicitationFormModeRequest_codec ElicitationFormMode.Request (\<lambda>x.
         ElicitationFormMode_zero\<lparr>ElicitationFormMode.Request := Some x\<rparr>)"

definition ElicitationFormMode_variants :: "ElicitationFormMode variant list" where
  "ElicitationFormMode_variants =
     [ElicitationFormMode_as_Session,
      ElicitationFormMode_as_Request]"

definition ElicitationFormMode_UnmarshalJSON :: "raw_json \<Rightarrow> ElicitationFormMode decoded" where
  "ElicitationFormMode_UnmarshalJSON = unmarshal_union [] ElicitationFormMode_variants"

definition ElicitationFormMode_MarshalJSON :: "ElicitationFormMode \<Rightarrow> string option" where
  "ElicitationFormMode_MarshalJSON = marshal_union [] ElicitationFormMode_variants"

definition ElicitationFormMode_codec :: "ElicitationFormMode codec" where
  "ElicitationFormMode_codec = go_union ElicitationFormMode_zero ElicitationFormMode_UnmarshalJSON
      ElicitationFormMode_MarshalJSON ElicitationFormMode_variants"

definition ElicitationFormMode_Validate :: "ElicitationFormMode \<Rightarrow> invalid option" where
  "ElicitationFormMode_Validate = validate_union False ''ElicitationFormMode'' ElicitationFormMode_codec ElicitationFormMode_variants"

definition ElicitationFormMode_named :: "(string list \<times> ElicitationFormMode variant) list" where
  "ElicitationFormMode_named =
     [(map f_name ElicitationFormModeSession_fields, ElicitationFormMode_as_Session),
      (map f_name ElicitationFormModeRequest_fields, ElicitationFormMode_as_Request)]"

lemma ElicitationFormMode_Session_law:
  "variant_law 9002 [] (map f_name ElicitationFormModeSession_fields) ElicitationFormMode_as_Session"
  unfolding ElicitationFormMode_as_Session_def
  by (rule go_variant_law [OF obj_mono [OF ElicitationFormModeSession_obj]]) (simp_all add: ElicitationFormModeSession_names)

lemma ElicitationFormMode_Request_law:
  "variant_law 9002 [] (map f_name ElicitationFormModeRequest_fields) ElicitationFormMode_as_Request"
  unfolding ElicitationFormMode_as_Request_def
  by (rule go_variant_law [OF obj_mono [OF ElicitationFormModeRequest_obj]]) (simp_all add: ElicitationFormModeRequest_names)

lemma ElicitationFormMode_law: "union_law 9002 [] ElicitationFormMode_named"
proof (rule union_lawI)
  show "list_all (\<lambda>(n, v). variant_law 9002 [] n v) ElicitationFormMode_named"
    by (simp add: ElicitationFormMode_named_def ElicitationFormMode_Session_law ElicitationFormMode_Request_law)
  show "list_all (\<lambda>(n, v). v_disc v \<noteq> Some []) ElicitationFormMode_named"
    by (simp add: ElicitationFormMode_named_def ElicitationFormMode_as_Session_def
      ElicitationFormMode_as_Request_def)
  show "sorted_wrt rivals ElicitationFormMode_named"
    by (simp add: ElicitationFormMode_named_def ElicitationFormMode_zero_def ElicitationFormMode_as_Session_def
      ElicitationFormMode_as_Request_def ElicitationFormModeSession_names ElicitationFormModeRequest_names)
qed

lemma ElicitationFormMode_wire [simp]: "9003 \<le> E \<Longrightarrow> wire E s ElicitationFormMode_codec"
  using wire_mono [OF wire_union [OF ElicitationFormMode_law, where zero = ElicitationFormMode_zero], where e = E and s' = s]
  by (simp add: ElicitationFormMode_codec_def ElicitationFormMode_UnmarshalJSON_def
    ElicitationFormMode_MarshalJSON_def ElicitationFormMode_variants_def ElicitationFormMode_named_def
    max_depth_def)

lemma ElicitationFormMode_zero_codec [simp]: "c_zero ElicitationFormMode_codec = ElicitationFormMode_zero"
  by (simp add: ElicitationFormMode_codec_def)

lemma ElicitationFormMode_one: "list_all (\<lambda>v. builds v (\<lambda>u. variants_set ElicitationFormMode_variants u = 1)) ElicitationFormMode_variants"
  by (simp add: ElicitationFormMode_variants_def ElicitationFormMode_zero_def ElicitationFormMode_as_Session_def
      ElicitationFormMode_as_Request_def)

interpretation elicitationformmode_wire: wire_type ElicitationFormMode_codec 9003
  by unfold_locales (simp_all add: max_depth_def)

lemma ElicitationFormMode_valid: "c_fine ElicitationFormMode_codec u \<Longrightarrow> ElicitationFormMode_Validate u = None"
  unfolding ElicitationFormMode_Validate_def validate_union_def
  by (rule elicitationformmode_wire.validated) (simp_all add: ElicitationFormMode_codec_def union_fine_one [OF ElicitationFormMode_one])

subsection \<open>\<open>ElicitationUrlModeSession\<close>\<close>

record ElicitationUrlModeSession =
  ElicitationId :: "string"
  SessionId :: "string"
  ToolCallId :: "string option"
  Url :: "string"

definition ElicitationUrlModeSession_zero :: ElicitationUrlModeSession where
  "ElicitationUrlModeSession_zero = \<lparr>ElicitationId = [], SessionId = [], ToolCallId = None, Url =
      []\<rparr>"

definition ElicitationUrlModeSession_fields :: "ElicitationUrlModeSession fld list" where
  "ElicitationUrlModeSession_fields =
     [go_field ''elicitationId'' False go_string ElicitationUrlModeSession.ElicitationId
         ElicitationUrlModeSession.ElicitationId_update,
      go_field ''sessionId'' False go_string ElicitationUrlModeSession.SessionId
          ElicitationUrlModeSession.SessionId_update,
      go_field ''toolCallId'' True (go_ptr go_string) ElicitationUrlModeSession.ToolCallId
          ElicitationUrlModeSession.ToolCallId_update,
      go_field ''url'' False go_string ElicitationUrlModeSession.Url ElicitationUrlModeSession.Url_update]"

definition ElicitationUrlModeSession_codec :: "ElicitationUrlModeSession codec" where
  "ElicitationUrlModeSession_codec = go_struct ElicitationUrlModeSession_zero ElicitationUrlModeSession_fields"

lemma ElicitationUrlModeSession_zero_codec [simp]: "c_zero ElicitationUrlModeSession_codec = ElicitationUrlModeSession_zero"
  by (simp add: ElicitationUrlModeSession_codec_def)

lemma ElicitationUrlModeSession_obj:
  "obj 9000 (map f_name ElicitationUrlModeSession_fields)
     [typed ''elicitationId'' go_string,
      typed ''sessionId'' go_string,
      typed ''url'' go_string]
     ElicitationUrlModeSession_codec"
  unfolding ElicitationUrlModeSession_codec_def
  by (rule struct_obj) (simp_all add: ElicitationUrlModeSession_fields_def ElicitationUrlModeSession_zero_def
        max_depth_def)

lemma ElicitationUrlModeSession_wire [simp]: "9001 \<le> E \<Longrightarrow> wire E s ElicitationUrlModeSession_codec"
  using wire_mono [OF wire_obj [OF ElicitationUrlModeSession_obj], of E s] by simp

lemma ElicitationUrlModeSession_names: "f_name ` set ElicitationUrlModeSession_fields = {''elicitationId'', ''sessionId'', ''toolCallId'', ''url''}"
  by (auto simp: ElicitationUrlModeSession_fields_def)

subsection \<open>\<open>ElicitationUrlModeRequest\<close>\<close>

record ElicitationUrlModeRequest =
  ElicitationId :: "string"
  RequestId :: "RequestId"
  Url :: "string"

definition ElicitationUrlModeRequest_zero :: ElicitationUrlModeRequest where
  "ElicitationUrlModeRequest_zero = \<lparr>ElicitationId = [], RequestId = RequestId_zero, Url = []\<rparr>"

definition ElicitationUrlModeRequest_fields :: "ElicitationUrlModeRequest fld list" where
  "ElicitationUrlModeRequest_fields =
     [go_field ''elicitationId'' False go_string ElicitationUrlModeRequest.ElicitationId
         ElicitationUrlModeRequest.ElicitationId_update,
      go_field ''requestId'' False RequestId_codec ElicitationUrlModeRequest.RequestId
          ElicitationUrlModeRequest.RequestId_update,
      go_field ''url'' False go_string ElicitationUrlModeRequest.Url ElicitationUrlModeRequest.Url_update]"

definition ElicitationUrlModeRequest_codec :: "ElicitationUrlModeRequest codec" where
  "ElicitationUrlModeRequest_codec = go_struct ElicitationUrlModeRequest_zero ElicitationUrlModeRequest_fields"

lemma ElicitationUrlModeRequest_zero_codec [simp]: "c_zero ElicitationUrlModeRequest_codec = ElicitationUrlModeRequest_zero"
  by (simp add: ElicitationUrlModeRequest_codec_def)

lemma ElicitationUrlModeRequest_obj:
  "obj 9001 (map f_name ElicitationUrlModeRequest_fields)
     [typed ''elicitationId'' go_string,
      listed ''requestId'' RequestId_codec,
      typed ''url'' go_string]
     ElicitationUrlModeRequest_codec"
  unfolding ElicitationUrlModeRequest_codec_def
  by (rule struct_obj) (simp_all add: ElicitationUrlModeRequest_fields_def ElicitationUrlModeRequest_zero_def
        max_depth_def)

lemma ElicitationUrlModeRequest_wire [simp]: "9002 \<le> E \<Longrightarrow> wire E s ElicitationUrlModeRequest_codec"
  using wire_mono [OF wire_obj [OF ElicitationUrlModeRequest_obj], of E s] by simp

lemma ElicitationUrlModeRequest_names: "f_name ` set ElicitationUrlModeRequest_fields = {''elicitationId'', ''requestId'', ''url''}"
  by (auto simp: ElicitationUrlModeRequest_fields_def)

subsection \<open>\<open>ElicitationUrlMode\<close>\<close>

record ElicitationUrlMode =
  Session :: "ElicitationUrlModeSession option"
  Request :: "ElicitationUrlModeRequest option"

definition ElicitationUrlMode_zero :: ElicitationUrlMode where
  "ElicitationUrlMode_zero = \<lparr>Session = None, Request = None\<rparr>"

definition ElicitationUrlMode_as_Session :: "ElicitationUrlMode variant" where
  "ElicitationUrlMode_as_Session =
     go_variant None
       [typed ''elicitationId'' go_string,
        typed ''sessionId'' go_string,
        typed ''url'' go_string]
       ElicitationUrlModeSession_codec ElicitationUrlMode.Session (\<lambda>x.
         ElicitationUrlMode_zero\<lparr>ElicitationUrlMode.Session := Some x\<rparr>)"

definition ElicitationUrlMode_as_Request :: "ElicitationUrlMode variant" where
  "ElicitationUrlMode_as_Request =
     go_variant None
       [typed ''elicitationId'' go_string,
        listed ''requestId'' RequestId_codec,
        typed ''url'' go_string]
       ElicitationUrlModeRequest_codec ElicitationUrlMode.Request (\<lambda>x.
         ElicitationUrlMode_zero\<lparr>ElicitationUrlMode.Request := Some x\<rparr>)"

definition ElicitationUrlMode_variants :: "ElicitationUrlMode variant list" where
  "ElicitationUrlMode_variants =
     [ElicitationUrlMode_as_Session,
      ElicitationUrlMode_as_Request]"

definition ElicitationUrlMode_UnmarshalJSON :: "raw_json \<Rightarrow> ElicitationUrlMode decoded" where
  "ElicitationUrlMode_UnmarshalJSON = unmarshal_union [] ElicitationUrlMode_variants"

definition ElicitationUrlMode_MarshalJSON :: "ElicitationUrlMode \<Rightarrow> string option" where
  "ElicitationUrlMode_MarshalJSON = marshal_union [] ElicitationUrlMode_variants"

definition ElicitationUrlMode_codec :: "ElicitationUrlMode codec" where
  "ElicitationUrlMode_codec = go_union ElicitationUrlMode_zero ElicitationUrlMode_UnmarshalJSON
      ElicitationUrlMode_MarshalJSON ElicitationUrlMode_variants"

definition ElicitationUrlMode_Validate :: "ElicitationUrlMode \<Rightarrow> invalid option" where
  "ElicitationUrlMode_Validate = validate_union False ''ElicitationUrlMode'' ElicitationUrlMode_codec ElicitationUrlMode_variants"

definition ElicitationUrlMode_named :: "(string list \<times> ElicitationUrlMode variant) list" where
  "ElicitationUrlMode_named =
     [(map f_name ElicitationUrlModeSession_fields, ElicitationUrlMode_as_Session),
      (map f_name ElicitationUrlModeRequest_fields, ElicitationUrlMode_as_Request)]"

lemma ElicitationUrlMode_Session_law:
  "variant_law 9001 [] (map f_name ElicitationUrlModeSession_fields) ElicitationUrlMode_as_Session"
  unfolding ElicitationUrlMode_as_Session_def
  by (rule go_variant_law [OF obj_mono [OF ElicitationUrlModeSession_obj]]) (simp_all add: ElicitationUrlModeSession_names)

lemma ElicitationUrlMode_Request_law:
  "variant_law 9001 [] (map f_name ElicitationUrlModeRequest_fields) ElicitationUrlMode_as_Request"
  unfolding ElicitationUrlMode_as_Request_def
  by (rule go_variant_law [OF obj_mono [OF ElicitationUrlModeRequest_obj]]) (simp_all add: ElicitationUrlModeRequest_names)

lemma ElicitationUrlMode_law: "union_law 9001 [] ElicitationUrlMode_named"
proof (rule union_lawI)
  show "list_all (\<lambda>(n, v). variant_law 9001 [] n v) ElicitationUrlMode_named"
    by (simp add: ElicitationUrlMode_named_def ElicitationUrlMode_Session_law ElicitationUrlMode_Request_law)
  show "list_all (\<lambda>(n, v). v_disc v \<noteq> Some []) ElicitationUrlMode_named"
    by (simp add: ElicitationUrlMode_named_def ElicitationUrlMode_as_Session_def
      ElicitationUrlMode_as_Request_def)
  show "sorted_wrt rivals ElicitationUrlMode_named"
    by (simp add: ElicitationUrlMode_named_def ElicitationUrlMode_zero_def ElicitationUrlMode_as_Session_def
      ElicitationUrlMode_as_Request_def ElicitationUrlModeSession_names ElicitationUrlModeRequest_names)
qed

lemma ElicitationUrlMode_wire [simp]: "9002 \<le> E \<Longrightarrow> wire E s ElicitationUrlMode_codec"
  using wire_mono [OF wire_union [OF ElicitationUrlMode_law, where zero = ElicitationUrlMode_zero], where e = E and s' = s]
  by (simp add: ElicitationUrlMode_codec_def ElicitationUrlMode_UnmarshalJSON_def
    ElicitationUrlMode_MarshalJSON_def ElicitationUrlMode_variants_def ElicitationUrlMode_named_def
    max_depth_def)

lemma ElicitationUrlMode_zero_codec [simp]: "c_zero ElicitationUrlMode_codec = ElicitationUrlMode_zero"
  by (simp add: ElicitationUrlMode_codec_def)

lemma ElicitationUrlMode_one: "list_all (\<lambda>v. builds v (\<lambda>u. variants_set ElicitationUrlMode_variants u = 1)) ElicitationUrlMode_variants"
  by (simp add: ElicitationUrlMode_variants_def ElicitationUrlMode_zero_def ElicitationUrlMode_as_Session_def
      ElicitationUrlMode_as_Request_def)

interpretation elicitationurlmode_wire: wire_type ElicitationUrlMode_codec 9002
  by unfold_locales (simp_all add: max_depth_def)

lemma ElicitationUrlMode_valid: "c_fine ElicitationUrlMode_codec u \<Longrightarrow> ElicitationUrlMode_Validate u = None"
  unfolding ElicitationUrlMode_Validate_def validate_union_def
  by (rule elicitationurlmode_wire.validated) (simp_all add: ElicitationUrlMode_codec_def union_fine_one [OF ElicitationUrlMode_one])

section \<open>Requests and results\<close>

subsection \<open>\<open>CreateElicitationForm\<close>\<close>

record CreateElicitationForm =
  Meta :: "(string \<times> string) list option"
  Message :: "string"
  Mode :: "string"
  RequestId :: "RequestId option"
  RequestedSchema :: "ElicitationSchema"
  SessionId :: "string option"
  ToolCallId :: "string option"

definition CreateElicitationForm_zero :: CreateElicitationForm where
  "CreateElicitationForm_zero = \<lparr>Meta = None, Message = [], Mode = [], RequestId = None, RequestedSchema
      = ElicitationSchema_zero, SessionId = None, ToolCallId = None\<rparr>"

definition CreateElicitationForm_fields :: "CreateElicitationForm fld list" where
  "CreateElicitationForm_fields =
     [go_field ''_meta'' True (go_map go_raw) CreateElicitationForm.Meta CreateElicitationForm.Meta_update,
      go_field ''message'' False go_string CreateElicitationForm.Message CreateElicitationForm.Message_update,
      go_field ''mode'' False go_string CreateElicitationForm.Mode CreateElicitationForm.Mode_update,
      go_field ''requestId'' True (go_ptr RequestId_some) CreateElicitationForm.RequestId
          CreateElicitationForm.RequestId_update,
      go_field ''requestedSchema'' False ElicitationSchema_codec CreateElicitationForm.RequestedSchema
          CreateElicitationForm.RequestedSchema_update,
      go_field ''sessionId'' True (go_ptr go_string) CreateElicitationForm.SessionId
          CreateElicitationForm.SessionId_update,
      go_field ''toolCallId'' True (go_ptr go_string) CreateElicitationForm.ToolCallId
          CreateElicitationForm.ToolCallId_update]"

definition CreateElicitationForm_codec :: "CreateElicitationForm codec" where
  "CreateElicitationForm_codec = go_struct CreateElicitationForm_zero CreateElicitationForm_fields"

lemma CreateElicitationForm_zero_codec [simp]: "c_zero CreateElicitationForm_codec = CreateElicitationForm_zero"
  by (simp add: CreateElicitationForm_codec_def)

lemma CreateElicitationForm_obj:
  "obj 9002 (map f_name CreateElicitationForm_fields) [] CreateElicitationForm_codec"
  unfolding CreateElicitationForm_codec_def
  by (rule struct_obj) (simp_all add: CreateElicitationForm_fields_def CreateElicitationForm_zero_def
        max_depth_def)

lemma CreateElicitationForm_wire [simp]: "9003 \<le> E \<Longrightarrow> wire E s CreateElicitationForm_codec"
  using wire_mono [OF wire_obj [OF CreateElicitationForm_obj], of E s] by simp

interpretation createelicitationform_wire: wire_type CreateElicitationForm_codec 9003
  by unfold_locales (simp_all add: max_depth_def)

subsection \<open>\<open>CreateElicitationUrl\<close>\<close>

record CreateElicitationUrl =
  Meta :: "(string \<times> string) list option"
  ElicitationId :: "string"
  Message :: "string"
  Mode :: "string"
  RequestId :: "RequestId option"
  SessionId :: "string option"
  ToolCallId :: "string option"
  Url :: "string"

definition CreateElicitationUrl_zero :: CreateElicitationUrl where
  "CreateElicitationUrl_zero = \<lparr>Meta = None, ElicitationId = [], Message = [], Mode = [], RequestId =
      None, SessionId = None, ToolCallId = None, Url = []\<rparr>"

definition CreateElicitationUrl_fields :: "CreateElicitationUrl fld list" where
  "CreateElicitationUrl_fields =
     [go_field ''_meta'' True (go_map go_raw) CreateElicitationUrl.Meta CreateElicitationUrl.Meta_update,
      go_field ''elicitationId'' False go_string CreateElicitationUrl.ElicitationId
          CreateElicitationUrl.ElicitationId_update,
      go_field ''message'' False go_string CreateElicitationUrl.Message CreateElicitationUrl.Message_update,
      go_field ''mode'' False go_string CreateElicitationUrl.Mode CreateElicitationUrl.Mode_update,
      go_field ''requestId'' True (go_ptr RequestId_some) CreateElicitationUrl.RequestId
          CreateElicitationUrl.RequestId_update,
      go_field ''sessionId'' True (go_ptr go_string) CreateElicitationUrl.SessionId
          CreateElicitationUrl.SessionId_update,
      go_field ''toolCallId'' True (go_ptr go_string) CreateElicitationUrl.ToolCallId
          CreateElicitationUrl.ToolCallId_update,
      go_field ''url'' False go_string CreateElicitationUrl.Url CreateElicitationUrl.Url_update]"

definition CreateElicitationUrl_codec :: "CreateElicitationUrl codec" where
  "CreateElicitationUrl_codec = go_struct CreateElicitationUrl_zero CreateElicitationUrl_fields"

lemma CreateElicitationUrl_zero_codec [simp]: "c_zero CreateElicitationUrl_codec = CreateElicitationUrl_zero"
  by (simp add: CreateElicitationUrl_codec_def)

lemma CreateElicitationUrl_obj:
  "obj 9001 (map f_name CreateElicitationUrl_fields) [] CreateElicitationUrl_codec"
  unfolding CreateElicitationUrl_codec_def
  by (rule struct_obj) (simp_all add: CreateElicitationUrl_fields_def CreateElicitationUrl_zero_def
        max_depth_def)

lemma CreateElicitationUrl_wire [simp]: "9002 \<le> E \<Longrightarrow> wire E s CreateElicitationUrl_codec"
  using wire_mono [OF wire_obj [OF CreateElicitationUrl_obj], of E s] by simp

subsection \<open>\<open>CreateElicitationAccept\<close>\<close>

record CreateElicitationAccept =
  Meta :: "(string \<times> string) list option"
  Action :: "string"
  Content :: "(string \<times> any_value) list option"

definition CreateElicitationAccept_zero :: CreateElicitationAccept where
  "CreateElicitationAccept_zero = \<lparr>Meta = None, Action = [], Content = None\<rparr>"

definition CreateElicitationAccept_fields :: "CreateElicitationAccept fld list" where
  "CreateElicitationAccept_fields =
     [go_field ''_meta'' True (go_map go_raw) CreateElicitationAccept.Meta CreateElicitationAccept.Meta_update,
      go_field ''action'' False go_string CreateElicitationAccept.Action CreateElicitationAccept.Action_update,
      go_field ''content'' True (go_map go_any) CreateElicitationAccept.Content
          CreateElicitationAccept.Content_update]"

definition CreateElicitationAccept_codec :: "CreateElicitationAccept codec" where
  "CreateElicitationAccept_codec = go_struct CreateElicitationAccept_zero CreateElicitationAccept_fields"

lemma CreateElicitationAccept_zero_codec [simp]: "c_zero CreateElicitationAccept_codec = CreateElicitationAccept_zero"
  by (simp add: CreateElicitationAccept_codec_def)

lemma CreateElicitationAccept_obj:
  "obj 9001 (map f_name CreateElicitationAccept_fields) [] CreateElicitationAccept_codec"
  unfolding CreateElicitationAccept_codec_def
  by (rule struct_obj) (simp_all add: CreateElicitationAccept_fields_def CreateElicitationAccept_zero_def
        max_depth_def)

lemma CreateElicitationAccept_wire [simp]: "9002 \<le> E \<Longrightarrow> wire E s CreateElicitationAccept_codec"
  using wire_mono [OF wire_obj [OF CreateElicitationAccept_obj], of E s] by simp

subsection \<open>\<open>CreateElicitationDecline\<close>\<close>

record CreateElicitationDecline =
  Meta :: "(string \<times> string) list option"
  Action :: "string"

definition CreateElicitationDecline_zero :: CreateElicitationDecline where
  "CreateElicitationDecline_zero = \<lparr>Meta = None, Action = []\<rparr>"

definition CreateElicitationDecline_fields :: "CreateElicitationDecline fld list" where
  "CreateElicitationDecline_fields =
     [go_field ''_meta'' True (go_map go_raw) CreateElicitationDecline.Meta
         CreateElicitationDecline.Meta_update,
      go_field ''action'' False go_string CreateElicitationDecline.Action
          CreateElicitationDecline.Action_update]"

definition CreateElicitationDecline_codec :: "CreateElicitationDecline codec" where
  "CreateElicitationDecline_codec = go_struct CreateElicitationDecline_zero CreateElicitationDecline_fields"

lemma CreateElicitationDecline_zero_codec [simp]: "c_zero CreateElicitationDecline_codec = CreateElicitationDecline_zero"
  by (simp add: CreateElicitationDecline_codec_def)

lemma CreateElicitationDecline_obj:
  "obj 9001 (map f_name CreateElicitationDecline_fields) [] CreateElicitationDecline_codec"
  unfolding CreateElicitationDecline_codec_def
  by (rule struct_obj) (simp_all add: CreateElicitationDecline_fields_def CreateElicitationDecline_zero_def
        max_depth_def)

lemma CreateElicitationDecline_wire [simp]: "9002 \<le> E \<Longrightarrow> wire E s CreateElicitationDecline_codec"
  using wire_mono [OF wire_obj [OF CreateElicitationDecline_obj], of E s] by simp

subsection \<open>\<open>CreateElicitationCancel\<close>\<close>

record CreateElicitationCancel =
  Meta :: "(string \<times> string) list option"
  Action :: "string"

definition CreateElicitationCancel_zero :: CreateElicitationCancel where
  "CreateElicitationCancel_zero = \<lparr>Meta = None, Action = []\<rparr>"

definition CreateElicitationCancel_fields :: "CreateElicitationCancel fld list" where
  "CreateElicitationCancel_fields =
     [go_field ''_meta'' True (go_map go_raw) CreateElicitationCancel.Meta CreateElicitationCancel.Meta_update,
      go_field ''action'' False go_string CreateElicitationCancel.Action CreateElicitationCancel.Action_update]"

definition CreateElicitationCancel_codec :: "CreateElicitationCancel codec" where
  "CreateElicitationCancel_codec = go_struct CreateElicitationCancel_zero CreateElicitationCancel_fields"

lemma CreateElicitationCancel_zero_codec [simp]: "c_zero CreateElicitationCancel_codec = CreateElicitationCancel_zero"
  by (simp add: CreateElicitationCancel_codec_def)

lemma CreateElicitationCancel_obj:
  "obj 9001 (map f_name CreateElicitationCancel_fields) [] CreateElicitationCancel_codec"
  unfolding CreateElicitationCancel_codec_def
  by (rule struct_obj) (simp_all add: CreateElicitationCancel_fields_def CreateElicitationCancel_zero_def
        max_depth_def)

lemma CreateElicitationCancel_wire [simp]: "9002 \<le> E \<Longrightarrow> wire E s CreateElicitationCancel_codec"
  using wire_mono [OF wire_obj [OF CreateElicitationCancel_obj], of E s] by simp

subsection \<open>\<open>ElicitationAcceptAction\<close>\<close>

record ElicitationAcceptAction =
  Content :: "(string \<times> any_value) list option"

definition ElicitationAcceptAction_zero :: ElicitationAcceptAction where
  "ElicitationAcceptAction_zero = \<lparr>Content = None\<rparr>"

definition ElicitationAcceptAction_fields :: "ElicitationAcceptAction fld list" where
  "ElicitationAcceptAction_fields =
     [go_field ''content'' True (go_map go_any) ElicitationAcceptAction.Content
         ElicitationAcceptAction.Content_update]"

definition ElicitationAcceptAction_codec :: "ElicitationAcceptAction codec" where
  "ElicitationAcceptAction_codec = go_struct ElicitationAcceptAction_zero ElicitationAcceptAction_fields"

lemma ElicitationAcceptAction_zero_codec [simp]: "c_zero ElicitationAcceptAction_codec = ElicitationAcceptAction_zero"
  by (simp add: ElicitationAcceptAction_codec_def)

lemma ElicitationAcceptAction_obj:
  "obj 9001 (map f_name ElicitationAcceptAction_fields) [] ElicitationAcceptAction_codec"
  unfolding ElicitationAcceptAction_codec_def
  by (rule struct_obj) (simp_all add: ElicitationAcceptAction_fields_def ElicitationAcceptAction_zero_def
        max_depth_def)

lemma ElicitationAcceptAction_wire [simp]: "9002 \<le> E \<Longrightarrow> wire E s ElicitationAcceptAction_codec"
  using wire_mono [OF wire_obj [OF ElicitationAcceptAction_obj], of E s] by simp

subsection \<open>\<open>CompleteElicitationNotification\<close>\<close>

record CompleteElicitationNotification =
  Meta :: "(string \<times> string) list option"
  ElicitationId :: "string"

definition CompleteElicitationNotification_zero :: CompleteElicitationNotification where
  "CompleteElicitationNotification_zero = \<lparr>Meta = None, ElicitationId = []\<rparr>"

definition CompleteElicitationNotification_fields :: "CompleteElicitationNotification fld list" where
  "CompleteElicitationNotification_fields =
     [go_field ''_meta'' True (go_map go_raw) CompleteElicitationNotification.Meta
         CompleteElicitationNotification.Meta_update,
      go_field ''elicitationId'' False go_string CompleteElicitationNotification.ElicitationId
          CompleteElicitationNotification.ElicitationId_update]"

definition CompleteElicitationNotification_UnmarshalJSON :: "raw_json \<Rightarrow> CompleteElicitationNotification decoded" where
  "CompleteElicitationNotification_UnmarshalJSON =
     decode_struct
       [required ''elicitationId'']
       (go_struct CompleteElicitationNotification_zero CompleteElicitationNotification_fields)
       (in_turn [])"

definition CompleteElicitationNotification_codec :: "CompleteElicitationNotification codec" where
  "CompleteElicitationNotification_codec = with_unmarshal CompleteElicitationNotification_UnmarshalJSON
      (go_struct CompleteElicitationNotification_zero CompleteElicitationNotification_fields)"

definition CompleteElicitationNotification_Validate :: "CompleteElicitationNotification \<Rightarrow> invalid option" where
  "CompleteElicitationNotification_Validate v =
     None"

lemma CompleteElicitationNotification_zero_codec [simp]: "c_zero CompleteElicitationNotification_codec = CompleteElicitationNotification_zero"
  by (simp add: CompleteElicitationNotification_codec_def)

lemma CompleteElicitationNotification_obj:
  "obj 9001 (map f_name CompleteElicitationNotification_fields)
     [required ''elicitationId'']
     CompleteElicitationNotification_codec"
  unfolding CompleteElicitationNotification_codec_def CompleteElicitationNotification_UnmarshalJSON_def
  by (rule unmarshal_obj) (simp_all add: CompleteElicitationNotification_fields_def
        CompleteElicitationNotification_zero_def max_depth_def)

lemma CompleteElicitationNotification_wire [simp]: "9002 \<le> E \<Longrightarrow> wire E s CompleteElicitationNotification_codec"
  using wire_mono [OF wire_obj [OF CompleteElicitationNotification_obj], of E s] by simp

end
