(* ===== verification/RequestId.thy ===== *)
theory RequestId
  imports Complex_Main JsonFacts
begin

text \<open>
  \<open>request_id.go\<close>: the canonical form of a JSON-RPC id, by which requests, responses and
  cancellations are matched. An id is null, a string or a number; a number is brought to a
  plain decimal without exponent and redundant zeros, so that \<open>1\<close>, \<open>1.0\<close> and \<open>10e-1\<close> are
  one id. The main result is that two ids have one key exactly when they denote one value.
\<close>

section \<open>The code\<close>

definition maxCanonicalJSONRPCIDKeyLen :: nat where "maxCanonicalJSONRPCIDKeyLen = 4096"
definition maxCanonicalJSONRPCIDAbsExp10 :: nat where "maxCanonicalJSONRPCIDAbsExp10 = 4096"

text \<open>
  The error returns. Callers only ask whether there was an error; a failing decoder and
  trailing data after the id are one constructor.
\<close>

datatype id_error = IdEmpty | IdSyntax | IdWrongType | InvalidNumericID | NumericIDTooLarge

definition isASCIIDigit :: "char \<Rightarrow> bool" where
  "isASCIIDigit ch \<longleftrightarrow> is_digit ch"

text \<open>The loop of \<open>parseBoundedInt\<close>: the test before each digit keeps the value within the bound.\<close>

fun parse_bounded_loop :: "nat \<Rightarrow> nat \<Rightarrow> string \<Rightarrow> id_error + nat" where
  "parse_bounded_loop mx value [] = Inr value"
| "parse_bounded_loop mx value (c # cs) =
     (if \<not> isASCIIDigit c then Inl InvalidNumericID
      else if value > (mx - digit_val c) div 10 then Inl NumericIDTooLarge
      else parse_bounded_loop mx (value * 10 + digit_val c) cs)"

definition parseBoundedInt :: "string \<Rightarrow> nat \<Rightarrow> id_error + nat" where
  "parseBoundedInt raw mx = (if raw = [] then Inl InvalidNumericID else parse_bounded_loop mx 0 raw)"

text \<open>
  The three parts of \<open>parseJSONRPCNumericID\<close>. The index into the text is the text that is
  left; each part returns what it has read and the rest.
\<close>

definition scan_int_part :: "string \<Rightarrow> (string \<times> string) option" where
  "scan_int_part s =
     (case s of
        [] \<Rightarrow> None
      | c # r \<Rightarrow>
          if c = CHR ''0'' then
            (case r of
               d # _ \<Rightarrow> if isASCIIDigit d then None else Some ([c], r)
             | [] \<Rightarrow> Some ([c], r))
          else if isASCIIDigit c then Some (takeWhile isASCIIDigit s, dropWhile isASCIIDigit s)
          else None)"

definition scan_frac_part :: "string \<Rightarrow> (string \<times> string) option" where
  "scan_frac_part s =
     (case s of
        c # r \<Rightarrow>
          if c = CHR ''.'' then
            (if takeWhile isASCIIDigit r = [] then None
             else Some (takeWhile isASCIIDigit r, dropWhile isASCIIDigit r))
          else Some ([], s)
      | [] \<Rightarrow> Some ([], s))"

definition scan_exp_part :: "string \<Rightarrow> id_error + (int \<times> string)" where
  "scan_exp_part s =
     (case s of
        c # r \<Rightarrow>
          if c = CHR ''e'' \<or> c = CHR ''E'' then
            (case r of
               [] \<Rightarrow> Inl InvalidNumericID
             | d # r' \<Rightarrow>
                 let (sgn, q) =
                   (if d = CHR ''-'' then (-1, r') else if d = CHR ''+'' then (1, r') else (1, r))
                 in if takeWhile isASCIIDigit q = [] then Inl InvalidNumericID
                    else (case parseBoundedInt (takeWhile isASCIIDigit q) maxCanonicalJSONRPCIDAbsExp10 of
                            Inl e \<Rightarrow> Inl e
                          | Inr m \<Rightarrow> Inr (sgn * int m, dropWhile isASCIIDigit q)))
          else Inr (0, s)
      | [] \<Rightarrow> Inr (0, s))"

definition split_sign :: "string \<Rightarrow> bool \<times> string" where
  "split_sign raw = (case raw of c # r \<Rightarrow> if c = CHR ''-'' then (True, r) else (False, raw) | [] \<Rightarrow> (False, raw))"

definition parseJSONRPCNumericID :: "string \<Rightarrow> id_error + (bool \<times> string \<times> int)" where
  "parseJSONRPCNumericID raw =
     (case split_sign raw of (negative, r0) \<Rightarrow>
      (case scan_int_part r0 of
         None \<Rightarrow> Inl InvalidNumericID
       | Some (intDigits, r1) \<Rightarrow>
      (case scan_frac_part r1 of
         None \<Rightarrow> Inl InvalidNumericID
       | Some (fracDigits, r2) \<Rightarrow>
      (case scan_exp_part r2 of
         Inl e \<Rightarrow> Inl e
       | Inr (exponent, r3) \<Rightarrow>
           if r3 \<noteq> [] then Inl InvalidNumericID
           else (let digits = dropWhile (\<lambda>c. c = CHR ''0'') (intDigits @ fracDigits)
                 in if digits = [] then Inr (False, [], 0)
                    else if length digits > maxCanonicalJSONRPCIDKeyLen then Inl NumericIDTooLarge
                    else Inr (negative, digits, exponent - int (length fracDigits)))))))"

text \<open>The loop at the head of \<open>formatCanonicalJSONRPCNumericID\<close>.\<close>

function strip_trailing_zeros :: "string \<Rightarrow> int \<Rightarrow> string \<times> int" where
  "strip_trailing_zeros digits exp10 =
     (if digits \<noteq> [] \<and> last digits = CHR ''0''
      then strip_trailing_zeros (butlast digits) (exp10 + 1) else (digits, exp10))"
  by pat_completeness auto
termination
  by (relation "measure (\<lambda>(d, e). length d)") auto

declare strip_trailing_zeros.simps [simp del]

definition with_sign :: "bool \<Rightarrow> string \<Rightarrow> string" where
  "with_sign negative s = (if negative then CHR ''-'' # s else s)"

definition render_decimal :: "bool \<Rightarrow> string \<Rightarrow> int \<Rightarrow> id_error + string" where
  "render_decimal negative digits exp10 =
     (if exp10 \<ge> 0 then
        (if exp10 > int maxCanonicalJSONRPCIDKeyLen - int (length digits) then Inl NumericIDTooLarge
         else let result = with_sign negative (digits @ replicate (nat exp10) CHR ''0'')
              in if length result > maxCanonicalJSONRPCIDKeyLen + (if negative then 1 else 0)
                 then Inl NumericIDTooLarge else Inr result)
      else
        let scale = nat (- exp10)
        in if scale > maxCanonicalJSONRPCIDKeyLen then Inl NumericIDTooLarge
           else if length digits > scale then
             (let intPart = take (length digits - scale) digits;
                  fracPart = drop (length digits - scale) digits
              in if length intPart + 1 + length fracPart > maxCanonicalJSONRPCIDKeyLen
                 then Inl NumericIDTooLarge
                 else Inr (with_sign negative (intPart @ ''.'' @ fracPart)))
           else
             (let leadingZeros = scale - length digits
              in if int leadingZeros > int maxCanonicalJSONRPCIDKeyLen - int (length digits) - 2
                 then Inl NumericIDTooLarge
                 else Inr (with_sign negative (''0.'' @ replicate leadingZeros CHR ''0'' @ digits))))"

definition formatCanonicalJSONRPCNumericID :: "bool \<Rightarrow> string \<Rightarrow> int \<Rightarrow> id_error + string" where
  "formatCanonicalJSONRPCNumericID negative digits exp10 =
     (case strip_trailing_zeros digits exp10 of (digits, exp10) \<Rightarrow>
        if digits = [] then Inr ''0'' else render_decimal negative digits exp10)"

definition canonicalJSONRPCNumericIDKey :: "string \<Rightarrow> id_error + string" where
  "canonicalJSONRPCNumericIDKey v =
     (let raw = trim_space v
      in if raw = [] then Inl InvalidNumericID
         else (case parseJSONRPCNumericID raw of
                 Inl e \<Rightarrow> Inl e
               | Inr (negative, digits, exp10) \<Rightarrow>
                   formatCanonicalJSONRPCNumericID negative digits exp10))"

definition canonicalJSONRPCIDKey :: "string \<Rightarrow> id_error + string" where
  "canonicalJSONRPCIDKey raw =
     (let trimmed = trim_space raw
      in if trimmed = [] then Inl IdEmpty
         else (case parse_json trimmed of
                 None \<Rightarrow> Inl IdSyntax
               | Some (_, JNull) \<Rightarrow> Inr ''null''
               | Some (_, JStr s) \<Rightarrow> Inr (quote s)
               | Some (_, JNum n) \<Rightarrow> canonicalJSONRPCNumericIDKey n
               | Some _ \<Rightarrow> Inl IdWrongType))"

section \<open>What an id denotes\<close>

text \<open>
  The value of a decimal literal \<open>[-]int[.frac][e[+-]exp]\<close>, read off its parts.
\<close>

definition exp_value :: "string \<Rightarrow> int" where
  "exp_value s =
     (case s of
        [] \<Rightarrow> 0
      | c # r \<Rightarrow> (case r of
          [] \<Rightarrow> 0
        | d # q \<Rightarrow> if d = CHR ''-'' then - int (nat_of_digits q)
                   else if d = CHR ''+'' then int (nat_of_digits q) else int (nat_of_digits r)))"

definition unsigned_value :: "string \<Rightarrow> rat" where
  "unsigned_value s =
     (let i = takeWhile is_digit s; r = dropWhile is_digit s;
          f = (case r of c # q \<Rightarrow> if c = CHR ''.'' then takeWhile is_digit q else [] | [] \<Rightarrow> []);
          x = (case r of c # q \<Rightarrow> if c = CHR ''.'' then dropWhile is_digit q else r | [] \<Rightarrow> [])
      in (of_nat (nat_of_digits i) + of_nat (nat_of_digits f) / 10 ^ length f) * 10 powi exp_value x)"

definition literal_rat :: "string \<Rightarrow> rat" where
  "literal_rat s = (case split_sign s of (neg, r) \<Rightarrow> if neg then - unsigned_value r else unsigned_value r)"

datatype id_value = IdNull | IdString string | IdNumber rat

definition id_denotes :: "string \<Rightarrow> id_value option" where
  "id_denotes raw =
     (case parse_json (trim_space raw) of
        Some (_, JNull) \<Rightarrow> Some IdNull
      | Some (_, JStr s) \<Rightarrow> Some (IdString s)
      | Some (_, JNum n) \<Rightarrow> Some (IdNumber (literal_rat (trim_space n)))
      | _ \<Rightarrow> None)"

section \<open>Bounded exponents\<close>

lemma parse_bounded_loop_Inr:
  assumes "9 \<le> mx" and "acc \<le> mx"
  shows "parse_bounded_loop mx acc s = Inr v \<longleftrightarrow>
    list_all is_digit s \<and> v = acc * 10 ^ length s + nat_of_digits s \<and> v \<le> mx"
  using assms(2)
proof (induction s arbitrary: acc)
  case Nil
  then show ?case by auto
next
  case (Cons c cs)
  show ?case
  proof (cases "is_digit c")
    case False
    then show ?thesis by (simp add: isASCIIDigit_def)
  next
    case True
    then have d: "digit_val c \<le> 9" using digit_val_less [OF True] by linarith
    have step: "acc > (mx - digit_val c) div 10 \<longleftrightarrow> acc * 10 + digit_val c > mx"
      using d assms(1) by (auto simp: div_less_iff_less_mult not_less)
    have val: "nat_of_digits (c # cs) = digit_val c * 10 ^ length cs + nat_of_digits cs"
      using nat_of_digits_append [of "[c]" cs] nat_of_digits_snoc [of "[]" c] by simp
    show ?thesis
    proof (cases "acc * 10 + digit_val c > mx")
      case over: True
      have "1 * mx < 10 ^ length cs * (acc * 10 + digit_val c)"
        using over by (intro mult_le_less_imp_less) auto
      then show ?thesis using True step over by (auto simp: isASCIIDigit_def val algebra_simps)
    next
      case False
      then show ?thesis
        using True step Cons.IH [of "acc * 10 + digit_val c"]
        by (auto simp: isASCIIDigit_def val algebra_simps)
    qed
  qed
qed

lemma parseBoundedInt_Inr:
  assumes "9 \<le> mx"
  shows "parseBoundedInt s mx = Inr v \<longleftrightarrow>
    s \<noteq> [] \<and> list_all is_digit s \<and> v = nat_of_digits s \<and> v \<le> mx"
  using assms by (auto simp: parseBoundedInt_def parse_bounded_loop_Inr)

section \<open>Values of digit strings\<close>

abbreviation digits_only :: "string \<Rightarrow> bool" where
  "digits_only s \<equiv> list_all is_digit s"

lemma nat_of_digits_Cons:
  "nat_of_digits (c # cs) = digit_val c * 10 ^ length cs + nat_of_digits cs"
  using nat_of_digits_append [of "[c]" cs] nat_of_digits_snoc [of "[]" c] by simp

lemma digit_val_zero [simp]: "digit_val CHR ''0'' = 0"
  by (simp add: digit_val_def)

lemma is_digit_zero [simp]: "is_digit CHR ''0''"
  by (simp add: is_digit_def)

lemma nat_of_digits_replicate [simp]: "nat_of_digits (replicate n CHR ''0'') = 0"
  by (induction n) (auto simp: nat_of_digits_Cons)

lemma nat_of_digits_dropWhile [simp]:
  "nat_of_digits (dropWhile (\<lambda>c. c = CHR ''0'') s) = nat_of_digits s"
  by (induction s) (auto simp: nat_of_digits_Cons)

lemma nat_of_digits_pos:
  assumes "digits_only s" "s \<noteq> []" "hd s \<noteq> CHR ''0''"
  shows "10 ^ (length s - 1) \<le> nat_of_digits s"
proof -
  obtain c cs where s: "s = c # cs" using assms(2) by (cases s) auto
  with assms have "1 \<le> digit_val c" using is_digit_zero_iff [of c] by auto
  then have "1 * 10 ^ length cs \<le> digit_val c * 10 ^ length cs" by (rule mult_right_mono) simp
  then have "1 * 10 ^ length cs \<le> digit_val c * 10 ^ length cs + nat_of_digits cs" by (rule trans_le_add1)
  then show ?thesis by (simp add: s nat_of_digits_Cons)
qed

lemma digits_value_inj_len:
  "length s = length t \<Longrightarrow> digits_only s \<Longrightarrow> digits_only t \<Longrightarrow>
   nat_of_digits s = nat_of_digits t \<Longrightarrow> s = t"
proof (induction s arbitrary: t rule: rev_induct)
  case (snoc c s)
  then obtain d u where t: "t = u @ [d]" by (cases t rule: rev_cases) auto
  from snoc.prems have "digit_val c < 10" "digit_val d < 10" "10 * nat_of_digits s + digit_val c = 10 * nat_of_digits u + digit_val d"
    by (auto simp: t)
  then have "nat_of_digits s = nat_of_digits u" and "digit_val c = digit_val d" by presburger+
  moreover have "c = d" using \<open>digit_val c = digit_val d\<close> snoc.prems digit_val_inj by (auto simp: t)
  ultimately show ?case using snoc by (auto simp: t)
qed simp

text \<open>A digit string without leading zeros is determined by its value.\<close>

definition lead_ok :: "string \<Rightarrow> bool" where
  "lead_ok s \<longleftrightarrow> digits_only s \<and> (s \<noteq> [] \<longrightarrow> hd s \<noteq> CHR ''0'')"

lemma lead_ok_zero: "lead_ok s \<Longrightarrow> nat_of_digits s = 0 \<longleftrightarrow> s = []"
  using nat_of_digits_pos [of s] by (fastforce simp: lead_ok_def)

lemma lead_ok_length:
  assumes "lead_ok s" "lead_ok t" "length s < length t"
  shows "nat_of_digits s < nat_of_digits t"
proof -
  have "nat_of_digits s < 10 ^ length s"
    using assms(1) nat_of_digits_less by (auto simp: lead_ok_def list_all_iff)
  also have "(10::nat) ^ length s \<le> 10 ^ (length t - 1)" using assms(3) by (intro power_increasing) auto
  also have "\<dots> \<le> nat_of_digits t"
    using assms by (intro nat_of_digits_pos) (auto simp: lead_ok_def)
  finally show ?thesis .
qed

lemma lead_ok_inj:
  assumes "lead_ok s" "lead_ok t" "nat_of_digits s = nat_of_digits t"
  shows "s = t"
proof -
  have "length s = length t"
    using lead_ok_length [of s t] lead_ok_length [of t s] assms by (metis less_irrefl linorder_neqE_nat)
  then show ?thesis using assms by (auto simp: lead_ok_def intro: digits_value_inj_len)
qed

section \<open>Values of parsed ids\<close>

definition dec_value :: "bool \<Rightarrow> string \<Rightarrow> int \<Rightarrow> rat" where
  "dec_value neg d e = (if neg then -1 else 1) * of_nat (nat_of_digits d) * 10 powi e"

lemma hd_of_butlast: "butlast d \<noteq> [] \<Longrightarrow> hd (butlast d) = hd d"
  by (cases d) auto

lemma strip_trailing_zeros_props:
  "strip_trailing_zeros d e = (d', e') \<Longrightarrow>
    of_nat (nat_of_digits d') * (10::rat) powi e' = of_nat (nat_of_digits d) * 10 powi e \<and>
    (lead_ok d \<longrightarrow> lead_ok d') \<and> (d' \<noteq> [] \<longrightarrow> last d' \<noteq> CHR ''0'') \<and> length d' \<le> length d"
proof (induction d e arbitrary: d' e' rule: strip_trailing_zeros.induct)
  case (1 d e)
  show ?case
  proof (cases "d \<noteq> [] \<and> last d = CHR ''0''")
    case True
    then have d: "d = butlast d @ [CHR ''0'']" by (metis append_butlast_last_id)
    have "strip_trailing_zeros (butlast d) (e + 1) = (d', e')"
      using "1.prems" True by (simp add: strip_trailing_zeros.simps [of d e])
    from "1.IH" [OF True this] have IH:
      "of_nat (nat_of_digits d') * (10::rat) powi e' = of_nat (nat_of_digits (butlast d)) * 10 powi (e + 1)"
      "lead_ok (butlast d) \<longrightarrow> lead_ok d'" "d' \<noteq> [] \<longrightarrow> last d' \<noteq> CHR ''0''" "length d' \<le> length (butlast d)"
      by auto
    have "nat_of_digits d = 10 * nat_of_digits (butlast d)"
      by (subst d) simp
    moreover have "lead_ok d \<longrightarrow> lead_ok (butlast d)"
      using True by (auto simp: lead_ok_def list_all_iff hd_of_butlast dest: in_set_butlastD)
    ultimately show ?thesis using IH by (auto simp: power_int_add algebra_simps)
  next
    case False
    with "1.prems" show ?thesis by (auto simp: strip_trailing_zeros.simps [of d e])
  qed
qed

lemma scan_int_part_Some:
  "scan_int_part s = Some (i, r) \<Longrightarrow>
     i = takeWhile is_digit s \<and> r = dropWhile is_digit s \<and> i \<noteq> []"
  by (auto simp: scan_int_part_def isASCIIDigit_def [abs_def] split: list.splits if_splits)

lemma scan_frac_part_Some:
  "scan_frac_part s = Some (f, r) \<Longrightarrow> digits_only f \<and>
     f = (case s of c # q \<Rightarrow> if c = CHR ''.'' then takeWhile is_digit q else [] | [] \<Rightarrow> []) \<and>
     r = (case s of c # q \<Rightarrow> if c = CHR ''.'' then dropWhile is_digit q else s | [] \<Rightarrow> [])"
  by (auto simp: scan_frac_part_def isASCIIDigit_def [abs_def] list_all_iff dest: set_takeWhileD
      split: list.splits if_splits)

lemma is_digit_sign [simp]: "\<not> is_digit CHR ''-''" "\<not> is_digit CHR ''+''" "\<not> is_digit CHR ''.''"
  "\<not> is_digit CHR ''e''" "\<not> is_digit CHR ''E''"
  by (simp_all add: is_digit_def)

lemma takeWhile_all: "dropWhile P xs = [] \<Longrightarrow> takeWhile P xs = xs"
  by (metis append_Nil2 takeWhile_dropWhile_id)

lemma scan_exp_part_value:
  "scan_exp_part s = Inr (e, []) \<Longrightarrow> e = exp_value s"
  by (auto simp: scan_exp_part_def exp_value_def isASCIIDigit_def [abs_def] parseBoundedInt_Inr
      maxCanonicalJSONRPCIDAbsExp10_def takeWhile_all Let_def split: list.splits if_splits sum.splits)

lemma parse_value:
  assumes "parseJSONRPCNumericID raw = Inr (neg, d, e)"
  shows "literal_rat raw = dec_value neg d e" and "lead_ok d" and "length d \<le> maxCanonicalJSONRPCIDKeyLen"
proof -
  obtain n r0 where sp: "split_sign raw = (n, r0)" by force
  from assms obtain i r1 where i: "scan_int_part r0 = Some (i, r1)"
    by (cases "scan_int_part r0") (auto simp: parseJSONRPCNumericID_def sp)
  from assms obtain f r2 where f: "scan_frac_part r1 = Some (f, r2)"
    by (cases "scan_frac_part r1") (auto simp: parseJSONRPCNumericID_def sp i)
  from assms obtain x r3 where x3: "scan_exp_part r2 = Inr (x, r3)"
    by (cases "scan_exp_part r2") (auto simp: parseJSONRPCNumericID_def sp i f)
  from assms have x: "scan_exp_part r2 = Inr (x, [])"
    by (auto simp: parseJSONRPCNumericID_def sp i f x3 split: if_splits)
  from assms have res: "(if dropWhile (\<lambda>c. c = CHR ''0'') (i @ f) = [] then (False, [], 0)
               else (n, dropWhile (\<lambda>c. c = CHR ''0'') (i @ f), x - int (length f))) = (neg, d, e)"
    and len: "length d \<le> maxCanonicalJSONRPCIDKeyLen"
    by (auto simp: parseJSONRPCNumericID_def sp i f x Let_def simp del: dropWhile_eq_Nil_conv split: if_splits)
  show "length d \<le> maxCanonicalJSONRPCIDKeyLen" by (rule len)
  let ?d = "dropWhile (\<lambda>c. c = CHR ''0'') (i @ f)"
  have fr: "digits_only f" using f scan_frac_part_Some by blast
  have ir: "digits_only i" using scan_int_part_Some [OF i] by (auto simp: list_all_iff dest: set_takeWhileD)
  have "x = exp_value r2" using x by (rule scan_exp_part_value)
  moreover have "takeWhile is_digit r0 = i" "dropWhile is_digit r0 = r1"
    using scan_int_part_Some [OF i] by auto
  moreover have "(case r1 of c # q \<Rightarrow> if c = CHR ''.'' then takeWhile is_digit q else [] | [] \<Rightarrow> []) = f"
    "(case r1 of c # q \<Rightarrow> if c = CHR ''.'' then dropWhile is_digit q else r1 | [] \<Rightarrow> []) = r2"
    using scan_frac_part_Some [OF f] by auto
  ultimately have "unsigned_value r0 = (of_nat (nat_of_digits i) + of_nat (nat_of_digits f) / 10 ^ length f) * 10 powi x"
    by (simp only: unsigned_value_def Let_def)
  also have "\<dots> = of_nat (nat_of_digits (i @ f)) * 10 powi (x - int (length f))"
    by (simp add: nat_of_digits_append power_int_diff field_simps)
  finally have u: "unsigned_value r0 = of_nat (nat_of_digits ?d) * 10 powi (x - int (length f))" by simp
  have "set ?d \<subseteq> set (i @ f)" by (auto dest: set_dropWhileD)
  then have "lead_ok ?d" using ir fr hd_dropWhile [of "\<lambda>c. c = CHR ''0''" "i @ f"]
    by (auto simp: lead_ok_def list_all_iff)
  then have "(lead_ok d \<and> literal_rat raw = dec_value neg d e)"
  proof (cases "?d = []")
    case True
    with res have "neg = False" "d = []" "e = 0" by (simp_all del: dropWhile_eq_Nil_conv)
    moreover have "unsigned_value r0 = 0" using u unfolding True by simp
    ultimately show ?thesis by (simp add: literal_rat_def sp dec_value_def lead_ok_def)
  next
    case False
    with res have "neg = n" "d = ?d" "e = x - int (length f)" by (auto simp del: dropWhile_eq_Nil_conv)
    with u \<open>lead_ok ?d\<close> show ?thesis by (simp add: literal_rat_def sp dec_value_def)
  qed
  then show "lead_ok d" "literal_rat raw = dec_value neg d e" by auto
qed

section \<open>Values of rendered keys\<close>

lemma unsigned_value_int:
  "digits_only i \<Longrightarrow> unsigned_value i = of_nat (nat_of_digits i)"
  by (simp add: unsigned_value_def Let_def list_all_iff takeWhile_eq_all_conv [THEN iffD2]
      dropWhile_eq_Nil_conv [THEN iffD2] exp_value_def)

lemma unsigned_value_frac:
  assumes "digits_only i" "digits_only f"
  shows "unsigned_value (i @ ''.'' @ f) = of_nat (nat_of_digits (i @ f)) / 10 ^ length f"
proof -
  have tw: "takeWhile is_digit (i @ CHR ''.'' # f) = i"
    "dropWhile is_digit (i @ CHR ''.'' # f) = CHR ''.'' # f"
    "takeWhile is_digit f = f" "dropWhile is_digit f = []"
    using assms by (auto simp: list_all_iff takeWhile_eq_all_conv)
  then show ?thesis
    by (simp add: unsigned_value_def Let_def exp_value_def nat_of_digits_append add_divide_distrib tw)
qed

lemma literal_rat_with_sign:
  assumes "s \<noteq> []" "is_digit (hd s)"
  shows "literal_rat (with_sign neg s) = (if neg then - unsigned_value s else unsigned_value s)"
proof -
  have "hd s \<noteq> CHR ''-''" using assms by (metis is_digit_sign(1))
  with assms show ?thesis
    by (cases s) (auto simp: literal_rat_def with_sign_def split_sign_def)
qed

lemma render_value:
  assumes "render_decimal neg d e = Inr k" "digits_only d" "d \<noteq> []"
  shows "literal_rat k = dec_value neg d e"
proof (cases "e \<ge> 0")
  case True
  let ?s = "d @ replicate (nat e) CHR ''0''"
  have k: "k = with_sign neg ?s"
    using assms(1) True by (auto simp: render_decimal_def Let_def split: if_splits)
  have "digits_only ?s" using assms(2) by (auto simp: list_all_iff)
  then have "unsigned_value ?s = of_nat (nat_of_digits d) * 10 ^ nat e"
    by (simp add: unsigned_value_int nat_of_digits_append)
  then show ?thesis
    using True assms(2,3) unfolding k
    by (cases d) (auto simp: literal_rat_with_sign dec_value_def power_int_def)
next
  case False
  let ?n = "nat (- e)"
  have e: "(10::rat) powi e = 1 / 10 ^ ?n"
    using False by (simp add: power_int_def inverse_eq_divide power_one_over)
  show ?thesis
  proof (cases "length d > ?n")
    case True
    let ?i = "take (length d - ?n) d" let ?f = "drop (length d - ?n) d"
    have k: "k = with_sign neg (?i @ ''.'' @ ?f)"
      using assms(1) False True by (auto simp: render_decimal_def Let_def split: if_splits)
    have dig: "digits_only ?i" "digits_only ?f"
      using assms(2) by (auto simp: list_all_iff dest: in_set_takeD in_set_dropD)
    have ne: "?i @ ''.'' @ ?f \<noteq> []" "is_digit (hd (?i @ ''.'' @ ?f))"
      using True assms(2,3) by (auto simp: hd_append list_all_iff)
    have "unsigned_value (?i @ ''.'' @ ?f) = of_nat (nat_of_digits d) / 10 ^ ?n"
      using unsigned_value_frac [OF dig] True by simp
    then show ?thesis
      unfolding k using literal_rat_with_sign [OF ne, of neg] by (simp add: dec_value_def e)
  next
    case short: False
    let ?f = "replicate (?n - length d) CHR ''0'' @ d"
    have k: "k = with_sign neg (''0'' @ ''.'' @ ?f)"
      using assms(1) False short by (auto simp: render_decimal_def Let_def split: if_splits)
    have dig: "digits_only ''0''" "digits_only ?f" using assms(2) by (auto simp: list_all_iff)
    have ne: "''0'' @ ''.'' @ ?f \<noteq> []" "is_digit (hd (''0'' @ ''.'' @ ?f))" by auto
    have "nat_of_digits (''0'' @ ?f) = nat_of_digits d"
      using nat_of_digits_append [of "''0'' @ replicate (?n - length d) CHR ''0''" d]
      by (simp add: nat_of_digits_Cons)
    then have "unsigned_value (''0'' @ ''.'' @ ?f) = of_nat (nat_of_digits d) / 10 ^ ?n"
      using unsigned_value_frac [OF dig] short by simp
    then show ?thesis
      unfolding k using literal_rat_with_sign [OF ne, of neg] by (simp add: dec_value_def e)
  qed
qed

lemma render_length:
  assumes "render_decimal neg d e = Inr k"
  shows "length k \<le> maxCanonicalJSONRPCIDKeyLen + 1"
  using assms
  by (auto simp: render_decimal_def with_sign_def Let_def split: if_splits)

section \<open>Canonical triples are unique\<close>

definition canonical_triple :: "bool \<Rightarrow> string \<Rightarrow> int \<Rightarrow> bool" where
  "canonical_triple neg d e \<longleftrightarrow> lead_ok d \<and> d \<noteq> [] \<and> last d \<noteq> CHR ''0''"

lemma canonical_not_dvd:
  assumes "canonical_triple neg d e"
  shows "\<not> 10 dvd nat_of_digits d" and "0 < nat_of_digits d"
proof -
  have d: "d = butlast d @ [last d]" and dig: "is_digit (last d)"
    using assms by (auto simp: canonical_triple_def lead_ok_def list_all_iff)
  have "digit_val (last d) \<noteq> 0" using assms dig is_digit_zero_iff by (auto simp: canonical_triple_def)
  moreover have "nat_of_digits d = 10 * nat_of_digits (butlast d) + digit_val (last d)"
    by (subst d) (rule nat_of_digits_snoc)
  moreover have "digit_val (last d) < 10" using dig by simp
  ultimately show "\<not> 10 dvd nat_of_digits d" "0 < nat_of_digits d" by presburger+
qed

lemma scaled_unique:
  fixes m n :: nat
  assumes "\<not> 10 dvd m" "\<not> 10 dvd n" "of_nat m * (10::rat) powi a = of_nat n * 10 powi b" "a \<le> b"
  shows "a = b \<and> m = n"
proof -
  have "(10::rat) powi b = 10 powi a * 10 ^ nat (b - a)"
    using assms(4) by (metis add_diff_cancel_left' diff_ge_0_iff_ge int_nat_eq power_int_add power_int_of_nat
        zero_neq_numeral diff_add_cancel add.commute)
  with assms(3) have "(of_nat m :: rat) = of_nat n * 10 ^ nat (b - a)" by (simp add: field_simps)
  then have "(of_nat m :: rat) = of_nat (n * 10 ^ nat (b - a))" by simp
  then have eq: "m = n * 10 ^ nat (b - a)" by (simp only: of_nat_eq_iff)
  have "nat (b - a) = 0"
  proof (rule ccontr)
    assume "nat (b - a) \<noteq> 0"
    then have "10 dvd n * 10 ^ nat (b - a)" by (intro dvd_mult dvd_power) auto
    with eq assms(1) show False by simp
  qed
  with eq assms(4) show ?thesis by simp
qed

lemma canonical_triple_unique:
  assumes "canonical_triple n1 d1 e1" "canonical_triple n2 d2 e2"
    and "dec_value n1 d1 e1 = dec_value n2 d2 e2"
  shows "n1 = n2 \<and> d1 = d2 \<and> e1 = e2"
proof -
  have p: "0 < of_nat (nat_of_digits d1) * (10::rat) powi e1" "0 < of_nat (nat_of_digits d2) * (10::rat) powi e2"
    using canonical_not_dvd(2) [OF assms(1)] canonical_not_dvd(2) [OF assms(2)] by simp_all
  have n: "n1 = n2" using assms(3) p by (auto simp: dec_value_def split: if_splits)
  with assms(3) have "of_nat (nat_of_digits d1) * (10::rat) powi e1 = of_nat (nat_of_digits d2) * 10 powi e2"
    by (auto simp: dec_value_def split: if_splits)
  then have "e1 = e2 \<and> nat_of_digits d1 = nat_of_digits d2"
    using scaled_unique canonical_not_dvd(1) [OF assms(1)] canonical_not_dvd(1) [OF assms(2)]
    by (metis linear)
  then show ?thesis using n assms(1,2) lead_ok_inj by (auto simp: canonical_triple_def)
qed

section \<open>Keys and denotations\<close>

lemma numeric_key_cases:
  assumes "canonicalJSONRPCNumericIDKey v = Inr k"
  shows "(k = ''0'' \<and> literal_rat (trim_space v) = 0) \<or>
    (\<exists>n d e. canonical_triple n d e \<and> render_decimal n d e = Inr k \<and>
       literal_rat (trim_space v) = dec_value n d e)"
proof -
  obtain n d e where p: "parseJSONRPCNumericID (trim_space v) = Inr (n, d, e)"
    and f: "formatCanonicalJSONRPCNumericID n d e = Inr k"
    using assms by (auto simp: canonicalJSONRPCNumericIDKey_def Let_def split: if_splits sum.splits)
  obtain d' e' where s: "strip_trailing_zeros d e = (d', e')" by force
  note props = strip_trailing_zeros_props [OF s]
  have v: "literal_rat (trim_space v) = dec_value n d' e'"
    using parse_value(1) [OF p] props by (auto simp: dec_value_def mult.assoc)
  show ?thesis
  proof (cases "d' = []")
    case True
    with f s v show ?thesis by (simp add: formatCanonicalJSONRPCNumericID_def dec_value_def)
  next
    case False
    have "canonical_triple n d' e'"
      using props parse_value(2) [OF p] False by (auto simp: canonical_triple_def)
    with f s v False show ?thesis by (auto simp: formatCanonicalJSONRPCNumericID_def)
  qed
qed

lemma canonical_triple_digits: "canonical_triple n d e \<Longrightarrow> digits_only d \<and> d \<noteq> []"
  by (simp add: canonical_triple_def lead_ok_def)

lemma numeric_key_value:
  assumes "canonicalJSONRPCNumericIDKey v = Inr k"
  shows "literal_rat k = literal_rat (trim_space v)"
proof -
  have "literal_rat ''0'' = 0"
    by (simp add: literal_rat_def split_sign_def unsigned_value_def exp_value_def nat_of_digits_Cons)
  then show ?thesis
    using numeric_key_cases [OF assms] render_value canonical_triple_digits by metis
qed

lemma dec_value_nonzero: "canonical_triple n d e \<Longrightarrow> dec_value n d e \<noteq> 0"
  using canonical_not_dvd(2) [of n d e] by (simp add: dec_value_def)

lemma numeric_key_iff:
  assumes "canonicalJSONRPCNumericIDKey v = Inr k" "canonicalJSONRPCNumericIDKey w = Inr l"
  shows "k = l \<longleftrightarrow> literal_rat (trim_space v) = literal_rat (trim_space w)"
proof
  assume "k = l"
  then show "literal_rat (trim_space v) = literal_rat (trim_space w)"
    using numeric_key_value [OF assms(1)] numeric_key_value [OF assms(2)] by simp
next
  assume "literal_rat (trim_space v) = literal_rat (trim_space w)"
  moreover have "(x = ''0'' \<and> p = 0) \<or> (\<exists>n d e. canonical_triple n d e \<and> render_decimal n d e = Inr x \<and> p = dec_value n d e) \<Longrightarrow>
      (y = ''0'' \<and> p = 0) \<or> (\<exists>n d e. canonical_triple n d e \<and> render_decimal n d e = Inr y \<and> p = dec_value n d e) \<Longrightarrow>
      x = y" for x y p
    using dec_value_nonzero by (elim disjE exE conjE) (auto dest: canonical_triple_unique)
  ultimately show "k = l"
    using numeric_key_cases [OF assms(1)] numeric_key_cases [OF assms(2)] by simp
qed

lemma render_hd: "render_decimal n d e = Inr k \<Longrightarrow> digits_only d \<Longrightarrow> d \<noteq> [] \<Longrightarrow>
    k \<noteq> [] \<and> (hd k = CHR ''-'' \<or> is_digit (hd k))"
  by (auto simp: render_decimal_def with_sign_def Let_def hd_append list_all_iff split: if_splits)

lemma numeric_key_hd:
  assumes "canonicalJSONRPCNumericIDKey v = Inr k"
  shows "k \<noteq> [] \<and> (hd k = CHR ''-'' \<or> is_digit (hd k))"
  using numeric_key_cases [OF assms] render_hd canonical_triple_digits by fastforce

lemma not_digit_starts: "\<not> is_digit CHR ''n''" "\<not> is_digit dquote" "dquote \<noteq> CHR ''-''"
  by (simp_all add: is_digit_def)

text \<open>The three shapes of a key tell the kinds of ids apart.\<close>

lemma key_cases:
  assumes "canonicalJSONRPCIDKey raw = Inr k"
  obtains (null) "k = ''null''" "id_denotes raw = Some IdNull"
  | (str) s where "k = quote s" "utf8_valid s" "id_denotes raw = Some (IdString s)"
  | (num) n where "canonicalJSONRPCNumericIDKey n = Inr k"
      "id_denotes raw = Some (IdNumber (literal_rat (trim_space n)))"
proof -
  obtain r v where p: "parse_json (trim_space raw) = Some (r, v)"
    using assms by (auto simp: canonicalJSONRPCIDKey_def Let_def split: if_splits option.splits)
  show ?thesis
  proof (cases v)
    case JNull
    with p assms show ?thesis
      by (intro null) (auto simp: canonicalJSONRPCIDKey_def id_denotes_def Let_def split: if_splits)
  next
    case (JStr s)
    with p assms parse_json_utf8 show ?thesis
      by (intro str) (auto simp: canonicalJSONRPCIDKey_def id_denotes_def Let_def split: if_splits)
  next
    case (JNum n)
    with p assms show ?thesis
      by (intro num) (auto simp: canonicalJSONRPCIDKey_def id_denotes_def Let_def split: if_splits)
  qed (use p assms in \<open>auto simp: canonicalJSONRPCIDKey_def Let_def split: if_splits\<close>)
qed

lemma canonical_key_iff:
  assumes "canonicalJSONRPCIDKey a = Inr ka" and "canonicalJSONRPCIDKey b = Inr kb"
  shows "ka = kb \<longleftrightarrow> id_denotes a = id_denotes b"
proof -
  have hd: "hd ''null'' = CHR ''n''" "CHR ''n'' \<noteq> dquote" "CHR ''n'' \<noteq> CHR ''-''" by simp_all
  from assms(1) show ?thesis
  proof (cases rule: key_cases)
    case null
    from assms(2) show ?thesis
      by (cases rule: key_cases) (use null hd not_digit_starts in \<open>auto dest: numeric_key_hd arg_cong [where f = hd]\<close>)
  next
    case (str s)
    from assms(2) show ?thesis
    proof (cases rule: key_cases)
      case null
      then show ?thesis using str hd by (metis id_value.distinct(1) option.inject quote_hd(1))
    next
      case (str t)
      then show ?thesis using \<open>ka = quote s\<close> \<open>utf8_valid s\<close> \<open>id_denotes a = _\<close> by (simp add: quote_inject)
    next
      case (num n)
      then have "hd kb \<noteq> dquote" using numeric_key_hd not_digit_starts by fastforce
      then show ?thesis using str num by auto
    qed
  next
    case (num n)
    then have k: "hd ka \<noteq> dquote" "hd ka \<noteq> CHR ''n''" using numeric_key_hd not_digit_starts by fastforce+
    from assms(2) show ?thesis
    proof (cases rule: key_cases)
      case null
      then show ?thesis using num k by auto
    next
      case (str t)
      then show ?thesis using num k by auto
    next
      case (num m)
      then show ?thesis using \<open>canonicalJSONRPCNumericIDKey n = _\<close> \<open>id_denotes a = _\<close>
        by (simp add: numeric_key_iff)
    qed
  qed
qed

section \<open>Ids the connection assigns\<close>

text \<open>
  A connection numbers its requests and keys them by the decimal text it has sent. The key
  of that text is the text itself, so a response that echoes the id finds its request.
\<close>

lemma lex_digits: "digits_only s \<Longrightarrow> lex (LNum NInt a) s = Some [TNum (rev a @ s)]"
  by (induction s arbitrary: a) auto

lemma digit_not_special: "is_digit c \<Longrightarrow> \<not> is_ws c \<and> \<not> is_punct c \<and> c \<noteq> dquote \<and> c \<noteq> CHR ''-''"
  by (auto simp: is_digit_def is_ws_def is_punct_def)

lemma tokens_digits:
  assumes "lead_ok s" "s \<noteq> []"
  shows "tokens s = Some [TNum s]"
proof -
  obtain c r where s: "s = c # r" using assms(2) by (cases s) auto
  then have "is_digit c" "c \<noteq> CHR ''0''" "digits_only r" using assms by (auto simp: lead_ok_def)
  then show ?thesis
    using lex_digits [of r "[c]"] digit_not_special [of c] by (simp add: tokens_def s lex_begin_def)
qed

lemma strip_trailing_zeros_split:
  "strip_trailing_zeros d e = (d', e') \<Longrightarrow> \<exists>n. d = d' @ replicate n CHR ''0'' \<and> e' = e + int n"
proof (induction d e arbitrary: d' e' rule: strip_trailing_zeros.induct)
  case (1 d e)
  show ?case
  proof (cases "d \<noteq> [] \<and> last d = CHR ''0''")
    case True
    then have d: "d = butlast d @ [CHR ''0'']" by (metis append_butlast_last_id)
    have "strip_trailing_zeros (butlast d) (e + 1) = (d', e')"
      using "1.prems" True by (simp add: strip_trailing_zeros.simps [of d e])
    from "1.IH" [OF True this] obtain n where n: "butlast d = d' @ replicate n CHR ''0''" "e' = e + 1 + int n"
      by blast
    then have "d = d' @ replicate (Suc n) CHR ''0''" using d by (metis append_assoc replicate_append_same replicate_Suc)
    with n show ?thesis by (intro exI [of _ "Suc n"]) auto
  next
    case False
    with "1.prems" show ?thesis by (auto simp: strip_trailing_zeros.simps [of d e])
  qed
qed

lemma canonical_key_digits:
  assumes "lead_ok s" "s \<noteq> []" "length s \<le> maxCanonicalJSONRPCIDKeyLen"
  shows "canonicalJSONRPCIDKey s = Inr s"
proof -
  have dig: "digits_only s" "hd s \<noteq> CHR ''0''" using assms by (auto simp: lead_ok_def)
  have "is_digit (hd s)" "is_digit (last s)" using dig(1) assms(2) by (auto simp: list_all_iff)
  then have trim: "trim_space s = s"
    using assms(2) by (intro trim_space_visible) (auto simp: is_digit_def)
  obtain c r where s: "s = c # r" using assms(2) by (cases s) auto
  have c: "is_digit c" "c \<noteq> CHR ''0''" "c \<noteq> CHR ''-''" and r: "digits_only r"
    using dig digit_not_special by (auto simp: s)
  have tw: "takeWhile is_digit s = s" "dropWhile is_digit s = []" "takeWhile is_digit r = r" "dropWhile is_digit r = []"
    using dig(1) r by (auto simp: list_all_iff takeWhile_eq_all_conv)
  have "parseJSONRPCNumericID s = Inr (False, s, 0)"
    using c assms(3)
    by (simp add: tw parseJSONRPCNumericID_def split_sign_def s scan_int_part_def isASCIIDigit_def [abs_def]
        scan_frac_part_def scan_exp_part_def)
  moreover have "formatCanonicalJSONRPCNumericID False s 0 = Inr s"
  proof -
    obtain d' e' where st: "strip_trailing_zeros s 0 = (d', e')" by force
    then obtain n where n: "s = d' @ replicate n CHR ''0''" "e' = int n"
      using strip_trailing_zeros_split by fastforce
    have "d' \<noteq> []" using n(1) dig(2) assms(2) by (cases n) auto
    with st n assms(3) show ?thesis
      by (simp add: formatCanonicalJSONRPCNumericID_def render_decimal_def with_sign_def)
  qed
  ultimately have "canonicalJSONRPCNumericIDKey s = Inr s"
    using assms(2) by (simp add: canonicalJSONRPCNumericIDKey_def trim)
  moreover have "parse_json s = Some (s, JNum s)"
    using tokens_digits [OF assms(1,2)]
    by (simp add: parse_json_def parser_init_def expects_value_def reduce_value_def)
  ultimately show ?thesis
    using assms(2) by (simp add: canonicalJSONRPCIDKey_def trim)
qed

lemma show_nat_hd: "0 < n \<Longrightarrow> hd (show_nat n) \<noteq> CHR ''0''"
proof (induction n rule: show_nat.induct)
  case (1 n)
  show ?case
  proof (cases "n < 10")
    case True
    then have "digit_val (digit_char n) \<noteq> digit_val CHR ''0''" using "1.prems" by simp
    then have "digit_char n \<noteq> CHR ''0''" by metis
    then show ?thesis using True by (simp add: show_nat.simps [of n])
  next
    case False
    with 1 show ?thesis by (simp add: show_nat.simps [of n] hd_append)
  qed
qed

lemma show_nat_lead_ok: "0 < n \<Longrightarrow> lead_ok (show_nat n)"
  using show_nat_digits show_nat_hd by (auto simp: lead_ok_def list_all_iff)

lemma show_nat_length: "n < 10 ^ k \<Longrightarrow> 0 < k \<Longrightarrow> length (show_nat n) \<le> k"
proof (induction k arbitrary: n)
  case (Suc k)
  show ?case
  proof (cases "n < 10")
    case True
    then show ?thesis by (simp add: show_nat.simps [of n])
  next
    case False
    then have "0 < k" using Suc.prems by (cases k) auto
    moreover have "n div 10 < 10 ^ k" using Suc.prems by (simp add: div_less_iff_less_mult mult.commute)
    ultimately show ?thesis using Suc.IH False by (simp add: show_nat.simps [of n])
  qed
qed simp

lemma canonical_key_show_nat:
  assumes "0 < n" "n < 2 ^ 64"
  shows "canonicalJSONRPCIDKey (show_nat n) = Inr (show_nat n)"
proof (rule canonical_key_digits)
  show "lead_ok (show_nat n)" using assms(1) by (rule show_nat_lead_ok)
  have "n < 10 ^ 20" using assms(2) by simp
  then show "length (show_nat n) \<le> maxCanonicalJSONRPCIDKeyLen"
    using show_nat_length [of n 20] by (simp add: maxCanonicalJSONRPCIDKeyLen_def)
qed simp

section \<open>Properties\<close>

text \<open>C6: Two request ids get the same key exactly when they denote the same id: null, the same
  string, or the same rational number, however the number is written.\<close>

theorem id_key_identifies:
  assumes "canonicalJSONRPCIDKey a = Inr ka" "canonicalJSONRPCIDKey b = Inr kb"
  shows "ka = kb \<longleftrightarrow> id_denotes a = id_denotes b"
  using assms by (rule canonical_key_iff)

lemma id_key_identifies_witness: "id_denotes ''10.0'' = id_denotes ''1e1''"
proof -
  have k: "canonicalJSONRPCIDKey ''10.0'' = Inr ''10''" "canonicalJSONRPCIDKey ''1e1'' = Inr ''10''" by code_simp+
  from id_key_identifies [OF k] show ?thesis by simp
qed

text \<open>The key of a number stays bounded however large its exponent is: at most 4096 bytes and
  a sign.\<close>

lemma numeric_key_bounded:
  assumes "canonicalJSONRPCNumericIDKey v = Inr k"
  shows "length k \<le> maxCanonicalJSONRPCIDKeyLen + 1"
proof -
  have "length ''0'' \<le> maxCanonicalJSONRPCIDKeyLen + 1" by (simp add: maxCanonicalJSONRPCIDKeyLen_def)
  then show ?thesis using assms render_length
    by (auto simp: canonicalJSONRPCNumericIDKey_def formatCanonicalJSONRPCNumericID_def Let_def
        split: sum.splits prod.splits if_splits)
qed

lemma numeric_key_bounded_witness:
  "length ''100'' \<le> maxCanonicalJSONRPCIDKeyLen + 1"
  by (rule numeric_key_bounded [of "''1e2''"]) code_simp

text \<open>The id the connection sends for its own requests is its own key, so the response that
  echoes it is found under the text that was registered.\<close>

lemma own_id_is_key:
  assumes "0 < n" "n < 2 ^ 64"
  shows "canonicalJSONRPCIDKey (show_nat n) = Inr (show_nat n)"
  using assms by (rule canonical_key_show_nat)

lemma own_id_is_key_witness: "canonicalJSONRPCIDKey (show_nat 42) = Inr (show_nat 42)"
  by (rule own_id_is_key) simp_all

end
