(* ===== verification/Frame.thy ===== *)
theory Frame
  imports Errors RequestId
begin

text \<open>
  \<open>frame.go\<close> and the message encoding of \<open>connection.go\<close>: the JSON-RPC message
  \<open>anyMessage\<close> and its decoding, the classification of one transport value as a single
  message, a batch or a malformed value, the reply bookkeeping of batch entries, and the
  encoding of messages and batch replies as one line of the transport.
\<close>

section \<open>Messages\<close>

text \<open>
  A nil \<open>json.RawMessage\<close> is the empty text; a pointer to one is an option, since the
  explicit id \<open>null\<close> is told apart from an omitted id.
\<close>

record any_message =
  JSONRPC :: string
  ID :: "string option"
  Method :: string
  Params :: string
  Result :: string
  Error :: "request_error option"

definition empty_message :: any_message where
  "empty_message = \<lparr>JSONRPC = [], ID = None, Method = [], Params = [], Result = [], Error = None\<rparr>"

definition decode_string_field :: "string \<Rightarrow> json \<Rightarrow> string option" where
  "decode_string_field d v = (case v of JStr s \<Rightarrow> Some s | JNull \<Rightarrow> Some d | _ \<Rightarrow> None)"

definition zero_request_error :: request_error where
  "zero_request_error = \<lparr>code = 0, message = [], data = None\<rparr>"

definition decode_error_member :: "request_error \<Rightarrow> string \<times> string \<times> json \<Rightarrow> request_error option" where
  "decode_error_member e m =
     (case m of (k, r, v) \<Rightarrow>
      (case match_field [''code'', ''message'', ''data''] k of
         None \<Rightarrow> Some e
       | Some f \<Rightarrow>
           if f = ''code'' then
             (case v of
                JNum n \<Rightarrow> map_option (\<lambda>i. e\<lparr>code := i\<rparr>) (parse_int64 n)
              | JNull \<Rightarrow> Some e
              | _ \<Rightarrow> None)
           else if f = ''message'' then
             map_option (\<lambda>s. e\<lparr>message := s\<rparr>) (decode_string_field (message e) v)
           else Some (e\<lparr>data := (if v = JNull then None else Some v)\<rparr>)))"

fun decode_members :: "('s \<Rightarrow> string \<times> string \<times> json \<Rightarrow> 's option) \<Rightarrow> 's \<Rightarrow> (string \<times> string \<times> json) list \<Rightarrow> 's option" where
  "decode_members f s [] = Some s"
| "decode_members f s (m # ms) = (case f s m of None \<Rightarrow> None | Some s' \<Rightarrow> decode_members f s' ms)"

text \<open>
  One member of the wire message. A repeated \<open>error\<close> member is decoded into the error that
  is already there, as the decoder does with a non-nil pointer.
\<close>

definition decode_wire_member :: "any_message \<Rightarrow> string \<times> string \<times> json \<Rightarrow> any_message option" where
  "decode_wire_member m x =
     (case x of (k, r, v) \<Rightarrow>
      (case match_field [''jsonrpc'', ''id'', ''method'', ''params'', ''result'', ''error''] k of
         None \<Rightarrow> Some m
       | Some f \<Rightarrow>
           if f = ''jsonrpc'' then map_option (\<lambda>s. m\<lparr>JSONRPC := s\<rparr>) (decode_string_field (JSONRPC m) v)
           else if f = ''id'' then Some (m\<lparr>ID := (if v = JNull then None else Some r)\<rparr>)
           else if f = ''method'' then map_option (\<lambda>s. m\<lparr>Method := s\<rparr>) (decode_string_field (Method m) v)
           else if f = ''params'' then Some (m\<lparr>Params := r\<rparr>)
           else if f = ''result'' then Some (m\<lparr>Result := r\<rparr>)
           else
             (case v of
                JNull \<Rightarrow> Some (m\<lparr>Error := None\<rparr>)
              | JObj ms \<Rightarrow>
                  map_option (\<lambda>e. m\<lparr>Error := Some e\<rparr>)
                    (decode_members decode_error_member
                       (case Error m of None \<Rightarrow> zero_request_error | Some e \<Rightarrow> e) ms)
              | _ \<Rightarrow> None)))"

text \<open>
  \<open>anyMessage.UnmarshalJSON\<close>: the plain decoding, after which a member named exactly \<open>id\<close>
  sets the id to its text, \<open>null\<close> included.
\<close>

definition decode_message :: "string \<Rightarrow> any_message option" where
  "decode_message raw =
     (case parse_json raw of
        Some (_, JObj ms) \<Rightarrow>
          (case decode_members decode_wire_member empty_message ms of
             None \<Rightarrow> None
           | Some decoded \<Rightarrow>
               (case field (map (\<lambda>(k, r, v). (k, r)) ms) ''id'' of
                  Some rawID \<Rightarrow> Some (decoded\<lparr>ID := Some rawID\<rparr>)
                | None \<Rightarrow> Some decoded))
      | Some (_, JNull) \<Rightarrow> Some empty_message
      | _ \<Rightarrow> None)"

section \<open>Frames\<close>

definition jsonRPCMethodCancelRequest :: string where
  "jsonRPCMethodCancelRequest = ''$/cancel_request''"

datatype frame_kind = FrameKindSingle | FrameKindBatch | FrameKindMalformed | FrameKindUnknown

fun frame_kind_string :: "frame_kind \<Rightarrow> string" where
  "frame_kind_string FrameKindSingle = ''single''"
| "frame_kind_string FrameKindBatch = ''batch''"
| "frame_kind_string FrameKindMalformed = ''malformed''"
| "frame_kind_string FrameKindUnknown = ''unknown''"

record batch_entry =
  e_raw :: string
  e_msg :: any_message
  e_ok :: bool
  e_err :: "request_error option"

record transport_frame =
  Raw :: string
  Kind :: frame_kind
  f_single :: any_message
  f_entries :: "batch_entry list"
  f_err :: "request_error option"

definition malformed_frame :: "string \<Rightarrow> request_error \<Rightarrow> transport_frame" where
  "malformed_frame raw e =
     \<lparr>Raw = raw, Kind = FrameKindMalformed, f_single = empty_message, f_entries = [], f_err = Some e\<rparr>"

definition parseBatchEntry :: "string \<Rightarrow> batch_entry" where
  "parseBatchEntry raw =
     (let copied = trim_space raw;
          entry = \<lparr>e_raw = copied, e_msg = empty_message, e_ok = False, e_err = Some (NewInvalidRequest None)\<rparr>
      in if copied = [] \<or> hd copied \<noteq> CHR ''{'' then entry
         else (case decode_message copied of
                 None \<Rightarrow> entry
               | Some msg \<Rightarrow> entry\<lparr>e_msg := msg, e_ok := True, e_err := None\<rparr>))"

definition ParseTransportFrame :: "string \<Rightarrow> transport_frame" where
  "ParseTransportFrame raw =
     (let copied = trim_space raw
      in if copied = [] \<or> \<not> json_valid copied then malformed_frame copied (NewParseError None)
         else if hd copied = CHR ''{'' then
           (case decode_message copied of
              None \<Rightarrow> malformed_frame copied (NewParseError None)
            | Some msg \<Rightarrow>
                \<lparr>Raw = copied, Kind = FrameKindSingle, f_single = msg, f_entries = [], f_err = None\<rparr>)
         else if hd copied = CHR ''['' then
           (case unmarshal_raws copied of
              None \<Rightarrow> malformed_frame copied (NewParseError None)
            | Some elems \<Rightarrow>
                if elems = [] then malformed_frame copied (NewInvalidRequest None)
                else \<lparr>Raw = copied, Kind = FrameKindBatch, f_single = empty_message,
                      f_entries = map parseBatchEntry elems, f_err = None\<rparr>)
         else malformed_frame copied (NewInvalidRequest None))"

definition frame_Encode :: "transport_frame \<Rightarrow> go_error + string" where
  "frame_Encode f =
     (if Raw f = [] then Inl (ErrText ''acp: empty transport frame'')
      else if last (Raw f) = newline then Inr (Raw f)
      else Inr (Raw f @ [newline]))"

definition frame_ProtocolError :: "transport_frame \<Rightarrow> request_error option" where
  "frame_ProtocolError f = f_err f"

definition frame_EntryCount :: "transport_frame \<Rightarrow> nat" where
  "frame_EntryCount f =
     (case Kind f of
        FrameKindSingle \<Rightarrow> 1
      | FrameKindBatch \<Rightarrow> length (f_entries f)
      | _ \<Rightarrow> 0)"

section \<open>Replies to batch entries\<close>

definition requestIDFromRaw :: "string \<Rightarrow> string option" where
  "requestIDFromRaw raw =
     (case unmarshal_map raw of
        None \<Rightarrow> None
      | Some (_, fs) \<Rightarrow> field fs ''id'')"

definition isResponseOnlyRaw :: "string \<Rightarrow> bool" where
  "isResponseOnlyRaw raw =
     (case unmarshal_map raw of
        None \<Rightarrow> False
      | Some (_, fs) \<Rightarrow>
          field fs ''method'' = None \<and>
          (field fs ''result'' \<noteq> None \<or> field fs ''error'' \<noteq> None))"

definition needsReply :: "batch_entry \<Rightarrow> bool" where
  "needsReply e =
     (if \<not> e_ok e then \<not> isResponseOnlyRaw (e_raw e)
      else if JSONRPC (e_msg e) \<noteq> ''2.0'' then \<not> isResponseOnlyRaw (e_raw e)
      else if ID (e_msg e) \<noteq> None \<and> Method (e_msg e) = [] then False
      else if Method (e_msg e) \<noteq> [] \<and> ID (e_msg e) \<noteq> None then True
      else if Method (e_msg e) \<noteq> [] then False
      else True)"

definition jsonRPCIDOrNull :: "string option \<Rightarrow> string option" where
  "jsonRPCIDOrNull i = (case i of Some r \<Rightarrow> Some r | None \<Rightarrow> Some ''null'')"

definition replyID :: "batch_entry \<Rightarrow> string option" where
  "replyID e =
     (if e_ok e \<and> ID (e_msg e) \<noteq> None then ID (e_msg e)
      else jsonRPCIDOrNull (requestIDFromRaw (e_raw e)))"

section \<open>Encoding of messages\<close>

definition opt_concat :: "string option list \<Rightarrow> string option" where
  "opt_concat xs = (if None \<in> set xs then None else Some (concat (map the xs)))"

text \<open>
  \<open>marshalMessage\<close>: the members of \<open>anyMessage\<close> in their order, with \<open>omitempty\<close>. It fails
  where a raw member is not valid JSON.
\<close>

definition marshalMessage :: "any_message \<Rightarrow> string option" where
  "marshalMessage m =
     opt_concat
       [Some (''{'' @ json_key ''jsonrpc'' @ quote ''2.0''),
        (case ID m of None \<Rightarrow> Some [] | Some r \<Rightarrow> map_option (\<lambda>t. '','' @ json_key ''id'' @ t) (marshal_raw r)),
        (if Method m = [] then Some [] else Some ('','' @ json_key ''method'' @ quote (Method m))),
        (if Params m = [] then Some [] else map_option (\<lambda>t. '','' @ json_key ''params'' @ t) (marshal_raw (Params m))),
        (if Result m = [] then Some [] else map_option (\<lambda>t. '','' @ json_key ''result'' @ t) (marshal_raw (Result m))),
        (case Error m of None \<Rightarrow> Some [] | Some e \<Rightarrow> Some ('','' @ json_key ''error'' @ marshal_request_error e)),
        Some ''}'']"

definition marshal_failed :: go_error where
  "marshal_failed = ErrText ''json: error calling MarshalJSON for type json.RawMessage''"

definition encodeMessage :: "any_message \<Rightarrow> go_error + string" where
  "encodeMessage m =
     (case marshalMessage m of None \<Rightarrow> Inl marshal_failed | Some t \<Rightarrow> Inr (t @ [newline]))"

definition encodeBatchResponses :: "any_message list \<Rightarrow> go_error + string" where
  "encodeBatchResponses ms =
     (if None \<in> set (map marshalMessage ms) then Inl marshal_failed
      else Inr (''['' @ join_with '','' (map (the \<circ> marshalMessage) ms) @ '']'' @ [newline]))"

section \<open>One line per frame\<close>

lemma quote_ascii_printable: "printable (quote_ascii c)"
proof -
  have "byte c div 16 < 16" "byte c mod 16 < 16" using byte_less [of c] by linarith+
  then show ?thesis by (auto simp: quote_ascii_def hex_char_printable)
qed

lemma utf8_printable: "utf8_width s \<noteq> 0 \<Longrightarrow> \<not> byte (hd s) < 128 \<Longrightarrow> printable (take (utf8_width s) s)"
  by (cases s rule: utf8_cases) (auto simp: utf8_width.simps in_range_def split: if_splits)

lemma quote_unit_printable: "printable (snd (quote_unit s))"
proof (cases s)
  case (Cons a t)
  then show ?thesis
    using utf8_printable [of s] quote_ascii_printable by (auto simp: quote_unit_def)
qed (simp add: quote_unit_def)

lemma quote_body_printable: "printable (quote_body s)"
proof (induction s rule: quote_body.induct)
  case (1 s)
  then show ?case by (subst quote_body.simps) (auto simp: quote_unit_printable)
qed

lemma quote_printable: "printable (quote s)"
  by (simp add: quote_def quote_body_printable)

lemma show_int_printable: "printable (show_int i)"
  using show_nat_digits printable_bytes(1) by (auto simp: show_int_def printable_def)

lemma join_with_printable: "(\<forall>x \<in> set xs. printable x) \<Longrightarrow> printable sep \<Longrightarrow> printable (join_with sep xs)"
  by (induction sep xs rule: join_with.induct) auto

lemma json_key_printable: "printable k \<Longrightarrow> printable (json_key k)"
  by (simp add: json_key_def)

text \<open>Every number inside a value is printable: true of each value the parser makes.\<close>

fun nums_ok :: "json \<Rightarrow> bool" where
  "nums_ok (JNum s) = printable s"
| "nums_ok (JArr xs) = list_all (\<lambda>(r, v). nums_ok v) xs"
| "nums_ok (JObj ms) = list_all (\<lambda>(k, r, v). nums_ok v) ms"
| "nums_ok _ = True"

lemma list_insert_key_set:
  "set (list_insert_key k v xs) \<subseteq> insert (k, v) (set xs)"
  by (induction k v xs rule: list_insert_key.induct) auto

lemma fold_insert_key_set:
  "set (fold (\<lambda>(k, v). list_insert_key k v) ys acc) \<subseteq> set ys \<union> set acc"
proof (induction ys arbitrary: acc)
  case (Cons y ys)
  obtain k v where y: "y = (k, v)" by force
  show ?case
    using Cons [of "list_insert_key k v acc"] list_insert_key_set [of k v acc] by (auto simp: y)
qed simp

lemma encode_any_printable: "nums_ok v \<Longrightarrow> printable (encode_any v)"
proof (induction v rule: encode_any.induct)
  case (5 xs)
  then have "\<forall>x \<in> set (map (\<lambda>(r, v). encode_any v) xs). printable x"
    by (fastforce simp: list_all_iff)
  then show ?case by (simp add: join_with_printable)
next
  case (6 ms)
  then have "\<forall>x \<in> set (map (\<lambda>(k, r, v). (k, encode_any v)) ms). printable (snd x)"
    by (fastforce simp: list_all_iff)
  then have "\<forall>x \<in> set (fold (\<lambda>(k, v). list_insert_key k v) (map (\<lambda>(k, r, v). (k, encode_any v)) ms) []).
      printable (snd x)"
    using fold_insert_key_set by fastforce
  then have "\<forall>x \<in> set (map (\<lambda>(k, v). quote k @ '':'' @ v)
      (fold (\<lambda>(k, v). list_insert_key k v) (map (\<lambda>(k, r, v). (k, encode_any v)) ms) [])). printable x"
    by (auto simp: quote_printable)
  then show ?case by (simp add: join_with_printable)
qed (auto simp: quote_printable)

definition error_printable :: "any_message \<Rightarrow> bool" where
  "error_printable m =
     (case Error m of None \<Rightarrow> True | Some e \<Rightarrow> (case data e of None \<Rightarrow> True | Some d \<Rightarrow> nums_ok d))"

lemma marshal_request_error_printable:
  "(case data e of None \<Rightarrow> True | Some d \<Rightarrow> nums_ok d) \<Longrightarrow> printable (marshal_request_error e)"
  by (auto simp: marshal_request_error_def json_key_printable show_int_printable quote_printable
      encode_any_printable split: option.splits)

lemma opt_concat_printable:
  "opt_concat xs = Some t \<Longrightarrow> (\<forall>x \<in> set xs. \<forall>s. x = Some s \<longrightarrow> printable s) \<Longrightarrow> printable t"
  by (induction xs arbitrary: t) (auto simp: opt_concat_def split: if_splits)

lemma marshalMessage_printable:
  assumes "marshalMessage m = Some t" "error_printable m"
  shows "printable t"
  using assms(1) unfolding marshalMessage_def
  by (rule opt_concat_printable)
    (use assms(2) in \<open>auto simp: json_key_printable quote_printable marshal_raw_printable error_printable_def
       marshal_request_error_printable split: option.splits if_splits\<close>)

lemma encodeMessage_line:
  assumes "encodeMessage m = Inr out" "error_printable m"
  shows "\<exists>body. out = body @ [newline] \<and> newline \<notin> set body"
  using assms by (auto simp: encodeMessage_def printable_no_newline dest: marshalMessage_printable split: option.splits)

lemma encodeBatchResponses_line:
  assumes "encodeBatchResponses ms = Inr out" "\<forall>m \<in> set ms. error_printable m"
  shows "\<exists>body. out = body @ [newline] \<and> newline \<notin> set body"
proof -
  have none: "None \<notin> set (map marshalMessage ms)"
    and out: "out = (''['' @ join_with '','' (map (the \<circ> marshalMessage) ms) @ '']'') @ [newline]"
    using assms(1) by (auto simp: encodeBatchResponses_def split: if_splits)
  have "\<forall>x \<in> set (map (the \<circ> marshalMessage) ms). printable x"
  proof
    fix x assume "x \<in> set (map (the \<circ> marshalMessage) ms)"
    then obtain m where m: "m \<in> set ms" "x = the (marshalMessage m)" by auto
    with none obtain t where "marshalMessage m = Some t" by (cases "marshalMessage m") force+
    with m assms(2) show "printable x" by (simp add: marshalMessage_printable)
  qed
  then have "printable (''['' @ join_with '','' (map (the \<circ> marshalMessage) ms) @ '']'')"
    by (simp add: join_with_printable)
  with out show ?thesis using printable_no_newline by blast
qed

section \<open>Frames keep their text\<close>

lemma frame_kind_cases:
  "Kind (ParseTransportFrame raw) = FrameKindSingle \<or> Kind (ParseTransportFrame raw) = FrameKindBatch
   \<or> Kind (ParseTransportFrame raw) = FrameKindMalformed"
  by (auto simp: ParseTransportFrame_def malformed_frame_def Let_def split: option.splits)

lemma frame_Raw: "Raw (ParseTransportFrame raw) = trim_space raw"
  by (auto simp: ParseTransportFrame_def malformed_frame_def Let_def split: option.splits)

lemma space_seqs_newline: "p \<in> set space_seqs \<Longrightarrow> newline \<in> set p \<Longrightarrow> p = [newline]"
  by (auto simp: space_seqs_def)

lemma space_width_zero_iff:
  "(\<forall>p \<in> set seqs. p \<noteq> []) \<Longrightarrow> space_width seqs s = 0 \<longleftrightarrow> (\<forall>p \<in> set seqs. \<not> has_prefix s p)"
  by (auto simp: space_width_def find_None_iff find_Some_iff split: option.splits)

lemma space_seqs_nonempty: "p \<in> set space_seqs \<Longrightarrow> p \<noteq> []" "p \<in> set (map rev space_seqs) \<Longrightarrow> p \<noteq> []"
  by (auto simp: space_seqs_def)

lemma has_prefix_snoc_newline:
  assumes "has_prefix (t @ [newline]) p" "t \<noteq> []" "p \<in> set space_seqs"
  shows "has_prefix t p"
proof -
  from assms(1) obtain r where r: "t @ [newline] = p @ r" by (auto simp: has_prefix_iff)
  show ?thesis
  proof (cases r rule: rev_cases)
    case Nil
    with r have "newline \<in> set p" by (metis append_Nil2 in_set_conv_decomp)
    then have "p = [newline]" using assms(3) space_seqs_newline by blast
    with r Nil assms(2) show ?thesis by simp
  next
    case (snoc q c)
    with r show ?thesis by (auto simp: has_prefix_iff)
  qed
qed

lemma trim_space_left_clean: "trim_space s \<noteq> [] \<Longrightarrow> space_width space_seqs (trim_space s) = 0"
proof -
  assume ne: "trim_space s \<noteq> []"
  let ?l = "strip_spaces space_seqs s"
  have "suffix (strip_spaces (map rev space_seqs) (rev ?l)) (rev ?l)" by (rule strip_spaces_suffix)
  then have pre: "\<exists>r. ?l = trim_space s @ r"
    by (auto simp: trim_space_def suffix_def) (metis rev_append rev_rev_ident)
  then have "?l \<noteq> []" using ne by auto
  then have "space_width space_seqs ?l = 0" by (rule strip_spaces_width)
  then have "\<forall>p \<in> set space_seqs. \<not> has_prefix ?l p"
    using space_width_zero_iff space_seqs_nonempty(1) by blast
  then have "\<forall>p \<in> set space_seqs. \<not> has_prefix (trim_space s) p"
    using pre by (auto simp: has_prefix_iff)
  then show ?thesis using space_width_zero_iff space_seqs_nonempty(1) by blast
qed

lemma trim_space_right_clean: "trim_space s \<noteq> [] \<Longrightarrow> space_width (map rev space_seqs) (rev (trim_space s)) = 0"
  unfolding trim_space_def rev_rev_ident by (rule strip_spaces_width) simp

lemma space_width_rev_newline: "space_width (map rev space_seqs) (newline # r) = 1"
  by (simp add: space_width_def space_seqs_def has_prefix_def)

lemma trim_space_line: "trim_space s \<noteq> [] \<Longrightarrow> trim_space (trim_space s @ [newline]) = trim_space s"
proof -
  assume ne: "trim_space s \<noteq> []"
  let ?t = "trim_space s"
  have "\<forall>p \<in> set space_seqs. \<not> has_prefix ?t p"
    using trim_space_left_clean [OF ne] space_width_zero_iff space_seqs_nonempty(1) by blast
  then have "\<forall>p \<in> set space_seqs. \<not> has_prefix (?t @ [newline]) p"
    using has_prefix_snoc_newline ne by blast
  then have "space_width space_seqs (?t @ [newline]) = 0"
    using space_width_zero_iff space_seqs_nonempty(1) by blast
  then have l: "strip_spaces space_seqs (?t @ [newline]) = ?t @ [newline]" by (rule strip_spaces_id)
  have "strip_spaces (map rev space_seqs) (newline # rev ?t) = strip_spaces (map rev space_seqs) (rev ?t)"
    by (subst strip_spaces.simps) (simp add: space_width_rev_newline)
  also have "\<dots> = rev ?t" using trim_space_right_clean [OF ne] by (rule strip_spaces_id)
  finally show ?thesis unfolding trim_space_def [of "?t @ [newline]"] l by simp
qed

lemma trim_space_last: "trim_space s \<noteq> [] \<Longrightarrow> last (trim_space s) \<noteq> newline"
proof
  assume ne: "trim_space s \<noteq> []" and nl: "last (trim_space s) = newline"
  then have "rev (trim_space s) = newline # rev (butlast (trim_space s))"
    by (metis append_butlast_last_id rev.simps(2) rev_rev_ident rev_append append_Cons append_Nil)
  then have "space_width (map rev space_seqs) (rev (trim_space s)) = 1"
    using space_width_rev_newline by (simp only:)
  then show False using trim_space_right_clean [OF ne] by simp
qed

section \<open>Properties\<close>

text \<open>C19: A message is encoded as exactly one line: the bytes end with the only line feed.\<close>

theorem message_is_one_line:
  assumes "encodeMessage m = Inr out" "error_printable m"
  shows "\<exists>body. out = body @ [newline] \<and> newline \<notin> set body"
  using assms by (rule encodeMessage_line)

lemma message_is_one_line_witness:
  "\<exists>body. ''{\"jsonrpc\":\"2.0\",\"method\":\"m\"}'' @ [newline] = body @ [newline] \<and> newline \<notin> set body"
  by (rule message_is_one_line [where m = "empty_message\<lparr>Method := ''m''\<rparr>"]) code_simp+

text \<open>C18: Relaying keeps a frame: what \<open>Encode\<close> writes of a parsed frame parses to the same frame,
  batch boundaries and malformed frames included.\<close>

theorem frame_roundtrip:
  assumes "frame_Encode (ParseTransportFrame raw) = Inr out"
  shows "ParseTransportFrame out = ParseTransportFrame raw"
proof -
  have ne: "trim_space raw \<noteq> []" using assms by (auto simp: frame_Encode_def frame_Raw split: if_splits)
  then have "out = trim_space raw @ [newline]"
    using assms trim_space_last [OF ne] by (simp add: frame_Encode_def frame_Raw)
  then have "trim_space out = trim_space raw" using trim_space_line [OF ne] by simp
  then show ?thesis by (simp add: ParseTransportFrame_def)
qed

lemma frame_roundtrip_witness:
  "ParseTransportFrame (''[{}]'' @ [newline]) = ParseTransportFrame ''  [{}] ''"
  by (rule frame_roundtrip) code_simp

text \<open>A batch of responses is encoded as exactly one line.\<close>

lemma batch_is_one_line:
  assumes "encodeBatchResponses ms = Inr out" "\<forall>m \<in> set ms. error_printable m"
  shows "\<exists>body. out = body @ [newline] \<and> newline \<notin> set body"
  using assms by (rule encodeBatchResponses_line)

lemma batch_is_one_line_witness:
  "\<exists>body. ''[{\"jsonrpc\":\"2.0\"}]'' @ [newline] = body @ [newline] \<and> newline \<notin> set body"
  by (rule batch_is_one_line [where ms = "[empty_message]"]) code_simp+

text \<open>Raw text with line feeds inside, as of a pretty-printed value, is kept by \<open>Encode\<close>, so its
  result is then several lines.\<close>

lemma frame_Encode_several_lines:
  "frame_Encode (ParseTransportFrame (''{'' @ [newline] @ ''}'')) = Inr (''{'' @ [newline] @ ''}'' @ [newline])"
  by code_simp

end
