(* ===== verification/Options.thy ===== *)
theory Options
  imports Errors
begin

text \<open>
  The connection's limits (\<open>ConnectionOptions\<close> of \<open>connection.go\<close>) and their normalisation:
  zero selects the default, anything below one is rejected. The logger, which only receives
  diagnostics, is left out.
\<close>

record connection_options =
  MaxFrameSize :: int
  MaxPendingRequests :: int
  MaxHandlerConcurrency :: int
  MaxQueuedRequests :: int
  MaxQueuedNotifications :: int
  MaxNotificationBytes :: int
  MaxQueuedWrites :: int
  AcceptNotification :: "(string \<Rightarrow> bool) option"
  RejectBatch :: bool

definition DefaultConnectionOptions :: connection_options where
  "DefaultConnectionOptions =
     \<lparr>MaxFrameSize = 10 * 1024 * 1024, MaxPendingRequests = 1024, MaxHandlerConcurrency = 32,
      MaxQueuedRequests = 128, MaxQueuedNotifications = 1024, MaxNotificationBytes = 32 * 2 ^ 20,
      MaxQueuedWrites = 1024, AcceptNotification = None, RejectBatch = False\<rparr>"

definition or_default :: "int \<Rightarrow> int \<Rightarrow> int" where
  "or_default x d = (if x = 0 then d else x)"

definition normalizeConnectionOptions :: "connection_options \<Rightarrow> go_error + connection_options" where
  "normalizeConnectionOptions o0 =
     (let defaults = DefaultConnectionOptions;
          o1 = o0\<lparr>MaxFrameSize := or_default (MaxFrameSize o0) (MaxFrameSize defaults),
            MaxPendingRequests := or_default (MaxPendingRequests o0) (MaxPendingRequests defaults),
            MaxHandlerConcurrency := or_default (MaxHandlerConcurrency o0) (MaxHandlerConcurrency defaults),
            MaxQueuedRequests := or_default (MaxQueuedRequests o0) (MaxQueuedRequests defaults),
            MaxQueuedNotifications := or_default (MaxQueuedNotifications o0) (MaxQueuedNotifications defaults),
            MaxNotificationBytes := or_default (MaxNotificationBytes o0) (MaxNotificationBytes defaults),
            MaxQueuedWrites := or_default (MaxQueuedWrites o0) (MaxQueuedWrites defaults)\<rparr>
      in if MaxFrameSize o1 < 1 \<or> MaxPendingRequests o1 < 1 \<or> MaxHandlerConcurrency o1 < 1 \<or>
            MaxQueuedRequests o1 < 1 \<or> MaxQueuedNotifications o1 < 1 \<or> MaxNotificationBytes o1 < 1 \<or>
            MaxQueuedWrites o1 < 1
         then Inl (ErrText ''acp: connection limits must be positive'') else Inr o1)"

definition limits_positive :: "connection_options \<Rightarrow> bool" where
  "limits_positive o1 \<longleftrightarrow> 1 \<le> MaxFrameSize o1 \<and> 1 \<le> MaxPendingRequests o1 \<and> 1 \<le> MaxHandlerConcurrency o1 \<and>
     1 \<le> MaxQueuedRequests o1 \<and> 1 \<le> MaxQueuedNotifications o1 \<and> 1 \<le> MaxNotificationBytes o1 \<and>
     1 \<le> MaxQueuedWrites o1"

lemma normalize_positive: "normalizeConnectionOptions o0 = Inr o1 \<Longrightarrow> limits_positive o1"
  by (auto simp: normalizeConnectionOptions_def limits_positive_def Let_def split: if_splits)

end
