(* ===== verification/Pending.thy ===== *)
theory Pending
  imports Frame Options
begin

text \<open>
  The table of outbound requests of \<open>connection.go\<close> that wait for a response, and the ordered
  deliveries of responses: \<open>addPending\<close>, \<open>admitPending\<close>, \<open>abandonPending\<close>, \<open>detachPending\<close>,
  \<open>finishPending\<close>, the part of \<open>handleResponse\<close> and \<open>shutdown\<close> that completes requests, and the
  delivery chain with its slots.

  A pending response is allocated once and named by its index in \<open>p_heap\<close>; the map from id
  keys holds the index, so that the comparisons of pointers are comparisons of indices. The
  delivery of a gated request is allocated with it and has the same index. A pointer to a
  delivery is the list of the deliveries its \<open>previous\<close> pointers reach, the latest first; they
  are written once, before the delivery is published. The number of tokens in
  \<open>responseDeliverySlots\<close> is an integer: that it never falls below zero is that no receive
  from the channel blocks.

  Each operation is one atomic step: it changes the table inside one critical section, and
  whoever could observe the part after it waits for the \<open>done\<close> channel that the step closes.
\<close>

section \<open>State\<close>

record response_envelope =
  msg :: any_message
  notificationWatermark :: nat
  env_delivery :: "nat option"

record pending_response =
  outcome :: "(response_envelope \<times> go_error option) option"
  delivery :: "bool option"
  admitted :: bool
  responded :: bool

record pendings =
  p_cause :: "go_error option"
  p_limit :: nat
  p_heap :: "pending_response list"
  p_map :: "(string \<times> nat) list"
  p_slots :: int
  p_chain :: "nat list"

definition new_pendings :: "nat \<Rightarrow> pendings" where
  "new_pendings limit =
     \<lparr>p_cause = None, p_limit = limit, p_heap = [], p_map = [], p_slots = 0, p_chain = []\<rparr>"

definition connectionCause :: "pendings \<Rightarrow> go_error" where
  "connectionCause p = (case p_cause p of Some e \<Rightarrow> e | None \<Rightarrow> ErrConnectionClosed)"

section \<open>Operations\<close>

abbreviation upd_pending :: "nat \<Rightarrow> (pending_response \<Rightarrow> pending_response) \<Rightarrow> pendings \<Rightarrow> pendings" where
  "upd_pending i f p \<equiv> p\<lparr>p_heap := (p_heap p)[i := f (p_heap p ! i)]\<rparr>"

definition no_envelope :: response_envelope where
  "no_envelope = \<lparr>msg = empty_message, notificationWatermark = 0, env_delivery = None\<rparr>"

text \<open>The method \<open>complete\<close>: the \<open>sync.Once\<close> keeps the first outcome.\<close>

definition complete :: "nat \<Rightarrow> response_envelope \<times> go_error option \<Rightarrow> pendings \<Rightarrow> pendings" where
  "complete i r = upd_pending i (\<lambda>x. if outcome x = None then x\<lparr>outcome := Some r\<rparr> else x)"

definition delivery_done :: "pendings \<Rightarrow> nat \<Rightarrow> bool" where
  "delivery_done p i \<longleftrightarrow> delivery (p_heap p ! i) = Some True"

definition pruneResponseDeliveriesLocked :: "pendings \<Rightarrow> pendings" where
  "pruneResponseDeliveriesLocked p =
     p\<lparr>p_chain := dropWhile (delivery_done p) (p_chain p),
       p_slots := p_slots p - int (length (takeWhile (delivery_done p) (p_chain p)))\<rparr>"

definition finishResponseDelivery :: "nat \<Rightarrow> pendings \<Rightarrow> pendings" where
  "finishResponseDelivery i p =
     (case delivery (p_heap p ! i) of
        None \<Rightarrow> p
      | Some _ \<Rightarrow> pruneResponseDeliveriesLocked (upd_pending i (delivery_update (\<lambda>_. Some True)) p))"

definition discardResponseDelivery :: "nat \<Rightarrow> pendings \<Rightarrow> pendings" where
  "discardResponseDelivery i p =
     (case delivery (p_heap p ! i) of
        Some False \<Rightarrow> upd_pending i (delivery_update (\<lambda>_. Some True)) (p\<lparr>p_slots := p_slots p - 1\<rparr>)
      | _ \<Rightarrow> p)"

definition responseDeliveryBarrier :: "pendings \<Rightarrow> nat list \<times> pendings" where
  "responseDeliveryBarrier p =
     (let q = pruneResponseDeliveriesLocked p in (p_chain q, q))"

definition map_set :: "string \<Rightarrow> nat \<Rightarrow> (string \<times> nat) list \<Rightarrow> (string \<times> nat) list" where
  "map_set k v m = filter (\<lambda>(k', _). k' \<noteq> k) m @ [(k, v)]"

definition map_delete :: "string \<Rightarrow> (string \<times> nat) list \<Rightarrow> (string \<times> nat) list" where
  "map_delete k m = filter (\<lambda>(k', _). k' \<noteq> k) m"

definition addPending :: "string \<Rightarrow> bool \<Rightarrow> pendings \<Rightarrow> (go_error + nat) \<times> pendings" where
  "addPending idKey gated p0 =
     (let p = (if gated then pruneResponseDeliveriesLocked p0 else p0);
          pending = \<lparr>outcome = None, delivery = (if gated then Some False else None),
            admitted = False, responded = False\<rparr>
      in if p_cause p \<noteq> None then (Inl (connectionCause p), p)
         else if length (p_map p) \<ge> p_limit p then (Inl ErrPendingRequestsExceeded, p)
         else if gated \<and> p_slots p \<ge> int (p_limit p) then (Inl ErrPendingRequestsExceeded, p)
         else (Inr (length (p_heap p)),
               p\<lparr>p_heap := p_heap p @ [pending],
                 p_slots := (if gated then p_slots p + 1 else p_slots p),
                 p_map := map_set idKey (length (p_heap p)) (p_map p)\<rparr>))"

definition admitPending :: "string \<Rightarrow> nat \<Rightarrow> pendings \<Rightarrow> go_error option \<times> pendings" where
  "admitPending idKey i p =
     (if p_cause p \<noteq> None then (Some (connectionCause p), p)
      else if map_of (p_map p) idKey \<noteq> Some i then (Some ErrPreparedRequestUnavailable, p)
      else (None, upd_pending i (admitted_update (\<lambda>_. True)) p))"

definition abandonPending :: "string \<Rightarrow> nat \<Rightarrow> go_error \<Rightarrow> pendings \<Rightarrow> bool \<times> pendings" where
  "abandonPending idKey i cause p =
     (if map_of (p_map p) idKey \<noteq> Some i \<or> responded (p_heap p ! i) then (False, p)
      else (True, complete i (no_envelope, Some cause)
              (discardResponseDelivery i (p\<lparr>p_map := map_delete idKey (p_map p)\<rparr>))))"

definition detachPending :: "string \<Rightarrow> nat \<Rightarrow> pendings \<Rightarrow> pendings" where
  "detachPending idKey i p =
     (if map_of (p_map p) idKey = Some i then p\<lparr>p_map := map_delete idKey (p_map p)\<rparr> else p)"

definition pendingResponded :: "string \<Rightarrow> nat \<Rightarrow> pendings \<Rightarrow> bool" where
  "pendingResponded idKey i p \<longleftrightarrow> map_of (p_map p) idKey = Some i \<and> responded (p_heap p ! i)"

definition finishPending :: "string \<Rightarrow> nat \<Rightarrow> pendings \<Rightarrow> pendings" where
  "finishPending idKey i p =
     (let p' = detachPending idKey i p
      in if responded (p_heap p ! i) then finishResponseDelivery i p'
         else discardResponseDelivery i p')"

text \<open>\<open>releasePending\<close> of \<open>prepared_request.go\<close>, inside its \<open>sync.Once\<close>.\<close>

definition release_pending :: "string \<Rightarrow> nat \<Rightarrow> go_error \<Rightarrow> pendings \<Rightarrow> pendings" where
  "release_pending idKey i cause p =
     (case abandonPending idKey i cause p of
        (True, p') \<Rightarrow> p'
      | (False, p') \<Rightarrow> finishPending idKey i p')"

text \<open>\<open>handleResponse\<close> for the canonical key of the response's id.\<close>

definition deliver_response :: "string \<Rightarrow> any_message \<Rightarrow> nat \<Rightarrow> pendings \<Rightarrow> pendings" where
  "deliver_response idKey m watermark p =
     (case map_of (p_map p) idKey of
        None \<Rightarrow> p
      | Some i \<Rightarrow>
          if admitted (p_heap p ! i) \<and> \<not> responded (p_heap p ! i)
          then (let gated = delivery (p_heap p ! i) \<noteq> None;
                    p1 = upd_pending i (responded_update (\<lambda>_. True)) p;
                    p2 = (if gated then (let q = pruneResponseDeliveriesLocked p1
                                         in q\<lparr>p_chain := i # p_chain q\<rparr>) else p1)
                in complete i (\<lparr>msg = m, notificationWatermark = watermark,
                                env_delivery = (if gated then Some i else None)\<rparr>, None) p2)
          else p)"

text \<open>
  The part of \<open>shutdown\<close> inside its \<open>sync.Once\<close> that ends the requests. The code's loop ranges
  over the map in an arbitrary order, here in the order of registration.
\<close>

definition shutdown_one :: "go_error \<Rightarrow> nat \<Rightarrow> pendings \<Rightarrow> pendings" where
  "shutdown_one cause i p =
     (if responded (p_heap p ! i) then finishResponseDelivery i p
      else discardResponseDelivery i (complete i (no_envelope, Some cause) p))"

definition shutdown_pendings :: "go_error \<Rightarrow> pendings \<Rightarrow> pendings" where
  "shutdown_pendings cause p =
     (if p_cause p \<noteq> None then p
      else fold (shutdown_one cause) (map snd (p_map p)) (p\<lparr>p_cause := Some cause, p_map := []\<rparr>))"

section \<open>Invariant\<close>

text \<open>
  What holds of one request: it is waiting exactly as long as it is in the map without a
  response; a response belongs to an admitted request and ends it without an error, any other
  end carries an error; an open delivery is in the chain or belongs to a waiting request.
\<close>

definition obj_ok :: "bool \<Rightarrow> bool \<Rightarrow> pending_response \<Rightarrow> bool" where
  "obj_ok mapped chained x \<longleftrightarrow>
     (outcome x = None \<longleftrightarrow> mapped \<and> \<not> responded x) \<and>
     (responded x \<longrightarrow> admitted x \<and> (\<exists>e. outcome x = Some (e, None))) \<and>
     (\<not> responded x \<longrightarrow> (\<forall>e. outcome x \<noteq> Some (e, None))) \<and>
     (chained \<longrightarrow> responded x \<and> delivery x \<noteq> None) \<and>
     (delivery x = Some False \<longrightarrow> chained \<or> outcome x = None) \<and>
     (outcome x = None \<longrightarrow> delivery x \<noteq> Some True)"

text \<open>The requests that hold a delivery slot without being in the chain.\<close>

definition held :: "pendings \<Rightarrow> nat set" where
  "held p = {i. i < length (p_heap p) \<and> outcome (p_heap p ! i) = None \<and> delivery (p_heap p ! i) = Some False}"

definition core_inv :: "nat set \<Rightarrow> pendings \<Rightarrow> bool" where
  "core_inv M p \<longleftrightarrow>
     (\<forall>i < length (p_heap p). obj_ok (i \<in> M) (i \<in> set (p_chain p)) (p_heap p ! i)) \<and>
     M \<subseteq> {..<length (p_heap p)} \<and> distinct (p_chain p) \<and> set (p_chain p) \<subseteq> {..<length (p_heap p)} \<and>
     p_slots p = int (length (p_chain p)) + int (card (held p)) \<and> p_slots p \<le> int (p_limit p)"

definition pend_inv :: "pendings \<Rightarrow> bool" where
  "pend_inv p \<longleftrightarrow> core_inv (snd ` set (p_map p)) p \<and> distinct (map fst (p_map p)) \<and>
     distinct (map snd (p_map p)) \<and> length (p_map p) \<le> p_limit p \<and> (p_cause p \<noteq> None \<longrightarrow> p_map p = [])"

lemma new_pendings_inv: "pend_inv (new_pendings limit)"
  by (simp add: pend_inv_def core_inv_def new_pendings_def held_def)

lemma finite_held [simp]: "finite (held p)"
  by (simp add: held_def)

lemma core_objD: "core_inv M p \<Longrightarrow> i < length (p_heap p) \<Longrightarrow> obj_ok (i \<in> M) (i \<in> set (p_chain p)) (p_heap p ! i)"
  by (simp add: core_inv_def)

lemma core_bound: "core_inv M p \<Longrightarrow> i \<in> M \<Longrightarrow> i < length (p_heap p)"
  by (auto simp: core_inv_def)

lemma prune_simps [simp]:
  "p_heap (pruneResponseDeliveriesLocked p) = p_heap p" "p_map (pruneResponseDeliveriesLocked p) = p_map p"
  "p_cause (pruneResponseDeliveriesLocked p) = p_cause p" "p_limit (pruneResponseDeliveriesLocked p) = p_limit p"
  "held (pruneResponseDeliveriesLocked p) = held p"
  by (simp_all add: pruneResponseDeliveriesLocked_def held_def)

lemma length_takeWhile_dropWhile: "length (takeWhile P xs) + length (dropWhile P xs) = length xs"
  by (metis length_append takeWhile_dropWhile_id)

lemma core_prune:
  assumes "core_inv M p"
  shows "core_inv M (pruneResponseDeliveriesLocked p)"
proof -
  let ?c = "dropWhile (delivery_done p) (p_chain p)"
  have obj: "obj_ok (i \<in> M) (i \<in> set ?c) (p_heap p ! i)" if i: "i < length (p_heap p)" for i
  proof (cases "i \<in> set (p_chain p) \<and> i \<notin> set ?c")
    case True
    then have "i \<in> set (takeWhile (delivery_done p) (p_chain p))"
      by (metis Un_iff set_append takeWhile_dropWhile_id)
    then have "delivery (p_heap p ! i) = Some True"
      by (auto dest: set_takeWhileD simp: delivery_done_def)
    then show ?thesis using core_objD [OF assms i] True by (simp add: obj_ok_def)
  next
    case False
    then have "i \<in> set (p_chain p) \<longleftrightarrow> i \<in> set ?c" by (auto dest: set_dropWhileD)
    then show ?thesis using core_objD [OF assms i] by simp
  qed
  have len: "int (length (takeWhile (delivery_done p) (p_chain p))) + int (length ?c) = int (length (p_chain p))"
    using length_takeWhile_dropWhile [of "delivery_done p" "p_chain p"] by linarith
  have chain: "p_chain (pruneResponseDeliveriesLocked p) = ?c"
    "p_slots (pruneResponseDeliveriesLocked p) = p_slots p - int (length (takeWhile (delivery_done p) (p_chain p)))"
    by (simp_all add: pruneResponseDeliveriesLocked_def)
  have "set ?c \<subseteq> set (p_chain p)" by (auto dest: set_dropWhileD)
  then show ?thesis
    using assms obj len by (auto simp: core_inv_def chain distinct_dropWhile)
qed

text \<open>The end of a request that got its response.\<close>

lemma core_drop:
  assumes "core_inv M p" "responded (p_heap p ! i)"
  shows "core_inv (M - {i}) p"
proof -
  have "obj_ok (j \<in> M - {i}) (j \<in> set (p_chain p)) (p_heap p ! j)" if "j < length (p_heap p)" for j
    using core_objD [OF assms(1) that] assms(2) by (cases "j = i") (auto simp: obj_ok_def)
  then show ?thesis using assms(1) by (auto simp: core_inv_def)
qed

lemma core_finish:
  assumes "core_inv M p" "responded (p_heap p ! i)" "i < length (p_heap p)"
  shows "core_inv M (finishResponseDelivery i p)"
proof (cases "delivery (p_heap p ! i)")
  case (Some d)
  let ?q = "upd_pending i (delivery_update (\<lambda>_. Some True)) p"
  have obj: "obj_ok (j \<in> M) (j \<in> set (p_chain p)) (p_heap ?q ! j)" if "j < length (p_heap p)" for j
    using core_objD [OF assms(1) that] assms(2,3) that by (cases "j = i") (auto simp: obj_ok_def)
  have "outcome (p_heap p ! i) \<noteq> None"
    using core_objD [OF assms(1,3)] assms(2) by (auto simp: obj_ok_def)
  then have "held ?q = held p" using assms(3) by (auto simp: held_def nth_list_update split: if_splits)
  then have "core_inv M ?q" using assms(1) obj by (simp add: core_inv_def)
  then show ?thesis by (simp add: finishResponseDelivery_def Some core_prune)
qed (use assms in \<open>simp add: finishResponseDelivery_def\<close>)

text \<open>The end of a request without a response.\<close>

lemma upd_swap: "x\<lparr>delivery := a, outcome := b\<rparr> = x\<lparr>outcome := b, delivery := a\<rparr>"
  by (cases x) simp

lemma complete_discard:
  "i < length (p_heap p) \<Longrightarrow>
    complete i r (discardResponseDelivery i p) = discardResponseDelivery i (complete i r p)"
  by (auto simp: complete_def discardResponseDelivery_def upd_swap split: option.splits bool.splits)

lemma core_retire:
  assumes "core_inv M p" "i \<in> M" "\<not> responded (p_heap p ! i)"
  shows "core_inv (M - {i}) (discardResponseDelivery i (complete i (e, Some err) p))"
proof -
  let ?x = "p_heap p ! i"
  have i: "i < length (p_heap p)" using core_bound [OF assms(1,2)] .
  have ok: "obj_ok True (i \<in> set (p_chain p)) ?x" using core_objD [OF assms(1) i] assms(2) by simp
  then have none: "outcome ?x = None" "delivery ?x \<noteq> Some True" "i \<notin> set (p_chain p)"
    using assms(3) by (auto simp: obj_ok_def)
  define x' where "x' = (if delivery ?x = None then ?x\<lparr>outcome := Some (e, Some err)\<rparr>
    else ?x\<lparr>outcome := Some (e, Some err), delivery := Some True\<rparr>)"
  let ?q = "discardResponseDelivery i (complete i (e, Some err) p)"
  have q: "p_heap ?q = (p_heap p)[i := x']" "p_chain ?q = p_chain p" "p_limit ?q = p_limit p"
    "p_slots ?q = (if delivery ?x = Some False then p_slots p - 1 else p_slots p)"
    using none i by (auto simp: discardResponseDelivery_def complete_def x'_def split: option.splits bool.splits)
  have held: "held ?q = held p - {i}"
    using i by (auto simp: held_def q nth_list_update x'_def split: if_splits)
  have mem: "i \<in> held p \<longleftrightarrow> delivery ?x = Some False" using i none by (simp add: held_def)
  have card: "int (card (held ?q)) = int (card (held p)) - (if delivery ?x = Some False then 1 else 0)"
  proof (cases "i \<in> held p")
    case True
    then have "card (held p) = Suc (card (held ?q))" unfolding held by (metis card.remove finite_held)
    with True mem show ?thesis by simp
  next
    case False
    with mem show ?thesis by (simp add: held)
  qed
  have "obj_ok (j \<in> M - {i}) (j \<in> set (p_chain p)) (p_heap ?q ! j)" if "j < length (p_heap p)" for j
  proof (cases "j = i")
    case True
    then show ?thesis using i none(3) assms(3) by (auto simp: q x'_def obj_ok_def)
  next
    case False
    then show ?thesis using core_objD [OF assms(1) that] by (simp add: q)
  qed
  then show ?thesis using assms(1) card by (auto simp: core_inv_def q)
qed

section \<open>Preservation\<close>

lemma upd_other [simp]: "p_map (complete i r p) = p_map p" "p_cause (complete i r p) = p_cause p"
  "p_limit (complete i r p) = p_limit p" "p_chain (complete i r p) = p_chain p" "p_slots (complete i r p) = p_slots p"
  "length (p_heap (complete i r p)) = length (p_heap p)"
  by (simp_all add: complete_def)

lemma discard_other [simp]: "p_map (discardResponseDelivery i p) = p_map p"
  "p_cause (discardResponseDelivery i p) = p_cause p" "p_limit (discardResponseDelivery i p) = p_limit p"
  "p_chain (discardResponseDelivery i p) = p_chain p"
  "length (p_heap (discardResponseDelivery i p)) = length (p_heap p)"
  by (simp_all add: discardResponseDelivery_def split: option.splits bool.splits)

lemma finish_other [simp]: "p_map (finishResponseDelivery i p) = p_map p"
  "p_cause (finishResponseDelivery i p) = p_cause p" "p_limit (finishResponseDelivery i p) = p_limit p"
  "length (p_heap (finishResponseDelivery i p)) = length (p_heap p)"
  by (simp_all add: finishResponseDelivery_def split: option.splits)

lemma core_map [simp]: "core_inv M (p\<lparr>p_map := m\<rparr>) = core_inv M p" "core_inv M (p\<lparr>p_cause := cs\<rparr>) = core_inv M p"
  by (simp_all add: core_inv_def held_def)

lemma discard_map: "discardResponseDelivery i (p\<lparr>p_map := m\<rparr>) = (discardResponseDelivery i p)\<lparr>p_map := m\<rparr>"
  by (simp add: discardResponseDelivery_def split: option.splits bool.splits)

lemma map_delete_mem:
  assumes "distinct (map fst m)" "distinct (map snd m)" "map_of m k = Some i"
  shows "snd ` set (map_delete k m) = snd ` set m - {i}"
proof -
  have k: "(k, i) \<in> set m" using assms(3) by (simp add: map_of_SomeD)
  have same: "k' = k \<longleftrightarrow> j = i" if "(k', j) \<in> set m" for k' j
    using assms(1,2) inj_onD [of fst "set m" "(k', j)" "(k, i)"] inj_onD [of snd "set m" "(k', j)" "(k, i)"] that k
    by (auto simp: distinct_map)
  have "set (map_delete k m) = {x \<in> set m. snd x \<noteq> i}"
    using same by (fastforce simp: map_delete_def)
  then show ?thesis by auto
qed

lemma map_delete_distinct: "distinct (map fst m) \<Longrightarrow> distinct (map fst (map_delete k m))"
  "distinct (map snd m) \<Longrightarrow> distinct (map snd (map_delete k m))" "length (map_delete k m) \<le> length m"
  by (simp_all add: map_delete_def distinct_map_filter)

lemma prune_pend: "pend_inv p \<Longrightarrow> pend_inv (pruneResponseDeliveriesLocked p)"
  by (simp add: pend_inv_def core_prune)

lemma map_of_bound: "pend_inv p \<Longrightarrow> map_of (p_map p) k = Some i \<Longrightarrow> i < length (p_heap p) \<and> i \<in> snd ` set (p_map p)"
  by (force simp: pend_inv_def dest: map_of_SomeD core_bound)

lemma abandon_pend:
  assumes inv: "pend_inv p" and ab: "abandonPending k i cause p = (ok, q)"
  shows "pend_inv q"
proof (cases ok)
  case True
  then have k: "map_of (p_map p) k = Some i" and r: "\<not> responded (p_heap p ! i)"
    and q: "q = complete i (no_envelope, Some cause) (discardResponseDelivery i (p\<lparr>p_map := map_delete k (p_map p)\<rparr>))"
    using ab by (auto simp: abandonPending_def split: if_splits)
  have i: "i < length (p_heap p)" "i \<in> snd ` set (p_map p)" using map_of_bound [OF inv k] by auto
  let ?m = "map_delete k (p_map p)"
  have d: "distinct (map fst (p_map p))" "distinct (map snd (p_map p))" using inv by (auto simp: pend_inv_def)
  have q': "q = discardResponseDelivery i (complete i (no_envelope, Some cause) (p\<lparr>p_map := ?m\<rparr>))"
    unfolding q using i by (intro complete_discard) simp
  have "core_inv (snd ` set (p_map p) - {i}) (discardResponseDelivery i (complete i (no_envelope, Some cause) (p\<lparr>p_map := ?m\<rparr>)))"
    using inv i r by (intro core_retire) (auto simp: pend_inv_def)
  then show ?thesis
    using inv map_delete_mem [OF d k] map_delete_distinct(1,2) [where k = k] k
      order_trans [OF map_delete_distinct(3) [of k "p_map p"]]
    unfolding q' by (auto simp: pend_inv_def)
next
  case False
  with ab inv show ?thesis by (auto simp: abandonPending_def split: if_splits)
qed

lemma detach_pend:
  assumes inv: "pend_inv p" and r: "responded (p_heap p ! i)"
  shows "pend_inv (detachPending k i p)"
proof (cases "map_of (p_map p) k = Some i")
  case True
  have d: "distinct (map fst (p_map p))" "distinct (map snd (p_map p))" using inv by (auto simp: pend_inv_def)
  have "core_inv (snd ` set (p_map p) - {i}) p" using inv r by (intro core_drop) (simp_all add: pend_inv_def)
  then show ?thesis
    using True inv map_delete_mem [OF d True] map_delete_distinct(1,2) [where k = k]
      order_trans [OF map_delete_distinct(3) [of k "p_map p"]]
    by (auto simp: pend_inv_def detachPending_def)
qed (use inv in \<open>simp add: detachPending_def\<close>)

text \<open>The request with index \<open>i\<close> is registered under the key \<open>k\<close> only.\<close>

definition owns :: "string \<Rightarrow> nat \<Rightarrow> pendings \<Rightarrow> bool" where
  "owns k i p \<longleftrightarrow> i < length (p_heap p) \<and> (\<forall>k'. (k', i) \<in> set (p_map p) \<longrightarrow> k' = k)"

lemma owns_in: "pend_inv p \<Longrightarrow> owns k i p \<Longrightarrow> i \<in> snd ` set (p_map p) \<longleftrightarrow> map_of (p_map p) k = Some i"
  by (force simp: owns_def pend_inv_def dest!: map_of_SomeD)

lemma owned_obj:
  "pend_inv p \<Longrightarrow> owns k i p \<Longrightarrow> obj_ok (map_of (p_map p) k = Some i) (i \<in> set (p_chain p)) (p_heap p ! i)"
  using owns_in [of p k i] core_objD [of "snd ` set (p_map p)" p i] by (simp add: pend_inv_def owns_def)

lemma release_pend:
  assumes inv: "pend_inv p" and own: "owns k i p"
  shows "pend_inv (release_pending k i cause p)"
proof (cases "abandonPending k i cause p")
  case (Pair ok q)
  consider "ok" | "\<not> ok" "responded (p_heap p ! i)" | "\<not> ok" "\<not> responded (p_heap p ! i)" by blast
  then show ?thesis
  proof cases
    case 1
    with Pair show ?thesis using abandon_pend [OF inv Pair] by (simp add: release_pending_def)
  next
    case 2
    then have q: "q = p" using Pair by (auto simp: abandonPending_def split: if_splits)
    have heap: "p_heap (detachPending k i p) = p_heap p" by (simp add: detachPending_def)
    have "pend_inv (detachPending k i p)" by (rule detach_pend [OF inv 2(2)])
    then have "pend_inv (finishResponseDelivery i (detachPending k i p))"
      using 2 own by (auto simp: pend_inv_def owns_def heap intro!: core_finish)
    with 2 Pair q show ?thesis by (simp add: release_pending_def finishPending_def)
  next
    case 3
    then have q: "q = p" and c: "map_of (p_map p) k \<noteq> Some i"
      using Pair by (auto simp: abandonPending_def split: if_splits)
    have "delivery (p_heap p ! i) \<noteq> Some False"
      using owned_obj [OF inv own] c 3(2) by (auto simp: obj_ok_def)
    then have "discardResponseDelivery i p = p"
      by (auto simp: discardResponseDelivery_def split: option.splits bool.splits)
    with 3 Pair q c inv show ?thesis by (simp add: release_pending_def finishPending_def detachPending_def)
  qed
qed

lemma core_append:
  assumes "core_inv M p" "gated \<longrightarrow> p_slots p < int (p_limit p)"
  shows "core_inv (insert (length (p_heap p)) M)
    (p\<lparr>p_heap := p_heap p @ [\<lparr>outcome = None, delivery = (if gated then Some False else None), admitted = False, responded = False\<rparr>],
       p_slots := (if gated then p_slots p + 1 else p_slots p)\<rparr>)" (is "core_inv _ ?q")
proof -
  let ?n = "length (p_heap p)"
  have chain: "set (p_chain p) \<subseteq> {..<?n}" using assms(1) by (simp add: core_inv_def)
  have "held ?q = (if gated then insert ?n (held p) else held p)"
    by (auto simp: held_def nth_append less_Suc_eq split: if_splits)
  moreover have "?n \<notin> held p" by (simp add: held_def)
  ultimately have card: "int (card (held ?q)) = int (card (held p)) + (if gated then 1 else 0)" by simp
  have "obj_ok (i \<in> insert ?n M) (i \<in> set (p_chain p)) (p_heap ?q ! i)" if "i < Suc ?n" for i
  proof (cases "i = ?n")
    case True
    then show ?thesis using chain by (auto simp: obj_ok_def)
  next
    case False
    with that have "i < ?n" by simp
    then show ?thesis using core_objD [OF assms(1), of i] by (simp add: nth_append)
  qed
  then show ?thesis using assms card by (auto simp: core_inv_def)
qed

lemma map_set_fresh: "k \<notin> fst ` set m \<Longrightarrow> map_set k v m = m @ [(k, v)]"
  by (force simp: map_set_def filter_id_conv)

lemma add_pend:
  assumes inv: "pend_inv p" and fresh: "k \<notin> fst ` set (p_map p)" and add: "addPending k gated p = (r, q)"
  shows "pend_inv q"
proof -
  define p1 where "p1 = (if gated then pruneResponseDeliveriesLocked p else p)"
  have p1: "pend_inv p1" "p_map p1 = p_map p" using inv prune_pend by (auto simp: p1_def)
  show ?thesis
  proof (cases r)
    case (Inl e)
    with add p1 show ?thesis by (auto simp: addPending_def Let_def p1_def [symmetric] split: if_splits)
  next
    case (Inr i)
    let ?x = "\<lparr>outcome = None, delivery = (if gated then Some False else None), admitted = False, responded = False\<rparr>"
    have c: "p_cause p1 = None" "length (p_map p1) < p_limit p1" "gated \<longrightarrow> p_slots p1 < int (p_limit p1)"
      and q: "q = p1\<lparr>p_heap := p_heap p1 @ [?x], p_slots := (if gated then p_slots p1 + 1 else p_slots p1),
                p_map := p_map p1 @ [(k, length (p_heap p1))]\<rparr>"
      using add Inr fresh by (auto simp: addPending_def Let_def p1_def [symmetric] p1(2) map_set_fresh split: if_splits)
    have "core_inv (insert (length (p_heap p1)) (snd ` set (p_map p1)))
        (p1\<lparr>p_heap := p_heap p1 @ [?x], p_slots := (if gated then p_slots p1 + 1 else p_slots p1)\<rparr>)"
      using p1(1) c(3) by (intro core_append) (simp_all add: pend_inv_def)
    then have "core_inv (snd ` set (p_map q)) q"
      using core_map(1) [where p = "p1\<lparr>p_heap := p_heap p1 @ [?x], p_slots := (if gated then p_slots p1 + 1 else p_slots p1)\<rparr>"]
      by (simp add: q)
    moreover have "\<forall>j \<in> snd ` set (p_map p1). j < length (p_heap p1)"
      using p1(1) by (auto simp: pend_inv_def dest: core_bound)
    ultimately show ?thesis using p1 c fresh by (auto simp: pend_inv_def q)
  qed
qed

lemma core_admit:
  assumes "core_inv M p"
  shows "core_inv M (upd_pending i (admitted_update (\<lambda>_. True)) p)"
proof -
  let ?q = "upd_pending i (admitted_update (\<lambda>_. True)) p"
  have "obj_ok (j \<in> M) (j \<in> set (p_chain p)) (p_heap ?q ! j)" if "j < length (p_heap p)" for j
    using core_objD [OF assms that] that by (cases "j = i") (auto simp: obj_ok_def)
  moreover have "held ?q = held p"
  proof -
    have "outcome (p_heap ?q ! j) = outcome (p_heap p ! j) \<and> delivery (p_heap ?q ! j) = delivery (p_heap p ! j)"
      if "j < length (p_heap p)" for j
      using that by (cases "j = i") auto
    then show ?thesis by (auto simp: held_def)
  qed
  ultimately show ?thesis using assms by (simp add: core_inv_def)
qed

lemma admit_pend: "pend_inv p \<Longrightarrow> admitPending k i p = (r, q) \<Longrightarrow> pend_inv q"
  by (auto simp: admitPending_def pend_inv_def split: if_splits intro: core_admit)

lemma deliver_pend:
  assumes inv: "pend_inv p"
  shows "pend_inv (deliver_response k m w p)"
proof (cases "map_of (p_map p) k")
  case (Some i)
  let ?x = "p_heap p ! i"
  have i: "i < length (p_heap p)" "i \<in> snd ` set (p_map p)" using map_of_bound [OF inv Some] by auto
  have ok: "obj_ok True (i \<in> set (p_chain p)) ?x" using inv i core_objD [of "snd ` set (p_map p)" p i] by (simp add: pend_inv_def)
  show ?thesis
  proof (cases "admitted ?x \<and> \<not> responded ?x")
    case True
    then have none: "outcome ?x = None" "delivery ?x \<noteq> Some True" "i \<notin> set (p_chain p)"
      using ok by (auto simp: obj_ok_def)
    let ?M = "snd ` set (p_map p)"
    let ?p1 = "upd_pending i (responded_update (\<lambda>_. True)) p"
    let ?env = "(\<lparr>msg = m, notificationWatermark = w, env_delivery = (if delivery ?x \<noteq> None then Some i else None)\<rparr>, None :: go_error option)"
    define p0 where "p0 = (if delivery ?x \<noteq> None then pruneResponseDeliveriesLocked p else p)"
    define x' where "x' = ?x\<lparr>responded := True, outcome := Some ?env\<rparr>"
    have "delivery_done ?p1 j = delivery_done p j" for j
      using i by (cases "j = i") (simp_all add: delivery_done_def)
    then have same: "delivery_done ?p1 = delivery_done p" by blast
    have p0: "core_inv ?M p0" "p_heap p0 = p_heap p" "p_map p0 = p_map p" "p_limit p0 = p_limit p" "p_cause p0 = p_cause p"
      using inv core_prune by (auto simp: p0_def pend_inv_def)
    have ni: "i \<notin> set (p_chain p0)"
      using none(3) by (auto simp: p0_def pruneResponseDeliveriesLocked_def dest: set_dropWhileD)
    have q: "deliver_response k m w p = p0\<lparr>p_heap := (p_heap p)[i := x'],
        p_chain := (if delivery ?x \<noteq> None then i # p_chain p0 else p_chain p0)\<rparr>" (is "_ = ?q")
      using True none(1) i(1) Some
      by (intro pendings.equality) (simp_all add: deliver_response_def Let_def complete_def pruneResponseDeliveriesLocked_def same p0_def x'_def)
    have held: "held ?q = held p0 - {i}"
      using i p0(2) by (auto simp: held_def x'_def nth_list_update split: if_splits)
    have mem: "i \<in> held p0 \<longleftrightarrow> delivery ?x \<noteq> None"
      using i none p0(2) by (cases "delivery ?x") (auto simp: held_def)
    have card: "int (card (held p0)) = int (card (held ?q)) + (if delivery ?x \<noteq> None then 1 else 0)"
    proof (cases "i \<in> held p0")
      case True
      then have "card (held p0) = Suc (card (held ?q))" unfolding held by (metis card.remove finite_held)
      with True mem show ?thesis by simp
    next
      case False
      with mem have "held ?q = held p0" using held by blast
      with False mem show ?thesis by simp
    qed
    have "obj_ok (j \<in> ?M) (j \<in> set (p_chain ?q)) (p_heap ?q ! j)" if "j < length (p_heap p)" for j
    proof (cases "j = i")
      case True
      then show ?thesis using i ni none \<open>admitted ?x \<and> \<not> responded ?x\<close> by (auto simp: x'_def obj_ok_def)
    next
      case False
      then show ?thesis using core_objD [OF p0(1), of j] that p0(2) by simp
    qed
    then have "core_inv ?M ?q" using p0 card ni i by (auto simp: core_inv_def)
    then show ?thesis unfolding q using inv p0 by (simp add: pend_inv_def)
  next
    case False
    then show ?thesis using inv Some by (auto simp: deliver_response_def)
  qed
qed (use inv in \<open>simp add: deliver_response_def\<close>)

lemma shutdown_fold:
  "core_inv (set is) p \<Longrightarrow> distinct is \<Longrightarrow> core_inv {} (fold (shutdown_one cause) is p)"
proof (induction "is" arbitrary: p)
  case (Cons i "is")
  have i: "i < length (p_heap p)" using core_bound [OF Cons.prems(1)] by simp
  have "core_inv (insert i (set is) - {i}) (shutdown_one cause i p)"
  proof (cases "responded (p_heap p ! i)")
    case True
    have "responded (p_heap (finishResponseDelivery i p) ! i)"
      using True i by (auto simp: finishResponseDelivery_def split: option.splits)
    then have "core_inv (insert i (set is) - {i}) (finishResponseDelivery i p)"
      using core_finish [OF Cons.prems(1) True i] by (intro core_drop) simp_all
    with True show ?thesis by (simp add: shutdown_one_def)
  next
    case False
    then show ?thesis using core_retire [OF Cons.prems(1) _ False] by (simp add: shutdown_one_def)
  qed
  moreover have "insert i (set is) - {i} = set is" using Cons.prems(2) by auto
  ultimately show ?case using Cons.IH Cons.prems(2) by simp
qed simp

lemma shutdown_one_other [simp]: "p_map (shutdown_one e i p) = p_map p" "p_cause (shutdown_one e i p) = p_cause p"
  "p_limit (shutdown_one e i p) = p_limit p" "length (p_heap (shutdown_one e i p)) = length (p_heap p)"
  by (simp_all add: shutdown_one_def)

lemma shutdown_fold_other [simp]: "p_map (fold (shutdown_one e) is p) = p_map p"
  "p_cause (fold (shutdown_one e) is p) = p_cause p" "p_limit (fold (shutdown_one e) is p) = p_limit p"
  "length (p_heap (fold (shutdown_one e) is p)) = length (p_heap p)"
  by (induction "is" arbitrary: p) simp_all

lemma shutdown_pend:
  assumes inv: "pend_inv p"
  shows "pend_inv (shutdown_pendings cause p)"
proof (cases "p_cause p")
  case None
  let ?p = "p\<lparr>p_cause := Some cause, p_map := []\<rparr>"
  have "core_inv (set (map snd (p_map p))) ?p" using inv by (simp add: pend_inv_def)
  from shutdown_fold [OF this] inv have "core_inv {} (fold (shutdown_one cause) (map snd (p_map p)) ?p)"
    by (simp add: pend_inv_def)
  then show ?thesis using None by (simp add: shutdown_pendings_def pend_inv_def)
qed (use inv in \<open>simp add: shutdown_pendings_def\<close>)

section \<open>The table as a step relation\<close>

text \<open>
  Every operation in any order. A request is registered under a key that is not in use: the
  connection makes keys from a counter. Releasing and detaching are the operations of the
  request that owns the key; it detaches only while it resolves its response.
\<close>

inductive p_step :: "pendings \<Rightarrow> pendings \<Rightarrow> bool" where
  add: "k \<notin> fst ` set (p_map p) \<Longrightarrow> addPending k gated p = (r, q) \<Longrightarrow> p_step p q"
| admit: "admitPending k i p = (r, q) \<Longrightarrow> p_step p q"
| respond: "p_step p (deliver_response k m w p)"
| release: "owns k i p \<Longrightarrow> p_step p (release_pending k i cause p)"
| detach: "owns k i p \<Longrightarrow> responded (p_heap p ! i) \<Longrightarrow> p_step p (detachPending k i p)"
| barrier: "responseDeliveryBarrier p = (d, q) \<Longrightarrow> p_step p q"
| close: "p_step p (shutdown_pendings cause p)"

lemma p_step_inv: "p_step p q \<Longrightarrow> pend_inv p \<Longrightarrow> pend_inv q"
  by (induction rule: p_step.induct)
    (auto intro: add_pend admit_pend deliver_pend release_pend detach_pend shutdown_pend
      prune_pend simp: responseDeliveryBarrier_def Let_def)

interpretation table: invariant_system "\<lambda>p. p = new_pendings limit" p_step pend_inv for limit
  by unfold_locales (auto intro: new_pendings_inv p_step_inv)

section \<open>What the invariant gives\<close>

lemma slots_bounds: "pend_inv p \<Longrightarrow> 0 \<le> p_slots p \<and> p_slots p \<le> int (p_limit p) \<and> length (p_map p) \<le> p_limit p"
  by (simp add: pend_inv_def core_inv_def)

lemma closed_outcome: "pend_inv p \<Longrightarrow> p_cause p \<noteq> None \<Longrightarrow> i < length (p_heap p) \<Longrightarrow> outcome (p_heap p ! i) \<noteq> None"
  using core_objD [of "snd ` set (p_map p)" p i] by (auto simp: pend_inv_def obj_ok_def)

text \<open>An outcome never changes.\<close>

definition outcomes_kept :: "pendings \<Rightarrow> pendings \<Rightarrow> bool" where
  "outcomes_kept p q \<longleftrightarrow> length (p_heap p) \<le> length (p_heap q) \<and>
     (\<forall>i < length (p_heap p). \<forall>r. outcome (p_heap p ! i) = Some r \<longrightarrow> outcome (p_heap q ! i) = Some r)"

lemma kept_refl [simp]: "outcomes_kept p p"
  by (simp add: outcomes_kept_def)

lemma kept_trans: "outcomes_kept p q \<Longrightarrow> outcomes_kept q r \<Longrightarrow> outcomes_kept p r"
  by (simp add: outcomes_kept_def)

lemma kept_heap: "p_heap q = p_heap p \<Longrightarrow> outcomes_kept p q"
  by (simp add: outcomes_kept_def)

lemma kept_upd: "(outcome (p_heap p ! i) = None \<or> outcome x = outcome (p_heap p ! i)) \<Longrightarrow>
    p_heap q = (p_heap p)[i := x] \<Longrightarrow> outcomes_kept p q"
  unfolding outcomes_kept_def by (metis length_list_update nth_list_update_eq nth_list_update_neq option.distinct(1) order_refl)

lemma kept_complete [simp]: "outcomes_kept p (complete i r p)"
  by (rule kept_upd) (auto simp: complete_def)

lemma kept_finish [simp]: "outcomes_kept p (finishResponseDelivery i p)"
  by (cases "delivery (p_heap p ! i)")
    (auto simp: finishResponseDelivery_def intro!: kept_upd [where i = i and x = "(p_heap p ! i)\<lparr>delivery := Some True\<rparr>"])

lemma kept_discard [simp]: "outcomes_kept p (discardResponseDelivery i p)"
  by (auto simp: discardResponseDelivery_def split: option.splits bool.splits
      intro!: kept_upd [where i = i and x = "(p_heap p ! i)\<lparr>delivery := Some True\<rparr>"])

lemma kept_thru [intro]:
  "outcomes_kept p q \<Longrightarrow> outcomes_kept p (complete i r q)"
  "outcomes_kept p q \<Longrightarrow> outcomes_kept p (finishResponseDelivery i q)"
  "outcomes_kept p q \<Longrightarrow> outcomes_kept p (discardResponseDelivery i q)"
  "outcomes_kept p (q\<lparr>p_map := m\<rparr>) = outcomes_kept p q"
  using kept_trans kept_complete kept_finish kept_discard by (blast, blast, blast, simp add: outcomes_kept_def)

lemma kept_abandon: "abandonPending k i cause p = (ok, q) \<Longrightarrow> outcomes_kept p q"
  using kept_thru(1) [OF kept_thru(3) [OF kept_heap [of "p\<lparr>p_map := map_delete k (p_map p)\<rparr>" p]]]
  by (auto simp: abandonPending_def split: if_splits)

lemma kept_detach [simp]: "outcomes_kept p (detachPending k i p)"
  by (rule kept_heap) (simp add: detachPending_def)

lemma kept_finishPending [simp]: "outcomes_kept p (finishPending k i p)"
  by (auto simp: finishPending_def Let_def)

lemma kept_release [simp]: "outcomes_kept p (release_pending k i cause p)"
  by (auto simp: release_pending_def split: prod.splits bool.splits
      dest!: kept_abandon intro: kept_trans [OF _ kept_finishPending])

lemma kept_shutdown_one: "outcomes_kept p (shutdown_one e i p)"
  by (auto simp: shutdown_one_def)

lemma kept_shutdown [simp]: "outcomes_kept p (shutdown_pendings e p)"
proof -
  have "outcomes_kept q (fold (shutdown_one e) is q)" for q "is"
    by (induction "is" arbitrary: q) (auto intro: kept_trans [OF kept_shutdown_one])
  moreover have "outcomes_kept p (p\<lparr>p_cause := Some e, p_map := []\<rparr>)" by (rule kept_heap) simp
  ultimately show ?thesis by (auto simp: shutdown_pendings_def intro: kept_trans)
qed

lemma kept_add: "addPending k gated p = (r, q) \<Longrightarrow> outcomes_kept p q"
  by (auto simp: addPending_def Let_def outcomes_kept_def nth_append split: if_splits)

lemma kept_admit: "admitPending k i p = (r, q) \<Longrightarrow> outcomes_kept p q"
  by (auto simp: admitPending_def split: if_splits
      intro!: kept_upd [where i = i and x = "(p_heap p ! i)\<lparr>admitted := True\<rparr>"])

lemma kept_deliver [simp]: "outcomes_kept p (deliver_response k m w p)"
proof (cases "map_of (p_map p) k")
  case (Some i)
  let ?x = "(p_heap p ! i)\<lparr>responded := True\<rparr>"
  have "outcomes_kept p (upd_pending i (responded_update (\<lambda>_. True)) p)"
    by (rule kept_upd [where i = i and x = ?x]) auto
  then have "outcomes_kept p q" if "p_heap q = (p_heap p)[i := ?x]" for q
    using that by (simp add: outcomes_kept_def)
  then show ?thesis
    by (auto simp: deliver_response_def Some Let_def intro!: kept_trans [OF _ kept_complete])
qed (simp add: deliver_response_def)

lemma p_step_kept: "p_step p q \<Longrightarrow> outcomes_kept p q"
  by (induction rule: p_step.induct)
    (auto intro: kept_add kept_admit kept_heap simp: responseDeliveryBarrier_def Let_def)

lemma p_steps_kept: "p_step\<^sup>*\<^sup>* p q \<Longrightarrow> outcomes_kept p q"
  by (induction rule: rtranclp_induct) (auto intro: kept_trans p_step_kept)

lemma reach_first: "p_step (new_pendings limit) q \<Longrightarrow> reach (\<lambda>p. p = new_pendings limit) p_step q"
  by (rule reach_step [OF reach_init]) simp_all

text \<open>Two small reachable tables: one registered request, gated or not.\<close>

lemma reach_one_pending:
  "reach (\<lambda>p. p = new_pendings 1) p_step (snd (addPending ''1'' gated (new_pendings 1)))"
  by (rule reach_first, rule p_step.add [where k = "''1''" and gated = gated
      and r = "fst (addPending ''1'' gated (new_pendings 1))"]) (simp_all add: new_pendings_def)

section \<open>Properties\<close>

text \<open>C5: In every reachable table the number of registered requests and the number of tokens
  in the delivery slots stay within \<open>MaxPendingRequests\<close>; the tokens are exactly the deliveries
  in the chain and those of waiting gated requests, so a receive from the slots never blocks.\<close>

theorem pending_bounded:
  assumes "reach (\<lambda>p. p = new_pendings limit) p_step p"
  shows "length (p_map p) \<le> p_limit p \<and> 0 \<le> p_slots p \<and> p_slots p \<le> int (p_limit p) \<and>
    p_slots p = int (length (p_chain p)) + int (card (held p))"
  using table.reach_inv [OF assms] slots_bounds [of p] unfolding pend_inv_def core_inv_def by blast

lemma pending_bounded_witness:
  "length (p_map (snd (addPending ''1'' True (new_pendings 1)))) \<le> 1 \<and>
   p_slots (snd (addPending ''1'' True (new_pendings 1))) = 1"
proof -
  have "p_limit (snd (addPending ''1'' True (new_pendings 1))) = 1" by code_simp
  moreover have "p_slots (snd (addPending ''1'' True (new_pendings 1))) = 1" by code_simp
  ultimately show ?thesis using pending_bounded [OF reach_one_pending [of True]] by simp
qed

text \<open>C14: A request's outcome is set at most once: what any sequence of operations makes of the
  table, an outcome that is set is never changed.\<close>

theorem pending_outcome_stable:
  assumes "p_step\<^sup>*\<^sup>* p q" "i < length (p_heap p)" "outcome (p_heap p ! i) = Some r"
  shows "outcome (p_heap q ! i) = Some r"
  using p_steps_kept [OF assms(1)] assms(2,3) unfolding outcomes_kept_def by blast

theorem pending_outcome_stable_witness:
  "outcome (p_heap (shutdown_pendings ErrPeerClosed (shutdown_pendings ErrConnectionClosed
     (snd (addPending ''1'' False (new_pendings 1))))) ! 0) = Some (no_envelope, Some ErrConnectionClosed)"
proof -
  let ?p = "shutdown_pendings ErrConnectionClosed (snd (addPending ''1'' False (new_pendings 1)))"
  have "p_step\<^sup>*\<^sup>* ?p (shutdown_pendings ErrPeerClosed ?p)" by (intro r_into_rtranclp p_step.close)
  then show ?thesis by (rule pending_outcome_stable) code_simp+
qed

text \<open>C15: Once the connection is closed no request is left waiting: every request that was ever
  registered has an outcome, and the table is empty.\<close>

theorem closed_leaves_nobody_waiting:
  assumes "reach (\<lambda>p. p = new_pendings limit) p_step p" "p_cause p \<noteq> None"
  shows "p_map p = [] \<and> (\<forall>i < length (p_heap p). outcome (p_heap p ! i) \<noteq> None)"
  using table.reach_inv [OF assms(1)] closed_outcome [of p] assms(2) unfolding pend_inv_def by blast

lemma closed_leaves_nobody_waiting_witness:
  "outcome (p_heap (shutdown_pendings ErrPeerClosed (snd (addPending ''1'' True (new_pendings 1)))) ! 0) \<noteq> None"
proof -
  let ?q = "snd (addPending ''1'' True (new_pendings 1))"
  have r: "reach (\<lambda>p. p = new_pendings 1) p_step (shutdown_pendings ErrPeerClosed ?q)"
    by (rule reach_step [OF reach_one_pending p_step.close])
  have "p_cause (shutdown_pendings ErrPeerClosed ?q) \<noteq> None" by code_simp
  from closed_leaves_nobody_waiting [OF r this] have
    "\<forall>i < length (p_heap (shutdown_pendings ErrPeerClosed ?q)). outcome (p_heap (shutdown_pendings ErrPeerClosed ?q) ! i) \<noteq> None" ..
  moreover have "0 < length (p_heap (shutdown_pendings ErrPeerClosed ?q))" by code_simp
  ultimately show ?thesis by blast
qed

text \<open>C16: A response ends a request exactly when it is registered under the response's key, its
  writing was admitted, and no response came before; it then gets this response, and no other
  request is affected.\<close>

theorem response_matches_request:
  assumes "reach (\<lambda>p. p = new_pendings limit) p_step p" "i < length (p_heap p)"
  shows "outcome (p_heap (deliver_response k m w p) ! i) =
    (if map_of (p_map p) k = Some i \<and> admitted (p_heap p ! i) \<and> \<not> responded (p_heap p ! i)
     then Some (\<lparr>msg = m, notificationWatermark = w,
                 env_delivery = (if delivery (p_heap p ! i) = None then None else Some i)\<rparr>, None)
     else outcome (p_heap p ! i))"
proof (cases "map_of (p_map p) k")
  case (Some j)
  have inv: "pend_inv p" by (rule table.reach_inv [OF assms(1)])
  have j: "j < length (p_heap p)" "j \<in> snd ` set (p_map p)" using map_of_bound [OF inv Some] by auto
  have "obj_ok True (j \<in> set (p_chain p)) (p_heap p ! j)"
    using inv j core_objD [of "snd ` set (p_map p)" p j] by (simp add: pend_inv_def)
  then have "\<not> responded (p_heap p ! j) \<Longrightarrow> outcome (p_heap p ! j) = None" by (simp add: obj_ok_def)
  then show ?thesis using assms(2) j(1) Some
    by (cases "i = j") (auto simp: deliver_response_def Let_def complete_def)
qed (simp add: deliver_response_def)

lemma response_matches_request_witness:
  "outcome (p_heap (deliver_response ''1'' empty_message 0 (snd (addPending ''1'' False (new_pendings 1)))) ! 0) = None"
proof -
  let ?q = "snd (addPending ''1'' False (new_pendings 1))"
  have "0 < length (p_heap ?q)" by code_simp
  from response_matches_request [OF reach_one_pending this, of "''1''" empty_message 0] show ?thesis by code_simp
qed

end
