(* ===== verification/Prepared.thy ===== *)
theory Prepared
  imports Pending
begin

text \<open>
  The prepared request of \<open>prepared_request.go\<close>: its phases, the submission classification,
  \<open>ObserveResponse\<close>, \<open>Dispatch\<close>, \<open>beginWrite\<close>, \<open>completeWrite\<close>, \<open>failDispatch\<close>, \<open>Wait\<close>,
  \<open>resolveResponse\<close>, \<open>CancelRequest\<close> and \<open>Abandon\<close>, over the table of theory \<open>Pending\<close>. A
  function here is what one critical section does; the step relation \<open>r_step\<close> interleaves the
  critical sections of the goroutine that dispatches, the goroutine that writes, those that
  wait and abandon, and everything else that happens to the table.

  The Go type parameter is \<open>'a\<close>. The decoding of a result, the observer, the hook and the
  abort callback are the caller's: they are arguments. A \<open>sync.Once\<close> with a result is an
  option: it keeps the first value.
\<close>

section \<open>State\<close>

datatype phase =
    preparedRequestReady | preparedRequestDispatching | preparedRequestDispatched
  | preparedRequestDispatchFailed | preparedRequestAbandoned | preparedRequestFinished

record rpc_response =
  RequestID :: "string option"
  rpc_Result :: string
  rpc_Error :: "request_error option"

record 'a prepared_request =
  idKey :: string
  pid :: nat
  payload :: string
  phase :: phase
  submission :: submission
  observer :: "(rpc_response \<Rightarrow> go_error option) option"
  typedHook :: "('a \<Rightarrow> go_error option) option"
  dispatch_once :: "go_error option option"
  abandoned :: bool
  resolving :: bool
  resolved :: "('a \<times> go_error option) option"
  pendingRelease :: bool
  abort_once :: "go_error option option"
  cancel_once :: "go_error option option"

text \<open>A context: what \<open>Err\<close> and \<open>Cause\<close> return once it is done.\<close>

type_synonym ctx = "(go_error \<times> go_error) option"

definition ctx_cause :: "ctx \<Rightarrow> go_error option" where
  "ctx_cause c = map_option snd c"

section \<open>Preparation and observers\<close>

definition prepare :: "string \<Rightarrow> string \<Rightarrow> bool \<Rightarrow> ('a \<Rightarrow> go_error option) option \<Rightarrow> pendings \<Rightarrow>
    (go_error + 'a prepared_request) \<times> pendings" where
  "prepare key encoded gated hook p =
     (case addPending key gated p of
        (Inl e, q) \<Rightarrow> (Inl (the (lifecycleError ''prepare'' NotStarted (Some e))), q)
      | (Inr i, q) \<Rightarrow>
          (Inr \<lparr>idKey = key, pid = i, payload = encoded, phase = preparedRequestReady,
                submission = NotStarted, observer = None, typedHook = hook, dispatch_once = None,
                abandoned = False, resolving = False, resolved = None, pendingRelease = False,
                abort_once = None, cancel_once = None\<rparr>, q))"

definition ObserveResponse :: "(rpc_response \<Rightarrow> go_error option) option \<Rightarrow> 'a prepared_request \<Rightarrow>
    go_error option \<times> 'a prepared_request" where
  "ObserveResponse obs r =
     (case obs of
        None \<Rightarrow> (Some ErrResponseObserverRequired, r)
      | Some ob \<Rightarrow>
          if phase r \<noteq> preparedRequestReady then (Some ErrResponseObserverUnavailable, r)
          else if observer r \<noteq> None then (Some ErrResponseObserverRegistered, r)
          else (None, r\<lparr>observer := Some ob\<rparr>))"

definition submissionStateLocked :: "'a prepared_request \<Rightarrow> submission" where
  "submissionStateLocked r =
     (if submission r = Possible then Possible
      else if phase r = preparedRequestReady \<or> phase r = preparedRequestDispatching then Pending
      else NotStarted)"

section \<open>Dispatch\<close>

text \<open>The head of \<open>Dispatch\<close>: the phase moves, or the error that is returned.\<close>

definition Dispatch_begin :: "'a prepared_request \<Rightarrow> go_error option \<times> 'a prepared_request" where
  "Dispatch_begin r =
     (if phase r \<noteq> preparedRequestReady then
        (lifecycleError ''dispatch'' (submissionStateLocked r)
           (Some (if phase r = preparedRequestAbandoned then ErrRequestAbandoned
                  else ErrRequestAlreadyDispatched)), r)
      else (None, r\<lparr>phase := preparedRequestDispatching\<rparr>))"

definition beginWrite :: "ctx \<Rightarrow> 'a prepared_request \<Rightarrow> pendings \<Rightarrow>
    go_error option \<times> 'a prepared_request \<times> pendings" where
  "beginWrite c r p =
     (if phase r \<noteq> preparedRequestDispatching then
        (Some (if phase r = preparedRequestAbandoned then ErrRequestAbandoned
               else errPreparedWriteNotStarted), r, p)
      else if c \<noteq> None then (ctx_cause c, r, p)
      else (case admitPending (idKey r) (pid r) p of
              (Some e, q) \<Rightarrow> (Some e, r, q)
            | (None, q) \<Rightarrow> (None, r\<lparr>submission := Possible\<rparr>, q)))"

definition completeDispatch :: "go_error option \<Rightarrow> phase \<Rightarrow> 'a prepared_request \<Rightarrow>
    go_error option \<times> 'a prepared_request" where
  "completeDispatch err ph r =
     (case dispatch_once r of
        Some e \<Rightarrow> (e, r)
      | None \<Rightarrow>
          (err, r\<lparr>phase := (if phase r \<noteq> preparedRequestAbandoned \<or> ph = preparedRequestAbandoned
                            then ph else phase r),
                  dispatch_once := Some err\<rparr>))"

text \<open>\<open>abort\<close> with the callback of \<open>DispatchOptions\<close>.\<close>

definition abort :: "(go_error \<Rightarrow> go_error option) option \<Rightarrow> go_error \<Rightarrow> 'a prepared_request \<Rightarrow>
    go_error option \<times> 'a prepared_request" where
  "abort opts cause r =
     (case opts of
        None \<Rightarrow> (None, r)
      | Some f \<Rightarrow>
          (case abort_once r of
             Some e \<Rightarrow> (e, r)
           | None \<Rightarrow> (f cause, r\<lparr>abort_once := Some (f cause)\<rparr>)))"

definition joinAbortError :: "go_error \<Rightarrow> go_error option \<Rightarrow> go_error" where
  "joinAbortError cause abortErr =
     (case abortErr of
        None \<Rightarrow> cause
      | Some e \<Rightarrow> JoinErr [cause, wrap_err ''acp: abort prepared request transport'' e])"

definition releasePending :: "go_error \<Rightarrow> 'a prepared_request \<Rightarrow> pendings \<Rightarrow> 'a prepared_request \<times> pendings" where
  "releasePending cause r p =
     (if pendingRelease r then (r, p)
      else (r\<lparr>pendingRelease := True\<rparr>, release_pending (idKey r) (pid r) cause p))"

definition completeAbandonedDispatch :: "'a prepared_request \<Rightarrow> go_error option \<times> 'a prepared_request" where
  "completeAbandonedDispatch r =
     completeDispatch (lifecycleError ''dispatch'' (submissionStateLocked r) (Some ErrRequestAbandoned))
       preparedRequestAbandoned r"

text \<open>\<open>completeWrite\<close> first reads the state and whether the request is abandoned.\<close>

definition completeWrite_finish :: "submission \<Rightarrow> bool \<Rightarrow> go_error option \<Rightarrow>
    (go_error \<Rightarrow> go_error option) option \<Rightarrow> 'a prepared_request \<Rightarrow> pendings \<Rightarrow>
    go_error option \<times> 'a prepared_request \<times> pendings" where
  "completeWrite_finish state aband result opts r p =
     (if aband then
        (case completeDispatch (lifecycleError ''dispatch'' state (Some ErrRequestAbandoned))
                preparedRequestAbandoned r of (e, r') \<Rightarrow> (e, r', p))
      else (case result of
        Some err \<Rightarrow>
          (case (if state = Possible then abort opts err r else (None, r)) of
             (abortErr, r1) \<Rightarrow>
               (let cause = (if state = Possible then joinAbortError err abortErr else err)
                in case releasePending cause r1 p of
                     (r2, q) \<Rightarrow>
                       (case completeDispatch (lifecycleError ''dispatch'' state (Some cause))
                               preparedRequestDispatchFailed r2 of (e, r3) \<Rightarrow> (e, r3, q))))
      | None \<Rightarrow>
          (case completeDispatch None preparedRequestDispatched r of (e, r') \<Rightarrow> (e, r', p))))"

text \<open>The critical section of \<open>failDispatch\<close>, and what follows it.\<close>

definition failDispatch_begin :: "'a prepared_request \<Rightarrow> submission \<times> bool \<times> 'a prepared_request" where
  "failDispatch_begin r =
     (if phase r = preparedRequestAbandoned then (submission r, True, r)
      else (submission r, False,
            if submission r = NotStarted then r\<lparr>phase := preparedRequestDispatchFailed\<rparr> else r))"

definition failDispatch_finish :: "submission \<Rightarrow> go_error \<Rightarrow> (go_error \<Rightarrow> go_error option) option \<Rightarrow>
    'a prepared_request \<Rightarrow> pendings \<Rightarrow> go_error option \<times> 'a prepared_request \<times> pendings" where
  "failDispatch_finish state cause0 opts r p =
     (case (if state = Possible then abort opts cause0 r else (None, r)) of
        (abortErr, r1) \<Rightarrow>
          (let cause = (if state = Possible then joinAbortError cause0 abortErr else cause0)
           in case releasePending cause r1 p of
                (r2, q) \<Rightarrow>
                  (case completeDispatch (lifecycleError ''dispatch'' state (Some cause))
                          preparedRequestDispatchFailed r2 of (e, r3) \<Rightarrow> (e, r3, q))))"

section \<open>Cancel, wait, resolve, abandon\<close>

text \<open>\<open>CancelRequest\<close>; \<open>sent\<close> is what sending the notification returns.\<close>

definition CancelRequest :: "go_error option \<Rightarrow> 'a prepared_request \<Rightarrow> go_error option \<times> 'a prepared_request" where
  "CancelRequest sent r =
     (if phase r \<noteq> preparedRequestDispatched \<and> phase r \<noteq> preparedRequestFinished
      then (lifecycleError ''cancel'' (submissionStateLocked r) (Some ErrRequestNotDispatched), r)
      else (let r' = (if cancel_once r = None then r\<lparr>cancel_once := Some sent\<rparr> else r)
            in (lifecycleError ''cancel'' Possible (the (cancel_once r')), r')))"

text \<open>The branch of \<open>Wait\<close> for a phase it has read as ready; \<open>state\<close> was read with it.\<close>

definition Wait_ready :: "submission \<Rightarrow> 'a prepared_request \<Rightarrow> pendings \<Rightarrow> go_error option \<times> 'a prepared_request" where
  "Wait_ready state r p =
     (case outcome (p_heap p ! pid r) of
        Some (_, Some err) \<Rightarrow>
          (lifecycleError ''wait'' NotStarted (Some err),
           if phase r = preparedRequestReady then r\<lparr>phase := preparedRequestFinished\<rparr> else r)
      | _ \<Rightarrow> (lifecycleError ''wait'' state (Some ErrRequestNotDispatched), r))"

datatype 'a waited = Blocked | Returned "go_error option" "'a prepared_request" | Resolve response_envelope

text \<open>\<open>waitResponse\<close>; \<open>by_ctx\<close> says that its select took the branch of the context.\<close>

definition waitResponse :: "bool \<Rightarrow> ctx \<Rightarrow> 'a prepared_request \<Rightarrow> pendings \<Rightarrow> 'a waited" where
  "waitResponse by_ctx c r p =
     (if by_ctx \<and> c \<noteq> None \<and> \<not> pendingResponded (idKey r) (pid r) p
      then Returned (lifecycleError ''wait'' (submissionStateLocked r) (ctx_cause c)) r
      else (case outcome (p_heap p ! pid r) of
              None \<Rightarrow> Blocked
            | Some (_, Some err) \<Rightarrow>
                (let r' = r\<lparr>phase := preparedRequestFinished\<rparr>
                 in Returned (lifecycleError ''wait'' (submissionStateLocked r') (Some err)) r')
            | Some (env, None) \<Rightarrow> Resolve env))"

text \<open>What \<open>Wait\<close> does for the phase it reads; \<open>None\<close> is a phase in which it waits.\<close>

definition Wait_phase :: "'a prepared_request \<Rightarrow> go_error option option" where
  "Wait_phase r =
     (case phase r of
        preparedRequestDispatchFailed \<Rightarrow>
          Some (case dispatch_once r of Some e \<Rightarrow> e | None \<Rightarrow> None)
      | preparedRequestAbandoned \<Rightarrow>
          Some (lifecycleError ''wait'' (submissionStateLocked r) (Some ErrRequestAbandoned))
      | _ \<Rightarrow> None)"

definition cloneRequestError :: "request_error \<Rightarrow> request_error" where
  "cloneRequestError e =
     (case data e of
        None \<Rightarrow> e
      | Some d \<Rightarrow> e\<lparr>data := map_option snd (parse_json (encode_any d))\<rparr>)"

definition publicRPCResponse :: "any_message \<Rightarrow> rpc_response" where
  "publicRPCResponse m =
     \<lparr>RequestID = ID m, rpc_Result = Result m, rpc_Error = map_option cloneRequestError (Error m)\<rparr>"

text \<open>
  \<open>completeResponse\<close>: the result, the error, whether another \<open>Wait\<close> may retry, and whether the
  observer was called. \<open>wait_err\<close> is what waiting for the earlier notifications returned.
\<close>

definition completeResponse :: "(string \<Rightarrow> go_error + 'a) \<Rightarrow> 'a \<Rightarrow> go_error option \<Rightarrow> ctx \<Rightarrow> any_message \<Rightarrow>
    (rpc_response \<Rightarrow> go_error option) option \<Rightarrow> ('a \<Rightarrow> go_error option) option \<Rightarrow>
    'a \<times> go_error option \<times> bool \<times> bool" where
  "completeResponse decode zero wait_err c m obs hook =
     (let observed = (obs \<noteq> None);
          after_observer =
            (case Error m of
               Some e \<Rightarrow> (zero, lifecycleError ''wait'' Possible (Some (ReqErr e)), False, observed)
             | None \<Rightarrow>
                 (case (if Result m = [] then Inr zero else decode (Result m)) of
                    Inl e \<Rightarrow> (zero, lifecycleError ''wait'' Possible (Some (DecodeErr (Some e))), False, observed)
                  | Inr v \<Rightarrow>
                      (case (case hook of None \<Rightarrow> None | Some f \<Rightarrow> f v) of
                         Some e \<Rightarrow> (v, lifecycleError ''hook'' Possible (Some (wrap_err ''acp: response hook'' e)), False, observed)
                       | None \<Rightarrow> (v, None, False, observed))))
      in case wait_err of
           Some err \<Rightarrow>
             (case c of
                Some (_, cause) \<Rightarrow> (zero, lifecycleError ''wait'' Possible (Some cause), True, False)
              | None \<Rightarrow> (zero, lifecycleError ''wait'' Possible (Some err), False, False))
         | None \<Rightarrow>
             (case (case obs of None \<Rightarrow> None | Some f \<Rightarrow> f (publicRPCResponse m)) of
                Some e \<Rightarrow> (zero, lifecycleError ''observe'' Possible (Some (wrap_err ''acp: response observer'' e)), False, True)
              | None \<Rightarrow> after_observer))"

datatype 'a resolution =
    Already 'a "go_error option" | Attempt_running | Started "'a prepared_request"

definition resolveResponse_begin :: "'a \<Rightarrow> 'a prepared_request \<Rightarrow> 'a resolution" where
  "resolveResponse_begin zero r =
     (case resolved r of
        Some (v, e) \<Rightarrow> Already v e
      | None \<Rightarrow>
          if phase r = preparedRequestAbandoned
          then Already zero (lifecycleError ''wait'' (submission r) (Some ErrRequestAbandoned))
          else if resolving r then Attempt_running
          else Started (r\<lparr>resolving := True\<rparr>))"

definition resolveResponse_end :: "'a \<Rightarrow> 'a \<times> go_error option \<times> bool \<Rightarrow> 'a prepared_request \<Rightarrow> pendings \<Rightarrow>
    ('a \<times> go_error option) \<times> 'a prepared_request \<times> pendings" where
  "resolveResponse_end zero res r p =
     (case res of (v, err, retryable) \<Rightarrow>
        (let aband = (phase r = preparedRequestAbandoned);
             aband_err = lifecycleError ''wait'' (submissionStateLocked r) (Some ErrRequestAbandoned)
         in if retryable then
              (if aband then
                 (case releasePending ErrRequestAbandoned
                         (r\<lparr>resolving := False, resolved := Some (zero, aband_err)\<rparr>) p of
                    (r', q) \<Rightarrow> ((zero, aband_err), r', q))
               else ((zero, err), r\<lparr>resolving := False\<rparr>, p))
            else (let final = (if aband then (zero, aband_err) else (v, err))
                  in case releasePending ErrRequestAbandoned
                           (r\<lparr>resolving := False, resolved := Some final, phase := preparedRequestFinished\<rparr>) p of
                       (r', q) \<Rightarrow> (final, r', q))))"

definition Abandon :: "'a prepared_request \<Rightarrow> pendings \<Rightarrow> submission \<times> 'a prepared_request \<times> pendings" where
  "Abandon r p =
     (let state = submission r
      in if resolved r \<noteq> None \<or> phase r = preparedRequestFinished then (state, r, p)
         else (let r' = r\<lparr>phase := preparedRequestAbandoned, abandoned := True\<rparr>
               in if resolving r then (state, r', detachPending (idKey r) (pid r) p)
                  else (case releasePending ErrRequestAbandoned r' p of (r'', q) \<Rightarrow> (state, r'', q))))"

section \<open>The goroutines as a step relation\<close>

text \<open>
  The queued write of the request: not queued yet, in the queue, taken with a successful
  \<open>beginWrite\<close>, inside the call of \<open>Write\<close>, or finished with a result on its channel.
\<close>

datatype write_state = WNone | WQueued | WBegun | WWriting | WDone "go_error option"

text \<open>Where the goroutine that called \<open>Dispatch\<close> is.\<close>

datatype dispatcher =
    DIdle
  | DSelect
  | DWrite "go_error option" submission bool
  | DFailing go_error
  | DFail go_error submission
  | DAband
  | DReturned

text \<open>
  \<open>opts\<close>, \<open>dctx\<close>, \<open>disp\<close> and \<open>wst\<close> belong to one call of \<open>Dispatch\<close>: its options, its context,
  where it is, and its queued write. Several goroutines may be inside \<open>Dispatch\<close>: \<open>parked\<close> has
  the calls that are not running now, and a switch exchanges the running one with one of them.
  Every successful \<open>Dispatch_begin\<close> starts a call with a write of its own.

  \<open>calls\<close> counts the invocations of the transport's \<open>Write\<close> with the payload, \<open>observed\<close> those
  of the observer, \<open>ready_reads\<close> the waiters that have read the phase as ready and not yet
  looked at the pending response, \<open>resp_reads\<close> those that have entered \<open>waitResponse\<close>. A waiter
  that has read the phase as dispatching can find its context done at any later moment.
  \<open>told\<close> is the list of the classifications given to callers, except those in \<open>told_stale\<close>: they
  come from a \<open>Wait\<close> that read the phase as ready and found, when it took the lock again, that
  the phase had moved on.
\<close>

type_synonym dispatch_call = "(go_error \<Rightarrow> go_error option) option \<times> ctx \<times> dispatcher \<times> write_state"

record 'a rsys =
  tab :: pendings
  req :: "'a prepared_request"
  opts :: "(go_error \<Rightarrow> go_error option) option"
  dctx :: ctx
  disp :: dispatcher
  wst :: write_state
  parked :: "dispatch_call list"
  calls :: nat
  observed :: nat
  ready_reads :: nat
  resp_reads :: nat
  told :: "submission list"
  told_stale :: "submission list"

definition claim_of :: "go_error option \<Rightarrow> submission list" where
  "claim_of err = (case RequestSubmissionStateOf err of (st, True) \<Rightarrow> [st] | (_, False) \<Rightarrow> [])"

text \<open>What happens to the table besides: every operation on another request, responses, barriers, closing.\<close>

inductive other_step :: "nat \<Rightarrow> pendings \<Rightarrow> pendings \<Rightarrow> bool" for me :: nat where
  o_add: "k \<notin> fst ` set (p_map p) \<Longrightarrow> addPending k gated p = (r, q) \<Longrightarrow> other_step me p q"
| o_admit: "i \<noteq> me \<Longrightarrow> admitPending k i p = (r, q) \<Longrightarrow> other_step me p q"
| o_respond: "other_step me p (deliver_response k m w p)"
| o_release: "i \<noteq> me \<Longrightarrow> owns k i p \<Longrightarrow> other_step me p (release_pending k i cause p)"
| o_detach: "i \<noteq> me \<Longrightarrow> owns k i p \<Longrightarrow> responded (p_heap p ! i) \<Longrightarrow> other_step me p (detachPending k i p)"
| o_barrier: "responseDeliveryBarrier p = (d, q) \<Longrightarrow> other_step me p q"
| o_close: "other_step me p (shutdown_pendings cause p)"

inductive r_step :: "'a \<Rightarrow> 'a rsys \<Rightarrow> 'a rsys \<Rightarrow> bool" for z :: 'a where
  others: "other_step (pid (req s)) (tab s) t \<Longrightarrow> r_step z s (s\<lparr>tab := t\<rparr>)"
| ctx_ends: "dctx s = None \<Longrightarrow> r_step z s (s\<lparr>dctx := Some c\<rparr>)"
| observe: "ObserveResponse obs (req s) = (e, r) \<Longrightarrow> r_step z s (s\<lparr>req := r\<rparr>)"
| dispatch: "Dispatch_begin (req s) = (None, r) \<Longrightarrow>
    r_step z s (s\<lparr>req := r, opts := f, dctx := c, disp := DSelect, wst := WNone,
      parked := (if disp s = DIdle then parked s else (opts s, dctx s, disp s, wst s) # parked s)\<rparr>)"
| switch: "i < length (parked s) \<Longrightarrow> parked s ! i = (f, c, d, w) \<Longrightarrow>
    r_step z s (s\<lparr>opts := f, dctx := c, disp := d, wst := w,
      parked := (parked s)[i := (opts s, dctx s, disp s, wst s)]\<rparr>)"
| dispatch_again: "Dispatch_begin (req s) = (Some e, r) \<Longrightarrow>
    r_step z s (s\<lparr>told := told s @ claim_of (Some e)\<rparr>)"
| enqueue_write: "disp s = DSelect \<Longrightarrow> wst s = WNone \<Longrightarrow> r_step z s (s\<lparr>wst := WQueued\<rparr>)"
| write_ctx: "wst s = WQueued \<Longrightarrow> dctx s = Some (err, cause) \<Longrightarrow> r_step z s (s\<lparr>wst := WDone (Some err)\<rparr>)"
| write_begin: "wst s = WQueued \<Longrightarrow> beginWrite (dctx s) (req s) (tab s) = (None, r, t) \<Longrightarrow>
    r_step z s (s\<lparr>wst := WBegun, req := r, tab := t\<rparr>)"
| write_refused: "wst s = WQueued \<Longrightarrow> beginWrite (dctx s) (req s) (tab s) = (Some e, r, t) \<Longrightarrow>
    r_step z s (s\<lparr>wst := WDone (Some e), req := r, tab := t\<rparr>)"
| write_call: "wst s = WBegun \<Longrightarrow> r_step z s (s\<lparr>wst := WWriting, calls := calls s + 1\<rparr>)"
| write_ok: "wst s = WWriting \<Longrightarrow> r_step z s (s\<lparr>wst := WDone None\<rparr>)"
| write_failed: "wst s = WWriting \<Longrightarrow>
    r_step z s (s\<lparr>wst := WDone (Some e), tab := shutdown_pendings e (tab s)\<rparr>)"
| got_result: "disp s = DSelect \<Longrightarrow> wst s = WDone res \<Longrightarrow>
    r_step z s (s\<lparr>disp := DWrite res (submission (req s)) (phase (req s) = preparedRequestAbandoned)\<rparr>)"
| got_ctx: "disp s = DSelect \<Longrightarrow> dctx s = Some (err, cause) \<Longrightarrow> \<forall>res. wst s \<noteq> WDone res \<Longrightarrow>
    r_step z s (s\<lparr>disp := DFailing cause\<rparr>)"
| got_closed: "disp s = DSelect \<Longrightarrow> p_cause (tab s) \<noteq> None \<Longrightarrow> \<forall>res. wst s \<noteq> WDone res \<Longrightarrow>
    r_step z s (s\<lparr>disp := DFailing (connectionCause (tab s))\<rparr>)"
| got_abandoned: "disp s = DSelect \<Longrightarrow> abandoned (req s) \<Longrightarrow> r_step z s (s\<lparr>disp := DAband\<rparr>)"
| fail_begin: "disp s = DFailing cause \<Longrightarrow> failDispatch_begin (req s) = (st, ab, r) \<Longrightarrow>
    r_step z s (s\<lparr>disp := (if ab then DAband else DFail cause st), req := r\<rparr>)"
| fail_end: "disp s = DFail cause st \<Longrightarrow> failDispatch_finish st cause (opts s) (req s) (tab s) = (e, r, t) \<Longrightarrow>
    r_step z s (s\<lparr>disp := DReturned, req := r, tab := t, told := told s @ claim_of e\<rparr>)"
| write_end: "disp s = DWrite res st ab \<Longrightarrow>
    completeWrite_finish st ab res (opts s) (req s) (tab s) = (e, r, t) \<Longrightarrow>
    r_step z s (s\<lparr>disp := DReturned, req := r, tab := t, told := told s @ claim_of e\<rparr>)"
| aband_end: "disp s = DAband \<Longrightarrow> completeAbandonedDispatch (req s) = (e, r) \<Longrightarrow>
    r_step z s (s\<lparr>disp := DReturned, req := r, told := told s @ claim_of e\<rparr>)"
| cancel: "CancelRequest sent (req s) = (e, r) \<Longrightarrow>
    r_step z s (s\<lparr>req := r, told := told s @ claim_of e\<rparr>)"
| wait_sees_ready: "phase (req s) = preparedRequestReady \<Longrightarrow>
    r_step z s (s\<lparr>ready_reads := ready_reads s + 1\<rparr>)"
| wait_ready: "0 < ready_reads s \<Longrightarrow> Wait_ready Pending (req s) (tab s) = (e, r) \<Longrightarrow>
    r_step z s (s\<lparr>req := r,
      told := told s @ (if phase (req s) = preparedRequestReady then claim_of e else []),
      ready_reads := ready_reads s - 1,
      told_stale := told_stale s @ (if phase (req s) = preparedRequestReady then [] else claim_of e)\<rparr>)"
| wait_dispatching: "r_step z s (s\<lparr>told := told s @ claim_of (lifecycleError ''wait'' (submissionStateLocked (req s)) (ctx_cause (Some c)))\<rparr>)"
| wait_phase: "Wait_phase (req s) = Some e \<Longrightarrow> r_step z s (s\<lparr>told := told s @ claim_of e\<rparr>)"
| wait_sees_response: "phase (req s) = preparedRequestDispatched \<or> phase (req s) = preparedRequestFinished \<Longrightarrow>
    r_step z s (s\<lparr>resp_reads := resp_reads s + 1\<rparr>)"
| wait_response: "0 < resp_reads s \<Longrightarrow> waitResponse by_ctx c (req s) (tab s) = Returned e r \<Longrightarrow>
    r_step z s (s\<lparr>req := r, told := told s @ claim_of e\<rparr>)"
| resolve_known: "0 < resp_reads s \<Longrightarrow> resolveResponse_begin z (req s) = Already v e \<Longrightarrow>
    outcome (p_heap (tab s) ! pid (req s)) = Some (env, None) \<Longrightarrow>
    r_step z s (s\<lparr>told := told s @ claim_of e\<rparr>)"
| resolve_begin: "0 < resp_reads s \<Longrightarrow> outcome (p_heap (tab s) ! pid (req s)) = Some (env, None) \<Longrightarrow>
    resolveResponse_begin z (req s) = Started r \<Longrightarrow> r_step z s (s\<lparr>req := r\<rparr>)"
| resolve_end: "resolving (req s) \<Longrightarrow>
    outcome (p_heap (tab s) ! pid (req s)) = Some (env, None) \<Longrightarrow>
    completeResponse decode z wait_err c (msg env) (observer (req s)) (typedHook (req s)) = (v, err, retry, obs) \<Longrightarrow>
    resolveResponse_end z (v, err, retry) (req s) (tab s) = ((v', e), r, t) \<Longrightarrow>
    r_step z s (s\<lparr>req := r, tab := t, observed := observed s + (if obs then 1 else 0),
                        told := told s @ claim_of e\<rparr>)"
| abandon: "Abandon (req s) (tab s) = (st, r, t) \<Longrightarrow>
    r_step z s (s\<lparr>req := r, tab := t, told := told s @ [st]\<rparr>)"

definition r_init :: "'a rsys \<Rightarrow> bool" where
  "r_init s \<longleftrightarrow>
     (\<exists>limit p key encoded gated hook r. reach (\<lambda>p. p = new_pendings limit) p_step p \<and>
        key \<notin> fst ` set (p_map p) \<and> prepare key encoded gated hook p = (Inr r, tab s) \<and> req s = r) \<and>
     dctx s = None \<and> disp s = DIdle \<and> wst s = WNone \<and> parked s = [] \<and> calls s = 0 \<and> observed s = 0 \<and>
     ready_reads s = 0 \<and> resp_reads s = 0 \<and> told s = [] \<and> told_stale s = []"

section \<open>Facts about the operations\<close>

lemma claim_of_lifecycle [simp]: "claim_of (lifecycleError oper st (Some e)) = [st]"
  by (simp add: claim_of_def lifecycleError_state)

lemma claim_of_None [simp]: "claim_of None = []"
  by (simp add: claim_of_def RequestSubmissionStateOf_def as_lifecycle_error_def)

lemma lifecycle_None [simp]: "lifecycleError oper st None = None"
  by (simp add: lifecycleError_def)

lemma lifecycle_Some [simp]: "lifecycleError oper st (Some e) \<noteq> None"
  "\<exists>y. lifecycleError oper st (Some e) = Some y"
  by (simp_all add: lifecycleError_def)

lemma releasePending_req: "releasePending c r p = (r', q) \<Longrightarrow> \<exists>b. r' = r\<lparr>pendingRelease := b\<rparr>"
  by (auto simp: releasePending_def split: if_splits intro: exI [of _ "pendingRelease r"])

lemma releasePending_tab:
  "releasePending c r p = (r', q) \<Longrightarrow> q = p \<or> q = release_pending (idKey r) (pid r) c p"
  by (auto simp: releasePending_def split: if_splits)

lemma abort_req: "abort f c r = (e, r') \<Longrightarrow> \<exists>x. r' = r\<lparr>abort_once := x\<rparr>"
  by (auto simp: abort_def split: option.splits intro: exI [of _ "abort_once r"])

lemma completeDispatch_first:
  "dispatch_once r = None \<Longrightarrow> completeDispatch err ph r = (e, r') \<Longrightarrow>
    e = err \<and> r' = r\<lparr>phase := (if phase r \<noteq> preparedRequestAbandoned \<or> ph = preparedRequestAbandoned then ph else phase r),
      dispatch_once := Some err\<rparr>"
  by (auto simp: completeDispatch_def)

text \<open>The end of a dispatch, in either way.\<close>

definition dispatch_ended :: "submission \<Rightarrow> go_error option \<Rightarrow> 'a prepared_request \<Rightarrow> 'a prepared_request \<Rightarrow> bool" where
  "dispatch_ended st e r r' \<longleftrightarrow>
     (\<exists>x b ph. r' = r\<lparr>abort_once := x, pendingRelease := b, phase := ph, dispatch_once := Some e\<rparr> \<and>
        (x = abort_once r \<or> st = Possible) \<and>
        ph \<in> {preparedRequestAbandoned, preparedRequestDispatchFailed, preparedRequestDispatched} \<and>
        (e \<noteq> None \<longrightarrow> ph \<noteq> preparedRequestDispatched \<and> claim_of e = [st]))"

lemma failDispatch_finish_ended:
  assumes "dispatch_once r = None" "failDispatch_finish st c f r p = (e, r', q)"
  shows "dispatch_ended st e r r' \<and> e \<noteq> None \<and> (q = p \<or> (\<exists>c. q = release_pending (idKey r) (pid r) c p))"
proof -
  obtain ae r1 where a: "(if st = Possible then abort f c r else (None, r)) = (ae, r1)" by force
  let ?cause = "if st = Possible then joinAbortError c ae else c"
  obtain r2 q2 where b: "releasePending ?cause r1 p = (r2, q2)" by force
  obtain e3 r3 where d: "completeDispatch (lifecycleError ''dispatch'' st (Some ?cause)) preparedRequestDispatchFailed r2 = (e3, r3)"
    by force
  have res: "e = e3" "r' = r3" "q = q2"
    using assms(2) by (auto simp: failDispatch_finish_def a b d Let_def)
  obtain x where x: "r1 = r\<lparr>abort_once := x\<rparr>" "x = abort_once r \<or> st = Possible"
    using a abort_req [of f c r ae r1] by (cases "st = Possible") auto
  obtain b' where b': "r2 = r1\<lparr>pendingRelease := b'\<rparr>" using releasePending_req [OF b] by blast
  have "dispatch_once r2 = None" by (simp add: b' x(1) assms(1))
  from completeDispatch_first [OF this d]
  have e: "e3 = lifecycleError ''dispatch'' st (Some ?cause)"
    and r3: "r3 = r2\<lparr>phase := (if phase r2 \<noteq> preparedRequestAbandoned then preparedRequestDispatchFailed else phase r2), dispatch_once := Some e3\<rparr>"
    by auto
  have "dispatch_ended st e r r'"
    unfolding dispatch_ended_def
    by (intro exI [of _ x] exI [of _ b'] exI [of _ "phase r3"]) (auto simp: res r3 b' x(1) x(2) e)
  then show ?thesis using releasePending_tab [OF b] by (auto simp: res e x(1))
qed

lemma completeWrite_finish_ended:
  assumes "dispatch_once r = None" "completeWrite_finish st ab result f r p = (e, r', q)"
  shows "dispatch_ended st e r r' \<and> (e = None \<longrightarrow> result = None) \<and>
    (q = p \<or> (\<exists>c. q = release_pending (idKey r) (pid r) c p))"
proof (cases "\<not> ab \<and> result \<noteq> None")
  case True
  then obtain err where "result = Some err" by blast
  with True assms(2) have "failDispatch_finish st err f r p = (e, r', q)"
    by (simp add: completeWrite_finish_def failDispatch_finish_def)
  from failDispatch_finish_ended [OF assms(1) this] show ?thesis by blast
next
  case False
  have r: "r = r\<lparr>abort_once := abort_once r, pendingRelease := pendingRelease r\<rparr>" by simp
  from False assms show ?thesis
    unfolding dispatch_ended_def
    by (auto simp: completeWrite_finish_def completeDispatch_def split: if_splits
        intro!: exI [of _ "abort_once r"] exI [of _ "pendingRelease r"])
qed

lemma completeAbandoned_ended:
  "dispatch_once r = None \<Longrightarrow> completeAbandonedDispatch r = (e, r') \<Longrightarrow>
    dispatch_ended (submissionStateLocked r) e r r' \<and> e \<noteq> None"
  unfolding dispatch_ended_def
  by (auto simp: completeAbandonedDispatch_def completeDispatch_def
      intro!: exI [of _ "abort_once r"] exI [of _ "pendingRelease r"])

section \<open>Invariant\<close>

text \<open>
  The writer was not invoked and never will be: the phase is past dispatching, or the writer
  has already answered with an error.
\<close>

definition sealed :: "'a rsys \<Rightarrow> bool" where
  "sealed s \<longleftrightarrow> submission (req s) = NotStarted \<and>
     (phase (req s) \<noteq> preparedRequestReady \<and> phase (req s) \<noteq> preparedRequestDispatching \<or>
      (\<exists>e. wst s = WDone (Some e)))"

abbreviation early :: "phase \<Rightarrow> bool" where
  "early ph \<equiv> ph = preparedRequestReady \<or> ph = preparedRequestDispatching"

text \<open>
  The table and the request: it owns its key; it is admitted only with a submission; it
  resolves only a response.
\<close>

definition tab_ok :: "pendings \<Rightarrow> 'a prepared_request \<Rightarrow> bool" where
  "tab_ok p r \<longleftrightarrow> pend_inv p \<and> owns (idKey r) (pid r) p \<and>
     (submission r = NotStarted \<longrightarrow> \<not> admitted (p_heap p ! pid r)) \<and>
     (resolving r \<longrightarrow> (\<exists>env. outcome (p_heap p ! pid r) = Some (env, None)))"

text \<open>The control state: writer, dispatcher and phase.\<close>

definition ctl_ok :: "'a rsys \<Rightarrow> bool" where
  "ctl_ok s \<longleftrightarrow>
     submission (req s) \<noteq> Pending \<and> parked s = [] \<and>
     (submission (req s) = NotStarted \<longrightarrow> calls s = 0 \<and>
        (wst s = WNone \<or> wst s = WQueued \<or> (\<exists>e. wst s = WDone (Some e)))) \<and>
     (phase (req s) = preparedRequestReady \<longrightarrow> disp s = DIdle) \<and>
     (disp s = DIdle \<longrightarrow> wst s = WNone \<and> submission (req s) = NotStarted \<and>
        phase (req s) \<noteq> preparedRequestDispatching \<and> phase (req s) \<noteq> preparedRequestDispatched) \<and>
     (dispatch_once (req s) = None \<longleftrightarrow> disp s \<noteq> DReturned) \<and>
     (phase (req s) = preparedRequestDispatched \<longrightarrow> submission (req s) = Possible) \<and>
     (\<forall>res st ab. disp s = DWrite res st ab \<longrightarrow> wst s = WDone res \<and> st = submission (req s)) \<and>
     (\<forall>c st. disp s = DFail c st \<longrightarrow>
        st \<noteq> Pending \<and> (st = NotStarted \<longrightarrow> sealed s) \<and> (st = Possible \<longrightarrow> submission (req s) = Possible)) \<and>
     (0 < resp_reads s \<longrightarrow> \<not> early (phase (req s))) \<and>
     calls s \<le> 1 \<and> (wst s = WWriting \<or> wst s = WDone None \<longrightarrow> calls s = 1) \<and>
     (wst s = WNone \<or> wst s = WQueued \<or> wst s = WBegun \<longrightarrow> calls s = 0) \<and>
     (dispatch_once (req s) = Some None \<longrightarrow> wst s = WDone None)"

text \<open>The stored result of the dispatch has been told.\<close>

definition dispatch_told :: "go_error option option \<Rightarrow> submission list \<Rightarrow> bool" where
  "dispatch_told d ts \<longleftrightarrow> (\<forall>e. d = Some e \<longrightarrow> set (claim_of e) \<subseteq> set ts)"

lemma dispatch_told_simps [simp]:
  "dispatch_told None ts" "dispatch_told (Some e) (ts @ claim_of e)"
  "dispatch_told d ts \<Longrightarrow> dispatch_told d (ts @ us)"
  by (auto simp: dispatch_told_def)

text \<open>What callers and callbacks have seen.\<close>

definition seen_ok :: "'a rsys \<Rightarrow> bool" where
  "seen_ok s \<longleftrightarrow>
     (NotStarted \<in> set (told s) \<longrightarrow> sealed s) \<and>
     dispatch_told (dispatch_once (req s)) (told s) \<and>
     (abort_once (req s) \<noteq> None \<longrightarrow> submission (req s) = Possible) \<and>
     (resolving (req s) \<longrightarrow> resolved (req s) = None \<and> submission (req s) = Possible) \<and>
     (resolved (req s) \<noteq> None \<longrightarrow> submission (req s) = Possible) \<and>
     (\<forall>v e. resolved (req s) = Some (v, e) \<longrightarrow> NotStarted \<notin> set (claim_of e)) \<and>
     observed s \<le> 1 \<and> (observed s = 1 \<longrightarrow> resolved (req s) \<noteq> None)"

definition r_inv :: "'a rsys \<Rightarrow> bool" where
  "r_inv s \<longleftrightarrow> tab_ok (tab s) (req s) \<and> ctl_ok s \<and> seen_ok s"

section \<open>The table\<close>

lemma owns_step:
  assumes "p_step p q" "owns k i p"
  shows "owns k i q"
proof -
  have drop: "owns k i q" if "length (p_heap q) = length (p_heap p)" "set (p_map q) \<subseteq> set (p_map p)" for q
    using assms(2) that by (auto simp: owns_def)
  from assms(1) show ?thesis
  proof cases
    case (add k' gated r)
    show ?thesis
    proof (cases r)
      case (Inl e)
      then show ?thesis using add(2) by (intro drop) (auto simp: addPending_def Let_def split: if_splits)
    next
      case (Inr j)
      then have "length (p_heap q) = Suc (length (p_heap p)) \<and> set (p_map q) \<subseteq> insert (k', length (p_heap p)) (set (p_map p))"
        using add(2) by (auto simp: addPending_def Let_def map_set_def split: if_splits)
      then show ?thesis using assms(2) by (auto simp: owns_def)
    qed
  next
    case (admit k' j r)
    then show ?thesis by (intro drop) (auto simp: admitPending_def split: if_splits)
  next
    case (respond k' m w)
    then show ?thesis by (intro drop) (auto simp: deliver_response_def Let_def split: option.splits)
  next
    case (release k' j cause)
    then show ?thesis
      by (intro drop) (auto simp: release_pending_def abandonPending_def finishPending_def detachPending_def
          map_delete_def Let_def split: if_splits)
  next
    case (detach k' j)
    then show ?thesis by (intro drop) (auto simp: detachPending_def map_delete_def)
  next
    case (barrier d)
    then show ?thesis by (intro drop) (auto simp: responseDeliveryBarrier_def Let_def)
  next
    case (close cause)
    then show ?thesis by (intro drop) (auto simp: shutdown_pendings_def)
  qed
qed

lemma other_p_step: "other_step me p q \<Longrightarrow> p_step p q"
  by (induction rule: other_step.induct) (auto intro: p_step.intros)

text \<open>No operation but the admission of a request itself changes whether it is admitted.\<close>

definition adm_kept :: "nat \<Rightarrow> pendings \<Rightarrow> pendings \<Rightarrow> bool" where
  "adm_kept i p q \<longleftrightarrow> (i < length (p_heap p) \<longrightarrow> i < length (p_heap q) \<and> admitted (p_heap q ! i) = admitted (p_heap p ! i))"

lemma adm_refl [simp]: "adm_kept i p p"
  by (simp add: adm_kept_def)

lemma adm_trans: "adm_kept i p q \<Longrightarrow> adm_kept i q r \<Longrightarrow> adm_kept i p r"
  by (simp add: adm_kept_def)

lemma adm_upd: "p_heap q = (p_heap p)[j := x] \<Longrightarrow> admitted x = admitted (p_heap p ! j) \<Longrightarrow> adm_kept i p q"
  by (cases "i = j") (auto simp: adm_kept_def)

lemma adm_heap: "p_heap q = p_heap p \<Longrightarrow> adm_kept i p q"
  by (simp add: adm_kept_def)

lemma adm_map [simp]: "adm_kept i p (q\<lparr>p_map := m\<rparr>) = adm_kept i p q"
  by (simp add: adm_kept_def)

lemma adm_complete [simp]: "adm_kept i p (complete j r p)"
  by (rule adm_upd [where j = j and x = "if outcome (p_heap p ! j) = None
      then (p_heap p ! j)\<lparr>outcome := Some r\<rparr> else p_heap p ! j"]) (auto simp: complete_def)

lemma adm_finish [simp]: "adm_kept i p (finishResponseDelivery j p)"
  by (cases "delivery (p_heap p ! j)")
    (auto simp: finishResponseDelivery_def intro!: adm_upd [where j = j and x = "(p_heap p ! j)\<lparr>delivery := Some True\<rparr>"])

lemma adm_discard [simp]: "adm_kept i p (discardResponseDelivery j p)"
  by (auto simp: discardResponseDelivery_def split: option.splits bool.splits
      intro!: adm_upd [where j = j and x = "(p_heap p ! j)\<lparr>delivery := Some True\<rparr>"])

lemma adm_thru [intro]:
  "adm_kept i p q \<Longrightarrow> adm_kept i p (complete j r q)"
  "adm_kept i p q \<Longrightarrow> adm_kept i p (finishResponseDelivery j q)"
  "adm_kept i p q \<Longrightarrow> adm_kept i p (discardResponseDelivery j q)"
  using adm_trans adm_complete adm_finish adm_discard by blast+

lemma adm_release [simp]: "adm_kept i p (release_pending k j cause p)"
proof -
  have "adm_kept i p (complete j (no_envelope, Some cause) (discardResponseDelivery j (p\<lparr>p_map := map_delete k (p_map p)\<rparr>)))"
    by (rule adm_thru(1), rule adm_thru(3)) simp
  moreover have "adm_kept i p (detachPending k j p)" by (simp add: detachPending_def)
  ultimately show ?thesis
    using adm_thru(2,3) by (auto simp: release_pending_def abandonPending_def finishPending_def Let_def split: if_splits)
qed

lemma adm_shutdown [simp]: "adm_kept i p (shutdown_pendings e p)"
proof -
  have one: "adm_kept i q (shutdown_one e j q)" for j q by (auto simp: shutdown_one_def)
  have "adm_kept i q (fold (shutdown_one e) is q)" for q "is"
    by (induction "is" arbitrary: q) (auto intro: adm_trans [OF one])
  from adm_trans [OF _ this, of p "p\<lparr>p_cause := Some e, p_map := []\<rparr>"]
  show ?thesis by (auto simp: shutdown_pendings_def adm_kept_def)
qed

lemma adm_deliver [simp]: "adm_kept i p (deliver_response k m w p)"
proof (cases "map_of (p_map p) k")
  case (Some j)
  let ?x = "(p_heap p ! j)\<lparr>responded := True\<rparr>"
  have "adm_kept i p q" if "p_heap q = (p_heap p)[j := ?x]" for q
    by (rule adm_upd [OF that]) simp
  then show ?thesis by (auto simp: deliver_response_def Some Let_def)
qed (simp add: deliver_response_def)

lemma other_admitted: "other_step me p q \<Longrightarrow> adm_kept me p q"
proof (induction rule: other_step.induct)
  case (o_add k p gated r q)
  then show ?case by (auto simp: addPending_def Let_def adm_kept_def nth_append split: if_splits)
next
  case (o_admit i k p r q)
  then show ?case by (auto simp: admitPending_def adm_kept_def split: if_splits)
qed (auto simp: responseDeliveryBarrier_def Let_def detachPending_def intro!: adm_heap)

lemma tab_ok_step:
  assumes "tab_ok p r" "p_step p q" "adm_kept (pid r) p q \<or> submission r = Possible"
  shows "tab_ok q r"
proof -
  have i: "pid r < length (p_heap p)" using assms(1) by (simp add: tab_ok_def owns_def)
  have "pend_inv q" "owns (idKey r) (pid r) q"
    using assms(1) p_step_inv [OF assms(2)] owns_step [OF assms(2)] by (auto simp: tab_ok_def)
  moreover have "submission r = NotStarted \<longrightarrow> \<not> admitted (p_heap q ! pid r)"
    using assms(1,3) i by (auto simp: tab_ok_def adm_kept_def)
  moreover have "resolving r \<longrightarrow> (\<exists>env. outcome (p_heap q ! pid r) = Some (env, None))"
    using assms(1) p_step_kept [OF assms(2)] i unfolding tab_ok_def outcomes_kept_def by blast
  ultimately show ?thesis by (simp add: tab_ok_def)
qed

lemma tab_ok_other: "tab_ok p r \<Longrightarrow> other_step (pid r) p q \<Longrightarrow> tab_ok q r"
  by (rule tab_ok_step) (auto intro: other_p_step other_admitted)

lemma tab_ok_release: "tab_ok p r \<Longrightarrow> tab_ok (release_pending (idKey r) (pid r) c p) r"
  by (rule tab_ok_step) (auto simp: tab_ok_def intro: p_step.release)

lemma tab_ok_shutdown: "tab_ok p r \<Longrightarrow> tab_ok (shutdown_pendings e p) r"
  using tab_ok_other other_step.o_close by blast

lemma tab_ok_req: "tab_ok p r \<Longrightarrow> idKey r' = idKey r \<Longrightarrow> pid r' = pid r \<Longrightarrow>
    (submission r' = NotStarted \<Longrightarrow> submission r = NotStarted) \<Longrightarrow> (resolving r' \<Longrightarrow> resolving r) \<Longrightarrow> tab_ok p r'"
  by (auto simp: tab_ok_def)

lemma responded_possible:
  assumes "tab_ok p r" "outcome (p_heap p ! pid r) = Some (env, None)" "submission r \<noteq> Pending"
  shows "submission r = Possible"
proof -
  have "obj_ok (map_of (p_map p) (idKey r) = Some (pid r)) (pid r \<in> set (p_chain p)) (p_heap p ! pid r)"
    using assms(1) by (intro owned_obj) (auto simp: tab_ok_def)
  then have "admitted (p_heap p ! pid r)" using assms(2) by (auto simp: obj_ok_def)
  then show ?thesis using assms(1,3) by (cases "submission r") (auto simp: tab_ok_def)
qed

section \<open>Preservation\<close>

lemmas ctl_defs = ctl_ok_def sealed_def

lemma keys_kept:
  "Dispatch_begin r = (e, r') \<Longrightarrow> idKey r' = idKey r \<and> pid r' = pid r \<and> submission r' = submission r"
  "ObserveResponse ob r = (e, r') \<Longrightarrow> idKey r' = idKey r \<and> pid r' = pid r \<and> submission r' = submission r"
  "CancelRequest sent r = (e, r') \<Longrightarrow> idKey r' = idKey r \<and> pid r' = pid r \<and> submission r' = submission r"
  "Wait_ready st r p = (e, r') \<Longrightarrow> idKey r' = idKey r \<and> pid r' = pid r \<and> submission r' = submission r"
  by (auto simp: Dispatch_begin_def ObserveResponse_def CancelRequest_def Wait_ready_def Let_def
      split: if_splits option.splits prod.splits)

lemma inv_others: "r_inv s \<Longrightarrow> other_step (pid (req s)) (tab s) t \<Longrightarrow> r_inv (s\<lparr>tab := t\<rparr>)"
  using tab_ok_other [of "tab s" "req s" t] by (simp add: r_inv_def ctl_defs seen_ok_def)

lemma inv_beginWrite:
  assumes "r_inv s" "wst s = WQueued" "beginWrite (dctx s) (req s) (tab s) = (e, r, t)"
  shows "r_inv (s\<lparr>wst := (case e of None \<Rightarrow> WBegun | Some x \<Rightarrow> WDone (Some x)), req := r, tab := t\<rparr>)"
proof (cases e)
  case None
  then have ph: "phase (req s) = preparedRequestDispatching" and r: "r = (req s)\<lparr>submission := Possible\<rparr>"
    and adm: "admitPending (idKey (req s)) (pid (req s)) (tab s) = (None, t)"
    using assms(3) by (auto simp: beginWrite_def ctx_cause_def split: if_splits prod.splits option.splits)
  have st: "p_step (tab s) t" using adm by (rule p_step.admit)
  have t0: "tab_ok (tab s) r" using assms(1) by (simp add: r_inv_def tab_ok_def r)
  have "tab_ok t r" by (rule tab_ok_step [OF t0 st]) (simp add: r)
  moreover have unsealed: "\<not> sealed s" using ph assms(2) by (simp add: sealed_def)
  have "disp s \<noteq> DFail c NotStarted" "disp s \<noteq> DFail c Pending" "disp s \<noteq> DWrite res st ab" "disp s \<noteq> DIdle" for c res st ab
    using assms(1,2) unsealed by (auto simp: r_inv_def ctl_ok_def)
  then have "disp s = DFail c st \<Longrightarrow> st = Possible" for c st by (cases st) auto
  then have "ctl_ok (s\<lparr>wst := WBegun, req := r, tab := t\<rparr>)"
    using assms(1,2) ph \<open>\<And>c res st ab. disp s \<noteq> DWrite res st ab\<close> \<open>disp s \<noteq> DIdle\<close>
    by (auto simp: r_inv_def ctl_ok_def r)
  moreover have "seen_ok (s\<lparr>wst := WBegun, req := r, tab := t\<rparr>)"
    using assms(1) unsealed by (auto simp: r_inv_def seen_ok_def r)
  ultimately show ?thesis using None by (simp add: r_inv_def)
next
  case (Some x)
  then have r: "r = req s" "t = tab s"
    using assms(3) by (auto simp: beginWrite_def ctx_cause_def admitPending_def split: if_splits)
  then show ?thesis using assms(1,2) Some by (auto simp: r_inv_def ctl_defs seen_ok_def)
qed

lemma inv_ended:
  assumes inv: "r_inv s" and ended: "dispatch_ended st e (req s) r"
    and tb: "t = tab s \<or> (\<exists>c. t = release_pending (idKey (req s)) (pid (req s)) c (tab s))"
    and disp: "disp s \<noteq> DIdle"
    and st: "st = NotStarted \<Longrightarrow> sealed s" "st = Possible \<Longrightarrow> submission (req s) = Possible"
    and ok: "e = None \<Longrightarrow> wst s = WDone None"
  shows "r_inv (s\<lparr>disp := DReturned, req := r, tab := t, told := told s @ claim_of e\<rparr>)"
proof -
  obtain x b ph where r: "r = (req s)\<lparr>abort_once := x, pendingRelease := b, phase := ph, dispatch_once := Some e\<rparr>"
    and x: "x = abort_once (req s) \<or> st = Possible"
    and ph: "ph \<in> {preparedRequestAbandoned, preparedRequestDispatchFailed, preparedRequestDispatched}"
    and e: "e \<noteq> None \<longrightarrow> ph \<noteq> preparedRequestDispatched \<and> claim_of e = [st]"
    using ended by (auto simp: dispatch_ended_def)
  have "tab_ok t (req s)" using tb inv tab_ok_release by (auto simp: r_inv_def)
  then have tab: "tab_ok t r" by (rule tab_ok_req) (simp_all add: r)
  have ctl: "ctl_ok s" and seen: "seen_ok s" using inv by (auto simp: r_inv_def)
  have ph': "\<not> early ph" using ph by auto
  have pos: "ph = preparedRequestDispatched \<Longrightarrow> submission (req s) = Possible"
    using e ok ctl by (cases "submission (req s)") (auto simp: ctl_ok_def)
  let ?s = "s\<lparr>disp := DReturned, req := r, tab := t, told := told s @ claim_of e\<rparr>"
  have sl: "sealed s \<Longrightarrow> sealed ?s" using ph' by (auto simp: sealed_def r)
  have "ctl_ok ?s" using ctl ph ph' pos disp ok by (auto simp: ctl_ok_def r)
  moreover have "seen_ok ?s"
  proof -
    have "NotStarted \<in> set (told s @ claim_of e) \<Longrightarrow> sealed s"
      using seen st(1) e by (cases e) (auto simp: seen_ok_def)
    moreover have "x \<noteq> None \<longrightarrow> submission (req s) = Possible"
      using seen x st(2) by (auto simp: seen_ok_def)
    moreover have "dispatch_told (Some e) (told s @ claim_of e)" by simp
    ultimately show ?thesis using seen sl by (simp add: seen_ok_def r)
  qed
  ultimately show ?thesis using tab by (simp add: r_inv_def)
qed

text \<open>A step that leaves the control fields of the request alone.\<close>

definition same_ctl :: "'a prepared_request \<Rightarrow> 'a prepared_request \<Rightarrow> bool" where
  "same_ctl r r' \<longleftrightarrow> phase r' = phase r \<and> submission r' = submission r \<and> dispatch_once r' = dispatch_once r \<and>
     resolving r' = resolving r \<and> resolved r' = resolved r \<and> abort_once r' = abort_once r \<and>
     idKey r' = idKey r \<and> pid r' = pid r"

lemma inv_frame:
  assumes "r_inv s" "tab_ok t (req s)" "same_ctl (req s) r" "NotStarted \<in> set ts \<Longrightarrow> sealed s"
  shows "r_inv (s\<lparr>req := r, tab := t, told := told s @ ts\<rparr>)"
proof -
  let ?s = "s\<lparr>req := r, tab := t, told := told s @ ts\<rparr>"
  have eq: "phase r = phase (req s)" "submission r = submission (req s)" "dispatch_once r = dispatch_once (req s)"
    "resolving r = resolving (req s)" "resolved r = resolved (req s)" "abort_once r = abort_once (req s)"
    "idKey r = idKey (req s)" "pid r = pid (req s)" using assms(3) by (simp_all add: same_ctl_def)
  have sl: "sealed ?s = sealed s" by (simp add: sealed_def eq)
  have "tab_ok t r" using assms(2) by (simp add: tab_ok_def eq)
  moreover have "ctl_ok ?s" using assms(1) by (simp add: r_inv_def ctl_ok_def eq sl)
  moreover have "seen_ok ?s" using assms(1,4) by (auto simp: r_inv_def seen_ok_def eq sl)
  ultimately show ?thesis by (simp add: r_inv_def)
qed

text \<open>A step that only tells a classification.\<close>

lemma inv_told: "r_inv s \<Longrightarrow> (NotStarted \<in> set ts \<Longrightarrow> sealed s) \<Longrightarrow> r_inv (s\<lparr>told := told s @ ts\<rparr>)"
  using inv_frame [of s "tab s" "req s" ts] by (simp add: r_inv_def same_ctl_def)

lemma sealed_late: "submissionStateLocked r = NotStarted \<Longrightarrow> req s = r \<Longrightarrow> r_inv s \<Longrightarrow> sealed s"
  by (cases "submission r") (auto simp: submissionStateLocked_def sealed_def r_inv_def ctl_ok_def split: if_splits)

lemma inv_dispatch_again:
  "r_inv s \<Longrightarrow> Dispatch_begin (req s) = (Some e, r) \<Longrightarrow> r_inv (s\<lparr>told := told s @ claim_of (Some e)\<rparr>)"
proof (rule inv_told)
  assume a: "r_inv s" "Dispatch_begin (req s) = (Some e, r)" "NotStarted \<in> set (claim_of (Some e))"
  then have "Some e = lifecycleError ''dispatch'' (submissionStateLocked (req s))
      (Some (if phase (req s) = preparedRequestAbandoned then ErrRequestAbandoned else ErrRequestAlreadyDispatched))"
    by (auto simp: Dispatch_begin_def split: if_splits)
  with a(3) have "submissionStateLocked (req s) = NotStarted" by (simp del: lifecycle_Some)
  then show "sealed s" by (rule sealed_late [OF _ refl a(1)])
qed

lemma inv_write_begin:
  "r_inv s \<Longrightarrow> wst s = WQueued \<Longrightarrow> beginWrite (dctx s) (req s) (tab s) = (None, r, t) \<Longrightarrow>
    r_inv (s\<lparr>wst := WBegun, req := r, tab := t\<rparr>)"
  using inv_beginWrite [of s None r t] by simp

lemma inv_write_refused:
  "r_inv s \<Longrightarrow> wst s = WQueued \<Longrightarrow> beginWrite (dctx s) (req s) (tab s) = (Some e, r, t) \<Longrightarrow>
    r_inv (s\<lparr>wst := WDone (Some e), req := r, tab := t\<rparr>)"
  using inv_beginWrite [of s "Some e" r t] by simp

lemma inv_write_failed:
  "r_inv s \<Longrightarrow> wst s = WWriting \<Longrightarrow> r_inv (s\<lparr>wst := WDone (Some e), tab := shutdown_pendings e (tab s)\<rparr>)"
  using tab_ok_shutdown [of "tab s" "req s" e] by (auto simp: r_inv_def ctl_defs seen_ok_def)

lemma inv_fail_begin:
  assumes "r_inv s" "disp s = DFailing cause" "failDispatch_begin (req s) = (st, ab, r)"
  shows "r_inv (s\<lparr>disp := (if ab then DAband else DFail cause st), req := r\<rparr>)"
proof (cases ab)
  case True
  then have "r = req s" using assms(3) by (auto simp: failDispatch_begin_def split: if_splits)
  then show ?thesis using assms(1,2) True by (auto simp: r_inv_def ctl_defs seen_ok_def)
next
  case False
  then have st: "st = submission (req s)"
    and r: "r = (if submission (req s) = NotStarted then (req s)\<lparr>phase := preparedRequestDispatchFailed\<rparr> else req s)"
    using assms(3) by (auto simp: failDispatch_begin_def split: if_splits)
  let ?s = "s\<lparr>disp := DFail cause st, req := r\<rparr>"
  have tab: "tab_ok (tab s) r" using assms(1) by (auto simp: r_inv_def r tab_ok_def)
  have ctl: "ctl_ok s" and seen: "seen_ok s" using assms(1) by (auto simp: r_inv_def)
  have sl: "sealed s \<Longrightarrow> sealed ?s" "st = NotStarted \<Longrightarrow> sealed ?s" using st by (auto simp: sealed_def r)
  have "st \<noteq> Pending" using ctl st by (simp add: ctl_ok_def)
  have d: "disp s \<noteq> DIdle" "disp s \<noteq> DReturned" using assms(2) by simp_all
  have "phase (req s) = preparedRequestDispatched \<Longrightarrow> submission (req s) = Possible" using ctl by (simp add: ctl_ok_def)
  then have "ctl_ok ?s"
    using ctl sl(2) st \<open>st \<noteq> Pending\<close> d by (auto simp: ctl_ok_def r)
  moreover have "seen_ok ?s" using seen sl(1) by (auto simp: seen_ok_def r)
  ultimately show ?thesis using tab False by (simp add: r_inv_def)
qed

lemma inv_fail_end:
  assumes "r_inv s" "disp s = DFail cause st" "failDispatch_finish st cause f (req s) (tab s) = (e, r, t)"
  shows "r_inv (s\<lparr>disp := DReturned, req := r, tab := t, told := told s @ claim_of e\<rparr>)"
proof -
  have "dispatch_once (req s) = None" using assms(1,2) by (auto simp: r_inv_def ctl_ok_def)
  from failDispatch_finish_ended [OF this assms(3)] show ?thesis
    using assms(1,2) by (intro inv_ended [where st = st]) (auto simp: r_inv_def ctl_ok_def)
qed

lemma inv_write_end:
  assumes "r_inv s" "disp s = DWrite res st ab" "completeWrite_finish st ab res f (req s) (tab s) = (e, r, t)"
  shows "r_inv (s\<lparr>disp := DReturned, req := r, tab := t, told := told s @ claim_of e\<rparr>)"
proof -
  have d: "dispatch_once (req s) = None" and w: "wst s = WDone res" "st = submission (req s)"
    using assms(1,2) by (auto simp: r_inv_def ctl_ok_def)
  have "submission (req s) = NotStarted \<Longrightarrow> sealed s"
    using assms(1) w by (auto simp: r_inv_def ctl_defs)
  with completeWrite_finish_ended [OF d assms(3)] show ?thesis
    using assms(1,2) w by (intro inv_ended [where st = st]) auto
qed

lemma inv_aband_end:
  assumes "r_inv s" "disp s = DAband" "completeAbandonedDispatch (req s) = (e, r)"
  shows "r_inv (s\<lparr>disp := DReturned, req := r, told := told s @ claim_of e\<rparr>)"
proof -
  have d: "dispatch_once (req s) = None" using assms(1,2) by (auto simp: r_inv_def ctl_ok_def)
  have "r_inv (s\<lparr>disp := DReturned, req := r, tab := tab s, told := told s @ claim_of e\<rparr>)"
    using completeAbandoned_ended [OF d assms(3)] assms(1,2)
    by (intro inv_ended [where st = "submissionStateLocked (req s)"])
      (auto intro: sealed_late simp: submissionStateLocked_def split: if_splits)
  then show ?thesis by simp
qed

lemma inv_cancel:
  assumes "r_inv s" "CancelRequest sent (req s) = (e, r)"
  shows "r_inv (s\<lparr>req := r, told := told s @ claim_of e\<rparr>)"
proof (cases "phase (req s) = preparedRequestDispatched \<or> phase (req s) = preparedRequestFinished")
  case True
  define c where "c = (if cancel_once (req s) = None then Some sent else cancel_once (req s))"
  have r: "r = (req s)\<lparr>cancel_once := c\<rparr>" and e: "e = lifecycleError ''cancel'' Possible (the c)"
    using assms(2) True by (auto simp: CancelRequest_def Let_def c_def)
  have "set (claim_of e) \<subseteq> {Possible}" by (cases "the c") (simp_all add: e)
  then show ?thesis using inv_frame [OF assms(1), of "tab s" r "claim_of e"] assms(1)
    by (auto simp: r_inv_def same_ctl_def r)
next
  case False
  then have "r = req s" "e = lifecycleError ''cancel'' (submissionStateLocked (req s)) (Some ErrRequestNotDispatched)"
    using assms(2) by (auto simp: CancelRequest_def)
  then show ?thesis using inv_told [OF assms(1), of "claim_of e"] sealed_late [OF _ refl assms(1)] by simp
qed

text \<open>A step that only counts readers, or tells in the ready branch.\<close>

lemma inv_reads: "r_inv s \<Longrightarrow> r_inv (s\<lparr>ready_reads := n, told_stale := ts\<rparr>)"
  "r_inv s \<Longrightarrow> \<not> early (phase (req s)) \<Longrightarrow> r_inv (s\<lparr>resp_reads := n\<rparr>)"
  by (simp_all add: r_inv_def ctl_ok_def seen_ok_def sealed_def)

lemma inv_finished:
  assumes "r_inv s" "phase (req s) = preparedRequestReady \<or> 0 < resp_reads s"
  shows "r_inv (s\<lparr>req := (req s)\<lparr>phase := preparedRequestFinished\<rparr>\<rparr>)" (is "r_inv ?s")
proof -
  have tab: "tab_ok (tab s) ((req s)\<lparr>phase := preparedRequestFinished\<rparr>)" using assms(1) by (simp add: r_inv_def tab_ok_def)
  have sl: "sealed s \<Longrightarrow> sealed ?s" by (auto simp: sealed_def)
  have "ctl_ok ?s" using assms sl by (auto simp: r_inv_def ctl_ok_def)
  moreover have "seen_ok ?s" using assms(1) sl by (auto simp: r_inv_def seen_ok_def)
  ultimately show ?thesis using tab by (simp add: r_inv_def)
qed

lemma inv_wait_ready:
  assumes "r_inv s" "Wait_ready Pending (req s) (tab s) = (e, r)"
  shows "r_inv (s\<lparr>req := r, told := told s @ (if phase (req s) = preparedRequestReady then claim_of e else []),
    ready_reads := n, told_stale := ts\<rparr>)"
proof -
  have sl: "sealed (s\<lparr>req := r\<rparr>)"
    if "NotStarted \<in> set (if phase (req s) = preparedRequestReady then claim_of e else [])"
  proof -
    have ph: "phase (req s) = preparedRequestReady" and "NotStarted \<in> set (claim_of e)"
      using that by (auto split: if_splits)
    then have "r = (req s)\<lparr>phase := preparedRequestFinished\<rparr>"
      using assms(2) by (auto simp: Wait_ready_def split: option.splits prod.splits if_splits)
    moreover have "submission (req s) = NotStarted" using assms(1) ph by (auto simp: r_inv_def ctl_ok_def)
    ultimately show ?thesis by (simp add: sealed_def)
  qed
  have "r = req s \<or> r = (req s)\<lparr>phase := preparedRequestFinished\<rparr> \<and> phase (req s) = preparedRequestReady"
    using assms(2) by (auto simp: Wait_ready_def split: option.splits prod.splits if_splits)
  then have "r_inv (s\<lparr>req := r\<rparr>)"
  proof
    assume "r = req s"
    then show ?thesis using assms(1) by simp
  next
    assume "r = (req s)\<lparr>phase := preparedRequestFinished\<rparr> \<and> phase (req s) = preparedRequestReady"
    then show ?thesis using inv_finished [OF assms(1)] by simp
  qed
  then have "r_inv (s\<lparr>req := r, told := told s @ (if phase (req s) = preparedRequestReady then claim_of e else [])\<rparr>)"
    using inv_told [of "s\<lparr>req := r\<rparr>" "claim_of e"] sl by simp
  from inv_reads(1) [OF this, where n = n and ts = ts] show ?thesis by (simp split del: if_split)
qed

lemma inv_wait_response:
  assumes "r_inv s" "0 < resp_reads s" "waitResponse b c (req s) (tab s) = Returned e r"
  shows "r_inv (s\<lparr>req := r, told := told s @ claim_of e\<rparr>)"
proof -
  have "(r = req s \<and> e = lifecycleError ''wait'' (submissionStateLocked (req s)) (ctx_cause c) \<and> c \<noteq> None) \<or>
    (\<exists>err. r = (req s)\<lparr>phase := preparedRequestFinished\<rparr> \<and> e = lifecycleError ''wait'' (submissionStateLocked r) (Some err))"
    using assms(3) by (auto simp: waitResponse_def Let_def split: if_splits option.splits prod.splits)
  then have inv: "r_inv (s\<lparr>req := r\<rparr>)" and e: "claim_of e = [submissionStateLocked r]"
    using assms(1) inv_finished [OF assms(1)] assms(2) by (auto simp: ctx_cause_def)
  have "NotStarted \<in> set (claim_of e) \<Longrightarrow> sealed (s\<lparr>req := r\<rparr>)"
    unfolding e by (rule sealed_late [OF _ _ inv]) auto
  from inv_told [OF inv this] show ?thesis by simp
qed

lemma inv_possible:
  "r_inv s \<Longrightarrow> outcome (p_heap (tab s) ! pid (req s)) = Some (env, None) \<Longrightarrow> submission (req s) = Possible"
  by (rule responded_possible) (auto simp: r_inv_def ctl_ok_def)

lemma inv_resolve_known:
  assumes inv: "r_inv s" and res: "resolveResponse_begin z (req s) = Already v e"
    and out: "outcome (p_heap (tab s) ! pid (req s)) = Some (env, None)"
  shows "r_inv (s\<lparr>told := told s @ claim_of e\<rparr>)"
proof (rule inv_told [OF inv])
  have "submission (req s) = Possible" by (rule inv_possible [OF inv out])
  then have "NotStarted \<notin> set (claim_of e)"
    using inv res by (auto simp: resolveResponse_begin_def r_inv_def seen_ok_def split: option.splits prod.splits if_splits)
  then show "NotStarted \<in> set (claim_of e) \<Longrightarrow> sealed s" by simp
qed

lemma inv_resolve_begin:
  assumes inv: "r_inv s" and res: "resolveResponse_begin z (req s) = Started r"
    and out: "outcome (p_heap (tab s) ! pid (req s)) = Some (env, None)"
  shows "r_inv (s\<lparr>req := r\<rparr>)"
proof -
  have pos: "submission (req s) = Possible" by (rule inv_possible [OF inv out])
  have r: "r = (req s)\<lparr>resolving := True\<rparr>" "resolved (req s) = None"
    using res by (auto simp: resolveResponse_begin_def split: option.splits prod.splits if_splits)
  have "tab_ok (tab s) r" using inv out by (simp add: r_inv_def tab_ok_def r)
  moreover have sl: "sealed (s\<lparr>req := r\<rparr>) = sealed s" by (simp add: sealed_def r)
  moreover have "ctl_ok (s\<lparr>req := r\<rparr>)" using inv sl by (simp add: r_inv_def ctl_ok_def r)
  moreover have "seen_ok (s\<lparr>req := r\<rparr>)" using inv sl pos r(2) by (simp add: r_inv_def seen_ok_def r)
  ultimately show ?thesis by (simp add: r_inv_def)
qed

lemma completeResponse_claims:
  "completeResponse decode z w c m ob hook = (v, err, retry, obs) \<Longrightarrow>
    NotStarted \<notin> set (claim_of err) \<and> (obs \<longrightarrow> \<not> retry)"
  by (auto simp: completeResponse_def Let_def split: option.splits sum.splits prod.splits if_splits)

lemma resolve_end_cases:
  assumes "resolveResponse_end z (v, err, retry) r0 p = ((v', e), r, t)"
  shows "(r = r0\<lparr>resolving := False\<rparr> \<and> t = p \<and> e = err \<and> retry) \<or>
    (\<exists>b ph. r = r0\<lparr>resolving := False, resolved := Some (v', e), phase := ph, pendingRelease := b\<rparr> \<and>
       (ph = phase r0 \<and> ph = preparedRequestAbandoned \<or> ph = preparedRequestFinished) \<and>
       (e = err \<or> e = lifecycleError ''wait'' (submissionStateLocked r0) (Some ErrRequestAbandoned)) \<and>
       (t = p \<or> (\<exists>c. t = release_pending (idKey r0) (pid r0) c p)))"
proof -
  have rel: "(\<exists>b. x = y\<lparr>pendingRelease := b\<rparr>) \<and> (q = p \<or> (\<exists>c. q = release_pending (idKey y) (pid y) c p))"
    if "releasePending c y p = (x, q)" for c x q and y :: "'a prepared_request"
    using releasePending_req [OF that] releasePending_tab [OF that] by blast
  consider (r) "retry" "phase r0 \<noteq> preparedRequestAbandoned" | (ra) "retry" "phase r0 = preparedRequestAbandoned" | (f) "\<not> retry"
    by blast
  then show ?thesis
  proof cases
    case r
    with assms show ?thesis by (simp add: resolveResponse_end_def)
  next
    case ra
    let ?e = "lifecycleError ''wait'' (submissionStateLocked r0) (Some ErrRequestAbandoned)"
    let ?y = "r0\<lparr>resolving := False, resolved := Some (z, ?e)\<rparr>"
    have eq: "releasePending ErrRequestAbandoned ?y p = (r, t)" "v' = z" "e = ?e"
      using assms ra by (auto simp: resolveResponse_end_def Let_def split: prod.splits)
    have "?y = r0\<lparr>resolving := False, resolved := Some (v', e), phase := phase r0\<rparr>" by (simp add: eq)
    with rel [OF eq(1)] eq(3) ra show ?thesis by (intro disjI2) auto
  next
    case f
    let ?y = "r0\<lparr>resolving := False, resolved := Some (v', e), phase := preparedRequestFinished\<rparr>"
    have eq: "releasePending ErrRequestAbandoned ?y p = (r, t)"
      and e: "e = err \<or> e = lifecycleError ''wait'' (submissionStateLocked r0) (Some ErrRequestAbandoned)"
      using assms f by (auto simp: resolveResponse_end_def Let_def split: prod.splits if_splits)
    from rel [OF eq] e show ?thesis by (intro disjI2) auto
  qed
qed

lemma inv_resolve_end:
  assumes inv: "r_inv s" and run: "resolving (req s)"
    and out: "outcome (p_heap (tab s) ! pid (req s)) = Some (env, None)"
    and res: "completeResponse decode z w c (msg env) ob hook = (v, err, retry, obs)"
    and fin: "resolveResponse_end z (v, err, retry) (req s) (tab s) = ((v', e), r, t)"
  shows "r_inv (s\<lparr>req := r, tab := t, observed := observed s + (if obs then 1 else 0), told := told s @ claim_of e\<rparr>)"
    (is "r_inv ?s")
proof -
  have pos: "submission (req s) = Possible" by (rule inv_possible [OF inv out])
  have cl: "NotStarted \<notin> set (claim_of err)" "obs \<Longrightarrow> \<not> retry" using completeResponse_claims [OF res] by auto
  have st: "submissionStateLocked (req s) = Possible" using pos by (simp add: submissionStateLocked_def)
  have none: "resolved (req s) = None" "observed s = 0"
    using inv run by (auto simp: r_inv_def seen_ok_def le_Suc_eq)
  have idle: "disp s \<noteq> DIdle" using inv pos by (auto simp: r_inv_def ctl_ok_def)
  have ns: "\<not> sealed s" "\<not> sealed x" if "submission (req x) = Possible" for x :: "'a rsys"
    using pos that by (auto simp: sealed_def)
  from resolve_end_cases [OF fin] show ?thesis
  proof
    assume a: "r = (req s)\<lparr>resolving := False\<rparr> \<and> t = tab s \<and> e = err \<and> retry"
    then have no: "\<not> obs" using cl(2) by blast
    have "tab_ok t r" using inv a by (simp add: r_inv_def tab_ok_def)
    moreover have "sealed ?s = sealed s" using a by (simp add: sealed_def)
    ultimately show ?thesis using inv a cl(1) no none by (auto simp: r_inv_def ctl_ok_def seen_ok_def)
  next
    assume "\<exists>b ph. r = (req s)\<lparr>resolving := False, resolved := Some (v', e), phase := ph, pendingRelease := b\<rparr> \<and>
       (ph = phase (req s) \<and> ph = preparedRequestAbandoned \<or> ph = preparedRequestFinished) \<and>
       (e = err \<or> e = lifecycleError ''wait'' (submissionStateLocked (req s)) (Some ErrRequestAbandoned)) \<and>
       (t = tab s \<or> (\<exists>c. t = release_pending (idKey (req s)) (pid (req s)) c (tab s)))"
    then obtain b ph where r: "r = (req s)\<lparr>resolving := False, resolved := Some (v', e), phase := ph, pendingRelease := b\<rparr>"
      and ph: "ph = preparedRequestAbandoned \<or> ph = preparedRequestFinished"
      and e': "e = err \<or> e = lifecycleError ''wait'' (submissionStateLocked (req s)) (Some ErrRequestAbandoned)"
      and t: "t = tab s \<or> (\<exists>c. t = release_pending (idKey (req s)) (pid (req s)) c (tab s))"
      by blast
    have e: "NotStarted \<notin> set (claim_of e)" using e' cl(1) st by auto
    have "tab_ok t (req s)" using t inv tab_ok_release by (auto simp: r_inv_def)
    then have "tab_ok t r" by (simp add: tab_ok_def r)
    moreover have "\<not> sealed s" "\<not> sealed ?s" using pos by (simp_all add: sealed_def r)
    moreover have "ctl_ok ?s"
      using inv ph idle pos calculation(2,3) by (auto simp: r_inv_def ctl_ok_def r)
    moreover have "seen_ok ?s" using inv none pos e calculation(2) by (auto simp: r_inv_def seen_ok_def r)
    ultimately show ?thesis by (simp add: r_inv_def)
  qed
qed

lemma inv_abandon:
  assumes inv: "r_inv s" and ab: "Abandon (req s) (tab s) = (st, r, t)"
  shows "r_inv (s\<lparr>req := r, tab := t, told := told s @ [st]\<rparr>)" (is "r_inv ?s")
proof (cases "resolved (req s) \<noteq> None \<or> phase (req s) = preparedRequestFinished")
  case True
  then have eq: "st = submission (req s)" "r = req s" "t = tab s" using ab by (auto simp: Abandon_def)
  have "st = NotStarted \<Longrightarrow> sealed s"
    using True inv by (auto simp: eq sealed_def r_inv_def seen_ok_def)
  then show ?thesis using inv_told [OF inv, of "[st]"] by (simp add: eq)
next
  case False
  let ?r = "(req s)\<lparr>phase := preparedRequestAbandoned, abandoned := True\<rparr>"
  have st: "st = submission (req s)"
    using False ab by (auto simp: Abandon_def Let_def split: prod.splits if_splits)
  obtain b where r: "r = (req s)\<lparr>phase := preparedRequestAbandoned, abandoned := True, pendingRelease := b\<rparr>"
    and t: "resolving (req s) \<and> t = detachPending (idKey (req s)) (pid (req s)) (tab s) \<or>
      t = tab s \<or> (\<exists>c. t = release_pending (idKey (req s)) (pid (req s)) c (tab s))"
  proof (cases "resolving (req s)")
    case True
    then have eq: "r = ?r" "t = detachPending (idKey (req s)) (pid (req s)) (tab s)"
      using ab False by (auto simp: Abandon_def Let_def)
    have "?r = (req s)\<lparr>phase := preparedRequestAbandoned, abandoned := True, pendingRelease := pendingRelease (req s)\<rparr>"
      by simp
    with eq True that show ?thesis by blast
  next
    case nr: False
    then have eq: "releasePending ErrRequestAbandoned ?r (tab s) = (r, t)"
      using ab False by (auto simp: Abandon_def Let_def split: prod.splits)
    from releasePending_req [OF eq] releasePending_tab [OF eq] that show ?thesis by auto
  qed
  have tab: "tab_ok (tab s) (req s)" and ctl: "ctl_ok s" and seen: "seen_ok s" using inv by (auto simp: r_inv_def)
  have own: "owns (idKey (req s)) (pid (req s)) (tab s)" and inv_t: "pend_inv (tab s)"
    using tab by (auto simp: tab_ok_def)
  have "tab_ok t (req s)"
  proof (cases "resolving (req s) \<and> t = detachPending (idKey (req s)) (pid (req s)) (tab s)")
    case True
    then obtain env where "outcome (p_heap (tab s) ! pid (req s)) = Some (env, None)"
      using tab by (auto simp: tab_ok_def)
    then have "responded (p_heap (tab s) ! pid (req s))" using owned_obj [OF inv_t own] by (auto simp: obj_ok_def)
    then have "p_step (tab s) t" using own True by (auto intro: p_step.detach)
    then show ?thesis using True tab by (intro tab_ok_step [OF tab]) (auto simp: detachPending_def intro: adm_heap)
  next
    case False
    with t tab tab_ok_release show ?thesis by blast
  qed
  then have tab': "tab_ok t r" by (simp add: tab_ok_def r)
  have late: "sealed s \<Longrightarrow> sealed ?s" "st = NotStarted \<Longrightarrow> sealed ?s" by (auto simp: sealed_def r st)
  have "ctl_ok ?s" using ctl late by (auto simp: ctl_ok_def r)
  moreover have "seen_ok ?s" using seen late by (auto simp: seen_ok_def r)
  ultimately show ?thesis using tab' by (simp add: r_inv_def)
qed

lemma Wait_phase_cases:
  "Wait_phase r = Some e \<Longrightarrow> dispatch_once r = Some e \<or> e = None \<or>
    e = lifecycleError ''wait'' (submissionStateLocked r) (Some ErrRequestAbandoned)"
  by (cases "phase r"; cases "dispatch_once r") (simp_all add: Wait_phase_def)

lemma r_step_inv: "r_step z s s' \<Longrightarrow> r_inv s \<Longrightarrow> r_inv s'"
proof (induction rule: r_step.induct)
  case (observe obs s e r)
  have r: "\<exists>x. r = (req s)\<lparr>observer := x\<rparr>"
    using observe.hyps by (auto simp: ObserveResponse_def split: option.splits if_splits intro: exI [of _ "observer (req s)"])
  then have "r_inv (s\<lparr>req := r, tab := tab s, told := told s @ []\<rparr>)"
    using observe.prems by (intro inv_frame) (auto simp: same_ctl_def r_inv_def)
  then show ?case by simp
next
  case (dispatch s r f c)
  then have ph: "phase (req s) = preparedRequestReady" and r: "r = (req s)\<lparr>phase := preparedRequestDispatching\<rparr>"
    by (auto simp: Dispatch_begin_def split: if_splits)
  have "disp s = DIdle" "wst s = WNone" "\<not> sealed s" "submission (req s) = NotStarted"
    using dispatch.prems ph by (auto simp: r_inv_def ctl_ok_def sealed_def)
  moreover have "dispatch_once (req s) = None" "resp_reads s = 0"
    using dispatch.prems ph calculation(1) by (auto simp: r_inv_def ctl_ok_def)
  moreover have "tab_ok (tab s) r" using dispatch.prems by (simp add: r_inv_def tab_ok_def r)
  moreover have "parked s = []" using dispatch.prems by (simp add: r_inv_def ctl_ok_def)
  moreover have "NotStarted \<notin> set (told s)" using dispatch.prems calculation(3) by (auto simp: r_inv_def seen_ok_def)
  ultimately show ?case using dispatch.prems by (auto simp: r_inv_def ctl_ok_def seen_ok_def r)
next
  case (switch i s f c d w)
  then show ?case by (simp add: r_inv_def ctl_ok_def)
next
  case (wait_dispatching s c)
  have "NotStarted \<in> set (claim_of (lifecycleError ''wait'' (submissionStateLocked (req s)) (ctx_cause (Some c)))) \<Longrightarrow> sealed s"
    by (rule sealed_late [OF _ refl wait_dispatching]) (simp add: ctx_cause_def)
  then show ?case by (rule inv_told [OF wait_dispatching])
next
  case (wait_phase s e)
  from wait_phase.prems have tl: "NotStarted \<in> set (told s) \<longrightarrow> sealed s"
    "\<forall>e. dispatch_once (req s) = Some e \<longrightarrow> set (claim_of e) \<subseteq> set (told s)"
    by (simp_all add: r_inv_def seen_ok_def dispatch_told_def)
  show ?case
  proof (rule inv_told [OF wait_phase.prems])
    assume ns: "NotStarted \<in> set (claim_of e)"
    from wait_phase.hyps consider "dispatch_once (req s) = Some e"
      | "e = lifecycleError ''wait'' (submissionStateLocked (req s)) (Some ErrRequestAbandoned)" | "e = None"
      using Wait_phase_cases by blast
    then show "sealed s"
    proof cases
      case 1
      with ns tl show ?thesis by blast
    next
      case 2
      with ns have "submissionStateLocked (req s) = NotStarted" by simp
      then show ?thesis by (rule sealed_late [OF _ refl wait_phase.prems])
    qed (use ns in simp)
  qed
next
  case (wait_sees_response s)
  have "\<not> early (phase (req s))" using wait_sees_response.hyps by auto
  then show ?case by (rule inv_reads(2) [OF wait_sees_response.prems])
next
  case (others s t)
  show ?case by (rule inv_others [OF others.prems others.hyps])
next
  case (dispatch_again s e r)
  show ?case by (rule inv_dispatch_again [OF dispatch_again.prems dispatch_again.hyps])
next
  case (write_begin s r t)
  show ?case by (rule inv_write_begin [OF write_begin.prems write_begin.hyps])
next
  case (write_refused s e r t)
  show ?case by (rule inv_write_refused [OF write_refused.prems write_refused.hyps])
next
  case (write_failed s e)
  show ?case by (rule inv_write_failed [OF write_failed.prems write_failed.hyps])
next
  case (fail_begin s cause st ab r)
  show ?case by (rule inv_fail_begin [OF fail_begin.prems fail_begin.hyps])
next
  case (fail_end s cause st e r t)
  show ?case by (rule inv_fail_end [OF fail_end.prems fail_end.hyps])
next
  case (write_end s res st ab e r t)
  show ?case by (rule inv_write_end [OF write_end.prems write_end.hyps])
next
  case (aband_end s e r)
  show ?case by (rule inv_aband_end [OF aband_end.prems aband_end.hyps])
next
  case (cancel sent s e r)
  show ?case by (rule inv_cancel [OF cancel.prems cancel.hyps])
next
  case (wait_ready s e r)
  show ?case by (rule inv_wait_ready [OF wait_ready.prems wait_ready.hyps(2)])
next
  case (wait_response s by_ctx c e r)
  show ?case by (rule inv_wait_response [OF wait_response.prems wait_response.hyps])
next
  case (resolve_known s v e env)
  show ?case by (rule inv_resolve_known [OF resolve_known.prems resolve_known.hyps(2,3)])
next
  case (resolve_begin s env r)
  show ?case by (rule inv_resolve_begin [OF resolve_begin.prems resolve_begin.hyps(3,2)])
next
  case (abandon s st r t)
  show ?case by (rule inv_abandon [OF abandon.prems abandon.hyps])
next
  case (resolve_end s env decode wait_err c v err retry obs v' e r t)
  show ?case by (rule inv_resolve_end [OF resolve_end.prems resolve_end.hyps])
next
  case (wait_sees_ready s)
  then show ?case using inv_reads(1) [where s = s and n = "ready_reads s + 1" and ts = "told_stale s"] by simp
next
  case (ctx_ends s c)
  then show ?case by (simp add: r_inv_def ctl_ok_def seen_ok_def sealed_def; blast)
next
  case (enqueue_write s)
  then show ?case by (simp add: r_inv_def ctl_ok_def seen_ok_def sealed_def; blast)
next
  case (write_ctx s err cause)
  then show ?case by (simp add: r_inv_def ctl_ok_def seen_ok_def sealed_def; blast)
next
  case (write_call s)
  then show ?case by (simp add: r_inv_def ctl_ok_def seen_ok_def sealed_def; blast)
next
  case (write_ok s)
  then show ?case by (simp add: r_inv_def ctl_ok_def seen_ok_def sealed_def; blast)
next
  case (got_result s res)
  then show ?case by (simp add: r_inv_def ctl_ok_def seen_ok_def sealed_def; blast)
next
  case (got_ctx s err cause)
  then show ?case by (simp add: r_inv_def ctl_ok_def seen_ok_def sealed_def; blast)
next
  case (got_closed s)
  then show ?case by (simp add: r_inv_def ctl_ok_def seen_ok_def sealed_def; blast)
next
  case (got_abandoned s)
  then show ?case by (simp add: r_inv_def ctl_ok_def seen_ok_def sealed_def; blast)
qed

lemma prepare_inv:
  assumes "pend_inv p" "k \<notin> fst ` set (p_map p)" "prepare k enc gated hook p = (Inr r, t)"
  shows "tab_ok t r \<and> phase r = preparedRequestReady \<and> submission r = NotStarted \<and> dispatch_once r = None \<and>
    \<not> resolving r \<and> resolved r = None \<and> abort_once r = None"
proof -
  obtain i where i: "addPending k gated p = (Inr i, t)"
    and r: "idKey r = k" "pid r = i" "phase r = preparedRequestReady" "submission r = NotStarted" "dispatch_once r = None"
      "\<not> resolving r" "resolved r = None" "abort_once r = None"
    using assms(3) by (auto simp: prepare_def split: prod.splits sum.splits)
  have inv: "pend_inv t" by (rule add_pend [OF assms(1,2) i])
  have p: "\<forall>j \<in> snd ` set (p_map p). j < length (p_heap p)"
    using assms(1) by (auto simp: pend_inv_def dest: core_bound)
  have "i = length (p_heap p)" "length (p_heap t) = Suc i" "set (p_map t) \<subseteq> insert (k, i) (set (p_map p))"
    "\<not> admitted (p_heap t ! i)"
    using i by (auto simp: addPending_def Let_def map_set_def split: if_splits)
  then show ?thesis using inv r p by (force simp: tab_ok_def owns_def)
qed

lemma r_init_inv: "r_init s \<Longrightarrow> r_inv s"
proof -
  assume a: "r_init s"
  then obtain limit p k enc gated hook where p: "reach (\<lambda>p. p = new_pendings limit) p_step p"
    "k \<notin> fst ` set (p_map p)" "prepare k enc gated hook p = (Inr (req s), tab s)"
    by (auto simp: r_init_def)
  have "pend_inv p" by (rule table.reach_inv [OF p(1)])
  from prepare_inv [OF this p(2,3)] a show ?thesis
    by (auto simp: r_init_def r_inv_def ctl_ok_def seen_ok_def)
qed

interpretation prepared: invariant_system r_init "r_step z" r_inv for z
  by unfold_locales (auto intro: r_init_inv r_step_inv)

section \<open>Stability\<close>

text \<open>Results that are set are never changed.\<close>

definition results_kept :: "'a prepared_request \<Rightarrow> 'a prepared_request \<Rightarrow> bool" where
  "results_kept r r' \<longleftrightarrow> (\<forall>x. resolved r = Some x \<longrightarrow> resolved r' = Some x) \<and>
     (\<forall>e. dispatch_once r = Some e \<longrightarrow> dispatch_once r' = Some e)"

lemma results_kept_refl [simp]: "results_kept r r"
  by (simp add: results_kept_def)

lemma results_kept_trans: "results_kept r s \<Longrightarrow> results_kept s t \<Longrightarrow> results_kept r t"
  by (simp add: results_kept_def)

lemma ended_kept: "dispatch_once r = None \<Longrightarrow> dispatch_ended st e r r' \<Longrightarrow> results_kept r r'"
  by (auto simp: dispatch_ended_def results_kept_def)

lemma r_step_kept:
  assumes "r_inv s" "r_step z s t"
  shows "results_kept (req s) (req t)"
proof -
  have once: "disp s \<noteq> DReturned \<Longrightarrow> dispatch_once (req s) = None"
    using assms(1) by (simp add: r_inv_def ctl_ok_def)
  from assms(2) show ?thesis
  proof cases
    case (fail_end cause st e r t)
    then show ?thesis using failDispatch_finish_ended [OF once fail_end(3)] ended_kept [OF once] by auto
  next
    case (write_end res st ab e r t)
    then show ?thesis using completeWrite_finish_ended [OF once write_end(3)] ended_kept [OF once] by auto
  next
    case (aband_end e r)
    then show ?thesis using completeAbandoned_ended [OF once aband_end(3)] ended_kept [OF once] by auto
  next
    case (resolve_end env decode wait_err c v err retry obs v' e r t)
    have "resolved (req s) = None" using assms(1) resolve_end(2) by (simp add: r_inv_def seen_ok_def)
    with resolve_end_cases [OF resolve_end(5)] show ?thesis
      by (auto simp: results_kept_def resolve_end(1))
  next
    case (abandon st r t)
    then show ?thesis
      by (auto simp: Abandon_def Let_def results_kept_def split: if_splits prod.splits dest!: releasePending_req)
  next
    case (write_begin r t)
    then show ?thesis by (auto simp: beginWrite_def results_kept_def split: if_splits prod.splits option.splits)
  next
    case (write_refused e r t)
    then show ?thesis by (auto simp: beginWrite_def results_kept_def split: if_splits prod.splits option.splits)
  next
    case (observe obs e r)
    then show ?thesis by (auto simp: ObserveResponse_def results_kept_def split: if_splits option.splits)
  next
    case (dispatch r)
    then show ?thesis by (auto simp: Dispatch_begin_def results_kept_def split: if_splits)
  next
    case (fail_begin cause st ab r)
    then show ?thesis by (auto simp: failDispatch_begin_def results_kept_def split: if_splits)
  next
    case (cancel sent e r)
    then show ?thesis by (auto simp: CancelRequest_def Let_def results_kept_def split: if_splits)
  next
    case (wait_ready e r)
    then show ?thesis by (auto simp: Wait_ready_def results_kept_def split: if_splits option.splits prod.splits)
  next
    case (wait_response by_ctx c e r)
    then show ?thesis by (auto simp: waitResponse_def Let_def results_kept_def split: if_splits option.splits prod.splits)
  next
    case (resolve_begin env r)
    then show ?thesis by (auto simp: resolveResponse_begin_def results_kept_def split: if_splits option.splits prod.splits)
  qed auto
qed

lemma r_steps_kept: "(r_step z)\<^sup>*\<^sup>* s t \<Longrightarrow> r_inv s \<Longrightarrow> results_kept (req s) (req t)"
proof (induction rule: rtranclp_induct)
  case (step t u)
  have "r_inv t" using prepared.steps_inv [OF step.prems step.hyps(1)] .
  then show ?case using step.IH [OF step.prems] r_step_kept [OF _ step.hyps(2)] results_kept_trans by blast
qed simp

lemma told_grows: "r_step z s t \<Longrightarrow> set (told s) \<subseteq> set (told t)"
  by (induction rule: r_step.induct) auto

lemma told_grows_steps: "(r_step z)\<^sup>*\<^sup>* s t \<Longrightarrow> set (told s) \<subseteq> set (told t)"
  by (induction rule: rtranclp_induct) (auto dest: told_grows)

lemma not_started_calls: "r_inv s \<Longrightarrow> NotStarted \<in> set (told s) \<Longrightarrow> calls s = 0"
  by (auto simp: r_inv_def seen_ok_def ctl_ok_def sealed_def)

section \<open>Properties\<close>

text \<open>A run of one request over a table of its own.\<close>

definition demo_request :: "string prepared_request" where
  "demo_request = (case fst (prepare ''1'' ''{}'' False None (new_pendings 1)) of Inr r \<Rightarrow> r)"

definition demo_start :: "string rsys" where
  "demo_start = \<lparr>tab = snd (prepare ''1'' ''{}'' False (None :: (string \<Rightarrow> go_error option) option) (new_pendings 1)),
     req = demo_request, opts = None, dctx = None, disp = DIdle, wst = WNone, parked = [], calls = 0, observed = 0,
     ready_reads = 0, resp_reads = 0, told = [], told_stale = []\<rparr>"

lemma demo_start_reach: "reach r_init (r_step z) demo_start"
proof (rule reach_init)
  have "reach (\<lambda>p. p = new_pendings 1) p_step (new_pendings 1)" by (rule reach_init) simp
  moreover have "prepare ''1'' ''{}'' False None (new_pendings 1) = (Inr (req demo_start), tab demo_start)"
    by (simp add: demo_start_def demo_request_def prepare_def addPending_def new_pendings_def)
  ultimately have "\<exists>limit p key encoded gated hook r. reach (\<lambda>p. p = new_pendings limit) p_step p \<and>
        key \<notin> fst ` set (p_map p) \<and> prepare key encoded gated hook p = (Inr r, tab demo_start) \<and> req demo_start = r"
    by (intro exI [of _ 1] exI [of _ "new_pendings 1"] exI [of _ "''1''"] exI [of _ "''{}''"] exI [of _ False] exI [of _ None])
      (auto simp: new_pendings_def)
  then show "r_init demo_start" by (simp add: r_init_def) (simp add: demo_start_def)
qed

text \<open>C1: A classification as not submitted is a proof: when \<open>Dispatch\<close>, \<open>Wait\<close>, \<open>CancelRequest\<close> or
  \<open>Abandon\<close> has reported it, the transport's writer was never invoked with the payload, and no
  later step of any goroutine invokes it. The one exception is a \<open>Wait\<close> that read the phase as
  ready and found, at its second critical section, that the phase had moved on: its reports are
  in \<open>told_stale\<close> and not in \<open>told\<close>, and lemma \<open>wait_misreports_submission\<close> shows that they can
  be wrong.\<close>

theorem not_started_is_proof:
  assumes "reach r_init (r_step z) s" "NotStarted \<in> set (told s)" "(r_step z)\<^sup>*\<^sup>* s t"
  shows "calls t = 0"
proof -
  have "r_inv t" by (rule prepared.steps_inv [OF prepared.reach_inv [OF assms(1)] assms(3)])
  moreover have "NotStarted \<in> set (told t)" using assms(2) told_grows_steps [OF assms(3)] by blast
  ultimately show ?thesis by (rule not_started_calls)
qed

lemma not_started_is_proof_witness:
  "calls (demo_start\<lparr>req := fst (snd (Abandon (req demo_start) (tab demo_start))),
     tab := snd (snd (Abandon (req demo_start) (tab demo_start))), told := [NotStarted]\<rparr>) = 0"
    (is "calls ?s = 0")
proof -
  have st: "fst (Abandon (req demo_start) (tab demo_start)) = NotStarted" "told demo_start = []" by code_simp+
  have "r_step '''' demo_start (demo_start\<lparr>req := fst (snd (Abandon (req demo_start) (tab demo_start))),
     tab := snd (snd (Abandon (req demo_start) (tab demo_start))),
     told := told demo_start @ [fst (Abandon (req demo_start) (tab demo_start))]\<rparr>)"
    by (rule r_step.abandon) simp
  then have "r_step '''' demo_start ?s" by (simp add: st)
  then have r: "reach r_init (r_step '''') ?s" by (rule reach_step [OF demo_start_reach])
  show ?thesis by (rule not_started_is_proof [OF r _ rtranclp.rtrancl_refl]) simp
qed

text \<open>C9: The payload is given to the transport's writer at most once, however often and from
  however many goroutines \<open>Dispatch\<close> is called: no second call gets past the check of the phase.
  A dispatch that succeeds means that this one call accepted all of it. The abort callback runs
  only for a request whose write was admitted.\<close>

theorem payload_written_once:
  assumes "reach r_init (r_step z) s"
  shows "parked s = [] \<and> calls s \<le> 1 \<and>
    (dispatch_once (req s) = Some None \<longrightarrow> calls s = 1 \<and> wst s = WDone None) \<and>
    (abort_once (req s) \<noteq> None \<longrightarrow> submission (req s) = Possible)"
  using prepared.reach_inv [OF assms] by (auto simp: r_inv_def ctl_ok_def seen_ok_def)

text \<open>A dispatch that succeeds, from the call to its return.\<close>

lemma demo_dispatched:
  "\<exists>s :: string rsys. reach r_init (r_step z) s \<and> dispatch_once (req s) = Some None \<and> disp s = DReturned"
proof -
  have d0: "fst (Dispatch_begin (req demo_start)) = None" by code_simp
  obtain r1 where d: "Dispatch_begin (req demo_start) = (None, r1)"
    using d0 by (cases "Dispatch_begin (req demo_start)") auto
  let ?bw = "beginWrite None (snd (Dispatch_begin (req demo_start))) (tab demo_start)"
  have b0: "fst ?bw = None" "phase (fst (snd ?bw)) \<noteq> preparedRequestAbandoned"
    "dispatch_once (fst (snd ?bw)) = None" by code_simp+
  obtain r2 t2 where b: "beginWrite None r1 (tab demo_start) = (None, r2, t2)"
    using b0 by (cases "beginWrite None r1 (tab demo_start)") (auto simp: d)
  have r2: "phase r2 \<noteq> preparedRequestAbandoned" "dispatch_once r2 = None" using b0 by (simp_all add: d b)
  obtain r3 where c: "completeWrite_finish (submission r2) False None None r2 t2 = (None, r3, t2)"
    and r3: "dispatch_once r3 = Some None"
    using r2 by (simp add: completeWrite_finish_def completeDispatch_def)
  have sel: "calls demo_start = 0" "disp demo_start = DIdle" "told demo_start = []" "parked demo_start = []" by code_simp+
  let ?s1 = "demo_start\<lparr>req := r1, opts := None, dctx := None, disp := DSelect, wst := WNone,
      parked := (if disp demo_start = DIdle then parked demo_start
        else (opts demo_start, dctx demo_start, disp demo_start, wst demo_start) # parked demo_start)\<rparr>"
  let ?s2 = "?s1\<lparr>wst := WQueued\<rparr>"
  let ?s3 = "?s2\<lparr>wst := WBegun, req := r2, tab := t2\<rparr>"
  let ?s4 = "?s3\<lparr>wst := WWriting, calls := calls ?s3 + 1\<rparr>"
  let ?s5 = "?s4\<lparr>wst := WDone None\<rparr>"
  let ?s6 = "?s5\<lparr>disp := DWrite None (submission (req ?s5)) (phase (req ?s5) = preparedRequestAbandoned)\<rparr>"
  let ?s7 = "?s6\<lparr>disp := DReturned, req := r3, tab := t2, told := told ?s6 @ claim_of None\<rparr>"
  have "reach r_init (r_step z) ?s1" by (rule reach_step [OF demo_start_reach]) (rule r_step.dispatch, simp add: d)
  then have "reach r_init (r_step z) ?s2" by (rule reach_step) (rule r_step.enqueue_write, simp_all)
  then have "reach r_init (r_step z) ?s3" by (rule reach_step) (rule r_step.write_begin, simp_all add: b)
  then have "reach r_init (r_step z) ?s4" by (rule reach_step) (rule r_step.write_call, simp)
  then have "reach r_init (r_step z) ?s5" by (rule reach_step) (rule r_step.write_ok, simp)
  then have "reach r_init (r_step z) ?s6" by (rule reach_step) (rule r_step.got_result, simp_all)
  then have "reach r_init (r_step z) ?s7"
    by (rule reach_step) (rule r_step.write_end, simp, simp add: r2 c)
  then show ?thesis by (intro exI [of _ ?s7]) (simp add: r3)
qed

lemma payload_written_once_witness:
  "\<exists>s :: string rsys. reach r_init (r_step '''') s \<and> disp s = DReturned \<and> calls s = 1 \<and> wst s = WDone None"
proof -
  obtain s :: "string rsys" where s: "reach r_init (r_step '''') s" "dispatch_once (req s) = Some None" "disp s = DReturned"
    using demo_dispatched by blast
  show ?thesis using payload_written_once [OF s(1)] s by blast
qed

text \<open>The observer of a response is called at most once, however many goroutines wait and
  whatever they retry, and once it was called the result is final.\<close>

lemma observer_called_once:
  assumes "reach r_init (r_step z) s"
  shows "observed s \<le> 1 \<and> (observed s = 1 \<longrightarrow> resolved (req s) \<noteq> None)"
  using prepared.reach_inv [OF assms] unfolding r_inv_def seen_ok_def by blast

lemma observer_called_once_witness: "observed demo_start \<le> 1"
  using observer_called_once [OF demo_start_reach] by blast

text \<open>The result of a dispatch and the result of a response are final: once set, no step of any
  goroutine changes them.\<close>

lemma results_final:
  assumes "reach r_init (r_step z) s" "(r_step z)\<^sup>*\<^sup>* s t"
  shows "(\<forall>x. resolved (req s) = Some x \<longrightarrow> resolved (req t) = Some x) \<and>
    (\<forall>e. dispatch_once (req s) = Some e \<longrightarrow> dispatch_once (req t) = Some e)"
  using r_steps_kept [OF assms(2) prepared.reach_inv [OF assms(1)]] by (simp add: results_kept_def)

lemma results_final_witness:
  "\<exists>(s :: string rsys) (t :: string rsys) e. dispatch_once (req s) = Some e \<and> told s \<noteq> told t \<and> dispatch_once (req t) = Some e"
proof -
  let ?c = "(Canceled, Canceled)"
  let ?s1 = "demo_start\<lparr>dctx := Some ?c\<rparr>"
  have d0: "fst (Dispatch_begin (req demo_start)) = None" by code_simp
  obtain r1 where d: "Dispatch_begin (req demo_start) = (None, r1)"
    using d0 by (cases "Dispatch_begin (req demo_start)") auto
  have f0: "fst (failDispatch_begin (snd (Dispatch_begin (req demo_start)))) = NotStarted"
    "fst (snd (failDispatch_begin (snd (Dispatch_begin (req demo_start))))) = False"
    "dispatch_once (snd (snd (failDispatch_begin (snd (Dispatch_begin (req demo_start)))))) = None" by code_simp+
  obtain r2 where f: "failDispatch_begin r1 = (NotStarted, False, r2)" and once: "dispatch_once r2 = None"
    using f0 by (cases "failDispatch_begin r1") (auto simp: d)
  obtain e r3 t3 where g: "failDispatch_finish NotStarted Canceled None r2 (tab demo_start) = (e, r3, t3)"
    by (cases "failDispatch_finish NotStarted Canceled None r2 (tab demo_start)") auto
  have ended: "dispatch_once r3 = Some e"
    using failDispatch_finish_ended [OF once g] by (auto simp: dispatch_ended_def)
  have sel: "wst demo_start = WNone" "dctx demo_start = None" "opts demo_start = None" by code_simp+
  let ?s2 = "?s1\<lparr>req := r1, opts := None, dctx := dctx ?s1, disp := DSelect, wst := WNone,
      parked := (if disp ?s1 = DIdle then parked ?s1 else (opts ?s1, dctx ?s1, disp ?s1, wst ?s1) # parked ?s1)\<rparr>"
  let ?s3 = "?s2\<lparr>disp := DFailing Canceled\<rparr>"
  let ?s4 = "?s3\<lparr>disp := (if False then DAband else DFail Canceled NotStarted), req := r2\<rparr>"
  let ?s5 = "?s4\<lparr>disp := DReturned, req := r3, tab := t3, told := told ?s4 @ claim_of e\<rparr>"
  let ?s6 = "?s5\<lparr>told := told ?s5 @ claim_of (lifecycleError ''wait'' (submissionStateLocked (req ?s5)) (ctx_cause (Some ?c)))\<rparr>"
  have "reach r_init (r_step '''') ?s1"
    by (rule reach_step [OF demo_start_reach r_step.ctx_ends]) (simp add: sel)
  then have "reach r_init (r_step '''') ?s2" by (rule reach_step) (rule r_step.dispatch, simp add: d)
  then have "reach r_init (r_step '''') ?s3" by (rule reach_step) (rule r_step.got_ctx, simp_all add: sel)
  then have "reach r_init (r_step '''') ?s4" by (rule reach_step) (rule r_step.fail_begin, simp_all add: f)
  then have "reach r_init (r_step '''') ?s5" by (rule reach_step) (rule r_step.fail_end, simp, simp add: sel, rule g)
  then have r5: "reach r_init (r_step '''') ?s5" .
  have st: "r_step '''' ?s5 ?s6" by (rule r_step.wait_dispatching)
  have e5: "dispatch_once (req ?s5) = Some e" by (simp add: ended)
  have ne: "told ?s5 \<noteq> told ?s6" by (simp add: ctx_cause_def)
  obtain s t where s: "s = ?s5" and t: "t = ?s6" by blast
  have "dispatch_once (req t) = Some e"
    using results_final [OF r5 r_into_rtranclp [where r = "r_step ''''", OF st]] e5 unfolding s t by blast
  moreover have "told s \<noteq> told t" unfolding s t by (rule ne)
  moreover have "dispatch_once (req s) = Some e" unfolding s by (rule e5)
  ultimately show ?thesis by blast
qed

text \<open>
  A \<open>Wait\<close> that has read the phase as ready before the dispatch, and looks at the pending
  response after the connection failed, reports that nothing was submitted although the writer
  was invoked.
\<close>

lemma wait_misreports_submission:
  "\<exists>s :: string rsys. reach r_init (r_step '''') s \<and> calls s = 1 \<and> told s = [] \<and> told_stale s = [NotStarted]"
proof -
  have d0: "fst (Dispatch_begin (req demo_start)) = None" by code_simp
  obtain r1 where d: "Dispatch_begin (req demo_start) = (None, r1)"
    using d0 by (cases "Dispatch_begin (req demo_start)") auto
  let ?bw = "beginWrite None (snd (Dispatch_begin (req demo_start))) (tab demo_start)"
  let ?b = "beginWrite None r1 (tab demo_start)"
  have "fst ?bw = None" by code_simp
  then have b0: "fst ?b = None" by (simp add: d)
  have w0: "RequestSubmissionStateOf (fst (Wait_ready Pending (fst (snd ?bw)) (shutdown_pendings ErrClosed (snd (snd ?bw)))))
      = (NotStarted, True)" by code_simp
  obtain r2 t2 where b: "?b = (None, r2, t2)" using b0 by (cases ?b) auto
  let ?t3 = "shutdown_pendings ErrClosed t2"
  let ?s1 = "demo_start\<lparr>ready_reads := ready_reads demo_start + 1\<rparr>"
  let ?s2 = "?s1\<lparr>req := r1, opts := None, dctx := dctx ?s1, disp := DSelect, wst := WNone,
      parked := (if disp ?s1 = DIdle then parked ?s1 else (opts ?s1, dctx ?s1, disp ?s1, wst ?s1) # parked ?s1)\<rparr>"
  let ?s3 = "?s2\<lparr>wst := WQueued\<rparr>"
  let ?s4 = "?s3\<lparr>wst := WBegun, req := r2, tab := t2\<rparr>"
  let ?s5 = "?s4\<lparr>wst := WWriting, calls := calls ?s4 + 1\<rparr>"
  let ?s6 = "?s5\<lparr>wst := WDone (Some ErrClosed), tab := shutdown_pendings ErrClosed (tab ?s5)\<rparr>"
  have sel: "ready_reads demo_start = 0" "calls demo_start = 0" "wst demo_start = WNone" "dctx demo_start = None"
    "told demo_start = []" "told_stale demo_start = []" "phase (req demo_start) = preparedRequestReady" by code_simp+
  have "phase (fst (snd ?bw)) \<noteq> preparedRequestReady" by code_simp
  then have ph2: "phase r2 \<noteq> preparedRequestReady" by (simp add: d b)
  have w: "RequestSubmissionStateOf (fst (Wait_ready Pending r2 ?t3)) = (NotStarted, True)" using w0 by (simp add: d b)
  have cl: "claim_of (fst (Wait_ready Pending r2 ?t3)) = [NotStarted]" unfolding claim_of_def w by simp
  let ?e = "fst (Wait_ready Pending r2 ?t3)"
  let ?s7 = "?s6\<lparr>req := snd (Wait_ready Pending r2 ?t3),
      told := told ?s6 @ (if phase (req ?s6) = preparedRequestReady then claim_of ?e else []),
      ready_reads := ready_reads ?s6 - 1,
      told_stale := told_stale ?s6 @ (if phase (req ?s6) = preparedRequestReady then [] else claim_of ?e)\<rparr>"
  have "reach r_init (r_step '''') ?s1"
    by (rule reach_step [OF demo_start_reach r_step.wait_sees_ready]) (simp add: sel)
  then have "reach r_init (r_step '''') ?s2"
    by (rule reach_step) (rule r_step.dispatch, simp add: d)
  then have "reach r_init (r_step '''') ?s3"
    by (rule reach_step) (rule r_step.enqueue_write, simp_all add: sel)
  then have "reach r_init (r_step '''') ?s4"
    by (rule reach_step) (rule r_step.write_begin, simp_all add: sel b)
  then have "reach r_init (r_step '''') ?s5"
    by (rule reach_step) (rule r_step.write_call, simp)
  then have "reach r_init (r_step '''') ?s6"
    by (rule reach_step) (rule r_step.write_failed, simp)
  then have "reach r_init (r_step '''') ?s7"
    by (rule reach_step) (rule r_step.wait_ready [where e = "fst (Wait_ready Pending r2 ?t3)"], simp_all add: sel)
  moreover have "calls ?s7 = 1" by (simp add: sel)
  moreover have "told ?s7 = []" "told_stale ?s7 = [NotStarted]" by (simp_all add: sel cl ph2)
  ultimately show ?thesis by (intro exI [of _ ?s7] conjI)
qed

end
