(* ===== verification/Batch.thy ===== *)
theory Batch
  imports Frame Options
begin

text \<open>
  The collection of the replies to one batch (\<open>batchReply\<close> of \<open>connection.go\<close>) and the
  callbacks that run after a response (\<open>afterResponseState\<close>). A callback is a number; the
  closure \<open>finish\<close> of a request is the key and the context that it retires.
\<close>

section \<open>Which entries of a batch are answered\<close>

text \<open>The first loop of \<open>dispatchBatch\<close>: the slot of each entry, and how many there are.\<close>

fun reply_indexes :: "nat \<Rightarrow> batch_entry list \<Rightarrow> nat option list" where
  "reply_indexes n [] = []"
| "reply_indexes n (e # es) =
     (if needsReply e then Some n # reply_indexes (Suc n) es else None # reply_indexes n es)"

definition reply_count :: "batch_entry list \<Rightarrow> nat" where
  "reply_count es = length (filter needsReply es)"

lemma length_reply_indexes [simp]: "length (reply_indexes n es) = length es"
  by (induction n es rule: reply_indexes.induct) auto

lemma reply_indexes_nth:
  "i < length es \<Longrightarrow> reply_indexes n es ! i =
    (if needsReply (es ! i) then Some (n + length (filter needsReply (take i es))) else None)"
  by (induction n es arbitrary: i rule: reply_indexes.induct) (auto simp: nth_Cons split: nat.splits)

lemma reply_indexes_slots: "List.map_filter id (reply_indexes n es) = [n..<n + reply_count es]"
proof (induction n es rule: reply_indexes.induct)
  case (2 n e es)
  have "[n..<n + Suc k] = n # [Suc n..<Suc n + k]" for k by (simp add: upt_conv_Cons del: upt_Suc)
  with 2 show ?case by (auto simp: map_filter_simps reply_count_def simp del: upt_Suc)
qed (simp add: reply_count_def map_filter_simps)

section \<open>The collector\<close>

record response_completion =
  finish :: "(string \<times> nat) option"
  callback :: "nat option"

definition no_completion :: response_completion where
  "no_completion = \<lparr>finish = None, callback = None\<rparr>"

record batch_reply =
  remaining :: int
  replies :: "any_message list"
  present :: "bool list"
  completions :: "response_completion list"

definition new_batch :: "nat \<Rightarrow> batch_reply" where
  "new_batch n =
     \<lparr>remaining = int n, replies = replicate n empty_message, present = replicate n False,
      completions = replicate n no_completion\<rparr>"

text \<open>The critical section of \<open>complete\<close>; the flag says that this call flushes.\<close>

definition batch_complete :: "nat \<Rightarrow> any_message \<Rightarrow> response_completion \<Rightarrow> batch_reply \<Rightarrow> batch_reply \<times> bool" where
  "batch_complete i m cm b =
     (if length (replies b) \<le> i \<or> present b ! i then (b, False)
      else (let b' = b\<lparr>completions := (completions b)[i := cm], replies := (replies b)[i := m],
                       present := (present b)[i := True], remaining := remaining b - 1\<rparr>
            in (b', remaining b' = 0)))"

text \<open>A sequence of calls, with the flags.\<close>

fun batch_run :: "(nat \<times> any_message \<times> response_completion) list \<Rightarrow> batch_reply \<Rightarrow> bool list \<times> batch_reply" where
  "batch_run [] b = ([], b)"
| "batch_run ((i, m, c) # xs) b =
     (case batch_complete i m c b of
        (b', fl) \<Rightarrow> (case batch_run xs b' of (fs, b'') \<Rightarrow> (fl # fs, b'')))"

definition batch_ok :: "batch_reply \<Rightarrow> bool" where
  "batch_ok b \<longleftrightarrow> length (present b) = length (replies b) \<and> length (completions b) = length (replies b) \<and>
     remaining b = int (length (filter Not (present b)))"

lemma new_batch_ok [simp]: "batch_ok (new_batch n)"
  by (simp add: batch_ok_def new_batch_def)

lemma filter_not_update:
  assumes "i < length xs" "\<not> xs ! i"
  shows "Suc (length (filter Not (xs[i := True]))) = length (filter Not xs)"
proof -
  let ?ys = "xs[i := True]"
  have "length (filter (\<lambda>x. x) ?ys) = Suc (length (filter (\<lambda>x. x) xs))"
    by (rule filter_length_update) (use assms in simp_all)
  moreover have "length (filter (\<lambda>x. x) xs) + length (filter (\<lambda>x. \<not> x) xs) = length xs"
    "length (filter (\<lambda>x. x) ?ys) + length (filter (\<lambda>x. \<not> x) ?ys) = length ?ys"
    by (rule sum_length_filter_compl)+
  ultimately have "Suc (length (filter (\<lambda>x. \<not> x) ?ys)) = length (filter (\<lambda>x. \<not> x) xs)" by simp
  then show ?thesis by simp
qed

lemma batch_complete_ok:
  assumes "batch_ok b" "batch_complete i m c b = (b', fl)"
  shows "batch_ok b' \<and> length (replies b') = length (replies b)"
  using assms filter_not_update [of i "present b"]
  by (auto simp: batch_complete_def batch_ok_def Let_def not_le split: if_splits)

text \<open>A flush happens when the last missing reply arrives, so all replies are present then.\<close>

lemma batch_complete_flush:
  assumes "batch_ok b" "batch_complete i m c b = (b', fl)"
  shows "fl \<longleftrightarrow> list_all (\<lambda>x. x) (present b') \<and> \<not> list_all (\<lambda>x. x) (present b)"
proof (cases "length (replies b) \<le> i \<or> present b ! i")
  case True
  then show ?thesis using assms by (auto simp: batch_complete_def)
next
  case False
  then have i: "i < length (present b)" "\<not> present b ! i" using assms(1) by (auto simp: batch_ok_def)
  have b': "present b' = (present b)[i := True]" "remaining b' = remaining b - 1" "fl \<longleftrightarrow> remaining b' = 0"
    using False assms(2) by (auto simp: batch_complete_def Let_def)
  have "batch_ok b'" using batch_complete_ok [OF assms] by blast
  then have "remaining b' = int (length (filter Not (present b')))" by (simp add: batch_ok_def)
  then have "fl \<longleftrightarrow> filter Not (present b') = []" using b'(3) by simp
  also have "\<dots> \<longleftrightarrow> list_all (\<lambda>x. x) (present b')" by (auto simp: filter_empty_conv list_all_iff)
  finally show ?thesis using i by (auto simp: list_all_length)
qed

lemma batch_complete_mono: "batch_ok b \<Longrightarrow> batch_complete i m c b = (b', fl) \<Longrightarrow> list_all (\<lambda>x. x) (present b) \<Longrightarrow>
    list_all (\<lambda>x. x) (present b')"
  by (auto simp: batch_complete_def batch_ok_def list_all_length nth_list_update Let_def split: if_splits)

lemma batch_run_flush:
  "batch_ok b \<Longrightarrow> batch_run xs b = (fs, b') \<Longrightarrow>
    length (filter (\<lambda>x. x) fs) = (if list_all (\<lambda>x. x) (present b') \<and> \<not> list_all (\<lambda>x. x) (present b) then 1 else 0) \<and>
    (list_all (\<lambda>x. x) (present b) \<longrightarrow> list_all (\<lambda>x. x) (present b'))"
proof (induction xs b arbitrary: fs b' rule: batch_run.induct)
  case (2 i m c xs b)
  obtain b1 fl where 1: "batch_complete i m c b = (b1, fl)" by force
  obtain fs1 where r: "batch_run xs b1 = (fs1, b')" "fs = fl # fs1"
    using "2.prems"(2) by (auto simp: 1 split: prod.splits)
  have ok: "batch_ok b1" using batch_complete_ok [OF "2.prems"(1) 1] by blast
  from "2.IH" [OF 1 [symmetric] ok r(1)] batch_complete_flush [OF "2.prems"(1) 1]
    batch_complete_mono [OF "2.prems"(1) 1]
  show ?case by (auto simp: r(2))
qed auto

text \<open>The first reply to a slot stays.\<close>

lemma batch_complete_keeps:
  assumes "batch_ok b" "batch_complete i m c b = (b', fl)" "j < length (replies b)" "present b ! j"
  shows "present b' ! j \<and> replies b' ! j = replies b ! j \<and> completions b' ! j = completions b ! j"
  using assms by (cases "j = i") (auto simp: batch_complete_def batch_ok_def Let_def split: if_splits)

lemma batch_run_keeps:
  "batch_ok b \<Longrightarrow> batch_run xs b = (fs, b') \<Longrightarrow> j < length (replies b) \<Longrightarrow> present b ! j \<Longrightarrow>
    present b' ! j \<and> replies b' ! j = replies b ! j \<and> length (replies b') = length (replies b)"
proof (induction xs b arbitrary: fs b' rule: batch_run.induct)
  case (2 i m c xs b)
  obtain b1 fl where 1: "batch_complete i m c b = (b1, fl)" by force
  obtain fs1 where r: "batch_run xs b1 = (fs1, b')" using "2.prems"(2) by (auto simp: 1 split: prod.splits)
  have ok: "batch_ok b1 \<and> length (replies b1) = length (replies b)" by (rule batch_complete_ok [OF "2.prems"(1) 1])
  have k: "present b1 ! j \<and> replies b1 ! j = replies b ! j"
    using batch_complete_keeps [OF "2.prems"(1) 1 "2.prems"(3,4)] by blast
  from "2.IH" [OF 1 [symmetric] _ r] ok k "2.prems"(3) show ?case by auto
qed auto

lemma batch_run_first:
  "batch_ok b \<Longrightarrow> batch_run xs b = (fs, b') \<Longrightarrow> j < length (replies b) \<Longrightarrow> \<not> present b ! j \<Longrightarrow>
    (case find (\<lambda>x. fst x = j) xs of
       None \<Rightarrow> \<not> present b' ! j
     | Some (_, m, _) \<Rightarrow> present b' ! j \<and> replies b' ! j = m)"
proof (induction xs b arbitrary: fs b' rule: batch_run.induct)
  case (2 i m c xs b)
  obtain b1 fl where 1: "batch_complete i m c b = (b1, fl)" by force
  obtain fs1 where r: "batch_run xs b1 = (fs1, b')" using "2.prems"(2) by (auto simp: 1 split: prod.splits)
  have ok: "batch_ok b1" "length (replies b1) = length (replies b)"
    using batch_complete_ok [OF "2.prems"(1) 1] by auto
  show ?case
  proof (cases "i = j")
    case True
    then have "present b1 ! j \<and> replies b1 ! j = m"
      using 1 "2.prems"(1,3,4) by (auto simp: batch_complete_def batch_ok_def Let_def split: if_splits)
    then show ?thesis using batch_run_keeps [OF ok(1) r, of j] ok(2) "2.prems"(3) True by simp
  next
    case False
    then have "\<not> present b1 ! j"
      using 1 "2.prems"(1,4) by (auto simp: batch_complete_def Let_def split: if_splits)
    then show ?thesis using "2.IH" [OF 1 [symmetric] ok(1) r] ok(2) "2.prems"(3) False by simp
  qed
qed auto

section \<open>Callbacks after a response\<close>

record after_response =
  ar_sealed :: bool
  ar_callback :: "nat option"
  ar_reserve :: bool

definition new_after_response :: "bool \<Rightarrow> after_response" where
  "new_after_response in_batch = \<lparr>ar_sealed = False, ar_callback = None, ar_reserve = in_batch\<rparr>"

text \<open>\<open>reserveBatchCallback\<close> on the tokens in \<open>batchCallbackSlots\<close>.\<close>

definition reserveBatchCallback :: "go_error option \<Rightarrow> nat \<Rightarrow> int \<Rightarrow> go_error option \<times> int" where
  "reserveBatchCallback cause cap slots =
     (case cause of
        Some e \<Rightarrow> (Some e, slots)
      | None \<Rightarrow> if slots < int cap then (None, slots + 1) else (Some ErrAfterResponseQueueFull, slots))"

definition after_response_add :: "go_error option \<Rightarrow> nat \<Rightarrow> nat \<Rightarrow> after_response \<Rightarrow> int \<Rightarrow>
    go_error option \<times> after_response \<times> int" where
  "after_response_add cause cap cb s slots =
     (if ar_sealed s then (Some ErrAfterResponseUnavailable, s, slots)
      else if ar_callback s \<noteq> None then (Some ErrAfterResponseRegistered, s, slots)
      else if ar_reserve s then
        (case reserveBatchCallback cause cap slots of
           (Some e, n) \<Rightarrow> (Some e, s, n)
         | (None, n) \<Rightarrow> (None, s\<lparr>ar_callback := Some cb\<rparr>, n))
      else (None, s\<lparr>ar_callback := Some cb\<rparr>, slots))"

definition after_response_seal :: "after_response \<Rightarrow> nat option \<times> after_response" where
  "after_response_seal s = (ar_callback s, s\<lparr>ar_sealed := True, ar_callback := None\<rparr>)"

section \<open>Properties\<close>

text \<open>C17: Whatever the order in which the entries of a batch are answered, and however often, the
  batch is flushed at most once: by the call that brings the last missing reply, and then
  each slot holds the first reply that was given for it.\<close>

theorem batch_flushed_once:
  assumes "batch_run xs (new_batch n) = (fs, b)" "0 < n"
  shows "length (filter (\<lambda>x. x) fs) = (if \<forall>j < n. \<exists>m c. (j, m, c) \<in> set xs then 1 else 0) \<and>
    (\<forall>j < n. \<forall>m c. find (\<lambda>x. fst x = j) xs = Some (j, m, c) \<longrightarrow> replies b ! j = m)"
proof -
  have len: "length (replies (new_batch n)) = n" "length (present (new_batch n)) = n" by (simp_all add: new_batch_def)
  have np: "j < n \<Longrightarrow> \<not> present (new_batch n) ! j" for j by (simp add: new_batch_def)
  have ok: "batch_ok b" "length (replies b) = n"
  proof -
    have "batch_ok b0 \<Longrightarrow> batch_run ys b0 = (gs, b1) \<Longrightarrow> batch_ok b1 \<and> length (replies b1) = length (replies b0)" for ys b0 gs b1
    proof (induction ys b0 arbitrary: gs b1 rule: batch_run.induct)
      case (2 i m c ys b0)
      then show ?case by (fastforce dest: batch_complete_ok split: prod.splits)
    qed auto
    from this [OF new_batch_ok assms(1)] show "batch_ok b" "length (replies b) = n" by (simp_all add: len)
  qed
  have first: "case find (\<lambda>x. fst x = j) xs of None \<Rightarrow> \<not> present b ! j
      | Some (_, m, _) \<Rightarrow> present b ! j \<and> replies b ! j = m" if "j < n" for j
    using batch_run_first [OF new_batch_ok assms(1), of j] that np by (simp add: len)
  have pres: "present b ! j \<longleftrightarrow> (\<exists>m c. (j, m, c) \<in> set xs)" if "j < n" for j
  proof (cases "find (\<lambda>x. fst x = j) xs")
    case None
    then show ?thesis using first [OF that] None by (auto simp: find_None_iff)
  next
    case (Some x)
    then have "x \<in> set xs" "fst x = j" by (auto simp: find_Some_iff)
    moreover obtain m c where "x = (fst x, m, c)" by (cases x) auto
    ultimately have "x = (j, m, c)" "(j, m, c) \<in> set xs" by auto
    then show ?thesis using first [OF that] Some by auto
  qed
  have "list_all (\<lambda>x. x) (present b) \<longleftrightarrow> (\<forall>j < n. present b ! j)"
    using ok by (simp add: list_all_length batch_ok_def)
  then have "list_all (\<lambda>x. x) (present b) \<longleftrightarrow> (\<forall>j < n. \<exists>m c. (j, m, c) \<in> set xs)"
    using pres by simp
  moreover have "\<not> list_all (\<lambda>x. x) (present (new_batch n))" using assms(2) by (auto simp: list_all_length new_batch_def)
  ultimately have "length (filter (\<lambda>x. x) fs) = (if \<forall>j < n. \<exists>m c. (j, m, c) \<in> set xs then 1 else 0)"
    using batch_run_flush [OF new_batch_ok assms(1)] by simp
  moreover have "\<forall>j < n. \<forall>m c. find (\<lambda>x. fst x = j) xs = Some (j, m, c) \<longrightarrow> replies b ! j = m"
    using first by fastforce
  ultimately show ?thesis by blast
qed

lemma batch_flushed_once_witness:
  "fst (batch_run [(1, empty_message, no_completion), (1, empty_message, no_completion), (0, empty_message, no_completion)]
      (new_batch 2)) = [False, False, True] \<and>
   length (filter (\<lambda>x. x) (fst (batch_run [(1, empty_message, no_completion)] (new_batch 2)))) = 0"
proof -
  obtain fs b where r: "batch_run [(1, empty_message, no_completion)] (new_batch 2) = (fs, b)" by force
  have "length (filter (\<lambda>x. x) fs) = (if \<forall>j < (2::nat). \<exists>m c. (j, m, c) \<in> set [(1, empty_message, no_completion)] then 1 else 0)"
    using batch_flushed_once [OF r] by simp
  moreover have "\<not> (\<forall>j < (2::nat). \<exists>m c. (j, m, c) \<in> set [(1::nat, empty_message, no_completion)])" by force
  ultimately have "length (filter (\<lambda>x. x) fs) = 0" by simp
  moreover have "fst (batch_run [(1, empty_message, no_completion), (1, empty_message, no_completion), (0, empty_message, no_completion)]
      (new_batch 2)) = [False, False, True]" by code_simp
  ultimately show ?thesis by (simp only: r fst_conv)
qed

text \<open>The entries of a batch that need a reply get consecutive slots in the order of the batch,
  and only those: a notification or a response in the batch has none.\<close>

lemma batch_slots_in_order:
  "List.map_filter id (reply_indexes 0 es) = [0..<reply_count es] \<and>
   (\<forall>i < length es. reply_indexes 0 es ! i =
      (if needsReply (es ! i) then Some (length (filter needsReply (take i es))) else None))"
  using reply_indexes_slots [of 0 es] reply_indexes_nth [of _ es 0] by simp


lemma batch_slots_in_order_witness:
  "List.map_filter id (reply_indexes 0 [parseBatchEntry ''1'',
     parseBatchEntry ''{\"jsonrpc\":\"2.0\",\"method\":\"n\"}'',
     parseBatchEntry ''{\"jsonrpc\":\"2.0\",\"id\":1,\"method\":\"m\"}'']) = [0, 1]"
proof -
  let ?es = "[parseBatchEntry ''1'', parseBatchEntry ''{\"jsonrpc\":\"2.0\",\"method\":\"n\"}'',
     parseBatchEntry ''{\"jsonrpc\":\"2.0\",\"id\":1,\"method\":\"m\"}'']"
  have n: "reply_count ?es = 2" by code_simp
  have "List.map_filter id (reply_indexes 0 ?es) = [0..<reply_count ?es]"
    using batch_slots_in_order [of ?es] by (rule conjunct1)
  also have "\<dots> = [0, 1]" unfolding n by (simp add: numeral_2_eq_2)
  finally show ?thesis .
qed

end
