(* ===== verification/Channel.thy ===== *)
theory Channel
  imports Prelude
begin

text \<open>
  Buffered Go channels as the connection uses them: a send in a \<open>select\<close> with a default
  branch fails when the buffer is full, a receive takes the oldest element. The interface
  \<open>bounded_fifo\<close> states what the queues of the connection rely on; a run of sends and
  receives then loses, invents and reorders nothing, and never exceeds the bound.
\<close>

section \<open>The interface\<close>

datatype 'a chan_op = Send 'a | Recv

locale bounded_fifo =
  fixes try_send :: "'a \<Rightarrow> 'q \<Rightarrow> 'q option"
    and receive :: "'q \<Rightarrow> ('a \<times> 'q) option"
    and contents :: "'q \<Rightarrow> 'a list"
    and capacity :: "'q \<Rightarrow> nat"
  assumes send_ok: "length (contents q) < capacity q \<Longrightarrow>
      \<exists>r. try_send x q = Some r \<and> contents r = contents q @ [x] \<and> capacity r = capacity q"
    and send_full: "capacity q \<le> length (contents q) \<Longrightarrow> try_send x q = None"
    and receive_empty: "contents q = [] \<Longrightarrow> receive q = None"
    and receive_Cons: "contents q = y # ys \<Longrightarrow>
      \<exists>r. receive q = Some (y, r) \<and> contents r = ys \<and> capacity r = capacity q"
begin

lemma send_Some:
  "try_send x q = Some r \<Longrightarrow>
    contents r = contents q @ [x] \<and> capacity r = capacity q \<and> length (contents q) < capacity q"
  using send_ok [of q x] send_full [of q x] by (cases "length (contents q) < capacity q") auto

lemma send_None: "try_send x q = None \<longleftrightarrow> capacity q \<le> length (contents q)"
  using send_ok [of q x] send_full [of q x] by (cases "length (contents q) < capacity q") auto

lemma receive_Some:
  "receive q = Some (y, r) \<Longrightarrow> contents q = y # contents r \<and> capacity r = capacity q"
  using receive_empty [of q] receive_Cons [of q] by (cases "contents q") auto

lemma send_within: "length (contents q) \<le> capacity q \<Longrightarrow> try_send x q = Some r \<Longrightarrow>
    length (contents r) \<le> capacity r"
  using send_Some [of x q r] by auto

lemma receive_within: "length (contents q) \<le> capacity q \<Longrightarrow> receive q = Some (y, r) \<Longrightarrow>
    length (contents r) \<le> capacity r"
  using receive_Some [of q y r] by auto

text \<open>A run collects what was accepted and what was received.\<close>

fun run :: "'a chan_op list \<Rightarrow> 'q \<Rightarrow> 'a list \<times> 'a list \<times> 'q" where
  "run [] q = ([], [], q)"
| "run (Send x # ops) q =
     (case try_send x q of
        None \<Rightarrow> run ops q
      | Some r \<Rightarrow> (case run ops r of (acc, rcv, q') \<Rightarrow> (x # acc, rcv, q')))"
| "run (Recv # ops) q =
     (case receive q of
        None \<Rightarrow> run ops q
      | Some (y, r) \<Rightarrow> (case run ops r of (acc, rcv, q') \<Rightarrow> (acc, y # rcv, q')))"

lemma run_fifo:
  "run ops q = (acc, rcv, q') \<Longrightarrow> rcv @ contents q' = contents q @ acc"
proof (induction ops q arbitrary: acc rcv q' rule: run.induct)
  case (2 x ops q)
  then show ?case by (auto split: option.splits prod.splits dest: send_Some)
next
  case (3 ops q)
  then show ?case by (fastforce split: option.splits prod.splits dest: receive_Some)
qed auto

lemma run_bounded:
  "run ops q = (acc, rcv, q') \<Longrightarrow> length (contents q) \<le> capacity q \<Longrightarrow>
    length (contents q') \<le> capacity q' \<and> capacity q' = capacity q"
proof (induction ops q arbitrary: acc rcv q' rule: run.induct)
  case (2 x ops q)
  then show ?case by (fastforce split: option.splits prod.splits dest: send_Some)
next
  case (3 ops q)
  then show ?case by (fastforce split: option.splits prod.splits dest: receive_Some)
qed auto

end

section \<open>Buffered channels\<close>

record 'a chan =
  chan_cap :: nat
  chan_items :: "'a list"

definition make_chan :: "nat \<Rightarrow> 'a chan" where
  "make_chan n = \<lparr>chan_cap = n, chan_items = []\<rparr>"

definition chan_try_send :: "'a \<Rightarrow> 'a chan \<Rightarrow> 'a chan option" where
  "chan_try_send x c =
     (if length (chan_items c) < chan_cap c
      then Some (c\<lparr>chan_items := chan_items c @ [x]\<rparr>) else None)"

definition chan_receive :: "'a chan \<Rightarrow> ('a \<times> 'a chan) option" where
  "chan_receive c =
     (case chan_items c of [] \<Rightarrow> None | x # xs \<Rightarrow> Some (x, c\<lparr>chan_items := xs\<rparr>))"

definition chan_ok :: "'a chan \<Rightarrow> bool" where
  "chan_ok c \<longleftrightarrow> length (chan_items c) \<le> chan_cap c"

interpretation ch: bounded_fifo chan_try_send chan_receive chan_items chan_cap
  by unfold_locales (auto simp: chan_try_send_def chan_receive_def)

lemmas chan_send_Some = ch.send_Some [simplified]
lemmas chan_receive_Some = ch.receive_Some [simplified]

lemma make_chan_simps [simp]: "chan_items (make_chan n) = []" "chan_cap (make_chan n) = n" "chan_ok (make_chan n)"
  by (simp_all add: make_chan_def chan_ok_def)

lemma chan_send_ok: "chan_ok c \<Longrightarrow> chan_try_send x c = Some d \<Longrightarrow> chan_ok d"
  using ch.send_within by (auto simp: chan_ok_def)

lemma chan_receive_ok: "chan_ok c \<Longrightarrow> chan_receive c = Some (x, d) \<Longrightarrow> chan_ok d"
  using ch.receive_within by (auto simp: chan_ok_def)

end
