(* ===== verification/Notifications.thy ===== *)
theory Notifications
  imports Channel Frame "HOL-Library.FSet"
begin

text \<open>
  The inbound notification pipeline of \<open>connection.go\<close>: admission into a bounded queue
  with a byte budget (\<open>enqueueNotification\<close>), the ordered processing by one goroutine,
  including the re-entrant processing by a handler that waits for a response
  (\<open>processNotification\<close>, \<open>waitNotificationsReentrant\<close>), and the completion watermark
  (\<open>markNotificationComplete\<close>) that responses wait for.

  The state \<open>notifier\<close> holds the fields that \<open>notifyMu\<close> guards, the queue, and the local
  variables of the goroutine in \<open>processNotification\<close>: \<open>n_running\<close> is its stack of
  notifications, the innermost first, each with how far its processing has come. Sequence
  numbers are natural numbers; the code's \<open>uint64\<close> would wrap after \<open>2 ^ 64\<close> notifications.

  A response delivery is a number; the chain a notification waits for is the list of the
  deliveries that \<open>previous\<close> links, the latest first.
\<close>

section \<open>State and operations\<close>

record queued_notification =
  seq :: nat
  q_delivery :: "nat list"
  q_msg :: any_message

datatype progress = Waiting | Active | Marked

record notifier =
  n_limit :: nat
  n_queue :: "queued_notification chan"
  n_bytes :: int
  lastEnqueuedNotificationSeq :: nat
  completedNotificationSeq :: nat
  completedNotifications :: "nat fset"
  n_running :: "(queued_notification \<times> progress) list"

definition new_notifier :: "nat \<Rightarrow> nat \<Rightarrow> notifier" where
  "new_notifier limit qcap =
     \<lparr>n_limit = limit, n_queue = make_chan qcap, n_bytes = 0, lastEnqueuedNotificationSeq = 0,
      completedNotificationSeq = 0, completedNotifications = {||}, n_running = []\<rparr>"

definition msg_bytes :: "any_message \<Rightarrow> int" where
  "msg_bytes m = int (length (Method m)) + int (length (Params m))"

text \<open>\<open>enqueueNotification\<close> after the admission predicate: \<open>None\<close> is the result false.\<close>

definition enqueueNotification :: "nat list \<Rightarrow> any_message \<Rightarrow> notifier \<Rightarrow> notifier option" where
  "enqueueNotification delivery msg n =
     (if msg_bytes msg > int (n_limit n) - n_bytes n then None
      else (let s = lastEnqueuedNotificationSeq n + 1
            in case chan_try_send \<lparr>seq = s, q_delivery = delivery, q_msg = msg\<rparr> (n_queue n) of
                 None \<Rightarrow> None
               | Some q \<Rightarrow> Some (n\<lparr>n_queue := q, n_bytes := n_bytes n + msg_bytes msg,
                                   lastEnqueuedNotificationSeq := s\<rparr>)))"

text \<open>The loop of \<open>markNotificationComplete\<close> that moves the watermark.\<close>

function advance :: "nat \<Rightarrow> nat fset \<Rightarrow> nat \<times> nat fset" where
  "advance c done =
     (if Suc c |\<in>| done then advance (Suc c) (done |-| {|Suc c|}) else (c, done))"
  by pat_completeness auto
termination
proof (relation "measure (\<lambda>(c, d). fcard d)", goal_cases)
  case (2 c d)
  then have "d |-| {|Suc c|} |\<subset>| d" by auto
  then show ?case by (simp add: pfsubset_fcard_mono)
qed simp

declare advance.simps [simp del]

definition markNotificationComplete :: "nat \<Rightarrow> notifier \<Rightarrow> notifier" where
  "markNotificationComplete s n =
     (case advance (completedNotificationSeq n) (finsert s (completedNotifications n)) of
        (c, d) \<Rightarrow> n\<lparr>completedNotificationSeq := c, completedNotifications := d\<rparr>)"

definition notificationAlreadyProcessed :: "nat \<Rightarrow> notifier \<Rightarrow> bool" where
  "notificationAlreadyProcessed s n \<longleftrightarrow>
     completedNotificationSeq n \<ge> s \<or> s |\<in>| completedNotifications n"

text \<open>
  The steps of \<open>processNotification\<close>. Taking an element from the queue pushes it; the
  handler starts when the deliveries it waits for are done; when the handler returns, or
  when the connection is closed before it starts, the notification is marked; the deferred
  function gives the bytes back.
\<close>

definition take_notification :: "notifier \<Rightarrow> notifier option" where
  "take_notification n =
     (case chan_receive (n_queue n) of
        None \<Rightarrow> None
      | Some (q, c) \<Rightarrow> Some (n\<lparr>n_queue := c, n_running := (q, Waiting) # n_running n\<rparr>))"

definition start_handler :: "notifier \<Rightarrow> notifier option" where
  "start_handler n =
     (case n_running n of
        (q, Waiting) # r \<Rightarrow> Some (n\<lparr>n_running := (q, Active) # r\<rparr>)
      | _ \<Rightarrow> None)"

definition mark_top :: "notifier \<Rightarrow> notifier option" where
  "mark_top n =
     (case n_running n of
        (q, p) # r \<Rightarrow>
          if p = Marked then None
          else Some (markNotificationComplete (seq q) (n\<lparr>n_running := (q, Marked) # r\<rparr>))
      | [] \<Rightarrow> None)"

definition release_top :: "notifier \<Rightarrow> notifier option" where
  "release_top n =
     (case n_running n of
        (q, Marked) # r \<Rightarrow> Some (n\<lparr>n_bytes := n_bytes n - msg_bytes (q_msg q), n_running := r\<rparr>)
      | _ \<Rightarrow> None)"

text \<open>
  One round of the loop of \<open>waitNotificationsReentrant\<close> that takes the notification \<open>next\<close>:
  the queue must hold it in front, or the connection is shut down for a violated sequence
  invariant (\<open>Inl ()\<close>). \<open>None\<close> is a loop that waits for the queue.
\<close>

definition reentrant_take :: "nat \<Rightarrow> notifier \<Rightarrow> (unit + notifier) option" where
  "reentrant_take next n =
     (case chan_receive (n_queue n) of
        None \<Rightarrow> None
      | Some (q, c) \<Rightarrow>
          if seq q \<noteq> next then Some (Inl ())
          else Some (Inr (n\<lparr>n_queue := c, n_running := (q, Waiting) # n_running n\<rparr>)))"

text \<open>The first notification after a frame that is not processed yet, up to the target.\<close>

definition reentrant_next :: "nat \<Rightarrow> nat \<Rightarrow> notifier \<Rightarrow> nat option" where
  "reentrant_next frame_seq target n =
     find (\<lambda>s. \<not> notificationAlreadyProcessed s n) [frame_seq + 1..<target + 1]"

section \<open>Invariant\<close>

abbreviation queued :: "notifier \<Rightarrow> queued_notification list" where
  "queued n \<equiv> chan_items (n_queue n)"

definition open_seqs :: "notifier \<Rightarrow> nat list" where
  "open_seqs n = map (seq \<circ> fst) (filter (\<lambda>(q, p). p \<noteq> Marked) (n_running n))"

definition taken :: "notifier \<Rightarrow> nat" where
  "taken n = lastEnqueuedNotificationSeq n - length (queued n)"

definition total_bytes :: "notifier \<Rightarrow> int" where
  "total_bytes n = sum_list (map (msg_bytes \<circ> q_msg) (queued n))
     + sum_list (map (msg_bytes \<circ> q_msg \<circ> fst) (n_running n))"

text \<open>
  The queue holds the latest sequence numbers, consecutively; of the numbers taken from it,
  each is either below the watermark, or in the set of those completed out of order, or
  being processed; the stack is ordered, and only its bottom part can be marked.
\<close>

definition notifier_inv :: "notifier \<Rightarrow> bool" where
  "notifier_inv n \<longleftrightarrow>
     chan_ok (n_queue n) \<and>
     length (queued n) \<le> lastEnqueuedNotificationSeq n \<and>
     map seq (queued n) = [taken n + 1..<lastEnqueuedNotificationSeq n + 1] \<and>
     n_bytes n = total_bytes n \<and> n_bytes n \<le> int (n_limit n) \<and>
     completedNotificationSeq n \<le> taken n \<and>
     Suc (completedNotificationSeq n) |\<notin>| completedNotifications n \<and>
     {completedNotificationSeq n + 1..taken n} = fset (completedNotifications n) \<union> set (open_seqs n) \<and>
     fset (completedNotifications n) \<inter> set (open_seqs n) = {} \<and>
     sorted_wrt (\<lambda>a b. seq (fst a) > seq (fst b)) (n_running n) \<and>
     (\<forall>x \<in> set (n_running n). seq (fst x) \<le> taken n) \<and>
     (\<forall>x \<in> set (tl (n_running n)). snd x = Active)"

lemma new_notifier_inv: "notifier_inv (new_notifier limit qcap)"
  by (simp add: notifier_inv_def new_notifier_def taken_def total_bytes_def open_seqs_def)

lemma new_notifier_running [simp]: "n_running (new_notifier limit qcap) = []"
  by (simp add: new_notifier_def)

lemma msg_bytes_nonneg [simp]: "0 \<le> msg_bytes m"
  by (simp add: msg_bytes_def)

lemma enqueue_inv:
  assumes "notifier_inv n" "enqueueNotification d m n = Some n'"
  shows "notifier_inv n'"
proof -
  let ?q = "\<lparr>seq = lastEnqueuedNotificationSeq n + 1, q_delivery = d, q_msg = m\<rparr>"
  obtain c where c: "chan_try_send ?q (n_queue n) = Some c"
    and n': "n' = n\<lparr>n_queue := c, n_bytes := n_bytes n + msg_bytes m,
        lastEnqueuedNotificationSeq := lastEnqueuedNotificationSeq n + 1\<rparr>"
    and fits: "n_bytes n + msg_bytes m \<le> int (n_limit n)"
    using assms(2) by (auto simp: enqueueNotification_def Let_def split: if_splits option.splits)
  have items: "chan_items c = queued n @ [?q]" using chan_send_Some [OF c] by simp
  have len: "length (queued n) \<le> lastEnqueuedNotificationSeq n" using assms(1) by (simp add: notifier_inv_def)
  have t: "taken n' = taken n" using items by (simp add: taken_def n')
  have "taken n \<le> lastEnqueuedNotificationSeq n" by (simp add: taken_def)
  then show ?thesis
    using assms(1) c items len fits t chan_send_ok [OF _ c]
    unfolding notifier_inv_def
    by (auto simp: n' total_bytes_def open_seqs_def)
qed

lemma take_inv:
  assumes "notifier_inv n" "take_notification n = Some n'" "\<forall>x \<in> set (n_running n). snd x = Active"
  shows "notifier_inv n'"
proof -
  obtain q c where c: "chan_receive (n_queue n) = Some (q, c)"
    and n': "n' = n\<lparr>n_queue := c, n_running := (q, Waiting) # n_running n\<rparr>"
    using assms(2) by (auto simp: take_notification_def split: option.splits)
  have items: "queued n = q # chan_items c" using chan_receive_Some [OF c] by simp
  have inv: "length (queued n) \<le> lastEnqueuedNotificationSeq n"
    "map seq (queued n) = [taken n + 1..<lastEnqueuedNotificationSeq n + 1]"
    "{completedNotificationSeq n + 1..taken n} = fset (completedNotifications n) \<union> set (open_seqs n)"
    "fset (completedNotifications n) \<inter> set (open_seqs n) = {}" "completedNotificationSeq n \<le> taken n"
    using assms(1) by (auto simp: notifier_inv_def)
  have t: "taken n' = Suc (taken n)" using items inv(1) by (simp add: taken_def n')
  have sq: "seq q = Suc (taken n)" and rest: "map seq (chan_items c) = [taken n' + 1..<lastEnqueuedNotificationSeq n + 1]"
    using inv(2) items t inv(1) by (auto simp: upt_rec [of "Suc (taken n)"] split: if_splits)
  have os: "set (open_seqs n') = insert (Suc (taken n)) (set (open_seqs n))"
    by (simp add: open_seqs_def n' sq)
  have "Suc (taken n) \<notin> {completedNotificationSeq n + 1..taken n}" by simp
  then have new: "Suc (taken n) \<notin> fset (completedNotifications n)" using inv(3) by blast
  have "{completedNotificationSeq n + 1..taken n'} = insert (Suc (taken n)) {completedNotificationSeq n + 1..taken n}"
    using t inv(5) by auto
  then have cover: "{completedNotificationSeq n + 1..taken n'} = fset (completedNotifications n) \<union> set (open_seqs n')"
    using inv(3) os by simp
  have bytes: "total_bytes n' = total_bytes n" using items by (simp add: total_bytes_def n')
  have below: "\<forall>x \<in> set (n_running n). seq (fst x) < Suc (taken n)"
    using assms(1) by (auto simp: notifier_inv_def less_Suc_eq_le)
  have len: "length (chan_items c) \<le> lastEnqueuedNotificationSeq n" using items inv(1) by simp
  have ok: "chan_ok c" using chan_receive_ok [OF _ c] assms(1) by (simp add: notifier_inv_def)
  have disj: "fset (completedNotifications n) \<inter> set (open_seqs n') = {}" using os new inv(4) by auto
  have sorted: "sorted_wrt (\<lambda>a b. seq (fst a) > seq (fst b)) (n_running n')"
    using assms(1) below by (simp add: notifier_inv_def n' sq)
  have upto: "\<forall>x \<in> set (n_running n'). seq (fst x) \<le> taken n'"
    using below t sq by (auto simp: n')
  have act: "\<forall>x \<in> set (tl (n_running n')). snd x = Active" using assms(3) by (simp add: n')
  have same: "queued n' = chan_items c" "n_queue n' = c" "n_bytes n' = n_bytes n" "n_limit n' = n_limit n"
    "lastEnqueuedNotificationSeq n' = lastEnqueuedNotificationSeq n"
    "completedNotificationSeq n' = completedNotificationSeq n"
    "completedNotifications n' = completedNotifications n" by (simp_all add: n')
  have old: "n_bytes n = total_bytes n" "n_bytes n \<le> int (n_limit n)"
    "Suc (completedNotificationSeq n) |\<notin>| completedNotifications n"
    using assms(1) by (auto simp: notifier_inv_def)
  have "completedNotificationSeq n \<le> taken n'" using inv(5) t by simp
  then show ?thesis
    unfolding notifier_inv_def same using old bytes ok len cover disj rest
    by (intro conjI sorted upto act) simp_all
qed

lemma start_inv: "notifier_inv n \<Longrightarrow> start_handler n = Some n' \<Longrightarrow> notifier_inv n'"
proof -
  assume a: "notifier_inv n" "start_handler n = Some n'"
  then obtain q r where r: "n_running n = (q, Waiting) # r" and n': "n' = n\<lparr>n_running := (q, Active) # r\<rparr>"
    by (auto simp: start_handler_def split: list.splits prod.splits progress.splits)
  have "open_seqs n' = open_seqs n" "taken n' = taken n" "total_bytes n' = total_bytes n"
    by (simp_all add: open_seqs_def taken_def total_bytes_def n' r)
  then show ?thesis using a(1) by (simp add: notifier_inv_def n' r)
qed

lemma release_inv: "notifier_inv n \<Longrightarrow> release_top n = Some n' \<Longrightarrow> notifier_inv n'"
proof -
  assume a: "notifier_inv n" "release_top n = Some n'"
  then obtain q r where r: "n_running n = (q, Marked) # r"
    and n': "n' = n\<lparr>n_bytes := n_bytes n - msg_bytes (q_msg q), n_running := r\<rparr>"
    by (auto simp: release_top_def split: list.splits prod.splits progress.splits)
  have "\<forall>x \<in> set (tl r). snd x = Active"
    using a(1) by (cases r) (auto simp: notifier_inv_def r)
  moreover have "n_bytes n' \<le> int (n_limit n')"
  proof -
    have "n_bytes n' \<le> n_bytes n" by (simp add: n')
    also have "\<dots> \<le> int (n_limit n)" using a(1) unfolding notifier_inv_def by blast
    finally show ?thesis by (simp add: n')
  qed
  ultimately show ?thesis
    using a(1) by (simp add: notifier_inv_def n' r taken_def total_bytes_def open_seqs_def)
qed

text \<open>The watermark loop stops at the first number that is not complete.\<close>

lemma advance_props:
  "advance c d = (c', d') \<Longrightarrow>
    c \<le> c' \<and> Suc c' |\<notin>| d' \<and> fset d = {c + 1..c'} \<union> fset d' \<and> {c + 1..c'} \<inter> fset d' = {}
    \<or> \<not> (\<forall>x \<in> fset d. c < x)"
proof (induction c d arbitrary: c' d' rule: advance.induct)
  case (1 c d)
  show ?case
  proof (cases "Suc c |\<in>| d")
    case True
    with "1.prems" have "advance (Suc c) (d |-| {|Suc c|}) = (c', d')"
      by (simp add: advance.simps [of c d])
    from "1.IH" [OF True this] show ?thesis
    proof
      assume a: "Suc c \<le> c' \<and> Suc c' |\<notin>| d' \<and> fset (d |-| {|Suc c|}) = {Suc c + 1..c'} \<union> fset d' \<and>
        {Suc c + 1..c'} \<inter> fset d' = {}"
      then have le: "Suc c \<le> c'" and top: "Suc c' |\<notin>| d'"
        and eq: "fset (d |-| {|Suc c|}) = {Suc c + 1..c'} \<union> fset d'"
        and dis: "{Suc c + 1..c'} \<inter> fset d' = {}" by blast+
      have "Suc c \<notin> fset (d |-| {|Suc c|})" by simp
      then have out: "Suc c \<notin> fset d'" unfolding eq by blast
      have ins: "{c + 1..c'} = insert (Suc c) {Suc c + 1..c'}" using le by auto
      have "fset d = insert (Suc c) (fset (d |-| {|Suc c|}))" using True by auto
      then have "fset d = {c + 1..c'} \<union> fset d'" unfolding eq ins by simp
      moreover have "{c + 1..c'} \<inter> fset d' = {}" unfolding ins using out dis by simp
      ultimately show ?thesis using le top by simp
    next
      assume "\<not> (\<forall>x \<in> fset (d |-| {|Suc c|}). Suc c < x)"
      then obtain x where "x \<in> fset d" "x \<noteq> Suc c" "\<not> Suc c < x" by auto
      then show ?thesis by (intro disjI2) (auto intro!: bexI [of _ x])
    qed
  next
    case False
    with "1.prems" show ?thesis by (auto simp: advance.simps [of c d])
  qed
qed

lemma mark_inv:
  assumes "notifier_inv n" "mark_top n = Some n'"
  shows "notifier_inv n'"
proof -
  obtain q p r where r: "n_running n = (q, p) # r" and p: "p \<noteq> Marked"
    and n': "n' = markNotificationComplete (seq q) (n\<lparr>n_running := (q, Marked) # r\<rparr>)"
    using assms(2) by (auto simp: mark_top_def split: list.splits if_splits)
  let ?d = "finsert (seq q) (completedNotifications n)"
  obtain c' d' where adv: "advance (completedNotificationSeq n) ?d = (c', d')" by force
  have n'': "n' = n\<lparr>n_running := (q, Marked) # r, completedNotificationSeq := c', completedNotifications := d'\<rparr>"
    by (simp add: n' markNotificationComplete_def adv)
  have inv: "{completedNotificationSeq n + 1..taken n} = fset (completedNotifications n) \<union> set (open_seqs n)"
    "fset (completedNotifications n) \<inter> set (open_seqs n) = {}" "completedNotificationSeq n \<le> taken n"
    "sorted_wrt (\<lambda>a b. seq (fst a) > seq (fst b)) (n_running n)"
    using assms(1) by (auto simp: notifier_inv_def)
  have os: "open_seqs n = seq q # open_seqs n'" using p by (simp add: open_seqs_def r n'')
  have fresh: "seq q \<notin> set (open_seqs n')" using inv(4) by (auto simp: open_seqs_def r n'')
  have sub: "fset ?d \<subseteq> {completedNotificationSeq n + 1..taken n}" using inv(1) os by auto
  then have "\<forall>x \<in> fset ?d. completedNotificationSeq n < x" by auto
  with advance_props [OF adv] have adv': "completedNotificationSeq n \<le> c'" "Suc c' |\<notin>| d'"
    "fset ?d = {completedNotificationSeq n + 1..c'} \<union> fset d'" "{completedNotificationSeq n + 1..c'} \<inter> fset d' = {}"
    by auto
  have c't: "c' \<le> taken n"
  proof (rule ccontr)
    assume "\<not> c' \<le> taken n"
    then have "c' \<in> {completedNotificationSeq n + 1..c'}" using inv(3) by auto
    then have "c' \<in> {completedNotificationSeq n + 1..taken n}" using adv'(3) sub by blast
    with \<open>\<not> c' \<le> taken n\<close> show False by simp
  qed
  have all: "{completedNotificationSeq n + 1..taken n} = fset ?d \<union> set (open_seqs n')"
    using inv(1) os by auto
  have disj: "fset ?d \<inter> set (open_seqs n') = {}" using inv(2) os fresh by auto
  have split: "{completedNotificationSeq n + 1..taken n} = {completedNotificationSeq n + 1..c'} \<union> {c' + 1..taken n}"
    using adv'(1) c't by auto
  have "fset d' \<subseteq> {c' + 1..taken n}"
  proof
    fix x assume "x \<in> fset d'"
    then have "x \<in> {completedNotificationSeq n + 1..taken n}" "x \<notin> {completedNotificationSeq n + 1..c'}"
      using adv'(3,4) sub by blast+
    then show "x \<in> {c' + 1..taken n}" using split by blast
  qed
  moreover have "set (open_seqs n') \<subseteq> {c' + 1..taken n}"
    using all split disj adv'(3) by blast
  ultimately have cover: "{c' + 1..taken n} = fset d' \<union> set (open_seqs n')"
  proof -
    have "{c' + 1..taken n} \<subseteq> fset d' \<union> set (open_seqs n')"
    proof
      fix x assume x: "x \<in> {c' + 1..taken n}"
      then have "x \<notin> {completedNotificationSeq n + 1..c'}" by auto
      moreover have "x \<in> fset ?d \<union> set (open_seqs n')" using x split all by blast
      ultimately show "x \<in> fset d' \<union> set (open_seqs n')" using adv'(3) by blast
    qed
    then show ?thesis using \<open>fset d' \<subseteq> _\<close> \<open>set (open_seqs n') \<subseteq> _\<close> by blast
  qed
  have "fset d' \<inter> set (open_seqs n') = {}" using disj adv'(3) by blast
  moreover have "taken n' = taken n" "total_bytes n' = total_bytes n" "queued n' = queued n"
    by (simp_all add: taken_def total_bytes_def n'' r)
  ultimately show ?thesis
    using assms(1) adv'(2) c't cover unfolding notifier_inv_def by (simp add: n'' r)
qed

section \<open>The goroutine as a step relation\<close>

text \<open>
  A state with the log of the handler calls. The reader enqueues at any time. The goroutine
  takes from the queue when it processes nothing; otherwise a handler that waits for the
  response with watermark \<open>target\<close> takes the next notification, and the frame's mutex makes
  the innermost one the only one that can. The reader sets a watermark to the last number
  enqueued, so a target never exceeds it.
\<close>

definition starts :: "notifier \<Rightarrow> nat" where
  "starts n = seq (fst (hd (n_running n)))"

inductive n_step :: "notifier \<times> nat list \<Rightarrow> notifier \<times> nat list \<Rightarrow> bool" where
  enqueue: "enqueueNotification d m n = Some n' \<Longrightarrow> n_step (n, h) (n', h)"
| take_main: "n_running n = [] \<Longrightarrow> take_notification n = Some n' \<Longrightarrow> n_step (n, h) (n', h)"
| take_nested: "n_running n = (q, Active) # r \<Longrightarrow> target \<le> lastEnqueuedNotificationSeq n \<Longrightarrow>
    reentrant_next (seq q) target n = Some next \<Longrightarrow> reentrant_take next n = Some (Inr n') \<Longrightarrow>
    n_step (n, h) (n', h)"
| start: "start_handler n = Some n' \<Longrightarrow> n_step (n, h) (n', h @ [starts n])"
| mark: "mark_top n = Some n' \<Longrightarrow> n_step (n, h) (n', h)"
| release: "release_top n = Some n' \<Longrightarrow> n_step (n, h) (n', h)"

inductive_cases n_stepE: "n_step (n, h) s'"

definition n_init :: "nat \<Rightarrow> nat \<Rightarrow> notifier \<times> nat list \<Rightarrow> bool" where
  "n_init limit qcap s \<longleftrightarrow> s = (new_notifier limit qcap, [])"

text \<open>The log is increasing, and a notification that waits is later than all it holds.\<close>

definition log_inv :: "notifier \<times> nat list \<Rightarrow> bool" where
  "log_inv s \<longleftrightarrow> notifier_inv (fst s) \<and> sorted_wrt (<) (snd s) \<and> (\<forall>x \<in> set (snd s). x \<le> taken (fst s)) \<and>
     (\<forall>y \<in> set (n_running (fst s)). snd y = Waiting \<longrightarrow> (\<forall>x \<in> set (snd s). x < seq (fst y)))"

lemma reentrant_take_as_take:
  "reentrant_take next n = Some (Inr n') \<Longrightarrow> take_notification n = Some n'"
  by (auto simp: reentrant_take_def take_notification_def split: option.splits prod.splits if_splits)

lemma all_active:
  "notifier_inv n \<Longrightarrow> n_running n = (q, Active) # r \<Longrightarrow> \<forall>x \<in> set (n_running n). snd x = Active"
  by (simp add: notifier_inv_def)

lemma take_taken:
  assumes "notifier_inv n" "take_notification n = Some n'"
  obtains q where "n_running n' = (q, Waiting) # n_running n" "seq q = Suc (taken n)" "taken n' = Suc (taken n)"
proof -
  obtain q c where c: "chan_receive (n_queue n) = Some (q, c)"
    and n': "n' = n\<lparr>n_queue := c, n_running := (q, Waiting) # n_running n\<rparr>"
    using assms(2) by (auto simp: take_notification_def split: option.splits)
  have items: "queued n = q # chan_items c" using chan_receive_Some [OF c] by simp
  have inv: "length (queued n) \<le> lastEnqueuedNotificationSeq n"
    "map seq (queued n) = [taken n + 1..<lastEnqueuedNotificationSeq n + 1]"
    using assms(1) by (auto simp: notifier_inv_def)
  have "taken n' = Suc (taken n)" using items inv(1) by (simp add: taken_def n')
  moreover have "seq q = Suc (taken n)"
    using inv(2) items by (auto simp: upt_rec [of "Suc (taken n)"] split: if_splits)
  ultimately show ?thesis using that by (simp add: n')
qed

lemma log_take:
  assumes "log_inv (n, h)" "take_notification n = Some n'" "\<forall>x \<in> set (n_running n). snd x = Active"
  shows "log_inv (n', h)"
proof -
  have inv: "notifier_inv n" "\<forall>x \<in> set h. x \<le> taken n" "sorted_wrt (<) h"
    using assms(1) by (auto simp: log_inv_def)
  obtain q where q: "n_running n' = (q, Waiting) # n_running n" "seq q = Suc (taken n)" "taken n' = Suc (taken n)"
    using take_taken [OF inv(1) assms(2)] .
  have "notifier_inv n'" by (rule take_inv [OF inv(1) assms(2,3)])
  then show ?thesis using inv(2,3) q assms(3) by (auto simp: log_inv_def less_Suc_eq_le)
qed

lemma taken_enqueue: "notifier_inv n \<Longrightarrow> enqueueNotification d m n = Some n' \<Longrightarrow> taken n' = taken n"
  by (auto simp: enqueueNotification_def taken_def Let_def notifier_inv_def
      split: if_splits option.splits dest!: chan_send_Some)

lemma n_step_inv: "n_step s s' \<Longrightarrow> log_inv s \<Longrightarrow> log_inv s'"
proof (induction rule: n_step.induct)
  case (enqueue d m n n' h)
  have n: "notifier_inv n" using enqueue.prems by (simp add: log_inv_def)
  have "n_running n' = n_running n"
    using enqueue.hyps by (auto simp: enqueueNotification_def Let_def split: if_splits option.splits)
  then show ?case using enqueue.prems enqueue_inv [OF n enqueue.hyps] taken_enqueue [OF n enqueue.hyps]
    by (simp add: log_inv_def)
next
  case (take_main n n' h)
  show ?case by (rule log_take [OF take_main.prems take_main.hyps(2)]) (simp add: take_main.hyps(1))
next
  case (take_nested n q r target "next" n' h)
  have inv: "notifier_inv n" using take_nested.prems by (simp add: log_inv_def)
  show ?case
    by (rule log_take [OF take_nested.prems reentrant_take_as_take [OF take_nested.hyps(4)]
          all_active [OF inv take_nested.hyps(1)]])
next
  case (start n n' h)
  then obtain q r where r: "n_running n = (q, Waiting) # r" and n': "n' = n\<lparr>n_running := (q, Active) # r\<rparr>"
    by (auto simp: start_handler_def split: list.splits prod.splits progress.splits)
  have inv: "notifier_inv n" using start.prems by (simp add: log_inv_def)
  have "seq q \<le> taken n" "\<forall>x \<in> set r. snd x = Active" using inv by (auto simp: notifier_inv_def r)
  moreover have "taken n' = taken n" by (simp add: taken_def n')
  moreover have "sorted_wrt (<) (h @ [seq q])" "\<forall>x \<in> set h. x \<le> taken n"
    using start.prems by (auto simp: log_inv_def r sorted_wrt_append)
  moreover have "starts n = seq q" "n_running n' = (q, Active) # r" by (simp_all add: starts_def r n')
  ultimately show ?case using start_inv [OF inv start.hyps] by (auto simp: log_inv_def)
next
  case (mark n n' h)
  then obtain q p r where r: "n_running n = (q, p) # r" "n_running n' = (q, Marked) # r" "taken n' = taken n"
    by (auto simp: mark_top_def markNotificationComplete_def taken_def split: list.splits if_splits prod.splits)
  have "notifier_inv n" using mark.prems by (simp add: log_inv_def)
  then show ?case using mark.prems mark_inv [OF _ mark.hyps] r by (auto simp: log_inv_def)
next
  case (release n n' h)
  then obtain q r where r: "n_running n = (q, Marked) # r" "n_running n' = r" "taken n' = taken n"
    by (auto simp: release_top_def taken_def split: list.splits prod.splits progress.splits)
  have "notifier_inv n" using release.prems by (simp add: log_inv_def)
  then show ?case using release.prems release_inv [OF _ release.hyps] r by (auto simp: log_inv_def)
qed

interpretation notify: invariant_system "n_init limit qcap" n_step log_inv for limit qcap
proof unfold_locales
  fix s t
  show "n_init limit qcap s \<Longrightarrow> log_inv s"
    by (auto simp: n_init_def log_inv_def new_notifier_inv)
  show "log_inv s \<Longrightarrow> n_step s t \<Longrightarrow> log_inv t" by (rule n_step_inv)
qed

lemma reachable_inv: "reach (n_init limit qcap) n_step (n, h) \<Longrightarrow> notifier_inv n \<and> sorted_wrt (<) h"
  by (drule notify.reach_inv) (simp add: log_inv_def)

section \<open>What the invariant gives\<close>

text \<open>Every number taken after the innermost frame that still runs is complete.\<close>

lemma top_is_latest_open:
  assumes "notifier_inv n" "n_running n = (q, Active) # r" "seq q < s" "s \<le> taken n"
  shows "notificationAlreadyProcessed s n"
proof -
  have "\<forall>x \<in> set (open_seqs n). x \<le> seq q"
    using assms(1) by (auto simp: notifier_inv_def open_seqs_def assms(2))
  then have "s \<notin> set (open_seqs n)" using assms(3) by auto
  moreover have "{completedNotificationSeq n + 1..taken n} = fset (completedNotifications n) \<union> set (open_seqs n)"
    using assms(1) by (simp add: notifier_inv_def)
  ultimately have "s \<in> fset (completedNotifications n) \<or> s \<notin> {completedNotificationSeq n + 1..taken n}" by blast
  then show ?thesis using assms(4) by (auto simp: notificationAlreadyProcessed_def)
qed

lemma reentrant_next_head:
  assumes "notifier_inv n" "n_running n = (q, Active) # r" "target \<le> lastEnqueuedNotificationSeq n"
    and "reentrant_next (seq q) target n = Some next"
  obtains x c where "chan_receive (n_queue n) = Some (x, c)" "seq x = next"
proof -
  from assms(4) obtain i where i: "i < length [seq q + 1..<target + 1]" "next = [seq q + 1..<target + 1] ! i"
    "\<not> notificationAlreadyProcessed next n"
    "\<forall>j < i. notificationAlreadyProcessed ([seq q + 1..<target + 1] ! j) n"
    unfolding reentrant_next_def by (auto simp: find_Some_iff)
  then have nx: "next = seq q + 1 + i" "next \<le> target" by (auto simp: nth_upt simp del: upt_Suc)
  have above: "taken n < next"
    using top_is_latest_open [OF assms(1,2), of "next"] i(3) nx(1) by (meson not_le less_add_one add_lessD1 less_le_trans le_add1 order_less_le_trans)
  have sq: "seq q \<le> taken n" using assms(1) by (simp add: notifier_inv_def assms(2))
  have inv: "length (queued n) \<le> lastEnqueuedNotificationSeq n"
    "map seq (queued n) = [taken n + 1..<lastEnqueuedNotificationSeq n + 1]"
    "completedNotificationSeq n \<le> taken n"
    "{completedNotificationSeq n + 1..taken n} = fset (completedNotifications n) \<union> set (open_seqs n)"
    using assms(1) by (auto simp: notifier_inv_def)
  have "next = taken n + 1"
  proof (rule ccontr)
    assume "next \<noteq> taken n + 1"
    then have "taken n - seq q < i" using above nx(1) sq by linarith
    with i(4) i(1) have "notificationAlreadyProcessed (taken n + 1) n"
      using sq by (auto simp: nth_upt simp del: upt_Suc dest!: spec [of _ "taken n - seq q"])
    moreover have "taken n + 1 \<notin> fset (completedNotifications n)"
      using inv(4) by (metis UnCI add.right_neutral add_le_cancel_left atLeastAtMost_iff not_one_le_zero)
    ultimately show False using inv(3) by (simp add: notificationAlreadyProcessed_def)
  qed
  moreover have "taken n < lastEnqueuedNotificationSeq n" using above nx(2) assms(3) by linarith
  then have "queued n \<noteq> []" using inv(1) by (auto simp: taken_def)
  then obtain x xs where x: "queued n = x # xs" by (cases "queued n") auto
  moreover have "seq x = taken n + 1"
    using inv(2) x by (auto simp: upt_rec [of "Suc (taken n)"] split: if_splits)
  ultimately show ?thesis using that [of x] by (simp add: chan_receive_def)
qed

lemma watermark_iff:
  assumes "notifier_inv n" "t \<le> lastEnqueuedNotificationSeq n"
  shows "t \<le> completedNotificationSeq n \<longleftrightarrow>
    (\<forall>s. 1 \<le> s \<and> s \<le> t \<longrightarrow> s \<notin> seq ` set (queued n) \<and> s \<notin> set (open_seqs n))"
proof -
  have inv: "length (queued n) \<le> lastEnqueuedNotificationSeq n"
    "map seq (queued n) = [taken n + 1..<lastEnqueuedNotificationSeq n + 1]"
    "completedNotificationSeq n \<le> taken n" "Suc (completedNotificationSeq n) |\<notin>| completedNotifications n"
    "{completedNotificationSeq n + 1..taken n} = fset (completedNotifications n) \<union> set (open_seqs n)"
    using assms(1) by (auto simp: notifier_inv_def)
  have q: "seq ` set (queued n) = {taken n + 1..lastEnqueuedNotificationSeq n}"
    using arg_cong [OF inv(2), of set] by (auto simp: atLeastLessThanSuc_atLeastAtMost)
  have o: "set (open_seqs n) \<subseteq> {completedNotificationSeq n + 1..taken n}" using inv(5) by blast
  show ?thesis
  proof
    assume "t \<le> completedNotificationSeq n"
    then show "\<forall>s. 1 \<le> s \<and> s \<le> t \<longrightarrow> s \<notin> seq ` set (queued n) \<and> s \<notin> set (open_seqs n)"
      unfolding q using subsetD [OF o] inv(3) by force
  next
    assume a: "\<forall>s. 1 \<le> s \<and> s \<le> t \<longrightarrow> s \<notin> seq ` set (queued n) \<and> s \<notin> set (open_seqs n)"
    show "t \<le> completedNotificationSeq n"
    proof (rule ccontr)
      assume "\<not> t \<le> completedNotificationSeq n"
      then have c: "Suc (completedNotificationSeq n) \<le> t" by simp
      then have "Suc (completedNotificationSeq n) \<notin> {taken n + 1..lastEnqueuedNotificationSeq n}"
        "Suc (completedNotificationSeq n) \<notin> set (open_seqs n)" using a q by auto
      moreover have "Suc (completedNotificationSeq n) \<in> {completedNotificationSeq n + 1..taken n}"
        using calculation(1) c assms(2) by auto
      ultimately show False using inv(4,5) by blast
    qed
  qed
qed

lemma bytes_within: "notifier_inv n \<Longrightarrow> 0 \<le> n_bytes n \<and> n_bytes n \<le> int (n_limit n)"
proof -
  assume a: "notifier_inv n"
  have "0 \<le> total_bytes n" by (auto simp: total_bytes_def intro!: add_nonneg_nonneg sum_list_nonneg)
  then show ?thesis using a by (simp add: notifier_inv_def del: upt_Suc)
qed

section \<open>Properties\<close>

text \<open>C8: The re-entrant loop never meets a violated sequence and never blocks on the queue: in a
  reachable state whose innermost handler waits for a response with a watermark that was
  enqueued, the notification it looks for next is the one in front of the queue.\<close>

theorem reentrant_order_holds:
  assumes "reach (n_init limit qcap) n_step (n, h)" "n_running n = (q, Active) # r"
    and "target \<le> lastEnqueuedNotificationSeq n" "reentrant_next (seq q) target n = Some next"
  shows "\<exists>n'. reentrant_take next n = Some (Inr n')"
proof -
  have inv: "notifier_inv n" using reachable_inv [OF assms(1)] by simp
  obtain x c where "chan_receive (n_queue n) = Some (x, c)" "seq x = next"
    by (rule reentrant_next_head [OF inv assms(2,3,4)])
  then show ?thesis by (simp add: reentrant_take_def)
qed

definition sample_note :: any_message where
  "sample_note = empty_message\<lparr>Method := ''session/update''\<rparr>"

definition demo_nested :: notifier where
  "demo_nested = (let n1 = the (enqueueNotification [] sample_note (new_notifier 100 4));
       n2 = the (start_handler (the (take_notification n1)))
     in the (enqueueNotification [] sample_note n2))"

lemma demo_nested_reachable: "reach (n_init 100 4) n_step (demo_nested, [1])"
proof -
  let ?n1 = "the (enqueueNotification [] sample_note (new_notifier 100 4))"
  let ?n2 = "the (take_notification ?n1)"
  let ?n3 = "the (start_handler ?n2)"
  have "reach (n_init 100 4) n_step (new_notifier 100 4, [])"
    by (rule reach_init) (simp add: n_init_def)
  moreover have "n_step (new_notifier 100 4, []) (?n1, [])" by (rule n_step.enqueue [of "[]" sample_note]) code_simp
  ultimately have "reach (n_init 100 4) n_step (?n1, [])" by (rule reach_step)
  moreover have "n_step (?n1, []) (?n2, [])" by (rule n_step.take_main) code_simp+
  ultimately have "reach (n_init 100 4) n_step (?n2, [])" by (rule reach_step)
  moreover have "n_step (?n2, []) (?n3, [] @ [starts ?n2])" by (rule n_step.start) code_simp
  ultimately have "reach (n_init 100 4) n_step (?n3, [] @ [starts ?n2])" by (rule reach_step)
  moreover have "[] @ [starts ?n2] = [1]" by code_simp
  ultimately have r: "reach (n_init 100 4) n_step (?n3, [1])" by simp
  have "n_step (?n3, [1]) (the (enqueueNotification [] sample_note ?n3), [1])"
    by (rule n_step.enqueue [of "[]" sample_note]) code_simp
  with r have "reach (n_init 100 4) n_step (the (enqueueNotification [] sample_note ?n3), [1])" by (rule reach_step)
  then show ?thesis by (simp add: demo_nested_def Let_def)
qed

lemma reentrant_order_holds_witness: "\<exists>n'. reentrant_take 2 demo_nested = Some (Inr n')"
proof -
  have run: "n_running demo_nested = (\<lparr>seq = 1, q_delivery = [], q_msg = sample_note\<rparr>, Active) # []" by code_simp
  show ?thesis
    by (rule reentrant_order_holds [OF demo_nested_reachable run, of 2]) code_simp+
qed

text \<open>C4: The watermark that a response waits for means what it says: in a reachable state the
  completed sequence number has reached \<open>t\<close> exactly when no notification up to \<open>t\<close> is still
  queued or being processed.\<close>

theorem watermark_exact:
  assumes "reach (n_init limit qcap) n_step (n, h)" "t \<le> lastEnqueuedNotificationSeq n"
  shows "t \<le> completedNotificationSeq n \<longleftrightarrow>
    (\<forall>s. 1 \<le> s \<and> s \<le> t \<longrightarrow> s \<notin> seq ` set (queued n) \<and> s \<notin> set (open_seqs n))"
  using reachable_inv [OF assms(1)] watermark_iff [OF _ assms(2)] by blast

lemma watermark_exact_witness:
  "\<not> (\<forall>s::nat. 1 \<le> s \<and> s \<le> 2 \<longrightarrow> s \<notin> seq ` set (queued demo_nested) \<and> s \<notin> set (open_seqs demo_nested))"
proof -
  have "2 \<le> lastEnqueuedNotificationSeq demo_nested" by code_simp
  from watermark_exact [OF demo_nested_reachable this]
  have iff: "2 \<le> completedNotificationSeq demo_nested \<longleftrightarrow>
    (\<forall>s. 1 \<le> s \<and> s \<le> 2 \<longrightarrow> s \<notin> seq ` set (queued demo_nested) \<and> s \<notin> set (open_seqs demo_nested))" .
  have "\<not> 2 \<le> completedNotificationSeq demo_nested" by code_simp
  with iff show ?thesis by blast
qed

text \<open>C7: Notifications reach the handler in the order they were enqueued, each at most once,
  also when handlers wait for responses and process later notifications re-entrantly: the log
  of handler calls is strictly increasing.\<close>

theorem notifications_in_order:
  assumes "reach (n_init limit qcap) n_step (n, h)"
  shows "sorted_wrt (<) h"
  using reachable_inv [OF assms] by blast

lemma notifications_in_order_witness: "sorted_wrt (<) [1::nat]"
  by (rule notifications_in_order [OF demo_nested_reachable])

text \<open>C20: The payload of the notifications queued or being processed is what the byte counter
  says, and it never exceeds \<open>MaxNotificationBytes\<close>; the queue never exceeds its capacity.\<close>

theorem notification_bytes_bounded:
  assumes "reach (n_init limit qcap) n_step (n, h)"
  shows "n_bytes n = total_bytes n \<and> 0 \<le> n_bytes n \<and> n_bytes n \<le> int (n_limit n) \<and> chan_ok (n_queue n)"
  using reachable_inv [OF assms] bytes_within [of n] unfolding notifier_inv_def by blast

lemma notification_bytes_bounded_witness: "0 \<le> n_bytes demo_nested \<and> n_bytes demo_nested \<le> 100"
  using notification_bytes_bounded [OF demo_nested_reachable] by code_simp

end
