(* ===== verification/Connection.thy ===== *)
theory Connection
  imports Batch Notifications Pending RequestId "HOL-Library.Word"
begin

text \<open>
  The \<open>Connection\<close> of \<open>connection.go\<close>: construction, the reader and its dispatch of frames,
  batches and messages, the inbound requests from admission to their response, cancellation,
  the outbound messages, and shutdown. It puts together the table of outbound requests
  (\<open>Pending\<close>), the notification pipeline (\<open>Notifications\<close>) and the batch collectors (\<open>Batch\<close>).

  Sending is synchronous, as \<open>sendEncoded\<close> is for its caller: the writer, a function of what was
  written before and of the data, accepts all of it or fails, and a failure shuts the
  connection down. A send that meets a closed connection is a race: the writer may still take
  the frame, and the sender may or may not see the result; the field \<open>late\<close> is that choice. The
  goroutines behind a send, and how many frames can be late, are in theory \<open>Writes\<close>.

  A request context is an index into \<open>ctxs\<close>, which holds the cause once it is cancelled; it is
  also done when the connection is. Where a \<open>select\<close> finds both the connection closed and room
  in the queue, Go takes either: the field \<open>pick_done\<close> is that choice. A step may set it, and
  \<open>late\<close>, at any time.
\<close>

section \<open>State\<close>

record queued_request =
  rq_msg :: any_message
  rq_key :: string
  rq_ctx :: nat
  rq_reply :: "(nat \<times> nat) option"

record run_request =
  rr :: queued_request
  rr_after :: after_response

text \<open>
  What becomes of a send once the connection is closed: the frame is not taken; it is written
  but the sender returns the cause of the connection; it is written and the sender returns the
  result of the write.
\<close>

datatype late_send = Unsent | Sent_unseen | Sent_seen

record conn =
  c_opts :: connection_options
  has_handler :: bool
  nextID :: "64 word"
  pend :: pendings
  inflight :: "(string \<times> nat) list"
  ctxs :: "go_error option list"
  requestQueue :: "queued_request chan"
  c_running :: "run_request list"
  notif :: notifier
  n_log :: "nat list"
  cancelQueue :: "string chan"
  batches :: "batch_reply list"
  batchCallbackQueue :: "nat chan"
  batchCallbackSlots :: int
  cb_running :: "nat option"
  callbacks_run :: "nat list"
  pick_done :: bool
  late :: "string \<Rightarrow> late_send"
  writer :: "string list \<Rightarrow> string \<Rightarrow> go_error option"
  written :: "string list"

definition constructConnection :: "bool \<Rightarrow> (string list \<Rightarrow> string \<Rightarrow> go_error option) option \<Rightarrow> bool \<Rightarrow>
    connection_options \<Rightarrow> go_error + conn" where
  "constructConnection handler peerInput peerOutput opts =
     (case peerInput of
        None \<Rightarrow> Inl (ErrText ''acp: peer input and output are required'')
      | Some w \<Rightarrow>
          if \<not> peerOutput then Inl (ErrText ''acp: peer input and output are required'')
          else (case normalizeConnectionOptions opts of
                  Inl e \<Rightarrow> Inl e
                | Inr n \<Rightarrow>
                    Inr \<lparr>c_opts = n, has_handler = handler, nextID = 0,
                         pend = new_pendings (nat (MaxPendingRequests n)), inflight = [], ctxs = [],
                         requestQueue = make_chan (nat (MaxQueuedRequests n)), c_running = [],
                         notif = new_notifier (nat (MaxNotificationBytes n)) (nat (MaxQueuedNotifications n)), n_log = [],
                         cancelQueue = make_chan (nat (MaxPendingRequests n)), batches = [],
                         batchCallbackQueue = make_chan (nat (MaxPendingRequests n)), batchCallbackSlots = 0,
                         cb_running = None, callbacks_run = [], pick_done = False,
                         late = (\<lambda>_. Unsent), writer = w, written = []\<rparr>))"

abbreviation cause_of :: "conn \<Rightarrow> go_error option" where
  "cause_of c \<equiv> p_cause (pend c)"

abbreviation closed :: "conn \<Rightarrow> bool" where
  "closed c \<equiv> cause_of c \<noteq> None"

definition Err :: "conn \<Rightarrow> go_error option" where
  "Err c = cause_of c"

section \<open>Shutdown and sending\<close>

definition shutdown :: "go_error option \<Rightarrow> conn \<Rightarrow> conn" where
  "shutdown cause c =
     c\<lparr>pend := shutdown_pendings (case cause of None \<Rightarrow> ErrConnectionClosed | Some e \<Rightarrow> e) (pend c)\<rparr>"

definition Close :: "conn \<Rightarrow> conn" where
  "Close c = shutdown (Some ErrConnectionClosed) c"

definition sendEncoded :: "string \<Rightarrow> conn \<Rightarrow> go_error option \<times> conn" where
  "sendEncoded enc c =
     (if closed c \<and> late c enc = Unsent then (Some (connectionCause (pend c)), c)
      else (case (case writer c (written c) enc of
                    None \<Rightarrow> (None, c\<lparr>written := written c @ [enc]\<rparr>)
                  | Some e \<Rightarrow>
                      (let failure = transportError OpWrite (Some e) in (failure, shutdown failure c))) of
              (result, c') \<Rightarrow>
                (if closed c \<and> late c enc = Sent_unseen then Some (connectionCause (pend c)) else result, c')))"

definition sendMessage :: "any_message \<Rightarrow> conn \<Rightarrow> go_error option \<times> conn" where
  "sendMessage m c =
     (case encodeMessage m of Inl e \<Rightarrow> (Some e, c) | Inr enc \<Rightarrow> sendEncoded enc c)"

definition SendTransportFrame :: "transport_frame \<Rightarrow> conn \<Rightarrow> go_error option \<times> conn" where
  "SendTransportFrame f c =
     (case frame_Encode f of Inl e \<Rightarrow> (Some e, c) | Inr enc \<Rightarrow> sendEncoded enc c)"

definition sendProtocolError :: "request_error \<Rightarrow> conn \<Rightarrow> conn" where
  "sendProtocolError e c = snd (sendMessage (empty_message\<lparr>ID := Some ''null'', Error := Some e\<rparr>) c)"

section \<open>Retiring requests, and replies of a batch\<close>

text \<open>\<open>cancel\<close> of a request context: the first cause stays.\<close>

definition cancel_ctx :: "nat \<Rightarrow> go_error \<Rightarrow> conn \<Rightarrow> conn" where
  "cancel_ctx h cause c =
     c\<lparr>ctxs := (ctxs c)[h := (case ctxs c ! h of None \<Rightarrow> Some cause | Some e \<Rightarrow> Some e)]\<rparr>"

definition removeInflight :: "string \<Rightarrow> conn \<Rightarrow> conn" where
  "removeInflight k c = c\<lparr>inflight := map_delete k (inflight c)\<rparr>"

text \<open>The closure \<open>finish\<close> of \<open>processRequests\<close>.\<close>

definition finish_request :: "string \<times> nat \<Rightarrow> conn \<Rightarrow> conn" where
  "finish_request kh c = cancel_ctx (snd kh) Canceled (removeInflight (fst kh) c)"

definition run_finish :: "response_completion \<Rightarrow> conn \<Rightarrow> conn" where
  "run_finish cmp c = (case finish cmp of None \<Rightarrow> c | Some kh \<Rightarrow> finish_request kh c)"

text \<open>The send to \<open>batchCallbackQueue\<close>; on a full channel it would block.\<close>

definition queue_callback :: "go_error option \<Rightarrow> response_completion \<Rightarrow> conn \<Rightarrow> conn" where
  "queue_callback err cmp c =
     (case callback cmp of
        None \<Rightarrow> c
      | Some cb \<Rightarrow>
          if err \<noteq> None then c\<lparr>batchCallbackSlots := batchCallbackSlots c - 1\<rparr>
          else c\<lparr>batchCallbackQueue := (batchCallbackQueue c)\<lparr>chan_items := chan_items (batchCallbackQueue c) @ [cb]\<rparr>\<rparr>)"

definition batch_flush :: "batch_reply \<Rightarrow> conn \<Rightarrow> go_error option \<times> conn" where
  "batch_flush b c =
     (case (case encodeBatchResponses (replies b) of
              Inl e \<Rightarrow> (Some e, c)
            | Inr enc \<Rightarrow> sendEncoded enc c) of
        (err, c1) \<Rightarrow>
          (err, fold (queue_callback err) (completions b) (fold run_finish (completions b) c1)))"

definition complete_reply :: "nat \<Rightarrow> nat \<Rightarrow> any_message \<Rightarrow> response_completion \<Rightarrow> conn \<Rightarrow> go_error option \<times> conn" where
  "complete_reply bi i m cmp c =
     (case batch_complete i m cmp (batches c ! bi) of
        (b', fl) \<Rightarrow>
          (let c1 = c\<lparr>batches := (batches c)[bi := b']\<rparr>
           in if fl then batch_flush b' c1 else (None, c1)))"

definition writeResponse :: "(nat \<times> nat) option \<Rightarrow> any_message \<Rightarrow> conn \<Rightarrow> go_error option \<times> conn" where
  "writeResponse wr m c =
     (case wr of None \<Rightarrow> sendMessage m c | Some (bi, i) \<Rightarrow> complete_reply bi i m no_completion c)"

section \<open>Admission of inbound messages\<close>

definition error_reply :: "string option \<Rightarrow> request_error \<Rightarrow> any_message" where
  "error_reply i e = empty_message\<lparr>ID := i, Error := Some e\<rparr>"

definition enqueueRequest :: "any_message \<Rightarrow> (nat \<times> nat) option \<Rightarrow> conn \<Rightarrow> conn" where
  "enqueueRequest m wr c =
     (case canonicalJSONRPCIDKey (the (ID m)) of
        Inl e \<Rightarrow> snd (writeResponse wr (error_reply (ID m) (NewInvalidRequest (error_data ''invalid request id''))) c)
      | Inr idKey \<Rightarrow>
          if map_of (inflight c) idKey \<noteq> None then
            snd (writeResponse wr (error_reply (ID m) (NewInvalidRequest (error_data ''duplicate request id''))) c)
          else
            (let h = length (ctxs c);
                 c1 = c\<lparr>inflight := inflight c @ [(idKey, h)], ctxs := ctxs c @ [None]\<rparr>;
                 req = \<lparr>rq_msg = m, rq_key = idKey, rq_ctx = h, rq_reply = wr\<rparr>;
                 sent = chan_try_send req (requestQueue c1)
             in if closed c \<and> (pick_done c \<or> sent = None) then
                  snd (writeResponse wr (error_reply (ID m) (the (toReqErr (Some (connectionCause (pend c))))))
                         (cancel_ctx h (connectionCause (pend c)) (removeInflight idKey c1)))
                else (case sent of
                        Some q \<Rightarrow> c1\<lparr>requestQueue := q\<rparr>
                      | None \<Rightarrow>
                          snd (writeResponse wr
                                 (error_reply (ID m) (NewServerOverloaded (error_data (error_text ErrRequestQueueFull))))
                                 (cancel_ctx h ErrRequestQueueFull (removeInflight idKey c1))))))"

definition admit_notification :: "any_message \<Rightarrow> conn \<Rightarrow> bool \<times> conn" where
  "admit_notification m c =
     (if (case AcceptNotification (c_opts c) of Some f \<Rightarrow> \<not> f (Method m) | None \<Rightarrow> False) then (True, c)
      else (case responseDeliveryBarrier (pend c) of
              (bar, p) \<Rightarrow>
                (case enqueueNotification bar m (notif c) of
                   None \<Rightarrow> (False, c\<lparr>pend := p\<rparr>)
                 | Some n \<Rightarrow> (True, c\<lparr>pend := p, notif := n\<rparr>))))"

definition handleResponse :: "any_message \<Rightarrow> conn \<Rightarrow> conn" where
  "handleResponse m c =
     (case canonicalJSONRPCIDKey (the (ID m)) of
        Inl e \<Rightarrow> c
      | Inr idKey \<Rightarrow>
          c\<lparr>pend := deliver_response idKey m (lastEnqueuedNotificationSeq (notif c)) (pend c)\<rparr>)"

text \<open>\<open>cancelRequestParams\<close> as the decoder reads it; \<open>None\<close> is an error of the decoder.\<close>

definition decode_cancel_params :: "string \<Rightarrow> string option" where
  "decode_cancel_params raw =
     (case parse_json raw of
        Some (_, JObj ms) \<Rightarrow>
          Some (fold (\<lambda>(k, r, v) acc. if match_field [''requestId''] k \<noteq> None then r else acc) ms [])
      | Some (_, JNull) \<Rightarrow> Some []
      | _ \<Rightarrow> None)"

definition handleCancelRequest :: "any_message \<Rightarrow> conn \<Rightarrow> conn" where
  "handleCancelRequest m c =
     (case decode_cancel_params (Params m) of
        None \<Rightarrow> c
      | Some raw \<Rightarrow>
          (case canonicalJSONRPCIDKey raw of
             Inl e \<Rightarrow> c
           | Inr idKey \<Rightarrow>
               (case map_of (inflight c) idKey of
                  None \<Rightarrow> c
                | Some h \<Rightarrow> cancel_ctx h Canceled c)))"

section \<open>Dispatch\<close>

definition dispatchMessage :: "any_message \<Rightarrow> (nat \<times> nat) option \<Rightarrow> conn \<Rightarrow> bool \<times> conn" where
  "dispatchMessage m wr c =
     (let invalid = (case wr of
            Some _ \<Rightarrow> snd (writeResponse wr (error_reply (jsonRPCIDOrNull (ID m)) (NewInvalidRequest None)) c)
          | None \<Rightarrow> sendProtocolError (NewInvalidRequest None) c)
      in if JSONRPC m \<noteq> ''2.0'' then (True, invalid)
         else if ID m = None \<and> Method m = jsonRPCMethodCancelRequest then (True, handleCancelRequest m c)
         else if ID m \<noteq> None \<and> Method m = [] then (True, handleResponse m c)
         else if Method m \<noteq> [] \<and> ID m \<noteq> None then (True, enqueueRequest m wr c)
         else if Method m \<noteq> [] then
           (case admit_notification m c of
              (True, c') \<Rightarrow> (True, c')
            | (False, c') \<Rightarrow> (False, shutdown (Some ErrNotificationQueueFull) c'))
         else (True, invalid))"

fun dispatch_entries :: "nat \<Rightarrow> (batch_entry \<times> nat option) list \<Rightarrow> conn \<Rightarrow> bool \<times> conn" where
  "dispatch_entries bi [] c = (True, c)"
| "dispatch_entries bi ((e, slot) # es) c =
     (let wr = map_option (\<lambda>i. (bi, i)) slot
      in if \<not> e_ok e then
           dispatch_entries bi es
             (case wr of
                None \<Rightarrow> c
              | Some _ \<Rightarrow> snd (writeResponse wr (error_reply (replyID e) (the (e_err e))) c))
         else (case dispatchMessage (e_msg e) wr c of
                 (False, c') \<Rightarrow> (False, c')
               | (True, c') \<Rightarrow> dispatch_entries bi es c'))"

definition dispatchBatch :: "transport_frame \<Rightarrow> conn \<Rightarrow> bool \<times> conn" where
  "dispatchBatch f c =
     (let bi = length (batches c);
          c1 = (if 0 < reply_count (f_entries f)
                then c\<lparr>batches := batches c @ [new_batch (reply_count (f_entries f))]\<rparr> else c)
      in dispatch_entries bi (zip (f_entries f) (reply_indexes 0 (f_entries f))) c1)"

definition dispatchFrame :: "transport_frame \<Rightarrow> conn \<Rightarrow> bool \<times> conn" where
  "dispatchFrame f c =
     (case Kind f of
        FrameKindMalformed \<Rightarrow>
          (True, sendProtocolError (case f_err f of Some e \<Rightarrow> e | None \<Rightarrow> NewParseError None) c)
      | FrameKindSingle \<Rightarrow> dispatchMessage (f_single f) None c
      | FrameKindBatch \<Rightarrow> dispatchBatch f c
      | FrameKindUnknown \<Rightarrow> (True, sendProtocolError (NewInvalidRequest None) c))"

section \<open>The reader\<close>

text \<open>
  \<open>bufio.Scanner\<close> with its line splitter and a buffer of at most \<open>mx\<close> bytes: the lines without
  their terminator, and whether the scan ended with a token that is too long.
\<close>

definition drop_cr :: "string \<Rightarrow> string" where
  "drop_cr s = (if s \<noteq> [] \<and> last s = CHR 0x0D then butlast s else s)"

function scan_lines :: "nat \<Rightarrow> string \<Rightarrow> string list \<times> bool" where
  "scan_lines mx s =
     (if s = [] then ([], False)
      else (let l = takeWhile (\<lambda>ch. ch \<noteq> newline) s; r = drop (Suc (length l)) s
            in if mx \<le> length l then ([], True)
               else (case scan_lines mx r of (ls, long) \<Rightarrow> (drop_cr l # ls, long))))"
  by pat_completeness auto
termination
  by (relation "measure (\<lambda>(mx, s). length s)") auto

declare scan_lines.simps [simp del]

text \<open>The body of the loop of \<open>receive\<close> for one line.\<close>

definition receive_line :: "string \<Rightarrow> conn \<Rightarrow> bool \<times> conn" where
  "receive_line raw c =
     (let line = trim_space raw
      in if line = [] then (True, c)
         else if RejectBatch (c_opts c) \<and> hd line = CHR ''['' \<and> json_valid line
         then (True, sendProtocolError (NewInvalidRequest None) c)
         else dispatchFrame (ParseTransportFrame line) c)"

fun receive_lines :: "string list \<Rightarrow> conn \<Rightarrow> bool \<times> conn" where
  "receive_lines [] c = (True, c)"
| "receive_lines (l # ls) c =
     (case receive_line l c of
        (False, c') \<Rightarrow> (False, c')
      | (True, c') \<Rightarrow> receive_lines ls c')"

text \<open>\<open>receive\<close> on the whole input; \<open>rerr\<close> is the reader's error, if it did not just end.\<close>

definition receive :: "string \<Rightarrow> go_error option \<Rightarrow> conn \<Rightarrow> conn" where
  "receive input rerr c =
     (case scan_lines (nat (MaxFrameSize (c_opts c))) input of
        (ls, long) \<Rightarrow>
          (case receive_lines ls c of
             (False, c') \<Rightarrow> c'
           | (True, c') \<Rightarrow>
               shutdown
                 (if long then Some (WrapErr (error_text ErrFrameTooLarge @ '': bufio.Scanner: token too long'') [ErrFrameTooLarge])
                  else (case rerr of
                          None \<Rightarrow> transportError OpRead (Some (wrap_two ErrPeerClosed EOF))
                        | Some e \<Rightarrow> transportError OpRead (Some (wrap_two ErrPeerClosed e)))) c'))"

section \<open>Requests under way\<close>

definition take_request :: "conn \<Rightarrow> conn option" where
  "take_request c =
     (case chan_receive (requestQueue c) of
        None \<Rightarrow> None
      | Some (q, ch) \<Rightarrow>
          Some (c\<lparr>requestQueue := ch,
                  c_running := c_running c @ [\<lparr>rr = q, rr_after = new_after_response (rq_reply q \<noteq> None)\<rparr>]\<rparr>))"

text \<open>\<open>AfterResponse\<close> in the handler of the running request \<open>i\<close>.\<close>

definition AfterResponse :: "nat \<Rightarrow> nat \<Rightarrow> conn \<Rightarrow> go_error option \<times> conn" where
  "AfterResponse i cb c =
     (case after_response_add (cause_of c) (nat (MaxPendingRequests (c_opts c))) cb
             (rr_after (c_running c ! i)) (batchCallbackSlots c) of
        (e, s, n) \<Rightarrow>
          (e, c\<lparr>c_running := (c_running c)[i := (c_running c ! i)\<lparr>rr_after := s\<rparr>], batchCallbackSlots := n\<rparr>))"

text \<open>
  The outcome of a handler: its request error, or the result as \<open>json.Marshal\<close> encodes it,
  or the error of encoding it.
\<close>

type_synonym handler_outcome = "request_error + (go_error + string)"

definition response_of :: "any_message \<Rightarrow> handler_outcome \<Rightarrow> bool \<times> any_message" where
  "response_of m out =
     (let base = empty_message\<lparr>ID := ID m\<rparr>
      in case out of
           Inl e \<Rightarrow> (False, base\<lparr>Error := Some e\<rparr>)
         | Inr (Inl e) \<Rightarrow> (False, base\<lparr>Error := Some (NewInternalError (error_data (error_text e)))\<rparr>)
         | Inr (Inr enc) \<Rightarrow> (True, base\<lparr>Result := enc\<rparr>))"

text \<open>
  \<open>handleInbound\<close> after the handler returned, with the \<open>finish\<close> of \<open>processRequests\<close>: the
  request leaves the worker, its callback is sealed, the response is written or handed to the
  batch, and a callback runs after a response that was written.
\<close>

definition handleInbound :: "nat \<Rightarrow> handler_outcome \<Rightarrow> conn \<Rightarrow> conn" where
  "handleInbound i out c =
     (let run = c_running c ! i;
          q = rr run;
          cb = fst (after_response_seal (rr_after run));
          c0 = c\<lparr>c_running := take i (c_running c) @ drop (Suc i) (c_running c)\<rparr>
      in case response_of (rq_msg q) (if has_handler c then out else Inl (NewMethodNotFound (Method (rq_msg q)))) of
           (ok, m) \<Rightarrow>
             (case rq_reply q of
                Some (bi, k) \<Rightarrow>
                  (let drop = (\<not> ok \<and> cb \<noteq> None);
                       c1 = (if drop then c0\<lparr>batchCallbackSlots := batchCallbackSlots c0 - 1\<rparr> else c0)
                   in snd (complete_reply bi k m
                             \<lparr>finish = Some (rq_key q, rq_ctx q), callback = (if ok then cb else None)\<rparr> c1))
              | None \<Rightarrow>
                  (case sendMessage m c0 of
                     (err, c1) \<Rightarrow>
                       (let c2 = finish_request (rq_key q, rq_ctx q) c1
                        in if err = None \<and> ok
                           then c2\<lparr>callbacks_run := callbacks_run c2 @ (case cb of None \<Rightarrow> [] | Some x \<Rightarrow> [x])\<rparr>
                           else c2))))"

text \<open>The worker of \<open>start\<close> that runs the callbacks of batches.\<close>

definition take_callback :: "conn \<Rightarrow> conn option" where
  "take_callback c =
     (case (cb_running c, chan_receive (batchCallbackQueue c)) of
        (None, Some (cb, ch)) \<Rightarrow>
          Some (c\<lparr>batchCallbackQueue := ch, cb_running := Some cb, callbacks_run := callbacks_run c @ [cb]\<rparr>)
      | _ \<Rightarrow> None)"

definition end_callback :: "conn \<Rightarrow> conn option" where
  "end_callback c =
     (case cb_running c of
        None \<Rightarrow> None
      | Some _ \<Rightarrow> Some (c\<lparr>cb_running := None, batchCallbackSlots := batchCallbackSlots c - 1\<rparr>))"

section \<open>Outbound messages\<close>

text \<open>Parameters are what \<open>json.Marshal\<close> gives for them; \<open>None\<close> are nil parameters.\<close>

definition with_params :: "any_message \<Rightarrow> (go_error + string) option \<Rightarrow> request_error + any_message" where
  "with_params m params =
     (case params of
        None \<Rightarrow> Inr m
      | Some (Inl e) \<Rightarrow> Inl (NewInvalidParams (error_data (error_text e)))
      | Some (Inr enc) \<Rightarrow> Inr (m\<lparr>Params := enc\<rparr>))"

definition prepareRequest :: "string \<Rightarrow> (go_error + string) option \<Rightarrow> conn \<Rightarrow>
    (request_error + any_message \<times> string) \<times> conn" where
  "prepareRequest method params c =
     (if method = [] then (Inl (NewInvalidRequest (error_data ''method is required'')), c)
      else (let i = nextID c + 1;
                key = show_nat (unat i);
                c' = c\<lparr>nextID := i\<rparr>
            in case with_params (empty_message\<lparr>ID := Some key, Method := method\<rparr>) params of
                 Inl e \<Rightarrow> (Inl e, c')
               | Inr m \<Rightarrow> (Inr (m, key), c')))"

definition SendNotification :: "string \<Rightarrow> (go_error + string) option \<Rightarrow> conn \<Rightarrow> go_error option \<times> conn" where
  "SendNotification method params c =
     (if method = [] then (Some (ReqErr (NewInvalidRequest (error_data ''method is required''))), c)
      else (case with_params (empty_message\<lparr>Method := method\<rparr>) params of
              Inl e \<Rightarrow> (Some (ReqErr e), c)
            | Inr m \<Rightarrow> sendMessage m c))"

definition queueCancel :: "string \<Rightarrow> conn \<Rightarrow> conn" where
  "queueCancel key c =
     (case chan_try_send key (cancelQueue c) of
        None \<Rightarrow> c
      | Some q \<Rightarrow> if closed c \<and> pick_done c then c else c\<lparr>cancelQueue := q\<rparr>)"

text \<open>\<open>json.Marshal\<close> of \<open>cancelRequestParams\<close>.\<close>

definition encode_cancel_params :: "string \<Rightarrow> go_error + string" where
  "encode_cancel_params key =
     (case marshal_raw key of
        None \<Rightarrow> Inl marshal_failed
      | Some t \<Rightarrow> Inr (''{'' @ json_key ''requestId'' @ t @ ''}''))"

definition processCancelRequest :: "conn \<Rightarrow> conn option" where
  "processCancelRequest c =
     (case chan_receive (cancelQueue c) of
        None \<Rightarrow> None
      | Some (key, q) \<Rightarrow>
          Some (snd (SendNotification jsonRPCMethodCancelRequest (Some (encode_cancel_params key))
                  (c\<lparr>cancelQueue := q\<rparr>))))"

section \<open>Accounting of inbound requests and callbacks\<close>

text \<open>
  The fields that the accounting is about. Sending and shutting down leave them alone.
\<close>

definition core :: "conn \<Rightarrow> (string \<times> nat) list \<times> nat \<times> queued_request chan \<times> run_request list \<times> batch_reply list \<times>
    nat chan \<times> int \<times> nat option \<times> connection_options" where
  "core c = (inflight c, length (ctxs c), requestQueue c, c_running c, batches c, batchCallbackQueue c,
     batchCallbackSlots c, cb_running c, c_opts c)"

lemma core_iff:
  "core c' = core c \<longleftrightarrow> inflight c' = inflight c \<and> length (ctxs c') = length (ctxs c) \<and>
    requestQueue c' = requestQueue c \<and> c_running c' = c_running c \<and> batches c' = batches c \<and>
    batchCallbackQueue c' = batchCallbackQueue c \<and> batchCallbackSlots c' = batchCallbackSlots c \<and>
    cb_running c' = cb_running c \<and> c_opts c' = c_opts c"
  by (auto simp: core_def)

lemma core_send [simp]:
  "core (shutdown e c) = core c" "core (snd (sendEncoded d c)) = core c" "core (snd (sendMessage m c)) = core c"
  "core (sendProtocolError r c) = core c" "core (cancel_ctx h x c) = core c" "core (handleCancelRequest m c) = core c"
  "core (handleResponse m c) = core c" "core (snd (admit_notification m c)) = core c"
  "core (snd (SendNotification me ps c)) = core c" "core (queueCancel k c) = core c"
proof -
  show sh: "core (shutdown e c) = core c" for e c by (simp add: shutdown_def core_def)
  show se: "core (snd (sendEncoded d c)) = core c" for d c
    using sh by (auto simp: sendEncoded_def Let_def core_def split: option.splits prod.splits)
  show sm: "core (snd (sendMessage m c)) = core c" for m c
    using se by (auto simp: sendMessage_def split: sum.splits)
  show "core (sendProtocolError r c) = core c" using sm by (simp add: sendProtocolError_def)
  show cx: "core (cancel_ctx h x c) = core c" for h x c by (simp add: cancel_ctx_def core_def)
  show "core (handleCancelRequest m c) = core c"
    using cx by (auto simp: handleCancelRequest_def split: option.splits sum.splits)
  show "core (handleResponse m c) = core c" by (auto simp: handleResponse_def core_def split: sum.splits)
  show "core (snd (admit_notification m c)) = core c"
    by (auto simp: admit_notification_def core_def split: option.splits prod.splits)
  show "core (snd (SendNotification me ps c)) = core c"
    using sm by (auto simp: SendNotification_def split: sum.splits)
  show "core (queueCancel k c) = core c" by (auto simp: queueCancel_def core_def split: option.splits)
qed

lemmas core_fields = core_iff [THEN iffD1]

text \<open>The owners of the reserved ids: queued, handled, or answered in a batch that is not complete.\<close>

definition owner_of :: "queued_request \<Rightarrow> string \<times> nat" where
  "owner_of q = (rq_key q, rq_ctx q)"

definition batch_owners :: "batch_reply \<Rightarrow> (string \<times> nat) list" where
  "batch_owners b = (if remaining b = 0 then [] else collect finish (completions b))"

definition owners :: "conn \<Rightarrow> (string \<times> nat) list" where
  "owners c = map owner_of (chan_items (requestQueue c)) @ map (owner_of \<circ> rr) (c_running c)
     @ concat (map batch_owners (batches c))"

text \<open>The slots of batches that requests under way will fill.\<close>

definition refs :: "conn \<Rightarrow> (nat \<times> nat) list" where
  "refs c = collect rq_reply (chan_items (requestQueue c)) @ collect (rq_reply \<circ> rr) (c_running c)"

definition open_slot :: "conn \<Rightarrow> nat \<times> nat \<Rightarrow> bool" where
  "open_slot c s \<longleftrightarrow> fst s < length (batches c) \<and> snd s < length (replies (batches c ! fst s)) \<and>
     \<not> present (batches c ! fst s) ! snd s"

text \<open>Callbacks that hold a token of \<open>batchCallbackSlots\<close>.\<close>

definition run_callbacks :: "run_request \<Rightarrow> nat list" where
  "run_callbacks r = (if ar_reserve (rr_after r) then opt_list (ar_callback (rr_after r)) else [])"

definition batch_callbacks :: "batch_reply \<Rightarrow> nat list" where
  "batch_callbacks b = (if remaining b = 0 then [] else collect callback (completions b))"

definition held_callbacks :: "conn \<Rightarrow> nat" where
  "held_callbacks c = length (chan_items (batchCallbackQueue c)) + length (opt_list (cb_running c))
     + length (concat (map run_callbacks (c_running c))) + length (concat (map batch_callbacks (batches c)))"

definition batch_fresh :: "batch_reply \<Rightarrow> bool" where
  "batch_fresh b \<longleftrightarrow> (\<forall>i < length (replies b). \<not> present b ! i \<longrightarrow> completions b ! i = no_completion)"

text \<open>
  The accounting, with the ids \<open>xs\<close>, the slots \<open>ss\<close> and the tokens \<open>k\<close> that the operation in
  progress holds itself.
\<close>

definition ids_inv :: "(string \<times> nat) list \<Rightarrow> conn \<Rightarrow> bool" where
  "ids_inv xs c \<longleftrightarrow> distinct (map fst (inflight c)) \<and> mset (inflight c) = mset (owners c) + mset xs \<and>
     (\<forall>x \<in> set (inflight c). snd x < length (ctxs c))"

definition slots_inv :: "(nat \<times> nat) list \<Rightarrow> conn \<Rightarrow> bool" where
  "slots_inv ss c \<longleftrightarrow> (\<forall>b \<in> set (batches c). batch_ok b \<and> batch_fresh b) \<and>
     distinct (refs c @ ss) \<and> (\<forall>s \<in> set (refs c @ ss). open_slot c s)"

definition tokens_inv :: "nat \<Rightarrow> conn \<Rightarrow> bool" where
  "tokens_inv k c \<longleftrightarrow> batchCallbackSlots c = int (held_callbacks c + k) \<and>
     batchCallbackSlots c \<le> int (chan_cap (batchCallbackQueue c)) \<and>
     chan_cap (batchCallbackQueue c) = nat (MaxPendingRequests (c_opts c)) \<and>
     (\<forall>r \<in> set (c_running c). ar_reserve (rr_after r) \<longleftrightarrow> rq_reply (rr r) \<noteq> None)"

definition acc_inv :: "(string \<times> nat) list \<Rightarrow> (nat \<times> nat) list \<Rightarrow> nat \<Rightarrow> conn \<Rightarrow> bool" where
  "acc_inv xs ss k c \<longleftrightarrow> ids_inv xs c \<and> slots_inv ss c \<and> tokens_inv k c \<and> chan_ok (requestQueue c)"

lemmas acc_defs = acc_inv_def ids_inv_def slots_inv_def tokens_inv_def
lemmas acc_views = owners_def refs_def open_slot_def held_callbacks_def

lemma acc_core: "core c' = core c \<Longrightarrow> acc_inv xs ss k c' = acc_inv xs ss k c"
  by (drule core_fields) (simp add: acc_defs acc_views)

text \<open>Retiring ids.\<close>

lemma mset_map_delete:
  assumes "distinct (map fst m)" "(k, h) \<in> set m"
  shows "mset (map_delete k m) = mset m - {#(k, h)#}" "distinct (map fst (map_delete k m))"
proof -
  from assms(2) obtain a b where m: "m = a @ (k, h) # b" by (meson split_list)
  have "k \<notin> fst ` set a" "k \<notin> fst ` set b" using assms(1) by (auto simp: m)
  then have "filter (\<lambda>(k', _). k' \<noteq> k) a = a" "filter (\<lambda>(k', _). k' \<noteq> k) b = b"
    unfolding filter_id_conv by force+
  then have "map_delete k m = a @ b" by (simp add: m map_delete_def)
  then show "mset (map_delete k m) = mset m - {#(k, h)#}" by (simp add: m)
  show "distinct (map fst (map_delete k m))" using assms(1) by (simp add: map_delete_def distinct_map_filter)
qed

lemma retire_fields [simp]:
  "inflight (finish_request kh c) = map_delete (fst kh) (inflight c)"
  "length (ctxs (finish_request kh c)) = length (ctxs c)" "requestQueue (finish_request kh c) = requestQueue c"
  "c_running (finish_request kh c) = c_running c" "batches (finish_request kh c) = batches c"
  "batchCallbackQueue (finish_request kh c) = batchCallbackQueue c"
  "batchCallbackSlots (finish_request kh c) = batchCallbackSlots c" "cb_running (finish_request kh c) = cb_running c"
  "c_opts (finish_request kh c) = c_opts c"
  by (simp_all add: finish_request_def cancel_ctx_def removeInflight_def)

lemma acc_finish_request:
  assumes "acc_inv (kh # xs) ss k c"
  shows "acc_inv xs ss k (finish_request kh c)"
proof -
  have ms: "mset (inflight c) = mset (owners c) + mset (kh # xs)" and d: "distinct (map fst (inflight c))"
    using assms by (simp_all add: acc_defs)
  have "kh \<in># mset (inflight c)" unfolding ms by simp
  then have mem: "(fst kh, snd kh) \<in> set (inflight c)" by simp
  have o: "owners (finish_request kh c) = owners c" "refs (finish_request kh c) = refs c"
    "held_callbacks (finish_request kh c) = held_callbacks c" "open_slot (finish_request kh c) = open_slot c"
    by (simp_all add: acc_views fun_eq_iff)
  have "mset (inflight (finish_request kh c)) = mset (owners c) + mset xs"
    using mset_map_delete(1) [OF d mem] ms by simp
  moreover have "set (map_delete (fst kh) (inflight c)) \<subseteq> set (inflight c)" by (auto simp: map_delete_def)
  ultimately show ?thesis
    using assms mset_map_delete(2) [OF d mem] by (auto simp: acc_defs o)
qed

lemma acc_retire:
  "acc_inv (collect finish cs @ xs) ss k c \<Longrightarrow> acc_inv xs ss k (fold run_finish cs c)"
proof (induction cs arbitrary: c)
  case (Cons a cs)
  show ?case
  proof (cases "finish a")
    case None
    with Cons show ?thesis by (simp add: run_finish_def)
  next
    case (Some kh)
    then have "acc_inv (collect finish cs @ xs) ss k (finish_request kh c)"
      using Cons.prems by (intro acc_finish_request) simp
    with Cons.IH Some show ?thesis by (simp add: run_finish_def)
  qed
qed simp

lemma acc_callbacks:
  "acc_inv xs ss (length (collect callback cs) + k) c \<Longrightarrow> acc_inv xs ss k (fold (queue_callback err) cs c)"
proof (induction cs arbitrary: c)
  case (Cons a cs)
  show ?case
  proof (cases "callback a")
    case None
    with Cons show ?thesis by (simp add: queue_callback_def)
  next
    case (Some cb)
    then have "acc_inv xs ss (length (collect callback cs) + k) (queue_callback err a c)"
      using Cons.prems by (cases "err = None") (auto simp: acc_defs acc_views queue_callback_def)
    with Cons.IH show ?thesis by simp
  qed
qed simp

section \<open>A reply in a batch\<close>

lemma batch_complete_fresh:
  assumes "batch_ok b" "batch_fresh b" "i < length (replies b)" "\<not> present b ! i" "batch_complete i m cmp b = (b', fl)"
  shows "batch_fresh b'" "fl \<longleftrightarrow> remaining b' = 0" "completions b' = (completions b)[i := cmp]"
    "present b' = (present b)[i := True]" "length (replies b') = length (replies b)"
    "remaining b \<noteq> 0" "completions b ! i = no_completion"
proof -
  have b': "b' = b\<lparr>completions := (completions b)[i := cmp], replies := (replies b)[i := m],
      present := (present b)[i := True], remaining := remaining b - 1\<rparr>" and fl: "fl \<longleftrightarrow> remaining b' = 0"
    using assms(3-5) by (auto simp: batch_complete_def Let_def)
  show "fl \<longleftrightarrow> remaining b' = 0" by (rule fl)
  show "batch_fresh b'" using assms(1-3) by (auto simp: batch_fresh_def b' batch_ok_def nth_list_update)
  show "completions b' = (completions b)[i := cmp]" "present b' = (present b)[i := True]"
    "length (replies b') = length (replies b)" by (simp_all add: b')
  have "present b ! i \<in> set (present b)" using assms(1,3) by (intro nth_mem) (simp add: batch_ok_def)
  then have "\<not> list_all (\<lambda>x. x) (present b)" using assms(4) by (auto simp: list_all_iff)
  then show "remaining b \<noteq> 0" using assms(1) by (auto simp: batch_ok_def list_all_iff filter_empty_conv)
  show "completions b ! i = no_completion" using assms(2-4) by (simp add: batch_fresh_def)
qed

text \<open>
  The state after the critical section: the ids and tokens of the whole batch are free to
  be retired when it is complete, and owned by the batch otherwise.
\<close>

lemma move_owners:
  fixes i :: "'a multiset"
  assumes "i = base + os + (f + x)" "o' + e = ob + f" "os' + ob = os + o'"
  shows "i = base + os' + (e + x)"
proof -
  have "i + ob = base + os + x + (ob + f)" by (simp add: assms(1))
  also have "\<dots> = base + os + x + (o' + e)" by (simp only: assms(2))
  also have "\<dots> = base + x + e + (os + o')" by simp
  also have "\<dots> = base + x + e + (os' + ob)" by (simp only: assms(3))
  finally show ?thesis by simp
qed

lemma acc_fill:
  assumes inv: "acc_inv (opt_list (finish cmp) @ xs) ((bi, i) # ss) (length (opt_list (callback cmp)) + k) c"
    and bc: "batch_complete i m cmp (batches c ! bi) = (b', fl)"
  shows "acc_inv ((if fl then collect finish (completions b') else []) @ xs) ss
    ((if fl then length (collect callback (completions b')) else 0) + k) (c\<lparr>batches := (batches c)[bi := b']\<rparr>)"
    (is "acc_inv ?xs ss ?k ?c")
proof -
  let ?b = "batches c ! bi"
  have bi: "bi < length (batches c)" and i: "i < length (replies ?b)" "\<not> present ?b ! i"
    using inv by (simp_all add: acc_defs open_slot_def)
  have ok: "batch_ok ?b" "batch_fresh ?b" using inv bi by (auto simp: acc_defs)
  note f = batch_complete_fresh [OF ok i bc]
  have ok': "batch_ok b'" using batch_complete_ok [OF ok(1) bc] by blast
  have len: "i < length (completions ?b)" using ok(1) i(1) by (simp add: batch_ok_def)
  have col: "mset (collect finish (completions b')) = mset (collect finish (completions ?b)) + mset (opt_list (finish cmp))"
    "mset (collect callback (completions b')) = mset (collect callback (completions ?b)) + mset (opt_list (callback cmp))"
    unfolding f(3) using f(7) by (simp_all add: collect_update [OF len] no_completion_def)
  have own: "mset (batch_owners b') + mset (if fl then collect finish (completions b') else []) =
      mset (batch_owners ?b) + mset (opt_list (finish cmp))"
    using f(2,6) col(1) by (simp add: batch_owners_def)
  have "mset (batch_callbacks b') + mset (if fl then collect callback (completions b') else []) =
      mset (batch_callbacks ?b) + mset (opt_list (callback cmp))"
    using f(2,6) col(2) by (simp add: batch_callbacks_def)
  then have "size (mset (batch_callbacks b') + mset (if fl then collect callback (completions b') else [])) =
      size (mset (batch_callbacks ?b) + mset (opt_list (callback cmp)))" by (rule arg_cong)
  then have tok: "length (batch_callbacks b') + (if fl then length (collect callback (completions b')) else 0) =
      length (batch_callbacks ?b) + length (opt_list (callback cmp))" by (simp split: if_splits)
  have all_own: "mset (concat (map batch_owners (batches ?c))) + mset (batch_owners ?b) =
      mset (concat (map batch_owners (batches c))) + mset (batch_owners b')"
    using mset_concat_update [OF bi, of batch_owners b'] by simp
  have "mset (concat (map batch_callbacks (batches ?c))) + mset (batch_callbacks ?b) =
      mset (concat (map batch_callbacks (batches c))) + mset (batch_callbacks b')"
    using mset_concat_update [OF bi, of batch_callbacks b'] by simp
  then have "size (mset (concat (map batch_callbacks (batches ?c))) + mset (batch_callbacks ?b)) =
      size (mset (concat (map batch_callbacks (batches c))) + mset (batch_callbacks b'))" by (rule arg_cong)
  then have all_tok: "length (concat (map batch_callbacks (batches ?c))) + length (batch_callbacks ?b) =
      length (concat (map batch_callbacks (batches c))) + length (batch_callbacks b')"
    by (simp only: size_mset size_union)
  let ?base = "mset (map owner_of (chan_items (requestQueue c))) + mset (map (owner_of \<circ> rr) (c_running c))"
  have "mset (inflight c) = ?base + mset (concat (map batch_owners (batches c))) + (mset (opt_list (finish cmp)) + mset xs)"
    using inv by (simp add: acc_defs owners_def)
  from move_owners [OF this own all_own]
  have ids: "mset (inflight ?c) = mset (owners ?c) + mset ?xs" by (simp add: owners_def)
  have held: "held_callbacks ?c + ?k = held_callbacks c + (length (opt_list (callback cmp)) + k)"
    using tok all_tok by (simp add: held_callbacks_def)
  have bs: "\<forall>b \<in> set (batches ?c). batch_ok b \<and> batch_fresh b"
    using inv ok' f(1) by (auto simp: acc_defs dest!: set_update_subset_insert [THEN subsetD])
  have "open_slot ?c s" if s: "s \<in> set (refs c @ ss)" for s
  proof -
    have "open_slot c s" "s \<noteq> (bi, i)" using inv s by (auto simp: acc_defs)
    then show ?thesis using bi f(4,5) by (cases s) (auto simp: open_slot_def nth_list_update)
  qed
  moreover have "refs ?c = refs c" by (simp add: refs_def)
  ultimately have "slots_inv ss ?c" using inv bs by (auto simp: acc_inv_def slots_inv_def)
  moreover have "ids_inv ?xs ?c" using inv ids by (simp add: acc_inv_def ids_inv_def)
  moreover have "tokens_inv (length (opt_list (callback cmp)) + k) c" using inv by (simp add: acc_inv_def)
  then have "tokens_inv ?k ?c" unfolding tokens_inv_def held by auto
  ultimately show ?thesis using inv by (simp add: acc_inv_def)
qed

lemma acc_send:
  "acc_inv xs ss k (shutdown e c) = acc_inv xs ss k c" "acc_inv xs ss k (snd (sendEncoded d c)) = acc_inv xs ss k c"
  "acc_inv xs ss k (snd (sendMessage m c)) = acc_inv xs ss k c"
  "acc_inv xs ss k (sendProtocolError r c) = acc_inv xs ss k c" "acc_inv xs ss k (cancel_ctx h x c) = acc_inv xs ss k c"
  "acc_inv xs ss k (handleCancelRequest m c) = acc_inv xs ss k c" "acc_inv xs ss k (handleResponse m c) = acc_inv xs ss k c"
  "acc_inv xs ss k (snd (admit_notification m c)) = acc_inv xs ss k c"
  "acc_inv xs ss k (snd (SendNotification me ps c)) = acc_inv xs ss k c" "acc_inv xs ss k (queueCancel q c) = acc_inv xs ss k c"
  by (rule acc_core, rule core_send)+

lemma acc_flush:
  "acc_inv (collect finish (completions b) @ xs) ss (length (collect callback (completions b)) + k) c \<Longrightarrow>
    acc_inv xs ss k (snd (batch_flush b c))"
  by (auto simp: batch_flush_def acc_send split: prod.splits sum.splits intro!: acc_callbacks acc_retire)
    (metis acc_send(2) snd_conv)

lemma acc_complete_reply:
  assumes "acc_inv (opt_list (finish cmp) @ xs) ((bi, i) # ss) (length (opt_list (callback cmp)) + k) c"
  shows "acc_inv xs ss k (snd (complete_reply bi i m cmp c))"
proof -
  obtain b' fl where bc: "batch_complete i m cmp (batches c ! bi) = (b', fl)" by force
  from acc_fill [OF assms bc] show ?thesis
    by (cases fl) (auto simp: complete_reply_def bc Let_def intro: acc_flush)
qed

lemma acc_drop_slot: "acc_inv xs (s # ss) k c \<Longrightarrow> acc_inv xs ss k c"
  by (auto simp: acc_defs)

lemma acc_writeResponse:
  "acc_inv xs (opt_list wr @ ss) k c \<Longrightarrow> acc_inv xs ss k (snd (writeResponse wr m c))"
  by (cases wr) (auto simp: writeResponse_def acc_send no_completion_def intro: acc_complete_reply)

section \<open>Inbound messages keep the accounting\<close>

lemma acc_reserve:
  assumes "acc_inv xs ss k c" "map_of (inflight c) key = None"
  shows "acc_inv ((key, length (ctxs c)) # xs) ss k
    (c\<lparr>inflight := inflight c @ [(key, length (ctxs c))], ctxs := ctxs c @ [None]\<rparr>)"
proof -
  have "key \<notin> fst ` set (inflight c)" using assms(2) by (simp add: map_of_eq_None_iff)
  then show ?thesis using assms(1) by (auto simp: acc_defs acc_views less_Suc_eq)
qed

lemma acc_unreserve:
  "acc_inv ((key, h) # xs) ss k c \<Longrightarrow> acc_inv xs ss k (cancel_ctx h e (removeInflight key c))"
  using acc_finish_request [of "(key, h)" xs ss k c] by (simp add: finish_request_def acc_send)

lemma acc_enqueue:
  assumes "acc_inv ((rq_key r, rq_ctx r) # xs) (opt_list (rq_reply r) @ ss) k c" "chan_try_send r (requestQueue c) = Some q"
  shows "acc_inv xs ss k (c\<lparr>requestQueue := q\<rparr>)"
  using assms chan_send_Some [OF assms(2)] chan_send_ok [OF _ assms(2)]
  by (auto simp: acc_defs acc_views owner_of_def)

lemma acc_enqueueRequest:
  assumes "acc_inv xs (opt_list wr @ ss) k c"
  shows "acc_inv xs ss k (enqueueRequest m wr c)"
proof (cases "canonicalJSONRPCIDKey (the (ID m))")
  case (Inl e)
  then show ?thesis using acc_writeResponse [OF assms] by (simp add: enqueueRequest_def)
next
  case (Inr key)
  show ?thesis
  proof (cases "map_of (inflight c) key")
    case (Some h)
    then show ?thesis using acc_writeResponse [OF assms] Inr by (simp add: enqueueRequest_def)
  next
    case None
    let ?h = "length (ctxs c)"
    let ?c1 = "c\<lparr>inflight := inflight c @ [(key, ?h)], ctxs := ctxs c @ [None]\<rparr>"
    let ?r = "\<lparr>rq_msg = m, rq_key = key, rq_ctx = ?h, rq_reply = wr\<rparr>"
    have r: "acc_inv ((key, ?h) # xs) (opt_list wr @ ss) k ?c1" by (rule acc_reserve [OF assms None])
    have u: "acc_inv xs ss k (snd (writeResponse wr x (cancel_ctx ?h e (removeInflight key ?c1))))" for x e
      by (rule acc_writeResponse [OF acc_unreserve [OF r]])
    have "acc_inv xs ss k (?c1\<lparr>requestQueue := q\<rparr>)" if "chan_try_send ?r (requestQueue ?c1) = Some q" for q
      by (rule acc_enqueue [OF _ that]) (use r in simp)
    with u show ?thesis by (simp add: enqueueRequest_def Inr None Let_def split: option.split)
  qed
qed

lemma acc_dispatchMessage:
  assumes "acc_inv xs (opt_list wr @ ss) k c"
  shows "acc_inv xs ss k (snd (dispatchMessage m wr c))"
proof -
  have c: "acc_inv xs ss k c" using assms by (cases wr) (auto dest: acc_drop_slot)
  have w: "acc_inv xs ss k (snd (writeResponse wr x c))" for x by (rule acc_writeResponse [OF assms])
  have n: "acc_inv xs ss k c'" if "admit_notification m c = (b, c')" for b c'
    using c acc_send(8) [of xs ss k m c] that by simp
  show ?thesis
    using c w acc_enqueueRequest [OF assms]
    by (auto simp: dispatchMessage_def Let_def acc_send dest: n split: option.split prod.split bool.split)
qed

definition slots_of :: "nat \<Rightarrow> (batch_entry \<times> nat option) list \<Rightarrow> (nat \<times> nat) list" where
  "slots_of bi es = map (Pair bi) (collect snd es)"

lemma acc_drop_slots: "acc_inv xs (ts @ ss) k c \<Longrightarrow> acc_inv xs ss k c"
  by (induction ts) (auto dest: acc_drop_slot)

lemma acc_dispatch_entries:
  "acc_inv xs (slots_of bi es @ ss) k c \<Longrightarrow> acc_inv xs ss k (snd (dispatch_entries bi es c))"
proof (induction bi es c rule: dispatch_entries.induct)
  case (2 bi e slot es c)
  let ?wr = "map_option (\<lambda>i. (bi, i)) slot"
  have c: "acc_inv xs (opt_list ?wr @ slots_of bi es @ ss) k c"
    using "2.prems" by (cases slot) (simp_all add: slots_of_def)
  show ?case
  proof (cases "e_ok e")
    case False
    have "acc_inv xs (slots_of bi es @ ss) k (snd (writeResponse ?wr x c))" for x
      by (rule acc_writeResponse [OF c])
    moreover have "slot = None \<Longrightarrow> acc_inv xs (slots_of bi es @ ss) k c" using c by simp
    ultimately show ?thesis using "2.IH"(1) False by (cases slot) (simp_all add: Let_def)
  next
    case True
    obtain b c' where d: "dispatchMessage (e_msg e) ?wr c = (b, c')" by force
    have c': "acc_inv xs (slots_of bi es @ ss) k c'" using acc_dispatchMessage [OF c, of "e_msg e"] d by simp
    then have "acc_inv xs ss k c'" by (rule acc_drop_slots)
    then show ?thesis using "2.IH"(2) [OF refl _ d [symmetric]] c' True d by (cases b) (simp_all add: Let_def)
  qed
qed (simp add: slots_of_def)

lemma reply_slots_new:
  "slots_of bi (zip es (reply_indexes n es)) = map (Pair bi) [n..<n + reply_count es]"
proof -
  have "collect snd (zip es (reply_indexes n es)) = [n..<n + reply_count es]"
  proof (induction n es rule: reply_indexes.induct)
    case (2 n e es)
    have "[n..<n + Suc j] = n # [Suc n..<Suc n + j]" for j by (simp add: upt_conv_Cons del: upt_Suc)
    with 2 show ?case by (auto simp: reply_count_def simp del: upt_Suc)
  qed (simp add: reply_count_def)
  then show ?thesis by (simp add: slots_of_def)
qed

lemma acc_new_batch:
  assumes "acc_inv xs ss k c" "0 < n"
  shows "acc_inv xs (map (Pair (length (batches c))) [0..<n] @ ss) k (c\<lparr>batches := batches c @ [new_batch n]\<rparr>)"
proof -
  have new: "batch_fresh (new_batch n)" "batch_owners (new_batch n) = []" "batch_callbacks (new_batch n) = []"
    by (auto simp: batch_fresh_def new_batch_def batch_owners_def batch_callbacks_def collect_def no_completion_def)
  let ?c = "c\<lparr>batches := batches c @ [new_batch n]\<rparr>"
  have old: "open_slot ?c s \<and> s \<notin> Pair (length (batches c)) ` {0..<n}" if "s \<in> set (refs c @ ss)" for s
  proof -
    have "open_slot c s" using assms(1) that by (auto simp: acc_defs)
    then show ?thesis by (auto simp: open_slot_def nth_append)
  qed
  have "open_slot ?c (length (batches c), i)" if "i < n" for i using that by (simp add: open_slot_def new_batch_def)
  moreover have "refs ?c = refs c" by (simp add: refs_def)
  ultimately have "slots_inv (map (Pair (length (batches c))) [0..<n] @ ss) ?c"
    using assms(1) old new(1) by (auto simp: acc_inv_def slots_inv_def distinct_map inj_on_def)
  moreover have "owners ?c = owners c" "held_callbacks ?c = held_callbacks c" by (simp_all add: acc_views new)
  ultimately show ?thesis using assms(1) by (auto simp: acc_inv_def ids_inv_def tokens_inv_def)
qed

lemma acc_dispatchFrame: "acc_inv [] [] 0 c \<Longrightarrow> acc_inv [] [] 0 (snd (dispatchFrame f c))"
proof -
  assume inv: "acc_inv [] [] 0 c"
  have "acc_inv [] [] 0 (snd (dispatchBatch f c))"
  proof (cases "0 < reply_count (f_entries f)")
    case True
    from acc_new_batch [OF inv True] show ?thesis
      unfolding dispatchBatch_def Let_def using True
      by (auto simp: reply_slots_new intro: acc_dispatch_entries)
  next
    case False
    then have "slots_of (length (batches c)) (zip (f_entries f) (reply_indexes 0 (f_entries f))) = []"
      by (simp add: reply_slots_new)
    then show ?thesis using inv False by (auto simp: dispatchBatch_def Let_def intro: acc_dispatch_entries)
  qed
  then show "acc_inv [] [] 0 (snd (dispatchFrame f c))"
    using inv acc_dispatchMessage [of "[]" None "[]" 0 c]
    by (auto simp: dispatchFrame_def acc_send split: frame_kind.split)
qed

lemma acc_receive_line: "acc_inv [] [] 0 c \<Longrightarrow> acc_inv [] [] 0 (snd (receive_line l c))"
  by (simp add: receive_line_def Let_def acc_send acc_dispatchFrame)

section \<open>Requests under way keep the accounting\<close>

lemma acc_take_request:
  assumes "acc_inv xs ss k c" "take_request c = Some c'"
  shows "acc_inv xs ss k c'"
proof -
  obtain q ch where r: "chan_receive (requestQueue c) = Some (q, ch)"
    and c': "c' = c\<lparr>requestQueue := ch,
        c_running := c_running c @ [\<lparr>rr = q, rr_after = new_after_response (rq_reply q \<noteq> None)\<rparr>]\<rparr>"
    using assms(2) by (auto simp: take_request_def split: option.splits)
  have items: "chan_items (requestQueue c) = q # chan_items ch" using chan_receive_Some [OF r] by simp
  have "mset (owners c') = mset (owners c)" by (simp add: owners_def c' items)
  moreover have "mset (refs c') = mset (refs c)" by (simp add: refs_def c' items)
  then have "mset (refs c' @ ss) = mset (refs c @ ss)" by simp
  then have "distinct (refs c' @ ss) = distinct (refs c @ ss)" "set (refs c' @ ss) = set (refs c @ ss)"
    by (rule mset_eq_imp_distinct_iff, rule mset_eq_setD)
  moreover have "open_slot c' = open_slot c" by (auto simp: open_slot_def c')
  moreover have "held_callbacks c' = held_callbacks c"
    by (simp add: held_callbacks_def c' run_callbacks_def new_after_response_def)
  moreover have "chan_ok ch" using assms(1) chan_receive_ok [OF _ r] by (simp add: acc_inv_def)
  ultimately show ?thesis
    using assms(1) unfolding acc_inv_def ids_inv_def slots_inv_def tokens_inv_def
    by (simp only:) (auto simp: c' new_after_response_def)
qed

lemma acc_AfterResponse:
  assumes "acc_inv xs ss k c" "i < length (c_running c)"
  shows "acc_inv xs ss k (snd (AfterResponse i cb c))"
proof -
  let ?r = "c_running c ! i"
  obtain e s n where a: "after_response_add (cause_of c) (nat (MaxPendingRequests (c_opts c))) cb (rr_after ?r)
      (batchCallbackSlots c) = (e, s, n)" by (metis prod_cases3)
  let ?c = "c\<lparr>c_running := (c_running c)[i := ?r\<lparr>rr_after := s\<rparr>], batchCallbackSlots := n\<rparr>"
  have c': "snd (AfterResponse i cb c) = ?c" by (simp add: AfterResponse_def a)
  have s: "ar_reserve s = ar_reserve (rr_after ?r)"
    using a by (auto simp: after_response_add_def reserveBatchCallback_def split: if_splits option.splits)
  have tok: "n + int (length (run_callbacks ?r)) = batchCallbackSlots c + int (length (run_callbacks (?r\<lparr>rr_after := s\<rparr>)))"
    and bound: "batchCallbackSlots c \<le> int (nat (MaxPendingRequests (c_opts c))) \<Longrightarrow> n \<le> int (nat (MaxPendingRequests (c_opts c)))"
    using a by (auto simp: after_response_add_def reserveBatchCallback_def run_callbacks_def split: if_splits option.splits)
  have mem: "?r \<in> set (c_running c)" using assms(2) by simp
  have "owner_of (rr (?r\<lparr>rr_after := s\<rparr>)) = owner_of (rr ?r)" "rq_reply (rr (?r\<lparr>rr_after := s\<rparr>)) = rq_reply (rr ?r)" by simp_all
  then have m: "map (owner_of \<circ> rr) (c_running ?c) = map (owner_of \<circ> rr) (c_running c)"
    "map (rq_reply \<circ> rr) (c_running ?c) = map (rq_reply \<circ> rr) (c_running c)"
    using assms(2) by (auto simp: map_update list_update_id map_nth intro!: list_update_same_conv [THEN iffD2])
  have col: "collect f xs = concat (map opt_list (map f xs))" for f :: "run_request \<Rightarrow> (nat \<times> nat) option" and xs
    by (simp add: collect_def comp_def)
  have "collect (rq_reply \<circ> rr) (c_running ?c) = collect (rq_reply \<circ> rr) (c_running c)" by (simp only: col m(2))
  then have v: "owners ?c = owners c" "refs ?c = refs c" using m(1) by (simp_all add: owners_def refs_def)
  have "mset (concat (map run_callbacks (c_running ?c))) + mset (run_callbacks ?r) =
      mset (concat (map run_callbacks (c_running c))) + mset (run_callbacks (?r\<lparr>rr_after := s\<rparr>))"
    using mset_concat_update [OF assms(2), of run_callbacks] by simp
  then have "size (mset (concat (map run_callbacks (c_running ?c))) + mset (run_callbacks ?r)) =
      size (mset (concat (map run_callbacks (c_running c))) + mset (run_callbacks (?r\<lparr>rr_after := s\<rparr>)))"
    by (rule arg_cong)
  then have "length (concat (map run_callbacks (c_running ?c))) + length (run_callbacks ?r) =
      length (concat (map run_callbacks (c_running c))) + length (run_callbacks (?r\<lparr>rr_after := s\<rparr>))"
    by (simp only: size_mset size_union)
  then have "held_callbacks ?c + length (run_callbacks ?r) = held_callbacks c + length (run_callbacks (?r\<lparr>rr_after := s\<rparr>))"
    by (simp add: held_callbacks_def)
  with tok assms(1) have slots: "n = int (held_callbacks ?c + k)" by (auto simp: acc_inv_def tokens_inv_def)
  have "\<forall>x \<in> set (c_running ?c). ar_reserve (rr_after x) \<longleftrightarrow> rq_reply (rr x) \<noteq> None"
  proof
    fix x assume "x \<in> set (c_running ?c)"
    then have "x = ?r\<lparr>rr_after := s\<rparr> \<or> x \<in> set (c_running c)" using set_update_subset_insert by fastforce
    then show "ar_reserve (rr_after x) \<longleftrightarrow> rq_reply (rr x) \<noteq> None"
      using assms(1) mem s by (auto simp: acc_inv_def tokens_inv_def)
  qed
  moreover have "n \<le> int (nat (MaxPendingRequests (c_opts c)))"
    using assms(1) by (intro bound) (auto simp: acc_inv_def tokens_inv_def)
  ultimately have "tokens_inv k ?c" using slots assms(1) by (auto simp: acc_inv_def tokens_inv_def)
  moreover have "ids_inv xs ?c" using assms(1) v by (simp add: acc_inv_def ids_inv_def)
  moreover have "open_slot ?c = open_slot c" by (auto simp: open_slot_def)
  then have "slots_inv ss ?c" using assms(1) v by (simp add: acc_inv_def slots_inv_def)
  ultimately show ?thesis using assms(1) by (simp add: c' acc_inv_def)
qed

text \<open>The request that leaves the worker takes its id, its slot and its callback with it.\<close>

lemma acc_leave:
  assumes "acc_inv xs ss k c" "i < length (c_running c)"
  defines "r \<equiv> c_running c ! i"
  shows "acc_inv (owner_of (rr r) # xs) (opt_list (rq_reply (rr r)) @ ss) (length (run_callbacks r) + k)
    (c\<lparr>c_running := take i (c_running c) @ drop (Suc i) (c_running c)\<rparr>)"
    (is "acc_inv _ _ _ ?c")
proof -
  let ?rest = "take i (c_running c) @ drop (Suc i) (c_running c)"
  have split: "c_running c = take i (c_running c) @ r # drop (Suc i) (c_running c)"
    unfolding r_def by (rule id_take_nth_drop [OF assms(2)])
  have "mset (owners c) = mset (owners ?c) + {#owner_of (rr r)#}"
    by (subst owners_def, subst split) (simp add: owners_def)
  moreover have held: "held_callbacks c = held_callbacks ?c + length (run_callbacks r)"
    by (subst held_callbacks_def, subst split) (simp add: held_callbacks_def)
  moreover have "mset (refs c) = mset (refs ?c) + mset (opt_list (rq_reply (rr r)))"
    by (subst refs_def, subst split) (simp add: refs_def)
  then have "mset (refs c @ ss) = mset (refs ?c @ opt_list (rq_reply (rr r)) @ ss)" by simp
  then have "distinct (refs c @ ss) = distinct (refs ?c @ opt_list (rq_reply (rr r)) @ ss)"
    "set (refs c @ ss) = set (refs ?c @ opt_list (rq_reply (rr r)) @ ss)"
    by (rule mset_eq_imp_distinct_iff, rule mset_eq_setD)
  moreover have "open_slot ?c = open_slot c" by (auto simp: open_slot_def)
  moreover have "set ?rest \<subseteq> set (c_running c)" by (auto dest: in_set_takeD in_set_dropD)
  ultimately show ?thesis
    using assms(1) unfolding acc_inv_def ids_inv_def slots_inv_def tokens_inv_def
    by (simp only:) auto
qed

lemma acc_release_token: "acc_inv xs ss (Suc k) c \<Longrightarrow> acc_inv xs ss k (c\<lparr>batchCallbackSlots := batchCallbackSlots c - 1\<rparr>)"
  by (auto simp: acc_defs acc_views)

lemma acc_log: "acc_inv xs ss k (c\<lparr>callbacks_run := l\<rparr>) = acc_inv xs ss k c"
  by (simp add: acc_defs acc_views)

lemma acc_handleInbound:
  assumes inv: "acc_inv [] [] 0 c" and i: "i < length (c_running c)"
  shows "acc_inv [] [] 0 (handleInbound i out c)"
proof -
  define run where "run = c_running c ! i"
  define c0 where "c0 = c\<lparr>c_running := take i (c_running c) @ drop (Suc i) (c_running c)\<rparr>"
  have c0: "acc_inv [owner_of (rr run)] (opt_list (rq_reply (rr run))) (length (run_callbacks run)) c0"
    using acc_leave [OF inv i] by (simp add: run_def c0_def)
  have res: "ar_reserve (rr_after run) \<longleftrightarrow> rq_reply (rr run) \<noteq> None"
    using inv i by (simp add: run_def acc_inv_def tokens_inv_def)
  obtain ok m where rs: "response_of (rq_msg (rr run)) (if has_handler c then out
      else Inl (NewMethodNotFound (Method (rq_msg (rr run))))) = (ok, m)" by force
  show ?thesis
  proof (cases "rq_reply (rr run)")
    case None
    then have "acc_inv [owner_of (rr run)] [] 0 c0" using c0 res by (simp add: run_callbacks_def)
    then have "acc_inv [owner_of (rr run)] [] 0 (snd (sendMessage m c0))" by (simp add: acc_send)
    then have "acc_inv [] [] 0 (finish_request (owner_of (rr run)) (snd (sendMessage m c0)))"
      by (rule acc_finish_request)
    then show ?thesis
      by (auto simp: handleInbound_def run_def [symmetric] c0_def [symmetric] rs None Let_def owner_of_def acc_log
          split: prod.split)
  next
    case (Some w)
    obtain bi j where w: "w = (bi, j)" by force
    let ?cb = "ar_callback (rr_after run)"
    let ?cmp = "\<lparr>finish = Some (rq_key (rr run), rq_ctx (rr run)), callback = (if ok then ?cb else None)\<rparr>"
    let ?c1 = "if \<not> ok \<and> ?cb \<noteq> None then c0\<lparr>batchCallbackSlots := batchCallbackSlots c0 - 1\<rparr> else c0"
    have "run_callbacks run = opt_list ?cb" using res Some by (simp add: run_callbacks_def)
    with c0 Some w have c0': "acc_inv [owner_of (rr run)] [(bi, j)] (length (opt_list ?cb)) c0" by simp
    have "acc_inv [owner_of (rr run)] [(bi, j)] (length (opt_list (if ok then ?cb else None))) ?c1"
    proof (cases "\<not> ok \<and> ?cb \<noteq> None")
      case True
      then have "acc_inv [owner_of (rr run)] [(bi, j)] (Suc 0) c0" using c0' by auto
      from acc_release_token [OF this] True show ?thesis by auto
    next
      case False
      then show ?thesis using c0' by (cases ok) auto
    qed
    then have "acc_inv (opt_list (finish ?cmp) @ []) [(bi, j)] (length (opt_list (callback ?cmp)) + 0) ?c1"
      by (simp add: owner_of_def)
    from acc_complete_reply [OF this, of m]
    show ?thesis
      by (simp add: handleInbound_def run_def [symmetric] c0_def [symmetric] rs Some w Let_def after_response_seal_def)
  qed
qed

lemma tokens_step:
  assumes "tokens_inv k c" "held_callbacks c' + k' + d = held_callbacks c + k"
    and "batchCallbackSlots c' = batchCallbackSlots c - int d" "c_running c' = c_running c" "c_opts c' = c_opts c"
    and "chan_cap (batchCallbackQueue c') = chan_cap (batchCallbackQueue c)"
  shows "tokens_inv k' c'"
proof -
  have "int (held_callbacks c' + k' + d) = int (held_callbacks c + k)" using assms(2) by (rule arg_cong)
  then have "batchCallbackSlots c' = int (held_callbacks c' + k')"
    using assms(1,3) unfolding tokens_inv_def by linarith
  moreover have "batchCallbackSlots c' \<le> int (chan_cap (batchCallbackQueue c'))"
    using assms(1,3,6) unfolding tokens_inv_def by linarith
  ultimately show ?thesis using assms(1,4,5,6) unfolding tokens_inv_def by simp
qed

lemma acc_take_callback:
  assumes "acc_inv xs ss k c" "take_callback c = Some c'"
  shows "acc_inv xs ss k c'"
proof -
  obtain cb ch where r: "cb_running c = None" "chan_receive (batchCallbackQueue c) = Some (cb, ch)"
    and c': "c' = c\<lparr>batchCallbackQueue := ch, cb_running := Some cb, callbacks_run := callbacks_run c @ [cb]\<rparr>"
    using assms(2) by (auto simp: take_callback_def split: option.splits)
  have "owners c' = owners c" "refs c' = refs c" "open_slot c' = open_slot c" by (auto simp: acc_views c')
  then have "ids_inv xs c'" "slots_inv ss c'" using assms(1) by (simp_all add: acc_inv_def ids_inv_def slots_inv_def c')
  moreover have "held_callbacks c' = held_callbacks c" "chan_cap ch = chan_cap (batchCallbackQueue c)"
    using chan_receive_Some [OF r(2)] r(1) by (simp_all add: held_callbacks_def c')
  moreover from this have "tokens_inv k c'"
    using assms(1) by - (rule tokens_step [where c = c and k = k and d = 0], simp_all add: acc_inv_def c')
  ultimately show ?thesis using assms(1) by (simp add: acc_inv_def c')
qed

lemma acc_end_callback:
  assumes "acc_inv xs ss k c" "end_callback c = Some c'"
  shows "acc_inv xs ss k c'"
proof -
  obtain cb where cb: "cb_running c = Some cb"
    and c': "c' = c\<lparr>cb_running := None, batchCallbackSlots := batchCallbackSlots c - 1\<rparr>"
    using assms(2) by (auto simp: end_callback_def split: option.splits)
  have "owners c' = owners c" "refs c' = refs c" "open_slot c' = open_slot c" by (auto simp: acc_views c')
  then have "ids_inv xs c'" "slots_inv ss c'" using assms(1) by (simp_all add: acc_inv_def ids_inv_def slots_inv_def c')
  moreover have "held_callbacks c = Suc (held_callbacks c')" by (simp add: held_callbacks_def c' cb)
  then have "tokens_inv k c'"
    using assms(1) by - (rule tokens_step [where c = c and k = k and d = 1], simp_all add: acc_inv_def c')
  ultimately show ?thesis using assms(1) by (simp add: acc_inv_def c')
qed

section \<open>What every operation keeps\<close>

text \<open>
  The table of requests and the notification pipeline move by their own steps; what is
  written is never taken back, and the cause of a closed connection stays as it is. The relation is transitive, so each operation gets it from its parts.
\<close>

definition evolves :: "conn \<Rightarrow> conn \<Rightarrow> bool" where
  "evolves c c' \<longleftrightarrow> p_step\<^sup>*\<^sup>* (pend c) (pend c') \<and> n_step\<^sup>*\<^sup>* (notif c, n_log c) (notif c', n_log c') \<and>
     prefix (written c) (written c') \<and>
     (closed c \<longrightarrow> cause_of c' = cause_of c)"

lemma evolves_refl [simp]: "evolves c c"
  by (simp add: evolves_def)

lemma evolves_trans: "evolves a b \<Longrightarrow> evolves b c \<Longrightarrow> evolves a c"
  unfolding evolves_def by (auto intro: rtranclp_trans prefix_order.trans)

lemma evolves_still:
  "pend c' = pend c \<Longrightarrow> notif c' = notif c \<Longrightarrow> n_log c' = n_log c \<Longrightarrow> written c' = written c \<Longrightarrow> evolves c c'"
  by (simp add: evolves_def)

lemma evolves_pend:
  assumes "p_step (pend c) p" "closed c \<Longrightarrow> p_cause p = cause_of c"
  shows "evolves c (c\<lparr>pend := p\<rparr>)"
  using assms by (auto simp: evolves_def intro: r_into_rtranclp)

lemma shutdown_cause: "p_cause p \<noteq> None \<Longrightarrow> shutdown_pendings e p = p"
  by (simp add: shutdown_pendings_def)

lemma evolves_shutdown [intro]: "evolves c (shutdown e c)"
  unfolding shutdown_def by (rule evolves_pend) (auto intro: p_step.close simp: shutdown_cause)

lemma evolves_sendEncoded [intro]: "evolves c (snd (sendEncoded d c))"
  using evolves_shutdown
  by (auto simp: sendEncoded_def evolves_def Let_def split: option.splits prod.splits)

lemma evolves_sendMessage [intro]: "evolves c (snd (sendMessage m c))"
  by (auto simp: sendMessage_def split: sum.splits)

lemma evolves_sendFrame [intro]: "evolves c (snd (SendTransportFrame f c))"
  by (auto simp: SendTransportFrame_def split: sum.splits)

lemma evolves_protocol [intro]: "evolves c (sendProtocolError e c)"
  by (auto simp: sendProtocolError_def)

lemma evolves_notification [intro]: "evolves c (snd (SendNotification me ps c))"
  by (auto simp: SendNotification_def split: sum.splits)

lemma evolves_cancel_ctx [simp]: "evolves c (cancel_ctx h e c)"
  by (rule evolves_still) (simp_all add: cancel_ctx_def)

lemma evolves_remove [simp]: "evolves c (removeInflight k c)"
  by (rule evolves_still) (simp_all add: removeInflight_def)

lemma evolves_finish [simp]: "evolves c (finish_request kh c)"
  unfolding finish_request_def by (rule evolves_trans [OF evolves_remove evolves_cancel_ctx])

lemma evolves_fold:
  assumes "\<And>x c. evolves c (f x c)"
  shows "evolves c (fold f xs c)"
proof (induction xs arbitrary: c)
  case (Cons x xs)
  show ?case using evolves_trans [OF assms Cons] by simp
qed simp

lemma evolves_retire: "evolves c (fold run_finish xs c)"
  by (rule evolves_fold) (simp add: run_finish_def split: option.split)

lemma evolves_callbacks: "evolves c (fold (queue_callback e) xs c)"
  by (rule evolves_fold) (auto simp: queue_callback_def intro: evolves_still split: option.split)

lemma evolves_flush [intro]: "evolves c (snd (batch_flush b c))"
proof -
  obtain err c1 where s: "(case encodeBatchResponses (replies b) of Inl e \<Rightarrow> (Some e, c) | Inr enc \<Rightarrow> sendEncoded enc c) = (err, c1)"
    by force
  then have "evolves c c1" using evolves_sendEncoded [of c] by (auto split: sum.splits) (metis snd_conv)
  from evolves_trans [OF this evolves_trans [OF evolves_retire evolves_callbacks]]
  show ?thesis by (simp add: batch_flush_def s)
qed

lemma evolves_complete [intro]: "evolves c (snd (complete_reply bi i m cmp c))"
proof -
  obtain b' fl where bc: "batch_complete i m cmp (batches c ! bi) = (b', fl)" by force
  have "evolves c (c\<lparr>batches := (batches c)[bi := b']\<rparr>)" by (rule evolves_still) simp_all
  then show ?thesis by (auto simp: complete_reply_def bc Let_def intro: evolves_trans)
qed

lemma evolves_writeResponse [intro]: "evolves c (snd (writeResponse wr m c))"
  by (auto simp: writeResponse_def split: option.splits)

lemma evolves_enqueueRequest [intro]: "evolves c (enqueueRequest m wr c)"
proof -
  let ?h = "length (ctxs c)"
  let ?c1 = "\<lambda>k. c\<lparr>inflight := inflight c @ [(k, ?h)], ctxs := ctxs c @ [None]\<rparr>"
  have 1: "evolves c (?c1 k)" for k by (rule evolves_still) simp_all
  have 2: "evolves c (snd (writeResponse wr x (cancel_ctx ?h e (removeInflight k (?c1 k)))))" for x e k
    by (rule evolves_trans [OF 1 evolves_trans [OF evolves_remove evolves_trans [OF evolves_cancel_ctx evolves_writeResponse]]])
  have 3: "evolves c (?c1 k\<lparr>requestQueue := q\<rparr>)" for k q by (rule evolves_still) simp_all
  show ?thesis using 2 3
    by (simp add: enqueueRequest_def Let_def evolves_writeResponse split: sum.split option.split)
qed

lemma evolves_admit [intro]: "evolves c (snd (admit_notification m c))"
proof -
  obtain bar p where b: "responseDeliveryBarrier (pend c) = (bar, p)" by force
  have cause: "p_cause p = cause_of c"
    using b by (auto simp: responseDeliveryBarrier_def pruneResponseDeliveriesLocked_def Let_def)
  have p: "p_step (pend c) p" using b by (rule p_step.barrier)
  have "evolves c (c\<lparr>pend := p, notif := n\<rparr>)" if "enqueueNotification bar m (notif c) = Some n" for n
    using p cause n_step.enqueue [OF that, of "n_log c"] by (auto simp: evolves_def)
  then show ?thesis using evolves_pend [OF p cause]
    by (simp add: admit_notification_def b split: option.split)
qed

lemma deliver_cause [simp]: "p_cause (deliver_response k m w p) = p_cause p"
  by (simp add: deliver_response_def Let_def pruneResponseDeliveriesLocked_def split: option.splits)

lemma evolves_handleResponse [intro]: "evolves c (handleResponse m c)"
  by (auto simp: handleResponse_def intro!: evolves_pend p_step.respond split: sum.splits)

lemma evolves_handleCancel [intro]: "evolves c (handleCancelRequest m c)"
  by (simp add: handleCancelRequest_def split: option.split sum.split)

lemma evolves_dispatchMessage [intro]: "evolves c (snd (dispatchMessage m wr c))"
proof -
  have "evolves c (shutdown e (snd (admit_notification m c)))" for e
    by (rule evolves_trans [OF evolves_admit evolves_shutdown])
  then show ?thesis using evolves_admit [of c m]
    by (auto simp: dispatchMessage_def Let_def evolves_protocol evolves_handleCancel evolves_handleResponse
        evolves_enqueueRequest evolves_writeResponse split: option.split prod.split bool.split)
qed

lemma evolves_entries: "evolves c (snd (dispatch_entries bi es c))"
proof (induction bi es c rule: dispatch_entries.induct)
  case (2 bi e slot es c)
  let ?wr = "map_option (\<lambda>i. (bi, i)) slot"
  show ?case
  proof (cases "e_ok e")
    case False
    let ?c = "case ?wr of None \<Rightarrow> c | Some _ \<Rightarrow> snd (writeResponse ?wr (error_reply (replyID e) (the (e_err e))) c)"
    have "evolves c ?c" by (auto split: option.split)
    from evolves_trans [OF this "2.IH"(1) [OF refl False]] show ?thesis using False by (simp add: Let_def)
  next
    case True
    obtain b c' where d: "dispatchMessage (e_msg e) ?wr c = (b, c')" by force
    then have "evolves c c'" using evolves_dispatchMessage [of c "e_msg e" ?wr] by simp
    with "2.IH"(2) [OF refl _ d [symmetric]] True d show ?thesis
      by (cases b) (auto simp: Let_def intro: evolves_trans)
  qed
qed simp

lemma evolves_receive_line: "evolves c (snd (receive_line l c))"
proof -
  have "evolves c (c\<lparr>batches := b\<rparr>)" for b by (rule evolves_still) simp_all
  then have "evolves c (snd (dispatchBatch f c))" for f
    unfolding dispatchBatch_def Let_def by (auto intro: evolves_trans evolves_entries)
  then have "evolves c (snd (dispatchFrame f c))" for f
    by (simp add: dispatchFrame_def evolves_protocol evolves_dispatchMessage split: frame_kind.split)
  then show ?thesis by (auto simp: receive_line_def Let_def)
qed

lemma evolves_handleInbound: "evolves c (handleInbound i out c)"
proof -
  let ?r = "c_running c ! i"
  let ?c0 = "c\<lparr>c_running := take i (c_running c) @ drop (Suc i) (c_running c)\<rparr>"
  have 0: "evolves c ?c0" by (rule evolves_still) simp_all
  have 1: "evolves c (?c0\<lparr>batchCallbackSlots := n\<rparr>)" for n by (rule evolves_still) simp_all
  have 2: "evolves c (finish_request kh (snd (sendMessage m ?c0)))" for kh m
    by (rule evolves_trans [OF 0 evolves_trans [OF evolves_sendMessage evolves_finish]])
  have "evolves a (a\<lparr>callbacks_run := l\<rparr>)" for a l by (rule evolves_still) simp_all
  then have 3: "evolves c ((finish_request kh (snd (sendMessage m ?c0)))\<lparr>callbacks_run := l\<rparr>)" for kh m l
    by (rule evolves_trans [OF 2])
  have 4: "evolves c (snd (complete_reply bi k m cmp (?c0\<lparr>batchCallbackSlots := n\<rparr>)))" for bi k m cmp n
    by (rule evolves_trans [OF 1 evolves_complete])
  have 5: "evolves c (snd (complete_reply bi k m cmp ?c0))" for bi k m cmp
    by (rule evolves_trans [OF 0 evolves_complete])
  obtain ok m where rs: "response_of (rq_msg (rr ?r)) (if has_handler c then out
      else Inl (NewMethodNotFound (Method (rq_msg (rr ?r))))) = (ok, m)" by force
  show ?thesis
  proof (cases "rq_reply (rr ?r)")
    case None
    obtain e c1 where s: "sendMessage m ?c0 = (e, c1)" by force
    then show ?thesis using 2 [where m = m] 3 [where m = m] by (simp add: handleInbound_def rs None Let_def)
  next
    case (Some w)
    then show ?thesis using 4 5 by (cases w) (simp add: handleInbound_def rs Let_def)
  qed
qed

section \<open>The connection as a step relation\<close>

text \<open>
  The goroutines of a connection: the reader takes a line or ends; a worker takes a request
  when one of \<open>MaxHandlerConcurrency\<close> is free, its handler may register a callback, and it
  finishes; the callbacks of batches, the cancellations, the callers of the outbound
  operations and the notification goroutine run beside them. The requests of the callers act
  on the table by the steps of theory \<open>Pending\<close>.
\<close>

inductive c_step :: "conn \<Rightarrow> conn \<Rightarrow> bool" where
  read: "receive_line l c = (b, c') \<Longrightarrow> c_step c c'"
| close: "c_step c (shutdown cause c)"
| choice: "c_step c (c\<lparr>pick_done := b\<rparr>)"
| race: "c_step c (c\<lparr>late := l\<rparr>)"
| work: "int (length (c_running c)) < MaxHandlerConcurrency (c_opts c) \<Longrightarrow> take_request c = Some c' \<Longrightarrow> c_step c c'"
| register: "i < length (c_running c) \<Longrightarrow> has_handler c \<Longrightarrow> AfterResponse i cb c = (e, c') \<Longrightarrow> c_step c c'"
| answer: "i < length (c_running c) \<Longrightarrow> c_step c (handleInbound i out c)"
| callback_begins: "take_callback c = Some c' \<Longrightarrow> c_step c c'"
| callback_ends: "end_callback c = Some c' \<Longrightarrow> c_step c c'"
| send_cancel: "processCancelRequest c = Some c' \<Longrightarrow> c_step c c'"
| queue_cancel: "c_step c (queueCancel k c)"
| notification: "SendNotification me ps c = (e, c') \<Longrightarrow> c_step c c'"
| send_frame: "SendTransportFrame f c = (e, c') \<Longrightarrow> c_step c c'"
| send_request: "sendMessage m c = (e, c') \<Longrightarrow> c_step c c'"
| prepare: "prepareRequest me ps c = (r, c') \<Longrightarrow> c_step c c'"
| request: "p_step (pend c) p \<Longrightarrow> (closed c \<Longrightarrow> p_cause p = cause_of c) \<Longrightarrow> c_step c (c\<lparr>pend := p\<rparr>)"
| notify: "n_step (notif c, n_log c) (n, h) \<Longrightarrow> c_step c (c\<lparr>notif := n, n_log := h\<rparr>)"

inductive_cases c_stepE: "c_step c c'"

definition c_init :: "conn \<Rightarrow> bool" where
  "c_init c \<longleftrightarrow> (\<exists>handler w opts. constructConnection handler (Some w) True opts = Inr c)"

lemma core_SendFrame [simp]: "core (snd (SendTransportFrame f c)) = core c"
  by (auto simp: SendTransportFrame_def split: sum.splits)

lemma core_others [simp]:
  "core (c\<lparr>pick_done := b\<rparr>) = core c" "core (c\<lparr>pend := p\<rparr>) = core c" "core (c\<lparr>notif := n, n_log := h\<rparr>) = core c"
  "core (snd (prepareRequest me ps c)) = core c" "core (c\<lparr>cancelQueue := q\<rparr>) = core c"
  "core (c\<lparr>late := l\<rparr>) = core c"
  by (simp_all add: core_def prepareRequest_def Let_def split: sum.split)

lemma core_cancel: "processCancelRequest c = Some c' \<Longrightarrow> core c' = core c"
  by (auto simp: processCancelRequest_def split: option.splits)

lemma c_step_acc: "c_step c c' \<Longrightarrow> acc_inv [] [] 0 c \<Longrightarrow> acc_inv [] [] 0 c'"
proof (induction rule: c_step.induct)
  case (read l c b c')
  then show ?case using acc_receive_line [of c l] by simp
next
  case (register i c cb e c')
  then show ?case using acc_AfterResponse [of "[]" "[]" 0 c i cb] by simp
next
  case (notification me ps c e c')
  then have "core c' = core c" using core_send(9) [of me ps c] by simp
  from acc_core [OF this] notification show ?case by simp
next
  case (send_frame f c e c')
  then have "core c' = core c" using core_SendFrame [of f c] by simp
  from acc_core [OF this] send_frame show ?case by simp
next
  case (send_request m c e c')
  then have "core c' = core c" using core_send(3) [of m c] by simp
  from acc_core [OF this] send_request show ?case by simp
next
  case (prepare me ps c r c')
  then have "core c' = core c" using core_others(4) [of me ps c] by simp
  from acc_core [OF this] prepare show ?case by simp
next
  case (send_cancel c c')
  from acc_core [OF core_cancel [OF send_cancel(1)]] send_cancel(2) show ?case by simp
next
  case (close c cause)
  then show ?case by (simp add: acc_send)
next
  case (queue_cancel c k)
  then show ?case by (simp add: acc_send)
next
  case (choice c b)
  from acc_core [OF core_others(1)] choice show ?case by simp
next
  case (race c l)
  from acc_core [OF core_others(6)] race show ?case by simp
next
  case (request c p)
  from acc_core [OF core_others(2)] request show ?case by simp
next
  case (notify c n h)
  from acc_core [OF core_others(3)] notify show ?case by simp
next
  case (work c c')
  then show ?case by - (rule acc_take_request)
next
  case (callback_begins c c')
  then show ?case by - (rule acc_take_callback)
next
  case (callback_ends c c')
  then show ?case by - (rule acc_end_callback)
next
  case (answer i c out)
  then show ?case by - (rule acc_handleInbound)
qed

lemma c_init_fields:
  assumes "c_init c"
  shows "inflight c = []" "ctxs c = []" "requestQueue c = make_chan (nat (MaxQueuedRequests (c_opts c)))"
    "c_running c = []" "batches c = []" "batchCallbackQueue c = make_chan (nat (MaxPendingRequests (c_opts c)))"
    "batchCallbackSlots c = 0" "cb_running c = None" "pend c = new_pendings (nat (MaxPendingRequests (c_opts c)))"
    "notif c = new_notifier (nat (MaxNotificationBytes (c_opts c))) (nat (MaxQueuedNotifications (c_opts c)))"
    "n_log c = []" "written c = []"
proof -
  obtain h w opts where k: "constructConnection h (Some w) True opts = Inr c" using assms by (auto simp: c_init_def)
  obtain n where n: "normalizeConnectionOptions opts = Inr n"
    using k by (cases "normalizeConnectionOptions opts") (simp_all add: constructConnection_def)
  show "inflight c = []" "ctxs c = []" "requestQueue c = make_chan (nat (MaxQueuedRequests (c_opts c)))"
    "c_running c = []" "batches c = []" "batchCallbackQueue c = make_chan (nat (MaxPendingRequests (c_opts c)))"
    "batchCallbackSlots c = 0" "cb_running c = None" "pend c = new_pendings (nat (MaxPendingRequests (c_opts c)))"
    "notif c = new_notifier (nat (MaxNotificationBytes (c_opts c))) (nat (MaxQueuedNotifications (c_opts c)))"
    "n_log c = []" "written c = []"
    using k by (auto simp: constructConnection_def n)
qed

lemma c_init_acc:
  assumes "c_init c"
  shows "acc_inv [] [] 0 c"
  unfolding acc_inv_def ids_inv_def slots_inv_def tokens_inv_def
  by (simp add: acc_views c_init_fields [OF assms])

interpretation inbound: invariant_system c_init c_step "acc_inv [] [] 0"
  by unfold_locales (auto intro: c_init_acc c_step_acc)

lemma c_step_evolves: "c_step c c' \<Longrightarrow> evolves c c'"
proof (induction rule: c_step.induct)
  case (read l c b c')
  then show ?case using evolves_receive_line [of c l] by simp
next
  case (choice c b)
  show ?case by (rule evolves_still) simp_all
next
  case (work c c')
  then show ?case by (intro evolves_still) (auto simp: take_request_def split: option.splits)
next
  case (register i c cb e c')
  then show ?case by (intro evolves_still) (auto simp: AfterResponse_def split: prod.splits)
next
  case (answer i c out)
  show ?case by (rule evolves_handleInbound)
next
  case (callback_begins c c')
  then show ?case by (intro evolves_still) (auto simp: take_callback_def split: option.splits)
next
  case (callback_ends c c')
  then show ?case by (intro evolves_still) (auto simp: end_callback_def split: option.splits)
next
  case (send_cancel c c')
  then obtain key q where q: "c' = snd (SendNotification jsonRPCMethodCancelRequest (Some (encode_cancel_params key)) (c\<lparr>cancelQueue := q\<rparr>))"
    by (auto simp: processCancelRequest_def split: option.splits)
  have "evolves c (c\<lparr>cancelQueue := q\<rparr>)" by (rule evolves_still) simp_all
  then show ?case unfolding q by (rule evolves_trans [OF _ evolves_notification])
next
  case (queue_cancel c k)
  show ?case by (rule evolves_still) (simp_all add: queueCancel_def split: option.split)
next
  case (notification me ps c e c')
  then show ?case using evolves_notification [of c me ps] by simp
next
  case (send_frame f c e c')
  then show ?case using evolves_sendFrame [of c f] by simp
next
  case (send_request m c e c')
  then show ?case using evolves_sendMessage [of c m] by simp
next
  case (prepare me ps c r c')
  then show ?case by (intro evolves_still) (auto simp: prepareRequest_def Let_def split: if_splits sum.splits)
next
  case (request c p)
  then show ?case by (intro evolves_pend)
next
  case (notify c n h)
  then show ?case by (auto simp: evolves_def)
next
  case (race c l)
  show ?case by (rule evolves_still) simp_all
next
  case (close c cause)
  show ?case by (rule evolves_shutdown)
qed

lemma c_steps_evolves: "c_step\<^sup>*\<^sup>* c c' \<Longrightarrow> evolves c c'"
  by (induction rule: rtranclp_induct) (auto intro: evolves_trans c_step_evolves)

text \<open>The two components the connection contains.\<close>

interpretation table_of: part_of c_init c_step "\<lambda>p. \<exists>limit. p = new_pendings limit" p_step pend
proof unfold_locales
  show "c_init c \<Longrightarrow> \<exists>limit. pend c = new_pendings limit" for c
    using c_init_fields(9) by blast
  show "c_step c c' \<Longrightarrow> p_step\<^sup>*\<^sup>* (pend c) (pend c')" for c c'
    by (drule c_step_evolves) (simp add: evolves_def)
qed

interpretation notifications_of:
  part_of c_init c_step "\<lambda>s. \<exists>limit qcap. n_init limit qcap s" n_step "\<lambda>c. (notif c, n_log c)"
proof unfold_locales
  show "c_init c \<Longrightarrow> \<exists>limit qcap. n_init limit qcap (notif c, n_log c)" for c
    using c_init_fields(10,11) by (auto simp: n_init_def)
  show "c_step c c' \<Longrightarrow> n_step\<^sup>*\<^sup>* (notif c, n_log c) (notif c', n_log c')" for c c'
    by (drule c_step_evolves) (simp add: evolves_def)
qed

section \<open>Facts for the properties\<close>

lemma bool_prod_sum: "(case p of (x, y) \<Rightarrow> f x y) = f (fst p) (snd p)"
  by (simp add: case_prod_beta)

text \<open>An open connection that takes no reply of a batch answers by one message.\<close>

lemma removed_again:
  "map_of m k = None \<Longrightarrow> map_delete k (m @ [(k, h)]) = m"
proof -
  assume "map_of m k = None"
  then have "k \<notin> fst ` set m" by (simp add: map_of_eq_None_iff)
  then have "filter (\<lambda>(k', _). k' \<noteq> k) m = m" unfolding filter_id_conv by force
  then show ?thesis by (simp add: map_delete_def)
qed

text \<open>What became of an inbound request: it was queued, or answered with an error.\<close>

definition was_queued :: "any_message \<Rightarrow> conn \<Rightarrow> conn \<Rightarrow> bool" where
  "was_queued m c c' \<longleftrightarrow> (\<exists>key. canonicalJSONRPCIDKey (the (ID m)) = Inr key \<and> map_of (inflight c) key = None \<and>
     inflight c' = inflight c @ [(key, length (ctxs c))] \<and> ctxs c' = ctxs c @ [None] \<and> written c' = written c \<and>
     chan_items (requestQueue c') = chan_items (requestQueue c) @
       [\<lparr>rq_msg = m, rq_key = key, rq_ctx = length (ctxs c), rq_reply = None\<rparr>])"

definition was_refused :: "any_message \<Rightarrow> request_error \<Rightarrow> conn \<Rightarrow> conn \<Rightarrow> bool" where
  "was_refused m e c c' \<longleftrightarrow> inflight c' = inflight c \<and> requestQueue c' = requestQueue c \<and>
     (\<forall>enc. encodeMessage (error_reply (ID m) e) = Inr enc \<and> \<not> closed c \<and> writer c (written c) enc = None \<longrightarrow>
        written c' = written c @ [enc])"

lemma written_sendMessage:
  "encodeMessage m = Inr enc \<Longrightarrow> \<not> closed c \<Longrightarrow> writer c (written c) enc = None \<Longrightarrow>
    written (snd (sendMessage m c)) = written c @ [enc]"
  by (simp add: sendMessage_def sendEncoded_def)

lemma writer_fields [simp]:
  "writer (cancel_ctx h e c) = writer c" "written (cancel_ctx h e c) = written c" "pend (cancel_ctx h e c) = pend c"
  "writer (removeInflight k c) = writer c" "written (removeInflight k c) = written c" "pend (removeInflight k c) = pend c"
  by (simp_all add: cancel_ctx_def removeInflight_def)

lemma refused_plain: "was_refused m e c (snd (writeResponse None (error_reply (ID m) e) c))"
  using core_fields [OF core_send(3), of "error_reply (ID m) e" c]
  by (simp add: was_refused_def writeResponse_def written_sendMessage)

lemma refused_undone:
  assumes "map_of (inflight c) k = None"
  shows "was_refused m e c (snd (writeResponse None (error_reply (ID m) e) (cancel_ctx (length (ctxs c)) x
    (removeInflight k (c\<lparr>inflight := inflight c @ [(k, length (ctxs c))], ctxs := ctxs c @ [None]\<rparr>)))))"
    (is "was_refused m e c (snd (writeResponse None ?r ?c))")
proof -
  have "inflight ?c = inflight c" "requestQueue ?c = requestQueue c"
    using removed_again [OF assms] by (simp_all add: cancel_ctx_def removeInflight_def)
  then show ?thesis
    using core_fields [OF core_send(3), of ?r ?c] by (simp add: was_refused_def writeResponse_def written_sendMessage)
qed

fun prepare_many :: "nat \<Rightarrow> string \<Rightarrow> conn \<Rightarrow> string list" where
  "prepare_many 0 me c = []"
| "prepare_many (Suc n) me c =
     (case prepareRequest me None c of
        (Inl e, c') \<Rightarrow> prepare_many n me c'
      | (Inr (m, key), c') \<Rightarrow> key # prepare_many n me c')"

lemma prepare_many_keys:
  "me \<noteq> [] \<Longrightarrow> prepare_many n me c = map (\<lambda>i. show_nat (unat (nextID c + 1 + of_nat i))) [0..<n]"
proof (induction n arbitrary: c)
  case (Suc n)
  have "prepareRequest me None c =
      (Inr (empty_message\<lparr>ID := Some (show_nat (unat (nextID c + 1))), Method := me\<rparr>, show_nat (unat (nextID c + 1))),
       c\<lparr>nextID := nextID c + 1\<rparr>)"
    using Suc.prems by (simp add: prepareRequest_def with_params_def Let_def)
  then have "prepare_many (Suc n) me c = show_nat (unat (nextID c + 1)) # prepare_many n me (c\<lparr>nextID := nextID c + 1\<rparr>)"
    by simp
  also have "\<dots> = show_nat (unat (nextID c + 1)) # map (\<lambda>i. show_nat (unat (nextID c + 1 + 1 + of_nat i))) [0..<n]"
    using Suc by simp
  also have "\<dots> = map (\<lambda>i. show_nat (unat (nextID c + 1 + of_nat i))) (0 # map Suc [0..<n])"
    by (simp add: add.assoc)
  also have "0 # map Suc [0..<n] = [0..<Suc n]" by (simp add: map_Suc_upt upt_conv_Cons del: upt_Suc)
  finally show ?case .
qed simp

section \<open>Properties\<close>

definition demo_options :: connection_options where
  "demo_options =
     \<lparr>MaxFrameSize = 100, MaxPendingRequests = 2, MaxHandlerConcurrency = 2, MaxQueuedRequests = 2,
      MaxQueuedNotifications = 2, MaxNotificationBytes = 9, MaxQueuedWrites = 2,
      AcceptNotification = None, RejectBatch = False\<rparr>"

definition demo_conn :: conn where
  "demo_conn = (case constructConnection True (Some (\<lambda>_ _. None)) True demo_options of
     Inr c \<Rightarrow> c | Inl _ \<Rightarrow> undefined)"

definition demo_line :: string where
  "demo_line = ''{\"jsonrpc\":\"2.0\",\"id\":1,\"method\":\"m\"}''"

definition demo_message :: any_message where
  "demo_message = empty_message\<lparr>JSONRPC := ''2.0'', ID := Some ''1'', Method := ''m''\<rparr>"

definition demo_asked :: conn where
  "demo_asked = enqueueRequest demo_message None demo_conn"

lemma demo_conn_init: "c_init demo_conn"
proof -
  have n: "normalizeConnectionOptions demo_options = Inr demo_options"
    by (simp add: normalizeConnectionOptions_def demo_options_def or_default_def)
  then have "\<exists>c. constructConnection True (Some (\<lambda>_ _. None)) True demo_options = Inr c"
    by (simp add: constructConnection_def)
  then obtain c where "constructConnection True (Some (\<lambda>_ _. None)) True demo_options = Inr c" ..
  then show ?thesis unfolding c_init_def by (intro exI) (simp add: demo_conn_def)
qed

lemma demo_asked_reach: "reach c_init c_step demo_asked"
proof -
  have l: "trim_space demo_line = demo_line" "Kind (ParseTransportFrame demo_line) = FrameKindSingle"
    "f_single (ParseTransportFrame demo_line) = demo_message" by code_simp+
  have "dispatchMessage demo_message None demo_conn = (True, demo_asked)"
    by (simp add: dispatchMessage_def demo_message_def demo_asked_def Let_def)
  then have "receive_line demo_line demo_conn = (True, demo_asked)"
    unfolding receive_line_def l Let_def dispatchFrame_def by (simp add: demo_line_def)
  then have "c_step demo_conn demo_asked" by (rule c_step.read)
  then show ?thesis by (rule reach_step [where init = c_init, OF reach_init [where init = c_init, OF demo_conn_init]])
qed

text \<open>C2: In every reachable state the ids of inbound requests that are reserved are distinct, and
  they are exactly those of the requests that are queued, being handled, or answered in a batch
  that is not complete: no id is freed early, leaked, or owned twice.\<close>

theorem inbound_ids_reserved:
  assumes "reach c_init c_step c"
  shows "distinct (map fst (inflight c)) \<and>
    mset (inflight c) = mset (map owner_of (chan_items (requestQueue c)) @ map (owner_of \<circ> rr) (c_running c)
      @ concat (map batch_owners (batches c)))"
  using inbound.reach_inv [OF assms] by (simp add: acc_inv_def ids_inv_def owners_def)

lemma inbound_ids_reserved_witness:
  "map fst (inflight demo_asked) = [''1''] \<and> distinct (map fst (inflight demo_asked))"
proof
  show "map fst (inflight demo_asked) = [''1'']" by code_simp
  show "distinct (map fst (inflight demo_asked))" using inbound_ids_reserved [OF demo_asked_reach] by blast
qed

text \<open>C3: A token of \<open>batchCallbackSlots\<close> is held for each callback that a batch registered and that
  has not run, so the send of a callback to \<open>batchCallbackQueue\<close> always finds room: the reader
  that completes a batch never blocks on it.\<close>

theorem callback_send_never_blocks:
  assumes "reach c_init c_step c"
  shows "batchCallbackSlots c = int (held_callbacks c) \<and> chan_ok (batchCallbackQueue c) \<and>
    length (chan_items (batchCallbackQueue c)) + length (concat (map batch_callbacks (batches c))) +
      length (concat (map run_callbacks (c_running c))) \<le> chan_cap (batchCallbackQueue c)"
proof -
  have t: "batchCallbackSlots c = int (held_callbacks c)" "batchCallbackSlots c \<le> int (chan_cap (batchCallbackQueue c))"
    using inbound.reach_inv [OF assms] unfolding acc_inv_def tokens_inv_def by auto
  then have "held_callbacks c \<le> chan_cap (batchCallbackQueue c)" by linarith
  with t(1) show ?thesis by (auto simp: held_callbacks_def chan_ok_def)
qed

lemma callback_send_never_blocks_witness: "batchCallbackSlots demo_asked = 0 \<and> held_callbacks demo_asked = 0"
proof -
  have "batchCallbackSlots demo_asked = int (held_callbacks demo_asked)"
    using callback_send_never_blocks [OF demo_asked_reach] by blast
  moreover have "batchCallbackSlots demo_asked = 0" by code_simp
  ultimately show ?thesis by simp
qed

text \<open>The cause that a closed connection reports never changes, whatever its goroutines still do.\<close>

lemma cause_final: "c_step\<^sup>*\<^sup>* c c' \<Longrightarrow> Err c \<noteq> None \<Longrightarrow> Err c' = Err c"
  using c_steps_evolves [of c c'] by (simp add: evolves_def Err_def)

text \<open>C21: A request that the reader admits outside a batch is either queued, with its id reserved
  and nothing written, or refused with an error for its own id: an invalid id, a duplicate of a
  request under way, a closed connection, or a full queue. A refused request leaves no trace
  among the ids and the queue.\<close>

theorem request_queued_or_refused:
  "was_queued m c (enqueueRequest m None c) \<or>
   (\<exists>e. was_refused m e c (enqueueRequest m None c) \<and>
      (e = NewInvalidRequest (error_data ''invalid request id'') \<or> e = NewInvalidRequest (error_data ''duplicate request id'') \<or>
       e = NewServerOverloaded (error_data (error_text ErrRequestQueueFull)) \<or>
       closed c \<and> Some e = toReqErr (Some (connectionCause (pend c)))))"
proof (cases "canonicalJSONRPCIDKey (the (ID m))")
  case (Inl e)
  then show ?thesis using refused_plain [of m _ c] by (auto simp: enqueueRequest_def)
next
  case (Inr key)
  show ?thesis
  proof (cases "map_of (inflight c) key")
    case (Some h)
    then show ?thesis using refused_plain [of m _ c] Inr by (auto simp: enqueueRequest_def)
  next
    case None
    let ?h = "length (ctxs c)"
    let ?c1 = "c\<lparr>inflight := inflight c @ [(key, ?h)], ctxs := ctxs c @ [None]\<rparr>"
    let ?req = "\<lparr>rq_msg = m, rq_key = key, rq_ctx = ?h, rq_reply = None\<rparr>"
    let ?sent = "chan_try_send ?req (requestQueue c)"
    have some: "Some (the (toReqErr (Some x))) = toReqErr (Some x)" for x
      by (simp add: toReqErr_def split: option.split)
    note u = refused_undone [OF None, of m]
    consider (1) "closed c \<and> (pick_done c \<or> ?sent = None)" | (2) q where "\<not> (closed c \<and> (pick_done c \<or> ?sent = None))" "?sent = Some q"
      | (3) "\<not> (closed c \<and> (pick_done c \<or> ?sent = None))" "?sent = None" by (metis not_Some_eq)
    then show ?thesis
    proof cases
      case 1
      then show ?thesis using u some Inr None by (auto simp: enqueueRequest_def Let_def)
    next
      case 2
      then show ?thesis using chan_send_Some [OF 2(2)] Inr None
        by (auto simp: enqueueRequest_def Let_def was_queued_def)
    next
      case 3
      then show ?thesis using u Inr None by (auto simp: enqueueRequest_def Let_def)
    qed
  qed
qed

text \<open>The ids the connection gives its own requests do not repeat before the 64-bit counter has
  wrapped around.\<close>

lemma own_ids_distinct:
  assumes "n \<le> 2 ^ 64" "me \<noteq> []"
  shows "distinct (prepare_many n me c)"
proof -
  have "inj_on (\<lambda>i. show_nat (unat (nextID c + 1 + of_nat i))) {0..<n}"
  proof (rule inj_onI)
    fix i j assume ij: "i \<in> {0..<n}" "j \<in> {0..<n}"
      and "show_nat (unat (nextID c + 1 + of_nat i)) = show_nat (unat (nextID c + 1 + of_nat j))"
    then have "nextID c + 1 + of_nat i = nextID c + 1 + of_nat j" by (simp only: show_nat_inject word_unat_eq_iff)
    then have "(of_nat i :: 64 word) = of_nat j" by simp
    then have "unat (of_nat i :: 64 word) = unat (of_nat j :: 64 word)" by (rule arg_cong)
    moreover have "i < 2 ^ 64" "j < 2 ^ 64" using ij assms(1) by auto
    ultimately show "i = j" by (simp add: unat_of_nat)
  qed
  then show ?thesis by (simp add: prepare_many_keys [OF assms(2)] distinct_map)
qed

lemma own_ids_distinct_witness: "distinct (prepare_many 3 ''m'' demo_conn)"
  by (rule own_ids_distinct) simp_all

text \<open>The table of outbound requests and the notification pipeline inside a connection behave
  as they do alone: every state they reach there is one that their own steps reach, so what is
  proved of them holds in the connection.\<close>

lemma components_refined:
  assumes "reach c_init c_step c"
  shows "(\<exists>limit. reach (\<lambda>p. p = new_pendings limit) p_step (pend c)) \<and>
    (\<exists>limit qcap. reach (n_init limit qcap) n_step (notif c, n_log c))"
proof -
  have split: "\<exists>x. reach (I x) f y" if "reach (\<lambda>z. \<exists>x. I x z) f y" for I :: "'x \<Rightarrow> 'z \<Rightarrow> bool" and f y
    using that by (induction rule: reach.induct) (auto intro: reach.intros)
  have "reach (\<lambda>s. \<exists>x. n_init (fst x) (snd x) s) n_step (notif c, n_log c)"
    using notifications_of.part_reach [OF assms] by simp
  from split [OF this] split [OF table_of.part_reach [OF assms]] show ?thesis by auto
qed

lemma components_refined_witness: "\<exists>limit. reach (\<lambda>p. p = new_pendings limit) p_step (pend demo_asked)"
  using components_refined [OF demo_asked_reach] by blast

end
