(* ===== verification/Dispatch.thy ===== *)
theory Dispatch
  imports Frame
begin

text \<open>
  The dispatch of inbound messages to an agent or a client: \<open>inbound_context.go\<close>,
  \<open>extensions.go\<close>, \<open>session_update_raw.go\<close>, the handlers of \<open>agent_gen.go\<close> and
  \<open>client_gen.go\<close>, and the cancellation of prompts (\<open>sessionCancels\<close> of \<open>agent.go\<close>).

  The parameter and result types of the methods are generated and left abstract: a service
  gives, for one method, the decoding and validation of its parameters, the call of the
  implementation, and whether the implementation has the optional interface.
\<close>

section \<open>The context of a handler\<close>

datatype inbound_kind = InboundRequest | InboundNotification

record inbound_info =
  ii_kind :: inbound_kind
  ii_id :: string

record inbound_ctx =
  ic_info :: "inbound_info option"
  ic_params :: "string option"

definition withInboundInfo :: "any_message \<Rightarrow> inbound_ctx" where
  "withInboundInfo req =
     \<lparr>ic_info = Some (case ID req of
          None \<Rightarrow> \<lparr>ii_kind = InboundNotification, ii_id = []\<rparr>
        | Some i \<Rightarrow> \<lparr>ii_kind = InboundRequest, ii_id = i\<rparr>),
      ic_params = Some (Params req)\<rparr>"

definition InboundInfoFromContext :: "inbound_ctx \<Rightarrow> inbound_info option" where
  "InboundInfoFromContext ctx = ic_info ctx"

definition InboundParamsFromContext :: "inbound_ctx \<Rightarrow> string option" where
  "InboundParamsFromContext ctx = ic_params ctx"

definition requireInboundKind :: "inbound_ctx \<Rightarrow> inbound_kind \<Rightarrow> string \<Rightarrow> request_error option" where
  "requireInboundKind ctx want method =
     (case InboundInfoFromContext ctx of
        None \<Rightarrow> Some (NewInternalError (error_data ''ACP inbound message metadata is unavailable''))
      | Some info \<Rightarrow> if ii_kind info \<noteq> want then Some (NewMethodNotFound method) else None)"

section \<open>Calling one method\<close>

record ('v, 'r) service =
  svc_unmarshal :: "string \<Rightarrow> go_error + 'v"
  svc_validate :: "'v \<Rightarrow> go_error option"
  svc_has :: bool
  svc_call :: "'v \<Rightarrow> go_error + 'r"

definition blank_params :: "string \<Rightarrow> bool" where
  "blank_params params \<longleftrightarrow> trim_space params = [] \<or> trim_space params = ''null''"

definition default_params :: "string \<Rightarrow> string" where
  "default_params params = (if blank_params params then ''{}'' else params)"

definition decode_params :: "('v, 'r) service \<Rightarrow> string \<Rightarrow> request_error + 'v" where
  "decode_params svc params =
     (case svc_unmarshal svc params of
        Inl e \<Rightarrow> Inl (NewInvalidParams (error_data (error_text e)))
      | Inr p \<Rightarrow>
          (case svc_validate svc p of
             Some e \<Rightarrow> Inl (NewInvalidParams (error_data (error_text e)))
           | None \<Rightarrow> Inr p))"

definition request_error_of :: "go_error \<Rightarrow> request_error" where
  "request_error_of e = the (toReqErr (Some e))"

definition invoke :: "('v, 'r) service \<Rightarrow> 'v \<Rightarrow> request_error + 'r option" where
  "invoke svc p = (case svc_call svc p of Inl e \<Rightarrow> Inl (request_error_of e) | Inr r \<Rightarrow> Inr (Some r))"

text \<open>The three shapes of a case of \<open>handle\<close>: a request of a required or an optional method, and a notification.\<close>

definition required_request :: "('v, 'r) service \<Rightarrow> inbound_ctx \<Rightarrow> string \<Rightarrow> string \<Rightarrow> request_error + 'r option" where
  "required_request svc ctx method params =
     (case requireInboundKind ctx InboundRequest method of
        Some e \<Rightarrow> Inl e
      | None \<Rightarrow>
          (case decode_params svc (default_params params) of
             Inl e \<Rightarrow> Inl e
           | Inr p \<Rightarrow> invoke svc p))"

definition optional_request :: "('v, 'r) service \<Rightarrow> inbound_ctx \<Rightarrow> string \<Rightarrow> string \<Rightarrow> request_error + 'r option" where
  "optional_request svc ctx method params =
     (case requireInboundKind ctx InboundRequest method of
        Some e \<Rightarrow> Inl e
      | None \<Rightarrow>
          (case decode_params svc (default_params params) of
             Inl e \<Rightarrow> Inl e
           | Inr p \<Rightarrow> if \<not> svc_has svc then Inl (NewMethodNotFound method) else invoke svc p))"

definition notified :: "('v, 'r) service \<Rightarrow> 'v \<Rightarrow> request_error + 'r option" where
  "notified svc p = (case svc_call svc p of Inl e \<Rightarrow> Inl (request_error_of e) | Inr r \<Rightarrow> Inr None)"

section \<open>The cancellation of prompts\<close>

text \<open>
  An entry of \<open>sessionCancels\<close> is a number; \<open>pc_cancelled\<close> are the entries whose \<open>cancel\<close> was
  called, \<open>pc_running\<close> the prompts that the agent is handling.
\<close>

record prompts =
  pc_next :: nat
  sessionCancels :: "(string \<times> nat) list"
  pc_running :: "(string \<times> nat) list"
  pc_cancelled :: "nat list"

definition no_prompts :: prompts where
  "no_prompts = \<lparr>pc_next = 0, sessionCancels = [], pc_running = [], pc_cancelled = []\<rparr>"

definition drop_key :: "string \<Rightarrow> (string \<times> nat) list \<Rightarrow> (string \<times> nat) list" where
  "drop_key k m = filter (\<lambda>(k', _). k' \<noteq> k) m"

definition prompt_begin :: "string \<Rightarrow> prompts \<Rightarrow> nat \<times> prompts" where
  "prompt_begin sid s =
     (let entry = pc_next s;
          prev = opt_list (map_of (sessionCancels s) sid)
      in (entry, s\<lparr>pc_next := pc_next s + 1, pc_cancelled := pc_cancelled s @ prev,
            sessionCancels := drop_key sid (sessionCancels s) @ [(sid, entry)],
            pc_running := pc_running s @ [(sid, entry)]\<rparr>))"

text \<open>After \<open>Prompt\<close> returned; the deferred \<open>cancel\<close> of the entry runs too.\<close>

definition prompt_end :: "string \<Rightarrow> nat \<Rightarrow> prompts \<Rightarrow> prompts" where
  "prompt_end sid entry s =
     s\<lparr>sessionCancels := (if map_of (sessionCancels s) sid = Some entry then drop_key sid (sessionCancels s) else sessionCancels s),
       pc_running := filter (\<lambda>x. x \<noteq> (sid, entry)) (pc_running s), pc_cancelled := pc_cancelled s @ [entry]\<rparr>"

definition session_cancel :: "string \<Rightarrow> prompts \<Rightarrow> prompts" where
  "session_cancel sid s =
     (case map_of (sessionCancels s) sid of
        None \<Rightarrow> s
      | Some cn \<Rightarrow> s\<lparr>pc_cancelled := pc_cancelled s @ [cn], sessionCancels := drop_key sid (sessionCancels s)\<rparr>)"

section \<open>The cases of an agent\<close>

type_synonym ('v, 'r) services = "string \<Rightarrow> ('v, 'r) service"

definition agent_Authenticate :: "('v, 'r) services \<Rightarrow> inbound_ctx \<Rightarrow> string \<Rightarrow> request_error + 'r option" where
  "agent_Authenticate impl ctx params = optional_request (impl ''authenticate'') ctx ''authenticate'' params"

definition agent_Initialize :: "('v, 'r) services \<Rightarrow> inbound_ctx \<Rightarrow> string \<Rightarrow> request_error + 'r option" where
  "agent_Initialize impl ctx params = required_request (impl ''initialize'') ctx ''initialize'' params"

definition agent_Logout :: "('v, 'r) services \<Rightarrow> inbound_ctx \<Rightarrow> string \<Rightarrow> request_error + 'r option" where
  "agent_Logout impl ctx params = optional_request (impl ''logout'') ctx ''logout'' params"

definition agent_SessionClose :: "('v, 'r) services \<Rightarrow> inbound_ctx \<Rightarrow> string \<Rightarrow> request_error + 'r option" where
  "agent_SessionClose impl ctx params = optional_request (impl ''session/close'') ctx ''session/close'' params"

definition agent_SessionDelete :: "('v, 'r) services \<Rightarrow> inbound_ctx \<Rightarrow> string \<Rightarrow> request_error + 'r option" where
  "agent_SessionDelete impl ctx params = optional_request (impl ''session/delete'') ctx ''session/delete'' params"

definition agent_SessionList :: "('v, 'r) services \<Rightarrow> inbound_ctx \<Rightarrow> string \<Rightarrow> request_error + 'r option" where
  "agent_SessionList impl ctx params = optional_request (impl ''session/list'') ctx ''session/list'' params"

definition agent_SessionLoad :: "('v, 'r) services \<Rightarrow> inbound_ctx \<Rightarrow> string \<Rightarrow> request_error + 'r option" where
  "agent_SessionLoad impl ctx params = optional_request (impl ''session/load'') ctx ''session/load'' params"

definition agent_SessionNew :: "('v, 'r) services \<Rightarrow> inbound_ctx \<Rightarrow> string \<Rightarrow> request_error + 'r option" where
  "agent_SessionNew impl ctx params = required_request (impl ''session/new'') ctx ''session/new'' params"

definition agent_SessionResume :: "('v, 'r) services \<Rightarrow> inbound_ctx \<Rightarrow> string \<Rightarrow> request_error + 'r option" where
  "agent_SessionResume impl ctx params = optional_request (impl ''session/resume'') ctx ''session/resume'' params"

definition agent_SessionSetConfigOption :: "('v, 'r) services \<Rightarrow> inbound_ctx \<Rightarrow> string \<Rightarrow> request_error + 'r option" where
  "agent_SessionSetConfigOption impl ctx params = optional_request (impl ''session/set_config_option'') ctx ''session/set_config_option'' params"

definition agent_SessionSetMode :: "('v, 'r) services \<Rightarrow> inbound_ctx \<Rightarrow> string \<Rightarrow> request_error + 'r option" where
  "agent_SessionSetMode impl ctx params = optional_request (impl ''session/set_mode'') ctx ''session/set_mode'' params"

text \<open>\<open>sid\<close> reads the session id of decoded parameters; \<open>call\<close> of a prompt sees its own entry.\<close>

definition agent_SessionCancel :: "('v, 'r) services \<Rightarrow> ('v \<Rightarrow> string) \<Rightarrow> inbound_ctx \<Rightarrow> string \<Rightarrow> prompts \<Rightarrow>
    (request_error + 'r option) \<times> prompts" where
  "agent_SessionCancel impl sid ctx params s =
     (case requireInboundKind ctx InboundNotification ''session/cancel'' of
        Some e \<Rightarrow> (Inl e, s)
      | None \<Rightarrow>
          (case decode_params (impl ''session/cancel'') params of
             Inl e \<Rightarrow> (Inl e, s)
           | Inr p \<Rightarrow> (notified (impl ''session/cancel'') p, session_cancel (sid p) s)))"

definition agent_SessionPrompt :: "('v, 'r) services \<Rightarrow> ('v \<Rightarrow> string) \<Rightarrow> inbound_ctx \<Rightarrow> string \<Rightarrow> prompts \<Rightarrow>
    (request_error + 'r option) \<times> prompts" where
  "agent_SessionPrompt impl sid ctx params s =
     (case requireInboundKind ctx InboundRequest ''session/prompt'' of
        Some e \<Rightarrow> (Inl e, s)
      | None \<Rightarrow>
          (case decode_params (impl ''session/prompt'') (default_params params) of
             Inl e \<Rightarrow> (Inl e, s)
           | Inr p \<Rightarrow>
               (case prompt_begin (sid p) s of
                  (entry, s') \<Rightarrow> (invoke (impl ''session/prompt'') p, prompt_end (sid p) entry s'))))"

definition agent_handle :: "('v, 'r) services \<Rightarrow> ('v \<Rightarrow> string) \<Rightarrow> inbound_ctx \<Rightarrow> string \<Rightarrow> string \<Rightarrow> prompts \<Rightarrow>
    (request_error + 'r option) \<times> prompts" where
  "agent_handle impl sid ctx method params s =
     (if method = ''authenticate'' then (agent_Authenticate impl ctx params, s)
      else if method = ''initialize'' then (agent_Initialize impl ctx params, s)
      else if method = ''logout'' then (agent_Logout impl ctx params, s)
      else if method = ''session/cancel'' then agent_SessionCancel impl sid ctx params s
      else if method = ''session/close'' then (agent_SessionClose impl ctx params, s)
      else if method = ''session/delete'' then (agent_SessionDelete impl ctx params, s)
      else if method = ''session/list'' then (agent_SessionList impl ctx params, s)
      else if method = ''session/load'' then (agent_SessionLoad impl ctx params, s)
      else if method = ''session/new'' then (agent_SessionNew impl ctx params, s)
      else if method = ''session/prompt'' then agent_SessionPrompt impl sid ctx params s
      else if method = ''session/resume'' then (agent_SessionResume impl ctx params, s)
      else if method = ''session/set_config_option'' then (agent_SessionSetConfigOption impl ctx params, s)
      else if method = ''session/set_mode'' then (agent_SessionSetMode impl ctx params, s)
      else (Inl (NewMethodNotFound method), s))"

section \<open>The cases of a client\<close>

definition client_ElicitationComplete :: "('v, 'r) services \<Rightarrow> inbound_ctx \<Rightarrow> string \<Rightarrow> request_error + 'r option" where
  "client_ElicitationComplete impl ctx params =
     (case requireInboundKind ctx InboundNotification ''elicitation/complete'' of
        Some e \<Rightarrow> Inl e
      | None \<Rightarrow>
          (case decode_params (impl ''elicitation/complete'') params of
             Inl e \<Rightarrow> Inl e
           | Inr p \<Rightarrow> if \<not> svc_has (impl ''elicitation/complete'') then Inl (NewMethodNotFound ''elicitation/complete'') else notified (impl ''elicitation/complete'') p))"

definition client_ElicitationCreate :: "('v, 'r) services \<Rightarrow> inbound_ctx \<Rightarrow> string \<Rightarrow> request_error + 'r option" where
  "client_ElicitationCreate impl ctx params = optional_request (impl ''elicitation/create'') ctx ''elicitation/create'' params"

definition client_FsReadTextFile :: "('v, 'r) services \<Rightarrow> inbound_ctx \<Rightarrow> string \<Rightarrow> request_error + 'r option" where
  "client_FsReadTextFile impl ctx params = optional_request (impl ''fs/read_text_file'') ctx ''fs/read_text_file'' params"

definition client_FsWriteTextFile :: "('v, 'r) services \<Rightarrow> inbound_ctx \<Rightarrow> string \<Rightarrow> request_error + 'r option" where
  "client_FsWriteTextFile impl ctx params = optional_request (impl ''fs/write_text_file'') ctx ''fs/write_text_file'' params"

definition client_SessionRequestPermission :: "('v, 'r) services \<Rightarrow> inbound_ctx \<Rightarrow> string \<Rightarrow> request_error + 'r option" where
  "client_SessionRequestPermission impl ctx params = required_request (impl ''session/request_permission'') ctx ''session/request_permission'' params"

definition client_SessionUpdate :: "('v, 'r) services \<Rightarrow> inbound_ctx \<Rightarrow> string \<Rightarrow> request_error + 'r option" where
  "client_SessionUpdate impl ctx params =
     (case requireInboundKind ctx InboundNotification ''session/update'' of
        Some e \<Rightarrow> Inl e
      | None \<Rightarrow>
          (case decode_params (impl ''session/update'') params of
             Inl e \<Rightarrow> Inl e
           | Inr p \<Rightarrow> notified (impl ''session/update'') p))"

definition client_TerminalCreate :: "('v, 'r) services \<Rightarrow> inbound_ctx \<Rightarrow> string \<Rightarrow> request_error + 'r option" where
  "client_TerminalCreate impl ctx params = optional_request (impl ''terminal/create'') ctx ''terminal/create'' params"

definition client_TerminalKill :: "('v, 'r) services \<Rightarrow> inbound_ctx \<Rightarrow> string \<Rightarrow> request_error + 'r option" where
  "client_TerminalKill impl ctx params = optional_request (impl ''terminal/kill'') ctx ''terminal/kill'' params"

definition client_TerminalOutput :: "('v, 'r) services \<Rightarrow> inbound_ctx \<Rightarrow> string \<Rightarrow> request_error + 'r option" where
  "client_TerminalOutput impl ctx params = optional_request (impl ''terminal/output'') ctx ''terminal/output'' params"

definition client_TerminalRelease :: "('v, 'r) services \<Rightarrow> inbound_ctx \<Rightarrow> string \<Rightarrow> request_error + 'r option" where
  "client_TerminalRelease impl ctx params = optional_request (impl ''terminal/release'') ctx ''terminal/release'' params"

definition client_TerminalWaitForExit :: "('v, 'r) services \<Rightarrow> inbound_ctx \<Rightarrow> string \<Rightarrow> request_error + 'r option" where
  "client_TerminalWaitForExit impl ctx params = optional_request (impl ''terminal/wait_for_exit'') ctx ''terminal/wait_for_exit'' params"

definition client_handle :: "('v, 'r) services \<Rightarrow> inbound_ctx \<Rightarrow> string \<Rightarrow> string \<Rightarrow> request_error + 'r option" where
  "client_handle impl ctx method params =
     (if method = ''elicitation/complete'' then client_ElicitationComplete impl ctx params
      else if method = ''elicitation/create'' then client_ElicitationCreate impl ctx params
      else if method = ''fs/read_text_file'' then client_FsReadTextFile impl ctx params
      else if method = ''fs/write_text_file'' then client_FsWriteTextFile impl ctx params
      else if method = ''session/request_permission'' then client_SessionRequestPermission impl ctx params
      else if method = ''session/update'' then client_SessionUpdate impl ctx params
      else if method = ''terminal/create'' then client_TerminalCreate impl ctx params
      else if method = ''terminal/kill'' then client_TerminalKill impl ctx params
      else if method = ''terminal/output'' then client_TerminalOutput impl ctx params
      else if method = ''terminal/release'' then client_TerminalRelease impl ctx params
      else if method = ''terminal/wait_for_exit'' then client_TerminalWaitForExit impl ctx params
      else Inl (NewMethodNotFound method))"

section \<open>Extension methods\<close>

definition isExtensionMethodName :: "string \<Rightarrow> bool" where
  "isExtensionMethodName method \<longleftrightarrow> has_prefix method ''_''"

datatype name_error = EmptyExtensionName | NotAnExtensionName string

definition validateExtensionMethodName :: "string \<Rightarrow> name_error option" where
  "validateExtensionMethodName method =
     (if method = [] then Some EmptyExtensionName
      else if \<not> has_prefix method ''_'' then Some (NotAnExtensionName method) else None)"

text \<open>\<open>ext\<close> is the \<open>HandleExtensionMethod\<close> of an implementation that has one.\<close>

definition handle_extension :: "(string \<Rightarrow> string \<Rightarrow> go_error + 'r) option \<Rightarrow> string \<Rightarrow> string \<Rightarrow> request_error + 'r option" where
  "handle_extension ext method params =
     (case ext of
        None \<Rightarrow> Inl (NewMethodNotFound method)
      | Some h \<Rightarrow> (case h method params of Inl e \<Rightarrow> Inl (request_error_of e) | Inr r \<Rightarrow> Inr (Some r)))"

definition agent_handleWithExtensions :: "(string \<Rightarrow> string \<Rightarrow> go_error + 'r) option \<Rightarrow> ('v, 'r) services \<Rightarrow> ('v \<Rightarrow> string) \<Rightarrow>
    inbound_ctx \<Rightarrow> string \<Rightarrow> string \<Rightarrow> prompts \<Rightarrow> (request_error + 'r option) \<times> prompts" where
  "agent_handleWithExtensions ext impl sid ctx method params s =
     (if isExtensionMethodName method then (handle_extension ext method params, s)
      else agent_handle impl sid ctx method params s)"

definition client_handleWithExtensions :: "(string \<Rightarrow> string \<Rightarrow> go_error + 'r) option \<Rightarrow> ('v, 'r) services \<Rightarrow>
    inbound_ctx \<Rightarrow> string \<Rightarrow> string \<Rightarrow> request_error + 'r option" where
  "client_handleWithExtensions ext impl ctx method params =
     (if isExtensionMethodName method then handle_extension ext method params
      else client_handle impl ctx method params)"

section \<open>Raw session updates\<close>

definition update_error :: "string \<Rightarrow> request_error option" where
  "update_error t = Some (NewInvalidParams (error_data t))"

definition validateRawSessionNotification :: "string \<Rightarrow> request_error option" where
  "validateRawSessionNotification params =
     (if \<not> json_valid params then update_error ''session/update params must be valid JSON''
      else (case unmarshal_map params of
              Some (True, envelope) \<Rightarrow>
                (case field envelope ''sessionId'' of
                   None \<Rightarrow> update_error ''session/update sessionId is required''
                 | Some rawSessionID \<Rightarrow>
                     if trim_space rawSessionID = ''null'' then update_error ''session/update sessionId is required''
                     else if unmarshal_string [] rawSessionID = None then update_error ''session/update sessionId must be a string''
                     else (case field envelope ''update'' of
                             None \<Rightarrow> update_error ''session/update update is required''
                           | Some rawUpdate \<Rightarrow>
                               if trim_space rawUpdate = ''null'' then update_error ''session/update update is required''
                               else (case unmarshal_map rawUpdate of
                                       Some (True, _) \<Rightarrow> None
                                     | _ \<Rightarrow> update_error ''session/update update must be an object'')))
            | _ \<Rightarrow> update_error ''session/update params must be an object''))"

section \<open>How a message is answered\<close>

text \<open>
  The answer to a message, written without the operations above: \<open>kind\<close> is what the method
  expects, \<open>optional\<close> says that the implementation may lack it. Parameters of a request that are
  absent or null count as the empty object.
\<close>

definition counted_params :: "inbound_kind \<Rightarrow> any_message \<Rightarrow> string" where
  "counted_params kind req =
     (if kind = InboundRequest \<and> trim_space (Params req) \<in> {[], ''null''} then ''{}'' else Params req)"

inductive answers :: "inbound_kind \<Rightarrow> bool \<Rightarrow> ('v, 'r) service \<Rightarrow> string \<Rightarrow> any_message \<Rightarrow>
    request_error + 'r option \<Rightarrow> bool"
  for kind :: inbound_kind and optional :: bool and svc :: "('v, 'r) service" and m :: string and req :: any_message where
  wrong_kind: "(ID req = None) \<noteq> (kind = InboundNotification) \<Longrightarrow>
    answers kind optional svc m req (Inl (NewMethodNotFound m))"
| not_decoded: "(ID req = None) = (kind = InboundNotification) \<Longrightarrow>
    svc_unmarshal svc (counted_params kind req) = Inl e \<Longrightarrow>
    answers kind optional svc m req (Inl (NewInvalidParams (error_data (error_text e))))"
| not_valid: "(ID req = None) = (kind = InboundNotification) \<Longrightarrow>
    svc_unmarshal svc (counted_params kind req) = Inr p \<Longrightarrow> svc_validate svc p = Some e \<Longrightarrow>
    answers kind optional svc m req (Inl (NewInvalidParams (error_data (error_text e))))"
| not_implemented: "(ID req = None) = (kind = InboundNotification) \<Longrightarrow>
    svc_unmarshal svc (counted_params kind req) = Inr p \<Longrightarrow> svc_validate svc p = None \<Longrightarrow>
    optional \<Longrightarrow> \<not> svc_has svc \<Longrightarrow> answers kind optional svc m req (Inl (NewMethodNotFound m))"
| failed: "(ID req = None) = (kind = InboundNotification) \<Longrightarrow>
    svc_unmarshal svc (counted_params kind req) = Inr p \<Longrightarrow> svc_validate svc p = None \<Longrightarrow>
    (optional \<longrightarrow> svc_has svc) \<Longrightarrow> svc_call svc p = Inl e \<Longrightarrow> toReqErr (Some e) = Some r \<Longrightarrow>
    answers kind optional svc m req (Inl r)"
| answered: "ID req \<noteq> None \<Longrightarrow> kind = InboundRequest \<Longrightarrow>
    svc_unmarshal svc (counted_params kind req) = Inr p \<Longrightarrow> svc_validate svc p = None \<Longrightarrow>
    (optional \<longrightarrow> svc_has svc) \<Longrightarrow> svc_call svc p = Inr v \<Longrightarrow>
    answers kind optional svc m req (Inr (Some v))"
| noticed: "ID req = None \<Longrightarrow> kind = InboundNotification \<Longrightarrow>
    svc_unmarshal svc (counted_params kind req) = Inr p \<Longrightarrow> svc_validate svc p = None \<Longrightarrow>
    (optional \<longrightarrow> svc_has svc) \<Longrightarrow> svc_call svc p = Inr v \<Longrightarrow>
    answers kind optional svc m req (Inr None)"

inductive_cases answersE: "answers kind optional svc m req r"

text \<open>The methods of either side, their kinds, and which an implementation may lack.\<close>

definition agent_methods :: "(string \<times> inbound_kind \<times> bool) list" where
  "agent_methods =
     [(''authenticate'', InboundRequest, True), (''initialize'', InboundRequest, False), (''logout'', InboundRequest, True),
      (''session/cancel'', InboundNotification, False), (''session/close'', InboundRequest, True),
      (''session/delete'', InboundRequest, True), (''session/list'', InboundRequest, True),
      (''session/load'', InboundRequest, True), (''session/new'', InboundRequest, False),
      (''session/prompt'', InboundRequest, False), (''session/resume'', InboundRequest, True),
      (''session/set_config_option'', InboundRequest, True), (''session/set_mode'', InboundRequest, True)]"

definition client_methods :: "(string \<times> inbound_kind \<times> bool) list" where
  "client_methods =
     [(''elicitation/complete'', InboundNotification, True), (''elicitation/create'', InboundRequest, True),
      (''fs/read_text_file'', InboundRequest, True), (''fs/write_text_file'', InboundRequest, True),
      (''session/request_permission'', InboundRequest, False), (''session/update'', InboundNotification, False),
      (''terminal/create'', InboundRequest, True), (''terminal/kill'', InboundRequest, True),
      (''terminal/output'', InboundRequest, True), (''terminal/release'', InboundRequest, True),
      (''terminal/wait_for_exit'', InboundRequest, True)]"

lemma toReqErr_some: "toReqErr (Some e) = Some (request_error_of e)"
  by (cases "toReqErr (Some e)") (auto simp: request_error_of_def toReqErr_def split: option.splits if_splits go_error.splits)

lemma kind_checked:
  "requireInboundKind (withInboundInfo req) kind m =
     (if (ID req = None) = (kind = InboundNotification) then None else Some (NewMethodNotFound m))"
  by (cases kind; cases "ID req")
    (simp_all add: requireInboundKind_def InboundInfoFromContext_def withInboundInfo_def)

lemma params_counted:
  "default_params (Params req) = counted_params InboundRequest req" "Params req = counted_params InboundNotification req"
  by (simp_all add: counted_params_def default_params_def blank_params_def)

text \<open>The shapes of a case.\<close>

lemma answers_required:
  "answers InboundRequest False svc m req (required_request svc (withInboundInfo req) m (Params req))"
  by (auto simp: required_request_def kind_checked decode_params_def invoke_def params_counted(1)
      split: option.split sum.split intro: answers.intros toReqErr_some)

lemma answers_optional:
  "answers InboundRequest True svc m req (optional_request svc (withInboundInfo req) m (Params req))"
  by (auto simp: optional_request_def kind_checked decode_params_def invoke_def params_counted(1)
      split: option.split sum.split intro: answers.intros toReqErr_some)

lemma answers_notified:
  "answers InboundNotification False svc m req
    (case requireInboundKind (withInboundInfo req) InboundNotification m of Some e \<Rightarrow> Inl e
     | None \<Rightarrow> (case decode_params svc (Params req) of Inl e \<Rightarrow> Inl e | Inr p \<Rightarrow> notified svc p))"
  "answers InboundNotification True svc m req
    (case requireInboundKind (withInboundInfo req) InboundNotification m of Some e \<Rightarrow> Inl e
     | None \<Rightarrow> (case decode_params svc (Params req) of Inl e \<Rightarrow> Inl e
        | Inr p \<Rightarrow> if \<not> svc_has svc then Inl (NewMethodNotFound m) else notified svc p))"
  by (auto simp: notified_def kind_checked decode_params_def params_counted(2)
      split: option.split sum.split intro: answers.intros toReqErr_some)

lemma answers_stateful:
  "answers InboundNotification False (impl ''session/cancel'') ''session/cancel'' req
    (fst (agent_SessionCancel impl sid (withInboundInfo req) (Params req) s))"
  "answers InboundRequest False (impl ''session/prompt'') ''session/prompt'' req
    (fst (agent_SessionPrompt impl sid (withInboundInfo req) (Params req) s))"
proof -
  have "fst (agent_SessionCancel impl sid (withInboundInfo req) (Params req) s) =
    (case requireInboundKind (withInboundInfo req) InboundNotification ''session/cancel'' of Some e \<Rightarrow> Inl e
     | None \<Rightarrow> (case decode_params (impl ''session/cancel'') (Params req) of Inl e \<Rightarrow> Inl e
        | Inr p \<Rightarrow> notified (impl ''session/cancel'') p))"
    by (simp add: agent_SessionCancel_def split: option.split sum.split)
  then show "answers InboundNotification False (impl ''session/cancel'') ''session/cancel'' req
      (fst (agent_SessionCancel impl sid (withInboundInfo req) (Params req) s))"
    using answers_notified(1) by metis
  have "fst (agent_SessionPrompt impl sid (withInboundInfo req) (Params req) s) =
    required_request (impl ''session/prompt'') (withInboundInfo req) ''session/prompt'' (Params req)"
    by (simp add: agent_SessionPrompt_def required_request_def split: option.split sum.split prod.split)
  then show "answers InboundRequest False (impl ''session/prompt'') ''session/prompt'' req
      (fst (agent_SessionPrompt impl sid (withInboundInfo req) (Params req) s))"
    using answers_required by metis
qed

lemmas agent_cases =
  agent_Authenticate_def agent_Initialize_def agent_Logout_def agent_SessionClose_def agent_SessionDelete_def
  agent_SessionList_def agent_SessionLoad_def agent_SessionNew_def agent_SessionResume_def
  agent_SessionSetConfigOption_def agent_SessionSetMode_def

lemmas client_cases =
  client_ElicitationComplete_def client_ElicitationCreate_def client_FsReadTextFile_def client_FsWriteTextFile_def
  client_SessionRequestPermission_def client_SessionUpdate_def client_TerminalCreate_def client_TerminalKill_def
  client_TerminalOutput_def client_TerminalRelease_def client_TerminalWaitForExit_def

lemmas handler_answers = answers_required answers_optional answers_stateful

lemma agent_answers:
  "map_of agent_methods m = Some (kind, opt) \<Longrightarrow>
    answers kind opt (impl m) m req (fst (agent_handle impl sid (withInboundInfo req) m (Params req) s))"
  by (auto simp: agent_methods_def agent_handle_def agent_cases handler_answers split: if_splits)

lemma client_answers:
  "map_of client_methods m = Some (kind, opt) \<Longrightarrow>
    answers kind opt (impl m) m req (client_handle impl (withInboundInfo req) m (Params req))"
  by (auto simp: client_methods_def client_handle_def client_cases handler_answers answers_notified split: if_splits)

lemma unknown_methods:
  "map_of agent_methods m = None \<Longrightarrow> agent_handle impl sid ctx m params s = (Inl (NewMethodNotFound m), s)"
  "map_of client_methods m = None \<Longrightarrow> client_handle impl ctx m params = Inl (NewMethodNotFound m)"
  by (simp_all add: agent_methods_def client_methods_def agent_handle_def client_handle_def split: if_splits)

section \<open>Prompts and their cancellation\<close>

inductive pc_step :: "prompts \<Rightarrow> prompts \<Rightarrow> bool" where
  begins: "prompt_begin sid s = (entry, s') \<Longrightarrow> pc_step s s'"
| ends: "(sid, entry) \<in> set (pc_running s) \<Longrightarrow> pc_step s (prompt_end sid entry s)"
| cancels: "pc_step s (session_cancel sid s)"

definition pc_inv :: "prompts \<Rightarrow> bool" where
  "pc_inv s \<longleftrightarrow>
     distinct (map snd (pc_running s)) \<and> (\<forall>x \<in> set (pc_running s). snd x < pc_next s) \<and>
     (\<forall>e \<in> set (pc_cancelled s). e < pc_next s) \<and>
     (\<forall>sid e. (sid, e) \<in> set (pc_running s) \<and> e \<notin> set (pc_cancelled s) \<longleftrightarrow> map_of (sessionCancels s) sid = Some e)"

lemma map_of_drop_key: "map_of (drop_key k m) k' = (if k' = k then None else map_of m k')"
  by (induction m) (auto simp: drop_key_def)

lemma pc_entry: "pc_inv s \<Longrightarrow> map_of (sessionCancels s) sid = Some e \<Longrightarrow>
    (sid, e) \<in> set (pc_running s) \<and> e \<notin> set (pc_cancelled s) \<and> e < pc_next s"
  unfolding pc_inv_def by fastforce

lemma pc_running_inj: "pc_inv s \<Longrightarrow> (sid, e) \<in> set (pc_running s) \<Longrightarrow> (sid', e) \<in> set (pc_running s) \<Longrightarrow> sid = sid'"
  unfolding pc_inv_def by (metis (mono_tags, lifting) distinct_map inj_onD prod.inject snd_conv)

lemma pc_live: "pc_inv s \<Longrightarrow> (sid, e) \<in> set (pc_running s) \<Longrightarrow> e \<notin> set (pc_cancelled s) \<Longrightarrow> map_of (sessionCancels s) sid = Some e"
  unfolding pc_inv_def by blast

lemma pc_begin_inv:
  assumes inv: "pc_inv s" and b: "prompt_begin sid s = (entry, s')"
  shows "pc_inv s'"
proof -
  have s': "pc_next s' = pc_next s + 1" "pc_running s' = pc_running s @ [(sid, pc_next s)]"
    "pc_cancelled s' = pc_cancelled s @ opt_list (map_of (sessionCancels s) sid)"
    and cs: "sessionCancels s' = drop_key sid (sessionCancels s) @ [(sid, pc_next s)]"
    using b by (auto simp: prompt_begin_def Let_def)
  have m: "map_of (sessionCancels s') t = (if t = sid then Some (pc_next s) else map_of (sessionCancels s) t)" for t
    by (simp add: cs map_add_def map_of_drop_key split: option.split)
  have old: "e < pc_next s" if "(t, e) \<in> set (pc_running s)" for t e using inv that by (auto simp: pc_inv_def)
  have can: "e < pc_next s" if "e \<in> set (opt_list (map_of (sessionCancels s) sid))" for e
    using that pc_entry [OF inv] by (cases "map_of (sessionCancels s) sid") auto
  have "(t, e) \<in> set (pc_running s') \<and> e \<notin> set (pc_cancelled s') \<longleftrightarrow> map_of (sessionCancels s') t = Some e" for t e
  proof (cases "e = pc_next s")
    case True
    have "pc_next s \<notin> set (pc_cancelled s')" using inv can by (auto simp: s' pc_inv_def)
    moreover have "(t, pc_next s) \<notin> set (pc_running s)" using old by blast
    moreover have "map_of (sessionCancels s) t \<noteq> Some (pc_next s)" using pc_entry [OF inv] by blast
    ultimately show ?thesis by (auto simp: True s' m)
  next
    case False
    have "e \<in> set (opt_list (map_of (sessionCancels s) sid)) \<longleftrightarrow> map_of (sessionCancels s) sid = Some e"
      by (auto simp: opt_list_def split: option.splits)
    then show ?thesis
      using False pc_entry [OF inv, of sid e] pc_entry [OF inv, of t e] pc_live [OF inv, of t e] pc_running_inj [OF inv, of t e sid]
      by (auto simp: s' m)
  qed
  moreover have "distinct (map snd (pc_running s'))" using inv old by (auto simp: s' pc_inv_def)
  moreover have "\<forall>x \<in> set (pc_running s'). snd x < pc_next s'" using inv by (auto simp: s' pc_inv_def less_Suc_eq)
  moreover have "\<forall>e \<in> set (pc_cancelled s'). e < pc_next s'" using inv can by (auto simp: s' pc_inv_def less_Suc_eq)
  ultimately show ?thesis unfolding pc_inv_def by blast
qed

lemma pc_end_inv:
  assumes inv: "pc_inv s" and r: "(sid, entry) \<in> set (pc_running s)"
  shows "pc_inv (prompt_end sid entry s)"
proof -
  let ?s = "prompt_end sid entry s"
  have "(t, e) \<in> set (pc_running ?s) \<and> e \<notin> set (pc_cancelled ?s) \<longleftrightarrow> map_of (sessionCancels ?s) t = Some e" for t e
  proof (cases "e = entry")
    case True
    have "map_of (sessionCancels s) t = Some entry \<Longrightarrow> t = sid"
      using pc_entry [OF inv, of t entry] pc_running_inj [OF inv _ r] by blast
    then show ?thesis by (auto simp: True prompt_end_def map_of_drop_key)
  next
    case False
    then show ?thesis using pc_entry [OF inv, of t e] pc_live [OF inv, of t e]
      by (cases "e \<in> set (pc_cancelled s)") (auto simp: prompt_end_def map_of_drop_key)
  qed
  moreover have "distinct (map snd (pc_running ?s))" using inv by (auto simp: prompt_end_def pc_inv_def distinct_map_filter)
  moreover have "\<forall>x \<in> set (pc_running ?s). snd x < pc_next ?s" using inv by (auto simp: prompt_end_def pc_inv_def)
  moreover have "\<forall>e \<in> set (pc_cancelled ?s). e < pc_next ?s" using inv r by (auto simp: prompt_end_def pc_inv_def)
  ultimately show ?thesis unfolding pc_inv_def by blast
qed

lemma pc_cancel_inv:
  assumes inv: "pc_inv s"
  shows "pc_inv (session_cancel sid s)"
proof (cases "map_of (sessionCancels s) sid")
  case None
  then show ?thesis using inv by (simp add: session_cancel_def)
next
  case (Some cn)
  let ?s = "session_cancel sid s"
  have s: "pc_next ?s = pc_next s" "pc_running ?s = pc_running s" "pc_cancelled ?s = pc_cancelled s @ [cn]"
    "sessionCancels ?s = drop_key sid (sessionCancels s)" by (simp_all add: session_cancel_def Some)
  have "(t, e) \<in> set (pc_running ?s) \<and> e \<notin> set (pc_cancelled ?s) \<longleftrightarrow> map_of (sessionCancels ?s) t = Some e" for t e
    using pc_entry [OF inv, of t e] pc_live [OF inv, of t e] pc_entry [OF inv Some] pc_running_inj [OF inv, of t e sid]
    by (auto simp: s map_of_drop_key Some)
  moreover have "\<forall>e \<in> set (pc_cancelled ?s). e < pc_next ?s" using inv pc_entry [OF inv Some] by (auto simp: s pc_inv_def)
  ultimately show ?thesis using inv unfolding pc_inv_def s by blast
qed

interpretation prompting: invariant_system "\<lambda>s. s = no_prompts" pc_step pc_inv
proof unfold_locales
  show "s = no_prompts \<Longrightarrow> pc_inv s" for s by (simp add: no_prompts_def pc_inv_def)
  show "pc_inv s \<Longrightarrow> pc_step s t \<Longrightarrow> pc_inv t" for s t
    by (erule pc_step.cases) (auto intro: pc_begin_inv pc_end_inv pc_cancel_inv)
qed

section \<open>Properties\<close>

text \<open>C23: An agent and a client treat a message for any of their methods by the same rule: a message of
  the wrong kind is refused as an unknown method; then the parameters are decoded and validated,
  and a failure of either is an error for invalid parameters that carries its text; then a
  missing optional interface is an unknown method; only then the implementation is called, once
  the decoded parameters are valid, and its error or its result is the answer. A notification has
  no result. A method that is not in the table is unknown.\<close>

theorem handlers_answer:
  "(\<forall>kind opt. map_of agent_methods m = Some (kind, opt) \<longrightarrow>
      answers kind opt (impl m) m req (fst (agent_handle impl sid (withInboundInfo req) m (Params req) s))) \<and>
   (map_of agent_methods m = None \<longrightarrow>
      agent_handle impl sid (withInboundInfo req) m (Params req) s = (Inl (NewMethodNotFound m), s)) \<and>
   (\<forall>kind opt. map_of client_methods m = Some (kind, opt) \<longrightarrow>
      answers kind opt (impl m) m req (client_handle impl (withInboundInfo req) m (Params req))) \<and>
   (map_of client_methods m = None \<longrightarrow>
      client_handle impl (withInboundInfo req) m (Params req) = Inl (NewMethodNotFound m))"
  by (simp add: agent_answers client_answers unknown_methods)

text \<open>A service whose parameters decode and are not valid.\<close>

definition demo_service :: "(string, string) service" where
  "demo_service = \<lparr>svc_unmarshal = Inr, svc_validate = (\<lambda>p. if p = ''{}'' then Some (ErrText ''empty'') else None),
     svc_has = True, svc_call = Inr\<rparr>"

lemma handlers_answer_witness:
  "fst (agent_handle (\<lambda>_. demo_service) id (withInboundInfo (empty_message\<lparr>ID := Some ''1''\<rparr>)) ''session/new'' [] no_prompts) =
     Inl (NewInvalidParams (error_data ''empty''))"
proof -
  let ?req = "empty_message\<lparr>ID := Some ''1''\<rparr>"
  have m: "map_of agent_methods ''session/new'' = Some (InboundRequest, False)" by (simp add: agent_methods_def)
  have "trim_space [] = []" by code_simp
  then have p: "Params ?req = []" "ID ?req = Some ''1''" "counted_params InboundRequest ?req = ''{}''"
    by (simp_all add: empty_message_def counted_params_def)
  have d: "svc_unmarshal demo_service ''{}'' = Inr ''{}''" "svc_validate demo_service ''{}'' = Some (ErrText ''empty'')"
    "error_text (ErrText ''empty'') = ''empty''"
    by (simp_all add: demo_service_def)
  have "answers InboundRequest False demo_service ''session/new'' ?req
      (fst (agent_handle (\<lambda>_. demo_service) id (withInboundInfo ?req) ''session/new'' (Params ?req) no_prompts))"
    using handlers_answer [of "''session/new''" "\<lambda>_. demo_service" ?req id no_prompts] m by blast
  then show ?thesis unfolding p(1) by (rule answersE) (auto simp: p d)
qed

text \<open>C22: At most one prompt of a session is running that was not cancelled, and after a
  \<open>session/cancel\<close> every prompt of that session that is still running has been cancelled.\<close>

theorem prompts_cancelled:
  assumes "reach (\<lambda>s. s = no_prompts) pc_step s"
  shows "((sid, e) \<in> set (pc_running s) \<and> (sid, e') \<in> set (pc_running s) \<and> e \<notin> set (pc_cancelled s) \<and> e' \<notin> set (pc_cancelled s)
      \<longrightarrow> e = e') \<and>
    ((sid, e) \<in> set (pc_running (session_cancel sid s)) \<longrightarrow> e \<in> set (pc_cancelled (session_cancel sid s)))"
proof -
  have inv: "pc_inv s" using prompting.reach_inv [OF assms] .
  have "map_of (sessionCancels (session_cancel sid s)) sid = None"
    by (simp add: session_cancel_def map_of_drop_key split: option.split)
  then have "(sid, e) \<in> set (pc_running (session_cancel sid s)) \<longrightarrow> e \<in> set (pc_cancelled (session_cancel sid s))"
    using pc_live [OF pc_cancel_inv [OF inv], of sid e sid] by auto
  then show ?thesis using pc_live [OF inv, of sid e] pc_live [OF inv, of sid e'] by auto
qed

lemma prompts_cancelled_witness:
  "let s = snd (prompt_begin ''a'' (snd (prompt_begin ''a'' no_prompts)))
   in pc_running s = [(''a'', 0), (''a'', 1)] \<and> 1 \<in> set (pc_cancelled (session_cancel ''a'' s))"
proof -
  let ?s1 = "snd (prompt_begin ''a'' no_prompts)"
  let ?s = "snd (prompt_begin ''a'' ?s1)"
  have st: "pc_step no_prompts ?s1" "pc_step ?s1 ?s" by (rule pc_step.begins, rule prod.collapse [symmetric])+
  have "reach (\<lambda>s. s = no_prompts) pc_step no_prompts" by (rule reach.reach_init) (rule refl)
  then have "reach (\<lambda>s. s = no_prompts) pc_step ?s1" by (rule reach.reach_step) (rule st(1))
  then have r: "reach (\<lambda>s. s = no_prompts) pc_step ?s" by (rule reach.reach_step) (rule st(2))
  have run: "pc_running ?s = [(''a'', 0), (''a'', 1)]" "pc_running (session_cancel ''a'' ?s) = [(''a'', 0), (''a'', 1)]" by code_simp+
  have "(''a'', 1) \<in> set (pc_running (session_cancel ''a'' ?s)) \<longrightarrow> 1 \<in> set (pc_cancelled (session_cancel ''a'' ?s))"
    using prompts_cancelled [OF r] by blast
  then have "1 \<in> set (pc_cancelled (session_cancel ''a'' ?s))" unfolding run by simp
  then show ?thesis unfolding Let_def using run(1) by blast
qed

end
