(* ===== verification/Version.thy ===== *)
theory Version
  imports Json "HOL-Library.Char_ord" "HOL-Library.List_Lexorder" "HOL-Library.Product_Lexorder"
begin

text \<open>
  \<open>cmd/upstreamdrift/version.go\<close>: the release tags of the upstream repositories, their parsing
  and their precedence, and the choice of the latest tag.

  Go's \<open>int\<close> is 64 bits wide: a number that does not fit is an error of \<open>strconv.Atoi\<close>. The
  Unicode tables of the standard library are the argument \<open>tab\<close>, which classifies a
  non-ASCII code point given as UTF-8; \<open>range\<close> over a string yields U+FFFD, which is neither
  a letter nor a digit, for a byte that starts no code point.
\<close>

section \<open>Tags\<close>

record pre_ident =
  pi_numeric :: bool
  pi_n :: int
  pi_s :: string

record version =
  major :: int
  minor :: int
  patch :: int
  v_pre :: "pre_ident list"
  v_raw :: string

datatype tag_error = EmptyTag | UnsupportedTag string | NoMatchingTags

datatype rune_class = RDigit | RLetter | ROther

definition ascii_class :: "char \<Rightarrow> rune_class" where
  "ascii_class c = (if is_digit c then RDigit else if is_lower c \<or> is_upper c then RLetter else ROther)"

text \<open>The runes that \<open>range\<close> gives: their text and their class.\<close>

function runes :: "(string \<Rightarrow> rune_class) \<Rightarrow> string \<Rightarrow> (string \<times> rune_class) list" where
  "runes tab s =
     (case s of
        [] \<Rightarrow> []
      | c # r \<Rightarrow>
          if byte c < 128 then ([c], ascii_class c) # runes tab r
          else if utf8_width s = 0 then ([c], ROther) # runes tab r
          else (take (utf8_width s) s, tab (take (utf8_width s) s)) # runes tab (drop (utf8_width s) s))"
  by pat_completeness auto
termination
  by (relation "measure (\<lambda>(tab, s). length s)") auto

declare runes.simps [simp del]

definition parseVersionNumber :: "(string \<Rightarrow> rune_class) \<Rightarrow> string \<Rightarrow> int option" where
  "parseVersionNumber tab value =
     (if value = [] then None
      else if list_ex (\<lambda>r. snd r \<noteq> RDigit) (runes tab value) then None
      else (case parse_int64 value of None \<Rightarrow> None | Some n \<Rightarrow> if n < 0 then None else Some n))"

definition parsePreIdent :: "(string \<Rightarrow> rune_class) \<Rightarrow> string \<Rightarrow> pre_ident option" where
  "parsePreIdent tab value =
     (if value = [] then None
      else (let rs = runes tab value
            in if list_ex (\<lambda>r. snd r = ROther \<and> fst r \<noteq> ''-'') rs then None
               else if list_all (\<lambda>r. snd r = RDigit) rs then
                 (case parse_int64 value of
                    None \<Rightarrow> None
                  | Some n \<Rightarrow> Some \<lparr>pi_numeric = True, pi_n = n, pi_s = value\<rparr>)
               else Some \<lparr>pi_numeric = False, pi_n = 0, pi_s = value\<rparr>))"

fun parse_idents :: "(string \<Rightarrow> rune_class) \<Rightarrow> string list \<Rightarrow> pre_ident list option" where
  "parse_idents tab [] = Some []"
| "parse_idents tab (x # xs) =
     (case parsePreIdent tab x of
        None \<Rightarrow> None
      | Some p \<Rightarrow> map_option ((#) p) (parse_idents tab xs))"

definition parseTag :: "(string \<Rightarrow> rune_class) \<Rightarrow> string \<Rightarrow> tag_error + version" where
  "parseTag tab tag =
     (let original = trim_space tag
      in if original = [] then Inl EmptyTag
         else (let rest = trim_prefix (trim_prefix original ''schema-'') ''v''
               in case cut_at (CHR ''-'') rest of
                    (core, pre, hasPre) \<Rightarrow>
                      (case split_on (CHR ''.'') core of
                         [a, b, c] \<Rightarrow>
                           (case (parseVersionNumber tab a, parseVersionNumber tab b, parseVersionNumber tab c) of
                              (Some x, Some y, Some z) \<Rightarrow>
                                (let parsed = \<lparr>major = x, minor = y, patch = z, v_pre = [], v_raw = original\<rparr>
                                 in if \<not> hasPre then Inr parsed
                                    else if pre = [] then Inl (UnsupportedTag original)
                                    else (case parse_idents tab (split_on (CHR ''.'') pre) of
                                            None \<Rightarrow> Inl (UnsupportedTag original)
                                          | Some ps \<Rightarrow> Inr (parsed\<lparr>v_pre := ps\<rparr>)))
                            | _ \<Rightarrow> Inl (UnsupportedTag original))
                       | _ \<Rightarrow> Inl (UnsupportedTag original))))"

section \<open>Precedence\<close>

definition compareInt :: "int \<Rightarrow> int \<Rightarrow> int" where
  "compareInt a b = (if a < b then -1 else if a > b then 1 else 0)"

text \<open>\<open>strings.Compare\<close>.\<close>

fun compare_bytes :: "string \<Rightarrow> string \<Rightarrow> int" where
  "compare_bytes [] [] = 0"
| "compare_bytes [] (b # bs) = -1"
| "compare_bytes (a # as) [] = 1"
| "compare_bytes (a # as) (b # bs) =
     (if byte a < byte b then -1 else if byte b < byte a then 1 else compare_bytes as bs)"

definition comparePreIdent :: "pre_ident \<Rightarrow> pre_ident \<Rightarrow> int" where
  "comparePreIdent a b =
     (if pi_numeric a \<noteq> pi_numeric b then (if pi_numeric a then -1 else 1)
      else if pi_numeric a then compareInt (pi_n a) (pi_n b)
      else compare_bytes (pi_s a) (pi_s b))"

definition comparePre :: "pre_ident list \<Rightarrow> pre_ident list \<Rightarrow> int" where
  "comparePre a b =
     (if a = [] \<and> b = [] then 0
      else if a = [] then 1
      else if b = [] then -1
      else (case find (\<lambda>c. c \<noteq> 0) (map (\<lambda>(x, y). comparePreIdent x y) (zip a b)) of
              Some c \<Rightarrow> c
            | None \<Rightarrow> compareInt (int (length a)) (int (length b))))"

definition Compare :: "version \<Rightarrow> version \<Rightarrow> int" where
  "Compare v w =
     (if major v \<noteq> major w then compareInt (major v) (major w)
      else if minor v \<noteq> minor w then compareInt (minor v) (minor w)
      else if patch v \<noteq> patch w then compareInt (patch v) (patch w)
      else comparePre (v_pre v) (v_pre w))"

section \<open>The latest tag\<close>

definition better :: "version option \<Rightarrow> version \<Rightarrow> version option" where
  "better best parsed = (case best of None \<Rightarrow> Some parsed | Some b \<Rightarrow> if Compare parsed b > 0 then Some parsed else Some b)"

definition candidates :: "(string \<Rightarrow> rune_class) \<Rightarrow> (version \<Rightarrow> bool) option \<Rightarrow> string list \<Rightarrow> version list" where
  "candidates tab include tags =
     collect (\<lambda>tag. case parseTag tab tag of
         Inl e \<Rightarrow> None
       | Inr v \<Rightarrow> (case include of None \<Rightarrow> Some v | Some f \<Rightarrow> if f v then Some v else None)) tags"

definition latestTag :: "(string \<Rightarrow> rune_class) \<Rightarrow> string list \<Rightarrow> (version \<Rightarrow> bool) option \<Rightarrow> tag_error + string" where
  "latestTag tab tags include =
     (case foldl better None (candidates tab include tags) of
        None \<Rightarrow> Inl NoMatchingTags
      | Some best \<Rightarrow> Inr (v_raw best))"

section \<open>The order of precedence\<close>

text \<open>
  The precedence of the semantic versioning rules as a linear order: a release is above its
  pre-releases, identifiers are compared from left to right, numbers below names, a longer
  list above its prefix.
\<close>

datatype ident_key = NumKey int | NameKey string

instantiation ident_key :: linorder
begin

fun less_eq_ident_key :: "ident_key \<Rightarrow> ident_key \<Rightarrow> bool" where
  "less_eq_ident_key (NumKey a) (NumKey b) = (a \<le> b)"
| "less_eq_ident_key (NumKey a) (NameKey t) = True"
| "less_eq_ident_key (NameKey s) (NumKey b) = False"
| "less_eq_ident_key (NameKey s) (NameKey t) = (s \<le> t)"

definition less_ident_key :: "ident_key \<Rightarrow> ident_key \<Rightarrow> bool" where
  "less_ident_key x y \<longleftrightarrow> x \<le> y \<and> \<not> y \<le> x"

instance
proof
  fix x y z :: ident_key
  show "x < y \<longleftrightarrow> x \<le> y \<and> \<not> y \<le> x" by (rule less_ident_key_def)
  show "x \<le> x" by (cases x) auto
  show "x \<le> y \<Longrightarrow> y \<le> z \<Longrightarrow> x \<le> z" by (cases x; cases y; cases z) auto
  show "x \<le> y \<Longrightarrow> y \<le> x \<Longrightarrow> x = y" by (cases x; cases y) auto
  show "x \<le> y \<or> y \<le> x" by (cases x; cases y) auto
qed

end

definition ident_rank :: "pre_ident \<Rightarrow> ident_key" where
  "ident_rank p = (if pi_numeric p then NumKey (pi_n p) else NameKey (pi_s p))"

definition precedence :: "version \<Rightarrow> int \<times> int \<times> int \<times> bool \<times> ident_key list" where
  "precedence v = (major v, minor v, patch v, v_pre v = [], map ident_rank (v_pre v))"

text \<open>
  The interface of a three-way comparison: it is the comparison of ranks in a linear order.
  What \<open>latestTag\<close> does with it rests on that alone.
\<close>

definition sign_of :: "'k::linorder \<Rightarrow> 'k \<Rightarrow> int" where
  "sign_of x y = (if x < y then -1 else if x = y then 0 else 1)"

locale ranking =
  fixes cmp :: "'v \<Rightarrow> 'v \<Rightarrow> int"
    and rank :: "'v \<Rightarrow> 'k::linorder"
  assumes cmp_rank: "cmp v w = sign_of (rank v) (rank w)"
begin

lemma cmp_pos: "0 < cmp v w \<longleftrightarrow> rank w < rank v"
  by (auto simp: cmp_rank sign_of_def)

lemma cmp_zero: "cmp v w = 0 \<longleftrightarrow> rank v = rank w"
  by (auto simp: cmp_rank sign_of_def)

lemma cmp_swap: "cmp w v = - cmp v w"
  by (auto simp: cmp_rank sign_of_def)

definition keep :: "'v option \<Rightarrow> 'v \<Rightarrow> 'v option" where
  "keep best x = (case best of None \<Rightarrow> Some x | Some b \<Rightarrow> if cmp x b > 0 then Some x else Some b)"

text \<open>The first of the greatest elements is kept.\<close>

lemma keep_Some:
  "foldl keep (Some b) xs = Some m \<Longrightarrow>
    (\<forall>x \<in> insert b (set xs). rank x \<le> rank m) \<and>
    (\<exists>i \<le> length xs. (b # xs) ! i = m \<and> (\<forall>j < i. rank ((b # xs) ! j) < rank m))"
proof (induction xs arbitrary: b)
  case (Cons x xs)
  show ?case
  proof (cases "cmp x b > 0")
    case True
    then have lt: "rank b < rank x" by (simp add: cmp_pos)
    have "foldl keep (Some x) xs = Some m" using Cons.prems True keep_def [of "Some b" x] by simp
    from Cons.IH [OF this] obtain i where m: "\<forall>y \<in> insert x (set xs). rank y \<le> rank m"
      and i: "i \<le> length xs" "(x # xs) ! i = m" "\<forall>j < i. rank ((x # xs) ! j) < rank m" by blast
    have "rank b < rank m" using lt m by force
    moreover have "\<forall>j < Suc i. rank ((b # x # xs) ! j) < rank m"
      using i(3) calculation by (auto simp: nth_Cons less_Suc_eq_0_disj split: nat.split)
    ultimately show ?thesis using m i by (auto intro!: exI [of _ "Suc i"])
  next
    case False
    then have le: "rank x \<le> rank b" by (simp add: cmp_pos)
    have "foldl keep (Some b) xs = Some m" using Cons.prems False keep_def [of "Some b" x] by simp
    from Cons.IH [OF this] obtain i where m: "\<forall>y \<in> insert b (set xs). rank y \<le> rank m"
      and i: "i \<le> length xs" "(b # xs) ! i = m" "\<forall>j < i. rank ((b # xs) ! j) < rank m" by blast
    show ?thesis
    proof (cases i)
      case 0
      then show ?thesis using m i le by (auto intro!: exI [of _ 0])
    next
      case (Suc k)
      then have b: "rank b < rank m" using i(3) by force
      have "\<forall>j < Suc i. rank ((b # x # xs) ! j) < rank m"
      proof (intro allI impI)
        fix j assume j: "j < Suc i"
        show "rank ((b # x # xs) ! j) < rank m"
        proof (cases j)
          case (Suc l)
          then show ?thesis using b le i(3) j by (cases l) (auto dest!: spec [of _ "Suc (l - 1)"])
        qed (simp add: b)
      qed
      then show ?thesis using m i le b Suc by (auto intro!: exI [of _ "Suc i"])
    qed
  qed
qed auto

lemma keep_total: "foldl keep (Some b) xs \<noteq> None"
  by (induction xs arbitrary: b) (simp_all add: keep_def)

end

lemma compare_bytes_sign: "compare_bytes s t = sign_of s t"
  by (induction s t rule: compare_bytes.induct) (auto simp: sign_of_def less_char_def)

lemma compareInt_sign: "compareInt a b = sign_of a b"
  by (auto simp: compareInt_def sign_of_def)

lemma comparePreIdent_sign: "comparePreIdent a b = sign_of (ident_rank a) (ident_rank b)"
  by (auto simp: comparePreIdent_def ident_rank_def compareInt_sign compare_bytes_sign sign_of_def less_ident_key_def)

lemma find_sign:
  "(case find (\<lambda>c. c \<noteq> 0) (map (\<lambda>(x, y). comparePreIdent x y) (zip a b)) of
      Some c \<Rightarrow> c | None \<Rightarrow> compareInt (int (length a)) (int (length b))) =
    sign_of (map ident_rank a) (map ident_rank b)"
proof (induction a arbitrary: b)
  case Nil
  then show ?case by (cases b) (auto simp: compareInt_def sign_of_def)
next
  case (Cons x a)
  show ?case
  proof (cases b)
    case Nil
    then show ?thesis by (auto simp: compareInt_def sign_of_def)
  next
    case (Cons y c)
    from Cons.IH [of c] show ?thesis
      by (auto simp: Cons comparePreIdent_sign sign_of_def compareInt_def split: option.splits if_splits)
  qed
qed

lemma comparePre_sign: "comparePre a b = sign_of (a = [], map ident_rank a) (b = [], map ident_rank b)"
  using find_sign [of a b] by (auto simp: comparePre_def sign_of_def)

lemma Compare_precedence: "Compare v w = sign_of (precedence v) (precedence w)"
  by (auto simp: Compare_def precedence_def compareInt_sign comparePre_sign sign_of_def)

interpretation versions: ranking Compare precedence
  by unfold_locales (rule Compare_precedence)

lemma better_keep: "better = versions.keep"
  by (simp add: better_def versions.keep_def fun_eq_iff)

section \<open>Printing a version\<close>

definition ident_ok :: "pre_ident \<Rightarrow> bool" where
  "ident_ok p \<longleftrightarrow> pi_s p \<noteq> [] \<and> (\<forall>c \<in> set (pi_s p). is_digit c \<or> is_lower c \<or> is_upper c \<or> c = CHR ''-'') \<and>
     (pi_numeric p \<longleftrightarrow> (\<forall>c \<in> set (pi_s p). is_digit c)) \<and>
     (if pi_numeric p then pi_n p = int (nat_of_digits (pi_s p)) \<and> pi_n p < 2 ^ 63 else pi_n p = 0)"

lemma ident_char:
  assumes "ident_ok p" "c \<in> set (pi_s p)"
  shows "44 < byte c" "byte c < 123" "c \<noteq> CHR ''.''"
proof -
  from assms have "is_digit c \<or> is_lower c \<or> is_upper c \<or> c = CHR ''-''" unfolding ident_ok_def by blast
  then show "44 < byte c" "byte c < 123" "c \<noteq> CHR ''.''"
    unfolding is_digit_def is_lower_def is_upper_def by auto
qed

definition dotted :: "version \<Rightarrow> string" where
  "dotted v = join_with ''.'' [show_nat (nat (major v)), show_nat (nat (minor v)), show_nat (nat (patch v))]"

definition render_tag :: "version \<Rightarrow> string" where
  "render_tag v = ''schema-v'' @ dotted v
     @ (if v_pre v = [] then [] else ''-'' @ join_with ''.'' (map pi_s (v_pre v)))"

definition version_ok :: "version \<Rightarrow> bool" where
  "version_ok v \<longleftrightarrow> 0 \<le> major v \<and> major v < 2 ^ 63 \<and> 0 \<le> minor v \<and> minor v < 2 ^ 63 \<and> 0 \<le> patch v \<and> patch v < 2 ^ 63 \<and>
     list_all ident_ok (v_pre v) \<and> v_raw v = render_tag v"

lemma runes_ascii: "\<forall>c \<in> set s. byte c < 128 \<Longrightarrow> runes tab s = map (\<lambda>c. ([c], ascii_class c)) s"
proof (induction s)
  case Nil
  show ?case by (subst runes.simps) simp
next
  case (Cons c s)
  then show ?case by (subst runes.simps) simp
qed

lemma digit_ascii: "is_digit c \<Longrightarrow> byte c < 128" "is_lower c \<Longrightarrow> byte c < 128" "is_upper c \<Longrightarrow> byte c < 128"
  by (auto simp: is_digit_def is_lower_def is_upper_def)

lemma parse_int64_digits:
  assumes "s \<noteq> []" "\<forall>c \<in> set s. is_digit c" "nat_of_digits s < 2 ^ 63"
  shows "parse_int64 s = Some (int (nat_of_digits s))"
proof -
  have "s = c # r \<Longrightarrow> c \<noteq> CHR ''-''" for c r using assms(2) by (auto simp: is_digit_def)
  then have "(case s of CHR ''-'' # r \<Rightarrow> (True, r) | _ \<Rightarrow> (False, s)) = (False, s)"
    by (auto split: list.split char.split bool.split)
  moreover have "int (nat_of_digits s) < 2 ^ 63" using assms(3) by simp
  ultimately show ?thesis using assms(1,2) by (simp add: parse_int64_def list_all_iff)
qed

lemma parseVersionNumber_show:
  assumes "0 \<le> n" "n < 2 ^ 63"
  shows "parseVersionNumber tab (show_nat (nat n)) = Some n"
proof -
  let ?s = "show_nat (nat n)"
  have d: "\<forall>c \<in> set ?s. is_digit c" using show_nat_digits by blast
  then have "runes tab ?s = map (\<lambda>c. ([c], ascii_class c)) ?s" by (intro runes_ascii) (auto intro: digit_ascii)
  moreover have "parse_int64 ?s = Some (int (nat n))" using d assms by (subst parse_int64_digits) auto
  ultimately show ?thesis using d assms(1) by (auto simp: parseVersionNumber_def list_ex_iff ascii_class_def)
qed

lemma parsePreIdent_ok:
  assumes "ident_ok p"
  shows "parsePreIdent tab (pi_s p) = Some p"
proof -
  have asc: "\<forall>c \<in> set (pi_s p). byte c < 128"
    using assms by (auto simp: ident_ok_def intro: digit_ascii)
  note rs = runes_ascii [OF asc, of tab]
  have "\<not> list_ex (\<lambda>r. snd r = ROther \<and> fst r \<noteq> ''-'') (runes tab (pi_s p))"
    using assms by (auto simp: rs list_ex_iff ascii_class_def ident_ok_def)
  moreover have "list_all (\<lambda>r. snd r = RDigit) (runes tab (pi_s p)) = pi_numeric p"
    using assms by (auto simp: rs list_all_iff ascii_class_def ident_ok_def split: if_splits)
  moreover have "pi_numeric p \<Longrightarrow> parse_int64 (pi_s p) = Some (pi_n p)"
    using assms by (subst parse_int64_digits) (auto simp: ident_ok_def split: if_splits)
  ultimately show ?thesis using assms by (auto simp: parsePreIdent_def ident_ok_def Let_def split: if_splits)
qed

lemma parse_idents_ok: "list_all ident_ok ps \<Longrightarrow> parse_idents tab (map pi_s ps) = Some ps"
  by (induction ps) (simp_all add: parsePreIdent_ok)

lemma split_on_fresh: "c \<notin> set p \<Longrightarrow> split_on c p = [p]"
  by (induction p) auto

lemma split_on_append: "c \<notin> set p \<Longrightarrow> split_on c (p @ c # r) = p # split_on c r"
  by (induction p) auto

lemma split_join: "ps \<noteq> [] \<Longrightarrow> \<forall>p \<in> set ps. c \<notin> set p \<Longrightarrow> split_on c (join_with [c] ps) = ps"
proof (induction ps)
  case (Cons p ps)
  then show ?case by (cases "ps = []") (simp_all add: split_on_fresh split_on_append join_with_Cons)
qed simp

lemma cut_at_fresh: "c \<notin> set p \<Longrightarrow> cut_at c p = (p, [], False)"
  by (induction p) auto

lemma cut_at_append: "c \<notin> set p \<Longrightarrow> cut_at c (p @ c # r) = (p, r, True)"
  by (induction p) auto

lemma join_with_set: "c \<in> set (join_with sep ps) \<Longrightarrow> c \<in> set sep \<or> (\<exists>p \<in> set ps. c \<in> set p)"
  by (induction sep ps rule: join_with.induct) auto

lemma dotted_chars: "c \<in> set (dotted v) \<Longrightarrow> is_digit c \<or> c = CHR ''.''"
  unfolding dotted_def by (drule join_with_set) (auto dest: show_nat_digits)

lemma render_chars:
  assumes "version_ok v" "c \<in> set (render_tag v)"
  shows "32 < byte c \<and> byte c < 127"
proof -
  have "c \<in> set ''schema-v.'' \<or> is_digit c \<or> (\<exists>p \<in> set (v_pre v). c \<in> set (pi_s p))"
    using assms(2) by (auto simp: render_tag_def dest!: dotted_chars join_with_set split: if_splits)
  moreover have "44 < byte c" "byte c < 123" if "p \<in> set (v_pre v)" "c \<in> set (pi_s p)" for p
    using ident_char that assms(1) by (auto simp: version_ok_def list_all_iff)
  ultimately show ?thesis by (force simp: is_digit_def)
qed

lemma parse_render:
  assumes "version_ok v"
  shows "parseTag tab (render_tag v) = Inr v"
proof -
  let ?pre = "join_with ''.'' (map pi_s (v_pre v))"
  have ne: "render_tag v \<noteq> []" by (simp add: render_tag_def)
  have trim: "trim_space (render_tag v) = render_tag v"
    using render_chars [OF assms] ne by (intro trim_space_visible) auto
  have fresh: "CHR ''-'' \<notin> set (dotted v)" using dotted_chars [of "CHR ''-''" v] by (auto simp: is_digit_def)
  have dots: "\<forall>p \<in> set [show_nat (nat (major v)), show_nat (nat (minor v)), show_nat (nat (patch v))]. CHR ''.'' \<notin> set p"
    using show_nat_digits [of "CHR ''.''"] by (auto simp: is_digit_def)
  have core: "split_on (CHR ''.'') (dotted v) = [show_nat (nat (major v)), show_nat (nat (minor v)), show_nat (nat (patch v))]"
    unfolding dotted_def by (rule split_join) (use dots in simp_all)
  have rest: "trim_prefix (trim_prefix (render_tag v) ''schema-'') ''v'' = dotted v @ (if v_pre v = [] then [] else ''-'' @ ?pre)"
  proof -
    let ?t = "dotted v @ (if v_pre v = [] then [] else ''-'' @ ?pre)"
    have "render_tag v = ''schema-'' @ (''v'' @ ?t)" by (simp add: render_tag_def)
    then show ?thesis by (simp only: trim_prefix_append)
  qed
  have nums: "parseVersionNumber tab (show_nat (nat (major v))) = Some (major v)"
    "parseVersionNumber tab (show_nat (nat (minor v))) = Some (minor v)"
    "parseVersionNumber tab (show_nat (nat (patch v))) = Some (patch v)"
    using assms by (simp_all add: version_ok_def parseVersionNumber_show)
  show ?thesis
  proof (cases "v_pre v = []")
    case True
    then have "cut_at (CHR ''-'') (dotted v @ (if v_pre v = [] then [] else ''-'' @ ?pre)) = (dotted v, [], False)"
      using fresh by (simp add: cut_at_fresh)
    then show ?thesis
      using assms True by (simp add: parseTag_def trim ne Let_def rest core nums version_ok_def)
  next
    case False
    have cut: "cut_at (CHR ''-'') (dotted v @ (if v_pre v = [] then [] else ''-'' @ ?pre)) = (dotted v, ?pre, True)"
      using fresh False by (simp add: cut_at_append)
    have "\<forall>p \<in> set (map pi_s (v_pre v)). CHR ''.'' \<notin> set p"
      using assms ident_char(3) by (auto simp: version_ok_def list_all_iff)
    then have sp: "split_on (CHR ''.'') ?pre = map pi_s (v_pre v)" using False by (intro split_join) auto
    have ids: "parse_idents tab (map pi_s (v_pre v)) = Some (v_pre v)"
      using assms by (intro parse_idents_ok) (simp add: version_ok_def)
    have "?pre \<noteq> []"
    proof
      assume "?pre = []"
      then have "map pi_s (v_pre v) = [[]]" using sp by simp
      then show False using assms by (auto simp: version_ok_def list_all_iff ident_ok_def map_eq_Cons_conv)
    qed
    then show ?thesis
      using assms by (simp add: parseTag_def trim ne Let_def rest cut core nums sp ids version_ok_def)
  qed
qed

lemma latest_tag_facts:
  "case latestTag tab tags include of
     Inl e \<Rightarrow> e = NoMatchingTags \<and> candidates tab include tags = []
   | Inr t \<Rightarrow> \<exists>i < length (candidates tab include tags). v_raw (candidates tab include tags ! i) = t \<and>
       list_all (\<lambda>v. precedence v \<le> precedence (candidates tab include tags ! i)) (candidates tab include tags) \<and>
       list_all (\<lambda>v. precedence v < precedence (candidates tab include tags ! i)) (take i (candidates tab include tags))"
proof (cases "candidates tab include tags")
  case Nil
  then show ?thesis by (simp add: latestTag_def)
next
  case (Cons v vs)
  let ?vs = "candidates tab include tags"
  have "foldl better None ?vs = foldl versions.keep (Some v) vs"
    by (simp add: Cons better_keep) (simp add: versions.keep_def)
  then obtain m where m: "foldl better None ?vs = Some m" "foldl versions.keep (Some v) vs = Some m"
    using versions.keep_total [of v vs] by auto
  from versions.keep_Some [OF m(2)] obtain i where i: "\<forall>x \<in> insert v (set vs). precedence x \<le> precedence m"
    "i \<le> length vs" "(v # vs) ! i = m" "\<forall>j < i. precedence ((v # vs) ! j) < precedence m" by blast
  have "list_all (\<lambda>v. precedence v < precedence m) (take i ?vs)"
    unfolding Cons list_all_length using i(2,4) by simp
  moreover have "list_all (\<lambda>v. precedence v \<le> precedence m) ?vs" using i(1) by (simp add: Cons list_all_iff)
  ultimately have "\<exists>i < length ?vs. v_raw (?vs ! i) = v_raw m \<and>
       list_all (\<lambda>v. precedence v \<le> precedence (?vs ! i)) ?vs \<and> list_all (\<lambda>v. precedence v < precedence (?vs ! i)) (take i ?vs)"
    using i(2,3) by (intro exI [of _ i]) (simp add: Cons)
  then show ?thesis by (simp add: latestTag_def m(1))
qed

section \<open>Properties\<close>

text \<open>C24: \<open>Compare\<close> is the three-way comparison of the precedence of semantic versioning, a linear
  order: releases above their pre-releases, identifiers from left to right, numbers below
  names. So it is antisymmetric, transitive and zero only on equal precedence.\<close>

theorem compare_is_precedence:
  "Compare v w = (if precedence v < precedence w then -1 else if precedence v = precedence w then 0 else 1)"
  by (simp add: Compare_precedence sign_of_def)

text \<open>C25: \<open>latestTag\<close> fails exactly when no tag parses and is wanted; otherwise it returns the text of
  the first tag whose precedence is the greatest among those.\<close>

theorem latest_tag_is_greatest:
  "case latestTag tab tags include of
     Inl e \<Rightarrow> e = NoMatchingTags \<and> candidates tab include tags = []
   | Inr t \<Rightarrow> \<exists>i < length (candidates tab include tags). v_raw (candidates tab include tags ! i) = t \<and>
       list_all (\<lambda>v. precedence v \<le> precedence (candidates tab include tags ! i)) (candidates tab include tags) \<and>
       list_all (\<lambda>v. precedence v < precedence (candidates tab include tags ! i)) (take i (candidates tab include tags))"
  by (rule latest_tag_facts)

text \<open>A version printed as a tag of the schema repository parses back to the same version.\<close>

lemma tag_roundtrip:
  assumes "version_ok v"
  shows "parseTag tab (render_tag v) = Inr v"
  using assms by (rule parse_render)

lemma tag_roundtrip_witness:
  "parseTag (\<lambda>_. ROther) ''schema-v2.0.0-beta.11'' =
     Inr \<lparr>major = 2, minor = 0, patch = 0,
          v_pre = [\<lparr>pi_numeric = False, pi_n = 0, pi_s = ''beta''\<rparr>, \<lparr>pi_numeric = True, pi_n = 11, pi_s = ''11''\<rparr>],
          v_raw = ''schema-v2.0.0-beta.11''\<rparr>"
proof -
  let ?v = "\<lparr>major = 2, minor = 0, patch = 0,
          v_pre = [\<lparr>pi_numeric = False, pi_n = 0, pi_s = ''beta''\<rparr>, \<lparr>pi_numeric = True, pi_n = 11, pi_s = ''11''\<rparr>],
          v_raw = ''schema-v2.0.0-beta.11''\<rparr>"
  have r: "render_tag ?v = ''schema-v2.0.0-beta.11''" by code_simp
  have "version_ok ?v" by code_simp
  from tag_roundtrip [OF this] show ?thesis unfolding r .
qed

end
