(* ===== verification/Drift.thy ===== *)
theory Drift
  imports Version Frame
begin

text \<open>
  \<open>cmd/upstreamdrift/check.go\<close>: the lock of the upstream pins and its validation, the comparison
  with the other lock files of the repository, the query for newer releases, and the report.

  Three things come from outside: \<open>files\<close> reads a file, given by the elements of its path;
  \<open>url\<close> is \<open>url.Parse\<close>, giving scheme, host and path; \<open>http\<close> performs a GET request with its
  headers. The Unicode tables are \<open>tab\<close>, as in theory \<open>Version\<close>.
\<close>

section \<open>Data\<close>

record sdk_lock =
  Repository :: string
  Tag :: string
  Commit :: string

record protocol_lock =
  p_Repository :: string
  StableTag :: string
  StableCommit :: string
  V2Tag :: string
  V2Commit :: string

record upstream_lock =
  Protocol :: protocol_lock
  TypeScriptSDK :: sdk_lock
  RustSDK :: sdk_lock

record interop_lock =
  TypeScript :: sdk_lock
  Rust :: sdk_lock

record drift_finding =
  Source :: string
  Name :: string
  Pinned :: string
  Latest :: string
  URL :: string

record drift_report =
  Status :: string
  IssueTitle :: string
  IssueBody :: string
  Findings :: "drift_finding list"

datatype drift_error =
    BadTag tag_error
  | BadRepoURL string
  | BadRepoForm
  | BadCommit
  | AtField string drift_error
  | PinMismatch string
  | FileError go_error
  | JsonError string
  | HttpError go_error
  | BodyTooLarge string
  | BadStatus string string string

section \<open>Decoding structs\<close>

text \<open>The fields of a struct with what their decoding does to it.\<close>

type_synonym 's fields = "(string \<times> (json \<Rightarrow> 's \<Rightarrow> 's option)) list"

definition decode_fields :: "'s fields \<Rightarrow> json \<Rightarrow> 's \<Rightarrow> 's option" where
  "decode_fields fs v s =
     (case v of
        JNull \<Rightarrow> Some s
      | JObj ms \<Rightarrow>
          decode_members (\<lambda>s m. case m of (k, r, x) \<Rightarrow>
             (case match_field (map fst fs) k of
                None \<Rightarrow> Some s
              | Some f \<Rightarrow> (case map_of fs f of None \<Rightarrow> Some s | Some d \<Rightarrow> d x s))) s ms
      | _ \<Rightarrow> None)"

definition text_field :: "('s \<Rightarrow> string) \<Rightarrow> (string \<Rightarrow> 's \<Rightarrow> 's) \<Rightarrow> json \<Rightarrow> 's \<Rightarrow> 's option" where
  "text_field get put v s = map_option (\<lambda>t. put t s) (decode_string_field (get s) v)"

definition sdk_fields :: "sdk_lock fields" where
  "sdk_fields =
     [(''repository'', text_field Repository (\<lambda>t s. s\<lparr>Repository := t\<rparr>)),
      (''tag'', text_field Tag (\<lambda>t s. s\<lparr>Tag := t\<rparr>)),
      (''commit'', text_field Commit (\<lambda>t s. s\<lparr>Commit := t\<rparr>))]"

definition protocol_fields :: "protocol_lock fields" where
  "protocol_fields =
     [(''repository'', text_field p_Repository (\<lambda>t s. s\<lparr>p_Repository := t\<rparr>)),
      (''stableTag'', text_field StableTag (\<lambda>t s. s\<lparr>StableTag := t\<rparr>)),
      (''stableCommit'', text_field StableCommit (\<lambda>t s. s\<lparr>StableCommit := t\<rparr>)),
      (''v2Tag'', text_field V2Tag (\<lambda>t s. s\<lparr>V2Tag := t\<rparr>)),
      (''v2Commit'', text_field V2Commit (\<lambda>t s. s\<lparr>V2Commit := t\<rparr>))]"

definition upstream_fields :: "upstream_lock fields" where
  "upstream_fields =
     [(''protocol'', \<lambda>v s. map_option (\<lambda>x. s\<lparr>Protocol := x\<rparr>) (decode_fields protocol_fields v (Protocol s))),
      (''typescriptSdk'', \<lambda>v s. map_option (\<lambda>x. s\<lparr>TypeScriptSDK := x\<rparr>) (decode_fields sdk_fields v (TypeScriptSDK s))),
      (''rustSdk'', \<lambda>v s. map_option (\<lambda>x. s\<lparr>RustSDK := x\<rparr>) (decode_fields sdk_fields v (RustSDK s)))]"

definition interop_fields :: "interop_lock fields" where
  "interop_fields =
     [(''typescript'', \<lambda>v s. map_option (\<lambda>x. s\<lparr>TypeScript := x\<rparr>) (decode_fields sdk_fields v (TypeScript s))),
      (''rust'', \<lambda>v s. map_option (\<lambda>x. s\<lparr>Rust := x\<rparr>) (decode_fields sdk_fields v (Rust s)))]"

definition zero_sdk :: sdk_lock where
  "zero_sdk = \<lparr>Repository = [], Tag = [], Commit = []\<rparr>"

definition zero_lock :: upstream_lock where
  "zero_lock =
     \<lparr>Protocol = \<lparr>p_Repository = [], StableTag = [], StableCommit = [], V2Tag = [], V2Commit = []\<rparr>,
      TypeScriptSDK = zero_sdk, RustSDK = zero_sdk\<rparr>"

definition unmarshal_struct :: "'s fields \<Rightarrow> 's \<Rightarrow> string \<Rightarrow> 's option" where
  "unmarshal_struct fs s text =
     (case parse_json text of None \<Rightarrow> None | Some (_, v) \<Rightarrow> decode_fields fs v s)"

section \<open>Validation\<close>

definition parseGitHubRepo :: "(string \<Rightarrow> (string \<times> string \<times> string) option) \<Rightarrow> string \<Rightarrow> drift_error + string \<times> string" where
  "parseGitHubRepo url repository =
     (case url repository of
        None \<Rightarrow> Inl (BadRepoURL repository)
      | Some (scheme, host, path) \<Rightarrow>
          if scheme \<noteq> ''https'' \<or> host \<noteq> ''github.com'' then Inl BadRepoForm
          else (case split_on (CHR ''/'') (trim_right_char (CHR ''/'') (trim_left_char (CHR ''/'') path)) of
                  [owner, repo] \<Rightarrow>
                    if owner = [] \<or> repo = [] then Inl BadRepoForm else Inr (owner, trim_suffix repo ''.git'')
                | _ \<Rightarrow> Inl BadRepoForm))"

definition requireGitHubRepo :: "(string \<Rightarrow> (string \<times> string \<times> string) option) \<Rightarrow> string \<Rightarrow> string \<Rightarrow> drift_error option" where
  "requireGitHubRepo url f repository =
     (case parseGitHubRepo url repository of Inl e \<Rightarrow> Some (AtField f e) | Inr _ \<Rightarrow> None)"

definition requireTag :: "(string \<Rightarrow> rune_class) \<Rightarrow> string \<Rightarrow> string \<Rightarrow> drift_error option" where
  "requireTag tab f tag = (case parseTag tab tag of Inl e \<Rightarrow> Some (AtField f (BadTag e)) | Inr _ \<Rightarrow> None)"

definition commit_char :: "char \<Rightarrow> bool" where
  "commit_char c \<longleftrightarrow> is_digit c \<or> (97 \<le> byte c \<and> byte c \<le> 102)"

definition requireCommit :: "string \<Rightarrow> string \<Rightarrow> drift_error option" where
  "requireCommit f commit =
     (if length commit \<noteq> 40 then Some (AtField f BadCommit)
      else if list_all commit_char commit then None else Some (AtField f BadCommit))"

text \<open>The first error of a sequence of checks.\<close>

fun first_error :: "'e option list \<Rightarrow> 'e option" where
  "first_error [] = None"
| "first_error (None # es) = first_error es"
| "first_error (Some e # es) = Some e"

definition validateSDKLock :: "(string \<Rightarrow> (string \<times> string \<times> string) option) \<Rightarrow> (string \<Rightarrow> rune_class) \<Rightarrow> string \<Rightarrow>
    sdk_lock \<Rightarrow> drift_error option" where
  "validateSDKLock url tab f lock =
     first_error
       [requireGitHubRepo url (f @ ''.repository'') (Repository lock),
        requireTag tab (f @ ''.tag'') (Tag lock),
        requireCommit (f @ ''.commit'') (Commit lock)]"

definition validateLock :: "(string \<Rightarrow> (string \<times> string \<times> string) option) \<Rightarrow> (string \<Rightarrow> rune_class) \<Rightarrow>
    upstream_lock \<Rightarrow> drift_error option" where
  "validateLock url tab lock =
     first_error
       [requireGitHubRepo url ''protocol.repository'' (p_Repository (Protocol lock)),
        requireTag tab ''protocol.stableTag'' (StableTag (Protocol lock)),
        requireCommit ''protocol.stableCommit'' (StableCommit (Protocol lock)),
        requireTag tab ''protocol.v2Tag'' (V2Tag (Protocol lock)),
        requireCommit ''protocol.v2Commit'' (V2Commit (Protocol lock)),
        validateSDKLock url tab ''typescriptSdk'' (TypeScriptSDK lock),
        validateSDKLock url tab ''rustSdk'' (RustSDK lock)]"

definition loadLock :: "(string list \<Rightarrow> go_error + string) \<Rightarrow> (string \<Rightarrow> (string \<times> string \<times> string) option) \<Rightarrow>
    (string \<Rightarrow> rune_class) \<Rightarrow> string \<Rightarrow> drift_error + upstream_lock" where
  "loadLock files url tab path =
     (case files [path] of
        Inl e \<Rightarrow> Inl (AtField ''read upstream lock'' (FileError e))
      | Inr text \<Rightarrow>
          (case unmarshal_struct upstream_fields zero_lock text of
             None \<Rightarrow> Inl (AtField ''parse upstream lock'' (JsonError text))
           | Some lock \<Rightarrow> (case validateLock url tab lock of Some e \<Rightarrow> Inl e | None \<Rightarrow> Inr lock)))"

section \<open>The other lock files\<close>

definition readJSON :: "(string list \<Rightarrow> go_error + string) \<Rightarrow> string list \<Rightarrow> 's fields \<Rightarrow> 's \<Rightarrow> drift_error + 's" where
  "readJSON files path fs s =
     (case files path of
        Inl e \<Rightarrow> Inl (FileError e)
      | Inr text \<Rightarrow> (case unmarshal_struct fs s text of None \<Rightarrow> Inl (JsonError text) | Some x \<Rightarrow> Inr x))"

definition checkLocal :: "(string list \<Rightarrow> go_error + string) \<Rightarrow> string \<Rightarrow> upstream_lock \<Rightarrow> drift_error option" where
  "checkLocal files repoRoot lock =
     (case readJSON files [repoRoot, ''schema'', ''lock.json''] sdk_fields zero_sdk of
        Inl e \<Rightarrow> Some (AtField ''read schema lock'' e)
      | Inr schema \<Rightarrow>
          if Repository schema \<noteq> p_Repository (Protocol lock) \<or> Tag schema \<noteq> StableTag (Protocol lock) \<or>
             Commit schema \<noteq> StableCommit (Protocol lock)
          then Some (PinMismatch ''upstream protocol stable pin does not match schema/lock.json'')
          else (case readJSON files [repoRoot, ''interop'', ''versions.json''] interop_fields
                       \<lparr>TypeScript = zero_sdk, Rust = zero_sdk\<rparr> of
                  Inl e \<Rightarrow> Some (AtField ''read interop versions'' e)
                | Inr interop \<Rightarrow>
                    if Repository (TypeScript interop) \<noteq> Repository (TypeScriptSDK lock) \<or>
                       Tag (TypeScript interop) \<noteq> Tag (TypeScriptSDK lock) \<or>
                       Commit (TypeScript interop) \<noteq> Commit (TypeScriptSDK lock)
                    then Some (PinMismatch ''upstream TypeScript pin does not match interop/versions.json'')
                    else if Repository (Rust interop) \<noteq> Repository (RustSDK lock) \<or>
                       Tag (Rust interop) \<noteq> Tag (RustSDK lock) \<or> Commit (Rust interop) \<noteq> Commit (RustSDK lock)
                    then Some (PinMismatch ''upstream Rust pin does not match interop/versions.json'')
                    else None))"

section \<open>The releases\<close>

record http_response =
  resp_code :: int
  resp_status :: string
  resp_body :: string
  resp_read :: "go_error option"
  resp_close :: "go_error option"

record github_client =
  gh_http :: "string \<Rightarrow> (string \<times> string) list \<Rightarrow> go_error + http_response"
  gh_base :: string
  gh_token :: string

definition maxGitHubBody :: int where "maxGitHubBody = 2 ^ 20"

definition request_headers :: "string \<Rightarrow> (string \<times> string) list" where
  "request_headers token =
     [(''Accept'', ''application/vnd.github+json''), (''X-GitHub-Api-Version'', ''2022-11-28''),
      (''User-Agent'', ''caelis-labs-acp-go-sdk-upstreamdrift'')]
     @ (if token \<noteq> [] then [(''Authorization'', ''Bearer '' @ token)] else [])"

text \<open>\<open>getJSON\<close>; \<open>decode\<close> is \<open>json.Unmarshal\<close> into the destination.\<close>

definition getJSON :: "github_client \<Rightarrow> string \<Rightarrow> (string \<Rightarrow> 'd option) \<Rightarrow> drift_error + 'd" where
  "getJSON gh path decode =
     (case gh_http gh (trim_right_char (CHR ''/'') (gh_base gh) @ path) (request_headers (gh_token gh)) of
        Inl e \<Rightarrow> Inl (HttpError e)
      | Inr resp \<Rightarrow>
          (let body = take (nat maxGitHubBody + 1) (resp_body resp)
           in case resp_read resp of
                Some e \<Rightarrow> Inl (AtField (''read '' @ path) (HttpError e))
              | None \<Rightarrow>
                  (case resp_close resp of
                     Some e \<Rightarrow> Inl (AtField (''close '' @ path) (HttpError e))
                   | None \<Rightarrow>
                       if int (length body) > maxGitHubBody then Inl (BodyTooLarge path)
                       else if resp_code resp \<noteq> 200 then Inl (BadStatus path (resp_status resp) (trim_space body))
                       else (case decode body of
                               None \<Rightarrow> Inl (AtField (''decode '' @ path) (JsonError body))
                             | Some d \<Rightarrow> Inr d))))"

text \<open>\<open>url.PathEscape\<close>.\<close>

definition path_char :: "char \<Rightarrow> bool" where
  "path_char c \<longleftrightarrow> is_digit c \<or> is_lower c \<or> is_upper c \<or> c \<in> set ''-_.~$&+:=@''"

definition hex_upper :: "nat \<Rightarrow> char" where
  "hex_upper n = (if n < 10 then digit_char n else char_of (55 + n))"

definition PathEscape :: "string \<Rightarrow> string" where
  "PathEscape s =
     concat (map (\<lambda>c. if path_char c then [c] else [CHR ''%'', hex_upper (byte c div 16), hex_upper (byte c mod 16)]) s)"

text \<open>The bodies: a list of refs, and a release.\<close>

fun decode_refs :: "(string \<times> json) list \<Rightarrow> string list option" where
  "decode_refs [] = Some []"
| "decode_refs ((_, v) # xs) =
     (case decode_fields [(''ref'', text_field id (\<lambda>t s. t))] v [] of
        None \<Rightarrow> None
      | Some r \<Rightarrow> map_option ((#) r) (decode_refs xs))"

definition unmarshal_refs :: "string \<Rightarrow> string list option" where
  "unmarshal_refs text =
     (case parse_json text of
        Some (_, JArr xs) \<Rightarrow> decode_refs xs
      | Some (_, JNull) \<Rightarrow> Some []
      | _ \<Rightarrow> None)"

definition repo_path :: "string \<Rightarrow> string \<Rightarrow> string" where
  "repo_path owner repo = ''/repos/'' @ PathEscape owner @ ''/'' @ PathEscape repo"

definition latestSchemaTag :: "github_client \<Rightarrow> (string \<Rightarrow> (string \<times> string \<times> string) option) \<Rightarrow> (string \<Rightarrow> rune_class) \<Rightarrow>
    string \<Rightarrow> string \<Rightarrow> (version \<Rightarrow> bool) option \<Rightarrow> drift_error + string" where
  "latestSchemaTag gh url tab repository pfx include =
     (case parseGitHubRepo url repository of
        Inl e \<Rightarrow> Inl e
      | Inr (owner, repo) \<Rightarrow>
          (case getJSON gh (repo_path owner repo @ ''/git/matching-refs/tags/'' @ pfx) unmarshal_refs of
             Inl e \<Rightarrow> Inl e
           | Inr refs \<Rightarrow>
               (case latestTag tab (map (\<lambda>r. trim_prefix r ''refs/tags/'') refs) include of
                  Inl e \<Rightarrow> Inl (BadTag e)
                | Inr t \<Rightarrow> Inr t)))"

definition latestReleaseTag :: "github_client \<Rightarrow> (string \<Rightarrow> (string \<times> string \<times> string) option) \<Rightarrow> (string \<Rightarrow> rune_class) \<Rightarrow>
    string \<Rightarrow> drift_error + string" where
  "latestReleaseTag gh url tab repository =
     (case parseGitHubRepo url repository of
        Inl e \<Rightarrow> Inl e
      | Inr (owner, repo) \<Rightarrow>
          (case getJSON gh (repo_path owner repo @ ''/releases/latest'')
                  (unmarshal_struct [(''tag_name'', text_field id (\<lambda>t s. t))] []) of
             Inl e \<Rightarrow> Inl e
           | Inr tag \<Rightarrow>
               (case parseTag tab tag of
                  Inl e \<Rightarrow> Inl (AtField (''latest release tag '' @ tag) (BadTag e))
                | Inr _ \<Rightarrow> Inr tag)))"

section \<open>Findings and the report\<close>

definition appendFinding :: "(string \<Rightarrow> rune_class) \<Rightarrow> drift_finding list \<Rightarrow> drift_finding \<Rightarrow> drift_finding list" where
  "appendFinding tab findings item =
     (case parseTag tab (Pinned item) of
        Inl e \<Rightarrow> findings @ [item]
      | Inr pinned \<Rightarrow>
          (case parseTag tab (Latest item) of
             Inl e \<Rightarrow> findings @ [item]
           | Inr latest \<Rightarrow> if Compare latest pinned > 0 then findings @ [item] else findings))"

definition releaseURL :: "string \<Rightarrow> string \<Rightarrow> string" where
  "releaseURL repository tag = trim_right_char (CHR ''/'') repository @ ''/releases/tag/'' @ tag"

definition stable_tag :: "version \<Rightarrow> bool" where
  "stable_tag v \<longleftrightarrow> has_prefix (v_raw v) ''schema-v1.'' \<and> v_pre v = []"

definition v2_tag :: "version \<Rightarrow> bool" where
  "v2_tag v \<longleftrightarrow> has_prefix (v_raw v) ''schema-v2.''"

definition checkRemote :: "github_client \<Rightarrow> (string \<Rightarrow> (string \<times> string \<times> string) option) \<Rightarrow> (string \<Rightarrow> rune_class) \<Rightarrow>
    upstream_lock \<Rightarrow> drift_error + drift_finding list" where
  "checkRemote gh url tab lock =
     (case latestSchemaTag gh url tab (p_Repository (Protocol lock)) ''schema-v1'' (Some stable_tag) of
        Inl e \<Rightarrow> Inl (AtField ''stable schema'' e)
      | Inr stable_latest \<Rightarrow>
     (let f1 = appendFinding tab [] \<lparr>Source = ''protocolStable'', Name = ''stable-schema'',
            Pinned = StableTag (Protocol lock), Latest = stable_latest, URL = releaseURL (p_Repository (Protocol lock)) stable_latest\<rparr>
      in case latestSchemaTag gh url tab (p_Repository (Protocol lock)) ''schema-v2'' (Some v2_tag) of
        Inl e \<Rightarrow> Inl (AtField ''v2 schema'' e)
      | Inr v2 \<Rightarrow>
     (let f2 = appendFinding tab f1 \<lparr>Source = ''protocolV2'', Name = ''v2-schema'',
            Pinned = V2Tag (Protocol lock), Latest = v2, URL = releaseURL (p_Repository (Protocol lock)) v2\<rparr>
      in case latestReleaseTag gh url tab (Repository (TypeScriptSDK lock)) of
        Inl e \<Rightarrow> Inl (AtField ''typescript SDK'' e)
      | Inr typescript \<Rightarrow>
     (let f3 = appendFinding tab f2 \<lparr>Source = ''typescriptSdk'', Name = ''typescript-sdk'',
            Pinned = Tag (TypeScriptSDK lock), Latest = typescript,
            URL = releaseURL (Repository (TypeScriptSDK lock)) typescript\<rparr>
      in case latestReleaseTag gh url tab (Repository (RustSDK lock)) of
        Inl e \<Rightarrow> Inl (AtField ''rust SDK'' e)
      | Inr rust \<Rightarrow>
          Inr (appendFinding tab f3 \<lparr>Source = ''rustSdk'', Name = ''rust-sdk'',
            Pinned = Tag (RustSDK lock), Latest = rust, URL = releaseURL (Repository (RustSDK lock)) rust\<rparr>)))))"

definition issueTitle :: "drift_finding list \<Rightarrow> string" where
  "issueTitle findings =
     (case findings of
        [f] \<Rightarrow> ''upstream-drift: '' @ Name f @ '' '' @ Latest f @ '' available; pinned '' @ Pinned f
      | _ \<Rightarrow> ''upstream-drift: '' @ join_with '', '' (map (\<lambda>f. Name f @ '' '' @ Latest f) findings) @ '' available'')"

definition issueBody :: "drift_finding list \<Rightarrow> string" where
  "issueBody findings =
     ''Automated upstream drift check found newer official releases than the pins in `upstream/lock.json`.'' @ [newline, newline]
     @ ''| Source | Pinned | Latest |'' @ [newline] @ ''| --- | --- | --- |'' @ [newline]
     @ concat (map (\<lambda>f. ''| '' @ Name f @ '' | `'' @ Pinned f @ ''` | [`'' @ Latest f @ ''`]('' @ URL f @ '') |'' @ [newline]) findings)
     @ [newline] @ ''This is a tracking issue, not proof of a wire incompatibility.'' @ [newline, newline]
     @ ''- Stable schema: lock, regenerate, review, and rerun interop within one week.'' @ [newline]
     @ ''- Official SDKs: bump `interop/versions.json` and rerun the four-direction matrix even when the wire schema is unchanged.''
     @ [newline]
     @ ''- Draft v2: snapshot tagged `schema-v2*` releases only; do not merge v2 into the stable root package.'' @ [newline]"

definition buildReport :: "drift_finding list \<Rightarrow> drift_report" where
  "buildReport findings =
     (if findings = [] then \<lparr>Status = ''current'', IssueTitle = [], IssueBody = [], Findings = []\<rparr>
      else \<lparr>Status = ''drift'', IssueTitle = issueTitle findings, IssueBody = issueBody findings, Findings = findings\<rparr>)"

section \<open>The command\<close>

text \<open>
  \<open>run\<close> of \<open>main.go\<close> up to its printing, and the exit code: 1 for an error, 2 for drift.
\<close>

definition run_upstream :: "(string list \<Rightarrow> go_error + string) \<Rightarrow> (string \<Rightarrow> (string \<times> string \<times> string) option) \<Rightarrow>
    (string \<Rightarrow> rune_class) \<Rightarrow> github_client \<Rightarrow> string \<Rightarrow> string \<Rightarrow> bool \<Rightarrow> drift_error + drift_report" where
  "run_upstream files url tab gh repoRoot lockPath remote =
     (case loadLock files url tab lockPath of
        Inl e \<Rightarrow> Inl e
      | Inr lock \<Rightarrow>
          (case checkLocal files repoRoot lock of
             Some e \<Rightarrow> Inl e
           | None \<Rightarrow>
               if remote then (case checkRemote gh url tab lock of Inl e \<Rightarrow> Inl e | Inr fs \<Rightarrow> Inr (buildReport fs))
               else Inr (buildReport [])))"

definition exit_code :: "drift_error + drift_report \<Rightarrow> int" where
  "exit_code r = (case r of Inl e \<Rightarrow> 1 | Inr rep \<Rightarrow> if Status rep = ''drift'' then 2 else 0)"

section \<open>Facts about tags\<close>

lemma parseTag_raw: "parseTag tab t = Inr v \<Longrightarrow> v_raw v = trim_space t"
  by (auto simp: parseTag_def Let_def split: if_splits prod.splits list.splits option.splits)

lemma parseTag_again:
  assumes "parseTag tab t = Inr v"
  shows "parseTag tab (v_raw v) = Inr v"
proof -
  have "parseTag tab (trim_space t) = parseTag tab t" unfolding parseTag_def trim_space_idem by (rule refl)
  then show ?thesis using assms parseTag_raw [OF assms] by simp
qed

lemma latestTag_parses:
  assumes "latestTag tab tags include = Inr t"
  obtains v where "parseTag tab t = Inr v" "v_raw v = t" "v \<in> set (candidates tab include tags)"
proof -
  have "\<exists>v \<in> set (candidates tab include tags). v_raw v = t"
    using latest_tag_facts [of tab "include" tags] assms by (auto intro: nth_mem)
  then obtain v where v: "v \<in> set (candidates tab include tags)" "v_raw v = t" by blast
  then obtain tag where "v \<in> set (opt_list (case parseTag tab tag of Inl e \<Rightarrow> None
      | Inr v \<Rightarrow> (case include of None \<Rightarrow> Some v | Some f \<Rightarrow> if f v then Some v else None)))"
    unfolding candidates_def collect_def by auto
  then have "parseTag tab tag = Inr v"
    by (cases "parseTag tab tag"; cases "include") (auto simp: opt_list_def split: if_splits)
  from parseTag_again [OF this] v that show thesis by blast
qed

definition newer :: "(string \<Rightarrow> rune_class) \<Rightarrow> string \<Rightarrow> string \<Rightarrow> bool" where
  "newer tab latest pinned \<longleftrightarrow>
     (case (parseTag tab latest, parseTag tab pinned) of
        (Inr v, Inr w) \<Rightarrow> precedence w < precedence v
      | _ \<Rightarrow> False)"

lemma appendFinding_newer:
  assumes "parseTag tab (Pinned f) = Inr p" "parseTag tab (Latest f) = Inr l"
  shows "appendFinding tab fs f = fs @ (if newer tab (Latest f) (Pinned f) then [f] else [])"
  using assms by (simp add: appendFinding_def newer_def versions.cmp_pos)

lemma first_error_None: "first_error es = None \<longleftrightarrow> list_all (\<lambda>e. e = None) es"
  by (induction es rule: first_error.induct) auto

lemma requireTag_None: "requireTag tab f t = None \<longleftrightarrow> (\<exists>v. parseTag tab t = Inr v)"
  by (simp add: requireTag_def split: sum.split)

definition commit_ok :: "string \<Rightarrow> bool" where
  "commit_ok c \<longleftrightarrow> length c = 40 \<and> list_all commit_char c"

lemma requireCommit_None: "requireCommit f c = None \<longleftrightarrow> commit_ok c"
  by (simp add: requireCommit_def commit_ok_def)

lemma requireRepo_None: "requireGitHubRepo url f r = None \<longleftrightarrow> \<not> isl (parseGitHubRepo url r)"
  by (simp add: requireGitHubRepo_def isl_def split: sum.split)

definition sdk_ok :: "(string \<Rightarrow> (string \<times> string \<times> string) option) \<Rightarrow> (string \<Rightarrow> rune_class) \<Rightarrow> sdk_lock \<Rightarrow> bool" where
  "sdk_ok url tab s \<longleftrightarrow> \<not> isl (parseGitHubRepo url (Repository s)) \<and> \<not> isl (parseTag tab (Tag s)) \<and> commit_ok (Commit s)"

definition lock_ok :: "(string \<Rightarrow> (string \<times> string \<times> string) option) \<Rightarrow> (string \<Rightarrow> rune_class) \<Rightarrow> upstream_lock \<Rightarrow> bool" where
  "lock_ok url tab lock \<longleftrightarrow>
     \<not> isl (parseGitHubRepo url (p_Repository (Protocol lock))) \<and> \<not> isl (parseTag tab (StableTag (Protocol lock))) \<and>
     commit_ok (StableCommit (Protocol lock)) \<and> \<not> isl (parseTag tab (V2Tag (Protocol lock))) \<and>
     commit_ok (V2Commit (Protocol lock)) \<and> sdk_ok url tab (TypeScriptSDK lock) \<and> sdk_ok url tab (RustSDK lock)"

lemma not_isl: "\<not> isl x \<longleftrightarrow> (\<exists>y. x = Inr y)"
  by (cases x) auto

lemma validateSDK_None: "validateSDKLock url tab f s = None \<longleftrightarrow> sdk_ok url tab s"
  by (auto simp: validateSDKLock_def first_error_None requireRepo_None requireTag_None requireCommit_None sdk_ok_def not_isl)

lemma validate_None: "validateLock url tab lock = None \<longleftrightarrow> lock_ok url tab lock"
  by (auto simp: validateLock_def first_error_None requireRepo_None requireTag_None requireCommit_None
      validateSDK_None lock_ok_def not_isl)

lemma loaded_ok: "loadLock files url tab path = Inr lock \<Longrightarrow> lock_ok url tab lock"
  by (auto simp: loadLock_def validate_None [symmetric] split: sum.splits option.splits)

lemma latestSchemaTag_parses:
  "latestSchemaTag gh url tab r pfx inc = Inr t \<Longrightarrow> \<exists>v. parseTag tab t = Inr v"
  by (auto simp: latestSchemaTag_def split: sum.splits elim!: latestTag_parses)

lemma latestReleaseTag_parses: "latestReleaseTag gh url tab r = Inr t \<Longrightarrow> \<exists>v. parseTag tab t = Inr v"
  by (auto simp: latestReleaseTag_def split: sum.splits)

section \<open>A concrete check\<close>

definition demo_commit :: string where
  "demo_commit = concat (replicate 4 ''0123456789'')"

definition demo_url :: "string \<Rightarrow> (string \<times> string \<times> string) option" where
  "demo_url u = Some (''https'', ''github.com'', ''/o/r.git'')"

definition demo_tab :: "string \<Rightarrow> rune_class" where
  "demo_tab u = ROther"

definition demo_lock :: upstream_lock where
  "demo_lock =
     \<lparr>Protocol = \<lparr>p_Repository = ''r'', StableTag = ''schema-v1.0.0'', StableCommit = demo_commit,
        V2Tag = ''schema-v2.0.0-a.9'', V2Commit = demo_commit\<rparr>,
      TypeScriptSDK = \<lparr>Repository = ''r'', Tag = ''v1.0.0'', Commit = demo_commit\<rparr>,
      RustSDK = \<lparr>Repository = ''r'', Tag = ''v1.0.0'', Commit = demo_commit\<rparr>\<rparr>"

definition demo_body :: "string \<Rightarrow> string" where
  "demo_body endpoint =
     (if has_suffix endpoint ''latest'' then ''{\"tag_name\":\"v1.0.0\"}''
      else ''[{\"ref\":\"refs/tags/schema-v1.0.0\"},{\"ref\":\"refs/tags/schema-v2.0.0-a.10\"}]'')"

definition demo_gh :: github_client where
  "demo_gh =
     \<lparr>gh_http = (\<lambda>e hs. Inr \<lparr>resp_code = 200, resp_status = ''200 OK'', resp_body = demo_body e,
        resp_read = None, resp_close = None\<rparr>), gh_base = ''b'', gh_token = []\<rparr>"

lemma demo_valid: "validateLock demo_url demo_tab demo_lock = None"
  by code_simp

lemma getJSON_small:
  assumes "gh_http gh (trim_right_char (CHR ''/'') (gh_base gh) @ path) (request_headers (gh_token gh)) =
      Inr \<lparr>resp_code = 200, resp_status = st, resp_body = body, resp_read = None, resp_close = None\<rparr>"
    and "length body \<le> 2 ^ 20" "decode body = Some d"
  shows "getJSON gh path decode = Inr d"
proof -
  have "take (nat maxGitHubBody + 1) body = body" using assms(2) by (simp add: maxGitHubBody_def)
  moreover have "\<not> int (length body) > maxGitHubBody" using assms(2) by (simp add: maxGitHubBody_def)
  ultimately show ?thesis by (simp add: getJSON_def assms(1,3))
qed

lemma demo_repo: "parseGitHubRepo demo_url ''r'' = Inr (''o'', ''r'')"
  by code_simp

lemma demo_refs: "getJSON demo_gh (repo_path ''o'' ''r'' @ ''/git/matching-refs/tags/'' @ pfx) unmarshal_refs =
    Inr [''refs/tags/schema-v1.0.0'', ''refs/tags/schema-v2.0.0-a.10'']"
  if "pfx = ''schema-v1'' \<or> pfx = ''schema-v2''"
proof (rule getJSON_small)
  let ?e = "trim_right_char (CHR ''/'') (gh_base demo_gh) @ repo_path ''o'' ''r'' @ ''/git/matching-refs/tags/'' @ pfx"
  have "demo_body ?e = demo_body []" using that by (elim disjE) (simp_all, code_simp+)
  then show "gh_http demo_gh ?e (request_headers (gh_token demo_gh)) = Inr \<lparr>resp_code = 200, resp_status = ''200 OK'',
      resp_body = demo_body [], resp_read = None, resp_close = None\<rparr>"
    unfolding demo_gh_def by simp
  have "length (demo_body []) < 100" by code_simp
  then show "length (demo_body []) \<le> 2 ^ 20" by simp
  show "unmarshal_refs (demo_body []) = Some [''refs/tags/schema-v1.0.0'', ''refs/tags/schema-v2.0.0-a.10'']" by code_simp
qed

lemma demo_release: "getJSON demo_gh (repo_path ''o'' ''r'' @ ''/releases/latest'')
    (unmarshal_struct [(''tag_name'', text_field id (\<lambda>t s. t))] []) = Inr ''v1.0.0''"
proof (rule getJSON_small)
  let ?e = "trim_right_char (CHR ''/'') (gh_base demo_gh) @ repo_path ''o'' ''r'' @ ''/releases/latest''"
  have "demo_body ?e = demo_body ''latest''" by code_simp
  then show "gh_http demo_gh ?e (request_headers (gh_token demo_gh)) = Inr \<lparr>resp_code = 200, resp_status = ''200 OK'',
      resp_body = demo_body ''latest'', resp_read = None, resp_close = None\<rparr>"
    unfolding demo_gh_def by simp
  have "length (demo_body ''latest'') < 100" by code_simp
  then show "length (demo_body ''latest'') \<le> 2 ^ 20" by simp
  show "unmarshal_struct [(''tag_name'', text_field id (\<lambda>t s. t))] [] (demo_body ''latest'') = Some ''v1.0.0''" by code_simp
qed

definition demo_finding :: drift_finding where
  "demo_finding = \<lparr>Source = ''protocolV2'', Name = ''v2-schema'', Pinned = ''schema-v2.0.0-a.9'',
     Latest = ''schema-v2.0.0-a.10'', URL = releaseURL ''r'' ''schema-v2.0.0-a.10''\<rparr>"

lemma demo_remote: "checkRemote demo_gh demo_url demo_tab demo_lock = Inr [demo_finding]"
proof -
  have t: "latestTag demo_tab (map (\<lambda>r. trim_prefix r ''refs/tags/'') [''refs/tags/schema-v1.0.0'', ''refs/tags/schema-v2.0.0-a.10''])
      (Some stable_tag) = Inr ''schema-v1.0.0''"
    "latestTag demo_tab (map (\<lambda>r. trim_prefix r ''refs/tags/'') [''refs/tags/schema-v1.0.0'', ''refs/tags/schema-v2.0.0-a.10''])
      (Some v2_tag) = Inr ''schema-v2.0.0-a.10''" by code_simp+
  have s: "latestSchemaTag demo_gh demo_url demo_tab ''r'' ''schema-v1'' (Some stable_tag) = Inr ''schema-v1.0.0''"
    "latestSchemaTag demo_gh demo_url demo_tab ''r'' ''schema-v2'' (Some v2_tag) = Inr ''schema-v2.0.0-a.10''"
    unfolding latestSchemaTag_def using demo_refs [of "''schema-v1''"] demo_refs [of "''schema-v2''"] t
    by (simp_all only: demo_repo sum.case prod.case refl simp_thms)
  have p: "parseTag demo_tab ''v1.0.0'' = Inr \<lparr>major = 1, minor = 0, patch = 0, v_pre = [], v_raw = ''v1.0.0''\<rparr>"
    by code_simp
  have r: "latestReleaseTag demo_gh demo_url demo_tab ''r'' = Inr ''v1.0.0''"
    unfolding latestReleaseTag_def demo_repo sum.case prod.case demo_release p by (rule refl)
  have l: "p_Repository (Protocol demo_lock) = ''r''" "Repository (TypeScriptSDK demo_lock) = ''r''"
    "Repository (RustSDK demo_lock) = ''r''" "StableTag (Protocol demo_lock) = ''schema-v1.0.0''"
    "V2Tag (Protocol demo_lock) = ''schema-v2.0.0-a.9''" "Tag (TypeScriptSDK demo_lock) = ''v1.0.0''"
    "Tag (RustSDK demo_lock) = ''v1.0.0''" by (simp_all add: demo_lock_def)
  show ?thesis unfolding checkRemote_def l s r sum.case Let_def by code_simp
qed

section \<open>Properties\<close>

text \<open>The validation accepts exactly the well-formed locks: every pinned tag parses as a version,
  every commit is a 40-character lowercase SHA, and every repository is one of GitHub.\<close>

lemma validate_lock_exact:
  "validateLock url tab lock = None \<longleftrightarrow> lock_ok url tab lock"
  by (rule validate_None)

text \<open>C26: With a valid lock, \<open>checkRemote\<close> finds drift exactly when one of the four queried releases has
  a greater precedence than its pin.\<close>

theorem drift_iff_newer_release:
  assumes "validateLock url tab lock = None" "checkRemote gh url tab lock = Inr fs"
  shows "Status (buildReport fs) = ''drift'' \<longleftrightarrow>
    (\<exists>s v t r. latestSchemaTag gh url tab (p_Repository (Protocol lock)) ''schema-v1'' (Some stable_tag) = Inr s \<and>
       latestSchemaTag gh url tab (p_Repository (Protocol lock)) ''schema-v2'' (Some v2_tag) = Inr v \<and>
       latestReleaseTag gh url tab (Repository (TypeScriptSDK lock)) = Inr t \<and>
       latestReleaseTag gh url tab (Repository (RustSDK lock)) = Inr r \<and>
       (newer tab s (StableTag (Protocol lock)) \<or> newer tab v (V2Tag (Protocol lock)) \<or>
        newer tab t (Tag (TypeScriptSDK lock)) \<or> newer tab r (Tag (RustSDK lock))))"
proof -
  obtain s v t r where
    q: "latestSchemaTag gh url tab (p_Repository (Protocol lock)) ''schema-v1'' (Some stable_tag) = Inr s"
      "latestSchemaTag gh url tab (p_Repository (Protocol lock)) ''schema-v2'' (Some v2_tag) = Inr v"
      "latestReleaseTag gh url tab (Repository (TypeScriptSDK lock)) = Inr t"
      "latestReleaseTag gh url tab (Repository (RustSDK lock)) = Inr r"
    using assms(2) by (auto simp: checkRemote_def Let_def split: sum.splits)
  have p: "\<exists>x. parseTag tab s = Inr x" "\<exists>x. parseTag tab v = Inr x" "\<exists>x. parseTag tab t = Inr x" "\<exists>x. parseTag tab r = Inr x"
    using latestSchemaTag_parses [OF q(1)] latestSchemaTag_parses [OF q(2)]
      latestReleaseTag_parses [OF q(3)] latestReleaseTag_parses [OF q(4)] by auto
  have l: "\<exists>x. parseTag tab (StableTag (Protocol lock)) = Inr x" "\<exists>x. parseTag tab (V2Tag (Protocol lock)) = Inr x"
    "\<exists>x. parseTag tab (Tag (TypeScriptSDK lock)) = Inr x" "\<exists>x. parseTag tab (Tag (RustSDK lock)) = Inr x"
    using assms(1) [unfolded validate_None] by (auto simp: lock_ok_def sdk_ok_def not_isl)
  have "fs = [] \<longleftrightarrow> \<not> (newer tab s (StableTag (Protocol lock)) \<or> newer tab v (V2Tag (Protocol lock)) \<or>
      newer tab t (Tag (TypeScriptSDK lock)) \<or> newer tab r (Tag (RustSDK lock)))"
    using assms(2) p l by (auto simp: checkRemote_def Let_def q appendFinding_newer split: if_splits)
  then show ?thesis using q by (auto simp: buildReport_def)
qed

lemma drift_iff_newer_release_witness:
  "Status (buildReport [demo_finding]) = ''drift'' \<and>
   (\<exists>v. latestSchemaTag demo_gh demo_url demo_tab ''r'' ''schema-v2'' (Some v2_tag) = Inr v)"
proof -
  have "Status (buildReport [demo_finding]) = ''drift''" by code_simp
  moreover from this drift_iff_newer_release [OF demo_valid demo_remote]
  have "\<exists>v. latestSchemaTag demo_gh demo_url demo_tab (p_Repository (Protocol demo_lock)) ''schema-v2'' (Some v2_tag) = Inr v"
    by blast
  then have "\<exists>v. latestSchemaTag demo_gh demo_url demo_tab ''r'' ''schema-v2'' (Some v2_tag) = Inr v"
    by (simp add: demo_lock_def)
  ultimately show ?thesis by blast
qed

end
