(* ===== verification/Negotiate.thy ===== *)
theory Negotiate
  imports Dispatch
begin

text \<open>
  The experimental v2 profile: the handshake state of \<open>experimental/v2/initialization.go\<close>, the
  negotiation and the router of \<open>negotiate.go\<close>, and the handlers of \<open>conn.go\<close>.

  The generated parameter types are abstract, as in theory \<open>Dispatch\<close>. What else comes from
  them is an argument: \<open>info_ok\<close> and \<open>caps_ok\<close> say whether a text decodes as an
  \<open>Implementation\<close> and as \<open>ClientCapabilities\<close>, \<open>dec\<close> decodes and validates an
  \<open>InitializeRequest\<close> as far as its authentication capabilities, and \<open>jerr\<close> is what
  \<open>json.Unmarshal\<close> reports for a text it rejects.
\<close>

section \<open>The state of the handshake\<close>

record initialization =
  i_selected :: nat
  initialized :: bool
  initializing :: bool
  otherRequest :: bool

definition no_handshake :: initialization where
  "no_handshake = \<lparr>i_selected = 0, initialized = False, initializing = False, otherRequest = False\<rparr>"

definition init_begin :: "nat \<Rightarrow> initialization \<Rightarrow> request_error + initialization" where
  "init_begin sel s =
     (if initializing s \<or> (initialized s \<and> i_selected s = 0) \<or>
         (i_selected s \<noteq> 0 \<and> (i_selected s \<noteq> 2 \<or> sel \<noteq> i_selected s \<or> otherRequest s))
      then Inl (NewInvalidRequest (error_data ''initialize is not allowed in the current connection state''))
      else Inr (s\<lparr>initialized := True, initializing := True\<rparr>))"

definition init_finish :: "nat \<Rightarrow> request_error option \<Rightarrow> initialization \<Rightarrow> initialization" where
  "init_finish sel err s =
     s\<lparr>initializing := False, i_selected := (if err = None then sel else i_selected s)\<rparr>"

definition is_request :: "inbound_ctx \<Rightarrow> bool" where
  "is_request ctx \<longleftrightarrow>
     (case InboundInfoFromContext ctx of None \<Rightarrow> True | Some info \<Rightarrow> ii_kind info = InboundRequest)"

definition init_route :: "inbound_ctx \<Rightarrow> initialization \<Rightarrow> nat \<times> bool \<times> initialization" where
  "init_route ctx s =
     (let s' = (if is_request ctx \<and> initialized s then s\<lparr>otherRequest := True\<rparr> else s)
      in (i_selected s', initializing s', s'))"

definition checkRepeatVersion :: "nat \<Rightarrow> initialization \<Rightarrow> request_error option" where
  "checkRepeatVersion requested s =
     (if i_selected s = 2 \<and> requested < 2
      then Some (NewInvalidRequest (error_data ''a repeated initialize must use the selected protocol version''))
      else None)"

section \<open>Versions and request ids\<close>

definition parse_uint16 :: "string \<Rightarrow> nat option" where
  "parse_uint16 s =
     (if s \<noteq> [] \<and> list_all is_digit s \<and> nat_of_digits s < 65536 then Some (nat_of_digits s) else None)"

definition decode_version_member :: "nat option \<Rightarrow> string \<times> string \<times> json \<Rightarrow> nat option option" where
  "decode_version_member cur m =
     (case m of (k, r, v) \<Rightarrow>
        if match_field [''protocolVersion''] k = None then Some cur
        else (case v of
                JNull \<Rightarrow> Some None
              | JNum n \<Rightarrow> (case parse_uint16 n of None \<Rightarrow> None | Some x \<Rightarrow> Some (Some x))
              | _ \<Rightarrow> None))"

definition ProtocolVersionFromInitialize :: "(string \<Rightarrow> go_error) \<Rightarrow> string \<Rightarrow> go_error + nat" where
  "ProtocolVersionFromInitialize jerr params =
     (case (case parse_json params of
              Some (_, JObj ms) \<Rightarrow> decode_members decode_version_member None ms
            | Some (_, JNull) \<Rightarrow> Some None
            | _ \<Rightarrow> None) of
        None \<Rightarrow> Inl (jerr params)
      | Some None \<Rightarrow> Inl (ErrText ''protocolVersion is required'')
      | Some (Some v) \<Rightarrow> Inr v)"

definition SelectProtocolVersion :: "nat \<Rightarrow> go_error + nat" where
  "SelectProtocolVersion requested =
     (if requested \<ge> 2 then Inr 2
      else Inl (ErrText (''unsupported protocol version '' @ show_nat requested @ '', experimental v2 requires 2'')))"

definition NewUnsupportedProtocolVersion :: "nat \<Rightarrow> nat list \<Rightarrow> request_error" where
  "NewUnsupportedProtocolVersion requested supported =
     \<lparr>code = -32022, message = ''Unsupported protocol version'',
      data = Some (any_map [(''requested'', JNum (show_nat requested)),
        (''supported'', JArr (map (\<lambda>v. (show_nat v, JNum (show_nat v))) supported))])\<rparr>"

definition request_id_ok :: "string \<Rightarrow> bool" where
  "request_id_ok raw \<longleftrightarrow>
     (case parse_json raw of
        Some (_, JNum n) \<Rightarrow> parse_int64 n \<noteq> None
      | Some (_, JStr s) \<Rightarrow> True
      | _ \<Rightarrow> False)"

definition validateRequestID :: "inbound_ctx \<Rightarrow> request_error option" where
  "validateRequestID ctx =
     (case InboundInfoFromContext ctx of
        None \<Rightarrow> None
      | Some info \<Rightarrow>
          if ii_kind info \<noteq> InboundRequest then None
          else if request_id_ok (ii_id info) then None
          else Some (NewInvalidRequest (error_data ''ACP v2 requires a string or integer request ID'')))"

section \<open>Rewriting the parameters of initialize\<close>

text \<open>A \<open>map[string]json.RawMessage\<close>: entries by key, without repetition.\<close>

definition put :: "string \<Rightarrow> string \<Rightarrow> (string \<times> string) list \<Rightarrow> (string \<times> string) list" where
  "put k v m = filter (\<lambda>(k', _). k' \<noteq> k) m @ [(k, v)]"

definition remove_key :: "string \<Rightarrow> (string \<times> string) list \<Rightarrow> (string \<times> string) list" where
  "remove_key k m = filter (\<lambda>(k', _). k' \<noteq> k) m"

definition raw_map :: "(string \<times> string) list \<Rightarrow> (string \<times> string) list" where
  "raw_map kvs = fold (\<lambda>(k, v). put k v) kvs []"

fun marshal_entries :: "(string \<times> string) list \<Rightarrow> (string \<times> string) list option" where
  "marshal_entries [] = Some []"
| "marshal_entries ((k, raw) # m) =
     (case (marshal_raw raw, marshal_entries m) of
        (Some t, Some r) \<Rightarrow> Some ((k, t) # r)
      | _ \<Rightarrow> None)"

definition marshal_map :: "(string \<times> string) list \<Rightarrow> go_error + string" where
  "marshal_map m =
     (case marshal_entries m of
        None \<Rightarrow> Inl (ErrText ''json: error calling MarshalJSON for type json.RawMessage'')
      | Some es \<Rightarrow>
          Inr (''{'' @ join_with '','' (map (\<lambda>(k, v). quote k @ '':'' @ v)
                 (fold (\<lambda>(k, v). list_insert_key k v) es [])) @ ''}''))"

definition unmarshal_fields :: "(string \<Rightarrow> go_error) \<Rightarrow> string \<Rightarrow> go_error + bool \<times> (string \<times> string) list" where
  "unmarshal_fields jerr params =
     (case unmarshal_map params of None \<Rightarrow> Inl (jerr params) | Some (b, kvs) \<Rightarrow> Inr (b, raw_map kvs))"

text \<open>
  Assigning to the nil map that \<open>null\<close> leaves, or calling a nil handler, is a run-time panic: the
  value \<open>None\<close> of the functions below.
\<close>

definition unknown_info :: string where
  "unknown_info = ''{\"name\":\"unknown\",\"version\":\"unknown\"}''"

definition normalizeInitialize :: "(string \<Rightarrow> go_error) \<Rightarrow> (string \<Rightarrow> bool) \<Rightarrow> (string \<Rightarrow> bool) \<Rightarrow> string \<Rightarrow> nat \<Rightarrow> nat \<Rightarrow>
    (go_error + string) option" where
  "normalizeInitialize jerr info_ok caps_ok params requested sel =
     (case unmarshal_fields jerr params of
        Inl e \<Rightarrow> Some (Inl e)
      | Inr (False, _) \<Rightarrow> None
      | Inr (True, f0) \<Rightarrow>
          Some (let f1 = put ''protocolVersion'' ''2'' f0
           in if requested > sel then
                (let f2 = (case map_of f1 ''info'' of
                             None \<Rightarrow> put ''info'' unknown_info f1
                           | Some raw \<Rightarrow>
                               if raw = [] \<or> \<not> info_ok raw \<or> trim_space raw = ''null''
                               then put ''info'' unknown_info f1 else f1);
                     f3 = (case map_of f2 ''capabilities'' of
                             None \<Rightarrow> f2
                           | Some raw \<Rightarrow> if raw \<noteq> [] \<and> \<not> caps_ok raw then remove_key ''capabilities'' f2 else f2);
                     f4 = (case map_of f3 ''_meta'' of
                             None \<Rightarrow> f3
                           | Some raw \<Rightarrow> if raw \<noteq> [] \<and> unmarshal_map raw = None then remove_key ''_meta'' f3 else f3)
                 in marshal_map f4)
              else marshal_map f1))"

text \<open>\<open>request.Capabilities.Auth\<close>: whether it has a terminal, and its metadata.\<close>

record auth_caps =
  auth_terminal :: bool
  auth_meta :: "string option"

definition shared_capabilities :: "(string \<Rightarrow> go_error) \<Rightarrow> auth_caps option \<Rightarrow> (string \<times> string) list \<Rightarrow>
    go_error + (string \<times> string) list" where
  "shared_capabilities jerr auth fs =
     (case (case map_of fs ''capabilities'' of None \<Rightarrow> Inr [] | Some raw \<Rightarrow> map_sum id snd (unmarshal_fields jerr raw)) of
        Inl e \<Rightarrow> Inl e
      | Inr source \<Rightarrow>
          (let kept = concat (map (\<lambda>key. case map_of source key of None \<Rightarrow> [] | Some raw \<Rightarrow> [(key, raw)])
                        [''elicitation'', ''_meta''])
           in case auth of
                None \<Rightarrow> Inr kept
              | Some a \<Rightarrow>
                  (case marshal_map ((''terminal'', if auth_terminal a then ''true'' else ''false'')
                          # (case auth_meta a of None \<Rightarrow> [] | Some m \<Rightarrow> [(''_meta'', m)])) of
                     Inl e \<Rightarrow> Inl e
                   | Inr enc \<Rightarrow> Inr (put ''auth'' enc kept))))"

definition v1InitializeFields :: "(string \<Rightarrow> go_error) \<Rightarrow> (string \<Rightarrow> go_error + auth_caps option) \<Rightarrow> string \<Rightarrow>
    (string \<times> string) list \<Rightarrow> go_error + (string \<times> string) list" where
  "v1InitializeFields jerr dec params fs =
     (case dec params of
        Inl e \<Rightarrow> Inl e
      | Inr auth \<Rightarrow>
          (case shared_capabilities jerr auth fs of
             Inl e \<Rightarrow> Inl e
           | Inr capabilities \<Rightarrow>
               (case marshal_map capabilities of
                  Inl e \<Rightarrow> Inl e
                | Inr rawCapabilities \<Rightarrow>
                    Inr ([(''clientInfo'', case map_of fs ''info'' of None \<Rightarrow> [] | Some r \<Rightarrow> r),
                          (''clientCapabilities'', rawCapabilities)]
                         @ (case map_of fs ''_meta'' of None \<Rightarrow> [] | Some m \<Rightarrow> [(''_meta'', m)])))))"

section \<open>The router\<close>

definition invalid_params :: "go_error \<Rightarrow> request_error" where
  "invalid_params e = NewInvalidParams (error_data (error_text e))"

type_synonym 'r handler = "inbound_ctx \<Rightarrow> string \<Rightarrow> string \<Rightarrow> request_error + 'r option"

text \<open>What the router needs besides the handlers.\<close>

record router_env =
  re_jerr :: "string \<Rightarrow> go_error"
  re_info :: "string \<Rightarrow> bool"
  re_caps :: "string \<Rightarrow> bool"
  re_dec :: "string \<Rightarrow> go_error + auth_caps option"

definition choose_version :: "bool \<Rightarrow> bool \<Rightarrow> nat \<Rightarrow> nat" where
  "choose_version v1 v2 requested =
     (if v1 \<and> \<not> v2 then 1 else if requested \<ge> 2 \<and> v2 then 2 else if requested \<ge> 1 \<and> v1 then 1 else 0)"

definition supported_versions :: "bool \<Rightarrow> bool \<Rightarrow> nat list" where
  "supported_versions v1 v2 = (if v1 then [1] else []) @ (if v2 then [2] else [])"

text \<open>The parameters as they are handed to the handler of the selected version.\<close>

definition router_params :: "router_env \<Rightarrow> nat \<Rightarrow> nat \<Rightarrow> string \<Rightarrow> (request_error + string) option" where
  "router_params env requested sel params0 =
     (case (if sel = 2 \<or> (sel = 1 \<and> requested \<ge> 2)
            then normalizeInitialize (re_jerr env) (re_info env) (re_caps env) params0 requested sel
            else Some (Inr params0)) of
        None \<Rightarrow> None
      | Some (Inl e) \<Rightarrow> Some (Inl (invalid_params e))
      | Some (Inr params) \<Rightarrow>
          if sel = requested then Some (Inr params)
          else (case unmarshal_fields (re_jerr env) params of
                  Inl e \<Rightarrow> Some (Inl (invalid_params e))
                | Inr (b, fs) \<Rightarrow>
                    (case (if sel = 1 \<and> requested \<ge> 2 then Some (v1InitializeFields (re_jerr env) (re_dec env) params fs)
                           else if b then Some (Inr fs) else None) of
                       None \<Rightarrow> None
                     | Some (Inl e) \<Rightarrow> Some (Inl (invalid_params e))
                     | Some (Inr fs1) \<Rightarrow>
                         Some (case marshal_map (put ''protocolVersion'' (show_nat sel) fs1) of
                                 Inl e \<Rightarrow> Inl (invalid_params e)
                               | Inr p \<Rightarrow> Inr p))))"

definition call_handler :: "'r handler option \<Rightarrow> inbound_ctx \<Rightarrow> string \<Rightarrow> string \<Rightarrow> (request_error + 'r option) option" where
  "call_handler h ctx method params = map_option (\<lambda>f. f ctx method params) h"

definition error_of :: "request_error + 'a \<Rightarrow> request_error option" where
  "error_of r = (case r of Inl e \<Rightarrow> Some e | Inr _ \<Rightarrow> None)"

definition route_other :: "'r handler option \<Rightarrow> 'r handler option \<Rightarrow> inbound_ctx \<Rightarrow> string \<Rightarrow> string \<Rightarrow> initialization \<Rightarrow>
    (request_error + 'r option) option \<times> initialization" where
  "route_other V1 V2 ctx method params s =
     (case init_route ctx s of
        (sel, pending, s') \<Rightarrow>
          (if pending then Some (Inl (NewInvalidRequest None))
           else case (if sel = 2 then validateRequestID ctx else None) of
                  Some e \<Rightarrow> Some (Inl e)
                | None \<Rightarrow>
                    if sel = 1 then call_handler V1 ctx method params
                    else if sel = 2 then call_handler V2 ctx method params
                    else Some (Inl (NewInvalidRequest (error_data ''initialize must succeed before other methods''))), s'))"

definition router_Handle :: "router_env \<Rightarrow> 'r handler option \<Rightarrow> 'r handler option \<Rightarrow> inbound_ctx \<Rightarrow> string \<Rightarrow> string \<Rightarrow>
    initialization \<Rightarrow> (request_error + 'r option) option \<times> initialization" where
  "router_Handle env V1 V2 ctx method params s =
     (if method \<noteq> ''initialize'' then route_other V1 V2 ctx method params s
      else if \<not> is_request ctx then (Some (Inl (NewMethodNotFound method)), s)
      else (case ProtocolVersionFromInitialize (re_jerr env) params of
              Inl e \<Rightarrow> (Some (Inl (invalid_params e)), s)
            | Inr requested \<Rightarrow>
                (case checkRepeatVersion requested s of
                   Some e \<Rightarrow> (Some (Inl e), s)
                 | None \<Rightarrow>
                     (let sel = choose_version (V1 \<noteq> None) (V2 \<noteq> None) requested
                      in if sel = 0 then
                           (Some (Inl (NewUnsupportedProtocolVersion requested (supported_versions (V1 \<noteq> None) (V2 \<noteq> None)))), s)
                         else (case (if sel = 2 then validateRequestID ctx else None) of
                                 Some e \<Rightarrow> (Some (Inl e), s)
                               | None \<Rightarrow>
                                   (case router_params env requested sel params of
                                      None \<Rightarrow> (None, s)
                                    | Some (Inl e) \<Rightarrow> (Some (Inl e), s)
                                    | Some (Inr p) \<Rightarrow>
                                        (case init_begin sel s of
                                           Inl e \<Rightarrow> (Some (Inl e), s)
                                         | Inr s1 \<Rightarrow>
                                             (case call_handler (if sel = 2 then V2 else V1) ctx method p of
                                                None \<Rightarrow> (None, s1)
                                              | Some r \<Rightarrow> (Some r, init_finish sel (error_of r) s1)))))))))"

section \<open>The v2 agent\<close>

definition decodeParams :: "('v, 'r) service \<Rightarrow> string \<Rightarrow> request_error + 'v" where
  "decodeParams svc params = decode_params svc (default_params params)"

definition toRequestError :: "go_error \<Rightarrow> request_error" where
  "toRequestError e =
     (case as_request_error (Some e) of
        Some re \<Rightarrow> re
      | None \<Rightarrow>
          if errors_is (Some e) Canceled \<or> errors_is (Some e) DeadlineExceeded
          then NewRequestCancelled (error_data (error_text e))
          else NewInternalError (error_data (error_text e)))"

lemma toRequestError_eq: "toRequestError e = request_error_of e"
  by (simp add: toRequestError_def request_error_of_def toReqErr_def split: option.split)

definition initialize_body :: "(string \<Rightarrow> go_error) \<Rightarrow> (string \<Rightarrow> bool) \<Rightarrow> (string \<Rightarrow> bool) \<Rightarrow> ('v, 'r) service \<Rightarrow> ('r \<Rightarrow> nat) \<Rightarrow>
    string \<Rightarrow> nat \<Rightarrow> nat \<Rightarrow> (request_error + 'r option) option" where
  "initialize_body jerr info_ok caps_ok svc ver params requested sel =
     (case normalizeInitialize jerr info_ok caps_ok params requested sel of
        None \<Rightarrow> None
      | Some (Inl e) \<Rightarrow> Some (Inl (invalid_params e))
      | Some (Inr p) \<Rightarrow>
          Some (case decodeParams svc p of
             Inl e \<Rightarrow> Inl e
           | Inr req \<Rightarrow>
               (case svc_call svc req of
                  Inl e \<Rightarrow> Inl (toRequestError e)
                | Inr resp \<Rightarrow>
                    if ver resp \<noteq> sel
                    then Inl (NewInvalidParams (error_data ''agent returned a different protocol version''))
                    else Inr (Some resp))))"

definition agent_initialize :: "(string \<Rightarrow> go_error) \<Rightarrow> (string \<Rightarrow> bool) \<Rightarrow> (string \<Rightarrow> bool) \<Rightarrow> ('v, 'r) service \<Rightarrow> ('r \<Rightarrow> nat) \<Rightarrow>
    string \<Rightarrow> initialization \<Rightarrow> (request_error + 'r option) option \<times> initialization" where
  "agent_initialize jerr info_ok caps_ok svc ver params s =
     (case ProtocolVersionFromInitialize jerr params of
        Inl e \<Rightarrow> (Some (Inl (invalid_params e)), s)
      | Inr requested \<Rightarrow>
          (case checkRepeatVersion requested s of
             Some e \<Rightarrow> (Some (Inl e), s)
           | None \<Rightarrow>
               (case SelectProtocolVersion requested of
                  Inl e \<Rightarrow> (Some (Inl (NewUnsupportedProtocolVersion requested [2])), s)
                | Inr sel \<Rightarrow>
                    (case init_begin sel s of
                       Inl e \<Rightarrow> (Some (Inl e), s)
                     | Inr s1 \<Rightarrow>
                         (case initialize_body jerr info_ok caps_ok svc ver params requested sel of
                            None \<Rightarrow> (None, s1)
                          | Some r \<Rightarrow> (Some r, init_finish sel (error_of r) s1))))))"

text \<open>The shapes of the v2 cases: an optional interface is looked up before or after the decoding.\<close>

definition early_request :: "('v, 'r) service \<Rightarrow> inbound_ctx \<Rightarrow> string \<Rightarrow> string \<Rightarrow> request_error + 'r option" where
  "early_request svc ctx method params =
     (case requireInboundKind ctx InboundRequest method of
        Some e \<Rightarrow> Inl e
      | None \<Rightarrow>
          if \<not> svc_has svc then Inl (NewMethodNotFound method)
          else (case decodeParams svc params of Inl e \<Rightarrow> Inl e | Inr p \<Rightarrow> invoke svc p))"

definition late_request :: "('v, 'r) service \<Rightarrow> inbound_ctx \<Rightarrow> string \<Rightarrow> string \<Rightarrow> request_error + 'r option" where
  "late_request svc ctx method params =
     (case requireInboundKind ctx InboundRequest method of
        Some e \<Rightarrow> Inl e
      | None \<Rightarrow>
          (case decodeParams svc params of
             Inl e \<Rightarrow> Inl e
           | Inr p \<Rightarrow> if \<not> svc_has svc then Inl (NewInvalidParams None) else invoke svc p))"

definition v2_notification :: "('v, 'r) service \<Rightarrow> inbound_ctx \<Rightarrow> string \<Rightarrow> string \<Rightarrow> request_error + 'r option" where
  "v2_notification svc ctx method params =
     (case requireInboundKind ctx InboundNotification method of
        Some e \<Rightarrow> Inl e
      | None \<Rightarrow>
          (case decodeParams svc params of Inl e \<Rightarrow> Inl e | Inr p \<Rightarrow> notified svc p))"

definition early_notification :: "('v, 'r) service \<Rightarrow> inbound_ctx \<Rightarrow> string \<Rightarrow> string \<Rightarrow> request_error + 'r option" where
  "early_notification svc ctx method params =
     (case requireInboundKind ctx InboundNotification method of
        Some e \<Rightarrow> Inl e
      | None \<Rightarrow>
          if \<not> svc_has svc then Inl (NewMethodNotFound method)
          else (case decodeParams svc params of Inl e \<Rightarrow> Inl e | Inr p \<Rightarrow> notified svc p))"

definition v2_agent_SessionNew :: "('v, 'r) services \<Rightarrow> inbound_ctx \<Rightarrow> string \<Rightarrow> request_error + 'r option" where
  "v2_agent_SessionNew impl ctx params = required_request (impl ''session/new'') ctx ''session/new'' params"

definition v2_agent_SessionPrompt :: "('v, 'r) services \<Rightarrow> inbound_ctx \<Rightarrow> string \<Rightarrow> request_error + 'r option" where
  "v2_agent_SessionPrompt impl ctx params = required_request (impl ''session/prompt'') ctx ''session/prompt'' params"

definition v2_agent_ToolCallCancel :: "('v, 'r) services \<Rightarrow> inbound_ctx \<Rightarrow> string \<Rightarrow> request_error + 'r option" where
  "v2_agent_ToolCallCancel impl ctx params = late_request (impl ''tool_call/cancel'') ctx ''tool_call/cancel'' params"

definition v2_agent_TerminalCancel :: "('v, 'r) services \<Rightarrow> inbound_ctx \<Rightarrow> string \<Rightarrow> request_error + 'r option" where
  "v2_agent_TerminalCancel impl ctx params = late_request (impl ''terminal/cancel'') ctx ''terminal/cancel'' params"

definition v2_agent_SessionCancel :: "('v, 'r) services \<Rightarrow> inbound_ctx \<Rightarrow> string \<Rightarrow> request_error + 'r option" where
  "v2_agent_SessionCancel impl ctx params = v2_notification (impl ''session/cancel'') ctx ''session/cancel'' params"

definition v2_agent_SessionResume :: "('v, 'r) services \<Rightarrow> inbound_ctx \<Rightarrow> string \<Rightarrow> request_error + 'r option" where
  "v2_agent_SessionResume impl ctx params = early_request (impl ''session/resume'') ctx ''session/resume'' params"

definition v2_agent_SessionList :: "('v, 'r) services \<Rightarrow> inbound_ctx \<Rightarrow> string \<Rightarrow> request_error + 'r option" where
  "v2_agent_SessionList impl ctx params = early_request (impl ''session/list'') ctx ''session/list'' params"

definition v2_agent_SessionClose :: "('v, 'r) services \<Rightarrow> inbound_ctx \<Rightarrow> string \<Rightarrow> request_error + 'r option" where
  "v2_agent_SessionClose impl ctx params = early_request (impl ''session/close'') ctx ''session/close'' params"

definition v2_agent_SessionDelete :: "('v, 'r) services \<Rightarrow> inbound_ctx \<Rightarrow> string \<Rightarrow> request_error + 'r option" where
  "v2_agent_SessionDelete impl ctx params = early_request (impl ''session/delete'') ctx ''session/delete'' params"

definition v2_agent_AuthLogin :: "('v, 'r) services \<Rightarrow> inbound_ctx \<Rightarrow> string \<Rightarrow> request_error + 'r option" where
  "v2_agent_AuthLogin impl ctx params = required_request (impl ''auth/login'') ctx ''auth/login'' params"

definition v2_agent_AuthLogout :: "('v, 'r) services \<Rightarrow> inbound_ctx \<Rightarrow> string \<Rightarrow> request_error + 'r option" where
  "v2_agent_AuthLogout impl ctx params = required_request (impl ''auth/logout'') ctx ''auth/logout'' params"

definition v2_agent_SessionSetConfigOption :: "('v, 'r) services \<Rightarrow> inbound_ctx \<Rightarrow> string \<Rightarrow> request_error + 'r option" where
  "v2_agent_SessionSetConfigOption impl ctx params = early_request (impl ''session/set_config_option'') ctx ''session/set_config_option'' params"

definition v2_agent_Initialize :: "(string \<Rightarrow> go_error) \<Rightarrow> (string \<Rightarrow> bool) \<Rightarrow> (string \<Rightarrow> bool) \<Rightarrow> ('v, 'r) services \<Rightarrow> ('r \<Rightarrow> nat) \<Rightarrow>
    inbound_ctx \<Rightarrow> string \<Rightarrow> initialization \<Rightarrow> (request_error + 'r option) option \<times> initialization" where
  "v2_agent_Initialize jerr info_ok caps_ok impl ver ctx params s =
     (case requireInboundKind ctx InboundRequest ''initialize'' of
        Some e \<Rightarrow> (Some (Inl e), s)
      | None \<Rightarrow> agent_initialize jerr info_ok caps_ok (impl ''initialize'') ver params s)"

definition v2_agent_method :: "('v, 'r) services \<Rightarrow> inbound_ctx \<Rightarrow> string \<Rightarrow> string \<Rightarrow> request_error + 'r option" where
  "v2_agent_method impl ctx method params =
     (if method = ''session/new'' then v2_agent_SessionNew impl ctx params
      else if method = ''session/prompt'' then v2_agent_SessionPrompt impl ctx params
      else if method = ''tool_call/cancel'' then v2_agent_ToolCallCancel impl ctx params
      else if method = ''terminal/cancel'' then v2_agent_TerminalCancel impl ctx params
      else if method = ''session/cancel'' then v2_agent_SessionCancel impl ctx params
      else if method = ''session/resume'' then v2_agent_SessionResume impl ctx params
      else if method = ''session/list'' then v2_agent_SessionList impl ctx params
      else if method = ''session/close'' then v2_agent_SessionClose impl ctx params
      else if method = ''session/delete'' then v2_agent_SessionDelete impl ctx params
      else if method = ''auth/login'' then v2_agent_AuthLogin impl ctx params
      else if method = ''auth/logout'' then v2_agent_AuthLogout impl ctx params
      else if method = ''session/set_config_option'' then v2_agent_SessionSetConfigOption impl ctx params
      else Inl (NewMethodNotFound method))"

definition v2_agent_handle :: "(string \<Rightarrow> go_error) \<Rightarrow> (string \<Rightarrow> bool) \<Rightarrow> (string \<Rightarrow> bool) \<Rightarrow> ('v, 'r) services \<Rightarrow> ('r \<Rightarrow> nat) \<Rightarrow>
    inbound_ctx \<Rightarrow> string \<Rightarrow> string \<Rightarrow> initialization \<Rightarrow> (request_error + 'r option) option \<times> initialization" where
  "v2_agent_handle jerr info_ok caps_ok impl ver ctx method params s =
     (case validateRequestID ctx of
        Some e \<Rightarrow> (Some (Inl e), s)
      | None \<Rightarrow>
          if method = ''initialize'' then v2_agent_Initialize jerr info_ok caps_ok impl ver ctx params s
          else (Some (v2_agent_method impl ctx method params), snd (snd (init_route ctx s))))"

section \<open>The v2 client\<close>

definition v2_client_SessionUpdate :: "('v, 'r) services \<Rightarrow> inbound_ctx \<Rightarrow> string \<Rightarrow> request_error + 'r option" where
  "v2_client_SessionUpdate impl ctx params = v2_notification (impl ''session/update'') ctx ''session/update'' params"

definition v2_client_SessionRequestPermission :: "('v, 'r) services \<Rightarrow> inbound_ctx \<Rightarrow> string \<Rightarrow> request_error + 'r option" where
  "v2_client_SessionRequestPermission impl ctx params = required_request (impl ''session/request_permission'') ctx ''session/request_permission'' params"

definition v2_client_ElicitationCreate :: "('v, 'r) services \<Rightarrow> inbound_ctx \<Rightarrow> string \<Rightarrow> request_error + 'r option" where
  "v2_client_ElicitationCreate impl ctx params = early_request (impl ''elicitation/create'') ctx ''elicitation/create'' params"

definition v2_client_ElicitationComplete :: "('v, 'r) services \<Rightarrow> inbound_ctx \<Rightarrow> string \<Rightarrow> request_error + 'r option" where
  "v2_client_ElicitationComplete impl ctx params = early_notification (impl ''elicitation/complete'') ctx ''elicitation/complete'' params"

definition v2_client_handle :: "('v, 'r) services \<Rightarrow> inbound_ctx \<Rightarrow> string \<Rightarrow> string \<Rightarrow> request_error + 'r option" where
  "v2_client_handle impl ctx method params =
     (case validateRequestID ctx of
        Some e \<Rightarrow> Inl e
      | None \<Rightarrow>
     (if method = ''session/update'' then v2_client_SessionUpdate impl ctx params
      else if method = ''session/request_permission'' then v2_client_SessionRequestPermission impl ctx params
      else if method = ''elicitation/create'' then v2_client_ElicitationCreate impl ctx params
      else if method = ''elicitation/complete'' then v2_client_ElicitationComplete impl ctx params
      else Inl (NewMethodNotFound method)))"

text \<open>\<open>ClientSideConnection.Initialize\<close> after the response: the version the agent chose.\<close>

definition accept_version :: "nat \<Rightarrow> nat \<Rightarrow> request_error option" where
  "accept_version asked answered =
     (if answered \<noteq> 2 \<or> answered > asked
      then Some (NewInvalidParams (Some (any_map [(''error'', JStr ''agent selected an unsupported protocol version''),
             (''protocolVersion'', JNum (show_nat answered))])))
      else None)"


section \<open>The handshake as a state machine\<close>

text \<open>
  Handlers run on goroutines of their own, so a handshake is two steps with anything between
  them: \<open>h_flight\<close> holds the versions of the handshakes that have begun and not finished.
  \<open>offered\<close> are the versions that can be chosen: 2 for an agent, those of the handlers for a router.
\<close>

record handshake =
  h_state :: initialization
  h_flight :: "nat list"

definition new_handshake :: handshake where
  "new_handshake = \<lparr>h_state = no_handshake, h_flight = []\<rparr>"

inductive h_step :: "nat set \<Rightarrow> handshake \<Rightarrow> handshake \<Rightarrow> bool" for offered where
  h_begins: "sel \<in> offered \<Longrightarrow> init_begin sel (h_state s) = Inr i \<Longrightarrow>
    h_step offered s (s\<lparr>h_state := i, h_flight := sel # h_flight s\<rparr>)"
| h_finishes: "sel \<in> set (h_flight s) \<Longrightarrow>
    h_step offered s (s\<lparr>h_state := init_finish sel err (h_state s), h_flight := remove1 sel (h_flight s)\<rparr>)"
| h_routes: "h_step offered s (s\<lparr>h_state := snd (snd (init_route ctx (h_state s)))\<rparr>)"

definition h_inv :: "nat set \<Rightarrow> handshake \<Rightarrow> bool" where
  "h_inv offered s \<longleftrightarrow>
     (\<forall>sel \<in> set (h_flight s). sel \<in> offered \<and> (i_selected (h_state s) = 0 \<or> sel = i_selected (h_state s))) \<and>
     length (h_flight s) = (if initializing (h_state s) then 1 else 0) \<and>
     (initializing (h_state s) \<or> i_selected (h_state s) \<noteq> 0 \<longrightarrow> initialized (h_state s)) \<and>
     (i_selected (h_state s) = 0 \<or> i_selected (h_state s) \<in> offered)"

lemma init_begin_ok:
  "init_begin sel s = Inr t \<longleftrightarrow>
     \<not> initializing s \<and> t = s\<lparr>initialized := True, initializing := True\<rparr> \<and>
     (if i_selected s = 0 then \<not> initialized s else i_selected s = 2 \<and> sel = 2 \<and> \<not> otherRequest s)"
  by (auto simp: init_begin_def)

lemma init_route_state:
  "i_selected (snd (snd (init_route ctx s))) = i_selected s"
  "initializing (snd (snd (init_route ctx s))) = initializing s"
  "initialized (snd (snd (init_route ctx s))) = initialized s"
  "fst (init_route ctx s) = i_selected s" "fst (snd (init_route ctx s)) = initializing s"
  by (auto simp: init_route_def Let_def)

lemma h_inv_step: "h_inv offered s \<Longrightarrow> h_step offered s t \<Longrightarrow> h_inv offered t"
proof (erule h_step.cases, goal_cases)
  case (1 sel s i)
  then show ?case by (auto simp: h_inv_def init_begin_ok split: if_splits)
next
  case (2 sel s err)
  then have "h_flight s = [sel]" by (cases "h_flight s") (auto simp: h_inv_def split: if_splits)
  then show ?case using 2 by (auto simp: h_inv_def init_finish_def split: if_splits)
next
  case (3 s ctx)
  then show ?case by (auto simp: h_inv_def init_route_state)
qed

interpretation handshaking: invariant_system "\<lambda>s. s = new_handshake" "h_step offered" "h_inv offered" for offered
proof unfold_locales
  show "s = new_handshake \<Longrightarrow> h_inv offered s" for s by (simp add: new_handshake_def no_handshake_def h_inv_def)
  show "h_inv offered s \<Longrightarrow> h_step offered s t \<Longrightarrow> h_inv offered t" for s t by (rule h_inv_step)
qed

text \<open>What a step can no longer change.\<close>

definition failed :: "handshake \<Rightarrow> bool" where
  "failed s \<longleftrightarrow> initialized (h_state s) \<and> \<not> initializing (h_state s) \<and> i_selected (h_state s) = 0"

lemma selected_stays:
  assumes "h_inv offered s" "h_step offered s t" "i_selected (h_state s) \<noteq> 0"
  shows "i_selected (h_state t) = i_selected (h_state s)"
  using assms(2,1,3)
  by (cases rule: h_step.cases) (auto simp: h_inv_def init_begin_ok init_finish_def init_route_state)

lemma failed_stays:
  assumes "h_inv offered s" "h_step offered s t" "failed s"
  shows "failed t"
  using assms(2,1,3)
  by (cases rule: h_step.cases) (auto simp: h_inv_def failed_def init_begin_ok init_finish_def init_route_state)

lemma h_steps_stay:
  assumes "(h_step offered)\<^sup>*\<^sup>* s t" "h_inv offered s"
  shows "(i_selected (h_state s) \<noteq> 0 \<longrightarrow> i_selected (h_state t) = i_selected (h_state s)) \<and> (failed s \<longrightarrow> failed t)"
  using assms
proof (induction rule: rtranclp_induct)
  case (step t u)
  have "h_inv offered t" using handshaking.steps_inv [OF step.prems step.hyps(1)] .
  then show ?case using step selected_stays [of offered t u] failed_stays [of offered t u] by auto
qed simp

section \<open>No run-time panic\<close>

text \<open>A text that starts with an opening brace is read as an object, if it is read at all.\<close>

definition in_object :: "parser \<Rightarrow> bool" where
  "in_object p \<longleftrightarrow>
     (if p_stack p = [] then (\<exists>r ms. p_top p = Some (r, JObj ms)) \<and> p_mode p = PDone
      else p_top p = None \<and> (\<exists>ms k r. last (p_stack p) = CObj ms k r))"

lemma in_object_reduce: "p_stack p \<noteq> [] \<Longrightarrow> in_object p \<Longrightarrow> in_object (reduce_value r v p)"
  by (cases "p_stack p") (auto simp: in_object_def reduce_value_def split: container.splits if_splits)

lemma in_object_step: "parse_step p t = Some q \<Longrightarrow> in_object p \<Longrightarrow> in_object q"
proof (cases "p_stack p")
  case Nil
  assume "parse_step p t = Some q" "in_object p"
  then show ?thesis using Nil by (cases t) (auto simp: in_object_def expects_value_def split: if_splits)
next
  case (Cons k st)
  assume st: "parse_step p t = Some q" and p: "in_object p"
  have push: "push_container k' m p = Some q \<Longrightarrow> in_object q" for k' m
    using p Cons by (auto simp: push_container_def in_object_def split: if_splits)
  have close: "close_container c p = Some q \<Longrightarrow> in_object q" for c
    using p Cons by (cases k; cases st)
      (auto simp: close_container_def in_object_def reduce_value_def split: if_splits container.splits)
  show ?thesis
    using st p Cons push close in_object_reduce [OF _ p]
    by (cases t; cases k) (auto simp: in_object_def set_key_def next_member_def split: if_splits)
qed

lemma in_object_tokens: "parse_tokens p ts = Some q \<Longrightarrow> in_object p \<Longrightarrow> in_object q"
  by (induction ts arbitrary: p) (auto split: option.splits dest: in_object_step)

lemma lex_begin_brace: "lex_begin CHR ''{'' = Some ([TPunct CHR ''{''], LStart)"
  by code_simp

lemma brace_object:
  assumes "parse_json (CHR ''{'' # s) = Some (r, v)"
  shows "\<exists>ms. v = JObj ms"
proof -
  obtain ts q where ts: "tokens (CHR ''{'' # s) = Some ts" and q: "parse_tokens parser_init ts = Some q" and top: "p_top q = Some (r, v)"
    using assms by (auto simp: parse_json_def split: option.splits)
  obtain us where us: "ts = TPunct CHR ''{'' # us"
    using ts lex_begin_brace by (auto simp: tokens_def split: option.splits)
  obtain p where p: "parse_step parser_init (TPunct CHR ''{'') = Some p" "parse_tokens p us = Some q"
    using q us by (auto split: option.splits)
  have "in_object p"
    using p(1) by (auto simp: in_object_def parser_init_def expects_value_def push_container_def split: if_splits)
  then have "in_object q" using in_object_tokens p(2) by blast
  then show ?thesis using top by (auto simp: in_object_def split: if_splits)
qed


lemma version_of_object:
  assumes "ProtocolVersionFromInitialize jerr params = Inr v"
  shows "\<exists>kvs. unmarshal_fields jerr params = Inr (True, kvs)"
  using assms by (auto simp: ProtocolVersionFromInitialize_def unmarshal_fields_def unmarshal_map_def split: option.splits json.splits)

lemma marshal_map_brace: "marshal_map m = Inr t \<Longrightarrow> \<exists>s. t = CHR ''{'' # s"
  by (auto simp: marshal_map_def split: option.splits)

lemma unmarshal_brace: "unmarshal_fields jerr (CHR ''{'' # s) = Inr (b, fs) \<Longrightarrow> b"
  by (auto simp: unmarshal_fields_def unmarshal_map_def dest: brace_object split: option.splits json.splits)

lemma normalize_result:
  assumes "unmarshal_fields jerr params = Inr (True, kvs)"
  shows "normalizeInitialize jerr info_ok caps_ok params requested sel \<noteq> None"
    and "normalizeInitialize jerr info_ok caps_ok params requested sel = Some (Inr p) \<Longrightarrow> \<exists>s. p = CHR ''{'' # s"
  using assms by (auto simp: normalizeInitialize_def Let_def split: if_splits dest: marshal_map_brace)

lemma router_params_total:
  assumes "unmarshal_fields (re_jerr env) params = Inr (True, kvs)"
  shows "router_params env requested sel params \<noteq> None"
proof -
  have raw: "b" if "unmarshal_fields (re_jerr env) p = Inr (b, fs)"
    "(if sel = 2 \<or> (sel = 1 \<and> requested \<ge> 2)
      then normalizeInitialize (re_jerr env) (re_info env) (re_caps env) params requested sel else Some (Inr params)) = Some (Inr p)" for p b fs
    using that assms normalize_result(2) [OF assms] unmarshal_brace by (fastforce split: if_splits)
  show ?thesis
  proof (cases "if sel = 2 \<or> (sel = 1 \<and> requested \<ge> 2)
      then normalizeInitialize (re_jerr env) (re_info env) (re_caps env) params requested sel else Some (Inr params)")
    case None
    then have False using normalize_result(1) [OF assms] by (auto simp del: not_None_eq split: if_splits)
    then show ?thesis ..
  next
    case (Some r)
    show ?thesis
    proof (cases r)
      case (Inl e)
      show ?thesis unfolding router_params_def Some Inl by simp
    next
      case (Inr p)
      have obj: "b" if "unmarshal_fields (re_jerr env) p = Inr (b, fs)" for b fs
        using raw [OF that] Some Inr by simp
      show ?thesis
        unfolding router_params_def Some Inr option.case sum.case
        by (cases "unmarshal_fields (re_jerr env) p")
          (auto simp del: not_None_eq split: option.split sum.split prod.split dest: obj)
    qed
  qed
qed

lemma choose_offered: "choose_version v1 v2 requested = sel \<Longrightarrow> sel \<noteq> 0 \<Longrightarrow> (sel = 1 \<and> v1) \<or> (sel = 2 \<and> v2)"
  by (auto simp: choose_version_def split: if_splits)

lemma supported_set: "sel \<in> set (supported_versions v1 v2) \<longleftrightarrow> (sel = 1 \<and> v1) \<or> (sel = 2 \<and> v2)"
  by (auto simp: supported_versions_def)

lemma call_present [simp]: "call_handler (Some f) ctx method params = Some (f ctx method params)"
  by (simp add: call_handler_def)

lemma route_other_total:
  assumes "i_selected s = 0 \<or> i_selected s \<in> set (supported_versions (V1 \<noteq> None) (V2 \<noteq> None))"
  shows "fst (route_other V1 V2 ctx method params s) \<noteq> None"
  using assms init_route_state(4,5) [of ctx s]
  by (cases "init_route ctx s") (auto simp: route_other_def supported_set split: option.split)

lemma router_initialize_total: "fst (router_Handle env V1 V2 ctx ''initialize'' params s) \<noteq> None"
proof (cases "ProtocolVersionFromInitialize (re_jerr env) params")
  case (Inr requested)
  define sel where "sel = choose_version (V1 \<noteq> None) (V2 \<noteq> None) requested"
  show ?thesis
  proof (cases "sel = 0")
    case False
    obtain h where h: "(if sel = 2 then V2 else V1) = Some h"
      using choose_offered [OF sel_def [symmetric] False] by auto
    obtain r where "router_params env requested sel params = Some r"
      using version_of_object [OF Inr] router_params_total by blast
    then have "fst (case router_params env requested sel params of
          None \<Rightarrow> (None, s)
        | Some (Inl e) \<Rightarrow> (Some (Inl e), s)
        | Some (Inr p) \<Rightarrow>
            (case init_begin sel s of
               Inl e \<Rightarrow> (Some (Inl e), s)
             | Inr s1 \<Rightarrow>
                 (case call_handler (Some h) ctx ''initialize'' p of
                    None \<Rightarrow> (None, s1)
                  | Some r \<Rightarrow> (Some r, init_finish sel (error_of r) s1)))) \<noteq> None"
      by (simp split: sum.split)
    moreover obtain v where v: "(if sel = 2 then validateRequestID ctx else None) = v" by blast
    ultimately show ?thesis
      unfolding router_Handle_def Let_def Inr sum.case sel_def [symmetric] h v
      using False by (cases v; cases "checkRepeatVersion requested s") simp_all
  qed (auto simp: router_Handle_def Let_def Inr sel_def split: option.split)
qed (simp add: router_Handle_def)

lemma agent_initialize_total: "fst (agent_initialize jerr info_ok caps_ok svc ver params s) \<noteq> None"
proof -
  have "normalizeInitialize jerr info_ok caps_ok params requested sel \<noteq> None"
    if "ProtocolVersionFromInitialize jerr params = Inr requested" for requested sel
    using version_of_object [OF that] normalize_result(1) by blast
  then have "initialize_body jerr info_ok caps_ok svc ver params requested sel \<noteq> None"
    if "ProtocolVersionFromInitialize jerr params = Inr requested" for requested sel
    using that by (auto simp: initialize_body_def split: option.split sum.split)
  then show ?thesis
    unfolding agent_initialize_def by (auto simp del: not_None_eq split: option.split sum.split)
qed

lemma v2_agent_total: "fst (v2_agent_handle jerr info_ok caps_ok impl ver ctx method params s) \<noteq> None"
  using agent_initialize_total
  by (auto simp: v2_agent_handle_def v2_agent_Initialize_def split: option.split)


section \<open>The fallback to v1\<close>

lemma shared_keys:
  assumes "shared_capabilities jerr auth fs = Inr caps"
  shows "fst ` set caps \<subseteq> {''elicitation'', ''_meta'', ''auth''} \<and> (''auth'' \<in> fst ` set caps \<longleftrightarrow> auth \<noteq> None)"
proof -
  obtain source where s: "caps = (let kept = concat (map (\<lambda>key. case map_of source key of None \<Rightarrow> [] | Some raw \<Rightarrow> [(key, raw)])
        [''elicitation'', ''_meta'']) in case auth of None \<Rightarrow> kept | Some a \<Rightarrow> caps)"
    and put: "\<And>a. auth = Some a \<Longrightarrow> \<exists>enc. caps = put ''auth'' enc (concat (map (\<lambda>key. case map_of source key of
        None \<Rightarrow> [] | Some raw \<Rightarrow> [(key, raw)]) [''elicitation'', ''_meta'']))"
    using assms by (cases auth) (auto simp: shared_capabilities_def Let_def split: sum.splits)
  show ?thesis
  proof (cases auth)
    case None
    then show ?thesis using s by (auto split: option.splits)
  next
    case (Some a)
    then show ?thesis using put [OF Some] by (auto simp: put_def split: option.splits)
  qed
qed

section \<open>Properties\<close>

text \<open>C27: At most one handshake is in progress, and the end of one decides for good, whatever the
  connection does afterwards: when it succeeds, its version is selected and stays; when the first
  one fails, no version is ever selected and no handshake can begin any more; when a repeated one
  fails, the version selected before stays. A repeated handshake is for the selected version.\<close>

theorem handshake_pinned:
  assumes "reach (\<lambda>s. s = new_handshake) (h_step offered) s" and "0 \<notin> offered" and "sel \<in> set (h_flight s)"
    and "(h_step offered)\<^sup>*\<^sup>* (s\<lparr>h_state := init_finish sel err (h_state s), h_flight := remove1 sel (h_flight s)\<rparr>) t"
  shows "h_flight s = [sel] \<and> sel \<in> offered \<and>
    (err = None \<longrightarrow> i_selected (h_state t) = sel) \<and>
    (i_selected (h_state s) \<noteq> 0 \<longrightarrow> sel = i_selected (h_state s) \<and> i_selected (h_state t) = sel) \<and>
    (err \<noteq> None \<and> i_selected (h_state s) = 0 \<longrightarrow>
       i_selected (h_state t) = 0 \<and> h_flight t = [] \<and> (\<forall>sel' i. init_begin sel' (h_state t) \<noteq> Inr i))"
proof -
  let ?u = "s\<lparr>h_state := init_finish sel err (h_state s), h_flight := remove1 sel (h_flight s)\<rparr>"
  have inv: "h_inv offered s" using handshaking.reach_inv [OF assms(1)] .
  have fl: "h_flight s = [sel]" using inv assms(3) by (cases "h_flight s") (auto simp: h_inv_def split: if_splits)
  then have sel: "sel \<in> offered" "i_selected (h_state s) = 0 \<or> sel = i_selected (h_state s)" "initialized (h_state s)"
    using inv by (auto simp: h_inv_def split: if_splits)
  have inv_u: "h_inv offered ?u" by (rule h_inv_step [OF inv h_finishes [OF assms(3)]])
  have inv_t: "h_inv offered t" using handshaking.steps_inv [OF inv_u assms(4)] .
  note stay = h_steps_stay [OF assms(4) inv_u]
  have "err = None \<longrightarrow> i_selected (h_state t) = sel"
    using stay sel(1) assms(2) by (cases "sel = 0") (auto simp: init_finish_def)
  moreover have "i_selected (h_state s) \<noteq> 0 \<longrightarrow> sel = i_selected (h_state s) \<and> i_selected (h_state t) = sel"
    using stay sel(2) by (auto simp: init_finish_def)
  moreover have "failed t" if "err \<noteq> None" "i_selected (h_state s) = 0"
    using stay that sel(3) by (simp add: failed_def init_finish_def)
  then have "err \<noteq> None \<and> i_selected (h_state s) = 0 \<longrightarrow>
      i_selected (h_state t) = 0 \<and> h_flight t = [] \<and> (\<forall>sel' i. init_begin sel' (h_state t) \<noteq> Inr i)"
    using inv_t by (auto simp: failed_def init_begin_ok h_inv_def)
  ultimately show ?thesis using fl sel(1) by blast
qed

lemma handshake_pinned_witness:
  "\<exists>s t. (h_step {1, 2})\<^sup>*\<^sup>* new_handshake s \<and> h_flight s = [2] \<and> (h_step {1, 2})\<^sup>*\<^sup>* s t \<and> otherRequest (h_state t) \<and>
     i_selected (h_state t) = 0 \<and> (\<forall>sel i. init_begin sel (h_state t) \<noteq> Inr i)"
proof -
  let ?req = "\<lparr>ic_info = None, ic_params = None\<rparr>"
  let ?err = "Some (NewInvalidParams None)"
  define s1 where "s1 = \<lparr>h_state = \<lparr>i_selected = 0, initialized = True, initializing = True, otherRequest = False\<rparr>, h_flight = [2]\<rparr>"
  define s2 where "s2 = s1\<lparr>h_state := init_finish 2 ?err (h_state s1), h_flight := remove1 2 (h_flight s1)\<rparr>"
  define s3 where "s3 = s2\<lparr>h_state := snd (snd (init_route ?req (h_state s2)))\<rparr>"
  have st: "h_step {1, 2} new_handshake s1" "h_step {1, 2} s1 s2" "h_step {1, 2} s2 s3"
    using h_begins [of 2 "{1, 2}" new_handshake "h_state s1"] h_finishes [of 2 s1 "{1, 2}" ?err] h_routes [of "{1, 2}" s2 ?req]
    by (simp_all add: s1_def s2_def s3_def new_handshake_def no_handshake_def init_begin_def)
  have "reach (\<lambda>s. s = new_handshake) (h_step {1, 2}) new_handshake" by (rule reach.reach_init) (rule refl)
  then have r: "reach (\<lambda>s. s = new_handshake) (h_step {1, 2}) s1" using st(1) by (rule reach.reach_step)
  have steps: "(h_step {1, 2})\<^sup>*\<^sup>* new_handshake s1" "(h_step {1, 2})\<^sup>*\<^sup>* s1 s3" "(h_step {1, 2})\<^sup>*\<^sup>* s2 s3"
    using st by (auto intro: converse_rtranclp_into_rtranclp)
  have "i_selected (h_state s3) = 0 \<and> (\<forall>sel i. init_begin sel (h_state s3) \<noteq> Inr i)"
    using handshake_pinned [OF r _ _ steps(3) [unfolded s2_def]] by (simp add: s1_def)
  moreover have "otherRequest (h_state s3)"
    by (simp add: s3_def s2_def s1_def init_finish_def init_route_def is_request_def InboundInfoFromContext_def)
  ultimately show ?thesis using steps by (intro exI [of _ s1] exI [of _ s3]) (simp add: s1_def)
qed

text \<open>C28: No message makes the router or the agent of the profile panic: a handler the router calls is
  never nil, and the parameters of an \<open>initialize\<close> it rewrites are always an object.\<close>

theorem router_never_panics:
  assumes "reach (\<lambda>s. s = new_handshake) (h_step (set (supported_versions (V1 \<noteq> None) (V2 \<noteq> None)))) s"
  shows "fst (router_Handle env V1 V2 ctx method params (h_state s)) \<noteq> None \<and>
    fst (v2_agent_handle jerr info_ok caps_ok impl ver ctx method params i) \<noteq> None"
proof -
  have "h_inv (set (supported_versions (V1 \<noteq> None) (V2 \<noteq> None))) s" using handshaking.reach_inv [OF assms] .
  then have "fst (route_other V1 V2 ctx method params (h_state s)) \<noteq> None"
    by (intro route_other_total) (auto simp: h_inv_def)
  then have "fst (router_Handle env V1 V2 ctx method params (h_state s)) \<noteq> None"
    using router_initialize_total [of env V1 V2 ctx params "h_state s"]
    by (cases "method = ''initialize''") (simp_all add: router_Handle_def)
  then show ?thesis using v2_agent_total by blast
qed

lemma router_never_panics_witness:
  "fst (router_Handle (\<lparr>re_jerr = ErrText, re_info = (\<lambda>_. True), re_caps = (\<lambda>_. True), re_dec = (\<lambda>_. Inr None)\<rparr>)
      None (Some (\<lambda>_ _ _. Inr (Some (0::nat)))) (\<lparr>ic_info = None, ic_params = None\<rparr>) ''session/new'' ''{}'' no_handshake) \<noteq> None"
proof -
  have "reach (\<lambda>s. s = new_handshake)
      (h_step (set (supported_versions ((None :: nat handler option) \<noteq> None) (Some (\<lambda>_ _ _. Inr (Some (0::nat))) \<noteq> (None :: nat handler option)))))
      new_handshake" by (rule reach.reach_init) (rule refl)
  from conjunct1 [OF router_never_panics [OF this]] show ?thesis by (simp only: new_handshake_def handshake.simps not_False_eq_True)
qed

text \<open>C29: The parameters a v1 handler gets from a newer client carry only the client's information,
  metadata and capabilities, and of the capabilities only elicitation, metadata and, when the
  client can authenticate, \<open>auth\<close>: never access to files or terminals.\<close>

theorem v1_fallback_restricted:
  assumes "v1InitializeFields jerr dec params fs = Inr out"
  shows "fst ` set out \<subseteq> {''clientInfo'', ''clientCapabilities'', ''_meta''} \<and>
    (\<exists>caps raw. map_of out ''clientCapabilities'' = Some raw \<and> marshal_map caps = Inr raw \<and>
       fst ` set caps \<subseteq> {''elicitation'', ''_meta'', ''auth''} \<and>
       (''auth'' \<in> fst ` set caps \<longleftrightarrow> (\<exists>a. dec params = Inr (Some a))))"
proof -
  obtain auth caps raw where d: "dec params = Inr auth" and c: "shared_capabilities jerr auth fs = Inr caps"
    and m: "marshal_map caps = Inr raw"
    and out: "out = [(''clientInfo'', case map_of fs ''info'' of None \<Rightarrow> [] | Some r \<Rightarrow> r), (''clientCapabilities'', raw)]
        @ (case map_of fs ''_meta'' of None \<Rightarrow> [] | Some m \<Rightarrow> [(''_meta'', m)])"
    using assms by (auto simp: v1InitializeFields_def split: sum.splits)
  have "fst ` set out \<subseteq> {''clientInfo'', ''clientCapabilities'', ''_meta''}"
    and "map_of out ''clientCapabilities'' = Some raw"
    by (auto simp: out split: option.splits)
  then show ?thesis using m shared_keys [OF c] d by auto
qed

lemma v1_fallback_restricted_witness:
  "\<exists>out. v1InitializeFields ErrText (\<lambda>_. Inr (Some \<lparr>auth_terminal = False, auth_meta = None\<rparr>)) []
      [(''info'', ''{}''), (''capabilities'', ''{\"fs\":1,\"elicitation\":{}}'')] = Inr out \<and>
    map_of out ''clientCapabilities'' = Some ''{\"auth\":{\"terminal\":false},\"elicitation\":{}}'' \<and>
    fst ` set out \<subseteq> {''clientInfo'', ''clientCapabilities'', ''_meta''}"
proof -
  have "v1InitializeFields ErrText (\<lambda>_. Inr (Some \<lparr>auth_terminal = False, auth_meta = None\<rparr>)) []
      [(''info'', ''{}''), (''capabilities'', ''{\"fs\":1,\"elicitation\":{}}'')] =
      Inr [(''clientInfo'', ''{}''), (''clientCapabilities'', ''{\"auth\":{\"terminal\":false},\"elicitation\":{}}'')]"
    by code_simp
  from this v1_fallback_restricted [OF this] show ?thesis by auto
qed

end
