(* ===== verification/Writes.thy ===== *)
theory Writes
  imports Connection
begin

text \<open>
  The queue of writes of \<open>connection.go\<close>: \<open>sendEncoded\<close> and \<open>processWrites\<close> with their
  goroutines. A \<open>queuedWrite\<close> is an entry of \<open>wq_jobs\<close>; the channel holds their indices, and
  the channel \<open>done\<close> of a job, whose buffer is one, is an option. Theory \<open>Connection\<close> takes a
  send as one step; the last section relates that step to a run of the goroutines here.
\<close>

section \<open>Jobs and the queue\<close>

record queued_write =
  qw_ctx :: "(go_error \<times> go_error) option"
  qw_data :: string
  qw_done :: "go_error option option"
  qw_gated :: bool

text \<open>
  \<open>wq_wire\<close> are the bytes the transport accepted, \<open>wq_order\<close> the jobs it took without an error,
  \<open>wq_current\<close> the job inside \<open>Write\<close>, \<open>wq_waiting\<close> the senders that have not returned, and
  \<open>wq_told\<close> what the others returned. \<open>wq_past_check\<close> says that the writer stands between its two
  \<open>select\<close>s: it has found the connection open, and now either sees the end of the connection or
  takes a job.
\<close>

record writes =
  wq_jobs :: "queued_write list"
  wq_chan :: "nat chan"
  wq_past_check :: bool
  wq_current :: "nat option"
  wq_order :: "nat list"
  wq_wire :: string
  wq_cause :: "go_error option"
  wq_stopped :: bool
  wq_waiting :: "nat list"
  wq_told :: "(nat \<times> go_error option) list"

definition new_writes :: "nat \<Rightarrow> writes" where
  "new_writes n =
     \<lparr>wq_jobs = [], wq_chan = make_chan n, wq_past_check = False, wq_current = None, wq_order = [], wq_wire = [], wq_cause = None,
      wq_stopped = False, wq_waiting = [], wq_told = []\<rparr>"

definition send_done :: "nat \<Rightarrow> go_error option \<Rightarrow> writes \<Rightarrow> writes" where
  "send_done i res s = s\<lparr>wq_jobs := (wq_jobs s)[i := (wq_jobs s ! i)\<lparr>qw_done := Some res\<rparr>]\<rparr>"

text \<open>The first \<open>select\<close> of a sender, in the branch that queues the write.\<close>

definition submit_write :: "bool \<Rightarrow> (go_error \<times> go_error) option \<Rightarrow> string \<Rightarrow> writes \<Rightarrow> writes option" where
  "submit_write gated c encoded s =
     (case chan_try_send (length (wq_jobs s)) (wq_chan s) of
        None \<Rightarrow> None
      | Some ch \<Rightarrow>
          Some (s\<lparr>wq_jobs := wq_jobs s @ [\<lparr>qw_ctx = c, qw_data = encoded, qw_done = None, qw_gated = gated\<rparr>],
                  wq_chan := ch, wq_waiting := wq_waiting s @ [length (wq_jobs s)]\<rparr>))"

text \<open>What the second \<open>select\<close> can return: the result, the end of the context, or that of the connection.\<close>

definition send_returns :: "nat \<Rightarrow> go_error option \<Rightarrow> writes \<Rightarrow> bool" where
  "send_returns i res s \<longleftrightarrow>
     qw_done (wq_jobs s ! i) = Some res \<or>
     (qw_ctx (wq_jobs s ! i) \<noteq> None \<and> res = map_option snd (qw_ctx (wq_jobs s ! i))) \<or>
     (wq_cause s \<noteq> None \<and> res = wq_cause s)"

section \<open>The writer\<close>

text \<open>The first \<open>select\<close> of the loop.\<close>

definition check_done :: "writes \<Rightarrow> writes" where
  "check_done s = (if wq_cause s \<noteq> None then s\<lparr>wq_stopped := True\<rparr> else s\<lparr>wq_past_check := True\<rparr>)"

text \<open>
  The second one takes a job; \<open>gate\<close> is what its \<open>beginWrite\<close> returns, if it has one. A job that
  is refused leads back to the first.
\<close>

definition take_write :: "go_error option \<Rightarrow> writes \<Rightarrow> writes option" where
  "take_write gate s =
     (case chan_receive (wq_chan s) of
        None \<Rightarrow> None
      | Some (i, ch) \<Rightarrow>
          (let s1 = s\<lparr>wq_chan := ch, wq_past_check := False\<rparr>
           in case qw_ctx (wq_jobs s ! i) of
                Some (err, _) \<Rightarrow> Some (send_done i (Some err) s1)
              | None \<Rightarrow>
                  (case (if qw_gated (wq_jobs s ! i) then gate else None) of
                     Some err \<Rightarrow> Some (send_done i (Some err) s1)
                   | None \<Rightarrow> Some (s1\<lparr>wq_current := Some i\<rparr>))))"

text \<open>\<open>Write\<close> returned \<open>n\<close> and \<open>werr\<close>.\<close>

definition finish_write :: "nat \<Rightarrow> nat \<Rightarrow> go_error option \<Rightarrow> writes \<Rightarrow> writes" where
  "finish_write i n werr s =
     (let encoded = qw_data (wq_jobs s ! i);
          err = (if werr = None \<and> n \<noteq> length encoded then Some ErrShortWrite else werr);
          s1 = s\<lparr>wq_wire := wq_wire s @ take n encoded, wq_current := None\<rparr>
      in case err of
           Some e \<Rightarrow>
             (let failure = transportError OpWrite (Some e); s2 = send_done i failure s1
              in s2\<lparr>wq_cause := (if wq_cause s = None then failure else wq_cause s), wq_stopped := True\<rparr>)
         | None \<Rightarrow> send_done i None (s1\<lparr>wq_order := wq_order s @ [i]\<rparr>))"

section \<open>The goroutines\<close>

inductive w_step :: "writes \<Rightarrow> writes \<Rightarrow> bool" where
  w_submit: "submit_write gated c encoded s = Some t \<Longrightarrow> w_step s t"
| w_check: "wq_current s = None \<Longrightarrow> \<not> wq_stopped s \<Longrightarrow> \<not> wq_past_check s \<Longrightarrow> w_step s (check_done s)"
| w_take: "wq_current s = None \<Longrightarrow> \<not> wq_stopped s \<Longrightarrow> wq_past_check s \<Longrightarrow> take_write gate s = Some t \<Longrightarrow> w_step s t"
| w_write: "wq_current s = Some i \<Longrightarrow> n \<le> length (qw_data (wq_jobs s ! i)) \<Longrightarrow>
    w_step s (finish_write i n werr s)"
| w_stop: "wq_current s = None \<Longrightarrow> wq_past_check s \<Longrightarrow> wq_cause s \<noteq> None \<Longrightarrow> w_step s (s\<lparr>wq_stopped := True\<rparr>)"
| w_close: "wq_cause s = None \<Longrightarrow> w_step s (s\<lparr>wq_cause := Some e\<rparr>)"
| w_ctx_ends: "i < length (wq_jobs s) \<Longrightarrow> qw_ctx (wq_jobs s ! i) = None \<Longrightarrow>
    w_step s (s\<lparr>wq_jobs := (wq_jobs s)[i := (wq_jobs s ! i)\<lparr>qw_ctx := Some c\<rparr>]\<rparr>)"
| w_return: "i \<in> set (wq_waiting s) \<Longrightarrow> send_returns i res s \<Longrightarrow>
    w_step s (s\<lparr>wq_waiting := remove1 i (wq_waiting s), wq_told := wq_told s @ [(i, res)]\<rparr>)"

section \<open>The invariant\<close>

definition job_data :: "writes \<Rightarrow> nat \<Rightarrow> string" where
  "job_data s i = qw_data (wq_jobs s ! i)"

text \<open>The jobs that are written, being written or queued, in this order.\<close>

definition pipeline :: "writes \<Rightarrow> nat list" where
  "pipeline s = wq_order s @ opt_list (wq_current s) @ chan_items (wq_chan s)"

definition in_order :: "writes \<Rightarrow> bool" where
  "in_order s \<longleftrightarrow>
     sorted_wrt (<) (pipeline s) \<and> (\<forall>i \<in> set (pipeline s) \<union> set (wq_waiting s). i < length (wq_jobs s))"

definition done_once :: "writes \<Rightarrow> bool" where
  "done_once s \<longleftrightarrow>
     (\<forall>i < length (wq_jobs s). (qw_done (wq_jobs s ! i) = Some None \<longleftrightarrow> i \<in> set (wq_order s)) \<and>
        (i \<in> set (opt_list (wq_current s)) \<union> set (chan_items (wq_chan s)) \<longrightarrow> qw_done (wq_jobs s ! i) = None))"

text \<open>
  The frame at the end of the wire, if its write failed: a prefix of the data of a job that was
  queued after those that were written, and whose sender is told of the failure.
\<close>

definition torn_frame :: "writes \<Rightarrow> string \<Rightarrow> bool" where
  "torn_frame s torn \<longleftrightarrow> wq_stopped s \<and>
     (\<exists>i < length (wq_jobs s). prefix torn (job_data s i) \<and> (\<forall>j \<in> set (wq_order s). j < i) \<and>
        (\<exists>e. qw_done (wq_jobs s ! i) = Some (Some e)))"

definition whole_writes :: "writes \<Rightarrow> bool" where
  "whole_writes s \<longleftrightarrow>
     (\<exists>torn. wq_wire s = concat (map (job_data s) (wq_order s)) @ torn \<and> (torn = [] \<or> torn_frame s torn))"

definition stopped_ok :: "writes \<Rightarrow> bool" where
  "stopped_ok s \<longleftrightarrow> (wq_stopped s \<longrightarrow> wq_current s = None \<and> wq_cause s \<noteq> None) \<and>
     (wq_current s \<noteq> None \<longrightarrow> \<not> wq_past_check s)"

definition told_ok :: "writes \<Rightarrow> bool" where
  "told_ok s \<longleftrightarrow> (\<forall>i res. (i, res) \<in> set (wq_told s) \<longrightarrow> i < length (wq_jobs s) \<and> (res = None \<longrightarrow> i \<in> set (wq_order s)))"

definition w_inv :: "writes \<Rightarrow> bool" where
  "w_inv s \<longleftrightarrow> in_order s \<and> done_once s \<and> whole_writes s \<and> stopped_ok s \<and> told_ok s"

lemmas w_inv_parts = in_order_def done_once_def stopped_ok_def told_ok_def pipeline_def

lemma send_done_simps [simp]:
  "wq_chan (send_done i r s) = wq_chan s" "wq_past_check (send_done i r s) = wq_past_check s" "wq_current (send_done i r s) = wq_current s"
  "wq_order (send_done i r s) = wq_order s" "wq_wire (send_done i r s) = wq_wire s"
  "wq_cause (send_done i r s) = wq_cause s" "wq_stopped (send_done i r s) = wq_stopped s"
  "wq_waiting (send_done i r s) = wq_waiting s" "wq_told (send_done i r s) = wq_told s"
  "length (wq_jobs (send_done i r s)) = length (wq_jobs s)"
  by (simp_all add: send_done_def)

lemma send_done_nth:
  "i < length (wq_jobs s) \<Longrightarrow> wq_jobs (send_done i r s) ! j = (if j = i then (wq_jobs s ! i)\<lparr>qw_done := Some r\<rparr> else wq_jobs s ! j)"
  by (auto simp: send_done_def)

lemma job_data_send_done [simp]: "i < length (wq_jobs s) \<Longrightarrow> job_data (send_done i r s) = job_data s"
  by (auto simp: job_data_def send_done_nth)

lemma job_data_jobs: "wq_jobs t = wq_jobs s \<Longrightarrow> job_data t = job_data s"
  by (auto simp: job_data_def)

text \<open>What is on the wire, for a writer that goes on, and for a step that leaves it alone.\<close>

lemma whole_open: "\<not> wq_stopped s \<Longrightarrow> whole_writes s \<longleftrightarrow> wq_wire s = concat (map (job_data s) (wq_order s))"
  by (auto simp: whole_writes_def torn_frame_def)

lemma whole_kept:
  assumes "whole_writes s" "in_order s" "wq_wire t = wq_wire s" "wq_order t = wq_order s" "wq_stopped s \<Longrightarrow> wq_stopped t"
    and jobs: "\<And>i. i < length (wq_jobs s) \<Longrightarrow> i < length (wq_jobs t) \<and> job_data t i = job_data s i \<and>
      qw_done (wq_jobs t ! i) = qw_done (wq_jobs s ! i)"
  shows "whole_writes t"
proof -
  have "map (job_data t) (wq_order s) = map (job_data s) (wq_order s)"
    using assms(2) jobs by (auto simp: in_order_def pipeline_def)
  moreover have "torn_frame t x" if "torn_frame s x" for x
    using that assms(4,5) jobs unfolding torn_frame_def by (metis (no_types, lifting))
  ultimately show ?thesis using assms(1,3,4) unfolding whole_writes_def by metis
qed

lemma w_inv_submit:
  assumes inv: "w_inv s" and "submit_write gated c encoded s = Some t"
  shows "w_inv t"
proof -
  obtain ch where ch: "chan_items ch = chan_items (wq_chan s) @ [length (wq_jobs s)]"
    and t: "t = s\<lparr>wq_jobs := wq_jobs s @ [\<lparr>qw_ctx = c, qw_data = encoded, qw_done = None, qw_gated = gated\<rparr>],
                  wq_chan := ch, wq_waiting := wq_waiting s @ [length (wq_jobs s)]\<rparr>"
    using assms(2) by (auto simp: submit_write_def dest: chan_send_Some split: option.splits)
  have lt: "i < length (wq_jobs s)" if "i \<in> set (wq_order s)" for i using inv that by (auto simp: w_inv_def w_inv_parts)
  have "pipeline t = pipeline s @ [length (wq_jobs s)]" by (simp add: pipeline_def t ch)
  then have "in_order t" using inv by (auto simp: w_inv_def in_order_def t sorted_wrt_append less_Suc_eq)
  moreover have "done_once t"
    using inv lt by (auto simp: w_inv_def done_once_def t ch nth_append less_Suc_eq)
  moreover have "whole_writes t"
    by (rule whole_kept [of s]) (use inv in \<open>auto simp: w_inv_def t job_data_def nth_append\<close>)
  moreover have "stopped_ok t" "told_ok t" using inv by (auto simp: w_inv_def stopped_ok_def told_ok_def t intro: less_SucI)
  ultimately show ?thesis by (simp add: w_inv_def)
qed

lemma w_inv_take:
  assumes inv: "w_inv s" and cur: "wq_current s = None" "\<not> wq_stopped s" and "take_write gate s = Some t"
  shows "w_inv t"
proof -
  obtain i ch where r: "chan_receive (wq_chan s) = Some (i, ch)"
    using assms(4) by (auto simp: take_write_def split: option.splits)
  then have items: "chan_items (wq_chan s) = i # chan_items ch" using chan_receive_Some [OF r] by blast
  have i: "i < length (wq_jobs s)" using inv items by (auto simp: w_inv_def w_inv_parts)
  have fresh: "i \<notin> set (wq_order s)" "i \<notin> set (chan_items ch)"
    using inv by (auto simp: w_inv_def w_inv_parts items sorted_wrt_append cur)
  let ?s1 = "s\<lparr>wq_chan := ch, wq_past_check := False\<rparr>"
  have parts: "in_order s" "done_once s" "whole_writes s" "stopped_ok s" "told_ok s" using inv by (simp_all add: w_inv_def)
  have refused: "w_inv (send_done i (Some e) ?s1)" for e
  proof -
    have "in_order (send_done i (Some e) ?s1)"
      using parts(1) by (auto simp: in_order_def pipeline_def items cur sorted_wrt_append)
    moreover have "done_once (send_done i (Some e) ?s1)"
      using parts(2) fresh i by (auto simp: done_once_def items cur send_done_nth)
    moreover have "whole_writes (send_done i (Some e) ?s1)"
      using parts(3) i cur by (simp add: whole_open job_data_jobs [of ?s1 s])
    ultimately show ?thesis using parts(4,5) by (simp add: w_inv_def stopped_ok_def told_ok_def)
  qed
  have taken: "w_inv (?s1\<lparr>wq_current := Some i\<rparr>)"
    using parts cur by (auto simp: w_inv_def w_inv_parts whole_open items job_data_jobs [of "?s1\<lparr>wq_current := Some i\<rparr>" s])
  show ?thesis using assms(4) refused taken
    by (auto simp: take_write_def r Let_def split: option.splits if_splits)
qed

lemma w_inv_write:
  assumes inv: "w_inv s" and cur: "wq_current s = Some i"
  shows "w_inv (finish_write i n werr s)"
proof -
  have parts: "in_order s" "done_once s" "whole_writes s" "stopped_ok s" "told_ok s" using inv by (simp_all add: w_inv_def)
  have i: "i < length (wq_jobs s)" using parts(1) cur by (simp add: in_order_def pipeline_def)
  have fresh: "i \<notin> set (wq_order s)" "i \<notin> set (chan_items (wq_chan s))"
    using parts(1) by (auto simp: in_order_def pipeline_def cur sorted_wrt_append)
  have stopped: "\<not> wq_stopped s" using parts(4) cur by (auto simp: stopped_ok_def)
  let ?d = "qw_data (wq_jobs s ! i)"
  let ?s1 = "s\<lparr>wq_wire := wq_wire s @ take n ?d, wq_current := None\<rparr>"
  have j1: "job_data ?s1 = job_data s" by (rule job_data_jobs) simp
  have failed: "w_inv ((send_done i (Some e) ?s1)\<lparr>wq_cause := c, wq_stopped := True\<rparr>)" (is "w_inv ?t") if c: "c \<noteq> None" for e c
  proof -
    have "job_data ?t = job_data (send_done i (Some e) ?s1)" by (rule job_data_jobs) simp
    also have "\<dots> = job_data ?s1" using i by (intro job_data_send_done) simp
    finally have jd: "job_data ?t = job_data s" using j1 by simp
    have "torn_frame ?t (take n ?d)"
      using i parts(1) cur unfolding torn_frame_def jd
      by (intro conjI exI [of _ i])
        (auto simp: send_done_nth in_order_def pipeline_def sorted_wrt_append job_data_def take_is_prefix)
    moreover have "wq_wire s = concat (map (job_data s) (wq_order s))" using parts(3) stopped by (simp add: whole_open)
    ultimately have "whole_writes ?t" unfolding whole_writes_def jd by auto
    moreover have "in_order ?t" using parts(1) by (auto simp: in_order_def pipeline_def cur sorted_wrt_append)
    moreover have "done_once ?t" using parts(2) fresh i by (auto simp: done_once_def cur send_done_nth)
    moreover have "stopped_ok ?t" "told_ok ?t" using parts(5) c by (auto simp: stopped_ok_def told_ok_def)
    ultimately show ?thesis by (simp add: w_inv_def)
  qed
  let ?s2 = "send_done i None (?s1\<lparr>wq_order := wq_order s @ [i]\<rparr>)"
  have ok: "w_inv ?s2" if n: "n = length ?d"
  proof -
    have "job_data ?s2 = job_data (?s1\<lparr>wq_order := wq_order s @ [i]\<rparr>)" using i by (intro job_data_send_done) simp
    also have "\<dots> = job_data s" by (rule job_data_jobs) simp
    finally have jd: "job_data ?s2 = job_data s" .
    have "in_order ?s2" using parts(1) by (auto simp: in_order_def pipeline_def cur sorted_wrt_append)
    moreover have "done_once ?s2" using parts(2) fresh i by (auto simp: done_once_def cur send_done_nth)
    moreover have "wq_wire s = concat (map (job_data s) (wq_order s))" using parts(3) stopped by (simp add: whole_open)
    then have "whole_writes ?s2" unfolding whole_writes_def jd by (simp add: n job_data_def [of s i])
    moreover have "stopped_ok ?s2" "told_ok ?s2" using parts(5) stopped by (auto simp: stopped_ok_def told_ok_def)
    ultimately show ?thesis by (simp add: w_inv_def)
  qed
  show ?thesis using failed ok
    by (auto simp: finish_write_def Let_def transportError_def split: option.split)
qed

lemma w_inv_step: "w_step s t \<Longrightarrow> w_inv s \<Longrightarrow> w_inv t"
proof (induction rule: w_step.induct)
  case (w_check s)
  then show ?case using whole_kept [of s "check_done s"]
    by (auto simp: check_done_def w_inv_def w_inv_parts job_data_def)
next
  case (w_stop s)
  then show ?case using whole_kept [of s "s\<lparr>wq_stopped := True\<rparr>"]
    by (auto simp: w_inv_def w_inv_parts job_data_def)
next
  case (w_close s e)
  then show ?case using whole_kept [of s "s\<lparr>wq_cause := Some e\<rparr>"]
    by (auto simp: w_inv_def w_inv_parts job_data_def)
next
  case (w_ctx_ends i s c)
  then show ?case using whole_kept [of s "s\<lparr>wq_jobs := (wq_jobs s)[i := (wq_jobs s ! i)\<lparr>qw_ctx := Some c\<rparr>]\<rparr>"]
    by (auto simp: w_inv_def w_inv_parts nth_list_update job_data_def)
next
  case (w_return i s res)
  then show ?case
    using whole_kept [of s "s\<lparr>wq_waiting := remove1 i (wq_waiting s), wq_told := wq_told s @ [(i, res)]\<rparr>"]
    by (auto simp: w_inv_def w_inv_parts job_data_def send_returns_def dest: notin_set_remove1)
qed (auto intro: w_inv_submit w_inv_take w_inv_write)

interpretation writing: invariant_system "\<lambda>s. s = new_writes cap" w_step w_inv for cap
proof unfold_locales
  show "s = new_writes cap \<Longrightarrow> w_inv s" for s
    by (simp add: new_writes_def w_inv_def w_inv_parts whole_writes_def)
  show "w_inv s \<Longrightarrow> w_step s t \<Longrightarrow> w_inv t" for s t using w_inv_step by blast
qed


section \<open>A send as one step\<close>

text \<open>The goroutines between two sends of a connection that is sending nothing else.\<close>

definition idle_as :: "conn \<Rightarrow> writes \<Rightarrow> bool" where
  "idle_as c s \<longleftrightarrow>
     w_inv s \<and> wq_cause s = cause_of c \<and> map (job_data s) (wq_order s) = written c \<and>
     chan_items (wq_chan s) = [] \<and> 0 < chan_cap (wq_chan s) \<and> wq_current s = None \<and>
     (\<not> closed c \<longrightarrow> \<not> wq_stopped s \<and> wq_past_check s)"

text \<open>The run of a send: the sender queues, the writer takes and writes, the sender returns.\<close>

lemma send_run:
  assumes idle: "idle_as c s" and n: "n \<le> length enc" and open_conn: "\<not> closed c"
  defines "i \<equiv> length (wq_jobs s)"
  obtains t where "w_step\<^sup>*\<^sup>* s t" "w_inv t" "wq_current t = Some i" "chan_items (wq_chan t) = []"
    "chan_cap (wq_chan t) = chan_cap (wq_chan s)" "wq_cause t = None" "\<not> wq_stopped t" "\<not> wq_past_check t" "i < length (wq_jobs t)"
    "wq_order t = wq_order s" "map (job_data t) (wq_order s) = written c" "job_data t i = enc" "i \<in> set (wq_waiting t)"
proof -
  have inv: "w_inv s" using idle by (simp add: idle_as_def)
  have lt: "\<forall>j \<in> set (wq_order s). j < i" using inv by (auto simp: w_inv_def in_order_def pipeline_def i_def)
  define ch where "ch = (wq_chan s)\<lparr>chan_items := [i]\<rparr>"
  have ch: "chan_try_send i (wq_chan s) = Some ch" "chan_items ch = [i]" "chan_cap ch = chan_cap (wq_chan s)"
    using idle by (simp_all add: idle_as_def chan_try_send_def ch_def)
  define s1 where "s1 = s\<lparr>wq_jobs := wq_jobs s @ [\<lparr>qw_ctx = None, qw_data = enc, qw_done = None, qw_gated = False\<rparr>],
                  wq_chan := ch, wq_waiting := wq_waiting s @ [i]\<rparr>"
  have st1: "w_step s s1" by (rule w_submit [of False None enc]) (simp add: submit_write_def ch(1) s1_def i_def [symmetric])
  define t where "t = s1\<lparr>wq_chan := ch\<lparr>chan_items := []\<rparr>, wq_past_check := False, wq_current := Some i\<rparr>"
  have st2: "w_step s1 t"
    using idle open_conn by (intro w_take [of _ None])
      (simp_all add: idle_as_def s1_def t_def take_write_def chan_receive_def ch i_def Let_def)
  have st: "w_step\<^sup>*\<^sup>* s t" using st1 st2 by (meson converse_rtranclp_into_rtranclp r_into_rtranclp)
  have "map (job_data t) (wq_order s) = map (job_data s) (wq_order s)"
    using lt by (auto simp: job_data_def t_def s1_def nth_append i_def)
  then have old: "map (job_data t) (wq_order s) = written c" using idle unfolding idle_as_def by (simp del: map_eq_conv)
  show thesis
    by (rule that [OF st writing.steps_inv [OF inv st] _ _ _ _ _ _ _ _ old])
      (use idle open_conn in \<open>simp_all add: idle_as_def t_def s1_def ch job_data_def i_def\<close>)
qed

lemma send_return:
  assumes "w_step\<^sup>*\<^sup>* s t" "i \<in> set (wq_waiting t)" "send_returns i r t"
  shows "w_step\<^sup>*\<^sup>* s (t\<lparr>wq_waiting := remove1 i (wq_waiting t), wq_told := wq_told t @ [(i, r)]\<rparr>)"
  using assms(1) w_return [OF assms(2,3)] by (rule rtranclp.rtrancl_into_rtrancl)

text \<open>
  Sending a frame in one step, as the model of the connection does, is a run of the goroutines,
  when the connection is open or the frame is not taken any more: it leads to the same frames, the
  same failure of the connection and the same result.
\<close>

lemma atomic_send_refined:
  assumes idle: "idle_as c s" and send: "sendEncoded enc c = (r, c')" and "closed c \<Longrightarrow> late c enc = Unsent"
  shows "\<exists>t. w_step\<^sup>*\<^sup>* s t \<and> idle_as c' t \<and> (\<not> closed c \<longrightarrow> (length (wq_jobs s), r) \<in> set (wq_told t))"
proof (cases "closed c")
  case True
  then show ?thesis using idle send assms(3) by (auto simp: sendEncoded_def)
next
  case False
  let ?i = "length (wq_jobs s)"
  obtain t where t: "w_step\<^sup>*\<^sup>* s t" "w_inv t" "wq_current t = Some ?i" "chan_items (wq_chan t) = []"
    "chan_cap (wq_chan t) = chan_cap (wq_chan s)" "wq_cause t = None" "\<not> wq_stopped t" "\<not> wq_past_check t" "?i < length (wq_jobs t)"
    "wq_order t = wq_order s" "map (job_data t) (wq_order s) = written c" "job_data t ?i = enc" "?i \<in> set (wq_waiting t)"
    using send_run [OF idle _ False, of 0 enc] by blast
  have data: "map (job_data u) (wq_order s) = written c" if "job_data u = job_data t" for u using t(11) that by simp
  show ?thesis
  proof (cases "writer c (written c) enc")
    case None
    let ?u = "finish_write ?i (length enc) None t"
    let ?v = "?u\<lparr>wq_waiting := remove1 ?i (wq_waiting ?u), wq_told := wq_told ?u @ [(?i, None)]\<rparr>"
    have d: "qw_data (wq_jobs t ! ?i) = enc" using t(12) by (simp add: job_data_def)
    have u: "?u = send_done ?i None (t\<lparr>wq_wire := wq_wire t @ enc, wq_current := None, wq_order := wq_order t @ [?i]\<rparr>)"
      by (simp add: finish_write_def d)
    have "w_step\<^sup>*\<^sup>* s ?u" using t(1) by (rule rtranclp.rtrancl_into_rtrancl) (rule w_write, use t(3) d in auto)
    then have v: "w_step\<^sup>*\<^sup>* s ?v"
      by (rule send_return) (use t(9,13) in \<open>auto simp: u send_returns_def send_done_nth\<close>)
    let ?x = "?v\<lparr>wq_past_check := True\<rparr>"
    have "check_done ?v = ?x" using t(6) by (simp add: check_done_def u)
    then have "w_step ?v ?x" using w_check [of ?v] t(7,8) by (simp add: u)
    with v have x: "w_step\<^sup>*\<^sup>* s ?x" by (rule rtranclp.rtrancl_into_rtrancl)
    have "job_data ?x = job_data ?u" by (rule job_data_jobs) simp
    also have "\<dots> = job_data (t\<lparr>wq_wire := wq_wire t @ enc, wq_current := None, wq_order := wq_order t @ [?i]\<rparr>)"
      unfolding u using t(9) by (intro job_data_send_done) simp
    also have "\<dots> = job_data t" by (rule job_data_jobs) simp
    finally have jd: "job_data ?x = job_data t" .
    have c': "r = None" "c' = c\<lparr>written := written c @ [enc]\<rparr>" using send False None by (auto simp: sendEncoded_def)
    have "idle_as c' ?x"
      using idle False t data [OF jd] writing.steps_inv [OF _ x]
      unfolding idle_as_def jd by (auto simp: c' u)
    then show ?thesis using x c' by auto
  next
    case (Some e)
    let ?f = "TransportErr OpWrite (Some e)"
    let ?u = "finish_write ?i 0 (Some e) t"
    let ?v = "?u\<lparr>wq_waiting := remove1 ?i (wq_waiting ?u), wq_told := wq_told ?u @ [(?i, Some ?f)]\<rparr>"
    have u: "?u = (send_done ?i (Some ?f) (t\<lparr>wq_current := None\<rparr>))\<lparr>wq_cause := Some ?f, wq_stopped := True\<rparr>"
      using t(6) by (simp add: finish_write_def Let_def transportError_def)
    have "w_step\<^sup>*\<^sup>* s ?u" using t(1) by (rule rtranclp.rtrancl_into_rtrancl) (rule w_write, use t(3) in auto)
    then have v: "w_step\<^sup>*\<^sup>* s ?v"
      by (rule send_return) (use t(9,13) in \<open>auto simp: u send_returns_def send_done_nth\<close>)
    have "job_data ?v = job_data (send_done ?i (Some ?f) (t\<lparr>wq_current := None\<rparr>))" by (rule job_data_jobs) (simp add: u)
    also have "\<dots> = job_data (t\<lparr>wq_current := None\<rparr>)" using t(9) by (intro job_data_send_done) simp
    also have "\<dots> = job_data t" by (rule job_data_jobs) simp
    finally have jd: "job_data ?v = job_data t" .
    have c': "r = Some ?f" "c' = shutdown (Some ?f) c"
      using send False Some by (auto simp: sendEncoded_def transportError_def Let_def)
    have "idle_as c' ?v"
      using idle False t data [OF jd] writing.steps_inv [OF _ v]
      unfolding idle_as_def jd by (auto simp: c' u shutdown_def shutdown_pendings_def)
    then show ?thesis using v c' by auto
  qed
qed

section \<open>After the end of the connection\<close>

lemma stopped_silent:
  "w_step\<^sup>*\<^sup>* s t \<Longrightarrow> w_inv s \<Longrightarrow> wq_stopped s \<Longrightarrow> wq_stopped t \<and> wq_wire t = wq_wire s"
proof (induction rule: rtranclp_induct)
  case (step t u)
  have t: "w_inv t" using writing.steps_inv [OF step.prems(1) step.hyps(1)] .
  have u: "wq_stopped t" "wq_wire t = wq_wire s" using step by simp_all
  from step.hyps(2) t u show ?case
    by (cases rule: w_step.cases) (auto simp: submit_write_def w_inv_def stopped_ok_def split: option.splits)
qed simp

lemma data_done [simp]: "qw_data (js[j := (js ! j)\<lparr>qw_done := r\<rparr>] ! i) = qw_data (js ! i)"
  by (cases "j < length js") (simp_all add: nth_list_update list_update_beyond)

lemma jobs_kept:
  assumes "w_step s t" "w_inv s" "i < length (wq_jobs s)"
  shows "i < length (wq_jobs t) \<and> job_data t i = job_data s i"
  using assms(1)
proof cases
  case (w_take gate)
  then show ?thesis using assms(3)
    by (auto simp: take_write_def job_data_def send_done_def Let_def split: option.splits if_splits)
next
  case (w_write j n werr)
  then show ?thesis using assms(3)
    by (auto simp: finish_write_def job_data_def send_done_def Let_def transportError_def split: option.splits)
next
  case (w_submit gated c encoded)
  then show ?thesis using assms(3)
    by (auto simp: submit_write_def job_data_def nth_append split: option.splits)
next
  case (w_ctx_ends j c)
  then show ?thesis using assms(3) by (auto simp: job_data_def nth_list_update)
qed (use assms(3) in \<open>auto simp: job_data_def check_done_def\<close>)

text \<open>
  The state \<open>s\<close> reached from a closed state with the order \<open>os\<close> and the wire \<open>w\<close>: nothing has been
  added, or one write has ended and the writer can only stop.
\<close>

definition winding_down :: "nat list \<Rightarrow> string \<Rightarrow> writes \<Rightarrow> bool" where
  "winding_down os w s \<longleftrightarrow> wq_cause s \<noteq> None \<and>
     (wq_order s = os \<and> wq_wire s = w \<or>
      wq_current s = None \<and> \<not> wq_past_check s \<and>
        (\<exists>js rest i. wq_order s = os @ js \<and> length js \<le> 1 \<and> wq_wire s = w @ rest \<and>
           i < length (wq_jobs s) \<and> prefix rest (job_data s i)))"

lemma winding_down_quiet:
  assumes "w_step s t" "w_inv s" "winding_down os w s"
    "wq_order t = wq_order s" "wq_wire t = wq_wire s" "wq_cause t \<noteq> None"
    "wq_current s = None \<Longrightarrow> \<not> wq_past_check s \<Longrightarrow> wq_current t = None \<and> \<not> wq_past_check t"
  shows "winding_down os w t"
  using assms(3-7) jobs_kept [OF assms(1,2)] unfolding winding_down_def by metis

lemma winding_down_step:
  assumes st: "w_step s t" and inv: "w_inv s" and wd: "winding_down os w s"
  shows "winding_down os w t"
  using st
proof cases
  case (w_write i n werr)
  have "i < length (wq_jobs s)" using inv w_write by (simp add: w_inv_def in_order_def pipeline_def)
  then have i: "i < length (wq_jobs t)" "job_data t i = job_data s i" using jobs_kept [OF st inv] by blast+
  have old: "wq_order s = os" "wq_wire s = w" "\<not> wq_past_check s"
    using wd inv w_write by (auto simp: winding_down_def w_inv_def stopped_ok_def)
  have "wq_wire t = w @ take n (job_data s i)" "wq_current t = None" "\<not> wq_past_check t" "wq_cause t \<noteq> None"
    "\<exists>js. wq_order t = os @ js \<and> length js \<le> 1"
    using old wd w_write
    by (auto simp: finish_write_def job_data_def Let_def transportError_def winding_down_def split: option.splits)
  with i show ?thesis using take_is_prefix [of n "job_data s i"] unfolding winding_down_def by metis
next
  case (w_take gate)
  then show ?thesis using wd
    by (auto simp: winding_down_def take_write_def Let_def split: option.splits if_splits)
next
  case (w_submit gated c encoded)
  then show ?thesis using wd
    by (intro winding_down_quiet [OF st inv wd]) (auto simp: winding_down_def submit_write_def split: option.splits)
next
  case w_check
  then show ?thesis using wd by (intro winding_down_quiet [OF st inv wd]) (auto simp: winding_down_def check_done_def)
next
  case w_stop
  then show ?thesis using wd by (intro winding_down_quiet [OF st inv wd]) (auto simp: winding_down_def)
next
  case (w_close e)
  then show ?thesis using wd by (intro winding_down_quiet [OF st inv wd]) (auto simp: winding_down_def)
next
  case (w_ctx_ends i c)
  then show ?thesis using wd by (intro winding_down_quiet [OF st inv wd]) (auto simp: winding_down_def)
next
  case (w_return i res)
  then show ?thesis using wd by (intro winding_down_quiet [OF st inv wd]) (auto simp: winding_down_def)
qed

lemma winding_down_steps:
  "w_step\<^sup>*\<^sup>* s t \<Longrightarrow> w_inv s \<Longrightarrow> wq_cause s \<noteq> None \<Longrightarrow> winding_down (wq_order s) (wq_wire s) t"
proof (induction rule: rtranclp_induct)
  case base
  then show ?case by (simp add: winding_down_def)
next
  case (step t u)
  then show ?case using winding_down_step writing.steps_inv [OF step.prems(1) step.hyps(1)] by blast
qed

section \<open>Properties\<close>

text \<open>A run with one frame: it is queued, the writer takes it, and the transport takes \<open>n\<close> bytes of it.\<close>

definition demo_taken :: writes where
  "demo_taken = (new_writes 1)\<lparr>wq_jobs := [\<lparr>qw_ctx = None, qw_data = ''ab'', qw_done = None, qw_gated = False\<rparr>],
     wq_chan := \<lparr>chan_cap = 1, chan_items = []\<rparr>, wq_waiting := [0], wq_current := Some 0\<rparr>"

lemma demo_taken_reach: "reach (\<lambda>s. s = new_writes 1) w_step demo_taken"
proof -
  let ?j = "\<lparr>qw_ctx = None, qw_data = ''ab'', qw_done = None, qw_gated = False\<rparr>"
  define s1 where "s1 = (new_writes 1)\<lparr>wq_jobs := [?j], wq_chan := \<lparr>chan_cap = 1, chan_items = [0]\<rparr>, wq_waiting := [0]\<rparr>"
  define s2 where "s2 = s1\<lparr>wq_past_check := True\<rparr>"
  have "submit_write False None ''ab'' (new_writes 1) = Some s1"
    by (simp add: submit_write_def chan_try_send_def new_writes_def make_chan_def s1_def)
  then have a: "w_step (new_writes 1) s1" by (rule w_submit)
  have "check_done s1 = s2" by (simp add: check_done_def s2_def s1_def new_writes_def)
  then have b: "w_step s1 s2" using w_check [of s1] by (simp add: s1_def new_writes_def)
  have "take_write None s2 = Some demo_taken"
    by (simp add: take_write_def chan_receive_def s1_def s2_def Let_def demo_taken_def new_writes_def)
  then have c: "w_step s2 demo_taken" by (rule w_take [rotated 3]) (simp_all add: s2_def s1_def new_writes_def)
  have "reach (\<lambda>s. s = new_writes 1) w_step (new_writes 1)" by (rule reach_init) (rule refl)
  then show ?thesis using a b c by (meson reach_step)
qed

lemma demo_taken_write: "n \<le> 2 \<Longrightarrow> w_step demo_taken (finish_write 0 n werr demo_taken)"
  by (rule w_write) (simp_all add: demo_taken_def)

text \<open>C30: What the peer receives is a sequence of whole frames, those that the writer took from its queue,
  in the order in which they were queued, and after them at most a part of one frame more: a
  prefix of the frame whose write failed, which was queued after the whole ones and whose sender
  is told of the failure. Nothing follows it, ever. A sender that is told of success has its frame
  among the whole ones, and the result of a frame that is queued or being written has not been
  sent, so sending it never blocks the writer.\<close>

theorem frames_written_whole:
  assumes "reach (\<lambda>s. s = new_writes cap) w_step s"
  shows "\<exists>torn. wq_wire s = concat (map (job_data s) (wq_order s)) @ torn \<and> sorted_wrt (<) (wq_order s) \<and>
    (torn = [] \<or>
       (\<forall>t. w_step\<^sup>*\<^sup>* s t \<longrightarrow> wq_wire t = wq_wire s) \<and>
       (\<exists>i < length (wq_jobs s). prefix torn (job_data s i) \<and> (\<forall>j \<in> set (wq_order s). j < i) \<and>
          (\<exists>e. qw_done (wq_jobs s ! i) = Some (Some e)))) \<and>
    (\<forall>i. (i, None) \<in> set (wq_told s) \<longrightarrow> i \<in> set (wq_order s)) \<and>
    (\<forall>i \<in> set (opt_list (wq_current s)) \<union> set (chan_items (wq_chan s)). qw_done (wq_jobs s ! i) = None)"
proof -
  have inv: "w_inv s" using writing.reach_inv [OF assms] .
  then obtain torn where w: "wq_wire s = concat (map (job_data s) (wq_order s)) @ torn"
    and torn: "torn = [] \<or> torn_frame s torn"
    unfolding w_inv_def whole_writes_def by blast
  have silent: "\<forall>t. w_step\<^sup>*\<^sup>* s t \<longrightarrow> wq_wire t = wq_wire s" if "torn_frame s torn"
  proof -
    have "wq_stopped s" using that by (simp add: torn_frame_def)
    then show ?thesis using stopped_silent [OF _ inv] by blast
  qed
  have "sorted_wrt (<) (wq_order s)" using inv by (simp add: w_inv_def w_inv_parts sorted_wrt_append)
  moreover have "\<forall>i. (i, None) \<in> set (wq_told s) \<longrightarrow> i \<in> set (wq_order s)"
    using inv by (auto simp: w_inv_def w_inv_parts)
  moreover have "\<forall>i \<in> set (opt_list (wq_current s)) \<union> set (chan_items (wq_chan s)). qw_done (wq_jobs s ! i) = None"
    using inv by (auto simp: w_inv_def w_inv_parts)
  moreover have "torn = [] \<or> (\<forall>t. w_step\<^sup>*\<^sup>* s t \<longrightarrow> wq_wire t = wq_wire s) \<and>
       (\<exists>i < length (wq_jobs s). prefix torn (job_data s i) \<and> (\<forall>j \<in> set (wq_order s). j < i) \<and>
          (\<exists>e. qw_done (wq_jobs s ! i) = Some (Some e)))"
    using torn
  proof
    assume "torn_frame s torn"
    with silent [OF this] show ?thesis unfolding torn_frame_def by blast
  qed (rule disjI1)
  ultimately show ?thesis using w by (intro exI [of _ torn] conjI) assumption+
qed

lemma frames_written_whole_witness:
  "\<exists>s. reach (\<lambda>s. s = new_writes 1) w_step s \<and> wq_wire s = ''a'' \<and> wq_order s = [] \<and> (\<forall>t. w_step\<^sup>*\<^sup>* s t \<longrightarrow> wq_wire t = ''a'')"
proof -
  define s where "s = finish_write 0 1 None demo_taken"
  have r: "reach (\<lambda>s. s = new_writes 1) w_step s"
    unfolding s_def by (rule reach_step [OF demo_taken_reach demo_taken_write]) simp
  have s: "wq_wire s = ''a''" "wq_order s = []"
    by (simp_all add: s_def demo_taken_def new_writes_def finish_write_def send_done_def Let_def transportError_def)
  show ?thesis using frames_written_whole [OF r] s r by (intro exI [of _ s]) auto
qed

text \<open>C31: Once the connection is closed or has failed, at most one more frame reaches the peer,
  however many are queued and whatever the senders and the writer still do: the frame the writer
  is writing, or the one it takes when it had just found the connection open. All that is added
  to the wire is this frame or a prefix of it.\<close>

theorem one_frame_after_close:
  assumes "reach (\<lambda>s. s = new_writes cap) w_step s" "wq_cause s \<noteq> None" "w_step\<^sup>*\<^sup>* s t"
  shows "(wq_order t = wq_order s \<and> wq_wire t = wq_wire s) \<or>
    (\<exists>js rest i. wq_order t = wq_order s @ js \<and> length js \<le> 1 \<and> wq_wire t = wq_wire s @ rest \<and>
       i < length (wq_jobs t) \<and> prefix rest (job_data t i))"
  using winding_down_steps [OF assms(3) writing.reach_inv [OF assms(1)] assms(2)]
  unfolding winding_down_def by blast

lemma one_frame_after_close_witness:
  "\<exists>s t. reach (\<lambda>s. s = new_writes 1) w_step s \<and> wq_cause s = Some ErrClosed \<and> w_step\<^sup>*\<^sup>* s t \<and>
     wq_order s = [] \<and> wq_order t = [0] \<and> length (wq_order t) \<le> 1"
proof -
  define s where "s = demo_taken\<lparr>wq_cause := Some ErrClosed\<rparr>"
  define t where "t = finish_write 0 2 None s"
  have "w_step demo_taken s" unfolding s_def by (rule w_close) (simp add: demo_taken_def new_writes_def)
  then have r: "reach (\<lambda>s. s = new_writes 1) w_step s" by (rule reach_step [OF demo_taken_reach])
  have st: "w_step\<^sup>*\<^sup>* s t"
    unfolding t_def by (rule r_into_rtranclp, rule w_write) (simp_all add: s_def demo_taken_def)
  have f: "wq_cause s = Some ErrClosed" "wq_order s = []" "wq_order t = [0]"
    by (simp_all add: s_def t_def demo_taken_def new_writes_def finish_write_def send_done_def Let_def)
  have "length (wq_order t) \<le> 1" using one_frame_after_close [OF r _ st] f by auto
  then show ?thesis using r st f by blast
qed

end
