(* ===== verification/Requests.thy ===== *)
theory Requests
  imports Prepared
begin

text \<open>
  \<open>SendRequest\<close> of \<open>connection.go\<close>, the blocking call on top of a prepared request, and the errors
  it returns. What preparing, dispatching and waiting return is an argument of \<open>sendRequest\<close>; the
  calls it makes on the way out are its second result. The properties take those results
  from theory \<open>Prepared\<close>.
\<close>

section \<open>Definitions\<close>

definition legacyRequestError :: "go_error \<Rightarrow> go_error option" where
  "legacyRequestError err =
     (case as_decode_error (Some err) of
        Some (Some e) \<Rightarrow> Some (ReqErr (NewInternalError (error_data (error_text e))))
      | Some None \<Rightarrow> Some (ReqErr (NewInternalError (error_data (error_text (DecodeErr None)))))
      | None \<Rightarrow>
          (case as_lifecycle_error (Some err) of
             Some (_, _, cause, _) \<Rightarrow> cause
           | None \<Rightarrow> Some err))"

definition lifecycleContextFailure :: "go_error \<Rightarrow> ctx \<Rightarrow> bool" where
  "lifecycleContextFailure err c \<longleftrightarrow>
     (case c of
        None \<Rightarrow> False
      | Some (_, cause) \<Rightarrow>
          (case as_lifecycle_error (Some err) of
             None \<Rightarrow> False
           | Some (oper, st, e, classified) \<Rightarrow>
               classified \<and> (oper = ''dispatch'' \<or> oper = ''wait'') \<and> errors_is e cause))"

datatype cleanup = AbandonRequest | QueueCancel string

text \<open>\<open>c1\<close> and \<open>c2\<close> are what the context says when the dispatch and the wait have failed.\<close>

definition sendRequest :: "'a \<Rightarrow> go_error + 'a prepared_request \<Rightarrow> go_error option \<Rightarrow> ctx \<Rightarrow> 'a \<times> go_error option \<Rightarrow> ctx \<Rightarrow>
    ('a \<times> go_error option) \<times> cleanup list" where
  "sendRequest zero prepared dispatched c1 waited c2 =
     (case prepared of
        Inl err \<Rightarrow> ((zero, legacyRequestError err), [])
      | Inr r \<Rightarrow>
          (case dispatched of
             Some err \<Rightarrow>
               (if lifecycleContextFailure err c1
                then ((zero, map_option ReqErr (toReqErr (ctx_cause c1))), [AbandonRequest])
                else ((zero, legacyRequestError err), [AbandonRequest]))
           | None \<Rightarrow>
               (case waited of
                  (v, Some err) \<Rightarrow>
                    (if lifecycleContextFailure err c2
                     then ((v, map_option ReqErr (toReqErr (ctx_cause c2))), [QueueCancel (idKey r), AbandonRequest])
                     else ((v, legacyRequestError err), []))
                | (v, None) \<Rightarrow> ((v, None), []))))"

text \<open>\<open>SendRequestNoResult\<close> drops the result.\<close>

definition SendRequestNoResult :: "'a \<Rightarrow> go_error + 'a prepared_request \<Rightarrow> go_error option \<Rightarrow> ctx \<Rightarrow> 'a \<times> go_error option \<Rightarrow> ctx \<Rightarrow>
    go_error option \<times> cleanup list" where
  "SendRequestNoResult zero prepared dispatched c1 waited c2 =
     (case sendRequest zero prepared dispatched c1 waited c2 of ((v, err), acts) \<Rightarrow> (err, acts))"

section \<open>What the callers see\<close>

lemma as_decode_lifecycle [simp]:
  "as_decode_error (Some (LifecycleErr oper st (Some e) b)) = as_decode_error (Some e)"
  by (simp add: as_decode_error_def)

lemma as_decode_decode [simp]: "as_decode_error (Some (DecodeErr c)) = Some c"
  by (cases c) (simp_all add: as_decode_error_def)

lemma as_decode_request [simp]: "as_decode_error (Some (ReqErr e)) = None"
  by (simp add: as_decode_error_def)

lemma as_lifecycle_lifecycle [simp]:
  "as_lifecycle_error (Some (LifecycleErr oper st (Some e) b)) = Some (oper, st, Some e, b)"
  by (simp add: as_lifecycle_error_def)

lemma legacy_lifecycle:
  "legacyRequestError (LifecycleErr oper st (Some e) b) = (if as_decode_error (Some e) = None then Some e else legacyRequestError e)"
  by (auto simp: legacyRequestError_def split: option.splits)

lemma context_failure:
  "lifecycleContextFailure (LifecycleErr oper st (Some e) True) (Some (err, cause)) \<longleftrightarrow>
     (oper = ''dispatch'' \<or> oper = ''wait'') \<and> errors_is (Some e) cause"
  by (simp add: lifecycleContextFailure_def)

text \<open>The cause of a dispatch, or of a wait, that failed, when the context is alive and when it ended with it.\<close>

lemma plain_failure:
  assumes "as_decode_error (Some e) = None"
  shows "sendRequest zero (Inr r) (lifecycleError ''dispatch'' st (Some e)) None waited c2 = ((zero, Some e), [AbandonRequest])"
    and "sendRequest zero (Inr r) None c1 (w, lifecycleError ''wait'' st (Some e)) None = ((w, Some e), [])"
  using assms by (simp_all add: sendRequest_def lifecycleError_def lifecycleContextFailure_def legacy_lifecycle)

lemma context_ended:
  "sendRequest zero (Inr r) (lifecycleError ''dispatch'' st (Some cause)) (Some (err, cause)) waited c2 =
      ((zero, map_option ReqErr (toReqErr (Some cause))), [AbandonRequest])"
  "sendRequest zero (Inr r) None c1 (v, lifecycleError ''wait'' st (Some cause)) (Some (err, cause)) =
      ((v, map_option ReqErr (toReqErr (Some cause))), [QueueCancel (idKey r), AbandonRequest])"
  by (simp_all add: sendRequest_def lifecycleError_def context_failure errors_is_refl ctx_cause_def)

text \<open>What the operations of \<open>Prepared\<close> return, when \<open>DispatchOptions\<close> is empty.\<close>

lemma prepare_fails:
  assumes "prepare key encoded gated hook p = (Inl e', q)"
  obtains e where "fst (addPending key gated p) = Inl e" "e' = LifecycleErr ''prepare'' NotStarted (Some e) True"
  using assms by (auto simp: prepare_def lifecycleError_def split: prod.splits sum.splits)

lemma dispatch_fails:
  assumes "dispatch_once r = None"
  shows "failDispatch_finish st cause None r p = (d, r', q) \<Longrightarrow> d = lifecycleError ''dispatch'' st (Some cause) \<and> idKey r' = idKey r"
    and "completeWrite_finish st False (Some e) None r p = (d, r', q) \<Longrightarrow> d = lifecycleError ''dispatch'' st (Some e) \<and> idKey r' = idKey r"
  using assms
  by (auto simp: failDispatch_finish_def completeWrite_finish_def abort_def joinAbortError_def completeDispatch_def
      releasePending_def Let_def split: if_splits prod.splits)

lemma wait_fails:
  "c = Some (err, cause) \<Longrightarrow> \<not> pendingResponded (idKey r) (pid r) p \<Longrightarrow> waitResponse True c r p = Returned w r' \<Longrightarrow>
    \<exists>st. w = lifecycleError ''wait'' st (Some cause) \<and> idKey r' = idKey r"
  "outcome (p_heap p ! pid r) = Some (env, Some e) \<Longrightarrow> waitResponse False c r p = Returned w r' \<Longrightarrow>
    \<exists>st. w = lifecycleError ''wait'' st (Some e) \<and> idKey r' = idKey r"
  by (auto simp: waitResponse_def ctx_cause_def Let_def)

text \<open>
  The result of a blocking request whose response arrived: the error of the peer, the decoded
  result, an internal error when it cannot be decoded, or the error of the hook.
\<close>

definition response_result :: "(string \<Rightarrow> go_error + 'a) \<Rightarrow> 'a \<Rightarrow> ('a \<Rightarrow> go_error option) option \<Rightarrow> any_message \<Rightarrow>
    'a \<times> go_error option" where
  "response_result decode zero hook m =
     (case Error m of
        Some e \<Rightarrow> (zero, Some (ReqErr e))
      | None \<Rightarrow>
          (case (if Result m = [] then Inr zero else decode (Result m)) of
             Inl e \<Rightarrow> (zero, Some (ReqErr (NewInternalError (error_data (error_text e)))))
           | Inr v \<Rightarrow>
               (v, case hook of None \<Rightarrow> None | Some f \<Rightarrow> map_option (wrap_err ''acp: response hook'') (f v))))"

definition plain_errors :: "('a \<Rightarrow> go_error option) option \<Rightarrow> bool" where
  "plain_errors hook \<longleftrightarrow>
     (\<forall>f v e. hook = Some f \<and> f v = Some e \<longrightarrow> as_decode_error (Some (wrap_err ''acp: response hook'' e)) = None)"

lemma hook_failure:
  "as_decode_error (Some e) = None \<Longrightarrow>
    sendRequest zero (Inr r) None c1 (v, lifecycleError ''hook'' st (Some e)) c2 = ((v, Some e), [])"
  by (simp add: sendRequest_def lifecycleError_def lifecycleContextFailure_def legacy_lifecycle split: option.split)

lemma sent_and_answered:
  assumes "completeResponse decode zero None c m None hook = (v, err, retry, obs)" "plain_errors hook"
  shows "sendRequest zero (Inr r) None c1 (v, err) None = (response_result decode zero hook m, [])"
proof (cases "Error m")
  case (Some e)
  then show ?thesis using assms
    by (auto simp: completeResponse_def response_result_def Let_def plain_failure)
next
  case None
  show ?thesis
  proof (cases "if Result m = [] then Inr zero else decode (Result m)")
    case (Inl e)
    have "sendRequest zero (Inr r) None c1 (zero, lifecycleError ''wait'' Possible (Some (DecodeErr (Some e)))) None =
        ((zero, Some (ReqErr (NewInternalError (error_data (error_text e))))), [])"
      by (simp add: sendRequest_def lifecycleError_def lifecycleContextFailure_def legacyRequestError_def)
    then show ?thesis using assms(1) None Inl by (auto simp: completeResponse_def response_result_def Let_def)
  next
    case (Inr x)
    show ?thesis
    proof (cases "case hook of None \<Rightarrow> None | Some f \<Rightarrow> f x")
      case h: None
      then have "v = x" "err = None" "response_result decode zero hook m = (x, None)"
        using assms(1) None Inr by (auto simp: completeResponse_def response_result_def Let_def split: option.splits)
      then show ?thesis by (simp add: sendRequest_def)
    next
      case h: (Some e)
      then obtain f where f: "hook = Some f" "f x = Some e" by (auto split: option.splits)
      then have "as_decode_error (Some (wrap_err ''acp: response hook'' e)) = None" using assms(2) by (simp add: plain_errors_def)
      then show ?thesis
        using assms(1) None Inr f by (auto simp: completeResponse_def response_result_def Let_def hook_failure)
    qed
  qed
qed

lemma wait_cut_short:
  "completeResponse decode zero (Some e) (Some (err, cause)) m obs hook = (v, w, retry, seen) \<Longrightarrow>
    v = zero \<and> w = lifecycleError ''wait'' Possible (Some cause)"
  "completeResponse decode zero (Some e) None m obs hook = (v, w, retry, seen) \<Longrightarrow>
    v = zero \<and> w = lifecycleError ''wait'' Possible (Some e)"
  by (auto simp: completeResponse_def Let_def)

section \<open>Properties\<close>

text \<open>C35: What a blocking request returns, for the results of the operations it is made of. When the
  response arrives, the error of the peer unchanged, the decoded result, an internal error when it
  cannot be decoded, or the error of the hook, and nothing is left to clean up. When the context
  ends during the dispatch or the wait, or while the wait is for earlier notifications, its cause
  as a request error, and the request is abandoned; the peer is told to cancel it exactly when the
  dispatch had succeeded. When the registration, the dispatch, the write or the wait fails for
  another reason, that error without its classification, provided it does not wrap an error of
  decoding.\<close>

theorem blocking_request_errors:
  fixes zero :: 'a
  assumes "dispatch_once r = None"
  shows "(completeResponse decode zero None c m None hook = (v, err, retry, obs) \<and> plain_errors hook \<longrightarrow>
      sendRequest zero (Inr r) None c1 (v, err) None = (response_result decode zero hook m, [])) \<and>
   (ctx = Some (ended, cause) \<longrightarrow>
     (failDispatch_finish st cause None r p = (d, r', q) \<longrightarrow>
        sendRequest zero (Inr r') d ctx waited c2 = ((zero, map_option ReqErr (toReqErr (Some cause))), [AbandonRequest])) \<and>
     (waitResponse True ctx r p = Returned w r' \<and> \<not> pendingResponded (idKey r) (pid r) p \<longrightarrow>
        sendRequest zero (Inr r') None c1 (zero, w) ctx =
          ((zero, map_option ReqErr (toReqErr (Some cause))), [QueueCancel (idKey r), AbandonRequest])) \<and>
     (completeResponse decode zero (Some e) ctx m None hook = (v, err, retry, obs) \<longrightarrow>
        sendRequest zero (Inr r) None c1 (v, err) ctx =
          ((zero, map_option ReqErr (toReqErr (Some cause))), [QueueCancel (idKey r), AbandonRequest]))) \<and>
   (as_decode_error (Some e) = None \<longrightarrow>
     (prepare key encoded gated hook p = (Inl e', q) \<and> fst (addPending key gated p) = Inl e \<longrightarrow>
        sendRequest zero (Inl e') dispatched c1 waited c2 = ((zero, Some e), [])) \<and>
     (failDispatch_finish st e None r p = (d, r', q) \<longrightarrow>
        sendRequest zero (Inr r') d None waited c2 = ((zero, Some e), [AbandonRequest])) \<and>
     (completeWrite_finish st False (Some e) None r p = (d, r', q) \<longrightarrow>
        sendRequest zero (Inr r') d None waited c2 = ((zero, Some e), [AbandonRequest])) \<and>
     (waitResponse False c r p = Returned w r' \<and> outcome (p_heap p ! pid r) = Some (env, Some e) \<longrightarrow>
        sendRequest zero (Inr r') None c1 (zero, w) None = ((zero, Some e), [])) \<and>
     (completeResponse decode zero (Some e) None m None hook = (v, err, retry, obs) \<longrightarrow>
        sendRequest zero (Inr r) None c1 (v, err) None = ((zero, Some e), [])))"
proof -
  note d = dispatch_fails [OF assms]
  have ends: "failDispatch_finish st cause None r p = (d, r', q) \<longrightarrow>
      sendRequest zero (Inr r') d (Some (ended, cause)) waited c2 =
        ((zero, map_option ReqErr (toReqErr (Some cause))), [AbandonRequest])"
    using d(1) context_ended(1) by metis
  have waits: "waitResponse True (Some (ended, cause)) r p = Returned w r' \<and> \<not> pendingResponded (idKey r) (pid r) p \<longrightarrow>
      sendRequest zero (Inr r') None c1 (zero, w) (Some (ended, cause)) =
        ((zero, map_option ReqErr (toReqErr (Some cause))), [QueueCancel (idKey r), AbandonRequest])"
    using wait_fails(1) [OF refl, of r p ended cause w r'] context_ended(2) by metis
  have cut: "completeResponse decode zero (Some e) (Some (ended, cause)) m None hook = (v, err, retry, obs) \<longrightarrow>
      sendRequest zero (Inr r) None c1 (v, err) (Some (ended, cause)) =
        ((zero, map_option ReqErr (toReqErr (Some cause))), [QueueCancel (idKey r), AbandonRequest])"
    using wait_cut_short(1) context_ended(2) by metis
  have "prepare key encoded gated hook p = (Inl e', q) \<and> fst (addPending key gated p) = Inl e \<longrightarrow>
      sendRequest zero (Inl e') dispatched c1 waited c2 = ((zero, Some e), [])" if "as_decode_error (Some e) = None"
    using that by (auto elim!: prepare_fails simp: sendRequest_def legacy_lifecycle)
  moreover have "failDispatch_finish st e None r p = (d, r', q) \<longrightarrow>
      sendRequest zero (Inr r') d None waited c2 = ((zero, Some e), [AbandonRequest])" if "as_decode_error (Some e) = None"
    using d(1) plain_failure(1) [OF that] by metis
  moreover have "completeWrite_finish st False (Some e) None r p = (d, r', q) \<longrightarrow>
      sendRequest zero (Inr r') d None waited c2 = ((zero, Some e), [AbandonRequest])" if "as_decode_error (Some e) = None"
    using d(2) plain_failure(1) [OF that] by metis
  moreover have "waitResponse False c r p = Returned w r' \<and> outcome (p_heap p ! pid r) = Some (env, Some e) \<longrightarrow>
      sendRequest zero (Inr r') None c1 (zero, w) None = ((zero, Some e), [])" if "as_decode_error (Some e) = None"
    using wait_fails(2) [of p r env e c w r'] plain_failure(2) [OF that] by metis
  moreover have "completeResponse decode zero (Some e) None m None hook = (v, err, retry, obs) \<longrightarrow>
      sendRequest zero (Inr r) None c1 (v, err) None = ((zero, Some e), [])" if "as_decode_error (Some e) = None"
    using wait_cut_short(2) plain_failure(2) [OF that] by metis
  ultimately show ?thesis using ends waits cut sent_and_answered by metis
qed

lemma blocking_request_errors_witness:
  "\<exists>d r' q. failDispatch_finish NotStarted Canceled None demo_request (tab demo_start) = (d, r', q) \<and>
     sendRequest ([]::string) (Inr r') d (Some (Canceled, Canceled)) ([], None) None =
       (([], map_option ReqErr (toReqErr (Some Canceled))), [AbandonRequest])"
proof -
  obtain d r' q where f: "failDispatch_finish NotStarted Canceled None demo_request (tab demo_start) = (d, r', q)"
    by (metis prod.exhaust)
  have "dispatch_once demo_request = None" by code_simp
  note b = blocking_request_errors [OF this]
  show ?thesis using conjunct1 [OF mp [OF conjunct1 [OF conjunct2 [OF b]] refl]] f by blast
qed

end
