(* ===== verification/Process.thy ===== *)
theory Process
  imports Errors
begin

text \<open>
  The subprocess of \<open>transport/stdio\<close>: \<open>process.go\<close> with the process group of \<open>process_unix.go\<close>. What
  the operating system answers (the result of a signal, of closing a pipe, of waiting for the
  child) is an argument of the operations; a \<open>sync.Once\<close> is a state that leaves its first value
  once. The goroutines are the rules of \<open>run_step\<close>; \<open>env_step\<close> are the calls of the API, the
  contexts and the exit of the child.
\<close>

section \<open>State\<close>

text \<open>\<open>unixProcessTree.terminate\<close>: the group is signalled, polled, and perhaps reaped first.\<close>

datatype term_state = TIdle | TKill | TPoll | TReap | TDone "go_error option"

datatype force_state = FIdle | FTree | FTerm | FDone "go_error option"

datatype waiter_state = WRunning | WReleasing "go_error option" | WJoined

datatype close_state =
    CNever
  | CForce "go_error option"
  | COut "go_error option" "go_error option"
  | CReturned "go_error option"

datatype shut_state =
    SNever
  | SSelect "go_error option"
  | SForced "go_error option" "go_error option"
  | SKill go_error "go_error option"
  | SReap go_error "go_error option" "go_error option" "go_error option"
  | SReturned "go_error option"

text \<open>
  \<open>kills\<close> counts the signals to the group, and \<open>gone\<close> records that the operating system has
  answered \<open>ESRCH\<close>: no process of the group is left.
\<close>

record process =
  treeReady :: bool
  processDone :: bool
  waitDone :: bool
  waitErr :: "go_error option"
  forceRequested :: bool
  force :: force_state
  tree :: term_state
  kills :: nat
  gone :: bool
  waiter :: waiter_state
  stdinOnce :: "go_error option option"
  stdoutOnce :: "go_error option option"
  closing :: close_state
  shutCtx :: "go_error option"
  shutting :: shut_state

definition started :: process where
  "started =
     \<lparr>treeReady = False, processDone = False, waitDone = False, waitErr = None, forceRequested = False,
      force = FIdle, tree = TIdle, kills = 0, gone = False, waiter = WRunning, stdinOnce = None, stdoutOnce = None,
      closing = CNever, shutCtx = None, shutting = SNever\<rparr>"

definition ESRCH :: go_error where "ESRCH = Sentinel ''no such process''"
definition EPERM :: go_error where "EPERM = Sentinel ''operation not permitted''"

section \<open>Operations\<close>

definition installTree :: "process \<Rightarrow> process" where
  "installTree p = p\<lparr>treeReady := True\<rparr>"

definition waitComplete :: "process \<Rightarrow> bool" where
  "waitComplete p = waitDone p"

definition close_result :: "go_error option \<Rightarrow> process \<Rightarrow> go_error option" where
  "close_result err p =
     (case err of
        None \<Rightarrow> None
      | Some e \<Rightarrow> if \<not> errors_is (Some e) ErrClosed \<and> \<not> waitComplete p then Some e else None)"

definition closeInput :: "go_error option \<Rightarrow> process \<Rightarrow> go_error option \<times> process" where
  "closeInput err p =
     (case stdinOnce p of
        Some r \<Rightarrow> (r, p)
      | None \<Rightarrow> (close_result err p, p\<lparr>stdinOnce := Some (close_result err p)\<rparr>))"

definition closeOutput :: "go_error option \<Rightarrow> process \<Rightarrow> go_error option \<times> process" where
  "closeOutput err p =
     (case stdoutOnce p of
        Some r \<Rightarrow> (r, p)
      | None \<Rightarrow> (close_result err p, p\<lparr>stdoutOnce := Some (close_result err p)\<rparr>))"

definition stdioOperationError :: "string \<Rightarrow> go_error option \<Rightarrow> go_error option" where
  "stdioOperationError operation err = map_option (wrap_err (''stdio: '' @ operation)) err"

text \<open>\<open>forceStop\<close> up to its waiting: the first call runs the body, every call waits for its result.\<close>

definition force_begin :: "process \<Rightarrow> process" where
  "force_begin p = (if force p = FIdle then p\<lparr>force := FTree, forceRequested := True\<rparr> else p)"

text \<open>The three kinds of system calls of \<open>terminate\<close>: \<open>r\<close> is the answer.\<close>

definition term_kill :: "nat \<Rightarrow> go_error option \<Rightarrow> go_error option \<Rightarrow> term_state" where
  "term_kill pid r direct =
     (case r of
        None \<Rightarrow> TPoll
      | Some e \<Rightarrow>
          (let directErr = (if errors_is direct ErrProcessDone then None else direct)
           in if errors_is (Some e) ESRCH then TDone directErr
              else TDone (errors_join [Some (wrap_err (''signal process group '' @ show_nat pid) e), directErr])))"

definition term_failed :: "nat \<Rightarrow> go_error \<Rightarrow> term_state" where
  "term_failed pid e = TDone (Some (wrap_err (''wait for process group '' @ show_nat pid @ '' termination'') e))"

definition term_poll :: "nat \<Rightarrow> go_error option \<Rightarrow> term_state" where
  "term_poll pid r =
     (case r of
        None \<Rightarrow> TPoll
      | Some e \<Rightarrow> if errors_is (Some e) ESRCH then TDone None
                  else if errors_is (Some e) EPERM then TReap else term_failed pid e)"

definition term_reap :: "nat \<Rightarrow> go_error option \<Rightarrow> term_state" where
  "term_reap pid r =
     (case r of
        None \<Rightarrow> TPoll
      | Some e \<Rightarrow> if errors_is (Some e) ESRCH then TDone None else term_failed pid e)"

text \<open>The branch of \<open>shutdown\<close> for a process that has exited.\<close>

definition shutdown_exited :: "go_error option \<Rightarrow> go_error option \<Rightarrow> process \<Rightarrow> process" where
  "shutdown_exited ie err p =
     (case closeOutput err p of
        (oe, q) \<Rightarrow>
          if forceRequested q then q\<lparr>shutting := SForced ie oe\<rparr>
          else q\<lparr>shutting := SReturned (errors_join [ie, waitErr q, oe])\<rparr>)"

definition close_finish :: "go_error option \<Rightarrow> go_error option \<Rightarrow> go_error option \<Rightarrow> process \<Rightarrow> process" where
  "close_finish ie fe err p =
     (case closeOutput err p of
        (oe, q) \<Rightarrow>
          q\<lparr>closing := CReturned (errors_join
              [stdioOperationError ''close stdin'' ie, stdioOperationError ''terminate process tree'' fe,
               stdioOperationError ''close stdout'' oe])\<rparr>)"

section \<open>The goroutines\<close>

text \<open>A caller of \<open>forceStop\<close> that is waiting for it: \<open>Close\<close> or one of the branches of \<open>shutdown\<close>.\<close>

definition wants_force :: "process \<Rightarrow> bool" where
  "wants_force p \<longleftrightarrow> (\<exists>ie. closing p = CForce ie) \<or> (\<exists>ie oe. shutting p = SForced ie oe) \<or> (\<exists>c ie. shutting p = SKill c ie)"

inductive run_step :: "nat \<Rightarrow> process \<Rightarrow> process \<Rightarrow> bool" for pid :: nat where
  f_begin: "wants_force p \<Longrightarrow> force p = FIdle \<Longrightarrow> run_step pid p (force_begin p)"
| f_tree: "force p = FTree \<Longrightarrow> treeReady p \<Longrightarrow> run_step pid p (p\<lparr>force := FTerm\<rparr>)"
| t_begin: "tree p = TIdle \<Longrightarrow> force p = FTerm \<or> (\<exists>w. waiter p = WReleasing w) \<Longrightarrow> run_step pid p (p\<lparr>tree := TKill\<rparr>)"
| t_kill: "tree p = TKill \<Longrightarrow> run_step pid p (p\<lparr>tree := term_kill pid r direct, kills := kills p + 1,
    gone := gone p \<or> errors_is r ESRCH\<rparr>)"
| t_poll: "tree p = TPoll \<Longrightarrow> run_step pid p (p\<lparr>tree := term_poll pid r, gone := gone p \<or> errors_is r ESRCH\<rparr>)"
| t_reap: "tree p = TReap \<Longrightarrow> processDone p \<Longrightarrow> run_step pid p (p\<lparr>tree := term_reap pid r, gone := gone p \<or> errors_is r ESRCH\<rparr>)"
| f_end: "force p = FTerm \<Longrightarrow> tree p = TDone e \<Longrightarrow> run_step pid p (p\<lparr>force := FDone e\<rparr>)"
| w_end: "waiter p = WReleasing w \<Longrightarrow> tree p = TDone e \<Longrightarrow>
    run_step pid p (p\<lparr>waiter := WJoined, waitErr := errors_join [w, e], waitDone := True\<rparr>)"
| c_forced: "closing p = CForce ie \<Longrightarrow> force p = FDone fe \<Longrightarrow> run_step pid p (p\<lparr>closing := COut ie fe\<rparr>)"
| c_out: "closing p = COut ie fe \<Longrightarrow> run_step pid p (close_finish ie fe err p)"
| s_exit: "shutting p = SSelect ie \<Longrightarrow> waitDone p \<Longrightarrow> run_step pid p (shutdown_exited ie err p)"
| s_forced: "shutting p = SForced ie oe \<Longrightarrow> force p = FDone fe \<Longrightarrow>
    run_step pid p (p\<lparr>shutting := SReturned (errors_join [ie, fe, oe])\<rparr>)"
| s_ctx: "shutting p = SSelect ie \<Longrightarrow> shutCtx p = Some cause \<Longrightarrow> run_step pid p (p\<lparr>shutting := SKill cause ie\<rparr>)"
| s_killed: "shutting p = SKill cause ie \<Longrightarrow> force p = FDone fe \<Longrightarrow> closeOutput err p = (oe, q) \<Longrightarrow>
    run_step pid p (q\<lparr>shutting := SReap cause ie fe oe\<rparr>)"
| s_reaped: "shutting p = SReap cause ie fe oe \<Longrightarrow> waitDone p \<Longrightarrow>
    run_step pid p (p\<lparr>shutting := SReturned (errors_join [Some cause, ie, fe, oe])\<rparr>)"

inductive env_step :: "process \<Rightarrow> process \<Rightarrow> bool" where
  installed: "\<not> treeReady p \<Longrightarrow> env_step p (installTree p)"
| cancelled: "env_step p (force_begin p)"
| child_exits: "treeReady p \<Longrightarrow> waiter p = WRunning \<Longrightarrow> env_step p (p\<lparr>processDone := True, waiter := WReleasing w\<rparr>)"
| calls_close: "closing p = CNever \<Longrightarrow> closeInput err p = (ie, q) \<Longrightarrow> env_step p (q\<lparr>closing := CForce ie\<rparr>)"
| calls_shutdown: "shutting p = SNever \<Longrightarrow> closeInput err p = (ie, q) \<Longrightarrow> env_step p (q\<lparr>shutting := SSelect ie\<rparr>)"
| ctx_ends: "shutCtx p = None \<Longrightarrow> env_step p (p\<lparr>shutCtx := Some cause\<rparr>)"

definition process_step :: "nat \<Rightarrow> process \<Rightarrow> process \<Rightarrow> bool" where
  "process_step pid p q \<longleftrightarrow> run_step pid p q \<or> env_step p q"

section \<open>The invariant\<close>

definition killed_once :: "process \<Rightarrow> bool" where
  "killed_once p \<longleftrightarrow> kills p = (if tree p = TIdle \<or> tree p = TKill then 0 else 1)"

definition wait_flags :: "process \<Rightarrow> bool" where
  "wait_flags p \<longleftrightarrow>
     processDone p = (waiter p \<noteq> WRunning) \<and> waitDone p = (waiter p = WJoined) \<and>
     (waiter p \<noteq> WRunning \<longrightarrow> treeReady p) \<and> forceRequested p = (force p \<noteq> FIdle)"

definition group_ended :: "process \<Rightarrow> bool" where
  "group_ended p \<longleftrightarrow> (waitDone p \<longrightarrow> (\<exists>e. tree p = TDone e)) \<and> (\<forall>e. force p = FDone e \<longrightarrow> tree p = TDone e)"

definition callers_ok :: "process \<Rightarrow> bool" where
  "callers_ok p \<longleftrightarrow>
     (\<forall>r. closing p = CReturned r \<longrightarrow> (\<exists>e. force p = FDone e)) \<and> (\<forall>ie fe. closing p = COut ie fe \<longrightarrow> force p = FDone fe) \<and>
     (\<forall>r. shutting p = SReturned r \<longrightarrow> waitDone p) \<and> (\<forall>ie oe. shutting p = SForced ie oe \<longrightarrow> waitDone p)"

text \<open>Success is reported only for a group that was found gone.\<close>

definition success_means_gone :: "process \<Rightarrow> bool" where
  "success_means_gone p \<longleftrightarrow>
     (tree p = TDone None \<longrightarrow> gone p) \<and> (waitDone p \<and> waitErr p = None \<longrightarrow> gone p) \<and>
     (closing p = CReturned None \<longrightarrow> gone p) \<and> (shutting p = SReturned None \<longrightarrow> gone p)"

definition process_inv :: "process \<Rightarrow> bool" where
  "process_inv p \<longleftrightarrow> killed_once p \<and> wait_flags p \<and> group_ended p \<and> callers_ok p \<and> success_means_gone p"

lemma closeInput_fields: "closeInput err p = (r, q) \<Longrightarrow> q = p\<lparr>stdinOnce := Some r\<rparr>"
  by (cases p) (auto simp: closeInput_def split: option.splits)

lemma closeOutput_fields: "closeOutput err p = (r, q) \<Longrightarrow> q = p\<lparr>stdoutOnce := Some r\<rparr>"
  by (cases p) (auto simp: closeOutput_def split: option.splits)

lemma term_states:
  "term_kill pid r direct \<noteq> TIdle" "term_kill pid r direct \<noteq> TKill"
  "term_poll pid r \<noteq> TIdle" "term_poll pid r \<noteq> TKill" "term_reap pid r \<noteq> TIdle" "term_reap pid r \<noteq> TKill"
  by (auto simp: term_kill_def term_poll_def term_reap_def term_failed_def Let_def split: option.split)

lemma output_closed:
  "tree (snd (closeOutput err p)) = tree p" "kills (snd (closeOutput err p)) = kills p"
  "waiter (snd (closeOutput err p)) = waiter p" "processDone (snd (closeOutput err p)) = processDone p"
  "waitDone (snd (closeOutput err p)) = waitDone p" "treeReady (snd (closeOutput err p)) = treeReady p"
  "force (snd (closeOutput err p)) = force p" "forceRequested (snd (closeOutput err p)) = forceRequested p"
  "closing (snd (closeOutput err p)) = closing p" "shutting (snd (closeOutput err p)) = shutting p"
  by (simp_all add: closeOutput_def split: option.split)

lemma run_killed_once: "run_step pid p q \<Longrightarrow> killed_once p \<Longrightarrow> killed_once q"
  by (cases rule: run_step.cases, assumption)
    (simp_all add: killed_once_def force_begin_def close_finish_def shutdown_exited_def output_closed term_states
       case_prod_beta split: if_splits, auto dest!: closeOutput_fields)

lemma run_wait_flags: "run_step pid p q \<Longrightarrow> wait_flags p \<Longrightarrow> wait_flags q"
  by (cases rule: run_step.cases, assumption)
    (simp_all add: wait_flags_def force_begin_def close_finish_def shutdown_exited_def output_closed
       case_prod_beta split: if_splits, auto dest!: closeOutput_fields)

lemma run_group_ended: "run_step pid p q \<Longrightarrow> group_ended p \<Longrightarrow> wait_flags p \<Longrightarrow> group_ended q"
  by (cases rule: run_step.cases, assumption)
    (simp_all add: group_ended_def wait_flags_def force_begin_def close_finish_def shutdown_exited_def output_closed
       case_prod_beta split: if_splits, auto dest!: closeOutput_fields)

lemma run_callers_ok: "run_step pid p q \<Longrightarrow> callers_ok p \<Longrightarrow> wait_flags p \<Longrightarrow> callers_ok q"
  by (cases rule: run_step.cases, assumption)
    (simp_all add: callers_ok_def wait_flags_def force_begin_def close_finish_def shutdown_exited_def output_closed
       case_prod_beta split: if_splits, auto dest!: closeOutput_fields)

lemma joined_None: "errors_join es = None \<longleftrightarrow> set es \<subseteq> {None}"
  by (induction es) (auto simp: errors_join_def List.map_filter_def split: list.splits option.splits)

lemma stdio_None [simp]: "stdioOperationError oper e = None \<longleftrightarrow> e = None"
  by (simp add: stdioOperationError_def)

lemma done_gone:
  "term_kill pid r direct = TDone None \<Longrightarrow> errors_is r ESRCH"
  "term_poll pid r = TDone None \<Longrightarrow> errors_is r ESRCH" "term_reap pid r = TDone None \<Longrightarrow> errors_is r ESRCH"
  by (auto simp: term_kill_def term_poll_def term_reap_def term_failed_def Let_def joined_None
      split: option.splits if_splits)

lemma output_closed_too:
  "gone (snd (closeOutput err p)) = gone p" "waitErr (snd (closeOutput err p)) = waitErr p"
  by (simp_all add: closeOutput_def split: option.split)

lemma run_success: "run_step pid p q \<Longrightarrow> success_means_gone p \<Longrightarrow> group_ended p \<Longrightarrow> callers_ok p \<Longrightarrow> success_means_gone q"
proof (cases rule: run_step.cases, assumption)
  fix r direct assume "q = p\<lparr>tree := term_kill pid r direct, kills := kills p + 1, gone := gone p \<or> errors_is r ESRCH\<rparr>"
    "success_means_gone p"
  then show ?thesis using done_gone(1) [of pid r direct] by (auto simp: success_means_gone_def)
next
  fix r assume "q = p\<lparr>tree := term_poll pid r, gone := gone p \<or> errors_is r ESRCH\<rparr>" "success_means_gone p"
  then show ?thesis using done_gone(2) [of pid r] by (auto simp: success_means_gone_def)
next
  fix r assume "q = p\<lparr>tree := term_reap pid r, gone := gone p \<or> errors_is r ESRCH\<rparr>" "success_means_gone p"
  then show ?thesis using done_gone(3) [of pid r] by (auto simp: success_means_gone_def)
qed (auto simp: success_means_gone_def group_ended_def callers_ok_def force_begin_def close_finish_def shutdown_exited_def
      joined_None output_closed output_closed_too case_prod_beta split: if_splits dest!: closeOutput_fields)

lemma env_success: "env_step p q \<Longrightarrow> success_means_gone p \<Longrightarrow> wait_flags p \<Longrightarrow> success_means_gone q"
  by (cases rule: env_step.cases, assumption)
    (simp_all add: success_means_gone_def installTree_def force_begin_def, auto dest!: closeInput_fields)

lemma env_killed_once: "env_step p q \<Longrightarrow> killed_once p \<Longrightarrow> killed_once q"
  by (cases rule: env_step.cases, assumption)
    (simp_all add: killed_once_def installTree_def force_begin_def, auto dest!: closeInput_fields)

lemma env_wait_flags: "env_step p q \<Longrightarrow> wait_flags p \<Longrightarrow> wait_flags q"
  by (cases rule: env_step.cases, assumption)
    (simp_all add: wait_flags_def installTree_def force_begin_def, auto dest!: closeInput_fields)

lemma env_group_ended: "env_step p q \<Longrightarrow> group_ended p \<Longrightarrow> group_ended q"
  by (cases rule: env_step.cases, assumption)
    (simp_all add: group_ended_def installTree_def force_begin_def, auto dest!: closeInput_fields)

lemma env_callers_ok: "env_step p q \<Longrightarrow> callers_ok p \<Longrightarrow> callers_ok q"
  by (cases rule: env_step.cases, assumption)
    (simp_all add: callers_ok_def installTree_def force_begin_def, auto dest!: closeInput_fields)

lemma env_keeps: "env_step p q \<Longrightarrow> process_inv p \<Longrightarrow> process_inv q"
  by (simp add: process_inv_def env_killed_once env_wait_flags env_group_ended env_callers_ok env_success)

lemma run_keeps: "run_step pid p q \<Longrightarrow> process_inv p \<Longrightarrow> process_inv q"
  by (simp add: process_inv_def run_killed_once run_wait_flags run_group_ended run_callers_ok run_success)

lemma started_inv: "process_inv started"
  by (simp add: process_inv_def killed_once_def wait_flags_def group_ended_def callers_ok_def success_means_gone_def started_def)

interpretation processes: invariant_system "\<lambda>p. p = started" "process_step pid" process_inv for pid
  by unfold_locales (auto simp: started_inv process_step_def intro: run_keeps env_keeps)

section \<open>What the process guarantees\<close>

text \<open>Nobody is inside an operation, and the child has been reaped.\<close>

definition settled :: "process \<Rightarrow> bool" where
  "settled p \<longleftrightarrow>
     waiter p = WJoined \<and> (force p = FIdle \<or> (\<exists>e. force p = FDone e)) \<and>
     (closing p = CNever \<or> (\<exists>r. closing p = CReturned r)) \<and> (shutting p = SNever \<or> (\<exists>r. shutting p = SReturned r))"

definition polling :: "term_state \<Rightarrow> bool" where
  "polling t \<longleftrightarrow> t = TPoll \<or> t = TReap"

text \<open>The steps that are left: the polls of the group, which the operating system ends, count once.\<close>

definition force_rank :: "force_state \<Rightarrow> nat" where
  "force_rank f = (case f of FIdle \<Rightarrow> 3 | FTree \<Rightarrow> 2 | FTerm \<Rightarrow> 1 | FDone _ \<Rightarrow> 0)"

definition term_rank :: "term_state \<Rightarrow> nat" where
  "term_rank t = (case t of TIdle \<Rightarrow> 3 | TKill \<Rightarrow> 2 | TPoll \<Rightarrow> 1 | TReap \<Rightarrow> 1 | TDone _ \<Rightarrow> 0)"

definition close_rank :: "close_state \<Rightarrow> nat" where
  "close_rank c = (case c of CNever \<Rightarrow> 3 | CForce _ \<Rightarrow> 2 | COut _ _ \<Rightarrow> 1 | CReturned _ \<Rightarrow> 0)"

definition shut_rank :: "shut_state \<Rightarrow> nat" where
  "shut_rank s = (case s of SNever \<Rightarrow> 4 | SSelect _ \<Rightarrow> 3 | SForced _ _ \<Rightarrow> 1 | SKill _ _ \<Rightarrow> 2 | SReap _ _ _ _ \<Rightarrow> 1 | SReturned _ \<Rightarrow> 0)"

definition waiter_rank :: "waiter_state \<Rightarrow> nat" where
  "waiter_rank w = (case w of WRunning \<Rightarrow> 2 | WReleasing _ \<Rightarrow> 1 | WJoined \<Rightarrow> 0)"

definition steps_left :: "process \<Rightarrow> nat" where
  "steps_left p =
     force_rank (force p) + term_rank (tree p) + close_rank (closing p) + shut_rank (shutting p) + waiter_rank (waiter p)"

lemmas ranks = steps_left_def force_rank_def term_rank_def close_rank_def shut_rank_def waiter_rank_def

lemma steps_left_bounded: "steps_left p \<le> 15"
  by (cases "force p"; cases "tree p"; cases "closing p"; cases "shutting p"; cases "waiter p") (simp_all add: ranks)

lemma kill_rank: "term_rank (term_kill pid r direct) < 2"
  by (auto simp: term_kill_def term_rank_def Let_def split: option.split)

lemma poll_rank: "term_rank (term_poll pid r) = 0 \<or> polling (term_poll pid r)"
  by (auto simp: term_poll_def term_failed_def term_rank_def polling_def split: option.split)

lemma reap_rank: "term_rank (term_reap pid r) = 0 \<or> polling (term_reap pid r)"
  by (auto simp: term_reap_def term_failed_def term_rank_def polling_def split: option.split)

lemma poll_again:
  "polling (term_poll pid r) \<Longrightarrow> \<not> errors_is r ESRCH" "polling (term_reap pid r) \<Longrightarrow> \<not> errors_is r ESRCH"
  by (auto simp: term_poll_def term_reap_def term_failed_def polling_def errors_is_def split: option.splits if_splits)

lemma steps_run_out:
  "run_step pid p q \<Longrightarrow> steps_left q < steps_left p \<or> polling (tree p) \<and> polling (tree q) \<and> q = p\<lparr>tree := tree q\<rparr>"
proof (cases rule: run_step.cases, assumption)
  fix r assume "q = p\<lparr>tree := term_poll pid r, gone := gone p \<or> errors_is r ESRCH\<rparr>" "tree p = TPoll"
  then show ?thesis using poll_rank [of pid r] poll_again(1) [of pid r]
    by (cases "polling (term_poll pid r)") (simp_all add: steps_left_def term_rank_def polling_def)
next
  fix r assume "q = p\<lparr>tree := term_reap pid r, gone := gone p \<or> errors_is r ESRCH\<rparr>" "tree p = TReap"
  then show ?thesis using reap_rank [of pid r] poll_again(2) [of pid r]
    by (cases "polling (term_reap pid r)") (simp_all add: steps_left_def term_rank_def polling_def)
next
  fix r direct assume "q = p\<lparr>tree := term_kill pid r direct, kills := kills p + 1, gone := gone p \<or> errors_is r ESRCH\<rparr>"
    "tree p = TKill"
  then show ?thesis using kill_rank [of pid r direct] by (simp add: steps_left_def term_rank_def)
qed (auto simp: ranks force_begin_def close_finish_def shutdown_exited_def output_closed case_prod_beta
      dest!: closeOutput_fields)

lemma killed_returns: "shutting p = SKill cause ie \<Longrightarrow> force p = FDone fe \<Longrightarrow> \<exists>q. run_step pid p q"
  using s_killed [of p cause ie fe err "fst (closeOutput err p)" "snd (closeOutput err p)" pid for err] by auto

lemma not_stuck:
  assumes inv: "process_inv p" and exited: "processDone p"
  shows "settled p \<or> (\<exists>q. run_step pid p q)"
proof -
  have flags: "wait_flags p" and ended: "group_ended p" using inv by (simp_all add: process_inv_def)
  consider "tree p = TKill" | "tree p = TPoll" | "tree p = TReap" | w where "waiter p = WReleasing w" "tree p = TIdle"
    | e where "tree p = TDone e"
    using flags ended exited by (cases "tree p"; cases "waiter p") (auto simp: wait_flags_def group_ended_def)
  then show ?thesis
  proof cases
    case (5 e)
    show ?thesis
    proof (cases "force p = FTree \<or> force p = FTerm \<or> waiter p \<noteq> WJoined")
      case True
      then show ?thesis using 5 flags exited by (cases "waiter p") (auto simp: wait_flags_def intro: run_step.intros)
    next
      case False
      then have force: "force p = FIdle \<or> (\<exists>e. force p = FDone e)" and "waitDone p"
        using flags by (cases "force p"; simp add: wait_flags_def)+
      show ?thesis
      proof (cases "wants_force p \<and> force p = FIdle")
        case False
        then show ?thesis using force \<open>waitDone p\<close> flags
          by (cases "closing p"; cases "shutting p")
            (auto simp: settled_def wants_force_def wait_flags_def intro: run_step.intros killed_returns)
      qed (auto intro: run_step.intros)
    qed
  qed (auto intro: run_step.intros exited)
qed




text \<open>C37: Once the child has exited, no call of \<open>Close\<close>, \<open>Shutdown\<close> or of the context deadlocks: a
  goroutine can move until every caller has returned and the child is reaped, and apart from
  polling a group that is still there at most fifteen steps are left.\<close>

theorem process_winds_down:
  assumes "reach (\<lambda>p. p = started) (process_step pid) p" and "processDone p"
  shows "(settled p \<or> (\<exists>q. run_step pid p q)) \<and> steps_left p \<le> 15 \<and>
    (\<forall>q. run_step pid p q \<longrightarrow>
       steps_left q < steps_left p \<or> polling (tree p) \<and> polling (tree q) \<and> q = p\<lparr>tree := tree q\<rparr>)"
  using not_stuck [OF processes.reach_inv [OF assms(1)] assms(2)] steps_run_out steps_left_bounded by blast

lemma process_winds_down_witness:
  "\<exists>p q. closing p = CForce None \<and> processDone p \<and> run_step 7 p q"
proof -
  let ?R = "reach (\<lambda>p. p = started) (process_step 7)"
  define p1 where "p1 = installTree started"
  define p2 where "p2 = p1\<lparr>processDone := True, waiter := WReleasing None\<rparr>"
  define p3 where "p3 = p2\<lparr>stdinOnce := Some None, closing := CForce None\<rparr>"
  have "?R started" by (rule reach_init) (rule refl)
  moreover have "process_step 7 started p1" unfolding p1_def process_step_def
    by (rule disjI2, rule installed) (simp add: started_def)
  moreover have "process_step 7 p1 p2" unfolding p2_def process_step_def
    by (rule disjI2, rule child_exits) (simp_all add: p1_def started_def installTree_def)
  moreover have "process_step 7 p2 p3" unfolding p3_def process_step_def
    by (rule disjI2)
      (use calls_close [of p2 None None "p2\<lparr>stdinOnce := Some None\<rparr>"] in
        \<open>simp add: p2_def p1_def started_def installTree_def closeInput_def close_result_def\<close>)
  ultimately have reached: "?R p3" by (blast intro: reach_step)
  have here: "processDone p3" "closing p3 = CForce None" by (simp_all add: p3_def p2_def)
  moreover have "\<not> settled p3" by (simp add: settled_def p3_def p2_def)
  ultimately show ?thesis using process_winds_down [OF reached here(1)] by blast
qed

section \<open>Starting a process\<close>

text \<open>What \<open>Start\<close> opens, in the order of the code; each step may fail.\<close>

datatype resource = StdinPipe | StdoutRead | StdoutWrite | Child

record started_as =
  start_error :: "go_error option"
  opened :: "resource list"
  released :: "resource list"

definition Start :: "string \<Rightarrow> go_error option \<Rightarrow> go_error option \<Rightarrow> go_error option \<Rightarrow> go_error option \<Rightarrow> started_as" where
  "Start executable stdinErr pipeErr startErr attachErr =
     (if executable = [] then
        \<lparr>start_error = Some (Sentinel ''stdio: executable is required''), opened = [], released = []\<rparr>
      else case stdinErr of
        Some e \<Rightarrow> \<lparr>start_error = Some e, opened = [], released = []\<rparr>
      | None \<Rightarrow>
          (case pipeErr of
             Some e \<Rightarrow> \<lparr>start_error = Some e, opened = [StdinPipe], released = [StdinPipe]\<rparr>
           | None \<Rightarrow>
               (case startErr of
                  Some e \<Rightarrow> \<lparr>start_error = Some e, opened = [StdinPipe, StdoutRead, StdoutWrite],
                             released = [StdoutWrite, StdinPipe, StdoutRead]\<rparr>
                | None \<Rightarrow>
                    (case attachErr of
                       Some e \<Rightarrow> \<lparr>start_error = Some e, opened = [StdinPipe, StdoutRead, StdoutWrite, Child],
                                  released = [StdoutWrite, StdinPipe, StdoutRead, Child]\<rparr>
                     | None \<Rightarrow> \<lparr>start_error = None, opened = [StdinPipe, StdoutRead, StdoutWrite, Child],
                                released = [StdoutWrite]\<rparr>))))"

lemma failed_start_releases:
  "set (released (Start ex a b c d)) =
     (if start_error (Start ex a b c d) = None then {StdoutWrite} else set (opened (Start ex a b c d)))"
  by (auto simp: Start_def split: option.split)

definition directTerminate :: "go_error option \<Rightarrow> go_error option" where
  "directTerminate r = (if errors_is r ErrProcessDone then None else r)"

definition Process_Wait :: "go_error option \<Rightarrow> process \<Rightarrow> go_error option set option" where
  "Process_Wait ctx p =
     (let results = (if ctx \<noteq> None then {ctx} else {}) \<union> (if waitDone p then {waitErr p} else {})
      in if results = {} then None else Some results)"

section \<open>A client with its process\<close>

text \<open>The results of the calls that \<open>ClientProcess\<close> makes are arguments, in the order of the calls.\<close>

definition ended_normally :: "go_error option \<Rightarrow> bool" where
  "ended_normally e \<longleftrightarrow> errors_is e ErrConnectionClosed \<or> errors_is e ErrPeerClosed"

definition ClientProcess_Close :: "go_error option \<Rightarrow> go_error option \<Rightarrow> go_error option" where
  "ClientProcess_Close connErr procErr = errors_join [connErr, procErr]"

definition ClientProcess_shutdown :: "go_error option \<Rightarrow> go_error option \<Rightarrow> go_error option \<Rightarrow> go_error option" where
  "ClientProcess_shutdown connectionCloseErr processErr connectionErr =
     errors_join [connectionCloseErr, processErr, if ended_normally connectionErr then None else connectionErr]"

text \<open>The result of \<open>Wait\<close>, and whether the connection was closed and joined.\<close>

definition ClientProcess_Wait :: "bool \<Rightarrow> go_error option \<Rightarrow> go_error option \<Rightarrow> go_error option \<times> bool" where
  "ClientProcess_Wait ctxEnded processErr connectionErr =
     (if processErr \<noteq> None \<and> ctxEnded then (processErr, False)
      else if processErr \<noteq> None then (processErr, True)
      else if ended_normally connectionErr then (None, True)
      else (connectionErr, True))"

text \<open>The error of \<open>StartClient\<close>, and whether the process it had started is closed again.\<close>

definition StartClient :: "go_error option \<Rightarrow> go_error option \<Rightarrow> go_error option \<times> bool" where
  "StartClient startErr connErr =
     (case startErr of
        Some e \<Rightarrow> (Some e, False)
      | None \<Rightarrow> (case connErr of Some e \<Rightarrow> (Some e, True) | None \<Rightarrow> (None, False)))"

lemma clean_shutdown: "ClientProcess_shutdown None None (Some ErrPeerClosed) = None"
  by code_simp

end
