(* ===== verification/SchemaMerge.thy ===== *)
theory SchemaMerge
  imports Prelude
begin

text \<open>
  The merge of the stable and the unstable schema, \<open>cmd/generate/internal/load/merge.go\<close>, over the
  types of \<open>load.go\<close>.

  A Go map is the list of its entries in the order in which \<open>range\<close> delivers them; since that
  order is arbitrary, so are the lists, and what is proved holds for each of them. A nil
  pointer, map or slice is \<open>None\<close>. Decoded schemas are trees, so that sharing of pointers plays
  no role; a copy differs from the value only in its empty slices that are not nil. Values of type \<open>any\<close> are of the type \<open>'v\<close>.
\<close>

section \<open>Schemas\<close>

record 'v def_attrs =
  Description :: string
  Type :: "'v option"
  Format :: string
  Required :: "string list option"
  Enum :: "'v list option"
  DocsIgnore :: bool
  Title :: string
  Const :: "'v option"
  Minimum :: "int option"
  MinLength :: int
  MinItems :: int
  Default :: "'v option"
  DeserializeDefaultOnNull :: bool
  DeserializeDefaultOnError :: bool
  DeserializeSkipInvalidItems :: bool
  Discriminator :: "string option"
  AdditionalProperties :: "'v option"
  UnevaluatedProperties :: "'v option"
  boolSchema :: "bool option"

datatype 'v schema_node =
  Definition
    (attrs: "'v def_attrs")
    (Ref: string)
    (XSide: string)
    (XMethod: string)
    (Items: "'v schema_node option")
    (Properties: "(string \<times> 'v schema_node option) list option")
    (AnyOf: "'v schema_node option list option")
    (OneOf: "'v schema_node option list option")
    (AllOf: "'v schema_node option list option")

type_synonym 'v defs = "(string \<times> 'v schema_node option) list"

record meta =
  m_Version :: int
  AgentMethods :: "(string \<times> string) list option"
  ClientMethods :: "(string \<times> string) list option"
  ProtocolMethods :: "(string \<times> string) list option"

datatype merge_error =
    NilInput string
  | VersionMismatch int int
  | MethodConflict string string string
  | MissingDefinition string
  | AlreadyExists string

text \<open>\<open>schema.Defs[name]\<close>, which is nil for a missing name, and whether the name has an entry.\<close>

definition lookup :: "'v defs \<Rightarrow> string \<Rightarrow> 'v schema_node option" where
  "lookup ds n = (case map_of ds n of Some (Some d) \<Rightarrow> Some d | _ \<Rightarrow> None)"

definition has_entry :: "'v defs \<Rightarrow> string \<Rightarrow> bool" where
  "has_entry ds n \<longleftrightarrow> n \<in> fst ` set ds"

definition store :: "string \<Rightarrow> 'b \<Rightarrow> (string \<times> 'b) list \<Rightarrow> (string \<times> 'b) list" where
  "store k v m = (if k \<in> fst ` set m then map (\<lambda>(k', v'). if k' = k then (k, v) else (k', v')) m else m @ [(k, v)])"

section \<open>References\<close>

definition ref_name :: "string \<Rightarrow> string option" where
  "ref_name r =
     (if has_prefix r ''#/$defs/'' \<and> trim_prefix r ''#/$defs/'' \<noteq> [] then Some (trim_prefix r ''#/$defs/'') else None)"

definition members :: "'b list option list option \<Rightarrow> 'b list" where
  "members xs = concat (map (\<lambda>x. case x of None \<Rightarrow> [] | Some ys \<Rightarrow> ys) (case xs of None \<Rightarrow> [] | Some l \<Rightarrow> l))"

primrec collectDefinitionRefs :: "'v schema_node \<Rightarrow> string list" where
  "collectDefinitionRefs (Definition a r s m it ps an on al) =
     opt_list (ref_name r)
     @ members (Some [map_option collectDefinitionRefs it])
     @ members (map_option (map snd) (map_option (map (map_prod id (map_option collectDefinitionRefs))) ps))
     @ members (map_option (map (map_option collectDefinitionRefs)) an)
     @ members (map_option (map (map_option collectDefinitionRefs)) on)
     @ members (map_option (map (map_option collectDefinitionRefs)) al)"

definition rename_ref :: "(string \<times> string) list \<Rightarrow> string \<Rightarrow> string" where
  "rename_ref dupMap r =
     (case ref_name r of
        None \<Rightarrow> r
      | Some name \<Rightarrow> (case map_of dupMap name of None \<Rightarrow> r | Some new \<Rightarrow> ''#/$defs/'' @ new))"

primrec rewriteDefinitionRefs :: "(string \<times> string) list \<Rightarrow> 'v schema_node \<Rightarrow> 'v schema_node" where
  "rewriteDefinitionRefs dupMap (Definition a r s m it ps an on al) =
     Definition a (rename_ref dupMap r) s m
       (map_option (rewriteDefinitionRefs dupMap) it)
       (map_option (map (map_prod id (map_option (rewriteDefinitionRefs dupMap)))) ps)
       (map_option (map (map_option (rewriteDefinitionRefs dupMap))) an)
       (map_option (map (map_option (rewriteDefinitionRefs dupMap))) on)
       (map_option (map (map_option (rewriteDefinitionRefs dupMap))) al)"

text \<open>\<open>append([]string(nil), xs...)\<close> is nil for an empty slice.\<close>

definition appended_to_nil :: "'b list option \<Rightarrow> 'b list option" where
  "appended_to_nil xs = (if xs = Some [] then None else xs)"

primrec deepCopyDefinition :: "'v schema_node \<Rightarrow> 'v schema_node" where
  "deepCopyDefinition (Definition a r s m it ps an on al) =
     Definition (a\<lparr>Required := appended_to_nil (Required a), Enum := appended_to_nil (Enum a)\<rparr>) r s m
       (map_option deepCopyDefinition it)
       (map_option (map (map_prod id (map_option deepCopyDefinition))) ps)
       (map_option (map (map_option deepCopyDefinition)) an)
       (map_option (map (map_option deepCopyDefinition)) on)
       (map_option (map (map_option deepCopyDefinition)) al)"

lemma members_cong:
  assumes "\<And>l d. xs = Some l \<Longrightarrow> Some d \<in> set l \<Longrightarrow> g d = h d"
  shows "members (map_option (map (map_option g)) xs) = members (map_option (map (map_option h)) xs)"
proof (cases xs)
  case (Some l)
  have "map (map_option g) l = map (map_option h) l"
    using assms [OF Some] by (intro map_cong refl option.map_cong0) (auto simp: in_set_conv_nth)
  then show ?thesis by (simp only: Some option.map)
qed simp

lemma refs_copy [simp]: "collectDefinitionRefs (deepCopyDefinition d) = collectDefinitionRefs d"
proof (induction d)
  case (Definition a r s m it ps an on al)
  let ?c = collectDefinitionRefs and ?w = deepCopyDefinition
  have item: "members (Some [map_option (?c \<circ> ?w) it]) = members (Some [map_option ?c it])"
    using Definition(1) by (cases it) (auto simp: members_def)
  have props: "members (map_option (map (map_option (?c \<circ> ?w))) (map_option (map snd) ps)) =
      members (map_option (map (map_option ?c)) (map_option (map snd) ps))"
    using Definition(2) by (intro members_cong) fastforce
  have lists: "members (map_option (map (map_option (?c \<circ> ?w))) xs) = members (map_option (map (map_option ?c)) xs)"
    if "xs = an \<or> xs = on \<or> xs = al" for xs
    using Definition(3-5) that by (intro members_cong) fastforce
  have comp: "map_option (map snd) (map_option (map (map_prod id (map_option ?c))) (map_option (map (map_prod id (map_option ?w))) ps))
      = map_option (map (map_option (?c \<circ> ?w))) (map_option (map snd) ps)"
    "map_option (map snd) (map_option (map (map_prod id (map_option ?c))) ps) = map_option (map (map_option ?c)) (map_option (map snd) ps)"
    by (cases ps; auto simp: option.map_comp)+
  show ?case
    unfolding deepCopyDefinition.simps collectDefinitionRefs.simps comp props
    using item lists [of an] lists [of on] lists [of al]
    by (simp add: option.map_comp o_def list.map_comp)
qed

section \<open>The methods\<close>

definition entries :: "(string \<times> string) list option \<Rightarrow> (string \<times> string) list" where
  "entries m = (case m of None \<Rightarrow> [] | Some es \<Rightarrow> es)"

definition addWireMethods :: "string list \<Rightarrow> (string \<times> string) list option \<Rightarrow> string list" where
  "addWireMethods dst methods = dst @ filter (\<lambda>w. w \<noteq> []) (map snd (entries methods))"

definition cloneStringMap :: "(string \<times> string) list option \<Rightarrow> (string \<times> string) list option" where
  "cloneStringMap m = (if entries m = [] then None else Some (entries m))"

fun merge_methods :: "string list \<Rightarrow> (string \<times> string) list \<Rightarrow> (string \<times> string) list \<Rightarrow> string list \<Rightarrow>
    merge_error + (string \<times> string) list \<times> string list" where
  "merge_methods stableWires [] dst only = Inr (dst, only)"
| "merge_methods stableWires ((key, wire) # src) dst only =
     (if wire = [] \<or> wire \<in> set stableWires then merge_methods stableWires src dst only
      else (case map_of dst key of
              Some existing \<Rightarrow>
                if existing \<noteq> wire then Inl (MethodConflict key existing wire)
                else merge_methods stableWires src (store key wire dst) (only @ [wire])
            | None \<Rightarrow> merge_methods stableWires src (store key wire dst) (only @ [wire])))"

definition mergeUnstableOnlyMethods :: "(string \<times> string) list option \<Rightarrow> (string \<times> string) list option \<Rightarrow> string list \<Rightarrow>
    string list \<Rightarrow> merge_error + (string \<times> string) list option \<times> string list" where
  "mergeUnstableOnlyMethods dst src stableWires only =
     (if entries src = [] then Inr (dst, only)
      else (case merge_methods stableWires (entries src) (entries dst) only of
              Inl e \<Rightarrow> Inl e
            | Inr (d, o') \<Rightarrow> Inr (Some d, o')))"

section \<open>Which definitions are duplicated\<close>

definition rpc_root_name :: "string \<Rightarrow> bool" where
  "rpc_root_name name \<longleftrightarrow> has_suffix name ''Request'' \<or> has_suffix name ''Response'' \<or> has_suffix name ''Notification''"

definition rpc_roots :: "'v defs \<Rightarrow> string list \<Rightarrow> string list" where
  "rpc_roots ds wires =
     concat (map (\<lambda>(name, def). case def of
         None \<Rightarrow> []
       | Some d \<Rightarrow>
           if XMethod d \<noteq> [] \<and> XSide d \<noteq> [] \<and> XMethod d \<in> set wires \<and> rpc_root_name name then [name] else []) ds)"

definition new_or_changed :: "'v defs \<Rightarrow> 'v defs \<Rightarrow> string \<Rightarrow> bool" where
  "new_or_changed stab unstable name \<longleftrightarrow>
     has_entry unstable name \<and> (lookup stab name = None \<or> lookup stab name \<noteq> lookup unstable name)"

text \<open>The names among the references that satisfy \<open>p\<close> and were not seen before, each once.\<close>

definition fresh_refs :: "(string \<Rightarrow> bool) \<Rightarrow> string list \<Rightarrow> 'v schema_node \<Rightarrow> string list" where
  "fresh_refs p seen d = filter (\<lambda>r. p r \<and> r \<notin> set seen) (remdups (collectDefinitionRefs d))"

text \<open>
  A traversal adds to the queue and to the seen names the same fresh names of a finite set, so
  it ends: each round makes this measure smaller.
\<close>

definition left_to_visit :: "string set \<Rightarrow> string list \<Rightarrow> string list \<Rightarrow> nat" where
  "left_to_visit nodes queue seen = card (nodes - set seen) + length queue"

lemma left_to_visit_fresh:
  assumes "finite nodes" "\<forall>r. p r \<and> r \<in> set (collectDefinitionRefs d) \<longrightarrow> r \<in> nodes"
  shows "left_to_visit nodes (queue @ fresh_refs p seen d) (seen @ fresh_refs p seen d) < left_to_visit nodes (name # queue) seen"
proof -
  let ?new = "fresh_refs p seen d"
  have new: "distinct ?new" "set ?new \<subseteq> nodes - set seen" using assms(2) by (auto simp: fresh_refs_def)
  have "card (nodes - set (seen @ ?new)) = card ((nodes - set seen) - set ?new)" by (rule arg_cong [of _ _ card]) auto
  also have "\<dots> = card (nodes - set seen) - length ?new"
    using new assms(1) by (simp add: card_Diff_subset distinct_card)
  finally have "card (nodes - set (seen @ ?new)) = card (nodes - set seen) - length ?new" .
  moreover have "length ?new \<le> card (nodes - set seen)"
    using card_mono [OF _ new(2)] assms(1) new(1) by (simp add: distinct_card)
  ultimately show ?thesis by (simp add: left_to_visit_def)
qed

function reach_refs :: "'v defs \<Rightarrow> string list \<Rightarrow> string list \<Rightarrow> merge_error + string list" where
  "reach_refs unstable [] reachable = Inr reachable"
| "reach_refs unstable (name # queue) reachable =
     (case lookup unstable name of
        None \<Rightarrow> Inl (MissingDefinition name)
      | Some d \<Rightarrow>
          (let new = fresh_refs (has_entry unstable) reachable d
           in reach_refs unstable (queue @ new) (reachable @ new)))"
  by pat_completeness auto
termination
proof (relation "measure (\<lambda>(unstable, queue, reachable). left_to_visit (fst ` set unstable) queue reachable)", goal_cases)
  case (2 unstable name queue reachable d new)
  then show ?case by (simp del: append_assoc) (rule left_to_visit_fresh, auto simp: has_entry_def)
qed simp

text \<open>
  One pass of the last loop over the reachable names, and the loop. A pass takes the names in the
  order of its list; the source ranges over a map, whose order may differ from pass to pass. What
  the lemmas below show of a pass they show for any list of names, and the set with which the
  loop ends is determined by what it is closed under, so it does not depend on the order.
\<close>

fun dup_pass :: "'v defs \<Rightarrow> string list \<Rightarrow> string list \<Rightarrow> merge_error + string list" where
  "dup_pass unstable [] dup = Inr dup"
| "dup_pass unstable (name # names) dup =
     (if name \<in> set dup then dup_pass unstable names dup
      else (case lookup unstable name of
              None \<Rightarrow> Inl (MissingDefinition name)
            | Some d \<Rightarrow>
                dup_pass unstable names
                  (if \<exists>r \<in> set (collectDefinitionRefs d). r \<in> set dup then dup @ [name] else dup)))"

lemma dup_pass_grows:
  assumes "dup_pass unstable names dup = Inr dup'"
  shows "\<exists>new. dup' = dup @ new \<and> set new \<subseteq> set names - set dup \<and> distinct new"
  using assms
proof (induction unstable names dup rule: dup_pass.induct)
  case (2 unstable name names dup)
  show ?case
  proof (cases "name \<in> set dup")
    case True
    then show ?thesis using 2 by fastforce
  next
    case False
    then obtain d where d: "lookup unstable name = Some d" using 2(3) by (auto split: option.splits)
    show ?thesis
    proof (cases "\<exists>r \<in> set (collectDefinitionRefs d). r \<in> set dup")
      case True
      then have "dup_pass unstable names (dup @ [name]) = Inr dup'" using 2(3) False d by simp
      with 2(2) [OF False d] True obtain new where "dup' = (dup @ [name]) @ new"
        "set new \<subseteq> set names - set (dup @ [name])" "distinct new" by auto
      then show ?thesis using False by (intro exI [of _ "name # new"]) auto
    next
      case nr: False
      then have "dup_pass unstable names dup = Inr dup'" using 2(3) False d by simp
      with 2(2) [OF False d] nr obtain new where "dup' = dup @ new" "set new \<subseteq> set names - set dup" "distinct new" by auto
      then show ?thesis by auto
    qed
  qed
qed simp

function dup_loop :: "'v defs \<Rightarrow> string list \<Rightarrow> string list \<Rightarrow> merge_error + string list" where
  "dup_loop unstable reachable dup =
     (case dup_pass unstable reachable dup of
        Inl e \<Rightarrow> Inl e
      | Inr dup' \<Rightarrow> if dup' = dup then Inr dup else dup_loop unstable reachable dup')"
  by pat_completeness auto
termination
proof (relation "measure (\<lambda>(unstable, reachable, dup). card (set reachable - set dup))", goal_cases)
  case (2 unstable reachable dup dup')
  obtain new where new: "dup' = dup @ new" "set new \<subseteq> set reachable - set dup" using dup_pass_grows [OF 2(1)] by blast
  then have "set reachable - set dup' \<subset> set reachable - set dup" using 2(2) by (cases new) auto
  then show ?case by (simp add: psubset_card_mono)
qed simp

declare dup_loop.simps [simp del]


definition buildUnstableDuplicateSet :: "'v defs \<Rightarrow> 'v defs \<Rightarrow> string list \<Rightarrow> merge_error + string list" where
  "buildUnstableDuplicateSet stab unst unstableOnly =
     (let roots = rpc_roots unst unstableOnly
      in case reach_refs unst roots roots of
           Inl e \<Rightarrow> Inl e
         | Inr reachable \<Rightarrow>
             dup_loop unst reachable
               (roots @ filter (\<lambda>n. new_or_changed stab unst n \<and> n \<notin> set roots) reachable))"

section \<open>The merged definitions\<close>

text \<open>
  \<open>promoteChangedSharedDefs\<close> keeps the combined definitions and the promoted names; a name of the
  queue without an unstable definition is skipped.
\<close>

function promote :: "'v defs \<Rightarrow> 'v defs \<Rightarrow> string list \<Rightarrow> string list \<Rightarrow> 'v defs \<Rightarrow> string list \<Rightarrow> 'v defs \<times> string list" where
  "promote stab unst [] seen combined promoted = (combined, promoted)"
| "promote stab unst (name # queue) seen combined promoted =
     (case lookup unst name of
        None \<Rightarrow> promote stab unst queue seen combined promoted
      | Some udef \<Rightarrow>
          (let changed = (lookup stab name = None \<or> lookup stab name \<noteq> Some udef);
               new = fresh_refs (\<lambda>r. lookup unst r \<noteq> None) seen udef
           in promote stab unst (queue @ new) (seen @ new)
                (if changed then store name (Some (deepCopyDefinition udef)) combined else combined)
                (if changed then promoted @ [name] else promoted)))"
  by pat_completeness auto

lemma lookup_entry: "lookup ds n = Some d \<Longrightarrow> n \<in> fst ` set ds"
  by (auto simp: lookup_def split: option.splits dest!: map_of_SomeD intro: rev_image_eqI)

termination promote
proof (relation "measure (\<lambda>(stab, unst, queue, seen, _). left_to_visit (fst ` set unst) queue seen)", goal_cases)
  case (2 stab unst name queue seen combined promoted)
  then show ?case by (simp add: left_to_visit_def)
next
  case (3 stab unst name queue seen combined promoted d changed new)
  then show ?case by (simp del: append_assoc) (rule left_to_visit_fresh, auto dest: lookup_entry)
qed simp

definition promoteChangedSharedDefs :: "'v defs \<Rightarrow> 'v defs \<Rightarrow> 'v defs \<Rightarrow> string list \<Rightarrow> 'v defs \<times> string list" where
  "promoteChangedSharedDefs combined stab unst stableWires =
     promote stab unst (rpc_roots stab stableWires) (rpc_roots stab stableWires) combined []"

text \<open>\<open>ensureRefsAvailable\<close>: every name that occurs in a definition it visits gets one, if the unstable schema has it.\<close>

definition add_missing :: "'v defs \<Rightarrow> string list \<Rightarrow> 'v defs \<Rightarrow> 'v defs" where
  "add_missing unst names combined =
     fold (\<lambda>r c. if has_entry c r then c
                 else (case lookup unst r of None \<Rightarrow> c | Some u \<Rightarrow> store r (Some (deepCopyDefinition u)) c)) names combined"

definition def_or_unstable :: "'v defs \<Rightarrow> 'v defs \<Rightarrow> string \<Rightarrow> 'v schema_node option" where
  "def_or_unstable combined unst name =
     (case lookup combined name of None \<Rightarrow> lookup unst name | Some d \<Rightarrow> Some d)"

definition defs_refs :: "'v defs \<Rightarrow> string set" where
  "defs_refs ds = \<Union> ((\<lambda>(n, d). case d of None \<Rightarrow> {} | Some x \<Rightarrow> set (collectDefinitionRefs x)) ` set ds)"

lemma defs_refs_finite [simp]: "finite (defs_refs ds)"
  by (auto simp: defs_refs_def split: option.split)

lemma lookup_refs: "lookup ds n = Some d \<Longrightarrow> set (collectDefinitionRefs d) \<subseteq> defs_refs ds"
  by (fastforce simp: lookup_def defs_refs_def split: option.splits dest!: map_of_SomeD)

lemma defs_refs_store: "defs_refs (store n (Some d) ds) \<subseteq> defs_refs ds \<union> set (collectDefinitionRefs d)"
  by (auto simp: defs_refs_def store_def split: option.splits if_splits)

lemma defs_refs_add_missing: "defs_refs (add_missing unst names combined) \<subseteq> defs_refs combined \<union> defs_refs unst"
proof (induction names arbitrary: combined)
  case (Cons r names)
  let ?c = "if has_entry combined r then combined
     else (case lookup unst r of None \<Rightarrow> combined | Some u \<Rightarrow> store r (Some (deepCopyDefinition u)) combined)"
  have "defs_refs ?c \<subseteq> defs_refs combined \<union> defs_refs unst"
  proof (cases "lookup unst r")
    case (Some u)
    then show ?thesis using defs_refs_store [of r "deepCopyDefinition u" combined] lookup_refs [OF Some] by auto
  qed simp
  then show ?case using Cons.IH [of ?c] by (auto simp: add_missing_def)
qed (simp add: add_missing_def)

function ensure_refs :: "'v defs \<Rightarrow> string list \<Rightarrow> string list \<Rightarrow> 'v defs \<Rightarrow> 'v defs" where
  "ensure_refs unst [] seen combined = combined"
| "ensure_refs unst (name # queue) seen combined =
     (case def_or_unstable combined unst name of
        None \<Rightarrow> ensure_refs unst queue seen combined
      | Some d \<Rightarrow>
          (let refs = remdups (collectDefinitionRefs d);
               new = fresh_refs (\<lambda>_. True) seen d
           in ensure_refs unst (queue @ new) (seen @ new) (add_missing unst refs combined)))"
  by pat_completeness auto
termination
proof (relation "measure (\<lambda>(unst, queue, seen, combined). left_to_visit (defs_refs combined \<union> defs_refs unst) queue seen)", goal_cases)
  case (2 unst name queue seen combined)
  then show ?case by (simp add: left_to_visit_def)
next
  case (3 unst name queue seen combined d refs new)
  let ?U = "defs_refs combined \<union> defs_refs unst" and ?V = "defs_refs (add_missing unst refs combined) \<union> defs_refs unst"
  have "set (collectDefinitionRefs d) \<subseteq> ?U"
    using 3(1) lookup_refs [of combined name] lookup_refs [of unst name] by (auto simp: def_or_unstable_def split: option.splits)
  then have "left_to_visit ?U (queue @ new) (seen @ new) < left_to_visit ?U (name # queue) seen"
    unfolding 3(3) by (intro left_to_visit_fresh) auto
  moreover have "left_to_visit ?V (queue @ new) (seen @ new) \<le> left_to_visit ?U (queue @ new) (seen @ new)"
    unfolding left_to_visit_def using defs_refs_add_missing [of unst refs combined]
    by (intro add_mono card_mono) auto
  ultimately show ?case by simp
qed simp

definition ensureRefsAvailable :: "'v defs \<Rightarrow> 'v defs \<Rightarrow> string list \<Rightarrow> 'v defs" where
  "ensureRefsAvailable combined unst roots =
     (if roots = [] then combined else ensure_refs unst roots roots combined)"

text \<open>The last loop: the copies under the prefix. \<open>dupMap\<close> is the list of its entries.\<close>

definition clear_root :: "string list \<Rightarrow> 'v schema_node \<Rightarrow> 'v schema_node" where
  "clear_root stableWires d =
     (if XMethod d \<noteq> [] \<and> XMethod d \<in> set stableWires
      then Definition (attrs d) (Ref d) [] [] (Items d) (Properties d) (AnyOf d) (OneOf d) (AllOf d) else d)"

fun add_copies :: "'v defs \<Rightarrow> string list \<Rightarrow> (string \<times> string) list \<Rightarrow> (string \<times> string) list \<Rightarrow> 'v defs \<Rightarrow> merge_error + 'v defs" where
  "add_copies unst stableWires dupMap [] combined = Inr combined"
| "add_copies unst stableWires dupMap ((oldName, newName) # rest) combined =
     (if has_entry combined newName then Inl (AlreadyExists newName)
      else (case lookup unst oldName of
              None \<Rightarrow> Inl (MissingDefinition oldName)
            | Some d \<Rightarrow>
                add_copies unst stableWires dupMap rest
                  (store newName (Some (clear_root stableWires (rewriteDefinitionRefs dupMap (deepCopyDefinition d)))) combined)))"

definition unstable_name :: "string \<Rightarrow> string" where
  "unstable_name name = ''Unstable'' @ name"

definition stable_wires :: "meta \<Rightarrow> string list" where
  "stable_wires m = addWireMethods (addWireMethods (addWireMethods [] (AgentMethods m)) (ClientMethods m)) (ProtocolMethods m)"

text \<open>The combined meta and the wire methods that only the unstable one has.\<close>

definition merge_meta :: "meta \<Rightarrow> meta \<Rightarrow> merge_error + meta \<times> string list" where
  "merge_meta sm um =
     (let wires = stable_wires sm
      in case mergeUnstableOnlyMethods (cloneStringMap (AgentMethods sm)) (AgentMethods um) wires [] of
           Inl e \<Rightarrow> Inl e
         | Inr (agent, o1) \<Rightarrow>
             (case mergeUnstableOnlyMethods (cloneStringMap (ClientMethods sm)) (ClientMethods um) wires o1 of
                Inl e \<Rightarrow> Inl e
              | Inr (client, o2) \<Rightarrow>
                  (case mergeUnstableOnlyMethods (cloneStringMap (ProtocolMethods sm)) (ProtocolMethods um) wires o2 of
                     Inl e \<Rightarrow> Inl e
                   | Inr (protocol, o3) \<Rightarrow>
                       Inr (\<lparr>m_Version = m_Version sm, AgentMethods = agent, ClientMethods = client,
                             ProtocolMethods = protocol\<rparr>, o3))))"

definition MergeStableAndUnstable :: "meta option \<Rightarrow> 'v defs option \<Rightarrow> meta option \<Rightarrow> 'v defs option \<Rightarrow>
    merge_error + meta \<times> 'v defs" where
  "MergeStableAndUnstable stableMeta stableSchema unstableMeta unstableSchema =
     (case stableMeta of None \<Rightarrow> Inl (NilInput ''stable meta is nil'')
      | Some sm \<Rightarrow> (case stableSchema of None \<Rightarrow> Inl (NilInput ''stable schema is nil'')
      | Some stab \<Rightarrow> (case unstableMeta of None \<Rightarrow> Inl (NilInput ''unstable meta is nil'')
      | Some um \<Rightarrow> (case unstableSchema of None \<Rightarrow> Inl (NilInput ''unstable schema is nil'')
      | Some unst \<Rightarrow>
          if m_Version sm \<noteq> 0 \<and> m_Version um \<noteq> 0 \<and> m_Version sm \<noteq> m_Version um
          then Inl (VersionMismatch (m_Version sm) (m_Version um))
          else (case merge_meta sm um of
                  Inl e \<Rightarrow> Inl e
                | Inr (combinedMeta, unstableOnly) \<Rightarrow>
                    (case buildUnstableDuplicateSet stab unst unstableOnly of
                       Inl e \<Rightarrow> Inl e
                     | Inr dup \<Rightarrow>
                         (let dupMap = map (\<lambda>n. (n, unstable_name n)) dup;
                              (combined1, promoted) = promoteChangedSharedDefs stab stab unst (stable_wires sm);
                              combined2 = ensureRefsAvailable combined1 unst promoted
                          in map_sum id (\<lambda>c. (combinedMeta, c))
                               (add_copies unst (stable_wires sm) dupMap dupMap combined2))))))))"


section \<open>The duplicate set as a set of reachable names\<close>

definition ref_edges :: "'v defs \<Rightarrow> (string \<times> string) set" where
  "ref_edges u = {(n, r). \<exists>d. lookup u n = Some d \<and> r \<in> set (collectDefinitionRefs d) \<and> has_entry u r}"

lemma fresh_refs_set: "set (fresh_refs p seen d) = {r \<in> set (collectDefinitionRefs d). p r \<and> r \<notin> set seen}"
  by (auto simp: fresh_refs_def)

lemma edges_of: "lookup u n = Some d \<Longrightarrow> ref_edges u `` {n} = {r \<in> set (collectDefinitionRefs d). has_entry u r}"
  by (auto simp: ref_edges_def)

text \<open>Names taken from the queue are closed under the edges; what is found can be reached.\<close>

lemma reach_refs_closed:
  assumes "reach_refs u queue seen = Inr found" "set queue \<subseteq> set seen"
    "\<forall>n \<in> set seen - set queue. lookup u n \<noteq> None \<and> ref_edges u `` {n} \<subseteq> set seen"
  shows "set seen \<subseteq> set found \<and> (\<forall>n \<in> set found. lookup u n \<noteq> None \<and> ref_edges u `` {n} \<subseteq> set found)"
  using assms
proof (induction u queue seen rule: reach_refs.induct)
  case (2 u name queue seen)
  then obtain d where d: "lookup u name = Some d" by (auto split: option.splits)
  let ?new = "fresh_refs (has_entry u) seen d"
  have "reach_refs u (queue @ ?new) (seen @ ?new) = Inr found" using 2(2) d by (simp add: Let_def)
  moreover have "ref_edges u `` {name} \<subseteq> set (seen @ ?new)" by (auto simp: edges_of [OF d] fresh_refs_set)
  then have "\<forall>n \<in> set (seen @ ?new) - set (queue @ ?new). lookup u n \<noteq> None \<and> ref_edges u `` {n} \<subseteq> set (seen @ ?new)"
    using 2(4) d by fastforce
  ultimately show ?case using 2(1) [OF d refl] 2(3) by auto
qed auto

lemma reach_refs_reached:
  assumes "reach_refs u queue seen = Inr found" "set queue \<subseteq> set seen"
  shows "set found \<subseteq> (ref_edges u)\<^sup>* `` set seen"
  using assms
proof (induction u queue seen rule: reach_refs.induct)
  case (2 u name queue seen)
  then obtain d where d: "lookup u name = Some d" by (auto split: option.splits)
  let ?new = "fresh_refs (has_entry u) seen d"
  have "reach_refs u (queue @ ?new) (seen @ ?new) = Inr found" using 2(2) d by (simp add: Let_def)
  then have "set found \<subseteq> (ref_edges u)\<^sup>* `` set (seen @ ?new)" using 2(1) [OF d refl] 2(3) by auto
  moreover have "set ?new \<subseteq> ref_edges u `` {name}" by (auto simp: edges_of [OF d] fresh_refs_set)
  then have "set ?new \<subseteq> (ref_edges u)\<^sup>* `` set seen" using 2(3) by (auto intro: r_into_rtrancl)
  ultimately have "set found \<subseteq> (ref_edges u)\<^sup>* `` ((ref_edges u)\<^sup>* `` set seen)"
    by (fastforce simp: Image_Un)
  then show ?case by (auto intro: rtrancl_trans)
qed auto

lemma reach_refs_exact:
  assumes "reach_refs u roots roots = Inr found"
  shows "set found = (ref_edges u)\<^sup>* `` set roots" and "\<And>n. n \<in> set found \<Longrightarrow> lookup u n \<noteq> None"
proof -
  have cl: "set roots \<subseteq> set found" "\<forall>n \<in> set found. lookup u n \<noteq> None \<and> ref_edges u `` {n} \<subseteq> set found"
    using reach_refs_closed [OF assms] by auto
  have "m \<in> set found" if "(n, m) \<in> (ref_edges u)\<^sup>*" "n \<in> set found" for n m
    using that by (induction rule: rtrancl_induct) (use cl in blast)+
  then show "set found = (ref_edges u)\<^sup>* `` set roots"
    using cl(1) reach_refs_reached [OF assms] by blast
  show "\<And>n. n \<in> set found \<Longrightarrow> lookup u n \<noteq> None" using cl(2) by blast
qed

text \<open>The loop yields the least superset of what it starts with that is closed backwards.\<close>

definition back_closed :: "'v defs \<Rightarrow> string set \<Rightarrow> string set \<Rightarrow> bool" where
  "back_closed u reachable D \<longleftrightarrow>
     (\<forall>n \<in> reachable. \<forall>d. lookup u n = Some d \<and> set (collectDefinitionRefs d) \<inter> D \<noteq> {} \<longrightarrow> n \<in> D)"

lemma dup_pass_least:
  "dup_pass u names dup = Inr dup' \<Longrightarrow> back_closed u (set reachable) S \<Longrightarrow> set names \<subseteq> set reachable \<Longrightarrow>
     set dup \<subseteq> S \<Longrightarrow> set dup' \<subseteq> S"
proof (induction u names dup rule: dup_pass.induct)
  case (2 u name names dup)
  show ?case
  proof (cases "name \<in> set dup")
    case False
    then obtain d where d: "lookup u name = Some d" using 2(3) by (auto split: option.splits)
    have "name \<in> S" if "\<exists>r \<in> set (collectDefinitionRefs d). r \<in> set dup"
      using that 2(4-6) d unfolding back_closed_def by fastforce
    then show ?thesis using 2(2) [OF False d] 2(3-6) d False by (auto split: if_splits)
  qed (use 2 in auto)
qed simp

lemma dup_pass_fixed:
  "dup_pass u names dup = Inr dup \<Longrightarrow> back_closed u (set names) (set dup)"
proof (induction u names dup rule: dup_pass.induct)
  case (2 u name names dup)
  show ?case
  proof (cases "name \<in> set dup")
    case False
    then obtain d where d: "lookup u name = Some d" using 2(3) by (auto split: option.splits)
    have "\<not> (\<exists>r \<in> set (collectDefinitionRefs d). r \<in> set dup)"
    proof
      assume "\<exists>r \<in> set (collectDefinitionRefs d). r \<in> set dup"
      then have "dup_pass u names (dup @ [name]) = Inr dup" using 2(3) False d by simp
      from dup_pass_grows [OF this] show False by auto
    qed
    then show ?thesis using 2(2) [OF False d] 2(3) d False by (auto simp: back_closed_def)
  qed (use 2 in \<open>auto simp: back_closed_def\<close>)
qed (simp add: back_closed_def)

lemma dup_loop_least:
  assumes "dup_loop u reachable dup = Inr D"
  shows "set dup \<subseteq> set D \<and> back_closed u (set reachable) (set D) \<and>
    (\<forall>S. set dup \<subseteq> S \<and> back_closed u (set reachable) S \<longrightarrow> set D \<subseteq> S)"
  using assms
proof (induction u reachable dup rule: dup_loop.induct)
  case (1 u reachable dup)
  obtain dup' where p: "dup_pass u reachable dup = Inr dup'"
    using 1(2) by (subst (asm) dup_loop.simps) (auto split: sum.splits)
  show ?case
  proof (cases "dup' = dup")
    case True
    then have "D = dup" using 1(2) p by (subst (asm) dup_loop.simps) simp
    then show ?thesis using dup_pass_fixed p True by auto
  next
    case False
    then have "dup_loop u reachable dup' = Inr D" using 1(2) p by (subst (asm) dup_loop.simps) simp
    from 1(1) [OF p False this] show ?thesis
      using dup_pass_grows [OF p] dup_pass_least [OF p] by (metis (no_types, lifting) Un_subset_iff order.refl set_append)
  qed
qed


definition unstable_roots :: "'v defs \<Rightarrow> string list \<Rightarrow> string set" where
  "unstable_roots u wires = set (rpc_roots u wires)"

lemma rpc_roots_set:
  "n \<in> set (rpc_roots ds wires) \<longleftrightarrow> (\<exists>d. (n, Some d) \<in> set ds \<and> XMethod d \<noteq> [] \<and> XSide d \<noteq> [] \<and>
     XMethod d \<in> set wires \<and> rpc_root_name n)"
  by (force simp: rpc_roots_def split: option.splits if_splits)

lemma build_parts:
  assumes "buildUnstableDuplicateSet s u wires = Inr dup"
  obtains found where "reach_refs u (rpc_roots u wires) (rpc_roots u wires) = Inr found"
    "dup_loop u found (rpc_roots u wires @ filter (\<lambda>n. new_or_changed s u n \<and> n \<notin> set (rpc_roots u wires)) found) = Inr dup"
  using assms by (auto simp: buildUnstableDuplicateSet_def Let_def split: sum.splits)

lemma build_exact:
  assumes "buildUnstableDuplicateSet s u wires = Inr dup"
  shows "set dup = {n \<in> (ref_edges u)\<^sup>* `` unstable_roots u wires.
    \<exists>m. (n, m) \<in> (ref_edges u)\<^sup>* \<and> (m \<in> unstable_roots u wires \<or> new_or_changed s u m)}" (is "_ = ?S")
proof -
  let ?roots = "rpc_roots u wires"
  obtain found where f: "reach_refs u ?roots ?roots = Inr found"
    and l: "dup_loop u found (?roots @ filter (\<lambda>n. new_or_changed s u n \<and> n \<notin> set ?roots) found) = Inr dup"
    using build_parts [OF assms] .
  have R: "set found = (ref_edges u)\<^sup>* `` unstable_roots u wires" "\<And>n. n \<in> set found \<Longrightarrow> lookup u n \<noteq> None"
    using reach_refs_exact [OF f] by (simp_all add: unstable_roots_def)
  have ent: "has_entry u n" if "n \<in> set found" for n
    using R(2) [OF that] lookup_entry by (fastforce simp: has_entry_def)
  note least = dup_loop_least [OF l]
  have "set dup \<subseteq> ?S"
  proof -
    have "back_closed u (set found) ?S"
    proof (unfold back_closed_def, intro ballI allI impI, elim conjE)
      fix n d assume n: "n \<in> set found" "lookup u n = Some d" "set (collectDefinitionRefs d) \<inter> ?S \<noteq> {}"
      then obtain r m where r: "r \<in> set (collectDefinitionRefs d)" "r \<in> set found" "(r, m) \<in> (ref_edges u)\<^sup>*"
        "m \<in> unstable_roots u wires \<or> new_or_changed s u m" using R(1) by blast
      then have "(n, r) \<in> ref_edges u" using n(2) ent by (auto simp: ref_edges_def)
      then show "n \<in> ?S" using r n(1) R(1) by (blast intro: converse_rtrancl_into_rtrancl)
    qed
    moreover have "set (?roots @ filter (\<lambda>n. new_or_changed s u n \<and> n \<notin> set ?roots) found) \<subseteq> ?S"
      using R(1) by (auto simp: unstable_roots_def)
    ultimately show ?thesis using least by blast
  qed
  moreover have "n \<in> set dup" if "(n, m) \<in> (ref_edges u)\<^sup>*" "n \<in> set found" "m \<in> unstable_roots u wires \<or> new_or_changed s u m" for n m
    using that
  proof (induction rule: converse_rtrancl_induct)
    case base
    then show ?case using least by (auto simp: unstable_roots_def)
  next
    case (step n k)
    then have "k \<in> set found" using R(1) by (blast intro: rtrancl_into_rtrancl)
    then have "k \<in> set dup" using step by blast
    then show ?case using step least unfolding back_closed_def ref_edges_def by blast
  qed
  ultimately show ?thesis using R(1) by blast
qed

text \<open>Without nil definitions nothing goes wrong.\<close>

definition no_nil :: "'v defs \<Rightarrow> bool" where
  "no_nil ds \<longleftrightarrow> (\<forall>n. has_entry ds n \<longrightarrow> lookup ds n \<noteq> None)"

lemma reach_refs_total:
  "no_nil u \<Longrightarrow> \<forall>n \<in> set queue. has_entry u n \<Longrightarrow> \<exists>found. reach_refs u queue seen = Inr found"
proof (induction u queue seen rule: reach_refs.induct)
  case (2 u name queue seen)
  then obtain d where d: "lookup u name = Some d" by (auto simp: no_nil_def)
  have "\<forall>n \<in> set (queue @ fresh_refs (has_entry u) seen d). has_entry u n" using 2(3) by (auto simp: fresh_refs_set)
  then show ?case using 2(1) [OF d refl 2(2)] d by (simp add: Let_def)
qed simp

lemma dup_pass_total: "\<forall>n \<in> set names. lookup u n \<noteq> None \<Longrightarrow> \<exists>dup'. dup_pass u names dup = Inr dup'"
  by (induction u names dup rule: dup_pass.induct) auto

lemma dup_loop_total: "\<forall>n \<in> set reachable. lookup u n \<noteq> None \<Longrightarrow> \<exists>D. dup_loop u reachable dup = Inr D"
proof (induction u reachable dup rule: dup_loop.induct)
  case (1 u reachable dup)
  obtain dup' where "dup_pass u reachable dup = Inr dup'" using dup_pass_total [OF 1(2)] by blast
  then show ?case using 1 by (subst dup_loop.simps) auto
qed

lemma build_total:
  assumes "no_nil u"
  shows "\<exists>dup. buildUnstableDuplicateSet s u wires = Inr dup"
proof -
  have "\<forall>n \<in> set (rpc_roots u wires). has_entry u n"
    by (force simp: rpc_roots_set has_entry_def)
  then obtain found where f: "reach_refs u (rpc_roots u wires) (rpc_roots u wires) = Inr found"
    using reach_refs_total [OF assms] by blast
  then show ?thesis using dup_loop_total [of found u] reach_refs_exact(2) [OF f]
    by (simp add: buildUnstableDuplicateSet_def Let_def)
qed

section \<open>References of a rewritten definition\<close>

definition new_ref :: "(string \<times> string) list \<Rightarrow> string \<Rightarrow> string" where
  "new_ref dupMap n = (case map_of dupMap n of None \<Rightarrow> n | Some new \<Rightarrow> new)"

lemma ref_name_def_ref: "new \<noteq> [] \<Longrightarrow> ref_name (''#/$defs/'' @ new) = Some new"
  by (simp add: ref_name_def has_prefix_def trim_prefix_def)

lemma ref_name_rename:
  assumes "\<forall>new \<in> snd ` set dupMap. new \<noteq> []"
  shows "ref_name (rename_ref dupMap r) = map_option (new_ref dupMap) (ref_name r)"
proof (cases "ref_name r")
  case (Some n)
  then show ?thesis
  proof (cases "map_of dupMap n")
    case (Some new)
    then have "new \<noteq> []" using assms by (force dest: map_of_SomeD)
    then show ?thesis using Some \<open>ref_name r = Some n\<close> ref_name_def_ref [of new] by (simp add: rename_ref_def new_ref_def)
  qed (simp add: rename_ref_def new_ref_def)
qed (simp add: rename_ref_def)

lemma members_map:
  assumes "\<And>l d. xs = Some l \<Longrightarrow> Some d \<in> set l \<Longrightarrow> g d = map f (h d)"
  shows "members (map_option (map (map_option g)) xs) = map f (members (map_option (map (map_option h)) xs))"
proof (cases xs)
  case (Some l)
  have "concat (map (\<lambda>x. case map_option g x of None \<Rightarrow> [] | Some ys \<Rightarrow> ys) l) =
      concat (map (\<lambda>x. map f (case map_option h x of None \<Rightarrow> [] | Some ys \<Rightarrow> ys)) l)"
    using assms [OF Some] by (intro arg_cong [of _ _ concat] map_cong) (auto split: option.split)
  then show ?thesis by (simp add: members_def Some map_concat o_def)
qed (simp add: members_def)

lemma refs_rewrite:
  assumes "\<forall>new \<in> snd ` set dupMap. new \<noteq> []"
  shows "collectDefinitionRefs (rewriteDefinitionRefs dupMap d) = map (new_ref dupMap) (collectDefinitionRefs d)"
proof (induction d)
  case (Definition a r s m it ps an on al)
  let ?c = collectDefinitionRefs and ?w = "rewriteDefinitionRefs dupMap" and ?f = "new_ref dupMap"
  have own: "opt_list (ref_name (rename_ref dupMap r)) = map ?f (opt_list (ref_name r))"
    using ref_name_rename [OF assms, of r] by (cases "ref_name r") auto
  have item: "members (Some [map_option (?c \<circ> ?w) it]) = map ?f (members (Some [map_option ?c it]))"
    using Definition(1) by (cases it) (auto simp: members_def)
  have props: "members (map_option (map (map_option (?c \<circ> ?w))) (map_option (map snd) ps)) =
      map ?f (members (map_option (map (map_option ?c)) (map_option (map snd) ps)))"
    using Definition(2) by (intro members_map) fastforce
  have lists: "members (map_option (map (map_option (?c \<circ> ?w))) xs) = map ?f (members (map_option (map (map_option ?c)) xs))"
    if "xs = an \<or> xs = on \<or> xs = al" for xs
    using Definition(3-5) that by (intro members_map) fastforce
  have comp: "map_option (map snd) (map_option (map (map_prod id (map_option ?c))) (map_option (map (map_prod id (map_option ?w))) ps))
      = map_option (map (map_option (?c \<circ> ?w))) (map_option (map snd) ps)"
    "map_option (map snd) (map_option (map (map_prod id (map_option ?c))) ps) = map_option (map (map_option ?c)) (map_option (map snd) ps)"
    by (cases ps; auto simp: option.map_comp)+
  show ?case
    unfolding rewriteDefinitionRefs.simps collectDefinitionRefs.simps map_append comp props [symmetric] own
    using item lists [of an] lists [of on] lists [of al]
    by (simp add: option.map_comp o_def list.map_comp)
qed


section \<open>What the merged definitions are\<close>

lemma map_of_replace:
  "map_of (map (\<lambda>(k', v'). if k' = k then (k, v) else (k', v')) m) n =
     (if n = k then map_option (\<lambda>_. v) (map_of m k) else map_of m n)"
  by (induction m) (auto simp: split_beta)

lemma map_of_store: "map_of (store k v m) n = (if n = k then Some v else map_of m n)"
proof (cases "k \<in> fst ` set m")
  case True
  then obtain w where "map_of m k = Some w" by (metis map_of_eq_None_iff not_None_eq)
  then show ?thesis using True map_of_replace [of k v m n] by (simp add: store_def)
next
  case False
  then have "map_of m k = None" by (simp add: map_of_eq_None_iff)
  then show ?thesis using False by (simp add: store_def map_add_def split: option.split)
qed

lemma lookup_store: "lookup (store k v m) n = (if n = k then v else lookup m n)"
  by (auto simp: lookup_def map_of_store split: option.split)

lemma has_entry_map_of: "has_entry m n \<longleftrightarrow> map_of m n \<noteq> None"
  by (auto simp: has_entry_def map_of_eq_None_iff)

lemma has_entry_store: "has_entry (store k v m) n \<longleftrightarrow> n = k \<or> has_entry m n"
  by (simp add: has_entry_map_of map_of_store)

lemma lookup_has_entry: "lookup m n = Some d \<Longrightarrow> has_entry m n"
  by (auto simp: lookup_def has_entry_map_of split: option.splits)

text \<open>A definition is the stable one, or the unstable one where the stable schema has none or another.\<close>

definition blends :: "'v defs \<Rightarrow> 'v defs \<Rightarrow> 'v defs \<Rightarrow> string \<Rightarrow> bool" where
  "blends s u c n \<longleftrightarrow>
     (lookup c n = lookup s n \<and> has_entry c n = has_entry s n) \<or>
     (lookup c n = map_option deepCopyDefinition (lookup u n) \<and> lookup u n \<noteq> None \<and> lookup s n \<noteq> lookup u n)"

lemma promote_blends:
  "promote s u queue seen c promoted = (c', promoted') \<Longrightarrow> blends s u c n \<Longrightarrow> blends s u c' n"
proof (induction s u queue seen c promoted rule: promote.induct)
  case (2 s u name queue seen c promoted)
  show ?case
  proof (cases "lookup u name")
    case (Some d)
    let ?c = "if lookup s name = None \<or> lookup s name \<noteq> Some d then store name (Some (deepCopyDefinition d)) c else c"
    have "blends s u ?c n" using 2(4) Some by (auto simp: blends_def lookup_store has_entry_store)
    then show ?thesis using 2(2) [OF Some refl refl] 2(3) Some by (simp add: Let_def split: if_splits)
  qed (use 2 in simp)
qed simp

lemma add_missing_blends: "blends s u c n \<Longrightarrow> blends s u (add_missing u names c) n"
proof (induction names arbitrary: c)
  case (Cons r names)
  let ?c = "if has_entry c r then c
     else (case lookup u r of None \<Rightarrow> c | Some d \<Rightarrow> store r (Some (deepCopyDefinition d)) c)"
  have "blends s u ?c n"
  proof (cases "\<not> has_entry c r \<and> r = n \<and> lookup u n \<noteq> None")
    case True
    then have "lookup s n \<noteq> lookup u n"
      using Cons.prems lookup_has_entry [of c n] lookup_has_entry [of s n] by (auto simp: blends_def)
    then show ?thesis using True by (auto simp: blends_def lookup_store)
  next
    case False
    then show ?thesis using Cons.prems by (auto simp: blends_def lookup_store has_entry_store split: option.split)
  qed
  then show ?case using Cons.IH [of ?c] by (simp add: add_missing_def)
qed (simp add: add_missing_def)

lemma ensure_blends: "blends s u c n \<Longrightarrow> blends s u (ensure_refs u queue seen c) n"
proof (induction u queue seen c rule: ensure_refs.induct)
  case (2 u name queue seen c)
  show ?case
  proof (cases "def_or_unstable c u name")
    case (Some d)
    then show ?thesis using 2(2) [OF Some refl refl add_missing_blends [OF 2(3)]] by (simp add: Let_def)
  qed (use 2 in simp)
qed simp

text \<open>
  Which definitions are promoted: those that the unstable schema changed and that can be reached
  in it from the roots, over references to definitions it has.
\<close>

definition live_edges :: "'v defs \<Rightarrow> (string \<times> string) set" where
  "live_edges u = {(n, r). \<exists>d. lookup u n = Some d \<and> r \<in> set (collectDefinitionRefs d) \<and> lookup u r \<noteq> None}"

definition changed_def :: "'v defs \<Rightarrow> 'v defs \<Rightarrow> string \<Rightarrow> bool" where
  "changed_def s u n \<longleftrightarrow> lookup u n \<noteq> None \<and> lookup s n \<noteq> lookup u n"

lemma live_of: "lookup u n = Some d \<Longrightarrow> live_edges u `` {n} = {r \<in> set (collectDefinitionRefs d). lookup u r \<noteq> None}"
  by (auto simp: live_edges_def)

lemma promote_visits:
  assumes "promote s u queue seen c promoted = (c', promoted')" "set queue \<subseteq> set seen"
  shows "\<exists>F. set seen \<subseteq> F \<and> F \<subseteq> (live_edges u)\<^sup>* `` set seen \<and>
    (\<forall>n \<in> F - (set seen - set queue). live_edges u `` {n} \<subseteq> F) \<and>
    (\<forall>n. lookup c' n = (if n \<in> F - (set seen - set queue) \<and> changed_def s u n
       then map_option deepCopyDefinition (lookup u n) else lookup c n))"
  using assms
proof (induction s u queue seen c promoted rule: promote.induct)
  case (1 s u seen c promoted)
  then show ?case by (intro exI [of _ "set seen"]) auto
next
  case (2 s u name queue seen c promoted)
  show ?case
  proof (cases "lookup u name")
    case None
    have "promote s u queue seen c promoted = (c', promoted')" "set queue \<subseteq> set seen" using 2(3,4) None by simp_all
    from 2(1) [OF None this] obtain F where F: "set seen \<subseteq> F" "F \<subseteq> (live_edges u)\<^sup>* `` set seen"
      "\<forall>n \<in> F - (set seen - set queue). live_edges u `` {n} \<subseteq> F"
      "\<forall>n. lookup c' n = (if n \<in> F - (set seen - set queue) \<and> changed_def s u n
       then map_option deepCopyDefinition (lookup u n) else lookup c n)" by blast
    have "live_edges u `` {name} = {}" "\<not> changed_def s u name" using None by (auto simp: live_edges_def changed_def_def)
    then show ?thesis using F by (intro exI [of _ F] conjI) auto
  next
    case (Some d)
    let ?new = "fresh_refs (\<lambda>r. lookup u r \<noteq> None) seen d"
    let ?ch = "lookup s name = None \<or> lookup s name \<noteq> Some d"
    let ?c = "if ?ch then store name (Some (deepCopyDefinition d)) c else c"
    have new: "set ?new = {r \<in> live_edges u `` {name}. r \<notin> set seen}" by (auto simp: fresh_refs_set live_of [OF Some])
    have "promote s u (queue @ ?new) (seen @ ?new) ?c (if ?ch then promoted @ [name] else promoted) = (c', promoted')"
      "set (queue @ ?new) \<subseteq> set (seen @ ?new)" using 2(3,4) Some by (simp add: Let_def, auto)
    from 2(2) [OF Some refl refl this] obtain F where F: "set (seen @ ?new) \<subseteq> F"
      "F \<subseteq> (live_edges u)\<^sup>* `` set (seen @ ?new)"
      "\<forall>n \<in> F - (set (seen @ ?new) - set (queue @ ?new)). live_edges u `` {n} \<subseteq> F"
      "\<forall>n. lookup c' n = (if n \<in> F - (set (seen @ ?new) - set (queue @ ?new)) \<and> changed_def s u n
       then map_option deepCopyDefinition (lookup u n) else lookup ?c n)" by blast
    have left: "set (seen @ ?new) - set (queue @ ?new) = set seen - set queue" using new by auto
    have name: "name \<in> set seen" "live_edges u `` {name} \<subseteq> F" using 2(4) F(1) new by auto
    have "set (seen @ ?new) \<subseteq> (live_edges u)\<^sup>* `` set seen" using name(1) new by (auto intro: r_into_rtrancl)
    then have "F \<subseteq> (live_edges u)\<^sup>* `` set seen" using F(2) by (blast intro: rtrancl_trans)
    moreover have "lookup c' n = (if n \<in> F - (set seen - set (name # queue)) \<and> changed_def s u n
       then map_option deepCopyDefinition (lookup u n) else lookup c n)" for n
    proof (cases "n = name \<and> changed_def s u name")
      case True
      then have "lookup ?c n = map_option deepCopyDefinition (lookup u n)"
        using Some by (auto simp: lookup_store changed_def_def)
      moreover have "n \<in> F" using True name(1) F(1) by auto
      ultimately show ?thesis using spec [OF F(4), of n] True by simp
    next
      case False
      then have "lookup ?c n = lookup c n" using Some by (auto simp: lookup_store changed_def_def)
      moreover have "(n \<in> F - (set seen - set (name # queue)) \<and> changed_def s u n) =
          (n \<in> F - (set seen - set queue) \<and> changed_def s u n)" using False by auto
      ultimately show ?thesis using spec [OF F(4), of n] unfolding left by presburger
    qed
    moreover have "\<forall>n \<in> F - (set seen - set (name # queue)). live_edges u `` {n} \<subseteq> F"
      using F(3) name(2) unfolding left by auto
    moreover have "set seen \<subseteq> F" using F(1) by simp
    ultimately show ?thesis by (intro exI [of _ F] conjI allI)
  qed
qed

lemma promote_exact:
  assumes "promoteChangedSharedDefs s s u wires = (c1, promoted)"
  shows "lookup c1 n = (if n \<in> (live_edges u)\<^sup>* `` set (rpc_roots s wires) \<and> changed_def s u n
    then map_option deepCopyDefinition (lookup u n) else lookup s n)"
proof -
  let ?roots = "rpc_roots s wires"
  obtain F where F: "set ?roots \<subseteq> F" "F \<subseteq> (live_edges u)\<^sup>* `` set ?roots" "\<forall>n \<in> F. live_edges u `` {n} \<subseteq> F"
    "\<forall>n. lookup c1 n = (if n \<in> F \<and> changed_def s u n then map_option deepCopyDefinition (lookup u n) else lookup s n)"
    using promote_visits [of s u ?roots ?roots s "[]" c1 promoted] assms by (auto simp: promoteChangedSharedDefs_def)
  have "m \<in> F" if "(n, m) \<in> (live_edges u)\<^sup>*" "n \<in> F" for n m
    using that by (induction rule: rtrancl_induct) (use F(3) in blast)+
  then have "F = (live_edges u)\<^sup>* `` set ?roots" using F(1,2) by blast
  then show ?thesis using F(4) by blast
qed

text \<open>Later steps leave the entries alone that are there.\<close>

lemma add_missing_keeps: "has_entry c n \<Longrightarrow> lookup (add_missing u names c) n = lookup c n \<and> has_entry (add_missing u names c) n"
proof (induction names arbitrary: c)
  case (Cons r names)
  let ?c = "if has_entry c r then c
     else (case lookup u r of None \<Rightarrow> c | Some d \<Rightarrow> store r (Some (deepCopyDefinition d)) c)"
  have "lookup ?c n = lookup c n" "has_entry ?c n"
    using Cons.prems by (auto simp: lookup_store has_entry_store split: option.split)
  then show ?case using Cons.IH [of ?c] by (simp add: add_missing_def)
qed (simp add: add_missing_def)

lemma ensure_keeps: "has_entry c n \<Longrightarrow> lookup (ensure_refs u queue seen c) n = lookup c n \<and> has_entry (ensure_refs u queue seen c) n"
proof (induction u queue seen c rule: ensure_refs.induct)
  case (2 u name queue seen c)
  show ?case
  proof (cases "def_or_unstable c u name")
    case (Some d)
    let ?refs = "remdups (collectDefinitionRefs d)"
    have "has_entry (add_missing u ?refs c) n" "lookup (add_missing u ?refs c) n = lookup c n"
      using add_missing_keeps [OF 2(3)] by blast+
    then show ?thesis using 2(2) [OF Some refl refl] Some by (simp add: Let_def)
  qed (use 2 in simp)
qed simp

definition kept_or_promoted :: "'v defs \<Rightarrow> 'v defs \<Rightarrow> string list \<Rightarrow> 'v defs \<Rightarrow> bool" where
  "kept_or_promoted s u wires c \<longleftrightarrow> (\<forall>n d. lookup s n = Some d \<longrightarrow> has_entry c n \<and> lookup c n =
     (if n \<in> (live_edges u)\<^sup>* `` set (rpc_roots s wires) \<and> changed_def s u n
      then map_option deepCopyDefinition (lookup u n) else Some d))"

lemma combined_exact:
  assumes "promoteChangedSharedDefs s s u wires = (c1, promoted)"
  shows "kept_or_promoted s u wires (ensureRefsAvailable c1 u promoted)"
  unfolding kept_or_promoted_def
proof (intro allI impI)
  fix n d assume "lookup s n = Some d"
  note assms = assms this
  have l: "lookup c1 n = (if n \<in> (live_edges u)\<^sup>* `` set (rpc_roots s wires) \<and> changed_def s u n
      then map_option deepCopyDefinition (lookup u n) else Some d)" using promote_exact [OF assms(1), of n] assms(2) by simp
  then have "lookup c1 n \<noteq> None" by (auto simp: changed_def_def)
  then have "has_entry c1 n" using lookup_has_entry [of c1 n] by auto
  then show "has_entry (ensureRefsAvailable c1 u promoted) n \<and> lookup (ensureRefsAvailable c1 u promoted) n =
    (if n \<in> (live_edges u)\<^sup>* `` set (rpc_roots s wires) \<and> changed_def s u n
     then map_option deepCopyDefinition (lookup u n) else Some d)"
    using ensure_keeps [of c1 n u promoted promoted] l by (simp add: ensureRefsAvailable_def)
qed

lemma combined_blends:
  assumes "promoteChangedSharedDefs s s u wires = (c1, promoted)"
  shows "blends s u (ensureRefsAvailable c1 u promoted) n"
proof -
  have "blends s u s n" by (simp add: blends_def)
  then have "blends s u c1 n" using promote_blends assms unfolding promoteChangedSharedDefs_def by metis
  then show ?thesis by (simp add: ensureRefsAvailable_def ensure_blends)
qed

lemma add_copies_result:
  assumes "add_copies u wires dm rest c = Inr c'"
  shows "\<And>n. n \<notin> snd ` set rest \<Longrightarrow> lookup c' n = lookup c n"
    and "\<And>old new. (old, new) \<in> set rest \<Longrightarrow> \<not> has_entry c new \<and>
      (\<exists>d. lookup u old = Some d \<and> lookup c' new = Some (clear_root wires (rewriteDefinitionRefs dm (deepCopyDefinition d))))"
proof -
  have "(\<forall>n. n \<notin> snd ` set rest \<longrightarrow> lookup c' n = lookup c n) \<and> (\<forall>(old, new) \<in> set rest. \<not> has_entry c new \<and>
      (\<exists>d. lookup u old = Some d \<and> lookup c' new = Some (clear_root wires (rewriteDefinitionRefs dm (deepCopyDefinition d)))))"
    using assms
  proof (induction u wires dm rest c rule: add_copies.induct)
    case (2 u wires dm old new rest c)
    then have e: "\<not> has_entry c new" by (auto split: if_splits)
    then obtain d where d: "lookup u old = Some d" using 2(2) by (auto split: option.splits)
    let ?c = "store new (Some (clear_root wires (rewriteDefinitionRefs dm (deepCopyDefinition d)))) c"
    have "add_copies u wires dm rest ?c = Inr c'" using 2(2) e d by simp
    note IH = 2(1) [OF e d this]
    have "new \<notin> snd ` set rest" using IH by (fastforce simp: has_entry_store)
    then have "lookup c' new = Some (clear_root wires (rewriteDefinitionRefs dm (deepCopyDefinition d)))" using IH by (simp add: lookup_store)
    then show ?case using IH e d by (auto simp: lookup_store has_entry_store)
  qed simp
  then show "\<And>n. n \<notin> snd ` set rest \<Longrightarrow> lookup c' n = lookup c n"
    and "\<And>old new. (old, new) \<in> set rest \<Longrightarrow> \<not> has_entry c new \<and>
      (\<exists>d. lookup u old = Some d \<and> lookup c' new = Some (clear_root wires (rewriteDefinitionRefs dm (deepCopyDefinition d))))"
    by blast+
qed

lemma clear_root_refs [simp]: "collectDefinitionRefs (clear_root wires d) = collectDefinitionRefs d"
  by (cases d) (simp add: clear_root_def)


section \<open>The methods of the merged meta\<close>

lemma merge_methods_keep:
  "merge_methods wires src dst only = Inr (dst', only') \<Longrightarrow>
     (\<forall>k w. map_of dst k = Some w \<longrightarrow> map_of dst' k = Some w) \<and>
     (\<forall>w \<in> set only'. w \<in> set only \<or> (w \<noteq> [] \<and> w \<notin> set wires))"
proof (induction wires src dst only rule: merge_methods.induct)
  case (2 wires key wire src dst only)
  show ?case
  proof (cases "wire = [] \<or> wire \<in> set wires")
    case False
    have old: "map_of dst key = None \<or> map_of dst key = Some wire"
      and step: "merge_methods wires src (store key wire dst) (only @ [wire]) = Inr (dst', only')"
      using 2(4) False by (auto split: option.splits if_splits)
    have IH: "(\<forall>k w. map_of (store key wire dst) k = Some w \<longrightarrow> map_of dst' k = Some w) \<and>
        (\<forall>w \<in> set only'. w \<in> set (only @ [wire]) \<or> (w \<noteq> [] \<and> w \<notin> set wires))"
      using old 2(2) [OF False _ step] 2(3) [OF False _ _ step] by auto
    have "map_of (store key wire dst) k = Some w" if "map_of dst k = Some w" for k w
      using old that by (auto simp: map_of_store)
    then show ?thesis using IH False by auto
  qed (use 2 in auto)
qed simp

lemma mergeUnstable_keep:
  assumes "mergeUnstableOnlyMethods dst src wires only = Inr (dst', only')"
  shows "map_of (entries dst) k = Some w \<Longrightarrow> map_of (entries dst') k = Some w"
    and "\<forall>w \<in> set only'. w \<in> set only \<or> (w \<noteq> [] \<and> w \<notin> set wires)"
  using assms merge_methods_keep [of wires "entries src" "entries dst" only]
  by (auto simp: mergeUnstableOnlyMethods_def entries_def split: if_splits sum.splits)

lemma entries_clone [simp]: "entries (cloneStringMap m) = entries m"
  by (auto simp: cloneStringMap_def entries_def split: option.split)

lemma merge_meta_keep:
  assumes "merge_meta sm um = Inr (m, only)"
  shows "map_of (entries (AgentMethods sm)) k = Some w \<Longrightarrow> map_of (entries (AgentMethods m)) k = Some w"
    and "map_of (entries (ClientMethods sm)) k = Some w \<Longrightarrow> map_of (entries (ClientMethods m)) k = Some w"
    and "map_of (entries (ProtocolMethods sm)) k = Some w \<Longrightarrow> map_of (entries (ProtocolMethods m)) k = Some w"
    and "set only \<inter> set (stable_wires sm) = {}"
proof -
  obtain a o1 c o2 p where
    1: "mergeUnstableOnlyMethods (cloneStringMap (AgentMethods sm)) (AgentMethods um) (stable_wires sm) [] = Inr (a, o1)"
    and 2: "mergeUnstableOnlyMethods (cloneStringMap (ClientMethods sm)) (ClientMethods um) (stable_wires sm) o1 = Inr (c, o2)"
    and 3: "mergeUnstableOnlyMethods (cloneStringMap (ProtocolMethods sm)) (ProtocolMethods um) (stable_wires sm) o2 = Inr (p, only)"
    and m: "AgentMethods m = a" "ClientMethods m = c" "ProtocolMethods m = p"
    using assms by (auto simp: merge_meta_def Let_def split: sum.splits)
  show "map_of (entries (AgentMethods sm)) k = Some w \<Longrightarrow> map_of (entries (AgentMethods m)) k = Some w"
    and "map_of (entries (ClientMethods sm)) k = Some w \<Longrightarrow> map_of (entries (ClientMethods m)) k = Some w"
    and "map_of (entries (ProtocolMethods sm)) k = Some w \<Longrightarrow> map_of (entries (ProtocolMethods m)) k = Some w"
    using mergeUnstable_keep(1) [OF 1] mergeUnstable_keep(1) [OF 2] mergeUnstable_keep(1) [OF 3] by (simp_all add: m)
  show "set only \<inter> set (stable_wires sm) = {}"
    using mergeUnstable_keep(2) [OF 1] mergeUnstable_keep(2) [OF 2] mergeUnstable_keep(2) [OF 3] by fastforce
qed

lemma map_sum_Inr: "map_sum id f x = Inr y \<longleftrightarrow> (\<exists>z. x = Inr z \<and> y = f z)"
  by (cases x) auto

lemma merge_parts:
  assumes "MergeStableAndUnstable (Some sm) (Some s) (Some um) (Some u) = Inr (m, c)"
  obtains only dup c2 where "merge_meta sm um = Inr (m, only)" "buildUnstableDuplicateSet s u only = Inr dup"
    "\<forall>n. blends s u c2 n"
    "kept_or_promoted s u (stable_wires sm) c2"
    "add_copies u (stable_wires sm) (map (\<lambda>n. (n, unstable_name n)) dup) (map (\<lambda>n. (n, unstable_name n)) dup) c2 = Inr c"
proof -
  obtain c1 promoted where p: "promoteChangedSharedDefs s s u (stable_wires sm) = (c1, promoted)" by fastforce
  let ?dm = "\<lambda>dup. map (\<lambda>n. (n, unstable_name n)) dup"
  obtain only where mm: "merge_meta sm um = Inr (m, only)"
    using assms by (cases "merge_meta sm um") (auto simp: MergeStableAndUnstable_def map_sum_Inr p Let_def split: if_splits sum.splits)
  obtain dup where b: "buildUnstableDuplicateSet s u only = Inr dup"
    using assms by (cases "buildUnstableDuplicateSet s u only") (auto simp: MergeStableAndUnstable_def map_sum_Inr p mm Let_def split: if_splits)
  have "add_copies u (stable_wires sm) (?dm dup) (?dm dup) (ensureRefsAvailable c1 u promoted) = Inr c"
    using assms by (cases "add_copies u (stable_wires sm) (?dm dup) (?dm dup) (ensureRefsAvailable c1 u promoted)")
      (auto simp: MergeStableAndUnstable_def map_sum_Inr p mm b Let_def split: if_splits)
  then show thesis using that [OF mm b _ combined_exact [OF p]] combined_blends [OF p] by blast
qed

section \<open>An example\<close>

definition plain_node :: "string \<Rightarrow> string list \<Rightarrow> nat schema_node" where
  "plain_node m rs =
     Definition \<lparr>Description = [], Type = None, Format = [], Required = None, Enum = None, DocsIgnore = False,
       Title = [], Const = None, Minimum = None, MinLength = 0, MinItems = 0, Default = None,
       DeserializeDefaultOnNull = False, DeserializeDefaultOnError = False, DeserializeSkipInvalidItems = False,
       Discriminator = None, AdditionalProperties = None, UnevaluatedProperties = None, boolSchema = None\<rparr>
       [] (if m = [] then [] else ''agent'') m None None
       (Some (map (\<lambda>r. Some (Definition \<lparr>Description = [], Type = None, Format = [], Required = None, Enum = None,
         DocsIgnore = False, Title = [], Const = None, Minimum = None, MinLength = 0, MinItems = 0, Default = None,
         DeserializeDefaultOnNull = False, DeserializeDefaultOnError = False, DeserializeSkipInvalidItems = False,
         Discriminator = None, AdditionalProperties = None, UnevaluatedProperties = None, boolSchema = None\<rparr>
         (''#/$defs/'' @ r) [] [] None None None None None)) rs)) None None"

definition demo_stable :: "nat defs" where
  "demo_stable = [(''A'', Some (plain_node [] [])), (''OldRequest'', Some (plain_node ''old'' [''A'']))]"

definition demo_unstable :: "nat defs" where
  "demo_unstable = [(''A'', Some (plain_node [] [])), (''B'', Some (plain_node [] [''A''])),
     (''OldRequest'', Some (plain_node ''old'' [''A''])), (''NewRequest'', Some (plain_node ''new'' [''A'', ''B'']))]"

definition demo_meta :: "(string \<times> string) list \<Rightarrow> meta" where
  "demo_meta ms = \<lparr>m_Version = 1, AgentMethods = Some ms, ClientMethods = None, ProtocolMethods = None\<rparr>"

definition demo_merge :: "merge_error + meta \<times> nat defs" where
  "demo_merge = MergeStableAndUnstable (Some (demo_meta [(''old'', ''old'')])) (Some demo_stable)
     (Some (demo_meta [(''old'', ''old''), (''new'', ''new'')])) (Some demo_unstable)"

lemma demo_merge_ok: "\<exists>m c. demo_merge = Inr (m, c)"
proof -
  have "\<not> isl demo_merge" by code_simp
  then obtain r where "demo_merge = Inr r" by (metis isl_def sum.exhaust_sel)
  then show ?thesis by (metis prod.collapse)
qed

section \<open>Properties\<close>

text \<open>C32: For an unstable schema without nil definitions the traversal and the fixpoint loop end with a
  result, and in whatever order the maps are iterated it is the same set: the names reachable from
  the requests, responses and notifications of the unstable-only methods from which one of these
  roots, or a definition that is new or changed, can be reached.\<close>

theorem duplicate_set_exact:
  assumes "no_nil u"
  shows "\<exists>dup. buildUnstableDuplicateSet s u wires = Inr dup \<and>
    set dup = {n \<in> (ref_edges u)\<^sup>* `` unstable_roots u wires.
      \<exists>m. (n, m) \<in> (ref_edges u)\<^sup>* \<and> (m \<in> unstable_roots u wires \<or> new_or_changed s u m)}"
  using build_total [OF assms, of s wires] build_exact [of s u wires] by blast

lemma duplicate_set_exact_witness:
  "buildUnstableDuplicateSet demo_stable demo_unstable [''new''] = Inr [''NewRequest'', ''B''] \<and>
   {''NewRequest'', ''B''} = {n \<in> (ref_edges demo_unstable)\<^sup>* `` unstable_roots demo_unstable [''new''].
      \<exists>m. (n, m) \<in> (ref_edges demo_unstable)\<^sup>* \<and>
        (m \<in> unstable_roots demo_unstable [''new''] \<or> new_or_changed demo_stable demo_unstable m)}"
proof -
  have "no_nil demo_unstable"
    by (auto simp: no_nil_def has_entry_def lookup_def demo_unstable_def)
  moreover have b: "buildUnstableDuplicateSet demo_stable demo_unstable [''new''] = Inr [''NewRequest'', ''B'']" by code_simp
  ultimately show ?thesis using duplicate_set_exact [of demo_unstable demo_stable "[''new'']"] by simp
qed

text \<open>C33: In a merged schema a definition copied under the prefix takes no name from the stable schema, and
  its references resolve as they did in the unstable schema: each one either leads to another copy
  or to a name whose definition is the same in the stable, the unstable and the merged schema.\<close>

theorem copies_refer_safely:
  assumes merged: "MergeStableAndUnstable (Some sm) (Some s) (Some um) (Some u) = Inr (m, c)"
  shows "\<exists>only dup. merge_meta sm um = Inr (m, only) \<and> buildUnstableDuplicateSet s u only = Inr dup \<and>
    (\<forall>n \<in> set dup. lookup s (unstable_name n) = None \<and>
      (\<exists>d copy. lookup u n = Some d \<and> lookup c (unstable_name n) = Some copy \<and>
        (\<forall>r \<in> set (collectDefinitionRefs copy).
          (\<exists>k \<in> set dup. r = unstable_name k \<and> lookup c r \<noteq> None) \<or>
          (r \<in> set (collectDefinitionRefs d) \<and>
            (has_entry u r \<longrightarrow> lookup u r \<noteq> None \<and> lookup s r = lookup u r \<and> lookup c r = lookup u r)))))"
proof -
  obtain only dup c2 where mm: "merge_meta sm um = Inr (m, only)" and b: "buildUnstableDuplicateSet s u only = Inr dup"
    and bl: "\<forall>n. blends s u c2 n"
    and "kept_or_promoted s u (stable_wires sm) c2"
    and ac: "add_copies u (stable_wires sm) (map (\<lambda>n. (n, unstable_name n)) dup) (map (\<lambda>n. (n, unstable_name n)) dup) c2 = Inr c"
    using merge_parts [OF merged] .
  let ?dm = "map (\<lambda>n. (n, unstable_name n)) dup"
  have "lookup s (unstable_name n) = None \<and>
      (\<exists>d copy. lookup u n = Some d \<and> lookup c (unstable_name n) = Some copy \<and>
        (\<forall>r \<in> set (collectDefinitionRefs copy).
          (\<exists>k \<in> set dup. r = unstable_name k \<and> lookup c r \<noteq> None) \<or>
          (r \<in> set (collectDefinitionRefs d) \<and>
            (has_entry u r \<longrightarrow> lookup u r \<noteq> None \<and> lookup s r = lookup u r \<and> lookup c r = lookup u r))))"
    if n: "n \<in> set dup" for n
  proof -
    have new: "\<forall>new \<in> snd ` set ?dm. new \<noteq> []" by (auto simp: unstable_name_def)
    have made: "\<not> has_entry c2 (unstable_name k) \<and> (\<exists>d. lookup u k = Some d \<and>
        lookup c (unstable_name k) = Some (clear_root (stable_wires sm) (rewriteDefinitionRefs ?dm (deepCopyDefinition d))))" if "k \<in> set dup" for k
      using add_copies_result(2) [OF ac, of k "unstable_name k"] that by auto
    obtain d where d: "lookup u n = Some d"
      and copy: "lookup c (unstable_name n) = Some (clear_root (stable_wires sm) (rewriteDefinitionRefs ?dm (deepCopyDefinition d)))"
      using made [OF n] by blast
    have kept: "lookup u x \<noteq> None \<and> lookup s x = lookup u x \<and> lookup c x = lookup u x"
      if x: "x \<in> set (collectDefinitionRefs d)" "x \<notin> set dup" "has_entry u x" for x
    proof -
      have "(n, x) \<in> ref_edges u" using d x by (auto simp: ref_edges_def)
      then have "x \<in> (ref_edges u)\<^sup>* `` unstable_roots u only"
        using n build_exact [OF b] by (blast intro: rtrancl_into_rtrancl)
      then have "\<not> new_or_changed s u x" using x(2) build_exact [OF b] by blast
      then have sx: "lookup s x = lookup u x \<and> lookup s x \<noteq> None"
        using x(3) unfolding new_or_changed_def by metis
      then have un: "lookup u x \<noteq> None" by metis
      have c2: "lookup c2 x = lookup u x" using spec [OF bl, of x] sx unfolding blends_def by metis
      then have "has_entry c2 x" using un lookup_has_entry [of c2 x] by (metis not_None_eq)
      then have "x \<notin> snd ` set ?dm" using made by auto
      then have "lookup c x = lookup c2 x" by (rule add_copies_result(1) [OF ac])
      then show ?thesis using sx un c2 by simp
    qed
    have dm: "new_ref ?dm x = (if x \<in> set dup then unstable_name x else x)" for x
      by (auto simp: new_ref_def map_of_map_restrict restrict_map_def)
    have "(\<exists>k \<in> set dup. r = unstable_name k \<and> lookup c r \<noteq> None) \<or>
          (r \<in> set (collectDefinitionRefs d) \<and> (has_entry u r \<longrightarrow> lookup u r \<noteq> None \<and> lookup s r = lookup u r \<and> lookup c r = lookup u r))"
      if "r \<in> set (map (new_ref ?dm) (collectDefinitionRefs d))" for r
      using that kept made by (fastforce simp: dm split: if_splits)
    moreover have "lookup s (unstable_name n) = None"
      using spec [OF bl, of "unstable_name n"] made [OF n] lookup_has_entry [of c2 "unstable_name n"]
        lookup_has_entry [of s "unstable_name n"]
      by (cases "lookup s (unstable_name n)"; cases "lookup c2 (unstable_name n)") (auto simp: blends_def)
    ultimately show ?thesis using d copy by (simp add: refs_rewrite [OF new])
  qed
  then show ?thesis using mm b by blast
qed

lemma copies_refer_safely_witness:
  "\<exists>m c copy. demo_merge = Inr (m, c) \<and> lookup c ''UnstableNewRequest'' = Some copy \<and> lookup demo_stable ''UnstableNewRequest'' = None"
proof -
  obtain m c where ok: "demo_merge = Inr (m, c)" using demo_merge_ok by blast
  obtain only dup where "merge_meta (demo_meta [(''old'', ''old'')]) (demo_meta [(''old'', ''old''), (''new'', ''new'')]) = Inr (m, only)"
    and b: "buildUnstableDuplicateSet demo_stable demo_unstable only = Inr dup"
    and safe: "\<forall>n \<in> set dup. lookup demo_stable (unstable_name n) = None \<and>
      (\<exists>d copy. lookup demo_unstable n = Some d \<and> lookup c (unstable_name n) = Some copy)"
    using copies_refer_safely [OF ok [unfolded demo_merge_def]] by blast
  moreover have "map_sum id snd (merge_meta (demo_meta [(''old'', ''old'')]) (demo_meta [(''old'', ''old''), (''new'', ''new'')]))
      = Inr [''new'']" by code_simp
  ultimately have "only = [''new'']" by simp
  moreover have "buildUnstableDuplicateSet demo_stable demo_unstable [''new''] = Inr [''NewRequest'', ''B'']" by code_simp
  ultimately have "''NewRequest'' \<in> set dup" using b by auto
  then obtain copy where "lookup c (unstable_name ''NewRequest'') = Some copy"
    and "lookup demo_stable (unstable_name ''NewRequest'') = None" using safe by blast
  moreover have "unstable_name ''NewRequest'' = ''UnstableNewRequest''" by (simp add: unstable_name_def)
  ultimately show ?thesis using ok by metis
qed

text \<open>C34: Merging keeps every stable method mapping, and exactly these stable definitions stay as
  they are: all but those that the unstable schema defines otherwise and that can be reached in
  the unstable schema from the requests, responses and notifications of the stable methods. Such
  a definition is replaced by a copy of the unstable one, under its own name. So the comment of
  \<open>MergeStableAndUnstable\<close>, that all stable definitions stay unchanged, holds only when no
  definition of this kind exists.\<close>

theorem stable_definitions_exact:
  assumes merged: "MergeStableAndUnstable (Some sm) (Some s) (Some um) (Some u) = Inr (m, c)"
  shows "(map_of (entries (AgentMethods sm)) k = Some w \<longrightarrow> map_of (entries (AgentMethods m)) k = Some w) \<and>
    (map_of (entries (ClientMethods sm)) k = Some w \<longrightarrow> map_of (entries (ClientMethods m)) k = Some w) \<and>
    (map_of (entries (ProtocolMethods sm)) k = Some w \<longrightarrow> map_of (entries (ProtocolMethods m)) k = Some w) \<and>
    (lookup s n = Some d \<longrightarrow> lookup c n =
       (if n \<in> (live_edges u)\<^sup>* `` set (rpc_roots s (stable_wires sm)) \<and> lookup u n \<noteq> None \<and> lookup u n \<noteq> Some d
        then map_option deepCopyDefinition (lookup u n) else Some d))"
proof -
  obtain only dup c2 where mm: "merge_meta sm um = Inr (m, only)" and "buildUnstableDuplicateSet s u only = Inr dup"
    and "\<forall>n. blends s u c2 n"
    and kp: "kept_or_promoted s u (stable_wires sm) c2"
    and ac: "add_copies u (stable_wires sm) (map (\<lambda>n. (n, unstable_name n)) dup) (map (\<lambda>n. (n, unstable_name n)) dup) c2 = Inr c"
    using merge_parts [OF merged] .
  note c2 = kp [unfolded kept_or_promoted_def, rule_format]
  have "lookup c n = (if n \<in> (live_edges u)\<^sup>* `` set (rpc_roots s (stable_wires sm)) \<and> lookup u n \<noteq> None \<and> lookup u n \<noteq> Some d
        then map_option deepCopyDefinition (lookup u n) else Some d)" if d: "lookup s n = Some d"
  proof -
    have "n \<notin> snd ` set (map (\<lambda>n. (n, unstable_name n)) dup)" using c2 [OF d] add_copies_result(2) [OF ac] by fastforce
    then have "lookup c n = lookup c2 n" by (rule add_copies_result(1) [OF ac])
    moreover have "changed_def s u n \<longleftrightarrow> lookup u n \<noteq> None \<and> lookup u n \<noteq> Some d"
      using d by (auto simp: changed_def_def)
    ultimately show ?thesis using c2 [OF d] by simp
  qed
  then show ?thesis using merge_meta_keep [OF mm] by blast
qed

text \<open>A merge in which the unstable schema changed a definition that a stable request refers to.\<close>

definition demo_changed :: "nat defs" where
  "demo_changed = [(''A'', Some (plain_node [] [''A''])), (''OldRequest'', Some (plain_node ''old'' [''A'']))]"

lemma stable_definitions_exact_witness:
  "\<exists>m c. MergeStableAndUnstable (Some (demo_meta [(''old'', ''old'')])) (Some demo_stable)
       (Some (demo_meta [(''old'', ''old'')])) (Some demo_changed) = Inr (m, c) \<and>
     lookup c ''OldRequest'' = lookup demo_stable ''OldRequest'' \<and>
     lookup c ''A'' = Some (deepCopyDefinition (plain_node [] [''A'']))"
proof -
  let ?m = "demo_meta [(''old'', ''old'')]"
  have "\<not> isl (MergeStableAndUnstable (Some ?m) (Some demo_stable) (Some ?m) (Some demo_changed))" by code_simp
  then obtain m c where ok: "MergeStableAndUnstable (Some ?m) (Some demo_stable) (Some ?m) (Some demo_changed) = Inr (m, c)"
    by (metis isl_def sum.exhaust_sel prod.collapse)
  note exact = conjunct2 [OF conjunct2 [OF conjunct2 [OF stable_definitions_exact [OF ok]]], rule_format]
  have l: "lookup demo_stable ''A'' = Some (plain_node [] [])" "lookup demo_changed ''A'' = Some (plain_node [] [''A''])"
    "lookup demo_stable ''OldRequest'' = Some (plain_node ''old'' [''A''])"
    "lookup demo_changed ''OldRequest'' = Some (plain_node ''old'' [''A''])"
    by (simp_all add: lookup_def demo_stable_def demo_changed_def)
  have r: "rpc_roots demo_stable (stable_wires ?m) = [''OldRequest'']" "''A'' \<in> set (collectDefinitionRefs (plain_node ''old'' [''A'']))"
    "plain_node [] [''A''] \<noteq> plain_node [] []" by code_simp+
  have "(''OldRequest'', ''A'') \<in> live_edges demo_changed" using l r by (simp add: live_edges_def)
  then have "''A'' \<in> (live_edges demo_changed)\<^sup>* `` set (rpc_roots demo_stable (stable_wires ?m))"
    unfolding r(1) by (auto intro: r_into_rtrancl)
  then have "lookup c ''A'' = Some (deepCopyDefinition (plain_node [] [''A'']))"
    using exact [OF l(1)] l(2) r(3) by simp
  moreover have "lookup c ''OldRequest'' = lookup demo_stable ''OldRequest''" using exact [OF l(3)] l by simp
  ultimately show ?thesis using ok by blast
qed

end
