(* ===== verification/Spec2Isabelle.thy ===== *)
theory Spec2Isabelle
  imports WireElicit Prepared Connection Dispatch Drift Negotiate Writes Requests Process SchemaMerge
begin

text \<open>
  A verification development for the Go SDK of the Agent Client Protocol: the JSON-RPC
  connection over newline-delimited JSON (\<open>connection.go\<close>, \<open>prepared_request.go\<close>, \<open>frame.go\<close>,
  \<open>request_id.go\<close>), the types of the protocol (\<open>types_gen.go\<close>), the dispatch to agents and
  clients, the experimental v2 profile, the child process of an agent, the tool that watches the
  upstream releases, and the merge of the schemas from which the types are generated.

  \<^bold>\<open>How the program works.\<close> A connection reads lines. Each line is a frame: one message, a batch,
  or malformed (\<open>ParseTransportFrame\<close>). A message is a request, which reserves its id, is
  queued, handled and answered; a notification, which joins one ordered pipeline; a response,
  which ends a pending request of this side; or a cancellation. Own requests are registered in
  the table of pending requests, their payload goes through the queue of writes, and the
  caller that waits gets the response after the notifications the peer sent before it. Closing
  the connection ends everything that is waiting.

  \<^bold>\<open>The theories.\<close>
  \<^item> \<open>Prelude\<close>: bytes, strings and decimal numerals as Go has them, reachability and the locales
    \<open>invariant_system\<close> (a step relation with an invariant) and \<open>part_of\<close> (a component inside a
    larger state), lemmas on lists.
  \<^item> \<open>Json\<close>, \<open>JsonFacts\<close>: the part of \<open>encoding/json\<close> that the program uses, byte for byte
    (scanning, raw values, quoting, compaction), and what the printer and the parser agree on.
  \<^item> \<open>JsonPrint\<close>, \<open>Codec\<close>, \<open>CodecFacts\<close>, \<open>GoAny\<close>: how \<open>encoding/json\<close> encodes and decodes a Go
    type, as combinators: a codec for each kind of type (strings, integers, floats, \<open>any\<close>,
    pointers, slices, maps, structs with their tags), and the parts of which the generated methods
    consist (required members, typed variants, defaults, lenient lists, patches). \<open>CodecFacts\<close>
    shows of each combinator that a fine value is encoded as a text that decodes to it.
  \<^item> \<open>Wire\<close>, \<open>Nullable\<close>: the locale \<open>wire_type\<close>, what a generated type promises on the wire, and
    the locale \<open>nullable_field\<close>, the contract of a field that tells an absent member from a null
    one (\<open>nullable_field.go\<close>). The theories of the types interpret them.
  \<^item> \<open>WireContent\<close>, \<open>WireTool\<close>, \<open>WireConfig\<close>, \<open>WireUpdate\<close>, \<open>WireSession\<close>, \<open>WireTerminal\<close>,
    \<open>WireSetup\<close>, \<open>WireRpc\<close>, \<open>WireElicit\<close>: the types of \<open>types_gen.go\<close>, a subsection for each with
    its record, its fields and tags, \<open>UnmarshalJSON\<close>, \<open>MarshalJSON\<close> and \<open>Validate\<close>: content
    blocks; tool calls, permissions and plans; options and modes of a session; session updates;
    sessions and prompts; files and terminals; the handshake; JSON-RPC messages and error codes;
    elicitation. Of each type they show the round trip and that \<open>Validate\<close> accepts what the round
    trip allows; of some also what decoding accepts and what it gives: prompts, content blocks, updates
    of the session's information, authentication methods and error codes.
  \<^item> \<open>Errors\<close>: \<open>errors.go\<close>, \<open>transport_error.go\<close> and the error types of
    \<open>prepared_request.go\<close>; \<open>errors.Is\<close> and \<open>errors.As\<close> on trees of errors.
  \<^item> \<open>RequestId\<close>: \<open>request_id.go\<close>. The canonical key of an id is related to the rational number
    or the string that the id denotes; its length is bounded.
  \<^item> \<open>Frame\<close>: \<open>frame.go\<close> and the encoders of \<open>connection.go\<close>; round trip and one line per message.
  \<^item> \<open>Channel\<close>, \<open>Options\<close>: buffered channels behind the locale \<open>bounded_fifo\<close>, and the limits of a
    connection.
  \<^item> \<open>Notifications\<close>: the queue, the watermark \<open>completedNotificationSeq\<close>, the byte budget and the
    re-entrant loop.
  \<^item> \<open>Pending\<close>: the table of own requests (\<open>addPending\<close> to \<open>shutdown\<close>) with the delivery slots.
  \<^item> \<open>Prepared\<close>: the goroutines that dispatch, write, wait for, observe, cancel and abandon one
    prepared request, interleaved critical section by critical section; the classification of
    submissions. Any number of dispatches may run at the same time; that no second one gets past
    the check of the phase is shown, not assumed.
  \<^item> \<open>Batch\<close>: the slots of a batch reply and the callbacks that run after a response.
  \<^item> \<open>Connection\<close>: the state of a connection and the step relation \<open>c_step\<close> of its goroutines. Its
    table of requests and its notification pipeline are shown to make steps of \<open>Pending\<close> and
    \<open>Notifications\<close>, so that what is proved there holds in it. It sends in one step; the field
    \<open>late\<close> says what becomes of a frame whose sending races with the end of the connection, which
    may still reach the peer with its sender told so or not.
  \<^item> \<open>Writes\<close>: the queue of writes with the goroutine that empties it: what the peer receives, and
    that the end of the connection lets at most one more frame through. The one-step send of
    \<open>Connection\<close> is one of its runs.
  \<^item> \<open>Requests\<close>: the blocking \<open>SendRequest\<close> on top of prepared requests and the errors it returns.
  \<^item> \<open>Process\<close>: \<open>transport/stdio/process.go\<close> and \<open>process_unix.go\<close>: the goroutines that close,
    shut down, terminate and reap the child process, with the answers of the operating system
    as parameters.
  \<^item> \<open>Dispatch\<close>: \<open>agent_gen.go\<close>, \<open>client_gen.go\<close>, \<open>inbound_context.go\<close>, \<open>extensions.go\<close>,
    \<open>session_update_raw.go\<close> and the cancellation of prompts.
  \<^item> \<open>Negotiate\<close>: \<open>experimental/v2\<close>: the handshake, the choice of a version, the router and the
    handlers.
  \<^item> \<open>Version\<close>, \<open>Drift\<close>: \<open>cmd/upstreamdrift\<close>: the order of release tags, the lock file, and the
    report of newer releases.
  \<^item> \<open>SchemaMerge\<close>: \<open>cmd/generate/internal/load/merge.go\<close>, the merge of the stable and the unstable
    schema from which the code is generated: which definitions are duplicated, that no reference
    of a copy is lost, and exactly which stable definitions stay as they are.

  \<^bold>\<open>How to read the model.\<close> A struct is a record with the field names of the source, an operation
  a definition with its name. What one critical section or one channel operation does is one
  definition; goroutines are the rules of an inductive step relation, and a property of a
  component holds in every reachable state of it. Errors are values of \<open>go_error\<close> or
  \<open>request_error\<close>; a function that can fail returns a sum, \<open>Inl\<close> being the error. The counter of
  own ids is a 64-bit word. Integers of Go are \<open>int\<close> or \<open>nat\<close> where the source bounds them.

  \<^bold>\<open>Parameters.\<close> The handler, the observers, hooks and callbacks, the transport's writer, the texts
  of the errors of \<open>encoding/json\<close>, the answers of GitHub and those of the operating system are
  arguments of the definitions that use them. \<open>Dispatch\<close> and \<open>Negotiate\<close> take the decoding and
  the validation of parameters as arguments too, since what they show holds for any of them.

  \<^bold>\<open>Recursion.\<close> There is no fuel: every definition is total. The scanner of numerals and strings,
  quoting, and the loops over queues end by a measure on what is left to read; the traversals of
  schemas by the number of names not yet seen.

  \<^bold>\<open>Not modelled.\<close> Of \<open>types_gen.go\<close>, the unions of elicitation that keep an unknown variant as raw
  data (\<open>CreateElicitationRequest\<close>, \<open>CreateElicitationResponse\<close>, \<open>ElicitationPropertySchema\<close>,
  \<open>MultiSelectItems\<close>), \<open>ElicitationContentValue\<close> and the types that contain them; the types of the
  v2 profile, which the same emitter prints; the constants of the string types. The emitters, which
  use the third-party package jennifer; the helpers that construct values of those types; the
  process trees of Windows, the files of \<open>transport/stdio\<close> and \<open>cmd/schemaverify\<close>, which are calls
  of the operating system;
  logging; the examples. The scheduler is the choice of the next step; that a goroutine that
  can run eventually runs is not stated, so liveness is stated as the absence of waiting.
\<close>

end
